(* ===== verification/Prelude.thy ===== *)
theory Prelude
  imports Main "HOL-Library.Word"
begin

text \<open>
  What every component of the development shares: the machine types of the C
  sources under their usual names, the collections of facts the component
  proofs are driven by, and generic lemmas on words, byte/bit conversions and
  on lists used as C arrays.

  Arrays are lists of fixed length, written with \<open>xs[i := v]\<close> and read with
  \<open>xs ! i\<close>; that every index stays inside the array is part of each component's
  invariant.
\<close>

unbundle bit_operations_syntax

section \<open>Machine types\<close>

type_synonym u8 = "8 word"
type_synonym u16 = "16 word"
type_synonym u32 = "32 word"
type_synonym u64 = "64 word"

section \<open>Collections of facts\<close>

named_theorems wire_simps \<open>equations that execute the port-level operations\<close>
named_theorems table_defs \<open>definitions of the constant tables\<close>
named_theorems wf_intros \<open>preservation of the component invariants\<close>

section \<open>Bytes and bits\<close>

text \<open>The eight bits of a byte, least significant first, and back.\<close>

definition bits_lsb :: "u8 \<Rightarrow> bool list" where
  "bits_lsb b = map (bit b) [0..<8]"

definition byte_of_bits_lsb :: "bool list \<Rightarrow> u8" where
  "byte_of_bits_lsb bs = horner_sum of_bool 2 bs"

lemma length_bits_lsb [simp]: "length (bits_lsb b) = 8"
  by (simp add: bits_lsb_def)

lemma nth_bits_lsb: "i < 8 \<Longrightarrow> bits_lsb b ! i = bit b i"
  by (simp add: bits_lsb_def)

lemma byte_of_bits_lsb_inverse [simp]: "byte_of_bits_lsb (bits_lsb b) = b"
proof -
  have "horner_sum of_bool 2 (map (bit b) [0..<8]) = take_bit 8 b"
    by (rule horner_sum_bit_eq_take_bit)
  also have "\<dots> = b"
    by (simp add: take_bit_word_eq_self)
  finally show ?thesis
    by (simp add: bits_lsb_def byte_of_bits_lsb_def)
qed

text \<open>The bits of a word, most significant first, and back.\<close>

definition bits_msb :: "'a::len word \<Rightarrow> bool list" where
  "bits_msb w = rev (map (bit w) [0..<LENGTH('a)])"

definition word_of_bits_msb :: "bool list \<Rightarrow> 'a::len word" where
  "word_of_bits_msb bs = horner_sum of_bool 2 (rev bs)"

lemma length_bits_msb [simp]: "length (bits_msb (w :: 'a::len word)) = LENGTH('a)"
  by (simp add: bits_msb_def)

lemma word_of_bits_msb_inverse [simp]: "word_of_bits_msb (bits_msb w) = (w :: 'a::len word)"
proof -
  have "horner_sum of_bool 2 (map (bit w) [0..<LENGTH('a)]) = take_bit LENGTH('a) w"
    by (rule horner_sum_bit_eq_take_bit)
  also have "\<dots> = w"
    by (simp add: take_bit_word_eq_self)
  finally show ?thesis
    by (simp add: bits_msb_def word_of_bits_msb_def)
qed

text \<open>Low and high nibble of a byte, and the byte they make.\<close>

definition lo_nib :: "u8 \<Rightarrow> u8" where
  "lo_nib b = b AND 0x0F"

definition hi_nib :: "u8 \<Rightarrow> u8" where
  "hi_nib b = drop_bit 4 b AND 0x0F"

text \<open>
  Bit facts about bytes are proved on the eight bits: a byte equation is eight
  boolean equations, and the bits of a literal are decided by the simplifier.
\<close>

lemma all_below_8: "(\<forall>n < (8::nat). P n) \<longleftrightarrow> P 0 \<and> P 1 \<and> P 2 \<and> P 3 \<and> P 4 \<and> P 5 \<and> P 6 \<and> P 7"
  by (simp add: numeral_eq_Suc All_less_Suc conj_assoc) blast

lemma byte_eqI:
  fixes a b :: u8
  assumes "bit a 0 = bit b 0" "bit a 1 = bit b 1" "bit a 2 = bit b 2" "bit a 3 = bit b 3"
    "bit a 4 = bit b 4" "bit a 5 = bit b 5" "bit a 6 = bit b 6" "bit a 7 = bit b 7"
  shows "a = b"
proof (rule bit_word_eqI)
  fix n :: nat
  assume "n < LENGTH(8)"
  then have "n < 8" by simp
  moreover have "\<forall>n < (8::nat). bit a n = bit b n"
    using assms by (simp add: all_below_8)
  ultimately show "bit a n = bit b n" by blast
qed

lemma bit_byte_high: "8 \<le> n \<Longrightarrow> \<not> bit (b :: u8) n"
  using bit_imp_le_length [of b n] by auto

lemma byte_nibbles: "lo_nib b OR push_bit 4 (hi_nib b) = b"
  by (rule byte_eqI) (simp_all add: lo_nib_def hi_nib_def bit_simps)

lemma lo_nib_idem [simp]: "lo_nib b AND 0x0F = lo_nib b"
  by (simp add: lo_nib_def and.assoc)

lemma hi_nib_idem [simp]: "hi_nib b AND 0x0F = hi_nib b"
  by (simp add: hi_nib_def and.assoc)

lemma xor_cancel_right [simp]: "(x XOR k) XOR k = (x :: 'a::len word)"
  by (simp add: xor.assoc)

section \<open>Lists as arrays\<close>

lemma nth_list_update_if:
  "i < length xs \<Longrightarrow> xs[j := v] ! i = (if i = j then v else xs ! i)"
  by auto

lemma take_update_snoc:
  assumes "n < length xs"
  shows "take (Suc n) (xs[n := v]) = take n xs @ [v]"
  using assms by (simp add: take_Suc_conv_app_nth)

lemma take_two_updates:
  assumes "Suc n < length xs"
  shows "take (n + 2) (xs[n := a, Suc n := b]) = take n xs @ [a, b]"
proof -
  have "take (Suc (Suc n)) (xs[n := a, Suc n := b]) = take (Suc n) (xs[n := a]) @ [b]"
    using assms by (subst take_update_snoc) simp_all
  also have "\<dots> = (take n xs @ [a]) @ [b]"
    using assms by (subst take_update_snoc) simp_all
  finally show ?thesis by simp
qed

lemma update_pair_eq:
  assumes "n + 2 \<le> length xs"
  shows "xs[n := a, Suc n := b] = take n xs @ [a, b] @ drop (n + 2) xs"
proof -
  have "xs[n := a, Suc n := b] =
      take (n + 2) (xs[n := a, Suc n := b]) @ drop (n + 2) (xs[n := a, Suc n := b])"
    by (rule append_take_drop_id [symmetric])
  also have "\<dots> = (take n xs @ [a, b]) @ drop (n + 2) xs"
    using assms by (subst take_two_updates) (simp_all add: drop_update_cancel)
  finally show ?thesis by simp
qed

lemma list_eq_nthI:
  "length xs = length ys \<Longrightarrow> (\<And>i. i < length ys \<Longrightarrow> xs ! i = ys ! i) \<Longrightarrow> xs = ys"
  by (rule nth_equalityI) auto

end
