(* ===== verification/Stream_Codec.thy ===== *)
theory Stream_Codec
  imports Prelude
begin

text \<open>
  The byte codecs of the program are all of one kind: a walk over a small key
  state, and every byte XORed with a mask the walk supplies.  The 1999 dongle's
  two keystreams (\<open>pp_next_key\<close>, \<open>pp_next_key1\<close>), the 2008 reader's two
  (\<open>sc_tx_next\<close>, \<open>sc_rx_apply\<close>) and the record cipher (\<open>sc_lcg\<close>) each
  interpret the locale below with their own step, so that both ends of each wire
  decode what the other encodes.
\<close>

unbundle bit_operations_syntax

text \<open>Running a codec step over a list of bytes, as the C loops do.\<close>

fun run_codec :: "('s \<Rightarrow> u8 \<Rightarrow> u8 \<times> 's) \<Rightarrow> 's \<Rightarrow> u8 list \<Rightarrow> u8 list \<times> 's" where
  "run_codec app s [] = ([], s)"
| "run_codec app s (x # xs) =
     (fst (app s x) # fst (run_codec app (snd (app s x)) xs),
      snd (run_codec app (snd (app s x)) xs))"

lemma length_run_codec [simp]: "length (fst (run_codec app s xs)) = length xs"
  by (induction xs arbitrary: s) auto

lemma run_codec_Nil_iff [simp]: "fst (run_codec app s xs) = [] \<longleftrightarrow> xs = []"
  by (cases xs) auto

lemma run_codec_append:
  "run_codec app s (xs @ ys) =
     (fst (run_codec app s xs) @ fst (run_codec app (snd (run_codec app s xs)) ys),
      snd (run_codec app (snd (run_codec app s xs)) ys))"
  by (induction xs arbitrary: s) auto

text \<open>
  The contract of a codec step: its output is the input under a mask that
  depends on the key state alone, and so does the next state.
\<close>

locale stream_codec =
  fixes app :: "'s \<Rightarrow> u8 \<Rightarrow> u8 \<times> 's"
    and mask_of :: "'s \<Rightarrow> u8"
    and walk :: "'s \<Rightarrow> 's"
  assumes app_eq: "app s x = (x XOR mask_of s, walk s)"
begin

lemma run_Cons:
  "run_codec app s (x # xs) =
     ((x XOR mask_of s) # fst (run_codec app (walk s) xs), snd (run_codec app (walk s) xs))"
  by (simp add: app_eq)

lemma run_state: "snd (run_codec app s xs) = (walk ^^ length xs) s"
proof (induction xs arbitrary: s)
  case Nil
  show ?case by simp
next
  case (Cons x xs)
  then show ?case by (simp add: run_Cons funpow_swap1 del: run_codec.simps(2))
qed

lemma run_nth:
  "i < length xs \<Longrightarrow> fst (run_codec app s xs) ! i = xs ! i XOR mask_of ((walk ^^ i) s)"
proof (induction xs arbitrary: s i)
  case Nil
  then show ?case by simp
next
  case (Cons x xs)
  show ?case
  proof (cases i)
    case 0
    then show ?thesis by (simp add: run_Cons del: run_codec.simps(2))
  next
    case (Suc j)
    with Cons.prems have "j < length xs" by simp
    from Cons.IH [OF this, of "walk s"] Suc show ?thesis
      by (simp add: run_Cons funpow_swap1 del: run_codec.simps(2))
  qed
qed

text \<open>Decoding with the same starting key gives the message back.\<close>

lemma run_inverse: "fst (run_codec app s (fst (run_codec app s xs))) = xs"
  by (rule nth_equalityI) (simp_all add: run_nth)

text \<open>The mask a byte gets does not depend on the data before it.\<close>

lemma run_take: "fst (run_codec app s (take n xs)) = take n (fst (run_codec app s xs))"
  by (rule nth_equalityI) (simp_all add: run_nth)

lemma run_state_length: "length xs = length ys \<Longrightarrow>
    snd (run_codec app s xs) = snd (run_codec app s ys)"
  by (simp add: run_state)

lemma run_inj: "fst (run_codec app s xs) = fst (run_codec app s ys) \<longleftrightarrow> xs = ys"
  by (metis run_inverse)

end

end
