(* ===== verification/Nibble_Link.thy ===== *)
theory Nibble_Link
  imports Stream_Codec
begin

text \<open>
  The 1999 dongle of \<open>src/src/device/dongle_photoplay.c\<close>: bytes arrive as two
  nibbles latched on STROBE, a type byte opens a transaction of fixed length,
  and the answer goes back as nibbles under a BUSY/ack handshake.

  The record \<open>nib\<close> holds the fields of \<open>pp_t\<close> this half uses, under their C
  names; the counters \<open>pp_t\<close> keeps for the log only are left out.
\<close>

unbundle bit_operations_syntax

section \<open>State\<close>

definition PP_OUT_MAX :: nat where "PP_OUT_MAX = 512"
definition PP_IN_MAX :: nat where "PP_IN_MAX = 256"
definition PP_BLOCK :: nat where "PP_BLOCK = 62"

record nib =
  in_nib :: u8
  in_have :: bool
  last_data :: u8
  cmd :: "u8 list"
  cmd_len :: nat
  out :: "u8 list"
  out_len :: nat
  out_pos :: nat
  busy :: bool
  block :: "u8 list"

text \<open>Bytes sent and expected back, indexed by the type byte.\<close>

definition pp_send_len :: "nat list" where "pp_send_len = [0, 10, 50, 2]"
definition pp_recv_len :: "nat list" where "pp_recv_len = [0, 4, 0, 48]"

declare pp_send_len_def [table_defs] pp_recv_len_def [table_defs]

section \<open>The keystreams and the type 1 hash\<close>

definition pp_next_key :: "u8 \<Rightarrow> u8" where
  "pp_next_key k =
     (let k = k + 0x75;
          k = (if k < 0x28 then 0xCB else k)
      in if k > 0xC8 then 0x13 else k)"

definition pp_next_key1 :: "u8 \<Rightarrow> u8" where
  "pp_next_key1 k =
     (let k = k + 0x25;
          k = (if k < 0x1E then 0x7B else k)
      in if k > 0xAE then 0x17 else k)"

text \<open>
  \<open>(v0 + v1) & 3\<close> is computed in \<open>int\<close> in the source; its two low bits are those
  of the byte sum.
\<close>

definition pp_type1 :: "u8 list \<Rightarrow> u8 list" where
  "pp_type1 name =
     (let v0 = 4 * name ! 0 + 0x11 + 3 * name ! 1;
          v1 = 7 * name ! 2 + 0xA7 + 2 * name ! 3;
          v2 = 4 * name ! 4 + 0x75 + 7 * name ! 5;
          v3 = name ! 6 + 0x17 + 4 * name ! 7;
          sel = (v0 + v1) AND 3
      in if sel = 0 then [v0, v1, v2, 6 * v3 + v1 + 0x75]
         else if sel = 1 then [v0, v1, v0 + 2 * v3 + 0x0C, v3]
         else if sel = 2 then [v0, 4 * v0 + 0x37 + 4 * v1, v2, v3]
         else [5 * v2 + 0x64, v1, v2, v3])"

section \<open>Operations\<close>

definition pp_queue :: "nib \<Rightarrow> u8 \<Rightarrow> nib" where
  "pp_queue dev b =
     (if out_len dev + 2 > PP_OUT_MAX then dev
      else dev\<lparr>out := (out dev)[out_len dev := b AND 0x0F,
                                 Suc (out_len dev) := drop_bit 4 b AND 0x0F],
               out_len := out_len dev + 2\<rparr>)"

text \<open>The reply loop: each byte queued under the running key.\<close>

fun pp_queue_keyed :: "(u8 \<Rightarrow> u8) \<Rightarrow> nib \<Rightarrow> u8 list \<Rightarrow> u8 \<Rightarrow> nib" where
  "pp_queue_keyed nxt dev [] k = dev"
| "pp_queue_keyed nxt dev (b # bs) k =
     pp_queue_keyed nxt (pp_queue dev (b XOR k)) bs (nxt k)"

text \<open>The programming loop of type 2: \<open>block[i] = cmd[2 + i] ^ k\<close>.\<close>

fun pp_program_loop :: "nat list \<Rightarrow> u8 \<Rightarrow> nib \<Rightarrow> nib" where
  "pp_program_loop [] k dev = dev"
| "pp_program_loop (i # is) k dev =
     pp_program_loop is (pp_next_key k)
       (dev\<lparr>block := (block dev)[i := cmd dev ! (2 + i) XOR k]\<rparr>)"

definition pp_respond :: "nib \<Rightarrow> nib" where
  "pp_respond dev0 =
     (let type = cmd dev0 ! 0;
          dev = dev0\<lparr>out_len := 0, out_pos := 0\<rparr>;
          dev =
            (if type = 3 then
               pp_queue_keyed pp_next_key dev (take (pp_recv_len ! 3) (block dev)) (cmd dev ! 1)
             else if type = 1 then
               pp_queue_keyed pp_next_key1 dev
                 (take (pp_recv_len ! 1) (pp_type1 (drop 1 (cmd dev)))) (cmd dev ! 9)
             else if type = 2 then pp_program_loop [0..<48] (cmd dev ! 1) dev
             else dev)
      in dev\<lparr>busy := out_len dev > 0\<rparr>)"

definition pp_host_byte :: "nib \<Rightarrow> u8 \<Rightarrow> nib" where
  "pp_host_byte dev b =
     (if cmd_len dev = 0 \<and> b > 3 then dev
      else
        (let dev = (if cmd_len dev < PP_IN_MAX
                    then dev\<lparr>cmd := (cmd dev)[cmd_len dev := b], cmd_len := Suc (cmd_len dev)\<rparr>
                    else dev)
         in if cmd_len dev \<ge> pp_send_len ! unat (cmd dev ! 0)
            then (pp_respond dev)\<lparr>cmd_len := 0\<rparr>
            else dev))"

text \<open>
  The latch reads the port's DATA register directly; \<open>cur\<close> is that register,
  \<open>lpt->dat\<close> when a port is attached and the last written byte otherwise.
\<close>

definition pp_latch_nibble :: "nib \<Rightarrow> u8 \<Rightarrow> nib" where
  "pp_latch_nibble dev cur =
     (let nb = cur AND 0x0F
      in if \<not> in_have dev then dev\<lparr>in_nib := nb, in_have := True\<rparr>
         else (pp_host_byte dev (in_nib dev OR push_bit 4 nb))\<lparr>in_have := False\<rparr>)"

definition pp_ack_edge :: "nib \<Rightarrow> u8 \<Rightarrow> nib" where
  "pp_ack_edge dev cur =
     (let was = last_data dev AND 0x10 \<noteq> 0;
          now = cur AND 0x10 \<noteq> 0;
          dev =
            (if \<not> was \<and> now then
               (if out_pos dev < out_len dev then dev\<lparr>out_pos := Suc (out_pos dev)\<rparr>
                else dev)\<lparr>busy := False\<rparr>
             else if was \<and> \<not> now then dev\<lparr>busy := out_pos dev < out_len dev\<rparr>
             else dev)
      in dev\<lparr>last_data := cur\<rparr>)"

text \<open>CTRL bits 2 and 3 moving means the link is being reset.\<close>

definition pp_link_reset :: "nib \<Rightarrow> nib" where
  "pp_link_reset dev =
     dev\<lparr>in_have := False, cmd_len := 0, out_len := 0, out_pos := 0, busy := False\<rparr>"

text \<open>What STATUS shows of this half: the nibble on bits 3..6 and BUSY on bit 7.\<close>

definition nib_status :: "nib \<Rightarrow> u8" where
  "nib_status dev =
     (if busy dev then
        (if out_pos dev < out_len dev
         then push_bit 3 (out dev ! out_pos dev AND 0x0F) else 0) OR 0x80
      else 0)"

section \<open>The invariant\<close>

text \<open>
  Every array index the code computes stays inside its array: \<open>out_pos\<close> below
  \<open>out_len\<close> whenever a nibble is read, the send-length table indexed by a valid
  type byte, the command buffer never near its end.
\<close>

definition nib_wf :: "nib \<Rightarrow> bool" where
  "nib_wf dev \<longleftrightarrow>
     length (cmd dev) = PP_IN_MAX \<and> length (out dev) = PP_OUT_MAX \<and>
     length (block dev) = PP_BLOCK \<and>
     out_pos dev \<le> out_len dev \<and> out_len dev \<le> PP_OUT_MAX \<and>
     (busy dev \<longrightarrow> out_pos dev < out_len dev) \<and>
     (cmd_len dev > 0 \<longrightarrow> cmd dev ! 0 \<le> 3 \<and> cmd_len dev < pp_send_len ! unat (cmd dev ! 0))"

lemmas nib_consts = PP_OUT_MAX_def PP_IN_MAX_def PP_BLOCK_def

lemma type_byte_cases:
  fixes b :: u8
  assumes "b \<le> 3"
  obtains "b = 0" | "b = 1" | "b = 2" | "b = 3"
proof -
  have "unat b \<le> 3"
    using assms by (simp add: word_le_nat_alt)
  then have "unat b = 0 \<or> unat b = 1 \<or> unat b = 2 \<or> unat b = 3"
    by arith
  then have "b = 0 \<or> b = 1 \<or> b = 2 \<or> b = 3"
    by (simp add: word_unat_eq_iff)
  then show thesis
    using that by auto
qed

text \<open>What the reply loops leave in the queue.\<close>

definition nibbles_of :: "u8 list \<Rightarrow> u8 list" where
  "nibbles_of bs = concat (map (\<lambda>b. [lo_nib b, hi_nib b]) bs)"

lemma nibbles_of_simps [simp]:
  "nibbles_of [] = []"
  "nibbles_of (b # bs) = lo_nib b # hi_nib b # nibbles_of bs"
  by (simp_all add: nibbles_of_def)

lemma length_nibbles_of [simp]: "length (nibbles_of bs) = 2 * length bs"
  by (induction bs) auto

definition keyed :: "(u8 \<Rightarrow> u8) \<Rightarrow> u8 \<Rightarrow> u8 \<Rightarrow> u8 \<times> u8" where
  "keyed nxt k x = (x XOR k, nxt k)"

lemma keyed_simps [simp]: "fst (keyed nxt k x) = x XOR k" "snd (keyed nxt k x) = nxt k"
  by (simp_all add: keyed_def)

interpretation key99: stream_codec "keyed pp_next_key" "\<lambda>k. k" pp_next_key
  by unfold_locales (simp add: keyed_def)

interpretation key_type1: stream_codec "keyed pp_next_key1" "\<lambda>k. k" pp_next_key1
  by unfold_locales (simp add: keyed_def)

lemma pp_queue_eq:
  assumes "out_len dev + 2 \<le> PP_OUT_MAX" "length (out dev) = PP_OUT_MAX"
  shows "pp_queue dev b =
    dev\<lparr>out := take (out_len dev) (out dev) @ nibbles_of [b] @ drop (out_len dev + 2) (out dev),
        out_len := out_len dev + 2\<rparr>"
proof -
  have "(out dev)[out_len dev := lo_nib b, Suc (out_len dev) := hi_nib b] =
      take (out_len dev) (out dev) @ [lo_nib b, hi_nib b] @ drop (out_len dev + 2) (out dev)"
    using assms by (intro update_pair_eq) simp
  then show ?thesis
    using assms by (simp add: pp_queue_def lo_nib_def hi_nib_def)
qed

lemma pp_queue_keyed_eq:
  assumes "out_len dev + 2 * length bs \<le> PP_OUT_MAX" "length (out dev) = PP_OUT_MAX"
  shows "pp_queue_keyed nxt dev bs k =
    dev\<lparr>out := take (out_len dev) (out dev) @ nibbles_of (fst (run_codec (keyed nxt) k bs)) @
              drop (out_len dev + 2 * length bs) (out dev),
        out_len := out_len dev + 2 * length bs\<rparr>"
  using assms
proof (induction bs arbitrary: dev k)
  case Nil
  then show ?case by simp
next
  case (Cons b bs)
  let ?d = "dev\<lparr>out := take (out_len dev) (out dev) @ nibbles_of [b XOR k] @
      drop (out_len dev + 2) (out dev), out_len := out_len dev + 2\<rparr>"
  have "pp_queue dev (b XOR k) = ?d"
    using Cons.prems by (subst pp_queue_eq) simp_all
  moreover have "pp_queue_keyed nxt ?d bs (nxt k) =
    ?d\<lparr>out := take (out_len ?d) (out ?d) @ nibbles_of (fst (run_codec (keyed nxt) (nxt k) bs)) @
              drop (out_len ?d + 2 * length bs) (out ?d),
        out_len := out_len ?d + 2 * length bs\<rparr>"
    using Cons.prems by (intro Cons.IH) (auto simp: nib_consts)
  ultimately show ?case
    using Cons.prems by (simp add: min_def nib_consts ac_simps)
qed

lemma pp_program_loop_eq:
  assumes "j \<le> n" "n \<le> length (block dev)"
  shows "pp_program_loop [j..<n] k dev =
    dev\<lparr>block := take j (block dev) @
           fst (run_codec (keyed pp_next_key) k (map (\<lambda>i. cmd dev ! (2 + i)) [j..<n])) @
           drop n (block dev)\<rparr>"
  using assms
proof (induction "n - j" arbitrary: j k dev)
  case 0
  then show ?case by simp
next
  case (Suc m)
  then have "j < n" by simp
  let ?d = "dev\<lparr>block := (block dev)[j := cmd dev ! (2 + j) XOR k]\<rparr>"
  have "pp_program_loop [Suc j..<n] (pp_next_key k) ?d =
    ?d\<lparr>block := take (Suc j) (block ?d) @
           fst (run_codec (keyed pp_next_key) (pp_next_key k)
             (map (\<lambda>i. cmd ?d ! (2 + i)) [Suc j..<n])) @ drop n (block ?d)\<rparr>"
    using Suc.hyps(2) Suc.prems by (intro Suc.hyps(1)) simp_all
  moreover have "[j..<n] = j # [Suc j..<n]"
    using \<open>j < n\<close> by (rule upt_conv_Cons)
  ultimately show ?case
    using \<open>j < n\<close> Suc.prems by (simp add: take_update_snoc drop_update_cancel)
qed

text \<open>
  The 1999 part as a function of whole commands: the bytes it answers a command
  with and the block it holds afterwards.
\<close>

definition dongle_answer :: "u8 list \<Rightarrow> u8 list \<Rightarrow> u8 list" where
  "dongle_answer blk c =
     (if c ! 0 = 3 then fst (run_codec (keyed pp_next_key) (c ! 1) (take 48 blk))
      else if c ! 0 = 1 then fst (run_codec (keyed pp_next_key1) (c ! 9) (pp_type1 (drop 1 c)))
      else [])"

definition dongle_block :: "u8 list \<Rightarrow> u8 list \<Rightarrow> u8 list" where
  "dongle_block blk c =
     (if c ! 0 = 2
      then fst (run_codec (keyed pp_next_key) (c ! 1) (take 48 (drop 2 c))) @ drop 48 blk
      else blk)"

definition valid_command :: "u8 list \<Rightarrow> bool" where
  "valid_command c \<longleftrightarrow>
     c \<noteq> [] \<and> c ! 0 \<le> 3 \<and> length c = max 1 (pp_send_len ! unat (c ! 0))"

lemma length_pp_type1 [simp]: "length (pp_type1 name) = 4"
  by (simp add: pp_type1_def Let_def)

lemma pp_type1_not_Nil [simp]: "pp_type1 name \<noteq> []"
  by (metis length_pp_type1 list.size(3) zero_neq_numeral)

lemma valid_command_length: "valid_command c \<Longrightarrow> length c \<le> 50"
  by (auto simp: valid_command_def table_defs elim!: type_byte_cases)

text \<open>The last byte of a command makes the device answer it.\<close>

lemma pp_type1_cong:
  assumes "\<And>i. i < 8 \<Longrightarrow> xs ! i = ys ! i"
  shows "pp_type1 xs = pp_type1 ys"
  using assms [of 0] assms [of 1] assms [of 2] assms [of 3] assms [of 4] assms [of 5]
    assms [of 6] assms [of 7]
  by (simp add: pp_type1_def)

lemma pp_respond_eq:
  assumes "valid_command c" "take (length c) (cmd dev) = c" "length (cmd dev) = PP_IN_MAX"
    "length (out dev) = PP_OUT_MAX" "length (block dev) = PP_BLOCK"
  shows "pp_respond dev =
    dev\<lparr>out := nibbles_of (dongle_answer (block dev) c) @
              drop (2 * length (dongle_answer (block dev) c)) (out dev),
        out_len := 2 * length (dongle_answer (block dev) c), out_pos := 0,
        busy := dongle_answer (block dev) c \<noteq> [],
        block := dongle_block (block dev) c\<rparr>"
proof -
  have nth: "cmd dev ! i = c ! i" if "i < length c" for i
    using that assms(2) by (metis nth_take)
  have c0: "cmd dev ! 0 = c ! 0" "c ! 0 \<le> 3"
    using assms(1) nth by (auto simp: valid_command_def)
  have len: "length c = max 1 (pp_send_len ! unat (c ! 0))"
    using assms(1) by (simp add: valid_command_def)
  let ?d = "dev\<lparr>out_len := 0, out_pos := 0\<rparr>"
  from c0(2) show ?thesis
  proof (cases rule: type_byte_cases)
    case 1
    then show ?thesis
      using c0 by (simp add: pp_respond_def dongle_answer_def dongle_block_def)
  next
    case 2
    then have l: "length c = 10" using len by (simp add: table_defs)
    have name: "pp_type1 (drop 1 (cmd dev)) = pp_type1 (drop 1 c)"
    proof (rule pp_type1_cong)
      fix i :: nat
      assume "i < 8"
      then show "drop 1 (cmd dev) ! i = drop 1 c ! i"
        using nth [of "1 + i"] l assms(3) by (simp add: nib_consts)
    qed
    show ?thesis
      using 2 c0 l name nth [of 9] assms(4,5)
      by (simp add: pp_respond_def dongle_answer_def dongle_block_def table_defs
          pp_queue_keyed_eq nib_consts Let_def)
  next
    case 3
    then have l: "length c = 50" using len by (simp add: table_defs)
    have args: "map (\<lambda>i. cmd dev ! (2 + i)) [0..<48] = take 48 (drop 2 c)"
      by (rule nth_equalityI) (use l nth in auto)
    have prog: "pp_program_loop [0..<48] (cmd dev ! 1) ?d =
       ?d\<lparr>block := take 0 (block ?d) @
         fst (run_codec (keyed pp_next_key) (cmd dev ! 1) (map (\<lambda>i. cmd ?d ! (2 + i)) [0..<48])) @
         drop 48 (block ?d)\<rparr>"
      using assms(5) by (intro pp_program_loop_eq) (simp_all add: nib_consts)
    show ?thesis
      using 3 c0 l nth [of 1] args prog
      by (simp add: pp_respond_def dongle_answer_def dongle_block_def Let_def)
  next
    case 4
    then have l: "length c = 2" using len by (simp add: table_defs)
    moreover have "block dev \<noteq> []"
      using assms(5) by (auto simp: nib_consts)
    ultimately show ?thesis
      using 4 c0 nth [of 1] assms(4,5)
      by (simp add: pp_respond_def dongle_answer_def dongle_block_def table_defs
          pp_queue_keyed_eq nib_consts Let_def)
  qed
qed

text \<open>Bytes before the last are collected.\<close>

lemma pp_host_bytes_prefix:
  assumes "cmd_len dev = 0" "length (cmd dev) = PP_IN_MAX" "valid_command c" "n < length c"
  shows "foldl pp_host_byte dev (take n c) =
    dev\<lparr>cmd := take n c @ drop n (cmd dev), cmd_len := n\<rparr>"
  using assms(4)
proof (induction n)
  case 0
  then show ?case using assms(1) by simp
next
  case (Suc n)
  have n: "n < length c" "length c \<le> 50"
    using Suc.prems valid_command_length [OF assms(3)] by auto
  have c0: "c ! 0 \<le> 3" "length c = max 1 (pp_send_len ! unat (c ! 0))"
    using assms(3) by (auto simp: valid_command_def)
  have hd: "(take n c @ c ! n # drop (Suc n) (cmd dev)) ! 0 = c ! 0"
    using n by (cases n) (auto simp: nth_append)
  have upd: "(take n c @ drop n (cmd dev))[n := c ! n] = take n c @ c ! n # drop (Suc n) (cmd dev)"
  proof -
    have "n < length (cmd dev)" using n assms(2) by (simp add: nib_consts)
    then have "drop n (cmd dev) = cmd dev ! n # drop (Suc n) (cmd dev)"
      by (rule Cons_nth_drop_Suc [symmetric])
    with n show ?thesis by (simp add: list_update_append)
  qed
  have "foldl pp_host_byte dev (take (Suc n) c) =
      pp_host_byte (dev\<lparr>cmd := take n c @ drop n (cmd dev), cmd_len := n\<rparr>) (c ! n)"
    using Suc.IH n by (simp add: take_Suc_conv_app_nth)
  also have "\<dots> = dev\<lparr>cmd := take n c @ c ! n # drop (Suc n) (cmd dev), cmd_len := Suc n\<rparr>"
    using n c0 Suc.prems upd hd by (auto simp: pp_host_byte_def Let_def nib_consts)
  finally show ?case
    using n by (simp add: take_Suc_conv_app_nth)
qed

lemma pp_host_command:
  assumes "nib_wf dev" "cmd_len dev = 0" "valid_command c"
  shows "foldl pp_host_byte dev c =
    dev\<lparr>cmd := c @ drop (length c) (cmd dev),
        out := nibbles_of (dongle_answer (block dev) c) @
              drop (2 * length (dongle_answer (block dev) c)) (out dev),
        out_len := 2 * length (dongle_answer (block dev) c), out_pos := 0,
        busy := dongle_answer (block dev) c \<noteq> [],
        block := dongle_block (block dev) c\<rparr>"
proof -
  have wf: "length (cmd dev) = PP_IN_MAX" "length (out dev) = PP_OUT_MAX"
    "length (block dev) = PP_BLOCK"
    using assms(1) by (auto simp: nib_wf_def)
  have len: "0 < length c" "length c \<le> 50"
    using valid_command_length [OF assms(3)] assms(3) by (auto simp: valid_command_def)
  have c0: "c ! 0 \<le> 3" "length c = max 1 (pp_send_len ! unat (c ! 0))"
    using assms(3) by (auto simp: valid_command_def)
  define n where "n = length c - 1"
  have n: "n < length c" "Suc n = length c" using len by (auto simp: n_def)
  let ?d = "dev\<lparr>cmd := take n c @ drop n (cmd dev), cmd_len := n\<rparr>"
  have split: "c = take n c @ [c ! n]"
    using n by (metis take_Suc_conv_app_nth take_all_iff order_refl)
  have upd: "(take n c @ drop n (cmd dev))[n := c ! n] = c @ drop (length c) (cmd dev)"
  proof -
    have "n < length (cmd dev)" using n len wf(1) by (simp add: nib_consts)
    then have "drop n (cmd dev) = cmd dev ! n # drop (Suc n) (cmd dev)"
      by (rule Cons_nth_drop_Suc [symmetric])
    then have "(take n c @ drop n (cmd dev))[n := c ! n] =
        (take n c @ [c ! n]) @ drop (length c) (cmd dev)"
      using n by (simp add: list_update_append)
    then show ?thesis by (simp only: split [symmetric])
  qed
  have hd: "(c @ drop (length c) (cmd dev)) ! 0 = c ! 0"
    using len by (simp add: nth_append)
  let ?e = "dev\<lparr>cmd := c @ drop (length c) (cmd dev), cmd_len := length c\<rparr>"
  have resp: "pp_respond ?e =
     ?e\<lparr>out := nibbles_of (dongle_answer (block ?e) c) @
              drop (2 * length (dongle_answer (block ?e) c)) (out ?e),
        out_len := 2 * length (dongle_answer (block ?e) c), out_pos := 0,
        busy := dongle_answer (block ?e) c \<noteq> [],
        block := dongle_block (block ?e) c\<rparr>"
    by (rule pp_respond_eq) (use wf len assms(3) in \<open>simp_all add: nib_consts\<close>)
  have "?d\<lparr>cmd := (cmd ?d)[cmd_len ?d := c ! n], cmd_len := Suc (cmd_len ?d)\<rparr> = ?e"
    using upd n by simp
  moreover have "\<not> (cmd_len ?d = 0 \<and> c ! n > 3)"
    using n c0 by (cases n) (auto simp: not_less)
  moreover have "cmd_len ?d < PP_IN_MAX"
    using n len by (simp add: nib_consts)
  moreover have "pp_send_len ! unat (cmd ?e ! 0) \<le> cmd_len ?e"
    using hd c0 by simp
  ultimately have last: "pp_host_byte ?d (c ! n) = (pp_respond ?e)\<lparr>cmd_len := 0\<rparr>"
    unfolding pp_host_byte_def Let_def by (simp only: if_True if_False)
  have "foldl pp_host_byte dev c = pp_host_byte (foldl pp_host_byte dev (take n c)) (c ! n)"
    by (subst split) simp
  also have "\<dots> = pp_host_byte ?d (c ! n)"
    using pp_host_bytes_prefix [OF assms(2) wf(1) assms(3) n(1)] by simp
  finally show ?thesis
    using assms(2) by (simp add: last resp)
qed

section \<open>Preservation of the invariant\<close>

lemma nib_wf_latch_fields [simp]:
  "nib_wf (dev\<lparr>in_nib := x\<rparr>) = nib_wf dev" "nib_wf (dev\<lparr>in_have := y\<rparr>) = nib_wf dev"
  "nib_wf (dev\<lparr>last_data := d\<rparr>) = nib_wf dev"
  by (simp_all add: nib_wf_def)

lemma pp_queue_frame [simp]:
  "cmd (pp_queue dev b) = cmd dev" "cmd_len (pp_queue dev b) = cmd_len dev"
  "out_pos (pp_queue dev b) = out_pos dev" "block (pp_queue dev b) = block dev"
  "length (out (pp_queue dev b)) = length (out dev)" "busy (pp_queue dev b) = busy dev"
  by (simp_all add: pp_queue_def)

lemma pp_queue_len: "out_len dev \<le> PP_OUT_MAX \<Longrightarrow> out_len (pp_queue dev b) \<le> PP_OUT_MAX"
  by (simp add: pp_queue_def)

lemma pp_queue_keyed_frame [simp]:
  "cmd (pp_queue_keyed nxt dev bs k) = cmd dev"
  "cmd_len (pp_queue_keyed nxt dev bs k) = cmd_len dev"
  "out_pos (pp_queue_keyed nxt dev bs k) = out_pos dev"
  "block (pp_queue_keyed nxt dev bs k) = block dev"
  "length (out (pp_queue_keyed nxt dev bs k)) = length (out dev)"
  by (induction bs arbitrary: dev k) simp_all

lemma pp_queue_keyed_len:
  "out_len dev \<le> PP_OUT_MAX \<Longrightarrow> out_len (pp_queue_keyed nxt dev bs k) \<le> PP_OUT_MAX"
  by (induction bs arbitrary: dev k) (simp_all add: pp_queue_len)

lemma pp_program_loop_frame [simp]:
  "cmd (pp_program_loop is k dev) = cmd dev" "out_len (pp_program_loop is k dev) = out_len dev"
  "out_pos (pp_program_loop is k dev) = out_pos dev"
  "length (block (pp_program_loop is k dev)) = length (block dev)"
  "out (pp_program_loop is k dev) = out dev"
  by (induction "is" arbitrary: dev k) simp_all

lemma pp_respond_wf:
  assumes "length (cmd dev) = PP_IN_MAX" "length (out dev) = PP_OUT_MAX"
    "length (block dev) = PP_BLOCK"
  shows "nib_wf ((pp_respond dev)\<lparr>cmd_len := 0\<rparr>)"
  using assms by (auto simp: pp_respond_def nib_wf_def Let_def pp_queue_keyed_len)

lemma pp_host_byte_wf [wf_intros]: "nib_wf dev \<Longrightarrow> nib_wf (pp_host_byte dev b)"
proof -
  assume wf: "nib_wf dev"
  let ?e = "if cmd_len dev < PP_IN_MAX
      then dev\<lparr>cmd := (cmd dev)[cmd_len dev := b], cmd_len := Suc (cmd_len dev)\<rparr> else dev"
  have arr: "length (cmd ?e) = PP_IN_MAX" "length (out ?e) = PP_OUT_MAX"
    "length (block ?e) = PP_BLOCK"
    using wf by (auto simp: nib_wf_def)
  consider "cmd_len dev = 0 \<and> b > 3"
    | "\<not> (cmd_len dev = 0 \<and> b > 3)" "pp_send_len ! unat (cmd ?e ! 0) \<le> cmd_len ?e"
    | "\<not> (cmd_len dev = 0 \<and> b > 3)" "\<not> pp_send_len ! unat (cmd ?e ! 0) \<le> cmd_len ?e"
    by blast
  then show ?thesis
  proof cases
    case 1
    with wf show ?thesis by (simp add: pp_host_byte_def)
  next
    case 2
    then have "pp_host_byte dev b = (pp_respond ?e)\<lparr>cmd_len := 0\<rparr>"
      unfolding pp_host_byte_def Let_def by (simp only: if_True if_False)
    with pp_respond_wf [OF arr] show ?thesis by simp
  next
    case 3
    then have "pp_host_byte dev b = ?e"
      unfolding pp_host_byte_def Let_def by (simp only: if_True if_False)
    moreover have "nib_wf ?e"
    proof (cases "cmd_len dev = 0")
      case True
      with wf 3 show ?thesis
        by (auto simp: nib_wf_def nib_consts not_less)
    next
      case False
      with wf 3 show ?thesis
        by (auto simp: nib_wf_def nib_consts nth_list_update)
    qed
    ultimately show ?thesis by simp
  qed
qed

lemma pp_latch_nibble_wf [wf_intros]: "nib_wf dev \<Longrightarrow> nib_wf (pp_latch_nibble dev cur)"
  by (simp add: pp_latch_nibble_def pp_host_byte_wf Let_def)

lemma pp_ack_edge_wf [wf_intros]: "nib_wf dev \<Longrightarrow> nib_wf (pp_ack_edge dev cur)"
  by (auto simp: pp_ack_edge_def nib_wf_def Let_def)

lemma pp_link_reset_wf [wf_intros]: "nib_wf dev \<Longrightarrow> nib_wf (pp_link_reset dev)"
  by (auto simp: pp_link_reset_def nib_wf_def)

section \<open>The host's side of the wire\<close>

text \<open>
  The guest's half of the handshake, from the protocol description that opens
  the source file: a byte is two nibbles, low first, on DATA bits 0..3 with bits
  5..7 held high and bit 4 low, each latched by a STROBE edge; an answer nibble
  is read off STATUS bits 3..6 and acknowledged by raising and dropping bit 4.
\<close>

definition host_send_nibble :: "nib \<Rightarrow> u8 \<Rightarrow> nib" where
  "host_send_nibble dev n = pp_latch_nibble (pp_ack_edge dev (0xE0 OR n)) (0xE0 OR n)"

definition host_send_byte :: "nib \<Rightarrow> u8 \<Rightarrow> nib" where
  "host_send_byte dev b = host_send_nibble (host_send_nibble dev (lo_nib b)) (hi_nib b)"

definition host_send :: "nib \<Rightarrow> u8 list \<Rightarrow> nib" where
  "host_send = foldl host_send_byte"

definition host_ack :: "nib \<Rightarrow> nib" where
  "host_ack dev = pp_ack_edge (pp_ack_edge dev 0xF0) 0xE0"

fun host_read_nibbles :: "nat \<Rightarrow> nib \<Rightarrow> u8 list \<times> nib" where
  "host_read_nibbles 0 dev = ([], dev)"
| "host_read_nibbles (Suc n) dev =
     (let r = host_read_nibbles n (host_ack dev)
      in ((drop_bit 3 (nib_status dev) AND 0x0F) # fst r, snd r))"

fun bytes_of_nibbles :: "u8 list \<Rightarrow> u8 list" where
  "bytes_of_nibbles (l # h # ns) = (l OR push_bit 4 h) # bytes_of_nibbles ns"
| "bytes_of_nibbles _ = []"

definition host_read :: "nat \<Rightarrow> nib \<Rightarrow> u8 list \<times> nib" where
  "host_read n dev =
     (let r = host_read_nibbles (2 * n) dev in (bytes_of_nibbles (fst r), snd r))"

text \<open>Resetting the link and dropping the ack line, as \<open>hasp_init\<close> does.\<close>

definition host_open :: "nib \<Rightarrow> nib" where
  "host_open dev = pp_ack_edge (pp_link_reset dev) 0xE0"

lemma bytes_of_nibbles_of [simp]: "bytes_of_nibbles (nibbles_of bs) = bs"
  by (induction bs) (simp_all add: byte_nibbles)

text \<open>The latch fields pass through a command untouched.\<close>

abbreviation latch :: "nib \<Rightarrow> u8 \<Rightarrow> bool \<Rightarrow> u8 \<Rightarrow> nib" where
  "latch dev x y z \<equiv> dev\<lparr>in_nib := x, in_have := y, last_data := z\<rparr>"

lemma pp_queue_latch: "pp_queue (latch dev x y z) b = latch (pp_queue dev b) x y z"
  by (cases dev) (simp add: pp_queue_def)

lemma pp_queue_keyed_latch:
  "pp_queue_keyed nxt (latch dev x y z) bs k = latch (pp_queue_keyed nxt dev bs k) x y z"
  by (induction bs arbitrary: dev k) (simp_all add: pp_queue_latch)

lemma pp_program_loop_latch:
  "pp_program_loop is k (latch dev x y z) = latch (pp_program_loop is k dev) x y z"
proof (induction "is" arbitrary: dev k)
  case Nil
  show ?case by simp
next
  case (Cons i "is")
  from Cons.IH [of "pp_next_key k" "dev\<lparr>block := (block dev)[i := cmd dev ! (2 + i) XOR k]\<rparr>"]
  show ?case by (cases dev) simp
qed

lemma pp_respond_latch: "pp_respond (latch dev x y z) = latch (pp_respond dev) x y z"
  using pp_queue_keyed_latch [where dev = "dev\<lparr>out_len := 0, out_pos := 0\<rparr>" and x = x and y = y and z = z]
    pp_program_loop_latch [where dev = "dev\<lparr>out_len := 0, out_pos := 0\<rparr>" and x = x and y = y and z = z]
  by (cases dev) (simp add: pp_respond_def Let_def)

lemma pp_host_byte_latch: "pp_host_byte (latch dev x y z) b = latch (pp_host_byte dev b) x y z"
proof -
  let ?e = "if cmd_len dev < PP_IN_MAX
      then dev\<lparr>cmd := (cmd dev)[cmd_len dev := b], cmd_len := Suc (cmd_len dev)\<rparr> else dev"
  let ?d = "latch dev x y z"
  have upd: "(if cmd_len ?d < PP_IN_MAX
      then ?d\<lparr>cmd := (cmd ?d)[cmd_len ?d := b], cmd_len := Suc (cmd_len ?d)\<rparr> else ?d) =
      latch ?e x y z"
    by (cases dev) simp
  have "pp_host_byte ?d b =
      (if cmd_len dev = 0 \<and> b > 3 then ?d
       else if pp_send_len ! unat (cmd ?e ! 0) \<le> cmd_len ?e
         then (pp_respond (latch ?e x y z))\<lparr>cmd_len := 0\<rparr>
         else latch ?e x y z)"
    unfolding pp_host_byte_def Let_def upd by (cases dev) simp
  also have "\<dots> = latch (pp_host_byte dev b) x y z"
    unfolding pp_respond_latch pp_host_byte_def Let_def by simp
  finally show ?thesis .
qed

definition link_ready :: "nib \<Rightarrow> bool" where
  "link_ready dev \<longleftrightarrow> \<not> in_have dev \<and> last_data dev AND 0x10 = 0"

lemma nibble_on_wire [simp]:
  "(0xE0 OR lo_nib b) AND 0x0F = lo_nib b" "(0xE0 OR hi_nib b) AND 0x0F = hi_nib b"
  "(0xE0 OR lo_nib b) AND 0x10 = 0" "(0xE0 OR hi_nib b) AND 0x10 = 0"
  by (rule byte_eqI; simp add: lo_nib_def hi_nib_def bit_simps)+

lemma pp_ack_edge_low:
  "last_data dev AND 0x10 = 0 \<Longrightarrow> d AND 0x10 = 0 \<Longrightarrow> pp_ack_edge dev d = dev\<lparr>last_data := d\<rparr>"
  by (simp add: pp_ack_edge_def)

lemma host_send_byte_eq:
  assumes "link_ready dev"
  shows "\<exists>x z. host_send_byte dev b = latch (pp_host_byte dev b) x False z \<and> z AND 0x10 = 0"
proof -
  have "host_send_byte dev b = (pp_host_byte
      (latch dev (lo_nib b) True (0xE0 OR hi_nib b)) b)\<lparr>in_have := False\<rparr>"
    using assms unfolding link_ready_def
    by (simp add: host_send_byte_def host_send_nibble_def pp_ack_edge_low pp_latch_nibble_def
        byte_nibbles)
  also have "\<dots> = latch (pp_host_byte dev b) (lo_nib b) False (0xE0 OR hi_nib b)"
    by (simp add: pp_host_byte_latch)
  finally show ?thesis using nibble_on_wire(4) by blast
qed

lemma host_send_eq:
  "link_ready dev \<Longrightarrow>
     \<exists>x z. host_send dev bs = latch (foldl pp_host_byte dev bs) x False z \<and> z AND 0x10 = 0"
proof (induction bs rule: rev_induct)
  case Nil
  then show ?case
    by (intro exI [of _ "in_nib dev"] exI [of _ "last_data dev"])
      (simp add: host_send_def link_ready_def)
next
  case (snoc b bs)
  then obtain x z where x: "host_send dev bs =
      latch (foldl pp_host_byte dev bs) x False z" and z: "z AND 0x10 = 0"
    by blast
  have "link_ready (host_send dev bs)"
    using z by (simp add: x link_ready_def)
  then obtain x' z' where "host_send_byte (host_send dev bs) b =
      latch (pp_host_byte (host_send dev bs) b) x' False z'" and z': "z' AND 0x10 = 0"
    using host_send_byte_eq by blast
  then have "host_send dev (bs @ [b]) =
      latch (pp_host_byte (foldl pp_host_byte dev bs) b) x' False z'"
    by (simp add: host_send_def x [unfolded host_send_def] pp_host_byte_latch)
  with z' show ?case by auto
qed

text \<open>Reading: every nibble of the queue in turn, then silence.\<close>

lemma status_nibble: "drop_bit 3 (push_bit 3 (x AND 0x0F) OR 0x80) AND 0x0F = x AND (0x0F :: u8)"
  by (rule byte_eqI) (simp_all add: bit_simps)

lemma host_read_nibbles_eq:
  assumes "busy dev = (out_pos dev < out_len dev)" "last_data dev AND 0x10 = 0"
    "out_len dev = out_pos dev + n" "out_len dev \<le> length (out dev)"
  shows "host_read_nibbles n dev =
    (map (\<lambda>x. x AND 0x0F) (take n (drop (out_pos dev) (out dev))),
     if n = 0 then dev else dev\<lparr>out_pos := out_len dev, busy := False, last_data := 0xE0\<rparr>)"
  using assms
proof (induction n arbitrary: dev)
  case 0
  then show ?case by simp
next
  case (Suc n)
  have ack: "host_ack dev =
      dev\<lparr>out_pos := Suc (out_pos dev), busy := Suc (out_pos dev) < out_len dev, last_data := 0xE0\<rparr>"
    using Suc.prems by (cases dev) (simp add: host_ack_def pp_ack_edge_def)
  have st: "drop_bit 3 (nib_status dev) AND 0x0F = out dev ! out_pos dev AND 0x0F"
    using Suc.prems status_nibble by (simp add: nib_status_def del: drop_bit_or push_bit_and)
  have rest: "drop (out_pos dev) (out dev) = out dev ! out_pos dev # drop (Suc (out_pos dev)) (out dev)"
    using Suc.prems by (intro Cons_nth_drop_Suc [symmetric]) simp
  have "host_read_nibbles n (host_ack dev) =
    (map (\<lambda>x. x AND 0x0F) (take n (drop (out_pos (host_ack dev)) (out (host_ack dev)))),
     if n = 0 then host_ack dev
     else (host_ack dev)\<lparr>out_pos := out_len (host_ack dev), busy := False, last_data := 0xE0\<rparr>)"
    using Suc.prems by (intro Suc.IH) (simp_all add: ack)
  then show ?case
    using Suc.prems by (simp add: st rest ack)
qed

lemma nibbles_masked [simp]: "map (\<lambda>x. x AND 0x0F) (nibbles_of bs) = nibbles_of bs"
  by (induction bs) simp_all

lemma host_open_fields:
  "host_open dev =
     dev\<lparr>in_have := False, cmd_len := 0, out_len := 0, out_pos := 0, busy := False, last_data := 0xE0\<rparr>"
  by (cases dev) (simp add: host_open_def pp_ack_edge_def pp_link_reset_def)

text \<open>
  A whole transaction on the wire, from any state of the device: the answer
  bytes are \<open>dongle_answer\<close> and the block becomes \<open>dongle_block\<close>.
\<close>

definition host_command :: "nib \<Rightarrow> u8 list \<Rightarrow> nat \<Rightarrow> u8 list \<times> nib" where
  "host_command dev c n = host_read n (host_send (host_open dev) c)"

lemma pp_host_bytes_resync:
  assumes "cmd_len dev = 0" "\<forall>b \<in> set g. b > 3"
  shows "foldl pp_host_byte dev g = dev"
  using assms by (induction g) (simp_all add: pp_host_byte_def)

lemma host_command_resync:
  assumes "nib_wf dev" "valid_command c" "\<forall>b \<in> set g. b > 3"
  shows "fst (host_command dev (g @ c) (length (dongle_answer (block dev) c))) =
      dongle_answer (block dev) c"
    and "block (snd (host_command dev (g @ c) (length (dongle_answer (block dev) c)))) =
      dongle_block (block dev) c"
proof -
  let ?d = "host_open dev" and ?a = "dongle_answer (block dev) c"
  have wf: "nib_wf ?d" using assms(1) by (simp add: host_open_def pp_ack_edge_wf pp_link_reset_wf)
  have f: "cmd_len ?d = 0" "link_ready ?d" "block ?d = block dev"
    by (simp_all add: host_open_fields link_ready_def)
  have "foldl pp_host_byte ?d (g @ c) = foldl pp_host_byte ?d c"
    using pp_host_bytes_resync [OF f(1) assms(3)] by simp
  then obtain x z where snd: "host_send ?d (g @ c) = latch (foldl pp_host_byte ?d c) x False z"
    and z: "z AND 0x10 = 0"
    using host_send_eq [OF f(2), of "g @ c"] by auto
  let ?e = "host_send ?d (g @ c)"
  note cmd = pp_host_command [OF wf f(1) assms(2), unfolded f(3)]
  have e: "busy ?e = (out_pos ?e < out_len ?e)" "last_data ?e AND 0x10 = 0"
    "out_len ?e = out_pos ?e + 2 * length ?a" "out_pos ?e = 0"
    "out ?e = nibbles_of ?a @ drop (2 * length ?a) (out ?d)" "block ?e = dongle_block (block dev) c"
    using z by (auto simp: snd cmd)
  have "out_len ?e \<le> length (out ?e)"
    using e by simp
  from host_read_nibbles_eq [OF e(1-3) this]
  have r: "host_read_nibbles (2 * length ?a) ?e = (nibbles_of ?a,
     if 2 * length ?a = 0 then ?e else ?e\<lparr>out_pos := out_len ?e, busy := False, last_data := 0xE0\<rparr>)"
    using e by simp
  show "fst (host_command dev (g @ c) (length ?a)) = ?a"
    by (simp add: host_command_def host_read_def r)
  show "block (snd (host_command dev (g @ c) (length ?a))) = dongle_block (block dev) c"
    using e by (simp add: host_command_def host_read_def r)
qed

lemmas host_command_eq = host_command_resync [where g = "[]", simplified]

section \<open>The state the device starts in\<close>

text \<open>\<open>calloc\<close> zeroes the device; \<open>pp_init\<close> then fills the block.\<close>

definition nib_init :: "u8 list \<Rightarrow> nib" where
  "nib_init blk =
     \<lparr>in_nib = 0, in_have = False, last_data = 0, cmd = replicate PP_IN_MAX 0, cmd_len = 0,
      out = replicate PP_OUT_MAX 0, out_len = 0, out_pos = 0, busy = False, block = blk\<rparr>"

lemma nib_init_wf [wf_intros]: "length blk = PP_BLOCK \<Longrightarrow> nib_wf (nib_init blk)"
  by (simp add: nib_init_def nib_wf_def)

lemma block_nib_init [simp]: "block (nib_init blk) = blk"
  by (simp add: nib_init_def)

lemma host_send_byte_wf [wf_intros]: "nib_wf dev \<Longrightarrow> nib_wf (host_send_byte dev b)"
  by (simp add: host_send_byte_def host_send_nibble_def wf_intros)

lemma host_send_wf [wf_intros]: "nib_wf dev \<Longrightarrow> nib_wf (host_send dev bs)"
  unfolding host_send_def by (induction bs arbitrary: dev) (simp_all add: wf_intros)

lemma host_read_nibbles_wf: "nib_wf dev \<Longrightarrow> nib_wf (snd (host_read_nibbles n dev))"
  by (induction n arbitrary: dev) (simp_all add: host_ack_def wf_intros Let_def)

lemma host_command_wf [wf_intros]: "nib_wf dev \<Longrightarrow> nib_wf (snd (host_command dev c n))"
  by (simp add: host_command_def host_read_def host_open_def host_read_nibbles_wf wf_intros Let_def)

section \<open>Commands as the host sees them\<close>

lemma read_command_valid: "valid_command [3, nonce]"
  by (simp add: valid_command_def table_defs)

lemma program_command_valid: "length r = 48 \<Longrightarrow> valid_command (2 # nonce # r)"
  by (simp add: valid_command_def table_defs)

lemma hash_command_valid: "length name = 8 \<Longrightarrow> valid_command (1 # name @ [nonce])"
  by (simp add: valid_command_def table_defs)

lemma block_length: "nib_wf dev \<Longrightarrow> length (block dev) = 62"
  by (simp add: nib_wf_def nib_consts)

lemma host_read_block:
  "nib_wf dev \<Longrightarrow>
     fst (run_codec (keyed pp_next_key) nonce (fst (host_command dev [3, nonce] 48))) = take 48 (block dev)"
  using host_command_eq(1) [OF _ read_command_valid, of dev nonce] block_length [of dev]
  by (simp add: dongle_answer_def key99.run_inverse)

lemma host_program_block:
  assumes "nib_wf dev" "length r = 48"
  shows "block (snd (host_command dev (2 # nonce # fst (run_codec (keyed pp_next_key) nonce r)) 0)) =
    r @ drop 48 (block dev)"
  using host_command_eq(2) [OF assms(1) program_command_valid,
      of "fst (run_codec (keyed pp_next_key) nonce r)" nonce] assms(2)
  by (simp add: dongle_answer_def dongle_block_def key99.run_inverse)

text \<open>
  A 1999 licence record read delivers the record.  Whatever well-formed
  state the dongle is in, a link reset, the command {3, nonce} sent nibble by
  nibble over DATA and STROBE, and 48 answer bytes taken off STATUS under the
  ack handshake, decrypt with the guest's keystream to the first 48 bytes of the
  dongle's block, for every nonce.
\<close>

theorem type3_read_decrypts:
  assumes "nib_wf dev"
  shows "fst (run_codec (keyed pp_next_key) nonce (fst (host_command dev [3, nonce] 48))) =
    take 48 (block dev)"
  using assms by (rule host_read_block)

theorem type3_read_decrypts_witness:
  "fst (run_codec (keyed pp_next_key) 0x5A
      (fst (host_command (nib_init (map word_of_nat [0..<62])) [3, 0x5A] 48))) =
    map word_of_nat [0..<48]"
proof -
  have "take 48 (map word_of_nat [0..<62]) = (map word_of_nat [0..<48] :: u8 list)"
    by (simp add: take_map)
  then show ?thesis
    using type3_read_decrypts [of "nib_init (map word_of_nat [0..<62])" "0x5A"]
    by (simp add: nib_init_wf PP_BLOCK_def)
qed

text \<open>
  C1. Programming is the inverse of reading.  A type 2 command carrying a 48-byte
  record under any nonce, followed by a type 3 read under any other nonce, gives
  the record back, and the 14 bytes of the block behind the record are left alone.
\<close>

theorem type2_program_roundtrip:
  assumes "nib_wf dev" "length r = 48"
    "dev' = snd (host_command dev (2 # n1 # fst (run_codec (keyed pp_next_key) n1 r)) 0)"
  shows "fst (run_codec (keyed pp_next_key) n2 (fst (host_command dev' [3, n2] 48))) = r \<and>
    drop 48 (block dev') = drop 48 (block dev)"
proof -
  have "nib_wf dev'" unfolding assms(3) by (rule host_command_wf [OF assms(1)])
  from host_read_block [OF this] show ?thesis
    using host_program_block [OF assms(1,2), of n1] assms(2) by (simp add: assms(3))
qed

theorem type2_program_roundtrip_witness:
  "fst (run_codec (keyed pp_next_key) 0x21 (fst (host_command
     (snd (host_command (nib_init (replicate 62 0))
        (2 # 0x77 # fst (run_codec (keyed pp_next_key) 0x77 (replicate 48 0xA5))) 0)) [3, 0x21] 48))) =
   replicate 48 0xA5"
  using type2_program_roundtrip [of "nib_init (replicate 62 0)" "replicate 48 0xA5" _ "0x77" "0x21"]
  by (simp only: nib_init_wf PP_BLOCK_def length_replicate simp_thms)

text \<open>
  The type 1 picture query answers the hash of the name it carries, and
  nothing else of the device: the four bytes read off the wire, decrypted with
  the type 1 keystream, are \<open>pp_type1\<close> of the eight name bytes, in every state
  and under every nonce; the block is unchanged.  Garbage bytes sent before the
  command (none of them a type byte) are discarded without losing alignment.
\<close>

theorem type1_answers_hash:
  assumes "nib_wf dev" "length name = 8" "\<forall>b \<in> set g. b > 3"
  shows "fst (run_codec (keyed pp_next_key1) nonce
      (fst (host_command dev (g @ 1 # name @ [nonce]) 4))) = pp_type1 name \<and>
    block (snd (host_command dev (g @ 1 # name @ [nonce]) 4)) = block dev"
proof -
  have nm: "pp_type1 (name @ [nonce]) = pp_type1 name"
    by (rule pp_type1_cong) (simp add: nth_append assms(2))
  show ?thesis
    using host_command_resync [OF assms(1) hash_command_valid [OF assms(2)] assms(3), of nonce] assms(2)
    by (simp add: dongle_answer_def dongle_block_def key_type1.run_inverse nm nth_append)
qed

theorem type1_answers_hash_witness:
  "fst (run_codec (keyed pp_next_key1) 0x10 (fst (host_command (nib_init (replicate 62 0))
     ([0x80, 4] @ 1 # [0x46, 0x4D, 0x45, 0x4D, 0x4F, 0x20, 0x20, 0x20] @ [0x10]) 4))) =
   [0x10, 0x24, 0x91, 0xE3]"
  using type1_answers_hash [of "nib_init (replicate 62 0)"
      "[0x46, 0x4D, 0x45, 0x4D, 0x4F, 0x20, 0x20, 0x20]" "[0x80, 4]" "0x10"]
  by (simp add: nib_init_wf PP_BLOCK_def pp_type1_def)

end
