(* ===== verification/Picture_Table.thy ===== *)
theory Picture_Table
  imports Prelude
begin

text \<open>
  The picture-key table \<open>cd_pic_s\<close> of \<open>src/src/device/dongle_photoplay.c\<close>: for each
  of the four cases and each of the eight name positions, what the 2000 token
  answers to every byte.  The source holds the 8192 measured bytes and a comment
  that each position is separable in the nibbles of the character.  The lemmas
  below find the law behind that: every position is a rotation of the character
  under a constant mask, so the whole table is 32 pairs of a distance and a mask.
\<close>

unbundle bit_operations_syntax

section \<open>The table\<close>

text \<open>Case 0: command AA, constant 038B.\<close>

definition cd_pic_case0 :: "u8 list list" where
  "cd_pic_case0 = [
    [0xF8, 0xFA, 0xFC, 0xFE, 0xF0, 0xF2, 0xF4, 0xF6, 0xE8, 0xEA, 0xEC, 0xEE, 0xE0, 0xE2, 0xE4, 0xE6,
     0xD8, 0xDA, 0xDC, 0xDE, 0xD0, 0xD2, 0xD4, 0xD6, 0xC8, 0xCA, 0xCC, 0xCE, 0xC0, 0xC2, 0xC4, 0xC6,
     0xB8, 0xBA, 0xBC, 0xBE, 0xB0, 0xB2, 0xB4, 0xB6, 0xA8, 0xAA, 0xAC, 0xAE, 0xA0, 0xA2, 0xA4, 0xA6,
     0x98, 0x9A, 0x9C, 0x9E, 0x90, 0x92, 0x94, 0x96, 0x88, 0x8A, 0x8C, 0x8E, 0x80, 0x82, 0x84, 0x86,
     0x78, 0x7A, 0x7C, 0x7E, 0x70, 0x72, 0x74, 0x76, 0x68, 0x6A, 0x6C, 0x6E, 0x60, 0x62, 0x64, 0x66,
     0x58, 0x5A, 0x5C, 0x5E, 0x50, 0x52, 0x54, 0x56, 0x48, 0x4A, 0x4C, 0x4E, 0x40, 0x42, 0x44, 0x46,
     0x38, 0x3A, 0x3C, 0x3E, 0x30, 0x32, 0x34, 0x36, 0x28, 0x2A, 0x2C, 0x2E, 0x20, 0x22, 0x24, 0x26,
     0x18, 0x1A, 0x1C, 0x1E, 0x10, 0x12, 0x14, 0x16, 0x08, 0x0A, 0x0C, 0x0E, 0x00, 0x02, 0x04, 0x06,
     0xF9, 0xFB, 0xFD, 0xFF, 0xF1, 0xF3, 0xF5, 0xF7, 0xE9, 0xEB, 0xED, 0xEF, 0xE1, 0xE3, 0xE5, 0xE7,
     0xD9, 0xDB, 0xDD, 0xDF, 0xD1, 0xD3, 0xD5, 0xD7, 0xC9, 0xCB, 0xCD, 0xCF, 0xC1, 0xC3, 0xC5, 0xC7,
     0xB9, 0xBB, 0xBD, 0xBF, 0xB1, 0xB3, 0xB5, 0xB7, 0xA9, 0xAB, 0xAD, 0xAF, 0xA1, 0xA3, 0xA5, 0xA7,
     0x99, 0x9B, 0x9D, 0x9F, 0x91, 0x93, 0x95, 0x97, 0x89, 0x8B, 0x8D, 0x8F, 0x81, 0x83, 0x85, 0x87,
     0x79, 0x7B, 0x7D, 0x7F, 0x71, 0x73, 0x75, 0x77, 0x69, 0x6B, 0x6D, 0x6F, 0x61, 0x63, 0x65, 0x67,
     0x59, 0x5B, 0x5D, 0x5F, 0x51, 0x53, 0x55, 0x57, 0x49, 0x4B, 0x4D, 0x4F, 0x41, 0x43, 0x45, 0x47,
     0x39, 0x3B, 0x3D, 0x3F, 0x31, 0x33, 0x35, 0x37, 0x29, 0x2B, 0x2D, 0x2F, 0x21, 0x23, 0x25, 0x27,
     0x19, 0x1B, 0x1D, 0x1F, 0x11, 0x13, 0x15, 0x17, 0x09, 0x0B, 0x0D, 0x0F, 0x01, 0x03, 0x05, 0x07],
    [0x73, 0x53, 0x33, 0x13, 0xF3, 0xD3, 0xB3, 0x93, 0x72, 0x52, 0x32, 0x12, 0xF2, 0xD2, 0xB2, 0x92,
     0x71, 0x51, 0x31, 0x11, 0xF1, 0xD1, 0xB1, 0x91, 0x70, 0x50, 0x30, 0x10, 0xF0, 0xD0, 0xB0, 0x90,
     0x77, 0x57, 0x37, 0x17, 0xF7, 0xD7, 0xB7, 0x97, 0x76, 0x56, 0x36, 0x16, 0xF6, 0xD6, 0xB6, 0x96,
     0x75, 0x55, 0x35, 0x15, 0xF5, 0xD5, 0xB5, 0x95, 0x74, 0x54, 0x34, 0x14, 0xF4, 0xD4, 0xB4, 0x94,
     0x7B, 0x5B, 0x3B, 0x1B, 0xFB, 0xDB, 0xBB, 0x9B, 0x7A, 0x5A, 0x3A, 0x1A, 0xFA, 0xDA, 0xBA, 0x9A,
     0x79, 0x59, 0x39, 0x19, 0xF9, 0xD9, 0xB9, 0x99, 0x78, 0x58, 0x38, 0x18, 0xF8, 0xD8, 0xB8, 0x98,
     0x7F, 0x5F, 0x3F, 0x1F, 0xFF, 0xDF, 0xBF, 0x9F, 0x7E, 0x5E, 0x3E, 0x1E, 0xFE, 0xDE, 0xBE, 0x9E,
     0x7D, 0x5D, 0x3D, 0x1D, 0xFD, 0xDD, 0xBD, 0x9D, 0x7C, 0x5C, 0x3C, 0x1C, 0xFC, 0xDC, 0xBC, 0x9C,
     0x63, 0x43, 0x23, 0x03, 0xE3, 0xC3, 0xA3, 0x83, 0x62, 0x42, 0x22, 0x02, 0xE2, 0xC2, 0xA2, 0x82,
     0x61, 0x41, 0x21, 0x01, 0xE1, 0xC1, 0xA1, 0x81, 0x60, 0x40, 0x20, 0x00, 0xE0, 0xC0, 0xA0, 0x80,
     0x67, 0x47, 0x27, 0x07, 0xE7, 0xC7, 0xA7, 0x87, 0x66, 0x46, 0x26, 0x06, 0xE6, 0xC6, 0xA6, 0x86,
     0x65, 0x45, 0x25, 0x05, 0xE5, 0xC5, 0xA5, 0x85, 0x64, 0x44, 0x24, 0x04, 0xE4, 0xC4, 0xA4, 0x84,
     0x6B, 0x4B, 0x2B, 0x0B, 0xEB, 0xCB, 0xAB, 0x8B, 0x6A, 0x4A, 0x2A, 0x0A, 0xEA, 0xCA, 0xAA, 0x8A,
     0x69, 0x49, 0x29, 0x09, 0xE9, 0xC9, 0xA9, 0x89, 0x68, 0x48, 0x28, 0x08, 0xE8, 0xC8, 0xA8, 0x88,
     0x6F, 0x4F, 0x2F, 0x0F, 0xEF, 0xCF, 0xAF, 0x8F, 0x6E, 0x4E, 0x2E, 0x0E, 0xEE, 0xCE, 0xAE, 0x8E,
     0x6D, 0x4D, 0x2D, 0x0D, 0xED, 0xCD, 0xAD, 0x8D, 0x6C, 0x4C, 0x2C, 0x0C, 0xEC, 0xCC, 0xAC, 0x8C],
    [0x89, 0xA9, 0xC9, 0xE9, 0x09, 0x29, 0x49, 0x69, 0x88, 0xA8, 0xC8, 0xE8, 0x08, 0x28, 0x48, 0x68,
     0x8B, 0xAB, 0xCB, 0xEB, 0x0B, 0x2B, 0x4B, 0x6B, 0x8A, 0xAA, 0xCA, 0xEA, 0x0A, 0x2A, 0x4A, 0x6A,
     0x8D, 0xAD, 0xCD, 0xED, 0x0D, 0x2D, 0x4D, 0x6D, 0x8C, 0xAC, 0xCC, 0xEC, 0x0C, 0x2C, 0x4C, 0x6C,
     0x8F, 0xAF, 0xCF, 0xEF, 0x0F, 0x2F, 0x4F, 0x6F, 0x8E, 0xAE, 0xCE, 0xEE, 0x0E, 0x2E, 0x4E, 0x6E,
     0x81, 0xA1, 0xC1, 0xE1, 0x01, 0x21, 0x41, 0x61, 0x80, 0xA0, 0xC0, 0xE0, 0x00, 0x20, 0x40, 0x60,
     0x83, 0xA3, 0xC3, 0xE3, 0x03, 0x23, 0x43, 0x63, 0x82, 0xA2, 0xC2, 0xE2, 0x02, 0x22, 0x42, 0x62,
     0x85, 0xA5, 0xC5, 0xE5, 0x05, 0x25, 0x45, 0x65, 0x84, 0xA4, 0xC4, 0xE4, 0x04, 0x24, 0x44, 0x64,
     0x87, 0xA7, 0xC7, 0xE7, 0x07, 0x27, 0x47, 0x67, 0x86, 0xA6, 0xC6, 0xE6, 0x06, 0x26, 0x46, 0x66,
     0x99, 0xB9, 0xD9, 0xF9, 0x19, 0x39, 0x59, 0x79, 0x98, 0xB8, 0xD8, 0xF8, 0x18, 0x38, 0x58, 0x78,
     0x9B, 0xBB, 0xDB, 0xFB, 0x1B, 0x3B, 0x5B, 0x7B, 0x9A, 0xBA, 0xDA, 0xFA, 0x1A, 0x3A, 0x5A, 0x7A,
     0x9D, 0xBD, 0xDD, 0xFD, 0x1D, 0x3D, 0x5D, 0x7D, 0x9C, 0xBC, 0xDC, 0xFC, 0x1C, 0x3C, 0x5C, 0x7C,
     0x9F, 0xBF, 0xDF, 0xFF, 0x1F, 0x3F, 0x5F, 0x7F, 0x9E, 0xBE, 0xDE, 0xFE, 0x1E, 0x3E, 0x5E, 0x7E,
     0x91, 0xB1, 0xD1, 0xF1, 0x11, 0x31, 0x51, 0x71, 0x90, 0xB0, 0xD0, 0xF0, 0x10, 0x30, 0x50, 0x70,
     0x93, 0xB3, 0xD3, 0xF3, 0x13, 0x33, 0x53, 0x73, 0x92, 0xB2, 0xD2, 0xF2, 0x12, 0x32, 0x52, 0x72,
     0x95, 0xB5, 0xD5, 0xF5, 0x15, 0x35, 0x55, 0x75, 0x94, 0xB4, 0xD4, 0xF4, 0x14, 0x34, 0x54, 0x74,
     0x97, 0xB7, 0xD7, 0xF7, 0x17, 0x37, 0x57, 0x77, 0x96, 0xB6, 0xD6, 0xF6, 0x16, 0x36, 0x56, 0x76],
    [0xFD, 0xDD, 0xBD, 0x9D, 0x7D, 0x5D, 0x3D, 0x1D, 0xFC, 0xDC, 0xBC, 0x9C, 0x7C, 0x5C, 0x3C, 0x1C,
     0xFF, 0xDF, 0xBF, 0x9F, 0x7F, 0x5F, 0x3F, 0x1F, 0xFE, 0xDE, 0xBE, 0x9E, 0x7E, 0x5E, 0x3E, 0x1E,
     0xF9, 0xD9, 0xB9, 0x99, 0x79, 0x59, 0x39, 0x19, 0xF8, 0xD8, 0xB8, 0x98, 0x78, 0x58, 0x38, 0x18,
     0xFB, 0xDB, 0xBB, 0x9B, 0x7B, 0x5B, 0x3B, 0x1B, 0xFA, 0xDA, 0xBA, 0x9A, 0x7A, 0x5A, 0x3A, 0x1A,
     0xF5, 0xD5, 0xB5, 0x95, 0x75, 0x55, 0x35, 0x15, 0xF4, 0xD4, 0xB4, 0x94, 0x74, 0x54, 0x34, 0x14,
     0xF7, 0xD7, 0xB7, 0x97, 0x77, 0x57, 0x37, 0x17, 0xF6, 0xD6, 0xB6, 0x96, 0x76, 0x56, 0x36, 0x16,
     0xF1, 0xD1, 0xB1, 0x91, 0x71, 0x51, 0x31, 0x11, 0xF0, 0xD0, 0xB0, 0x90, 0x70, 0x50, 0x30, 0x10,
     0xF3, 0xD3, 0xB3, 0x93, 0x73, 0x53, 0x33, 0x13, 0xF2, 0xD2, 0xB2, 0x92, 0x72, 0x52, 0x32, 0x12,
     0xED, 0xCD, 0xAD, 0x8D, 0x6D, 0x4D, 0x2D, 0x0D, 0xEC, 0xCC, 0xAC, 0x8C, 0x6C, 0x4C, 0x2C, 0x0C,
     0xEF, 0xCF, 0xAF, 0x8F, 0x6F, 0x4F, 0x2F, 0x0F, 0xEE, 0xCE, 0xAE, 0x8E, 0x6E, 0x4E, 0x2E, 0x0E,
     0xE9, 0xC9, 0xA9, 0x89, 0x69, 0x49, 0x29, 0x09, 0xE8, 0xC8, 0xA8, 0x88, 0x68, 0x48, 0x28, 0x08,
     0xEB, 0xCB, 0xAB, 0x8B, 0x6B, 0x4B, 0x2B, 0x0B, 0xEA, 0xCA, 0xAA, 0x8A, 0x6A, 0x4A, 0x2A, 0x0A,
     0xE5, 0xC5, 0xA5, 0x85, 0x65, 0x45, 0x25, 0x05, 0xE4, 0xC4, 0xA4, 0x84, 0x64, 0x44, 0x24, 0x04,
     0xE7, 0xC7, 0xA7, 0x87, 0x67, 0x47, 0x27, 0x07, 0xE6, 0xC6, 0xA6, 0x86, 0x66, 0x46, 0x26, 0x06,
     0xE1, 0xC1, 0xA1, 0x81, 0x61, 0x41, 0x21, 0x01, 0xE0, 0xC0, 0xA0, 0x80, 0x60, 0x40, 0x20, 0x00,
     0xE3, 0xC3, 0xA3, 0x83, 0x63, 0x43, 0x23, 0x03, 0xE2, 0xC2, 0xA2, 0x82, 0x62, 0x42, 0x22, 0x02],
    [0x37, 0x35, 0x33, 0x31, 0x3F, 0x3D, 0x3B, 0x39, 0x27, 0x25, 0x23, 0x21, 0x2F, 0x2D, 0x2B, 0x29,
     0x17, 0x15, 0x13, 0x11, 0x1F, 0x1D, 0x1B, 0x19, 0x07, 0x05, 0x03, 0x01, 0x0F, 0x0D, 0x0B, 0x09,
     0x77, 0x75, 0x73, 0x71, 0x7F, 0x7D, 0x7B, 0x79, 0x67, 0x65, 0x63, 0x61, 0x6F, 0x6D, 0x6B, 0x69,
     0x57, 0x55, 0x53, 0x51, 0x5F, 0x5D, 0x5B, 0x59, 0x47, 0x45, 0x43, 0x41, 0x4F, 0x4D, 0x4B, 0x49,
     0xB7, 0xB5, 0xB3, 0xB1, 0xBF, 0xBD, 0xBB, 0xB9, 0xA7, 0xA5, 0xA3, 0xA1, 0xAF, 0xAD, 0xAB, 0xA9,
     0x97, 0x95, 0x93, 0x91, 0x9F, 0x9D, 0x9B, 0x99, 0x87, 0x85, 0x83, 0x81, 0x8F, 0x8D, 0x8B, 0x89,
     0xF7, 0xF5, 0xF3, 0xF1, 0xFF, 0xFD, 0xFB, 0xF9, 0xE7, 0xE5, 0xE3, 0xE1, 0xEF, 0xED, 0xEB, 0xE9,
     0xD7, 0xD5, 0xD3, 0xD1, 0xDF, 0xDD, 0xDB, 0xD9, 0xC7, 0xC5, 0xC3, 0xC1, 0xCF, 0xCD, 0xCB, 0xC9,
     0x36, 0x34, 0x32, 0x30, 0x3E, 0x3C, 0x3A, 0x38, 0x26, 0x24, 0x22, 0x20, 0x2E, 0x2C, 0x2A, 0x28,
     0x16, 0x14, 0x12, 0x10, 0x1E, 0x1C, 0x1A, 0x18, 0x06, 0x04, 0x02, 0x00, 0x0E, 0x0C, 0x0A, 0x08,
     0x76, 0x74, 0x72, 0x70, 0x7E, 0x7C, 0x7A, 0x78, 0x66, 0x64, 0x62, 0x60, 0x6E, 0x6C, 0x6A, 0x68,
     0x56, 0x54, 0x52, 0x50, 0x5E, 0x5C, 0x5A, 0x58, 0x46, 0x44, 0x42, 0x40, 0x4E, 0x4C, 0x4A, 0x48,
     0xB6, 0xB4, 0xB2, 0xB0, 0xBE, 0xBC, 0xBA, 0xB8, 0xA6, 0xA4, 0xA2, 0xA0, 0xAE, 0xAC, 0xAA, 0xA8,
     0x96, 0x94, 0x92, 0x90, 0x9E, 0x9C, 0x9A, 0x98, 0x86, 0x84, 0x82, 0x80, 0x8E, 0x8C, 0x8A, 0x88,
     0xF6, 0xF4, 0xF2, 0xF0, 0xFE, 0xFC, 0xFA, 0xF8, 0xE6, 0xE4, 0xE2, 0xE0, 0xEE, 0xEC, 0xEA, 0xE8,
     0xD6, 0xD4, 0xD2, 0xD0, 0xDE, 0xDC, 0xDA, 0xD8, 0xC6, 0xC4, 0xC2, 0xC0, 0xCE, 0xCC, 0xCA, 0xC8],
    [0x8F, 0xAF, 0xCF, 0xEF, 0x0F, 0x2F, 0x4F, 0x6F, 0x8E, 0xAE, 0xCE, 0xEE, 0x0E, 0x2E, 0x4E, 0x6E,
     0x8D, 0xAD, 0xCD, 0xED, 0x0D, 0x2D, 0x4D, 0x6D, 0x8C, 0xAC, 0xCC, 0xEC, 0x0C, 0x2C, 0x4C, 0x6C,
     0x8B, 0xAB, 0xCB, 0xEB, 0x0B, 0x2B, 0x4B, 0x6B, 0x8A, 0xAA, 0xCA, 0xEA, 0x0A, 0x2A, 0x4A, 0x6A,
     0x89, 0xA9, 0xC9, 0xE9, 0x09, 0x29, 0x49, 0x69, 0x88, 0xA8, 0xC8, 0xE8, 0x08, 0x28, 0x48, 0x68,
     0x87, 0xA7, 0xC7, 0xE7, 0x07, 0x27, 0x47, 0x67, 0x86, 0xA6, 0xC6, 0xE6, 0x06, 0x26, 0x46, 0x66,
     0x85, 0xA5, 0xC5, 0xE5, 0x05, 0x25, 0x45, 0x65, 0x84, 0xA4, 0xC4, 0xE4, 0x04, 0x24, 0x44, 0x64,
     0x83, 0xA3, 0xC3, 0xE3, 0x03, 0x23, 0x43, 0x63, 0x82, 0xA2, 0xC2, 0xE2, 0x02, 0x22, 0x42, 0x62,
     0x81, 0xA1, 0xC1, 0xE1, 0x01, 0x21, 0x41, 0x61, 0x80, 0xA0, 0xC0, 0xE0, 0x00, 0x20, 0x40, 0x60,
     0x9F, 0xBF, 0xDF, 0xFF, 0x1F, 0x3F, 0x5F, 0x7F, 0x9E, 0xBE, 0xDE, 0xFE, 0x1E, 0x3E, 0x5E, 0x7E,
     0x9D, 0xBD, 0xDD, 0xFD, 0x1D, 0x3D, 0x5D, 0x7D, 0x9C, 0xBC, 0xDC, 0xFC, 0x1C, 0x3C, 0x5C, 0x7C,
     0x9B, 0xBB, 0xDB, 0xFB, 0x1B, 0x3B, 0x5B, 0x7B, 0x9A, 0xBA, 0xDA, 0xFA, 0x1A, 0x3A, 0x5A, 0x7A,
     0x99, 0xB9, 0xD9, 0xF9, 0x19, 0x39, 0x59, 0x79, 0x98, 0xB8, 0xD8, 0xF8, 0x18, 0x38, 0x58, 0x78,
     0x97, 0xB7, 0xD7, 0xF7, 0x17, 0x37, 0x57, 0x77, 0x96, 0xB6, 0xD6, 0xF6, 0x16, 0x36, 0x56, 0x76,
     0x95, 0xB5, 0xD5, 0xF5, 0x15, 0x35, 0x55, 0x75, 0x94, 0xB4, 0xD4, 0xF4, 0x14, 0x34, 0x54, 0x74,
     0x93, 0xB3, 0xD3, 0xF3, 0x13, 0x33, 0x53, 0x73, 0x92, 0xB2, 0xD2, 0xF2, 0x12, 0x32, 0x52, 0x72,
     0x91, 0xB1, 0xD1, 0xF1, 0x11, 0x31, 0x51, 0x71, 0x90, 0xB0, 0xD0, 0xF0, 0x10, 0x30, 0x50, 0x70],
    [0x75, 0x55, 0x35, 0x15, 0xF5, 0xD5, 0xB5, 0x95, 0x74, 0x54, 0x34, 0x14, 0xF4, 0xD4, 0xB4, 0x94,
     0x77, 0x57, 0x37, 0x17, 0xF7, 0xD7, 0xB7, 0x97, 0x76, 0x56, 0x36, 0x16, 0xF6, 0xD6, 0xB6, 0x96,
     0x71, 0x51, 0x31, 0x11, 0xF1, 0xD1, 0xB1, 0x91, 0x70, 0x50, 0x30, 0x10, 0xF0, 0xD0, 0xB0, 0x90,
     0x73, 0x53, 0x33, 0x13, 0xF3, 0xD3, 0xB3, 0x93, 0x72, 0x52, 0x32, 0x12, 0xF2, 0xD2, 0xB2, 0x92,
     0x7D, 0x5D, 0x3D, 0x1D, 0xFD, 0xDD, 0xBD, 0x9D, 0x7C, 0x5C, 0x3C, 0x1C, 0xFC, 0xDC, 0xBC, 0x9C,
     0x7F, 0x5F, 0x3F, 0x1F, 0xFF, 0xDF, 0xBF, 0x9F, 0x7E, 0x5E, 0x3E, 0x1E, 0xFE, 0xDE, 0xBE, 0x9E,
     0x79, 0x59, 0x39, 0x19, 0xF9, 0xD9, 0xB9, 0x99, 0x78, 0x58, 0x38, 0x18, 0xF8, 0xD8, 0xB8, 0x98,
     0x7B, 0x5B, 0x3B, 0x1B, 0xFB, 0xDB, 0xBB, 0x9B, 0x7A, 0x5A, 0x3A, 0x1A, 0xFA, 0xDA, 0xBA, 0x9A,
     0x65, 0x45, 0x25, 0x05, 0xE5, 0xC5, 0xA5, 0x85, 0x64, 0x44, 0x24, 0x04, 0xE4, 0xC4, 0xA4, 0x84,
     0x67, 0x47, 0x27, 0x07, 0xE7, 0xC7, 0xA7, 0x87, 0x66, 0x46, 0x26, 0x06, 0xE6, 0xC6, 0xA6, 0x86,
     0x61, 0x41, 0x21, 0x01, 0xE1, 0xC1, 0xA1, 0x81, 0x60, 0x40, 0x20, 0x00, 0xE0, 0xC0, 0xA0, 0x80,
     0x63, 0x43, 0x23, 0x03, 0xE3, 0xC3, 0xA3, 0x83, 0x62, 0x42, 0x22, 0x02, 0xE2, 0xC2, 0xA2, 0x82,
     0x6D, 0x4D, 0x2D, 0x0D, 0xED, 0xCD, 0xAD, 0x8D, 0x6C, 0x4C, 0x2C, 0x0C, 0xEC, 0xCC, 0xAC, 0x8C,
     0x6F, 0x4F, 0x2F, 0x0F, 0xEF, 0xCF, 0xAF, 0x8F, 0x6E, 0x4E, 0x2E, 0x0E, 0xEE, 0xCE, 0xAE, 0x8E,
     0x69, 0x49, 0x29, 0x09, 0xE9, 0xC9, 0xA9, 0x89, 0x68, 0x48, 0x28, 0x08, 0xE8, 0xC8, 0xA8, 0x88,
     0x6B, 0x4B, 0x2B, 0x0B, 0xEB, 0xCB, 0xAB, 0x8B, 0x6A, 0x4A, 0x2A, 0x0A, 0xEA, 0xCA, 0xAA, 0x8A],
    [0xE5, 0xC5, 0xA5, 0x85, 0x65, 0x45, 0x25, 0x05, 0xE4, 0xC4, 0xA4, 0x84, 0x64, 0x44, 0x24, 0x04,
     0xE7, 0xC7, 0xA7, 0x87, 0x67, 0x47, 0x27, 0x07, 0xE6, 0xC6, 0xA6, 0x86, 0x66, 0x46, 0x26, 0x06,
     0xE1, 0xC1, 0xA1, 0x81, 0x61, 0x41, 0x21, 0x01, 0xE0, 0xC0, 0xA0, 0x80, 0x60, 0x40, 0x20, 0x00,
     0xE3, 0xC3, 0xA3, 0x83, 0x63, 0x43, 0x23, 0x03, 0xE2, 0xC2, 0xA2, 0x82, 0x62, 0x42, 0x22, 0x02,
     0xED, 0xCD, 0xAD, 0x8D, 0x6D, 0x4D, 0x2D, 0x0D, 0xEC, 0xCC, 0xAC, 0x8C, 0x6C, 0x4C, 0x2C, 0x0C,
     0xEF, 0xCF, 0xAF, 0x8F, 0x6F, 0x4F, 0x2F, 0x0F, 0xEE, 0xCE, 0xAE, 0x8E, 0x6E, 0x4E, 0x2E, 0x0E,
     0xE9, 0xC9, 0xA9, 0x89, 0x69, 0x49, 0x29, 0x09, 0xE8, 0xC8, 0xA8, 0x88, 0x68, 0x48, 0x28, 0x08,
     0xEB, 0xCB, 0xAB, 0x8B, 0x6B, 0x4B, 0x2B, 0x0B, 0xEA, 0xCA, 0xAA, 0x8A, 0x6A, 0x4A, 0x2A, 0x0A,
     0xF5, 0xD5, 0xB5, 0x95, 0x75, 0x55, 0x35, 0x15, 0xF4, 0xD4, 0xB4, 0x94, 0x74, 0x54, 0x34, 0x14,
     0xF7, 0xD7, 0xB7, 0x97, 0x77, 0x57, 0x37, 0x17, 0xF6, 0xD6, 0xB6, 0x96, 0x76, 0x56, 0x36, 0x16,
     0xF1, 0xD1, 0xB1, 0x91, 0x71, 0x51, 0x31, 0x11, 0xF0, 0xD0, 0xB0, 0x90, 0x70, 0x50, 0x30, 0x10,
     0xF3, 0xD3, 0xB3, 0x93, 0x73, 0x53, 0x33, 0x13, 0xF2, 0xD2, 0xB2, 0x92, 0x72, 0x52, 0x32, 0x12,
     0xFD, 0xDD, 0xBD, 0x9D, 0x7D, 0x5D, 0x3D, 0x1D, 0xFC, 0xDC, 0xBC, 0x9C, 0x7C, 0x5C, 0x3C, 0x1C,
     0xFF, 0xDF, 0xBF, 0x9F, 0x7F, 0x5F, 0x3F, 0x1F, 0xFE, 0xDE, 0xBE, 0x9E, 0x7E, 0x5E, 0x3E, 0x1E,
     0xF9, 0xD9, 0xB9, 0x99, 0x79, 0x59, 0x39, 0x19, 0xF8, 0xD8, 0xB8, 0x98, 0x78, 0x58, 0x38, 0x18,
     0xFB, 0xDB, 0xBB, 0x9B, 0x7B, 0x5B, 0x3B, 0x1B, 0xFA, 0xDA, 0xBA, 0x9A, 0x7A, 0x5A, 0x3A, 0x1A]]"

text \<open>Case 1: command AB, constant 0A8E.\<close>

definition cd_pic_case1 :: "u8 list list" where
  "cd_pic_case1 = [
    [0x58, 0x50, 0x48, 0x40, 0x78, 0x70, 0x68, 0x60, 0x18, 0x10, 0x08, 0x00, 0x38, 0x30, 0x28, 0x20,
     0xD8, 0xD0, 0xC8, 0xC0, 0xF8, 0xF0, 0xE8, 0xE0, 0x98, 0x90, 0x88, 0x80, 0xB8, 0xB0, 0xA8, 0xA0,
     0x59, 0x51, 0x49, 0x41, 0x79, 0x71, 0x69, 0x61, 0x19, 0x11, 0x09, 0x01, 0x39, 0x31, 0x29, 0x21,
     0xD9, 0xD1, 0xC9, 0xC1, 0xF9, 0xF1, 0xE9, 0xE1, 0x99, 0x91, 0x89, 0x81, 0xB9, 0xB1, 0xA9, 0xA1,
     0x5A, 0x52, 0x4A, 0x42, 0x7A, 0x72, 0x6A, 0x62, 0x1A, 0x12, 0x0A, 0x02, 0x3A, 0x32, 0x2A, 0x22,
     0xDA, 0xD2, 0xCA, 0xC2, 0xFA, 0xF2, 0xEA, 0xE2, 0x9A, 0x92, 0x8A, 0x82, 0xBA, 0xB2, 0xAA, 0xA2,
     0x5B, 0x53, 0x4B, 0x43, 0x7B, 0x73, 0x6B, 0x63, 0x1B, 0x13, 0x0B, 0x03, 0x3B, 0x33, 0x2B, 0x23,
     0xDB, 0xD3, 0xCB, 0xC3, 0xFB, 0xF3, 0xEB, 0xE3, 0x9B, 0x93, 0x8B, 0x83, 0xBB, 0xB3, 0xAB, 0xA3,
     0x5C, 0x54, 0x4C, 0x44, 0x7C, 0x74, 0x6C, 0x64, 0x1C, 0x14, 0x0C, 0x04, 0x3C, 0x34, 0x2C, 0x24,
     0xDC, 0xD4, 0xCC, 0xC4, 0xFC, 0xF4, 0xEC, 0xE4, 0x9C, 0x94, 0x8C, 0x84, 0xBC, 0xB4, 0xAC, 0xA4,
     0x5D, 0x55, 0x4D, 0x45, 0x7D, 0x75, 0x6D, 0x65, 0x1D, 0x15, 0x0D, 0x05, 0x3D, 0x35, 0x2D, 0x25,
     0xDD, 0xD5, 0xCD, 0xC5, 0xFD, 0xF5, 0xED, 0xE5, 0x9D, 0x95, 0x8D, 0x85, 0xBD, 0xB5, 0xAD, 0xA5,
     0x5E, 0x56, 0x4E, 0x46, 0x7E, 0x76, 0x6E, 0x66, 0x1E, 0x16, 0x0E, 0x06, 0x3E, 0x36, 0x2E, 0x26,
     0xDE, 0xD6, 0xCE, 0xC6, 0xFE, 0xF6, 0xEE, 0xE6, 0x9E, 0x96, 0x8E, 0x86, 0xBE, 0xB6, 0xAE, 0xA6,
     0x5F, 0x57, 0x4F, 0x47, 0x7F, 0x77, 0x6F, 0x67, 0x1F, 0x17, 0x0F, 0x07, 0x3F, 0x37, 0x2F, 0x27,
     0xDF, 0xD7, 0xCF, 0xC7, 0xFF, 0xF7, 0xEF, 0xE7, 0x9F, 0x97, 0x8F, 0x87, 0xBF, 0xB7, 0xAF, 0xA7],
    [0x2C, 0xAC, 0x2D, 0xAD, 0x2E, 0xAE, 0x2F, 0xAF, 0x28, 0xA8, 0x29, 0xA9, 0x2A, 0xAA, 0x2B, 0xAB,
     0x24, 0xA4, 0x25, 0xA5, 0x26, 0xA6, 0x27, 0xA7, 0x20, 0xA0, 0x21, 0xA1, 0x22, 0xA2, 0x23, 0xA3,
     0x3C, 0xBC, 0x3D, 0xBD, 0x3E, 0xBE, 0x3F, 0xBF, 0x38, 0xB8, 0x39, 0xB9, 0x3A, 0xBA, 0x3B, 0xBB,
     0x34, 0xB4, 0x35, 0xB5, 0x36, 0xB6, 0x37, 0xB7, 0x30, 0xB0, 0x31, 0xB1, 0x32, 0xB2, 0x33, 0xB3,
     0x0C, 0x8C, 0x0D, 0x8D, 0x0E, 0x8E, 0x0F, 0x8F, 0x08, 0x88, 0x09, 0x89, 0x0A, 0x8A, 0x0B, 0x8B,
     0x04, 0x84, 0x05, 0x85, 0x06, 0x86, 0x07, 0x87, 0x00, 0x80, 0x01, 0x81, 0x02, 0x82, 0x03, 0x83,
     0x1C, 0x9C, 0x1D, 0x9D, 0x1E, 0x9E, 0x1F, 0x9F, 0x18, 0x98, 0x19, 0x99, 0x1A, 0x9A, 0x1B, 0x9B,
     0x14, 0x94, 0x15, 0x95, 0x16, 0x96, 0x17, 0x97, 0x10, 0x90, 0x11, 0x91, 0x12, 0x92, 0x13, 0x93,
     0x6C, 0xEC, 0x6D, 0xED, 0x6E, 0xEE, 0x6F, 0xEF, 0x68, 0xE8, 0x69, 0xE9, 0x6A, 0xEA, 0x6B, 0xEB,
     0x64, 0xE4, 0x65, 0xE5, 0x66, 0xE6, 0x67, 0xE7, 0x60, 0xE0, 0x61, 0xE1, 0x62, 0xE2, 0x63, 0xE3,
     0x7C, 0xFC, 0x7D, 0xFD, 0x7E, 0xFE, 0x7F, 0xFF, 0x78, 0xF8, 0x79, 0xF9, 0x7A, 0xFA, 0x7B, 0xFB,
     0x74, 0xF4, 0x75, 0xF5, 0x76, 0xF6, 0x77, 0xF7, 0x70, 0xF0, 0x71, 0xF1, 0x72, 0xF2, 0x73, 0xF3,
     0x4C, 0xCC, 0x4D, 0xCD, 0x4E, 0xCE, 0x4F, 0xCF, 0x48, 0xC8, 0x49, 0xC9, 0x4A, 0xCA, 0x4B, 0xCB,
     0x44, 0xC4, 0x45, 0xC5, 0x46, 0xC6, 0x47, 0xC7, 0x40, 0xC0, 0x41, 0xC1, 0x42, 0xC2, 0x43, 0xC3,
     0x5C, 0xDC, 0x5D, 0xDD, 0x5E, 0xDE, 0x5F, 0xDF, 0x58, 0xD8, 0x59, 0xD9, 0x5A, 0xDA, 0x5B, 0xDB,
     0x54, 0xD4, 0x55, 0xD5, 0x56, 0xD6, 0x57, 0xD7, 0x50, 0xD0, 0x51, 0xD1, 0x52, 0xD2, 0x53, 0xD3],
    [0xAB, 0xA3, 0xBB, 0xB3, 0x8B, 0x83, 0x9B, 0x93, 0xEB, 0xE3, 0xFB, 0xF3, 0xCB, 0xC3, 0xDB, 0xD3,
     0x2B, 0x23, 0x3B, 0x33, 0x0B, 0x03, 0x1B, 0x13, 0x6B, 0x63, 0x7B, 0x73, 0x4B, 0x43, 0x5B, 0x53,
     0xAA, 0xA2, 0xBA, 0xB2, 0x8A, 0x82, 0x9A, 0x92, 0xEA, 0xE2, 0xFA, 0xF2, 0xCA, 0xC2, 0xDA, 0xD2,
     0x2A, 0x22, 0x3A, 0x32, 0x0A, 0x02, 0x1A, 0x12, 0x6A, 0x62, 0x7A, 0x72, 0x4A, 0x42, 0x5A, 0x52,
     0xA9, 0xA1, 0xB9, 0xB1, 0x89, 0x81, 0x99, 0x91, 0xE9, 0xE1, 0xF9, 0xF1, 0xC9, 0xC1, 0xD9, 0xD1,
     0x29, 0x21, 0x39, 0x31, 0x09, 0x01, 0x19, 0x11, 0x69, 0x61, 0x79, 0x71, 0x49, 0x41, 0x59, 0x51,
     0xA8, 0xA0, 0xB8, 0xB0, 0x88, 0x80, 0x98, 0x90, 0xE8, 0xE0, 0xF8, 0xF0, 0xC8, 0xC0, 0xD8, 0xD0,
     0x28, 0x20, 0x38, 0x30, 0x08, 0x00, 0x18, 0x10, 0x68, 0x60, 0x78, 0x70, 0x48, 0x40, 0x58, 0x50,
     0xAF, 0xA7, 0xBF, 0xB7, 0x8F, 0x87, 0x9F, 0x97, 0xEF, 0xE7, 0xFF, 0xF7, 0xCF, 0xC7, 0xDF, 0xD7,
     0x2F, 0x27, 0x3F, 0x37, 0x0F, 0x07, 0x1F, 0x17, 0x6F, 0x67, 0x7F, 0x77, 0x4F, 0x47, 0x5F, 0x57,
     0xAE, 0xA6, 0xBE, 0xB6, 0x8E, 0x86, 0x9E, 0x96, 0xEE, 0xE6, 0xFE, 0xF6, 0xCE, 0xC6, 0xDE, 0xD6,
     0x2E, 0x26, 0x3E, 0x36, 0x0E, 0x06, 0x1E, 0x16, 0x6E, 0x66, 0x7E, 0x76, 0x4E, 0x46, 0x5E, 0x56,
     0xAD, 0xA5, 0xBD, 0xB5, 0x8D, 0x85, 0x9D, 0x95, 0xED, 0xE5, 0xFD, 0xF5, 0xCD, 0xC5, 0xDD, 0xD5,
     0x2D, 0x25, 0x3D, 0x35, 0x0D, 0x05, 0x1D, 0x15, 0x6D, 0x65, 0x7D, 0x75, 0x4D, 0x45, 0x5D, 0x55,
     0xAC, 0xA4, 0xBC, 0xB4, 0x8C, 0x84, 0x9C, 0x94, 0xEC, 0xE4, 0xFC, 0xF4, 0xCC, 0xC4, 0xDC, 0xD4,
     0x2C, 0x24, 0x3C, 0x34, 0x0C, 0x04, 0x1C, 0x14, 0x6C, 0x64, 0x7C, 0x74, 0x4C, 0x44, 0x5C, 0x54],
    [0x7C, 0x74, 0x6C, 0x64, 0x5C, 0x54, 0x4C, 0x44, 0x3C, 0x34, 0x2C, 0x24, 0x1C, 0x14, 0x0C, 0x04,
     0xFC, 0xF4, 0xEC, 0xE4, 0xDC, 0xD4, 0xCC, 0xC4, 0xBC, 0xB4, 0xAC, 0xA4, 0x9C, 0x94, 0x8C, 0x84,
     0x7D, 0x75, 0x6D, 0x65, 0x5D, 0x55, 0x4D, 0x45, 0x3D, 0x35, 0x2D, 0x25, 0x1D, 0x15, 0x0D, 0x05,
     0xFD, 0xF5, 0xED, 0xE5, 0xDD, 0xD5, 0xCD, 0xC5, 0xBD, 0xB5, 0xAD, 0xA5, 0x9D, 0x95, 0x8D, 0x85,
     0x7E, 0x76, 0x6E, 0x66, 0x5E, 0x56, 0x4E, 0x46, 0x3E, 0x36, 0x2E, 0x26, 0x1E, 0x16, 0x0E, 0x06,
     0xFE, 0xF6, 0xEE, 0xE6, 0xDE, 0xD6, 0xCE, 0xC6, 0xBE, 0xB6, 0xAE, 0xA6, 0x9E, 0x96, 0x8E, 0x86,
     0x7F, 0x77, 0x6F, 0x67, 0x5F, 0x57, 0x4F, 0x47, 0x3F, 0x37, 0x2F, 0x27, 0x1F, 0x17, 0x0F, 0x07,
     0xFF, 0xF7, 0xEF, 0xE7, 0xDF, 0xD7, 0xCF, 0xC7, 0xBF, 0xB7, 0xAF, 0xA7, 0x9F, 0x97, 0x8F, 0x87,
     0x78, 0x70, 0x68, 0x60, 0x58, 0x50, 0x48, 0x40, 0x38, 0x30, 0x28, 0x20, 0x18, 0x10, 0x08, 0x00,
     0xF8, 0xF0, 0xE8, 0xE0, 0xD8, 0xD0, 0xC8, 0xC0, 0xB8, 0xB0, 0xA8, 0xA0, 0x98, 0x90, 0x88, 0x80,
     0x79, 0x71, 0x69, 0x61, 0x59, 0x51, 0x49, 0x41, 0x39, 0x31, 0x29, 0x21, 0x19, 0x11, 0x09, 0x01,
     0xF9, 0xF1, 0xE9, 0xE1, 0xD9, 0xD1, 0xC9, 0xC1, 0xB9, 0xB1, 0xA9, 0xA1, 0x99, 0x91, 0x89, 0x81,
     0x7A, 0x72, 0x6A, 0x62, 0x5A, 0x52, 0x4A, 0x42, 0x3A, 0x32, 0x2A, 0x22, 0x1A, 0x12, 0x0A, 0x02,
     0xFA, 0xF2, 0xEA, 0xE2, 0xDA, 0xD2, 0xCA, 0xC2, 0xBA, 0xB2, 0xAA, 0xA2, 0x9A, 0x92, 0x8A, 0x82,
     0x7B, 0x73, 0x6B, 0x63, 0x5B, 0x53, 0x4B, 0x43, 0x3B, 0x33, 0x2B, 0x23, 0x1B, 0x13, 0x0B, 0x03,
     0xFB, 0xF3, 0xEB, 0xE3, 0xDB, 0xD3, 0xCB, 0xC3, 0xBB, 0xB3, 0xAB, 0xA3, 0x9B, 0x93, 0x8B, 0x83],
    [0xD8, 0xD0, 0xC8, 0xC0, 0xF8, 0xF0, 0xE8, 0xE0, 0x98, 0x90, 0x88, 0x80, 0xB8, 0xB0, 0xA8, 0xA0,
     0x58, 0x50, 0x48, 0x40, 0x78, 0x70, 0x68, 0x60, 0x18, 0x10, 0x08, 0x00, 0x38, 0x30, 0x28, 0x20,
     0xD9, 0xD1, 0xC9, 0xC1, 0xF9, 0xF1, 0xE9, 0xE1, 0x99, 0x91, 0x89, 0x81, 0xB9, 0xB1, 0xA9, 0xA1,
     0x59, 0x51, 0x49, 0x41, 0x79, 0x71, 0x69, 0x61, 0x19, 0x11, 0x09, 0x01, 0x39, 0x31, 0x29, 0x21,
     0xDA, 0xD2, 0xCA, 0xC2, 0xFA, 0xF2, 0xEA, 0xE2, 0x9A, 0x92, 0x8A, 0x82, 0xBA, 0xB2, 0xAA, 0xA2,
     0x5A, 0x52, 0x4A, 0x42, 0x7A, 0x72, 0x6A, 0x62, 0x1A, 0x12, 0x0A, 0x02, 0x3A, 0x32, 0x2A, 0x22,
     0xDB, 0xD3, 0xCB, 0xC3, 0xFB, 0xF3, 0xEB, 0xE3, 0x9B, 0x93, 0x8B, 0x83, 0xBB, 0xB3, 0xAB, 0xA3,
     0x5B, 0x53, 0x4B, 0x43, 0x7B, 0x73, 0x6B, 0x63, 0x1B, 0x13, 0x0B, 0x03, 0x3B, 0x33, 0x2B, 0x23,
     0xDC, 0xD4, 0xCC, 0xC4, 0xFC, 0xF4, 0xEC, 0xE4, 0x9C, 0x94, 0x8C, 0x84, 0xBC, 0xB4, 0xAC, 0xA4,
     0x5C, 0x54, 0x4C, 0x44, 0x7C, 0x74, 0x6C, 0x64, 0x1C, 0x14, 0x0C, 0x04, 0x3C, 0x34, 0x2C, 0x24,
     0xDD, 0xD5, 0xCD, 0xC5, 0xFD, 0xF5, 0xED, 0xE5, 0x9D, 0x95, 0x8D, 0x85, 0xBD, 0xB5, 0xAD, 0xA5,
     0x5D, 0x55, 0x4D, 0x45, 0x7D, 0x75, 0x6D, 0x65, 0x1D, 0x15, 0x0D, 0x05, 0x3D, 0x35, 0x2D, 0x25,
     0xDE, 0xD6, 0xCE, 0xC6, 0xFE, 0xF6, 0xEE, 0xE6, 0x9E, 0x96, 0x8E, 0x86, 0xBE, 0xB6, 0xAE, 0xA6,
     0x5E, 0x56, 0x4E, 0x46, 0x7E, 0x76, 0x6E, 0x66, 0x1E, 0x16, 0x0E, 0x06, 0x3E, 0x36, 0x2E, 0x26,
     0xDF, 0xD7, 0xCF, 0xC7, 0xFF, 0xF7, 0xEF, 0xE7, 0x9F, 0x97, 0x8F, 0x87, 0xBF, 0xB7, 0xAF, 0xA7,
     0x5F, 0x57, 0x4F, 0x47, 0x7F, 0x77, 0x6F, 0x67, 0x1F, 0x17, 0x0F, 0x07, 0x3F, 0x37, 0x2F, 0x27],
    [0x4C, 0xCC, 0x4D, 0xCD, 0x4E, 0xCE, 0x4F, 0xCF, 0x48, 0xC8, 0x49, 0xC9, 0x4A, 0xCA, 0x4B, 0xCB,
     0x44, 0xC4, 0x45, 0xC5, 0x46, 0xC6, 0x47, 0xC7, 0x40, 0xC0, 0x41, 0xC1, 0x42, 0xC2, 0x43, 0xC3,
     0x5C, 0xDC, 0x5D, 0xDD, 0x5E, 0xDE, 0x5F, 0xDF, 0x58, 0xD8, 0x59, 0xD9, 0x5A, 0xDA, 0x5B, 0xDB,
     0x54, 0xD4, 0x55, 0xD5, 0x56, 0xD6, 0x57, 0xD7, 0x50, 0xD0, 0x51, 0xD1, 0x52, 0xD2, 0x53, 0xD3,
     0x6C, 0xEC, 0x6D, 0xED, 0x6E, 0xEE, 0x6F, 0xEF, 0x68, 0xE8, 0x69, 0xE9, 0x6A, 0xEA, 0x6B, 0xEB,
     0x64, 0xE4, 0x65, 0xE5, 0x66, 0xE6, 0x67, 0xE7, 0x60, 0xE0, 0x61, 0xE1, 0x62, 0xE2, 0x63, 0xE3,
     0x7C, 0xFC, 0x7D, 0xFD, 0x7E, 0xFE, 0x7F, 0xFF, 0x78, 0xF8, 0x79, 0xF9, 0x7A, 0xFA, 0x7B, 0xFB,
     0x74, 0xF4, 0x75, 0xF5, 0x76, 0xF6, 0x77, 0xF7, 0x70, 0xF0, 0x71, 0xF1, 0x72, 0xF2, 0x73, 0xF3,
     0x0C, 0x8C, 0x0D, 0x8D, 0x0E, 0x8E, 0x0F, 0x8F, 0x08, 0x88, 0x09, 0x89, 0x0A, 0x8A, 0x0B, 0x8B,
     0x04, 0x84, 0x05, 0x85, 0x06, 0x86, 0x07, 0x87, 0x00, 0x80, 0x01, 0x81, 0x02, 0x82, 0x03, 0x83,
     0x1C, 0x9C, 0x1D, 0x9D, 0x1E, 0x9E, 0x1F, 0x9F, 0x18, 0x98, 0x19, 0x99, 0x1A, 0x9A, 0x1B, 0x9B,
     0x14, 0x94, 0x15, 0x95, 0x16, 0x96, 0x17, 0x97, 0x10, 0x90, 0x11, 0x91, 0x12, 0x92, 0x13, 0x93,
     0x2C, 0xAC, 0x2D, 0xAD, 0x2E, 0xAE, 0x2F, 0xAF, 0x28, 0xA8, 0x29, 0xA9, 0x2A, 0xAA, 0x2B, 0xAB,
     0x24, 0xA4, 0x25, 0xA5, 0x26, 0xA6, 0x27, 0xA7, 0x20, 0xA0, 0x21, 0xA1, 0x22, 0xA2, 0x23, 0xA3,
     0x3C, 0xBC, 0x3D, 0xBD, 0x3E, 0xBE, 0x3F, 0xBF, 0x38, 0xB8, 0x39, 0xB9, 0x3A, 0xBA, 0x3B, 0xBB,
     0x34, 0xB4, 0x35, 0xB5, 0x36, 0xB6, 0x37, 0xB7, 0x30, 0xB0, 0x31, 0xB1, 0x32, 0xB2, 0x33, 0xB3],
    [0x8B, 0x83, 0x9B, 0x93, 0xAB, 0xA3, 0xBB, 0xB3, 0xCB, 0xC3, 0xDB, 0xD3, 0xEB, 0xE3, 0xFB, 0xF3,
     0x0B, 0x03, 0x1B, 0x13, 0x2B, 0x23, 0x3B, 0x33, 0x4B, 0x43, 0x5B, 0x53, 0x6B, 0x63, 0x7B, 0x73,
     0x8A, 0x82, 0x9A, 0x92, 0xAA, 0xA2, 0xBA, 0xB2, 0xCA, 0xC2, 0xDA, 0xD2, 0xEA, 0xE2, 0xFA, 0xF2,
     0x0A, 0x02, 0x1A, 0x12, 0x2A, 0x22, 0x3A, 0x32, 0x4A, 0x42, 0x5A, 0x52, 0x6A, 0x62, 0x7A, 0x72,
     0x89, 0x81, 0x99, 0x91, 0xA9, 0xA1, 0xB9, 0xB1, 0xC9, 0xC1, 0xD9, 0xD1, 0xE9, 0xE1, 0xF9, 0xF1,
     0x09, 0x01, 0x19, 0x11, 0x29, 0x21, 0x39, 0x31, 0x49, 0x41, 0x59, 0x51, 0x69, 0x61, 0x79, 0x71,
     0x88, 0x80, 0x98, 0x90, 0xA8, 0xA0, 0xB8, 0xB0, 0xC8, 0xC0, 0xD8, 0xD0, 0xE8, 0xE0, 0xF8, 0xF0,
     0x08, 0x00, 0x18, 0x10, 0x28, 0x20, 0x38, 0x30, 0x48, 0x40, 0x58, 0x50, 0x68, 0x60, 0x78, 0x70,
     0x8F, 0x87, 0x9F, 0x97, 0xAF, 0xA7, 0xBF, 0xB7, 0xCF, 0xC7, 0xDF, 0xD7, 0xEF, 0xE7, 0xFF, 0xF7,
     0x0F, 0x07, 0x1F, 0x17, 0x2F, 0x27, 0x3F, 0x37, 0x4F, 0x47, 0x5F, 0x57, 0x6F, 0x67, 0x7F, 0x77,
     0x8E, 0x86, 0x9E, 0x96, 0xAE, 0xA6, 0xBE, 0xB6, 0xCE, 0xC6, 0xDE, 0xD6, 0xEE, 0xE6, 0xFE, 0xF6,
     0x0E, 0x06, 0x1E, 0x16, 0x2E, 0x26, 0x3E, 0x36, 0x4E, 0x46, 0x5E, 0x56, 0x6E, 0x66, 0x7E, 0x76,
     0x8D, 0x85, 0x9D, 0x95, 0xAD, 0xA5, 0xBD, 0xB5, 0xCD, 0xC5, 0xDD, 0xD5, 0xED, 0xE5, 0xFD, 0xF5,
     0x0D, 0x05, 0x1D, 0x15, 0x2D, 0x25, 0x3D, 0x35, 0x4D, 0x45, 0x5D, 0x55, 0x6D, 0x65, 0x7D, 0x75,
     0x8C, 0x84, 0x9C, 0x94, 0xAC, 0xA4, 0xBC, 0xB4, 0xCC, 0xC4, 0xDC, 0xD4, 0xEC, 0xE4, 0xFC, 0xF4,
     0x0C, 0x04, 0x1C, 0x14, 0x2C, 0x24, 0x3C, 0x34, 0x4C, 0x44, 0x5C, 0x54, 0x6C, 0x64, 0x7C, 0x74],
    [0x5C, 0x54, 0x4C, 0x44, 0x7C, 0x74, 0x6C, 0x64, 0x1C, 0x14, 0x0C, 0x04, 0x3C, 0x34, 0x2C, 0x24,
     0xDC, 0xD4, 0xCC, 0xC4, 0xFC, 0xF4, 0xEC, 0xE4, 0x9C, 0x94, 0x8C, 0x84, 0xBC, 0xB4, 0xAC, 0xA4,
     0x5D, 0x55, 0x4D, 0x45, 0x7D, 0x75, 0x6D, 0x65, 0x1D, 0x15, 0x0D, 0x05, 0x3D, 0x35, 0x2D, 0x25,
     0xDD, 0xD5, 0xCD, 0xC5, 0xFD, 0xF5, 0xED, 0xE5, 0x9D, 0x95, 0x8D, 0x85, 0xBD, 0xB5, 0xAD, 0xA5,
     0x5E, 0x56, 0x4E, 0x46, 0x7E, 0x76, 0x6E, 0x66, 0x1E, 0x16, 0x0E, 0x06, 0x3E, 0x36, 0x2E, 0x26,
     0xDE, 0xD6, 0xCE, 0xC6, 0xFE, 0xF6, 0xEE, 0xE6, 0x9E, 0x96, 0x8E, 0x86, 0xBE, 0xB6, 0xAE, 0xA6,
     0x5F, 0x57, 0x4F, 0x47, 0x7F, 0x77, 0x6F, 0x67, 0x1F, 0x17, 0x0F, 0x07, 0x3F, 0x37, 0x2F, 0x27,
     0xDF, 0xD7, 0xCF, 0xC7, 0xFF, 0xF7, 0xEF, 0xE7, 0x9F, 0x97, 0x8F, 0x87, 0xBF, 0xB7, 0xAF, 0xA7,
     0x58, 0x50, 0x48, 0x40, 0x78, 0x70, 0x68, 0x60, 0x18, 0x10, 0x08, 0x00, 0x38, 0x30, 0x28, 0x20,
     0xD8, 0xD0, 0xC8, 0xC0, 0xF8, 0xF0, 0xE8, 0xE0, 0x98, 0x90, 0x88, 0x80, 0xB8, 0xB0, 0xA8, 0xA0,
     0x59, 0x51, 0x49, 0x41, 0x79, 0x71, 0x69, 0x61, 0x19, 0x11, 0x09, 0x01, 0x39, 0x31, 0x29, 0x21,
     0xD9, 0xD1, 0xC9, 0xC1, 0xF9, 0xF1, 0xE9, 0xE1, 0x99, 0x91, 0x89, 0x81, 0xB9, 0xB1, 0xA9, 0xA1,
     0x5A, 0x52, 0x4A, 0x42, 0x7A, 0x72, 0x6A, 0x62, 0x1A, 0x12, 0x0A, 0x02, 0x3A, 0x32, 0x2A, 0x22,
     0xDA, 0xD2, 0xCA, 0xC2, 0xFA, 0xF2, 0xEA, 0xE2, 0x9A, 0x92, 0x8A, 0x82, 0xBA, 0xB2, 0xAA, 0xA2,
     0x5B, 0x53, 0x4B, 0x43, 0x7B, 0x73, 0x6B, 0x63, 0x1B, 0x13, 0x0B, 0x03, 0x3B, 0x33, 0x2B, 0x23,
     0xDB, 0xD3, 0xCB, 0xC3, 0xFB, 0xF3, 0xEB, 0xE3, 0x9B, 0x93, 0x8B, 0x83, 0xBB, 0xB3, 0xAB, 0xA3]]"

text \<open>Case 2: command AA, constant 1206.\<close>

definition cd_pic_case2 :: "u8 list list" where
  "cd_pic_case2 = [
    [0x9B, 0xBB, 0xDB, 0xFB, 0x1B, 0x3B, 0x5B, 0x7B, 0x9A, 0xBA, 0xDA, 0xFA, 0x1A, 0x3A, 0x5A, 0x7A,
     0x99, 0xB9, 0xD9, 0xF9, 0x19, 0x39, 0x59, 0x79, 0x98, 0xB8, 0xD8, 0xF8, 0x18, 0x38, 0x58, 0x78,
     0x9F, 0xBF, 0xDF, 0xFF, 0x1F, 0x3F, 0x5F, 0x7F, 0x9E, 0xBE, 0xDE, 0xFE, 0x1E, 0x3E, 0x5E, 0x7E,
     0x9D, 0xBD, 0xDD, 0xFD, 0x1D, 0x3D, 0x5D, 0x7D, 0x9C, 0xBC, 0xDC, 0xFC, 0x1C, 0x3C, 0x5C, 0x7C,
     0x93, 0xB3, 0xD3, 0xF3, 0x13, 0x33, 0x53, 0x73, 0x92, 0xB2, 0xD2, 0xF2, 0x12, 0x32, 0x52, 0x72,
     0x91, 0xB1, 0xD1, 0xF1, 0x11, 0x31, 0x51, 0x71, 0x90, 0xB0, 0xD0, 0xF0, 0x10, 0x30, 0x50, 0x70,
     0x97, 0xB7, 0xD7, 0xF7, 0x17, 0x37, 0x57, 0x77, 0x96, 0xB6, 0xD6, 0xF6, 0x16, 0x36, 0x56, 0x76,
     0x95, 0xB5, 0xD5, 0xF5, 0x15, 0x35, 0x55, 0x75, 0x94, 0xB4, 0xD4, 0xF4, 0x14, 0x34, 0x54, 0x74,
     0x8B, 0xAB, 0xCB, 0xEB, 0x0B, 0x2B, 0x4B, 0x6B, 0x8A, 0xAA, 0xCA, 0xEA, 0x0A, 0x2A, 0x4A, 0x6A,
     0x89, 0xA9, 0xC9, 0xE9, 0x09, 0x29, 0x49, 0x69, 0x88, 0xA8, 0xC8, 0xE8, 0x08, 0x28, 0x48, 0x68,
     0x8F, 0xAF, 0xCF, 0xEF, 0x0F, 0x2F, 0x4F, 0x6F, 0x8E, 0xAE, 0xCE, 0xEE, 0x0E, 0x2E, 0x4E, 0x6E,
     0x8D, 0xAD, 0xCD, 0xED, 0x0D, 0x2D, 0x4D, 0x6D, 0x8C, 0xAC, 0xCC, 0xEC, 0x0C, 0x2C, 0x4C, 0x6C,
     0x83, 0xA3, 0xC3, 0xE3, 0x03, 0x23, 0x43, 0x63, 0x82, 0xA2, 0xC2, 0xE2, 0x02, 0x22, 0x42, 0x62,
     0x81, 0xA1, 0xC1, 0xE1, 0x01, 0x21, 0x41, 0x61, 0x80, 0xA0, 0xC0, 0xE0, 0x00, 0x20, 0x40, 0x60,
     0x87, 0xA7, 0xC7, 0xE7, 0x07, 0x27, 0x47, 0x67, 0x86, 0xA6, 0xC6, 0xE6, 0x06, 0x26, 0x46, 0x66,
     0x85, 0xA5, 0xC5, 0xE5, 0x05, 0x25, 0x45, 0x65, 0x84, 0xA4, 0xC4, 0xE4, 0x04, 0x24, 0x44, 0x64],
    [0xD9, 0xDB, 0xDD, 0xDF, 0xD1, 0xD3, 0xD5, 0xD7, 0xC9, 0xCB, 0xCD, 0xCF, 0xC1, 0xC3, 0xC5, 0xC7,
     0xF9, 0xFB, 0xFD, 0xFF, 0xF1, 0xF3, 0xF5, 0xF7, 0xE9, 0xEB, 0xED, 0xEF, 0xE1, 0xE3, 0xE5, 0xE7,
     0x99, 0x9B, 0x9D, 0x9F, 0x91, 0x93, 0x95, 0x97, 0x89, 0x8B, 0x8D, 0x8F, 0x81, 0x83, 0x85, 0x87,
     0xB9, 0xBB, 0xBD, 0xBF, 0xB1, 0xB3, 0xB5, 0xB7, 0xA9, 0xAB, 0xAD, 0xAF, 0xA1, 0xA3, 0xA5, 0xA7,
     0x59, 0x5B, 0x5D, 0x5F, 0x51, 0x53, 0x55, 0x57, 0x49, 0x4B, 0x4D, 0x4F, 0x41, 0x43, 0x45, 0x47,
     0x79, 0x7B, 0x7D, 0x7F, 0x71, 0x73, 0x75, 0x77, 0x69, 0x6B, 0x6D, 0x6F, 0x61, 0x63, 0x65, 0x67,
     0x19, 0x1B, 0x1D, 0x1F, 0x11, 0x13, 0x15, 0x17, 0x09, 0x0B, 0x0D, 0x0F, 0x01, 0x03, 0x05, 0x07,
     0x39, 0x3B, 0x3D, 0x3F, 0x31, 0x33, 0x35, 0x37, 0x29, 0x2B, 0x2D, 0x2F, 0x21, 0x23, 0x25, 0x27,
     0xD8, 0xDA, 0xDC, 0xDE, 0xD0, 0xD2, 0xD4, 0xD6, 0xC8, 0xCA, 0xCC, 0xCE, 0xC0, 0xC2, 0xC4, 0xC6,
     0xF8, 0xFA, 0xFC, 0xFE, 0xF0, 0xF2, 0xF4, 0xF6, 0xE8, 0xEA, 0xEC, 0xEE, 0xE0, 0xE2, 0xE4, 0xE6,
     0x98, 0x9A, 0x9C, 0x9E, 0x90, 0x92, 0x94, 0x96, 0x88, 0x8A, 0x8C, 0x8E, 0x80, 0x82, 0x84, 0x86,
     0xB8, 0xBA, 0xBC, 0xBE, 0xB0, 0xB2, 0xB4, 0xB6, 0xA8, 0xAA, 0xAC, 0xAE, 0xA0, 0xA2, 0xA4, 0xA6,
     0x58, 0x5A, 0x5C, 0x5E, 0x50, 0x52, 0x54, 0x56, 0x48, 0x4A, 0x4C, 0x4E, 0x40, 0x42, 0x44, 0x46,
     0x78, 0x7A, 0x7C, 0x7E, 0x70, 0x72, 0x74, 0x76, 0x68, 0x6A, 0x6C, 0x6E, 0x60, 0x62, 0x64, 0x66,
     0x18, 0x1A, 0x1C, 0x1E, 0x10, 0x12, 0x14, 0x16, 0x08, 0x0A, 0x0C, 0x0E, 0x00, 0x02, 0x04, 0x06,
     0x38, 0x3A, 0x3C, 0x3E, 0x30, 0x32, 0x34, 0x36, 0x28, 0x2A, 0x2C, 0x2E, 0x20, 0x22, 0x24, 0x26],
    [0x7D, 0x5D, 0x3D, 0x1D, 0xFD, 0xDD, 0xBD, 0x9D, 0x7C, 0x5C, 0x3C, 0x1C, 0xFC, 0xDC, 0xBC, 0x9C,
     0x7F, 0x5F, 0x3F, 0x1F, 0xFF, 0xDF, 0xBF, 0x9F, 0x7E, 0x5E, 0x3E, 0x1E, 0xFE, 0xDE, 0xBE, 0x9E,
     0x79, 0x59, 0x39, 0x19, 0xF9, 0xD9, 0xB9, 0x99, 0x78, 0x58, 0x38, 0x18, 0xF8, 0xD8, 0xB8, 0x98,
     0x7B, 0x5B, 0x3B, 0x1B, 0xFB, 0xDB, 0xBB, 0x9B, 0x7A, 0x5A, 0x3A, 0x1A, 0xFA, 0xDA, 0xBA, 0x9A,
     0x75, 0x55, 0x35, 0x15, 0xF5, 0xD5, 0xB5, 0x95, 0x74, 0x54, 0x34, 0x14, 0xF4, 0xD4, 0xB4, 0x94,
     0x77, 0x57, 0x37, 0x17, 0xF7, 0xD7, 0xB7, 0x97, 0x76, 0x56, 0x36, 0x16, 0xF6, 0xD6, 0xB6, 0x96,
     0x71, 0x51, 0x31, 0x11, 0xF1, 0xD1, 0xB1, 0x91, 0x70, 0x50, 0x30, 0x10, 0xF0, 0xD0, 0xB0, 0x90,
     0x73, 0x53, 0x33, 0x13, 0xF3, 0xD3, 0xB3, 0x93, 0x72, 0x52, 0x32, 0x12, 0xF2, 0xD2, 0xB2, 0x92,
     0x6D, 0x4D, 0x2D, 0x0D, 0xED, 0xCD, 0xAD, 0x8D, 0x6C, 0x4C, 0x2C, 0x0C, 0xEC, 0xCC, 0xAC, 0x8C,
     0x6F, 0x4F, 0x2F, 0x0F, 0xEF, 0xCF, 0xAF, 0x8F, 0x6E, 0x4E, 0x2E, 0x0E, 0xEE, 0xCE, 0xAE, 0x8E,
     0x69, 0x49, 0x29, 0x09, 0xE9, 0xC9, 0xA9, 0x89, 0x68, 0x48, 0x28, 0x08, 0xE8, 0xC8, 0xA8, 0x88,
     0x6B, 0x4B, 0x2B, 0x0B, 0xEB, 0xCB, 0xAB, 0x8B, 0x6A, 0x4A, 0x2A, 0x0A, 0xEA, 0xCA, 0xAA, 0x8A,
     0x65, 0x45, 0x25, 0x05, 0xE5, 0xC5, 0xA5, 0x85, 0x64, 0x44, 0x24, 0x04, 0xE4, 0xC4, 0xA4, 0x84,
     0x67, 0x47, 0x27, 0x07, 0xE7, 0xC7, 0xA7, 0x87, 0x66, 0x46, 0x26, 0x06, 0xE6, 0xC6, 0xA6, 0x86,
     0x61, 0x41, 0x21, 0x01, 0xE1, 0xC1, 0xA1, 0x81, 0x60, 0x40, 0x20, 0x00, 0xE0, 0xC0, 0xA0, 0x80,
     0x63, 0x43, 0x23, 0x03, 0xE3, 0xC3, 0xA3, 0x83, 0x62, 0x42, 0x22, 0x02, 0xE2, 0xC2, 0xA2, 0x82],
    [0x87, 0xA7, 0xC7, 0xE7, 0x07, 0x27, 0x47, 0x67, 0x86, 0xA6, 0xC6, 0xE6, 0x06, 0x26, 0x46, 0x66,
     0x85, 0xA5, 0xC5, 0xE5, 0x05, 0x25, 0x45, 0x65, 0x84, 0xA4, 0xC4, 0xE4, 0x04, 0x24, 0x44, 0x64,
     0x83, 0xA3, 0xC3, 0xE3, 0x03, 0x23, 0x43, 0x63, 0x82, 0xA2, 0xC2, 0xE2, 0x02, 0x22, 0x42, 0x62,
     0x81, 0xA1, 0xC1, 0xE1, 0x01, 0x21, 0x41, 0x61, 0x80, 0xA0, 0xC0, 0xE0, 0x00, 0x20, 0x40, 0x60,
     0x8F, 0xAF, 0xCF, 0xEF, 0x0F, 0x2F, 0x4F, 0x6F, 0x8E, 0xAE, 0xCE, 0xEE, 0x0E, 0x2E, 0x4E, 0x6E,
     0x8D, 0xAD, 0xCD, 0xED, 0x0D, 0x2D, 0x4D, 0x6D, 0x8C, 0xAC, 0xCC, 0xEC, 0x0C, 0x2C, 0x4C, 0x6C,
     0x8B, 0xAB, 0xCB, 0xEB, 0x0B, 0x2B, 0x4B, 0x6B, 0x8A, 0xAA, 0xCA, 0xEA, 0x0A, 0x2A, 0x4A, 0x6A,
     0x89, 0xA9, 0xC9, 0xE9, 0x09, 0x29, 0x49, 0x69, 0x88, 0xA8, 0xC8, 0xE8, 0x08, 0x28, 0x48, 0x68,
     0x97, 0xB7, 0xD7, 0xF7, 0x17, 0x37, 0x57, 0x77, 0x96, 0xB6, 0xD6, 0xF6, 0x16, 0x36, 0x56, 0x76,
     0x95, 0xB5, 0xD5, 0xF5, 0x15, 0x35, 0x55, 0x75, 0x94, 0xB4, 0xD4, 0xF4, 0x14, 0x34, 0x54, 0x74,
     0x93, 0xB3, 0xD3, 0xF3, 0x13, 0x33, 0x53, 0x73, 0x92, 0xB2, 0xD2, 0xF2, 0x12, 0x32, 0x52, 0x72,
     0x91, 0xB1, 0xD1, 0xF1, 0x11, 0x31, 0x51, 0x71, 0x90, 0xB0, 0xD0, 0xF0, 0x10, 0x30, 0x50, 0x70,
     0x9F, 0xBF, 0xDF, 0xFF, 0x1F, 0x3F, 0x5F, 0x7F, 0x9E, 0xBE, 0xDE, 0xFE, 0x1E, 0x3E, 0x5E, 0x7E,
     0x9D, 0xBD, 0xDD, 0xFD, 0x1D, 0x3D, 0x5D, 0x7D, 0x9C, 0xBC, 0xDC, 0xFC, 0x1C, 0x3C, 0x5C, 0x7C,
     0x9B, 0xBB, 0xDB, 0xFB, 0x1B, 0x3B, 0x5B, 0x7B, 0x9A, 0xBA, 0xDA, 0xFA, 0x1A, 0x3A, 0x5A, 0x7A,
     0x99, 0xB9, 0xD9, 0xF9, 0x19, 0x39, 0x59, 0x79, 0x98, 0xB8, 0xD8, 0xF8, 0x18, 0x38, 0x58, 0x78],
    [0x8B, 0xAB, 0xCB, 0xEB, 0x0B, 0x2B, 0x4B, 0x6B, 0x8A, 0xAA, 0xCA, 0xEA, 0x0A, 0x2A, 0x4A, 0x6A,
     0x89, 0xA9, 0xC9, 0xE9, 0x09, 0x29, 0x49, 0x69, 0x88, 0xA8, 0xC8, 0xE8, 0x08, 0x28, 0x48, 0x68,
     0x8F, 0xAF, 0xCF, 0xEF, 0x0F, 0x2F, 0x4F, 0x6F, 0x8E, 0xAE, 0xCE, 0xEE, 0x0E, 0x2E, 0x4E, 0x6E,
     0x8D, 0xAD, 0xCD, 0xED, 0x0D, 0x2D, 0x4D, 0x6D, 0x8C, 0xAC, 0xCC, 0xEC, 0x0C, 0x2C, 0x4C, 0x6C,
     0x83, 0xA3, 0xC3, 0xE3, 0x03, 0x23, 0x43, 0x63, 0x82, 0xA2, 0xC2, 0xE2, 0x02, 0x22, 0x42, 0x62,
     0x81, 0xA1, 0xC1, 0xE1, 0x01, 0x21, 0x41, 0x61, 0x80, 0xA0, 0xC0, 0xE0, 0x00, 0x20, 0x40, 0x60,
     0x87, 0xA7, 0xC7, 0xE7, 0x07, 0x27, 0x47, 0x67, 0x86, 0xA6, 0xC6, 0xE6, 0x06, 0x26, 0x46, 0x66,
     0x85, 0xA5, 0xC5, 0xE5, 0x05, 0x25, 0x45, 0x65, 0x84, 0xA4, 0xC4, 0xE4, 0x04, 0x24, 0x44, 0x64,
     0x9B, 0xBB, 0xDB, 0xFB, 0x1B, 0x3B, 0x5B, 0x7B, 0x9A, 0xBA, 0xDA, 0xFA, 0x1A, 0x3A, 0x5A, 0x7A,
     0x99, 0xB9, 0xD9, 0xF9, 0x19, 0x39, 0x59, 0x79, 0x98, 0xB8, 0xD8, 0xF8, 0x18, 0x38, 0x58, 0x78,
     0x9F, 0xBF, 0xDF, 0xFF, 0x1F, 0x3F, 0x5F, 0x7F, 0x9E, 0xBE, 0xDE, 0xFE, 0x1E, 0x3E, 0x5E, 0x7E,
     0x9D, 0xBD, 0xDD, 0xFD, 0x1D, 0x3D, 0x5D, 0x7D, 0x9C, 0xBC, 0xDC, 0xFC, 0x1C, 0x3C, 0x5C, 0x7C,
     0x93, 0xB3, 0xD3, 0xF3, 0x13, 0x33, 0x53, 0x73, 0x92, 0xB2, 0xD2, 0xF2, 0x12, 0x32, 0x52, 0x72,
     0x91, 0xB1, 0xD1, 0xF1, 0x11, 0x31, 0x51, 0x71, 0x90, 0xB0, 0xD0, 0xF0, 0x10, 0x30, 0x50, 0x70,
     0x97, 0xB7, 0xD7, 0xF7, 0x17, 0x37, 0x57, 0x77, 0x96, 0xB6, 0xD6, 0xF6, 0x16, 0x36, 0x56, 0x76,
     0x95, 0xB5, 0xD5, 0xF5, 0x15, 0x35, 0x55, 0x75, 0x94, 0xB4, 0xD4, 0xF4, 0x14, 0x34, 0x54, 0x74],
    [0x18, 0x1A, 0x1C, 0x1E, 0x10, 0x12, 0x14, 0x16, 0x08, 0x0A, 0x0C, 0x0E, 0x00, 0x02, 0x04, 0x06,
     0x38, 0x3A, 0x3C, 0x3E, 0x30, 0x32, 0x34, 0x36, 0x28, 0x2A, 0x2C, 0x2E, 0x20, 0x22, 0x24, 0x26,
     0x58, 0x5A, 0x5C, 0x5E, 0x50, 0x52, 0x54, 0x56, 0x48, 0x4A, 0x4C, 0x4E, 0x40, 0x42, 0x44, 0x46,
     0x78, 0x7A, 0x7C, 0x7E, 0x70, 0x72, 0x74, 0x76, 0x68, 0x6A, 0x6C, 0x6E, 0x60, 0x62, 0x64, 0x66,
     0x98, 0x9A, 0x9C, 0x9E, 0x90, 0x92, 0x94, 0x96, 0x88, 0x8A, 0x8C, 0x8E, 0x80, 0x82, 0x84, 0x86,
     0xB8, 0xBA, 0xBC, 0xBE, 0xB0, 0xB2, 0xB4, 0xB6, 0xA8, 0xAA, 0xAC, 0xAE, 0xA0, 0xA2, 0xA4, 0xA6,
     0xD8, 0xDA, 0xDC, 0xDE, 0xD0, 0xD2, 0xD4, 0xD6, 0xC8, 0xCA, 0xCC, 0xCE, 0xC0, 0xC2, 0xC4, 0xC6,
     0xF8, 0xFA, 0xFC, 0xFE, 0xF0, 0xF2, 0xF4, 0xF6, 0xE8, 0xEA, 0xEC, 0xEE, 0xE0, 0xE2, 0xE4, 0xE6,
     0x19, 0x1B, 0x1D, 0x1F, 0x11, 0x13, 0x15, 0x17, 0x09, 0x0B, 0x0D, 0x0F, 0x01, 0x03, 0x05, 0x07,
     0x39, 0x3B, 0x3D, 0x3F, 0x31, 0x33, 0x35, 0x37, 0x29, 0x2B, 0x2D, 0x2F, 0x21, 0x23, 0x25, 0x27,
     0x59, 0x5B, 0x5D, 0x5F, 0x51, 0x53, 0x55, 0x57, 0x49, 0x4B, 0x4D, 0x4F, 0x41, 0x43, 0x45, 0x47,
     0x79, 0x7B, 0x7D, 0x7F, 0x71, 0x73, 0x75, 0x77, 0x69, 0x6B, 0x6D, 0x6F, 0x61, 0x63, 0x65, 0x67,
     0x99, 0x9B, 0x9D, 0x9F, 0x91, 0x93, 0x95, 0x97, 0x89, 0x8B, 0x8D, 0x8F, 0x81, 0x83, 0x85, 0x87,
     0xB9, 0xBB, 0xBD, 0xBF, 0xB1, 0xB3, 0xB5, 0xB7, 0xA9, 0xAB, 0xAD, 0xAF, 0xA1, 0xA3, 0xA5, 0xA7,
     0xD9, 0xDB, 0xDD, 0xDF, 0xD1, 0xD3, 0xD5, 0xD7, 0xC9, 0xCB, 0xCD, 0xCF, 0xC1, 0xC3, 0xC5, 0xC7,
     0xF9, 0xFB, 0xFD, 0xFF, 0xF1, 0xF3, 0xF5, 0xF7, 0xE9, 0xEB, 0xED, 0xEF, 0xE1, 0xE3, 0xE5, 0xE7],
    [0x79, 0x59, 0x39, 0x19, 0xF9, 0xD9, 0xB9, 0x99, 0x78, 0x58, 0x38, 0x18, 0xF8, 0xD8, 0xB8, 0x98,
     0x7B, 0x5B, 0x3B, 0x1B, 0xFB, 0xDB, 0xBB, 0x9B, 0x7A, 0x5A, 0x3A, 0x1A, 0xFA, 0xDA, 0xBA, 0x9A,
     0x7D, 0x5D, 0x3D, 0x1D, 0xFD, 0xDD, 0xBD, 0x9D, 0x7C, 0x5C, 0x3C, 0x1C, 0xFC, 0xDC, 0xBC, 0x9C,
     0x7F, 0x5F, 0x3F, 0x1F, 0xFF, 0xDF, 0xBF, 0x9F, 0x7E, 0x5E, 0x3E, 0x1E, 0xFE, 0xDE, 0xBE, 0x9E,
     0x71, 0x51, 0x31, 0x11, 0xF1, 0xD1, 0xB1, 0x91, 0x70, 0x50, 0x30, 0x10, 0xF0, 0xD0, 0xB0, 0x90,
     0x73, 0x53, 0x33, 0x13, 0xF3, 0xD3, 0xB3, 0x93, 0x72, 0x52, 0x32, 0x12, 0xF2, 0xD2, 0xB2, 0x92,
     0x75, 0x55, 0x35, 0x15, 0xF5, 0xD5, 0xB5, 0x95, 0x74, 0x54, 0x34, 0x14, 0xF4, 0xD4, 0xB4, 0x94,
     0x77, 0x57, 0x37, 0x17, 0xF7, 0xD7, 0xB7, 0x97, 0x76, 0x56, 0x36, 0x16, 0xF6, 0xD6, 0xB6, 0x96,
     0x69, 0x49, 0x29, 0x09, 0xE9, 0xC9, 0xA9, 0x89, 0x68, 0x48, 0x28, 0x08, 0xE8, 0xC8, 0xA8, 0x88,
     0x6B, 0x4B, 0x2B, 0x0B, 0xEB, 0xCB, 0xAB, 0x8B, 0x6A, 0x4A, 0x2A, 0x0A, 0xEA, 0xCA, 0xAA, 0x8A,
     0x6D, 0x4D, 0x2D, 0x0D, 0xED, 0xCD, 0xAD, 0x8D, 0x6C, 0x4C, 0x2C, 0x0C, 0xEC, 0xCC, 0xAC, 0x8C,
     0x6F, 0x4F, 0x2F, 0x0F, 0xEF, 0xCF, 0xAF, 0x8F, 0x6E, 0x4E, 0x2E, 0x0E, 0xEE, 0xCE, 0xAE, 0x8E,
     0x61, 0x41, 0x21, 0x01, 0xE1, 0xC1, 0xA1, 0x81, 0x60, 0x40, 0x20, 0x00, 0xE0, 0xC0, 0xA0, 0x80,
     0x63, 0x43, 0x23, 0x03, 0xE3, 0xC3, 0xA3, 0x83, 0x62, 0x42, 0x22, 0x02, 0xE2, 0xC2, 0xA2, 0x82,
     0x65, 0x45, 0x25, 0x05, 0xE5, 0xC5, 0xA5, 0x85, 0x64, 0x44, 0x24, 0x04, 0xE4, 0xC4, 0xA4, 0x84,
     0x67, 0x47, 0x27, 0x07, 0xE7, 0xC7, 0xA7, 0x87, 0x66, 0x46, 0x26, 0x06, 0xE6, 0xC6, 0xA6, 0x86],
    [0x83, 0xA3, 0xC3, 0xE3, 0x03, 0x23, 0x43, 0x63, 0x82, 0xA2, 0xC2, 0xE2, 0x02, 0x22, 0x42, 0x62,
     0x81, 0xA1, 0xC1, 0xE1, 0x01, 0x21, 0x41, 0x61, 0x80, 0xA0, 0xC0, 0xE0, 0x00, 0x20, 0x40, 0x60,
     0x87, 0xA7, 0xC7, 0xE7, 0x07, 0x27, 0x47, 0x67, 0x86, 0xA6, 0xC6, 0xE6, 0x06, 0x26, 0x46, 0x66,
     0x85, 0xA5, 0xC5, 0xE5, 0x05, 0x25, 0x45, 0x65, 0x84, 0xA4, 0xC4, 0xE4, 0x04, 0x24, 0x44, 0x64,
     0x8B, 0xAB, 0xCB, 0xEB, 0x0B, 0x2B, 0x4B, 0x6B, 0x8A, 0xAA, 0xCA, 0xEA, 0x0A, 0x2A, 0x4A, 0x6A,
     0x89, 0xA9, 0xC9, 0xE9, 0x09, 0x29, 0x49, 0x69, 0x88, 0xA8, 0xC8, 0xE8, 0x08, 0x28, 0x48, 0x68,
     0x8F, 0xAF, 0xCF, 0xEF, 0x0F, 0x2F, 0x4F, 0x6F, 0x8E, 0xAE, 0xCE, 0xEE, 0x0E, 0x2E, 0x4E, 0x6E,
     0x8D, 0xAD, 0xCD, 0xED, 0x0D, 0x2D, 0x4D, 0x6D, 0x8C, 0xAC, 0xCC, 0xEC, 0x0C, 0x2C, 0x4C, 0x6C,
     0x93, 0xB3, 0xD3, 0xF3, 0x13, 0x33, 0x53, 0x73, 0x92, 0xB2, 0xD2, 0xF2, 0x12, 0x32, 0x52, 0x72,
     0x91, 0xB1, 0xD1, 0xF1, 0x11, 0x31, 0x51, 0x71, 0x90, 0xB0, 0xD0, 0xF0, 0x10, 0x30, 0x50, 0x70,
     0x97, 0xB7, 0xD7, 0xF7, 0x17, 0x37, 0x57, 0x77, 0x96, 0xB6, 0xD6, 0xF6, 0x16, 0x36, 0x56, 0x76,
     0x95, 0xB5, 0xD5, 0xF5, 0x15, 0x35, 0x55, 0x75, 0x94, 0xB4, 0xD4, 0xF4, 0x14, 0x34, 0x54, 0x74,
     0x9B, 0xBB, 0xDB, 0xFB, 0x1B, 0x3B, 0x5B, 0x7B, 0x9A, 0xBA, 0xDA, 0xFA, 0x1A, 0x3A, 0x5A, 0x7A,
     0x99, 0xB9, 0xD9, 0xF9, 0x19, 0x39, 0x59, 0x79, 0x98, 0xB8, 0xD8, 0xF8, 0x18, 0x38, 0x58, 0x78,
     0x9F, 0xBF, 0xDF, 0xFF, 0x1F, 0x3F, 0x5F, 0x7F, 0x9E, 0xBE, 0xDE, 0xFE, 0x1E, 0x3E, 0x5E, 0x7E,
     0x9D, 0xBD, 0xDD, 0xFD, 0x1D, 0x3D, 0x5D, 0x7D, 0x9C, 0xBC, 0xDC, 0xFC, 0x1C, 0x3C, 0x5C, 0x7C]]"

text \<open>Case 3: command AB, constant 7343.\<close>

definition cd_pic_case3 :: "u8 list list" where
  "cd_pic_case3 = [
    [0xFF, 0x7F, 0xFE, 0x7E, 0xFD, 0x7D, 0xFC, 0x7C, 0xFB, 0x7B, 0xFA, 0x7A, 0xF9, 0x79, 0xF8, 0x78,
     0xF7, 0x77, 0xF6, 0x76, 0xF5, 0x75, 0xF4, 0x74, 0xF3, 0x73, 0xF2, 0x72, 0xF1, 0x71, 0xF0, 0x70,
     0xEF, 0x6F, 0xEE, 0x6E, 0xED, 0x6D, 0xEC, 0x6C, 0xEB, 0x6B, 0xEA, 0x6A, 0xE9, 0x69, 0xE8, 0x68,
     0xE7, 0x67, 0xE6, 0x66, 0xE5, 0x65, 0xE4, 0x64, 0xE3, 0x63, 0xE2, 0x62, 0xE1, 0x61, 0xE0, 0x60,
     0xDF, 0x5F, 0xDE, 0x5E, 0xDD, 0x5D, 0xDC, 0x5C, 0xDB, 0x5B, 0xDA, 0x5A, 0xD9, 0x59, 0xD8, 0x58,
     0xD7, 0x57, 0xD6, 0x56, 0xD5, 0x55, 0xD4, 0x54, 0xD3, 0x53, 0xD2, 0x52, 0xD1, 0x51, 0xD0, 0x50,
     0xCF, 0x4F, 0xCE, 0x4E, 0xCD, 0x4D, 0xCC, 0x4C, 0xCB, 0x4B, 0xCA, 0x4A, 0xC9, 0x49, 0xC8, 0x48,
     0xC7, 0x47, 0xC6, 0x46, 0xC5, 0x45, 0xC4, 0x44, 0xC3, 0x43, 0xC2, 0x42, 0xC1, 0x41, 0xC0, 0x40,
     0xBF, 0x3F, 0xBE, 0x3E, 0xBD, 0x3D, 0xBC, 0x3C, 0xBB, 0x3B, 0xBA, 0x3A, 0xB9, 0x39, 0xB8, 0x38,
     0xB7, 0x37, 0xB6, 0x36, 0xB5, 0x35, 0xB4, 0x34, 0xB3, 0x33, 0xB2, 0x32, 0xB1, 0x31, 0xB0, 0x30,
     0xAF, 0x2F, 0xAE, 0x2E, 0xAD, 0x2D, 0xAC, 0x2C, 0xAB, 0x2B, 0xAA, 0x2A, 0xA9, 0x29, 0xA8, 0x28,
     0xA7, 0x27, 0xA6, 0x26, 0xA5, 0x25, 0xA4, 0x24, 0xA3, 0x23, 0xA2, 0x22, 0xA1, 0x21, 0xA0, 0x20,
     0x9F, 0x1F, 0x9E, 0x1E, 0x9D, 0x1D, 0x9C, 0x1C, 0x9B, 0x1B, 0x9A, 0x1A, 0x99, 0x19, 0x98, 0x18,
     0x97, 0x17, 0x96, 0x16, 0x95, 0x15, 0x94, 0x14, 0x93, 0x13, 0x92, 0x12, 0x91, 0x11, 0x90, 0x10,
     0x8F, 0x0F, 0x8E, 0x0E, 0x8D, 0x0D, 0x8C, 0x0C, 0x8B, 0x0B, 0x8A, 0x0A, 0x89, 0x09, 0x88, 0x08,
     0x87, 0x07, 0x86, 0x06, 0x85, 0x05, 0x84, 0x04, 0x83, 0x03, 0x82, 0x02, 0x81, 0x01, 0x80, 0x00],
    [0x18, 0x10, 0x08, 0x00, 0x38, 0x30, 0x28, 0x20, 0x58, 0x50, 0x48, 0x40, 0x78, 0x70, 0x68, 0x60,
     0x98, 0x90, 0x88, 0x80, 0xB8, 0xB0, 0xA8, 0xA0, 0xD8, 0xD0, 0xC8, 0xC0, 0xF8, 0xF0, 0xE8, 0xE0,
     0x19, 0x11, 0x09, 0x01, 0x39, 0x31, 0x29, 0x21, 0x59, 0x51, 0x49, 0x41, 0x79, 0x71, 0x69, 0x61,
     0x99, 0x91, 0x89, 0x81, 0xB9, 0xB1, 0xA9, 0xA1, 0xD9, 0xD1, 0xC9, 0xC1, 0xF9, 0xF1, 0xE9, 0xE1,
     0x1A, 0x12, 0x0A, 0x02, 0x3A, 0x32, 0x2A, 0x22, 0x5A, 0x52, 0x4A, 0x42, 0x7A, 0x72, 0x6A, 0x62,
     0x9A, 0x92, 0x8A, 0x82, 0xBA, 0xB2, 0xAA, 0xA2, 0xDA, 0xD2, 0xCA, 0xC2, 0xFA, 0xF2, 0xEA, 0xE2,
     0x1B, 0x13, 0x0B, 0x03, 0x3B, 0x33, 0x2B, 0x23, 0x5B, 0x53, 0x4B, 0x43, 0x7B, 0x73, 0x6B, 0x63,
     0x9B, 0x93, 0x8B, 0x83, 0xBB, 0xB3, 0xAB, 0xA3, 0xDB, 0xD3, 0xCB, 0xC3, 0xFB, 0xF3, 0xEB, 0xE3,
     0x1C, 0x14, 0x0C, 0x04, 0x3C, 0x34, 0x2C, 0x24, 0x5C, 0x54, 0x4C, 0x44, 0x7C, 0x74, 0x6C, 0x64,
     0x9C, 0x94, 0x8C, 0x84, 0xBC, 0xB4, 0xAC, 0xA4, 0xDC, 0xD4, 0xCC, 0xC4, 0xFC, 0xF4, 0xEC, 0xE4,
     0x1D, 0x15, 0x0D, 0x05, 0x3D, 0x35, 0x2D, 0x25, 0x5D, 0x55, 0x4D, 0x45, 0x7D, 0x75, 0x6D, 0x65,
     0x9D, 0x95, 0x8D, 0x85, 0xBD, 0xB5, 0xAD, 0xA5, 0xDD, 0xD5, 0xCD, 0xC5, 0xFD, 0xF5, 0xED, 0xE5,
     0x1E, 0x16, 0x0E, 0x06, 0x3E, 0x36, 0x2E, 0x26, 0x5E, 0x56, 0x4E, 0x46, 0x7E, 0x76, 0x6E, 0x66,
     0x9E, 0x96, 0x8E, 0x86, 0xBE, 0xB6, 0xAE, 0xA6, 0xDE, 0xD6, 0xCE, 0xC6, 0xFE, 0xF6, 0xEE, 0xE6,
     0x1F, 0x17, 0x0F, 0x07, 0x3F, 0x37, 0x2F, 0x27, 0x5F, 0x57, 0x4F, 0x47, 0x7F, 0x77, 0x6F, 0x67,
     0x9F, 0x97, 0x8F, 0x87, 0xBF, 0xB7, 0xAF, 0xA7, 0xDF, 0xD7, 0xCF, 0xC7, 0xFF, 0xF7, 0xEF, 0xE7],
    [0xCF, 0xC7, 0xDF, 0xD7, 0xEF, 0xE7, 0xFF, 0xF7, 0x8F, 0x87, 0x9F, 0x97, 0xAF, 0xA7, 0xBF, 0xB7,
     0x4F, 0x47, 0x5F, 0x57, 0x6F, 0x67, 0x7F, 0x77, 0x0F, 0x07, 0x1F, 0x17, 0x2F, 0x27, 0x3F, 0x37,
     0xCE, 0xC6, 0xDE, 0xD6, 0xEE, 0xE6, 0xFE, 0xF6, 0x8E, 0x86, 0x9E, 0x96, 0xAE, 0xA6, 0xBE, 0xB6,
     0x4E, 0x46, 0x5E, 0x56, 0x6E, 0x66, 0x7E, 0x76, 0x0E, 0x06, 0x1E, 0x16, 0x2E, 0x26, 0x3E, 0x36,
     0xCD, 0xC5, 0xDD, 0xD5, 0xED, 0xE5, 0xFD, 0xF5, 0x8D, 0x85, 0x9D, 0x95, 0xAD, 0xA5, 0xBD, 0xB5,
     0x4D, 0x45, 0x5D, 0x55, 0x6D, 0x65, 0x7D, 0x75, 0x0D, 0x05, 0x1D, 0x15, 0x2D, 0x25, 0x3D, 0x35,
     0xCC, 0xC4, 0xDC, 0xD4, 0xEC, 0xE4, 0xFC, 0xF4, 0x8C, 0x84, 0x9C, 0x94, 0xAC, 0xA4, 0xBC, 0xB4,
     0x4C, 0x44, 0x5C, 0x54, 0x6C, 0x64, 0x7C, 0x74, 0x0C, 0x04, 0x1C, 0x14, 0x2C, 0x24, 0x3C, 0x34,
     0xCB, 0xC3, 0xDB, 0xD3, 0xEB, 0xE3, 0xFB, 0xF3, 0x8B, 0x83, 0x9B, 0x93, 0xAB, 0xA3, 0xBB, 0xB3,
     0x4B, 0x43, 0x5B, 0x53, 0x6B, 0x63, 0x7B, 0x73, 0x0B, 0x03, 0x1B, 0x13, 0x2B, 0x23, 0x3B, 0x33,
     0xCA, 0xC2, 0xDA, 0xD2, 0xEA, 0xE2, 0xFA, 0xF2, 0x8A, 0x82, 0x9A, 0x92, 0xAA, 0xA2, 0xBA, 0xB2,
     0x4A, 0x42, 0x5A, 0x52, 0x6A, 0x62, 0x7A, 0x72, 0x0A, 0x02, 0x1A, 0x12, 0x2A, 0x22, 0x3A, 0x32,
     0xC9, 0xC1, 0xD9, 0xD1, 0xE9, 0xE1, 0xF9, 0xF1, 0x89, 0x81, 0x99, 0x91, 0xA9, 0xA1, 0xB9, 0xB1,
     0x49, 0x41, 0x59, 0x51, 0x69, 0x61, 0x79, 0x71, 0x09, 0x01, 0x19, 0x11, 0x29, 0x21, 0x39, 0x31,
     0xC8, 0xC0, 0xD8, 0xD0, 0xE8, 0xE0, 0xF8, 0xF0, 0x88, 0x80, 0x98, 0x90, 0xA8, 0xA0, 0xB8, 0xB0,
     0x48, 0x40, 0x58, 0x50, 0x68, 0x60, 0x78, 0x70, 0x08, 0x00, 0x18, 0x10, 0x28, 0x20, 0x38, 0x30],
    [0x2D, 0x25, 0x3D, 0x35, 0x0D, 0x05, 0x1D, 0x15, 0x6D, 0x65, 0x7D, 0x75, 0x4D, 0x45, 0x5D, 0x55,
     0xAD, 0xA5, 0xBD, 0xB5, 0x8D, 0x85, 0x9D, 0x95, 0xED, 0xE5, 0xFD, 0xF5, 0xCD, 0xC5, 0xDD, 0xD5,
     0x2C, 0x24, 0x3C, 0x34, 0x0C, 0x04, 0x1C, 0x14, 0x6C, 0x64, 0x7C, 0x74, 0x4C, 0x44, 0x5C, 0x54,
     0xAC, 0xA4, 0xBC, 0xB4, 0x8C, 0x84, 0x9C, 0x94, 0xEC, 0xE4, 0xFC, 0xF4, 0xCC, 0xC4, 0xDC, 0xD4,
     0x2F, 0x27, 0x3F, 0x37, 0x0F, 0x07, 0x1F, 0x17, 0x6F, 0x67, 0x7F, 0x77, 0x4F, 0x47, 0x5F, 0x57,
     0xAF, 0xA7, 0xBF, 0xB7, 0x8F, 0x87, 0x9F, 0x97, 0xEF, 0xE7, 0xFF, 0xF7, 0xCF, 0xC7, 0xDF, 0xD7,
     0x2E, 0x26, 0x3E, 0x36, 0x0E, 0x06, 0x1E, 0x16, 0x6E, 0x66, 0x7E, 0x76, 0x4E, 0x46, 0x5E, 0x56,
     0xAE, 0xA6, 0xBE, 0xB6, 0x8E, 0x86, 0x9E, 0x96, 0xEE, 0xE6, 0xFE, 0xF6, 0xCE, 0xC6, 0xDE, 0xD6,
     0x29, 0x21, 0x39, 0x31, 0x09, 0x01, 0x19, 0x11, 0x69, 0x61, 0x79, 0x71, 0x49, 0x41, 0x59, 0x51,
     0xA9, 0xA1, 0xB9, 0xB1, 0x89, 0x81, 0x99, 0x91, 0xE9, 0xE1, 0xF9, 0xF1, 0xC9, 0xC1, 0xD9, 0xD1,
     0x28, 0x20, 0x38, 0x30, 0x08, 0x00, 0x18, 0x10, 0x68, 0x60, 0x78, 0x70, 0x48, 0x40, 0x58, 0x50,
     0xA8, 0xA0, 0xB8, 0xB0, 0x88, 0x80, 0x98, 0x90, 0xE8, 0xE0, 0xF8, 0xF0, 0xC8, 0xC0, 0xD8, 0xD0,
     0x2B, 0x23, 0x3B, 0x33, 0x0B, 0x03, 0x1B, 0x13, 0x6B, 0x63, 0x7B, 0x73, 0x4B, 0x43, 0x5B, 0x53,
     0xAB, 0xA3, 0xBB, 0xB3, 0x8B, 0x83, 0x9B, 0x93, 0xEB, 0xE3, 0xFB, 0xF3, 0xCB, 0xC3, 0xDB, 0xD3,
     0x2A, 0x22, 0x3A, 0x32, 0x0A, 0x02, 0x1A, 0x12, 0x6A, 0x62, 0x7A, 0x72, 0x4A, 0x42, 0x5A, 0x52,
     0xAA, 0xA2, 0xBA, 0xB2, 0x8A, 0x82, 0x9A, 0x92, 0xEA, 0xE2, 0xFA, 0xF2, 0xCA, 0xC2, 0xDA, 0xD2],
    [0x1F, 0x9F, 0x1E, 0x9E, 0x1D, 0x9D, 0x1C, 0x9C, 0x1B, 0x9B, 0x1A, 0x9A, 0x19, 0x99, 0x18, 0x98,
     0x17, 0x97, 0x16, 0x96, 0x15, 0x95, 0x14, 0x94, 0x13, 0x93, 0x12, 0x92, 0x11, 0x91, 0x10, 0x90,
     0x0F, 0x8F, 0x0E, 0x8E, 0x0D, 0x8D, 0x0C, 0x8C, 0x0B, 0x8B, 0x0A, 0x8A, 0x09, 0x89, 0x08, 0x88,
     0x07, 0x87, 0x06, 0x86, 0x05, 0x85, 0x04, 0x84, 0x03, 0x83, 0x02, 0x82, 0x01, 0x81, 0x00, 0x80,
     0x3F, 0xBF, 0x3E, 0xBE, 0x3D, 0xBD, 0x3C, 0xBC, 0x3B, 0xBB, 0x3A, 0xBA, 0x39, 0xB9, 0x38, 0xB8,
     0x37, 0xB7, 0x36, 0xB6, 0x35, 0xB5, 0x34, 0xB4, 0x33, 0xB3, 0x32, 0xB2, 0x31, 0xB1, 0x30, 0xB0,
     0x2F, 0xAF, 0x2E, 0xAE, 0x2D, 0xAD, 0x2C, 0xAC, 0x2B, 0xAB, 0x2A, 0xAA, 0x29, 0xA9, 0x28, 0xA8,
     0x27, 0xA7, 0x26, 0xA6, 0x25, 0xA5, 0x24, 0xA4, 0x23, 0xA3, 0x22, 0xA2, 0x21, 0xA1, 0x20, 0xA0,
     0x5F, 0xDF, 0x5E, 0xDE, 0x5D, 0xDD, 0x5C, 0xDC, 0x5B, 0xDB, 0x5A, 0xDA, 0x59, 0xD9, 0x58, 0xD8,
     0x57, 0xD7, 0x56, 0xD6, 0x55, 0xD5, 0x54, 0xD4, 0x53, 0xD3, 0x52, 0xD2, 0x51, 0xD1, 0x50, 0xD0,
     0x4F, 0xCF, 0x4E, 0xCE, 0x4D, 0xCD, 0x4C, 0xCC, 0x4B, 0xCB, 0x4A, 0xCA, 0x49, 0xC9, 0x48, 0xC8,
     0x47, 0xC7, 0x46, 0xC6, 0x45, 0xC5, 0x44, 0xC4, 0x43, 0xC3, 0x42, 0xC2, 0x41, 0xC1, 0x40, 0xC0,
     0x7F, 0xFF, 0x7E, 0xFE, 0x7D, 0xFD, 0x7C, 0xFC, 0x7B, 0xFB, 0x7A, 0xFA, 0x79, 0xF9, 0x78, 0xF8,
     0x77, 0xF7, 0x76, 0xF6, 0x75, 0xF5, 0x74, 0xF4, 0x73, 0xF3, 0x72, 0xF2, 0x71, 0xF1, 0x70, 0xF0,
     0x6F, 0xEF, 0x6E, 0xEE, 0x6D, 0xED, 0x6C, 0xEC, 0x6B, 0xEB, 0x6A, 0xEA, 0x69, 0xE9, 0x68, 0xE8,
     0x67, 0xE7, 0x66, 0xE6, 0x65, 0xE5, 0x64, 0xE4, 0x63, 0xE3, 0x62, 0xE2, 0x61, 0xE1, 0x60, 0xE0],
    [0xF8, 0xF0, 0xE8, 0xE0, 0xD8, 0xD0, 0xC8, 0xC0, 0xB8, 0xB0, 0xA8, 0xA0, 0x98, 0x90, 0x88, 0x80,
     0x78, 0x70, 0x68, 0x60, 0x58, 0x50, 0x48, 0x40, 0x38, 0x30, 0x28, 0x20, 0x18, 0x10, 0x08, 0x00,
     0xF9, 0xF1, 0xE9, 0xE1, 0xD9, 0xD1, 0xC9, 0xC1, 0xB9, 0xB1, 0xA9, 0xA1, 0x99, 0x91, 0x89, 0x81,
     0x79, 0x71, 0x69, 0x61, 0x59, 0x51, 0x49, 0x41, 0x39, 0x31, 0x29, 0x21, 0x19, 0x11, 0x09, 0x01,
     0xFA, 0xF2, 0xEA, 0xE2, 0xDA, 0xD2, 0xCA, 0xC2, 0xBA, 0xB2, 0xAA, 0xA2, 0x9A, 0x92, 0x8A, 0x82,
     0x7A, 0x72, 0x6A, 0x62, 0x5A, 0x52, 0x4A, 0x42, 0x3A, 0x32, 0x2A, 0x22, 0x1A, 0x12, 0x0A, 0x02,
     0xFB, 0xF3, 0xEB, 0xE3, 0xDB, 0xD3, 0xCB, 0xC3, 0xBB, 0xB3, 0xAB, 0xA3, 0x9B, 0x93, 0x8B, 0x83,
     0x7B, 0x73, 0x6B, 0x63, 0x5B, 0x53, 0x4B, 0x43, 0x3B, 0x33, 0x2B, 0x23, 0x1B, 0x13, 0x0B, 0x03,
     0xFC, 0xF4, 0xEC, 0xE4, 0xDC, 0xD4, 0xCC, 0xC4, 0xBC, 0xB4, 0xAC, 0xA4, 0x9C, 0x94, 0x8C, 0x84,
     0x7C, 0x74, 0x6C, 0x64, 0x5C, 0x54, 0x4C, 0x44, 0x3C, 0x34, 0x2C, 0x24, 0x1C, 0x14, 0x0C, 0x04,
     0xFD, 0xF5, 0xED, 0xE5, 0xDD, 0xD5, 0xCD, 0xC5, 0xBD, 0xB5, 0xAD, 0xA5, 0x9D, 0x95, 0x8D, 0x85,
     0x7D, 0x75, 0x6D, 0x65, 0x5D, 0x55, 0x4D, 0x45, 0x3D, 0x35, 0x2D, 0x25, 0x1D, 0x15, 0x0D, 0x05,
     0xFE, 0xF6, 0xEE, 0xE6, 0xDE, 0xD6, 0xCE, 0xC6, 0xBE, 0xB6, 0xAE, 0xA6, 0x9E, 0x96, 0x8E, 0x86,
     0x7E, 0x76, 0x6E, 0x66, 0x5E, 0x56, 0x4E, 0x46, 0x3E, 0x36, 0x2E, 0x26, 0x1E, 0x16, 0x0E, 0x06,
     0xFF, 0xF7, 0xEF, 0xE7, 0xDF, 0xD7, 0xCF, 0xC7, 0xBF, 0xB7, 0xAF, 0xA7, 0x9F, 0x97, 0x8F, 0x87,
     0x7F, 0x77, 0x6F, 0x67, 0x5F, 0x57, 0x4F, 0x47, 0x3F, 0x37, 0x2F, 0x27, 0x1F, 0x17, 0x0F, 0x07],
    [0x2F, 0x27, 0x3F, 0x37, 0x0F, 0x07, 0x1F, 0x17, 0x6F, 0x67, 0x7F, 0x77, 0x4F, 0x47, 0x5F, 0x57,
     0xAF, 0xA7, 0xBF, 0xB7, 0x8F, 0x87, 0x9F, 0x97, 0xEF, 0xE7, 0xFF, 0xF7, 0xCF, 0xC7, 0xDF, 0xD7,
     0x2E, 0x26, 0x3E, 0x36, 0x0E, 0x06, 0x1E, 0x16, 0x6E, 0x66, 0x7E, 0x76, 0x4E, 0x46, 0x5E, 0x56,
     0xAE, 0xA6, 0xBE, 0xB6, 0x8E, 0x86, 0x9E, 0x96, 0xEE, 0xE6, 0xFE, 0xF6, 0xCE, 0xC6, 0xDE, 0xD6,
     0x2D, 0x25, 0x3D, 0x35, 0x0D, 0x05, 0x1D, 0x15, 0x6D, 0x65, 0x7D, 0x75, 0x4D, 0x45, 0x5D, 0x55,
     0xAD, 0xA5, 0xBD, 0xB5, 0x8D, 0x85, 0x9D, 0x95, 0xED, 0xE5, 0xFD, 0xF5, 0xCD, 0xC5, 0xDD, 0xD5,
     0x2C, 0x24, 0x3C, 0x34, 0x0C, 0x04, 0x1C, 0x14, 0x6C, 0x64, 0x7C, 0x74, 0x4C, 0x44, 0x5C, 0x54,
     0xAC, 0xA4, 0xBC, 0xB4, 0x8C, 0x84, 0x9C, 0x94, 0xEC, 0xE4, 0xFC, 0xF4, 0xCC, 0xC4, 0xDC, 0xD4,
     0x2B, 0x23, 0x3B, 0x33, 0x0B, 0x03, 0x1B, 0x13, 0x6B, 0x63, 0x7B, 0x73, 0x4B, 0x43, 0x5B, 0x53,
     0xAB, 0xA3, 0xBB, 0xB3, 0x8B, 0x83, 0x9B, 0x93, 0xEB, 0xE3, 0xFB, 0xF3, 0xCB, 0xC3, 0xDB, 0xD3,
     0x2A, 0x22, 0x3A, 0x32, 0x0A, 0x02, 0x1A, 0x12, 0x6A, 0x62, 0x7A, 0x72, 0x4A, 0x42, 0x5A, 0x52,
     0xAA, 0xA2, 0xBA, 0xB2, 0x8A, 0x82, 0x9A, 0x92, 0xEA, 0xE2, 0xFA, 0xF2, 0xCA, 0xC2, 0xDA, 0xD2,
     0x29, 0x21, 0x39, 0x31, 0x09, 0x01, 0x19, 0x11, 0x69, 0x61, 0x79, 0x71, 0x49, 0x41, 0x59, 0x51,
     0xA9, 0xA1, 0xB9, 0xB1, 0x89, 0x81, 0x99, 0x91, 0xE9, 0xE1, 0xF9, 0xF1, 0xC9, 0xC1, 0xD9, 0xD1,
     0x28, 0x20, 0x38, 0x30, 0x08, 0x00, 0x18, 0x10, 0x68, 0x60, 0x78, 0x70, 0x48, 0x40, 0x58, 0x50,
     0xA8, 0xA0, 0xB8, 0xB0, 0x88, 0x80, 0x98, 0x90, 0xE8, 0xE0, 0xF8, 0xF0, 0xC8, 0xC0, 0xD8, 0xD0],
    [0x6D, 0x65, 0x7D, 0x75, 0x4D, 0x45, 0x5D, 0x55, 0x2D, 0x25, 0x3D, 0x35, 0x0D, 0x05, 0x1D, 0x15,
     0xED, 0xE5, 0xFD, 0xF5, 0xCD, 0xC5, 0xDD, 0xD5, 0xAD, 0xA5, 0xBD, 0xB5, 0x8D, 0x85, 0x9D, 0x95,
     0x6C, 0x64, 0x7C, 0x74, 0x4C, 0x44, 0x5C, 0x54, 0x2C, 0x24, 0x3C, 0x34, 0x0C, 0x04, 0x1C, 0x14,
     0xEC, 0xE4, 0xFC, 0xF4, 0xCC, 0xC4, 0xDC, 0xD4, 0xAC, 0xA4, 0xBC, 0xB4, 0x8C, 0x84, 0x9C, 0x94,
     0x6F, 0x67, 0x7F, 0x77, 0x4F, 0x47, 0x5F, 0x57, 0x2F, 0x27, 0x3F, 0x37, 0x0F, 0x07, 0x1F, 0x17,
     0xEF, 0xE7, 0xFF, 0xF7, 0xCF, 0xC7, 0xDF, 0xD7, 0xAF, 0xA7, 0xBF, 0xB7, 0x8F, 0x87, 0x9F, 0x97,
     0x6E, 0x66, 0x7E, 0x76, 0x4E, 0x46, 0x5E, 0x56, 0x2E, 0x26, 0x3E, 0x36, 0x0E, 0x06, 0x1E, 0x16,
     0xEE, 0xE6, 0xFE, 0xF6, 0xCE, 0xC6, 0xDE, 0xD6, 0xAE, 0xA6, 0xBE, 0xB6, 0x8E, 0x86, 0x9E, 0x96,
     0x69, 0x61, 0x79, 0x71, 0x49, 0x41, 0x59, 0x51, 0x29, 0x21, 0x39, 0x31, 0x09, 0x01, 0x19, 0x11,
     0xE9, 0xE1, 0xF9, 0xF1, 0xC9, 0xC1, 0xD9, 0xD1, 0xA9, 0xA1, 0xB9, 0xB1, 0x89, 0x81, 0x99, 0x91,
     0x68, 0x60, 0x78, 0x70, 0x48, 0x40, 0x58, 0x50, 0x28, 0x20, 0x38, 0x30, 0x08, 0x00, 0x18, 0x10,
     0xE8, 0xE0, 0xF8, 0xF0, 0xC8, 0xC0, 0xD8, 0xD0, 0xA8, 0xA0, 0xB8, 0xB0, 0x88, 0x80, 0x98, 0x90,
     0x6B, 0x63, 0x7B, 0x73, 0x4B, 0x43, 0x5B, 0x53, 0x2B, 0x23, 0x3B, 0x33, 0x0B, 0x03, 0x1B, 0x13,
     0xEB, 0xE3, 0xFB, 0xF3, 0xCB, 0xC3, 0xDB, 0xD3, 0xAB, 0xA3, 0xBB, 0xB3, 0x8B, 0x83, 0x9B, 0x93,
     0x6A, 0x62, 0x7A, 0x72, 0x4A, 0x42, 0x5A, 0x52, 0x2A, 0x22, 0x3A, 0x32, 0x0A, 0x02, 0x1A, 0x12,
     0xEA, 0xE2, 0xFA, 0xF2, 0xCA, 0xC2, 0xDA, 0xD2, 0xAA, 0xA2, 0xBA, 0xB2, 0x8A, 0x82, 0x9A, 0x92]]"

definition cd_pic_s :: "u8 list list list" where
  "cd_pic_s = [cd_pic_case0, cd_pic_case1, cd_pic_case2, cd_pic_case3]"

section \<open>The law of the table\<close>

text \<open>Distance and mask of each position, read off the table's entry 0 and entry 1.\<close>

definition pic_law :: "(nat \<times> u8) list list" where
  "pic_law = [
    [(1, 0xF8), (5, 0x73), (5, 0x89), (5, 0xFD), (1, 0x37), (5, 0x8F), (5, 0x75), (5, 0xE5)],
    [(3, 0x58), (7, 0x2C), (3, 0xAB), (3, 0x7C), (3, 0xD8), (7, 0x4C), (3, 0x8B), (3, 0x5C)],
    [(5, 0x9B), (1, 0xD9), (5, 0x7D), (5, 0x87), (5, 0x8B), (1, 0x18), (5, 0x79), (5, 0x83)],
    [(7, 0xFF), (3, 0x18), (3, 0xCF), (3, 0x2D), (7, 0x1F), (3, 0xF8), (3, 0x2F), (3, 0x6D)]]"

definition pic_rot :: "nat \<times> u8 \<Rightarrow> u8 \<Rightarrow> u8" where
  "pic_rot l c = word_rotl (fst l) c XOR snd l"

text \<open>
  A table with one XOR weight per index bit, most significant weight first; it
  is built by doubling, which is how the kernel checks the rows against it.
\<close>

fun xor_span :: "u8 list \<Rightarrow> u8 \<Rightarrow> u8 list" where
  "xor_span [] k = [k]"
| "xor_span (w # ws) k = xor_span ws k @ xor_span ws (k XOR w)"

lemma length_xor_span [simp]: "length (xor_span ws k) = 2 ^ length ws"
  by (induction ws arbitrary: k) simp_all

definition rot_weights :: "nat \<Rightarrow> nat \<Rightarrow> u8 list" where
  "rot_weights r n = map (\<lambda>q. word_rotl r (2 ^ q)) (rev [0..<n])"

lemma rot_weights_Suc: "rot_weights r (Suc n) = word_rotl r (2 ^ n) # rot_weights r n"
  by (simp add: rot_weights_def)

lemma add_high_bit:
  assumes "c < 2 ^ n" "n < 8"
  shows "(word_of_nat (2 ^ n + c) :: u8) = 2 ^ n XOR word_of_nat c"
proof -
  have "(2 ^ n :: u8) AND word_of_nat c = 0"
  proof (rule bit_word_eqI)
    fix m :: nat
    show "bit ((2 ^ n :: u8) AND word_of_nat c) m = bit (0 :: u8) m"
    proof (cases "m = n")
      case True
      have "\<not> bit c n"
        using assms(1) by (simp add: bit_iff_odd)
      with True show ?thesis by (simp add: bit_simps)
    next
      case False
      then show ?thesis by (simp add: bit_simps)
    qed
  qed
  then have "(2 ^ n :: u8) + word_of_nat c = 2 ^ n XOR word_of_nat c"
    by (rule disjunctive_add_eq_xor)
  then show ?thesis by simp
qed

lemma xor_span_nth:
  "n \<le> 8 \<Longrightarrow> c < 2 ^ n \<Longrightarrow>
     xor_span (rot_weights r n) k ! c = word_rotl r (word_of_nat c) XOR k"
proof (induction n arbitrary: k c)
  case 0
  then show ?case by (simp add: rot_weights_def)
next
  case (Suc n)
  have len: "length (rot_weights r n) = n" by (simp add: rot_weights_def)
  show ?case
  proof (cases "c < 2 ^ n")
    case True
    with Suc show ?thesis
      by (simp add: rot_weights_Suc nth_append len)
  next
    case False
    then obtain d where d: "c = 2 ^ n + d" "d < 2 ^ n"
      using Suc.prems(2) by (auto simp: not_less le_iff_add)
    have split: "(word_of_nat (2 ^ n + d) :: u8) = 2 ^ n XOR word_of_nat d"
      using d(2) Suc.prems(1) by (intro add_high_bit) simp_all
    have "word_rotl r (word_of_nat c) = word_rotl r (2 ^ n) XOR (word_rotl r (word_of_nat d) :: u8)"
      unfolding d(1) split by (rule word_rot_logs)
    then show ?thesis
      using Suc d by (simp add: rot_weights_Suc nth_append len ac_simps)
  qed
qed

definition pic_row :: "nat \<times> u8 \<Rightarrow> u8 list" where
  "pic_row l = xor_span (rot_weights (fst l) 8) (snd l)"

lemma pic_row_nth: "pic_row l ! unat ch = pic_rot l ch"
proof -
  have "unat ch < 2 ^ LENGTH(8)" by (rule unsigned_less)
  then show ?thesis by (simp add: pic_row_def pic_rot_def xor_span_nth)
qed

lemma rot_weights_8:
  "rot_weights (Suc 0) 8 = [0x01, 0x80, 0x40, 0x20, 0x10, 0x08, 0x04, 0x02]"
  "rot_weights 3 8 = [0x04, 0x02, 0x01, 0x80, 0x40, 0x20, 0x10, 0x08]"
  "rot_weights 5 8 = [0x10, 0x08, 0x04, 0x02, 0x01, 0x80, 0x40, 0x20]"
  "rot_weights 7 8 = [0x40, 0x20, 0x10, 0x08, 0x04, 0x02, 0x01, 0x80]"
  by code_simp+

lemma cd_pic_case0_law: "cd_pic_case0 = map pic_row (pic_law ! 0)"
  by (simp add: cd_pic_case0_def pic_law_def pic_row_def rot_weights_8)

lemma cd_pic_case1_law: "cd_pic_case1 = map pic_row (pic_law ! 1)"
  by (simp add: cd_pic_case1_def pic_law_def pic_row_def rot_weights_8)

lemma cd_pic_case2_law: "cd_pic_case2 = map pic_row (pic_law ! 2)"
  by (simp add: cd_pic_case2_def pic_law_def pic_row_def rot_weights_8)

lemma cd_pic_case3_law: "cd_pic_case3 = map pic_row (pic_law ! 3)"
  by (simp add: cd_pic_case3_def pic_law_def pic_row_def rot_weights_8)

lemma cd_pic_s_rows: "which < 4 \<Longrightarrow> cd_pic_s ! which = map pic_row (pic_law ! which)"
  by (auto simp: cd_pic_s_def less_Suc_eq numeral_eq_Suc cd_pic_case0_law cd_pic_case1_law
      cd_pic_case2_law cd_pic_case3_law)

lemma pic_law_shape: "which < 4 \<Longrightarrow> length (pic_law ! which) = 8"
  by (auto simp: pic_law_def less_Suc_eq numeral_eq_Suc)

lemma cd_pic_s_law:
  "which < 4 \<Longrightarrow> pos < 8 \<Longrightarrow> cd_pic_s ! which ! pos ! unat ch = pic_rot (pic_law ! which ! pos) ch"
  by (simp add: cd_pic_s_rows pic_law_shape pic_row_nth)

lemma pic_rot_inj: "pic_rot l a = pic_rot l b \<longleftrightarrow> a = b"
  by (metis pic_rot_def word_rot_lr xor_cancel_right)

end
