(* ===== verification/CDongle.thy ===== *)
theory CDongle
  imports Picture_Table
begin

text \<open>
  The 2000 generation's token (\<open>CDONGLE\<close>) of \<open>src/src/device/dongle_photoplay.c\<close>:
  \<open>cd_reset\<close>, \<open>cd_assemble\<close>, \<open>cd_pic_reply\<close>, \<open>cd_prepare_picture\<close>,
  \<open>cd_prepare\<close>, \<open>cd_write_data\<close> and \<open>cd_ack\<close> over the state \<open>cd_t\<close>.

  The record \<open>cd\<close> has the fields of \<open>cd_t\<close> under their C names with the prefix
  \<open>cd_\<close>; C flags are booleans.  \<open>dev->block\<close>, the only other field of \<open>pp_t\<close>
  this half reads, is an argument.
\<close>

unbundle bit_operations_syntax

section \<open>State\<close>

definition CD_RECORD :: nat where "CD_RECORD = 48"

datatype cd_phase = CD_IDLE | CD_READY | CD_ARMED | CD_HS | CD_STREAM

record cd =
  cd_active :: bool
  cd_state :: cd_phase
  cd_hist :: "u8 list"
  cd_nhist :: nat
  cd_prev1 :: u8
  cd_prev2 :: u8
  cd_last :: u8
  cd_key :: u8
  cd_cmd :: u8
  cd_have_cmd :: bool
  cd_arg :: "u8 list"
  cd_nargs :: nat
  cd_pending :: u8
  cd_await_trailer :: bool
  cd_claimable :: bool
  cd_nonce_raw :: u8
  cd_tx :: "u8 list"
  cd_tx_len :: nat
  cd_tx_bit :: nat
  cd_attn :: nat
  cd_pic_ready :: bool
  cd_refuse :: bool

section \<open>Tables\<close>

definition cd_attention :: "u8 list" where
  "cd_attention = [0xDF, 0xEF, 0xBF, 0xCF, 0x9F, 0xEF, 0xBF, 0x8F]"

definition CD_ATTN_LEN :: nat where "CD_ATTN_LEN = 8"

definition cd_answers :: "(u8 \<times> u8 list \<times> u8 list) list" where
  "cd_answers =
    [(0xA0, [0x86, 0x2E, 0xD0], [0x93, 0x46]),
     (0xA1, [0xA6, 0x4B, 0xD0], [0x4E, 0x05]),
     (0xA3, [0x73, 0x07, 0x09], [0x06, 0x12]),
     (0xA4, [0x76, 0x02, 0x27], [0x43, 0x73])]"

definition CD_CONST_CASE0 :: u16 where "CD_CONST_CASE0 = 0x038B"
definition CD_CONST_CASE1 :: u16 where "CD_CONST_CASE1 = 0x0A8E"
definition CD_CONST_CASE2 :: u16 where "CD_CONST_CASE2 = 0x1206"
definition CD_CONST_CASE3 :: u16 where "CD_CONST_CASE3 = 0x7343"

definition cd_pic_used :: "u8 list" where "cd_pic_used = [0xFF, 0xFC, 0xFF, 0xFF]"

lemmas cd_consts = CD_RECORD_def CD_ATTN_LEN_def CD_CONST_CASE0_def CD_CONST_CASE1_def
  CD_CONST_CASE2_def CD_CONST_CASE3_def

section \<open>Operations\<close>

definition cd_reset :: "cd \<Rightarrow> cd" where
  "cd_reset cd =
     cd\<lparr>cd_state := CD_IDLE, cd_nhist := 0, cd_key := 0, cd_have_cmd := False, cd_nargs := 0,
        cd_await_trailer := False, cd_nonce_raw := 0, cd_tx_len := 0, cd_tx_bit := 0,
        cd_attn := 0, cd_pic_ready := False, cd_refuse := False\<rparr>"

definition frame_match :: "u8 list \<Rightarrow> bool" where
  "frame_match h \<longleftrightarrow>
     h ! 0 AND 0xF0 = 0xF0 \<and> h ! 1 AND 0xF0 = 0xC0 \<and> h ! 2 AND 0xF0 = 0xF0 \<and>
     h ! 3 AND 0xF0 = 0x90 \<and> h ! 4 AND 0xF0 = 0x80 \<and>
     h ! 1 AND 0x0F = h ! 0 AND 0x0F \<and> h ! 2 AND 0x0F = h ! 0 AND 0x0F \<and>
     h ! 4 AND 0x0F = h ! 3 AND 0x0F"

text \<open>
  The five-write window: the byte it completes, if it completes one.
  \<open>memmove(hist, hist + 1, 4)\<close> leaves the last cell as it is.
\<close>

definition cd_assemble :: "cd \<Rightarrow> u8 \<Rightarrow> u8 option \<times> cd" where
  "cd_assemble cd val =
     (let cd = (if cd_nhist cd \<ge> 5
                then cd\<lparr>cd_hist := tl (cd_hist cd) @ [cd_hist cd ! 4], cd_nhist := 4\<rparr> else cd);
          cd = cd\<lparr>cd_hist := (cd_hist cd)[cd_nhist cd := val], cd_nhist := Suc (cd_nhist cd)\<rparr>
      in if cd_nhist cd < 5 then (None, cd)
         else
           (let h = cd_hist cd; lo = h ! 0 AND 0x0F; hi = h ! 3 AND 0x0F
            in if frame_match h then (Some (push_bit 4 hi OR lo), cd\<lparr>cd_nhist := 0\<rparr>)
               else (None, cd)))"

definition cd_pic_transform :: "nat \<Rightarrow> nat \<Rightarrow> u8 \<Rightarrow> int" where
  "cd_pic_transform which pos ch = uint (cd_pic_s ! which ! pos ! unat ch)"

text \<open>\<open>None\<close> is the early return of 0.\<close>

definition cd_pic_reply :: "nat \<Rightarrow> u8 list \<Rightarrow> u8 list option" where
  "cd_pic_reply which name =
     those (map (\<lambda>j. let v = cd_pic_transform which j (name ! j)
                      in if v < 0
                         then (if bit (cd_pic_used ! which) j then None else Some 0)
                         else Some (word_of_int v)) [0..<8])"

text \<open>The nibble shift that undoes the guest's merge of the bytes it received.\<close>

definition pic_wire :: "u8 list \<Rightarrow> u8 list" where
  "pic_wire r =
     (r ! 0 AND 0x0F) #
     map (\<lambda>i. (r ! (i - 1) AND 0xF0) OR (r ! i AND 0x0F)) [1..<8] @
     [r ! 7 AND 0xF0]"

definition cd_prepare_picture :: "cd \<Rightarrow> bool \<times> cd" where
  "cd_prepare_picture cd =
     (let konst = (ucast (cd_arg cd ! 2) OR push_bit 8 (ucast (cd_arg cd ! 3)) :: u16);
          name = map (\<lambda>i. if 4 + i < cd_nargs cd then cd_arg cd ! (4 + i) else 0x20) [0..<8];
          which =
            (if cd_cmd cd = 0xAA \<and> konst = CD_CONST_CASE0 then Some 0
             else if cd_cmd cd = 0xAB \<and> konst = CD_CONST_CASE1 then Some 1
             else if cd_cmd cd = 0xAA \<and> konst = CD_CONST_CASE2 then Some 2
             else if cd_cmd cd = 0xAB \<and> konst = CD_CONST_CASE3 then Some 3
             else None)
      in case which of
           None \<Rightarrow> (True, cd\<lparr>cd_refuse := True, cd_tx_len := 0\<rparr>)
         | Some w \<Rightarrow>
             (case cd_pic_reply w name of
                None \<Rightarrow> (False, cd)
              | Some r \<Rightarrow>
                  (let cd = (if \<not> cd_pic_ready cd
                             then cd\<lparr>cd_tx_bit := 0, cd_pic_ready := True\<rparr> else cd)
                   in (True, cd\<lparr>cd_tx_len := 9,
                                cd_tx := map (\<lambda>x. x XOR cd_key cd) (pic_wire r) @
                                         drop 9 (cd_tx cd)\<rparr>))))"

text \<open>Overwriting the start of a buffer, as the copying loops do.\<close>

definition put_tx :: "cd \<Rightarrow> u8 list \<Rightarrow> cd" where
  "put_tx cd bs =
     cd\<lparr>cd_tx_len := length bs,
        cd_tx := map (\<lambda>x. x XOR cd_key cd) bs @ drop (length bs) (cd_tx cd)\<rparr>"

fun cd_lookup :: "(u8 \<times> u8 list \<times> u8 list) list \<Rightarrow> cd \<Rightarrow> u8 list option" where
  "cd_lookup [] cd = None"
| "cd_lookup ((c, a, r) # as) cd =
     (if cd_cmd cd \<noteq> c \<or> cd_nargs cd < 3 then cd_lookup as cd
      else if take 3 (cd_arg cd) \<noteq> a then cd_lookup as cd
      else Some r)"

text \<open>What \<open>cd_prepare\<close> does for everything that is not a picture query it can serve.\<close>

definition cd_prepare_plain :: "u8 list \<Rightarrow> cd \<Rightarrow> cd" where
  "cd_prepare_plain block cd0 =
     (let cd = cd0\<lparr>cd_tx_bit := 0\<rparr>
      in case cd_lookup cd_answers cd of
           Some r \<Rightarrow> put_tx cd r
         | None \<Rightarrow>
             (if cd_cmd cd \<ge> 0xA0 \<and> cd_cmd cd \<le> 0xA7 \<and> cd_nargs cd \<ge> 3
              then cd\<lparr>cd_refuse := True, cd_tx_len := 0\<rparr>
              else if cd_cmd cd \<ge> 0xA0 \<and> cd_cmd cd \<le> 0xA7 then put_tx cd [0, 0]
              else if cd_cmd cd = 0xAC \<and> cd_nargs cd \<ge> 1 \<and> cd_arg cd ! 0 = 0xCB
                then put_tx cd [0xC5]
              else if cd_cmd cd = 0xAD \<and> cd_nargs cd \<ge> 5 then
                (let off = cd_arg cd ! 3; len = unat (cd_arg cd ! 4)
                 in if off \<noteq> 0 \<or> len > CD_RECORD \<or> len = 0
                    then cd\<lparr>cd_refuse := True, cd_tx_len := 0\<rparr>
                    else put_tx cd (take len block))
              else put_tx cd (take CD_RECORD block)))"

definition cd_prepare :: "u8 list \<Rightarrow> cd \<Rightarrow> cd" where
  "cd_prepare block cd0 =
     (let cd = cd0\<lparr>cd_refuse := False\<rparr>
      in if (cd_cmd cd = 0xAA \<or> cd_cmd cd = 0xAB) \<and> cd_nargs cd \<ge> 4
         then (case cd_prepare_picture cd of
                 (True, cd) \<Rightarrow> cd
               | (False, cd) \<Rightarrow> cd_prepare_plain block cd)
         else cd_prepare_plain block cd)"

text \<open>A byte is classified once the write behind it, its trailer, arrives.\<close>

definition cd_trailer :: "u8 list \<Rightarrow> cd \<Rightarrow> u8 \<Rightarrow> cd" where
  "cd_trailer block cd0 val =
     (let cd = cd0\<lparr>cd_await_trailer := False, cd_claimable := True\<rparr>
      in if val = 0xD0 then
           (let k = cd_nonce_raw cd XOR 0xD3;
                cd = cd\<lparr>cd_key := k, cd_cmd := cd_pending cd XOR k, cd_have_cmd := True,
                        cd_pic_ready := False, cd_nargs := 0\<rparr>
            in (cd_prepare block cd)\<lparr>cd_state := CD_READY\<rparr>)
         else if \<not> cd_have_cmd cd then cd\<lparr>cd_nonce_raw := cd_pending cd\<rparr>
         else
           (let cd = (if cd_nargs cd < 12
                      then cd\<lparr>cd_arg := (cd_arg cd)[cd_nargs cd := cd_pending cd XOR cd_key cd],
                              cd_nargs := Suc (cd_nargs cd)\<rparr>
                      else cd)
            in (cd_prepare block cd)\<lparr>cd_state := CD_READY\<rparr>))"

definition cd_listen :: "u8 list \<Rightarrow> cd \<Rightarrow> u8 \<Rightarrow> cd" where
  "cd_listen block cd0 val =
     (let cd = (if cd_await_trailer cd0 then cd_trailer block cd0 val else cd0)
      in case cd_assemble cd val of
           (Some b, cd) \<Rightarrow> cd\<lparr>cd_pending := b, cd_await_trailer := True\<rparr>
         | (None, cd) \<Rightarrow> cd)"

definition cd_handshake :: "cd \<Rightarrow> u8 \<Rightarrow> cd" where
  "cd_handshake cd val =
     (if cd_attn cd \<ge> CD_ATTN_LEN then (if val = 0xCF then cd\<lparr>cd_state := CD_STREAM\<rparr> else cd)
      else if val = cd_attention ! cd_attn cd then cd\<lparr>cd_attn := Suc (cd_attn cd)\<rparr>
      else if val = cd_attention ! 0 then cd\<lparr>cd_attn := 1\<rparr>
      else cd)"

text \<open>The second component is the C code's \<open>rearmed\<close>.\<close>

definition cd_clock :: "cd \<Rightarrow> u8 \<Rightarrow> cd \<times> bool" where
  "cd_clock cd val =
     (if val \<noteq> 0xFF \<and> val \<noteq> 0xCF then
        (if cd_tx_bit cd < cd_tx_len cd * 8
         then (cd\<lparr>cd_attn := 0, cd_state := CD_READY, cd_claimable := True\<rparr>, True)
         else (cd, False))
      else if val = 0xFF then
        (let cd = cd\<lparr>cd_tx_bit := Suc (cd_tx_bit cd)\<rparr>
         in (if cd_tx_bit cd \<ge> cd_tx_len cd * 8
             then cd\<lparr>cd_have_cmd := False, cd_pic_ready := False, cd_nargs := 0, cd_attn := 0,
                     cd_state := CD_IDLE\<rparr>
             else cd, False))
      else (cd, False))"

definition cd_claim :: "cd \<Rightarrow> u8 \<Rightarrow> bool \<Rightarrow> cd" where
  "cd_claim cd val rearmed =
     (if cd_state cd = CD_READY \<and> cd_claimable cd \<and> \<not> rearmed \<and>
         (val AND 0xF0 = 0xC0 \<or> val AND 0xF0 = 0x80)
      then cd\<lparr>cd_state := CD_ARMED, cd_claimable := False\<rparr> else cd)"

definition cd_write_data :: "u8 list \<Rightarrow> cd \<Rightarrow> u8 \<Rightarrow> cd" where
  "cd_write_data block cd0 val =
     (let cd = (if val AND 0xF0 = 0xF0 then cd0\<lparr>cd_claimable := False\<rparr> else cd0)
      in if cd_prev2 cd = 0xBF \<and> cd_prev1 cd = 0x7F \<and> val = 0xBF
         then (let cd = cd_reset (cd\<lparr>cd_active := True\<rparr>)
               in cd\<lparr>cd_prev2 := cd_prev1 cd, cd_prev1 := val, cd_last := val\<rparr>)
         else
           (let cd = cd\<lparr>cd_prev2 := cd_prev1 cd, cd_prev1 := val, cd_last := val\<rparr>
            in case cd_state cd of
                 CD_IDLE \<Rightarrow> cd_claim (cd_listen block cd val) val False
               | CD_READY \<Rightarrow> cd_claim (cd_listen block cd val) val False
               | CD_ARMED \<Rightarrow>
                   cd_claim (if val = cd_attention ! 0
                             then cd\<lparr>cd_state := CD_HS, cd_attn := 1\<rparr> else cd) val False
               | CD_HS \<Rightarrow> cd_claim (cd_handshake cd val) val False
               | CD_STREAM \<Rightarrow>
                   (let r = cd_clock cd val in cd_claim (fst r) val (snd r))))"

text \<open>What the token drives on ACK.\<close>

definition cd_ack :: "cd \<Rightarrow> bool" where
  "cd_ack cd =
     (if cd_state cd = CD_STREAM then
        (if cd_tx_bit cd < cd_tx_len cd * 8
         then bit (cd_tx cd ! (cd_tx_bit cd div 8)) (7 - cd_tx_bit cd mod 8)
         else False)
      else if cd_state cd = CD_READY then True
      else if cd_refuse cd then True
      else cd_last cd AND 0x20 \<noteq> 0)"

section \<open>The invariant\<close>

text \<open>Every array keeps its length and every cursor stays inside its array.\<close>

definition cd_wf :: "cd \<Rightarrow> bool" where
  "cd_wf cd \<longleftrightarrow>
     length (cd_hist cd) = 5 \<and> cd_nhist cd \<le> 5 \<and> length (cd_arg cd) = 12 \<and> cd_nargs cd \<le> 12 \<and>
     length (cd_tx cd) = CD_RECORD \<and> cd_tx_len cd \<le> CD_RECORD \<and> cd_attn cd \<le> CD_ATTN_LEN"

lemma cd_wf_fields [simp]:
  "cd_wf (cd\<lparr>cd_active := a\<rparr>) = cd_wf cd" "cd_wf (cd\<lparr>cd_state := st\<rparr>) = cd_wf cd"
  "cd_wf (cd\<lparr>cd_prev1 := x\<rparr>) = cd_wf cd" "cd_wf (cd\<lparr>cd_prev2 := x\<rparr>) = cd_wf cd"
  "cd_wf (cd\<lparr>cd_last := x\<rparr>) = cd_wf cd" "cd_wf (cd\<lparr>cd_key := x\<rparr>) = cd_wf cd"
  "cd_wf (cd\<lparr>cd_cmd := x\<rparr>) = cd_wf cd" "cd_wf (cd\<lparr>cd_have_cmd := a\<rparr>) = cd_wf cd"
  "cd_wf (cd\<lparr>cd_pending := x\<rparr>) = cd_wf cd" "cd_wf (cd\<lparr>cd_await_trailer := a\<rparr>) = cd_wf cd"
  "cd_wf (cd\<lparr>cd_claimable := a\<rparr>) = cd_wf cd" "cd_wf (cd\<lparr>cd_nonce_raw := x\<rparr>) = cd_wf cd"
  "cd_wf (cd\<lparr>cd_tx_bit := n\<rparr>) = cd_wf cd" "cd_wf (cd\<lparr>cd_pic_ready := a\<rparr>) = cd_wf cd"
  "cd_wf (cd\<lparr>cd_refuse := a\<rparr>) = cd_wf cd"
  by (simp_all add: cd_wf_def)

lemma cd_reset_wf [wf_intros]: "cd_wf cd \<Longrightarrow> cd_wf (cd_reset cd)"
  by (simp add: cd_reset_def cd_wf_def)

lemma cd_assemble_wf [wf_intros]: "cd_wf cd \<Longrightarrow> cd_wf (snd (cd_assemble cd val))"
  by (auto simp: cd_assemble_def cd_wf_def Let_def)

lemma put_tx_wf [wf_intros]:
  "cd_wf cd \<Longrightarrow> length bs \<le> CD_RECORD \<Longrightarrow> cd_wf (put_tx cd bs)"
  by (simp add: put_tx_def cd_wf_def)

lemma cd_lookup_answers: "cd_lookup as cd = Some r \<Longrightarrow> \<exists>c a. (c, a, r) \<in> set as"
  by (induction as cd rule: cd_lookup.induct) (auto split: if_splits)

lemma cd_lookup_length: "cd_lookup cd_answers cd = Some r \<Longrightarrow> length r = 2"
  by (drule cd_lookup_answers) (auto simp: cd_answers_def)

lemma cd_refuse_wf: "cd_wf cd \<Longrightarrow> cd_wf (cd\<lparr>cd_refuse := True, cd_tx_len := 0\<rparr>)"
  by (simp add: cd_wf_def)

lemma cd_prepare_plain_wf [wf_intros]:
  assumes "cd_wf cd"
  shows "cd_wf (cd_prepare_plain block cd)"
proof -
  let ?d = "cd\<lparr>cd_tx_bit := 0\<rparr>"
  have d: "cd_wf ?d" using assms by simp
  show ?thesis
  proof (cases "cd_lookup cd_answers ?d")
    case (Some r)
    with d show ?thesis
      by (auto simp: cd_prepare_plain_def cd_consts dest!: cd_lookup_length intro: put_tx_wf)
  next
    case None
    with d show ?thesis
      by (auto simp: cd_prepare_plain_def cd_refuse_wf cd_consts Let_def intro!: put_tx_wf)
  qed
qed

lemma length_pic_wire [simp]: "length (pic_wire r) = 9"
  by (simp add: pic_wire_def)

lemma cd_prepare_picture_wf [wf_intros]: "cd_wf cd \<Longrightarrow> cd_wf (snd (cd_prepare_picture cd))"
  by (auto simp: cd_prepare_picture_def Let_def cd_refuse_wf cd_wf_def cd_consts split: option.splits)

lemma cd_prepare_wf [wf_intros]: "cd_wf cd \<Longrightarrow> cd_wf (cd_prepare block cd)"
  using cd_prepare_picture_wf [of "cd\<lparr>cd_refuse := False\<rparr>"]
  by (auto simp: cd_prepare_def cd_prepare_plain_wf Let_def split: prod.splits bool.splits)

lemma cd_trailer_wf [wf_intros]: "cd_wf cd \<Longrightarrow> cd_wf (cd_trailer block cd val)"
  by (auto simp: cd_trailer_def Let_def intro!: cd_prepare_wf) (simp_all add: cd_wf_def)

lemma cd_listen_wf [wf_intros]: "cd_wf cd \<Longrightarrow> cd_wf (cd_listen block cd val)"
  using cd_assemble_wf [of cd val] cd_assemble_wf [of "cd_trailer block cd val" val]
  by (auto simp: cd_listen_def cd_trailer_wf Let_def split: prod.splits option.splits)

lemma cd_handshake_wf [wf_intros]: "cd_wf cd \<Longrightarrow> cd_wf (cd_handshake cd val)"
  by (auto simp: cd_handshake_def cd_wf_def cd_consts)

lemma cd_clock_wf [wf_intros]: "cd_wf cd \<Longrightarrow> cd_wf (fst (cd_clock cd val))"
  by (auto simp: cd_clock_def cd_wf_def Let_def)

lemma cd_claim_wf [wf_intros]: "cd_wf cd \<Longrightarrow> cd_wf (cd_claim cd val r)"
  by (simp add: cd_claim_def)

lemma cd_write_data_wf [wf_intros]:
  assumes "cd_wf cd"
  shows "cd_wf (cd_write_data block cd val)"
proof -
  define d where "d = (if val AND 0xF0 = 0xF0 then cd\<lparr>cd_claimable := False\<rparr> else cd)"
  define e where "e = d\<lparr>cd_prev2 := cd_prev1 d, cd_prev1 := val, cd_last := val\<rparr>"
  have d: "cd_wf d" using assms by (simp add: d_def)
  then have e: "cd_wf e" by (simp add: e_def)
  then have "cd_wf (e\<lparr>cd_state := CD_HS, cd_attn := 1\<rparr>)"
    by (simp add: cd_wf_def cd_consts)
  with d e show ?thesis
    unfolding cd_write_data_def d_def [symmetric] Let_def e_def [symmetric]
    by (auto simp: wf_intros split: cd_phase.splits)
qed

text \<open>Inside the invariant the reply is read inside its buffer.\<close>

lemma cd_ack_in_bounds:
  "cd_wf cd \<Longrightarrow> cd_tx_bit cd < cd_tx_len cd * 8 \<Longrightarrow> cd_tx_bit cd div 8 < length (cd_tx cd)"
  by (auto simp: cd_wf_def)

end
