(* ===== verification/CDongle_Wire.thy ===== *)
theory CDongle_Wire
  imports CDongle
begin

text \<open>
  The CDONGLE wire end to end: what the host library does on DATA and ACK, and
  what it gets back from the token modelled in \<open>CDongle\<close>.  A byte goes out as
  five writes and a trailer; a reply byte comes back after a claim and the
  eight-write attention handshake, one bit per CF/FF pair.
\<close>

unbundle bit_operations_syntax

section \<open>The assembly window\<close>

definition last5 :: "u8 list \<Rightarrow> u8 list" where
  "last5 xs = drop (length xs - 5) xs"

lemma length_last5 [simp]: "length (last5 xs) = min 5 (length xs)"
  by (simp add: last5_def)

lemma last5_short [simp]: "length xs \<le> 5 \<Longrightarrow> last5 xs = xs"
  by (simp add: last5_def)

lemma last5_tl: "length xs = 5 \<Longrightarrow> last5 (xs @ [y]) = tl xs @ [y]"
  by (cases xs) (simp_all add: last5_def)

lemma last5_snoc: "last5 (last5 xs @ [y]) = last5 (xs @ [y])"
proof (cases "length xs \<le> 4")
  case True
  then show ?thesis by simp
next
  case False
  then have "last5 (last5 xs @ [y]) = tl (drop (length xs - 5) xs) @ [y]"
    by (subst last5_tl [symmetric]) (simp_all add: last5_def)
  also have "\<dots> = last5 (xs @ [y])"
  proof -
    have "Suc (length xs - 5) = length xs - 4" using False by arith
    then show ?thesis by (simp add: last5_def drop_Suc [symmetric] tl_drop)
  qed
  finally show ?thesis .
qed

lemma last_last5 [simp]: "xs \<noteq> [] \<Longrightarrow> last (last5 xs) = last xs"
  by (simp add: last5_def)

definition cd_win :: "cd \<Rightarrow> u8 list" where
  "cd_win cd = take (cd_nhist cd) (cd_hist cd)"

lemma cd_assemble_eq:
  assumes "length (cd_hist cd) = 5" "cd_nhist cd \<le> 5"
  shows "\<exists>h. length h = 5 \<and> take (length (last5 (cd_win cd @ [val]))) h = last5 (cd_win cd @ [val]) \<and>
    cd_assemble cd val =
      (if length (last5 (cd_win cd @ [val])) = 5 \<and> frame_match h
       then (Some (push_bit 4 (h ! 3 AND 0x0F) OR (h ! 0 AND 0x0F)), cd\<lparr>cd_hist := h, cd_nhist := 0\<rparr>)
       else (None, cd\<lparr>cd_hist := h, cd_nhist := length (last5 (cd_win cd @ [val]))\<rparr>))"
proof (cases "cd_nhist cd = 5")
  case True
  then have w: "last5 (cd_win cd @ [val]) = tl (cd_hist cd) @ [val]"
    using assms(1) by (simp add: cd_win_def last5_tl)
  have l: "(tl (cd_hist cd) @ [x])[4 := val] = tl (cd_hist cd) @ [val]" for x
    using assms(1) by (simp add: list_update_append)
  show ?thesis
    using True assms l by (intro exI [of _ "tl (cd_hist cd) @ [val]"])
      (simp add: w cd_assemble_def Let_def)
next
  case False
  then have n: "cd_nhist cd < 5" using assms by simp
  let ?h = "(cd_hist cd)[cd_nhist cd := val]"
  have w: "last5 (cd_win cd @ [val]) = cd_win cd @ [val]"
    using n assms(1) by (simp add: cd_win_def)
  have t: "take (Suc (cd_nhist cd)) ?h = cd_win cd @ [val]"
    using n assms(1) by (simp add: cd_win_def take_update_snoc)
  have l: "length (cd_win cd) = cd_nhist cd"
    using n assms(1) by (simp add: cd_win_def)
  show ?thesis
  proof (cases "cd_nhist cd = 4")
    case True
    then have "?h = cd_win cd @ [val]" using t assms(1) by simp
    with True show ?thesis
      using assms(1) l by (intro exI [of _ ?h]) (simp add: w cd_assemble_def Let_def)
  next
    case False
    with n assms(1) show ?thesis
      by (intro exI [of _ ?h]) (simp add: w t l cd_assemble_def Let_def)
  qed
qed

text \<open>A write that does not end in 8 completes nothing.\<close>

lemma cd_assemble_none:
  assumes "length (cd_hist cd) = 5" "cd_nhist cd \<le> 5" "val AND 0xF0 \<noteq> 0x80"
  shows "\<exists>h n. length h = 5 \<and> n \<le> 5 \<and> take n h = last5 (cd_win cd @ [val]) \<and>
    cd_assemble cd val = (None, cd\<lparr>cd_hist := h, cd_nhist := n\<rparr>)"
proof -
  let ?w = "last5 (cd_win cd @ [val])"
  obtain h where h: "length h = 5" "take (length ?w) h = ?w"
    "cd_assemble cd val =
      (if length ?w = 5 \<and> frame_match h
       then (Some (push_bit 4 (h ! 3 AND 0x0F) OR (h ! 0 AND 0x0F)), cd\<lparr>cd_hist := h, cd_nhist := 0\<rparr>)
       else (None, cd\<lparr>cd_hist := h, cd_nhist := length ?w\<rparr>))"
    using cd_assemble_eq [OF assms(1,2)] by blast
  have "\<not> (length ?w = 5 \<and> frame_match h)"
  proof
    assume m: "length ?w = 5 \<and> frame_match h"
    then have "h = ?w" using h(1,2) by simp
    moreover have "h ! 4 = last h"
      using h(1) by (simp add: last_conv_nth flip: length_greater_0_conv)
    ultimately have "h ! 4 = val" by simp
    with m assms(3) show False by (simp add: frame_match_def)
  qed
  with h show ?thesis by (intro exI [of _ h] exI [of _ "length ?w"]) simp
qed

section \<open>Frames\<close>

definition cd_frame :: "u8 \<Rightarrow> u8 list" where
  "cd_frame b = [0xF0 OR lo_nib b, 0xC0 OR lo_nib b, 0xF0 OR lo_nib b, 0x90 OR hi_nib b, 0x80 OR hi_nib b]"

lemma frame_nibbles [simp]:
  "(0xF0 OR lo_nib b) AND 0xF0 = 0xF0" "(0xC0 OR lo_nib b) AND 0xF0 = 0xC0"
  "(0x90 OR hi_nib b) AND 0xF0 = 0x90" "(0x80 OR hi_nib b) AND 0xF0 = 0x80"
  "(0xF0 OR lo_nib b) AND 0x0F = lo_nib b" "(0xC0 OR lo_nib b) AND 0x0F = lo_nib b"
  "(0x90 OR hi_nib b) AND 0x0F = hi_nib b" "(0x80 OR hi_nib b) AND 0x0F = hi_nib b"
  by (rule byte_eqI; simp add: lo_nib_def hi_nib_def bit_simps)+

lemma frame_match_frame: "frame_match (cd_frame b)"
  by (simp add: frame_match_def cd_frame_def)

definition cd_hears :: "cd \<Rightarrow> bool" where
  "cd_hears cd \<longleftrightarrow> (cd_state cd = CD_IDLE \<or> cd_state cd = CD_READY) \<and> \<not> cd_await_trailer cd \<and>
     length (cd_hist cd) = 5 \<and> cd_nhist cd \<le> 5"

text \<open>The fields the framing of a byte moves; everything else is the transaction.\<close>

abbreviation framed ::
    "cd \<Rightarrow> u8 list \<Rightarrow> nat \<Rightarrow> u8 \<Rightarrow> u8 \<Rightarrow> u8 \<Rightarrow> u8 \<Rightarrow> bool \<Rightarrow> bool \<Rightarrow> cd" where
  "framed cd h n p1 p2 l pe aw cl \<equiv>
     cd\<lparr>cd_hist := h, cd_nhist := n, cd_prev1 := p1, cd_prev2 := p2, cd_last := l,
        cd_pending := pe, cd_await_trailer := aw, cd_claimable := cl\<rparr>"

lemma cd_write_hearing:
  assumes "cd_state cd = CD_IDLE \<or> cd_state cd = CD_READY" "val \<noteq> 0xBF \<or> cd_prev1 cd \<noteq> 0x7F"
    "d = cd\<lparr>cd_prev2 := cd_prev1 cd, cd_prev1 := val, cd_last := val,
            cd_claimable := (cd_claimable cd \<and> val AND 0xF0 \<noteq> 0xF0)\<rparr>"
  shows "cd_write_data block cd val = cd_claim (cd_listen block d val) val False"
proof -
  let ?c = "if val AND 0xF0 = 0xF0 then cd\<lparr>cd_claimable := False\<rparr> else cd"
  have d: "?c\<lparr>cd_prev2 := cd_prev1 ?c, cd_prev1 := val, cd_last := val\<rparr> = d"
    by (rule cd.equality) (simp_all add: assms(3))
  have p: "\<not> (cd_prev2 ?c = 0xBF \<and> cd_prev1 ?c = 0x7F \<and> val = 0xBF)"
    using assms(2) by auto
  have st: "cd_state d = CD_IDLE \<or> cd_state d = CD_READY"
    using assms(1) by (simp add: assms(3))
  show ?thesis
    unfolding cd_write_data_def Let_def d if_not_P [OF p] using st by (elim disjE) simp_all
qed

lemma cd_write_listening:
  assumes "cd_hears cd" "val \<noteq> 0xBF" "val AND 0xF0 = 0xF0 \<or> \<not> cd_claimable cd"
  shows "cd_write_data block cd val =
    (let r = cd_assemble (cd\<lparr>cd_prev2 := cd_prev1 cd, cd_prev1 := val, cd_last := val,
                            cd_claimable := False\<rparr>) val
     in case fst r of None \<Rightarrow> snd r
        | Some b \<Rightarrow> (snd r)\<lparr>cd_pending := b, cd_await_trailer := True\<rparr>)"
proof -
  let ?d = "cd\<lparr>cd_prev2 := cd_prev1 cd, cd_prev1 := val, cd_last := val, cd_claimable := False\<rparr>"
  have w: "cd_write_data block cd val = cd_claim (cd_listen block ?d val) val False"
    by (rule cd_write_hearing) (use assms in \<open>auto simp: cd_hears_def intro: cd.equality\<close>)
  have cl: "\<not> cd_claimable (snd (cd_assemble ?d val))"
    by (simp add: cd_assemble_def Let_def)
  let ?r = "case fst (cd_assemble ?d val) of None \<Rightarrow> snd (cd_assemble ?d val)
    | Some b \<Rightarrow> (snd (cd_assemble ?d val))\<lparr>cd_pending := b, cd_await_trailer := True\<rparr>"
  have l: "cd_listen block ?d val = ?r"
    using assms(1)
    by (cases "cd_assemble ?d val") (auto simp: cd_hears_def cd_listen_def Let_def split: option.split)
  have "cd_claim ?r val False = ?r"
    using cl by (auto simp: cd_claim_def split: option.split)
  then show ?thesis by (simp only: w l Let_def)
qed

text \<open>One write of a frame that completes nothing.\<close>

lemma cd_write_partial:
  assumes "cd_hears cd" "val \<noteq> 0xBF" "val AND 0xF0 = 0xF0 \<or> \<not> cd_claimable cd" "val AND 0xF0 \<noteq> 0x80"
  shows "\<exists>h n. length h = 5 \<and> n \<le> 5 \<and> take n h = last5 (cd_win cd @ [val]) \<and>
    cd_write_data block cd val =
      cd\<lparr>cd_hist := h, cd_nhist := n, cd_prev2 := cd_prev1 cd, cd_prev1 := val, cd_last := val,
         cd_claimable := False\<rparr>"
proof -
  let ?d = "cd\<lparr>cd_prev2 := cd_prev1 cd, cd_prev1 := val, cd_last := val, cd_claimable := False\<rparr>"
  have "length (cd_hist ?d) = 5" "cd_nhist ?d \<le> 5" and w: "cd_win ?d = cd_win cd"
    using assms(1) by (simp_all add: cd_hears_def cd_win_def)
  from cd_assemble_none [OF this(1,2) assms(4)] obtain h n where
    h: "length h = 5" "n \<le> 5" "take n h = last5 (cd_win ?d @ [val])"
    "cd_assemble ?d val = (None, ?d\<lparr>cd_hist := h, cd_nhist := n\<rparr>)"
    by blast
  show ?thesis
    using h w by (intro exI [of _ h] exI [of _ n])
      (simp add: cd_write_listening [OF assms(1-3)] Let_def)
qed

text \<open>The whole frame, whatever the window held before.\<close>

lemma cd_frame_writes:
  assumes "cd_hears cd"
  shows "\<exists>h p1 p2. length h = 5 \<and> p1 \<noteq> 0x7F \<and>
    foldl (cd_write_data block) cd (cd_frame b) = framed cd h 0 p1 p2 p1 b True False"
proof -
  define f1 f2 f4 f5 where f: "f1 = 0xF0 OR lo_nib b" "f2 = 0xC0 OR lo_nib b"
    "f4 = 0x90 OR hi_nib b" "f5 = 0x80 OR hi_nib b"
  have hi: "f1 AND 0xF0 = 0xF0" "f2 AND 0xF0 = 0xC0" "f4 AND 0xF0 = 0x90" "f5 AND 0xF0 = 0x80"
    by (simp_all add: f)
  have lo: "f1 AND 0x0F = lo_nib b" "f2 AND 0x0F = lo_nib b" "f4 AND 0x0F = hi_nib b"
    by (simp_all add: f)
  have ne: "f1 \<noteq> 0xBF" "f2 \<noteq> 0xBF" "f4 \<noteq> 0xBF" "f5 \<noteq> 0xBF" "f5 \<noteq> 0x7F"
    using hi by (auto simp: word_and_max)
  obtain h1 n1 where 1: "length h1 = 5" "n1 \<le> 5" "take n1 h1 = last5 (cd_win cd @ [f1])"
    "cd_write_data block cd f1 = cd\<lparr>cd_hist := h1, cd_nhist := n1, cd_prev2 := cd_prev1 cd,
       cd_prev1 := f1, cd_last := f1, cd_claimable := False\<rparr>" (is "_ = ?c1")
    using cd_write_partial [OF assms ne(1), of block] hi by auto
  have "cd_hears ?c1" using assms 1 by (simp add: cd_hears_def)
  with 1(3) obtain h2 n2 where 2: "length h2 = 5" "n2 \<le> 5"
    "take n2 h2 = last5 (last5 (cd_win cd @ [f1]) @ [f2])"
    "cd_write_data block ?c1 f2 = ?c1\<lparr>cd_hist := h2, cd_nhist := n2, cd_prev2 := f1,
       cd_prev1 := f2, cd_last := f2, cd_claimable := False\<rparr>" (is "_ = ?c2")
    using cd_write_partial [of ?c1 f2 block] ne hi by (auto simp: cd_win_def)
  have "cd_hears ?c2" using assms 2 by (simp add: cd_hears_def)
  with 2(3) obtain h3 n3 where 3: "length h3 = 5" "n3 \<le> 5"
    "take n3 h3 = last5 (last5 (last5 (cd_win cd @ [f1]) @ [f2]) @ [f1])"
    "cd_write_data block ?c2 f1 = ?c2\<lparr>cd_hist := h3, cd_nhist := n3, cd_prev2 := f2,
       cd_prev1 := f1, cd_last := f1, cd_claimable := False\<rparr>" (is "_ = ?c3")
    using cd_write_partial [of ?c2 f1 block] ne hi by (auto simp: cd_win_def)
  have "cd_hears ?c3" using assms 3 by (simp add: cd_hears_def)
  with 3(3) obtain h4 n4 where 4: "length h4 = 5" "n4 \<le> 5"
    "take n4 h4 = last5 (last5 (last5 (last5 (cd_win cd @ [f1]) @ [f2]) @ [f1]) @ [f4])"
    "cd_write_data block ?c3 f4 = ?c3\<lparr>cd_hist := h4, cd_nhist := n4, cd_prev2 := f1,
       cd_prev1 := f4, cd_last := f4, cd_claimable := False\<rparr>" (is "_ = ?c4")
    using cd_write_partial [of ?c3 f4 block] ne hi by (auto simp: cd_win_def)
  have h4: "cd_hears ?c4" using assms 4 by (simp add: cd_hears_def)
  let ?d = "?c4\<lparr>cd_prev2 := f4, cd_prev1 := f5, cd_last := f5, cd_claimable := False\<rparr>"
  have "last5 (cd_win ?d @ [f5]) = last5 (cd_win cd @ [f1, f2, f1, f4, f5])"
    using 4(3) by (simp add: cd_win_def last5_snoc)
  also have "\<dots> = [f1, f2, f1, f4, f5]"
    by (simp add: last5_def)
  finally have w: "last5 (cd_win ?d @ [f5]) = [f1, f2, f1, f4, f5]" .
  have "length (cd_hist ?d) = 5" "cd_nhist ?d \<le> 5" using 4 by simp_all
  from cd_assemble_eq [OF this, of f5, unfolded w] obtain h5 where 5: "length h5 = 5"
    "take (length [f1, f2, f1, f4, f5]) h5 = [f1, f2, f1, f4, f5]"
    "cd_assemble ?d f5 =
      (if length [f1, f2, f1, f4, f5] = 5 \<and> frame_match h5
       then (Some (push_bit 4 (h5 ! 3 AND 0x0F) OR (h5 ! 0 AND 0x0F)), ?d\<lparr>cd_hist := h5, cd_nhist := 0\<rparr>)
       else (None, ?d\<lparr>cd_hist := h5, cd_nhist := length [f1, f2, f1, f4, f5]\<rparr>))"
    by blast
  have h5: "h5 = cd_frame b" using 5(1,2) by (simp add: cd_frame_def f)
  have "h5 ! 3 AND 0x0F = hi_nib b" "h5 ! 0 AND 0x0F = lo_nib b"
    by (simp_all add: h5 cd_frame_def)
  then have "push_bit 4 (h5 ! 3 AND 0x0F) OR (h5 ! 0 AND 0x0F) = b"
    using byte_nibbles [of b] by (simp only: or.commute)
  with 5(3) h5 have a: "cd_assemble ?d f5 = (Some b, ?d\<lparr>cd_hist := h5, cd_nhist := 0\<rparr>)"
    by (simp only: frame_match_frame if_True simp_thms list.size) simp
  have "cd_write_data block ?c4 f5 = framed cd h5 0 f5 f4 f5 b True False"
    using cd_write_listening [OF h4 ne(4)] a by (simp add: Let_def)
  moreover have "foldl (cd_write_data block) cd (cd_frame b) = cd_write_data block ?c4 f5"
    by (simp only: cd_frame_def f [symmetric] 1(4) 2(4) 3(4) 4(4) foldl.simps)
  ultimately have "foldl (cd_write_data block) cd (cd_frame b) = framed cd h5 0 f5 f4 f5 b True False"
    by (simp only:)
  then show ?thesis using 5(1) ne(5) by blast
qed

section \<open>What the token owes a command\<close>

text \<open>
  \<open>cd_prepare\<close> as a function of the command and the arguments so far: refuse,
  serve these bytes, or the picture reply, which alone leaves the read cursor
  where it is.
\<close>

datatype cd_plan = PicRefuse | PicServe "u8 list" | Refuse | Serve "u8 list"

definition pic_case :: "u8 \<Rightarrow> u16 \<Rightarrow> nat option" where
  "pic_case c konst =
     (if c = 0xAA \<and> konst = CD_CONST_CASE0 then Some 0
      else if c = 0xAB \<and> konst = CD_CONST_CASE1 then Some 1
      else if c = 0xAA \<and> konst = CD_CONST_CASE2 then Some 2
      else if c = 0xAB \<and> konst = CD_CONST_CASE3 then Some 3
      else None)"

definition pic_name :: "nat \<Rightarrow> u8 list \<Rightarrow> u8 list" where
  "pic_name n arg = map (\<lambda>i. if 4 + i < n then arg ! (4 + i) else 0x20) [0..<8]"

definition pic_reply :: "nat \<Rightarrow> u8 list \<Rightarrow> u8 list" where
  "pic_reply w name = map (\<lambda>j. pic_rot (pic_law ! w ! j) (name ! j)) [0..<8]"

fun answer_lookup :: "(u8 \<times> u8 list \<times> u8 list) list \<Rightarrow> u8 \<Rightarrow> u8 list \<Rightarrow> u8 list option" where
  "answer_lookup [] c a = None"
| "answer_lookup ((c', a', r) # as) c a = (if c' = c \<and> a' = a then Some r else answer_lookup as c a)"

definition plain_plan :: "u8 list \<Rightarrow> u8 \<Rightarrow> nat \<Rightarrow> u8 list \<Rightarrow> cd_plan" where
  "plain_plan block c n arg =
     (case (if n < 3 then None else answer_lookup cd_answers c (take 3 arg)) of
        Some r \<Rightarrow> Serve r
      | None \<Rightarrow>
          (if c \<ge> 0xA0 \<and> c \<le> 0xA7 then (if n \<ge> 3 then Refuse else Serve [0, 0])
           else if c = 0xAC \<and> n \<ge> 1 \<and> arg ! 0 = 0xCB then Serve [0xC5]
           else if c = 0xAD \<and> n \<ge> 5 then
             (if arg ! 3 \<noteq> 0 \<or> unat (arg ! 4) > CD_RECORD \<or> arg ! 4 = 0 then Refuse
              else Serve (take (unat (arg ! 4)) block))
           else Serve (take CD_RECORD block)))"

definition cd_plan :: "u8 list \<Rightarrow> u8 \<Rightarrow> nat \<Rightarrow> u8 list \<Rightarrow> cd_plan" where
  "cd_plan block c n arg =
     (if (c = 0xAA \<or> c = 0xAB) \<and> n \<ge> 4
      then (case pic_case c (ucast (arg ! 2) OR push_bit 8 (ucast (arg ! 3))) of
              None \<Rightarrow> PicRefuse
            | Some w \<Rightarrow> PicServe (pic_wire (pic_reply w (pic_name n arg))))
      else plain_plan block c n arg)"

fun cd_apply :: "cd_plan \<Rightarrow> cd \<Rightarrow> cd" where
  "cd_apply PicRefuse cd = cd\<lparr>cd_refuse := True, cd_tx_len := 0\<rparr>"
| "cd_apply (PicServe bs) cd =
     (put_tx cd bs)\<lparr>cd_refuse := False, cd_pic_ready := True,
        cd_tx_bit := (if cd_pic_ready cd then cd_tx_bit cd else 0)\<rparr>"
| "cd_apply Refuse cd = cd\<lparr>cd_refuse := True, cd_tx_len := 0, cd_tx_bit := 0\<rparr>"
| "cd_apply (Serve bs) cd = (put_tx cd bs)\<lparr>cd_refuse := False, cd_tx_bit := 0\<rparr>"

lemma cd_lookup_eq:
  "cd_lookup as cd = (if cd_nargs cd < 3 then None else answer_lookup as (cd_cmd cd) (take 3 (cd_arg cd)))"
  by (induction as cd rule: cd_lookup.induct) auto

lemma cd_apply_folds:
  "\<not> cd_refuse cd \<Longrightarrow> put_tx (cd\<lparr>cd_tx_bit := 0\<rparr>) bs = cd_apply (Serve bs) cd"
  "(cd\<lparr>cd_tx_bit := 0\<rparr>)\<lparr>cd_refuse := True, cd_tx_len := 0\<rparr> = cd_apply Refuse cd"
  by (rule cd.equality; simp add: put_tx_def)+

lemma cd_prepare_plain_eq:
  assumes "\<not> cd_refuse cd"
  shows "cd_prepare_plain block cd = cd_apply (plain_plan block (cd_cmd cd) (cd_nargs cd) (cd_arg cd)) cd"
proof -
  have sel: "cd_cmd (cd\<lparr>cd_tx_bit := 0\<rparr>) = cd_cmd cd" "cd_nargs (cd\<lparr>cd_tx_bit := 0\<rparr>) = cd_nargs cd"
    "cd_arg (cd\<lparr>cd_tx_bit := 0\<rparr>) = cd_arg cd"
    by simp_all
  have z: "unat (cd_arg cd ! 4) = 0 \<longleftrightarrow> cd_arg cd ! 4 = 0"
    by (simp add: unat_eq_0)
  show ?thesis
    unfolding cd_prepare_plain_def plain_plan_def Let_def cd_lookup_eq sel cd_apply_folds(2)
      cd_apply_folds(1) [OF assms] z
    by (simp del: cd_apply.simps split: option.split)
qed

lemma those_Some: "those (map (\<lambda>j. Some (f j)) xs) = Some (map f xs)"
  by (induction xs) simp_all

lemma pic_case_less: "pic_case c k = Some w \<Longrightarrow> w < 4"
  by (auto simp: pic_case_def split: if_splits)

lemma cd_pic_reply_eq: "w < 4 \<Longrightarrow> cd_pic_reply w name = Some (pic_reply w name)"
proof -
  assume w: "w < 4"
  have "map (\<lambda>j. let v = cd_pic_transform w j (name ! j)
      in if v < 0 then (if bit (cd_pic_used ! w) j then None else Some 0)
         else Some (word_of_int v)) [0..<8] =
    map (\<lambda>j. Some (pic_rot (pic_law ! w ! j) (name ! j))) [0..<8]"
    by (rule map_cong [OF refl]) (simp add: cd_pic_transform_def cd_pic_s_law [OF w])
  then show ?thesis
    unfolding cd_pic_reply_def pic_reply_def by (simp only: those_Some)
qed

lemma cd_prepare_picture_eq:
  "cd_prepare_picture cd =
     (True, case pic_case (cd_cmd cd) (ucast (cd_arg cd ! 2) OR push_bit 8 (ucast (cd_arg cd ! 3))) of
        None \<Rightarrow> cd\<lparr>cd_refuse := True, cd_tx_len := 0\<rparr>
      | Some w \<Rightarrow> (put_tx cd (pic_wire (pic_reply w (pic_name (cd_nargs cd) (cd_arg cd)))))
          \<lparr>cd_pic_ready := True, cd_tx_bit := (if cd_pic_ready cd then cd_tx_bit cd else 0)\<rparr>)"
proof (cases "pic_case (cd_cmd cd) (ucast (cd_arg cd ! 2) OR push_bit 8 (ucast (cd_arg cd ! 3)))")
  case None
  then show ?thesis by (simp add: cd_prepare_picture_def pic_case_def [symmetric])
next
  case (Some w)
  let ?w = "pic_wire (pic_reply w (pic_name (cd_nargs cd) (cd_arg cd)))"
  have "cd_prepare_picture cd =
     (True, (if \<not> cd_pic_ready cd then cd\<lparr>cd_tx_bit := 0, cd_pic_ready := True\<rparr> else cd)
       \<lparr>cd_tx_len := 9, cd_tx := map (\<lambda>x. x XOR cd_key cd) ?w @ drop 9 (cd_tx cd)\<rparr>)"
    using Some
    by (simp add: cd_prepare_picture_def pic_case_def [symmetric] pic_name_def [symmetric] Let_def
        cd_pic_reply_eq pic_case_less)
  also have "(if \<not> cd_pic_ready cd then cd\<lparr>cd_tx_bit := 0, cd_pic_ready := True\<rparr> else cd)
       \<lparr>cd_tx_len := 9, cd_tx := map (\<lambda>x. x XOR cd_key cd) ?w @ drop 9 (cd_tx cd)\<rparr> =
    (put_tx cd ?w)\<lparr>cd_pic_ready := True, cd_tx_bit := (if cd_pic_ready cd then cd_tx_bit cd else 0)\<rparr>"
    by (rule cd.equality) (simp_all add: put_tx_def)
  finally show ?thesis using Some by simp
qed

lemma cd_prepare_eq:
  "cd_prepare block cd = cd_apply (cd_plan block (cd_cmd cd) (cd_nargs cd) (cd_arg cd)) cd"
proof (cases "(cd_cmd cd = 0xAA \<or> cd_cmd cd = 0xAB) \<and> cd_nargs cd \<ge> 4")
  case True
  show ?thesis
    by (rule cd.equality)
      (simp_all add: cd_prepare_def cd_plan_def True cd_prepare_picture_eq put_tx_def
        Let_def split: option.split)
next
  case False
  have "cd_prepare block cd = cd_prepare_plain block (cd\<lparr>cd_refuse := False\<rparr>)"
    using False by (auto simp: cd_prepare_def Let_def)
  also have "\<dots> = cd_apply (plain_plan block (cd_cmd cd) (cd_nargs cd) (cd_arg cd)) (cd\<lparr>cd_refuse := False\<rparr>)"
    by (simp add: cd_prepare_plain_eq)
  also have "\<dots> = cd_apply (plain_plan block (cd_cmd cd) (cd_nargs cd) (cd_arg cd)) cd"
    by (cases "plain_plan block (cd_cmd cd) (cd_nargs cd) (cd_arg cd)")
      (simp_all add: put_tx_def plain_plan_def split: option.splits if_splits)
  finally show ?thesis using False by (auto simp: cd_plan_def)
qed

lemma cd_apply_framed:
  "cd_apply pl (framed cd h n p1 p2 l pe aw cl) = framed (cd_apply pl cd) h n p1 p2 l pe aw cl"
  by (cases pl; rule cd.equality; simp add: put_tx_def)

lemma cd_prepare_framed:
  "cd_prepare block (framed cd h n p1 p2 l pe aw cl) =
     framed (cd_prepare block cd) h n p1 p2 l pe aw cl"
  by (simp add: cd_prepare_eq cd_apply_framed [where cd = cd])

section \<open>Bytes\<close>

text \<open>What a byte does to the transaction: a nonce, the command, or an argument.\<close>

definition cd_command :: "u8 list \<Rightarrow> cd \<Rightarrow> u8 \<Rightarrow> cd" where
  "cd_command block cd b =
     (let k = cd_nonce_raw cd XOR 0xD3
      in (cd_prepare block (cd\<lparr>cd_key := k, cd_cmd := b XOR k, cd_have_cmd := True,
            cd_pic_ready := False, cd_nargs := 0\<rparr>))\<lparr>cd_state := CD_READY\<rparr>)"

definition cd_argument :: "u8 list \<Rightarrow> cd \<Rightarrow> u8 \<Rightarrow> cd" where
  "cd_argument block cd b =
     (cd_prepare block
        (if cd_nargs cd < 12
         then cd\<lparr>cd_arg := (cd_arg cd)[cd_nargs cd := b XOR cd_key cd], cd_nargs := Suc (cd_nargs cd)\<rparr>
         else cd))\<lparr>cd_state := CD_READY\<rparr>"

definition cd_take :: "u8 list \<Rightarrow> cd \<Rightarrow> u8 \<Rightarrow> u8 \<Rightarrow> cd" where
  "cd_take block cd t b =
     (if t = 0xD0 then cd_command block cd b
      else if cd_have_cmd cd then cd_argument block cd b
      else cd\<lparr>cd_nonce_raw := b\<rparr>)"

lemma framed_state:
  "(framed cd h n p1 p2 l pe aw cl)\<lparr>cd_state := s\<rparr> =
     framed (cd\<lparr>cd_state := s\<rparr>) h n p1 p2 l pe aw cl"
  by (rule cd.equality) simp_all

lemma cd_trailer_framed:
  "cd_trailer block (framed cd h n p1 p2 l b aw cl) t =
     framed (cd_take block cd t b) h n p1 p2 l b False True"
proof -
  let ?k = "cd_nonce_raw cd XOR 0xD3"
  let ?f = "\<lambda>c. framed c h n p1 p2 l b False True"
  let ?c1 = "cd\<lparr>cd_key := ?k, cd_cmd := b XOR ?k, cd_have_cmd := True, cd_pic_ready := False,
    cd_nargs := 0\<rparr>"
  let ?c2 = "cd\<lparr>cd_arg := (cd_arg cd)[cd_nargs cd := b XOR cd_key cd], cd_nargs := Suc (cd_nargs cd)\<rparr>"
  let ?x = "(framed cd h n p1 p2 l b aw cl)\<lparr>cd_await_trailer := False, cd_claimable := True\<rparr>"
  have x: "?x = ?f cd"
    "(?f cd)\<lparr>cd_key := ?k, cd_cmd := b XOR ?k, cd_have_cmd := True, cd_pic_ready := False,
      cd_nargs := 0\<rparr> = ?f ?c1"
    "(?f cd)\<lparr>cd_arg := (cd_arg cd)[cd_nargs cd := b XOR cd_key cd],
      cd_nargs := Suc (cd_nargs cd)\<rparr> = ?f ?c2"
    "(?f cd)\<lparr>cd_nonce_raw := b\<rparr> = ?f (cd\<lparr>cd_nonce_raw := b\<rparr>)"
    by (rule cd.equality; simp)+
  have sel: "cd_nonce_raw (?f cd) = cd_nonce_raw cd" "cd_pending (?f cd) = b"
    "cd_have_cmd (?f cd) = cd_have_cmd cd" "cd_nargs (?f cd) = cd_nargs cd"
    "cd_arg (?f cd) = cd_arg cd" "cd_key (?f cd) = cd_key cd"
    by simp_all
  consider "t = 0xD0" | "t \<noteq> 0xD0" "\<not> cd_have_cmd cd" | "t \<noteq> 0xD0" "cd_have_cmd cd" by blast
  then show ?thesis
  proof cases
    case 1
    have "cd_trailer block (framed cd h n p1 p2 l b aw cl) t = (cd_prepare block (?f ?c1))\<lparr>cd_state := CD_READY\<rparr>"
      using 1 unfolding cd_trailer_def Let_def x(1) sel x(2) by (simp only: if_True simp_thms)
    then show ?thesis
      using 1 by (simp only: cd_prepare_framed framed_state cd_take_def cd_command_def Let_def if_True simp_thms)
  next
    case 2
    then have "cd_trailer block (framed cd h n p1 p2 l b aw cl) t = ?f (cd\<lparr>cd_nonce_raw := b\<rparr>)"
      unfolding cd_trailer_def Let_def x(1) sel x(4) by (simp only: if_True if_False simp_thms)
    with 2 show ?thesis by (simp only: cd_take_def if_False)
  next
    case 3
    then have "cd_trailer block (framed cd h n p1 p2 l b aw cl) t =
        (cd_prepare block (if cd_nargs cd < 12 then ?f ?c2 else ?f cd))\<lparr>cd_state := CD_READY\<rparr>"
      unfolding cd_trailer_def Let_def x(1) sel x(3) by (simp only: if_True if_False simp_thms)
    with 3 show ?thesis
      by (simp only: cd_prepare_framed framed_state cd_take_def cd_argument_def if_distrib [of "cd_prepare block"]
          if_True if_False) (simp add: framed_state)
  qed
qed

text \<open>A byte with its trailer, from any listening state.\<close>

definition cd_send :: "u8 list \<Rightarrow> u8 \<Rightarrow> cd \<Rightarrow> u8 \<Rightarrow> cd" where
  "cd_send block t cd b = foldl (cd_write_data block) cd (cd_frame b @ [t])"

lemma cd_take_state:
  "cd_hears cd \<Longrightarrow> cd_state (cd_take block cd t b) = CD_IDLE \<or> cd_state (cd_take block cd t b) = CD_READY"
  by (auto simp: cd_take_def cd_command_def cd_argument_def cd_hears_def Let_def)

lemma cd_send_eq:
  assumes "cd_hears cd" "t AND 0xF0 = 0xD0"
  shows "\<exists>h p2. length h = 5 \<and>
    cd_send block t cd b = framed (cd_take block cd t b) h 1 t p2 t b False True"
proof -
  obtain h p1 p2 where f: "length h = 5" "p1 \<noteq> 0x7F"
    "foldl (cd_write_data block) cd (cd_frame b) = framed cd h 0 p1 p2 p1 b True False"
    using cd_frame_writes [OF assms(1)] by blast
  have t: "t \<noteq> 0xBF" "t AND 0xF0 \<noteq> 0xF0" "t AND 0xF0 \<noteq> 0xC0" "t AND 0xF0 \<noteq> 0x80"
    using assms(2) by auto
  let ?c = "framed cd h 0 t p1 t b True False"
  let ?r = "framed (cd_take block cd t b) (h[0 := t]) 1 t p1 t b False True"
  have "cd_listen block ?c t = ?r"
    using f(1) by (simp add: cd_listen_def cd_trailer_framed cd_assemble_def Let_def)
  moreover have "cd_claim ?r t False = ?r"
    using t by (simp add: cd_claim_def)
  moreover have "cd_write_data block (framed cd h 0 p1 p2 p1 b True False) t =
      cd_claim (cd_listen block ?c t) t False"
    by (rule cd_write_hearing)
      (use assms(1) t in \<open>auto simp: cd_hears_def intro!: cd.equality\<close>)
  ultimately have "cd_write_data block (framed cd h 0 p1 p2 p1 b True False) t = ?r"
    by (simp only:)
  then have "cd_send block t cd b = ?r"
    by (simp add: cd_send_def f(3))
  then show ?thesis using f(1) by (intro exI [of _ "h[0 := t]"] exI [of _ p1]) simp
qed

section \<open>The host library\<close>

text \<open>
  Claiming a reply: the poll loop needs ACK up, the claim CF needs it to fall,
  and each of the eight attention writes is checked against its own bit 5;
  \<open>None\<close> is the library giving up.
\<close>

fun host_attention :: "u8 list \<Rightarrow> cd \<Rightarrow> u8 list \<Rightarrow> cd option" where
  "host_attention block cd [] = Some cd"
| "host_attention block cd (v # vs) =
     (let c = cd_write_data block cd v
      in if cd_ack c = (v AND 0x20 \<noteq> 0) then host_attention block c vs else None)"

definition host_claim :: "u8 list \<Rightarrow> cd \<Rightarrow> cd option" where
  "host_claim block cd =
     (if \<not> cd_ack cd then None
      else (let c = cd_write_data block cd 0xCF
            in if cd_ack c then None else host_attention block c cd_attention))"

fun host_bits :: "u8 list \<Rightarrow> nat \<Rightarrow> cd \<Rightarrow> bool list \<times> cd" where
  "host_bits block 0 cd = ([], cd)"
| "host_bits block (Suc m) cd =
     (let c = cd_write_data block cd 0xCF;
          r = host_bits block m (cd_write_data block c 0xFF)
      in (cd_ack c # fst r, snd r))"

definition host_read_byte :: "u8 list \<Rightarrow> cd \<Rightarrow> (u8 \<times> cd) option" where
  "host_read_byte block cd =
     (case host_claim block cd of
        None \<Rightarrow> None
      | Some c \<Rightarrow>
          (let r = host_bits block 8 c
           in Some (word_of_bits_msb (fst r), cd_write_data block (snd r) 0xBF)))"

definition host_pulse :: "u8 list \<Rightarrow> cd \<Rightarrow> cd" where
  "host_pulse block cd = foldl (cd_write_data block) cd [0xBF, 0x7F, 0xBF]"

section \<open>Reading a byte\<close>

lemma length_cd_attention [simp]: "length cd_attention = 8"
  by (simp add: cd_attention_def)

lemma cd_write_hs:
  assumes "cd_state cd = CD_HS" "cd_attn cd < 8" "v = cd_attention ! cd_attn cd" "cd_prev1 cd \<noteq> 0x7F"
  shows "cd_write_data block cd v =
    cd\<lparr>cd_attn := Suc (cd_attn cd), cd_prev2 := cd_prev1 cd, cd_prev1 := v, cd_last := v\<rparr>"
proof -
  have "v \<in> set cd_attention"
    using assms(2,3) by simp
  then have "v AND 0xF0 \<noteq> 0xF0" by (auto simp: cd_attention_def)
  then show ?thesis
    using assms by (simp add: cd_write_data_def cd_handshake_def cd_claim_def CD_ATTN_LEN_def)
qed

lemma host_attention_eq:
  assumes "cd_state cd = CD_HS" "cd_attn cd \<le> 8" "cd_prev1 cd \<noteq> 0x7F" "\<not> cd_refuse cd"
  shows "\<exists>p1 p2 l. p1 \<noteq> 0x7F \<and> host_attention block cd (drop (cd_attn cd) cd_attention) =
    Some (cd\<lparr>cd_attn := 8, cd_prev2 := p2, cd_prev1 := p1, cd_last := l\<rparr>)"
  using assms
proof (induction "8 - cd_attn cd" arbitrary: cd)
  case 0
  then have "cd_attn cd = 8" by simp
  then have "drop (cd_attn cd) cd_attention = []" by (simp add: cd_attention_def)
  moreover have "cd = cd\<lparr>cd_attn := 8, cd_prev2 := cd_prev2 cd, cd_prev1 := cd_prev1 cd, cd_last := cd_last cd\<rparr>"
    using \<open>cd_attn cd = 8\<close> by (intro cd.equality) simp_all
  ultimately show ?case using 0(4) by (metis host_attention.simps(1))
next
  case (Suc m)
  let ?n = "cd_attn cd"
  let ?v = "cd_attention ! ?n"
  let ?c = "cd\<lparr>cd_attn := Suc ?n, cd_prev2 := cd_prev1 cd, cd_prev1 := ?v, cd_last := ?v\<rparr>"
  have n: "?n < 8" using Suc.hyps(2) by simp
  then have d: "drop ?n cd_attention = ?v # drop (Suc ?n) cd_attention"
    by (intro Cons_nth_drop_Suc [symmetric]) (simp add: cd_attention_def)
  have w: "cd_write_data block cd ?v = ?c"
    using Suc.prems n by (intro cd_write_hs) simp_all
  have "?v \<in> set cd_attention" using n by simp
  then have v: "?v \<noteq> 0x7F" by (auto simp: cd_attention_def)
  have a: "cd_ack ?c = (?v AND 0x20 \<noteq> 0)"
    using Suc.prems by (simp add: cd_ack_def)
  have "m = 8 - cd_attn ?c" using Suc.hyps(2) by simp
  from Suc.hyps(1) [OF this] obtain p1 p2 l where "p1 \<noteq> 0x7F"
    "host_attention block ?c (drop (Suc ?n) cd_attention) =
       Some (?c\<lparr>cd_attn := 8, cd_prev2 := p2, cd_prev1 := p1, cd_last := l\<rparr>)"
    using Suc.prems n v by auto
  then show ?case
    unfolding d host_attention.simps(2) Let_def w a by auto
qed

lemma host_claim_eq:
  assumes "cd_hears cd" "cd_state cd = CD_READY" "cd_claimable cd" "cd_prev1 cd \<noteq> 0x7F" "\<not> cd_refuse cd"
  shows "\<exists>h n p1 p2 l. length h = 5 \<and> n \<le> 5 \<and> p1 \<noteq> 0x7F \<and> host_claim block cd =
    Some (cd\<lparr>cd_state := CD_HS, cd_hist := h, cd_nhist := n, cd_prev1 := p1, cd_prev2 := p2, cd_last := l,
             cd_claimable := False, cd_attn := 8\<rparr>)"
proof -
  let ?d = "cd\<lparr>cd_prev2 := cd_prev1 cd, cd_prev1 := 0xCF, cd_last := 0xCF, cd_claimable := True\<rparr>"
  have w: "cd_write_data block cd 0xCF = cd_claim (cd_listen block ?d 0xCF) 0xCF False"
    by (rule cd_write_hearing) (use assms in \<open>auto simp: cd_hears_def intro: cd.equality\<close>)
  have "length (cd_hist ?d) = 5" "cd_nhist ?d \<le> 5" "(0xCF :: u8) AND 0xF0 \<noteq> 0x80"
    using assms(1) by (simp_all add: cd_hears_def)
  from cd_assemble_none [OF this] obtain h n where h: "length h = 5" "n \<le> 5"
    "cd_assemble ?d 0xCF = (None, ?d\<lparr>cd_hist := h, cd_nhist := n\<rparr>)"
    by blast
  let ?c = "?d\<lparr>cd_hist := h, cd_nhist := n, cd_state := CD_ARMED, cd_claimable := False\<rparr>"
  have c: "cd_write_data block cd 0xCF = ?c"
    using assms(1,2) h unfolding w
    by (simp add: cd_listen_def cd_claim_def cd_hears_def Let_def)
  have a: "\<not> cd_ack ?c" "cd_ack cd" using assms by (simp_all add: cd_ack_def)
  let ?e = "?c\<lparr>cd_state := CD_HS, cd_attn := 1, cd_prev2 := 0xCF, cd_prev1 := 0xDF, cd_last := 0xDF\<rparr>"
  have e: "cd_write_data block ?c 0xDF = ?e"
    by (simp add: cd_write_data_def cd_claim_def cd_attention_def)
  have ae: "cd_ack ?e = ((0xDF :: u8) AND 0x20 \<noteq> 0)"
    using assms(5) by (simp add: cd_ack_def)
  have att: "cd_attention = 0xDF # drop (cd_attn ?e) cd_attention"
    by (simp add: cd_attention_def)
  obtain p1 p2 l where p: "p1 \<noteq> 0x7F" "host_attention block ?e (drop (cd_attn ?e) cd_attention) =
      Some (?e\<lparr>cd_attn := 8, cd_prev2 := p2, cd_prev1 := p1, cd_last := l\<rparr>)"
    using host_attention_eq [of ?e block] assms(5) by auto
  have "host_attention block ?c cd_attention =
      Some (?e\<lparr>cd_attn := 8, cd_prev2 := p2, cd_prev1 := p1, cd_last := l\<rparr>)"
    by (subst att) (simp only: host_attention.simps Let_def e ae p if_True simp_thms)
  moreover have "?e\<lparr>cd_attn := 8, cd_prev2 := p2, cd_prev1 := p1, cd_last := l\<rparr> =
      cd\<lparr>cd_state := CD_HS, cd_hist := h, cd_nhist := n, cd_prev1 := p1, cd_prev2 := p2, cd_last := l,
             cd_claimable := False, cd_attn := 8\<rparr>"
    by (rule cd.equality) simp_all
  ultimately have "host_claim block cd =
      Some (cd\<lparr>cd_state := CD_HS, cd_hist := h, cd_nhist := n, cd_prev1 := p1, cd_prev2 := p2, cd_last := l,
             cd_claimable := False, cd_attn := 8\<rparr>)"
    using a unfolding host_claim_def c Let_def by simp
  with h p(1) show ?thesis by blast
qed

text \<open>One bit: CF shows it, FF clocks past it.\<close>

definition stream_next :: "cd \<Rightarrow> cd" where
  "stream_next cd =
     (let cd = cd\<lparr>cd_tx_bit := Suc (cd_tx_bit cd), cd_prev2 := 0xCF, cd_prev1 := 0xFF, cd_last := 0xFF,
                   cd_claimable := False\<rparr>
      in if cd_tx_bit cd \<ge> cd_tx_len cd * 8
         then cd\<lparr>cd_have_cmd := False, cd_pic_ready := False, cd_nargs := 0, cd_attn := 0,
                 cd_state := CD_IDLE\<rparr>
         else cd)"

definition tx_bit_at :: "cd \<Rightarrow> nat \<Rightarrow> bool" where
  "tx_bit_at cd t = bit (cd_tx cd ! (t div 8)) (7 - t mod 8)"

lemma host_bit_stream:
  assumes "cd_state cd = CD_STREAM \<or> cd_state cd = CD_HS \<and> cd_attn cd = 8" "\<not> cd_claimable cd"
    "cd_tx_bit cd < 8 * cd_tx_len cd" "cd_prev1 cd \<noteq> 0x7F"
  shows "cd_ack (cd_write_data block cd 0xCF) = tx_bit_at cd (cd_tx_bit cd)"
    and "cd_write_data block (cd_write_data block cd 0xCF) 0xFF = stream_next (cd\<lparr>cd_state := CD_STREAM\<rparr>)"
proof -
  let ?c = "cd\<lparr>cd_state := CD_STREAM, cd_prev2 := cd_prev1 cd, cd_prev1 := 0xCF, cd_last := 0xCF\<rparr>"
  have c: "cd_write_data block cd 0xCF = ?c"
    using assms(1,2,4)
    by (auto simp: cd_write_data_def cd_handshake_def cd_clock_def cd_claim_def CD_ATTN_LEN_def
        intro: cd.equality)
  show "cd_ack (cd_write_data block cd 0xCF) = tx_bit_at cd (cd_tx_bit cd)"
    using assms(3) by (simp add: c cd_ack_def tx_bit_at_def)
  show "cd_write_data block (cd_write_data block cd 0xCF) 0xFF = stream_next (cd\<lparr>cd_state := CD_STREAM\<rparr>)"
    unfolding c using assms(2)
    by (simp add: cd_write_data_def cd_clock_def cd_claim_def stream_next_def Let_def)
qed

lemma stream_next_fields:
  "cd_tx (stream_next cd) = cd_tx cd" "cd_tx_len (stream_next cd) = cd_tx_len cd"
  "cd_prev1 (stream_next cd) = 0xFF" "\<not> cd_claimable (stream_next cd)"
  "cd_tx_bit (stream_next cd) = Suc (cd_tx_bit cd)"
  "Suc (cd_tx_bit cd) < 8 * cd_tx_len cd \<Longrightarrow> cd_state (stream_next cd) = cd_state cd"
  by (simp_all add: stream_next_def Let_def)

lemma host_bits_eq:
  assumes "cd_state cd = CD_STREAM \<or> cd_state cd = CD_HS \<and> cd_attn cd = 8" "\<not> cd_claimable cd"
    "cd_tx_bit cd + m \<le> 8 * cd_tx_len cd" "cd_prev1 cd \<noteq> 0x7F" "0 < m"
  shows "host_bits block m cd =
    (map (tx_bit_at cd) [cd_tx_bit cd ..< cd_tx_bit cd + m],
     stream_next (cd\<lparr>cd_state := CD_STREAM, cd_tx_bit := cd_tx_bit cd + m - 1\<rparr>))"
  using assms
proof (induction m arbitrary: cd)
  case 0
  then show ?case by simp
next
  case (Suc m)
  let ?s = "cd\<lparr>cd_state := CD_STREAM\<rparr>"
  have lt: "cd_tx_bit cd < 8 * cd_tx_len cd" using Suc.prems by simp
  note b = host_bit_stream [OF Suc.prems(1,2) lt Suc.prems(4)]
  show ?case
  proof (cases "m = 0")
    case True
    then show ?thesis by (simp add: b Let_def)
  next
    case False
    let ?c = "stream_next ?s"
    have st: "cd_state ?c = CD_STREAM"
      using False Suc.prems(3) by (subst stream_next_fields) auto
    have "host_bits block m ?c = (map (tx_bit_at ?c) [cd_tx_bit ?c ..< cd_tx_bit ?c + m],
        stream_next (?c\<lparr>cd_state := CD_STREAM, cd_tx_bit := cd_tx_bit ?c + m - 1\<rparr>))"
      using False Suc.prems(3) st by (intro Suc.IH) (simp_all add: stream_next_fields)
    moreover have "tx_bit_at ?c = tx_bit_at cd"
      by (rule ext) (simp add: tx_bit_at_def stream_next_fields)
    moreover have "stream_next (?c\<lparr>cd_state := CD_STREAM, cd_tx_bit := cd_tx_bit ?c + m - 1\<rparr>) =
        stream_next (cd\<lparr>cd_state := CD_STREAM, cd_tx_bit := cd_tx_bit cd + Suc m - 1\<rparr>)"
      using False Suc.prems(3) by (simp add: stream_next_def Let_def)
    moreover have "[cd_tx_bit cd ..< cd_tx_bit cd + Suc m] =
        cd_tx_bit cd # [Suc (cd_tx_bit cd) ..< Suc (cd_tx_bit cd) + m]"
      by (simp add: upt_conv_Cons)
    ultimately show ?thesis
      by (simp add: b Let_def stream_next_fields del: upt_Suc)
  qed
qed

lemma byte_from_stream:
  assumes "cd_tx cd ! i = x"
  shows "word_of_bits_msb (map (tx_bit_at cd) [8 * i ..< 8 * i + 8]) = x"
proof -
  have "map (tx_bit_at cd) [8 * i ..< 8 * i + 8] = bits_msb x"
  proof (rule nth_equalityI)
    fix j
    assume "j < length (map (tx_bit_at cd) [8 * i ..< 8 * i + 8])"
    then have j: "j < 8" by simp
    then have "tx_bit_at cd (8 * i + j) = bit x (7 - j)"
      using assms by (simp add: tx_bit_at_def)
    with j show "map (tx_bit_at cd) [8 * i ..< 8 * i + 8] ! j = bits_msb x ! j"
      by (simp add: bits_msb_def rev_nth)
  qed simp
  then show ?thesis by simp
qed

end
