(* ===== verification/CDongle_Query.thy ===== *)
theory CDongle_Query
  imports CDongle_Wire
begin

text \<open>
  Whole CDONGLE transactions: the host's pulse train, nonce, command and
  arguments, and the bytes it reads back, for the licence queries, the record
  read, the picture-key query and the queries the part refuses.
\<close>

unbundle bit_operations_syntax

section \<open>Where a transaction stands\<close>

fun plan_bytes :: "cd_plan \<Rightarrow> u8 list option" where
  "plan_bytes (Serve bs) = Some bs"
| "plan_bytes (PicServe bs) = Some bs"
| "plan_bytes _ = None"

definition is_pic :: "cd_plan \<Rightarrow> bool" where
  "is_pic p = (case p of PicServe _ \<Rightarrow> True | _ \<Rightarrow> False)"

text \<open>The token holds command \<open>c\<close> with arguments \<open>args\<close> under key \<open>k\<close>, \<open>t\<close> bits read.\<close>

definition cd_holds :: "u8 list \<Rightarrow> cd \<Rightarrow> u8 \<Rightarrow> u8 \<Rightarrow> u8 list \<Rightarrow> nat \<Rightarrow> bool" where
  "cd_holds block cd k c args t \<longleftrightarrow>
     cd_wf cd \<and> cd_hears cd \<and> cd_state cd = CD_READY \<and> cd_claimable cd \<and> cd_prev1 cd \<noteq> 0x7F \<and>
     cd_have_cmd cd \<and> cd_key cd = k \<and> cd_cmd cd = c \<and>
     cd_nargs cd = length args \<and> take (length args) (cd_arg cd) = args \<and>
     cd_pic_ready cd = is_pic (cd_plan block c (length args) args) \<and> cd_tx_bit cd = t \<and>
     (case plan_bytes (cd_plan block c (length args) args) of
        None \<Rightarrow> cd_refuse cd \<and> cd_tx_len cd = 0
      | Some bs \<Rightarrow> \<not> cd_refuse cd \<and> cd_tx_len cd = length bs \<and>
          take (length bs) (cd_tx cd) = map (\<lambda>x. x XOR k) bs)"

lemma plain_plan_cong:
  assumes "take n a = take n b" "n \<le> length a" "n \<le> length b"
  shows "plain_plan block c n a = plain_plan block c n b"
proof -
  have nth: "i < n \<Longrightarrow> a ! i = b ! i" for i
    using assms(1) by (metis nth_take)
  have t: "3 \<le> n \<Longrightarrow> take 3 a = take 3 b"
    using assms(1) by (metis min.absorb1 take_take)
  show ?thesis
    using nth [of 0] nth [of 3] nth [of 4] t
    by (simp add: plain_plan_def split: option.split) (auto simp: Suc_le_eq)
qed

lemma cd_plan_cong:
  assumes "take n a = take n b" "n \<le> length a" "n \<le> length b"
  shows "cd_plan block c n a = cd_plan block c n b"
proof -
  have nth: "i < n \<Longrightarrow> a ! i = b ! i" for i
    using assms(1) by (metis nth_take)
  then have "pic_name n a = pic_name n b"
    by (simp add: pic_name_def)
  with nth [of 2] nth [of 3] plain_plan_cong [OF assms] show ?thesis
    by (simp add: cd_plan_def split: option.split)
qed

lemma answer_lookup_length: "answer_lookup cd_answers c a = Some r \<Longrightarrow> length r = 2"
  by (auto simp: cd_answers_def split: if_splits)

lemma plan_length: "plan_bytes (cd_plan block c n a) = Some bs \<Longrightarrow> length bs \<le> CD_RECORD"
  by (auto simp: cd_plan_def plain_plan_def CD_RECORD_def dest!: answer_lookup_length
      split: if_splits option.splits)

text \<open>\<open>cd_prepare\<close> on a command and its arguments.\<close>

lemma cd_apply_frame [simp]:
  "cd_state (cd_apply p cd) = cd_state cd" "cd_have_cmd (cd_apply p cd) = cd_have_cmd cd"
  "cd_key (cd_apply p cd) = cd_key cd" "cd_cmd (cd_apply p cd) = cd_cmd cd"
  "cd_nargs (cd_apply p cd) = cd_nargs cd" "cd_arg (cd_apply p cd) = cd_arg cd"
  by (cases p; simp add: put_tx_def)+

lemma cd_apply_serves:
  "cd_key cd = k \<Longrightarrow> (case plan_bytes p of
      None \<Rightarrow> cd_refuse (cd_apply p cd) \<and> cd_tx_len (cd_apply p cd) = 0
    | Some bs \<Rightarrow> \<not> cd_refuse (cd_apply p cd) \<and> cd_tx_len (cd_apply p cd) = length bs \<and>
        take (length bs) (cd_tx (cd_apply p cd)) = map (\<lambda>x. x XOR k) bs)"
  by (cases p) (simp_all add: put_tx_def)

lemma cd_apply_cursor:
  "is_pic p \<Longrightarrow> cd_tx_bit (cd_apply p cd) = (if cd_pic_ready cd then cd_tx_bit cd else 0)"
  "cd_tx_bit cd = 0 \<Longrightarrow> cd_tx_bit (cd_apply p cd) = 0"
  "cd_pic_ready (cd_apply p cd) = (is_pic p \<or> cd_pic_ready cd)"
  by (cases p; simp add: put_tx_def is_pic_def)+

text \<open>The picture query stays one as the name arrives.\<close>

lemma is_pic_snoc:
  assumes "is_pic (cd_plan block c (length args) args)"
  shows "is_pic (cd_plan block c (Suc (length args)) (args @ [b]))"
proof -
  have n: "4 \<le> length args" "c = 0xAA \<or> c = 0xAB"
    using assms by (auto simp: cd_plan_def plain_plan_def is_pic_def split: if_splits option.splits)
  then have "(args @ [b]) ! 2 = args ! 2" "(args @ [b]) ! 3 = args ! 3"
    by (simp_all add: nth_append)
  with n assms show ?thesis
    by (auto simp: cd_plan_def is_pic_def split: option.splits)
qed

lemma cd_send_wf: "cd_wf cd \<Longrightarrow> cd_wf (cd_send block t cd b)"
proof -
  have "cd_wf d \<Longrightarrow> cd_wf (foldl (cd_write_data block) d vs)" for vs d
    by (induction vs arbitrary: d) (simp_all add: cd_write_data_wf)
  then show "cd_wf cd \<Longrightarrow> cd_wf (cd_send block t cd b)"
    by (simp only: cd_send_def)
qed

lemma cd_hears_framed:
  "length h = 5 \<Longrightarrow> cd_state cd = CD_READY \<or> cd_state cd = CD_IDLE \<Longrightarrow>
     cd_hears (framed cd h 1 p1 p2 l pe False cl)"
  by (auto simp: cd_hears_def)

lemma cd_send_argument:
  assumes "cd_holds block cd k c args t" "length args < 12"
    "t = 0 \<or> is_pic (cd_plan block c (length args) args)"
  shows "cd_holds block (cd_send block 0xDF cd (b XOR k)) k c (args @ [b]) t"
proof -
  let ?n = "length args" and ?cd = "cd_send block 0xDF cd (b XOR k)"
  let ?p = "cd_plan block c (Suc ?n) (args @ [b])"
  have h: "cd_hears cd" "cd_wf cd" "cd_have_cmd cd" "cd_key cd = k" "cd_cmd cd = c" "cd_nargs cd = ?n"
    "take ?n (cd_arg cd) = args" "length (cd_arg cd) = 12" "cd_tx_bit cd = t"
    "cd_pic_ready cd = is_pic (cd_plan block c ?n args)"
    using assms(1) by (auto simp: cd_holds_def cd_wf_def)
  let ?s = "cd\<lparr>cd_arg := (cd_arg cd)[?n := b], cd_nargs := Suc ?n\<rparr>"
  have arg: "take (Suc ?n) (cd_arg ?s) = args @ [b]"
    using h assms(2) by (simp add: take_update_snoc)
  have plan: "cd_plan block c (Suc ?n) (cd_arg ?s) = ?p"
    using h(8) assms(2) arg by (intro cd_plan_cong) simp_all
  obtain hh p2 where f: "length hh = 5"
    "?cd = framed (cd_take block cd 0xDF (b XOR k)) hh 1 0xDF p2 0xDF (b XOR k) False True"
    using cd_send_eq [OF h(1), of "0xDF" block "b XOR k"] by auto
  have tk: "cd_take block cd 0xDF (b XOR k) = (cd_apply ?p ?s)\<lparr>cd_state := CD_READY\<rparr>"
    using h assms(2) plan by (simp add: cd_take_def cd_argument_def cd_prepare_eq)
  have "cd_wf ?cd" using h(2) by (rule cd_send_wf)
  moreover have "cd_hears ?cd"
    unfolding f(2) by (rule cd_hears_framed [OF f(1)]) (simp add: tk)
  moreover have "cd_tx_bit (cd_apply ?p ?s) = t"
    using assms(3) cd_apply_cursor(1) [of ?p ?s] cd_apply_cursor(2) [of ?s ?p] h(9,10) is_pic_snoc
    by auto
  moreover have "cd_pic_ready (cd_apply ?p ?s) = is_pic ?p"
    using is_pic_snoc h(10) by (auto simp: cd_apply_cursor(3))
  moreover have "case plan_bytes ?p of
      None \<Rightarrow> cd_refuse (cd_apply ?p ?s) \<and> cd_tx_len (cd_apply ?p ?s) = 0
    | Some bs \<Rightarrow> \<not> cd_refuse (cd_apply ?p ?s) \<and> cd_tx_len (cd_apply ?p ?s) = length bs \<and>
        take (length bs) (cd_tx (cd_apply ?p ?s)) = map (\<lambda>x. x XOR k) bs"
    using h(4) by (intro cd_apply_serves) simp
  ultimately show ?thesis
    using h arg by (simp add: cd_holds_def f(2) tk cong: option.case_cong)
qed

section \<open>Opening a transaction\<close>

lemma cd_prev_simps [simp]:
  "cd_prev1 (cd_apply p cd) = cd_prev1 cd" "cd_prev2 (cd_apply p cd) = cd_prev2 cd"
  "cd_prev1 (cd_trailer block cd v) = cd_prev1 cd" "cd_prev2 (cd_trailer block cd v) = cd_prev2 cd"
  "cd_prev1 (snd (cd_assemble cd v)) = cd_prev1 cd" "cd_prev2 (snd (cd_assemble cd v)) = cd_prev2 cd"
  "cd_prev1 (cd_handshake cd v) = cd_prev1 cd" "cd_prev2 (cd_handshake cd v) = cd_prev2 cd"
  "cd_prev1 (fst (cd_clock cd v)) = cd_prev1 cd" "cd_prev2 (fst (cd_clock cd v)) = cd_prev2 cd"
  "cd_prev1 (cd_claim cd v r) = cd_prev1 cd" "cd_prev2 (cd_claim cd v r) = cd_prev2 cd"
proof -
  show ap: "cd_prev1 (cd_apply p x) = cd_prev1 x" "cd_prev2 (cd_apply p x) = cd_prev2 x" for p x
    by (cases p; simp add: put_tx_def)+
  show "cd_prev1 (cd_trailer block cd v) = cd_prev1 cd" "cd_prev2 (cd_trailer block cd v) = cd_prev2 cd"
    by (simp_all add: cd_trailer_def cd_prepare_eq ap Let_def)
qed (simp_all add: cd_assemble_def cd_handshake_def cd_clock_def cd_claim_def Let_def)

lemma cd_listen_prev [simp]:
  "cd_prev1 (cd_listen block cd v) = cd_prev1 cd" "cd_prev2 (cd_listen block cd v) = cd_prev2 cd"
proof -
  have as: "cd_assemble d v = (w, e) \<Longrightarrow> cd_prev1 e = cd_prev1 d \<and> cd_prev2 e = cd_prev2 d" for d e w
    by (metis cd_prev_simps(5,6) snd_conv)
  show "cd_prev1 (cd_listen block cd v) = cd_prev1 cd" "cd_prev2 (cd_listen block cd v) = cd_prev2 cd"
    by (auto simp: cd_listen_def Let_def dest!: as split: prod.split option.split)
qed

lemma cd_write_prev [simp]:
  "cd_prev1 (cd_write_data block cd v) = v"
  "cd_prev2 (cd_write_data block cd v) = cd_prev1 cd"
  by (simp_all add: cd_write_data_def cd_reset_def Let_def split: cd_phase.split)

text \<open>The pulse train resets the token from any state.\<close>

lemma host_pulse_eq:
  assumes "cd_wf cd"
  shows "\<exists>d. cd_wf d \<and> host_pulse block cd =
    (cd_reset (d\<lparr>cd_active := True\<rparr>))\<lparr>cd_prev2 := 0x7F, cd_prev1 := 0xBF, cd_last := 0xBF\<rparr>"
proof -
  let ?d = "cd_write_data block (cd_write_data block cd 0xBF) 0x7F"
  have "cd_wf ?d" using assms by (simp add: cd_write_data_wf)
  moreover have "cd_prev2 ?d = 0xBF" "cd_prev1 ?d = 0x7F" by simp_all
  then have "cd_write_data block ?d 0xBF =
      (cd_reset (?d\<lparr>cd_active := True\<rparr>))\<lparr>cd_prev2 := 0x7F, cd_prev1 := 0xBF, cd_last := 0xBF\<rparr>"
    by (subst cd_write_data_def) (simp add: cd_reset_def)
  ultimately show ?thesis by (auto simp: host_pulse_def)
qed

definition host_key :: "u8 \<Rightarrow> u8" where
  "host_key nonce = nonce XOR 0xD3"

definition host_open_cd :: "u8 list \<Rightarrow> cd \<Rightarrow> u8 \<Rightarrow> u8 \<Rightarrow> cd" where
  "host_open_cd block cd nonce c =
     cd_send block 0xD0 (cd_send block 0xDF (host_pulse block cd) nonce) (c XOR host_key nonce)"

definition host_query :: "u8 list \<Rightarrow> cd \<Rightarrow> u8 \<Rightarrow> u8 \<Rightarrow> u8 list \<Rightarrow> cd" where
  "host_query block cd nonce c args =
     foldl (\<lambda>d b. cd_send block 0xDF d (b XOR host_key nonce)) (host_open_cd block cd nonce c) args"

lemma host_open_cd_holds:
  assumes "cd_wf cd"
  shows "cd_holds block (host_open_cd block cd nonce c) (host_key nonce) c [] 0"
proof -
  obtain d where d: "cd_wf d" "host_pulse block cd =
      (cd_reset (d\<lparr>cd_active := True\<rparr>))\<lparr>cd_prev2 := 0x7F, cd_prev1 := 0xBF, cd_last := 0xBF\<rparr>"
    using host_pulse_eq [OF assms] by blast
  let ?c0 = "host_pulse block cd"
  have w0: "cd_wf ?c0" using d by (simp add: cd_reset_wf)
  have h0: "cd_hears ?c0" using d by (simp add: cd_hears_def cd_reset_def cd_wf_def)
  obtain h1 p1 where 1: "length h1 = 5"
    "cd_send block 0xDF ?c0 nonce = framed (?c0\<lparr>cd_nonce_raw := nonce\<rparr>) h1 1 0xDF p1 0xDF nonce False True"
    (is "_ = ?c1")
    using cd_send_eq [OF h0, of "0xDF" block nonce] by (auto simp: cd_take_def d(2) cd_reset_def)
  have h1: "cd_hears ?c1" using 1(1) h0 by (simp add: cd_hears_def)
  let ?b = "c XOR host_key nonce"
  let ?p = "cd_plan block c 0 []"
  let ?s = "?c1\<lparr>cd_key := host_key nonce, cd_cmd := c, cd_have_cmd := True, cd_pic_ready := False,
    cd_nargs := 0\<rparr>"
  obtain h2 p2 where 2: "length h2 = 5"
    "cd_send block 0xD0 ?c1 ?b = framed (cd_take block ?c1 0xD0 ?b) h2 1 0xD0 p2 0xD0 ?b False True"
    using cd_send_eq [OF h1, of "0xD0" block ?b] by auto
  have plan: "cd_plan block c 0 (cd_arg ?s) = ?p"
    by (rule cd_plan_cong) simp_all
  have k: "cd_nonce_raw ?c1 XOR 0xD3 = host_key nonce" "?b XOR host_key nonce = c"
    by (simp_all add: host_key_def)
  have tk: "cd_take block ?c1 0xD0 ?b = (cd_apply ?p ?s)\<lparr>cd_state := CD_READY\<rparr>"
    unfolding cd_take_def cd_command_def Let_def k cd_prepare_eq using plan by simp
  have np: "\<not> is_pic ?p"
    by (simp add: is_pic_def cd_plan_def plain_plan_def split: option.split)
  have eq: "host_open_cd block cd nonce c =
      framed ((cd_apply ?p ?s)\<lparr>cd_state := CD_READY\<rparr>) h2 1 0xD0 p2 0xD0 ?b False True"
    by (simp only: host_open_cd_def 1(2) 2(2) tk)
  have "cd_wf (host_open_cd block cd nonce c)"
    using w0 by (simp add: host_open_cd_def cd_send_wf)
  moreover have "cd_tx_bit (cd_apply ?p ?s) = 0"
    by (rule cd_apply_cursor(2)) (simp add: d(2) cd_reset_def)
  moreover have "case plan_bytes ?p of
      None \<Rightarrow> cd_refuse (cd_apply ?p ?s) \<and> cd_tx_len (cd_apply ?p ?s) = 0
    | Some bs \<Rightarrow> \<not> cd_refuse (cd_apply ?p ?s) \<and> cd_tx_len (cd_apply ?p ?s) = length bs \<and>
        take (length bs) (cd_tx (cd_apply ?p ?s)) = map (\<lambda>x. x XOR host_key nonce) bs"
    by (intro cd_apply_serves) simp
  moreover have "cd_hears (host_open_cd block cd nonce c)"
    unfolding eq by (rule cd_hears_framed [OF 2(1)]) simp
  ultimately show ?thesis
    using np by (simp add: cd_holds_def eq cd_apply_cursor(3) cong: option.case_cong)
qed

lemma host_query_holds:
  assumes "cd_wf cd" "length args \<le> 12"
  shows "cd_holds block (host_query block cd nonce c args) (host_key nonce) c args 0"
  using assms(2)
proof (induction args rule: rev_induct)
  case Nil
  show ?case using host_open_cd_holds [OF assms(1)] by (simp add: host_query_def)
next
  case (snoc b args)
  then have "cd_holds block (host_query block cd nonce c args) (host_key nonce) c args 0"
    by simp
  from cd_send_argument [OF this, of b] snoc.prems show ?case
    by (simp add: host_query_def)
qed

end
