(* ===== verification/CDongle_Host.thy ===== *)
theory CDongle_Host
  imports CDongle_Query
begin

text \<open>
  What the guest's library gets out of the CDONGLE: reading replies byte by
  byte, the interleaved picture query, and the properties of the 2000 token.
\<close>

unbundle bit_operations_syntax

section \<open>Reading replies\<close>

fun host_read_bytes :: "u8 list \<Rightarrow> nat \<Rightarrow> cd \<Rightarrow> (u8 list \<times> cd) option" where
  "host_read_bytes block 0 cd = Some ([], cd)"
| "host_read_bytes block (Suc n) cd =
     (case host_read_byte block cd of
        None \<Rightarrow> None
      | Some (x, d) \<Rightarrow> map_option (\<lambda>r. (x # fst r, snd r)) (host_read_bytes block n d))"

definition host_ask :: "u8 list \<Rightarrow> cd \<Rightarrow> u8 \<Rightarrow> u8 \<Rightarrow> u8 list \<Rightarrow> nat \<Rightarrow> u8 list option" where
  "host_ask block cd nonce c args n =
     map_option (\<lambda>r. map (\<lambda>x. x XOR host_key nonce) (fst r))
       (host_read_bytes block n (host_query block cd nonce c args))"

lemma host_read_byte_eq:
  assumes "cd_holds block cd k c args (8 * i)"
    "plan_bytes (cd_plan block c (length args) args) = Some bs" "i < length bs"
  shows "\<exists>d. host_read_byte block cd = Some (bs ! i XOR k, d) \<and>
    (Suc i < length bs \<longrightarrow> cd_holds block d k c args (8 * Suc i))"
proof -
  have h: "cd_wf cd" "cd_hears cd" "cd_state cd = CD_READY" "cd_claimable cd" "cd_prev1 cd \<noteq> 0x7F"
    "\<not> cd_refuse cd" "cd_tx_len cd = length bs" "take (length bs) (cd_tx cd) = map (\<lambda>x. x XOR k) bs"
    "cd_tx_bit cd = 8 * i"
    using assms(1,2) by (auto simp: cd_holds_def)
  obtain hh n p1 p2 l where c: "length hh = 5" "n \<le> 5" "p1 \<noteq> 0x7F" "host_claim block cd =
    Some (cd\<lparr>cd_state := CD_HS, cd_hist := hh, cd_nhist := n, cd_prev1 := p1, cd_prev2 := p2, cd_last := l,
             cd_claimable := False, cd_attn := 8\<rparr>)" (is "_ = Some ?c")
    using host_claim_eq [OF h(2-6), of block] by blast
  have b: "host_bits block 8 ?c = (map (tx_bit_at ?c) [cd_tx_bit ?c ..< cd_tx_bit ?c + 8],
      stream_next (?c\<lparr>cd_state := CD_STREAM, cd_tx_bit := cd_tx_bit ?c + 8 - 1\<rparr>))"
    by (rule host_bits_eq) (use c(3) h assms(3) in auto)
  let ?e = "stream_next (?c\<lparr>cd_state := CD_STREAM, cd_tx_bit := cd_tx_bit ?c + 8 - 1\<rparr>)"
  have "cd_tx ?c ! i = bs ! i XOR k"
  proof -
    have "take (length bs) (cd_tx cd) ! i = bs ! i XOR k"
      using assms(3) by (simp add: h(8))
    with assms(3) show ?thesis by simp
  qed
  from byte_from_stream [OF this]
  have r: "host_read_byte block cd = Some (bs ! i XOR k, cd_write_data block ?e 0xBF)"
    using h(9) by (simp add: host_read_byte_def c(4) b)
  moreover have "cd_holds block (cd_write_data block ?e 0xBF) k c args (8 * Suc i)" if "Suc i < length bs"
  proof -
    let ?d = "?c\<lparr>cd_state := CD_READY, cd_tx_bit := 8 * Suc i, cd_prev2 := 0xFF, cd_prev1 := 0xBF,
      cd_last := 0xBF, cd_claimable := True, cd_attn := 0\<rparr>"
    have "8 * i + 8 < length bs * 8" using that by simp
    then have e: "?e = ?c\<lparr>cd_state := CD_STREAM, cd_tx_bit := 8 * Suc i, cd_prev2 := 0xCF, cd_prev1 := 0xFF,
        cd_last := 0xFF, cd_claimable := False\<rparr>"
      using h(7,9) by (simp add: stream_next_def Let_def)
    have "cd_write_data block ?e 0xBF = ?d"
      unfolding e using h(7) that by (simp add: cd_write_data_def cd_clock_def cd_claim_def)
    moreover have "cd_holds block ?d k c args (8 * Suc i)"
      using assms(1,2) c(1,2) by (simp add: cd_holds_def cd_hears_def cd_wf_def)
    ultimately show ?thesis by simp
  qed
  ultimately show ?thesis by blast
qed

lemma host_read_bytes_eq:
  assumes "cd_holds block cd k c args (8 * i)"
    "plan_bytes (cd_plan block c (length args) args) = Some bs" "i + n \<le> length bs"
  shows "map_option fst (host_read_bytes block n cd) = Some (map (\<lambda>x. x XOR k) (take n (drop i bs)))"
  using assms(1,3)
proof (induction n arbitrary: cd i)
  case 0
  then show ?case by simp
next
  case (Suc n)
  then have i: "i < length bs" by simp
  obtain d where d: "host_read_byte block cd = Some (bs ! i XOR k, d)"
    "Suc i < length bs \<longrightarrow> cd_holds block d k c args (8 * Suc i)"
    using host_read_byte_eq [OF Suc.prems(1) assms(2) i] by blast
  have t: "take (Suc n) (drop i bs) = bs ! i # take n (drop (Suc i) bs)"
    using i by (metis Cons_nth_drop_Suc take_Suc_Cons)
  show ?case
  proof (cases "Suc i < length bs")
    case True
    with d Suc.IH [of d "Suc i"] Suc.prems show ?thesis
      by (auto simp: t)
  next
    case False
    then have "n = 0" using Suc.prems by simp
    with t show ?thesis by (simp add: d(1))
  qed
qed

lemma host_claim_refused:
  assumes "cd_holds block cd k c args t" "plan_bytes (cd_plan block c (length args) args) = None"
  shows "host_read_byte block cd = None"
proof -
  have h: "cd_hears cd" "cd_state cd = CD_READY" "cd_claimable cd" "cd_prev1 cd \<noteq> 0x7F" "cd_refuse cd"
    using assms by (auto simp: cd_holds_def)
  let ?d = "cd\<lparr>cd_prev2 := cd_prev1 cd, cd_prev1 := 0xCF, cd_last := 0xCF, cd_claimable := True\<rparr>"
  have w: "cd_write_data block cd 0xCF = cd_claim (cd_listen block ?d 0xCF) 0xCF False"
    by (rule cd_write_hearing) (use h in \<open>auto simp: cd_hears_def intro: cd.equality\<close>)
  have "length (cd_hist ?d) = 5" "cd_nhist ?d \<le> 5" "(0xCF :: u8) AND 0xF0 \<noteq> 0x80"
    using h(1) by (simp_all add: cd_hears_def)
  from cd_assemble_none [OF this] obtain hh n where
    "cd_assemble ?d 0xCF = (None, ?d\<lparr>cd_hist := hh, cd_nhist := n\<rparr>)"
    by blast
  then have "cd_write_data block cd 0xCF =
      ?d\<lparr>cd_hist := hh, cd_nhist := n, cd_state := CD_ARMED, cd_claimable := False\<rparr>"
    using h(1,2) unfolding w by (simp add: cd_listen_def cd_claim_def cd_hears_def Let_def)
  then show ?thesis
    using h by (simp add: host_read_byte_def host_claim_def cd_ack_def)
qed

text \<open>The wire implements \<open>cd_plan\<close>.\<close>

lemma host_ask_plan:
  assumes "cd_wf cd" "length args \<le> 12" "0 < n"
    "\<And>bs. plan_bytes (cd_plan block c (length args) args) = Some bs \<Longrightarrow> n \<le> length bs"
  shows "host_ask block cd nonce c args n =
    map_option (take n) (plan_bytes (cd_plan block c (length args) args))"
proof (cases "plan_bytes (cd_plan block c (length args) args)")
  case None
  from host_claim_refused [OF host_query_holds [OF assms(1,2)] None] assms(3)
  have "host_read_bytes block n (host_query block cd nonce c args) = None"
    by (cases n) simp_all
  then show ?thesis by (simp add: host_ask_def None)
next
  case (Some bs')
  note holds = host_query_holds [OF assms(1,2), of block nonce c]
  have "map_option fst (host_read_bytes block n (host_query block cd nonce c args)) =
      Some (map (\<lambda>x. x XOR host_key nonce) (take n (drop 0 bs')))"
    by (rule host_read_bytes_eq [where c = c and args = args]) (use holds Some assms(4) in auto)
  then obtain r where "host_read_bytes block n (host_query block cd nonce c args) = Some r"
    "fst r = map (\<lambda>x. x XOR host_key nonce) (take n bs')"
    by auto
  then show ?thesis by (simp add: host_ask_def Some comp_def)
qed

section \<open>The state the token starts in\<close>

definition cd_init :: cd where
  "cd_init =
     \<lparr>cd_active = False, cd_state = CD_IDLE, cd_hist = replicate 5 0, cd_nhist = 0, cd_prev1 = 0,
      cd_prev2 = 0, cd_last = 0, cd_key = 0, cd_cmd = 0, cd_have_cmd = False, cd_arg = replicate 12 0,
      cd_nargs = 0, cd_pending = 0, cd_await_trailer = False, cd_claimable = False, cd_nonce_raw = 0,
      cd_tx = replicate 48 0, cd_tx_len = 0, cd_tx_bit = 0, cd_attn = 0, cd_pic_ready = False,
      cd_refuse = False\<rparr>"

lemma cd_init_wf [wf_intros]: "cd_wf cd_init"
  by (simp add: cd_init_def cd_wf_def cd_consts)

section \<open>The queries the games make\<close>

lemma answers_length: "(c, a, r) \<in> set cd_answers \<Longrightarrow> length a = 3 \<and> length r = 2"
  by (auto simp: cd_answers_def)

lemma answers_command: "(c, a, r) \<in> set cd_answers \<Longrightarrow> c \<noteq> 0xAA \<and> c \<noteq> 0xAB"
  by (auto simp: cd_answers_def)

lemma answers_lookup: "(c, a, r) \<in> set cd_answers \<Longrightarrow> answer_lookup cd_answers c a = Some r"
  unfolding cd_answers_def list.set insert_iff empty_iff prod.inject
  by (elim disjE conjE) simp_all

lemma answers_plan: "(c, a, r) \<in> set cd_answers \<Longrightarrow> cd_plan block c (length a) a = Serve r"
  using answers_length [of c a r] answers_command [of c a r] answers_lookup [of c a r]
  by (simp add: cd_plan_def plain_plan_def)

lemma answer_lookup_None:
  "\<forall>r. (c, a, r) \<notin> set as \<Longrightarrow> answer_lookup as c a = None"
  by (induction as c a rule: answer_lookup.induct) auto

text \<open>
  C2. The licence query end to end.  From any well-formed state of the token and
  under any nonce, each challenge of the answer table, sent as pulse train,
  nonce, command and three scrambled arguments and read back through the claim,
  the attention handshake and sixteen clocked bits, descrambles to the table's
  reply, which is what the games compare with (0x4693 for A0).
\<close>

theorem licence_query_answered:
  assumes "cd_wf cd" "(c, a, r) \<in> set cd_answers"
  shows "host_ask block cd nonce c a 2 = Some r"
  using host_ask_plan [OF assms(1), of a 2 block c nonce] answers_plan [OF assms(2), of block]
    answers_length [OF assms(2)]
  by simp

theorem licence_query_answered_witness:
  "host_ask (replicate 62 0) cd_init 0x35 0xA0 [0x86, 0x2E, 0xD0] 2 = Some [0x93, 0x46]"
  by (rule licence_query_answered) (simp_all add: cd_init_wf cd_answers_def)

text \<open>
  The token refuses every other challenge.  For commands A0 to A7, three
  arguments that are not in the answer table never get a byte: ACK stays up after
  the host's claim, in every well-formed state, under every nonce.
\<close>

lemma other_challenges_refused:
  assumes "cd_wf cd" "0xA0 \<le> c" "c \<le> 0xA7" "length a = 3" "\<forall>r. (c, a, r) \<notin> set cd_answers"
  shows "host_ask block cd nonce c a (Suc n) = None"
proof -
  have "c \<noteq> 0xAA" "c \<noteq> 0xAB" using assms(3) by auto
  then have "cd_plan block c (length a) a = Refuse"
    using assms(2-4) answer_lookup_None [OF assms(5)] by (simp add: cd_plan_def plain_plan_def)
  then show ?thesis
    using host_ask_plan [OF assms(1), of a "Suc n" block c nonce] assms(4) by simp
qed

text \<open>
  The record read serves the 48-byte record and nothing else.  Command AD
  with A6 8C 0D, an offset, a length and three more bytes gives the first
  \<open>len\<close> bytes of the block when the offset is 0 and 0 < len <= 48; any other
  offset or length is refused, so no other byte of the block leaves the token.
\<close>

theorem record_read:
  assumes "cd_wf cd" "length block = 62"
  shows "host_ask block cd nonce 0xAD [0xA6, 0x8C, 0x0D, off, len, x, y, z] (max 1 (unat len)) =
    (if off = 0 \<and> 0 < len \<and> len \<le> 48 then Some (take (unat len) block) else None)"
proof -
  have le: "len \<le> 48 \<longleftrightarrow> unat len \<le> 48" "0 < len \<longleftrightarrow> len \<noteq> 0"
    by (simp_all add: word_le_nat_alt word_neq_0_conv)
  let ?a = "[0xA6, 0x8C, 0x0D, off, len, x, y, z]"
  have p: "plan_bytes (cd_plan block 0xAD (length ?a) ?a) =
      (if off = 0 \<and> 0 < len \<and> len \<le> 48 then Some (take (unat len) block) else None)"
    by (simp add: cd_plan_def plain_plan_def cd_answers_def CD_RECORD_def le not_less)
  have m: "max 1 (unat len) = unat len" if "len \<noteq> 0"
    using that by (simp add: max_def unat_eq_0 Suc_le_eq unat_gt_0)
  have ask: "host_ask block cd nonce 0xAD ?a (max 1 (unat len)) =
      map_option (take (max 1 (unat len))) (plan_bytes (cd_plan block 0xAD (length ?a) ?a))"
  proof (rule host_ask_plan [OF assms(1)])
    fix bs
    assume "plan_bytes (cd_plan block 0xAD (length ?a) ?a) = Some bs"
    then show "max 1 (unat len) \<le> length bs"
      unfolding p using assms(2) m by (auto simp: le split: if_splits)
  qed simp_all
  show ?thesis
    unfolding ask p using m by (auto simp: le)
qed

theorem record_read_witness:
  "host_ask (replicate 62 7) cd_init 0x35 0xAD [0xA6, 0x8C, 0x0D, 0, 48, 1, 2, 3] (max 1 (unat (48 :: u8))) =
     Some (take (unat (48 :: u8)) (replicate 62 7))"
  by (subst record_read) (simp_all add: cd_init_wf)

section \<open>The picture query\<close>

text \<open>
  The library sends the four header bytes, then for each byte of the name sends
  it and reads one byte back, fetches a ninth, and merges the nibbles.
\<close>

fun host_name :: "u8 list \<Rightarrow> u8 \<Rightarrow> cd \<Rightarrow> u8 list \<Rightarrow> (u8 list \<times> cd) option" where
  "host_name block k cd [] = Some ([], cd)"
| "host_name block k cd (b # bs) =
     (case host_read_byte block (cd_send block 0xDF cd (b XOR k)) of
        None \<Rightarrow> None
      | Some (x, d) \<Rightarrow> map_option (\<lambda>r. ((x XOR k) # fst r, snd r)) (host_name block k d bs))"

definition host_merge :: "u8 list \<Rightarrow> u8 list" where
  "host_merge recv = map (\<lambda>i. (recv ! Suc i AND 0xF0) OR (recv ! i AND 0x0F)) [0..<8]"

definition host_picture ::
    "u8 list \<Rightarrow> cd \<Rightarrow> u8 \<Rightarrow> u8 \<Rightarrow> u8 \<Rightarrow> u8 \<Rightarrow> u8 list \<Rightarrow> u8 list option" where
  "host_picture block cd nonce c lo hi name =
     (case host_name block (host_key nonce) (host_query block cd nonce c [8, 0, lo, hi]) name of
        None \<Rightarrow> None
      | Some (xs, d) \<Rightarrow>
          map_option (\<lambda>r. host_merge (xs @ [fst r XOR host_key nonce])) (host_read_byte block d))"

lemma all_nat_8: "i < (8::nat) \<Longrightarrow> i = 0 \<or> i = 1 \<or> i = 2 \<or> i = 3 \<or> i = 4 \<or> i = 5 \<or> i = 6 \<or> i = 7"
  by arith

lemma pic_wire_nth:
  "pic_wire r ! 0 = r ! 0 AND 0x0F"
  "i < 7 \<Longrightarrow> pic_wire r ! Suc i = (r ! i AND 0xF0) OR (r ! Suc i AND 0x0F)"
  "pic_wire r ! 8 = r ! 7 AND 0xF0"
  by (simp_all add: pic_wire_def nth_append)

lemma pic_wire_prefix:
  assumes "i < 8" "\<And>j. j \<le> i \<Longrightarrow> r ! j = s ! j"
  shows "pic_wire r ! i = pic_wire s ! i"
proof (cases i)
  case 0
  then show ?thesis using assms(2) [of 0] by (simp add: pic_wire_nth)
next
  case (Suc j)
  then show ?thesis
    using assms(1) assms(2) [of j] assms(2) [of i] by (simp add: pic_wire_nth)
qed

lemma merge_nibbles:
  fixes a b c :: u8
  shows "(((a AND 0xF0) OR (b AND 0x0F)) AND 0xF0) OR (((c AND 0xF0) OR (a AND 0x0F)) AND 0x0F) = a"
    and "((a AND 0xF0) AND 0xF0) OR (((c AND 0xF0) OR (a AND 0x0F)) AND 0x0F) = a"
    and "(((a AND 0xF0) OR (b AND 0x0F)) AND 0xF0) OR ((a AND 0x0F) AND 0x0F) = a"
  by (rule byte_eqI; simp add: bit_simps)+

text \<open>The guest's nibble merge undoes the shift the token puts on the wire.\<close>

lemma host_merge_wire: "length r = 8 \<Longrightarrow> host_merge (pic_wire r) = r"
proof (rule nth_equalityI)
  fix i
  assume r: "length r = 8" and "i < length (host_merge (pic_wire r))"
  then have i: "i < 8" by (simp add: host_merge_def)
  then have m: "host_merge (pic_wire r) ! i =
      (pic_wire r ! Suc i AND 0xF0) OR (pic_wire r ! i AND 0x0F)"
    by (simp add: host_merge_def)
  consider "i = 0" | j where "i = Suc j" "j < 6" | "i = 7"
    using i by (cases i) (auto simp: less_Suc_eq numeral_eq_Suc)
  then show "host_merge (pic_wire r) ! i = r ! i"
  proof cases
    case 1
    then have "pic_wire r ! Suc i = (r ! 0 AND 0xF0) OR (r ! 1 AND 0x0F)" "pic_wire r ! i = r ! 0 AND 0x0F"
      using pic_wire_nth(1) [of r] pic_wire_nth(2) [of 0 r] by simp_all
    then have "host_merge (pic_wire r) ! i = r ! 0" by (simp only: m merge_nibbles)
    with 1 show ?thesis by simp
  next
    case 2
    then have "pic_wire r ! Suc i = (r ! Suc j AND 0xF0) OR (r ! Suc (Suc j) AND 0x0F)"
      "pic_wire r ! i = (r ! j AND 0xF0) OR (r ! Suc j AND 0x0F)"
      using pic_wire_nth(2) [of j r] pic_wire_nth(2) [of "Suc j" r] by simp_all
    then have "host_merge (pic_wire r) ! i = r ! (Suc j)" by (simp only: m merge_nibbles)
    with 2 show ?thesis by simp
  next
    case 3
    then have "pic_wire r ! Suc i = r ! 7 AND 0xF0" "pic_wire r ! i = (r ! 6 AND 0xF0) OR (r ! 7 AND 0x0F)"
      using pic_wire_nth(2) [of 6 r] pic_wire_nth(3) [of r] by simp_all
    then have "host_merge (pic_wire r) ! i = r ! 7" by (simp only: m merge_nibbles)
    with 3 show ?thesis by simp
  qed
qed (simp add: host_merge_def)


lemma pic_plan:
  assumes "pic_case c (ucast lo OR push_bit 8 (ucast hi)) = Some w"
  shows "cd_plan block c (4 + n) ([8, 0, lo, hi] @ xs) =
    PicServe (pic_wire (pic_reply w (pic_name (4 + n) ([8, 0, lo, hi] @ xs))))"
proof -
  have "c = 0xAA \<or> c = 0xAB"
    using assms by (auto simp: pic_case_def split: if_splits)
  then show ?thesis using assms by (simp add: cd_plan_def)
qed

lemma pic_name_prefix:
  "j < n \<Longrightarrow> n \<le> 8 \<Longrightarrow> n \<le> length name \<Longrightarrow> pic_name (4 + n) ([8, 0, lo, hi] @ take n name) ! j = name ! j"
  by (simp add: pic_name_def)

text \<open>Byte \<open>i\<close> of the reply is right as soon as \<open>name[0..i]\<close> has arrived.\<close>

lemma pic_stream_byte:
  assumes "i < 8" "length name = 8"
  shows "pic_wire (pic_reply w (pic_name (4 + Suc i) ([8, 0, lo, hi] @ take (Suc i) name))) ! i =
    pic_wire (pic_reply w name) ! i"
proof (rule pic_wire_prefix [OF assms(1)])
  fix j
  assume "j \<le> i"
  then show "pic_reply w (pic_name (4 + Suc i) ([8, 0, lo, hi] @ take (Suc i) name)) ! j =
      pic_reply w name ! j"
    using pic_name_prefix [of j "Suc i" name lo hi] assms by (simp add: pic_reply_def)
qed

lemma host_name_eq:
  assumes "pic_case c (ucast lo OR push_bit 8 (ucast hi)) = Some w" "length name = 8" "i \<le> 8"
    "cd_holds block cd k c ([8, 0, lo, hi] @ take i name) (8 * i)"
  shows "\<exists>d. host_name block k cd (drop i name) = Some (take (8 - i) (drop i (pic_wire (pic_reply w name))), d)
    \<and> cd_holds block d k c ([8, 0, lo, hi] @ name) 64"
  using assms(3,4)
proof (induction "8 - i" arbitrary: i cd)
  case 0
  then show ?case using assms(2) by simp
next
  case (Suc m)
  let ?h = "[8, 0, lo, hi]" and ?w = "pic_wire (pic_reply w name)"
  have i: "i < 8" using Suc.hyps(2) by simp
  have dr: "drop i name = name ! i # drop (Suc i) name"
    using i assms(2) by (intro Cons_nth_drop_Suc [symmetric]) simp
  have tk: "take (Suc i) name = take i name @ [name ! i]"
    using i assms(2) by (simp add: take_Suc_conv_app_nth)
  let ?a = "?h @ take (Suc i) name"
  let ?s = "cd_send block 0xDF cd (name ! i XOR k)"
  have len: "length (?h @ take i name) = 4 + i" "length ?a = 4 + Suc i"
    using i assms(2) by simp_all
  have "is_pic (cd_plan block c (length (?h @ take i name)) (?h @ take i name))"
    unfolding len pic_plan [OF assms(1)] by (simp add: is_pic_def)
  then have "cd_holds block ?s k c ((?h @ take i name) @ [name ! i]) (8 * i)"
    using Suc.prems(2) len i by (intro cd_send_argument) simp_all
  then have holds: "cd_holds block ?s k c ?a (8 * i)"
    by (simp only: tk append_assoc)
  let ?bs = "pic_wire (pic_reply w (pic_name (4 + Suc i) ?a))"
  have plan: "plan_bytes (cd_plan block c (length ?a) ?a) = Some ?bs"
    unfolding len pic_plan [OF assms(1)] by simp
  obtain d where d: "host_read_byte block ?s = Some (?bs ! i XOR k, d)"
    "cd_holds block d k c ?a (8 * Suc i)"
    using host_read_byte_eq [OF holds plan] i by auto
  have b: "?bs ! i = ?w ! i" by (rule pic_stream_byte [OF i assms(2)])
  have "m = 8 - Suc i" "Suc i \<le> 8" using Suc.hyps(2) i by simp_all
  from Suc.hyps(1) [OF this d(2)] obtain e where e:
    "host_name block k d (drop (Suc i) name) = Some (take (8 - Suc i) (drop (Suc i) ?w), e)"
    "cd_holds block e k c (?h @ name) 64"
    by blast
  have "take (8 - i) (drop i ?w) = ?w ! i # take (8 - Suc i) (drop (Suc i) ?w)"
    using i by (subst Cons_nth_drop_Suc [symmetric]) (simp_all add: take_Cons')
  then have "host_name block k cd (drop i name) = Some (take (8 - i) (drop i ?w), e)"
    by (simp only: dr host_name.simps d(1) e(1) option.case prod.case fst_conv snd_conv
        option.map xor_cancel_right b)
  with e(2) show ?case by blast
qed

lemma host_picture_eq:
  assumes "cd_wf cd" "pic_case c (ucast lo OR push_bit 8 (ucast hi)) = Some w" "length name = 8"
  shows "host_picture block cd nonce c lo hi name = Some (pic_reply w name)"
proof -
  let ?k = "host_key nonce" and ?w = "pic_wire (pic_reply w name)" and ?h = "[8, 0, lo, hi]"
  have "cd_holds block (host_query block cd nonce c ?h) ?k c (?h @ take 0 name) (8 * 0)"
    using host_query_holds [OF assms(1), of ?h] by simp
  from host_name_eq [OF assms(2,3) _ this] obtain d where d:
    "host_name block ?k (host_query block cd nonce c ?h) name = Some (take 8 ?w, d)"
    "cd_holds block d ?k c (?h @ name) (8 * 8)"
    by auto
  have nm: "pic_name (4 + 8) (?h @ name) = name"
    by (rule nth_equalityI) (use assms(3) pic_name_prefix [of _ 8 name lo hi] in \<open>auto simp: pic_name_def\<close>)
  have plan: "plan_bytes (cd_plan block c (length (?h @ name)) (?h @ name)) = Some ?w"
    using pic_plan [OF assms(2), of block 8 name] assms(3) nm by simp
  obtain e where e: "host_read_byte block d = Some (?w ! 8 XOR ?k, e)"
    using host_read_byte_eq [OF d(2) plan] by auto
  have "take 8 ?w @ [?w ! 8] = ?w"
    using take_Suc_conv_app_nth [of 8 ?w] by simp
  then show ?thesis
    by (simp add: host_picture_def d(1) e host_merge_wire pic_reply_def)
qed

lemma pic_reply_table:
  assumes "w < 4"
  shows "pic_reply w name = map (\<lambda>j. cd_pic_s ! w ! j ! unat (name ! j)) [0..<8]"
  unfolding pic_reply_def by (rule map_cong [OF refl]) (simp add: cd_pic_s_law [OF assms])

text \<open>
  The picture-key query end to end.  For each of the four command and
  constant pairs the games use, every 8-byte name and every nonce, from any
  well-formed state: the library's interleaved exchange (header, then push one
  name byte and read one reply byte, then a ninth byte) merges to the measured
  table's byte for each position, although every reply byte goes out before the
  rest of the name is known.
\<close>

theorem picture_query_answered:
  assumes "cd_wf cd" "pic_case c (ucast lo OR push_bit 8 (ucast hi)) = Some w" "length name = 8"
  shows "host_picture block cd nonce c lo hi name =
    Some (map (\<lambda>j. cd_pic_s ! w ! j ! unat (name ! j)) [0..<8])"
  using host_picture_eq [OF assms] pic_case_less [OF assms(2)] by (simp only: pic_reply_table)

theorem picture_query_answered_witness:
  "host_picture (replicate 62 0) cd_init 0x35 0xAA 0x8B 0x03 (replicate 8 0x20) =
     Some (map (\<lambda>j. cd_pic_s ! 0 ! j ! unat (replicate 8 (0x20 :: u8) ! j)) [0..<8])"
  by (rule picture_query_answered) (simp_all add: cd_init_wf pic_case_def cd_consts)

text \<open>Splitting a byte between its nibbles, through the rotation.\<close>

definition pic_hi :: "nat \<times> u8 \<Rightarrow> u8 \<Rightarrow> u8" where
  "pic_hi l h = (word_rotl (fst l) (push_bit 4 h) XOR snd l) AND word_rotl (fst l) 0xF0"

definition pic_lo :: "nat \<times> u8 \<Rightarrow> u8 \<Rightarrow> u8" where
  "pic_lo l x = (word_rotl (fst l) x XOR snd l) AND NOT (word_rotl (fst l) 0xF0)"

lemma pic_rot_separable: "pic_rot l ch = pic_hi l (hi_nib ch) + pic_lo l (lo_nib ch)"
proof -
  let ?m = "word_rotl (fst l) (0xF0 :: u8)" and ?x = "word_rotl (fst l) ch"
  have n: "push_bit 4 (hi_nib ch) = ch AND 0xF0" "lo_nib ch = ch AND NOT 0xF0"
    by (rule byte_eqI; simp add: hi_nib_def lo_nib_def bit_simps)+
  have "?x AND ?m = word_rotl (fst l) (ch AND 0xF0)"
    "?x AND NOT ?m = word_rotl (fst l) (ch AND NOT 0xF0)"
    by (simp_all only: word_rot_logs)
  then have h: "pic_hi l (hi_nib ch) = (?x XOR snd l) AND ?m"
    and lo: "pic_lo l (lo_nib ch) = (?x XOR snd l) AND NOT ?m"
    by (simp_all only: pic_hi_def pic_lo_def n)
      (rule bit_word_eqI; auto simp: bit_simps)+
  have "((?x XOR snd l) AND ?m) + ((?x XOR snd l) AND NOT ?m) =
      ((?x XOR snd l) AND ?m) OR ((?x XOR snd l) AND NOT ?m)"
    by (rule disjunctive_add_eq_or) (rule bit_word_eqI; simp add: bit_simps)
  also have "\<dots> = ?x XOR snd l"
    by (rule bit_word_eqI) (auto simp: bit_simps)
  finally show ?thesis by (simp add: h lo pic_rot_def)
qed

text \<open>
  C3. The table has a law.  Position \<open>j\<close> of case \<open>w\<close> answers character \<open>ch\<close> with
  a fixed rotation of \<open>ch\<close> under a fixed mask: all 8192 measured bytes follow from
  32 pairs.  So every position is a bijection on bytes, and it is separable in the
  nibbles of the character with a sum mod 256, as the comment above the table says.
\<close>

theorem picture_table_is_rotation:
  assumes "w < 4" "j < 8"
  shows "cd_pic_s ! w ! j ! unat ch = word_rotl (fst (pic_law ! w ! j)) ch XOR snd (pic_law ! w ! j)
    \<and> (cd_pic_s ! w ! j ! unat ch = cd_pic_s ! w ! j ! unat ch' \<longleftrightarrow> ch = ch')
    \<and> cd_pic_s ! w ! j ! unat ch = pic_hi (pic_law ! w ! j) (hi_nib ch) + pic_lo (pic_law ! w ! j) (lo_nib ch)"
proof -
  let ?l = "pic_law ! w ! j"
  have s: "cd_pic_s ! w ! j ! unat x = pic_rot ?l x" for x
    by (rule cd_pic_s_law [OF assms])
  show ?thesis
    unfolding s using pic_rot_inj [of ?l ch ch'] pic_rot_separable [of ?l ch]
    by (intro conjI) (simp_all only: pic_rot_def)
qed

theorem picture_table_is_rotation_witness:
  "cd_pic_s ! 0 ! 0 ! unat (0x41 :: u8) = 0x7A"
proof -
  have "word_rotl 1 (0x41 :: u8) XOR 0xF8 = 0x7A" by code_simp
  then show ?thesis
    using picture_table_is_rotation [of 0 0 "0x41" "0x41"] by (simp add: pic_law_def)
qed

end
