(* ===== verification/Microwire.thy ===== *)
theory Microwire
  imports Prelude
begin

text \<open>
  The 2001 generation's HDONGLE as a part: \<open>hd_write_data\<close> of
  \<open>src/src/device/dongle_photoplay.c\<close>, a Microwire EEPROM of 64 sixteen-bit words
  on DATA bits 1 (CS), 5 (SK) and 6 (DI), answering on STATUS bit 5 (DO).  The
  record \<open>hd\<close> holds the \<open>hd_*\<close> fields of \<open>pp_t\<close>.  The second half is the host's
  side, the three small routines the guest's library builds its frames from.
\<close>

unbundle bit_operations_syntax

section \<open>State\<close>

definition HD_WORDS :: nat where "HD_WORDS = 64"
definition HD_ABITS :: nat where "HD_ABITS = 6"
definition HD_CS :: u8 where "HD_CS = 0x02"
definition HD_SK :: u8 where "HD_SK = 0x20"
definition HD_DI :: u8 where "HD_DI = 0x40"
definition HD_DO :: u8 where "HD_DO = 0x20"

lemmas hd_consts = HD_WORDS_def HD_ABITS_def HD_CS_def HD_SK_def HD_DI_def HD_DO_def

datatype hd_phase = HD_IDLE | HD_OP | HD_ADDR | HD_READ | HD_WRITE | HD_DONE

record hd =
  hd_sk :: bool
  hd_ph :: hd_phase
  hd_n :: nat
  hd_op :: nat
  hd_addr :: u8
  hd_abits :: nat
  hd_sr :: u16
  hd_do :: bool
  hd_wen :: bool
  hd_ready :: bool
  hd_mem :: "u16 list"

section \<open>Operations\<close>

text \<open>The instruction is complete: the address is wrapped into the part and the opcode acted on.\<close>

definition hd_execute :: "hd \<Rightarrow> hd" where
  "hd_execute dv0 =
     (let dv = dv0\<lparr>hd_n := 0, hd_addr := hd_addr dv0 AND 0x3F\<rparr>
      in if hd_op dv = 2 then
           dv\<lparr>hd_sr := hd_mem dv ! unat (hd_addr dv), hd_ph := HD_READ\<rparr>
         else if hd_op dv = 1 then dv\<lparr>hd_sr := 0, hd_ph := HD_WRITE\<rparr>
         else if hd_op dv = 3 then
           (if hd_wen dv then dv\<lparr>hd_mem := (hd_mem dv)[unat (hd_addr dv) := 0xFFFF]\<rparr> else dv)
             \<lparr>hd_ready := True, hd_ph := HD_DONE\<rparr>
         else dv\<lparr>hd_wen := drop_bit (hd_abits dv - 2) (hd_addr dv) = 3, hd_ph := HD_DONE\<rparr>)"

text \<open>The rising edge of SK with CS high; \<open>dat\<close> is DI.\<close>

definition hd_edge :: "hd \<Rightarrow> bool \<Rightarrow> hd" where
  "hd_edge dv dat =
     (case hd_ph dv of
        HD_IDLE \<Rightarrow>
          (if dat then dv\<lparr>hd_ph := HD_OP, hd_n := 0, hd_op := 0, hd_ready := False\<rparr> else dv)
      | HD_OP \<Rightarrow>
          (let dv = dv\<lparr>hd_op := 2 * hd_op dv + of_bool dat, hd_n := Suc (hd_n dv)\<rparr>
           in if hd_n dv = 2 then dv\<lparr>hd_ph := HD_ADDR, hd_n := 0, hd_addr := 0\<rparr> else dv)
      | HD_ADDR \<Rightarrow>
          (let dv = dv\<lparr>hd_addr := push_bit 1 (hd_addr dv) OR of_bool dat, hd_n := Suc (hd_n dv)\<rparr>
           in if hd_n dv = hd_abits dv then hd_execute dv else dv)
      | HD_READ \<Rightarrow>
          (let dv = (if hd_n dv < 16 then dv\<lparr>hd_do := bit (hd_sr dv) (15 - hd_n dv)\<rparr> else dv)
           in dv\<lparr>hd_n := Suc (hd_n dv)\<rparr>)
      | HD_WRITE \<Rightarrow>
          (let dv = dv\<lparr>hd_sr := push_bit 1 (hd_sr dv) OR of_bool dat, hd_n := Suc (hd_n dv)\<rparr>
           in if hd_n dv = 16
              then (if hd_wen dv then dv\<lparr>hd_mem := (hd_mem dv)[unat (hd_addr dv) := hd_sr dv]\<rparr> else dv)
                     \<lparr>hd_ready := True, hd_ph := HD_DONE\<rparr>
              else dv)
      | HD_DONE \<Rightarrow> dv)"

definition hd_write_data :: "hd \<Rightarrow> u8 \<Rightarrow> hd" where
  "hd_write_data dv val =
     (let sel = val AND HD_CS \<noteq> 0; clk = val AND HD_SK \<noteq> 0; dat = val AND HD_DI \<noteq> 0;
          dv = (if \<not> sel then dv\<lparr>hd_ph := HD_IDLE, hd_n := 0\<rparr>
                else if clk \<and> \<not> hd_sk dv then hd_edge dv dat
                else dv)
      in dv\<lparr>hd_sk := clk\<rparr>)"

section \<open>The invariant\<close>

definition hd_wf :: "hd \<Rightarrow> bool" where
  "hd_wf dv \<longleftrightarrow>
     length (hd_mem dv) = HD_WORDS \<and> (hd_abits dv = 6 \<or> hd_abits dv = 8) \<and>
     (hd_ph dv = HD_OP \<longrightarrow> hd_n dv < 2 \<and> hd_op dv < 2 ^ hd_n dv) \<and>
     (hd_ph dv = HD_ADDR \<longrightarrow> hd_n dv < hd_abits dv \<and> hd_op dv < 4) \<and>
     (hd_ph dv = HD_WRITE \<longrightarrow> hd_n dv < 16 \<and> unat (hd_addr dv) < HD_WORDS)"

lemma and_63_less: "unat (b AND 0x3F :: u8) < 64"
proof -
  have "b AND 0x3F \<le> 0x3F" by (rule word_and_le1)
  then show ?thesis by (simp add: word_le_nat_alt)
qed

lemma hd_execute_wf: "length (hd_mem dv) = HD_WORDS \<Longrightarrow> hd_abits dv = 6 \<or> hd_abits dv = 8 \<Longrightarrow>
    hd_wf (hd_execute dv)"
  using and_63_less [of "hd_addr dv"]
  by (simp add: hd_execute_def hd_wf_def HD_WORDS_def Let_def)

lemma hd_edge_wf [wf_intros]:
  assumes "hd_wf dv"
  shows "hd_wf (hd_edge dv dat)"
proof -
  have w: "length (hd_mem dv) = HD_WORDS" "hd_abits dv = 6 \<or> hd_abits dv = 8"
    using assms by (simp_all add: hd_wf_def)
  show ?thesis
  proof (cases "hd_ph dv")
    case HD_ADDR
    let ?e = "dv\<lparr>hd_addr := push_bit 1 (hd_addr dv) OR of_bool dat, hd_n := Suc (hd_n dv)\<rparr>"
    have x: "hd_wf (hd_execute ?e)" by (rule hd_execute_wf) (use w in simp_all)
    have n: "hd_n dv < hd_abits dv" "hd_op dv < 4" using assms HD_ADDR by (simp_all add: hd_wf_def)
    have "hd_edge dv dat = (if Suc (hd_n dv) = hd_abits dv then hd_execute ?e else ?e)"
      using HD_ADDR by (simp add: hd_edge_def Let_def)
    moreover have "Suc (hd_n dv) \<noteq> hd_abits dv \<Longrightarrow> hd_wf ?e"
      using n w HD_ADDR by (simp add: hd_wf_def)
    ultimately show ?thesis
      using x by (cases "Suc (hd_n dv) = hd_abits dv") (simp_all only: if_True if_False simp_thms)
  next
    case HD_OP
    with assms have "hd_n dv = 0 \<and> hd_op dv = 0 \<or> hd_n dv = 1 \<and> hd_op dv < 2"
      by (auto simp: hd_wf_def less_Suc_eq numeral_2_eq_2)
    with w HD_OP show ?thesis by (cases dat) (auto simp: hd_edge_def hd_wf_def Let_def)
  next
    case HD_WRITE
    with assms have "hd_n dv < 16" "unat (hd_addr dv) < HD_WORDS" by (simp_all add: hd_wf_def)
    with w HD_WRITE show ?thesis by (simp add: hd_edge_def hd_wf_def Let_def)
  qed (use w assms in \<open>simp_all add: hd_edge_def hd_wf_def Let_def\<close>)
qed

lemma hd_wf_sk [simp]: "hd_wf (dv\<lparr>hd_sk := s\<rparr>) = hd_wf dv"
  by (simp add: hd_wf_def)

lemma hd_wf_deselect [simp]: "hd_wf dv \<Longrightarrow> hd_wf (dv\<lparr>hd_ph := HD_IDLE, hd_n := 0\<rparr>)"
  by (simp add: hd_wf_def)

lemma hd_write_data_wf [wf_intros]: "hd_wf dv \<Longrightarrow> hd_wf (hd_write_data dv val)"
  by (simp add: hd_write_data_def hd_edge_wf Let_def)

section \<open>The host's frames\<close>

definition wire_bits :: "bool \<Rightarrow> bool \<Rightarrow> u8" where
  "wire_bits sk di = HD_CS OR (if sk then HD_SK else 0) OR (if di then HD_DI else 0)"

text \<open>One clock: DI set up, SK high, SK low.\<close>

definition host_clock :: "hd \<Rightarrow> bool \<Rightarrow> hd" where
  "host_clock dv b =
     hd_write_data (hd_write_data (hd_write_data dv (wire_bits False b)) (wire_bits True b)) (wire_bits False b)"

text \<open>CS low, SK low, then CS high.\<close>

definition host_select :: "hd \<Rightarrow> hd" where
  "host_select dv = hd_write_data (hd_write_data dv 0) (wire_bits False False)"

definition addr_bits :: "nat \<Rightarrow> u8 \<Rightarrow> bool list" where
  "addr_bits n a = map (bit a) (rev [0..<n])"

definition host_instr :: "hd \<Rightarrow> bool list \<Rightarrow> u8 \<Rightarrow> hd" where
  "host_instr dv op a = foldl host_clock (host_select dv) ([True] @ op @ addr_bits HD_ABITS a)"

fun host_shift_in :: "nat \<Rightarrow> hd \<Rightarrow> bool list \<times> hd" where
  "host_shift_in 0 dv = ([], dv)"
| "host_shift_in (Suc n) dv =
     (let d = host_clock dv False; r = host_shift_in n d in (hd_do d # fst r, snd r))"

definition host_read_word :: "hd \<Rightarrow> u8 \<Rightarrow> u16 \<times> hd" where
  "host_read_word dv a =
     (let r = host_shift_in 16 (host_instr dv [True, False] a) in (word_of_bits_msb (fst r), snd r))"

definition host_write_word :: "hd \<Rightarrow> u8 \<Rightarrow> u16 \<Rightarrow> hd" where
  "host_write_word dv a w = foldl host_clock (host_instr dv [False, True] a) (bits_msb w)"

text \<open>EWEN and EWDS: opcode 00 with the top two address bits 11 or 00.\<close>

definition host_ewen :: "hd \<Rightarrow> hd" where "host_ewen dv = host_instr dv [False, False] 0x30"
definition host_ewds :: "hd \<Rightarrow> hd" where "host_ewds dv = host_instr dv [False, False] 0x00"
definition host_erase :: "hd \<Rightarrow> u8 \<Rightarrow> hd" where "host_erase dv a = host_instr dv [True, True] a"

lemma wire_bits_decode [simp]:
  "wire_bits s d AND HD_CS \<noteq> 0" "(wire_bits s d AND HD_SK \<noteq> 0) = s" "(wire_bits s d AND HD_DI \<noteq> 0) = d"
  "wire_bits s d AND HD_CS = 0 \<longleftrightarrow> False" "(wire_bits s d AND HD_SK = 0) = (\<not> s)" "(wire_bits s d AND HD_DI = 0) = (\<not> d)"
  by (cases s; cases d; simp add: wire_bits_def hd_consts)+

lemma hd_execute_sk [simp]: "hd_sk (hd_execute dv) = hd_sk dv"
  by (simp add: hd_execute_def Let_def)

lemma hd_edge_sk [simp]: "hd_sk (hd_edge dv b) = hd_sk dv"
  by (simp add: hd_edge_def Let_def split: hd_phase.split)

text \<open>A clock is one rising edge.\<close>

lemma host_clock_eq:
  assumes "\<not> hd_sk dv"
  shows "host_clock dv b = hd_edge dv b"
proof -
  have same: "dv\<lparr>hd_sk := False\<rparr> = dv" using assms by simp
  have "host_clock dv b = (hd_edge dv b)\<lparr>hd_sk := False\<rparr>"
    using assms by (simp add: host_clock_def hd_write_data_def Let_def same)
  also have "\<dots> = hd_edge dv b"
    using hd_edge_sk [of dv b] assms by simp
  finally show ?thesis .
qed


section \<open>Instructions\<close>

lemma foldl_clock:
  "\<not> hd_sk dv \<Longrightarrow> foldl host_clock dv bs = foldl hd_edge dv bs \<and> \<not> hd_sk (foldl hd_edge dv bs)"
  by (induction bs arbitrary: dv) (simp_all add: host_clock_eq)

lemma host_select_eq: "host_select dv = dv\<lparr>hd_ph := HD_IDLE, hd_n := 0, hd_sk := False\<rparr>"
  by (rule hd.equality) (simp_all add: host_select_def hd_write_data_def Let_def)

lemma op_phase:
  assumes "hd_ph dv = HD_OP" "hd_n dv = 0" "hd_op dv = 0"
  shows "foldl hd_edge dv [b1, b0] =
    dv\<lparr>hd_op := 2 * of_bool b1 + of_bool b0, hd_ph := HD_ADDR, hd_n := 0, hd_addr := 0\<rparr>"
  using assms by (simp add: hd_edge_def Let_def)

text \<open>The address register after the first bits of an address.\<close>

lemma addr_phase:
  "hd_ph dv = HD_ADDR \<Longrightarrow> hd_n dv + length bs < hd_abits dv \<Longrightarrow>
     foldl hd_edge dv bs =
       dv\<lparr>hd_addr := foldl (\<lambda>a b. push_bit 1 a OR of_bool b) (hd_addr dv) bs, hd_n := hd_n dv + length bs\<rparr>"
proof (induction bs arbitrary: dv)
  case Nil
  then show ?case by simp
next
  case (Cons b bs)
  let ?c = "dv\<lparr>hd_addr := push_bit 1 (hd_addr dv) OR of_bool b, hd_n := Suc (hd_n dv)\<rparr>"
  have "hd_edge dv b = ?c"
    using Cons.prems by (simp add: hd_edge_def Let_def)
  with Cons.IH [of ?c] Cons.prems show ?case by simp
qed

lemma addr_phase_last:
  "hd_ph dv = HD_ADDR \<Longrightarrow> Suc (hd_n dv) = hd_abits dv \<Longrightarrow>
     hd_edge dv b = hd_execute (dv\<lparr>hd_addr := push_bit 1 (hd_addr dv) OR of_bool b, hd_n := hd_abits dv\<rparr>)"
  by (simp add: hd_edge_def Let_def)

lemma addr_value:
  "foldl (\<lambda>a b. push_bit 1 a OR of_bool b) (0 :: u8) (addr_bits 6 a) AND 0x3F = a AND 0x3F"
  by (rule byte_eqI; simp add: addr_bits_def upt_rec bit_simps; simp add: numeral_eq_Suc)

lemma hd_execute_masks:
  assumes "x AND 0x3F = y AND 0x3F"
  shows "hd_execute (dv\<lparr>hd_addr := x, hd_n := n\<rparr>) = hd_execute (dv\<lparr>hd_addr := y, hd_n := n\<rparr>)"
proof -
  have "(dv\<lparr>hd_addr := x, hd_n := n\<rparr>)\<lparr>hd_n := 0, hd_addr := x AND 0x3F\<rparr> =
      (dv\<lparr>hd_addr := y, hd_n := n\<rparr>)\<lparr>hd_n := 0, hd_addr := y AND 0x3F\<rparr>"
    using assms by simp
  then show ?thesis
    by (simp only: hd_execute_def hd.select_convs hd.update_convs Let_def) (simp add: hd_execute_def)
qed

text \<open>A whole instruction: select, start bit, opcode, six address bits.\<close>

lemma host_instr_eq:
  assumes "hd_abits dv = 6"
  shows "host_instr dv [b1, b0] a =
    hd_execute (dv\<lparr>hd_ph := HD_ADDR, hd_sk := False, hd_ready := False, hd_n := 6,
      hd_op := 2 * of_bool b1 + of_bool b0, hd_addr := a AND 0x3F\<rparr>)"
proof -
  let ?s = "dv\<lparr>hd_ph := HD_IDLE, hd_n := 0, hd_sk := False\<rparr>"
  let ?o = "?s\<lparr>hd_ph := HD_OP, hd_n := 0, hd_op := 0, hd_ready := False\<rparr>"
  let ?a = "?o\<lparr>hd_op := 2 * of_bool b1 + of_bool b0, hd_ph := HD_ADDR, hd_n := 0, hd_addr := 0\<rparr>"
  let ?f = "\<lambda>a b. push_bit 1 a OR of_bool b :: u8"
  obtain bs b where bs: "addr_bits 6 a = bs @ [b]" "length bs = 5"
    by (simp add: addr_bits_def upt_rec)
  have f: "foldl hd_edge ?a bs = ?a\<lparr>hd_addr := foldl ?f 0 bs, hd_n := 5\<rparr>"
    using addr_phase [of ?a bs] assms bs(2) by simp
  have l: "hd_edge (?a\<lparr>hd_addr := foldl ?f 0 bs, hd_n := 5\<rparr>) b =
      hd_execute (?a\<lparr>hd_addr := foldl ?f 0 (addr_bits 6 a), hd_n := 6\<rparr>)"
    using assms by (subst addr_phase_last) (simp_all add: bs(1))
  have "host_instr dv [b1, b0] a = foldl hd_edge ?s ([True] @ [b1, b0] @ addr_bits 6 a)"
    using foldl_clock [of ?s "[True] @ [b1, b0] @ addr_bits 6 a"]
    by (simp only: host_instr_def host_select_eq HD_ABITS_def) simp
  also have "\<dots> = hd_edge (foldl hd_edge (foldl hd_edge ?o [b1, b0]) bs) b"
    by (simp add: bs(1) hd_edge_def [of ?s])
  also have "\<dots> = hd_execute (?a\<lparr>hd_addr := foldl ?f 0 (addr_bits 6 a), hd_n := 6\<rparr>)"
    using op_phase [of ?o b1 b0] f l by simp
  also have "\<dots> = hd_execute (dv\<lparr>hd_ph := HD_ADDR, hd_sk := False, hd_ready := False, hd_n := 6,
      hd_op := 2 * of_bool b1 + of_bool b0, hd_addr := a AND 0x3F\<rparr>)"
  proof -
    have "foldl ?f 0 (addr_bits 6 a) AND 0x3F = (a AND 0x3F) AND 0x3F"
      by (simp only: addr_value) (simp add: and.assoc)
    then have "hd_execute (?a\<lparr>hd_addr := foldl ?f 0 (addr_bits 6 a), hd_n := 6\<rparr>) =
        hd_execute (?a\<lparr>hd_addr := a AND 0x3F, hd_n := 6\<rparr>)"
      by (rule hd_execute_masks)
    also have "?a\<lparr>hd_addr := a AND 0x3F, hd_n := 6\<rparr> =
        dv\<lparr>hd_ph := HD_ADDR, hd_sk := False, hd_ready := False, hd_n := 6,
          hd_op := 2 * of_bool b1 + of_bool b0, hd_addr := a AND 0x3F\<rparr>"
      by (rule hd.equality) simp_all
    finally show ?thesis .
  qed
  finally show ?thesis .
qed

text \<open>Shifting in most significant bit first builds the word.\<close>

lemma shift_in_bit: "push_bit 1 (x :: 'a::len word) OR of_bool b = of_bool b + 2 * x"
proof -
  have "(of_bool b :: 'a word) AND push_bit 1 x = 0"
    by (rule bit_word_eqI) (auto simp: bit_simps mult.commute [of x 2])
  then have "(of_bool b :: 'a word) + push_bit 1 x = of_bool b OR push_bit 1 x"
    by (rule disjunctive_add_eq_or)
  moreover have "push_bit 1 x = 2 * x" by simp
  ultimately show ?thesis by (simp only: or.commute)
qed

lemma foldl_shift_in:
  "foldl (\<lambda>a b. push_bit 1 a OR of_bool b) (0 :: 'a::len word) bs = word_of_bits_msb bs"
proof (induction bs rule: rev_induct)
  case Nil
  show ?case by (simp add: word_of_bits_msb_def)
next
  case (snoc b bs)
  let ?f = "\<lambda>a b. push_bit 1 a OR of_bool b :: 'a word"
  have "foldl ?f 0 (bs @ [b]) = push_bit 1 (foldl ?f 0 bs) OR of_bool b"
    by (simp only: foldl_append foldl.simps)
  also have "\<dots> = of_bool b + 2 * word_of_bits_msb bs"
    by (subst snoc.IH) (rule shift_in_bit)
  also have "\<dots> = word_of_bits_msb (bs @ [b])"
    by (simp add: word_of_bits_msb_def)
  finally show ?case .
qed

lemma host_shift_in_eq:
  "hd_ph dv = HD_READ \<Longrightarrow> \<not> hd_sk dv \<Longrightarrow> hd_n dv + m \<le> 16 \<Longrightarrow>
     fst (host_shift_in m dv) = map (\<lambda>j. bit (hd_sr dv) (15 - j)) [hd_n dv ..< hd_n dv + m] \<and>
     hd_mem (snd (host_shift_in m dv)) = hd_mem dv \<and>
     hd_wen (snd (host_shift_in m dv)) = hd_wen dv \<and>
     hd_abits (snd (host_shift_in m dv)) = hd_abits dv"
proof (induction m arbitrary: dv)
  case 0
  then show ?case by simp
next
  case (Suc m)
  let ?d = "dv\<lparr>hd_do := bit (hd_sr dv) (15 - hd_n dv), hd_n := Suc (hd_n dv)\<rparr>"
  have e: "host_clock dv False = ?d"
    using Suc.prems by (simp add: host_clock_eq hd_edge_def)
  have "[hd_n dv ..< hd_n dv + Suc m] = hd_n dv # [Suc (hd_n dv) ..< Suc (hd_n dv) + m]"
    by (simp add: upt_conv_Cons)
  then show ?case
    using Suc.IH [of ?d] Suc.prems by (simp add: e Let_def del: upt_Suc)
qed

lemma host_read_word_eq:
  assumes "hd_abits dv = 6"
  shows "fst (host_read_word dv a) = hd_mem dv ! unat (a AND 0x3F)"
    and "hd_mem (snd (host_read_word dv a)) = hd_mem dv"
    and "hd_wen (snd (host_read_word dv a)) = hd_wen dv"
    and "hd_abits (snd (host_read_word dv a)) = 6"
proof -
  let ?i = "host_instr dv [True, False] a"
  have i: "hd_ph ?i = HD_READ" "\<not> hd_sk ?i" "hd_n ?i = 0" "hd_sr ?i = hd_mem dv ! unat (a AND 0x3F)"
    "hd_mem ?i = hd_mem dv" "hd_wen ?i = hd_wen dv" "hd_abits ?i = 6"
    using assms by (simp_all add: host_instr_eq hd_execute_def Let_def and.assoc)
  note r = host_shift_in_eq [of ?i 16, OF i(1,2)]
  have "map (\<lambda>j. bit x (15 - j)) [0..<16] = bits_msb x" for x :: u16
    by (rule nth_equalityI) (auto simp: bits_msb_def rev_nth)
  then have "fst (host_shift_in 16 ?i) = bits_msb (hd_mem dv ! unat (a AND 0x3F))"
    using r i(3,4) by simp
  then show "fst (host_read_word dv a) = hd_mem dv ! unat (a AND 0x3F)"
    by (simp add: host_read_word_def)
  show "hd_mem (snd (host_read_word dv a)) = hd_mem dv"
    "hd_wen (snd (host_read_word dv a)) = hd_wen dv"
    "hd_abits (snd (host_read_word dv a)) = 6"
    using r i by (simp_all add: host_read_word_def)
qed

lemma write_phase:
  "hd_ph dv = HD_WRITE \<Longrightarrow> hd_n dv + length bs < 16 \<Longrightarrow>
     foldl hd_edge dv bs =
       dv\<lparr>hd_sr := foldl (\<lambda>a b. push_bit 1 a OR of_bool b) (hd_sr dv) bs, hd_n := hd_n dv + length bs\<rparr>"
proof (induction bs arbitrary: dv)
  case Nil
  then show ?case by simp
next
  case (Cons b bs)
  let ?c = "dv\<lparr>hd_sr := push_bit 1 (hd_sr dv) OR of_bool b, hd_n := Suc (hd_n dv)\<rparr>"
  have "hd_edge dv b = ?c"
    using Cons.prems by (simp add: hd_edge_def Let_def)
  with Cons.IH [of ?c] Cons.prems show ?case by simp
qed

lemma host_write_word_eq:
  assumes "hd_abits dv = 6"
  shows "hd_mem (host_write_word dv a w) =
      (if hd_wen dv then (hd_mem dv)[unat (a AND 0x3F) := w] else hd_mem dv)"
    and "hd_wen (host_write_word dv a w) = hd_wen dv"
    and "hd_abits (host_write_word dv a w) = 6"
    and "hd_ready (host_write_word dv a w)"
proof -
  let ?i = "host_instr dv [False, True] a"
  let ?f = "\<lambda>a b. push_bit 1 a OR of_bool b :: u16"
  have i: "hd_ph ?i = HD_WRITE" "\<not> hd_sk ?i" "hd_n ?i = 0" "hd_sr ?i = 0" "hd_addr ?i = a AND 0x3F"
    "hd_mem ?i = hd_mem dv" "hd_wen ?i = hd_wen dv" "hd_abits ?i = 6"
    using assms by (simp_all add: host_instr_eq hd_execute_def Let_def and.assoc)
  obtain bs b where bs: "bits_msb w = bs @ [b]" "length bs = 15"
    using length_bits_msb [of w] by (cases "bits_msb w" rule: rev_cases) auto
  have sr: "push_bit 1 (foldl ?f 0 bs) OR of_bool b = w"
  proof -
    have "foldl ?f 0 (bits_msb w) = w"
      by (simp only: foldl_shift_in word_of_bits_msb_inverse)
    then show ?thesis by (simp only: bs(1) foldl_append foldl.simps)
  qed
  have "host_write_word dv a w = hd_edge (foldl hd_edge ?i bs) b"
    using foldl_clock [OF i(2), of "bits_msb w"] by (simp add: host_write_word_def bs(1))
  also have "foldl hd_edge ?i bs = ?i\<lparr>hd_sr := foldl ?f 0 bs, hd_n := 15\<rparr>"
    using write_phase [of ?i bs] i bs(2) by simp
  finally have e: "host_write_word dv a w = hd_edge (?i\<lparr>hd_sr := foldl ?f 0 bs, hd_n := 15\<rparr>) b" .
  show "hd_mem (host_write_word dv a w) =
      (if hd_wen dv then (hd_mem dv)[unat (a AND 0x3F) := w] else hd_mem dv)"
    "hd_wen (host_write_word dv a w) = hd_wen dv" "hd_abits (host_write_word dv a w) = 6"
    "hd_ready (host_write_word dv a w)"
    unfolding e using i sr by (simp_all add: hd_edge_def Let_def)
qed

lemma host_ewen_eq:
  assumes "hd_abits dv = 6"
  shows "hd_mem (host_ewen dv) = hd_mem dv" "hd_wen (host_ewen dv)" "hd_abits (host_ewen dv) = 6"
    "hd_mem (host_ewds dv) = hd_mem dv" "\<not> hd_wen (host_ewds dv)" "hd_abits (host_ewds dv) = 6"
  using assms by (simp_all add: host_ewen_def host_ewds_def host_instr_eq hd_execute_def Let_def)

lemma host_erase_eq:
  assumes "hd_abits dv = 6"
  shows "hd_mem (host_erase dv a) =
      (if hd_wen dv then (hd_mem dv)[unat (a AND 0x3F) := 0xFFFF] else hd_mem dv)"
    and "hd_wen (host_erase dv a) = hd_wen dv" and "hd_abits (host_erase dv a) = 6"
  using assms by (simp_all add: host_erase_def host_instr_eq hd_execute_def Let_def and.assoc)

section \<open>The part as a store of words\<close>

text \<open>
  What the guest's library relies on: a word read does not disturb the part, and
  a write is seen by the reads after it at that address and no other.  The laws
  are those of a store; block transfers are derived from them once.
\<close>

locale word_source =
  fixes inv :: "'s \<Rightarrow> bool"
    and rd :: "'s \<Rightarrow> 'a \<Rightarrow> 'v \<times> 's"
  assumes rd_inv: "inv s \<Longrightarrow> inv (snd (rd s a))"
    and rd_rd: "inv s \<Longrightarrow> fst (rd (snd (rd s a)) b) = fst (rd s b)"
begin

fun read_block :: "'s \<Rightarrow> 'a list \<Rightarrow> 'v list \<times> 's" where
  "read_block s [] = ([], s)"
| "read_block s (a # as) =
     (fst (rd s a) # fst (read_block (snd (rd s a)) as), snd (read_block (snd (rd s a)) as))"

lemma read_block_eq: "inv s \<Longrightarrow> fst (read_block s as) = map (\<lambda>a. fst (rd s a)) as"
proof (induction as arbitrary: s)
  case Nil
  then show ?case by simp
next
  case (Cons a as)
  then show ?case using rd_inv [of s a] by (simp add: rd_rd)
qed

end

locale word_store = word_source +
  fixes ok :: "'b \<Rightarrow> bool"
    and wr :: "'a \<Rightarrow> 'b \<Rightarrow> 'c \<Rightarrow> 'a"
  assumes wr_inv: "inv s \<Longrightarrow> inv (wr s a v)"
    and rd_wr: "inv s \<Longrightarrow> ok a \<Longrightarrow> ok b \<Longrightarrow> fst (rd (wr s a v) b) = (if a = b then v else fst (rd s b))"
begin

fun write_block :: "'a \<Rightarrow> ('b \<times> 'c) list \<Rightarrow> 'a" where
  "write_block s [] = s"
| "write_block s ((a, v) # avs) = write_block (wr s a v) avs"

lemma write_block_inv: "inv s \<Longrightarrow> inv (write_block s avs)"
  by (induction s avs rule: write_block.induct) (simp_all add: wr_inv)

lemma read_after_writes:
  "inv s \<Longrightarrow> \<forall>a \<in> fst ` set avs. ok a \<Longrightarrow> ok b \<Longrightarrow>
     fst (rd (write_block s avs) b) =
       (case map_of (rev avs) b of Some v \<Rightarrow> v | None \<Rightarrow> fst (rd s b))"
proof (induction s avs rule: write_block.induct)
  case (1 s)
  then show ?case by simp
next
  case (2 s a v avs)
  then show ?case
    using wr_inv [of s a v] by (auto simp: rd_wr map_add_def split: option.split)
qed

end

text \<open>
  The model's part is such a source over the wire, and with writes enabled such a
  store.
\<close>

definition part_selected :: "hd \<Rightarrow> bool" where
  "part_selected dv \<longleftrightarrow> length (hd_mem dv) = HD_WORDS \<and> hd_abits dv = 6"

definition part_ready :: "hd \<Rightarrow> bool" where
  "part_ready dv \<longleftrightarrow> part_selected dv \<and> hd_wen dv"

lemma addr_in_part: "a < 0x40 \<Longrightarrow> a AND 0x3F = a \<and> unat a < 64" for a :: u8
proof -
  assume a: "a < 0x40"
  then have "unat a < 64" by (simp add: word_less_nat_alt)
  moreover have "a AND mask 6 = a"
    by (rule less_mask_eq) (use a in simp)
  ultimately show "a AND 0x3F = a \<and> unat a < 64" by (simp add: mask_eq_exp_minus_1)
qed

interpretation source: word_source part_selected host_read_word
proof unfold_locales
  fix s :: hd and a b :: u8
  assume s: "part_selected s"
  then have r: "hd_abits s = 6" by (simp add: part_selected_def)
  show "part_selected (snd (host_read_word s a))"
    using s by (simp add: part_selected_def host_read_word_eq)
  show "fst (host_read_word (snd (host_read_word s a)) b) = fst (host_read_word s b)"
    using host_read_word_eq [OF r, of a] by (simp add: host_read_word_eq r)
qed

interpretation part: word_store part_ready host_read_word "\<lambda>a. a < 0x40" host_write_word
proof unfold_locales
  fix s :: hd and a b :: u8 and v :: u16
  assume s: "part_ready s"
  then have r: "hd_abits s = 6" by (simp add: part_ready_def part_selected_def)
  show "part_ready (snd (host_read_word s a))" "part_ready (host_write_word s a v)"
    using s by (simp_all add: part_ready_def part_selected_def host_read_word_eq host_write_word_eq)
  show "fst (host_read_word (snd (host_read_word s a)) b) = fst (host_read_word s b)"
    using s source.rd_rd by (simp add: part_ready_def)
  show "fst (host_read_word (host_write_word s a v) b) = (if a = b then v else fst (host_read_word s b))"
    if "a < 0x40" "b < 0x40"
  proof -
    have "unat a = unat b \<longleftrightarrow> a = b" by (simp add: word_unat_eq_iff)
    then show ?thesis
      using s r addr_in_part [OF that(1)] addr_in_part [OF that(2)]
      by (auto simp: part_ready_def part_selected_def host_read_word_eq host_write_word_eq
          nth_list_update HD_WORDS_def)
  qed
qed

definition hd_init :: "u16 list \<Rightarrow> hd" where
  "hd_init mem =
     \<lparr>hd_sk = False, hd_ph = HD_IDLE, hd_n = 0, hd_op = 0, hd_addr = 0, hd_abits = HD_ABITS,
      hd_sr = 0, hd_do = False, hd_wen = False, hd_ready = False, hd_mem = mem\<rparr>"

lemma hd_init_wf [wf_intros]: "length mem = HD_WORDS \<Longrightarrow> hd_wf (hd_init mem)"
  by (simp add: hd_init_def hd_wf_def HD_ABITS_def)

text \<open>
  C4. The Microwire part is a 64-word memory to the library's own frames, from any
  well-formed state, in the middle of any instruction: after EWEN, a word written
  at one address is what a READ of that address clocks out (most significant bit
  first), and every other address still reads what it did; after EWDS the same
  write changes nothing.  A finished write leaves the part answering ready.
\<close>

theorem microwire_write_read:
  assumes "hd_wf dv" "hd_abits dv = 6" "a < 0x40" "b < 0x40"
  shows "fst (host_read_word (host_write_word (host_ewen dv) a w) b) = (if a = b then w else hd_mem dv ! unat b)
    \<and> fst (host_read_word (host_write_word (host_ewds dv) a w) b) = hd_mem dv ! unat b
    \<and> hd_ready (host_write_word (host_ewen dv) a w)"
proof -
  have "part_ready (host_ewen dv)"
    using assms(1,2) by (simp add: part_ready_def part_selected_def host_ewen_eq hd_wf_def)
  from part.rd_wr [OF this assms(3,4)] show ?thesis
    using assms(2) addr_in_part [OF assms(4)]
    by (simp add: host_read_word_eq host_write_word_eq host_ewen_eq)
qed

theorem microwire_write_read_witness:
  "fst (host_read_word (host_write_word (host_ewen (hd_init (replicate 64 7))) 9 0xBEEF) 9) = 0xBEEF"
  using microwire_write_read [of "hd_init (replicate 64 7)" 9 9 "0xBEEF"]
  by (simp add: hd_init_wf HD_WORDS_def) (simp add: hd_init_def HD_ABITS_def)

end
