(* ===== verification/C_Strings.thy ===== *)
theory C_Strings
  imports Prelude
begin

text \<open>
  What the sources use of the C library on strings and buffers: string literals as
  byte lists without their NUL, \<open>memcpy\<close> into an array, \<open>strchr\<close>, \<open>strstr\<close>, and
  the decimal conversions of \<open>snprintf\<close>.
\<close>

section \<open>Characters\<close>

definition isdigit :: "u8 \<Rightarrow> bool" where "isdigit c \<longleftrightarrow> 0x30 \<le> c \<and> c \<le> 0x39"
definition islower :: "u8 \<Rightarrow> bool" where "islower c \<longleftrightarrow> 0x61 \<le> c \<and> c \<le> 0x7A"
definition toupper :: "u8 \<Rightarrow> u8" where "toupper c = (if islower c then c - 0x20 else c)"

definition isxdigit :: "u8 \<Rightarrow> bool" where
  "isxdigit c \<longleftrightarrow> isdigit c \<or> 0x41 \<le> toupper c \<and> toupper c \<le> 0x46"

text \<open>The value of a hexadecimal digit.\<close>

definition xdigit :: "u8 \<Rightarrow> nat" where
  "xdigit c = (if isdigit c then unat c - 0x30 else unat (toupper c) - 0x37)"

definition isspace :: "u8 \<Rightarrow> bool" where "isspace c \<longleftrightarrow> c = 0x20 \<or> 0x09 \<le> c \<and> c \<le> 0x0D"

section \<open>Strings and numbers\<close>

definition bytes :: "string \<Rightarrow> u8 list" where
  "bytes s = map of_char s"

definition put :: "nat \<Rightarrow> 'a list \<Rightarrow> 'a list \<Rightarrow> 'a list" where
  "put i bs xs = take i xs @ bs @ drop (i + length bs) xs"

lemma length_put [simp]: "i + length bs \<le> length xs \<Longrightarrow> length (put i bs xs) = length xs"
  by (simp add: put_def)

lemma nth_put:
  "i + length bs \<le> length xs \<Longrightarrow> j < length xs \<Longrightarrow>
     put i bs xs ! j = (if i \<le> j \<and> j < i + length bs then bs ! (j - i) else xs ! j)"
  by (auto simp: put_def nth_append min_def)

text \<open>\<open>strchr\<close>: the index of the first occurrence.\<close>

definition strchr :: "u8 list \<Rightarrow> u8 \<Rightarrow> nat option" where
  "strchr s c = (if c \<in> set s then Some (length (takeWhile (\<lambda>x. x \<noteq> c) s)) else None)"

fun dec_digits :: "nat \<Rightarrow> u8 list" where
  "dec_digits n =
     (if n < 10 then [0x30 + word_of_nat n] else dec_digits (n div 10) @ [0x30 + word_of_nat (n mod 10)])"

declare dec_digits.simps [simp del]

lemma dec_digits_length: "n < 10 ^ Suc m \<Longrightarrow> length (dec_digits n) \<le> Suc m"
proof (induction m arbitrary: n)
  case 0
  then show ?case by (subst dec_digits.simps) simp
next
  case (Suc m)
  show ?case
  proof (cases "n < 10")
    case True
    then show ?thesis by (subst dec_digits.simps) simp
  next
    case False
    have "n div 10 < 10 ^ Suc m" using Suc.prems by (simp add: less_mult_imp_div_less)
    with Suc.IH [of "n div 10"] False show ?thesis by (subst dec_digits.simps) simp
  qed
qed

text \<open>\<open>%ld\<close> and \<open>%0*ld\<close>.\<close>

definition fmt_ld :: "int \<Rightarrow> u8 list" where
  "fmt_ld v = (if v < 0 then [0x2D] else []) @ dec_digits (nat \<bar>v\<bar>)"

definition fmt_0ld :: "nat \<Rightarrow> int \<Rightarrow> u8 list" where
  "fmt_0ld w v =
     (let sign = (if v < 0 then [0x2D] else []); ds = dec_digits (nat \<bar>v\<bar>)
      in sign @ replicate (w - length sign - length ds) 0x30 @ ds)"

text \<open>\<open>%02X\<close> of a byte.\<close>

definition fmt_02X :: "u8 \<Rightarrow> u8 list" where
  "fmt_02X v = map (\<lambda>n. if n < 10 then 0x30 + n else 0x37 + n) [hi_nib v, lo_nib v]"

text \<open>\<open>%02X\<close> of an \<open>int\<close>, read as 32 bits.\<close>

fun hex_digits :: "nat \<Rightarrow> u8 list" where
  "hex_digits n =
     (let d = of_nat (n mod 16) + (if n mod 16 < 10 then 0x30 else 0x37)
      in if n < 16 then [d] else hex_digits (n div 16) @ [d])"

declare hex_digits.simps [simp del]

definition fmt_02X32 :: "u32 \<Rightarrow> u8 list" where
  "fmt_02X32 v = (let ds = hex_digits (unat v) in replicate (2 - length ds) 0x30 @ ds)"

text \<open>The string an array holds.\<close>

definition c_str :: "u8 list \<Rightarrow> u8 list" where
  "c_str xs = takeWhile (\<lambda>c. c \<noteq> 0) xs"

text \<open>
  \<open>strtol\<close> to the base 16, with a 64-bit \<open>long\<close>: the value and where the number ends, which
  is where it started if there is no digit.
\<close>

definition strtol16 :: "u8 list \<Rightarrow> int \<times> u8 list" where
  "strtol16 s =
     (let p = dropWhile isspace s;
          neg = (take 1 p = [0x2D]);
          p = (if take 1 p = [0x2D] \<or> take 1 p = [0x2B] then drop 1 p else p);
          p = (if map toupper (take 2 p) = [0x30, 0x58] \<and> 2 < length p \<and> isxdigit (p ! 2) then drop 2 p else p);
          ds = takeWhile isxdigit p;
          v = int (foldl (\<lambda>n c. 16 * n + xdigit c) 0 ds);
          v = (if neg then max (- v) (- (2 ^ 63)) else min v (2 ^ 63 - 1))
      in if ds = [] then (0, s) else (v, drop (length ds) p))"

text \<open>\<open>strstr\<close>: the suffix that starts at the first occurrence of a nonempty needle.\<close>

fun strstr :: "u8 list \<Rightarrow> u8 list \<Rightarrow> u8 list option" where
  "strstr s n = (if take (length n) s = n then Some s else case s of [] \<Rightarrow> None | c # cs \<Rightarrow> strstr cs n)"

declare strstr.simps [simp del]

end
