(* ===== verification/HD_Record.thy ===== *)
theory HD_Record
  imports Microwire C_Strings
begin

text \<open>
  What the 2001 part holds: the release table \<open>hd_keys\<close>, the content fields
  \<open>hd_fields\<close>, and \<open>hd_release_opt\<close>, \<open>hd_release\<close> and \<open>hd_load\<close> of
  \<open>src/src/device/dongle_photoplay.c\<close>, with the guest's unscrambling and its
  record parsers on the other side.
\<close>

unbundle bit_operations_syntax

section \<open>The release table\<close>

definition HD_BANNER :: nat where "HD_BANNER = 30"
definition HD_RECORD :: nat where "HD_RECORD = 112"
definition HD_START :: nat where "HD_START = 8"
definition HD_TEXT :: nat where "HD_TEXT = 83"
definition HD_SIGNATURE :: u64 where "HD_SIGNATURE = 0xCEFF0AFFCECE0A0A"

lemmas rec_consts = HD_BANNER_def HD_RECORD_def HD_START_def HD_TEXT_def HD_WORDS_def

datatype hd_shape = HD_R2001 | HD_RSION | HD_RVERS

record hd_field =
  at :: nat
  cols :: nat
  val :: nat

definition hd_fields :: "hd_field list" where
  "hd_fields =
    [\<lparr>at = 30, cols = 6, val = 907\<rparr>,
     \<lparr>at = 36, cols = 6, val = 98765\<rparr>,
     \<lparr>at = 42, cols = 6, val = 120672\<rparr>,
     \<lparr>at = 48, cols = 6, val = 170898\<rparr>,
     \<lparr>at = 54, cols = 6, val = 75902\<rparr>,
     \<lparr>at = 60, cols = 6, val = 2205\<rparr>,
     \<lparr>at = 66, cols = 6, val = 160678\<rparr>,
     \<lparr>at = 72, cols = 11, val = 4259233598\<rparr>]"

record hd_key =
  banner :: "u8 list"
  pass1 :: u16
  probe :: bool
  swap :: bool
  shape :: hd_shape
  v6 :: int
  v7 :: int
  tkey :: u32
  tinit :: u16
  sess_hi :: bool
  synth_ident :: u8

definition hd_keys :: "hd_key list" where
  "hd_keys =
    [\<lparr>banner = bytes ''Version 2001'', pass1 = 0x7477, probe = False, swap = False, shape = HD_R2001,
       v6 = 160678, v7 = -35733698, tkey = 0xCF47CB42, tinit = 0x7DF, sess_hi = False, synth_ident = 0\<rparr>,
     \<lparr>banner = bytes ''Version 2002'', pass1 = 0x68BB, probe = False, swap = True, shape = HD_RSION,
       v6 = 160678, v7 = -371202944, tkey = 0x3B227944, tinit = 0x7DF, sess_hi = False, synth_ident = 0\<rparr>,
     \<lparr>banner = bytes ''Version 2003'', pass1 = 0x6B91, probe = False, swap = True, shape = HD_RSION,
       v6 = 160678, v7 = -738037894, tkey = 0xAB32E970, tinit = 0x5DF, sess_hi = True, synth_ident = 0\<rparr>,
     \<lparr>banner = bytes ''Version 2005B'', pass1 = 0x6B91, probe = False, swap = True, shape = HD_RVERS,
       v6 = 0, v7 = 0, tkey = 0xAB32E970, tinit = 0x5DF, sess_hi = True, synth_ident = 0\<rparr>,
     \<lparr>banner = bytes ''Version 2005'', pass1 = 0x6B91, probe = False, swap = True, shape = HD_RSION,
       v6 = 0, v7 = 0, tkey = 0xAB32E970, tinit = 0x5DF, sess_hi = True, synth_ident = 0\<rparr>,
     \<lparr>banner = bytes ''Version 2006'', pass1 = 0x68BB, probe = True, swap = True, shape = HD_RVERS,
       v6 = 0, v7 = 0, tkey = 0x3B227944, tinit = 0x7DF, sess_hi = True, synth_ident = 0\<rparr>,
     \<lparr>banner = bytes ''Version 2007'', pass1 = 0x68BB, probe = False, swap = True, shape = HD_RVERS,
       v6 = 0, v7 = 0, tkey = 0x3B227944, tinit = 0x7DF, sess_hi = True, synth_ident = 0\<rparr>,
     \<lparr>banner = bytes ''Version 08'', pass1 = 0x68BB, probe = True, swap = True, shape = HD_RVERS,
       v6 = 0, v7 = 0, tkey = 0x3B227944, tinit = 0x7DF, sess_hi = True, synth_ident = 0\<rparr>]"

text \<open>The first row whose banner is a prefix.\<close>

fun first_row :: "hd_key list \<Rightarrow> u8 list \<Rightarrow> nat option" where
  "first_row [] b = None"
| "first_row (k # ks) b =
     (if take (length (banner k)) b = banner k then Some 0 else map_option Suc (first_row ks b))"

definition hd_release_opt :: "u8 list \<Rightarrow> nat option" where
  "hd_release_opt b = first_row hd_keys b"

definition hd_release :: "u8 list \<Rightarrow> nat" where
  "hd_release b = (case hd_release_opt b of None \<Rightarrow> 0 | Some n \<Rightarrow> n)"

section \<open>The record\<close>

definition field_value :: "hd_key \<Rightarrow> nat \<Rightarrow> int" where
  "field_value k f =
     (if f = 6 then v6 k else if f = 7 then v7 k else sint (word_of_nat (val (hd_fields ! f)) :: u32))"

text \<open>One column field: right-aligned, skipped when it does not fit.\<close>

definition put_field :: "hd_key \<Rightarrow> nat \<Rightarrow> u8 list \<Rightarrow> u8 list" where
  "put_field k f rec =
     (let v = field_value k f; fld = hd_fields ! f;
          num = (if f = 7 then fmt_ld v else fmt_0ld (cols fld) v); n = length num
      in if n > 0 \<and> n \<le> cols fld then put (at fld + cols fld - n) num rec else rec)"

definition record_2001 :: "hd_key \<Rightarrow> u8 list \<Rightarrow> u8 list" where
  "record_2001 k b =
     (let rec = put 0 (replicate HD_TEXT 0x20) (replicate HD_RECORD 0);
          blen = min (length b) HD_BANNER;
          rec = put (HD_BANNER - blen) (take blen b) rec
      in fold (put_field k) [0..<8] rec)"

text \<open>\<open>while (vl && sp[vl] == ' ') vl--\<close>.\<close>

fun trim_len :: "u8 list \<Rightarrow> nat \<Rightarrow> nat" where
  "trim_len s 0 = 0"
| "trim_len s (Suc n) = (if s ! Suc n = 0x20 then trim_len s n else Suc n)"

definition put_territory :: "u8 list \<Rightarrow> u8 list \<Rightarrow> u8 list" where
  "put_territory b rec =
     (case strchr b 0x28 of
        None \<Rightarrow> rec
      | Some p \<Rightarrow> (if p + 2 < length b then rec[0 := b ! (p + 1), 1 := b ! (p + 2)] else rec))"

definition put_token :: "u8 list \<Rightarrow> u8 list \<Rightarrow> u8 list" where
  "put_token b rec =
     (case strchr b 0x20 of
        None \<Rightarrow> rec
      | Some sp \<Rightarrow>
          (let vl = length b - (sp + 1);
               vl = (case strchr b 0x28 of
                       None \<Rightarrow> vl | Some lp \<Rightarrow> if lp > sp + 1 then lp - (sp + 1) else vl);
               vl = trim_len (drop sp b) vl
           in put 10 (take (min vl 5) (drop (sp + 1) b)) rec))"

definition le_bytes :: "u32 \<Rightarrow> u8 list" where
  "le_bytes v = [ucast v, ucast (drop_bit 8 v), ucast (drop_bit 16 v), ucast (drop_bit 24 v)]"

definition record_igo :: "hd_key \<Rightarrow> u8 list \<Rightarrow> u8 list" where
  "record_igo k b =
     (let rec = put_territory b (replicate HD_RECORD 0);
          rec = (if shape k = HD_RSION then put 3 (bytes ''sion 2000 (SP)'') rec
                 else (put_token b (put 3 (bytes ''Version'') (rec[2 := 0x2D])))[16 := 0x29])
      in fold (\<lambda>n. put (30 + 4 * n) (le_bytes (word_of_int (field_value k n)))) [0..<8] rec)"

definition hd_record :: "u8 list \<Rightarrow> u8 list" where
  "hd_record b =
     (let k = hd_keys ! hd_release b
      in if shape k = HD_R2001 then put 110 [0xFF, 0xFF] (record_2001 k b)
         else put 62 (replicate (HD_RECORD - 62) 0xFF) (record_igo k b))"

text \<open>The scrambled memory; \<open>(uint16_t) (i - HD_START)\<close> wraps below word 8.\<close>

definition hd_plain :: "bool \<Rightarrow> u8 list \<Rightarrow> nat \<Rightarrow> u16" where
  "hd_plain sw rec i =
     (if i < HD_START \<or> 2 * (i - HD_START) + 1 \<ge> HD_RECORD then 0
      else (let j = i - HD_START; e = ucast (rec ! (2 * j)); o' = ucast (rec ! (2 * j + 1))
            in if sw then push_bit 8 o' OR e else push_bit 8 e OR o'))"

definition hd_scramble :: "u16 \<Rightarrow> nat \<Rightarrow> u16" where
  "hd_scramble key i =
     word_of_int (int i - int HD_START) XOR key XOR (if i < HD_START then 0xFF00 else 0)"

definition hd_load :: "u8 list \<Rightarrow> u16 list" where
  "hd_load b =
     (let k = hd_keys ! hd_release b
      in map (\<lambda>i. hd_plain (swap k) (hd_record b) i XOR hd_scramble (pass1 k) i) [0..<HD_WORDS])"

section \<open>The record keeps its size\<close>

lemma hd_fields_in_text: "f < 8 \<Longrightarrow> at (hd_fields ! f) + cols (hd_fields ! f) \<le> HD_TEXT"
proof -
  assume f: "f < 8"
  have "list_all (\<lambda>x. at x + cols x \<le> HD_TEXT) hd_fields"
    by (simp add: hd_fields_def HD_TEXT_def)
  moreover have "length hd_fields = 8" by (simp add: hd_fields_def)
  ultimately show ?thesis using f by (simp add: list_all_length)
qed

lemma length_put_field [simp]:
  assumes "f < 8" "length rec = HD_RECORD"
  shows "length (put_field k f rec) = HD_RECORD"
proof -
  have "n \<le> cols (hd_fields ! f) \<Longrightarrow> at (hd_fields ! f) + cols (hd_fields ! f) - n + n \<le> length rec" for n
    using hd_fields_in_text [OF assms(1)] assms(2) by (simp add: rec_consts)
  then show ?thesis
    using assms(2) by (auto simp: put_field_def Let_def)
qed

lemma length_fold_fields:
  "set fs \<subseteq> {..<8} \<Longrightarrow> length rec = HD_RECORD \<Longrightarrow> length (fold (put_field k) fs rec) = HD_RECORD"
  by (induction fs arbitrary: rec) simp_all

lemma length_record_2001: "length (record_2001 k b) = HD_RECORD"
proof -
  have "set [0..<8] \<subseteq> {..<8::nat}" by auto
  then show ?thesis
    unfolding record_2001_def Let_def by (rule length_fold_fields) (simp add: rec_consts)
qed

lemma length_le_bytes [simp]: "length (le_bytes v) = 4"
  by (simp add: le_bytes_def)

lemma length_put_territory [simp]: "length (put_territory b rec) = length rec"
  by (simp add: put_territory_def split: option.split)

lemma length_put_token [simp]: "length rec = HD_RECORD \<Longrightarrow> length (put_token b rec) = HD_RECORD"
  by (auto simp: put_token_def Let_def HD_RECORD_def split: option.split)

lemma length_fold_dwords:
  "set ns \<subseteq> {..<8} \<Longrightarrow> length rec = HD_RECORD \<Longrightarrow>
     length (fold (\<lambda>n. put (30 + 4 * n) (le_bytes (f n))) ns rec) = HD_RECORD"
  by (induction ns arbitrary: rec) (auto simp: HD_RECORD_def)

lemma length_bytes [simp]: "length (bytes s) = length s"
  by (simp add: bytes_def)

lemma length_record_igo: "length (record_igo k b) = HD_RECORD"
proof -
  have "set [0..<8] \<subseteq> {..<8::nat}" by auto
  then show ?thesis
    unfolding record_igo_def Let_def by (rule length_fold_dwords) (simp add: rec_consts)
qed

lemma length_hd_record [simp]: "length (hd_record b) = HD_RECORD"
  by (simp add: hd_record_def Let_def length_record_2001 length_record_igo rec_consts)

section \<open>What the guest makes of the memory\<close>

text \<open>
  The guest reads 56 words from word 8, unscrambles word \<open>idx\<close> with
  \<open>(idx - 8) ^ password1\<close>, and unpacks each word in its byte order.
\<close>

definition guest_unpack :: "bool \<Rightarrow> u16 \<Rightarrow> u8 list" where
  "guest_unpack sw w = (if sw then [ucast w, ucast (drop_bit 8 w)] else [ucast (drop_bit 8 w), ucast w])"

definition guest_record :: "u16 \<Rightarrow> bool \<Rightarrow> u16 list \<Rightarrow> u8 list" where
  "guest_record key sw ws =
     concat (map (\<lambda>i. guest_unpack sw (ws ! i XOR hd_scramble key (HD_START + i))) [0..<length ws])"

lemma unpack_word:
  "guest_unpack True (push_bit 8 (ucast h) OR ucast l) = [l, h]"
  "guest_unpack False (push_bit 8 (ucast h) OR ucast l) = [h, l]"
  for h l :: u8
proof -
  have "(ucast (push_bit 8 (ucast h) OR (ucast l :: u16)) :: u8) = l"
    "(ucast (drop_bit 8 (push_bit 8 (ucast h) OR (ucast l :: u16))) :: u8) = h"
    by (rule byte_eqI; simp add: bit_simps bit_byte_high)+
  then show "guest_unpack True (push_bit 8 (ucast h) OR ucast l) = [l, h]"
    "guest_unpack False (push_bit 8 (ucast h) OR ucast l) = [h, l]"
    by (simp_all add: guest_unpack_def)
qed

lemma concat_pairs:
  "length xs = 2 * n \<Longrightarrow> concat (map (\<lambda>i. [xs ! (2 * i), xs ! (2 * i + 1)]) [0..<n]) = xs"
proof (induction n arbitrary: xs)
  case 0
  then show ?case by simp
next
  case (Suc n)
  obtain ys a b where xs: "xs = ys @ [a, b]" "length ys = 2 * n"
    using Suc.prems by (metis (no_types, opaque_lifting) add_2_eq_Suc append.assoc append_Cons
        append_Nil append_butlast_last_id diff_Suc_1 length_0_conv length_butlast mult_Suc_right nat.distinct(1))
  have m: "map (\<lambda>i. [xs ! (2 * i), xs ! (2 * i + 1)]) [0..<n] = map (\<lambda>i. [ys ! (2 * i), ys ! (2 * i + 1)]) [0..<n]"
    using xs by (intro map_cong) (auto simp: nth_append)
  have "concat (map (\<lambda>i. [xs ! (2 * i), xs ! (2 * i + 1)]) [0..<Suc n]) =
      concat (map (\<lambda>i. [ys ! (2 * i), ys ! (2 * i + 1)]) [0..<n]) @ [xs ! (2 * n), xs ! (2 * n + 1)]"
    by (simp only: upt_Suc le0 if_True map_append concat_append m) simp
  also have "\<dots> = ys @ [a, b]"
    by (simp only: Suc.IH [OF xs(2)]) (simp add: xs nth_append)
  finally show ?case by (simp only: xs(1))
qed

lemma hd_load_word:
  assumes "i < 56"
  shows "guest_unpack (swap k) (hd_plain (swap k) (hd_record b) (HD_START + i)) =
    [hd_record b ! (2 * i), hd_record b ! (2 * i + 1)]"
  using assms by (cases "swap k") (simp_all add: hd_plain_def unpack_word rec_consts Let_def)

lemma map_upt_shift: "map f [m..<m + n] = map (\<lambda>i. f (m + i)) [0..<n]"
  by (induction n) simp_all

lemma guest_record_map:
  "guest_record key sw (map (\<lambda>i. g i XOR hd_scramble key (HD_START + i)) [0..<n]) =
     concat (map (\<lambda>i. guest_unpack sw (g i)) [0..<n])"
  unfolding guest_record_def by (rule arg_cong [where f = concat]) simp

lemma guest_record_load:
  assumes "hd_abits dv = 6" "hd_mem dv = hd_load b"
  shows "guest_record (pass1 (hd_keys ! hd_release b)) (swap (hd_keys ! hd_release b))
    (fst (source.read_block dv (map word_of_nat [8..<64]))) = hd_record b"
proof -
  let ?k = "hd_keys ! hd_release b"
  have "part_selected dv"
    using assms by (simp add: part_selected_def hd_load_def Let_def)
  then have "fst (source.read_block dv (map word_of_nat is)) =
      map (\<lambda>i. hd_mem dv ! unat (word_of_nat i AND 0x3F :: u8)) is" for "is"
    using assms(1) by (simp add: source.read_block_eq host_read_word_eq comp_def)
  then have "fst (source.read_block dv (map word_of_nat [8..<64])) =
      map (\<lambda>i. hd_mem dv ! unat (word_of_nat i AND 0x3F :: u8)) [8..<64]" .
  also have "\<dots> = map (\<lambda>i. hd_load b ! i) [8..<64]"
  proof (rule map_cong [OF refl])
    fix i
    assume "i \<in> set [8..<64]"
    then have i: "i < 64" by (simp only: set_upt atLeastLessThan_iff)
    then have "(word_of_nat i :: u8) < 0x40"
      by (simp add: word_less_nat_alt unat_of_nat)
    from addr_in_part [OF this] i show "hd_mem dv ! unat (word_of_nat i AND 0x3F :: u8) = hd_load b ! i"
      by (simp add: assms(2) unat_of_nat)
  qed
  also have "\<dots> = map (\<lambda>i. hd_load b ! (8 + i)) [0..<56]"
    using map_upt_shift [of "\<lambda>i. hd_load b ! i" 8 56] by (simp only: numeral_plus_numeral add_num_simps)
  also have "\<dots> = map (\<lambda>i. hd_plain (swap ?k) (hd_record b) (HD_START + i) XOR
      hd_scramble (pass1 ?k) (HD_START + i)) [0..<56]"
  proof (rule map_cong [OF refl])
    fix i
    assume "i \<in> set [0..<56]"
    then have "8 + i < 64" by (simp only: set_upt atLeastLessThan_iff) simp
    then show "hd_load b ! (8 + i) = hd_plain (swap ?k) (hd_record b) (HD_START + i) XOR
        hd_scramble (pass1 ?k) (HD_START + i)"
      by (simp add: hd_load_def Let_def rec_consts)
  qed
  finally have ws: "fst (source.read_block dv (map word_of_nat [8..<64])) = \<dots>" .
  have "guest_record (pass1 ?k) (swap ?k) (fst (source.read_block dv (map word_of_nat [8..<64]))) =
      concat (map (\<lambda>i. [hd_record b ! (2 * i), hd_record b ! (2 * i + 1)]) [0..<56])"
    unfolding ws guest_record_map
    by (intro arg_cong [where f = concat] map_cong [OF refl] hd_load_word) (simp only: set_upt atLeastLessThan_iff)
  also have "\<dots> = hd_record b"
    by (rule concat_pairs) (simp add: HD_RECORD_def)
  finally show ?thesis .
qed

end
