(* ===== verification/HD_Layout.thy ===== *)
theory HD_Layout
  imports HD_Record
begin

text \<open>
  The guest's parsers on the record \<open>hd_load\<close> builds: the banner each release's
  menu composes, the binary content keys of the I.G.O. layouts and the number
  columns of the 2001 layout.
\<close>

unbundle bit_operations_syntax

section \<open>Reading numbers back\<close>

definition is_digit :: "u8 \<Rightarrow> bool" where
  "is_digit c \<longleftrightarrow> 0x30 \<le> c \<and> c \<le> 0x39"

definition digits_value :: "u8 list \<Rightarrow> int" where
  "digits_value = foldl (\<lambda>a d. 10 * a + (uint d - 48)) 0"

text \<open>\<open>atol\<close> after the extractor has skipped leading spaces.\<close>

definition guest_atol :: "u8 list \<Rightarrow> int" where
  "guest_atol xs =
     (let ys = dropWhile (\<lambda>c. c = 0x20) xs
      in if ys \<noteq> [] \<and> hd ys = 0x2D then - digits_value (takeWhile is_digit (tl ys))
         else digits_value (takeWhile is_digit ys))"

lemma digit_char:
  assumes "m < 10"
  shows "uint (0x30 + word_of_nat m :: u8) = 48 + int m" "is_digit (0x30 + word_of_nat m)"
proof -
  have u: "unat (0x30 + word_of_nat m :: u8) = 48 + m"
    using assms by (simp add: unat_word_ariths unat_of_nat)
  then have "int (unat (0x30 + word_of_nat m :: u8)) = 48 + int m" by (simp only: of_nat_add of_nat_numeral)
  then show "uint (0x30 + word_of_nat m :: u8) = 48 + int m" by simp
  from u show "is_digit (0x30 + word_of_nat m)"
    using assms by (simp add: is_digit_def word_le_nat_alt)
qed

lemma dec_digits_value: "digits_value (dec_digits n) = int n"
proof (induction n rule: dec_digits.induct)
  case (1 n)
  show ?case
  proof (cases "n < 10")
    case True
    then show ?thesis by (subst dec_digits.simps) (simp add: digits_value_def digit_char)
  next
    case False
    have "digits_value (xs @ [d]) = 10 * digits_value xs + (uint d - 48)" for xs d
      by (simp add: digits_value_def)
    then have "digits_value (dec_digits n) = 10 * int (n div 10) + int (n mod 10)"
      using 1 False by (subst dec_digits.simps) (simp add: digit_char)
    also have "\<dots> = int n" by (simp add: zmod_int zdiv_int)
    finally show ?thesis .
  qed
qed

lemma dec_digits_digits: "list_all is_digit (dec_digits n)"
proof (induction n rule: dec_digits.induct)
  case (1 n)
  then show ?case
    by (cases "n < 10"; subst dec_digits.simps) (simp_all add: digit_char)
qed

lemma digits_value_zeros: "digits_value (replicate m 0x30 @ xs) = digits_value xs"
  by (induction m) (simp_all add: digits_value_def)

lemma takeWhile_digits: "list_all is_digit xs \<Longrightarrow> takeWhile is_digit xs = xs"
  by (simp add: list_all_iff)

lemma zeros_are_digits: "list_all is_digit (replicate m 0x30)"
  by (induction m) (simp_all add: is_digit_def)

lemma not_digit: "\<not> is_digit 0x20" "\<not> is_digit 0x2D"
  by (simp_all add: is_digit_def)

lemma digits_head: "list_all is_digit xs \<Longrightarrow> xs \<noteq> [] \<Longrightarrow> hd xs \<noteq> 0x20 \<and> hd xs \<noteq> 0x2D"
  using not_digit by (cases xs) auto

lemma dec_digits_not_Nil [simp]: "dec_digits n \<noteq> []"
  by (subst dec_digits.simps) simp

lemma skip_spaces: "(xs :: u8 list) \<noteq> [] \<Longrightarrow> hd xs \<noteq> 0x20 \<Longrightarrow> dropWhile (\<lambda>c. c = 0x20) (replicate m 0x20 @ xs) = xs"
  by (induction m) (cases xs; simp)+

lemma guest_atol_unsigned:
  assumes "list_all is_digit xs" "xs \<noteq> []"
  shows "guest_atol (replicate m 0x20 @ xs) = digits_value xs"
  using digits_head [OF assms] assms by (simp add: guest_atol_def skip_spaces takeWhile_digits)

lemma guest_atol_fmt:
  "guest_atol (replicate m 0x20 @ fmt_ld v) = v"
  "0 \<le> v \<Longrightarrow> guest_atol (replicate m 0x20 @ fmt_0ld w v) = v"
proof -
  have neg: "guest_atol (replicate m 0x20 @ 0x2D # dec_digits n) = - int n" for n
    by (simp add: guest_atol_def skip_spaces takeWhile_digits dec_digits_digits dec_digits_value)
  show "guest_atol (replicate m 0x20 @ fmt_ld v) = v"
    using neg [of "nat \<bar>v\<bar>"] guest_atol_unsigned [of "dec_digits (nat \<bar>v\<bar>)" m]
    by (cases "v < 0") (simp_all add: fmt_ld_def dec_digits_digits dec_digits_value)
  show "guest_atol (replicate m 0x20 @ fmt_0ld w v) = v" if "0 \<le> v"
    using that guest_atol_unsigned [of "replicate k 0x30 @ dec_digits (nat \<bar>v\<bar>)" m for k]
    by (simp add: fmt_0ld_def Let_def dec_digits_digits dec_digits_value digits_value_zeros zeros_are_digits)
qed

section \<open>Slices of the record\<close>

lemma nth_put_low: "j < i \<Longrightarrow> i + length bs \<le> length xs \<Longrightarrow> put i bs xs ! j = xs ! j"
  by (simp add: nth_put)

lemma put_field_low:
  assumes "f < 8" "length rec = HD_RECORD" "j < at (hd_fields ! f)"
  shows "put_field k f rec ! j = rec ! j"
proof -
  have "at (hd_fields ! f) + cols (hd_fields ! f) \<le> HD_TEXT" by (rule hd_fields_in_text [OF assms(1)])
  then show ?thesis
    using assms(2,3) by (auto simp: put_field_def Let_def nth_put rec_consts)
qed

lemma slice_put:
  "i + length bs \<le> length xs \<Longrightarrow> take (length bs) (drop i (put i bs xs)) = bs"
  by (simp add: put_def)

lemma fold_dwords_low:
  "length rec = HD_RECORD \<Longrightarrow> m \<le> 8 \<Longrightarrow> j < 30 \<Longrightarrow>
     fold (\<lambda>n. put (30 + 4 * n) (le_bytes (f n))) [0..<m] rec ! j = rec ! j"
proof (induction m)
  case 0
  then show ?case by simp
next
  case (Suc m)
  have "set [0..<m] \<subseteq> {..<8}" using Suc.prems by auto
  from length_fold_dwords [OF this Suc.prems(1)] Suc show ?case
    by (simp add: nth_put HD_RECORD_def)
qed

lemma fold_dwords_at:
  "length rec = HD_RECORD \<Longrightarrow> m \<le> 8 \<Longrightarrow> n < m \<Longrightarrow> j < 4 \<Longrightarrow>
     fold (\<lambda>n. put (30 + 4 * n) (le_bytes (f n))) [0..<m] rec ! (30 + 4 * n + j) = le_bytes (f n) ! j"
proof (induction m)
  case 0
  then show ?case by simp
next
  case (Suc m)
  have "set [0..<m] \<subseteq> {..<8}" using Suc.prems by auto
  from length_fold_dwords [OF this Suc.prems(1)]
  have l: "length (fold (\<lambda>n. put (30 + 4 * n) (le_bytes (f n))) [0..<m] rec) = 112"
    by (simp add: HD_RECORD_def)
  show ?case
  proof (cases "n = m")
    case True
    with l Suc.prems show ?thesis by (simp add: nth_put)
  next
    case False
    with l Suc show ?thesis by (simp add: nth_put)
  qed
qed

text \<open>The guest reads a content key as four bytes, low first.\<close>

definition guest_dword :: "u8 list \<Rightarrow> nat \<Rightarrow> u32" where
  "guest_dword rec i =
     ucast (rec ! i) OR push_bit 8 (ucast (rec ! (i + 1))) OR push_bit 16 (ucast (rec ! (i + 2))) OR
     push_bit 24 (ucast (rec ! (i + 3)))"

lemma le_bytes_join:
  fixes v :: u32
  shows "ucast (le_bytes v ! 0) OR push_bit 8 (ucast (le_bytes v ! 1)) OR push_bit 16 (ucast (le_bytes v ! 2)) OR
     push_bit 24 (ucast (le_bytes v ! 3)) = v"
proof (rule bit_word_eqI)
  fix n :: nat
  assume "n < LENGTH(32)"
  then have "n < 32" by simp
  then consider "n < 8" | "8 \<le> n" "n < 16" | "16 \<le> n" "n < 24" | "24 \<le> n" "n < 32" by linarith
  then show "bit (ucast (le_bytes v ! 0) OR push_bit 8 (ucast (le_bytes v ! 1)) OR
      push_bit 16 (ucast (le_bytes v ! 2)) OR push_bit 24 (ucast (le_bytes v ! 3)) :: u32) n = bit v n"
    by cases (auto simp: le_bytes_def bit_simps)
qed

lemma record_igo_dword:
  assumes "n < 8"
  shows "guest_dword (record_igo k b) (30 + 4 * n) = word_of_int (field_value k n)"
proof -
  let ?base = "if shape k = HD_RSION then put 3 (bytes ''sion 2000 (SP)'') (put_territory b (replicate HD_RECORD 0))
    else (put_token b (put 3 (bytes ''Version'') ((put_territory b (replicate HD_RECORD 0))[2 := 0x2D])))[16 := 0x29]"
  have "length ?base = HD_RECORD" by (simp add: rec_consts)
  note at = fold_dwords_at [OF this order_refl assms, of _ "\<lambda>n. word_of_int (field_value k n)"]
  have "record_igo k b ! (30 + 4 * n + j) = le_bytes (word_of_int (field_value k n)) ! j" if "j < 4" for j
    using at [OF that] by (simp only: record_igo_def Let_def)
  from this [of 0] this [of 1] this [of 2] this [of 3] show ?thesis
    using le_bytes_join [of "word_of_int (field_value k n)"] by (simp add: guest_dword_def add.assoc)
qed

section \<open>The banner the menu composes\<close>

text \<open>
  The 2001 extractor skips the spaces of the 30-column field; the later I.G.O.
  library formats \<open>"%s %s (%c%c)"\<close> from bytes 3..9, 10..14, 0 and 1; the older one
  wraps the record, up to its first NUL, in the release's own hardcoded text.
\<close>

definition guest_banner :: "hd_key \<Rightarrow> u8 list \<Rightarrow> u8 list" where
  "guest_banner k rec =
     (case shape k of
        HD_R2001 \<Rightarrow> dropWhile (\<lambda>c. c = 0x20) (take 30 rec)
      | HD_RVERS \<Rightarrow> take 7 (drop 3 rec) @ [0x20] @ takeWhile (\<lambda>c. c \<noteq> 0) (take 5 (drop 10 rec)) @
          [0x20, 0x28, rec ! 0, rec ! 1, 0x29]
      | HD_RSION \<Rightarrow> banner k @ [0x20, 0x28] @ takeWhile (\<lambda>c. c \<noteq> 0) rec @ [0x29])"

text \<open>A banner is \<open>"Version "\<close>, the release token and the territory in brackets.\<close>

definition banner_of :: "u8 list \<Rightarrow> u8 \<Rightarrow> u8 \<Rightarrow> u8 list" where
  "banner_of tok t0 t1 = bytes ''Version'' @ [0x20] @ tok @ [0x20, 0x28, t0, t1, 0x29]"

definition token_ok :: "u8 list \<Rightarrow> bool" where
  "token_ok tok \<longleftrightarrow> tok \<noteq> [] \<and> length tok \<le> 5 \<and> 0x20 \<notin> set tok \<and> 0x28 \<notin> set tok \<and> 0 \<notin> set tok"

lemma bytes_Version: "bytes ''Version'' = [0x56, 0x65, 0x72, 0x73, 0x69, 0x6F, 0x6E]"
  by (simp add: bytes_def)

lemma strchr_append: "c \<notin> set xs \<Longrightarrow> strchr (xs @ c # ys) c = Some (length xs)"
proof -
  assume "c \<notin> set xs"
  then have "takeWhile (\<lambda>x. x \<noteq> c) xs = xs" by (auto intro: takeWhile_eq_all_conv [THEN iffD2])
  then show ?thesis by (simp add: strchr_def takeWhile_tail takeWhile_append)
qed

lemma banner_strchr:
  assumes "token_ok tok"
  shows "strchr (banner_of tok t0 t1) 0x28 = Some (9 + length tok)"
    and "strchr (banner_of tok t0 t1) 0x20 = Some 7"
proof -
  have e: "banner_of tok t0 t1 = (bytes ''Version'' @ [0x20] @ tok @ [0x20]) @ 0x28 # [t0, t1, 0x29]"
    by (simp add: banner_of_def)
  have "0x28 \<notin> set (bytes ''Version'' @ [0x20] @ tok @ [0x20])"
    using assms by (simp add: token_ok_def bytes_Version)
  from strchr_append [OF this, of "[t0, t1, 0x29]"]
  show "strchr (banner_of tok t0 t1) 0x28 = Some (9 + length tok)"
    unfolding e by simp
  show "strchr (banner_of tok t0 t1) 0x20 = Some 7"
    unfolding banner_of_def append.simps by (subst strchr_append) (simp_all add: bytes_Version)
qed

lemma length_banner_of [simp]: "length (banner_of tok t0 t1) = 13 + length tok"
  by (simp add: banner_of_def)

lemma banner_territory:
  "token_ok tok \<Longrightarrow> 2 \<le> length rec \<Longrightarrow> put_territory (banner_of tok t0 t1) rec = rec[0 := t0, 1 := t1]"
  by (simp add: put_territory_def banner_strchr) (simp add: banner_of_def nth_append)

lemma banner_token:
  assumes "token_ok tok"
  shows "put_token (banner_of tok t0 t1) rec = put 10 tok rec"
proof -
  let ?s = "drop 7 (banner_of tok t0 t1)"
  have s: "?s = 0x20 # tok @ [0x20, 0x28, t0, t1, 0x29]"
    by (simp add: banner_of_def)
  have "?s ! Suc (length tok) = 0x20" by (simp add: s nth_append)
  moreover have "trim_len ?s (length tok) = length tok"
  proof (cases "length tok")
    case 0
    then show ?thesis by simp
  next
    case (Suc m)
    then have "?s ! Suc m = tok ! m" "tok ! m \<in> set tok" by (simp_all add: s nth_append)
    with assms have "?s ! Suc m \<noteq> 0x20" by (auto simp: token_ok_def)
    with Suc show ?thesis by (simp only: trim_len.simps if_False)
  qed
  ultimately have "trim_len ?s (Suc (length tok)) = length tok" by simp
  moreover have "drop 8 (banner_of tok t0 t1) = tok @ [0x20, 0x28, t0, t1, 0x29]"
    by (simp add: banner_of_def)
  ultimately show ?thesis
    using assms by (simp add: put_token_def banner_strchr token_ok_def)
qed

lemma hd_record_low:
  assumes "j < 30"
  shows "hd_record b ! j = (let k = hd_keys ! hd_release b
    in if shape k = HD_R2001 then record_2001 k b ! j
       else if shape k = HD_RSION then put 3 (bytes ''sion 2000 (SP)'') (put_territory b (replicate HD_RECORD 0)) ! j
       else (put_token b (put 3 (bytes ''Version'') ((put_territory b (replicate HD_RECORD 0))[2 := 0x2D])))[16 := 0x29] ! j)"
proof -
  have igo: "record_igo k b ! j =
      (if shape k = HD_RSION then put 3 (bytes ''sion 2000 (SP)'') (put_territory b (replicate HD_RECORD 0))
       else (put_token b (put 3 (bytes ''Version'') ((put_territory b (replicate HD_RECORD 0))[2 := 0x2D])))[16 := 0x29]) ! j"
    for k
    unfolding record_igo_def Let_def
    by (rule fold_dwords_low [OF _ order_refl assms]) (simp add: rec_consts)
  show ?thesis
    using assms by (simp add: hd_record_def Let_def nth_put length_record_2001 length_record_igo rec_consts igo)
qed

lemma guest_banner_vers:
  assumes "token_ok tok" "shape (hd_keys ! hd_release (banner_of tok t0 t1)) = HD_RVERS"
  shows "guest_banner (hd_keys ! hd_release (banner_of tok t0 t1)) (hd_record (banner_of tok t0 t1)) =
    banner_of tok t0 t1"
proof -
  let ?b = "banner_of tok t0 t1"
  let ?r = "(put 10 tok (put 3 (bytes ''Version'') ((replicate HD_RECORD 0)[0 := t0, 1 := t1, 2 := 0x2D])))[16 := 0x29]"
  have len: "length tok \<le> 5" "tok \<noteq> []" using assms(1) by (auto simp: token_ok_def)
  have r: "hd_record ?b ! j = ?r ! j" if "j < 30" for j
    using hd_record_low [OF that, of ?b] assms
    by (simp add: Let_def banner_territory banner_token HD_RECORD_def)
  have "take 7 (drop 3 (hd_record ?b)) = bytes ''Version''"
    by (rule nth_equalityI)
      (use len in \<open>auto simp: r nth_put rec_consts\<close>)
  moreover have "take 5 (drop 10 (hd_record ?b)) = tok @ replicate (5 - length tok) 0"
    by (rule nth_equalityI)
      (use len in \<open>auto simp: r nth_put rec_consts nth_append nth_list_update\<close>)
  moreover have "takeWhile (\<lambda>c. c \<noteq> 0) (tok @ replicate (5 - length tok) 0) = tok"
    using assms(1) by (subst takeWhile_append2) (auto simp: token_ok_def takeWhile_replicate)
  moreover have "hd_record ?b ! 0 = t0" "hd_record ?b ! 1 = t1"
    using len by (simp_all add: r nth_put rec_consts)
  ultimately show ?thesis
    using assms(2) by (simp add: guest_banner_def banner_of_def)
qed

lemma guest_banner_sion:
  assumes "token_ok tok" "t0 \<noteq> 0" "t1 \<noteq> 0"
    "shape (hd_keys ! hd_release (banner_of tok t0 t1)) = HD_RSION"
    "banner (hd_keys ! hd_release (banner_of tok t0 t1)) = bytes ''Version'' @ [0x20] @ tok"
  shows "guest_banner (hd_keys ! hd_release (banner_of tok t0 t1)) (hd_record (banner_of tok t0 t1)) =
    banner_of tok t0 t1"
proof -
  let ?b = "banner_of tok t0 t1"
  let ?r = "put 3 (bytes ''sion 2000 (SP)'') ((replicate HD_RECORD 0)[0 := t0, 1 := t1])"
  have r: "hd_record ?b ! j = ?r ! j" if "j < 30" for j
    using hd_record_low [OF that, of ?b] assms by (simp add: Let_def banner_territory HD_RECORD_def)
  have v: "hd_record ?b ! 0 = t0" "hd_record ?b ! 1 = t1" "hd_record ?b ! 2 = 0"
    by (simp_all add: r nth_put rec_consts)
  have "hd_record ?b = take 3 (hd_record ?b) @ drop 3 (hd_record ?b)" by simp
  also have "take 3 (hd_record ?b) = [t0, t1, 0]"
    by (rule nth_equalityI) (use v in \<open>auto simp: rec_consts less_Suc_eq numeral_eq_Suc\<close>)
  finally have "hd_record ?b = [t0, t1, 0] @ drop 3 (hd_record ?b)" .
  moreover have "takeWhile (\<lambda>c. c \<noteq> 0) ([t0, t1, 0] @ xs) = [t0, t1]" for xs
    using assms(2,3) by simp
  ultimately have "takeWhile (\<lambda>c. c \<noteq> 0) (hd_record ?b) = [t0, t1]" by metis
  then show ?thesis
    using assms(4,5) by (simp add: guest_banner_def banner_of_def)
qed

text \<open>The column layout.\<close>

lemma fold_fields_low:
  "length rec = HD_RECORD \<Longrightarrow> m \<le> 8 \<Longrightarrow> j < 30 \<Longrightarrow> fold (put_field k) [0..<m] rec ! j = rec ! j"
proof (induction m)
  case 0
  then show ?case by simp
next
  case (Suc m)
  have "set [0..<m] \<subseteq> {..<8}" using Suc.prems by auto
  from length_fold_fields [OF this Suc.prems(1)]
  have l: "length (fold (put_field k) [0..<m] rec) = HD_RECORD" .
  have "list_all (\<lambda>x. 30 \<le> at x) hd_fields" by (simp add: hd_fields_def)
  moreover have "length hd_fields = 8" by (simp add: hd_fields_def)
  ultimately have "30 \<le> at (hd_fields ! m)" using Suc.prems by (simp add: list_all_length)
  with put_field_low [OF _ l, of m j k] Suc show ?case by simp
qed

lemma guest_banner_2001:
  assumes "token_ok tok" "shape (hd_keys ! hd_release (banner_of tok t0 t1)) = HD_R2001"
  shows "guest_banner (hd_keys ! hd_release (banner_of tok t0 t1)) (hd_record (banner_of tok t0 t1)) =
    banner_of tok t0 t1"
proof -
  let ?b = "banner_of tok t0 t1"
  have len: "length ?b \<le> 18" using assms(1) by (simp add: token_ok_def)
  let ?r = "put (30 - length ?b) ?b (put 0 (replicate HD_TEXT 0x20) (replicate HD_RECORD 0))"
  have r: "hd_record ?b ! j = ?r ! j" if "j < 30" for j
  proof -
    have "record_2001 k ?b = fold (put_field k) [0..<8] ?r" for k
      using len by (simp add: record_2001_def Let_def min_def HD_BANNER_def del: length_banner_of)
    then show ?thesis
      using hd_record_low [OF that, of ?b] assms(2) len that
      by (simp add: Let_def fold_fields_low rec_consts del: length_banner_of)
  qed
  have "take 30 (hd_record ?b) = replicate (30 - length ?b) 0x20 @ ?b"
    by (rule nth_equalityI)
      (use len in \<open>auto simp: r nth_put rec_consts nth_append simp del: length_banner_of\<close>)
  moreover have "hd ?b \<noteq> 0x20" "?b \<noteq> []" by (simp_all add: banner_of_def bytes_Version)
  ultimately show ?thesis
    using assms(2) by (simp add: guest_banner_def skip_spaces)
qed

lemma hd_fields_disjoint:
  assumes "f < g" "g < 8"
  shows "at (hd_fields ! f) + cols (hd_fields ! f) \<le> at (hd_fields ! g)"
proof -
  have "sorted_wrt (\<lambda>x y. at x + cols x \<le> at y) hd_fields"
    by (simp add: hd_fields_def)
  moreover have "length hd_fields = 8" by (simp add: hd_fields_def)
  ultimately show ?thesis
    using sorted_wrt_nth_less [of "\<lambda>x y. at x + cols x \<le> at y" hd_fields f g] assms by simp
qed

definition field_text :: "hd_key \<Rightarrow> nat \<Rightarrow> u8 list" where
  "field_text k f =
     (if f = 7 then fmt_ld (field_value k f) else fmt_0ld (cols (hd_fields ! f)) (field_value k f))"

lemma put_field_at:
  assumes "f < 8" "length rec = HD_RECORD" "field_text k f \<noteq> []"
    "length (field_text k f) \<le> cols (hd_fields ! f)" "i < cols (hd_fields ! f)"
    "\<forall>j. at (hd_fields ! f) \<le> j \<and> j < at (hd_fields ! f) + cols (hd_fields ! f) \<longrightarrow> rec ! j = 0x20"
  shows "put_field k f rec ! (at (hd_fields ! f) + i) =
    (replicate (cols (hd_fields ! f) - length (field_text k f)) 0x20 @ field_text k f) ! i"
proof -
  have "at (hd_fields ! f) + cols (hd_fields ! f) \<le> HD_TEXT" by (rule hd_fields_in_text [OF assms(1)])
  then have "put_field k f rec =
      put (at (hd_fields ! f) + cols (hd_fields ! f) - length (field_text k f)) (field_text k f) rec"
    using assms(3,4) by (simp add: put_field_def field_text_def Let_def)
  with assms hd_fields_in_text [OF assms(1)] show ?thesis
    by (auto simp: nth_put nth_append rec_consts)
qed

lemma fold_fields_at:
  assumes "length rec = HD_RECORD" "m \<le> 8"
    "\<forall>j. 30 \<le> j \<and> j < HD_TEXT \<longrightarrow> rec ! j = 0x20" "f < 8"
    "field_text k f \<noteq> []" "length (field_text k f) \<le> cols (hd_fields ! f)" "i < cols (hd_fields ! f)"
  shows "fold (put_field k) [0..<m] rec ! (at (hd_fields ! f) + i) =
    (if f < m then (replicate (cols (hd_fields ! f) - length (field_text k f)) 0x20 @ field_text k f) ! i
     else 0x20)"
  using assms(2,4-7)
proof (induction m arbitrary: f i)
  case 0
  have "list_all (\<lambda>x. 30 \<le> at x) hd_fields" "length hd_fields = 8" by (simp_all add: hd_fields_def)
  then have "30 \<le> at (hd_fields ! f)" using 0 by (simp add: list_all_length)
  with 0 hd_fields_in_text [of f] assms(3) show ?case by simp
next
  case (Suc m)
  let ?x = "fold (put_field k) [0..<m] rec"
  have "set [0..<m] \<subseteq> {..<8}" using Suc.prems by auto
  from length_fold_fields [OF this assms(1)] have l: "length ?x = HD_RECORD" .
  consider "f < m" | "f = m" | "m < f" by linarith
  then show ?case
  proof cases
    case 1
    then have "put_field k m ?x ! (at (hd_fields ! f) + i) = ?x ! (at (hd_fields ! f) + i)"
      using hd_fields_disjoint [of f m] Suc.prems by (intro put_field_low [OF _ l]) simp_all
    with 1 Suc.IH [of f i] Suc.prems show ?thesis by simp
  next
    case 2
    have "\<forall>j. at (hd_fields ! m) \<le> j \<and> j < at (hd_fields ! m) + cols (hd_fields ! m) \<longrightarrow> ?x ! j = 0x20"
    proof (intro allI impI)
      fix j
      assume j: "at (hd_fields ! m) \<le> j \<and> j < at (hd_fields ! m) + cols (hd_fields ! m)"
      then obtain n where "j = at (hd_fields ! m) + n" "n < cols (hd_fields ! m)"
        by (metis le_add_diff_inverse nat_add_left_cancel_less)
      with 2 Suc.IH [of m n] Suc.prems show "?x ! j = 0x20" by simp
    qed
    with 2 put_field_at [of m ?x k i] l Suc.prems show ?thesis by simp
  next
    case 3
    have "put_field k m ?x ! (at (hd_fields ! f) + i) = ?x ! (at (hd_fields ! f) + i)"
    proof -
      have "at (hd_fields ! m) + cols (hd_fields ! m) \<le> at (hd_fields ! f)"
        by (rule hd_fields_disjoint) (use 3 Suc.prems in simp_all)
      moreover have "at (hd_fields ! f) + i < HD_RECORD"
        using hd_fields_in_text [of f] Suc.prems by (simp add: rec_consts)
      ultimately show ?thesis
        using l by (auto simp: put_field_def Let_def nth_put)
    qed
    with 3 Suc.IH [of f i] Suc.prems show ?thesis by simp
  qed
qed

lemma first_row_bound: "first_row ks b = Some n \<Longrightarrow> n < length ks"
  by (induction ks arbitrary: n) (auto split: if_splits)

lemma hd_release_bound: "hd_release b < 8"
  using first_row_bound [of hd_keys b]
  by (auto simp: hd_release_def hd_release_opt_def hd_keys_def split: option.split)

lemma only_2001_columns:
  assumes "n < 8" "shape (hd_keys ! n) = HD_R2001"
  shows "n = 0"
proof (rule ccontr)
  assume "n \<noteq> 0"
  then obtain m where n: "n = Suc m" "m < 7" using assms(1) by (cases n) simp_all
  have "list_all (\<lambda>k. shape k \<noteq> HD_R2001) (tl hd_keys)" by (simp add: hd_keys_def)
  moreover have "length (tl hd_keys) = 7" by (simp add: hd_keys_def)
  ultimately have "shape (tl hd_keys ! m) \<noteq> HD_R2001" using n by (simp add: list_all_length)
  moreover have "tl hd_keys ! m = hd_keys ! n" using n by (simp add: nth_tl hd_keys_def)
  ultimately show False using assms(2) by simp
qed

lemma field_text_2001:
  assumes "f < 8"
  shows "field_text (hd_keys ! 0) f \<noteq> []"
    and "length (field_text (hd_keys ! 0) f) \<le> cols (hd_fields ! f)"
    and "guest_atol (replicate m 0x20 @ field_text (hd_keys ! 0) f) = field_value (hd_keys ! 0) f"
proof -
  have pos: "0 \<le> field_value (hd_keys ! 0) f \<and> nat (field_value (hd_keys ! 0) f) < 10 ^ Suc 5 \<and>
      cols (hd_fields ! f) = 6" if "f < 7"
  proof -
    have "\<forall>g \<in> set [0..<7]. 0 \<le> field_value (hd_keys ! 0) g \<and>
        nat (field_value (hd_keys ! 0) g) < 10 ^ Suc 5 \<and> cols (hd_fields ! g) = 6"
      by (simp add: upt_rec field_value_def hd_keys_def hd_fields_def sint_word_ariths
          signed_take_bit_eq_if_positive)
    with that show ?thesis by simp
  qed
  have v7: "field_value (hd_keys ! 0) 7 = -35733698" by (simp add: field_value_def hd_keys_def)
  have c7: "cols (hd_fields ! 7) = 11" by (simp add: hd_fields_def)
  have small: "length (field_text (hd_keys ! 0) f) = 6" if "f < 7"
    using pos [OF that] that dec_digits_length [of "nat (field_value (hd_keys ! 0) f)" 5]
    by (auto simp: field_text_def fmt_0ld_def Let_def)
  have big: "length (field_text (hd_keys ! 0) 7) \<le> 11"
    using dec_digits_length [of 35733698 9] by (simp add: field_text_def fmt_ld_def v7)
  show "field_text (hd_keys ! 0) f \<noteq> []"
    by (simp add: field_text_def fmt_ld_def fmt_0ld_def Let_def)
  show "length (field_text (hd_keys ! 0) f) \<le> cols (hd_fields ! f)"
    using assms small pos big c7 by (cases "f = 7") auto
  show "guest_atol (replicate m 0x20 @ field_text (hd_keys ! 0) f) = field_value (hd_keys ! 0) f"
    using assms pos by (cases "f = 7") (simp_all add: field_text_def guest_atol_fmt)
qed

lemma record_2001_column:
  assumes "f < 8"
  shows "guest_atol (take (cols (hd_fields ! f)) (drop (at (hd_fields ! f)) (record_2001 (hd_keys ! 0) b))) =
    field_value (hd_keys ! 0) f"
proof -
  let ?k = "hd_keys ! 0" and ?c = "cols (hd_fields ! f)" and ?a = "at (hd_fields ! f)"
  let ?n = "min (length b) HD_BANNER"
  let ?r = "put (HD_BANNER - ?n) (take ?n b) (put 0 (replicate HD_TEXT 0x20) (replicate HD_RECORD 0))"
  have len: "length ?r = HD_RECORD" by (simp add: rec_consts)
  have sp: "\<forall>j. 30 \<le> j \<and> j < HD_TEXT \<longrightarrow> ?r ! j = 0x20"
    by (auto simp: nth_put rec_consts)
  have ft: "field_text ?k f \<noteq> []" "length (field_text ?k f) \<le> ?c" by (rule field_text_2001 [OF assms])+
  have r: "record_2001 ?k b = fold (put_field ?k) [0..<8] ?r"
    by (simp add: record_2001_def Let_def)
  have "take ?c (drop ?a (record_2001 ?k b)) = replicate (?c - length (field_text ?k f)) 0x20 @ field_text ?k f"
  proof (rule nth_equalityI)
    show "length (take ?c (drop ?a (record_2001 ?k b))) =
        length (replicate (?c - length (field_text ?k f)) 0x20 @ field_text ?k f)"
      using ft hd_fields_in_text [OF assms] by (simp add: length_record_2001 rec_consts)
  next
    fix i
    assume "i < length (take ?c (drop ?a (record_2001 ?k b)))"
    then have i: "i < ?c" by simp
    then have "take ?c (drop ?a (record_2001 ?k b)) ! i = record_2001 ?k b ! (?a + i)"
      using hd_fields_in_text [OF assms] by (simp add: length_record_2001 rec_consts)
    also have "\<dots> = (replicate (?c - length (field_text ?k f)) 0x20 @ field_text ?k f) ! i"
      unfolding r using fold_fields_at [OF len order_refl sp assms ft i] assms by (simp only: if_True)
    finally show "take ?c (drop ?a (record_2001 ?k b)) ! i =
        (replicate (?c - length (field_text ?k f)) 0x20 @ field_text ?k f) ! i" .
  qed
  then show ?thesis by (simp only: field_text_2001(3) [OF assms])
qed

section \<open>Properties\<close>



lemma guest_banner_composed:
  assumes "token_ok tok" "t0 \<noteq> 0" "t1 \<noteq> 0"
    "shape (hd_keys ! hd_release (banner_of tok t0 t1)) = HD_RSION \<Longrightarrow>
      banner (hd_keys ! hd_release (banner_of tok t0 t1)) = bytes ''Version'' @ [0x20] @ tok"
  shows "guest_banner (hd_keys ! hd_release (banner_of tok t0 t1)) (hd_record (banner_of tok t0 t1)) =
    banner_of tok t0 t1"
  using assms guest_banner_vers guest_banner_sion guest_banner_2001
  by (cases "shape (hd_keys ! hd_release (banner_of tok t0 t1))") simp_all

text \<open>
  The menu's banner check passes: for a banner of the form
  "Version TOKEN (TT)" the release's own parser (the 30-column field of 2001, the
  "%s %s (%c%c)" of the later I.G.O. builds, the hardcoded prefix of the older
  ones) composes exactly that banner from the record.
\<close>

lemma guest_composes_banner:
  assumes "token_ok tok" "t0 \<noteq> 0" "t1 \<noteq> 0"
    "shape (hd_keys ! hd_release (banner_of tok t0 t1)) = HD_RSION \<Longrightarrow>
      banner (hd_keys ! hd_release (banner_of tok t0 t1)) = bytes ''Version'' @ [0x20] @ tok"
  shows "guest_banner (hd_keys ! hd_release (banner_of tok t0 t1)) (hd_record (banner_of tok t0 t1)) =
    banner_of tok t0 t1"
  by (rule guest_banner_composed [OF assms])

text \<open>
  The content keys arrive.  In the binary layouts the eight little-endian
  dwords at byte 30 are the release's eight values; in the 2001 layout the eight
  number columns, read the way the extractor does (skip spaces, \<open>atol\<close>), are, the
  negative last one included.
\<close>

theorem guest_reads_keys:
  assumes "f < 8"
  shows "(if shape (hd_keys ! hd_release b) = HD_R2001
      then guest_atol (take (cols (hd_fields ! f)) (drop (at (hd_fields ! f)) (hd_record b))) =
        field_value (hd_keys ! hd_release b) f
      else guest_dword (hd_record b) (30 + 4 * f) = word_of_int (field_value (hd_keys ! hd_release b) f))"
proof (cases "shape (hd_keys ! hd_release b) = HD_R2001")
  case True
  then have r: "hd_release b = 0" using only_2001_columns [OF hd_release_bound] by simp
  let ?a = "at (hd_fields ! f)" and ?c = "cols (hd_fields ! f)"
  have b: "?a + ?c \<le> HD_TEXT" by (rule hd_fields_in_text [OF assms])
  have "take ?c (drop ?a (hd_record b)) = take ?c (drop ?a (record_2001 (hd_keys ! 0) b))"
    by (rule nth_equalityI)
      (use True b r in \<open>auto simp: hd_record_def Let_def nth_put length_record_2001 rec_consts\<close>)
  with True r record_2001_column [OF assms] show ?thesis by simp
next
  case False
  have "hd_record b ! j = record_igo (hd_keys ! hd_release b) b ! j" if "j < 62" for j
    using False that by (simp add: hd_record_def Let_def nth_put length_record_igo rec_consts)
  then have "guest_dword (hd_record b) (30 + 4 * f) =
      guest_dword (record_igo (hd_keys ! hd_release b) b) (30 + 4 * f)"
    using assms by (simp add: guest_dword_def)
  with False record_igo_dword [OF assms] show ?thesis by simp
qed

theorem guest_reads_keys_witness:
  "guest_dword (hd_record (bytes ''Version 2003 (DE)'')) (30 + 4 * 2) = 120672"
proof -
  have r: "hd_release (bytes ''Version 2003 (DE)'') = 2"
    by (simp add: hd_release_def hd_release_opt_def hd_keys_def bytes_def)
  have "field_value (hd_keys ! 2) 2 = 120672"
    by (simp add: field_value_def hd_fields_def hd_keys_def)
  moreover have "shape (hd_keys ! 2) = HD_RSION" by (simp add: hd_keys_def)
  ultimately show ?thesis
    using guest_reads_keys [of 2 "bytes ''Version 2003 (DE)''"] by (simp add: r)
qed

end
