(* ===== verification/Session.thy ===== *)
theory Session
  imports HD_Record
begin

text \<open>
  The bursts of the session layer: fifteen command bytes, clocked on DATA bit 0,
  that spell the part's password pair one nibble at a time through fixed tables.
  A part accepts its own burst, the identity variant of it and the burst of the
  zero password, falls silent on another pair's, and ignores everything else.

  \<open>hs_burst_class\<close> decides that with one candidate mask per nibble; the theory
  shows it to be the specification \<open>burst_spec\<close>, in which the masks are the
  existence of a password, and follows the bytes over the wire through \<open>hb_data\<close>.
\<close>

section \<open>The tables\<close>

definition hs_sweep_w :: "u8 list" where
  "hs_sweep_w =
    [0x78, 0x6A, 0x56, 0x26, 0x02, 0x18, 0x6E, 0x3C, 0x2E, 0x3A, 0x72, 0x52,
     0x0C, 0x64, 0x70, 0x74, 0x2E, 0x24, 0x78, 0x36, 0x22, 0x0C, 0x1C, 0x26,
     0x78, 0x28, 0x68, 0x54, 0x40, 0x0C, 0x70, 0x52, 0x0C, 0x46, 0x44, 0x2E,
     0x6A, 0x68, 0x70, 0x78, 0x6A, 0x7E, 0x08, 0x40, 0x1C, 0x1C, 0x1A, 0x16,
     0x12, 0x50, 0x36, 0x0C, 0x58, 0x2C, 0x6C, 0x30, 0x04, 0x3C, 0x4E, 0x12,
     0x20, 0x14, 0x6A, 0x44]"

definition HS_SWEEP_A :: u64 where "HS_SWEEP_A = 0xF57A37E78F8FBDDA"

definition hs_sweep_table :: "u16 \<Rightarrow> u64" where
  "hs_sweep_table pw1 =
     (if pw1 = 0x7477 then 0x423ED3BFE2BEF3BF
      else if pw1 = 0x6B91 then 0x0EE697F74CE4D5F5
      else 0x225E9EDE445CDCDC)"

definition hs_burst_tab :: "u8 list list" where
  "hs_burst_tab =
    [[0x1E, 0x2E, 0x48, 0x06, 0x18, 0x28, 0x0C, 0x00, 0x6A, 0x0C, 0x3A, 0x5A, 0x22, 0x42, 0x4E, 0x12],
     [0x58, 0x68, 0x70, 0x38, 0x58, 0x68, 0x70, 0x7C, 0x7C, 0x38, 0x38, 0x58, 0x38, 0x58, 0x68, 0x38],
     [0x4A, 0x7A, 0x1A, 0x52, 0x4A, 0x7A, 0x5E, 0x52, 0x1A, 0x5E, 0x7A, 0x1A, 0x7A, 0x1A, 0x1A, 0x4A],
     [0x7A, 0x3E, 0x1A, 0x7A, 0x1A, 0x7A, 0x7A, 0x2A, 0x2A, 0x1A, 0x7A, 0x32, 0x2A, 0x1A, 0x3E, 0x32],
     [0x34, 0x04, 0x1C, 0x54, 0x34, 0x04, 0x1C, 0x10, 0x10, 0x54, 0x54, 0x34, 0x54, 0x34, 0x04, 0x54],
     [0x4C, 0x08, 0x08, 0x68, 0x08, 0x68, 0x58, 0x08, 0x68, 0x58, 0x40, 0x08, 0x68, 0x58, 0x40, 0x4C],
     [0x68, 0x2C, 0x08, 0x68, 0x08, 0x68, 0x68, 0x38, 0x38, 0x08, 0x68, 0x20, 0x38, 0x08, 0x2C, 0x20],
     [0x04, 0x40, 0x40, 0x20, 0x40, 0x20, 0x10, 0x40, 0x20, 0x10, 0x08, 0x40, 0x20, 0x10, 0x08, 0x04],
     [0x52, 0x32, 0x02, 0x1A, 0x52, 0x32, 0x02, 0x1A, 0x16, 0x16, 0x52, 0x52, 0x32, 0x52, 0x32, 0x02],
     [0x70, 0x10, 0x58, 0x40, 0x70, 0x10, 0x58, 0x40, 0x54, 0x54, 0x10, 0x10, 0x10, 0x70, 0x40, 0x70],
     [0x70, 0x10, 0x20, 0x38, 0x70, 0x10, 0x20, 0x38, 0x34, 0x34, 0x70, 0x70, 0x10, 0x70, 0x10, 0x20],
     [0x08, 0x08, 0x4C, 0x4C, 0x2C, 0x4C, 0x2C, 0x1C, 0x4C, 0x2C, 0x1C, 0x04, 0x4C, 0x2C, 0x1C, 0x04],
     [0x3E, 0x5E, 0x16, 0x0E, 0x3E, 0x5E, 0x16, 0x0E, 0x1A, 0x1A, 0x5E, 0x5E, 0x5E, 0x3E, 0x0E, 0x3E],
     [0x1C, 0x1C, 0x1C, 0x1C, 0x1C, 0x1C, 0x1C, 0x1C, 0x1C, 0x1C, 0x1C, 0x1C, 0x1C, 0x1C, 0x1C, 0x1C],
     [0x38, 0x38, 0x7C, 0x7C, 0x1C, 0x7C, 0x1C, 0x2C, 0x7C, 0x1C, 0x2C, 0x34, 0x7C, 0x1C, 0x2C, 0x34]]"

definition hs_burst_nib :: "nat list" where
  "hs_burst_nib = [0, 1, 2, 3, 4, 5, 6, 7, 7, 6, 5, 4, 3, 0, 1]"

definition hs_ramp_burst :: "u8 list" where
  "hs_ramp_burst =
    [0x0A, 0x78, 0x5A, 0x3A, 0x14, 0x48, 0x28, 0x00, 0x12, 0x50, 0x30, 0x0C, 0x1E, 0x5C, 0x3C]"

definition HS_BURST_MODE :: nat where "HS_BURST_MODE = 9"

datatype hb_class = HB_OTHER | HB_SWEEP | HB_IDENT | HB_FOREIGN

definition hd_pass2 :: "u16 \<Rightarrow> u16" where
  "hd_pass2 pw1 = (if pw1 = 0x7477 then 0x7D57 else if pw1 = 0x6B91 then 0x24A3 else 0x1329)"

section \<open>The classifier\<close>

record burst_scan =
  cand :: "u16 list"
  own :: bool
  ident :: bool

definition pw_nib :: "u32 \<Rightarrow> nat \<Rightarrow> nat" where
  "pw_nib pw n = unat (drop_bit (4 * n) pw AND 0x0F)"

definition burst_want :: "u32 \<Rightarrow> nat \<Rightarrow> u8" where
  "burst_want pw i = hs_burst_tab ! i ! pw_nib pw (hs_burst_nib ! i)"

definition burst_fits :: "nat \<Rightarrow> u8 \<Rightarrow> u16" where
  "burst_fits i c =
     fold (\<lambda>v m. if hs_burst_tab ! i ! v = c then m OR push_bit v 1 else m) [0..<16] 0"

definition burst_byte :: "u8 list \<Rightarrow> u32 \<Rightarrow> nat \<Rightarrow> burst_scan \<Rightarrow> burst_scan" where
  "burst_byte b pw i s =
     (let n = hs_burst_nib ! i; want = burst_want pw i
      in if i = HS_BURST_MODE \<and> b ! i = 0x50 \<and> want \<noteq> 0x50 then s\<lparr>ident := True\<rparr>
         else (let s = (if b ! i \<noteq> want then s\<lparr>own := False\<rparr> else s)
               in s\<lparr>cand := (cand s)[n := cand s ! n AND burst_fits i (b ! i)]\<rparr>))"

definition hs_burst_class :: "u8 list \<Rightarrow> u32 \<Rightarrow> hb_class" where
  "hs_burst_class b pw =
     (if take 15 b = hs_ramp_burst then HB_IDENT
      else (let s = fold (burst_byte b pw) [0..<15]
                      \<lparr>cand = replicate 8 0xFFFF, own = True, ident = False\<rparr>
            in if own s then (if ident s then HB_IDENT else HB_SWEEP)
               else if \<exists>n \<in> set [0..<8]. cand s ! n = 0 then HB_OTHER
               else HB_FOREIGN))"


section \<open>The specification of the classifier\<close>

text \<open>
  A password accepts a burst when every byte is its table entry, the mode byte
  being free to be \<open>0x50\<close>.
\<close>

definition burst_free :: "u8 list \<Rightarrow> nat \<Rightarrow> bool" where
  "burst_free b i \<longleftrightarrow> i = HS_BURST_MODE \<and> b ! i = 0x50"

definition burst_accepts :: "u32 \<Rightarrow> u8 list \<Rightarrow> bool" where
  "burst_accepts pw b \<longleftrightarrow> (\<forall>i<15. burst_free b i \<or> b ! i = burst_want pw i)"

lemma pw_nib_less: "pw_nib pw n < 16"
proof -
  have "drop_bit (4 * n) pw AND 0x0F \<le> (0x0F :: u32)" by (rule word_and_le1)
  then show ?thesis by (simp add: pw_nib_def word_le_nat_alt)
qed

lemma burst_tab_mode: "v < 16 \<Longrightarrow> hs_burst_tab ! HS_BURST_MODE ! v \<noteq> 0x50"
proof -
  have "list_all (\<lambda>v. hs_burst_tab ! HS_BURST_MODE ! v \<noteq> 0x50) [0..<16]" by code_simp
  then show "v < 16 \<Longrightarrow> hs_burst_tab ! HS_BURST_MODE ! v \<noteq> 0x50" by (simp only: list_all_iff set_upt atLeastLessThan_iff) simp
qed

lemma burst_nib_less: "i < 15 \<Longrightarrow> hs_burst_nib ! i < 8"
proof -
  have "list_all (\<lambda>i. hs_burst_nib ! i < 8) [0..<15]" by code_simp
  then show "i < 15 \<Longrightarrow> hs_burst_nib ! i < 8" by (simp only: list_all_iff set_upt atLeastLessThan_iff) simp
qed

lemma burst_want_mode: "burst_want pw HS_BURST_MODE \<noteq> 0x50"
  unfolding burst_want_def by (rule burst_tab_mode) (rule pw_nib_less)

lemma bit_fits_fold:
  fixes m :: u16
  assumes "v < 16"
  shows "bit (fold (\<lambda>v m. if P v then m OR push_bit v 1 else m) vs m) v \<longleftrightarrow>
    bit m v \<or> v \<in> set vs \<and> P v"
  using assms by (induction vs arbitrary: m) (auto simp: bit_simps)

lemma bit_burst_fits: "v < 16 \<Longrightarrow> bit (burst_fits i c) v \<longleftrightarrow> hs_burst_tab ! i ! v = c"
  unfolding burst_fits_def by (subst bit_fits_fold) auto

text \<open>What the scan has established after \<open>k\<close> bytes.\<close>

definition scan_ok :: "u8 list \<Rightarrow> u32 \<Rightarrow> nat \<Rightarrow> burst_scan \<Rightarrow> bool" where
  "scan_ok b pw k s \<longleftrightarrow>
     length (cand s) = 8 \<and>
     own s = (\<forall>i<k. burst_free b i \<or> b ! i = burst_want pw i) \<and>
     ident s = (HS_BURST_MODE < k \<and> b ! HS_BURST_MODE = 0x50) \<and>
     (\<forall>n<8. \<forall>v<16. bit (cand s ! n) v =
        (\<forall>i<k. hs_burst_nib ! i = n \<longrightarrow> burst_free b i \<or> hs_burst_tab ! i ! v = b ! i))"

lemma bit_mask16: "v < 16 \<Longrightarrow> bit (0xFFFF :: u16) v"
proof -
  have "(0xFFFF :: u16) = mask 16" by code_simp
  then have "bit (0xFFFF :: u16) v = bit (mask 16 :: u16) v" by (simp only:)
  then show "v < 16 \<Longrightarrow> bit (0xFFFF :: u16) v" by (simp only: bit_mask_iff) simp
qed

lemma scan_ok_init: "scan_ok b pw 0 \<lparr>cand = replicate 8 0xFFFF, own = True, ident = False\<rparr>"
  unfolding scan_ok_def using bit_mask16 by simp

lemma burst_byte_free:
  assumes "burst_free b i"
  shows "burst_byte b pw i s = s\<lparr>ident := True\<rparr>"
  using assms burst_want_mode by (auto simp: burst_byte_def burst_free_def Let_def)

lemma burst_byte_bound:
  assumes "\<not> burst_free b i"
  shows "burst_byte b pw i s =
    s\<lparr>own := (own s \<and> b ! i = burst_want pw i),
      cand := (cand s)[hs_burst_nib ! i := cand s ! (hs_burst_nib ! i) AND burst_fits i (b ! i)]\<rparr>"
  using assms by (auto simp: burst_byte_def burst_free_def Let_def)

lemma scan_ok_byte:
  assumes "scan_ok b pw k s" "k < 15"
  shows "scan_ok b pw (Suc k) (burst_byte b pw k s)"
proof (cases "burst_free b k")
  case True
  then have "HS_BURST_MODE = k \<and> b ! HS_BURST_MODE = 0x50" by (auto simp: burst_free_def)
  with True assms(1) show ?thesis
    by (simp add: burst_byte_free scan_ok_def less_Suc_eq all_conj_distrib imp_disjL)
next
  case False
  then have m: "HS_BURST_MODE < Suc k \<and> b ! HS_BURST_MODE = 0x50 \<longleftrightarrow>
      HS_BURST_MODE < k \<and> b ! HS_BURST_MODE = 0x50"
    by (auto simp: burst_free_def less_Suc_eq)
  have n: "hs_burst_nib ! k < 8" using assms(2) by (rule burst_nib_less)
  have c: "bit ((cand s)[hs_burst_nib ! k := cand s ! (hs_burst_nib ! k) AND burst_fits k (b ! k)] ! n) v =
      (\<forall>i<Suc k. hs_burst_nib ! i = n \<longrightarrow> burst_free b i \<or> hs_burst_tab ! i ! v = b ! i)"
    if "n < 8" "v < 16" for n v
    using assms(1) that False n
    by (cases "n = hs_burst_nib ! k")
      (auto simp: scan_ok_def nth_list_update_if bit_simps bit_burst_fits less_Suc_eq)
  have o: "(own s \<and> b ! k = burst_want pw k) =
      (\<forall>i<Suc k. burst_free b i \<or> b ! i = burst_want pw i)"
    using assms(1) False by (auto simp: scan_ok_def less_Suc_eq)
  show ?thesis
    using assms(1) by (simp add: burst_byte_bound [OF False] scan_ok_def [of _ _ "Suc k"] c o m)
      (simp add: scan_ok_def)
qed

lemma scan_ok_fold:
  "k \<le> 15 \<Longrightarrow> scan_ok b pw k
     (fold (burst_byte b pw) [0..<k] \<lparr>cand = replicate 8 0xFFFF, own = True, ident = False\<rparr>)"
proof (induction k)
  case 0
  then show ?case using scan_ok_init by simp
next
  case (Suc k)
  then show ?case by (simp add: scan_ok_byte del: upt.simps(2) add: upt_Suc_append)
qed

text \<open>Eight nibbles make a password.\<close>

lemma bit_imp_less_exp16: "bit (x :: nat) m \<Longrightarrow> x < 16 \<Longrightarrow> m < 4"
proof (rule ccontr)
  assume x: "bit x m" "x < 16" "\<not> m < 4"
  have "2 ^ 4 \<le> (2 :: nat) ^ m" by (rule power_increasing) (use x in simp_all)
  then have "x div 2 ^ m = 0" using x by simp
  then show False using x(1) by (simp add: bit_iff_odd)
qed

lemma bit_0x0F: "bit (0x0F :: u32) m \<longleftrightarrow> m < 4"
proof -
  have "(0x0F :: u32) = mask 4" by code_simp
  then have "bit (0x0F :: u32) m = bit (mask 4 :: u32) m" by (simp only:)
  then show ?thesis by (simp only: bit_mask_iff) auto
qed

lemma password_of_nibbles:
  assumes "\<And>n. n < 8 \<Longrightarrow> f n < 16"
  obtains pw where "\<And>n. n < 8 \<Longrightarrow> pw_nib pw n = f n"
proof -
  let ?b = "map (\<lambda>j. bit (f (j div 4)) (j mod 4)) [0..<32]"
  let ?pw = "horner_sum of_bool 2 ?b :: u32"
  have "pw_nib ?pw n = f n" if "n < 8" for n
  proof (rule bit_eqI)
    fix m
    have lim: "bit (f n) m \<Longrightarrow> m < 4"
      using assms [OF that] bit_imp_less_exp16 by blast
    have "bit (pw_nib ?pw n) m = (m < 4 \<and> bit ?pw (4 * n + m))"
      using bit_0x0F [of m]
      by (auto simp: pw_nib_def bit_unsigned_iff bit_simps)
    also have "\<dots> = (m < 4 \<and> bit (f n) m)"
      using that by (auto simp: bit_horner_sum_bit_word_iff)
    finally show "bit (pw_nib ?pw n) m = bit (f n) m" using lim by blast
  qed
  then show thesis by (rule that)
qed


text \<open>A burst that leaves no nibble without a candidate spells some password.\<close>

lemma exists_accepting:
  "(\<exists>pw. burst_accepts pw b) \<longleftrightarrow>
   (\<forall>n<8. \<exists>v<16. \<forall>i<15. hs_burst_nib ! i = n \<longrightarrow> burst_free b i \<or> hs_burst_tab ! i ! v = b ! i)"
  (is "?L \<longleftrightarrow> ?R")
proof
  assume ?L
  then obtain pw where "burst_accepts pw b" ..
  then have "\<forall>i<15. hs_burst_nib ! i = n \<longrightarrow> burst_free b i \<or> hs_burst_tab ! i ! pw_nib pw n = b ! i" for n
    by (auto simp: burst_accepts_def burst_want_def)
  then show ?R using pw_nib_less by blast
next
  assume ?R
  then obtain f where f: "\<And>n. n < 8 \<Longrightarrow> f n < 16"
      "\<And>n i. n < 8 \<Longrightarrow> i < 15 \<Longrightarrow> hs_burst_nib ! i = n \<Longrightarrow> burst_free b i \<or> hs_burst_tab ! i ! f n = b ! i"
    by metis
  obtain pw where pw: "\<And>n. n < 8 \<Longrightarrow> pw_nib pw n = f n"
    by (rule password_of_nibbles [of f]) (use f(1) in auto)
  have "burst_accepts pw b"
    unfolding burst_accepts_def burst_want_def
    using f(2) pw burst_nib_less by (metis (no_types))
  then show ?L ..
qed

lemma u16_zero_iff: "(w :: u16) = 0 \<longleftrightarrow> (\<forall>v<16. \<not> bit w v)"
  by (auto simp: bit_eq_iff)

definition burst_spec :: "u8 list \<Rightarrow> u32 \<Rightarrow> hb_class \<Rightarrow> bool" where
  "burst_spec b pw c \<longleftrightarrow>
     (if b = hs_ramp_burst then c = HB_IDENT
      else if burst_accepts pw b then c = (if b ! HS_BURST_MODE = 0x50 then HB_IDENT else HB_SWEEP)
      else c = (if \<exists>pw'. burst_accepts pw' b then HB_FOREIGN else HB_OTHER))"

lemma hs_burst_class_scan:
  assumes "length b = 15" "scan_ok b pw 15 s"
    and s: "s = fold (burst_byte b pw) [0..<15] \<lparr>cand = replicate 8 0xFFFF, own = True, ident = False\<rparr>"
  shows "burst_spec b pw (hs_burst_class b pw)"
proof -
  have own: "own s = burst_accepts pw b"
    using assms(2) by (simp add: scan_ok_def burst_accepts_def)
  have id: "ident s = (b ! HS_BURST_MODE = 0x50)"
    using assms(2) by (simp add: scan_ok_def HS_BURST_MODE_def)
  have cand: "(\<exists>n \<in> set [0..<8]. cand s ! n = 0) = (\<nexists>pw. burst_accepts pw b)"
    using assms(2) by (simp add: exists_accepting scan_ok_def u16_zero_iff set_upt Bex_def del: upt_rec_numeral)
  show ?thesis
    unfolding hs_burst_class_def burst_spec_def s [symmetric] Let_def own id cand
    using assms(1) by auto
qed

text \<open>
  The burst classifier computes its specification: for every fifteen-byte
  burst and every password pair, the bit masks of \<open>hs_burst_class\<close> decide exactly
  whether the burst is the zero-password one, one the part's own password accepts
  (the sweep, or the identity variant with \<open>0x50\<close> in the mode byte), one that some
  other password pair accepts, or none.
\<close>

lemma burst_class_correct:
  assumes "length b = 15"
  shows "burst_spec b pw (hs_burst_class b pw)"
  by (rule hs_burst_class_scan [OF assms scan_ok_fold refl]) simp

section \<open>Collecting a burst\<close>

record hb =
  hb_gate :: bool
  hb_pw :: u32
  hb_prev :: u8
  hb_n :: int
  hb_win :: "u8 list"
  hb_mode :: hb_class

definition hb_judge :: "hb \<Rightarrow> hb" where
  "hb_judge dv =
     (let c = hs_burst_class (hb_win dv) (hb_pw dv)
      in (if c \<noteq> HB_OTHER then dv\<lparr>hb_mode := c\<rparr> else dv)\<lparr>hb_n := -1\<rparr>)"

definition hb_data :: "hb \<Rightarrow> u8 \<Rightarrow> hb" where
  "hb_data dv v =
     (let b = v AND 0x7E;
          dv = (if v AND 1 \<noteq> 0 \<and> hb_prev dv AND 1 = 0 then
                  (if b = 0x46 then dv\<lparr>hb_n := 0\<rparr>
                   else if hb_n dv \<ge> 0 then
                     (let dv = dv\<lparr>hb_win := (hb_win dv)[nat (hb_n dv) := b], hb_n := hb_n dv + 1\<rparr>
                      in if hb_n dv = 15 then hb_judge dv else dv)
                   else dv)
                else dv)
      in dv\<lparr>hb_prev := v\<rparr>)"

definition hb_wf :: "hb \<Rightarrow> bool" where
  "hb_wf dv \<longleftrightarrow> length (hb_win dv) = 15 \<and> -1 \<le> hb_n dv \<and> hb_n dv < 15"

lemma hb_data_wf [wf_intros]: "hb_wf dv \<Longrightarrow> hb_wf (hb_data dv v)"
  by (auto simp: hb_wf_def hb_data_def hb_judge_def Let_def)

lemma hb_data_config [simp]:
  "hb_pw (hb_data dv v) = hb_pw dv" "hb_gate (hb_data dv v) = hb_gate dv"
  "hb_prev (hb_data dv v) = v"
  by (simp_all add: hb_data_def hb_judge_def Let_def)


section \<open>A burst on the wire\<close>

text \<open>A command byte is put on DATA and clocked by raising bit 0; \<open>h\<close> is the release's bit 7.\<close>

definition clock_byte :: "u8 \<Rightarrow> u8 \<Rightarrow> u8 list" where
  "clock_byte h b = [b OR h, b OR h OR 1]"

definition burst_wire :: "u8 \<Rightarrow> u8 list \<Rightarrow> u8 list" where
  "burst_wire h bs = concat (map (clock_byte h) (0x46 # bs))"

definition hb_run :: "u8 list \<Rightarrow> hb \<Rightarrow> hb" where
  "hb_run vs dv = fold (\<lambda>v d. hb_data d v) vs dv"

definition command_byte :: "u8 \<Rightarrow> bool" where
  "command_byte b \<longleftrightarrow> b AND 0x7E = b"

definition session_level :: "u8 \<Rightarrow> bool" where
  "session_level h \<longleftrightarrow> h = 0 \<or> h = 0x80"

lemma hb_run_simps [simp]:
  "hb_run [] dv = dv" "hb_run (v # vs) dv = hb_run vs (hb_data dv v)"
  "hb_run (us @ vs) dv = hb_run vs (hb_run us dv)"
  by (simp_all add: hb_run_def)

lemma hb_run_wf [wf_intros]: "hb_wf dv \<Longrightarrow> hb_wf (hb_run vs dv)"
  by (induction vs arbitrary: dv) (simp_all add: hb_data_wf)

lemma hb_run_config [simp]: "hb_pw (hb_run vs dv) = hb_pw dv" "hb_gate (hb_run vs dv) = hb_gate dv"
  by (induction vs arbitrary: dv) simp_all

lemma clock_byte_bits:
  assumes "command_byte b" "session_level h"
  shows "(b OR h) AND 1 = 0" "(b OR h OR 1) AND 1 \<noteq> 0" "(b OR h OR 1) AND 0x7E = b"
proof -
  have bits: "bit b n = (bit b n \<and> bit (0x7E :: u8) n)" for n
    using assms(1) by (metis bit_and_iff command_byte_def)
  have b0: "\<not> bit b 0" "\<not> bit b 7" using bits [of 0] bits [of 7] by (simp_all add: bit_simps)
  have h: "\<not> bit h 0" "\<not> bit h 1" "\<not> bit h 2" "\<not> bit h 3" "\<not> bit h 4" "\<not> bit h 5" "\<not> bit h 6"
    using assms(2) by (auto simp: session_level_def)
  show "(b OR h) AND 1 = 0" using b0 h by (intro byte_eqI) (simp_all add: bit_simps)
  show "(b OR h OR 1) AND 0x7E = b" using b0 h by (intro byte_eqI) (simp_all add: bit_simps)
  have "bit ((b OR h OR 1) AND 1) 0" by (simp add: bit_simps)
  then show "(b OR h OR 1) AND 1 \<noteq> 0" by force
qed

text \<open>What one clocked command byte does.\<close>

definition hb_command :: "u8 \<Rightarrow> hb \<Rightarrow> hb" where
  "hb_command b dv =
     (if b = 0x46 then dv\<lparr>hb_n := 0\<rparr>
      else if hb_n dv \<ge> 0 then
        (let dv = dv\<lparr>hb_win := (hb_win dv)[nat (hb_n dv) := b], hb_n := hb_n dv + 1\<rparr>
         in if hb_n dv = 15 then hb_judge dv else dv)
      else dv)"

lemma hb_command_prev: "hb_command b (dv\<lparr>hb_prev := p\<rparr>) = (hb_command b dv)\<lparr>hb_prev := p\<rparr>"
  unfolding hb_command_def hb_judge_def Let_def by (rule hb.equality) simp_all

lemma hb_clock_byte:
  assumes "command_byte b" "session_level h"
  shows "hb_run (clock_byte h b) dv = (hb_command b dv)\<lparr>hb_prev := b OR h OR 1\<rparr>"
proof -
  have low: "hb_data dv (b OR h) = dv\<lparr>hb_prev := b OR h\<rparr>"
    using clock_byte_bits(1) [OF assms] by (simp add: hb_data_def)
  have "hb_data (dv\<lparr>hb_prev := b OR h\<rparr>) (b OR h OR 1) =
      (hb_command b (dv\<lparr>hb_prev := b OR h\<rparr>))\<lparr>hb_prev := b OR h OR 1\<rparr>"
    using clock_byte_bits [OF assms] by (simp add: hb_data_def hb_command_def)
  then show ?thesis
    unfolding clock_byte_def hb_run_simps low by (simp add: hb_command_prev)
qed

lemma hb_collect:
  assumes "session_level h" "\<forall>b \<in> set bs. command_byte b \<and> b \<noteq> 0x46"
    and "length (hb_win dv) = 15" "hb_n dv = int k" "k + length bs < 15"
  shows "\<exists>p. hb_run (concat (map (clock_byte h) bs)) dv =
     dv\<lparr>hb_win := take k (hb_win dv) @ bs @ drop (k + length bs) (hb_win dv),
        hb_n := int (k + length bs), hb_prev := p\<rparr>"
  using assms(2-)
proof (induction bs arbitrary: dv k)
  case Nil
  have "dv = dv\<lparr>hb_win := take k (hb_win dv) @ drop k (hb_win dv), hb_n := int k, hb_prev := hb_prev dv\<rparr>"
    using Nil(3) by (intro hb.equality) simp_all
  then show ?case by (intro exI [of _ "hb_prev dv"]) simp
next
  case (Cons b bs)
  let ?d = "dv\<lparr>hb_win := (hb_win dv)[k := b], hb_n := int (Suc k), hb_prev := b OR h OR 1\<rparr>"
  have "hb_run (clock_byte h b) dv = ?d"
    using Cons.prems hb_clock_byte [OF _ assms(1)] by (simp add: hb_command_def)
  moreover obtain p where "hb_run (concat (map (clock_byte h) bs)) ?d =
      ?d\<lparr>hb_win := take (Suc k) (hb_win ?d) @ bs @ drop (Suc k + length bs) (hb_win ?d),
        hb_n := int (Suc k + length bs), hb_prev := p\<rparr>"
    using Cons.IH [of ?d "Suc k"] Cons.prems by auto
  moreover have "take (Suc k) ((hb_win dv)[k := b]) = take k (hb_win dv) @ [b]"
    using Cons.prems by (intro take_update_snoc) simp
  ultimately show ?case by (intro exI [of _ p]) simp
qed

definition class_mode :: "hb_class \<Rightarrow> hb_class \<Rightarrow> hb_class" where
  "class_mode c m = (if c = HB_OTHER then m else c)"

theorem burst_on_wire:
  assumes "hb_wf dv" "session_level h" "length bs = 15" "\<forall>b \<in> set bs. command_byte b \<and> b \<noteq> 0x46"
  defines "d \<equiv> hb_run (burst_wire h bs) dv"
  shows "hb_mode d = class_mode (hs_burst_class bs (hb_pw dv)) (hb_mode dv)" "hb_n d = -1"
    "hb_win d = bs"
proof -
  obtain cs c where bs: "bs = cs @ [c]" "length cs = 14"
    using assms(3) by (cases bs rule: rev_cases) auto
  let ?d0 = "dv\<lparr>hb_n := 0, hb_prev := 0x46 OR h OR 1\<rparr>"
  have start: "hb_run (clock_byte h 0x46) dv = ?d0"
    using hb_clock_byte [OF _ assms(2), of "0x46" dv] by (simp add: command_byte_def hb_command_def)
  obtain p where p: "hb_run (concat (map (clock_byte h) cs)) ?d0 =
      ?d0\<lparr>hb_win := cs @ drop 14 (hb_win dv), hb_n := 14, hb_prev := p\<rparr>" (is "_ = ?d1")
    using hb_collect [of h cs ?d0 0] assms bs by (auto simp: hb_wf_def)
  have "drop 14 (hb_win dv) = [hb_win dv ! 14]"
    using assms(1) Cons_nth_drop_Suc [of 14 "hb_win dv"] by (simp add: hb_wf_def)
  then have w: "(cs @ drop 14 (hb_win dv))[14 := c] = bs"
    using bs by (simp add: list_update_append)
  have "d = hb_run (clock_byte h c) ?d1"
    using start p bs unfolding d_def burst_wire_def by simp
  also have "\<dots> = (hb_command c ?d1)\<lparr>hb_prev := c OR h OR 1\<rparr>"
    using assms(4) bs by (intro hb_clock_byte [OF _ assms(2)]) simp
  finally have "d = (hb_judge (?d1\<lparr>hb_win := bs, hb_n := 15\<rparr>))\<lparr>hb_prev := c OR h OR 1\<rparr>"
    using assms(4) bs w by (simp add: hb_command_def)
  then show "hb_mode d = class_mode (hs_burst_class bs (hb_pw dv)) (hb_mode dv)" "hb_n d = -1"
    "hb_win d = bs"
    by (simp_all add: hb_judge_def class_mode_def Let_def)
qed


section \<open>The bursts the libraries send\<close>

definition burst_of :: "u32 \<Rightarrow> u8 list" where
  "burst_of pw = map (burst_want pw) [0..<15]"

text \<open>The identity variant: the mode byte replaced by \<open>0x50\<close>.\<close>

definition ident_burst :: "u32 \<Rightarrow> u8 list" where
  "ident_burst pw = (burst_of pw)[HS_BURST_MODE := 0x50]"

text \<open>\<open>hb_pw\<close> as the device sets it up: both passwords of the pair.\<close>

definition pass_pair :: "u16 \<Rightarrow> u32" where
  "pass_pair pw1 = push_bit 16 (ucast (hd_pass2 pw1)) OR ucast pw1"

lemma length_burst_of [simp]: "length (burst_of pw) = 15" "length (ident_burst pw) = 15"
  by (simp_all add: burst_of_def ident_burst_def)

lemma burst_of_nth: "i < 15 \<Longrightarrow> burst_of pw ! i = burst_want pw i"
  by (simp add: burst_of_def del: upt_rec_numeral)

lemma ident_burst_nth:
  "i < 15 \<Longrightarrow> ident_burst pw ! i = (if i = HS_BURST_MODE then 0x50 else burst_want pw i)"
  by (simp add: ident_burst_def nth_list_update_if burst_of_nth)

lemma burst_entries: "i < 15 \<Longrightarrow> v < 16 \<Longrightarrow>
    command_byte (hs_burst_tab ! i ! v) \<and> hs_burst_tab ! i ! v \<noteq> 0x46"
proof -
  have "list_all (\<lambda>i. list_all (\<lambda>v. command_byte (hs_burst_tab ! i ! v) \<and> hs_burst_tab ! i ! v \<noteq> 0x46) [0..<16]) [0..<15]"
    by code_simp
  then show "i < 15 \<Longrightarrow> v < 16 \<Longrightarrow> command_byte (hs_burst_tab ! i ! v) \<and> hs_burst_tab ! i ! v \<noteq> 0x46"
    by (simp only: list_all_iff set_upt atLeastLessThan_iff) simp
qed

lemma burst_first_entry: "v < 16 \<Longrightarrow> hs_burst_tab ! 0 ! v \<noteq> 0x0A"
proof -
  have "list_all (\<lambda>v. hs_burst_tab ! 0 ! v \<noteq> 0x0A) [0..<16]" by code_simp
  then show "v < 16 \<Longrightarrow> hs_burst_tab ! 0 ! v \<noteq> 0x0A"
    by (simp only: list_all_iff set_upt atLeastLessThan_iff) simp
qed

lemma want_not_ramp: "burst_want pw 0 \<noteq> 0x0A"
  unfolding burst_want_def by (rule burst_first_entry) (rule pw_nib_less)

lemma not_ramp: "burst_of pw \<noteq> hs_ramp_burst" "ident_burst pw \<noteq> hs_ramp_burst"
proof -
  have "hs_ramp_burst ! 0 = 0x0A" by (simp add: hs_ramp_burst_def)
  moreover have "burst_of pw ! 0 \<noteq> 0x0A" "ident_burst pw ! 0 \<noteq> 0x0A"
    using want_not_ramp by (simp_all add: burst_of_nth ident_burst_nth HS_BURST_MODE_def)
  ultimately show "burst_of pw \<noteq> hs_ramp_burst" "ident_burst pw \<noteq> hs_ramp_burst" by auto
qed

lemma burst_of_commands: "\<forall>b \<in> set (burst_of pw). command_byte b \<and> b \<noteq> 0x46"
  using burst_entries pw_nib_less by (auto simp: burst_of_def burst_want_def simp del: upt_rec_numeral)

lemma ident_burst_commands: "\<forall>b \<in> set (ident_burst pw). command_byte b \<and> b \<noteq> 0x46"
proof
  fix b
  assume "b \<in> set (ident_burst pw)"
  then have "b = 0x50 \<or> b \<in> set (burst_of pw)"
    using set_update_subset_insert by (fastforce simp: ident_burst_def)
  then show "command_byte b \<and> b \<noteq> 0x46"
    using burst_of_commands by (auto simp: command_byte_def)
qed

lemma ramp_burst_commands: "\<forall>b \<in> set hs_ramp_burst. command_byte b \<and> b \<noteq> 0x46"
  by code_simp

lemma accepts_burst_of: "burst_accepts pw (burst_of pw') \<longleftrightarrow> burst_of pw' = burst_of pw"
proof -
  have "\<not> burst_free (burst_of pw') i" if "i < 15" for i
    using that burst_want_mode by (auto simp: burst_free_def burst_of_nth)
  then have "burst_accepts pw (burst_of pw') \<longleftrightarrow> (\<forall>i<15. burst_of pw' ! i = burst_of pw ! i)"
    by (auto simp: burst_accepts_def burst_of_nth)
  then show ?thesis by (simp add: list_eq_iff_nth_eq)
qed

lemma accepts_ident_burst: "burst_accepts pw (ident_burst pw') \<longleftrightarrow> ident_burst pw' = ident_burst pw"
proof -
  have "burst_free (ident_burst pw') i \<longleftrightarrow> i = HS_BURST_MODE" if "i < 15" for i
    using that by (auto simp: burst_free_def ident_burst_nth)
  then have "burst_accepts pw (ident_burst pw') \<longleftrightarrow> (\<forall>i<15. ident_burst pw' ! i = ident_burst pw ! i)"
    by (auto simp: burst_accepts_def ident_burst_nth)
  then show ?thesis by (simp add: list_eq_iff_nth_eq)
qed

lemmas classify = hs_burst_class_scan [OF _ scan_ok_fold refl, simplified burst_spec_def]

lemma burst_of_mode_byte: "burst_of pw ! HS_BURST_MODE \<noteq> 0x50" "ident_burst pw ! HS_BURST_MODE = 0x50"
proof -
  have "HS_BURST_MODE < 15" by (simp add: HS_BURST_MODE_def)
  then show "burst_of pw ! HS_BURST_MODE \<noteq> 0x50" "ident_burst pw ! HS_BURST_MODE = 0x50"
    using burst_want_mode by (simp_all only: burst_of_nth ident_burst_nth) simp_all
qed

lemma class_burst_of:
  "hs_burst_class (burst_of pw') pw = (if burst_of pw' = burst_of pw then HB_SWEEP else HB_FOREIGN)"
  using classify [of "burst_of pw'" pw]
  by (auto simp: not_ramp accepts_burst_of burst_of_mode_byte split: if_splits)

lemma class_ident_burst:
  "hs_burst_class (ident_burst pw') pw =
     (if ident_burst pw' = ident_burst pw then HB_IDENT else HB_FOREIGN)"
  using classify [of "ident_burst pw'" pw]
  by (auto simp: not_ramp accepts_ident_burst burst_of_mode_byte split: if_splits)

lemma class_ramp_burst: "hs_burst_class hs_ramp_burst pw = HB_IDENT"
  using classify [of hs_ramp_burst pw] by (simp add: hs_ramp_burst_def)

text \<open>
  What a part makes of a library's burst, followed over the wire from any
  well-formed state and with either level of bit 7: the burst of a password pair
  opens the sweep exactly when it is the burst of the part's own pair and silences
  the part otherwise; the identity variant opens the identity table under the same
  condition; the zero-password burst always opens the identity table.
\<close>

lemma burst_verdicts:
  assumes "hb_wf dv" "session_level h"
  shows "hb_mode (hb_run (burst_wire h (burst_of pw)) dv) =
      (if burst_of pw = burst_of (hb_pw dv) then HB_SWEEP else HB_FOREIGN) \<and>
    hb_mode (hb_run (burst_wire h (ident_burst pw)) dv) =
      (if ident_burst pw = ident_burst (hb_pw dv) then HB_IDENT else HB_FOREIGN) \<and>
    hb_mode (hb_run (burst_wire h hs_ramp_burst) dv) = HB_IDENT"
proof (intro conjI)
  show "hb_mode (hb_run (burst_wire h (burst_of pw)) dv) =
      (if burst_of pw = burst_of (hb_pw dv) then HB_SWEEP else HB_FOREIGN)"
    using burst_on_wire(1) [OF assms _ burst_of_commands, of pw]
    by (simp add: class_burst_of class_mode_def)
  show "hb_mode (hb_run (burst_wire h (ident_burst pw)) dv) =
      (if ident_burst pw = ident_burst (hb_pw dv) then HB_IDENT else HB_FOREIGN)"
    using burst_on_wire(1) [OF assms _ ident_burst_commands, of pw]
    by (simp add: class_ident_burst class_mode_def)
  show "hb_mode (hb_run (burst_wire h hs_ramp_burst) dv) = HB_IDENT"
    using burst_on_wire(1) [OF assms _ ramp_burst_commands]
    by (simp add: class_ramp_burst class_mode_def) (simp add: hs_ramp_burst_def)
qed

definition hb_init :: "u16 \<Rightarrow> bool \<Rightarrow> hb" where
  "hb_init pw1 gate =
     \<lparr>hb_gate = gate, hb_pw = pass_pair pw1, hb_prev = 0, hb_n = -1, hb_win = replicate 15 0,
      hb_mode = HB_SWEEP\<rparr>"

lemma hb_init_wf [wf_intros]: "hb_wf (hb_init pw1 gate)"
  by (simp add: hb_wf_def hb_init_def)

text \<open>
  Every release's part accepts the burst of its own password pair and refuses
  every other release's, over the wire and from any well-formed state: the three
  password pairs of the release table have three different bursts. (In general
  bursts are not injective in the password: the tables map several nibble values to
  the same byte.)
\<close>

theorem releases_told_apart:
  assumes "k \<in> set hd_keys" "k' \<in> set hd_keys" "hb_wf dv" "hb_pw dv = pass_pair (pass1 k)" "session_level h"
  shows "hb_mode (hb_run (burst_wire h (burst_of (pass_pair (pass1 k')))) dv) =
    (if pass1 k = pass1 k' then HB_SWEEP else HB_FOREIGN)"
proof -
  have "pass1 k \<in> {0x7477, 0x68BB, 0x6B91}" "pass1 k' \<in> {0x7477, 0x68BB, 0x6B91}"
    using assms(1,2) by (auto simp: hd_keys_def)
  moreover have "burst_of (pass_pair 0x7477) \<noteq> burst_of (pass_pair 0x68BB)"
    "burst_of (pass_pair 0x7477) \<noteq> burst_of (pass_pair 0x6B91)"
    "burst_of (pass_pair 0x68BB) \<noteq> burst_of (pass_pair 0x6B91)"
    by code_simp+
  ultimately have "burst_of (pass_pair (pass1 k')) = burst_of (hb_pw dv) \<longleftrightarrow> pass1 k = pass1 k'"
    using assms(4) by auto
  then show ?thesis
    using burst_on_wire(1) [OF assms(3,5) _ burst_of_commands, of "pass_pair (pass1 k')"]
    by (simp add: class_burst_of class_mode_def)
qed

theorem releases_told_apart_witness:
  "hb_mode (hb_run (burst_wire 0x80 (burst_of (pass_pair 0x6B91)))
     (hb_init 0x68BB True)) = HB_FOREIGN"
  using releases_told_apart [of "hd_keys ! 6" "hd_keys ! 2" "hb_init 0x68BB True" "0x80"]
  by (simp add: hd_keys_def hb_init_wf session_level_def) (simp add: hb_init_def)

end
