(* ===== verification/Session_Layer.thy ===== *)
theory Session_Layer
  imports Session
begin

text \<open>
  The STATUS side of the session layer: the identity ramp, the 64-step sweep and
  the liveness probe, each answered one bit per read from the payload the host
  left on DATA. The theory holds the tail of \<open>pp_read_status\<close> that does this,
  and follows the library's three sequences through it.
\<close>

section \<open>State and operations\<close>

record hs =
  hs_ramping :: bool
  hs_ramp_prev :: u8
  hs_sweep :: nat
  hs_table :: u64

definition hs_sweep_bit :: "hb \<Rightarrow> hs \<Rightarrow> nat \<Rightarrow> bool" where
  "hs_sweep_bit b dv n =
     (let addr = unat (drop_bit 1 (hs_sweep_w ! n))
      in if hb_gate b \<and> hb_mode b = HB_FOREIGN then True
         else if hb_gate b \<and> hb_mode b = HB_IDENT then bit HD_SIGNATURE addr
         else bit (hs_table dv) (63 - addr))"

text \<open>The address is DATA bits 1..6.\<close>

definition payload_addr :: "u8 \<Rightarrow> nat" where
  "payload_addr w = unat (drop_bit 1 w AND 0x3F)"

text \<open>One STATUS read outside a query and outside a record read; \<open>w\<close> is \<open>last_data\<close>.\<close>

definition session_read :: "hb \<Rightarrow> bool \<Rightarrow> u8 \<Rightarrow> hs \<Rightarrow> u8 \<Rightarrow> bool \<times> hs" where
  "session_read b hi syn dv w =
     (let addr = payload_addr w; sw = (if hi then w AND 0x7F else w)
      in if syn \<noteq> 0 then
           ((addr mod 3 = 0) \<noteq> (addr = unat syn), dv\<lparr>hs_ramping := False, hs_sweep := 0\<rparr>)
         else if hs_ramping dv \<and> w = hs_ramp_prev dv + 2 then
           (bit HD_SIGNATURE addr, dv\<lparr>hs_ramp_prev := w, hs_sweep := 0\<rparr>)
         else if w = 0x00 \<or> w = 0x80 then
           (bit HD_SIGNATURE addr, dv\<lparr>hs_ramping := True, hs_ramp_prev := w, hs_sweep := 0\<rparr>)
         else if hs_sweep dv < 64 \<and> sw = hs_sweep_w ! hs_sweep dv then
           (hs_sweep_bit b dv (hs_sweep dv), dv\<lparr>hs_sweep := hs_sweep dv + 1, hs_ramping := False\<rparr>)
         else if sw = hs_sweep_w ! 0 then
           (hs_sweep_bit b dv 0, dv\<lparr>hs_sweep := 1, hs_ramping := False\<rparr>)
         else if sw = 0x1E then (True, dv\<lparr>hs_ramping := False, hs_sweep := 0\<rparr>)
         else (bit HD_SIGNATURE addr, dv\<lparr>hs_ramping := False, hs_sweep := 0\<rparr>))"

definition hs_wf :: "hs \<Rightarrow> bool" where
  "hs_wf dv \<longleftrightarrow> hs_sweep dv \<le> 64"

lemma session_read_wf [wf_intros]: "hs_wf dv \<Longrightarrow> hs_wf (snd (session_read b hi syn dv w))"
  by (simp add: hs_wf_def session_read_def Let_def)

lemma session_read_table [simp]: "hs_table (snd (session_read b hi syn dv w)) = hs_table dv"
  by (simp add: session_read_def Let_def)

text \<open>The host writes each payload and reads one bit back.\<close>

fun session_run :: "hb \<Rightarrow> bool \<Rightarrow> u8 \<Rightarrow> u8 list \<Rightarrow> hs \<Rightarrow> bool list \<times> hs" where
  "session_run b hi syn [] dv = ([], dv)"
| "session_run b hi syn (w # ws) dv =
     (let (x, dv) = session_read b hi syn dv w; (xs, dv) = session_run b hi syn ws dv
      in (x # xs, dv))"

lemma session_run_append:
  "session_run b hi syn (us @ vs) dv =
     (let (xs, d) = session_run b hi syn us dv; (ys, e) = session_run b hi syn vs d in (xs @ ys, e))"
  by (induction us arbitrary: dv) (simp_all add: Let_def split: prod.splits)

lemma session_run_wf [wf_intros]: "hs_wf dv \<Longrightarrow> hs_wf (snd (session_run b hi syn ws dv))"
  by (induction ws arbitrary: dv) (simp_all add: Let_def session_read_wf split: prod.split,
      metis session_read_wf snd_conv)

lemma session_run_table [simp]: "hs_table (snd (session_run b hi syn ws dv)) = hs_table dv"
  by (induction ws arbitrary: dv) (simp_all add: Let_def split: prod.split, metis session_read_table snd_conv)

section \<open>The identity ramp\<close>

definition ramp_payload :: "u8 \<Rightarrow> nat \<Rightarrow> u8" where
  "ramp_payload h a = h OR word_of_nat (2 * a)"

definition ramp :: "u8 \<Rightarrow> u8 list" where
  "ramp h = map (ramp_payload h) [0..<64]"

definition ramp_state :: "hs \<Rightarrow> u8 \<Rightarrow> hs" where
  "ramp_state dv p = dv\<lparr>hs_ramping := True, hs_ramp_prev := p, hs_sweep := 0\<rparr>"

lemma ramp_payload_facts:
  assumes "session_level h" "a < 64"
  shows "payload_addr (ramp_payload h a) = a"
    "Suc a < 64 \<Longrightarrow> ramp_payload h (Suc a) = ramp_payload h a + 2"
proof -
  have "\<forall>h \<in> set [0, 0x80]. \<forall>a \<in> set [0..<64]. payload_addr (ramp_payload h a) = a \<and>
      (Suc a < 64 \<longrightarrow> ramp_payload h (Suc a) = ramp_payload h a + 2)"
    by code_simp
  moreover have "h \<in> set [0, 0x80]" "a \<in> set [0..<64]"
    using assms by (auto simp: session_level_def simp del: upt_rec_numeral)
  ultimately show "payload_addr (ramp_payload h a) = a"
    "Suc a < 64 \<Longrightarrow> ramp_payload h (Suc a) = ramp_payload h a + 2"
    by blast+
qed

lemma ramp_start:
  assumes "session_level h"
  shows "session_read b hi 0 dv (ramp_payload h 0) = (bit HD_SIGNATURE 0, ramp_state dv (ramp_payload h 0))"
proof -
  have h: "ramp_payload h 0 = h" "h = 0 \<or> h = 0x80"
    using assms by (auto simp: ramp_payload_def session_level_def)
  have a: "payload_addr h = 0" using ramp_payload_facts(1) [OF assms, of 0] h(1) by simp
  have up: "hs_ramping dv \<Longrightarrow> dv\<lparr>hs_ramp_prev := h, hs_sweep := 0\<rparr> = ramp_state dv h"
    unfolding ramp_state_def by (rule hs.equality) simp_all
  show ?thesis
    unfolding h(1) session_read_def Let_def a
    using h(2) up by (cases "hs_ramping dv \<and> h = hs_ramp_prev dv + 2")
      (simp_all only: if_True if_False simp_thms ramp_state_def)
qed

lemma ramp_next:
  assumes "session_level h" "Suc a < 64"
  shows "session_read b hi 0 (ramp_state dv (ramp_payload h a)) (ramp_payload h (Suc a)) =
    (bit HD_SIGNATURE (Suc a), ramp_state dv (ramp_payload h (Suc a)))"
  using ramp_payload_facts(1) [OF assms] ramp_payload_facts(2) [OF assms(1) Suc_lessD [OF assms(2)] assms(2)]
  by (simp add: session_read_def ramp_state_def)

lemma ramp_tail:
  assumes "session_level h"
  shows "a + n < 64 \<Longrightarrow>
    session_run b hi 0 (map (ramp_payload h) [Suc a..<Suc (a + n)]) (ramp_state dv (ramp_payload h a)) =
      (map (bit HD_SIGNATURE) [Suc a..<Suc (a + n)], ramp_state dv (ramp_payload h (a + n)))"
proof (induction n arbitrary: a)
  case 0
  then show ?case by simp
next
  case (Suc n)
  have "[Suc a..<Suc (a + Suc n)] = Suc a # [Suc (Suc a)..<Suc (Suc a + n)]"
    by (simp add: upt_conv_Cons del: upt_Suc)
  then show ?case
    using Suc.IH [of "Suc a"] Suc.prems ramp_next [OF assms, of a]
    by (simp del: upt_Suc)
qed

lemma ramp_run:
  assumes "session_level h"
  shows "session_run b hi 0 (ramp h) dv =
    (map (bit HD_SIGNATURE) [0..<64], ramp_state dv (ramp_payload h 63))"
proof -
  have "[0..<64] = 0 # [Suc 0..<Suc (0 + 63)]" by (simp only: upt_conv_Cons) simp
  then show ?thesis
    using ramp_tail [OF assms, of 0 63 b hi dv] ramp_start [OF assms, of b hi dv]
    by (simp add: ramp_def del: upt_Suc upt_rec_numeral)
qed


text \<open>The library's accumulator over a ramp; the identity it looks up is the final value.\<close>

definition guest_identity :: "bool list \<Rightarrow> u8" where
  "guest_identity xs = fold (\<lambda>a acc. if xs ! a then acc XOR word_of_nat (2 * a) else acc) [0..<64] 0x7E"

section \<open>The sweep\<close>

definition sweep :: "u8 \<Rightarrow> u8 list" where
  "sweep h = map (\<lambda>p. p OR h) hs_sweep_w"

text \<open>
  A sweep can start: the ramp would not take its first payload for its own, and no
  sweep broken off at a payload equal to the first one is pending.
\<close>

definition sweep_can_start :: "u8 \<Rightarrow> hs \<Rightarrow> bool" where
  "sweep_can_start h dv \<longleftrightarrow>
     \<not> (hs_ramping dv \<and> hs_sweep_w ! 0 OR h = hs_ramp_prev dv + 2) \<and>
     \<not> (hs_sweep dv \<in> {1..<64} \<and> hs_sweep_w ! hs_sweep dv = hs_sweep_w ! 0)"

text \<open>The release's bit 7 and the level the host drives it at agree.\<close>

definition level_ok :: "bool \<Rightarrow> u8 \<Rightarrow> bool" where
  "level_ok hi h \<longleftrightarrow> session_level h \<and> (h = 0 \<or> hi)"

lemma length_sweep [simp]: "length hs_sweep_w = 64" "length (sweep h) = 64"
  by (simp_all add: hs_sweep_w_def sweep_def)

lemma sweep_payload:
  assumes "n < 64" "level_ok hi h"
  shows "hs_sweep_w ! n OR h \<noteq> 0" "hs_sweep_w ! n OR h \<noteq> 0x80"
    "(if hi then (hs_sweep_w ! n OR h) AND 0x7F else hs_sweep_w ! n OR h) = hs_sweep_w ! n"
proof -
  have "list_all (\<lambda>p. \<forall>h \<in> set [0, 0x80]. p OR h \<noteq> 0 \<and> p OR h \<noteq> 0x80 \<and> (p OR h) AND 0x7F = p) hs_sweep_w"
    by code_simp
  then have "\<forall>h \<in> set [0, 0x80]. hs_sweep_w ! n OR h \<noteq> 0 \<and> hs_sweep_w ! n OR h \<noteq> 0x80 \<and>
      (hs_sweep_w ! n OR h) AND 0x7F = hs_sweep_w ! n"
    using assms(1) unfolding list_all_length length_sweep by blast
  moreover have "h \<in> set [0, 0x80]" "\<not> hi \<Longrightarrow> h = 0"
    using assms(2) by (auto simp: level_ok_def session_level_def)
  ultimately show "hs_sweep_w ! n OR h \<noteq> 0" "hs_sweep_w ! n OR h \<noteq> 0x80"
    "(if hi then (hs_sweep_w ! n OR h) AND 0x7F else hs_sweep_w ! n OR h) = hs_sweep_w ! n"
    by auto
qed

lemma sweep_addr: "n < 64 \<Longrightarrow> payload_addr (hs_sweep_w ! n) = unat (drop_bit 1 (hs_sweep_w ! n))"
proof -
  have "list_all (\<lambda>p. payload_addr p = unat (drop_bit 1 p)) hs_sweep_w" by code_simp
  then show "n < 64 \<Longrightarrow> payload_addr (hs_sweep_w ! n) = unat (drop_bit 1 (hs_sweep_w ! n))"
    by (simp add: list_all_length)
qed

definition sweep_state :: "hs \<Rightarrow> nat \<Rightarrow> hs" where
  "sweep_state dv n = dv\<lparr>hs_ramping := False, hs_sweep := n\<rparr>"

lemma hs_sweep_bit_state [simp]: "hs_sweep_bit b (sweep_state dv n) m = hs_sweep_bit b dv m"
  by (simp add: hs_sweep_bit_def sweep_state_def)

lemma sweep_first:
  assumes "level_ok hi h" "sweep_can_start h dv"
  shows "session_read b hi 0 dv (hs_sweep_w ! 0 OR h) = (hs_sweep_bit b dv 0, sweep_state dv 1)"
proof -
  note p = sweep_payload [OF zero_less_numeral assms(1)]
  have st: "dv\<lparr>hs_sweep := n, hs_ramping := False\<rparr> = sweep_state dv n" for n
    unfolding sweep_state_def by (rule hs.equality) simp_all
  have idx: "hs_sweep dv < 64 \<Longrightarrow> hs_sweep_w ! 0 = hs_sweep_w ! hs_sweep dv \<Longrightarrow> hs_sweep dv = 0"
    using assms(2) by (cases "hs_sweep dv = 0") (auto simp: sweep_can_start_def)
  have r: "\<not> (hs_ramping dv \<and> hs_sweep_w ! 0 OR h = hs_ramp_prev dv + 2)"
    using assms(2) by (simp add: sweep_can_start_def)
  show ?thesis
  proof (cases "hs_sweep dv < 64 \<and> hs_sweep_w ! 0 = hs_sweep_w ! hs_sweep dv")
    case True
    with idx have z: "hs_sweep dv = 0" by blast
    show ?thesis
      unfolding session_read_def Let_def p(3) st z if_not_P [OF r] using p(1,2) by simp
  next
    case False
    note i = if_not_P [OF False]
    show ?thesis
      unfolding session_read_def Let_def p(3) st if_not_P [OF r] i using p(1,2) by simp
  qed
qed

lemma sweep_next:
  assumes "level_ok hi h" "n < 64"
  shows "session_read b hi 0 (sweep_state dv n) (hs_sweep_w ! n OR h) =
    (hs_sweep_bit b dv n, sweep_state dv (Suc n))"
proof -
  note p = sweep_payload [OF assms(2) assms(1)]
  have st: "(sweep_state dv n)\<lparr>hs_sweep := m, hs_ramping := False\<rparr> = sweep_state dv m" for m
    unfolding sweep_state_def by (rule hs.equality) simp_all
  have f: "hs_sweep (sweep_state dv n) = n" "\<not> hs_ramping (sweep_state dv n)"
    by (simp_all add: sweep_state_def)
  show ?thesis
    unfolding session_read_def Let_def p(3) st f(1) using f(2) p(1,2) assms(2) by simp
qed

lemma sweep_tail:
  assumes "level_ok hi h"
  shows "n + k \<le> 64 \<Longrightarrow>
    session_run b hi 0 (map (\<lambda>i. hs_sweep_w ! i OR h) [n..<n + k]) (sweep_state dv n) =
      (map (hs_sweep_bit b dv) [n..<n + k], sweep_state dv (n + k))"
proof (induction k arbitrary: n)
  case 0
  then show ?case by simp
next
  case (Suc k)
  have "[n..<n + Suc k] = n # [Suc n..<Suc n + k]" by (simp add: upt_conv_Cons del: upt_Suc)
  then show ?case
    using Suc.IH [of "Suc n"] Suc.prems sweep_next [OF assms, of n] by (simp del: upt_Suc)
qed

lemma sweep_alt: "sweep h = map (\<lambda>i. hs_sweep_w ! i OR h) [0..<64]"
  by (rule nth_equalityI) (simp_all add: sweep_def del: upt_rec_numeral)

lemma sweep_run:
  assumes "level_ok hi h" "sweep_can_start h dv"
  shows "session_run b hi 0 (sweep h) dv = (map (hs_sweep_bit b dv) [0..<64], sweep_state dv 64)"
proof -
  have "[0..<64] = 0 # [1..<1 + 63]" by (simp only: upt_conv_Cons) simp
  then show ?thesis
    unfolding sweep_alt using sweep_tail [OF assms(1), of 1 63 b dv] sweep_first [OF assms, of b]
    by (simp del: upt_Suc upt_rec_numeral One_nat_def)
qed

text \<open>The answers folded the way the library folds them: eight bytes, first step most significant.\<close>

definition fold_sweep :: "bool list \<Rightarrow> u8 list" where
  "fold_sweep xs = map (\<lambda>i. word_of_bits_msb (map (\<lambda>j. xs ! (8 * i + j)) [0..<8])) [0..<8]"

text \<open>
  A sweep opened by the part's own burst answers the table of the password pair,
  the identity variant answers the signature and a refused burst all ones; on the
  68BB/1329 pair the sixty-four answers of the first kind are the captured word
  \<open>HS_SWEEP_A\<close>. This holds from every state in which a sweep can start.
\<close>

lemma sweep_answers_table:
  assumes "level_ok hi h" "sweep_can_start h dv"
  shows "fst (session_run b hi 0 (sweep h) dv) =
      map (\<lambda>p. if hb_gate b \<and> hb_mode b = HB_FOREIGN then True
               else if hb_gate b \<and> hb_mode b = HB_IDENT then bit HD_SIGNATURE (payload_addr p)
               else bit (hs_table dv) (63 - payload_addr p)) hs_sweep_w \<and>
    (hb_mode b = HB_SWEEP \<longrightarrow> hs_table dv = hs_sweep_table 0x68BB \<longrightarrow>
      fst (session_run b hi 0 (sweep h) dv) = bits_msb HS_SWEEP_A)"
proof -
  have all: "fst (session_run b hi 0 (sweep h) dv) = map (hs_sweep_bit b dv) [0..<64]"
    by (simp only: sweep_run [OF assms] fst_conv)
  also have "\<dots> = map (\<lambda>p. if hb_gate b \<and> hb_mode b = HB_FOREIGN then True
               else if hb_gate b \<and> hb_mode b = HB_IDENT then bit HD_SIGNATURE (payload_addr p)
               else bit (hs_table dv) (63 - payload_addr p)) hs_sweep_w"
    by (rule nth_equalityI) (simp_all add: hs_sweep_bit_def sweep_addr Let_def del: upt_rec_numeral)
  finally have main: "fst (session_run b hi 0 (sweep h) dv) = \<dots>" .
  have "map (\<lambda>p. bit (hs_sweep_table 0x68BB) (63 - payload_addr p)) hs_sweep_w = bits_msb HS_SWEEP_A"
    by code_simp
  then show ?thesis by (simp add: main)
qed

definition hs_init :: "u16 \<Rightarrow> hs" where
  "hs_init pw1 = \<lparr>hs_ramping = False, hs_ramp_prev = 0, hs_sweep = 0, hs_table = hs_sweep_table pw1\<rparr>"

lemma hs_init_facts [wf_intros]: "hs_wf (hs_init pw1)" "sweep_can_start h (hs_init pw1)"
  by (simp_all add: hs_wf_def sweep_can_start_def hs_init_def)

text \<open>The three answers a sweep can get, as bits in step order.\<close>

definition own_bits :: "u16 \<Rightarrow> bool list" where
  "own_bits t = map (\<lambda>n. bit (hs_sweep_table t) (63 - unat (drop_bit 1 (hs_sweep_w ! n)))) [0..<64]"

definition sig_bits :: "bool list" where
  "sig_bits = map (\<lambda>n. bit HD_SIGNATURE (unat (drop_bit 1 (hs_sweep_w ! n)))) [0..<64]"

definition silent_bits :: "bool list" where
  "silent_bits = map (\<lambda>n. True) [0..<64]"

lemma own_sweep: "hb_mode b = HB_SWEEP \<Longrightarrow> hs_table dv = hs_sweep_table t \<Longrightarrow>
    map (hs_sweep_bit b dv) [0..<64] = own_bits t"
  by (simp add: hs_sweep_bit_def own_bits_def Let_def del: upt_rec_numeral)

lemma ident_sweep: "hb_gate b \<Longrightarrow> hb_mode b = HB_IDENT \<Longrightarrow> map (hs_sweep_bit b dv) [0..<64] = sig_bits"
  by (simp add: hs_sweep_bit_def sig_bits_def Let_def del: upt_rec_numeral)

lemma silent_sweep: "hb_gate b \<Longrightarrow> hb_mode b = HB_FOREIGN \<Longrightarrow> map (hs_sweep_bit b dv) [0..<64] = silent_bits"
  by (simp add: hs_sweep_bit_def silent_bits_def Let_def del: upt_rec_numeral)

lemma sweeps_differ:
  assumes "k \<in> set hd_keys" "xs = sig_bits \<or> xs = silent_bits" "i < 8"
  shows "fold_sweep (own_bits (pass1 k)) ! i \<noteq> fold_sweep xs ! i"
proof -
  have "\<forall>t \<in> set [0x7477, 0x68BB, 0x6B91]. \<forall>xs \<in> set [sig_bits, silent_bits]. \<forall>i \<in> set [0..<8].
      fold_sweep (own_bits t) ! i \<noteq> fold_sweep xs ! i"
    by code_simp
  moreover have "pass1 k \<in> set [0x7477, 0x68BB, 0x6B91]" using assms(1) by (auto simp: hd_keys_def)
  moreover have "xs \<in> set [sig_bits, silent_bits]" "i \<in> set [0..<8]" using assms(2,3) by auto
  ultimately show ?thesis by blast
qed

lemma sweep_after_sweep: "sweep_can_start h (sweep_state dv 64)"
  by (simp add: sweep_can_start_def sweep_state_def)

text \<open>
  A sweep broken off after eighteen steps is the one thing \<open>sweep_can_start\<close> guards
  against: the next sweep's first payload equals the pending one, is taken for step
  18, and from the second payload on the reads are answered from the signature.
\<close>

lemma broken_sweep_poisons_next:
  "fst (session_run (hb_init 0x68BB True) True 0 (take 18 (sweep 0x80) @ sweep 0x80) (hs_init 0x68BB)) \<noteq>
   take 18 (bits_msb HS_SWEEP_A) @ bits_msb HS_SWEEP_A"
  by code_simp

section \<open>The liveness probe\<close>

lemma probe_run:
  assumes "level_ok hi h" "\<not> (hs_ramping dv \<and> hs_ramp_prev dv = 0x1C OR h)"
  shows "fst (session_run b hi 0 [0x1E OR h, 0x1C OR h] dv) = [True, False]"
proof -
  have h: "h = 0 \<or> h = 0x80 \<and> hi" using assms(1) by (auto simp: level_ok_def session_level_def)
  have np: "hs_sweep dv < 64 \<Longrightarrow> hs_sweep_w ! hs_sweep dv \<noteq> 0x1E"
  proof -
    have "list_all (\<lambda>p. p \<noteq> 0x1E) hs_sweep_w" by code_simp
    then show "hs_sweep dv < 64 \<Longrightarrow> hs_sweep_w ! hs_sweep dv \<noteq> 0x1E" by (simp add: list_all_length)
  qed
  have w0: "hs_sweep_w ! 0 = 0x78" by (simp add: hs_sweep_w_def)
  have sub: "(0x1E OR h = p + 2) = (p = 0x1C OR h)" for p
    using h by (auto simp: algebra_simps)
  have r: "\<not> (hs_ramping dv \<and> 0x1E OR h = hs_ramp_prev dv + 2)"
    using assms(2) sub by simp
  let ?d = "dv\<lparr>hs_ramping := False, hs_sweep := 0\<rparr>"
  have one: "session_read b hi 0 dv (0x1E OR h) = (True, ?d)"
    using h np by (elim disjE conjE) (simp_all add: session_read_def Let_def w0 r if_not_P [OF r], insert r, auto)
  have sig: "\<not> bit HD_SIGNATURE 14" "payload_addr (0x1C OR h) = 14"
    using h by (auto simp: HD_SIGNATURE_def payload_addr_def)
  have two: "session_read b hi 0 ?d (0x1C OR h) = (False, ?d)"
    using h sig by (elim disjE conjE) (simp_all add: session_read_def Let_def w0)
  show ?thesis by (simp add: one two)
qed

end
