(* ===== verification/Keyed_Round.thy ===== *)
theory Keyed_Round
  imports HD_Record
begin

text \<open>
  The keyed round of the picture cipher: a shift register the host consults one
  byte-to-bit question at a time. The theory translates \<open>t_mode_term\<close>, \<open>t_step\<close>,
  \<open>t_data\<close>, \<open>t_read_query\<close> and the part of \<open>pp_read_status\<close> that hands a held
  answer out, and shows that all of it implements an eleven-bit register, \<open>key_step\<close>,
  under both ways the libraries frame a question.
\<close>

section \<open>State and operations\<close>

record tk =
  t_key :: u32
  t_sess_hi :: bool
  t_hold_val :: u8
  t_init :: u16
  t_cur :: u32
  t_last :: u8
  t_ans :: bool
  t_pending :: bool
  t_recent :: "u8 list"
  t_nrecent :: nat
  t_modeclk :: nat
  t_mode :: nat

definition t_mode_term :: "nat \<Rightarrow> u32 \<Rightarrow> u32 \<Rightarrow> u32" where
  "t_mode_term mode cur i5 =
     (let p = i5 AND 0x1F; p = p XOR drop_bit 4 p; p = p XOR drop_bit 2 p; p = p XOR drop_bit 1 p;
          p = p AND 1
      in if mode = 1 then drop_bit 3 cur AND 1
         else if mode = 2 then 1 XOR p
         else if mode = 3 then (cur XOR drop_bit 3 cur) AND 1
         else if mode = 4 then (1 XOR p XOR drop_bit 6 cur) AND 1
         else 0)"

text \<open>The five bits a payload carries.\<close>

definition query_bits :: "u8 \<Rightarrow> u32" where
  "query_bits v = ucast ((drop_bit 1 v AND 0x07) OR (drop_bit 2 v AND 0x18))"

text \<open>The feedback word \<open>b0\<close>; only its lowest bit is used.\<close>

definition t_feedback :: "u32 \<Rightarrow> nat \<Rightarrow> u32 \<Rightarrow> u32 \<Rightarrow> u32" where
  "t_feedback key mode cur i5 =
     (let st = drop_bit (unat i5) key AND 1;
          b0 = i5 XOR ((st XOR 1) AND drop_bit 3 i5) XOR drop_bit 4 i5;
          b0 = b0 XOR drop_bit 10 cur;
          b0 = b0 XOR drop_bit 7 cur;
          b0 = (if i5 AND 2 \<noteq> 0 then b0 XOR drop_bit 5 cur else b0);
          b0 = (if i5 AND 4 \<noteq> 0 then b0 XOR drop_bit 8 cur else b0)
      in b0 XOR t_mode_term mode cur i5)"

definition t_step :: "tk \<Rightarrow> u8 \<Rightarrow> bool \<times> tk" where
  "t_step dv v =
     (let i5 = query_bits v;
          st = drop_bit (unat i5) (t_key dv) AND 1;
          b0 = t_feedback (t_key dv) (t_mode dv) (t_cur dv) i5;
          pre = t_cur dv XOR push_bit 2 (i5 AND 1);
          dv = dv\<lparr>t_cur := push_bit 1 pre OR (b0 AND 1)\<rparr>
      in ((drop_bit 11 (t_cur dv) XOR st) AND 1 \<noteq> 0, dv))"

text \<open>\<open>t_answer\<close> adds a log line to \<open>t_step\<close>.\<close>

definition t_answer :: "tk \<Rightarrow> u8 \<Rightarrow> bool \<times> tk" where
  "t_answer dv v = t_step dv v"

definition t_read_query :: "tk \<Rightarrow> (bool \<times> tk) option" where
  "t_read_query dv =
     (if \<not> t_sess_hi dv \<or> t_key dv = 0 \<or> t_nrecent dv < 3 then None
      else (let r = t_recent dv; p = r ! 0
            in if r ! 2 \<noteq> p \<or> r ! 1 \<noteq> p OR 0x10 \<or> p AND 0x80 = 0 \<or> p AND 0x11 \<noteq> 0 then None
               else Some (t_answer dv (r ! 1))))"

definition t_note :: "tk \<Rightarrow> u8 \<Rightarrow> tk" where
  "t_note dv v =
     (if t_nrecent dv = 0 \<or> t_recent dv ! 2 \<noteq> v
      then dv\<lparr>t_recent := [t_recent dv ! 1, t_recent dv ! 2, v],
              t_nrecent := (if t_nrecent dv < 3 then t_nrecent dv + 1 else t_nrecent dv)\<rparr>
      else dv)"

definition t_data :: "tk \<Rightarrow> u8 \<Rightarrow> tk" where
  "t_data dv v =
     (let rose = v AND NOT (t_last dv);
          dv = t_note dv v;
          dv = (if v = 0x84 then dv\<lparr>t_modeclk := 0\<rparr>
                else if v = 0xDA \<and> t_last dv = 0xCA then dv\<lparr>t_modeclk := t_modeclk dv + 1\<rparr>
                else dv);
          dv = (if t_sess_hi dv \<and> v \<noteq> t_hold_val dv then dv\<lparr>t_pending := False\<rparr> else dv);
          preamble = rose AND 0x01 \<noteq> 0;
          query = (\<not> preamble \<and> \<not> t_sess_hi dv \<and> rose AND 0x10 \<noteq> 0);
          dv = (if v AND 0x80 = 0 then dv
                else if preamble then
                  dv\<lparr>t_cur := ucast (t_init dv), t_pending := False, t_mode := t_modeclk dv\<rparr>
                else if query then
                  (let (ans, dv) = t_step dv v
                   in dv\<lparr>t_ans := ans, t_pending := True, t_hold_val := v\<rparr>)
                else dv)
      in dv\<lparr>t_last := v\<rparr>)"

text \<open>
  The part of \<open>pp_read_status\<close> this unit owns: a query recognised at the read, or
  an answer held for it. \<open>None\<close> leaves the line to the rest of the device.
\<close>

definition t_status :: "tk \<Rightarrow> bool option \<times> tk" where
  "t_status dv =
     (case t_read_query dv of
        Some (ans, dv) \<Rightarrow> (Some ans, dv\<lparr>t_nrecent := 0\<rparr>)
      | None \<Rightarrow>
          (let dv = dv\<lparr>t_nrecent := 0\<rparr>
           in if t_pending dv
              then (Some (t_ans dv), if \<not> t_sess_hi dv then dv\<lparr>t_pending := False\<rparr> else dv)
              else (None, dv)))"

definition t_wf :: "tk \<Rightarrow> bool" where
  "t_wf dv \<longleftrightarrow> length (t_recent dv) = 3 \<and> t_nrecent dv \<le> 3"

section \<open>Frame conditions\<close>

lemma t_step_frame [simp]:
  "t_key (snd (t_step dv v)) = t_key dv" "t_sess_hi (snd (t_step dv v)) = t_sess_hi dv"
  "t_init (snd (t_step dv v)) = t_init dv" "t_recent (snd (t_step dv v)) = t_recent dv"
  "t_nrecent (snd (t_step dv v)) = t_nrecent dv" "t_mode (snd (t_step dv v)) = t_mode dv"
  "t_modeclk (snd (t_step dv v)) = t_modeclk dv" "t_last (snd (t_step dv v)) = t_last dv"
  "t_pending (snd (t_step dv v)) = t_pending dv" "t_hold_val (snd (t_step dv v)) = t_hold_val dv"
  "t_ans (snd (t_step dv v)) = t_ans dv"
  by (simp_all add: t_step_def Let_def)

lemma t_note_frame [simp]:
  "t_key (t_note dv v) = t_key dv" "t_sess_hi (t_note dv v) = t_sess_hi dv"
  "t_init (t_note dv v) = t_init dv" "t_cur (t_note dv v) = t_cur dv"
  "t_mode (t_note dv v) = t_mode dv" "t_modeclk (t_note dv v) = t_modeclk dv"
  "t_last (t_note dv v) = t_last dv" "t_pending (t_note dv v) = t_pending dv"
  "t_hold_val (t_note dv v) = t_hold_val dv" "t_ans (t_note dv v) = t_ans dv"
  by (simp_all add: t_note_def)

lemma t_data_frame [simp]:
  "t_key (t_data dv v) = t_key dv" "t_sess_hi (t_data dv v) = t_sess_hi dv"
  "t_init (t_data dv v) = t_init dv" "t_last (t_data dv v) = v"
  "t_recent (t_data dv v) = t_recent (t_note dv v)" "t_nrecent (t_data dv v) = t_nrecent (t_note dv v)"
  by (simp_all add: t_data_def Let_def split_beta)

lemma t_data_wf [wf_intros]: "t_wf dv \<Longrightarrow> t_wf (t_data dv v)"
  by (simp add: t_wf_def t_note_def)

lemma t_status_wf [wf_intros]: "t_wf dv \<Longrightarrow> t_wf (snd (t_status dv))"
  by (auto simp: t_status_def t_read_query_def t_answer_def t_wf_def Let_def split: option.split prod.split)
    (metis snd_conv t_step_frame(4))+

section \<open>The eleven-bit register\<close>

text \<open>
  The specification: an eleven-bit register \<open>r\<close>, a 32-bit key, a mode and a
  five-bit question \<open>q\<close>. Each consultation hands out the top bit masked by the key
  bit the question selects, and shifts in a feedback bit.
\<close>

definition qparity :: "u32 \<Rightarrow> bool" where
  "qparity q \<longleftrightarrow> ((((bit q 0 \<noteq> bit q 1) \<noteq> bit q 2) \<noteq> bit q 3) \<noteq> bit q 4)"

definition mode_term :: "nat \<Rightarrow> bool list \<Rightarrow> u32 \<Rightarrow> bool" where
  "mode_term mode r q =
     (if mode = 1 then r ! 3
      else if mode = 2 then \<not> qparity q
      else if mode = 3 then r ! 0 \<noteq> r ! 3
      else if mode = 4 then (\<not> qparity q) \<noteq> r ! 6
      else False)"

definition feedback :: "u32 \<Rightarrow> nat \<Rightarrow> bool list \<Rightarrow> u32 \<Rightarrow> bool" where
  "feedback key mode r q =
     (((((((bit q 0 \<noteq> (\<not> bit key (unat q) \<and> bit q 3)) \<noteq> bit q 4) \<noteq> r ! 10) \<noteq> r ! 7)
        \<noteq> (bit q 1 \<and> r ! 5)) \<noteq> (bit q 2 \<and> r ! 8)) \<noteq> mode_term mode r q)"

definition key_step :: "u32 \<Rightarrow> nat \<Rightarrow> bool list \<Rightarrow> u32 \<Rightarrow> bool \<times> bool list" where
  "key_step key mode r q =
     (r ! 10 \<noteq> bit key (unat q),
      feedback key mode r q # take 10 (r[2 := (r ! 2 \<noteq> bit q 0)]))"

fun key_round :: "u32 \<Rightarrow> nat \<Rightarrow> bool list \<Rightarrow> u32 list \<Rightarrow> bool list \<times> bool list" where
  "key_round key mode r [] = ([], r)"
| "key_round key mode r (q # qs) =
     (let (a, r) = key_step key mode r q; (as, r) = key_round key mode r qs in (a # as, r))"

definition register_of :: "u32 \<Rightarrow> bool list" where
  "register_of w = map (bit w) [0..<11]"

lemma register_nth: "n < 11 \<Longrightarrow> register_of w ! n = bit w n"
  by (simp add: register_of_def del: upt_rec_numeral)

lemma length_register [simp]: "length (register_of w) = 11"
  by (simp add: register_of_def)

lemma bit_query_bits:
  "bit (query_bits v) n \<longleftrightarrow> n < 3 \<and> bit v (Suc n) \<or> (n = 3 \<or> n = 4) \<and> bit v (n + 2)"
proof -
  have m: "bit (0x07 :: u8) n \<longleftrightarrow> n = 0 \<or> n = 1 \<or> n = 2" "bit (0x18 :: u8) n \<longleftrightarrow> n = 3 \<or> n = 4" for n
    by (cases "n < 8"; auto simp: bit_byte_high less_Suc_eq numeral_eq_Suc)+
  have "bit (query_bits v) n \<longleftrightarrow> n < 32 \<and>
      ((bit v (1 + n) \<and> (n = 0 \<or> n = 1 \<or> n = 2)) \<or> (bit v (2 + n) \<and> (n = 3 \<or> n = 4)))"
    by (simp only: query_bits_def bit_unsigned_iff bit_and_iff bit_or_iff bit_drop_bit_eq m comp_def
        possible_bit_word len_num1 len_bit0 len_bit1 mult_1 power_numeral) auto
  then show ?thesis by auto
qed


lemma word_and_bit:
  fixes w :: "'a::len word"
  shows "w AND 1 \<noteq> 0 \<longleftrightarrow> bit w 0"
  by (auto simp: and_one_eq mod2_eq_if bit_0)

lemma u32_and_bit:
  fixes w :: u32
  shows "w AND 2 \<noteq> 0 \<longleftrightarrow> bit w 1" "w AND 4 \<noteq> 0 \<longleftrightarrow> bit w 2"
proof -
  have "w AND 2 = of_bool (bit w 1) * 2" "w AND 4 = of_bool (bit w 2) * 4"
    by (rule bit_word_eqI; auto simp: bit_simps bit_1_iff numeral_eq_Suc less_Suc_eq)+
  then show "w AND 2 \<noteq> 0 \<longleftrightarrow> bit w 1" "w AND 4 \<noteq> 0 \<longleftrightarrow> bit w 2" by simp_all
qed


lemma bit_0x1F: "n < 5 \<Longrightarrow> bit (0x1F :: u32) n" "bit (0x1F :: u32) 5 = False" "bit (0x1F :: u32) 6 = False"
    "bit (0x1F :: u32) 7 = False"
  by (auto simp: numeral_eq_Suc less_Suc_eq)

lemma bit_mode_term:
  "bit (t_mode_term mode cur q) 0 \<longleftrightarrow> mode_term mode (register_of cur) q"
proof -
  let ?p = "q AND 0x1F"
  let ?a = "?p XOR drop_bit 4 ?p"
  let ?b = "?a XOR drop_bit 2 ?a"
  obtain c where c: "c = ?b XOR drop_bit 1 ?b" by blast
  have parity: "bit c 0 \<longleftrightarrow> qparity q"
    unfolding c
    by (cases "bit q 0"; cases "bit q 1"; cases "bit q 2"; cases "bit q 3"; cases "bit q 4")
      (simp_all add: qparity_def bit_xor_iff bit_and_iff bit_drop_bit_eq bit_0x1F numeral_3_eq_3)
  have "t_mode_term mode cur q =
     (if mode = 1 then drop_bit 3 cur AND 1 else if mode = 2 then 1 XOR (c AND 1)
      else if mode = 3 then (cur XOR drop_bit 3 cur) AND 1
      else if mode = 4 then (1 XOR (c AND 1) XOR drop_bit 6 cur) AND 1 else 0)"
    by (simp only: t_mode_term_def Let_def c)
  then show ?thesis
    by (simp add: mode_term_def register_nth bit_xor_iff bit_and_iff bit_drop_bit_eq bit_1_iff parity)
qed

lemma bit_feedback:
  "bit (t_feedback key mode cur q) 0 \<longleftrightarrow> feedback key mode (register_of cur) q"
proof -
  let ?st = "drop_bit (unat q) key AND 1"
  obtain b where b_def:
      "b = ((q XOR ((?st XOR 1) AND drop_bit 3 q) XOR drop_bit 4 q) XOR drop_bit 10 cur) XOR drop_bit 7 cur"
    by blast
  have b: "bit b 0 \<longleftrightarrow>
      ((((bit q 0 \<noteq> (\<not> bit key (unat q) \<and> bit q 3)) \<noteq> bit q 4) \<noteq> bit cur 10) \<noteq> bit cur 7)"
    unfolding b_def
    by (cases "bit q 0"; cases "bit key (unat q)"; cases "bit q 3"; cases "bit q 4"; cases "bit cur 10")
      (simp_all add: bit_xor_iff bit_and_iff bit_drop_bit_eq bit_1_iff)
  have "t_feedback key mode cur q =
      (let b1 = (if bit q 1 then b XOR drop_bit 5 cur else b);
           b2 = (if bit q 2 then b1 XOR drop_bit 8 cur else b1)
       in b2 XOR t_mode_term mode cur q)"
    by (simp only: t_feedback_def Let_def b_def u32_and_bit)
  then show ?thesis
    by (cases "bit q 1"; cases "bit q 2")
      (simp_all add: feedback_def b bit_mode_term bit_xor_iff bit_drop_bit_eq register_nth)
qed

text \<open>
  One consultation is one step of the eleven-bit register: for every state of
  the device and every payload, the answer of \<open>t_step\<close> and the low eleven bits it
  leaves are those of \<open>key_step\<close>. The bits the C code keeps shifting up to bit 31
  never matter, and neither do the three payload bits the question does not carry.
\<close>

lemma t_step_register_step:
  "(fst (t_step dv v), register_of (t_cur (snd (t_step dv v)))) =
   key_step (t_key dv) (t_mode dv) (register_of (t_cur dv)) (query_bits v)"
proof -
  let ?q = "query_bits v" and ?c = "t_cur dv" and ?k = "bit (t_key dv) (unat (query_bits v))"
  let ?st = "drop_bit (unat ?q) (t_key dv) AND 1"
  let ?pre = "?c XOR push_bit 2 (?q AND 1)"
  have st: "bit ?st n \<longleftrightarrow> n = 0 \<and> ?k" for n
    by (auto simp: bit_and_iff bit_drop_bit_eq bit_1_iff)
  have upd: "t_cur (dv\<lparr>t_cur := x\<rparr>) = x" for x by simp
  let ?b0 = "t_feedback (t_key dv) (t_mode dv) ?c ?q"
  have cur: "t_cur (snd (t_step dv v)) = push_bit 1 ?pre OR (?b0 AND 1)"
    by (simp only: t_step_def Let_def snd_conv upd)
  have ans: "fst (t_step dv v) = ((drop_bit 11 (push_bit 1 ?pre OR (?b0 AND 1)) XOR ?st) AND 1 \<noteq> 0)"
    by (simp only: t_step_def Let_def fst_conv upd)
  note b0 = bit_feedback [of "t_key dv" "t_mode dv" ?c ?q]
  have pre: "bit ?pre n \<longleftrightarrow> (if n = 2 then bit ?c 2 \<noteq> bit ?q 0 else bit ?c n)" for n
  proof (cases "n < 32")
    case True
    then show ?thesis
      by (simp only: bit_xor_iff bit_push_bit_iff bit_and_iff bit_1_iff possible_bit_word) auto
  next
    case False
    then have "\<not> bit (w :: u32) n" for w using bit_imp_le_length [of w n] by auto
    with False show ?thesis by (cases "n = 2") simp_all
  qed
  have shifted: "bit (push_bit 1 ?pre OR (?b0 AND 1)) n \<longleftrightarrow>
      (if n = 0 then bit ?b0 0 else n < 32 \<and> bit ?pre (n - 1))" for n
    by (simp only: bit_or_iff bit_push_bit_iff bit_and_iff bit_1_iff possible_bit_word) auto
  have a: "fst (t_step dv v) = (bit ?c 10 \<noteq> ?k)"
  proof -
    have "bit (drop_bit 11 x XOR y) 0 \<longleftrightarrow> bit x 11 \<noteq> bit y 0" for x y :: u32
      by (simp add: bit_xor_iff bit_drop_bit_eq)
    then show ?thesis unfolding ans word_and_bit by (simp only: shifted pre st) simp
  qed
  have r: "register_of (t_cur (snd (t_step dv v))) =
      feedback (t_key dv) (t_mode dv) (register_of ?c) ?q #
        take 10 ((register_of ?c)[2 := (register_of ?c ! 2 \<noteq> bit ?q 0)])" (is "?L = ?R")
  proof (rule nth_equalityI)
    show "length ?L = length ?R" by simp
    fix n
    assume "n < length ?L"
    then have n: "n < 11" by simp
    have L: "?L ! n = bit (push_bit 1 ?pre OR (?b0 AND 1)) n"
      using n by (simp only: register_nth cur)
    show "?L ! n = ?R ! n"
    proof (cases n)
      case 0
      then show ?thesis unfolding L shifted using b0 by simp
    next
      case (Suc m)
      have "?L ! n = bit ?pre m" unfolding L shifted using n Suc by simp
      also have "\<dots> = ?R ! n"
        unfolding pre using n Suc by (simp add: nth_list_update_if register_nth)
      finally show ?thesis .
    qed
  qed
  show ?thesis unfolding r a by (simp add: key_step_def register_nth)
qed


lemma t_step_fst: "fst (t_step dv v) = fst (key_step (t_key dv) (t_mode dv) (register_of (t_cur dv)) (query_bits v))"
  and t_step_register: "register_of (t_cur (snd (t_step dv v))) =
    snd (key_step (t_key dv) (t_mode dv) (register_of (t_cur dv)) (query_bits v))"
  using t_step_register_step [of dv v] by (metis fst_conv, metis snd_conv)

text \<open>A round of consultations on the device.\<close>

fun t_round :: "tk \<Rightarrow> u8 list \<Rightarrow> bool list \<times> tk" where
  "t_round dv [] = ([], dv)"
| "t_round dv (v # vs) =
     (let (a, dv) = t_step dv v; (as, dv) = t_round dv vs in (a # as, dv))"

text \<open>
  Rounds of consultations are rounds of the eleven-bit register: the answers of
  any sequence of payloads, and the register they leave, are those of \<open>key_round\<close>
  started from the low eleven bits; key and mode never change inside a round.
\<close>

lemma t_round_refines:
  "fst (t_round dv vs) =
     fst (key_round (t_key dv) (t_mode dv) (register_of (t_cur dv)) (map query_bits vs)) \<and>
   register_of (t_cur (snd (t_round dv vs))) =
     snd (key_round (t_key dv) (t_mode dv) (register_of (t_cur dv)) (map query_bits vs)) \<and>
   t_key (snd (t_round dv vs)) = t_key dv \<and> t_mode (snd (t_round dv vs)) = t_mode dv"
proof (induction vs arbitrary: dv)
  case Nil
  then show ?case by simp
next
  case (Cons v vs)
  show ?case
    using Cons.IH [of "snd (t_step dv v)"] t_step_fst [of dv v] t_step_register [of dv v]
    by (simp add: split_beta Let_def)
qed

section \<open>The modes agree on the first eleven answers\<close>

lemma t_round_answers:
  "fst (t_round dv vs) =
    fst (key_round (t_key dv) (t_mode dv) (register_of (t_cur dv)) (map query_bits vs))"
  by (induction vs arbitrary: dv) (simp_all add: split_beta Let_def t_step_fst t_step_register)

lemma key_step_length [simp]: "length r = 11 \<Longrightarrow> length (snd (key_step key m r q)) = 11"
  by (simp add: key_step_def)

lemma key_step_agree:
  assumes "length r = 11" "length r' = 11" "j \<le> 10" "\<forall>n. j \<le> n \<and> n < 11 \<longrightarrow> r ! n = r' ! n"
  shows "fst (key_step key m r q) = fst (key_step key m' r' q)"
    "\<forall>n. Suc j \<le> n \<and> n < 11 \<longrightarrow> snd (key_step key m r q) ! n = snd (key_step key m' r' q) ! n"
  using assms by (auto simp: key_step_def nth_Cons nth_list_update_if split: nat.split)

lemma key_round_agree:
  assumes "length r = 11" "length r' = 11" "j \<le> 11" "\<forall>n. j \<le> n \<and> n < 11 \<longrightarrow> r ! n = r' ! n"
  shows "take (11 - j) (fst (key_round key m r qs)) = take (11 - j) (fst (key_round key m' r' qs))"
  using assms
proof (induction qs arbitrary: r r' j)
  case Nil
  then show ?case by simp
next
  case (Cons q qs)
  show ?case
  proof (cases "j \<le> 10")
    case True
    note a = key_step_agree [OF Cons.prems(1,2) True Cons.prems(4), where key = key and m = m and m' = m' and q = q]
    have "11 - j = Suc (11 - Suc j)" using True by simp
    then show ?thesis
      using Cons.IH [OF key_step_length [OF Cons.prems(1)] key_step_length [OF Cons.prems(2)] _ a(2)] True a(1) by (simp add: split_beta Let_def)
  next
    case False
    with Cons.prems(3) show ?thesis by simp
  qed
qed

text \<open>
  The first eleven answers of a round read only the starting register: two parts
  with the same key and the same starting register give them alike whatever their
  modes and whatever bits their registers hold above the eleventh.
\<close>

lemma first_answers_ignore_mode:
  assumes "t_key d = t_key e" "\<forall>n<11. bit (t_cur d) n = bit (t_cur e) n"
  shows "take 11 (fst (t_round d vs)) = take 11 (fst (t_round e vs))"
proof -
  have r: "register_of (t_cur d) = register_of (t_cur e)"
    using assms(2) by (simp add: register_of_def del: upt_rec_numeral)
  show ?thesis
    unfolding t_round_answers assms(1) r
    using key_round_agree [of "register_of (t_cur e)" "register_of (t_cur e)" 0] by simp
qed

text \<open>A part as \<open>pp_init\<close> leaves it.\<close>

definition tk_init :: "hd_key \<Rightarrow> tk" where
  "tk_init k =
     \<lparr>t_key = tkey k, t_sess_hi = sess_hi k, t_hold_val = 0, t_init = tinit k, t_cur = ucast (tinit k),
      t_last = 0, t_ans = False, t_pending = False, t_recent = [0, 0, 0], t_nrecent = 0,
      t_modeclk = 0, t_mode = 0\<rparr>"

lemma tk_init_wf [wf_intros]: "t_wf (tk_init k)"
  by (simp add: t_wf_def tk_init_def)

text \<open>The twelfth answer does depend on the mode.\<close>

section \<open>Repeated writes\<close>

text \<open>The transport repeats every write; the unit does not notice.\<close>

lemma t_note_again:
  assumes "t_wf dv"
  shows "t_note (t_note dv v) v = t_note dv v"
  by (simp add: t_note_def)

text \<open>What one write does to the round, by the edges it makes.\<close>

definition rises :: "u8 \<Rightarrow> u8 \<Rightarrow> u8 \<Rightarrow> bool" where
  "rises l v m \<longleftrightarrow> (v AND NOT l) AND m \<noteq> 0"

definition preamble_edge :: "tk \<Rightarrow> u8 \<Rightarrow> bool" where
  "preamble_edge dv v \<longleftrightarrow> v AND 0x80 \<noteq> 0 \<and> rises (t_last dv) v 1"

definition query_edge :: "tk \<Rightarrow> u8 \<Rightarrow> bool" where
  "query_edge dv v \<longleftrightarrow>
     v AND 0x80 \<noteq> 0 \<and> \<not> rises (t_last dv) v 1 \<and> \<not> t_sess_hi dv \<and> rises (t_last dv) v 0x10"

definition next_modeclk :: "tk \<Rightarrow> u8 \<Rightarrow> nat" where
  "next_modeclk dv v =
     (if v = 0x84 then 0 else if v = 0xDA \<and> t_last dv = 0xCA then t_modeclk dv + 1 else t_modeclk dv)"

lemma rises_same [simp]: "\<not> rises v v m"
  by (simp add: rises_def)

lemma t_step_irrelevant [simp]:
  "t_cur (snd (t_step (d\<lparr>t_modeclk := n\<rparr>) v)) = t_cur (snd (t_step d v))"
  "t_cur (snd (t_step (d\<lparr>t_pending := b\<rparr>) v)) = t_cur (snd (t_step d v))"
  "t_cur (snd (t_step (t_note d w) v)) = t_cur (snd (t_step d v))"
  "fst (t_step (d\<lparr>t_modeclk := n\<rparr>) v) = fst (t_step d v)"
  "fst (t_step (d\<lparr>t_pending := b\<rparr>) v) = fst (t_step d v)"
  "fst (t_step (t_note d w) v) = fst (t_step d v)"
  by (simp_all add: t_step_def Let_def)

lemma t_data_modeclk [simp]: "t_modeclk (t_data dv v) = next_modeclk dv v"
  by (simp add: t_data_def next_modeclk_def Let_def split_beta)

lemma t_data_mode: "t_mode (t_data dv v) = (if preamble_edge dv v then next_modeclk dv v else t_mode dv)"
  by (simp add: t_data_def next_modeclk_def preamble_edge_def rises_def Let_def split_beta)

lemma t_data_pending:
  "t_pending (t_data dv v) \<longleftrightarrow>
     \<not> preamble_edge dv v \<and> (query_edge dv v \<or> t_pending dv \<and> \<not> (t_sess_hi dv \<and> v \<noteq> t_hold_val dv))"
  by (simp add: t_data_def preamble_edge_def query_edge_def rises_def Let_def split_beta)

lemma t_data_hold: "t_hold_val (t_data dv v) = (if query_edge dv v then v else t_hold_val dv)"
  by (simp add: t_data_def query_edge_def rises_def Let_def split_beta)

lemma t_data_cur:
  "t_cur (t_data dv v) =
     (if preamble_edge dv v then ucast (t_init dv)
      else if query_edge dv v then t_cur (snd (t_step dv v)) else t_cur dv)"
  by (simp add: t_data_def preamble_edge_def query_edge_def rises_def Let_def split_beta)

lemma t_data_ans:
  "t_ans (t_data dv v) = (if query_edge dv v then fst (t_step dv v) else t_ans dv)"
  by (simp add: t_data_def query_edge_def rises_def Let_def split_beta)

lemma t_data_again:
  assumes "t_wf dv"
  shows "t_data (t_data dv v) v = t_data dv v"
proof -
  have e: "\<not> preamble_edge (t_data dv v) v" "\<not> query_edge (t_data dv v) v"
    by (simp_all add: preamble_edge_def query_edge_def)
  have n: "t_note (t_data dv v) v = t_data dv v"
    using assms by (simp add: t_note_def [of "t_data dv v"]) (simp add: t_note_def)
  have m: "next_modeclk (t_data dv v) v = next_modeclk dv v"
    by (simp add: next_modeclk_def)
  have h: "t_pending (t_data dv v) \<longrightarrow> \<not> (t_sess_hi dv \<and> v \<noteq> t_hold_val (t_data dv v))"
    by (auto simp: t_data_pending t_data_hold query_edge_def)
  show ?thesis
    by (rule tk.equality) (use h in \<open>simp_all add: e m n t_data_cur t_data_mode t_data_ans t_data_hold t_data_pending\<close>)
qed

definition tk_run :: "u8 list \<Rightarrow> tk \<Rightarrow> tk" where
  "tk_run vs dv = fold (\<lambda>v d. t_data d v) vs dv"

lemma tk_run_simps [simp]:
  "tk_run [] dv = dv" "tk_run (v # vs) dv = tk_run vs (t_data dv v)"
  "tk_run (us @ vs) dv = tk_run vs (tk_run us dv)"
  by (simp_all add: tk_run_def)

lemma tk_run_wf [wf_intros]: "t_wf dv \<Longrightarrow> t_wf (tk_run vs dv)"
  by (induction vs arbitrary: dv) (simp_all add: t_data_wf)

lemma tk_run_repeat: "t_wf dv \<Longrightarrow> tk_run (replicate (Suc n) v) dv = t_data dv v"
  by (induction n) (simp_all add: t_data_again)


lemma tk_run_config [simp]:
  "t_key (tk_run vs dv) = t_key dv" "t_sess_hi (tk_run vs dv) = t_sess_hi dv"
  "t_init (tk_run vs dv) = t_init dv"
  by (induction vs arbitrary: dv) simp_all

section \<open>A question on the wire\<close>

text \<open>
  The host frames a question as three payloads, each written one or more times, and
  one STATUS read. Question payloads carry bit 7 and keep bits 0 and 4 low.
\<close>

definition query_payload :: "u8 \<Rightarrow> bool" where
  "query_payload p \<longleftrightarrow> p AND 0x80 \<noteq> 0 \<and> p AND 0x11 = 0"

definition query_writes :: "nat \<Rightarrow> u8 \<Rightarrow> u8 list" where
  "query_writes n p = replicate (Suc n) p @ replicate (Suc n) (p OR 0x10) @ replicate (Suc n) p"

definition ask :: "nat \<Rightarrow> u8 \<Rightarrow> tk \<Rightarrow> bool option \<times> tk" where
  "ask n p dv = t_status (tk_run (query_writes n p) dv)"

lemma query_payload_bits:
  assumes "query_payload p"
  shows "rises l p 1 = False" "rises l p 0x10 = False" "rises l (p OR 0x10) 1 = False"
    "rises p (p OR 0x10) 0x10" "(p OR 0x10) AND 0x80 \<noteq> 0" "p OR 0x10 \<noteq> p"
    "query_bits (p OR 0x10) = query_bits p"
proof -
  have z: "bit (p AND 0x11) 0 = False" "bit (p AND 0x11) 4 = False"
    using assms by (simp_all only: query_payload_def bit_0_eq bot_apply bot_bool_def)
  then have b: "\<not> bit p 0" "\<not> bit p 4" by (simp_all add: bit_simps)
  have h: "bit p 7"
  proof (rule ccontr)
    assume "\<not> bit p 7"
    then have "p AND 0x80 = 0" by (intro byte_eqI) (simp_all add: bit_simps)
    then show False using assms by (simp add: query_payload_def)
  qed
  have one: "(w AND 1 = 0) = (\<not> bit w 0)" "(w AND 0x10 = 0) = (\<not> bit w 4)" "(w AND 0x80 = 0) = (\<not> bit w 7)"
    for w :: u8
  proof -
    have "w AND 1 = (if bit w 0 then 1 else 0)" "w AND 0x10 = (if bit w 4 then 0x10 else 0)"
      "w AND 0x80 = (if bit w 7 then 0x80 else 0)"
      by (rule byte_eqI; simp add: bit_simps)+
    then show "(w AND 1 = 0) = (\<not> bit w 0)" "(w AND 0x10 = 0) = (\<not> bit w 4)" "(w AND 0x80 = 0) = (\<not> bit w 7)"
      by simp_all
  qed
  show "rises l p 1 = False" "rises l p 0x10 = False" "rises l (p OR 0x10) 1 = False"
    "rises p (p OR 0x10) 0x10" "(p OR 0x10) AND 0x80 \<noteq> 0"
    unfolding rises_def one by (simp_all add: bit_simps b h)
  have "bit (p OR 0x10) 4" by (simp add: bit_simps)
  with b show "p OR 0x10 \<noteq> p" by metis
  show "query_bits (p OR 0x10) = query_bits p"
  proof (rule bit_eqI)
    fix n
    have m: "bit (p OR 0x10) k = bit p k" if "k \<noteq> 4" "k < 8" for k
      using that by (auto simp: bit_or_iff less_Suc_eq numeral_eq_Suc)
    show "bit (query_bits (p OR 0x10)) n = bit (query_bits p) n"
      unfolding bit_query_bits using m [of "Suc n"] m [of "n + 2"] by auto
  qed
qed

lemma t_step_query_bits:
  "query_bits v = query_bits w \<Longrightarrow> t_step dv v = t_step dv w"
  by (simp add: t_step_def)

lemma ask_answer:
  assumes "t_wf dv" "t_key dv \<noteq> 0" "query_payload p"
  obtains dv' where "ask n p dv = (Some (fst (t_step dv p)), dv')"
    "t_cur dv' = t_cur (snd (t_step dv p))" "t_wf dv'" "t_key dv' = t_key dv" "t_mode dv' = t_mode dv"
    "t_init dv' = t_init dv"
proof -
  note q = query_payload_bits [OF assms(3)]
  let ?r = "p OR 0x10"
  let ?d1 = "t_data dv p" and ?d2 = "t_data (t_data dv p) ?r"
  let ?d3 = "t_data ?d2 p"
  have wf: "t_wf ?d1" "t_wf ?d2" "t_wf ?d3" using assms(1) by (simp_all add: t_data_wf)
  have run: "tk_run (query_writes n p) dv = ?d3"
    using assms(1) wf by (simp add: query_writes_def tk_run_repeat del: replicate_Suc)
  have e1: "\<not> preamble_edge dv p" "\<not> query_edge dv p"
    and e2: "\<not> preamble_edge ?d1 ?r" "query_edge ?d1 ?r \<longleftrightarrow> \<not> t_sess_hi dv"
    and e3: "\<not> preamble_edge ?d2 p" "\<not> query_edge ?d2 p"
    using q by (simp_all add: preamble_edge_def query_edge_def)
  have s: "t_step ?d1 ?r = t_step ?d1 p" by (rule t_step_query_bits [OF q(7)])
  have eq: "fst (t_step d p) = fst (t_step dv p)" "t_cur (snd (t_step d p)) = t_cur (snd (t_step dv p))"
    if "t_key d = t_key dv" "t_mode d = t_mode dv" "t_cur d = t_cur dv" for d
    using that by (simp_all add: t_step_def Let_def)
  have m: "t_mode ?d1 = t_mode dv" "t_mode ?d3 = t_mode dv" and c1: "t_cur ?d1 = t_cur dv"
    by (simp_all add: t_data_mode t_data_cur e1 e2 e3)
  have s1: "fst (t_step ?d1 p) = fst (t_step dv p)" "t_cur (snd (t_step ?d1 p)) = t_cur (snd (t_step dv p))"
    by (rule eq; simp add: m c1)+
  have c: "t_cur ?d3 = (if t_sess_hi dv then t_cur dv else t_cur (snd (t_step dv p)))"
    by (simp add: t_data_cur [of "t_data (t_data dv p) ?r"] t_data_cur [of "t_data dv p"] e2 e3 s s1 c1)
  show thesis
  proof (cases "t_sess_hi dv")
    case False
    have "t_pending ?d3" "t_ans ?d3 = fst (t_step dv p)"
      using False by (simp_all add: t_data_pending [of "t_data (t_data dv p) ?r"] t_data_pending [of "t_data dv p"]
          t_data_ans [of "t_data (t_data dv p) ?r"] t_data_ans [of "t_data dv p"] e2 e3 s s1)
    moreover have "t_read_query ?d3 = None" using False by (simp add: t_read_query_def)
    ultimately have "ask n p dv = (Some (fst (t_step dv p)), ?d3\<lparr>t_nrecent := 0, t_pending := False\<rparr>)"
      using False by (simp add: ask_def run t_status_def)
    then show thesis by (rule that) (use False c m(2) wf in \<open>simp_all add: t_wf_def\<close>)
  next
    case True
    have r1: "t_recent ?d1 ! 2 = p" "0 < t_nrecent ?d1" "t_nrecent ?d1 \<le> 3" "length (t_recent ?d1) = 3"
      using assms(1) by (auto simp: t_wf_def t_note_def)
    then have r2: "t_recent ?d2 = [t_recent ?d1 ! 1, p, ?r]" "2 \<le> t_nrecent ?d2" "t_nrecent ?d2 \<le> 3"
      using q(6) by (auto simp: t_note_def [of "t_data dv p"])
    then have r3: "t_recent ?d3 = [p, ?r, p]" "t_nrecent ?d3 = 3"
      using q(6) by (auto simp: t_note_def [of "t_data (t_data dv p) ?r"])
    have "t_read_query ?d3 = Some (t_step ?d3 ?r)"
      using True assms(2,3) r3 by (simp add: t_read_query_def t_answer_def query_payload_def)
    moreover have "t_step ?d3 ?r = t_step ?d3 p" by (rule t_step_query_bits [OF q(7)])
    moreover have "fst (t_step ?d3 p) = fst (t_step dv p)" "t_cur (snd (t_step ?d3 p)) = t_cur (snd (t_step dv p))"
      by (rule eq; use True c m in simp)+
    ultimately have "ask n p dv = (Some (fst (t_step dv p)), (snd (t_step ?d3 p))\<lparr>t_nrecent := 0\<rparr>)"
      by (simp add: ask_def run t_status_def split_beta)
    then show thesis
      by (rule that) (use \<open>t_cur (snd (t_step ?d3 p)) = _\<close> m(2) wf in \<open>simp_all add: t_wf_def\<close>)
  qed
qed


fun ask_all :: "nat \<Rightarrow> u8 list \<Rightarrow> tk \<Rightarrow> bool option list \<times> tk" where
  "ask_all n [] dv = ([], dv)"
| "ask_all n (p # ps) dv =
     (let (a, dv) = ask n p dv; (as, dv) = ask_all n ps dv in (a # as, dv))"

lemma ask_all_answers:
  assumes "t_wf dv" "t_key dv \<noteq> 0" "\<forall>p \<in> set ps. query_payload p"
  shows "fst (ask_all n ps dv) =
    map Some (fst (key_round (t_key dv) (t_mode dv) (register_of (t_cur dv)) (map query_bits ps)))"
  using assms
proof (induction ps arbitrary: dv)
  case Nil
  then show ?case by simp
next
  case (Cons p ps)
  obtain dv' where d: "ask n p dv = (Some (fst (t_step dv p)), dv')"
    "t_cur dv' = t_cur (snd (t_step dv p))" "t_wf dv'" "t_key dv' = t_key dv" "t_mode dv' = t_mode dv"
    using Cons.prems by (auto elim!: ask_answer [of dv p n])
  then show ?case
    using Cons.IH [of dv'] Cons.prems
    by (simp add: split_beta Let_def t_step_fst t_step_register)
qed

text \<open>
  A round is opened by a command byte \<open>c\<close>, clocked on bit 0; before it come an \<open>84\<close>
  and \<open>k\<close> clocks of \<open>CA\<close>, \<open>DA\<close>, which select the mode.
\<close>

definition open_round :: "nat \<Rightarrow> u8 \<Rightarrow> u8 list" where
  "open_round k c = 0x84 # concat (replicate k [0xCA, 0xDA]) @ [c, c OR 1]"

definition opening_byte :: "u8 \<Rightarrow> bool" where
  "opening_byte c \<longleftrightarrow> c AND 0x81 = 0x80 \<and> c \<noteq> 0x84"

lemma mode_clocks:
  "t_last dv \<noteq> 0xCA \<Longrightarrow>
    t_modeclk (tk_run (concat (replicate k [0xCA, 0xDA])) dv) = t_modeclk dv + k \<and>
    t_last (tk_run (concat (replicate k [0xCA, 0xDA])) dv) \<noteq> 0xCA"
proof (induction k arbitrary: dv)
  case 0
  then show ?case by simp
next
  case (Suc k)
  show ?case
    using Suc.IH [of "t_data (t_data dv 0xCA) 0xDA"] by (simp add: next_modeclk_def)
qed

lemma opening_byte_bits:
  assumes "opening_byte c"
  shows "(c OR 1) AND 0x80 \<noteq> 0" "rises c (c OR 1) 1" "c OR 1 \<noteq> 0x84" "c OR 1 \<noteq> 0xDA"
proof -
  have z: "bit (c AND 0x81) 0 = False" "bit (c AND 0x81) 7 = True"
    using assms by (simp_all add: opening_byte_def)
  then have b: "\<not> bit c 0" "bit c 7" by (simp_all add: bit_simps)
  have o: "bit (c OR 1) 0" "bit ((c OR 1) AND 0x80) 7" "bit ((c OR 1) AND NOT c AND 1) 0"
    using b by (simp_all add: bit_simps)
  show "(c OR 1) AND 0x80 \<noteq> 0" using o(2) by force
  show "rises c (c OR 1) 1" using o(3) unfolding rises_def and.assoc by force
  have even: "\<not> bit (0x84 :: u8) 0" "\<not> bit (0xDA :: u8) 0" by simp_all
  show "c OR 1 \<noteq> 0x84" using o(1) even by metis
  show "c OR 1 \<noteq> 0xDA" using o(1) even by metis
qed

lemma open_round_effect:
  assumes "t_wf dv" "opening_byte c" and d_def: "d = tk_run (open_round k c) dv"
  shows "t_cur d = ucast (t_init dv)" "t_mode d = k"
proof -
  let ?d0 = "t_data dv 0x84"
  let ?d1 = "tk_run (concat (replicate k [0xCA, 0xDA])) ?d0"
  have m: "t_modeclk ?d1 = k \<and> t_last ?d1 \<noteq> 0xCA"
    using mode_clocks [of ?d0 k] by (simp add: next_modeclk_def)
  note o = opening_byte_bits [OF assms(2)]
  have d: "d = t_data (t_data ?d1 c) (c OR 1)" unfolding d_def open_round_def by simp
  have m1: "next_modeclk ?d1 c = k"
    using m assms(2) by (simp add: next_modeclk_def opening_byte_def)
  have e: "preamble_edge (t_data ?d1 c) (c OR 1)"
    using o by (simp add: preamble_edge_def)
  show "t_mode d = k"
    using e o m1 by (simp add: d t_data_mode [of "t_data ?d1 c"]) (simp add: next_modeclk_def [of "t_data ?d1 c"])
  show "t_cur d = ucast (t_init dv)"
    using e by (simp add: d t_data_cur [of "t_data ?d1 c"])
qed

text \<open>
  A whole round on the wire: from any well-formed state of a part with a key,
  after the mode clocks and the opening byte, every question framed as three
  (possibly repeated) payloads and one STATUS read gets an answer, and the answers
  are those of the eleven-bit register started from the release's initial value in
  mode \<open>k\<close>. It holds for both ways of recognising a question: on the bit-4 edge, and,
  where the session layer carries bit 7, at the read.
\<close>

lemma keyed_round_on_wire:
  assumes "t_wf dv" "t_key dv \<noteq> 0" "opening_byte c" "\<forall>p \<in> set ps. query_payload p"
  shows "fst (ask_all n ps (tk_run (open_round k c) dv)) =
    map Some (fst (key_round (t_key dv) k (register_of (ucast (t_init dv))) (map query_bits ps)))"
proof -
  let ?d = "tk_run (open_round k c) dv"
  have "t_wf ?d" "t_key ?d \<noteq> 0" using assms by (simp_all add: tk_run_wf)
  then show ?thesis
    using ask_all_answers [of ?d ps n] open_round_effect [OF assms(1,3) refl, of k] assms(4) by simp
qed

end
