(* ===== verification/PP_Port.thy ===== *)
theory PP_Port
  imports CDongle_Host Nibble_Link Session_Layer Keyed_Round Microwire HD_Layout "HOL-Library.Signed_Division"
begin

text \<open>
  The whole parallel-port device: \<open>pp_t\<close> with its halves as sub-records, the four
  accessors the port calls (\<open>pp_write_data\<close>, \<open>pp_write_ctrl\<close>, \<open>pp_strobe\<close>,
  \<open>pp_read_status\<close>) with the arbitration between the halves, the DATA readback and
  the set-up of \<open>pp_init\<close>; then the device as a transition system with its
  invariant.

  The emulated path is modelled: \<open>pp_passthru()\<close> is 0, its value on every host that
  has not been told to drive a real port. \<open>dat\<close> is the DATA register of the port the
  device is attached to, \<open>None\<close> when it is attached to none.
\<close>

section \<open>State\<close>

record pp =
  pp_nib :: nib
  pp_cd :: cd
  hd_probe :: bool
  pp_hd :: hd
  pp_hs :: hs
  pp_hb :: hb
  pp_tk :: tk
  t_synth_ident :: u8
  last_ctrl :: u8
  have_strobe_hook :: bool
  n_rs :: nat
  ng_sweep :: bool
  ng_val :: u8
  ng_data :: bool
  ng_mode :: int

definition DO :: "bool \<Rightarrow> u8" where
  "DO b = (if b then HD_DO else 0)"

section \<open>The accessors\<close>

text \<open>Whether a DATA write reaches the Microwire decoder.\<close>

definition wire_reaches_part :: "pp \<Rightarrow> u8 \<Rightarrow> bool" where
  "wire_reaches_part dv v \<longleftrightarrow>
     \<not> t_sess_hi (pp_tk dv) \<or> v AND 0x80 = 0 \<or> t_synth_ident dv \<noteq> 0 \<or> v AND 0x1C = 0x1C"

definition pp_write_part :: "pp \<Rightarrow> u8 \<Rightarrow> pp" where
  "pp_write_part dv v =
     (let dv = (if hb_gate (pp_hb dv) then dv\<lparr>pp_hb := hb_data (pp_hb dv) v\<rparr> else dv);
          dv = (if t_key (pp_tk dv) \<noteq> 0 then dv\<lparr>pp_tk := t_data (pp_tk dv) v\<rparr> else dv)
      in if wire_reaches_part dv v then dv\<lparr>pp_hd := hd_write_data (pp_hd dv) v\<rparr> else dv)"

definition pp_write_data :: "pp \<Rightarrow> u8 \<Rightarrow> pp" where
  "pp_write_data dv v =
     (let dv = (if hd_probe dv then pp_write_part dv v else dv);
          dv = dv\<lparr>pp_cd := cd_write_data (block (pp_nib dv)) (pp_cd dv) v\<rparr>
      in dv\<lparr>pp_nib := pp_ack_edge (pp_nib dv) v\<rparr>)"

text \<open>\<open>pp_latch_nibble\<close> reads the port's DATA register, or the last write without a port.\<close>

definition pp_cur :: "pp \<Rightarrow> u8 option \<Rightarrow> u8" where
  "pp_cur dv dat = (case dat of Some d \<Rightarrow> d | None \<Rightarrow> last_data (pp_nib dv))"

definition pp_latch :: "pp \<Rightarrow> u8 option \<Rightarrow> pp" where
  "pp_latch dv dat = dv\<lparr>pp_nib := pp_latch_nibble (pp_nib dv) (pp_cur dv dat)\<rparr>"

definition pp_write_ctrl :: "pp \<Rightarrow> u8 option \<Rightarrow> u8 \<Rightarrow> pp" where
  "pp_write_ctrl dv dat v =
     (if (v XOR last_ctrl dv) AND 0x0C \<noteq> 0
      then dv\<lparr>pp_nib := pp_link_reset (pp_nib dv), last_ctrl := v\<rparr>
      else (let dv' = (if \<not> have_strobe_hook dv \<and> last_ctrl dv AND 0x01 = 0 \<and> v AND 0x01 \<noteq> 0
                       then pp_latch dv dat else dv)
            in dv'\<lparr>last_ctrl := v\<rparr>))"

definition pp_strobe :: "pp \<Rightarrow> u8 option \<Rightarrow> u8 \<Rightarrow> u8 \<Rightarrow> pp" where
  "pp_strobe dv dat old v =
     (let dv = dv\<lparr>have_strobe_hook := True\<rparr>
      in if old AND 0x01 = 0 \<and> v AND 0x01 \<noteq> 0 then pp_latch dv dat else dv)"

text \<open>A STATUS read on the release that has the part: query, held answer, record read, session.\<close>

definition hd_idle :: "hd \<Rightarrow> hd" where
  "hd_idle dv = dv\<lparr>hd_ph := HD_IDLE, hd_n := 0\<rparr>"

definition pp_status_part :: "pp \<Rightarrow> u8 \<times> pp" where
  "pp_status_part dv =
     (case t_read_query (pp_tk dv) of
        Some (ans, tk) \<Rightarrow>
          (DO ans, dv\<lparr>pp_tk := tk\<lparr>t_nrecent := 0\<rparr>, pp_hd := hd_idle (pp_hd dv)\<rparr>)
      | None \<Rightarrow>
          (let tk = (pp_tk dv)\<lparr>t_nrecent := 0\<rparr>; dv = dv\<lparr>pp_tk := tk\<rparr>
           in if t_pending tk then
                (DO (t_ans tk),
                 if \<not> t_sess_hi tk then dv\<lparr>pp_tk := tk\<lparr>t_pending := False\<rparr>\<rparr> else dv)
              else if hd_ph (pp_hd dv) = HD_READ then (DO (hd_do (pp_hd dv)), dv)
              else
                (let (b, hs) = session_read (pp_hb dv) (t_sess_hi tk) (t_synth_ident dv) (pp_hs dv)
                                 (last_data (pp_nib dv));
                     dv = dv\<lparr>pp_hd := hd_idle (pp_hd dv), pp_hs := hs\<rparr>
                 in (DO (hd_ready (pp_hd dv) \<or> b), dv))))"

definition pp_read_status :: "pp \<Rightarrow> u8 option \<Rightarrow> u8 \<times> pp" where
  "pp_read_status dv dat =
     (if hd_probe dv then pp_status_part dv
      else if cd_active (pp_cd dv) then (if cd_ack (pp_cd dv) then 0x40 else 0, dv)
      else
        (let dv = (case dat of Some d \<Rightarrow> dv\<lparr>pp_nib := pp_ack_edge (pp_nib dv) d\<rparr> | None \<Rightarrow> dv)
         in if ng_sweep dv \<and> n_rs dv = 1 then (ng_val dv, dv)
            else (nib_status (pp_nib dv), dv)))"

definition pp_read_ctrl :: "pp \<Rightarrow> u8" where
  "pp_read_ctrl dv = last_ctrl dv"

definition pp_data_transform :: "int \<Rightarrow> u8 \<Rightarrow> u8" where
  "pp_data_transform mode x =
     (if mode = 1 then NOT x
      else if mode = 2 then 0x00
      else if mode = 3 then 0xFF
      else if mode = 4 then x OR 0x0F
      else if mode = 5 then x AND 0xF0
      else if mode = 6 then x XOR 0x0F
      else if mode = 7 then x XOR 0xF0
      else if mode = 8 then drop_bit 4 x OR push_bit 4 x
      else if mode = 9 then drop_bit 1 x
      else if mode = 10 then push_bit 1 x
      else if mode = 11 then x AND 0x7F
      else if mode = 12 then x OR 0x80
      else if mode = 13 then x XOR 0x5A
      else if mode = 14 then x XOR 0xA5
      else if mode = 15 then x AND 0x0F
      else if mode = 16 then x OR 0xF0
      else if mode = 17 then x XOR 0x01
      else if mode = 18 then x XOR 0x80
      else if mode = 19 then x AND 0xFE
      else x)"

definition PP_NTRANSFORMS :: int where "PP_NTRANSFORMS = 20"

definition pp_read_data :: "pp \<Rightarrow> u8 option \<Rightarrow> u8" where
  "pp_read_data dv dat =
     (if ng_data dv then pp_data_transform (ng_mode dv) (pp_cur dv dat) else pp_cur dv dat)"

section \<open>The invariant\<close>

definition pp_wf :: "pp \<Rightarrow> bool" where
  "pp_wf dv \<longleftrightarrow> nib_wf (pp_nib dv) \<and> cd_wf (pp_cd dv) \<and> hd_wf (pp_hd dv) \<and> hs_wf (pp_hs dv) \<and>
     hb_wf (pp_hb dv) \<and> t_wf (pp_tk dv)"

lemma hd_idle_wf [wf_intros]: "hd_wf dv \<Longrightarrow> hd_wf (hd_idle dv)"
  by (simp add: hd_idle_def hd_wf_def)

lemma t_wf_updates [simp]:
  "t_wf dv \<Longrightarrow> t_wf (dv\<lparr>t_nrecent := 0\<rparr>)" "t_wf (dv\<lparr>t_pending := b\<rparr>) = t_wf dv"
  by (simp_all add: t_wf_def)

lemma t_read_query_step:
  "t_read_query dv = Some r \<Longrightarrow> r = t_step dv (t_recent dv ! 1)"
  unfolding t_read_query_def t_answer_def Let_def by (simp split: if_split_asm)

lemma t_read_query_snd: "t_read_query dv = Some (a, dv') \<Longrightarrow> dv' = snd (t_step dv (t_recent dv ! 1))"
  by (drule t_read_query_step) (metis snd_conv)

lemma t_read_query_wf: "t_wf dv \<Longrightarrow> t_read_query dv = Some (a, dv') \<Longrightarrow> t_wf dv'"
  by (drule t_read_query_snd) (simp add: t_wf_def)

lemma pp_write_part_wf [wf_intros]: "pp_wf dv \<Longrightarrow> pp_wf (pp_write_part dv v)"
  by (simp add: pp_wf_def pp_write_part_def Let_def hb_data_wf t_data_wf hd_write_data_wf)

lemma pp_write_data_wf [wf_intros]: "pp_wf dv \<Longrightarrow> pp_wf (pp_write_data dv v)"
  using pp_write_part_wf [of dv v]
  by (auto simp: pp_write_data_def pp_wf_def Let_def intro!: cd_write_data_wf pp_ack_edge_wf)

lemma pp_latch_wf [wf_intros]: "pp_wf dv \<Longrightarrow> pp_wf (pp_latch dv dat)"
  by (simp add: pp_wf_def pp_latch_def pp_latch_nibble_wf)

lemma pp_write_ctrl_wf [wf_intros]: "pp_wf dv \<Longrightarrow> pp_wf (pp_write_ctrl dv dat v)"
  using pp_latch_wf [of dv dat] by (simp add: pp_write_ctrl_def pp_wf_def Let_def pp_link_reset_wf)

lemma pp_strobe_wf [wf_intros]: "pp_wf dv \<Longrightarrow> pp_wf (pp_strobe dv dat old v)"
  using pp_latch_wf [of "dv\<lparr>have_strobe_hook := True\<rparr>" dat]
  by (simp add: pp_strobe_def pp_wf_def Let_def)

lemma pp_status_part_wf [wf_intros]: "pp_wf dv \<Longrightarrow> pp_wf (snd (pp_status_part dv))"
  using t_read_query_wf [of "pp_tk dv"] session_read_wf [of "pp_hs dv"]
  by (auto simp: pp_wf_def pp_status_part_def Let_def hd_idle_wf split_beta split: option.split)

lemma pp_read_status_wf [wf_intros]: "pp_wf dv \<Longrightarrow> pp_wf (snd (pp_read_status dv dat))"
  using pp_status_part_wf [of dv] pp_ack_edge_wf [of "pp_nib dv"]
  by (auto simp: pp_read_status_def Let_def pp_wf_def split: option.split)


section \<open>Set-up\<close>

text \<open>The 1999 record: the banner at the front, eight dwords at a fixed offset of 16.\<close>

definition pp_dwords :: "u32 list" where
  "pp_dwords = [0x00000000, 0x0000038B, 0x000181CD, 0x0001D760, 0x00029B92, 0x0001287E, 0x0000089D,
                0xBAE8A135]"

definition PP_BANNER_1999 :: nat where "PP_BANNER_1999 = 16"

definition pp_block :: "u8 list \<Rightarrow> u8 list" where
  "pp_block b =
     (let blk = fold (\<lambda>n blk. if PP_BANNER_1999 + 4 * n + 4 > PP_BLOCK then blk
                               else put (PP_BANNER_1999 + 4 * n) (le_bytes (pp_dwords ! n)) blk)
                  [0..<8] (replicate PP_BLOCK 0)
      in (put 0 b blk)[length b := 0])"

definition pp_banners :: "u8 list list" where
  "pp_banners = map bytes
    [''Version 99'', ''Version 2000'', ''Version 2001'', ''Version 2002'', ''Version 2003'',
     ''Version 2004'', ''Version 2005B'', ''Version 2006A'', ''Version 2007'', ''Version 2008'']"

definition pp_terrs :: "u8 list list" where
  "pp_terrs = map bytes
    [''AT'', ''BE'', ''CY'', ''CZ'', ''DE'', ''ES'', ''FR'', ''GR'', ''IT'', ''NL'', ''PT'', ''SE'', ''SP'',
     ''ZA'']"

text \<open>The release half of the image's banner: what precedes the parenthesis and its spaces.\<close>

fun back_over_spaces :: "u8 list \<Rightarrow> nat \<Rightarrow> nat" where
  "back_over_spaces s 0 = 0"
| "back_over_spaces s (Suc n) = (if s ! n = 0x20 then back_over_spaces s n else Suc n)"

definition img_release :: "u8 list \<Rightarrow> u8 list" where
  "img_release s =
     (case strchr s 0x28 of None \<Rightarrow> s | Some p \<Rightarrow> take (back_over_spaces s p) s)"

text \<open>
  The banner the device reports: the image's own, or composed from whatever was
  pinned by hand (a negative index is Auto). \<open>img\<close> is what \<open>photoplay_image_ident\<close>
  found: the banner and the territory of MAIN.SET.
\<close>

definition pick :: "'a list \<Rightarrow> int \<Rightarrow> 'a" where
  "pick xs i = xs ! (if 0 \<le> i \<and> i < int (length xs) then nat i else 0)"

definition compose_banner :: "(u8 list \<times> u8 list) option \<Rightarrow> int \<Rightarrow> int \<Rightarrow> u8 list" where
  "compose_banner img bi ti =
     take 30
       (case img of
          None \<Rightarrow> pick pp_banners bi @ bytes '' ('' @ pick pp_terrs ti @ bytes '')''
        | Some (ib, it) \<Rightarrow>
            (if bi < 0 \<and> ti < 0 \<and> ib \<noteq> [] then ib
             else (if bi < 0 \<and> img_release ib \<noteq> [] then img_release ib else pick pp_banners bi)
                  @ bytes '' (''
                  @ (if ti < 0 \<and> it \<noteq> [] then it else pick pp_terrs ti)
                  @ bytes '')''))"

text \<open>The fields a part without a HASP half is left with: \<open>calloc\<close>'s zeroes.\<close>

definition tk_zero :: tk where
  "tk_zero =
     \<lparr>t_key = 0, t_sess_hi = False, t_hold_val = 0, t_init = 0, t_cur = 0, t_last = 0, t_ans = False,
      t_pending = False, t_recent = [0, 0, 0], t_nrecent = 0, t_modeclk = 0, t_mode = 0\<rparr>"

definition hs_zero :: hs where
  "hs_zero = \<lparr>hs_ramping = False, hs_ramp_prev = 0, hs_sweep = 0, hs_table = 0\<rparr>"

definition hb_zero :: hb where
  "hb_zero =
     \<lparr>hb_gate = False, hb_pw = 0, hb_prev = 0, hb_n = 0, hb_win = replicate 15 0, hb_mode = HB_OTHER\<rparr>"

text \<open>Whether the part is on the port at all: \<open>hd2001\<close> by hand, or the releases of the table.\<close>

definition has_part :: "int \<Rightarrow> u8 list \<Rightarrow> bool" where
  "has_part hd_opt b = (if hd_opt < 0 then hd_release_opt b \<noteq> None else hd_opt \<noteq> 0)"

definition pp_start :: "u8 list \<Rightarrow> pp" where
  "pp_start b =
     \<lparr>pp_nib = nib_init (pp_block b), pp_cd = cd_init, hd_probe = False,
      pp_hd = hd_init (replicate HD_WORDS 0), pp_hs = hs_zero, pp_hb = hb_zero, pp_tk = tk_zero,
      t_synth_ident = 0, last_ctrl = 0, have_strobe_hook = False, n_rs = 0, ng_sweep = False,
      ng_val = 0, ng_data = False, ng_mode = 0\<rparr>"

definition pp_fit_part :: "u8 list \<Rightarrow> pp \<Rightarrow> pp" where
  "pp_fit_part b dv =
     (let k = hd_keys ! hd_release b; syn = synth_ident k
      in dv\<lparr>hd_probe := True,
            pp_hd := (hd_init (hd_load b))\<lparr>hd_abits := (if syn \<noteq> 0 then 8 else HD_ABITS)\<rparr>,
            pp_tk := tk_init k,
            t_synth_ident := syn,
            pp_hs := hs_init (pass1 k),
            pp_hb := hb_init (pass1 k) (shape k \<noteq> HD_R2001)\<rparr>)"

definition pp_init :: "int \<Rightarrow> u8 list \<Rightarrow> u8 option \<Rightarrow> int option \<Rightarrow> pp" where
  "pp_init hd_opt b sweep_val data_mode =
     (let dv = pp_start b;
          dv = (case sweep_val of None \<Rightarrow> dv | Some v \<Rightarrow> dv\<lparr>ng_sweep := True, ng_val := v\<rparr>);
          dv = (if has_part hd_opt b then pp_fit_part b dv else dv)
      in case data_mode of None \<Rightarrow> dv
         | Some v \<Rightarrow> dv\<lparr>ng_data := True, ng_mode := v smod PP_NTRANSFORMS\<rparr>)"

lemma pp_block_length: "length b \<le> 30 \<Longrightarrow> length (pp_block b) = PP_BLOCK"
proof -
  assume b: "length b \<le> 30"
  have "length (fold (\<lambda>n blk. if PP_BANNER_1999 + 4 * n + 4 > PP_BLOCK then blk
      else put (PP_BANNER_1999 + 4 * n) (le_bytes (pp_dwords ! n)) blk) ns blk) = length blk"
    if "length blk = PP_BLOCK" for ns blk
    using that
  proof (induction ns arbitrary: blk)
    case (Cons n ns)
    then show ?case by simp
  qed simp
  then show ?thesis using b by (simp add: pp_block_def PP_BLOCK_def Let_def)
qed

lemma compose_banner_length: "length (compose_banner img bi ti) \<le> 30"
  by (simp add: compose_banner_def)


lemma length_hd_load: "length (hd_load b) = HD_WORDS"
  by (simp add: hd_load_def Let_def)

lemma pp_start_wf: "length b \<le> 30 \<Longrightarrow> pp_wf (pp_start b)"
  by (simp add: pp_wf_def pp_start_def nib_init_wf pp_block_length cd_init_wf hd_init_wf hs_wf_def hs_zero_def
      hb_wf_def hb_zero_def t_wf_def tk_zero_def)

lemma hd_init_abits_wf: "length mem = HD_WORDS \<Longrightarrow> n = 6 \<or> n = 8 \<Longrightarrow> hd_wf ((hd_init mem)\<lparr>hd_abits := n\<rparr>)"
  by (simp add: hd_wf_def hd_init_def)

lemma pp_fit_part_wf: "pp_wf dv \<Longrightarrow> pp_wf (pp_fit_part b dv)"
  by (simp add: pp_wf_def pp_fit_part_def Let_def hd_init_abits_wf length_hd_load tk_init_wf hs_init_facts
      hb_init_wf HD_ABITS_def)

lemma pp_wf_ng [simp]:
  "pp_wf (dv\<lparr>ng_sweep := b, ng_val := v\<rparr>) = pp_wf dv" "pp_wf (dv\<lparr>ng_data := b, ng_mode := m\<rparr>) = pp_wf dv"
  by (simp_all add: pp_wf_def)

lemma pp_init_wf [wf_intros]: "length b \<le> 30 \<Longrightarrow> pp_wf (pp_init hd_opt b sv dm)"
  by (simp add: pp_init_def Let_def pp_start_wf pp_fit_part_wf split: option.split)

text \<open>Every release of the table has its row.\<close>

lemma hd_release_lt: "hd_release b < length hd_keys"
proof -
  have "first_row ks b = Some n \<Longrightarrow> n < length ks" for ks n
    by (induction ks arbitrary: n) (auto split: if_splits)
  then show ?thesis by (auto simp: hd_release_def hd_release_opt_def hd_keys_def split: option.split)
qed

lemma hd_rows: "\<forall>k \<in> set hd_keys. synth_ident k = 0"
  by (simp add: hd_keys_def)

lemma hd_row_synth [simp]: "synth_ident (hd_keys ! hd_release b) = 0"
  using hd_rows nth_mem [OF hd_release_lt] by blast

text \<open>The device with its part fitted.\<close>

lemma pp_init_part:
  assumes "has_part hd_opt b"
  shows "hd_probe (pp_init hd_opt b sv dm)" "hd_mem (pp_hd (pp_init hd_opt b sv dm)) = hd_load b"
    "hd_abits (pp_hd (pp_init hd_opt b sv dm)) = 6"
    "pp_tk (pp_init hd_opt b sv dm) = tk_init (hd_keys ! hd_release b)"
  using assms
  by (simp_all add: pp_init_def pp_fit_part_def hd_init_def HD_ABITS_def Let_def split: option.split)

section \<open>The device as a transition system\<close>

text \<open>One access of the port; reading CTRL and DATA changes nothing.\<close>

inductive pp_step :: "pp \<Rightarrow> pp \<Rightarrow> bool" where
  write_data: "pp_step dv (pp_write_data dv v)"
| write_ctrl: "pp_step dv (pp_write_ctrl dv dat v)"
| strobe: "pp_step dv (pp_strobe dv dat old v)"
| read_status: "pp_step dv (snd (pp_read_status dv dat))"

inductive_cases pp_stepE [elim!]: "pp_step dv dv'"

inductive pp_reachable :: "pp \<Rightarrow> pp \<Rightarrow> bool" for dv0 where
  start: "pp_reachable dv0 dv0"
| access: "pp_reachable dv0 dv \<Longrightarrow> pp_step dv dv' \<Longrightarrow> pp_reachable dv0 dv'"

lemma pp_step_wf: "pp_step dv dv' \<Longrightarrow> pp_wf dv \<Longrightarrow> pp_wf dv'"
  by (auto intro: wf_intros)

text \<open>What no access changes: the configuration of the part.\<close>

definition same_config :: "pp \<Rightarrow> pp \<Rightarrow> bool" where
  "same_config dv dv' \<longleftrightarrow>
     hd_probe dv' = hd_probe dv \<and> t_synth_ident dv' = t_synth_ident dv \<and>
     t_key (pp_tk dv') = t_key (pp_tk dv) \<and> t_sess_hi (pp_tk dv') = t_sess_hi (pp_tk dv) \<and>
     t_init (pp_tk dv') = t_init (pp_tk dv) \<and> hs_table (pp_hs dv') = hs_table (pp_hs dv) \<and>
     hb_gate (pp_hb dv') = hb_gate (pp_hb dv) \<and> hb_pw (pp_hb dv') = hb_pw (pp_hb dv) \<and>
     ng_sweep dv' = ng_sweep dv \<and> ng_val dv' = ng_val dv \<and> ng_data dv' = ng_data dv \<and>
     ng_mode dv' = ng_mode dv \<and> n_rs dv' = n_rs dv"

lemma same_config_trans: "same_config a b \<Longrightarrow> same_config b c \<Longrightarrow> same_config a c"
  by (simp add: same_config_def)

lemma same_config_refl [simp]: "same_config a a"
  by (simp add: same_config_def)

lemma pp_write_part_config [simp]: "same_config dv (pp_write_part dv v)"
  by (simp add: same_config_def pp_write_part_def Let_def)

lemma same_config_fields [simp]:
  "same_config dv (dw\<lparr>pp_nib := n\<rparr>) = same_config dv dw" "same_config dv (dw\<lparr>pp_cd := c\<rparr>) = same_config dv dw"
  "same_config dv (dw\<lparr>pp_hd := h\<rparr>) = same_config dv dw" "same_config dv (dw\<lparr>last_ctrl := l\<rparr>) = same_config dv dw"
  "same_config dv (dw\<lparr>have_strobe_hook := b\<rparr>) = same_config dv dw"
  by (simp_all add: same_config_def)

lemma pp_write_data_config [simp]: "same_config dv (pp_write_data dv v)"
  by (simp add: pp_write_data_def Let_def)

lemma pp_latch_config [simp]: "same_config dv (pp_latch dw dat) = same_config dv dw"
  by (simp add: pp_latch_def)

lemma pp_write_ctrl_config [simp]: "same_config dv (pp_write_ctrl dv dat v)"
  by (simp add: pp_write_ctrl_def Let_def)

lemma pp_strobe_config [simp]: "same_config dv (pp_strobe dv dat old v)"
  by (simp add: pp_strobe_def Let_def)

lemma t_read_query_config:
  assumes "t_read_query tk = Some (a, tk')"
  shows "t_key tk' = t_key tk" "t_sess_hi tk' = t_sess_hi tk" "t_init tk' = t_init tk"
    "t_pending tk' = t_pending tk" "t_mode tk' = t_mode tk"
  by (simp_all add: t_read_query_snd [OF assms])

lemma pp_status_part_config [simp]: "same_config dv (snd (pp_status_part dv))"
proof (cases "t_read_query (pp_tk dv)")
  case None
  then show ?thesis by (simp add: same_config_def pp_status_part_def Let_def split_beta)
next
  case (Some r)
  then obtain a tk where "t_read_query (pp_tk dv) = Some (a, tk)" by (cases r) simp
  with t_read_query_config [OF this] show ?thesis by (simp add: same_config_def pp_status_part_def)
qed

lemma pp_read_status_config [simp]: "same_config dv (snd (pp_read_status dv dat))"
  by (simp add: pp_read_status_def Let_def split: option.split)

lemma pp_step_config: "pp_step dv dv' \<Longrightarrow> same_config dv dv'"
  by auto

lemma pp_reachable_kept:
  assumes "pp_reachable dv0 dv" "pp_wf dv0"
  shows "pp_wf dv \<and> same_config dv0 dv"
  using assms
proof induction
  case (access dv dv')
  then show ?case
    using pp_step_wf [OF access.hyps(2)] same_config_trans [OF _ pp_step_config [OF access.hyps(2)]] by simp
qed simp

text \<open>
  C7. The device never leaves its invariant: from the state \<open>pp_init\<close> builds for any
  banner the device composes and any options, every sequence of port accesses keeps
  every buffer at its size and every index, length and bit counter of all six units
  inside its bounds, so no access reads or writes outside an array; and it never
  changes the part's configuration.
\<close>

theorem reachable_device_wf:
  assumes "pp_reachable (pp_init hd_opt (compose_banner img bi ti) sv dm) dv"
  shows "pp_wf dv \<and> same_config (pp_init hd_opt (compose_banner img bi ti) sv dm) dv"
  by (rule pp_reachable_kept [OF assms pp_init_wf [OF compose_banner_length]])

theorem reachable_device_wf_witness:
  "pp_wf (snd (pp_read_status (pp_write_data (pp_init (-1) (compose_banner None 3 4) None None) 0x80) None))"
  by (rule reachable_device_wf [of "-1" None 3 4 None None, THEN conjunct1]) (blast intro: pp_reachable.intros pp_step.intros)

end
