(* ===== verification/PP_Session.thy ===== *)
theory PP_Session
  imports PP_Port
begin

text \<open>
  The session layer on the whole device: the library's bursts, ramp, sweep and probe
  put on DATA with \<open>pp_write_data\<close> and read with \<open>pp_read_status\<close>, with the other
  units sharing the wires, behave as in \<open>Session_Layer\<close>.
\<close>

section \<open>One payload and one read\<close>

text \<open>
  A settled part: no answer held, no record read or finished write pending, and a
  window of writes that the next payload cannot complete to a question. Every STATUS
  read outside a record read leaves the window closed.
\<close>

definition no_question :: "tk \<Rightarrow> bool" where
  "no_question tk \<longleftrightarrow> t_nrecent tk = 0 \<or> t_recent tk ! 2 AND 1 \<noteq> 0"

definition settled :: "pp \<Rightarrow> bool" where
  "settled dv \<longleftrightarrow> hd_probe dv \<and> t_synth_ident dv = 0 \<and> \<not> t_pending (pp_tk dv) \<and>
     no_question (pp_tk dv) \<and> t_wf (pp_tk dv) \<and> hd_ph (pp_hd dv) = HD_IDLE \<and> \<not> hd_ready (pp_hd dv)"

text \<open>A payload of the session layer on this release: bit 0 low, bit 7 only where it is used.\<close>

definition session_payload :: "pp \<Rightarrow> u8 \<Rightarrow> bool" where
  "session_payload dv w \<longleftrightarrow> w AND 1 = 0 \<and> (t_sess_hi (pp_tk dv) \<or> w AND 0x80 = 0)"

fun dev_run :: "u8 option \<Rightarrow> u8 list \<Rightarrow> pp \<Rightarrow> u8 list \<times> pp" where
  "dev_run dat [] dv = ([], dv)"
| "dev_run dat (w # ws) dv =
     (let (st, dv) = pp_read_status (pp_write_data dv w) dat; (sts, dv) = dev_run dat ws dv
      in (st # sts, dv))"

lemma no_preamble: "w AND 1 = 0 \<Longrightarrow> \<not> rises l w 1"
proof -
  assume w: "w AND 1 = 0"
  have "(w AND NOT l) AND 1 = (w AND 1) AND NOT l" by (simp only: and.assoc and.commute [of "NOT l"])
  then show "\<not> rises l w 1" by (simp add: rises_def w)
qed

lemma hb_data_even:
  assumes "w AND 1 = 0"
  shows "hb_mode (hb_data b w) = hb_mode b" "hb_n (hb_data b w) = hb_n b"
  using assms by (simp_all add: hb_data_def)

lemma session_read_hb:
  "hb_gate b = hb_gate c \<Longrightarrow> hb_mode b = hb_mode c \<Longrightarrow> session_read b hi syn dv w = session_read c hi syn dv w"
proof -
  assume "hb_gate b = hb_gate c" "hb_mode b = hb_mode c"
  then have "hs_sweep_bit b = hs_sweep_bit c" by (intro ext) (simp add: hs_sweep_bit_def)
  then show ?thesis by (simp only: session_read_def)
qed

lemma hd_write_idle:
  assumes "hd_ph dv = HD_IDLE" "\<not> hd_ready dv"
  shows "hd_ph (hd_write_data dv v) \<noteq> HD_READ" "\<not> hd_ready (hd_write_data dv v)"
  using assms by (simp_all add: hd_write_data_def hd_edge_def Let_def)

lemma pp_write_data_fields [simp]:
  "pp_hs (pp_write_data dv v) = pp_hs dv" "last_data (pp_nib (pp_write_data dv v)) = v"
  "hd_probe (pp_write_data dv v) = hd_probe dv" "t_synth_ident (pp_write_data dv v) = t_synth_ident dv"
  by (simp_all add: pp_write_data_def pp_write_part_def pp_ack_edge_def Let_def)

lemma pp_write_data_units:
  "pp_hd (pp_write_data dv v) = (if hd_probe dv \<and> wire_reaches_part dv v then hd_write_data (pp_hd dv) v else pp_hd dv)"
  "pp_tk (pp_write_data dv v) = (if hd_probe dv \<and> t_key (pp_tk dv) \<noteq> 0 then t_data (pp_tk dv) v else pp_tk dv)"
  "pp_hb (pp_write_data dv v) = (if hd_probe dv \<and> hb_gate (pp_hb dv) then hb_data (pp_hb dv) v else pp_hb dv)"
  "pp_cd (pp_write_data dv v) = cd_write_data (block (pp_nib dv)) (pp_cd dv) v"
  "pp_nib (pp_write_data dv v) = pp_ack_edge (pp_nib dv) v"
  by (simp_all add: pp_write_data_def pp_write_part_def wire_reaches_part_def Let_def)

lemma odd_not_even_or: "a AND 1 \<noteq> (0 :: u8) \<Longrightarrow> p AND 0x11 = 0 \<Longrightarrow> a \<noteq> p OR 0x10"
proof
  assume a: "a AND 1 \<noteq> 0" "p AND 0x11 = 0" "a = p OR 0x10"
  have "(p OR 0x10) AND 1 = (p AND 0x11) AND 1 OR 0x10 AND 1"
    by (rule byte_eqI) (simp_all add: bit_simps)
  with a show False by simp
qed

lemma t_quiet_write:
  assumes "t_wf tk" "no_question tk" "\<not> t_pending tk" "w AND 1 = 0" "t_sess_hi tk \<or> w AND 0x80 = 0"
  shows "\<not> t_pending (t_data tk w)" "t_read_query (t_data tk w) = None"
proof -
  have e: "\<not> preamble_edge tk w" "\<not> query_edge tk w"
    using assms(4,5) no_preamble by (auto simp: preamble_edge_def query_edge_def)
  show "\<not> t_pending (t_data tk w)" using assms(3) e by (simp add: t_data_pending)
  show "t_read_query (t_data tk w) = None"
  proof (cases "t_nrecent tk = 0")
    case True
    then have "t_nrecent (t_data tk w) = 1" by (simp add: t_note_def)
    then show ?thesis by (simp add: t_read_query_def)
  next
    case False
    then have o: "t_recent tk ! 2 AND 1 \<noteq> 0" using assms(2) by (simp add: no_question_def)
    then have "t_recent tk ! 2 \<noteq> w" using assms(4) by auto
    then have "t_recent (t_data tk w) = [t_recent tk ! 1, t_recent tk ! 2, w]"
      by (simp add: t_note_def)
    then show ?thesis using odd_not_even_or [OF o] by (auto simp: t_read_query_def Let_def)
  qed
qed

lemma t_read_query_no_key: "t_key tk = 0 \<Longrightarrow> t_read_query tk = None"
  by (simp add: t_read_query_def)

lemma no_question_none: "t_wf tk \<Longrightarrow> t_nrecent tk = 0 \<Longrightarrow> t_read_query tk = None"
  by (simp add: t_read_query_def)

text \<open>A read that finds no question, no held answer and no record read.\<close>

lemma session_status:
  assumes "hd_probe dv" "t_read_query (pp_tk dv) = None" "\<not> t_pending (pp_tk dv)"
    "hd_ph (pp_hd dv) \<noteq> HD_READ"
    "session_read (pp_hb dv) (t_sess_hi (pp_tk dv)) (t_synth_ident dv) (pp_hs dv) (last_data (pp_nib dv)) = (b, hs)"
  shows "pp_read_status dv dat =
    (DO (hd_ready (pp_hd dv) \<or> b),
     dv\<lparr>pp_tk := (pp_tk dv)\<lparr>t_nrecent := 0\<rparr>, pp_hd := hd_idle (pp_hd dv), pp_hs := hs\<rparr>)"
  using assms by (simp add: pp_read_status_def pp_status_part_def hd_idle_def Let_def)

lemma session_access:
  assumes "settled dv" "session_payload dv w"
    and d: "d = snd (pp_read_status (pp_write_data dv w) dat)"
    and r: "r = session_read (pp_hb dv) (t_sess_hi (pp_tk dv)) 0 (pp_hs dv) w"
  shows "fst (pp_read_status (pp_write_data dv w) dat) = DO (fst r)"
    "pp_hs d = snd r" "settled d" "hb_mode (pp_hb d) = hb_mode (pp_hb dv)"
    "same_config dv d"
proof -
  let ?w = "pp_write_data dv w"
  let ?tk = "(pp_tk ?w)\<lparr>t_nrecent := 0\<rparr>"
  have s: "hd_probe dv" "t_synth_ident dv = 0" "\<not> t_pending (pp_tk dv)" "no_question (pp_tk dv)"
    "t_wf (pp_tk dv)" "hd_ph (pp_hd dv) = HD_IDLE" "\<not> hd_ready (pp_hd dv)"
    using assms(1) by (simp_all add: settled_def)
  have p: "w AND 1 = 0" "t_sess_hi (pp_tk dv) \<or> w AND 0x80 = 0"
    using assms(2) by (simp_all add: session_payload_def)
  note q = t_quiet_write [OF s(5,4,3) p]
  have q1: "t_read_query (pp_tk ?w) = None" "\<not> t_pending (pp_tk ?w)"
    using q s(1,3) t_read_query_no_key [of "pp_tk dv"]
    by (cases "t_key (pp_tk dv) = 0"; simp add: pp_write_data_units)+
  have h: "hd_ph (pp_hd ?w) \<noteq> HD_READ" "\<not> hd_ready (pp_hd ?w)"
    using hd_write_idle [OF s(6,7), of w] s(6,7) by (simp_all add: pp_write_data_units)
  have b: "hb_gate (pp_hb ?w) = hb_gate (pp_hb dv)" "hb_mode (pp_hb ?w) = hb_mode (pp_hb dv)"
    using hb_data_even [OF p(1)] by (simp_all add: pp_write_data_units)
  have hi: "t_sess_hi (pp_tk ?w) = t_sess_hi (pp_tk dv)" by (simp add: pp_write_data_units)
  have rd: "session_read (pp_hb ?w) (t_sess_hi (pp_tk ?w)) (t_synth_ident ?w) (pp_hs ?w) (last_data (pp_nib ?w)) =
      (fst r, snd r)"
    using session_read_hb [OF b] hi s(2) by (simp add: r)
  have st: "pp_read_status ?w dat =
      (DO (fst r), ?w\<lparr>pp_tk := ?tk, pp_hd := hd_idle (pp_hd ?w), pp_hs := snd r\<rparr>)"
    using session_status [OF _ q1 h(1) rd, of dat] s(1) h(2) by simp
  show "fst (pp_read_status ?w dat) = DO (fst r)" by (simp only: st fst_conv)
  have d': "d = ?w\<lparr>pp_tk := ?tk, pp_hd := hd_idle (pp_hd ?w), pp_hs := snd r\<rparr>"
    by (simp only: d st snd_conv)
  show "pp_hs d = snd r" by (simp add: d')
  have wf: "t_wf (pp_tk ?w)" using s(5) by (simp add: pp_write_data_units t_data_wf)
  show "settled d" using s(1,2) q1(2) h(2) wf by (simp add: d' settled_def hd_idle_def no_question_def)
  show "hb_mode (pp_hb d) = hb_mode (pp_hb dv)" using b(2) by (simp add: d')
  show "same_config dv d"
    unfolding d using pp_read_status_config [of ?w dat] pp_write_data_config [of dv w] same_config_trans by blast
qed

lemma session_run_hb:
  "hb_gate b = hb_gate c \<Longrightarrow> hb_mode b = hb_mode c \<Longrightarrow> session_run b hi syn ws dv = session_run c hi syn ws dv"
  by (induction ws arbitrary: dv) (simp_all add: session_read_hb [of b c])

text \<open>Any sequence of payloads is answered as the session layer alone answers it.\<close>

lemma dev_run_session:
  assumes "settled dv" "\<forall>w \<in> set ws. session_payload dv w"
  shows "fst (dev_run dat ws dv) =
      map DO (fst (session_run (pp_hb dv) (t_sess_hi (pp_tk dv)) 0 ws (pp_hs dv))) \<and>
    pp_hs (snd (dev_run dat ws dv)) = snd (session_run (pp_hb dv) (t_sess_hi (pp_tk dv)) 0 ws (pp_hs dv)) \<and>
    settled (snd (dev_run dat ws dv)) \<and> same_config dv (snd (dev_run dat ws dv)) \<and>
    hb_mode (pp_hb (snd (dev_run dat ws dv))) = hb_mode (pp_hb dv)"
  using assms
proof (induction ws arbitrary: dv)
  case Nil
  then show ?case by simp
next
  case (Cons w ws)
  let ?d = "snd (pp_read_status (pp_write_data dv w) dat)"
  let ?hi = "t_sess_hi (pp_tk dv)"
  have pw: "session_payload dv w" using Cons.prems(2) by simp
  note a = session_access [OF Cons.prems(1) pw refl refl, of dat]
  have cfg: "t_sess_hi (pp_tk ?d) = ?hi" "hb_gate (pp_hb ?d) = hb_gate (pp_hb dv)"
    using a(5) by (simp_all add: same_config_def)
  have ih: "fst (dev_run dat ws ?d) = map DO (fst (session_run (pp_hb dv) ?hi 0 ws (pp_hs ?d))) \<and>
    pp_hs (snd (dev_run dat ws ?d)) = snd (session_run (pp_hb dv) ?hi 0 ws (pp_hs ?d)) \<and>
    settled (snd (dev_run dat ws ?d)) \<and> same_config ?d (snd (dev_run dat ws ?d)) \<and>
    hb_mode (pp_hb (snd (dev_run dat ws ?d))) = hb_mode (pp_hb ?d)"
    using Cons.IH [OF a(3)] Cons.prems(2) cfg(1) session_run_hb [OF cfg(2) a(4), of ?hi 0 ws "pp_hs ?d"]
    by (simp add: session_payload_def)
  have cfg2: "same_config dv (snd (dev_run dat ws ?d))"
    using ih a(5) same_config_trans by blast
  show ?case
    using ih cfg2 a(1,2,4) by (simp add: split_beta Let_def)
qed



section \<open>A burst does not complete an instruction\<close>

text \<open>
  The Microwire decoder shares the wires, so a burst clocks bits into it. An
  instruction takes nine rising edges of SK; the sixteen bytes of a burst, each
  written twice, make at most eight.
\<close>

definition hd_progress :: "hd \<Rightarrow> int" where
  "hd_progress dv = (case hd_ph dv of HD_IDLE \<Rightarrow> 0 | HD_OP \<Rightarrow> 1 + int (hd_n dv) | _ \<Rightarrow> 3 + int (hd_n dv))"

definition hd_collecting :: "hd \<Rightarrow> bool" where
  "hd_collecting dv \<longleftrightarrow> hd_wf dv \<and> \<not> hd_ready dv \<and> hd_ph dv \<in> {HD_IDLE, HD_OP, HD_ADDR}"

definition hd_potential :: "hd \<Rightarrow> int" where
  "hd_potential dv = 2 * hd_progress dv - of_bool (hd_sk dv)"

lemma hd_edge_collecting:
  assumes "hd_collecting dv" "hd_progress dv \<le> 7"
  shows "hd_collecting (hd_edge dv dat)" "hd_progress (hd_edge dv dat) \<le> hd_progress dv + 1"
proof -
  have w: "hd_wf (hd_edge dv dat)" using assms(1) by (simp add: hd_collecting_def hd_edge_wf)
  have "hd_ph dv \<in> {HD_IDLE, HD_OP, HD_ADDR}" "\<not> hd_ready dv" "hd_wf dv"
    using assms(1) by (simp_all add: hd_collecting_def)
  moreover have "Suc (hd_n dv) \<noteq> hd_abits dv" if "hd_ph dv = HD_ADDR"
    using that assms calculation(3) by (auto simp: hd_progress_def hd_wf_def)
  ultimately have "\<not> hd_ready (hd_edge dv dat) \<and> hd_ph (hd_edge dv dat) \<in> {HD_IDLE, HD_OP, HD_ADDR} \<and>
      hd_progress (hd_edge dv dat) \<le> hd_progress dv + 1"
    by (cases "hd_ph dv") (auto simp: hd_edge_def hd_progress_def Let_def)
  then show "hd_collecting (hd_edge dv dat)" "hd_progress (hd_edge dv dat) \<le> hd_progress dv + 1"
    using w by (simp_all add: hd_collecting_def)
qed

lemma hd_write_potential:
  assumes "hd_collecting dv" "hd_potential dv \<le> 15"
  shows "hd_collecting (hd_write_data dv v)"
    "hd_potential (hd_write_data dv v) \<le> hd_potential dv + of_bool (hd_sk dv \<noteq> (v AND HD_SK \<noteq> 0))"
proof -
  have pos: "0 \<le> hd_progress dv" by (simp add: hd_progress_def split: hd_phase.split)
  have sk: "hd_collecting (d\<lparr>hd_sk := c\<rparr>) = hd_collecting d" "hd_progress (d\<lparr>hd_sk := c\<rparr>) = hd_progress d" for d c
    by (simp_all add: hd_collecting_def hd_progress_def split: hd_phase.split)
  consider (off) "v AND HD_CS = 0" | (edge) "v AND HD_CS \<noteq> 0" "v AND HD_SK \<noteq> 0" "\<not> hd_sk dv"
    | (hold) "v AND HD_CS \<noteq> 0" "\<not> (v AND HD_SK \<noteq> 0 \<and> \<not> hd_sk dv)" by blast
  then have "hd_collecting (hd_write_data dv v) \<and>
    hd_potential (hd_write_data dv v) \<le> hd_potential dv + of_bool (hd_sk dv \<noteq> (v AND HD_SK \<noteq> 0))"
  proof cases
    case off
    then have "hd_write_data dv v = dv\<lparr>hd_ph := HD_IDLE, hd_n := 0, hd_sk := v AND HD_SK \<noteq> 0\<rparr>"
      by (simp add: hd_write_data_def Let_def)
    moreover have "hd_collecting (dv\<lparr>hd_ph := HD_IDLE, hd_n := 0\<rparr>)"
      using assms(1) by (simp add: hd_collecting_def)
    ultimately show ?thesis
      using pos by (auto simp: sk hd_potential_def of_bool_def) (simp_all add: hd_progress_def)
  next
    case edge
    then have "hd_progress dv \<le> 7" using assms(2) by (simp add: hd_potential_def)
    note e = hd_edge_collecting [OF assms(1) this, of "v AND HD_DI \<noteq> 0"]
    have "hd_write_data dv v = (hd_edge dv (v AND HD_DI \<noteq> 0))\<lparr>hd_sk := True\<rparr>"
      using edge by (simp add: hd_write_data_def Let_def)
    then show ?thesis using e edge by (simp add: sk hd_potential_def)
  next
    case hold
    then have "hd_write_data dv v = dv\<lparr>hd_sk := v AND HD_SK \<noteq> 0\<rparr>"
      by (auto simp: hd_write_data_def Let_def)
    then show ?thesis using assms(1) hold by (auto simp: sk hd_potential_def)
  qed
  then show "hd_collecting (hd_write_data dv v)"
    "hd_potential (hd_write_data dv v) \<le> hd_potential dv + of_bool (hd_sk dv \<noteq> (v AND HD_SK \<noteq> 0))" by blast+
qed

lemma hd_write_sk [simp]: "hd_sk (hd_write_data dv v) = (v AND HD_SK \<noteq> 0)"
  by (simp add: hd_write_data_def Let_def)

definition dev_writes :: "u8 list \<Rightarrow> pp \<Rightarrow> pp" where
  "dev_writes vs dv = fold (\<lambda>v d. pp_write_data d v) vs dv"

lemma dev_writes_simps [simp]:
  "dev_writes [] dv = dv" "dev_writes (v # vs) dv = dev_writes vs (pp_write_data dv v)"
  "dev_writes (us @ vs) dv = dev_writes vs (dev_writes us dv)"
  by (simp_all add: dev_writes_def)

lemma dev_writes_wf [wf_intros]: "pp_wf dv \<Longrightarrow> pp_wf (dev_writes vs dv)"
  by (induction vs arbitrary: dv) (simp_all add: pp_write_data_wf)

lemma dev_writes_config [simp]: "same_config dv (dev_writes vs dv)"
proof (induction vs arbitrary: dv)
  case (Cons v vs)
  then show ?case using same_config_trans [OF pp_write_data_config [of dv v]] by simp
qed simp

lemma dev_writes_hs [simp]: "pp_hs (dev_writes vs dv) = pp_hs dv"
  by (induction vs arbitrary: dv) simp_all

lemma dev_writes_hb:
  "hd_probe dv \<Longrightarrow> hb_gate (pp_hb dv) \<Longrightarrow> pp_hb (dev_writes vs dv) = hb_run vs (pp_hb dv)"
  by (induction vs arbitrary: dv) (simp_all add: pp_write_data_units)

lemma clocked_byte_sk: "session_level h \<Longrightarrow> (b OR h) AND HD_SK = b AND HD_SK"
    "session_level h \<Longrightarrow> (b OR h OR 1) AND HD_SK = b AND HD_SK"
  unfolding session_level_def HD_SK_def by (elim disjE; rule byte_eqI; simp add: bit_simps)+

lemma burst_potential:
  assumes "session_level h"
  shows "hd_collecting (pp_hd dv) \<Longrightarrow> hd_potential (pp_hd dv) \<le> k \<Longrightarrow> k + int (length bs) \<le> 16 \<Longrightarrow>
    hd_collecting (pp_hd (dev_writes (concat (map (clock_byte h) bs)) dv))"
proof (induction bs arbitrary: dv k)
  case Nil
  then show ?case by simp
next
  case (Cons b bs)
  let ?d = "pp_write_data dv (b OR h)" and ?e = "pp_write_data (pp_write_data dv (b OR h)) (b OR h OR 1)"
  note sk = clocked_byte_sk [OF assms, of b]
  note one = hd_write_potential [OF Cons.prems(1), of "b OR h"] hd_write_potential [OF Cons.prems(1), of "b OR h OR 1"]
  have p: "hd_potential (pp_hd dv) \<le> 15" using Cons.prems by simp
  have d: "hd_collecting (pp_hd ?d)" "hd_potential (pp_hd ?d) \<le> k + 1"
    using one(1,2) [OF p] Cons.prems by (auto simp: pp_write_data_units of_bool_def split: if_splits)
  have "hd_collecting (pp_hd ?e) \<and> hd_potential (pp_hd ?e) \<le> k + 1"
  proof (cases "hd_probe dv \<and> wire_reaches_part dv (b OR h)")
    case True
    then have s: "hd_sk (pp_hd ?d) = (b AND HD_SK \<noteq> 0)" by (simp add: pp_write_data_units sk)
    show ?thesis
    proof (cases "hd_potential (pp_hd ?d) \<le> 15")
      case True
      then show ?thesis
        using hd_write_potential [OF d(1) True, of "b OR h OR 1"] d s
        by (auto simp: pp_write_data_units [of ?d] sk)
    next
      case False
      then have f: "hd_potential (pp_hd ?d) = 16" using d(2) Cons.prems(3) by simp
      then have "\<not> hd_sk (pp_hd ?d)"
        by (auto simp: hd_potential_def of_bool_def split: if_splits) presburger
      then have "b AND HD_SK = 0" using s by simp
      then have "hd_write_data (pp_hd ?d) (b OR h OR 1) =
          (if (b OR h OR 1) AND HD_CS = 0 then (pp_hd ?d)\<lparr>hd_ph := HD_IDLE, hd_n := 0, hd_sk := False\<rparr>
           else (pp_hd ?d)\<lparr>hd_sk := False\<rparr>)"
        using sk(2) by (simp add: hd_write_data_def Let_def)
      then show ?thesis
        using d f \<open>\<not> hd_sk (pp_hd ?d)\<close>
        by (auto simp: pp_write_data_units [of ?d] hd_collecting_def hd_potential_def hd_progress_def)
    qed
  next
    case False
    then have "pp_hd ?d = pp_hd dv" by (auto simp: pp_write_data_units)
    then show ?thesis
      using one(3,4) [OF p] Cons.prems by (auto simp: pp_write_data_units [of ?d] of_bool_def split: if_splits)
  qed
  then show ?case
    using Cons.IH [of ?e "k + 1"] Cons.prems by (simp add: clock_byte_def)
qed


text \<open>Every library burst ends by dropping CS in a form the decoder is shown on every release.\<close>

definition burst_deselects :: "u8 list \<Rightarrow> bool" where
  "burst_deselects bs \<longleftrightarrow> length bs = 15 \<and> bs ! 13 AND 0x1E = 0x1C \<and> bs ! 14 AND 0x02 = 0"

lemma u8_and_zero_iff: "(w AND 2 = 0) = (\<not> bit w 1)" for w :: u8
proof -
  have "w AND 2 = (if bit w 1 then 2 else 0)" by (rule byte_eqI) (simp_all add: bit_simps)
  then show ?thesis by simp
qed

lemma deselecting_write:
  assumes "v AND HD_CS = 0"
  shows "hd_ph (hd_write_data dv v) = HD_IDLE"
  using assms by (simp add: hd_write_data_def Let_def)

lemma deselect_kept:
  assumes "v AND HD_CS = 0" "hd_ph (pp_hd dv) = HD_IDLE"
  shows "hd_ph (pp_hd (pp_write_data dv v)) = HD_IDLE"
  using assms by (simp add: pp_write_data_units deselecting_write)

lemma deselect_byte:
  assumes "session_level h" "b AND 0x02 = 0"
  shows "(b OR h) AND HD_CS = 0" "(b OR h OR 1) AND HD_CS = 0"
  using assms unfolding session_level_def HD_CS_def u8_and_zero_iff by (auto simp: bit_simps)

lemma deselect_frame:
  assumes "session_level h" "b AND 0x1E = 0x1C"
  shows "b AND 0x02 = 0" "(b OR h) AND 0x1C = 0x1C"
proof -
  have "bit (b AND 0x1E) n = bit (0x1C :: u8) n" for n using assms(2) by simp
  from this [of 1] this [of 2] this [of 3] this [of 4]
  have b: "\<not> bit b 1" "bit b 2" "bit b 3" "bit b 4" by (simp_all add: bit_simps)
  show "b AND 0x02 = 0" using b by (simp add: u8_and_zero_iff)
  show "(b OR h) AND 0x1C = 0x1C" using b by (intro byte_eqI) (simp_all add: bit_simps)
qed

lemma burst_leaves_idle:
  assumes "session_level h" "burst_deselects bs" "hd_probe dv"
  shows "hd_ph (pp_hd (dev_writes (burst_wire h bs) dv)) = HD_IDLE"
proof -
  have len: "length bs = 15" "bs ! 13 AND 0x1E = 0x1C" "bs ! 14 AND 0x02 = 0"
    using assms(2) by (simp_all add: burst_deselects_def)
  have "bs = take 13 bs @ drop 13 bs" by simp
  also have "drop 13 bs = [bs ! 13, bs ! 14]"
    using len(1) Cons_nth_drop_Suc [of 13 bs] Cons_nth_drop_Suc [of 14 bs] by simp
  finally have split: "bs = take 13 bs @ [bs ! 13, bs ! 14]" .
  let ?d = "dev_writes (concat (map (clock_byte h) (0x46 # take 13 bs))) dv"
  have cfg: "hd_probe ?d" using dev_writes_config [of dv "concat (map (clock_byte h) (0x46 # take 13 bs))"] assms(3)
    by (simp only: same_config_def)
  note f = deselect_frame [OF assms(1) len(2)]
  have "burst_wire h bs = concat (map (clock_byte h) (0x46 # take 13 bs)) @
      [bs ! 13 OR h, bs ! 13 OR h OR 1, bs ! 14 OR h, bs ! 14 OR h OR 1]"
    unfolding burst_wire_def by (subst split) (simp add: clock_byte_def)
  moreover have "hd_ph (pp_hd (pp_write_data ?d (bs ! 13 OR h))) = HD_IDLE"
    using cfg f(2) deselect_byte(1) [OF assms(1) f(1)]
    by (simp add: pp_write_data_units wire_reaches_part_def deselecting_write)
  ultimately show ?thesis
    using deselect_byte [OF assms(1) f(1)] deselect_byte [OF assms(1) len(3)]
    by (simp add: deselect_kept del: map_append)
qed

lemma burst_leaves_quiet:
  assumes "level_ok (t_sess_hi (pp_tk dv)) h" "\<forall>b \<in> set bs. command_byte b"
    "\<not> t_pending (pp_tk dv)" "t_wf (pp_tk dv)" "no_question (pp_tk dv)"
  shows "\<not> t_pending (pp_tk (dev_writes (concat (map (clock_byte h) bs)) dv)) \<and>
    t_wf (pp_tk (dev_writes (concat (map (clock_byte h) bs)) dv)) \<and>
    no_question (pp_tk (dev_writes (concat (map (clock_byte h) bs)) dv))"
  using assms
proof (induction bs arbitrary: dv)
  case Nil
  then show ?case by simp
next
  case (Cons b bs)
  have s: "session_level h" "t_sess_hi (pp_tk dv) \<or> h = 0" and cb: "command_byte b"
    using Cons.prems by (auto simp: level_ok_def)
  note c = clock_byte_bits [OF cb s(1)]
  have z: "(b OR h) AND 0x80 = 0" "(b OR h OR 1) AND 0x80 = 0" if "h = 0"
  proof -
    have "bit b 7 = (bit b 7 \<and> bit (0x7E :: u8) 7)" using cb by (metis bit_and_iff command_byte_def)
    then have "\<not> bit b 7" by simp
    then show "(b OR h) AND 0x80 = 0" "(b OR h OR 1) AND 0x80 = 0"
      using that by (auto intro!: byte_eqI simp: bit_simps)
  qed
  have keep: "\<not> t_pending (t_data tk v)"
    if "\<not> t_pending tk" "t_sess_hi tk = t_sess_hi (pp_tk dv)" "t_sess_hi (pp_tk dv) \<or> v AND 0x80 = 0" for tk v
    using that by (auto simp: t_data_pending query_edge_def)
  have odd: "no_question (t_data tk (b OR h OR 1))" if "t_wf tk" for tk
    using that c(2) by (auto simp: no_question_def t_note_def t_wf_def)
  let ?d = "pp_write_data dv (b OR h)" and ?e = "pp_write_data (pp_write_data dv (b OR h)) (b OR h OR 1)"
  have "\<not> t_pending (pp_tk ?e) \<and> t_wf (pp_tk ?e) \<and> no_question (pp_tk ?e)"
    using Cons.prems s z keep odd by (auto simp: pp_write_data_units t_data_wf)
  moreover have "t_sess_hi (pp_tk ?e) = t_sess_hi (pp_tk dv)" by (simp add: pp_write_data_units)
  ultimately show ?case using Cons.IH [of ?e] Cons.prems by (simp add: clock_byte_def)
qed

text \<open>A burst takes a settled part to a settled part and is judged as the burst unit alone judges it.\<close>

lemma burst_on_device:
  assumes "settled dv" "hb_gate (pp_hb dv)" "hd_wf (pp_hd dv)" "level_ok (t_sess_hi (pp_tk dv)) h"
    "burst_deselects bs" "\<forall>b \<in> set bs. command_byte b"
  shows "settled (dev_writes (burst_wire h bs) dv)"
    "pp_hb (dev_writes (burst_wire h bs) dv) = hb_run (burst_wire h bs) (pp_hb dv)"
proof -
  let ?d = "dev_writes (burst_wire h bs) dv"
  have s: "hd_probe dv" "t_synth_ident dv = 0" "\<not> t_pending (pp_tk dv)" "no_question (pp_tk dv)"
    "t_wf (pp_tk dv)" "hd_ph (pp_hd dv) = HD_IDLE" "\<not> hd_ready (pp_hd dv)"
    using assms(1) by (simp_all add: settled_def)
  have h: "session_level h" using assms(4) by (simp add: level_ok_def)
  show "pp_hb ?d = hb_run (burst_wire h bs) (pp_hb dv)" using s(1) assms(2) by (rule dev_writes_hb)
  have "hd_collecting (pp_hd dv)" "hd_potential (pp_hd dv) \<le> 0"
    using s(6,7) assms(3) by (simp_all add: hd_collecting_def hd_potential_def hd_progress_def)
  moreover have "length (0x46 # bs) \<le> 16" using assms(5) by (simp add: burst_deselects_def)
  ultimately have "hd_collecting (pp_hd ?d)"
    using burst_potential [OF h, of dv 0 "0x46 # bs"] by (simp add: burst_wire_def)
  moreover have "hd_ph (pp_hd ?d) = HD_IDLE" by (rule burst_leaves_idle [OF h assms(5) s(1)])
  moreover have "command_byte 0x46" by (simp add: command_byte_def)
  then have "\<not> t_pending (pp_tk ?d) \<and> t_wf (pp_tk ?d) \<and> no_question (pp_tk ?d)"
    using burst_leaves_quiet [OF assms(4) _ s(3,5,4), of "0x46 # bs"] assms(6)
    unfolding burst_wire_def by simp
  ultimately show "settled ?d"
    using dev_writes_config [of dv "burst_wire h bs"] s(1,2)
    by (simp add: settled_def hd_collecting_def same_config_def)
qed

end
