(* ===== verification/PP_Login.thy ===== *)
theory PP_Login
  imports PP_Session
begin

text \<open>
  The library's login on the whole device: the identity ramp and the liveness probe,
  a burst and the sweep it opens, and the two-sweep replay check, each as writes to
  DATA and reads of STATUS.
\<close>

section \<open>Every library burst deselects\<close>

lemma burst_tail_entries: "v < 16 \<Longrightarrow> hs_burst_tab ! 13 ! v AND 0x1E = 0x1C \<and> hs_burst_tab ! 14 ! v AND 0x02 = 0"
proof -
  have "\<forall>v \<in> set [0..<16]. hs_burst_tab ! 13 ! v AND 0x1E = 0x1C \<and> hs_burst_tab ! 14 ! v AND 0x02 = 0"
    by code_simp
  then show "v < 16 \<Longrightarrow> hs_burst_tab ! 13 ! v AND 0x1E = 0x1C \<and> hs_burst_tab ! 14 ! v AND 0x02 = 0"
    by (simp only: set_upt Ball_def atLeastLessThan_iff) simp
qed

lemma library_bursts_deselect: "burst_deselects (burst_of pw)" "burst_deselects (ident_burst pw)"
  using burst_tail_entries pw_nib_less
  by (simp_all add: burst_deselects_def burst_of_nth ident_burst_nth burst_want_def HS_BURST_MODE_def)

lemma library_burst_bytes: "\<forall>b \<in> set (burst_of pw). command_byte b" "\<forall>b \<in> set (ident_burst pw). command_byte b"
  using burst_of_commands ident_burst_commands by blast+

section \<open>Payloads of the three phases\<close>

lemma session_payloads:
  assumes "level_ok (t_sess_hi (pp_tk dv)) h"
  shows "\<forall>w \<in> set (ramp h). session_payload dv w" "\<forall>w \<in> set (sweep h). session_payload dv w"
    "\<forall>w \<in> set [0x1E OR h, 0x1C OR h]. session_payload dv w"
proof -
  have "\<forall>h \<in> set [0, 0x80]. \<forall>w \<in> set (ramp h @ sweep h @ [0x1E OR h, 0x1C OR h]).
      w AND 1 = 0 \<and> (h = 0 \<longrightarrow> w AND 0x80 = 0)"
    by code_simp
  moreover have "h \<in> set [0, 0x80]" "t_sess_hi (pp_tk dv) \<or> h = 0"
    using assms by (auto simp: level_ok_def session_level_def)
  ultimately have "\<forall>w \<in> set (ramp h @ sweep h @ [0x1E OR h, 0x1C OR h]). session_payload dv w"
    unfolding session_payload_def by blast
  then show "\<forall>w \<in> set (ramp h). session_payload dv w" "\<forall>w \<in> set (sweep h). session_payload dv w"
    "\<forall>w \<in> set [0x1E OR h, 0x1C OR h]. session_payload dv w" by simp_all
qed

section \<open>Identity and liveness\<close>

text \<open>The level the host reads off STATUS bit 5.\<close>

definition DO_level :: "u8 \<Rightarrow> bool" where
  "DO_level st \<longleftrightarrow> st AND HD_DO \<noteq> 0"

lemma DO_level_DO [simp]: "DO_level (DO b) = b"
  by (simp add: DO_level_def DO_def HD_DO_def)

lemma DO_level_map [simp]: "map DO_level (map DO bs) = bs"
  by (induction bs) simp_all

lemma device_ramp:
  assumes "settled dv" "level_ok (t_sess_hi (pp_tk dv)) h"
  shows "map DO_level (fst (dev_run dat (ramp h) dv)) = map (bit HD_SIGNATURE) [0..<64]"
    "pp_hs (snd (dev_run dat (ramp h) dv)) = ramp_state (pp_hs dv) (ramp_payload h 63)"
    "settled (snd (dev_run dat (ramp h) dv))" "same_config dv (snd (dev_run dat (ramp h) dv))"
proof -
  have h: "session_level h" using assms(2) by (simp add: level_ok_def)
  note d = dev_run_session [OF assms(1) session_payloads(1) [OF assms(2)], of dat, unfolded ramp_run [OF h] fst_conv snd_conv]
  show "map DO_level (fst (dev_run dat (ramp h) dv)) = map (bit HD_SIGNATURE) [0..<64]"
    using d DO_level_map by metis
  show "pp_hs (snd (dev_run dat (ramp h) dv)) = ramp_state (pp_hs dv) (ramp_payload h 63)"
    "settled (snd (dev_run dat (ramp h) dv))" "same_config dv (snd (dev_run dat (ramp h) dv))"
    using d by blast+
qed

text \<open>A part as \<open>pp_init\<close> builds it is settled, for every release.\<close>

lemma release_row: "hd_keys ! hd_release b \<in> set hd_keys"
proof -
  have "length hd_keys = 8" by (simp add: hd_keys_def)
  then show ?thesis using hd_release_bound [of b] by simp
qed

lemma release_synth: "synth_ident (hd_keys ! hd_release b) = 0"
proof -
  have "\<forall>k \<in> set hd_keys. synth_ident k = 0" by (simp add: hd_keys_def)
  then show ?thesis using release_row by blast
qed

lemma pp_init_settled:
  assumes "has_part opt b"
  shows "settled (pp_init opt b None None)"
  using assms release_synth [of b]
  by (simp add: pp_init_def pp_fit_part_def pp_start_def settled_def tk_init_def hd_init_def no_question_def
      t_wf_def Let_def)

definition igo3 :: pp where
  "igo3 = pp_init (-1) (bytes ''Version 2003 (DE)'') None None"

lemma igo3_row: "hd_release_opt (bytes ''Version 2003 (DE)'') = Some 2"
  by code_simp

lemma igo3_facts:
  "settled igo3" "t_sess_hi (pp_tk igo3)" "hb_gate (pp_hb igo3)" "hb_pw (pp_hb igo3) = pass_pair 0x6B91"
  "hs_table (pp_hs igo3) = hs_sweep_table 0x6B91" "sweep_can_start h (pp_hs igo3)" "pp_wf igo3"
proof -
  have len: "length (bytes ''Version 2003 (DE)'') \<le> 30" by (simp add: bytes_def)
  have p: "has_part (-1) (bytes ''Version 2003 (DE)'')" by (simp add: has_part_def igo3_row)
  show "settled igo3" unfolding igo3_def by (rule pp_init_settled [OF p])
  show "pp_wf igo3" unfolding igo3_def by (rule pp_init_wf [OF len])
  have k: "hd_release (bytes ''Version 2003 (DE)'') = 2" by (simp add: hd_release_def igo3_row)
  have r: "sess_hi (hd_keys ! 2)" "pass1 (hd_keys ! 2) = 0x6B91" "shape (hd_keys ! 2) = HD_RSION"
    by (simp_all add: hd_keys_def)
  show "t_sess_hi (pp_tk igo3)" "hb_gate (pp_hb igo3)" "hb_pw (pp_hb igo3) = pass_pair 0x6B91"
    "hs_table (pp_hs igo3) = hs_sweep_table 0x6B91" "sweep_can_start h (pp_hs igo3)"
    unfolding igo3_def using p r
    by (simp_all add: pp_init_def pp_fit_part_def k tk_init_def hb_init_def hs_init_def sweep_can_start_def Let_def)
qed

text \<open>
  On the whole device, from any settled state and with every other unit watching
  the same wires, the library's identity ramp reads the signature whose accumulator
  is \<open>0x18\<close>, and the liveness probe right after it reads 1 then 0.
\<close>

theorem device_identifies:
  assumes "settled dv" "level_ok (t_sess_hi (pp_tk dv)) h"
  shows "guest_identity (map DO_level (fst (dev_run dat (ramp h) dv))) = 0x18 \<and>
    map DO_level (fst (dev_run dat [0x1E OR h, 0x1C OR h] (snd (dev_run dat (ramp h) dv)))) = [True, False]"
proof -
  note r = device_ramp [OF assms, of dat]
  let ?d = "snd (dev_run dat (ramp h) dv)"
  have id: "guest_identity (map (bit HD_SIGNATURE) [0..<64]) = 0x18" by code_simp
  have hi: "t_sess_hi (pp_tk ?d) = t_sess_hi (pp_tk dv)" using r(4) by (simp add: same_config_def)
  have l: "level_ok (t_sess_hi (pp_tk ?d)) h" using hi assms(2) by simp
  have "ramp_payload h 63 \<noteq> 0x1C OR h"
    using assms(2) by (auto simp: level_ok_def session_level_def ramp_payload_def)
  then have "\<not> (hs_ramping (pp_hs ?d) \<and> hs_ramp_prev (pp_hs ?d) = 0x1C OR h)"
    by (simp add: r(2) ramp_state_def)
  from probe_run [OF l this, of "pp_hb ?d"]
  have "map DO_level (fst (dev_run dat [0x1E OR h, 0x1C OR h] ?d)) = [True, False]"
    using dev_run_session [OF r(3) session_payloads(3) [OF l], of dat] DO_level_map by metis
  then show ?thesis using id r(1) by simp
qed

theorem device_identifies_witness:
  "guest_identity (map DO_level (fst (dev_run None (ramp 0x80) igo3))) = 0x18"
  using device_identifies [of igo3 "0x80" None] igo3_facts
  by (simp add: level_ok_def session_level_def)

section \<open>A burst and its sweep\<close>

lemma device_sweep:
  assumes "settled dv" "level_ok (t_sess_hi (pp_tk dv)) h" "sweep_can_start h (pp_hs dv)"
  shows "map DO_level (fst (dev_run dat (sweep h) dv)) = map (hs_sweep_bit (pp_hb dv) (pp_hs dv)) [0..<64]"
    "pp_hs (snd (dev_run dat (sweep h) dv)) = sweep_state (pp_hs dv) 64"
    "settled (snd (dev_run dat (sweep h) dv))" "same_config dv (snd (dev_run dat (sweep h) dv))"
proof -
  note d = dev_run_session [OF assms(1) session_payloads(2) [OF assms(2)], of dat,
      unfolded sweep_run [OF assms(2,3)] fst_conv snd_conv]
  show "map DO_level (fst (dev_run dat (sweep h) dv)) = map (hs_sweep_bit (pp_hb dv) (pp_hs dv)) [0..<64]"
    using d DO_level_map by metis
  show "pp_hs (snd (dev_run dat (sweep h) dv)) = sweep_state (pp_hs dv) 64"
    "settled (snd (dev_run dat (sweep h) dv))" "same_config dv (snd (dev_run dat (sweep h) dv))"
    using d by blast+
qed

text \<open>A burst, then the sweep: what the library reads.\<close>

definition login_sweep :: "u8 option \<Rightarrow> u8 \<Rightarrow> u8 list \<Rightarrow> pp \<Rightarrow> bool list \<times> pp" where
  "login_sweep dat h bs dv =
     (let (sts, dv) = dev_run dat (sweep h) (dev_writes (burst_wire h bs) dv)
      in (map DO_level sts, dv))"

text \<open>A part following its bursts, ready for the library.\<close>

definition login_ready :: "u8 \<Rightarrow> pp \<Rightarrow> bool" where
  "login_ready h dv \<longleftrightarrow> settled dv \<and> pp_wf dv \<and> hb_gate (pp_hb dv) \<and> level_ok (t_sess_hi (pp_tk dv)) h \<and>
     sweep_can_start h (pp_hs dv)"

lemma dev_run_wf: "pp_wf dv \<Longrightarrow> pp_wf (snd (dev_run dat ws dv))"
proof (induction ws arbitrary: dv)
  case (Cons w ws)
  then show ?case
    using Cons.IH [OF pp_read_status_wf [OF pp_write_data_wf [OF Cons.prems, of w], of dat]]
    by (simp add: split_beta Let_def)
qed simp

lemma login_sweep_bits:
  assumes "login_ready h dv" "burst_deselects bs" "\<forall>b \<in> set bs. command_byte b \<and> b \<noteq> 0x46"
    and c: "c = class_mode (hs_burst_class bs (hb_pw (pp_hb dv))) (hb_mode (pp_hb dv))"
  shows "fst (login_sweep dat h bs dv) =
      map (hs_sweep_bit ((pp_hb dv)\<lparr>hb_mode := c\<rparr>) (pp_hs dv)) [0..<64]"
    "login_ready h (snd (login_sweep dat h bs dv))" "same_config dv (snd (login_sweep dat h bs dv))"
    "pp_hs (snd (login_sweep dat h bs dv)) = sweep_state (pp_hs dv) 64"
proof -
  have r: "settled dv" "pp_wf dv" "hb_gate (pp_hb dv)" "level_ok (t_sess_hi (pp_tk dv)) h"
    "sweep_can_start h (pp_hs dv)" using assms(1) by (simp_all add: login_ready_def)
  let ?d = "dev_writes (burst_wire h bs) dv"
  have wf: "hd_wf (pp_hd dv)" "hb_wf (pp_hb dv)" using r(2) by (simp_all add: pp_wf_def)
  have cb: "\<forall>b \<in> set bs. command_byte b" using assms(3) by blast
  note b = burst_on_device [OF r(1,3) wf(1) r(4) assms(2) cb]
  have len: "length bs = 15" using assms(2) by (simp add: burst_deselects_def)
  have h: "session_level h" using r(4) by (simp add: level_ok_def)
  have mode: "hb_mode (pp_hb ?d) = c"
    using burst_on_wire(1) [OF wf(2) h len assms(3)] by (simp add: b(2) c)
  have cfg: "same_config dv ?d" by simp
  have l: "level_ok (t_sess_hi (pp_tk ?d)) h" "hb_gate (pp_hb ?d)"
    using cfg r(3,4) by (simp_all add: same_config_def)
  have hs: "pp_hs ?d = pp_hs dv" by simp
  note s = device_sweep [OF b(1) l(1), of dat, unfolded hs, OF r(5)]
  have bit: "hs_sweep_bit (pp_hb ?d) = hs_sweep_bit ((pp_hb dv)\<lparr>hb_mode := c\<rparr>)"
    using l(2) r(3) mode by (intro ext) (simp add: hs_sweep_bit_def)
  have eq: "login_sweep dat h bs dv = (map DO_level (fst (dev_run dat (sweep h) ?d)), snd (dev_run dat (sweep h) ?d))"
    by (simp add: login_sweep_def split_beta)
  show "fst (login_sweep dat h bs dv) =
      map (hs_sweep_bit ((pp_hb dv)\<lparr>hb_mode := c\<rparr>) (pp_hs dv)) [0..<64]"
    by (simp only: eq fst_conv s(1) bit)
  show cfg': "same_config dv (snd (login_sweep dat h bs dv))"
    using same_config_trans [OF cfg s(4)] by (simp only: eq snd_conv)
  show st: "pp_hs (snd (login_sweep dat h bs dv)) = sweep_state (pp_hs dv) 64"
    by (simp only: eq snd_conv s(2))
  show "login_ready h (snd (login_sweep dat h bs dv))"
    using s(3) cfg' r st dev_run_wf [OF dev_writes_wf [OF r(2)]]
    by (simp add: login_ready_def eq same_config_def sweep_after_sweep)
qed

lemma igo3_ready: "login_ready 0x80 igo3"
  using igo3_facts by (simp add: login_ready_def level_ok_def session_level_def)



text \<open>
  The replay check on the whole device, for every release that follows its
  bursts: after a first login with the pair's own burst, a second one opened by the
  identity variant, or by any burst that is not the pair's, folds to eight bytes that
  all differ from the first eight.
\<close>

theorem device_passes_replay_check:
  assumes "login_ready h dv" "k \<in> set hd_keys" "hs_table (pp_hs dv) = hs_sweep_table (pass1 k)"
    "mine = hb_pw (pp_hb dv)" "bs = ident_burst mine \<or> bs = burst_of pw \<and> burst_of pw \<noteq> burst_of mine" "i < 8"
  shows "fold_sweep (fst (login_sweep dat h (burst_of mine) dv)) ! i \<noteq>
    fold_sweep (fst (login_sweep dat h bs (snd (login_sweep dat h (burst_of mine) dv)))) ! i"
proof -
  note l = login_sweep_bits [OF assms(1) library_bursts_deselect(1) burst_of_commands refl, of dat mine]
  let ?d = "snd (login_sweep dat h (burst_of mine) dv)"
  have first: "fst (login_sweep dat h (burst_of mine) dv) = own_bits (pass1 k)"
    unfolding l(1) by (rule own_sweep) (simp_all add: class_burst_of class_mode_def assms(3,4))
  have cfg: "hb_pw (pp_hb ?d) = mine" "hb_gate (pp_hb ?d)"
    using l(2,3) assms(4) by (simp_all add: same_config_def login_ready_def)
  have "fst (login_sweep dat h bs ?d) = sig_bits \<or> fst (login_sweep dat h bs ?d) = silent_bits"
    using assms(5)
  proof (elim disjE conjE)
    assume bs: "bs = ident_burst mine"
    have "fst (login_sweep dat h bs ?d) = sig_bits"
      unfolding bs login_sweep_bits(1) [OF l(2) library_bursts_deselect(2) ident_burst_commands refl, of dat mine]
      by (rule ident_sweep) (simp_all add: class_ident_burst class_mode_def cfg)
    then show ?thesis ..
  next
    assume bs: "bs = burst_of pw" "burst_of pw \<noteq> burst_of mine"
    have "fst (login_sweep dat h bs ?d) = silent_bits"
      unfolding bs(1) login_sweep_bits(1) [OF l(2) library_bursts_deselect(1) burst_of_commands refl, of dat pw]
      by (rule silent_sweep) (simp_all add: class_burst_of class_mode_def cfg bs(2))
    then show ?thesis ..
  qed
  then show ?thesis unfolding first using sweeps_differ [OF assms(2) _ assms(6)] by blast
qed


theorem device_passes_replay_check_witness:
  "fold_sweep (fst (login_sweep None 0x80 (burst_of (pass_pair 0x6B91)) igo3)) ! 5 \<noteq>
    fold_sweep (fst (login_sweep None 0x80 (ident_burst (pass_pair 0x6B91))
      (snd (login_sweep None 0x80 (burst_of (pass_pair 0x6B91)) igo3)))) ! 5"
  by (rule device_passes_replay_check [OF igo3_ready, of "hd_keys ! 2"])
    (simp_all add: hd_keys_def igo3_facts)

end
