(* ===== verification/Byte_Source.thy ===== *)
theory Byte_Source
  imports Prelude
begin

text \<open>
  The interface of a part that owes the host bytes: one operation that hands out the
  next of them, and an idle value once there are none left. The lemmas are what a host
  reading a block relies on; each part interprets the locale with its own port-level
  read.
\<close>

locale byte_source =
  fixes recv :: "'s \<Rightarrow> 'b \<times> 's"
    and pending :: "'s \<Rightarrow> 'b list"
    and ready :: "'s \<Rightarrow> bool"
    and idle :: 'b
  assumes recv_next: "ready s \<Longrightarrow> pending s = b # bs \<Longrightarrow> fst (recv s) = b \<and> pending (snd (recv s)) = bs"
    and recv_idle: "ready s \<Longrightarrow> pending s = [] \<Longrightarrow> fst (recv s) = idle \<and> pending (snd (recv s)) = []"
    and recv_ready: "ready s \<Longrightarrow> ready (snd (recv s))"
begin

fun recv_block :: "nat \<Rightarrow> 's \<Rightarrow> 'b list \<times> 's" where
  "recv_block 0 s = ([], s)"
| "recv_block (Suc n) s = (let (b, s) = recv s; (bs, s) = recv_block n s in (b # bs, s))"

lemma recv_block_ready: "ready s \<Longrightarrow> ready (snd (recv_block n s))"
  by (induction n arbitrary: s) (simp_all add: split_beta Let_def recv_ready)

lemma recv_block_bytes:
  "ready s \<Longrightarrow> fst (recv_block n s) = take n (pending s @ replicate n idle) \<and>
    pending (snd (recv_block n s)) = drop n (pending s)"
proof (induction n arbitrary: s)
  case 0
  then show ?case by simp
next
  case (Suc n)
  note ih = Suc.IH [OF recv_ready [OF Suc.prems]]
  show ?case
  proof (cases "pending s")
    case Nil
    then show ?thesis using ih recv_idle [OF Suc.prems Nil] by (simp add: split_beta Let_def)
  next
    case (Cons b bs)
    have "take (n - length bs) (idle # replicate n idle) = replicate (n - length bs) idle"
      by (simp flip: replicate_Suc)
    then show ?thesis
      using Cons ih recv_next [OF Suc.prems Cons] by (simp add: split_beta Let_def)
  qed
qed

text \<open>A block no longer than what is pending comes out whole.\<close>

lemma recv_block_exact:
  assumes "ready s" "n \<le> length (pending s)"
  shows "fst (recv_block n s) = take n (pending s)"
  using recv_block_bytes [OF assms(1), of n] assms(2) by simp

end

end
