(* ===== verification/IButton.thy ===== *)
theory IButton
  imports C_Strings Byte_Source
begin

text \<open>
  The DS1982 iButton: a 1-Wire slave behind a 16550-class UART, every UART byte one
  bit slot. The theory translates the CRC, the slave's state machine and the UART
  registers, states what a slave owes a 1-Wire master as a locale, and proves the two
  transactions the games make, READ ROM and READ MEMORY, over the UART registers.
\<close>

section \<open>The CRC\<close>

definition IB_BASE :: u16 where "IB_BASE = 0x268"
definition IB_MEMSIZE :: nat where "IB_MEMSIZE = 128"

definition crc8_bit :: "u8 \<Rightarrow> u8" where
  "crc8_bit c = (if c AND 1 \<noteq> 0 then drop_bit 1 c XOR 0x8C else drop_bit 1 c)"

definition ib_crc8_tab :: "u8 list" where
  "ib_crc8_tab = map (\<lambda>i. (crc8_bit ^^ 8) (word_of_nat i)) [0..<256]"

fun ib_crc8 :: "u8 list \<Rightarrow> u8 \<Rightarrow> u8" where
  "ib_crc8 [] crc = crc"
| "ib_crc8 (d # ds) crc = ib_crc8 ds (ib_crc8_tab ! unat (crc XOR d))"

section \<open>State and operations\<close>

datatype ib_state = IB_ST_CMD | IB_ST_TA | IB_ST_DONE

record ib =
  ib_lcr :: u8
  ib_mcr :: u8
  ib_ier :: u8
  ib_scr :: u8
  ib_dll :: u8
  ib_dlm :: u8
  ib_rbr :: u8
  ib_rx_full :: bool
  ib_rom :: "u8 list"
  ib_mem :: "u8 list"
  ib_inbits :: u8
  ib_nbits :: nat
  ib_outbuf :: "u8 list"
  ib_out_len :: nat
  ib_out_pos :: nat
  ib_state :: ib_state
  ib_ta :: "u8 list"
  ib_nta :: nat

definition IB_OUTBUF :: nat where "IB_OUTBUF = IB_MEMSIZE + 16"

definition ib_reset_state :: "ib \<Rightarrow> ib" where
  "ib_reset_state ib =
     ib\<lparr>ib_inbits := 0, ib_nbits := 0, ib_out_len := 0, ib_out_pos := 0, ib_state := IB_ST_CMD, ib_nta := 0\<rparr>"

definition ib_queue :: "ib \<Rightarrow> u8 list \<Rightarrow> ib" where
  "ib_queue ib d =
     (let n = min (length d) IB_OUTBUF
      in ib\<lparr>ib_outbuf := put 0 (take n d) (ib_outbuf ib), ib_out_len := n, ib_out_pos := 0\<rparr>)"

text \<open>The answer to READ MEMORY: the CRC of command and address, then the page from there.\<close>

definition ib_page :: "ib \<Rightarrow> u8 list" where
  "ib_page ib =
     (let a = unat (ib_ta ib ! 0) + 256 * unat (ib_ta ib ! 1)
      in ib_crc8 [0xF0, ib_ta ib ! 0, ib_ta ib ! 1] 0 #
         (if a < IB_MEMSIZE then drop a (ib_mem ib) else []))"

definition ib_on_byte :: "ib \<Rightarrow> u8 \<Rightarrow> ib" where
  "ib_on_byte ib v =
     (case ib_state ib of
        IB_ST_CMD \<Rightarrow>
          (if v = 0x33 then (ib_queue ib (ib_rom ib))\<lparr>ib_state := IB_ST_DONE\<rparr>
           else if v = 0xCC then ib\<lparr>ib_state := IB_ST_CMD\<rparr>
           else if v = 0xF0 then ib\<lparr>ib_nta := 0, ib_state := IB_ST_TA\<rparr>
           else ib\<lparr>ib_state := IB_ST_DONE\<rparr>)
      | IB_ST_TA \<Rightarrow>
          (let ib = ib\<lparr>ib_ta := (ib_ta ib)[ib_nta ib := v], ib_nta := ib_nta ib + 1\<rparr>
           in if ib_nta ib = 2 then (ib_queue ib (ib_page ib))\<lparr>ib_state := IB_ST_DONE\<rparr> else ib)
      | IB_ST_DONE \<Rightarrow> ib)"

definition ib_on_slot :: "ib \<Rightarrow> u8 \<Rightarrow> u8 \<times> ib" where
  "ib_on_slot ib host =
     (if ib_out_pos ib < ib_out_len ib * 8 then
        (if bit (ib_outbuf ib ! (ib_out_pos ib div 8)) (ib_out_pos ib mod 8) then 0xFF else 0x00,
         ib\<lparr>ib_out_pos := ib_out_pos ib + 1\<rparr>)
      else
        (let ib = (if host \<noteq> 0 then ib\<lparr>ib_inbits := ib_inbits ib OR push_bit (ib_nbits ib) 1\<rparr> else ib);
             ib = ib\<lparr>ib_nbits := ib_nbits ib + 1\<rparr>;
             ib = (if ib_nbits ib = 8
                   then ib_on_byte (ib\<lparr>ib_inbits := 0, ib_nbits := 0\<rparr>) (ib_inbits ib) else ib)
         in (if host \<noteq> 0 then 0xFF else 0x00, ib)))"

definition ib_tx :: "ib \<Rightarrow> u8 \<Rightarrow> ib" where
  "ib_tx ib v =
     (if v = 0xF0 then (ib_reset_state ib)\<lparr>ib_rbr := 0xE0, ib_rx_full := True\<rparr>
      else (let (r, ib) = ib_on_slot ib v in ib\<lparr>ib_rbr := r, ib_rx_full := True\<rparr>))"

definition ib_out :: "ib \<Rightarrow> u16 \<Rightarrow> u8 \<Rightarrow> ib" where
  "ib_out ib port v =
     (let r = port - IB_BASE
      in if r = 0 then (if ib_lcr ib AND 0x80 \<noteq> 0 then ib\<lparr>ib_dll := v\<rparr> else ib_tx ib v)
         else if r = 1 then (if ib_lcr ib AND 0x80 \<noteq> 0 then ib\<lparr>ib_dlm := v\<rparr> else ib\<lparr>ib_ier := v\<rparr>)
         else if r = 3 then ib\<lparr>ib_lcr := v\<rparr>
         else if r = 4 then ib\<lparr>ib_mcr := v\<rparr>
         else if r = 7 then ib\<lparr>ib_scr := v\<rparr>
         else ib)"

definition ib_in :: "ib \<Rightarrow> u16 \<Rightarrow> u8 \<times> ib" where
  "ib_in ib port =
     (let r = port - IB_BASE
      in if r = 0 then
           (if ib_lcr ib AND 0x80 \<noteq> 0 then (ib_dll ib, ib) else (ib_rbr ib, ib\<lparr>ib_rx_full := False\<rparr>))
         else if r = 1 then (if ib_lcr ib AND 0x80 \<noteq> 0 then ib_dlm ib else ib_ier ib, ib)
         else if r = 2 then (0x01, ib)
         else if r = 3 then (ib_lcr ib, ib)
         else if r = 4 then (ib_mcr ib, ib)
         else if r = 5 then (0x60 OR (if ib_rx_full ib then 0x01 else 0x00), ib)
         else if r = 6 then (0xB0, ib)
         else if r = 7 then (ib_scr ib, ib)
         else (0xFF, ib))"

text \<open>The token as \<open>ib_start\<close> programs it; \<open>serial\<close> is the machine licence's six bytes.\<close>

definition ib_start :: "u8 list \<Rightarrow> ib" where
  "ib_start serial =
     (let rom7 = 0x09 # serial
      in ib_reset_state
        \<lparr>ib_lcr = 0, ib_mcr = 0, ib_ier = 0, ib_scr = 0, ib_dll = 0, ib_dlm = 0, ib_rbr = 0,
         ib_rx_full = False, ib_rom = rom7 @ [ib_crc8 rom7 0],
         ib_mem = put 5 (bytes ''Photo Play 2000 Version 3'') (replicate IB_MEMSIZE 0),
         ib_inbits = 0, ib_nbits = 0, ib_outbuf = replicate IB_OUTBUF 0, ib_out_len = 0, ib_out_pos = 0,
         ib_state = IB_ST_CMD, ib_ta = [0, 0], ib_nta = 0\<rparr>)"

section \<open>The invariant\<close>

definition ib_wf :: "ib \<Rightarrow> bool" where
  "ib_wf ib \<longleftrightarrow>
     length (ib_rom ib) = 8 \<and> length (ib_mem ib) = IB_MEMSIZE \<and> length (ib_outbuf ib) = IB_OUTBUF \<and>
     ib_out_len ib \<le> IB_OUTBUF \<and> ib_out_pos ib \<le> 8 * ib_out_len ib \<and> length (ib_ta ib) = 2 \<and>
     ib_nbits ib < 8 \<and> (ib_state ib = IB_ST_TA \<longrightarrow> ib_nta ib < 2)"

lemmas ib_consts = IB_MEMSIZE_def IB_OUTBUF_def

lemma ib_reset_state_wf [wf_intros]: "ib_wf ib \<Longrightarrow> ib_wf (ib_reset_state ib)"
  by (simp add: ib_wf_def ib_reset_state_def)

lemma ib_queue_wf: "ib_wf ib \<Longrightarrow> ib_wf (ib_queue ib d)"
  by (simp add: ib_wf_def ib_queue_def Let_def)

lemma ib_wf_state [simp]: "ib_wf ib \<Longrightarrow> s \<noteq> IB_ST_TA \<Longrightarrow> ib_wf (ib\<lparr>ib_state := s\<rparr>)"
  by (simp add: ib_wf_def)

lemma ib_on_byte_wf [wf_intros]:
  assumes "ib_wf ib"
  shows "ib_wf (ib_on_byte ib v)"
proof (cases "ib_state ib")
  case IB_ST_CMD
  then show ?thesis using assms ib_queue_wf [OF assms, of "ib_rom ib"]
    by (simp add: ib_on_byte_def) (simp add: ib_wf_def)
next
  case IB_ST_TA
  let ?ib = "ib\<lparr>ib_ta := (ib_ta ib)[ib_nta ib := v], ib_nta := ib_nta ib + 1\<rparr>"
  have "ib_wf (ib_queue (?ib\<lparr>ib_nta := 0\<rparr>) (ib_page ?ib))"
    by (rule ib_queue_wf) (use assms IB_ST_TA in \<open>simp add: ib_wf_def\<close>)
  then show ?thesis using assms IB_ST_TA
    by (auto simp: ib_on_byte_def ib_wf_def ib_queue_def Let_def)
next
  case IB_ST_DONE
  then show ?thesis using assms by (simp add: ib_on_byte_def)
qed

lemma ib_on_slot_wf [wf_intros]:
  assumes "ib_wf ib"
  shows "ib_wf (snd (ib_on_slot ib host))"
proof (cases "ib_out_pos ib < ib_out_len ib * 8")
  case True
  then show ?thesis using assms by (simp add: ib_on_slot_def ib_wf_def)
next
  case False
  have "ib_wf (ib_on_byte (ib\<lparr>ib_inbits := 0, ib_nbits := 0\<rparr>) v)" for v
    by (rule ib_on_byte_wf) (use assms in \<open>simp add: ib_wf_def\<close>)
  moreover have "ib\<lparr>ib_inbits := x, ib_nbits := y, ib_inbits := 0, ib_nbits := 0\<rparr> = ib\<lparr>ib_inbits := 0, ib_nbits := 0\<rparr>" for x y
    by simp
  ultimately show ?thesis using assms False by (auto simp: ib_on_slot_def ib_wf_def Let_def)
qed

lemma ib_wf_uart [simp]:
  "ib_wf (ib\<lparr>ib_rbr := r, ib_rx_full := f\<rparr>) = ib_wf ib" "ib_wf (ib\<lparr>ib_rx_full := f\<rparr>) = ib_wf ib" "ib_wf (ib\<lparr>ib_rbr := r\<rparr>) = ib_wf ib"
  "ib_wf (ib\<lparr>ib_dll := r\<rparr>) = ib_wf ib" "ib_wf (ib\<lparr>ib_dlm := r\<rparr>) = ib_wf ib" "ib_wf (ib\<lparr>ib_ier := r\<rparr>) = ib_wf ib"
  "ib_wf (ib\<lparr>ib_lcr := r\<rparr>) = ib_wf ib" "ib_wf (ib\<lparr>ib_mcr := r\<rparr>) = ib_wf ib" "ib_wf (ib\<lparr>ib_scr := r\<rparr>) = ib_wf ib"
  by (simp_all add: ib_wf_def)

lemma ib_tx_wf [wf_intros]: "ib_wf ib \<Longrightarrow> ib_wf (ib_tx ib v)"
  using ib_on_slot_wf [of ib v] by (simp add: ib_tx_def ib_reset_state_wf split_beta)

lemma ib_out_wf [wf_intros]: "ib_wf ib \<Longrightarrow> ib_wf (ib_out ib port v)"
  by (simp add: ib_out_def ib_tx_wf Let_def)

lemma ib_in_wf [wf_intros]: "ib_wf ib \<Longrightarrow> ib_wf (snd (ib_in ib port))"
  by (simp add: ib_in_def Let_def)

lemma ib_start_wf [wf_intros]: "length serial = 6 \<Longrightarrow> ib_wf (ib_start serial)"
  by (simp add: ib_start_def ib_wf_def ib_reset_state_def ib_consts bytes_def Let_def)


section \<open>The CRC of a message and its check byte\<close>

lemma crc8_tab_length [simp]: "length ib_crc8_tab = 256"
  by (simp add: ib_crc8_tab_def)

lemma crc8_tab_nth: "ib_crc8_tab ! unat c = (crc8_bit ^^ 8) c"
proof -
  have "unat c < 256" by (rule order.strict_trans2 [OF unsigned_less]) simp
  then show ?thesis by (simp add: ib_crc8_tab_def del: upt_rec_numeral)
qed

lemma ib_crc8_append [simp]: "ib_crc8 (xs @ ys) c = ib_crc8 ys (ib_crc8 xs c)"
  by (induction xs arbitrary: c) simp_all

text \<open>
  One bit of the division is a bijection of the byte: its top bit records which branch
  was taken.
\<close>

lemma crc8_bit_bits:
  "bit (crc8_bit c) n \<longleftrightarrow> (if n < 7 then bit c (Suc n) else False) \<noteq> (bit c 0 \<and> (n = 2 \<or> n = 3 \<or> n = 7))"
proof -
  have z: "c AND 1 \<noteq> 0 \<longleftrightarrow> bit c 0"
  proof -
    have "c AND 1 = (if bit c 0 then 1 else 0)" by (rule byte_eqI) (simp_all add: bit_simps)
    then show ?thesis by simp
  qed
  have m: "bit (0x8C :: u8) n \<longleftrightarrow> n = 2 \<or> n = 3 \<or> n = 7"
    by (cases "n < 8") (auto simp: bit_byte_high less_Suc_eq numeral_eq_Suc)
  have h: "bit (drop_bit 1 c) n \<longleftrightarrow> n < 7 \<and> bit c (Suc n)"
    using bit_byte_high [of "Suc n" c] by (cases "n < 7") (auto simp: bit_drop_bit_eq)
  show ?thesis
    by (cases "bit c 0")
      (simp_all only: crc8_bit_def z if_True if_False bit_xor_iff h m simp_thms, auto)
qed

lemma crc8_bit_inj: "crc8_bit c = crc8_bit d \<Longrightarrow> c = d"
proof -
  assume eq: "crc8_bit c = crc8_bit d"
  have b: "bit (crc8_bit c) n = bit (crc8_bit d) n" for n by (simp add: eq)
  have "bit c 0 = bit d 0" using b [of 7] by (simp add: crc8_bit_bits)
  moreover have "bit c (Suc n) = bit d (Suc n)" if "n < 7" for n
    using b [of n] that calculation by (auto simp: crc8_bit_bits split: if_splits)
  ultimately have "bit c n = bit d n" if "n < 8" for n using that by (cases n) auto
  then show "c = d" by (intro byte_eqI) simp_all
qed

lemma crc8_step_inj: "(crc8_bit ^^ n) c = (crc8_bit ^^ n) d \<Longrightarrow> c = d"
  by (induction n) (auto dest: crc8_bit_inj)

lemma crc8_zero: "(crc8_bit ^^ n) 0 = 0"
  by (induction n) (simp_all add: crc8_bit_def)

lemma ib_crc8_residue: "ib_crc8 (xs @ [ib_crc8 xs c]) c = 0"
  using crc8_tab_nth [of 0] by (simp add: crc8_zero)

lemma ib_crc8_inj: "ib_crc8 xs c = ib_crc8 xs d \<Longrightarrow> c = d"
proof (induction xs arbitrary: c d)
  case (Cons x xs)
  then have "(crc8_bit ^^ 8) (c XOR x) = (crc8_bit ^^ 8) (d XOR x)" by (simp add: crc8_tab_nth)
  then have "c XOR x = d XOR x" by (rule crc8_step_inj)
  then show ?case by (metis xor_cancel_right)
qed simp

text \<open>
  The check byte closes the message, and no single corrupted byte passes: the CRC
  of a message followed by its own CRC is zero, and replacing any one byte of that
  sequence by another value makes it nonzero.
\<close>

lemma crc_detects_byte_errors:
  "ib_crc8 (m @ [ib_crc8 m 0]) 0 = 0 \<and>
   (m @ [ib_crc8 m 0] = xs @ y # ys \<longrightarrow> z \<noteq> y \<longrightarrow> ib_crc8 (xs @ z # ys) 0 \<noteq> 0)"
proof (intro conjI impI)
  show zero: "ib_crc8 (m @ [ib_crc8 m 0]) 0 = 0" by (rule ib_crc8_residue)
  assume cut: "m @ [ib_crc8 m 0] = xs @ y # ys" and ne: "z \<noteq> y"
  let ?c = "ib_crc8 xs 0"
  have undo: "?c XOR (?c XOR w) = w" for w by (simp flip: xor.assoc)
  then have "?c XOR z \<noteq> ?c XOR y" using ne by metis
  then have "(crc8_bit ^^ 8) (?c XOR z) \<noteq> (crc8_bit ^^ 8) (?c XOR y)"
    using crc8_step_inj by blast
  then have "ib_crc8 ys (ib_crc8_tab ! unat (?c XOR z)) \<noteq> ib_crc8 ys (ib_crc8_tab ! unat (?c XOR y))"
    unfolding crc8_tab_nth using ib_crc8_inj by blast
  then show "ib_crc8 (xs @ z # ys) 0 \<noteq> 0"
    using zero unfolding cut by simp
qed

section \<open>Bit slots over the UART\<close>

text \<open>The games write the slot, poll the line status for data ready, and read the echo.\<close>

definition uart_slot :: "ib \<Rightarrow> u8 \<Rightarrow> u8 \<times> ib" where
  "uart_slot ib v = ib_in (ib_out ib IB_BASE v) IB_BASE"

definition uart_open :: "ib \<Rightarrow> bool" where
  "uart_open ib \<longleftrightarrow> ib_lcr ib AND 0x80 = 0"

lemma ib_on_byte_frame [simp]:
  "ib_lcr (ib_on_byte ib v) = ib_lcr ib" "ib_rom (ib_on_byte ib v) = ib_rom ib"
  "ib_mem (ib_on_byte ib v) = ib_mem ib"
  by (simp_all add: ib_on_byte_def ib_queue_def Let_def split: ib_state.split)

lemma ib_on_slot_frame [simp]:
  "ib_lcr (snd (ib_on_slot ib v)) = ib_lcr ib" "ib_rom (snd (ib_on_slot ib v)) = ib_rom ib"
  "ib_mem (snd (ib_on_slot ib v)) = ib_mem ib"
  by (simp_all add: ib_on_slot_def Let_def)

lemma uart_slot_eq:
  assumes "uart_open ib" "v \<noteq> 0xF0"
  shows "uart_slot ib v =
    (fst (ib_on_slot ib v), (snd (ib_on_slot ib v))\<lparr>ib_rbr := fst (ib_on_slot ib v), ib_rx_full := False\<rparr>)"
  using assms by (simp add: uart_slot_def ib_out_def ib_in_def ib_tx_def uart_open_def split_beta Let_def)

lemma uart_data_ready: "uart_open ib \<Longrightarrow> bit (fst (ib_in (ib_out ib IB_BASE v) (IB_BASE + 5))) 0"
  by (simp add: ib_out_def ib_in_def ib_tx_def uart_open_def split_beta Let_def bit_simps)

text \<open>The reset pulse: the echo differs from the pulse, which is how a slave shows itself.\<close>

definition uart_reset :: "ib \<Rightarrow> bool \<times> ib" where
  "uart_reset ib = (let (r, ib) = uart_slot ib 0xF0 in (r \<noteq> 0xF0, ib))"

lemma uart_reset_eq:
  assumes "uart_open ib"
  shows "uart_reset ib = (True, (ib_reset_state ib)\<lparr>ib_rbr := 0xE0, ib_rx_full := False\<rparr>)"
  using assms
  by (simp add: uart_reset_def uart_slot_def ib_out_def ib_in_def ib_tx_def ib_reset_state_def uart_open_def Let_def)

definition bit_slot :: "bool \<Rightarrow> u8" where
  "bit_slot b = (if b then 0xFF else 0x00)"

lemma bit_slot_facts [simp]: "bit_slot b \<noteq> 0xF0" "bit_slot b \<noteq> 0 \<longleftrightarrow> b"
  by (simp_all add: bit_slot_def)

fun uart_bits :: "bool list \<Rightarrow> ib \<Rightarrow> bool list \<times> ib" where
  "uart_bits [] ib = ([], ib)"
| "uart_bits (b # bs) ib =
     (let (r, ib) = uart_slot ib (bit_slot b); (rs, ib) = uart_bits bs ib in (bit r 0 # rs, ib))"

definition uart_send :: "ib \<Rightarrow> u8 \<Rightarrow> ib" where
  "uart_send ib v = snd (uart_bits (bits_lsb v) ib)"

definition uart_recv :: "ib \<Rightarrow> u8 \<times> ib" where
  "uart_recv ib = (let (rs, ib) = uart_bits (replicate 8 True) ib in (byte_of_bits_lsb rs, ib))"

subsection \<open>The slave drives\<close>

text \<open>What is left to shift out, as bytes.\<close>

definition ib_pending :: "ib \<Rightarrow> u8 list" where
  "ib_pending ib = drop (ib_out_pos ib div 8) (take (ib_out_len ib) (ib_outbuf ib))"

text \<open>The state after the byte at \<open>k\<close> has gone out.\<close>

definition ib_shifted :: "nat \<Rightarrow> ib \<Rightarrow> ib" where
  "ib_shifted k ib =
     ib\<lparr>ib_out_pos := 8 * k + 8, ib_rbr := bit_slot (bit (ib_outbuf ib ! k) 7), ib_rx_full := False\<rparr>"

lemma uart_slot_drive:
  assumes "uart_open ib" "j < 8" "ib_out_pos ib = 8 * k + j" "k < ib_out_len ib"
  shows "uart_slot ib (bit_slot True) = (bit_slot (bit (ib_outbuf ib ! k) j),
    ib\<lparr>ib_out_pos := 8 * k + Suc j, ib_rbr := bit_slot (bit (ib_outbuf ib ! k) j), ib_rx_full := False\<rparr>)"
proof -
  have "ib_on_slot ib (bit_slot True) = (bit_slot (bit (ib_outbuf ib ! k) j), ib\<lparr>ib_out_pos := 8 * k + Suc j\<rparr>)"
    using assms by (simp add: ib_on_slot_def bit_slot_def)
  then show ?thesis using uart_slot_eq [OF assms(1), of "bit_slot True"] by simp
qed

lemma uart_bits_drive:
  assumes "uart_open ib" "j < 8" "ib_out_pos ib = 8 * k + j" "k < ib_out_len ib"
  shows "uart_bits (replicate (8 - j) True) ib = (map (bit (ib_outbuf ib ! k)) [j..<8], ib_shifted k ib)"
  using assms
proof (induction "7 - j" arbitrary: j ib)
  case 0
  then have "j = 7" by simp
  with uart_slot_drive [OF 0(2-)] show ?case
    by (simp add: ib_shifted_def bit_slot_def)
next
  case (Suc n)
  let ?d = "ib\<lparr>ib_out_pos := 8 * k + Suc j, ib_rbr := bit_slot (bit (ib_outbuf ib ! k) j), ib_rx_full := False\<rparr>"
  have j: "Suc j < 8" using Suc.hyps(2) by simp
  have "uart_bits (replicate (8 - Suc j) True) ?d = (map (bit (ib_outbuf ?d ! k)) [Suc j..<8], ib_shifted k ?d)"
    by (rule Suc.hyps(1)) (use Suc j in \<open>simp_all add: uart_open_def\<close>)
  moreover have "ib_shifted k ?d = ib_shifted k ib"
    unfolding ib_shifted_def by (rule ib.equality) simp_all
  moreover have "8 - j = Suc (8 - Suc j)" "[j..<8] = j # [Suc j..<8]"
    using j by (simp_all add: upt_conv_Cons del: upt_rec_numeral)
  ultimately show ?case
    using uart_slot_drive [OF Suc.prems]
    by (simp add: bit_slot_def del: upt_rec_numeral)
qed

lemma uart_recv_driven:
  assumes "uart_open ib" "ib_out_pos ib = 8 * k" "k < ib_out_len ib"
  shows "uart_recv ib = (ib_outbuf ib ! k, ib_shifted k ib)"
  using uart_bits_drive [OF assms(1), of 0 k] assms(2,3) byte_of_bits_lsb_inverse [of "ib_outbuf ib ! k"]
  by (simp add: uart_recv_def bits_lsb_def del: byte_of_bits_lsb_inverse upt_rec_numeral replicate.simps)


subsection \<open>The slave listens\<close>

text \<open>Between bytes, with nothing to drive.\<close>

definition ib_listening :: "ib \<Rightarrow> bool" where
  "ib_listening ib \<longleftrightarrow> ib_out_len ib * 8 \<le> ib_out_pos ib \<and> ib_nbits ib = 0 \<and> ib_inbits ib = 0"

definition uart_regs :: "u8 \<Rightarrow> bool \<Rightarrow> ib \<Rightarrow> ib" where
  "uart_regs r f ib = ib\<lparr>ib_rbr := r, ib_rx_full := f\<rparr>"

lemma uart_regs_simps [simp]:
  "uart_regs r f (uart_regs s g ib) = uart_regs r f ib"
  "ib_out_len (uart_regs r f ib) = ib_out_len ib" "ib_out_pos (uart_regs r f ib) = ib_out_pos ib"
  "ib_outbuf (uart_regs r f ib) = ib_outbuf ib" "ib_state (uart_regs r f ib) = ib_state ib"
  "ib_nbits (uart_regs r f ib) = ib_nbits ib" "ib_inbits (uart_regs r f ib) = ib_inbits ib"
  "ib_rom (uart_regs r f ib) = ib_rom ib" "ib_mem (uart_regs r f ib) = ib_mem ib"
  "ib_ta (uart_regs r f ib) = ib_ta ib" "ib_nta (uart_regs r f ib) = ib_nta ib"
  "uart_open (uart_regs r f ib) = uart_open ib" "ib_wf (uart_regs r f ib) = ib_wf ib"
  "ib_listening (uart_regs r f ib) = ib_listening ib" "ib_pending (uart_regs r f ib) = ib_pending ib"
  by (simp_all add: uart_regs_def uart_open_def ib_listening_def ib_pending_def)

lemma ib_on_byte_regs: "ib_on_byte (uart_regs r f ib) v = uart_regs r f (ib_on_byte ib v)"
  by (cases "ib_state ib")
    (auto simp: ib_on_byte_def ib_queue_def ib_page_def Let_def uart_regs_def intro!: ib.equality)

definition ib_heard :: "nat \<Rightarrow> u8 \<Rightarrow> ib \<Rightarrow> ib" where
  "ib_heard k v ib = ib\<lparr>ib_inbits := take_bit k v, ib_nbits := k\<rparr>"

lemma take_bit_next:
  fixes v :: u8
  assumes "k < 8"
  shows "(if bit v k then take_bit k v OR push_bit k 1 else take_bit k v) = take_bit (Suc k) v"
proof -
  have one: "bit (push_bit k 1 :: u8) n \<longleftrightarrow> n = k" for n
    using assms by (simp only: bit_push_bit_iff bit_1_iff possible_bit_word) auto
  have "bit (if bit v k then take_bit k v OR push_bit k 1 else take_bit k v) n = bit (take_bit (Suc k) v) n" for n
    by (cases "bit v k") (simp_all only: if_True if_False bit_take_bit_iff bit_or_iff one less_Suc_eq, auto)
  then show ?thesis by (intro bit_eqI)
qed

lemma ib_on_slot_collect:
  assumes "ib_out_len ib * 8 \<le> ib_out_pos ib"
    and "ib1 = (if host \<noteq> 0 then ib\<lparr>ib_inbits := ib_inbits ib OR push_bit (ib_nbits ib) 1\<rparr> else ib)"
    and "ib2 = ib1\<lparr>ib_nbits := ib_nbits ib1 + 1\<rparr>"
  shows "ib_on_slot ib host = (if host \<noteq> 0 then 0xFF else 0x00,
    if ib_nbits ib2 = 8 then ib_on_byte (ib2\<lparr>ib_inbits := 0, ib_nbits := 0\<rparr>) (ib_inbits ib2) else ib2)"
proof -
  have "\<not> ib_out_pos ib < ib_out_len ib * 8" using assms(1) by simp
  then show ?thesis unfolding ib_on_slot_def Let_def assms(2,3) by (simp only: if_False)
qed

lemma uart_slot_listen:
  assumes "uart_open ib" "ib_listening ib" "k < 8"
  shows "uart_slot (uart_regs r f (ib_heard k v ib)) (bit_slot (bit v k)) =
    (bit_slot (bit v k), uart_regs (bit_slot (bit v k)) False
       (if k = 7 then ib_on_byte ib v else ib_heard (Suc k) v ib))"
proof -
  let ?d = "uart_regs r f (ib_heard k v ib)" and ?b = "bit_slot (bit v k)"
    and ?e = "uart_regs r f (ib_heard (Suc k) v ib)"
  define d1 where "d1 = (if ?b \<noteq> 0 then ?d\<lparr>ib_inbits := ib_inbits ?d OR push_bit (ib_nbits ?d) 1\<rparr> else ?d)"
  have full: "take_bit 8 v = v" by (simp add: take_bit_word_eq_self)
  have "ib_inbits ?d = take_bit k v" "ib_nbits ?d = k" by (simp_all add: ib_heard_def)
  then have d1: "d1 = ?d\<lparr>ib_inbits := take_bit (Suc k) v\<rparr>"
    unfolding take_bit_next [OF assms(3), of v, symmetric]
    by (cases "bit v k") (simp_all add: d1_def del: push_bit_of_1)
  have d2: "d1\<lparr>ib_nbits := ib_nbits d1 + 1\<rparr> = ?e"
    unfolding d1 by (rule ib.equality) (simp_all add: ib_heard_def uart_regs_def)
  have zero: "?e\<lparr>ib_inbits := 0, ib_nbits := 0\<rparr> = uart_regs r f ib"
    using assms(2) by (intro ib.equality) (simp_all add: ib_heard_def uart_regs_def ib_listening_def)
  have e: "ib_nbits ?e = Suc k" "ib_inbits ?e = take_bit (Suc k) v" by (simp_all add: ib_heard_def)
  have "ib_out_len ?d * 8 \<le> ib_out_pos ?d" using assms(2) by (simp add: ib_heard_def ib_listening_def)
  from ib_on_slot_collect [OF this d1_def d2 [symmetric]]
  have "ib_on_slot ?d ?b = (?b, if k = 7 then uart_regs r f (ib_on_byte ib v) else ?e)"
    unfolding zero e by (cases "k = 7") (simp_all add: full ib_on_byte_regs bit_slot_def)
  moreover have "uart_open ?d" using assms(1) by (simp add: uart_open_def ib_heard_def uart_regs_def)
  ultimately show ?thesis
    using uart_slot_eq [of ?d ?b] by (simp add: uart_regs_def)
qed

lemma uart_bits_listen:
  assumes "uart_open ib" "ib_listening ib" "k < 8"
  shows "uart_bits (map (bit v) [k..<8]) (uart_regs r f (ib_heard k v ib)) =
    (map (bit v) [k..<8], uart_regs (bit_slot (bit v 7)) False (ib_on_byte ib v))"
  using assms(3)
proof (induction "7 - k" arbitrary: k r f)
  case 0
  then have "k = 7" by simp
  then show ?case using uart_slot_listen [OF assms(1,2), of 7 r f v] by (simp add: bit_slot_def)
next
  case (Suc n)
  then have k: "Suc k < 8" by simp
  have "[k..<8] = k # [Suc k..<8]" using k by (simp add: upt_conv_Cons del: upt_rec_numeral)
  moreover have "uart_bits (map (bit v) [Suc k..<8]) (uart_regs (bit_slot (bit v k)) False (ib_heard (Suc k) v ib)) =
    (map (bit v) [Suc k..<8], uart_regs (bit_slot (bit v 7)) False (ib_on_byte ib v))"
    by (rule Suc.hyps(1)) (use Suc.hyps(2) k in simp_all)
  ultimately show ?case
    using uart_slot_listen [OF assms(1,2) Suc.prems, of r f v] k
    by (simp add: bit_slot_def del: upt_rec_numeral)
qed

lemma uart_bits_byte:
  assumes "uart_open ib" "ib_listening ib"
  shows "uart_bits (bits_lsb v) ib = (bits_lsb v, uart_regs (bit_slot (bit v 7)) False (ib_on_byte ib v))"
proof -
  have "uart_regs (ib_rbr ib) (ib_rx_full ib) (ib_heard 0 v ib) = ib"
    using assms(2) by (intro ib.equality) (simp_all add: ib_heard_def ib_listening_def uart_regs_def)
  then show ?thesis
    using uart_bits_listen [OF assms, of 0 v "ib_rbr ib" "ib_rx_full ib"] by (simp add: bits_lsb_def del: upt_rec_numeral)
qed

lemma uart_send_eq:
  "uart_open ib \<Longrightarrow> ib_listening ib \<Longrightarrow> uart_send ib v = uart_regs (bit_slot (bit v 7)) False (ib_on_byte ib v)"
  by (simp add: uart_send_def uart_bits_byte)

section \<open>Reading the answer\<close>

text \<open>The slave has taken its command and owes bytes, or nothing more.\<close>

definition ib_answering :: "ib \<Rightarrow> bool" where
  "ib_answering ib \<longleftrightarrow> ib_wf ib \<and> uart_open ib \<and> ib_state ib = IB_ST_DONE \<and> ib_out_pos ib mod 8 = 0 \<and>
     ib_nbits ib = 0 \<and> ib_inbits ib = 0"

lemma ib_pending_cases:
  assumes "ib_answering ib" "ib_out_pos ib = 8 * k"
  shows "ib_pending ib = (if k < ib_out_len ib then ib_outbuf ib ! k # ib_pending (ib_shifted k ib) else [])"
proof -
  have l: "ib_out_len ib \<le> length (ib_outbuf ib)" using assms(1) by (simp add: ib_answering_def ib_wf_def)
  show ?thesis
  proof (cases "k < ib_out_len ib")
    case True
    then have "drop k (take (ib_out_len ib) (ib_outbuf ib)) =
        ib_outbuf ib ! k # drop (Suc k) (take (ib_out_len ib) (ib_outbuf ib))"
      using l Cons_nth_drop_Suc [of k "take (ib_out_len ib) (ib_outbuf ib)"] by simp
    moreover have "(8 * k + 8) div 8 = Suc k" by simp
    ultimately show ?thesis using True assms(2) by (simp add: ib_pending_def ib_shifted_def)
  next
    case False
    then show ?thesis using assms(2) l by (simp add: ib_pending_def)
  qed
qed

interpretation token: byte_source uart_recv ib_pending ib_answering "0xFF"
proof
  fix ib b bs
  assume a: "ib_answering ib" "ib_pending ib = b # bs"
  define k where "k = ib_out_pos ib div 8"
  have k: "ib_out_pos ib = 8 * k" using a(1) by (auto simp: k_def ib_answering_def)
  then have "k < ib_out_len ib" using ib_pending_cases [OF a(1) k] a(2) by (auto split: if_splits)
  then show "fst (uart_recv ib) = b \<and> ib_pending (snd (uart_recv ib)) = bs"
    using ib_pending_cases [OF a(1) k] a uart_recv_driven [of ib k] k by (auto simp: ib_answering_def)
next
  fix ib
  assume a: "ib_answering ib" "ib_pending ib = []"
  define k where "k = ib_out_pos ib div 8"
  have k: "ib_out_pos ib = 8 * k" using a(1) by (auto simp: k_def ib_answering_def)
  then have "ib_listening ib" using ib_pending_cases [OF a(1) k] a by (auto simp: ib_listening_def ib_answering_def split: if_splits)
  moreover have "bits_lsb 0xFF = replicate 8 True" by code_simp
  moreover have "byte_of_bits_lsb (replicate 8 True) = 0xFF" by code_simp
  ultimately show "fst (uart_recv ib) = 0xFF \<and> ib_pending (snd (uart_recv ib)) = []"
    using a uart_bits_byte [of ib "0xFF"] by (simp add: uart_recv_def ib_answering_def ib_on_byte_def)
next
  fix ib
  assume a: "ib_answering ib"
  define k where "k = ib_out_pos ib div 8"
  have k: "ib_out_pos ib = 8 * k" using a by (auto simp: k_def ib_answering_def)
  show "ib_answering (snd (uart_recv ib))"
  proof (cases "k < ib_out_len ib")
    case True
    then show ?thesis using a k uart_recv_driven [of ib k]
      by (auto simp: ib_answering_def ib_shifted_def ib_wf_def uart_open_def)
  next
    case False
    then have "ib_listening ib" using a k by (auto simp: ib_listening_def ib_answering_def)
    moreover have "bits_lsb 0xFF = replicate 8 True" by code_simp
    ultimately show ?thesis
      using a uart_bits_byte [of ib "0xFF"] by (simp add: uart_recv_def ib_answering_def ib_on_byte_def)
  qed
qed


section \<open>The transactions\<close>

text \<open>A 1-Wire transaction as the games make it: reset, the command bytes, then \<open>n\<close> answer bytes.\<close>

definition uart_transaction :: "ib \<Rightarrow> u8 list \<Rightarrow> nat \<Rightarrow> bool \<times> u8 list" where
  "uart_transaction ib cmds n =
     (let (present, ib) = uart_reset ib; ib = foldl uart_send ib cmds
      in (present, fst (token.recv_block n ib)))"

lemma ib_reset_listening [simp]: "ib_listening (ib_reset_state ib)"
  by (simp add: ib_listening_def ib_reset_state_def)

lemma ib_reset_state_simps [simp]:
  "ib_state (ib_reset_state ib) = IB_ST_CMD" "ib_rom (ib_reset_state ib) = ib_rom ib"
  "ib_mem (ib_reset_state ib) = ib_mem ib" "ib_ta (ib_reset_state ib) = ib_ta ib"
  "uart_open (ib_reset_state ib) = uart_open ib"
  by (simp_all add: ib_reset_state_def uart_open_def)

lemma ib_queue_answers:
  assumes "ib_wf ib" "uart_open ib" "ib_listening ib" "length d \<le> IB_OUTBUF"
  shows "ib_answering ((ib_queue ib d)\<lparr>ib_state := IB_ST_DONE\<rparr>)"
    and "ib_pending ((ib_queue ib d)\<lparr>ib_state := IB_ST_DONE\<rparr>) = d"
proof -
  show "ib_answering ((ib_queue ib d)\<lparr>ib_state := IB_ST_DONE\<rparr>)"
    using assms ib_queue_wf [OF assms(1), of d]
    by (simp add: ib_answering_def ib_listening_def) (simp add: ib_queue_def Let_def uart_open_def)
  show "ib_pending ((ib_queue ib d)\<lparr>ib_state := IB_ST_DONE\<rparr>) = d"
    using assms by (simp add: ib_queue_def ib_pending_def ib_wf_def put_def Let_def)
qed

text \<open>Collecting the two address bytes.\<close>

lemma ib_address:
  assumes "ib_wf ib" "uart_open ib" "ib_listening ib" "ib_state ib = IB_ST_CMD"
    and rd: "rd = foldl uart_send ib [0xF0, lo, hi]"
  shows "ib_answering rd"
    and "ib_pending rd = ib_crc8 [0xF0, lo, hi] 0 # drop (unat lo + 256 * unat hi) (ib_mem ib)"
proof -
  obtain a b where ta: "ib_ta ib = [a, b]"
    using assms(1) by (cases "ib_ta ib"; cases "tl (ib_ta ib)") (simp_all add: ib_wf_def)
  define ib1 where "ib1 = ib\<lparr>ib_nta := 0, ib_state := IB_ST_TA\<rparr>"
  define ib2 where "ib2 = ib\<lparr>ib_ta := [lo, b], ib_nta := 1, ib_state := IB_ST_TA\<rparr>"
  define ib3 where "ib3 = ib\<lparr>ib_ta := [lo, hi], ib_nta := 2, ib_state := IB_ST_DONE\<rparr>"
  have on: "uart_send (uart_regs r f i) v = uart_regs (bit_slot (bit v 7)) False (ib_on_byte i v)"
    if "i \<in> {ib, ib1, ib2}" for i r f v
  proof -
    have "uart_open i" "ib_listening i"
      using that assms(2,3) by (auto simp: ib1_def ib2_def uart_open_def ib_listening_def)
    then show ?thesis by (simp add: uart_send_eq ib_on_byte_regs)
  qed
  have reg: "uart_regs (ib_rbr ib) (ib_rx_full ib) ib = ib" by (simp add: uart_regs_def)
  have s1: "ib_on_byte ib 0xF0 = ib1" using assms(4) by (simp add: ib_on_byte_def ib1_def)
  have s2: "ib_on_byte ib1 lo = ib2"
    by (simp add: ib_on_byte_def ib1_def ib2_def ta)
  let ?d = "ib_crc8 [0xF0, lo, hi] 0 # drop (unat lo + 256 * unat hi) (ib_mem ib)"
  have page: "ib_page (ib2\<lparr>ib_ta := [lo, hi], ib_nta := 2\<rparr>) = ?d"
    using assms(1) by (simp add: ib_page_def ib2_def ib_wf_def Let_def)
  have s3: "ib_on_byte ib2 hi = (ib_queue ib3 ?d)\<lparr>ib_state := IB_ST_DONE\<rparr>"
    using page by (simp add: ib_on_byte_def ib2_def ib3_def ib_queue_def Let_def numeral_2_eq_2)
  have "rd = uart_regs (bit_slot (bit hi 7)) False (ib_on_byte ib2 hi)"
    using on [of ib "ib_rbr ib" "ib_rx_full ib"] on [of ib1] on [of ib2] by (simp add: rd reg s1 s2)
  moreover have "ib_wf ib3" "uart_open ib3" "ib_listening ib3"
    using assms(1-3) by (auto simp: ib3_def ib_wf_def uart_open_def ib_listening_def)
  note q = ib_queue_answers [OF this, of ?d]
  have "length ?d \<le> IB_OUTBUF" using assms(1) by (simp add: ib_wf_def ib_consts)
  note q [OF this]
  ultimately show "ib_answering rd" "ib_pending rd = ?d"
    by (simp_all add: s3) (simp add: ib_answering_def)
qed


lemma uart_reset_regs:
  "uart_open ib \<Longrightarrow> uart_reset ib = (True, uart_regs 0xE0 False (ib_reset_state ib))"
  by (simp add: uart_reset_eq uart_regs_def)

text \<open>SKIP ROM leaves the slave waiting for a command, any number of times.\<close>

lemma uart_skip_rom:
  assumes "uart_open ib"
  shows "\<exists>r' f'. foldl uart_send (uart_regs r f (ib_reset_state ib)) (replicate k 0xCC) =
    uart_regs r' f' (ib_reset_state ib)"
proof (induction k)
  case (Suc k)
  then obtain r' f' where "foldl uart_send (uart_regs r f (ib_reset_state ib)) (replicate k 0xCC) =
    uart_regs r' f' (ib_reset_state ib)" by blast
  then have "foldl uart_send (uart_regs r f (ib_reset_state ib)) (replicate (Suc k) 0xCC) =
    uart_regs (bit_slot (bit (0xCC :: u8) 7)) False (ib_on_byte (ib_reset_state ib) 0xCC)"
    using assms by (simp add: uart_send_eq ib_on_byte_regs flip: replicate_append_same)
  moreover have "ib_on_byte (ib_reset_state ib) 0xCC = ib_reset_state ib"
    by (simp add: ib_on_byte_def ib_reset_state_def)
  ultimately show ?case by auto
qed auto

lemma read_memory_from:
  assumes "ib_wf ib" "uart_open ib"
  shows "uart_transaction ib (replicate k 0xCC @ [0xF0, lo, hi]) n =
    (True, take n (ib_crc8 [0xF0, lo, hi] 0 # drop (unat lo + 256 * unat hi) (ib_mem ib) @ replicate n 0xFF))"
proof -
  obtain r f where sk: "foldl uart_send (uart_regs 0xE0 False (ib_reset_state ib)) (replicate k 0xCC) =
      uart_regs r f (ib_reset_state ib)"
    using uart_skip_rom [OF assms(2)] by blast
  let ?r = "uart_regs r f (ib_reset_state ib)"
  define crc where "crc = ib_crc8 [0xF0, lo, hi] 0"
  define rd where "rd = foldl uart_send ?r [0xF0, lo, hi]"
  have p: "ib_wf ?r" "uart_open ?r" "ib_listening ?r" "ib_state ?r = IB_ST_CMD"
    using assms by (simp_all add: ib_reset_state_wf)
  have "fst (token.recv_block n rd) = take n (ib_pending rd @ replicate n 0xFF)"
    using token.recv_block_bytes [OF ib_address(1) [OF p rd_def]] by simp
  also have "ib_pending rd = crc # drop (unat lo + 256 * unat hi) (ib_mem ib)"
    using ib_address(2) [OF p rd_def] by (simp add: crc_def)
  finally have "fst (token.recv_block n rd) =
      take n (crc # drop (unat lo + 256 * unat hi) (ib_mem ib) @ replicate n 0xFF)" by simp
  moreover have "foldl uart_send (uart_regs 0xE0 False (ib_reset_state ib)) (replicate k 0xCC @ [0xF0, lo, hi]) = rd"
    by (simp only: foldl_append sk rd_def)
  ultimately show ?thesis
    unfolding uart_transaction_def uart_reset_regs [OF assms(2)] by (simp add: crc_def)
qed

lemma read_rom_from:
  assumes "ib_wf ib" "uart_open ib"
  shows "uart_transaction ib [0x33] n = (True, take n (ib_rom ib @ replicate n 0xFF))"
proof -
  let ?i = "ib_reset_state ib" and ?r = "uart_regs 0xE0 False (ib_reset_state ib)"
  have q: "ib_wf ?i" "uart_open ?i" "ib_listening ?i" "length (ib_rom ib) \<le> IB_OUTBUF"
    using assms by (simp_all add: ib_reset_state_wf) (simp add: ib_wf_def ib_consts)
  note a = ib_queue_answers [OF q]
  have s: "uart_send ?r 0x33 = uart_regs (bit_slot (bit (0x33 :: u8) 7)) False
      ((ib_queue ?i (ib_rom ib))\<lparr>ib_state := IB_ST_DONE\<rparr>)"
    using q by (simp add: uart_send_eq ib_on_byte_regs) (simp add: ib_on_byte_def)
  have "ib_answering (uart_send ?r 0x33)" "ib_pending (uart_send ?r 0x33) = ib_rom ib"
    using a unfolding s by simp_all (simp add: ib_answering_def)
  then show ?thesis
    using token.recv_block_bytes [of "uart_send ?r 0x33" n] assms(2)
    by (simp add: uart_transaction_def uart_reset_regs)
qed

text \<open>Every state port accesses can bring a started token into.\<close>

inductive ib_reached :: "u8 list \<Rightarrow> ib \<Rightarrow> bool" for serial where
  started: "ib_reached serial (ib_start serial)"
| written: "ib_reached serial ib \<Longrightarrow> ib_reached serial (ib_out ib port v)"
| fetched: "ib_reached serial ib \<Longrightarrow> ib_reached serial (snd (ib_in ib port))"

lemma ib_out_frame: "ib_rom (ib_out ib port v) = ib_rom ib \<and> ib_mem (ib_out ib port v) = ib_mem ib"
  by (simp add: ib_out_def ib_tx_def split_beta Let_def)

lemma ib_in_frame: "ib_rom (snd (ib_in ib port)) = ib_rom ib \<and> ib_mem (snd (ib_in ib port)) = ib_mem ib"
  by (simp add: ib_in_def Let_def)

lemma ib_reached_facts:
  assumes "ib_reached serial ib" "length serial = 6"
  shows "ib_wf ib \<and> ib_rom ib = ib_rom (ib_start serial) \<and> ib_mem ib = ib_mem (ib_start serial)"
  using assms by induction (auto intro: wf_intros simp: ib_out_frame ib_in_frame)

lemma ib_start_rom: "ib_rom (ib_start serial) = 0x09 # serial @ [ib_crc8 (0x09 # serial) 0]"
  by (simp add: ib_start_def ib_reset_state_def Let_def)

lemma ib_start_mem:
  "ib_mem (ib_start serial) = put 5 (bytes ''Photo Play 2000 Version 3'') (replicate IB_MEMSIZE 0)"
  by (simp add: ib_start_def ib_reset_state_def Let_def)

text \<open>
  C10. Whatever the guest did with the UART registers before, with the divisor latch
  closed a READ ROM transaction finds the slave present and reads the family code, the
  six serial bytes and a check byte that brings the CRC of all eight to zero, the test
  the games make.
\<close>

theorem read_rom_answers:
  assumes "length serial = 6" "ib_reached serial ib" "ib_lcr ib AND 0x80 = 0"
  shows "\<exists>c. uart_transaction ib [0x33] 8 = (True, 0x09 # serial @ [c]) \<and> ib_crc8 (0x09 # serial @ [c]) 0 = 0"
proof (intro exI conjI)
  have "ib_wf ib" "ib_rom ib = 0x09 # serial @ [ib_crc8 (0x09 # serial) 0]"
    using ib_reached_facts [OF assms(2,1)] by (simp_all add: ib_start_rom)
  then show "uart_transaction ib [0x33] 8 = (True, 0x09 # serial @ [ib_crc8 (0x09 # serial) 0])"
    using read_rom_from [of ib 8] assms by (simp add: uart_open_def)
  show "ib_crc8 (0x09 # serial @ [ib_crc8 (0x09 # serial) 0]) 0 = 0"
    using ib_crc8_residue [of "0x09 # serial" 0] by simp
qed

theorem read_rom_answers_witness:
  "\<exists>c. uart_transaction (ib_out (ib_start [0x50, 0x50, 0x42, 0x4F, 0x58, 0x00]) IB_BASE 0xF0) [0x33] 8 =
      (True, [0x09, 0x50, 0x50, 0x42, 0x4F, 0x58, 0x00, c])"
proof -
  let ?s = "[0x50, 0x50, 0x42, 0x4F, 0x58, 0x00] :: u8 list"
  have "ib_lcr (ib_out (ib_start ?s) IB_BASE 0xF0) AND 0x80 = 0"
    by (simp add: ib_out_def ib_tx_def ib_start_def ib_reset_state_def Let_def)
  from read_rom_answers [OF _ ib_reached.written [OF ib_reached.started] this]
  show ?thesis by (simp del: ib_crc8.simps) blast
qed

text \<open>
  A READ MEMORY transaction, also behind any number of SKIP ROMs, answers the CRC of the command
  and the address, then the page from that address to its end, then an idle wire; an
  address past the page gets the CRC alone. From address 0 the bytes from offset 5 are
  the text the games compare.
\<close>

theorem read_memory_answers:
  assumes "length serial = 6" "ib_reached serial ib" "ib_lcr ib AND 0x80 = 0"
    and "page = put 5 (bytes ''Photo Play 2000 Version 3'') (replicate 128 0)"
  shows "uart_transaction ib (replicate k 0xCC @ [0xF0, lo, hi]) n =
    (True, take n (ib_crc8 [0xF0, lo, hi] 0 # drop (unat lo + 256 * unat hi) page @ replicate n 0xFF))"
  using read_memory_from [of ib k lo hi n] ib_reached_facts [OF assms(2,1)] assms(3,4)
  by (simp add: uart_open_def ib_start_mem IB_MEMSIZE_def)

theorem read_memory_answers_witness:
  "drop 6 (snd (uart_transaction (ib_start (replicate 6 0)) [0xF0, 0, 0] 31)) = bytes ''Photo Play 2000 Version 3''"
proof -
  have "ib_lcr (ib_start (replicate 6 0)) AND 0x80 = 0" by (simp add: ib_start_def ib_reset_state_def Let_def)
  from read_memory_answers [OF _ ib_reached.started this refl, of 0 0 0 31]
  show ?thesis by (simp add: bytes_def put_def numeral_eq_Suc del: ib_crc8.simps)
qed

end
