(* ===== verification/PP_Record.thy ===== *)
theory PP_Record
  imports PP_Session
begin

text \<open>
  The record read on the whole device: the library's Microwire frames written to DATA
  and the answers read from STATUS, with the burst collector, the cipher, the 2000 token
  and the 1999 link on the same wires. The part is read as it is read alone.
\<close>

section \<open>Frames on the device\<close>

text \<open>
  The frames of the releases that use bit 7 carry the level 9C, in which the part is
  addressed; the older releases send them bare.
\<close>

definition frame_level :: "pp \<Rightarrow> u8" where
  "frame_level dv = (if t_sess_hi (pp_tk dv) then 0x9C else 0)"

definition record_link :: "pp \<Rightarrow> bool" where
  "record_link dv \<longleftrightarrow> hd_probe dv \<and> \<not> t_pending (pp_tk dv) \<and> t_wf (pp_tk dv)"

definition dev_frame :: "u8 \<Rightarrow> pp \<Rightarrow> pp" where
  "dev_frame v dv = pp_write_data dv (v OR frame_level dv)"

definition dev_clock :: "pp \<Rightarrow> bool \<Rightarrow> pp" where
  "dev_clock dv b = dev_frame (wire_bits False b) (dev_frame (wire_bits True b) (dev_frame (wire_bits False b) dv))"

definition dev_instr :: "pp \<Rightarrow> bool list \<Rightarrow> u8 \<Rightarrow> pp" where
  "dev_instr dv op a =
     foldl dev_clock (dev_frame (wire_bits False False) (dev_frame 0 dv)) ([True] @ op @ addr_bits HD_ABITS a)"

fun dev_shift_in :: "u8 option \<Rightarrow> nat \<Rightarrow> pp \<Rightarrow> bool list \<times> pp" where
  "dev_shift_in dat 0 dv = ([], dv)"
| "dev_shift_in dat (Suc n) dv =
     (let (st, d) = pp_read_status (dev_clock dv False) dat; r = dev_shift_in dat n d
      in ((st AND HD_DO \<noteq> 0) # fst r, snd r))"

definition dev_read_word :: "u8 option \<Rightarrow> pp \<Rightarrow> u8 \<Rightarrow> u16 \<times> pp" where
  "dev_read_word dat dv a =
     (let r = dev_shift_in dat 16 (dev_instr dv [True, False] a) in (word_of_bits_msb (fst r), snd r))"

section \<open>The part sees its frames\<close>

text \<open>The decoder looks at three bits; the level adds none of them.\<close>

lemma and_or_absorb: "l AND m = 0 \<Longrightarrow> (v OR l) AND m = v AND (m :: u8)"
  by (metis bit.conj_disj_distrib2 bit.disj_zero_right)

lemma hd_write_level:
  assumes "l = 0 \<or> l = 0x9C"
  shows "hd_write_data dv (v OR l) = hd_write_data dv v"
proof -
  have "(v OR l) AND m = v AND m" if "m \<in> {HD_CS, HD_SK, HD_DI}" for m
    using that assms by (intro and_or_absorb) (auto simp: hd_consts)
  then show ?thesis by (simp add: hd_write_data_def)
qed

lemma level_cases: "frame_level dv = 0 \<and> \<not> t_sess_hi (pp_tk dv) \<or> frame_level dv = 0x9C \<and> t_sess_hi (pp_tk dv)"
  by (simp add: frame_level_def)

text \<open>A frame of the library: chip select, clock and data only.\<close>

definition frame_byte :: "u8 \<Rightarrow> bool" where
  "frame_byte v \<longleftrightarrow> v = 0 \<or> (\<exists>s d. v = wire_bits s d)"

lemma frame_byte_bits:
  assumes "frame_byte v"
  shows "v AND 0x80 = 0" "v AND 1 = 0" "(v OR 0x9C) AND 1 = 0" "(v OR 0x9C) AND 0x1C = 0x1C" "(v OR 0x9C) AND 0x11 \<noteq> 0"
proof -
  have "v \<in> {0, 0x02, 0x22, 0x42, 0x62}"
    using assms by (auto simp: frame_byte_def wire_bits_def hd_consts split: if_splits)
  then show "v AND 0x80 = 0" "v AND 1 = 0" "(v OR 0x9C) AND 1 = 0" "(v OR 0x9C) AND 0x1C = 0x1C" "(v OR 0x9C) AND 0x11 \<noteq> 0"
    by auto
qed

lemma frame_byte_wire [simp]: "frame_byte 0" "frame_byte (wire_bits s d)"
  by (auto simp: frame_byte_def)

lemma dev_frame_part:
  assumes "record_link dv" "frame_byte v"
  shows "pp_hd (dev_frame v dv) = hd_write_data (pp_hd dv) v" "record_link (dev_frame v dv)"
    "frame_level (dev_frame v dv) = frame_level dv" "same_config dv (dev_frame v dv)"
    "t_read_query (pp_tk (dev_frame v dv)) = None"
proof -
  note b = frame_byte_bits [OF assms(2)]
  have p: "hd_probe dv" "\<not> t_pending (pp_tk dv)" "t_wf (pp_tk dv)"
    using assms(1) by (simp_all add: record_link_def)
  have reach: "wire_reaches_part dv (v OR frame_level dv)"
    using level_cases [of dv] b by (auto simp: wire_reaches_part_def)
  show hd: "pp_hd (dev_frame v dv) = hd_write_data (pp_hd dv) v"
    using p(1) reach hd_write_level [of "frame_level dv"] level_cases [of dv]
    by (auto simp: dev_frame_def pp_write_data_units)
  have cfg: "same_config dv (dev_frame v dv)" by (simp add: dev_frame_def)
  then show "same_config dv (dev_frame v dv)" .
  then show "frame_level (dev_frame v dv) = frame_level dv" by (simp add: frame_level_def same_config_def)
  have edges: "\<not> preamble_edge (pp_tk dv) (v OR frame_level dv)" "\<not> query_edge (pp_tk dv) (v OR frame_level dv)"
    using level_cases [of dv] b no_preamble [of "v OR frame_level dv"]
    by (auto simp: preamble_edge_def query_edge_def)
  then have "\<not> t_pending (t_data (pp_tk dv) (v OR frame_level dv))"
    using p(2) by (simp add: t_data_pending)
  then show "record_link (dev_frame v dv)"
    using p by (simp add: record_link_def dev_frame_def pp_write_data_units t_data_wf)
  show "t_read_query (pp_tk (dev_frame v dv)) = None"
  proof (cases "t_sess_hi (pp_tk dv) \<and> t_key (pp_tk dv) \<noteq> 0")
    case True
    let ?w = "v OR 0x9C"
    have tk: "pp_tk (dev_frame v dv) = t_data (pp_tk dv) ?w"
      using True p(1) by (simp add: dev_frame_def frame_level_def pp_write_data_units)
    have "length (t_recent (pp_tk dv)) = 3" using p(3) by (simp add: t_wf_def)
    then have "t_recent (t_data (pp_tk dv) ?w) ! 2 = ?w \<or> t_nrecent (t_data (pp_tk dv) ?w) = 0"
      by (auto simp: t_note_def)
    then show ?thesis unfolding tk using b(5) by (auto simp: t_read_query_def Let_def)
  next
    case False
    then show ?thesis
      using p(1) by (auto simp: t_read_query_def dev_frame_def pp_write_data_units)
  qed
qed

lemma dev_clock_part:
  assumes "record_link dv"
  shows "pp_hd (dev_clock dv b) = host_clock (pp_hd dv) b" "record_link (dev_clock dv b)"
    "same_config dv (dev_clock dv b)" "t_read_query (pp_tk (dev_clock dv b)) = None"
proof -
  let ?a = "dev_frame (wire_bits False b) dv"
  let ?b = "dev_frame (wire_bits True b) ?a"
  note a = dev_frame_part [OF assms frame_byte_wire(2), of False b]
  note b = dev_frame_part [OF a(2) frame_byte_wire(2), of True b]
  note c = dev_frame_part [OF b(2) frame_byte_wire(2), of False b]
  show "pp_hd (dev_clock dv b) = host_clock (pp_hd dv) b" "record_link (dev_clock dv b)"
    "t_read_query (pp_tk (dev_clock dv b)) = None"
    using a(1) b(1) c(1,2,5) by (simp_all add: dev_clock_def host_clock_def)
  show "same_config dv (dev_clock dv b)"
    unfolding dev_clock_def using a(4) b(4) c(4) same_config_trans by blast
qed

lemma dev_clocks_part:
  "record_link dv \<Longrightarrow> pp_hd (foldl dev_clock dv bs) = foldl host_clock (pp_hd dv) bs \<and>
     record_link (foldl dev_clock dv bs) \<and> same_config dv (foldl dev_clock dv bs)"
proof (induction bs arbitrary: dv)
  case (Cons b bs)
  note c = dev_clock_part [OF Cons.prems, of b]
  show ?case using Cons.IH [OF c(2)] c(1,3) same_config_trans by (auto simp: c(1))
qed simp

lemma dev_instr_part:
  assumes "record_link dv"
  shows "pp_hd (dev_instr dv op a) = host_instr (pp_hd dv) op a" "record_link (dev_instr dv op a)"
    "same_config dv (dev_instr dv op a)"
proof -
  let ?a = "dev_frame 0 dv" and ?b = "dev_frame (wire_bits False False) (dev_frame 0 dv)"
  note a = dev_frame_part [OF assms frame_byte_wire(1)]
  note b = dev_frame_part [OF a(2) frame_byte_wire(2), of False False]
  note c = dev_clocks_part [OF b(2), of "[True] @ op @ addr_bits HD_ABITS a"]
  have "pp_hd ?b = host_select (pp_hd dv)" using a(1) b(1) by (simp add: host_select_def)
  then show "pp_hd (dev_instr dv op a) = host_instr (pp_hd dv) op a" "record_link (dev_instr dv op a)"
    using c by (simp_all only: dev_instr_def host_instr_def)
  show "same_config dv (dev_instr dv op a)"
    unfolding dev_instr_def using c a(4) b(4) same_config_trans by blast
qed

text \<open>In a record read STATUS is the part's output and changes nothing but the cipher's window.\<close>

lemma record_status:
  assumes "record_link dv" "t_read_query (pp_tk dv) = None" "hd_ph (pp_hd dv) = HD_READ"
  shows "pp_read_status dv dat = (DO (hd_do (pp_hd dv)), dv\<lparr>pp_tk := (pp_tk dv)\<lparr>t_nrecent := 0\<rparr>\<rparr>)"
  using assms by (simp add: record_link_def pp_read_status_def pp_status_part_def Let_def)

lemma record_link_window:
  "record_link dv \<Longrightarrow> record_link (dv\<lparr>pp_tk := (pp_tk dv)\<lparr>t_nrecent := 0\<rparr>\<rparr>)"
  by (simp add: record_link_def)

lemma dev_shift_in_part:
  "record_link dv \<Longrightarrow> hd_ph (pp_hd dv) = HD_READ \<Longrightarrow> \<not> hd_sk (pp_hd dv) \<Longrightarrow>
     fst (dev_shift_in dat m dv) = fst (host_shift_in m (pp_hd dv)) \<and>
     pp_hd (snd (dev_shift_in dat m dv)) = snd (host_shift_in m (pp_hd dv)) \<and>
     record_link (snd (dev_shift_in dat m dv)) \<and> same_config dv (snd (dev_shift_in dat m dv))"
proof (induction m arbitrary: dv)
  case (Suc m)
  note c = dev_clock_part [OF Suc.prems(1), of False]
  let ?c = "dev_clock dv False" and ?d = "(dev_clock dv False)\<lparr>pp_tk := (pp_tk (dev_clock dv False))\<lparr>t_nrecent := 0\<rparr>\<rparr>"
  have h: "hd_ph (pp_hd ?c) = HD_READ" "\<not> hd_sk (pp_hd ?c)"
    using Suc.prems(2,3) by (simp_all add: c(1) host_clock_eq hd_edge_def Let_def)
  have do_bit: "(DO b AND HD_DO \<noteq> 0) = b" for b by (simp add: DO_def HD_DO_def)
  have "same_config ?c ?d" by (simp add: same_config_def)
  then have cfg: "same_config dv ?d" using c(3) same_config_trans by blast
  note ih = Suc.IH [of ?d, OF record_link_window [OF c(2)]]
  show ?case
    using ih h cfg same_config_trans record_status [OF c(2,4) h(1), of dat]
    by (auto simp: Let_def split_beta do_bit c(1))
qed simp

lemma dev_read_word_part:
  assumes "record_link dv" "hd_abits (pp_hd dv) = 6"
  shows "fst (dev_read_word dat dv a) = fst (host_read_word (pp_hd dv) a)"
    "pp_hd (snd (dev_read_word dat dv a)) = snd (host_read_word (pp_hd dv) a)"
    "record_link (snd (dev_read_word dat dv a))" "same_config dv (snd (dev_read_word dat dv a))"
proof -
  note i = dev_instr_part [OF assms(1), of "[True, False]" a]
  have "hd_ph (pp_hd (dev_instr dv [True, False] a)) = HD_READ" "\<not> hd_sk (pp_hd (dev_instr dv [True, False] a))"
    using assms(2) by (simp_all add: i(1) host_instr_eq hd_execute_def Let_def)
  note r = dev_shift_in_part [OF i(2) this, of dat 16]
  show "fst (dev_read_word dat dv a) = fst (host_read_word (pp_hd dv) a)"
    "pp_hd (snd (dev_read_word dat dv a)) = snd (host_read_word (pp_hd dv) a)"
    "record_link (snd (dev_read_word dat dv a))"
    using r i(1) by (simp_all add: dev_read_word_def host_read_word_def Let_def)
  show "same_config dv (snd (dev_read_word dat dv a))"
    using r i(3) same_config_trans by (auto simp: dev_read_word_def Let_def)
qed

section \<open>The device as a source of words\<close>

definition device_readable :: "pp \<Rightarrow> bool" where
  "device_readable dv \<longleftrightarrow> record_link dv \<and> part_selected (pp_hd dv)"

interpretation device: word_source device_readable "dev_read_word dat" for dat
proof unfold_locales
  fix dv :: pp and a b :: u8
  assume "device_readable dv"
  then have l: "record_link dv" and p: "part_selected (pp_hd dv)" and n: "hd_abits (pp_hd dv) = 6"
    by (simp_all add: device_readable_def part_selected_def)
  note r = dev_read_word_part [OF l n, of dat a]
  have p': "part_selected (pp_hd (snd (dev_read_word dat dv a)))"
    using source.rd_inv [OF p] by (simp add: r(2))
  then show "device_readable (snd (dev_read_word dat dv a))" using r(3) by (simp add: device_readable_def)
  have n': "hd_abits (pp_hd (snd (dev_read_word dat dv a))) = 6" using p' by (simp add: part_selected_def)
  show "fst (dev_read_word dat (snd (dev_read_word dat dv a)) b) = fst (dev_read_word dat dv b)"
    using dev_read_word_part(1) [OF r(3) n', of dat b] dev_read_word_part(1) [OF l n, of dat b]
      source.rd_rd [OF p, of a b] by (simp add: r(2))
qed

text \<open>A block read on the device is the block read of its part.\<close>

lemma device_block:
  assumes "device_readable dv"
  shows "fst (device.read_block dat dv as) = fst (source.read_block (pp_hd dv) as)"
proof -
  have "record_link dv" "hd_abits (pp_hd dv) = 6" "part_selected (pp_hd dv)"
    using assms by (simp_all add: device_readable_def part_selected_def)
  then show ?thesis
    using device.read_block_eq [OF assms, of dat as] source.read_block_eq [of "pp_hd dv" as]
    by (simp add: dev_read_word_part(1))
qed

end
