(* ===== verification/PP_Round.thy ===== *)
theory PP_Round
  imports PP_Session
begin

text \<open>
  The picture cipher on the whole device: a keyed round written to DATA and read from
  STATUS, whatever the other units make of the same writes.
\<close>

section \<open>The cipher sees every write\<close>

lemma dev_writes_tk:
  "hd_probe dv \<Longrightarrow> t_key (pp_tk dv) \<noteq> 0 \<Longrightarrow>
     pp_tk (dev_writes vs dv) = tk_run vs (pp_tk dv) \<and> hd_probe (dev_writes vs dv)"
  by (induction vs arbitrary: dv) (simp_all add: pp_write_data_units)

text \<open>An answer of the cipher goes out before anything else the part could say.\<close>

lemma pp_status_answer:
  assumes "hd_probe dv" "t_status (pp_tk dv) = (Some a, tk)"
  shows "fst (pp_read_status dv dat) = DO a" "pp_tk (snd (pp_read_status dv dat)) = tk"
    "hd_probe (snd (pp_read_status dv dat))"
  using assms
  by (auto simp: pp_read_status_def pp_status_part_def t_status_def Let_def split: option.splits prod.splits if_splits)

section \<open>A round\<close>

definition dev_ask :: "u8 option \<Rightarrow> nat \<Rightarrow> u8 \<Rightarrow> pp \<Rightarrow> u8 \<times> pp" where
  "dev_ask dat n p dv = pp_read_status (dev_writes (query_writes n p) dv) dat"

fun dev_ask_all :: "u8 option \<Rightarrow> nat \<Rightarrow> u8 list \<Rightarrow> pp \<Rightarrow> u8 list \<times> pp" where
  "dev_ask_all dat n [] dv = ([], dv)"
| "dev_ask_all dat n (p # ps) dv =
     (let (a, dv) = dev_ask dat n p dv; (as, dv) = dev_ask_all dat n ps dv in (a # as, dv))"

lemma dev_ask_tk:
  assumes "hd_probe dv" "t_key (pp_tk dv) \<noteq> 0" "ask n p (pp_tk dv) = (Some a, tk)"
  shows "fst (dev_ask dat n p dv) = DO a" "pp_tk (snd (dev_ask dat n p dv)) = tk" "hd_probe (snd (dev_ask dat n p dv))"
  using dev_writes_tk [OF assms(1,2), of "query_writes n p"] assms(3)
    pp_status_answer [of "dev_writes (query_writes n p) dv" a tk dat]
  by (simp_all add: dev_ask_def ask_def)

lemma dev_ask_all_tk:
  assumes "hd_probe dv" "t_key (pp_tk dv) \<noteq> 0" "t_wf (pp_tk dv)" "\<forall>p \<in> set ps. query_payload p"
  shows "map Some (fst (dev_ask_all dat n ps dv)) = map (map_option DO) (fst (ask_all n ps (pp_tk dv)))"
  using assms
proof (induction ps arbitrary: dv)
  case (Cons p ps)
  obtain tk where t: "ask n p (pp_tk dv) = (Some (fst (t_step (pp_tk dv) p)), tk)" "t_wf tk" "t_key tk = t_key (pp_tk dv)"
    using Cons.prems by (auto elim!: ask_answer [of "pp_tk dv" p n])
  note a = dev_ask_tk [OF Cons.prems(1,2) t(1), of dat]
  have "map Some (fst (dev_ask_all dat n ps (snd (dev_ask dat n p dv)))) = map (map_option DO) (fst (ask_all n ps tk))"
    using Cons.IH [of "snd (dev_ask dat n p dv)"] a t Cons.prems by simp
  then show ?case using a t(1) by (simp add: split_beta Let_def)
qed simp

lemma hd_row_key: "tkey (hd_keys ! hd_release b) \<noteq> 0"
proof -
  have "\<forall>k \<in> set hd_keys. tkey k \<noteq> 0" by (simp add: hd_keys_def)
  then show ?thesis using nth_mem [OF hd_release_lt] by blast
qed

text \<open>
  C6. A whole round of the picture cipher on the device: from any state the port can
  bring a device with a part into, after the mode clocks and the opening byte every
  question, framed as three payloads written any number of times each and one STATUS
  read, is answered on STATUS with the answers of the eleven-bit register of the release
  in mode \<open>m\<close>. It holds for both ways of recognising a question, on the bit-4 edge and,
  where the session layer carries bit 7, at the read, and whatever the burst collector,
  the Microwire decoder, the 2000 token and the 1999 link make of the same writes.
\<close>

theorem keyed_round_on_device:
  assumes "has_part hd_opt b" "length b \<le> 30" "pp_reachable (pp_init hd_opt b sv dm) dv"
    and "opening_byte c" "\<forall>p \<in> set ps. query_payload p" "k = hd_keys ! hd_release b"
  shows "fst (dev_ask_all dat n ps (dev_writes (open_round m c) dv)) =
    map DO (fst (key_round (tkey k) m (register_of (ucast (tinit k))) (map query_bits ps)))"
proof -
  let ?d = "dev_writes (open_round m c) dv"
  have wf: "t_wf (pp_tk dv)" and cfg: "same_config (pp_init hd_opt b sv dm) dv"
    using pp_reachable_kept [OF assms(3) pp_init_wf [OF assms(2)]] by (simp_all add: pp_wf_def)
  have i: "hd_probe dv" "t_key (pp_tk dv) = tkey k" "t_init (pp_tk dv) = tinit k"
    using cfg pp_init_part [OF assms(1), of sv dm] by (simp_all add: same_config_def assms(6) tk_init_def)
  have key: "t_key (pp_tk dv) \<noteq> 0" using hd_row_key i(2) assms(6) by simp
  note d = dev_writes_tk [OF i(1) key, of "open_round m c"]
  have "map Some (fst (dev_ask_all dat n ps ?d)) = map (map_option DO) (fst (ask_all n ps (tk_run (open_round m c) (pp_tk dv))))"
    using dev_ask_all_tk [of ?d ps dat n] d key wf assms(5) by (simp add: tk_run_wf)
  also have "\<dots> = map (map_option DO) (map Some (fst (key_round (tkey k) m (register_of (ucast (tinit k))) (map query_bits ps))))"
    using keyed_round_on_wire [OF wf key assms(4,5), of n m] i by simp
  finally have "map Some (fst (dev_ask_all dat n ps ?d)) =
      map Some (map DO (fst (key_round (tkey k) m (register_of (ucast (tinit k))) (map query_bits ps))))" by simp
  then show ?thesis by (simp only: inj_map_eq_map [OF inj_Some])
qed

theorem keyed_round_on_device_witness:
  "fst (dev_ask_all None 3 [0xAA, 0x8E] (dev_writes (open_round 0 0x9E) (pp_init (-1) (bytes ''Version 2003 (DE)'') None None))) =
     map DO (fst (key_round 0xAB32E970 0 (register_of 0x5DF) (map query_bits [0xAA, 0x8E])))"
proof -
  let ?b = "bytes ''Version 2003 (DE)''"
  have o: "hd_release_opt ?b = Some 2" by (simp add: hd_release_opt_def hd_keys_def bytes_def)
  then have k: "hd_keys ! 2 = hd_keys ! hd_release ?b" by (simp add: hd_release_def)
  have part: "has_part (-1) ?b" using o by (simp add: has_part_def)
  have len: "length ?b \<le> 30" by (simp add: bytes_def)
  have q: "opening_byte 0x9E" "\<forall>p \<in> set [0xAA, 0x8E]. query_payload p"
    by (simp_all add: opening_byte_def query_payload_def)
  have row: "tkey (hd_keys ! 2) = 0xAB32E970" "tinit (hd_keys ! 2) = 0x5DF" by (simp_all add: hd_keys_def)
  show ?thesis
    using keyed_round_on_device [OF part len pp_reachable.start q k, of None 3 0] by (simp add: row)
qed

end
