(* ===== verification/Disk_Image.thy ===== *)
theory Disk_Image
  imports C_Strings
begin

text \<open>
  The read-only FAT16 walk of \<open>src/src/photoplay_ident.c\<close>: opening the volume, following
  a cluster chain, enumerating a directory and finding a file in it. An image is its
  list of bytes; a read that does not fit in it fails, as \<open>fread\<close> does. Allocation is
  taken to succeed.

  Offsets are the natural numbers the 64-bit computations yield: no volume the checks
  let through reaches \<open>2 ^ 64\<close>.
\<close>

section \<open>Reading\<close>

type_synonym image = "u8 list"

definition SECSZ :: nat where "SECSZ = 512"

definition pp_read_at :: "image \<Rightarrow> nat \<Rightarrow> nat \<Rightarrow> u8 list option" where
  "pp_read_at img off len = (if off + len \<le> length img then Some (take len (drop off img)) else None)"

definition rd16 :: "u8 list \<Rightarrow> nat \<Rightarrow> nat" where
  "rd16 p i = unat (p ! i) + 256 * unat (p ! (i + 1))"

definition rd32 :: "u8 list \<Rightarrow> nat \<Rightarrow> nat" where
  "rd32 p i = rd16 p i + 65536 * rd16 p (i + 2)"

record fat =
  part_off :: nat
  bps :: nat
  spc :: nat
  root_off :: nat
  root_ents :: nat
  data_off :: nat
  fat_off :: nat
  clusters :: nat

text \<open>The first partition of a type these cabinets use; offset 0 without a partition table.\<close>

definition pp_partition :: "u8 list \<Rightarrow> nat" where
  "pp_partition sec =
     (if sec ! 510 = 0x55 \<and> sec ! 511 = 0xAA then
        (case List.find (\<lambda>e. sec ! (e + 4) \<in> {0x04, 0x06, 0x0E, 0x01}) (map (\<lambda>i. 0x1BE + 16 * i) [0..<4]) of
           None \<Rightarrow> 0
         | Some e \<Rightarrow> rd32 sec (e + 8) * SECSZ)
      else 0)"

definition pp_fat_bpb :: "nat \<Rightarrow> u8 list \<Rightarrow> fat option" where
  "pp_fat_bpb off sec =
     (let bps = rd16 sec 0x0B; spc = unat (sec ! 0x0D);
          rsvd = rd16 sec 0x0E; nfats = unat (sec ! 0x10);
          root_ents = rd16 sec 0x11; fatsz = rd16 sec 0x16; totsec = rd16 sec 0x13;
          totsec = (if totsec = 0 then rd32 sec 0x20 else totsec)
      in if bps \<noteq> SECSZ \<or> spc = 0 \<or> rsvd = 0 \<or> nfats = 0 \<or> root_ents = 0 \<or> fatsz = 0 \<or> totsec = 0 then None
         else
           (let root_secs = (root_ents * 32 + (bps - 1)) div bps;
                fat_off = off + rsvd * bps;
                root_off = fat_off + nfats * fatsz * bps
            in Some \<lparr>part_off = off, bps = bps, spc = spc, root_off = root_off, root_ents = root_ents,
                     data_off = root_off + root_secs * bps, fat_off = fat_off,
                     clusters = nat ((int totsec - int rsvd - int (nfats * fatsz) - int root_secs) mod 2 ^ 32) div spc\<rparr>))"

definition pp_fat_open :: "image \<Rightarrow> fat option" where
  "pp_fat_open img =
     (case pp_read_at img 0 SECSZ of
        None \<Rightarrow> None
      | Some mbr \<Rightarrow>
          (let off = pp_partition mbr
           in case pp_read_at img off SECSZ of None \<Rightarrow> None | Some sec \<Rightarrow> pp_fat_bpb off sec))"

definition pp_fat_next :: "image \<Rightarrow> fat \<Rightarrow> nat \<Rightarrow> nat" where
  "pp_fat_next img fs clus =
     (case pp_read_at img (fat_off fs + clus * 2) 2 of None \<Rightarrow> 0xFFFF | Some e \<Rightarrow> rd16 e 0)"

definition cluster_size :: "fat \<Rightarrow> nat" where
  "cluster_size fs = spc fs * bps fs"

definition cluster_off :: "fat \<Rightarrow> nat \<Rightarrow> nat" where
  "cluster_off fs clus = data_off fs + (clus - 2) * cluster_size fs"

definition in_chain :: "nat \<Rightarrow> bool" where
  "in_chain clus \<longleftrightarrow> 2 \<le> clus \<and> clus < 0xFFF0"

definition GUARD :: nat where "GUARD = 65536"

section \<open>Following a chain\<close>

fun read_chain_loop :: "image \<Rightarrow> fat \<Rightarrow> nat \<Rightarrow> nat \<Rightarrow> nat \<Rightarrow> u8 list \<Rightarrow> u8 list option" where
  "read_chain_loop img fs sz 0 clus buf = (if length buf < sz then None else Some buf)"
| "read_chain_loop img fs sz (Suc guard) clus buf =
     (if length buf < sz \<and> in_chain clus then
        (let want = (if sz - length buf < cluster_size fs then sz - length buf else cluster_size fs)
         in case pp_read_at img (cluster_off fs clus) want of
              None \<Rightarrow> None
            | Some d \<Rightarrow> read_chain_loop img fs sz guard (pp_fat_next img fs clus) (buf @ d))
      else if length buf < sz then None else Some buf)"

definition pp_read_chain :: "image \<Rightarrow> fat \<Rightarrow> nat \<Rightarrow> nat \<Rightarrow> nat \<Rightarrow> u8 list option" where
  "pp_read_chain img fs clus sz cap =
     (if sz = 0 \<or> sz > cap then None else read_chain_loop img fs sz GUARD clus [])"

section \<open>Directories\<close>

text \<open>
  The callback takes an entry and its context and returns 0 to go on. Running over a
  list of offsets either ends the enumeration with a value or goes on with the context.
\<close>

fun dir_run :: "image \<Rightarrow> (u8 list \<Rightarrow> 'c \<Rightarrow> nat \<times> 'c) \<Rightarrow> nat list \<Rightarrow> 'c \<Rightarrow> (nat \<times> 'c) + 'c" where
  "dir_run img fn [] ctx = Inr ctx"
| "dir_run img fn (off # offs) ctx =
     (case pp_read_at img off 32 of
        None \<Rightarrow> Inl (0, ctx)
      | Some ent \<Rightarrow>
          (if ent ! 0 = 0x00 then Inl (0, ctx)
           else if ent ! 0 = 0xE5 \<or> ent ! 11 = 0x0F then dir_run img fn offs ctx
           else (let (r, ctx) = fn ent ctx in if r \<noteq> 0 then Inl (r, ctx) else dir_run img fn offs ctx)))"

definition root_offs :: "fat \<Rightarrow> nat list" where
  "root_offs fs = map (\<lambda>i. root_off fs + i * 32) [0..<root_ents fs]"

definition cluster_offs :: "fat \<Rightarrow> nat \<Rightarrow> nat list" where
  "cluster_offs fs clus = map (\<lambda>i. cluster_off fs clus + i * 32) [0..<cluster_size fs div 32]"

fun dir_clusters :: "image \<Rightarrow> fat \<Rightarrow> (u8 list \<Rightarrow> 'c \<Rightarrow> nat \<times> 'c) \<Rightarrow> nat \<Rightarrow> nat \<Rightarrow> 'c \<Rightarrow> nat \<times> 'c" where
  "dir_clusters img fs fn 0 clus ctx = (0, ctx)"
| "dir_clusters img fs fn (Suc guard) clus ctx =
     (if in_chain clus then
        (case dir_run img fn (cluster_offs fs clus) ctx of
           Inl r \<Rightarrow> r
         | Inr ctx \<Rightarrow> dir_clusters img fs fn guard (pp_fat_next img fs clus) ctx)
      else (0, ctx))"

definition pp_dir_each :: "image \<Rightarrow> fat \<Rightarrow> nat \<Rightarrow> (u8 list \<Rightarrow> 'c \<Rightarrow> nat \<times> 'c) \<Rightarrow> 'c \<Rightarrow> nat \<times> 'c" where
  "pp_dir_each img fs clus fn ctx =
     (if clus = 0 then (case dir_run img fn (root_offs fs) ctx of Inl r \<Rightarrow> r | Inr ctx \<Rightarrow> (0, ctx))
      else dir_clusters img fs fn GUARD clus ctx)"

text \<open>What a search brings back: first cluster, size, and whether it is a directory.\<close>

record pp_found =
  q_clus :: nat
  q_size :: nat
  q_isdir :: bool

definition pp_find_cb :: "u8 list \<Rightarrow> u8 list \<Rightarrow> pp_found \<Rightarrow> nat \<times> pp_found" where
  "pp_find_cb name83 ent q =
     (if take 11 ent \<noteq> name83 then (0, q)
      else (1, \<lparr>q_clus = rd16 ent 26, q_size = rd32 ent 28, q_isdir = (ent ! 11 AND 0x10 \<noteq> 0)\<rparr>))"

definition pp_dir_find :: "image \<Rightarrow> fat \<Rightarrow> nat \<Rightarrow> u8 list \<Rightarrow> pp_found option" where
  "pp_dir_find img fs clus name83 =
     (let (r, q) = pp_dir_each img fs clus (pp_find_cb name83) \<lparr>q_clus = 0, q_size = 0, q_isdir = False\<rparr>
      in if r = 0 then None else Some q)"

fun path_walk :: "image \<Rightarrow> fat \<Rightarrow> u8 list list \<Rightarrow> nat \<Rightarrow> nat \<Rightarrow> (nat \<times> nat) option" where
  "path_walk img fs [] clus sz = Some (clus, sz)"
| "path_walk img fs (n # ns) clus sz =
     (case pp_dir_find img fs clus n of
        None \<Rightarrow> None
      | Some q \<Rightarrow> (if q_isdir q \<noteq> (ns \<noteq> []) then None else path_walk img fs ns (q_clus q) (q_size q)))"

definition photoplay_read_file :: "image \<Rightarrow> u8 list list \<Rightarrow> nat \<Rightarrow> u8 list option" where
  "photoplay_read_file img path cap =
     (if path = [] then None
      else case pp_fat_open img of
        None \<Rightarrow> None
      | Some fs \<Rightarrow>
          (case path_walk img fs path 0 0 of
             None \<Rightarrow> None
           | Some (clus, sz) \<Rightarrow> pp_read_chain img fs clus sz cap))"

section \<open>What a chain yields\<close>

lemma length_pp_read_at: "pp_read_at img off len = Some d \<Longrightarrow> length d = len"
  by (auto simp: pp_read_at_def split: if_splits)

lemma read_chain_loop_length:
  "read_chain_loop img fs sz guard clus buf = Some b \<Longrightarrow> length buf \<le> sz \<Longrightarrow> length b = sz"
proof (induction guard arbitrary: clus buf)
  case (Suc guard)
  show ?case
  proof (cases "length buf < sz \<and> in_chain clus")
    case True
    let ?w = "if sz - length buf < cluster_size fs then sz - length buf else cluster_size fs"
    obtain d where d: "pp_read_at img (cluster_off fs clus) ?w = Some d"
        "read_chain_loop img fs sz guard (pp_fat_next img fs clus) (buf @ d) = Some b"
      using Suc.prems(1) True by (auto simp: Let_def split: option.splits)
    have "length (buf @ d) \<le> sz" using length_pp_read_at [OF d(1)] True by auto
    then show ?thesis using Suc.IH [OF d(2)] by simp
  next
    case False
    then show ?thesis using Suc.prems by (auto split: if_splits)
  qed
qed (auto split: if_splits)

lemma read_chain_loop_full: "sz \<le> length buf \<Longrightarrow> read_chain_loop img fs sz guard clus buf = Some buf"
  by (cases guard) auto

definition cluster_data :: "image \<Rightarrow> fat \<Rightarrow> nat \<Rightarrow> u8 list" where
  "cluster_data img fs c = take (cluster_size fs) (drop (cluster_off fs c) img)"

text \<open>The clusters \<open>cs\<close> lie on the volume and the FAT links each to the next.\<close>

fun chain_on_disk :: "image \<Rightarrow> fat \<Rightarrow> nat list \<Rightarrow> bool" where
  "chain_on_disk img fs [] \<longleftrightarrow> True"
| "chain_on_disk img fs (c # cs) \<longleftrightarrow>
     in_chain c \<and> cluster_off fs c + cluster_size fs \<le> length img \<and>
     (cs \<noteq> [] \<longrightarrow> pp_fat_next img fs c = hd cs) \<and> chain_on_disk img fs cs"

lemma read_chain_loop_chain:
  assumes "chain_on_disk img fs cs" "cs \<noteq> []" "length cs \<le> guard" "0 < cluster_size fs"
    and "length buf < sz" "sz \<le> length buf + length cs * cluster_size fs"
    and "length buf + (length cs - 1) * cluster_size fs < sz"
  shows "read_chain_loop img fs sz guard (hd cs) buf =
    Some (buf @ take (sz - length buf) (concat (map (cluster_data img fs) cs)))"
  using assms
proof (induction cs arbitrary: guard buf)
  case (Cons c cs)
  obtain g where g: "guard = Suc g" using Cons.prems(3) by (cases guard) auto
  let ?w = "if sz - length buf < cluster_size fs then sz - length buf else cluster_size fs"
  let ?d = "take ?w (drop (cluster_off fs c) img)"
  have in_img: "cluster_off fs c + cluster_size fs \<le> length img" using Cons.prems(1) by simp
  then have rd: "pp_read_at img (cluster_off fs c) ?w = Some ?d" by (auto simp: pp_read_at_def)
  have step: "read_chain_loop img fs sz guard (hd (c # cs)) buf =
      read_chain_loop img fs sz g (pp_fat_next img fs c) (buf @ ?d)"
    using Cons.prems(1,5) rd by (simp add: g Let_def)
  have ld: "length (cluster_data img fs c) = cluster_size fs" using in_img by (simp add: cluster_data_def)
  show ?case
  proof (cases cs)
    case Nil
    then have "sz - length buf \<le> cluster_size fs" using Cons.prems(6) by simp
    then have d: "?d = take (sz - length buf) (cluster_data img fs c)"
      by (auto simp: cluster_data_def)
    moreover have "length (buf @ ?d) = sz" using Cons.prems(5) in_img Nil \<open>sz - length buf \<le> cluster_size fs\<close> by auto
    ultimately show ?thesis using step Nil by (simp add: read_chain_loop_full)
  next
    case (Cons c' cs')
    have big: "cluster_size fs < sz - length buf"
    proof -
      have "cluster_size fs \<le> length cs * cluster_size fs" using Cons by simp
      moreover have "length buf + length cs * cluster_size fs < sz" using Cons.prems(7) by simp
      ultimately show ?thesis by linarith
    qed
    then have d: "?d = cluster_data img fs c" by (simp add: cluster_data_def)
    have "read_chain_loop img fs sz g (hd cs) (buf @ cluster_data img fs c) =
      Some ((buf @ cluster_data img fs c) @ take (sz - length (buf @ cluster_data img fs c)) (concat (map (cluster_data img fs) cs)))"
    proof (rule Cons.IH)
      show "length (buf @ cluster_data img fs c) + (length cs - 1) * cluster_size fs < sz"
        using Cons.prems(7) Cons by (simp add: ld algebra_simps)
      show "sz \<le> length (buf @ cluster_data img fs c) + length cs * cluster_size fs"
        using Cons.prems(6) by (simp add: ld algebra_simps)
    qed (use Cons.prems Cons big g ld in auto)
    moreover have "pp_fat_next img fs c = hd cs" using Cons.prems(1) Cons by simp
    moreover have "take (sz - length buf) (cluster_data img fs c @ concat (map (cluster_data img fs) cs)) =
        cluster_data img fs c @ take (sz - length (buf @ cluster_data img fs c)) (concat (map (cluster_data img fs) cs))"
      using big ld by simp
    ultimately show ?thesis using step d by simp
  qed
qed simp

lemma pp_read_chain_bounds:
  assumes "pp_read_chain img fs clus sz cap = Some b"
  shows "length b = sz \<and> 0 < sz \<and> sz \<le> cap"
  using assms read_chain_loop_length [of img fs sz GUARD clus "[]" b]
  by (auto simp: pp_read_chain_def split: if_splits)

lemma pp_read_chain_on_disk:
  assumes "chain_on_disk img fs cs" "cs \<noteq> []" "length cs \<le> 65536" "0 < cluster_size fs"
    and "(length cs - 1) * cluster_size fs < sz" "sz \<le> length cs * cluster_size fs" "sz \<le> cap"
  shows "pp_read_chain img fs (hd cs) sz cap = Some (take sz (concat (map (cluster_data img fs) cs)))"
proof -
  have "0 < sz" using assms(5) by simp
  then show ?thesis
    using read_chain_loop_chain [OF assms(1-2) _ assms(4), of GUARD "[]" sz] assms
    by (simp add: pp_read_chain_def GUARD_def)
qed

text \<open>Every pass of the loop reads a whole cluster or the rest of the file, so the file bounds the passes.\<close>

lemma read_chain_loop_guard:
  assumes "0 < cluster_size fs" "sz \<le> length buf + guard * cluster_size fs"
  shows "read_chain_loop img fs sz (guard + k) clus buf = read_chain_loop img fs sz guard clus buf"
  using assms(2)
proof (induction guard arbitrary: clus buf)
  case 0
  then show ?case by (simp add: read_chain_loop_full)
next
  case (Suc guard)
  show ?case
  proof (cases "length buf < sz \<and> in_chain clus")
    case True
    let ?w = "if sz - length buf < cluster_size fs then sz - length buf else cluster_size fs"
    show ?thesis
    proof (cases "pp_read_at img (cluster_off fs clus) ?w")
      case None
      then show ?thesis using True by (simp add: Let_def)
    next
      case (Some d)
      have "sz \<le> length (buf @ d) + guard * cluster_size fs"
        using length_pp_read_at [OF Some] Suc.prems True by (auto split: if_splits)
      then show ?thesis using True Some Suc.IH by (simp add: Let_def)
    qed
  qed auto
qed

text \<open>
  The cluster guard never cuts a file short, and a looping FAT never hangs the
  walk: for every cap up to 32 MiB the chain loop comes to its own end within the 65536
  passes it is given, whatever the FAT holds, so giving it more changes nothing.
\<close>

theorem chain_walk_ends:
  assumes "bps fs = 512" "0 < spc fs" "cap \<le> 32 * 1024 * 1024" "sz \<le> cap"
  shows "read_chain_loop img fs sz (65536 + k) clus [] = read_chain_loop img fs sz 65536 clus [] \<and>
    (0 < sz \<longrightarrow> pp_read_chain img fs clus sz cap = read_chain_loop img fs sz (65536 + k) clus [])"
proof -
  have c: "512 \<le> cluster_size fs" using assms(1,2) by (simp add: cluster_size_def)
  then have "65536 * 512 \<le> 65536 * cluster_size fs" by (rule mult_le_mono2)
  then have "sz \<le> length ([] :: u8 list) + 65536 * cluster_size fs" using assms(3,4) by simp
  then have "read_chain_loop img fs sz (65536 + k) clus [] = read_chain_loop img fs sz 65536 clus []"
    using c by (intro read_chain_loop_guard) simp_all
  then show ?thesis using assms(4) by (simp add: pp_read_chain_def GUARD_def)
qed

theorem chain_walk_ends_witness:
  "pp_read_chain (replicate 9000 7) \<lparr>part_off = 0, bps = 512, spc = 4, root_off = 0, root_ents = 16, data_off = 0, fat_off = 0,
      clusters = 9\<rparr> 5 1000 262144 =
    read_chain_loop (replicate 9000 7) \<lparr>part_off = 0, bps = 512, spc = 4, root_off = 0, root_ents = 16, data_off = 0, fat_off = 0,
      clusters = 9\<rparr> 1000 (65536 + 1) 5 []"
  by (rule chain_walk_ends [THEN conjunct2, rule_format]) simp_all

section \<open>What a directory holds\<close>

text \<open>
  The live entries of a directory: deleted entries and long-name fragments skipped, up
  to the end marker or to the first entry that cannot be read.
\<close>

fun live_entries :: "image \<Rightarrow> nat list \<Rightarrow> u8 list list" where
  "live_entries img [] = []"
| "live_entries img (off # offs) =
     (case pp_read_at img off 32 of
        None \<Rightarrow> []
      | Some e \<Rightarrow>
          (if e ! 0 = 0x00 then []
           else if e ! 0 = 0xE5 \<or> e ! 11 = 0x0F then live_entries img offs
           else e # live_entries img offs))"

fun chain_clusters :: "image \<Rightarrow> fat \<Rightarrow> nat \<Rightarrow> nat \<Rightarrow> nat list" where
  "chain_clusters img fs 0 clus = []"
| "chain_clusters img fs (Suc guard) clus =
     (if in_chain clus then clus # chain_clusters img fs guard (pp_fat_next img fs clus) else [])"

definition dir_offs :: "image \<Rightarrow> fat \<Rightarrow> nat \<Rightarrow> nat list" where
  "dir_offs img fs clus =
     (if clus = 0 then root_offs fs else concat (map (cluster_offs fs) (chain_clusters img fs GUARD clus)))"

text \<open>Handing entries to the callback until it returns nonzero.\<close>

fun first_hit :: "(u8 list \<Rightarrow> 'c \<Rightarrow> nat \<times> 'c) \<Rightarrow> u8 list list \<Rightarrow> 'c \<Rightarrow> nat \<times> 'c" where
  "first_hit fn [] ctx = (0, ctx)"
| "first_hit fn (e # es) ctx = (let (r, ctx) = fn e ctx in if r \<noteq> 0 then (r, ctx) else first_hit fn es ctx)"

definition run_result :: "(nat \<times> 'c) + 'c \<Rightarrow> nat \<times> 'c" where
  "run_result x = (case x of Inl r \<Rightarrow> r | Inr ctx \<Rightarrow> (0, ctx))"

lemma dir_run_entries: "run_result (dir_run img fn offs ctx) = first_hit fn (live_entries img offs) ctx"
  by (induction offs arbitrary: ctx) (auto simp: run_result_def split: option.split prod.split)

lemma dir_run_append:
  "dir_run img fn (xs @ ys) ctx =
     (case dir_run img fn xs ctx of Inl r \<Rightarrow> Inl r | Inr ctx \<Rightarrow> dir_run img fn ys ctx)"
  by (induction xs arbitrary: ctx) (auto split: option.split prod.split)

lemma dir_clusters_run:
  "dir_clusters img fs fn guard clus ctx =
     run_result (dir_run img fn (concat (map (cluster_offs fs) (chain_clusters img fs guard clus))) ctx)"
  by (induction guard arbitrary: clus ctx) (auto simp: run_result_def dir_run_append split: sum.split)

lemma pp_dir_each_entries:
  "pp_dir_each img fs clus fn ctx = first_hit fn (live_entries img (dir_offs img fs clus)) ctx"
  by (simp add: pp_dir_each_def dir_offs_def dir_clusters_run flip: dir_run_entries)
    (simp add: run_result_def)

definition found_of :: "u8 list \<Rightarrow> pp_found" where
  "found_of ent = \<lparr>q_clus = rd16 ent 26, q_size = rd32 ent 28, q_isdir = bit (ent ! 11) 4\<rparr>"

lemma dir_bit: "(b AND 0x10 \<noteq> 0) = bit (b :: u8) 4"
proof -
  have "b AND 0x10 = (if bit b 4 then 0x10 else 0)" by (rule byte_eqI) (simp_all add: bit_simps)
  then show ?thesis by simp
qed

lemma first_hit_find:
  "first_hit (pp_find_cb name) es q =
     (case List.find (\<lambda>e. take 11 e = name) es of None \<Rightarrow> (0, q) | Some e \<Rightarrow> (1, found_of e))"
  by (induction es) (auto simp: pp_find_cb_def found_of_def dir_bit)

lemma pp_dir_find_entries:
  "pp_dir_find img fs clus name =
     map_option found_of (List.find (\<lambda>e. take 11 e = name) (live_entries img (dir_offs img fs clus)))"
  by (simp add: pp_dir_find_def pp_dir_each_entries first_hit_find split: option.split)

text \<open>
  C13. A directory search finds the first live entry of that name, whether the directory
  is the fixed root or a chain of clusters: for every image and every volume
  description, what \<open>pp_dir_find\<close> returns is the cluster, the size and the directory
  flag of the first entry with the name among the live entries, and nothing when none
  has it.
\<close>

theorem dir_find_first_live_entry:
  "pp_dir_find img fs clus name =
     map_option (\<lambda>e. \<lparr>q_clus = rd16 e 26, q_size = rd32 e 28, q_isdir = bit (e ! 11) 4\<rparr>)
       (List.find (\<lambda>e. take 11 e = name) (live_entries img (dir_offs img fs clus)))"
  by (simp add: pp_dir_find_entries found_of_def [abs_def])

text \<open>
  A file is read back from its chain: when the FAT links the clusters and they lie
  inside the image, reading the chain from its first cluster gives the first
  \<open>sz\<close> bytes of the clusters in order, for every size the clusters hold and the cap
  allows.
\<close>

theorem read_chain_reads_clusters:
  assumes "chain_on_disk img fs cs" "cs \<noteq> []" "length cs \<le> 65536" "0 < cluster_size fs"
    and "(length cs - 1) * cluster_size fs < sz" "sz \<le> length cs * cluster_size fs" "sz \<le> cap"
  shows "pp_read_chain img fs (hd cs) sz cap = Some (take sz (concat (map (cluster_data img fs) cs)))"
  by (rule pp_read_chain_on_disk [OF assms])

theorem read_chain_reads_clusters_witness:
  "pp_read_chain ([0,0, 0,0, 0,0, 2,0] @ [1, 2, 3, 4])
     \<lparr>part_off = 0, bps = 2, spc = 1, root_off = 8, root_ents = 0, data_off = 8, fat_off = 0, clusters = 2\<rparr> 3 4 9 =
   Some [3, 4, 1, 2]"
proof -
  let ?i = "[0,0, 0,0, 0,0, 2,0] @ [1, 2, 3, 4] :: u8 list"
  let ?f = "\<lparr>part_off = 0, bps = 2, spc = 1, root_off = 8, root_ents = 0, data_off = 8, fat_off = 0, clusters = 2\<rparr>"
  have "chain_on_disk ?i ?f [3, 2]"
    by (simp add: cluster_off_def cluster_size_def in_chain_def pp_fat_next_def pp_read_at_def rd16_def)
  moreover have "concat (map (cluster_data ?i ?f) [3, 2]) = [3, 4, 1, 2]"
    by (simp add: cluster_data_def cluster_off_def cluster_size_def)
  ultimately show ?thesis
    using read_chain_reads_clusters [of ?i ?f "[3, 2]" 4 9] by (simp add: cluster_size_def)
qed

text \<open>
  Whatever the image, a file that is read has exactly the size its directory entry
  states, which is not zero and not above the caller's cap: a corrupt or a foreign image
  cannot make the emulator allocate or deliver more.
\<close>

lemma read_file_within_cap:
  assumes "photoplay_read_file img path cap = Some b"
  shows "0 < length b \<and> length b \<le> cap \<and>
    (\<exists>fs clus. pp_fat_open img = Some fs \<and> path_walk img fs path 0 0 = Some (clus, length b))"
  using assms pp_read_chain_bounds
  by (fastforce simp: photoplay_read_file_def split: if_splits option.splits prod.splits)

text \<open>A small volume to run the walk on: one FAT, sixteen root entries, one sector per cluster.\<close>

definition sector :: "u8 list \<Rightarrow> u8 list" where
  "sector xs = xs @ replicate (512 - length xs) 0"

definition volume :: "u8 list list \<Rightarrow> image" where
  "volume secs =
     concat (map sector
       (([0xEB, 0x3C, 0x90] @ bytes ''MSDOS5.0'' @ [0x00, 0x02, 0x01, 0x01, 0x00, 0x01, 0x10, 0x00, 0x40, 0x00, 0xF8, 0x01, 0x00])
        # secs))"

definition dir_entry :: "u8 list \<Rightarrow> u8 \<Rightarrow> u8 \<Rightarrow> u8 \<Rightarrow> u8 list" where
  "dir_entry name attr clus len = name @ [attr] @ replicate 14 0 @ [clus, 0, len, 0, 0, 0]"

lemma length_concat_sectors: "(\<forall>s \<in> set ss. length s = 512) \<Longrightarrow> length (concat ss) = 512 * length ss"
  by (induction ss) auto

lemma drop_concat_sectors:
  "(\<forall>s \<in> set ss. length s = 512) \<Longrightarrow> k < length ss \<Longrightarrow>
     drop (512 * k) (concat ss) = ss ! k @ concat (drop (Suc k) ss)"
proof (induction ss arbitrary: k)
  case (Cons s ss)
  then show ?case by (cases k) simp_all
qed simp

lemma pp_read_at_sectors:
  assumes "\<forall>s \<in> set ss. length s = 512" "k < length ss" "off = 512 * k + j" "j + n \<le> 512"
  shows "pp_read_at (concat ss) off n = Some (take n (drop j (ss ! k)))"
proof -
  have "Suc k \<le> length ss" using assms(2) by simp
  then have "512 * Suc k \<le> 512 * length ss" by (rule mult_le_mono2)
  then have "off + n \<le> 512 * length ss" using assms(3,4) by simp
  moreover have "take n (drop off (concat ss)) = take n (drop j (ss ! k))"
  proof -
    have "drop off (concat ss) = drop j (ss ! k @ concat (drop (Suc k) ss))"
      using drop_concat_sectors [OF assms(1,2)] assms(3) by (metis add.commute drop_drop)
    moreover have "length (ss ! k) = 512" using assms(1,2) by simp
    ultimately show ?thesis using assms(4) by simp
  qed
  ultimately show ?thesis using length_concat_sectors [OF assms(1)] by (simp add: pp_read_at_def)
qed

lemma length_sector: "length xs \<le> 512 \<Longrightarrow> length (sector xs) = 512"
  by (simp add: sector_def)

lemma nth_sector: "length xs \<le> 512 \<Longrightarrow> i < 512 \<Longrightarrow> sector xs ! i = (if i < length xs then xs ! i else 0)"
  by (simp add: sector_def nth_append)

definition demo_fat :: fat where
  "demo_fat = \<lparr>part_off = 0, bps = 512, spc = 1, root_off = 1024, root_ents = 16, data_off = 1536, fat_off = 512,
     clusters = 61\<rparr>"

lemma volume_reads:
  assumes "\<forall>s \<in> set secs. length s \<le> 512" "k < length secs" "off = 512 * Suc k + j" "j + n \<le> 512"
  shows "pp_read_at (volume secs) off n = Some (take n (drop j (sector (secs ! k))))"
proof -
  let ?ss = "map sector (([0xEB, 0x3C, 0x90] @ bytes ''MSDOS5.0'' @
    [0x00, 0x02, 0x01, 0x01, 0x00, 0x01, 0x10, 0x00, 0x40, 0x00, 0xF8, 0x01, 0x00]) # secs)"
  have "\<forall>s \<in> set ?ss. length s = 512" using assms(1) by (auto simp: length_sector bytes_def)
  then show ?thesis
    unfolding volume_def using pp_read_at_sectors [of ?ss "Suc k" off j n] assms(2-4) by simp
qed

lemma volume_opens: "pp_fat_open (volume secs) = Some demo_fat"
proof -
  let ?b = "[0xEB, 0x3C, 0x90] @ bytes ''MSDOS5.0'' @
    [0x00, 0x02, 0x01, 0x01, 0x00, 0x01, 0x10, 0x00, 0x40, 0x00, 0xF8, 0x01, 0x00] :: u8 list"
  have "pp_read_at (volume secs) 0 SECSZ = Some (sector ?b)"
    by (simp add: pp_read_at_def volume_def SECSZ_def length_sector bytes_def)
  moreover have "pp_partition (sector ?b) = 0" by (simp add: pp_partition_def nth_sector bytes_def)
  moreover have "pp_fat_bpb 0 (sector ?b) = Some demo_fat"
    by (simp add: pp_fat_bpb_def rd16_def rd32_def nth_sector bytes_def demo_fat_def SECSZ_def Let_def)
  ultimately show ?thesis by (simp add: pp_fat_open_def)
qed

end
