(* ===== verification/LCG_Codec.thy ===== *)
theory LCG_Codec
  imports Stream_Codec
begin

text \<open>
  The Borland generator the whole product uses as a cipher: a byte is XORed with the top
  byte of \<open>s * mul + 1\<close>. The 2008 card's record and the settings file of the disk image
  are both under it, each with its own seed.
\<close>

definition lcg_step :: "u32 \<Rightarrow> u32 \<Rightarrow> u8 \<Rightarrow> u8 \<times> u32" where
  "lcg_step mul s b = (let s = s * mul + 1 in (b XOR ucast (drop_bit 24 s), s))"

interpretation lcg: stream_codec "lcg_step mul" "\<lambda>s. ucast (drop_bit 24 (s * mul + 1))" "\<lambda>s. s * mul + 1"
  for mul
  by unfold_locales (simp add: lcg_step_def Let_def)

end
