(* ===== verification/Image_Ident.thy ===== *)
theory Image_Ident
  imports Disk_Image LCG_Codec
begin

text \<open>
  What a disk image says it is, \<open>src/src/photoplay_ident.c\<close>: the enciphered settings
  file MAIN.SET and the lookup in it, the release and the territory the dongles are
  configured from, and the older 2.0 images, which are named by their version file, the
  checksum of their menu and the languages of their question sets.
\<close>

section \<open>MAIN.SET\<close>

definition SET_KEY :: u32 where "SET_KEY = 0x00016295"

definition pp_set_decrypt :: "u8 list \<Rightarrow> u32 \<Rightarrow> u8 list" where
  "pp_set_decrypt d seed = fst (run_codec (lcg_step 0x08088405) seed d)"

text \<open>The key block from \<open>p\<close> on: entries are a NUL-terminated key and an offset into the pool.\<close>

fun set_scan :: "nat \<Rightarrow> u8 list \<Rightarrow> u8 list \<Rightarrow> u8 list \<Rightarrow> nat \<Rightarrow> u8 list option" where
  "set_scan 0 keys pool key outsz = None"
| "set_scan (Suc n) keys pool key outsz =
     (if keys = [] then None
      else
        (let k = takeWhile (\<lambda>c. c \<noteq> 0) keys; p = length k
         in if p + 3 > length keys then None
            else
              (let off = rd16 keys (p + 1)
               in if k = key \<and> off < length pool
                  then Some (take (outsz - 1) (takeWhile (\<lambda>c. c \<noteq> 0) (drop off pool)))
                  else set_scan n (drop (p + 3) keys) pool key outsz)))"

definition pp_set_lookup :: "u8 list \<Rightarrow> u8 list \<Rightarrow> nat \<Rightarrow> u8 list option" where
  "pp_set_lookup raw key outsz =
     (if length raw < 6 then None
      else
        (let count = rd16 (pp_set_decrypt (take 2 raw) SET_KEY) 0;
             size1 = rd16 (pp_set_decrypt (take 2 (drop 2 raw)) SET_KEY) 0;
             size2 = rd16 (pp_set_decrypt (take 2 (drop 4 raw)) SET_KEY) 0
         in if size1 = 0 \<or> size2 = 0 \<or> 6 + size1 + size2 > length raw then None
            else
              (let keys = pp_set_decrypt (take size1 (drop 6 raw)) SET_KEY;
                   pool = pp_set_decrypt (take size2 (drop (6 + size1) raw)) SET_KEY
               in set_scan count keys pool key outsz)))"

section \<open>The release and the territory\<close>

definition pp_release_names :: "(u8 list \<times> u8 list \<times> bool) list" where
  "pp_release_names =
     [(bytes ''Version 99'', bytes ''Photo Play 99'', False),
      (bytes ''Version 2000'', bytes ''Photo Play 2000'', False),
      (bytes ''Version 2001'', bytes ''I.G.O. 1'', False),
      (bytes ''Version 2002'', bytes ''I.G.O. 2'', False),
      (bytes ''Version 2003'', bytes ''I.G.O. 3'', False),
      (bytes ''Version 2004'', bytes ''I.G.O. 4'', False),
      (bytes ''Version 2005B'', bytes ''I.G.O. 5'', False),
      (bytes ''Version 2005'', bytes ''I.G.O. 5'', False),
      (bytes ''Version 2006'', bytes ''I.G.O. 6'', False),
      (bytes ''Version 2007'', bytes ''I.G.O. 7'', False),
      (bytes ''Version 2008'', bytes ''I.G.O. 8'', False),
      (bytes ''Version 08IT'', bytes ''I.G.O. 8 Italy'', True)]"

text \<open>\<open>snprintf\<close> into \<open>n\<close> bytes, one of them the NUL.\<close>

definition cut :: "nat \<Rightarrow> u8 list \<Rightarrow> u8 list" where
  "cut n s = take (n - 1) s"

definition paren_territory :: "u8 list \<Rightarrow> u8 list" where
  "paren_territory version =
     (case strchr version 0x28 of
        None \<Rightarrow> []
      | Some k \<Rightarrow>
          (case strchr (drop k version) 0x29 of
             None \<Rightarrow> []
           | Some d \<Rightarrow> (if d > 1 \<and> d < 16 then take (d - 1) (drop (k + 1) version) else [])))"

definition release_name :: "u8 list \<Rightarrow> (u8 list \<times> bool) option" where
  "release_name version =
     map_option snd (List.find (\<lambda>(b, _). take (length b) version = b) pp_release_names)"

record identity =
  id_display :: "u8 list"
  id_banner :: "u8 list"
  id_terr :: "u8 list"

definition identify_set :: "u8 list \<Rightarrow> nat \<Rightarrow> nat \<Rightarrow> nat \<Rightarrow> identity option" where
  "identify_set raw outsz bsz tsz =
     (case pp_set_lookup raw (bytes ''Version'') 128 of
        None \<Rightarrow> None
      | Some version \<Rightarrow>
          (let land = (case pp_set_lookup raw (bytes ''Land'') 16 of
                         Some l \<Rightarrow> l
                       | None \<Rightarrow> paren_territory version)
           in Some
             \<lparr>id_display = cut outsz
                (case release_name version of
                   Some (name, named) \<Rightarrow> (if land \<noteq> [] \<and> \<not> named then name @ bytes '' '' @ land else name)
                 | None \<Rightarrow> version),
              id_banner = cut bsz version, id_terr = cut tsz land\<rparr>))"

definition main_set_path :: "u8 list list" where
  "main_set_path = [bytes ''FOTO       '', bytes ''SETTINGS   '', bytes ''MAIN    SET'']"

definition photoplay_identify_ex :: "image \<Rightarrow> nat \<Rightarrow> nat \<Rightarrow> nat \<Rightarrow> identity option" where
  "photoplay_identify_ex img outsz bsz tsz =
     (if outsz < 8 then None
      else case pp_fat_open img of
        None \<Rightarrow> None
      | Some fs \<Rightarrow>
          (case path_walk img fs main_set_path 0 0 of
             None \<Rightarrow> None
           | Some (clus, sz) \<Rightarrow>
               (case pp_read_chain img fs clus sz (256 * 1024) of
                  None \<Rightarrow> None
                | Some raw \<Rightarrow> identify_set raw outsz bsz tsz)))"

text \<open>What the dongles are given: \<open>photoplay_image_ident\<close>, with the buffers of its callers.\<close>

definition photoplay_image_ident :: "image \<Rightarrow> nat \<Rightarrow> nat \<Rightarrow> bool \<times> u8 list \<times> u8 list" where
  "photoplay_image_ident img bsz tsz =
     (case photoplay_identify_ex img 64 64 16 of
        None \<Rightarrow> (False, [], [])
      | Some i \<Rightarrow> (id_banner i \<noteq> [], cut bsz (id_banner i), cut tsz (id_terr i)))"

section \<open>Photo Play 2.0\<close>

definition crc32_bit :: "u32 \<Rightarrow> u32" where
  "crc32_bit c = drop_bit 1 c XOR (0xEDB88320 AND (0 - (c AND 1)))"

definition pp_crc32 :: "u8 list \<Rightarrow> u32" where
  "pp_crc32 p = NOT (foldl (\<lambda>c b. (crc32_bit ^^ 8) (c XOR ucast b)) 0xFFFFFFFF p)"

definition pp20_menus :: "(nat \<times> u32 \<times> u8 list) list" where
  "pp20_menus =
     [(141449, 0xCBB96DF2, bytes ''DE''), (141559, 0xAB7FCD16, bytes ''NL''), (141816, 0x20D66C70, bytes ''ES'')]"

definition pp20_langs :: "(u8 list \<times> u8 list) list" where
  "pp20_langs =
     [(bytes ''D'', bytes ''DE''), (bytes ''H'', bytes ''NL''), (bytes ''I'', bytes ''IT''),
      (bytes ''F'', bytes ''FR''), (bytes ''SP'', bytes ''ES''), (bytes ''S'', bytes ''ES''),
      (bytes ''GR'', bytes ''GR''), (bytes ''G'', bytes ''GR'')]"

definition PP20_MAX_LANGS :: nat where "PP20_MAX_LANGS = 16"

record lang_tally =
  l_code :: "u8 list"
  l_sets :: nat
  l_played :: nat

text \<open>One more of a language, which is added at the end when it is new and there is room.\<close>

fun tally :: "u8 list \<Rightarrow> nat \<Rightarrow> nat \<Rightarrow> nat \<Rightarrow> lang_tally list \<Rightarrow> lang_tally list" where
  "tally code s p n [] =
     (if n = PP20_MAX_LANGS then [] else [\<lparr>l_code = code, l_sets = s, l_played = p\<rparr>])"
| "tally code s p n (l # ls) =
     (if l_code l = code then l\<lparr>l_sets := l_sets l + s, l_played := l_played l + p\<rparr> # ls
      else l # tally code s p (n + 1) ls)"

definition pp20_lang_cb :: "u8 list \<Rightarrow> u8 list \<Rightarrow> lang_tally list \<Rightarrow> nat \<times> lang_tally list" where
  "pp20_lang_cb ext ent ls =
     (let code = takeWhile (\<lambda>c. 0x41 \<le> c \<and> c \<le> 0x5A) (take 3 ent);
          is_set = take 3 (drop 8 ent) = ext;
          played = take 3 (drop 8 ent) = bytes ''BUF''
      in if ent ! 11 AND 0x18 \<noteq> 0 then (0, ls)
         else if code = [] \<or> ent ! length code \<noteq> 0x5F then (0, ls)
         else if \<not> is_set \<and> \<not> played then (0, ls)
         else (0, tally code (of_bool is_set) (of_bool played) 0 ls))"

definition sole_lang :: "lang_tally list \<Rightarrow> u8 list option" where
  "sole_lang ls =
     (case filter (\<lambda>l. l_sets l \<noteq> 0) ls of
        [l] \<Rightarrow> Some (l_code l)
      | _ \<Rightarrow>
          (case filter (\<lambda>l. l_sets l \<noteq> 0 \<and> l_played l \<noteq> 0) ls of
             [l] \<Rightarrow> Some (l_code l)
           | _ \<Rightarrow> None))"

definition pp20_lang_terr :: "image \<Rightarrow> fat \<Rightarrow> nat \<Rightarrow> u8 list \<Rightarrow> u8 list option" where
  "pp20_lang_terr img fs dir ext =
     (case sole_lang (snd (pp_dir_each img fs dir (pp20_lang_cb ext) [])) of
        None \<Rightarrow> None
      | Some lang \<Rightarrow> map_of pp20_langs lang)"

definition strip_spaces :: "u8 list \<Rightarrow> u8 list" where
  "strip_spaces s = rev (dropWhile (\<lambda>c. c = 0x20) (rev s))"

definition pp20_version :: "u8 list \<Rightarrow> u8 list" where
  "pp20_version raw = strip_spaces (takeWhile (\<lambda>c. 0x20 \<le> c \<and> c < 0x7F) (take 31 raw))"

text \<open>A directory below the root, or a file in a directory.\<close>

definition find_dir :: "image \<Rightarrow> fat \<Rightarrow> nat \<Rightarrow> u8 list \<Rightarrow> nat option" where
  "find_dir img fs dir name =
     (case pp_dir_find img fs dir name of Some q \<Rightarrow> (if q_isdir q then Some (q_clus q) else None) | None \<Rightarrow> None)"

definition find_file :: "image \<Rightarrow> fat \<Rightarrow> nat \<Rightarrow> u8 list \<Rightarrow> nat \<Rightarrow> u8 list option" where
  "find_file img fs dir name cap =
     (case pp_dir_find img fs dir name of
        Some q \<Rightarrow> (if q_isdir q then None else pp_read_chain img fs (q_clus q) (q_size q) cap)
      | None \<Rightarrow> None)"

definition menu_terr :: "u8 list \<Rightarrow> u8 list option" where
  "menu_terr raw =
     map_option (\<lambda>(_, _, t). t) (List.find (\<lambda>(sz, crc, _). length raw = sz \<and> pp_crc32 raw = crc) pp20_menus)"

definition questions_terr :: "image \<Rightarrow> fat \<Rightarrow> u8 list \<Rightarrow> u8 list \<Rightarrow> u8 list \<Rightarrow> u8 list option" where
  "questions_terr img fs game sub ext =
     (case find_dir img fs 0 game of
        None \<Rightarrow> None
      | Some d \<Rightarrow> (case find_dir img fs d sub of None \<Rightarrow> None | Some d \<Rightarrow> pp20_lang_terr img fs d ext))"

definition or_else :: "'a option \<Rightarrow> 'a option \<Rightarrow> 'a option" where
  "or_else a b = (case a of None \<Rightarrow> b | Some x \<Rightarrow> Some x)"

definition pp20_terr :: "image \<Rightarrow> fat \<Rightarrow> nat \<Rightarrow> u8 list option" where
  "pp20_terr img fs main_dir =
     or_else (case find_file img fs main_dir (bytes ''MENU    EXE'') (1024 * 1024) of
                None \<Rightarrow> None | Some raw \<Rightarrow> menu_terr raw)
       (or_else (questions_terr img fs (bytes ''FUNQUIZ    '') (bytes ''DATA       '') (bytes ''DAB''))
         (questions_terr img fs (bytes ''HANGMAN    '') (bytes ''GROUPS     '') (bytes ''DBF'')))"

definition photoplay_identify_pp20 :: "image \<Rightarrow> nat \<Rightarrow> nat \<Rightarrow> nat \<Rightarrow> identity option" where
  "photoplay_identify_pp20 img outsz bsz tsz =
     (if outsz < 8 then None
      else case pp_fat_open img of
        None \<Rightarrow> None
      | Some fs \<Rightarrow>
          (case find_dir img fs 0 (bytes ''MAIN       '') of
             None \<Rightarrow> None
           | Some main_dir \<Rightarrow>
               (case find_file img fs main_dir (bytes ''VERSION STR'') 256 of
                  None \<Rightarrow> None
                | Some raw \<Rightarrow>
                    (let version = pp20_version raw
                     in if take 8 version \<noteq> bytes ''Version '' \<or> length version = 8 then None
                        else
                          (let terr = pp20_terr img fs main_dir
                           in Some
                             \<lparr>id_display = cut outsz (bytes ''Photo Play '' @ drop 8 version @
                                (case terr of None \<Rightarrow> [] | Some t \<Rightarrow> bytes '' '' @ t)),
                              id_banner = cut bsz version,
                              id_terr = (case terr of None \<Rightarrow> [] | Some t \<Rightarrow> cut tsz t)\<rparr>)))))"

section \<open>Building a settings file\<close>

text \<open>
  The format the game writes: three 16-bit words, the key block and the pool, each
  enciphered from the start of the stream. Every value has its own place in the pool.
\<close>

definition le16 :: "nat \<Rightarrow> u8 list" where
  "le16 n = [word_of_nat n, word_of_nat (n div 256)]"

fun set_keys :: "nat \<Rightarrow> (u8 list \<times> u8 list) list \<Rightarrow> u8 list" where
  "set_keys off [] = []"
| "set_keys off ((k, v) # kvs) = k @ 0 # le16 off @ set_keys (off + length v + 1) kvs"

definition set_pool :: "(u8 list \<times> u8 list) list \<Rightarrow> u8 list" where
  "set_pool kvs = concat (map (\<lambda>(k, v). v @ [0]) kvs)"

definition set_file :: "(u8 list \<times> u8 list) list \<Rightarrow> u8 list" where
  "set_file kvs =
     (let enc = (\<lambda>d. pp_set_decrypt d SET_KEY); keys = set_keys 0 kvs; pool = set_pool kvs
      in enc (le16 (length kvs)) @ enc (le16 (length keys)) @ enc (le16 (length pool)) @ enc keys @ enc pool)"

definition settings_ok :: "(u8 list \<times> u8 list) list \<Rightarrow> bool" where
  "settings_ok kvs \<longleftrightarrow> (\<forall>(k, v) \<in> set kvs. 0 \<notin> set k \<and> 0 \<notin> set v) \<and>
     length (set_keys 0 kvs) < 65536 \<and> length (set_pool kvs) < 65536"

lemma rd16_le16: "n < 65536 \<Longrightarrow> rd16 (le16 n) 0 = n"
  by (simp add: rd16_def le16_def unat_of_nat)

lemma pp_set_decrypt_inverse [simp]: "pp_set_decrypt (pp_set_decrypt d s) s = d"
  by (simp add: pp_set_decrypt_def lcg.run_inverse)

lemma length_pp_set_decrypt [simp]: "length (pp_set_decrypt d s) = length d"
  by (simp add: pp_set_decrypt_def)

lemma length_le16 [simp]: "length (le16 n) = 2"
  by (simp add: le16_def)

lemma takeWhile_nul: "0 \<notin> set k \<Longrightarrow> takeWhile (\<lambda>c. c \<noteq> 0) (k @ (0 :: u8) # xs) = k"
  by (induction k) auto

lemma rd16_append: "length xs = i \<Longrightarrow> rd16 (xs @ ys) i = rd16 ys 0"
  by (simp add: rd16_def nth_append)

lemma rd16_take: "rd16 (le16 n @ ys) 0 = rd16 (le16 n) 0"
  by (simp add: rd16_def le16_def)

lemma length_set_keys: "length kvs \<le> length (set_keys off kvs)"
  by (induction off kvs rule: set_keys.induct) auto

text \<open>Scanning what was built finds the first entry with the key.\<close>

lemma set_scan_built:
  assumes "\<forall>(k, v) \<in> set kvs. 0 \<notin> set k \<and> 0 \<notin> set v" "length kvs \<le> n" "off = length pre"
    and "length pre + length (set_pool kvs) < 65536"
  shows "set_scan n (set_keys off kvs) (pre @ set_pool kvs) key outsz = map_option (take (outsz - 1)) (map_of kvs key)"
  using assms
proof (induction kvs arbitrary: n off pre)
  case Nil
  then show ?case by (cases n) simp_all
next
  case (Cons kv kvs)
  obtain k v where kv: "kv = (k, v)" by force
  obtain m where m: "n = Suc m" using Cons.prems(2) by (cases n) auto
  have nz: "0 \<notin> set k" "0 \<notin> set v" using Cons.prems(1) by (auto simp: kv)
  let ?rest = "set_keys (off + length v + 1) kvs"
  have keys: "set_keys off (kv # kvs) = k @ 0 # le16 off @ ?rest" by (simp add: kv)
  have pool: "set_pool (kv # kvs) = v @ 0 # set_pool kvs" by (simp add: kv set_pool_def)
  have off: "rd16 (k @ 0 # le16 off @ ?rest) (length k + 1) = off"
    using rd16_append [of "k @ [0]" "length k + 1" "le16 off @ ?rest"] Cons.prems(3,4)
    by (simp add: rd16_take rd16_le16)
  have ih: "set_scan m ?rest ((pre @ v @ [0]) @ set_pool kvs) key outsz = map_option (take (outsz - 1)) (map_of kvs key)"
    by (rule Cons.IH) (use Cons.prems m pool in auto)
  have lt: "off < length (pre @ v @ 0 # set_pool kvs)" using Cons.prems(3) by simp
  have val: "takeWhile (\<lambda>c. c \<noteq> 0) (drop off (pre @ v @ 0 # set_pool kvs)) = v"
    using Cons.prems(3) takeWhile_nul [OF nz(2)] by simp
  have tw: "takeWhile (\<lambda>c. c \<noteq> 0) (k @ 0 # le16 off @ ?rest) = k" by (rule takeWhile_nul [OF nz(1)])
  show ?case
    unfolding keys pool m set_scan.simps tw Let_def off
    using lt val ih by (simp add: kv)
qed

lemma pp_set_lookup_built:
  assumes "settings_ok kvs"
  shows "pp_set_lookup (set_file kvs @ extra) key outsz = map_option (take (outsz - 1)) (map_of kvs key)"
proof -
  have sz: "length (set_keys 0 kvs) < 65536" "length (set_pool kvs) < 65536" "length kvs < 65536"
    using assms length_set_keys [of kvs 0] by (auto simp: settings_ok_def)
  have scan: "set_scan (length kvs) (set_keys 0 kvs) (set_pool kvs) key outsz = map_option (take (outsz - 1)) (map_of kvs key)"
    using set_scan_built [of kvs "length kvs" 0 "[]"] assms by (simp add: settings_ok_def)
  have empty: "kvs = []" if "set_keys 0 kvs = [] \<or> set_pool kvs = []"
    using that by (cases kvs) (auto simp: set_pool_def)
  show ?thesis
  proof (cases "kvs = []")
    case True
    then show ?thesis using sz
      by (simp add: pp_set_lookup_def set_file_def Let_def rd16_le16)
  next
    case False
    then have "set_keys 0 kvs \<noteq> []" "set_pool kvs \<noteq> []" using empty by auto
    then show ?thesis using sz scan
      by (simp add: pp_set_lookup_def set_file_def Let_def rd16_le16)
  qed
qed

text \<open>
  Settings round trip: from the settings file the game writes for a list of keys
  and values, followed by anything, the lookup brings back the value of the first entry
  with the key, cut to the caller's buffer, and nothing for a key that is not there.
\<close>

theorem settings_roundtrip:
  assumes "\<forall>(k, v) \<in> set kvs. 0 \<notin> set k \<and> 0 \<notin> set v"
    and "length (set_keys 0 kvs) < 65536" "length (set_pool kvs) < 65536"
  shows "pp_set_lookup (set_file kvs @ extra) key outsz = map_option (take (outsz - 1)) (map_of kvs key)"
  by (rule pp_set_lookup_built) (use assms in \<open>simp add: settings_ok_def\<close>)

definition demo_settings :: "(u8 list \<times> u8 list) list" where
  "demo_settings = [(bytes ''Land'', bytes ''IT''), (bytes ''Version'', bytes ''Version 2007 (IT)'')]"

lemma demo_settings_facts:
  "\<forall>(k, v) \<in> set demo_settings. 0 \<notin> set k \<and> 0 \<notin> set v"
  "length (set_keys 0 demo_settings) = 17" "length (set_pool demo_settings) = 21"
  by (simp_all add: demo_settings_def bytes_def set_pool_def)

theorem settings_roundtrip_witness:
  "pp_set_lookup (set_file demo_settings) (bytes ''Version'') 9 = Some (bytes ''Version '')"
  using settings_roundtrip [OF demo_settings_facts(1), of "[]" "bytes ''Version''" 9]
  by (simp add: demo_settings_facts) (simp add: demo_settings_def bytes_def)

section \<open>Identifying an image\<close>

lemma identify_built:
  assumes "settings_ok kvs" "map_of kvs (bytes ''Version'') = Some v" "map_of kvs (bytes ''Land'') = Some l"
    and "length v < 128" "length l < 16"
  shows "identify_set (set_file kvs @ extra) outsz bsz tsz = Some
    \<lparr>id_display = cut outsz (case release_name v of
        Some (name, named) \<Rightarrow> (if l \<noteq> [] \<and> \<not> named then name @ bytes '' '' @ l else name) | None \<Rightarrow> v),
     id_banner = cut bsz v, id_terr = cut tsz l\<rparr>"
  using assms(2-5) by (simp add: identify_set_def pp_set_lookup_built [OF assms(1)])

lemma identify_ex_built:
  assumes "pp_fat_open img = Some fs" "path_walk img fs main_set_path 0 0 = Some (clus, sz)"
    and "pp_read_chain img fs clus sz (256 * 1024) = Some (set_file kvs @ extra)" "8 \<le> outsz"
    and "settings_ok kvs" "map_of kvs (bytes ''Version'') = Some v" "map_of kvs (bytes ''Land'') = Some l"
    and "length v < 128" "length l < 16"
  shows "photoplay_identify_ex img outsz bsz tsz = Some
    \<lparr>id_display = cut outsz (case release_name v of
        Some (name, named) \<Rightarrow> (if l \<noteq> [] \<and> \<not> named then name @ bytes '' '' @ l else name) | None \<Rightarrow> v),
     id_banner = cut bsz v, id_terr = cut tsz l\<rparr>"
  using assms(1-4) identify_built [OF assms(5-9)] by (simp add: photoplay_identify_ex_def)

text \<open>
  C14. An image is what its settings say: when the walk reaches a MAIN.SET holding a
  settings file with a version and a territory, the emulator shows the release name of
  the version with the territory behind it unless the name states it, shows the version
  itself for a release it does not know, and gives the dongles the version and the
  territory verbatim.
\<close>

theorem image_identified:
  assumes "pp_fat_open img = Some fs" "path_walk img fs main_set_path 0 0 = Some (clus, sz)"
    and "pp_read_chain img fs clus sz (256 * 1024) = Some (set_file kvs @ extra)" "settings_ok kvs"
    and "map_of kvs (bytes ''Version'') = Some v" "map_of kvs (bytes ''Land'') = Some l"
    and "v \<noteq> []" "length v < 64" "length l < 16"
  shows "photoplay_image_ident img 64 16 = (True, v, l) \<and>
    map_option id_display (photoplay_identify_ex img 96 64 16) =
      Some (take 95 (case release_name v of
        Some (name, named) \<Rightarrow> (if l \<noteq> [] \<and> \<not> named then name @ bytes '' '' @ l else name) | None \<Rightarrow> v))"
  using identify_ex_built [OF assms(1-3) _ assms(4-6)] assms(7-9)
  by (simp add: photoplay_image_ident_def cut_def)

definition demo_image :: image where
  "demo_image = volume
     [[], dir_entry (bytes ''FOTO       '') 0x10 2 0, dir_entry (bytes ''SETTINGS   '') 0x10 3 0,
      dir_entry (bytes ''MAIN    SET'') 0x20 4 44, set_file demo_settings]"

lemma length_set_file:
  "length (set_file kvs) = 6 + length (set_keys 0 kvs) + length (set_pool kvs)"
  by (simp add: set_file_def Let_def)

lemma length_dir_entry [simp]: "length (dir_entry name a c n) = length name + 21"
  by (simp add: dir_entry_def)

lemma demo_sectors:
  "\<forall>s \<in> set [[], dir_entry (bytes ''FOTO       '') 0x10 2 0, dir_entry (bytes ''SETTINGS   '') 0x10 3 0,
      dir_entry (bytes ''MAIN    SET'') 0x20 4 44, set_file demo_settings]. length s \<le> 512"
  by (simp add: bytes_def length_set_file demo_settings_facts)

lemma demo_finds:
  "pp_dir_find demo_image demo_fat 0 (bytes ''FOTO       '') = Some \<lparr>q_clus = 2, q_size = 0, q_isdir = True\<rparr>"
  "pp_dir_find demo_image demo_fat 2 (bytes ''SETTINGS   '') = Some \<lparr>q_clus = 3, q_size = 0, q_isdir = True\<rparr>"
  "pp_dir_find demo_image demo_fat 3 (bytes ''MAIN    SET'') = Some \<lparr>q_clus = 4, q_size = 44, q_isdir = False\<rparr>"
proof -
  have e: "pp_read_at demo_image 1024 32 = Some (dir_entry (bytes ''FOTO       '') 0x10 2 0)"
    "pp_read_at demo_image 1536 32 = Some (dir_entry (bytes ''SETTINGS   '') 0x10 3 0)"
    "pp_read_at demo_image 2048 32 = Some (dir_entry (bytes ''MAIN    SET'') 0x20 4 44)"
    unfolding demo_image_def
    using volume_reads [OF demo_sectors, of 1 1024 0 32] volume_reads [OF demo_sectors, of 2 1536 0 32]
      volume_reads [OF demo_sectors, of 3 2048 0 32]
    by (simp_all add: sector_def bytes_def)
  have run: "live_entries demo_image (off # offs) = e # live_entries demo_image offs"
    if "pp_read_at demo_image off 32 = Some e" "e ! 0 \<noteq> 0" "e ! 0 \<noteq> 0xE5" "e ! 11 \<noteq> 0x0F" for off offs e
    using that by simp
  have cl: "chain_clusters demo_image demo_fat GUARD c = c # chain_clusters demo_image demo_fat 65535 (pp_fat_next demo_image demo_fat c)"
    if "in_chain c" for c
    using that chain_clusters.simps(2) [of demo_image demo_fat 65535 c] by (simp add: GUARD_def)
  have offs: "dir_offs demo_image demo_fat 0 = 1024 # map (\<lambda>i. 1024 + i * 32) [1..<16]"
    by (simp add: dir_offs_def root_offs_def demo_fat_def upt_conv_Cons del: upt_rec_numeral)
  have coffs: "\<exists>offs. dir_offs demo_image demo_fat c = (1536 + (c - 2) * 512) # offs" if "in_chain c" "c \<noteq> 0" for c
    using that cl [OF that(1)]
    by (simp add: dir_offs_def cluster_offs_def cluster_off_def cluster_size_def demo_fat_def upt_conv_Cons
        del: upt_rec_numeral)
  have name: "take 11 (dir_entry n a c z) = n" "dir_entry n a c z ! 11 = a" "rd16 (dir_entry n a c z) 26 = unat c"
    "rd32 (dir_entry n a c z) 28 = unat z" "dir_entry n a c z ! 0 = n ! 0" if "length n = 11" for n a c z
    using that by (simp_all add: dir_entry_def rd16_def rd32_def nth_append)
  obtain o2 where o2: "dir_offs demo_image demo_fat 2 = 1536 # o2" using coffs [of 2] by (auto simp: in_chain_def)
  obtain o3 where o3: "dir_offs demo_image demo_fat 3 = 2048 # o3" using coffs [of 3] by (auto simp: in_chain_def)
  show "pp_dir_find demo_image demo_fat 0 (bytes ''FOTO       '') = Some \<lparr>q_clus = 2, q_size = 0, q_isdir = True\<rparr>"
    "pp_dir_find demo_image demo_fat 2 (bytes ''SETTINGS   '') = Some \<lparr>q_clus = 3, q_size = 0, q_isdir = True\<rparr>"
    "pp_dir_find demo_image demo_fat 3 (bytes ''MAIN    SET'') = Some \<lparr>q_clus = 4, q_size = 44, q_isdir = False\<rparr>"
    unfolding pp_dir_find_entries offs o2 o3
    using run [OF e(1)] run [OF e(2)] run [OF e(3)]
    by (simp_all add: name found_of_def bytes_def bit_simps)
qed

lemma demo_path: "path_walk demo_image demo_fat main_set_path 0 0 = Some (4, 44)"
  by (simp add: main_set_path_def demo_finds)

lemma demo_read: "pp_read_chain demo_image demo_fat 4 44 (256 * 1024) = Some (set_file demo_settings)"
proof -
  have l: "length (set_file demo_settings) = 44" by (simp add: length_set_file demo_settings_facts)
  have "pp_read_at demo_image 2560 44 = Some (set_file demo_settings)"
    unfolding demo_image_def using volume_reads [OF demo_sectors, of 4 2560 0 44] l by (simp add: sector_def)
  then have "read_chain_loop demo_image demo_fat 44 65536 4 [] = Some (set_file demo_settings)"
    using read_chain_loop.simps(2) [of demo_image demo_fat 44 65535 4 "[]"] l
    by (simp add: in_chain_def cluster_size_def cluster_off_def demo_fat_def read_chain_loop_full)
  then show ?thesis by (simp add: pp_read_chain_def GUARD_def)
qed

theorem image_identified_witness:
  "photoplay_image_ident demo_image 64 16 = (True, bytes ''Version 2007 (IT)'', bytes ''IT'')"
proof -
  have ok: "settings_ok demo_settings" using demo_settings_facts by (simp add: settings_ok_def)
  have m: "map_of demo_settings (bytes ''Version'') = Some (bytes ''Version 2007 (IT)'')"
    "map_of demo_settings (bytes ''Land'') = Some (bytes ''IT'')" by (simp_all add: demo_settings_def bytes_def)
  have o: "pp_fat_open demo_image = Some demo_fat" by (simp add: demo_image_def volume_opens)
  have r: "pp_read_chain demo_image demo_fat 4 44 (256 * 1024) = Some (set_file demo_settings @ [])"
    using demo_read by simp
  show ?thesis
    using image_identified [OF o demo_path r ok m] by (simp add: bytes_def)
qed

end
