(* ===== verification/Ring_Array.thy ===== *)
theory Ring_Array
  imports C_Strings
begin

text \<open>
  Arrays used as rings: the run of cells that starts at an index and wraps around the
  end, what appending behind such a run writes, and the next cell of it. The ring buffer
  of the emulator and the receive ring of the cabinet link rest on these facts.
\<close>

text \<open>A run of cells of a ring.\<close>

definition ring :: "'a list \<Rightarrow> nat \<Rightarrow> nat \<Rightarrow> 'a list" where
  "ring d h n = map (\<lambda>i. d ! ((h + i) mod length d)) [0..<n]"

lemma length_ring [simp]: "length (ring d h n) = n"
  by (simp add: ring_def)

lemma ring_0 [simp]: "ring d h 0 = []"
  by (simp add: ring_def)

lemma nth_ring [simp]: "i < n \<Longrightarrow> ring d h n ! i = d ! ((h + i) mod length d)"
  by (simp add: ring_def)

lemma ring_append: "ring d h (a + b) = ring d h a @ ring d ((h + a) mod length d) b"
proof (rule list_eq_nthI)
  fix i assume i: "i < length (ring d h a @ ring d ((h + a) mod length d) b)"
  show "ring d h (a + b) ! i = (ring d h a @ ring d ((h + a) mod length d) b) ! i"
  proof (cases "i < a")
    case False
    then obtain j where "i = a + j" by (metis le_Suc_ex not_less)
    then show ?thesis using i by (simp add: nth_append mod_simps add.assoc)
  qed (use i in \<open>simp add: nth_append\<close>)
qed simp

lemma ring_straight: "h + n \<le> length d \<Longrightarrow> ring d h n = take n (drop h d)"
  by (rule list_eq_nthI) auto

lemma mod_ring: "x < 2 * c \<Longrightarrow> x mod c = (if x < c then x else x - (c::nat))"
  by (simp add: le_mod_geq)

text \<open>
  Writing \<open>e\<close> behind the \<open>n\<close> bytes in the ring, straight or around its end, is
  appending it.
\<close>

definition ring_put :: "nat \<Rightarrow> 'a list \<Rightarrow> 'a list \<Rightarrow> 'a list" where
  "ring_put k e d =
     (if k + length e \<le> length d then put k e d
      else put 0 (drop (length d - k) e) (put k (take (length d - k) e) d))"

lemma length_ring_put [simp]: "k < length d \<Longrightarrow> length e \<le> length d \<Longrightarrow> length (ring_put k e d) = length d"
  by (simp add: ring_put_def)

lemma nth_ring_put:
  assumes "k < length d" "length e \<le> length d" "p < length d"
  shows "ring_put k e d ! p =
    (let q = (if k \<le> p then p - k else p + length d - k) in if q < length e then e ! q else d ! p)"
proof (cases "k + length e \<le> length d")
  case True
  then show ?thesis using assms by (auto simp: ring_put_def nth_put Let_def)
next
  case False
  then show ?thesis
    using assms by (auto simp: ring_put_def nth_put Let_def intro!: arg_cong [of _ _ "nth e"])
qed

lemma ring_put_append:
  assumes "h < length d" "n + length e \<le> length d" "k = (h + n) mod length d"
  shows "ring (ring_put k e d) h (n + length e) = ring d h n @ e"
proof (rule list_eq_nthI)
  have k: "k < length d" using assms by (metis mod_less_divisor not_less_zero gr0I)
  fix i assume "i < length (ring d h n @ e)"
  then have i: "i < n + length e" by simp
  define p where "p = (h + i) mod length d"
  have p: "p < length d" using k unfolding p_def by (metis mod_less_divisor not_less_zero gr0I)
  have pk: "p = (if h + i < length d then h + i else h + i - length d)"
    "k = (if h + n < length d then h + n else h + n - length d)"
    using assms(1,2) i by (simp_all add: p_def assms(3) mod_ring)
  have "ring (ring_put k e d) h (n + length e) ! i = ring_put k e d ! p"
    using i k assms(2) by (simp add: p_def)
  also have "\<dots> = (if n \<le> i then e ! (i - n) else d ! p)"
    using nth_ring_put [OF k _ p, of e] pk assms(1,2) i by (auto simp: Let_def split: if_splits)
  also have "\<dots> = (ring d h n @ e) ! i"
    using i by (auto simp: nth_append p_def)
  finally show "ring (ring_put k e d) h (n + length e) ! i = (ring d h n @ e) ! i" .
qed simp

lemma ring_Suc: "ring d h (Suc n) = d ! (h mod length d) # ring d (Suc h mod length d) n"
  using ring_append [of d h 1 n] by (simp add: ring_def)

lemma ring_next: "(i :: nat) < c \<Longrightarrow> (i + 1) mod c = (if i + 1 < c then i + 1 else 0)"
  by (cases "i + 1 = c") auto

text \<open>
  A ring with a read index \<open>r\<close> and a write index \<open>w\<close> that is empty when they meet and
  keeps one cell free: how many bytes it holds, and what one push and one pop do.
\<close>

definition ring_used :: "nat \<Rightarrow> nat \<Rightarrow> nat \<Rightarrow> nat" where
  "ring_used c r w = (w + c - r) mod c"

lemma ring_used_cases:
  assumes "r < c" "w < c"
  shows "ring_used c r w = (if r \<le> w then w - r else w + c - r)"
  using assms by (auto simp: ring_used_def mod_ring)

lemma ring_used_bounds:
  assumes "r < c" "w < c"
  shows "ring_used c r w < c" "ring_used c r w = 0 \<longleftrightarrow> r = w" "(w + 1) mod c = r \<longleftrightarrow> ring_used c r w = c - 1"
  using assms ring_used_cases [OF assms] unfolding ring_next [OF assms(2)] by auto

lemma ring_used_push:
  assumes "r < c" "w < c" "ring_used c r w < c - 1"
  shows "ring_used c r ((w + 1) mod c) = Suc (ring_used c r w)"
proof (cases "w + 1 < c")
  case True
  then show ?thesis using assms ring_used_cases [OF assms(1,2)] ring_used_cases [OF assms(1) True] by auto
next
  case False
  then have "w + 1 = c" using assms by simp
  then show ?thesis
    using assms ring_used_cases [OF assms(1,2)] ring_used_cases [of r c 0] by auto
qed

lemma ring_used_pop:
  assumes "r < c" "w < c" "ring_used c r w = Suc n"
  shows "ring_used c ((r + 1) mod c) w = n"
proof (cases "r + 1 < c")
  case True
  then show ?thesis using assms ring_used_cases [OF assms(1,2)] ring_used_cases [OF True assms(2)] by (auto split: if_splits)
next
  case False
  then have "r + 1 = c" using assms by simp
  then show ?thesis
    using assms ring_used_cases [OF assms(1,2)] ring_used_cases [of 0 c w] by (auto split: if_splits)
qed

lemma ring_push_items:
  assumes "length buf = c" "r < c" "w < c" "ring_used c r w < c - 1"
  shows "ring (buf[w := b]) r (Suc (ring_used c r w)) = ring buf r (ring_used c r w) @ [b]"
proof -
  have "w = (r + ring_used c r w) mod length buf"
    using assms ring_used_cases [OF assms(2,3)] by (auto simp: mod_ring split: if_splits)
  moreover have "buf[w := b] = ring_put w [b] buf"
    using assms by (simp add: ring_put_def put_def upd_conv_take_nth_drop)
  ultimately show ?thesis
    using ring_put_append [of r buf "ring_used c r w" "[b]" w] assms by simp
qed

lemma ring_pop_items:
  assumes "length buf = c" "r < c"
  shows "ring buf r (Suc n) = buf ! r # ring buf ((r + 1) mod c) n"
  using assms by (simp add: ring_Suc)

end
