(* ===== verification/Byte_Queue.thy ===== *)
theory Byte_Queue
  imports Prelude "HOL-Library.Monad_Syntax"
begin

text \<open>
  The interface of a bounded first-in first-out queue: what its users rely on, stated
  over the list it stands for, and the block transfers they build from it.
\<close>

locale byte_queue =
  fixes push :: "'q \<Rightarrow> 'b \<Rightarrow> 'q option"
    and pop :: "'q \<Rightarrow> ('b \<times> 'q) option"
    and items :: "'q \<Rightarrow> 'b list"
    and room :: "'q \<Rightarrow> nat"
    and ok :: "'q \<Rightarrow> bool"
  assumes push_room: "ok q \<Longrightarrow> 0 < room q \<Longrightarrow>
      \<exists>q'. push q b = Some q' \<and> ok q' \<and> items q' = items q @ [b] \<and> Suc (room q') = room q"
    and push_full: "ok q \<Longrightarrow> room q = 0 \<Longrightarrow> push q b = None"
    and pop_next: "ok q \<Longrightarrow> items q = b # bs \<Longrightarrow>
      \<exists>q'. pop q = Some (b, q') \<and> ok q' \<and> items q' = bs \<and> room q' = Suc (room q)"
    and pop_empty: "ok q \<Longrightarrow> items q = [] \<Longrightarrow> pop q = None"
begin

fun push_list :: "'q \<Rightarrow> 'b list \<Rightarrow> 'q option" where
  "push_list q [] = Some q"
| "push_list q (b # bs) = (case push q b of None \<Rightarrow> None | Some q' \<Rightarrow> push_list q' bs)"

fun pop_list :: "'q \<Rightarrow> nat \<Rightarrow> ('b list \<times> 'q) option" where
  "pop_list q 0 = Some ([], q)"
| "pop_list q (Suc n) =
     (case pop q of None \<Rightarrow> None
      | Some (b, q') \<Rightarrow> map_option (\<lambda>(bs, q'). (b # bs, q')) (pop_list q' n))"

lemma push_list_room:
  "ok q \<Longrightarrow> length bs \<le> room q \<Longrightarrow>
     \<exists>q'. push_list q bs = Some q' \<and> ok q' \<and> items q' = items q @ bs \<and> room q' = room q - length bs"
proof (induction bs arbitrary: q)
  case (Cons b bs)
  then obtain q' where q': "push q b = Some q'" "ok q'" "items q' = items q @ [b]" "Suc (room q') = room q"
    using push_room [of q b] by auto
  with Cons obtain q'' where "push_list q' bs = Some q''" "ok q''" "items q'' = items q' @ bs"
      "room q'' = room q' - length bs"
    by (metis Suc_le_mono length_Cons)
  with q' show ?case by (auto simp flip: q'(4))
qed simp

lemma push_list_full: "ok q \<Longrightarrow> room q < length bs \<Longrightarrow> push_list q bs = None"
proof (induction bs arbitrary: q)
  case (Cons b bs)
  show ?case
  proof (cases "room q = 0")
    case True
    then show ?thesis using Cons.prems push_full by simp
  next
    case False
    then obtain q' where "push q b = Some q'" "ok q'" "Suc (room q') = room q"
      using Cons.prems push_room [of q b] by auto
    then show ?thesis using Cons by (auto simp flip: \<open>Suc (room q') = room q\<close>)
  qed
qed simp

lemma push_list_append:
  "push_list q (bs @ cs) = (case push_list q bs of None \<Rightarrow> None | Some q' \<Rightarrow> push_list q' cs)"
  by (induction bs arbitrary: q) (simp_all split: option.split)

text \<open>Bytes leave in the order they entered.\<close>

lemma pop_list_items:
  "ok q \<Longrightarrow> n \<le> length (items q) \<Longrightarrow>
     \<exists>q'. pop_list q n = Some (take n (items q), q') \<and> ok q' \<and> items q' = drop n (items q) \<and> room q' = room q + n"
proof (induction n arbitrary: q)
  case (Suc n)
  then obtain b bs where "items q = b # bs" by (cases "items q") auto
  moreover from this obtain q' where "pop q = Some (b, q')" "ok q'" "items q' = bs" "room q' = Suc (room q)"
    using Suc.prems pop_next by blast
  moreover from this Suc obtain q'' where "pop_list q' n = Some (take n bs, q'')" "ok q''"
      "items q'' = drop n bs" "room q'' = room q' + n"
    using calculation(1) by (metis Suc_le_mono length_Cons)
  ultimately show ?case by auto
qed simp

end

end
