(* ===== verification/Fifo8.thy ===== *)
theory Fifo8
  imports Ring_Array Byte_Queue
begin

text \<open>
  The circular byte buffer of \<open>src/src/utils/fifo8.c\<close>: every operation with its
  32-bit counters and its assertions, a failed assertion being \<open>None\<close>; the invariant;
  and the queue of bytes the buffer stands for, which the operations refine.
\<close>

section \<open>The buffer\<close>

record fifo8 =
  f_data :: "u8 list"
  f_cap :: nat
  f_head :: nat
  f_num :: nat

text \<open>Additions and subtractions are on \<open>uint32_t\<close>.\<close>

definition u32_add :: "nat \<Rightarrow> nat \<Rightarrow> nat" where
  "u32_add a b = (a + b) mod 2 ^ 32"

definition u32_sub :: "nat \<Rightarrow> nat \<Rightarrow> nat" where
  "u32_sub a b = nat ((int a - int b) mod 2 ^ 32)"

definition fifo8_reset :: "fifo8 \<Rightarrow> fifo8" where
  "fifo8_reset f = f\<lparr>f_num := 0, f_head := 0\<rparr>"

definition fifo8_create :: "nat \<Rightarrow> fifo8" where
  "fifo8_create n = fifo8_reset \<lparr>f_data = replicate n 0, f_cap = n, f_head = 0, f_num = 0\<rparr>"

definition fifo8_push :: "fifo8 \<Rightarrow> u8 \<Rightarrow> fifo8 option" where
  "fifo8_push f d =
     (if f_num f < f_cap f
      then Some (f\<lparr>f_data := (f_data f)[u32_add (f_head f) (f_num f) mod f_cap f := d],
                   f_num := u32_add (f_num f) 1\<rparr>)
      else None)"

definition fifo8_push_all :: "fifo8 \<Rightarrow> u8 list \<Rightarrow> fifo8 option" where
  "fifo8_push_all f d =
     (let n = length d
      in if u32_add (f_num f) n \<le> f_cap f then
           (let start = u32_add (f_head f) (f_num f) mod f_cap f;
                avail = u32_sub (f_cap f) start
            in Some (f\<lparr>f_data := (if u32_add start n \<le> f_cap f then put start d (f_data f)
                                  else put 0 (drop avail d) (put start (take avail d) (f_data f))),
                       f_num := u32_add (f_num f) n\<rparr>))
         else None)"

definition fifo8_pop :: "fifo8 \<Rightarrow> (u8 \<times> fifo8) option" where
  "fifo8_pop f =
     (if f_num f > 0
      then Some (f_data f ! f_head f,
                 f\<lparr>f_head := u32_add (f_head f) 1 mod f_cap f, f_num := u32_sub (f_num f) 1\<rparr>)
      else None)"

text \<open>The pointer that is handed out is the run of bytes it may be read for.\<close>

definition fifo8_peekpop_buf :: "fifo8 \<Rightarrow> nat \<Rightarrow> bool \<Rightarrow> (u8 list \<times> nat \<times> fifo8) option" where
  "fifo8_peekpop_buf f mx do_pop =
     (if mx > 0 \<and> mx \<le> f_num f then
        (let n = min (u32_sub (f_cap f) (f_head f)) mx
         in Some (take n (drop (f_head f) (f_data f)), n,
                  if do_pop then f\<lparr>f_head := u32_add (f_head f) n mod f_cap f, f_num := u32_sub (f_num f) n\<rparr>
                  else f))
      else None)"

definition fifo8_peek_bufptr :: "fifo8 \<Rightarrow> nat \<Rightarrow> (u8 list \<times> nat \<times> fifo8) option" where
  "fifo8_peek_bufptr f mx = fifo8_peekpop_buf f mx False"

definition fifo8_pop_bufptr :: "fifo8 \<Rightarrow> nat \<Rightarrow> (u8 list \<times> nat \<times> fifo8) option" where
  "fifo8_pop_bufptr f mx = fifo8_peekpop_buf f mx True"

definition fifo8_is_empty :: "fifo8 \<Rightarrow> bool" where
  "fifo8_is_empty f \<longleftrightarrow> f_num f = 0"

definition fifo8_is_full :: "fifo8 \<Rightarrow> bool" where
  "fifo8_is_full f \<longleftrightarrow> f_num f = f_cap f"

definition fifo8_num_free :: "fifo8 \<Rightarrow> nat" where
  "fifo8_num_free f = u32_sub (f_cap f) (f_num f)"

definition fifo8_num_used :: "fifo8 \<Rightarrow> nat" where
  "fifo8_num_used f = f_num f"

definition fifo8_pop_buf :: "fifo8 \<Rightarrow> nat \<Rightarrow> (u8 list \<times> nat \<times> fifo8) option" where
  "fifo8_pop_buf f destlen =
     (if destlen = 0 then Some ([], 0, f)
      else case fifo8_pop_bufptr f destlen of
        None \<Rightarrow> None
      | Some (buf1, n1, f) \<Rightarrow>
          (let len = min (u32_sub destlen n1) (fifo8_num_used f)
           in if len = 0 then Some (buf1, n1, f)
              else case fifo8_pop_bufptr f len of
                None \<Rightarrow> None
              | Some (buf2, n2, f) \<Rightarrow> Some (buf1 @ buf2, u32_add n1 n2, f)))"

definition fifo8_drop :: "fifo8 \<Rightarrow> nat \<Rightarrow> fifo8 option" where
  "fifo8_drop f len =
     (case fifo8_pop_buf f len of
        None \<Rightarrow> None
      | Some (_, n, f) \<Rightarrow> (if u32_sub len n = 0 then Some f else None))"

section \<open>The queue it stands for\<close>

definition fifo8_wf :: "fifo8 \<Rightarrow> bool" where
  "fifo8_wf f \<longleftrightarrow> length (f_data f) = f_cap f \<and> 0 < f_cap f \<and> f_cap f \<le> 2 ^ 31 \<and>
     f_head f < f_cap f \<and> f_num f \<le> f_cap f"

definition fifo8_items :: "fifo8 \<Rightarrow> u8 list" where
  "fifo8_items f = ring (f_data f) (f_head f) (f_num f)"

lemma u32_add_small: "a + b < 2 ^ 32 \<Longrightarrow> u32_add a b = a + b"
  by (simp add: u32_add_def)

lemma u32_sub_small: "b \<le> a \<Longrightarrow> a < 2 ^ 32 \<Longrightarrow> u32_sub a b = a - b"
  by (simp add: u32_sub_def flip: of_nat_diff)

lemma fifo8_num_used_items [simp]: "length (fifo8_items f) = f_num f"
  by (simp add: fifo8_items_def)

lemma fifo8_create_wf [wf_intros]: "0 < n \<Longrightarrow> n \<le> 2 ^ 31 \<Longrightarrow> fifo8_wf (fifo8_create n)"
  by (simp add: fifo8_wf_def fifo8_create_def fifo8_reset_def)

lemma fifo8_create_items [simp]: "fifo8_items (fifo8_create n) = []"
  by (simp add: fifo8_items_def fifo8_create_def fifo8_reset_def)

lemma fifo8_reset_queue:
  "fifo8_wf f \<Longrightarrow> fifo8_wf (fifo8_reset f) \<and> fifo8_items (fifo8_reset f) = [] \<and> f_cap (fifo8_reset f) = f_cap f"
  by (simp add: fifo8_wf_def fifo8_items_def fifo8_reset_def)

lemma fifo8_push_all_queue:
  assumes "fifo8_wf f" "f_num f + length d \<le> f_cap f"
  shows "\<exists>f'. fifo8_push_all f d = Some f' \<and> fifo8_wf f' \<and> fifo8_items f' = fifo8_items f @ d \<and> f_cap f' = f_cap f"
proof -
  let ?k = "(f_head f + f_num f) mod f_cap f"
  let ?f' = "f\<lparr>f_data := ring_put ?k d (f_data f), f_num := f_num f + length d\<rparr>"
  have b: "f_head f + f_num f < 2 ^ 32" "f_num f + length d < 2 ^ 32" "?k < f_cap f" "?k + length d < 2 ^ 32"
    "f_cap f < 2 ^ 32"
  proof -
    have w: "f_head f < f_cap f" "f_cap f \<le> 2 ^ 31" "f_num f + length d \<le> f_cap f"
      using assms by (simp_all add: fifo8_wf_def)
    then show k: "?k < f_cap f" by (intro mod_less_divisor) simp
    have "?k + length d < f_cap f + f_cap f" using k w by (intro add_less_le_mono) simp_all
    moreover have "f_cap f + f_cap f \<le> 2 ^ 32" using w(2) by simp
    ultimately show "?k + length d < 2 ^ 32" by (rule order.strict_trans2)
    show "f_head f + f_num f < 2 ^ 32" "f_num f + length d < 2 ^ 32" "f_cap f < 2 ^ 32" using w by simp_all
  qed
  then have "fifo8_push_all f d = Some ?f'"
    using assms by (simp add: fifo8_push_all_def ring_put_def u32_add_small u32_sub_small fifo8_wf_def Let_def)
  moreover have "fifo8_wf ?f'" using assms b by (simp add: fifo8_wf_def)
  moreover have "fifo8_items ?f' = fifo8_items f @ d"
    using ring_put_append [of "f_head f" "f_data f" "f_num f" d ?k] assms
    by (simp add: fifo8_items_def fifo8_wf_def)
  ultimately show ?thesis by fastforce
qed

lemma fifo8_push_all_one:
  assumes "fifo8_wf f"
  shows "fifo8_push_all f [d] = fifo8_push f d"
proof -
  define k where "k = (f_head f + f_num f) mod f_cap f"
  have "k < f_cap f" using assms unfolding k_def fifo8_wf_def by (intro mod_less_divisor) simp
  moreover have "u32_add (f_head f) (f_num f) mod f_cap f = k" if "f_num f < f_cap f"
    using assms that by (simp add: k_def u32_add_small fifo8_wf_def)
  ultimately show ?thesis
    using assms by (auto simp: fifo8_push_all_def fifo8_push_def u32_add_small fifo8_wf_def put_def Let_def
      upd_conv_take_nth_drop)
qed

lemma fifo8_push_queue:
  assumes "fifo8_wf f" "f_num f < f_cap f"
  shows "\<exists>f'. fifo8_push f d = Some f' \<and> fifo8_wf f' \<and> fifo8_items f' = fifo8_items f @ [d] \<and> f_cap f' = f_cap f"
  using fifo8_push_all_queue [OF assms(1), of "[d]"] assms(2) fifo8_push_all_one [OF assms(1)] by simp

text \<open>Taking \<open>n\<close> bytes off the front: what every pop does to the counters.\<close>

definition advance :: "fifo8 \<Rightarrow> nat \<Rightarrow> fifo8" where
  "advance f n = f\<lparr>f_head := (f_head f + n) mod f_cap f, f_num := f_num f - n\<rparr>"

lemma advance_queue:
  assumes "fifo8_wf f" "n \<le> f_num f"
  shows "fifo8_wf (advance f n) \<and> fifo8_items (advance f n) = drop n (fifo8_items f) \<and>
    f_cap (advance f n) = f_cap f \<and> f_num (advance f n) = f_num f - n"
proof -
  have "fifo8_items f = ring (f_data f) (f_head f) n @ fifo8_items (advance f n)"
    using assms ring_append [of "f_data f" "f_head f" n "f_num f - n"]
    by (simp add: fifo8_items_def advance_def fifo8_wf_def)
  moreover have "f_num f - n \<le> f_cap f" using assms unfolding fifo8_wf_def by linarith
  ultimately show ?thesis using assms by (simp add: fifo8_wf_def advance_def)
qed

lemma advance_advance: "advance (advance f m) n = advance f (m + n)"
  by (simp add: advance_def mod_simps add.assoc)

lemma u32_advance:
  assumes "fifo8_wf f" "n \<le> f_num f"
  shows "f\<lparr>f_head := u32_add (f_head f) n mod f_cap f, f_num := u32_sub (f_num f) n\<rparr> = advance f n"
  using assms by (simp add: advance_def fifo8_wf_def u32_add_small u32_sub_small)

lemma fifo8_pop_queue:
  assumes "fifo8_wf f"
  shows "fifo8_pop f = (case fifo8_items f of [] \<Rightarrow> None | b # bs \<Rightarrow> Some (b, advance f 1))"
proof (cases "f_num f")
  case 0
  then show ?thesis by (simp add: fifo8_pop_def fifo8_items_def)
next
  case (Suc n)
  then show ?thesis
    using assms u32_advance [OF assms, of 1]
    by (simp add: fifo8_pop_def fifo8_items_def ring_Suc) (simp add: fifo8_wf_def)
qed

text \<open>The run handed out by a peek or a pop is the front of the queue, up to the ring's end.\<close>

definition run_len :: "fifo8 \<Rightarrow> nat \<Rightarrow> nat" where
  "run_len f m = min (f_cap f - f_head f) m"

lemma fifo8_peekpop_queue:
  assumes "fifo8_wf f"
  shows "fifo8_peekpop_buf f m do_pop =
    (if 0 < m \<and> m \<le> f_num f
     then Some (take (run_len f m) (fifo8_items f), run_len f m, if do_pop then advance f (run_len f m) else f)
     else None)"
proof (cases "0 < m \<and> m \<le> f_num f")
  case True
  have r: "run_len f m \<le> f_num f" "f_head f + run_len f m \<le> length (f_data f)"
    using True assms by (auto simp: run_len_def fifo8_wf_def)
  have "fifo8_items f = ring (f_data f) (f_head f) (run_len f m) @ drop (run_len f m) (fifo8_items f)"
    using r ring_append [of "f_data f" "f_head f" "run_len f m" "f_num f - run_len f m"]
    by (simp add: fifo8_items_def)
  then have "take (run_len f m) (fifo8_items f) = ring (f_data f) (f_head f) (run_len f m)"
    by (metis append_eq_conv_conj length_ring)
  moreover have "u32_sub (f_cap f) (f_head f) = f_cap f - f_head f"
    using assms by (simp add: fifo8_wf_def u32_sub_small)
  ultimately show ?thesis
    using True u32_advance [OF assms r(1)] ring_straight [OF r(2)]
    by (simp add: fifo8_peekpop_buf_def Let_def) (simp add: run_len_def)
qed (auto simp: fifo8_peekpop_buf_def)

text \<open>A block pop takes at most two runs and delivers the front of the queue whole.\<close>

lemma fifo8_pop_buf_queue:
  assumes "fifo8_wf f"
  shows "fifo8_pop_buf f n =
    (if n \<le> f_num f then Some (take n (fifo8_items f), n, advance f n) else None)"
proof (cases "n = 0")
  case True
  have "advance f 0 = f" using assms by (simp add: advance_def fifo8_wf_def)
  then show ?thesis using True by (simp add: fifo8_pop_buf_def)
next
  case n: False
  show ?thesis
  proof (cases "n \<le> f_num f")
    case False
    then show ?thesis using n assms
      by (simp add: fifo8_pop_buf_def fifo8_pop_bufptr_def fifo8_peekpop_queue)
  next
    case True
    define r where "r = run_len f n"
    define g where "g = advance f r"
    have r: "r \<le> n" "0 < r" "n < 2 ^ 32" using n True assms by (auto simp: r_def run_len_def fifo8_wf_def)
    have g: "fifo8_wf g" "f_num g = f_num f - r" "fifo8_items g = drop r (fifo8_items f)" "f_cap g = f_cap f"
      using advance_queue [OF assms, of r] r True by (simp_all add: g_def)
    have one: "fifo8_pop_bufptr f n = Some (take r (fifo8_items f), r, g)"
      using n True assms by (simp add: fifo8_pop_bufptr_def fifo8_peekpop_queue r_def g_def)
    have rest: "min (u32_sub n r) (fifo8_num_used g) = n - r"
      using r True by (simp add: u32_sub_small fifo8_num_used_def g)
    show ?thesis
    proof (cases "r = n")
      case True
      then show ?thesis using n one rest \<open>n \<le> f_num f\<close> by (simp add: fifo8_pop_buf_def g_def)
    next
      case False
      then have h: "f_head g = 0" "r = f_cap f - f_head f"
        using assms r by (auto simp: g_def advance_def r_def run_len_def fifo8_wf_def min_def split: if_splits)
      then have "run_len g (n - r) = n - r"
        using True r assms by (auto simp: run_len_def g(4) fifo8_wf_def)
      then have "fifo8_pop_bufptr g (n - r) = Some (take (n - r) (drop r (fifo8_items f)), n - r, advance f n)"
        using False r True fifo8_peekpop_queue [OF g(1), of "n - r" True]
        by (simp add: fifo8_pop_bufptr_def g(2,3)) (simp add: g_def advance_advance)
      moreover have "take r (fifo8_items f) @ take (n - r) (drop r (fifo8_items f)) = take n (fifo8_items f)"
        using r by (simp flip: take_add)
      ultimately show ?thesis
        using n False True r one rest by (simp add: fifo8_pop_buf_def u32_add_small)
    qed
  qed
qed

lemma fifo8_drop_queue:
  assumes "fifo8_wf f"
  shows "fifo8_drop f n = (if n \<le> f_num f then Some (advance f n) else None)"
  using assms by (simp add: fifo8_drop_def fifo8_pop_buf_queue u32_sub_def)

lemma fifo8_num_free_room: "fifo8_wf f \<Longrightarrow> fifo8_num_free f = f_cap f - f_num f"
  by (simp add: fifo8_num_free_def u32_sub_small fifo8_wf_def)

interpretation fq: byte_queue fifo8_push fifo8_pop fifo8_items fifo8_num_free fifo8_wf
proof
  fix f b
  assume "fifo8_wf f" "0 < fifo8_num_free f"
  then obtain f' where "fifo8_push f b = Some f'" "fifo8_wf f'" "fifo8_items f' = fifo8_items f @ [b]" "f_cap f' = f_cap f"
    using fifo8_push_queue [of f b] by (auto simp: fifo8_num_free_room)
  moreover from this have "f_num f' = Suc (f_num f)" by (metis fifo8_num_used_items length_append_singleton)
  ultimately show "\<exists>f'. fifo8_push f b = Some f' \<and> fifo8_wf f' \<and> fifo8_items f' = fifo8_items f @ [b] \<and>
      Suc (fifo8_num_free f') = fifo8_num_free f"
    using \<open>0 < fifo8_num_free f\<close> \<open>fifo8_wf f\<close> by (simp add: fifo8_num_free_room)
next
  fix f b bs
  assume f: "fifo8_wf f" "fifo8_items f = b # bs"
  then have "0 < f_num f" by (metis fifo8_num_used_items length_greater_0_conv list.distinct(1))
  moreover have "f_num f \<le> f_cap f" using f by (simp add: fifo8_wf_def)
  ultimately show "\<exists>f'. fifo8_pop f = Some (b, f') \<and> fifo8_wf f' \<and> fifo8_items f' = bs \<and>
      fifo8_num_free f' = Suc (fifo8_num_free f)"
    using f fifo8_pop_queue [OF f(1)] advance_queue [OF f(1), of 1] by (simp add: fifo8_num_free_room)
qed (auto simp: fifo8_num_free_room fifo8_push_def fifo8_pop_queue fifo8_wf_def)

section \<open>Refinement of the queue\<close>

lemma fifo8_push_all_full:
  "fifo8_wf f \<Longrightarrow> length d < 2 ^ 31 \<Longrightarrow> f_cap f < f_num f + length d \<Longrightarrow> fifo8_push_all f d = None"
  by (simp add: fifo8_push_all_def u32_add_small fifo8_wf_def Let_def)

lemma fifo8_push_all_items:
  assumes "fifo8_wf f" "length d < 2 ^ 31"
  shows "map_option fifo8_items (fifo8_push_all f d) =
    (if length (fifo8_items f) + length d \<le> f_cap f then Some (fifo8_items f @ d) else None)"
  using fifo8_push_all_queue [OF assms(1), of d] fifo8_push_all_full [OF assms] by auto

lemma fifo8_push_items:
  assumes "fifo8_wf f"
  shows "map_option fifo8_items (fifo8_push f b) =
    (if length (fifo8_items f) < f_cap f then Some (fifo8_items f @ [b]) else None)"
  using fifo8_push_queue [OF assms, of b] by (auto simp: fifo8_push_def)

lemma fifo8_pop_items:
  assumes "fifo8_wf f"
  shows "map_option (\<lambda>(b, f). (b, fifo8_items f)) (fifo8_pop f) =
    (case fifo8_items f of [] \<Rightarrow> None | b # bs \<Rightarrow> Some (b, bs))"
proof (cases "fifo8_items f")
  case (Cons b bs)
  then have "1 \<le> f_num f" by (metis fifo8_num_used_items length_Cons le_add1 plus_1_eq_Suc)
  then show ?thesis using Cons advance_queue [OF assms, of 1] by (simp add: fifo8_pop_queue [OF assms])
qed (simp add: fifo8_pop_queue [OF assms])

lemma fifo8_pop_buf_items:
  assumes "fifo8_wf f"
  shows "map_option (\<lambda>(bs, k, f). (bs, k, fifo8_items f)) (fifo8_pop_buf f n) =
    (if n \<le> length (fifo8_items f) then Some (take n (fifo8_items f), n, drop n (fifo8_items f)) else None)"
  using advance_queue [OF assms, of n] by (simp add: fifo8_pop_buf_queue [OF assms])



text \<open>Every operation, as steps between buffers.\<close>

inductive fifo8_step :: "fifo8 \<Rightarrow> fifo8 \<Rightarrow> bool" where
  pushes: "fifo8_push f d = Some f' \<Longrightarrow> fifo8_step f f'"
| pushes_all: "length ds < 2 ^ 31 \<Longrightarrow> fifo8_push_all f ds = Some f' \<Longrightarrow> fifo8_step f f'"
| pops: "fifo8_pop f = Some (d, f') \<Longrightarrow> fifo8_step f f'"
| pops_run: "fifo8_pop_bufptr f n = Some (ds, k, f') \<Longrightarrow> fifo8_step f f'"
| pops_buf: "fifo8_pop_buf f n = Some (ds, k, f') \<Longrightarrow> fifo8_step f f'"
| drops: "fifo8_drop f n = Some f' \<Longrightarrow> fifo8_step f f'"
| resets: "fifo8_step f (fifo8_reset f)"

lemma fifo8_step_wf:
  assumes "fifo8_step f f'" "fifo8_wf f"
  shows "fifo8_wf f' \<and> f_cap f' = f_cap f"
  using assms(1)
proof cases
  case (pushes d)
  then show ?thesis using fifo8_push_queue [OF assms(2), of d] by (auto simp: fifo8_push_def split: if_splits)
next
  case (pushes_all ds)
  then have "f_num f + length ds \<le> f_cap f"
    using fifo8_push_all_full [OF assms(2), of ds] by (cases "f_num f + length ds \<le> f_cap f") auto
  then show ?thesis using pushes_all fifo8_push_all_queue [OF assms(2), of ds] by auto
next
  case (pops d)
  then obtain b bs where i: "fifo8_items f = b # bs" "f' = advance f 1"
    using fifo8_pop_queue [OF assms(2)] by (auto split: list.splits)
  then have "1 \<le> f_num f" by (metis fifo8_num_used_items length_Cons le_add1 plus_1_eq_Suc)
  then show ?thesis using i advance_queue [OF assms(2)] by blast
next
  case (pops_run n ds k)
  then have "f' = advance f (run_len f n)" "run_len f n \<le> f_num f"
    using fifo8_peekpop_queue [OF assms(2), of n True]
    by (auto simp: fifo8_pop_bufptr_def run_len_def split: if_splits)
  then show ?thesis using advance_queue [OF assms(2)] by blast
next
  case (pops_buf n ds k)
  then show ?thesis using advance_queue [OF assms(2)] fifo8_pop_buf_queue [OF assms(2)] by (auto split: if_splits)
next
  case (drops n)
  then show ?thesis using advance_queue [OF assms(2)] fifo8_drop_queue [OF assms(2)] by (auto split: if_splits)
next
  case resets
  then show ?thesis using fifo8_reset_queue [OF assms(2)] by simp
qed

text \<open>
  No sequence of operations on a created buffer leaves its bounds: the head stays an
  index of the array, the count stays at most the capacity, and neither counter wraps
  at 32 bits, for every capacity up to 2 GiB.
\<close>

theorem fifo8_stays_in_bounds:
  assumes "0 < n" "n \<le> 2 ^ 31" "fifo8_step\<^sup>*\<^sup>* (fifo8_create n) f"
  shows "f_cap f = n \<and> length (f_data f) = n \<and> f_head f < n \<and> f_num f \<le> n \<and> f_head f + f_num f < 2 ^ 32"
proof -
  have "fifo8_wf f \<and> f_cap f = n"
    using assms(3)
  proof induction
    case base
    then show ?case using fifo8_create_wf [OF assms(1,2)] by (simp add: fifo8_create_def fifo8_reset_def)
  qed (use fifo8_step_wf in blast)
  then show ?thesis by (auto simp: fifo8_wf_def)
qed

theorem fifo8_stays_in_bounds_witness:
  "f_head (fifo8_reset (fifo8_create 256)) < 256"
  by (rule fifo8_stays_in_bounds [THEN conjunct2, THEN conjunct2, THEN conjunct1])
    (auto intro: fifo8_step.resets)

end
