(* ===== verification/Igo8_Reader.thy ===== *)
theory Igo8_Reader
  imports C_Strings LCG_Codec Fifo8 Byte_Source
begin

text \<open>
  The smart-card reader of the 2008 generation, \<open>src/src/device/dongle_igo8.c\<close>: its two
  wire codecs, the record cipher, the frame assembler, the card, the paced reply queue
  and the record built from the disk image; and the guest at the other end of the wire.

  The serial port is a parameter: whether its receiver can take a byte is the argument
  of \<open>sc_write_to_host\<close>. The timers decide only when \<open>sc_gap\<close> and \<open>sc_write_to_host\<close>
  run, so every schedule of the two is a sequence of their applications.
\<close>

section \<open>The codecs\<close>

definition SC_RECORD :: nat where "SC_RECORD = 100"
definition SC_IN_MAX :: nat where "SC_IN_MAX = 192"
definition SC_LCG_MUL :: u32 where "SC_LCG_MUL = 0x08088405"
definition SC_LCG_SEED :: u32 where "SC_LCG_SEED = 0x01BB253A"

lemmas sc_consts = SC_RECORD_def SC_IN_MAX_def

record sc_tx =
  tx_n0 :: u8
  tx_n1 :: u8
  tx_n2 :: u8
  tx_n3 :: u8
  tx_half :: bool

definition sc_tx_seed :: "u8 \<Rightarrow> u8 \<Rightarrow> sc_tx" where
  "sc_tx_seed lo hi =
     \<lparr>tx_n0 = lo AND 0x0F, tx_n1 = drop_bit 4 lo AND 0x0F, tx_n2 = hi AND 0x0F,
      tx_n3 = drop_bit 4 hi AND 0x0F, tx_half = False\<rparr>"

definition sc_tx_next :: "sc_tx \<Rightarrow> u8 \<times> sc_tx" where
  "sc_tx_next s =
     (if tx_half s then (tx_n0 s OR push_bit 4 (tx_n1 s), s\<lparr>tx_half := False\<rparr>)
      else
        (let s = s\<lparr>tx_n0 := tx_n0 s + 1\<rparr>;
             s = (if tx_n0 s > 0x0F then s\<lparr>tx_n0 := tx_n0 s AND 0x0F, tx_n1 := (tx_n1 s + 1) AND 0x0F\<rparr> else s);
             s = s\<lparr>tx_n3 := tx_n3 s XOR tx_n0 s\<rparr>;
             s = s\<lparr>tx_n0 := tx_n0 s XOR tx_n1 s\<rparr>;
             s = s\<lparr>tx_n1 := tx_n1 s XOR tx_n2 s\<rparr>;
             s = s\<lparr>tx_n2 := tx_n2 s XOR tx_n3 s, tx_half := True\<rparr>
         in (tx_n2 s OR push_bit 4 (tx_n3 s), s)))"

record sc_rx =
  rx_a :: u8
  rx_b :: u8

definition sc_rx_seed :: "u8 \<Rightarrow> u8 \<Rightarrow> sc_rx" where
  "sc_rx_seed a b = \<lparr>rx_a = a, rx_b = b\<rparr>"

definition sc_rx_apply :: "sc_rx \<Rightarrow> u8 \<Rightarrow> u8 \<times> sc_rx" where
  "sc_rx_apply c x =
     (let old_b = rx_b c;
          x = x XOR rx_a c;
          c = c\<lparr>rx_a := rx_b c + 0x25\<rparr>;
          c = (if old_b < 0x1E then c\<lparr>rx_a := 0xE9\<rparr> else c);
          c = (if rx_a c > 0xAE then c\<lparr>rx_b := 0x17\<rparr> else c);
          x = x XOR rx_b c;
          c = c\<lparr>rx_b := rx_a c + 0x75\<rparr>;
          c = (if rx_a c < 0x38 then c\<lparr>rx_b := 0x39\<rparr> else c);
          c = (if rx_b c > 0x7B then c\<lparr>rx_a := 0xD5\<rparr> else c)
      in (x, c))"

definition sc_lcg :: "u8 list \<Rightarrow> u8 list" where
  "sc_lcg src = fst (run_codec (lcg_step SC_LCG_MUL) SC_LCG_SEED src)"

text \<open>All three are stream codecs (the record cipher by \<open>LCG_Codec\<close>), so both ends of the wire decode what the other encodes.\<close>

definition tx_step :: "sc_tx \<Rightarrow> u8 \<Rightarrow> u8 \<times> sc_tx" where
  "tx_step s x = (x XOR fst (sc_tx_next s), snd (sc_tx_next s))"

interpretation tx: stream_codec tx_step "\<lambda>s. fst (sc_tx_next s)" "\<lambda>s. snd (sc_tx_next s)"
  by unfold_locales (simp add: tx_step_def)

interpretation rx: stream_codec sc_rx_apply "\<lambda>c. fst (sc_rx_apply c 0)" "\<lambda>c. snd (sc_rx_apply c 0)"
  by unfold_locales (simp add: sc_rx_apply_def Let_def xor.assoc)

lemma sc_lcg_inverse [simp]: "sc_lcg (sc_lcg src) = src"
  by (simp add: sc_lcg_def lcg.run_inverse)

lemma length_sc_lcg [simp]: "length (sc_lcg src) = length src"
  by (simp add: sc_lcg_def)

section \<open>The reader\<close>

record sc =
  sc_resp :: fifo8
  sc_tx :: sc_tx
  sc_rx :: sc_rx
  sc_in :: "u8 list"
  sc_n :: nat
  sc_want :: nat
  sc_record :: "u8 list"

fun sc_reply :: "sc \<Rightarrow> u8 list \<Rightarrow> sc option" where
  "sc_reply sc [] = Some sc"
| "sc_reply sc (p # ps) =
     (let (x, rx) = sc_rx_apply (sc_rx sc) p
      in case fifo8_push (sc_resp sc) x of
           None \<Rightarrow> None
         | Some q \<Rightarrow> sc_reply (sc\<lparr>sc_resp := q, sc_rx := rx\<rparr>) ps)"

definition reply_frame :: "u8 list \<Rightarrow> u8 list" where
  "reply_frame body =
     (let f = [0x00, 0x00, word_of_nat (length body)] @ body
      in f @ [foldl (XOR) 0 f])"

definition sc_reply_frame :: "sc \<Rightarrow> u8 list \<Rightarrow> sc option" where
  "sc_reply_frame sc body =
     (if length body > SC_IN_MAX - 4 then Some sc else sc_reply sc (reply_frame body))"

definition sc_card :: "sc \<Rightarrow> u8 list \<Rightarrow> nat \<Rightarrow> sc option" where
  "sc_card sc apdu len =
     (if len < 2 then sc_reply_frame sc [0x6D, 0x00]
      else if apdu ! 1 = 0xA4 then sc_reply_frame sc (replicate 22 0 @ [0x90, 0x00])
      else if apdu ! 1 = 0x20 then sc_reply_frame sc [0x90, 0x00]
      else if apdu ! 1 = 0xB0 then sc_reply_frame sc (sc_lcg (sc_record sc) @ [0x90, 0x00])
      else sc_reply_frame sc [0x6D, 0x00])"

definition sc_frame :: "sc \<Rightarrow> sc option" where
  "sc_frame sc =
     (let r2 = sc_in sc ! 2; r3 = sc_in sc ! 3
      in if sc_in sc ! 4 = 0x00 then
           (let cmd = sc_in sc ! 5;
                sc = (if cmd = 0x04 then sc\<lparr>sc_rx := sc_rx_seed 0xAB 0xD9\<rparr> else sc\<lparr>sc_rx := sc_rx_seed r2 r3\<rparr>)
            in if cmd = 0x0A then sc_reply sc (bytes ''PEEPEEBOX'') else Some sc)
         else
           (let sc = sc\<lparr>sc_rx := sc_rx_seed r2 r3\<rparr>;
                ctrl = sc_in sc ! 6; len = unat (sc_in sc ! 7)
            in if ctrl AND 0x80 \<noteq> 0 then sc_reply_frame sc [sc_in sc ! 8]
               else if 8 + len \<le> SC_IN_MAX then sc_card sc (drop 8 (sc_in sc)) len
               else Some sc))"

definition sc_put :: "sc \<Rightarrow> u8 \<Rightarrow> sc" where
  "sc_put sc d =
     (let sc = (if sc_n sc < 2 then
                  (let sc = sc\<lparr>sc_in := (sc_in sc)[sc_n sc := d]\<rparr>
                   in if sc_n sc = 1 then sc\<lparr>sc_tx := sc_tx_seed (sc_in sc ! 0) (sc_in sc ! 1)\<rparr> else sc)
                else
                  (let (k, tx) = sc_tx_next (sc_tx sc)
                   in sc\<lparr>sc_in := (sc_in sc)[sc_n sc := d XOR k], sc_tx := tx\<rparr>))
      in sc\<lparr>sc_n := sc_n sc + 1\<rparr>)"

definition sc_size :: "sc \<Rightarrow> sc" where
  "sc_size sc =
     (if sc_n sc = 5 then
        (let want = (if sc_in sc ! 4 = 0x00 then 8 else 5 + unat (sc_in sc ! 4))
         in if want > SC_IN_MAX then sc\<lparr>sc_n := 0, sc_want := 0\<rparr> else sc\<lparr>sc_want := want\<rparr>)
      else sc)"

definition sc_write :: "sc \<Rightarrow> u8 \<Rightarrow> sc option" where
  "sc_write sc d =
     (let sc = (if sc_n sc \<ge> SC_IN_MAX then sc\<lparr>sc_n := 0, sc_want := 0\<rparr> else sc);
          sc = sc_size (sc_put sc d)
      in if sc_want sc \<noteq> 0 \<and> sc_n sc \<ge> sc_want sc
         then map_option (\<lambda>sc. sc\<lparr>sc_n := 0, sc_want := 0\<rparr>) (sc_frame sc)
         else Some sc)"

definition sc_gap :: "sc \<Rightarrow> sc" where
  "sc_gap sc = sc\<lparr>sc_n := 0, sc_want := 0\<rparr>"

text \<open>One tick of the pacing timer: the byte handed to the serial port, if any.\<close>

definition sc_write_to_host :: "bool \<Rightarrow> sc \<Rightarrow> (u8 option \<times> sc) option" where
  "sc_write_to_host room sc =
     (if \<not> room then Some (None, sc)
      else if fifo8_num_used (sc_resp sc) \<noteq> 0 then
        (case fifo8_pop (sc_resp sc) of
           None \<Rightarrow> None
         | Some (b, q) \<Rightarrow> Some (Some b, sc\<lparr>sc_resp := q\<rparr>))
      else Some (None, sc))"

section \<open>The record\<close>

definition sc_title_from_banner :: "u8 list \<Rightarrow> u8 list" where
  "sc_title_from_banner b =
     (let tok = (case strstr b (bytes ''Version '') of
                   None \<Rightarrow> []
                 | Some v \<Rightarrow> take 15 (takeWhile (\<lambda>c. c \<noteq> 0x20 \<and> c \<noteq> 0x28) (drop 8 v)));
          tok = (if length tok > 2 \<and> tok ! 0 = 0x32 \<and> tok ! 1 = 0x30 then drop 2 tok else tok)
      in take 15 (if tok \<noteq> [] then bytes ''IGO '' @ tok else bytes ''IGO 08''))"

definition sc_build_record :: "u8 list \<Rightarrow> u8 list \<Rightarrow> u8 list" where
  "sc_build_record banner terr =
     (let code = take 2 (if terr \<noteq> [] then terr else bytes ''ES'');
          title = sc_title_from_banner banner
      in put 0x13 (take 8 title) (put 3 code (put 0 (bytes ''IGO'') (replicate SC_RECORD 0))))"

definition sc_init :: "u8 list \<Rightarrow> u8 list \<Rightarrow> sc" where
  "sc_init banner terr =
     \<lparr>sc_resp = fifo8_create 256, sc_tx = \<lparr>tx_n0 = 0, tx_n1 = 0, tx_n2 = 0, tx_n3 = 0, tx_half = False\<rparr>,
      sc_rx = sc_rx_seed 0xAB 0xD9, sc_in = replicate SC_IN_MAX 0, sc_n = 0, sc_want = 0,
      sc_record = sc_build_record banner terr\<rparr>"

section \<open>The invariant\<close>

text \<open>
  The buffer has its size, the fill count stays below the frame that is expected, and
  that frame fits the buffer.
\<close>

definition sc_wf :: "sc \<Rightarrow> bool" where
  "sc_wf sc \<longleftrightarrow> fifo8_wf (sc_resp sc) \<and> f_cap (sc_resp sc) = 256 \<and> length (sc_in sc) = SC_IN_MAX \<and> length (sc_record sc) = SC_RECORD \<and>
     (if sc_want sc = 0 then sc_n sc < 5 else 5 \<le> sc_n sc \<and> sc_n sc < sc_want sc \<and> sc_want sc \<le> SC_IN_MAX)"

definition sc_room :: "sc \<Rightarrow> nat" where
  "sc_room sc = fifo8_num_free (sc_resp sc)"

definition sc_queue :: "sc \<Rightarrow> u8 list" where
  "sc_queue sc = fifo8_items (sc_resp sc)"

lemma sc_reply_pushes:
  "sc_reply sc ps =
     map_option (\<lambda>q. sc\<lparr>sc_resp := q, sc_rx := snd (run_codec sc_rx_apply (sc_rx sc) ps)\<rparr>)
       (fq.push_list (sc_resp sc) (fst (run_codec sc_rx_apply (sc_rx sc) ps)))"
  by (induction ps arbitrary: sc) (simp_all add: split_beta Let_def split: option.split)

lemma sc_reply_room:
  assumes "fifo8_wf (sc_resp sc)" "length ps \<le> sc_room sc"
  shows "\<exists>q. sc_reply sc ps = Some (sc\<lparr>sc_resp := q, sc_rx := snd (run_codec sc_rx_apply (sc_rx sc) ps)\<rparr>) \<and>
    fifo8_wf q \<and> fifo8_items q = sc_queue sc @ fst (run_codec sc_rx_apply (sc_rx sc) ps) \<and>
    fifo8_num_free q = sc_room sc - length ps"
  using fq.push_list_room [of "sc_resp sc" "fst (run_codec sc_rx_apply (sc_rx sc) ps)"] assms
  by (auto simp: sc_reply_pushes sc_room_def sc_queue_def)

lemma sc_reply_full:
  "fifo8_wf (sc_resp sc) \<Longrightarrow> sc_room sc < length ps \<Longrightarrow> sc_reply sc ps = None"
  by (simp add: sc_reply_pushes sc_room_def fq.push_list_full)

section \<open>Frames on the wire\<close>

text \<open>
  What the guest puts on the wire for a plain frame: the nonce halves in the clear, the
  rest under the stream they seed. Byte 4 fixes the length.
\<close>

definition frame_len :: "u8 list \<Rightarrow> nat" where
  "frame_len p = (if p ! 4 = 0 then 8 else 5 + unat (p ! 4))"

definition frame_ok :: "u8 list \<Rightarrow> bool" where
  "frame_ok p \<longleftrightarrow> length p = frame_len p \<and> frame_len p \<le> SC_IN_MAX"

definition guest_wire :: "u8 list \<Rightarrow> u8 list" where
  "guest_wire p = take 2 p @ fst (run_codec tx_step (sc_tx_seed (p ! 0) (p ! 1)) (drop 2 p))"

fun sc_writes :: "sc \<Rightarrow> u8 list \<Rightarrow> sc option" where
  "sc_writes sc [] = Some sc"
| "sc_writes sc (d # ds) = (case sc_write sc d of None \<Rightarrow> None | Some sc \<Rightarrow> sc_writes sc ds)"

lemma sc_writes_append:
  "sc_writes sc (xs @ ys) = (case sc_writes sc xs of None \<Rightarrow> None | Some sc \<Rightarrow> sc_writes sc ys)"
  by (induction xs arbitrary: sc) (simp_all split: option.split)

text \<open>The reader holding the first \<open>k\<close> bytes of the frame.\<close>

definition tx_after :: "u8 list \<Rightarrow> nat \<Rightarrow> sc_tx" where
  "tx_after p j = ((\<lambda>s. snd (sc_tx_next s)) ^^ j) (sc_tx_seed (p ! 0) (p ! 1))"

definition sc_holding :: "sc \<Rightarrow> u8 list \<Rightarrow> nat \<Rightarrow> sc" where
  "sc_holding sc p k =
     sc\<lparr>sc_in := put 0 (take k p) (sc_in sc), sc_n := k, sc_want := (if k < 5 then 0 else frame_len p),
        sc_tx := (if k < 2 then sc_tx sc else tx_after p (k - 2))\<rparr>"

lemma frame_ok_length: "frame_ok p \<Longrightarrow> 6 \<le> length p \<and> length p \<le> SC_IN_MAX"
  by (simp add: frame_ok_def frame_len_def sc_consts unat_gt_0 Suc_le_eq)

lemma length_guest_wire [simp]: "length (guest_wire p) = length p"
  by (simp add: guest_wire_def)

lemma nth_guest_wire:
  "k < length p \<Longrightarrow> guest_wire p ! k = (if k < 2 then p ! k else p ! k XOR fst (sc_tx_next (tx_after p (k - 2))))"
  by (auto simp: guest_wire_def nth_append tx.run_nth tx_after_def numeral_2_eq_2 Suc_diff_Suc)

lemma put_take_Suc:
  "k < length p \<Longrightarrow> k < length xs \<Longrightarrow> (put 0 (take k p) xs)[k := p ! k] = put 0 (take (Suc k) p) xs"
  by (simp add: put_def take_Suc_conv_app_nth list_update_append flip: Cons_nth_drop_Suc)

lemma nth_put_front: "i < k \<Longrightarrow> k \<le> length p \<Longrightarrow> put 0 (take k p) xs ! i = p ! i"
  by (simp add: put_def nth_append)

lemma sc_put_holding:
  assumes "frame_ok p" "k < length p" "length (sc_in sc) = SC_IN_MAX"
  shows "sc_put (sc_holding sc p k) (guest_wire p ! k) =
    (sc_holding sc p (Suc k))\<lparr>sc_want := (if k < 5 then 0 else frame_len p)\<rparr>"
proof -
  have k: "k < length (sc_in sc)" using assms frame_ok_length [OF assms(1)] by simp
  have w: "guest_wire p ! k = (if k < 2 then p ! k else p ! k XOR fst (sc_tx_next (tx_after p (k - 2))))"
    by (rule nth_guest_wire [OF assms(2)])
  have step: "tx_after p (Suc j) = snd (sc_tx_next (tx_after p j))" for j by (simp add: tx_after_def)
  consider "k = 0" | "k = 1" | "2 \<le> k" by linarith
  then show ?thesis
  proof cases
    case 1
    then show ?thesis using put_take_Suc [OF assms(2) k] w
      by (simp add: sc_put_def sc_holding_def Let_def)
  next
    case 2
    have "(put 0 (take (Suc 1) p) (sc_in sc)) ! 0 = p ! 0" "(put 0 (take (Suc 1) p) (sc_in sc)) ! 1 = p ! 1"
      using 2 assms(2) by (simp_all add: nth_put_front del: take_Suc)
    then show ?thesis using 2 put_take_Suc [OF assms(2) k] w
      by (simp add: sc_put_def sc_holding_def Let_def tx_after_def)
  next
    case 3
    then have "Suc k - 2 = Suc (k - 2)" by simp
    then show ?thesis using 3 put_take_Suc [OF assms(2) k] w
      by (simp add: sc_put_def sc_holding_def Let_def split_beta step)
  qed
qed

lemma sc_size_holding:
  assumes "frame_ok p" "k < length p"
  shows "sc_size ((sc_holding sc p (Suc k))\<lparr>sc_want := (if k < 5 then 0 else frame_len p)\<rparr>) = sc_holding sc p (Suc k)"
proof (cases "k = 4")
  case True
  have "put 0 (take 5 p) (sc_in sc) ! 4 = p ! 4" using assms True by (intro nth_put_front) simp_all
  then show ?thesis using True assms(1)
    by (auto simp: sc_size_def sc_holding_def frame_ok_def frame_len_def Let_def split: if_splits)
qed (auto simp: sc_size_def sc_holding_def)

lemma sc_write_holding:
  assumes "frame_ok p" "k < length p" "length (sc_in sc) = SC_IN_MAX"
  shows "sc_write (sc_holding sc p k) (guest_wire p ! k) =
    (if Suc k = length p then map_option sc_gap (sc_frame (sc_holding sc p (length p)))
     else Some (sc_holding sc p (Suc k)))"
proof -
  have l: "6 \<le> length p" "length p \<le> SC_IN_MAX" "frame_len p = length p"
    using frame_ok_length [OF assms(1)] assms(1) by (simp_all add: frame_ok_def)
  have "\<not> SC_IN_MAX \<le> sc_n (sc_holding sc p k)" using assms(2) l by (simp add: sc_holding_def)
  moreover have "sc_size (sc_put (sc_holding sc p k) (guest_wire p ! k)) = sc_holding sc p (Suc k)"
    using sc_put_holding [OF assms] sc_size_holding [OF assms(1,2), of sc] by simp
  moreover have "sc_want (sc_holding sc p (Suc k)) \<noteq> 0 \<and> sc_want (sc_holding sc p (Suc k)) \<le> sc_n (sc_holding sc p (Suc k))
      \<longleftrightarrow> Suc k = length p"
    using l assms(2) by (auto simp: sc_holding_def)
  moreover have "(\<lambda>sc. sc\<lparr>sc_n := 0, sc_want := 0\<rparr>) = sc_gap" by (simp add: fun_eq_iff sc_gap_def)
  ultimately show ?thesis by (auto simp: sc_write_def Let_def)
qed

lemma sc_writes_holding:
  assumes "frame_ok p" "k < length p" "length (sc_in sc) = SC_IN_MAX"
  shows "sc_writes (sc_holding sc p k) (drop k (guest_wire p)) =
    map_option sc_gap (sc_frame (sc_holding sc p (length p)))"
  using assms(2)
proof (induction "length p - Suc k" arbitrary: k)
  case 0
  then have "Suc k = length p" by simp
  moreover from this have "drop k (guest_wire p) = [guest_wire p ! k]"
    using Cons_nth_drop_Suc [of k "guest_wire p"] by simp
  ultimately show ?case using sc_write_holding [OF assms(1) 0(2) assms(3)] by (simp split: option.split)
next
  case (Suc n)
  then have "Suc k < length p" by simp
  moreover have "drop k (guest_wire p) = guest_wire p ! k # drop (Suc k) (guest_wire p)"
    using Suc.prems by (simp add: Cons_nth_drop_Suc)
  ultimately show ?case
    using Suc sc_write_holding [OF assms(1) Suc.prems assms(3)] by simp
qed

lemma sc_writes_frame:
  assumes "frame_ok p" "length (sc_in sc) = SC_IN_MAX" "sc_n sc = 0" "sc_want sc = 0"
  shows "sc_writes sc (guest_wire p) = map_option sc_gap (sc_frame (sc_holding sc p (length p)))"
proof -
  have "sc_holding sc p 0 = sc" using assms by (simp add: sc_holding_def put_def)
  moreover have "0 < length p" using frame_ok_length [OF assms(1)] by linarith
  ultimately show ?thesis using sc_writes_holding [OF assms(1) _ assms(2), of 0] by simp
qed

section \<open>What a frame is answered with\<close>

text \<open>
  The specification of the answer in terms of the plain frame: the card's three
  instructions, the link echo, the reader's hello, and silence for the rest.
\<close>

definition card_body :: "u8 list \<Rightarrow> nat \<Rightarrow> u8 \<Rightarrow> u8 list" where
  "card_body rec len ins =
     (if len < 2 then [0x6D, 0x00]
      else if ins = 0xA4 then replicate 22 0 @ [0x90, 0x00]
      else if ins = 0x20 then [0x90, 0x00]
      else if ins = 0xB0 then sc_lcg rec @ [0x90, 0x00]
      else [0x6D, 0x00])"

definition frame_answer :: "u8 list \<Rightarrow> u8 list \<Rightarrow> u8 list" where
  "frame_answer rec p =
     (if p ! 4 = 0 then (if p ! 5 = 0x0A then bytes ''PEEPEEBOX'' else [])
      else if p ! 6 AND 0x80 \<noteq> 0 then reply_frame [p ! 8]
      else if 8 + unat (p ! 7) \<le> SC_IN_MAX then reply_frame (card_body rec (unat (p ! 7)) (p ! 9))
      else [])"

definition frame_seed :: "u8 list \<Rightarrow> sc_rx" where
  "frame_seed p = (if p ! 4 = 0 \<and> p ! 5 = 0x04 then sc_rx_seed 0xAB 0xD9 else sc_rx_seed (p ! 2) (p ! 3))"

text \<open>The frame carries the bytes the reader looks at; the guest's frames do.\<close>

definition frame_complete :: "u8 list \<Rightarrow> bool" where
  "frame_complete p \<longleftrightarrow> frame_ok p \<and> (p ! 4 \<noteq> 0 \<longrightarrow> 10 \<le> length p)"

lemma length_card_body: "length rec = SC_RECORD \<Longrightarrow> length (card_body rec len ins) \<le> 102"
  by (simp add: card_body_def sc_consts)

lemma length_reply_frame [simp]: "length (reply_frame body) = length body + 4"
  by (simp add: reply_frame_def Let_def)

lemma length_frame_answer: "length rec = SC_RECORD \<Longrightarrow> length (frame_answer rec p) \<le> 106"
  using length_card_body [of rec] by (simp add: frame_answer_def bytes_def)

lemma sc_card_eq:
  assumes "length (sc_record sc) = SC_RECORD"
  shows "sc_card sc apdu len = sc_reply sc (reply_frame (card_body (sc_record sc) len (apdu ! 1)))"
  using assms by (simp add: sc_card_def sc_reply_frame_def card_body_def sc_consts)

lemma sc_frame_holding:
  assumes "frame_complete p" "sc_wf sc"
  shows "sc_frame (sc_holding sc p (length p)) =
    sc_reply ((sc_holding sc p (length p))\<lparr>sc_rx := frame_seed p\<rparr>) (frame_answer (sc_record sc) p)"
proof -
  let ?h = "sc_holding sc p (length p)"
  have l: "6 \<le> length p" "frame_ok p" "p ! 4 \<noteq> 0 \<Longrightarrow> 10 \<le> length p"
    using assms(1) frame_ok_length [of p] by (auto simp: frame_complete_def)
  have i: "sc_in ?h ! j = p ! j" if "j < length p" for j
    using that nth_put_front [of j "length p" p] by (simp add: sc_holding_def)
  have r: "sc_record ?h = sc_record sc" "length (sc_in ?h) = SC_IN_MAX"
    using assms(2) frame_ok_length [OF l(2)] by (simp_all add: sc_holding_def sc_wf_def)
  show ?thesis
  proof (cases "p ! 4 = 0")
    case True
    then have "8 \<le> length p" using l(2) by (simp add: frame_ok_def frame_len_def)
    then show ?thesis using True i by (auto simp: sc_frame_def frame_answer_def frame_seed_def Let_def)
  next
    case False
    then have ten: "10 \<le> length p" using l(3) by simp
    then have "drop 8 (sc_in ?h) ! 1 = p ! 9" using i [of 9] r by (simp add: sc_consts)
    then show ?thesis using False i ten r assms(2)
      by (auto simp: sc_frame_def frame_answer_def frame_seed_def Let_def sc_card_eq sc_wf_def)
        (simp add: sc_reply_frame_def sc_consts)
  qed
qed

lemma sc_gap_simps [simp]:
  "sc_resp (sc_gap sc) = sc_resp sc" "sc_in (sc_gap sc) = sc_in sc" "sc_record (sc_gap sc) = sc_record sc"
  "sc_n (sc_gap sc) = 0" "sc_want (sc_gap sc) = 0" "sc_room (sc_gap sc) = sc_room sc" "sc_queue (sc_gap sc) = sc_queue sc"
  by (simp_all add: sc_gap_def sc_room_def sc_queue_def)

lemma sc_gap_wf [wf_intros]: "sc_wf sc \<Longrightarrow> sc_wf (sc_gap sc)"
  by (simp add: sc_wf_def)

lemma sc_room_queue: "sc_wf sc \<Longrightarrow> sc_room sc = 256 - length (sc_queue sc)"
  by (simp add: sc_room_def sc_queue_def sc_wf_def fifo8_num_free_room)

text \<open>The reader between frames, with the answer queued behind what was waiting.\<close>

lemma reader_answers:
  assumes "sc_wf sc" "frame_complete p" "length (frame_answer (sc_record sc) p) \<le> sc_room sc"
  shows "\<exists>sc'. sc_writes (sc_gap sc) (guest_wire p) = Some sc' \<and> sc_wf sc' \<and> sc_n sc' = 0 \<and>
    sc_record sc' = sc_record sc \<and>
    sc_queue sc' = sc_queue sc @ fst (run_codec sc_rx_apply (frame_seed p) (frame_answer (sc_record sc) p))"
proof -
  let ?g = "sc_gap sc" and ?a = "frame_answer (sc_record sc) p"
  let ?h = "(sc_holding ?g p (length p))\<lparr>sc_rx := frame_seed p\<rparr>"
  have h: "sc_resp ?h = sc_resp sc" "sc_queue ?h = sc_queue sc" "sc_room ?h = sc_room sc" "sc_rx ?h = frame_seed p"
    "length (sc_in ?h) = SC_IN_MAX" "sc_record ?h = sc_record sc"
    using assms(1,2) frame_ok_length [of p]
    by (simp_all add: sc_holding_def sc_queue_def sc_room_def sc_wf_def frame_complete_def)
  have w: "sc_writes ?g (guest_wire p) = map_option sc_gap (sc_reply ?h ?a)"
    using sc_writes_frame [of p ?g] sc_frame_holding [OF assms(2) sc_gap_wf [OF assms(1)]] assms(1,2)
    by (simp add: frame_complete_def sc_wf_def)
  obtain q where q: "sc_reply ?h ?a = Some (?h\<lparr>sc_resp := q, sc_rx := snd (run_codec sc_rx_apply (frame_seed p) ?a)\<rparr>)"
      "fifo8_wf q" "fifo8_items q = sc_queue sc @ fst (run_codec sc_rx_apply (frame_seed p) ?a)"
      "fifo8_num_free q = sc_room sc - length ?a"
    using sc_reply_room [of ?h ?a] assms(1,3) h by (auto simp: sc_wf_def)
  define s' where "s' = sc_gap (?h\<lparr>sc_resp := q, sc_rx := snd (run_codec sc_rx_apply (frame_seed p) ?a)\<rparr>)"
  have f: "sc_resp s' = q" "sc_in s' = sc_in ?h" "sc_record s' = sc_record sc" "sc_n s' = 0" "sc_want s' = 0"
    using h by (simp_all add: s'_def)
  have "f_cap q = 256"
  proof -
    have "f_cap q = f_num q + fifo8_num_free q" using q(2) by (simp add: fifo8_num_free_room fifo8_wf_def)
    moreover have "f_num q = length (sc_queue sc) + length ?a" using q(3) by (metis fifo8_num_used_items length_append length_run_codec)
    moreover have "length (sc_queue sc) \<le> 256" using assms(1) by (simp add: sc_queue_def sc_wf_def fifo8_wf_def)
    ultimately show ?thesis using q(4) assms(3) sc_room_queue [OF assms(1)] by simp
  qed
  then have "sc_wf s'" using assms(1) f h q(2) by (simp add: sc_wf_def)
  moreover have "sc_queue s' = sc_queue sc @ fst (run_codec sc_rx_apply (frame_seed p) ?a)"
    using f q(3) by (simp add: sc_queue_def)
  moreover have "sc_writes ?g (guest_wire p) = Some s'" using w q(1) by (simp add: s'_def)
  ultimately show ?thesis using f by blast
qed

section \<open>The invariant of the reader\<close>

lemma sc_reply_frame_short:
  "\<exists>ps. sc_reply_frame sc body = sc_reply sc ps \<and> length ps \<le> length body + 4"
proof (cases "length body > SC_IN_MAX - 4")
  case True
  then have "sc_reply_frame sc body = sc_reply sc []" by (simp add: sc_reply_frame_def)
  then show ?thesis by (metis le0 list.size(3))
qed (auto simp: sc_reply_frame_def)

lemma sc_frame_short:
  assumes "length (sc_record sc) = SC_RECORD"
  shows "\<exists>rx ps. sc_frame sc = sc_reply (sc\<lparr>sc_rx := rx\<rparr>) ps \<and> length ps \<le> 106"
proof -
  have none: "\<exists>rx ps. Some (sc\<lparr>sc_rx := r\<rparr>) = sc_reply (sc\<lparr>sc_rx := rx\<rparr>) ps \<and> length ps \<le> 106" for r
    by (intro exI [of _ r] exI [of _ "[]"]) simp
  have framed: "\<exists>rx ps. sc_reply_frame (sc\<lparr>sc_rx := r\<rparr>) body = sc_reply (sc\<lparr>sc_rx := rx\<rparr>) ps \<and> length ps \<le> 106"
    if "length body \<le> 102" for r body
  proof -
    obtain ps where "sc_reply_frame (sc\<lparr>sc_rx := r\<rparr>) body = sc_reply (sc\<lparr>sc_rx := r\<rparr>) ps" "length ps \<le> length body + 4"
      using sc_reply_frame_short [of "sc\<lparr>sc_rx := r\<rparr>" body] by blast
    then show ?thesis using that by (intro exI [of _ r] exI [of _ ps]) simp
  qed
  have card: "sc_card (sc\<lparr>sc_rx := r\<rparr>) apdu len = sc_reply_frame (sc\<lparr>sc_rx := r\<rparr>) (card_body (sc_record sc) len (apdu ! 1))"
    for r apdu len by (simp add: sc_card_def card_body_def)
  have hello: "\<exists>rx ps. sc_reply (sc\<lparr>sc_rx := r\<rparr>) (bytes ''PEEPEEBOX'') = sc_reply (sc\<lparr>sc_rx := rx\<rparr>) ps \<and> length ps \<le> 106" for r
    by (intro exI [of _ r] exI [of _ "bytes ''PEEPEEBOX''"]) (simp add: bytes_def)
  show ?thesis
    unfolding sc_frame_def Let_def card
    by (simp only: sc.simps split: if_split)
      (intro conjI impI, (rule none hello framed, (simp add: length_card_body [OF assms])?)+)
qed

text \<open>Any byte, in any state: the assembler keeps its bounds and the queue asks for 106 bytes of room at most.\<close>

lemma sc_put_wf:
  assumes "sc_wf sc"
  shows "sc_resp (sc_put sc d) = sc_resp sc \<and> sc_record (sc_put sc d) = sc_record sc \<and>
    length (sc_in (sc_put sc d)) = SC_IN_MAX \<and> sc_n (sc_put sc d) = Suc (sc_n sc) \<and> sc_want (sc_put sc d) = sc_want sc"
  using assms by (simp add: sc_put_def sc_wf_def Let_def split_beta)

lemma sc_n_bound: "sc_wf sc \<Longrightarrow> sc_n sc < SC_IN_MAX"
  by (auto simp: sc_wf_def sc_consts split: if_splits)

text \<open>After the byte: mid-frame, or a frame is complete.\<close>

lemma sc_size_put_wf:
  assumes "sc_wf sc" and t_def: "t = sc_size (sc_put sc d)"
  shows "sc_resp t = sc_resp sc \<and> sc_record t = sc_record sc \<and> length (sc_in t) = SC_IN_MAX \<and>
    (sc_wf t \<or> sc_want t \<noteq> 0 \<and> sc_want t \<le> sc_n t)"
proof -
  let ?p = "sc_put sc d"
  note p = sc_put_wf [OF assms(1), of d]
  have u: "sc_in ?p ! 4 \<noteq> 0 \<Longrightarrow> 0 < unat (sc_in ?p ! 4)" by (simp add: unat_gt_0)
  show ?thesis
  proof (cases "sc_n ?p = 5")
    case True
    then have "sc_want sc = 0" using p assms(1) by (auto simp: sc_wf_def split: if_splits)
    then show ?thesis using True p u assms(1)
      by (auto simp: t_def sc_size_def sc_wf_def sc_consts Let_def)
  next
    case False
    then show ?thesis using p assms(1) by (auto simp: t_def sc_size_def sc_wf_def split: if_splits)
  qed
qed

lemma sc_write_wf:
  assumes "sc_wf sc"
  shows "(106 \<le> sc_room sc \<longrightarrow> sc_write sc d \<noteq> None) \<and>
    (\<forall>sc'. sc_write sc d = Some sc' \<longrightarrow> sc_wf sc' \<and> sc_record sc' = sc_record sc)"
proof -
  define t where "t = sc_size (sc_put sc d)"
  note t = sc_size_put_wf [OF assms t_def]
  have w: "sc_write sc d =
      (if sc_want t \<noteq> 0 \<and> sc_want t \<le> sc_n t then map_option sc_gap (sc_frame t) else Some t)"
    using sc_n_bound [OF assms] by (simp add: sc_write_def t_def sc_gap_def [abs_def] Let_def)
  show ?thesis
  proof (cases "sc_want t \<noteq> 0 \<and> sc_want t \<le> sc_n t")
    case False
    then show ?thesis using w t by auto
  next
    case True
    obtain rx ps where f: "sc_frame t = sc_reply (t\<lparr>sc_rx := rx\<rparr>) ps" "length ps \<le> 106"
      using sc_frame_short [of t] t assms by (auto simp: sc_wf_def)
    have r: "sc_room (t\<lparr>sc_rx := rx\<rparr>) = sc_room sc" "fifo8_wf (sc_resp (t\<lparr>sc_rx := rx\<rparr>))"
      using t assms by (simp_all add: sc_room_def sc_wf_def)
    show ?thesis
    proof (cases "length ps \<le> sc_room sc")
      case False
      then show ?thesis using w True f r sc_reply_full [OF r(2), of ps] by auto
    next
      case enough: True
      then obtain q where q: "sc_frame t = Some (t\<lparr>sc_resp := q, sc_rx := snd (run_codec sc_rx_apply rx ps)\<rparr>)" "fifo8_wf q"
          "fifo8_items q = sc_queue (t\<lparr>sc_rx := rx\<rparr>) @ fst (run_codec sc_rx_apply rx ps)"
          "fifo8_num_free q = sc_room sc - length ps"
        using sc_reply_room [OF r(2), of ps] unfolding f(1) r(1) by auto
      have "sc_queue (t\<lparr>sc_rx := rx\<rparr>) = sc_queue sc" using t by (simp add: sc_queue_def)
      then have "f_num q = length (sc_queue sc) + length ps"
        using q(3) by (metis fifo8_num_used_items length_append length_run_codec)
      moreover have "f_cap q = f_num q + fifo8_num_free q" using q(2) by (simp add: fifo8_num_free_room fifo8_wf_def)
      moreover have "length (sc_queue sc) \<le> 256" using assms by (simp add: sc_queue_def sc_wf_def fifo8_wf_def)
      ultimately have "f_cap q = 256" using q(4) enough sc_room_queue [OF assms] by simp
      then show ?thesis using w True q t assms by (auto simp: sc_wf_def)
    qed
  qed
qed

section \<open>The reply on its way to the host\<close>

lemma tick_eq:
  assumes "sc_wf sc"
  shows "sc_write_to_host room sc =
    (if room then case sc_queue sc of [] \<Rightarrow> Some (None, sc)
                  | b # bs \<Rightarrow> Some (Some b, sc\<lparr>sc_resp := advance (sc_resp sc) 1\<rparr>)
     else Some (None, sc))"
proof -
  have w: "fifo8_wf (sc_resp sc)" using assms by (simp add: sc_wf_def)
  have n: "0 < f_num (sc_resp sc) \<longleftrightarrow> fifo8_items (sc_resp sc) \<noteq> []"
    by (metis fifo8_num_used_items length_greater_0_conv)
  show ?thesis
    using fifo8_pop_queue [OF w]
    by (auto simp: n sc_write_to_host_def fifo8_num_used_def sc_queue_def split: list.split)
qed

lemma tick_queue:
  assumes "sc_wf sc" "sc_queue sc = b # bs" "sc' = sc\<lparr>sc_resp := advance (sc_resp sc) 1\<rparr>"
  shows "sc_wf sc' \<and> sc_queue sc' = bs \<and> sc_record sc' = sc_record sc"
proof -
  have "1 \<le> f_num (sc_resp sc)"
    using assms(2) by (metis fifo8_num_used_items length_Cons le_add1 plus_1_eq_Suc sc_queue_def)
  then show ?thesis
    using advance_queue [of "sc_resp sc" 1] assms by (simp add: sc_wf_def sc_queue_def)
qed

text \<open>The pacing timer firing over and over; each time the port may or may not have room.\<close>

fun sc_ticks :: "bool list \<Rightarrow> sc \<Rightarrow> (u8 list \<times> sc) option" where
  "sc_ticks [] sc = Some ([], sc)"
| "sc_ticks (r # rs) sc =
     (case sc_write_to_host r sc of
        None \<Rightarrow> None
      | Some (b, sc) \<Rightarrow>
          map_option (\<lambda>(bs, sc). (case b of None \<Rightarrow> bs | Some b \<Rightarrow> b # bs, sc)) (sc_ticks rs sc))"

lemma sc_ticks_deliver:
  "sc_wf sc \<Longrightarrow> \<exists>sc'. sc_ticks rs sc = Some (take (count_list rs True) (sc_queue sc), sc') \<and> sc_wf sc' \<and>
     sc_queue sc' = drop (count_list rs True) (sc_queue sc) \<and> sc_record sc' = sc_record sc"
proof (induction rs arbitrary: sc)
  case (Cons r rs)
  show ?case
  proof (cases "r \<and> sc_queue sc \<noteq> []")
    case True
    then obtain b bs where q: "sc_queue sc = b # bs" by (cases "sc_queue sc") auto
    define t where "t = sc\<lparr>sc_resp := advance (sc_resp sc) 1\<rparr>"
    have t: "sc_wf t" "sc_queue t = bs" "sc_record t = sc_record sc"
      using tick_queue [OF Cons.prems q t_def] by simp_all
    have "sc_write_to_host r sc = Some (Some b, t)"
      using tick_eq [OF Cons.prems, of r] True q by (simp add: t_def)
    then show ?thesis using Cons.IH [OF t(1)] t q True by auto
  next
    case False
    then have "sc_write_to_host r sc = Some (None, sc)"
      using tick_eq [OF Cons.prems, of r] by (cases "sc_queue sc") auto
    then show ?thesis using Cons.IH [OF Cons.prems] False by auto
  qed
qed auto

text \<open>With room at every tick the reader is a source of bytes that goes idle when the reply is out.\<close>

definition sc_ready_tick :: "sc \<Rightarrow> u8 option \<times> sc" where
  "sc_ready_tick sc = (case sc_write_to_host True sc of None \<Rightarrow> (None, sc) | Some r \<Rightarrow> r)"

interpretation reader: byte_source sc_ready_tick "\<lambda>sc. map Some (sc_queue sc)" sc_wf None
proof
  fix sc :: sc and b bs
  assume a: "sc_wf sc" "map Some (sc_queue sc) = b # bs"
  then obtain c cs where "sc_queue sc = c # cs" "b = Some c" "bs = map Some cs" by (cases "sc_queue sc") auto
  then show "fst (sc_ready_tick sc) = b \<and> map Some (sc_queue (snd (sc_ready_tick sc))) = bs"
    using tick_queue [OF a(1) _ refl] by (simp add: sc_ready_tick_def tick_eq [OF a(1)])
next
  fix sc :: sc
  assume a: "sc_wf sc"
  then show "sc_wf (snd (sc_ready_tick sc))"
    using tick_queue [OF a _ refl] by (cases "sc_queue sc") (simp_all add: sc_ready_tick_def tick_eq)
qed (simp add: sc_ready_tick_def tick_eq)

section \<open>The reader and the guest\<close>

text \<open>What the guest makes of the bytes that arrive: the reply codec under the seed of its frame.\<close>

definition guest_decode :: "u8 list \<Rightarrow> u8 list \<Rightarrow> u8 list" where
  "guest_decode p bs = fst (run_codec sc_rx_apply (frame_seed p) bs)"

definition guest_exchange :: "u8 list \<Rightarrow> bool list \<Rightarrow> sc \<Rightarrow> (u8 list \<times> sc) option" where
  "guest_exchange p rs sc =
     (case sc_writes (sc_gap sc) (guest_wire p) of
        None \<Rightarrow> None
      | Some sc \<Rightarrow> map_option (\<lambda>(bs, sc). (guest_decode p bs, sc)) (sc_ticks rs sc))"

lemma exchange_answered:
  assumes "sc_wf sc" "sc_queue sc = []" "frame_complete p"
    and "length (frame_answer (sc_record sc) p) \<le> count_list rs True"
  shows "\<exists>sc'. guest_exchange p rs sc = Some (frame_answer (sc_record sc) p, sc') \<and> sc_wf sc' \<and>
    sc_queue sc' = [] \<and> sc_record sc' = sc_record sc"
proof -
  let ?a = "frame_answer (sc_record sc) p"
  have "length ?a \<le> 106" by (rule length_frame_answer) (use assms(1) in \<open>simp add: sc_wf_def\<close>)
  then have "length ?a \<le> sc_room sc" using sc_room_queue [OF assms(1)] assms(2) by simp
  then obtain s1 where s1: "sc_writes (sc_gap sc) (guest_wire p) = Some s1" "sc_wf s1" "sc_record s1 = sc_record sc"
      "sc_queue s1 = fst (run_codec sc_rx_apply (frame_seed p) ?a)"
    using reader_answers [OF assms(1,3)] assms(2) by auto
  then show ?thesis
    using sc_ticks_deliver [OF s1(2), of rs] assms(4)
    by (auto simp: guest_exchange_def guest_decode_def rx.run_inverse)
qed




lemma sc_build_record_length [simp]: "length (sc_build_record banner terr) = SC_RECORD"
  by (simp add: sc_build_record_def bytes_def SC_RECORD_def Let_def)

lemma sc_init_wf [wf_intros]: "sc_wf (sc_init banner terr)"
  by (simp add: sc_wf_def sc_init_def fifo8_create_wf sc_consts) (simp add: fifo8_create_def fifo8_reset_def)

text \<open>
  Reading the card's record: a READ BINARY under any nonce brings the guest a frame
  of 106 bytes whose bytes XOR to zero, which announces 102 bytes of payload that end in
  the status 90 00, and whose first hundred, deciphered with the record key, are the
  reader's record.
\<close>

lemma igo8_reads_record:
  assumes "sc_wf sc" "sc_queue sc = []" "frame_complete p"
    and "p ! 4 \<noteq> 0" "p ! 6 AND 0x80 = 0" "2 \<le> p ! 7" "8 + unat (p ! 7) \<le> 192" "p ! 9 = 0xB0"
    and "106 \<le> count_list rs True"
  shows "\<exists>d sc'. guest_exchange p rs sc = Some (d, sc') \<and> length d = 106 \<and> foldl (XOR) 0 d = 0 \<and>
    take 3 d = [0, 0, 102] \<and> take 2 (drop 103 d) = [0x90, 0x00] \<and> sc_lcg (take 100 (drop 3 d)) = sc_record sc"
proof -
  let ?d = "frame_answer (sc_record sc) p"
  have l: "length (sc_record sc) = 100" using assms(1) by (simp add: sc_wf_def sc_consts)
  have "\<not> unat (p ! 7) < 2" using assms(6) by (simp add: word_le_nat_alt)
  then have d: "?d = reply_frame (sc_lcg (sc_record sc) @ [0x90, 0x00])"
    using assms(4,5,7,8) by (simp add: frame_answer_def card_body_def sc_consts)
  have sum: "foldl (XOR) 0 (f @ [foldl (XOR) 0 f]) = (0 :: u8)" for f by simp
  have "length ?d = 106" "foldl (XOR) 0 ?d = 0" "take 3 ?d = [0, 0, 102]"
      "take 2 (drop 103 ?d) = [0x90, 0x00]" "take 100 (drop 3 ?d) = sc_lcg (sc_record sc)"
    using l by (simp_all add: d reply_frame_def Let_def del: foldl_append)
      (simp_all add: numeral_eq_Suc)
  moreover from this obtain sc' where "guest_exchange p rs sc = Some (?d, sc')"
    using exchange_answered [OF assms(1-3)] assms(9) by auto
  ultimately show ?thesis by (intro exI [of _ ?d] exI [of _ sc']) simp
qed

text \<open>The guest's READ BINARY frame: eight body bytes, of which five are the APDU.\<close>

definition read_binary :: "u8 list" where
  "read_binary = [0x11, 0x22, 0x33, 0x44, 8, 0, 0, 5, 0x00, 0xB0, 0x00, 0x00, 0x64]"

lemma read_binary_facts:
  "frame_complete read_binary" "read_binary ! 4 \<noteq> 0" "read_binary ! 6 AND 0x80 = 0" "2 \<le> read_binary ! 7"
  "8 + unat (read_binary ! 7) \<le> 192" "read_binary ! 9 = 0xB0"
  by (simp_all add: read_binary_def frame_complete_def frame_ok_def frame_len_def sc_consts)

section \<open>The record the reader serves\<close>

definition card_field :: "u8 list \<Rightarrow> nat \<Rightarrow> nat \<Rightarrow> u8 list" where
  "card_field rec k n = takeWhile (\<lambda>c. c \<noteq> 0) (take n (drop k rec))"

definition short_token :: "u8 list \<Rightarrow> u8 list" where
  "short_token tok = (if length tok > 2 \<and> take 2 tok = bytes ''20'' then drop 2 tok else tok)"

lemma strstr_prefix: "strstr (n @ s) n = Some (n @ s)"
  by (simp add: strstr.simps)

lemma takeWhile_all_then: "\<forall>c \<in> set xs. P c \<Longrightarrow> \<not> P c \<Longrightarrow> takeWhile P (xs @ c # ys) = xs"
  by (induction xs) auto

lemma sc_title_token:
  assumes "\<forall>c \<in> set tok. c \<noteq> 0x20 \<and> c \<noteq> 0x28" "tok \<noteq> []" "length (short_token tok) \<le> 4"
  shows "sc_title_from_banner (bytes ''Version '' @ tok @ 0x20 # rest) = bytes ''IGO '' @ short_token tok"
proof -
  have l: "length tok \<le> 6" using assms(3) by (simp add: short_token_def split: if_splits)
  have v: "length (bytes ''Version '') = 8" by (simp add: bytes_def)
  have "takeWhile (\<lambda>c. c \<noteq> 0x20 \<and> c \<noteq> 0x28) (tok @ 0x20 # rest) = tok"
    by (rule takeWhile_all_then) (use assms(1) in auto)
  moreover have "length tok > 2 \<Longrightarrow> take 2 tok = bytes ''20'' \<longleftrightarrow> tok ! 0 = 0x32 \<and> tok ! 1 = 0x30"
    by (cases tok; cases "tl tok") (auto simp: bytes_def)
  moreover have "short_token tok \<noteq> []" using assms(2) by (auto simp: short_token_def)
  ultimately show ?thesis using l v assms(3)
    by (auto simp: sc_title_from_banner_def strstr_prefix short_token_def Let_def) (simp_all add: bytes_def)
qed

text \<open>
  The record matches the disk: for an image whose MAIN.SET banner is ``Version'', a
  token and a territory, the record's three fields read back as the family, the
  image's territory and ``IGO'' with the token, without its leading 20; the rest of the
  record is zero.
\<close>

lemma igo8_record_matches_image:
  assumes "\<forall>c \<in> set tok. c \<noteq> 0 \<and> c \<noteq> 0x20 \<and> c \<noteq> 0x28" "tok \<noteq> []" "length (short_token tok) \<le> 4"
    and "length terr = 2" "0 \<notin> set terr" "rec = sc_build_record (bytes ''Version '' @ tok @ 0x20 # rest) terr"
  shows "card_field rec 0 3 = bytes ''IGO'' \<and> card_field rec 3 16 = terr \<and>
    card_field rec 0x13 81 = bytes ''IGO '' @ short_token tok \<and>
    (\<forall>i < 100. i \<in> {5..<0x13} \<union> {0x1B..<100} \<longrightarrow> rec ! i = 0)"
proof -
  let ?t = "bytes ''IGO '' @ short_token tok"
  have t: "sc_title_from_banner (bytes ''Version '' @ tok @ 0x20 # rest) = ?t"
    using sc_title_token [of tok rest] assms(1-3) by simp
  have lt: "length ?t \<le> 8" "length (bytes ''IGO'') = 3" "length (bytes ''IGO '') = 4" using assms(3) by (simp_all add: bytes_def)
  have ne: "terr \<noteq> []" using assms(4) by auto
  define z where "z = 0x51 - length ?t"
  have rec: "rec = bytes ''IGO'' @ terr @ replicate 14 0 @ ?t @ replicate z 0"
    using lt assms(4) ne t
    by (simp add: assms(6) sc_build_record_def put_def SC_RECORD_def z_def Let_def)
  have nz: "0 \<notin> set ?t"
    using assms(1) by (auto simp: short_token_def bytes_def dest: in_set_dropD split: if_splits)
  have run: "takeWhile (\<lambda>c. c \<noteq> 0) (xs @ replicate m 0 @ ys) = xs" if "(0::u8) \<notin> set xs" "0 < m" for xs ys m
    using that by (cases m) (auto intro: takeWhile_all_then)
  have "card_field rec 0 3 = bytes ''IGO''" by (simp add: rec card_field_def lt) (simp add: bytes_def)
  moreover have "card_field rec 3 16 = terr"
    using run [of terr 14 "[]"] assms(4,5) by (simp add: rec card_field_def lt)
  moreover have "take 81 (drop 0x13 rec) = ?t @ replicate z 0 @ []"
    using lt assms(4) by (simp add: rec z_def)
  then have "card_field rec 0x13 81 = ?t"
    using run [OF nz, of z "[]"] lt by (simp add: card_field_def z_def del: append_Nil2)
  moreover have "rec ! i = 0" if "i < 100" "i \<in> {5..<0x13} \<union> {0x1B..<100}" for i
    using that lt assms(4) by (auto simp: rec nth_append z_def)
  ultimately show ?thesis by blast
qed

section \<open>Every run of the reader\<close>

text \<open>A byte from the guest, a lull, a tick: in any order.\<close>

inductive sc_step :: "sc \<Rightarrow> sc \<Rightarrow> bool" where
  byte: "sc_write sc d = Some sc' \<Longrightarrow> sc_step sc sc'"
| lull: "sc_step sc (sc_gap sc)"
| tick: "sc_write_to_host room sc = Some (b, sc') \<Longrightarrow> sc_step sc sc'"

lemma sc_step_wf:
  assumes "sc_step sc sc'" "sc_wf sc"
  shows "sc_wf sc' \<and> sc_record sc' = sc_record sc"
  using assms(1)
proof cases
  case (byte d)
  then show ?thesis using sc_write_wf [OF assms(2)] by blast
next
  case lull
  then show ?thesis using sc_gap_wf [OF assms(2)] by simp
next
  case (tick room b)
  then show ?thesis
    using tick_eq [OF assms(2), of room] tick_queue [OF assms(2) _ refl] assms(2)
    by (auto split: if_splits list.splits)
qed

lemma sc_steps_wf: "sc_step\<^sup>*\<^sup>* (sc_init banner terr) sc \<Longrightarrow> sc_wf sc \<and> sc_record sc = sc_build_record banner terr"
proof (induction rule: rtranclp_induct)
  case base
  then show ?case using sc_init_wf by (simp add: sc_init_def)
qed (use sc_step_wf in fastforce)

text \<open>
  No run of the reader leaves its buffers: after any bytes, lulls and ticks the fill
  count indexes the frame buffer, an expected frame fits it, the reply ring is inside its
  bounds and the record is untouched; and any byte the guest may send next is taken, as
  long as the reply ring has room for the 106 bytes of the longest answer.
\<close>

theorem igo8_reader_bounds:
  assumes "sc_step\<^sup>*\<^sup>* (sc_init banner terr) sc"
  shows "sc_n sc < length (sc_in sc) \<and> sc_want sc \<le> length (sc_in sc) \<and> fifo8_wf (sc_resp sc) \<and>
    sc_record sc = sc_build_record banner terr \<and>
    (106 \<le> 256 - length (sc_queue sc) \<longrightarrow> (\<forall>d. sc_write sc d \<noteq> None))"
proof -
  have w: "sc_wf sc" "sc_record sc = sc_build_record banner terr" using sc_steps_wf [OF assms] by simp_all
  then have "\<forall>d. 106 \<le> sc_room sc \<longrightarrow> sc_write sc d \<noteq> None" using sc_write_wf by blast
  then show ?thesis
    using w sc_n_bound [OF w(1)] sc_room_queue [OF w(1)] by (auto simp: sc_wf_def split: if_splits)
qed

theorem igo8_reader_bounds_witness:
  "\<forall>d. sc_write (sc_gap (sc_init [] [])) d \<noteq> None"
  using igo8_reader_bounds [of "[]" "[]" "sc_gap (sc_init [] [])"] sc_step.lull [of "sc_init [] []"]
  by (auto simp: sc_queue_def sc_init_def)

lemma reader_overrun:
  assumes "sc_wf sc" "sc_n sc = 0" "frame_complete p" "sc_room sc < length (frame_answer (sc_record sc) p)"
  shows "sc_writes sc (guest_wire p) = None"
proof -
  have n: "length (sc_in sc) = SC_IN_MAX" "sc_want sc = 0" "frame_ok p"
    using assms(1-3) by (auto simp: sc_wf_def frame_complete_def split: if_splits)
  let ?h = "(sc_holding sc p (length p))\<lparr>sc_rx := frame_seed p\<rparr>"
  have "sc_resp ?h = sc_resp sc" by (simp add: sc_holding_def)
  then have "sc_reply ?h (frame_answer (sc_record sc) p) = None"
    using assms(1,4) by (intro sc_reply_full) (simp_all add: sc_wf_def sc_room_def)
  then show ?thesis
    using sc_writes_frame [OF n(3,1) assms(2) n(2)] sc_frame_holding [OF assms(3,1)] by simp
qed

text \<open>
  The reply ring has no back pressure: a guest that sends three READ BINARY frames
  before collecting an answer overruns it, and the third fails the assertion of
  \<open>fifo8_push\<close>, from whatever state the reader is in between frames.
\<close>

theorem igo8_three_reads_overrun:
  assumes "sc_wf sc" "sc_n sc = 0" "frame_complete p"
    and "p ! 4 \<noteq> 0" "p ! 6 AND 0x80 = 0" "2 \<le> p ! 7" "8 + unat (p ! 7) \<le> 192" "p ! 9 = 0xB0"
  shows "sc_writes sc (guest_wire p @ guest_wire p @ guest_wire p) = None"
proof -
  have l: "length (frame_answer (sc_record s) p) = 106" if "sc_wf s" for s
    using that assms(4-8) by (simp add: frame_answer_def card_body_def sc_wf_def sc_consts word_le_nat_alt)
  have g: "sc_gap s = s" if "sc_wf s" "sc_n s = 0" for s
    using that by (intro sc.equality) (auto simp: sc_gap_def sc_wf_def split: if_splits)
  have one: "sc_writes s (guest_wire p) = None \<or>
      (\<exists>s'. sc_writes s (guest_wire p) = Some s' \<and> sc_wf s' \<and> sc_n s' = 0 \<and> length (sc_queue s') = length (sc_queue s) + 106)"
    if "sc_wf s" "sc_n s = 0" for s
    using reader_answers [OF that(1) assms(3)] reader_overrun [OF that assms(3)] g [OF that] l [OF that(1)]
    by (cases "106 \<le> sc_room s") auto
  have full: "sc_writes s (guest_wire p) = None" if "sc_wf s" "sc_n s = 0" "151 \<le> length (sc_queue s)" for s
    using reader_overrun [OF that(1,2) assms(3)] l [OF that(1)] sc_room_queue [OF that(1)] that(3) by simp
  show ?thesis
    using one [OF assms(1,2)] one full by (fastforce simp: sc_writes_append split: option.split)
qed

theorem igo8_three_reads_overrun_witness:
  "sc_writes (sc_init [] []) (guest_wire read_binary @ guest_wire read_binary @ guest_wire read_binary) = None"
  by (rule igo8_three_reads_overrun [OF sc_init_wf _ read_binary_facts]) (simp add: sc_init_def)

text \<open>
  A queued reply gets out: however the ticks without room are spread, the ticks with
  room each deliver the next byte of the queue in order, and once there have been as
  many as bytes are waiting the queue is empty.
\<close>

theorem igo8_reply_gets_out:
  assumes "sc_wf sc" "length (sc_queue sc) \<le> count_list rs True"
  shows "\<exists>sc'. sc_ticks rs sc = Some (sc_queue sc, sc') \<and> sc_queue sc' = []"
  using sc_ticks_deliver [OF assms(1), of rs] assms(2) by auto

theorem igo8_reply_gets_out_witness:
  "\<exists>sc'. sc_ticks [True, False, True] (sc_init [] []) = Some ([], sc') \<and> sc_queue sc' = []"
proof -
  have "sc_queue (sc_init [] []) = []" by (simp add: sc_init_def sc_queue_def)
  then show ?thesis using igo8_reply_gets_out [OF sc_init_wf, of "[]" "[]" "[True, False, True]"] by simp
qed

end
