(* ===== verification/Image_Boot.thy ===== *)
theory Image_Boot
  imports PP_Record PP_Round Image_Ident Igo8_Reader
begin

text \<open>
  The disk and the dongles together: what an image's MAIN.SET says, the device
  \<open>pp_init\<close> builds from it or the 2008 reader's record, and what the guest finds when it
  reads its dongle over the port.
\<close>

section \<open>The device of an image\<close>

definition image_answer :: "image \<Rightarrow> (u8 list \<times> u8 list) option" where
  "image_answer img =
     (case photoplay_image_ident img 64 16 of (ok, b, t) \<Rightarrow> if ok then Some (b, t) else None)"

definition device_of_image :: "image \<Rightarrow> u8 option \<Rightarrow> int option \<Rightarrow> pp" where
  "device_of_image img sweep_val data_mode =
     pp_init (-1) (compose_banner (image_answer img) (-1) (-1)) sweep_val data_mode"

definition card_of_image :: "image \<Rightarrow> sc" where
  "card_of_image img = (case photoplay_image_ident img 64 16 of (_, b, t) \<Rightarrow> sc_init b t)"

text \<open>No access changes the width of an address.\<close>

lemma hd_edge_abits [simp]: "hd_abits (hd_edge dv b) = hd_abits dv"
  by (simp add: hd_edge_def hd_execute_def Let_def split: hd_phase.split)

lemma hd_write_abits [simp]: "hd_abits (hd_write_data dv v) = hd_abits dv"
  by (simp add: hd_write_data_def Let_def)

lemma pp_latch_hd [simp]: "pp_hd (pp_latch dv dat) = pp_hd dv"
  by (simp add: pp_latch_def)

lemma pp_status_part_abits: "hd_abits (pp_hd (snd (pp_status_part dv))) = hd_abits (pp_hd dv)"
  by (simp add: pp_status_part_def hd_idle_def Let_def split_beta split: option.split)

lemma pp_step_abits: "pp_step dv dv' \<Longrightarrow> hd_abits (pp_hd dv') = hd_abits (pp_hd dv)"
  by (auto simp: pp_write_data_units pp_write_ctrl_def pp_strobe_def pp_read_status_def Let_def
      pp_status_part_abits split: option.split)

lemma pp_reachable_abits: "pp_reachable dv0 dv \<Longrightarrow> hd_abits (pp_hd dv) = hd_abits (pp_hd dv0)"
  by (induction rule: pp_reachable.induct) (simp_all add: pp_step_abits)

lemma reachable_readable:
  assumes "has_part hd_opt b" "length b \<le> 30" "pp_reachable (pp_init hd_opt b sv dm) dv" "\<not> t_pending (pp_tk dv)"
  shows "device_readable dv"
proof -
  have "pp_wf dv" "same_config (pp_init hd_opt b sv dm) dv"
    using pp_reachable_kept [OF assms(3) pp_init_wf [OF assms(2)]] by simp_all
  then show ?thesis
    using pp_init_part [OF assms(1), of sv dm] pp_reachable_abits [OF assms(3)] assms(4)
    by (simp add: device_readable_def record_link_def part_selected_def pp_wf_def hd_wf_def same_config_def)
qed

text \<open>The guest's whole reading of the part: 56 words over DATA and STATUS, unscrambled and unpacked.\<close>

definition guest_reads :: "hd_key \<Rightarrow> u8 option \<Rightarrow> pp \<Rightarrow> u8 list" where
  "guest_reads k dat dv =
     guest_record (pass1 k) (swap k) (fst (device.read_block dat dv (map word_of_nat [8..<64])))"

lemma guest_reads_part:
  assumes "device_readable dv" "hd_mem (pp_hd dv) = hd_load b"
  shows "guest_reads (hd_keys ! hd_release b) dat dv = hd_record b"
proof -
  have "hd_abits (pp_hd dv) = 6" using assms(1) by (simp add: device_readable_def part_selected_def)
  then show ?thesis unfolding guest_reads_def device_block [OF assms(1)]
    using assms(2) by (rule guest_record_load)
qed

section \<open>The image boots\<close>

text \<open>
  An image that states itself: the walk reaches a settings file with the version \<open>v\<close> and
  the territory \<open>l\<close>.
\<close>

definition image_states :: "image \<Rightarrow> u8 list \<Rightarrow> u8 list \<Rightarrow> bool" where
  "image_states img v l \<longleftrightarrow>
     (\<exists>fs clus sz kvs extra. pp_fat_open img = Some fs \<and> path_walk img fs main_set_path 0 0 = Some (clus, sz) \<and>
        pp_read_chain img fs clus sz (256 * 1024) = Some (set_file kvs @ extra) \<and> settings_ok kvs \<and>
        map_of kvs (bytes ''Version'') = Some v \<and> map_of kvs (bytes ''Land'') = Some l) \<and>
     v \<noteq> [] \<and> length v < 64 \<and> length l < 16"

lemma image_states_ident:
  assumes "image_states img v l"
  shows "photoplay_image_ident img 64 16 = (True, v, l)"
proof -
  obtain fs clus sz kvs extra where w: "pp_fat_open img = Some fs" "path_walk img fs main_set_path 0 0 = Some (clus, sz)"
      "pp_read_chain img fs clus sz (256 * 1024) = Some (set_file kvs @ extra)" "settings_ok kvs"
      "map_of kvs (bytes ''Version'') = Some v" "map_of kvs (bytes ''Land'') = Some l"
    and l: "v \<noteq> []" "length v < 64" "length l < 16"
    using assms by (auto simp: image_states_def)
  have "photoplay_identify_ex img 64 64 16 = Some
    \<lparr>id_display = cut 64 (case release_name v of
        Some (name, named) \<Rightarrow> (if l \<noteq> [] \<and> \<not> named then name @ bytes '' '' @ l else name) | None \<Rightarrow> v),
     id_banner = cut 64 v, id_terr = cut 16 l\<rparr>"
    by (rule identify_ex_built [OF w(1-3) _ w(4-6)]) (use l in simp_all)
  then show ?thesis using l by (simp add: photoplay_image_ident_def cut_def)
qed

lemma image_banner:
  assumes "image_states img v l" "length v \<le> 30"
  shows "compose_banner (image_answer img) (-1) (-1) = v"
  using assms by (simp add: image_answer_def image_states_ident compose_banner_def) (simp add: image_states_def)

text \<open>
  C9. An image boots on the dongle it is given. For an image whose MAIN.SET states a
  version of a release with a part, the device set up from it serves that version:
  after any accesses of the port that leave the part's memory alone and no answer held,
  the guest that reads the 56 words over DATA and STATUS, unscrambles them with the
  release's password and parses the record composes exactly the string its own MAIN.SET
  holds, which is the comparison the games make.
\<close>

theorem image_boots_on_part:
  assumes "image_states img (banner_of tok t0 t1) l" "token_ok tok" "t0 \<noteq> 0" "t1 \<noteq> 0"
    and "k = hd_keys ! hd_release (banner_of tok t0 t1)" "hd_release_opt (banner_of tok t0 t1) \<noteq> None"
    and "shape k = HD_RSION \<Longrightarrow> banner k = bytes ''Version'' @ [0x20] @ tok"
    and "pp_reachable (device_of_image img sv dm) dv" "\<not> t_pending (pp_tk dv)"
    and "hd_mem (pp_hd dv) = hd_mem (pp_hd (device_of_image img sv dm))"
  shows "guest_banner k (guest_reads k dat dv) = banner_of tok t0 t1"
proof -
  have len: "length (banner_of tok t0 t1) \<le> 30" using assms(2) by (simp add: token_ok_def)
  have dev: "device_of_image img sv dm = pp_init (-1) (banner_of tok t0 t1) sv dm"
    using image_banner [OF assms(1) len] by (simp add: device_of_image_def)
  have part: "has_part (-1) (banner_of tok t0 t1)" using assms(6) by (simp add: has_part_def)
  have "device_readable dv"
    using reachable_readable [OF part len] assms(8,9) by (simp add: dev)
  moreover have "hd_mem (pp_hd dv) = hd_load (banner_of tok t0 t1)"
    using assms(10) pp_init_part(2) [OF part] by (simp add: dev)
  ultimately have "guest_reads k dat dv = hd_record (banner_of tok t0 t1)"
    using guest_reads_part by (simp add: assms(5))
  then show ?thesis using guest_banner_composed [OF assms(2-4)] assms(5,7) by simp
qed

lemma demo_states: "image_states demo_image (bytes ''Version 2007 (IT)'') (bytes ''IT'')"
proof -
  have "settings_ok demo_settings" using demo_settings_facts by (simp add: settings_ok_def)
  moreover have "map_of demo_settings (bytes ''Version'') = Some (bytes ''Version 2007 (IT)'')"
    "map_of demo_settings (bytes ''Land'') = Some (bytes ''IT'')" by (simp_all add: demo_settings_def bytes_def)
  moreover have "pp_fat_open demo_image = Some demo_fat" by (simp add: demo_image_def volume_opens)
  moreover have "pp_read_chain demo_image demo_fat 4 44 (256 * 1024) = Some (set_file demo_settings @ [])"
    using demo_read by simp
  ultimately have "\<exists>fs clus sz kvs extra. pp_fat_open demo_image = Some fs \<and>
        path_walk demo_image fs main_set_path 0 0 = Some (clus, sz) \<and>
        pp_read_chain demo_image fs clus sz (256 * 1024) = Some (set_file kvs @ extra) \<and> settings_ok kvs \<and>
        map_of kvs (bytes ''Version'') = Some (bytes ''Version 2007 (IT)'') \<and> map_of kvs (bytes ''Land'') = Some (bytes ''IT'')"
    using demo_path by blast
  then show ?thesis by (simp add: image_states_def bytes_def)
qed

theorem image_boots_on_part_witness:
  "guest_banner (hd_keys ! 6)
     (guest_reads (hd_keys ! 6) None (pp_write_data (device_of_image demo_image None None) 0x9C)) =
   bytes ''Version 2007 (IT)''"
proof -
  let ?d = "device_of_image demo_image None None" and ?b = "banner_of (bytes ''2007'') 0x49 0x54"
  have b: "?b = bytes ''Version 2007 (IT)''" by (simp add: banner_of_def bytes_def)
  have r: "hd_release_opt ?b = Some 6"
    by (simp add: hd_release_opt_def hd_keys_def banner_of_def bytes_def)
  then have k: "hd_release ?b = 6" by (simp add: hd_release_def)
  have part: "has_part (-1) ?b" using r by (simp add: has_part_def)
  have d: "?d = pp_init (-1) ?b None None"
  proof -
    have "length (bytes ''Version 2007 (IT)'') \<le> 30" by (simp add: bytes_def)
    from image_banner [OF demo_states this] show ?thesis by (simp only: device_of_image_def b)
  qed
  note i = pp_init_part [OF part, where sv = None and dm = None, folded d]
  have link: "record_link ?d"
    using i(1) by (simp add: record_link_def i(4) tk_init_wf) (simp add: tk_init_def)
  have hi: "frame_level ?d = 0x9C" by (simp add: frame_level_def i(4) tk_init_def k) (simp add: hd_keys_def)
  note f = dev_frame_part [OF link frame_byte_wire(1), unfolded dev_frame_def hi, simplified]
  have mem: "hd_mem (pp_hd (pp_write_data ?d 0x9C)) = hd_mem (pp_hd ?d)"
    by (simp add: f(1) hd_write_data_def Let_def)
  have idle: "\<not> t_pending (pp_tk (pp_write_data ?d 0x9C))" using f(2) by (simp add: record_link_def)
  have reach: "pp_reachable ?d (pp_write_data ?d 0x9C)" by (blast intro: pp_reachable.intros pp_step.intros)
  have tok: "token_ok (bytes ''2007'')" by (simp add: token_ok_def bytes_def)
  have key: "hd_keys ! 6 = hd_keys ! hd_release ?b" by (simp only: k)
  have opt: "hd_release_opt ?b \<noteq> None" using r by simp
  have shp: "shape (hd_keys ! 6) \<noteq> HD_RSION" by (simp add: hd_keys_def)
  show ?thesis
    unfolding b [symmetric]
    by (rule image_boots_on_part [OF demo_states [folded b] tok _ _ key opt _ reach idle mem]) (use shp in simp_all)
qed

text \<open>
  The 2008 generation: for an image whose MAIN.SET states ``Version'', a token and a
  two-letter territory, the card reader set up from it, whatever bytes, lulls and ticks
  it has seen, answers a READ BINARY under any nonce with a frame that checks and whose
  deciphered record holds the family, the image's own territory and its version token.
\<close>

theorem image_boots_on_card:
  assumes "image_states img (bytes ''Version '' @ tok @ 0x20 # rest) l"
    and "\<forall>c \<in> set tok. c \<noteq> 0 \<and> c \<noteq> 0x20 \<and> c \<noteq> 0x28" "tok \<noteq> []" "length (short_token tok) \<le> 4"
    and "length l = 2" "0 \<notin> set l"
    and "sc_step\<^sup>*\<^sup>* (card_of_image img) sc" "sc_queue sc = []" "frame_complete p"
    and "p ! 4 \<noteq> 0" "p ! 6 AND 0x80 = 0" "2 \<le> p ! 7" "8 + unat (p ! 7) \<le> 192" "p ! 9 = 0xB0"
    and "106 \<le> count_list rs True"
  shows "\<exists>d sc'. guest_exchange p rs sc = Some (d, sc') \<and> length d = 106 \<and> foldl (XOR) 0 d = 0 \<and>
    card_field (sc_lcg (take 100 (drop 3 d))) 0 3 = bytes ''IGO'' \<and>
    card_field (sc_lcg (take 100 (drop 3 d))) 3 16 = l \<and>
    card_field (sc_lcg (take 100 (drop 3 d))) 0x13 81 = bytes ''IGO '' @ short_token tok"
proof -
  have c: "card_of_image img = sc_init (bytes ''Version '' @ tok @ 0x20 # rest) l"
    using image_states_ident [OF assms(1)] by (simp add: card_of_image_def)
  then have w: "sc_wf sc" and r: "sc_record sc = sc_build_record (bytes ''Version '' @ tok @ 0x20 # rest) l"
    using sc_steps_wf assms(7) by simp_all
  obtain d sc' where d: "guest_exchange p rs sc = Some (d, sc')" "length d = 106" "foldl (XOR) 0 d = 0"
      "sc_lcg (take 100 (drop 3 d)) = sc_record sc"
    using igo8_reads_record [OF w assms(8-15)] by blast
  then show ?thesis using igo8_record_matches_image [OF assms(2-6) r] by auto
qed

theorem image_boots_on_card_witness:
  "\<exists>d sc'. guest_exchange read_binary (replicate 106 True) (card_of_image demo_image) = Some (d, sc') \<and>
    card_field (sc_lcg (take 100 (drop 3 d))) 0x13 81 = bytes ''IGO 07''"
proof -
  have v: "bytes ''Version '' @ bytes ''2007'' @ 0x20 # bytes ''(IT)'' = bytes ''Version 2007 (IT)''"
    and t: "short_token (bytes ''2007'') = bytes ''07''" by code_simp+
  have tok: "\<forall>c \<in> set (bytes ''2007''). c \<noteq> 0 \<and> c \<noteq> 0x20 \<and> c \<noteq> 0x28" "bytes ''2007'' \<noteq> []"
    "length (short_token (bytes ''2007'')) \<le> 4" "length (bytes ''IT'') = 2" "0 \<notin> set (bytes ''IT'')"
    unfolding t by (simp_all add: bytes_def)
  have q: "sc_queue (card_of_image demo_image) = []"
    by (simp add: card_of_image_def split_beta sc_init_def sc_queue_def)
  have c: "106 \<le> count_list (replicate 106 True) True" by code_simp
  show ?thesis
    using image_boots_on_card [OF demo_states [folded v] tok rtranclp.rtrancl_refl q read_binary_facts c]
    unfolding t by (auto simp: bytes_def)
qed

end
