(* ===== verification/Funworld_IO.thy ===== *)
theory Funworld_IO
  imports C_Strings Complex_Main
begin

text \<open>
  The funworld I/O card: an 8255 whose ports A and C carry the coin and note lines and
  the door buttons, and whose port B drives the outputs. The theory translates the
  guest's register accesses, the settings read from the environment, the pulses the
  front end sends and the timer callbacks that end them, and describes the running card
  as a step relation in which guest accesses, presses and timers interleave freely.

  Time is in microseconds. A one-shot timer is the instant it is armed for; it fires at
  some step at or after that instant, in any order among those that are due. Arming one
  outside its callback counts from now, inside its callback from the instant it expired,
  as \<open>timer_on_auto\<close> does for periods of up to a second.
\<close>

section \<open>The settings\<close>

definition FWIO_IN_LINES :: nat where "FWIO_IN_LINES = 12"
definition FWIO_LINE_COIN1 :: int where "FWIO_LINE_COIN1 = 0"
definition FWIO_WALK_STEPS :: nat where "FWIO_WALK_STEPS = 24"

text \<open>What the sources use of \<open>strtoul\<close> in base 16 and of \<open>atoi\<close>.\<close>

definition c_space :: "u8 \<Rightarrow> bool" where
  "c_space c \<longleftrightarrow> c = 0x20 \<or> 9 \<le> c \<and> c \<le> 13"

definition hex_value :: "u8 \<Rightarrow> nat option" where
  "hex_value c =
     (if 0x30 \<le> c \<and> c \<le> 0x39 then Some (unat c - 0x30)
      else if 0x41 \<le> c \<and> c \<le> 0x46 then Some (unat c - 0x37)
      else if 0x61 \<le> c \<and> c \<le> 0x66 then Some (unat c - 0x57) else None)"

fun hex_number :: "u8 list \<Rightarrow> nat \<Rightarrow> nat" where
  "hex_number [] n = n"
| "hex_number (c # cs) n = (case hex_value c of None \<Rightarrow> n | Some d \<Rightarrow> hex_number cs (16 * n + d))"

definition c_sign :: "u8 list \<Rightarrow> bool \<times> u8 list" where
  "c_sign s = (case s of [] \<Rightarrow> (False, []) | c # cs \<Rightarrow> if c = 0x2D then (True, cs) else if c = 0x2B then (False, cs) else (False, s))"

definition hex_prefix :: "u8 list \<Rightarrow> u8 list" where
  "hex_prefix s =
     (if 3 \<le> length s \<and> s ! 0 = 0x30 \<and> (s ! 1 = 0x78 \<or> s ! 1 = 0x58) \<and> hex_value (s ! 2) \<noteq> None
      then drop 2 s else s)"

definition strtoul16 :: "u8 list \<Rightarrow> u64" where
  "strtoul16 s =
     (let (neg, s) = c_sign (dropWhile c_space s); v = hex_number (hex_prefix s) 0
      in if 2 ^ 64 \<le> v then - 1 else if neg then - word_of_nat v else word_of_nat v)"

fun dec_number :: "u8 list \<Rightarrow> int \<Rightarrow> int" where
  "dec_number [] n = n"
| "dec_number (c # cs) n = (if 0x30 \<le> c \<and> c \<le> 0x39 then dec_number cs (10 * n + (uint c - 0x30)) else n)"

definition atoi :: "u8 list \<Rightarrow> int" where
  "atoi s = (let (neg, s) = c_sign (dropWhile c_space s); v = dec_number s 0 in if neg then - v else v)"

record fw_cfg =
  fwio_idle :: "u8 list"
  fwio_hold_mask :: "u8 list"
  fwio_hold_ms :: rat
  fwio_walk :: bool
  fwio_pin :: int
  fwio_only_port :: int
  fwio_pulses :: int

definition fw_defaults :: fw_cfg where
  "fw_defaults =
     \<lparr>fwio_idle = [0xff, 0xff, 0xf0], fwio_hold_mask = [0, 0, 0], fwio_hold_ms = 100, fwio_walk = False,
      fwio_pin = -1, fwio_only_port = -1, fwio_pulses = 1\<rparr>"

text \<open>The environment variables; \<open>None\<close> is one that is not set.\<close>

record fw_env =
  IO_LINE :: "u8 list option"
  IO_HOLD :: "u8 list option"
  IO_MS :: "u8 list option"
  IO_PULSES :: "u8 list option"
  IO_IDLE :: "u8 list option"
  IO_WALK :: "u8 list option"

fun env_idle :: "nat list \<Rightarrow> u8 list \<Rightarrow> u8 list \<Rightarrow> u8 list" where
  "env_idle [] q levels = levels"
| "env_idle (i # is) q levels =
     (if q = [] then levels
      else let levels = levels[i := ucast (strtoul16 q)]
           in case strchr q 0x2C of None \<Rightarrow> levels | Some k \<Rightarrow> env_idle is (drop (k + 1) q) levels)"

definition env_port :: "u8 \<Rightarrow> int" where
  "env_port c = uint (c AND 0xDF) - 0x41"

definition env_bit :: "u8 \<Rightarrow> int" where
  "env_bit c = uint c - 0x30"

function env_hold :: "u8 list \<Rightarrow> u8 list \<Rightarrow> u8 list" where
  "env_hold q pins =
     (if length q < 2 then pins
      else let hp = env_port (q ! 0); hb = env_bit (q ! 1);
               pins = (if 0 \<le> hp \<and> hp < 3 \<and> 0 \<le> hb \<and> hb < 8
                       then pins[nat hp := pins ! nat hp OR push_bit (nat hb) 1] else pins)
           in case strchr q 0x2C of None \<Rightarrow> pins | Some k \<Rightarrow> env_hold (drop (k + 1) q) pins)"
  by pat_completeness auto
termination by (relation "measure (length \<circ> fst)") auto

declare env_hold.simps [simp del]

text \<open>A setting that is applied when its variable is set.\<close>

definition env_set :: "'a option \<Rightarrow> ('a \<Rightarrow> fw_cfg \<Rightarrow> fw_cfg) \<Rightarrow> fw_cfg \<Rightarrow> fw_cfg" where
  "env_set v f cfg = (case v of None \<Rightarrow> cfg | Some s \<Rightarrow> f s cfg)"

definition env_line :: "u8 list \<Rightarrow> fw_cfg \<Rightarrow> fw_cfg" where
  "env_line s cfg =
     (if s = [] then cfg
      else let port = env_port (s ! 0)
           in if 0 \<le> port \<and> port < 3
              then (if length s = 1 then cfg\<lparr>fwio_only_port := port\<rparr>
                    else let b = env_bit (s ! 1)
                         in if 0 \<le> b \<and> b < 8 then cfg\<lparr>fwio_pin := port * 8 + b\<rparr> else cfg)
              else cfg)"

text \<open>\<open>atof\<close> is an argument: the number the string denotes.\<close>

definition fwio_read_env :: "(u8 list \<Rightarrow> rat) \<Rightarrow> fw_env \<Rightarrow> fw_cfg \<Rightarrow> fw_cfg" where
  "fwio_read_env atof env cfg =
     (let cfg = env_set (IO_IDLE env) (\<lambda>q cfg. cfg\<lparr>fwio_idle := env_idle [0, 1, 2] q (fwio_idle cfg)\<rparr>) cfg;
          cfg = cfg\<lparr>fwio_walk := IO_WALK env \<noteq> None \<or> IO_LINE env \<noteq> None\<rparr>;
          cfg = env_set (IO_HOLD env) (\<lambda>q cfg. cfg\<lparr>fwio_hold_mask := env_hold q (fwio_hold_mask cfg)\<rparr>) cfg;
          cfg = env_set (IO_MS env)
                  (\<lambda>s cfg. if 1 \<le> atof s \<and> atof s \<le> 5000 then cfg\<lparr>fwio_hold_ms := atof s\<rparr> else cfg) cfg;
          cfg = env_set (IO_PULSES env)
                  (\<lambda>s cfg. if 1 \<le> atoi s \<and> atoi s \<le> 64 then cfg\<lparr>fwio_pulses := atoi s\<rparr> else cfg) cfg
      in env_set (IO_LINE env) env_line cfg)"

section \<open>The card\<close>

record fwio =
  fw_base :: u16
  fw_ctrl :: u8
  fw_out :: "u8 list"
  fw_in :: "u8 list"
  fw_release :: "rat option list"
  fw_held :: u16
  fw_train :: "rat option"
  fw_train_left :: int
  fw_train_port :: nat
  fw_train_bit :: nat
  fw_walk_at :: nat
  fw_walk_last :: "u8 list"
  fw_now :: rat

definition fwio_idle_of :: "fw_cfg \<Rightarrow> nat \<Rightarrow> u8" where
  "fwio_idle_of cfg port = (if port < 3 then fwio_idle cfg ! port else 0xff)"

definition fwio_idle_all :: "fw_cfg \<Rightarrow> fwio \<Rightarrow> fwio" where
  "fwio_idle_all cfg dev = dev\<lparr>fw_in := map (\<lambda>port. fwio_idle_of cfg port XOR fwio_hold_mask cfg ! port) [0, 1, 2]\<rparr>"

definition fwio_reset :: "fw_cfg \<Rightarrow> fwio \<Rightarrow> fwio" where
  "fwio_reset cfg dev = (fwio_idle_all cfg (dev\<lparr>fw_ctrl := 0x9b, fw_out := [0, 0, 0]\<rparr>))\<lparr>fw_held := 0\<rparr>"

definition fwio_read :: "u16 \<Rightarrow> fwio \<Rightarrow> u8" where
  "fwio_read port dev =
     (let reg = (ucast (port - fw_base dev) :: u8)
      in if reg = 0 \<or> reg = 1 \<or> reg = 2 then fw_in dev ! unat reg else 0xff)"

definition fwio_write :: "u16 \<Rightarrow> u8 \<Rightarrow> fwio \<Rightarrow> fwio" where
  "fwio_write port v dev =
     (let reg = (ucast (port - fw_base dev) :: u8)
      in if reg = 0 \<or> reg = 1 \<or> reg = 2 then dev\<lparr>fw_out := (fw_out dev)[unat reg := v]\<rparr>
         else if reg = 3 then
           (if v AND 0x80 \<noteq> 0 then dev\<lparr>fw_ctrl := v, fw_out := [0, 0, 0]\<rparr>
            else let b = unat (drop_bit 1 v AND 7); c = fw_out dev ! 2
                 in dev\<lparr>fw_out := (fw_out dev)[2 := if v AND 1 \<noteq> 0 then c OR push_bit b 1 else c AND NOT (push_bit b 1)]\<rparr>)
         else dev)"

text \<open>The lines: the port and the bit each arrives on.\<close>

definition fwio_line_map :: "(nat \<times> nat) list" where
  "fwio_line_map =
     [(2, 4), (2, 5), (2, 6), (2, 7), (0, 6), (0, 7), (0, 0), (0, 1), (2, 0), (2, 1), (2, 2), (2, 3)]"

definition fwio_set_bit :: "fw_cfg \<Rightarrow> nat \<Rightarrow> nat \<Rightarrow> bool \<Rightarrow> fwio \<Rightarrow> fwio" where
  "fwio_set_bit cfg port b asserted dev =
     (let mask = push_bit b (1 :: u8); high = (fwio_idle_of cfg port AND mask = 0); v = fw_in dev ! port
      in dev\<lparr>fw_in := (fw_in dev)[port := if asserted = high then v OR mask else v AND NOT mask]\<rparr>)"

definition fwio_set_line :: "fw_cfg \<Rightarrow> nat \<Rightarrow> bool \<Rightarrow> fwio \<Rightarrow> fwio" where
  "fwio_set_line cfg line asserted dev =
     fwio_set_bit cfg (fst (fwio_line_map ! line)) (snd (fwio_line_map ! line)) asserted dev"

definition fwio_hold_us :: "fw_cfg \<Rightarrow> rat" where
  "fwio_hold_us cfg = fwio_hold_ms cfg * 1000"

definition fwio_walk_skip :: "bool list" where
  "fwio_walk_skip = [False, True] @ replicate 6 False @ replicate 8 True @ replicate 8 False"

text \<open>The burst timer's callback; \<open>due\<close> is the instant it was armed for.\<close>

definition fwio_train_tick :: "fw_cfg \<Rightarrow> rat \<Rightarrow> fwio \<Rightarrow> fwio" where
  "fwio_train_tick cfg due dev =
     (let dev = dev\<lparr>fw_train_left := fw_train_left dev - 1\<rparr>
      in if fw_train_left dev \<le> 0 then fwio_set_bit cfg (fw_train_port dev) (fw_train_bit dev) False dev
         else (fwio_set_bit cfg (fw_train_port dev) (fw_train_bit dev) (odd (fw_train_left dev)) dev)
           \<lparr>fw_train := Some (due + fwio_hold_us cfg)\<rparr>)"

definition fwio_walk_release :: "fw_cfg \<Rightarrow> fwio \<Rightarrow> fwio" where
  "fwio_walk_release cfg dev = fwio_idle_all cfg dev"

definition fwio_release :: "fw_cfg \<Rightarrow> nat \<Rightarrow> fwio \<Rightarrow> fwio" where
  "fwio_release cfg line dev =
     (let dev = fwio_set_line cfg line False dev in dev\<lparr>fw_held := fw_held dev AND NOT (push_bit line 1)\<rparr>)"

text \<open>The callback \<open>fwio_init\<close> gives the release timers.\<close>

definition fwio_release_cb :: "fw_cfg \<Rightarrow> nat \<Rightarrow> fwio \<Rightarrow> fwio" where
  "fwio_release_cb cfg line dev = (if fwio_walk cfg then fwio_walk_release cfg dev else fwio_release cfg line dev)"

definition fwio_arm_release :: "fw_cfg \<Rightarrow> nat \<Rightarrow> fwio \<Rightarrow> fwio" where
  "fwio_arm_release cfg line dev =
     dev\<lparr>fw_release := (fw_release dev)[line := Some (fw_now dev + fwio_hold_us cfg)]\<rparr>"

subsection \<open>The walk\<close>

fun walk_skip :: "nat \<Rightarrow> nat \<Rightarrow> nat" where
  "walk_skip 0 pos = pos"
| "walk_skip (Suc guard) pos = (if fwio_walk_skip ! pos then walk_skip guard ((pos + 1) mod FWIO_WALK_STEPS) else pos)"

text \<open>Where a click of the walk lands, from where it stood.\<close>

definition walk_target :: "fw_cfg \<Rightarrow> nat \<Rightarrow> nat" where
  "walk_target cfg pos =
     walk_skip FWIO_WALK_STEPS
       (if 0 \<le> fwio_pin cfg then nat (fwio_pin cfg)
        else if 0 \<le> fwio_only_port cfg \<and> int (pos div 8) \<noteq> fwio_only_port cfg then nat (fwio_only_port cfg) * 8 else pos)"

definition walk_next :: "fw_cfg \<Rightarrow> nat \<Rightarrow> nat" where
  "walk_next cfg pos =
     (let pos = (pos + 1) mod FWIO_WALK_STEPS
      in if 0 \<le> fwio_only_port cfg \<and> int (pos div 8) \<noteq> fwio_only_port cfg then nat (fwio_only_port cfg) * 8 else pos)"

definition walk_text :: "fw_cfg \<Rightarrow> nat \<Rightarrow> nat \<Rightarrow> u8 list" where
  "walk_text cfg port b =
     bytes ''port '' @ [0x41 + word_of_nat port] @ bytes '' bit '' @ dec_digits b @
     (if 1 < fwio_pulses cfg then bytes ''  x'' @ fmt_ld (fwio_pulses cfg)
      else bytes ''  (idle '' @ fmt_02X (fwio_idle_of cfg port) @ bytes '')'')"

definition walk_click :: "fw_cfg \<Rightarrow> fwio \<Rightarrow> fwio" where
  "walk_click cfg dev =
     (let pos = walk_target cfg (fw_walk_at dev); port = pos div 8; b = pos mod 8;
          dev = fwio_set_bit cfg port b True (fwio_idle_all cfg dev);
          dev = dev\<lparr>fw_train_left := 0\<rparr>;
          dev = (if 1 < fwio_pulses cfg
                 then dev\<lparr>fw_train_port := port, fw_train_bit := b, fw_train_left := fwio_pulses cfg * 2 - 1,
                          fw_train := Some (fw_now dev + fwio_hold_us cfg)\<rparr>
                 else dev);
          dev = dev\<lparr>fw_walk_last := walk_text cfg port b\<rparr>
      in (fwio_arm_release cfg 0 dev)\<lparr>fw_walk_at := walk_next cfg pos\<rparr>)"

definition funworld_io_pulse :: "fw_cfg \<Rightarrow> int \<Rightarrow> fwio \<Rightarrow> fwio" where
  "funworld_io_pulse cfg line dev =
     (if line < 0 \<or> int FWIO_IN_LINES \<le> line then dev
      else if fwio_walk cfg \<and> line = FWIO_LINE_COIN1 then walk_click cfg dev
      else let dev = fwio_set_line cfg (nat line) True dev;
               dev = dev\<lparr>fw_held := fw_held dev OR push_bit (nat line) 1\<rparr>
           in fwio_arm_release cfg (nat line) dev)"

text \<open>\<open>funworld_io_walk_state\<close>: what the front end shows, when the walk is on.\<close>

definition funworld_io_walk_state :: "fw_cfg \<Rightarrow> fwio \<Rightarrow> u8 list option" where
  "funworld_io_walk_state cfg dev =
     (if \<not> fwio_walk cfg then None
      else Some (if fw_walk_last dev \<noteq> [] then fw_walk_last dev else bytes ''not started''))"

definition fwio_init :: "fw_cfg \<Rightarrow> u16 \<Rightarrow> rat \<Rightarrow> fwio" where
  "fwio_init cfg base now =
     fwio_reset cfg
       \<lparr>fw_base = base, fw_ctrl = 0, fw_out = [0, 0, 0], fw_in = [0, 0, 0],
        fw_release = replicate FWIO_IN_LINES None, fw_held = 0, fw_train = None, fw_train_left = 0,
        fw_train_port = 0, fw_train_bit = 0, fw_walk_at = 0, fw_walk_last = [], fw_now = now\<rparr>"

section \<open>The running card\<close>

text \<open>
  What can happen to the card: the guest writes a register, the front end presses a
  button, time passes, or a timer that is due fires. Guest reads change nothing.
\<close>

datatype fw_event = Guest_Writes u16 u8 | Press int | Passes rat | Release_Fires nat | Train_Fires

inductive fw_step :: "fw_cfg \<Rightarrow> fwio \<Rightarrow> fw_event \<Rightarrow> fwio \<Rightarrow> bool" for cfg dev where
  guest_writes: "fw_step cfg dev (Guest_Writes port v) (fwio_write port v dev)"
| pressed: "fw_step cfg dev (Press line) (funworld_io_pulse cfg line dev)"
| time_passes: "0 \<le> dt \<Longrightarrow> fw_step cfg dev (Passes dt) (dev\<lparr>fw_now := fw_now dev + dt\<rparr>)"
| release_fires: "i < FWIO_IN_LINES \<Longrightarrow> fw_release dev ! i = Some due \<Longrightarrow> due \<le> fw_now dev \<Longrightarrow>
    fw_step cfg dev (Release_Fires i) (fwio_release_cb cfg i (dev\<lparr>fw_release := (fw_release dev)[i := None]\<rparr>))"
| train_fires: "fw_train dev = Some due \<Longrightarrow> due \<le> fw_now dev \<Longrightarrow>
    fw_step cfg dev Train_Fires (fwio_train_tick cfg due (dev\<lparr>fw_train := None\<rparr>))"

inductive_simps fw_step_press [simp]: "fw_step cfg dev (Press line) dev'"
inductive_simps fw_step_time [simp]: "fw_step cfg dev (Passes dt) dev'"
inductive_simps fw_step_write [simp]: "fw_step cfg dev (Guest_Writes port v) dev'"
inductive_cases fw_step_releaseE: "fw_step cfg dev (Release_Fires i) dev'"
inductive_cases fw_step_trainE: "fw_step cfg dev Train_Fires dev'"

inductive fw_trace :: "fw_cfg \<Rightarrow> fwio \<Rightarrow> fw_event list \<Rightarrow> fwio \<Rightarrow> bool" for cfg dev where
  no_event: "fw_trace cfg dev [] dev"
| one_more: "fw_trace cfg dev es d \<Longrightarrow> fw_step cfg d e d' \<Longrightarrow> fw_trace cfg dev (es @ [e]) d'"

definition fw_cfg_ok :: "fw_cfg \<Rightarrow> bool" where
  "fw_cfg_ok cfg \<longleftrightarrow> length (fwio_idle cfg) = 3 \<and> length (fwio_hold_mask cfg) = 3 \<and> 0 < fwio_hold_ms cfg"

definition fw_wf :: "fwio \<Rightarrow> bool" where
  "fw_wf dev \<longleftrightarrow> length (fw_in dev) = 3 \<and> length (fw_out dev) = 3 \<and> length (fw_release dev) = FWIO_IN_LINES"

text \<open>Whatever the environment says, the settings are sane.\<close>

lemma env_idle_length [simp]: "length (env_idle is q levels) = length levels"
  by (induction "is" q levels rule: env_idle.induct) (simp_all add: Let_def split: option.split)

lemma env_hold_length [simp]: "length (env_hold q pins) = length pins"
proof (induction q arbitrary: pins rule: measure_induct_rule [where f = length])
  case (less q)
  then have "length (env_hold (drop (k + 1) q) pins) = length pins" if "2 \<le> length q" for k pins
    using that by simp
  then show ?case by (subst env_hold.simps) (simp add: Let_def split: option.split)
qed

lemma env_set_ok: "fw_cfg_ok cfg \<Longrightarrow> (\<And>s cfg. fw_cfg_ok cfg \<Longrightarrow> fw_cfg_ok (f s cfg)) \<Longrightarrow> fw_cfg_ok (env_set v f cfg)"
  by (simp add: env_set_def split: option.split)

lemma fwio_read_env_ok:
  assumes "fw_cfg_ok cfg"
  shows "fw_cfg_ok (fwio_read_env atof env cfg)"
proof -
  have walk: "fw_cfg_ok c \<Longrightarrow> fw_cfg_ok (c\<lparr>fwio_walk := w\<rparr>)" for c w by (simp add: fw_cfg_ok_def)
  show ?thesis
    unfolding fwio_read_env_def Let_def
    by (intro env_set_ok walk assms) (simp_all add: fw_cfg_ok_def env_line_def Let_def del: env_idle.simps)
qed

lemma fw_defaults_ok: "fw_cfg_ok fw_defaults"
  by (simp add: fw_cfg_ok_def fw_defaults_def)

subsection \<open>Levels\<close>

text \<open>A line is asserted when its bit is away from its idle level.\<close>

definition fw_asserted :: "fw_cfg \<Rightarrow> fwio \<Rightarrow> nat \<times> nat \<Rightarrow> bool" where
  "fw_asserted cfg dev = (\<lambda>(p, b). bit (fw_in dev ! p) b \<noteq> bit (fwio_idle cfg ! p) b)"

lemma fw_in_set_bit:
  assumes "fw_wf dev" "p < 3" "b < 8"
  shows "bit (fw_in (fwio_set_bit cfg p b a dev) ! q) n =
    (if q = p \<and> n = b then a \<noteq> bit (fwio_idle cfg ! p) b else bit (fw_in dev ! q) n)"
proof -
  have m: "bit (push_bit b 1 :: u8) k \<longleftrightarrow> k = b" for k
    using assms(3) by (simp only: bit_push_bit_iff bit_1_iff possible_bit_word) auto
  have z: "v AND push_bit b 1 = 0 \<longleftrightarrow> \<not> bit v b" for v :: u8
    by (rule iffI, metis bit_and_iff bit_0_eq bot_apply bot_bool_def m)
      (rule bit_eqI, auto simp: bit_and_iff m simp del: push_bit_of_1)
  have k: "n \<noteq> b \<or> possible_bit TYPE(u8) n" using assms(3) by simp
  show ?thesis
    using assms k unfolding fw_wf_def fwio_set_bit_def Let_def fwio_idle_of_def
    by (cases "q = p") (auto simp: nth_list_update_if bit_or_iff bit_and_iff bit_not_iff m z
        simp del: push_bit_of_1 dest: bit_imp_possible_bit)
qed

lemma fwio_set_bit_frame [simp]:
  "fw_wf (fwio_set_bit cfg p b a dev) = fw_wf dev" "fw_release (fwio_set_bit cfg p b a dev) = fw_release dev"
  "fw_now (fwio_set_bit cfg p b a dev) = fw_now dev" "fw_base (fwio_set_bit cfg p b a dev) = fw_base dev"
  "fw_train (fwio_set_bit cfg p b a dev) = fw_train dev" "fw_held (fwio_set_bit cfg p b a dev) = fw_held dev"
  by (simp_all add: fwio_set_bit_def fw_wf_def Let_def)

lemma fw_asserted_set_bit:
  assumes "fw_wf dev" "p < 3" "b < 8"
  shows "fw_asserted cfg (fwio_set_bit cfg p b a dev) pb = (if pb = (p, b) then a else fw_asserted cfg dev pb)"
  using fw_in_set_bit [OF assms] by (cases pb) (auto simp: fw_asserted_def)

lemma fwio_line_map_distinct: "distinct fwio_line_map" by code_simp

lemma fwio_line_map_length [simp]: "length fwio_line_map = FWIO_IN_LINES"
  by (simp add: fwio_line_map_def FWIO_IN_LINES_def)

lemma fwio_line_map_bounds: "l < FWIO_IN_LINES \<Longrightarrow> fst (fwio_line_map ! l) < 3 \<and> snd (fwio_line_map ! l) < 8"
proof -
  have "\<forall>(p, b) \<in> set fwio_line_map. p < 3 \<and> b < 8" by code_simp
  moreover assume "l < FWIO_IN_LINES"
  then have "fwio_line_map ! l \<in> set fwio_line_map" by simp
  ultimately show ?thesis by auto
qed

lemma fw_asserted_set_line:
  assumes "fw_wf dev" "l < FWIO_IN_LINES"
  shows "fw_asserted cfg (fwio_set_line cfg l a dev) pb = (if pb = fwio_line_map ! l then a else fw_asserted cfg dev pb)"
  using fw_asserted_set_bit [OF assms(1)] fwio_line_map_bounds [OF assms(2)] by (simp add: fwio_set_line_def)

lemma fwio_line_map_eq:
  "l < FWIO_IN_LINES \<Longrightarrow> k < FWIO_IN_LINES \<Longrightarrow> fwio_line_map ! l = fwio_line_map ! k \<longleftrightarrow> l = k"
  using nth_eq_iff_index_eq [OF fwio_line_map_distinct] by simp

subsection \<open>Lines and timers\<close>

definition fw_armed :: "fwio \<Rightarrow> nat \<Rightarrow> bool" where
  "fw_armed dev l \<longleftrightarrow> fw_release dev ! l \<noteq> None"

text \<open>\<open>PEEPEEBOX_IO_HOLD\<close> names none of the wired lines.\<close>

definition fw_pins_spare :: "fw_cfg \<Rightarrow> bool" where
  "fw_pins_spare cfg \<longleftrightarrow> (\<forall>(p, b) \<in> set fwio_line_map. \<not> bit (fwio_hold_mask cfg ! p) b)"

text \<open>
  With the walk off: a line whose timer is armed is asserted, the bitmap says which these
  are, and the bits no line is wired to stay at their idle level, or away from it where
  they are pinned. When only such bits are pinned, the other lines rest.
\<close>

definition fw_lines :: "fw_cfg \<Rightarrow> fwio \<Rightarrow> bool" where
  "fw_lines cfg dev \<longleftrightarrow> fw_wf dev \<and> fw_train dev = None \<and>
     (\<forall>l < FWIO_IN_LINES. bit (fw_held dev) l = fw_armed dev l) \<and>
     (\<forall>l < FWIO_IN_LINES. fw_armed dev l \<longrightarrow> fw_asserted cfg dev (fwio_line_map ! l)) \<and>
     (fw_pins_spare cfg \<longrightarrow> (\<forall>l < FWIO_IN_LINES. fw_asserted cfg dev (fwio_line_map ! l) \<longrightarrow> fw_armed dev l)) \<and>
     (\<forall>p < 3. \<forall>b < 8. (p, b) \<notin> set fwio_line_map \<longrightarrow> fw_asserted cfg dev (p, b) = bit (fwio_hold_mask cfg ! p) b)"

lemma fw_asserted_idle:
  assumes "fw_cfg_ok cfg" "p < 3"
  shows "fw_asserted cfg (fwio_idle_all cfg dev) (p, b) = bit (fwio_hold_mask cfg ! p) b"
proof -
  have "map (\<lambda>port. fwio_idle_of cfg port XOR fwio_hold_mask cfg ! port) [0, 1, 2] ! p = fwio_idle cfg ! p XOR fwio_hold_mask cfg ! p"
    using assms(2) by (auto simp: fwio_idle_of_def less_Suc_eq numeral_eq_Suc)
  then show ?thesis by (simp add: fw_asserted_def fwio_idle_all_def bit_xor_iff del: list.map) auto
qed

lemma fw_lines_init: 
  assumes "fw_cfg_ok cfg"
  shows "fw_lines cfg (fwio_init cfg base now)"
proof -
  let ?d = "fwio_init cfg base now"
  have armed: "\<not> fw_armed ?d l" if "l < FWIO_IN_LINES" for l
    using that by (simp add: fw_armed_def fwio_init_def fwio_reset_def fwio_idle_all_def)
  have eq: "fw_asserted cfg ?d pb = fw_asserted cfg (fwio_idle_all cfg ?d) pb" for pb
    by (cases pb) (simp add: fw_asserted_def fwio_init_def fwio_reset_def fwio_idle_all_def)
  have asserted: "fw_asserted cfg ?d (p, b) = bit (fwio_hold_mask cfg ! p) b" if "p < 3" for p b
    using fw_asserted_idle [OF assms that] by (simp add: eq)
  have wf: "fw_wf ?d" "fw_train ?d = None" "fw_held ?d = 0"
    by (simp_all add: fw_wf_def fwio_init_def fwio_reset_def fwio_idle_all_def)
  have spare: "\<not> fw_asserted cfg ?d (fwio_line_map ! l)" if "fw_pins_spare cfg" "l < FWIO_IN_LINES" for l
  proof -
    have "fwio_line_map ! l \<in> set fwio_line_map" using that(2) by simp
    then show ?thesis
      using that asserted [of "fst (fwio_line_map ! l)" "snd (fwio_line_map ! l)"] fwio_line_map_bounds [OF that(2)]
      by (auto simp: fw_pins_spare_def)
  qed
  show ?thesis unfolding fw_lines_def using wf armed asserted spare by simp
qed

lemma fw_lines_frame:
  assumes "fw_in dev' = fw_in dev" "fw_release dev' = fw_release dev" "fw_held dev' = fw_held dev"
    "fw_train dev' = fw_train dev" "length (fw_out dev') = length (fw_out dev)"
  shows "fw_lines cfg dev' = fw_lines cfg dev"
  using assms by (simp add: fw_lines_def fw_wf_def fw_armed_def fw_asserted_def)

lemma fwio_write_frame [simp]:
  "fw_in (fwio_write port v dev) = fw_in dev" "fw_release (fwio_write port v dev) = fw_release dev"
  "fw_held (fwio_write port v dev) = fw_held dev" "fw_train (fwio_write port v dev) = fw_train dev"
  "fw_now (fwio_write port v dev) = fw_now dev" "fw_base (fwio_write port v dev) = fw_base dev"
  "fw_walk_at (fwio_write port v dev) = fw_walk_at dev"
  "length (fw_out dev) = 3 \<Longrightarrow> length (fw_out (fwio_write port v dev)) = 3"
  by (simp_all add: fwio_write_def Let_def)

text \<open>Setting one line and its timer together keeps the correspondence.\<close>

lemma fw_lines_set:
  assumes "fw_lines cfg dev" "l < FWIO_IN_LINES" "fw_wf dev'"
    and "fw_release dev' = (fw_release dev)[l := t]" "a = (t \<noteq> None)"
    and "fw_held dev' = (if a then fw_held dev OR push_bit l 1 else fw_held dev AND NOT (push_bit l 1))"
    and "fw_train dev' = fw_train dev" "fw_in dev' = fw_in (fwio_set_line cfg l a dev)"
  shows "fw_lines cfg dev'"
proof -
  have wf: "fw_wf dev" using assms(1) by (simp add: fw_lines_def)
  have armed: "fw_armed dev' k = (if k = l then a else fw_armed dev k)" if "k < FWIO_IN_LINES" for k
    using assms(2,4,5) that wf by (auto simp: fw_armed_def fw_wf_def nth_list_update_if)
  have as: "fw_asserted cfg dev' pb = (if pb = fwio_line_map ! l then a else fw_asserted cfg dev pb)" for pb
    using fw_asserted_set_line [OF wf assms(2), of cfg a pb] assms(8) by (cases pb) (simp add: fw_asserted_def)
  have m: "bit (push_bit l 1 :: u16) k \<longleftrightarrow> k = l" for k
    using assms(2) by (simp only: bit_push_bit_iff bit_1_iff possible_bit_word FWIO_IN_LINES_def) auto
  have held: "bit (fw_held dev') k = (if k = l then a else bit (fw_held dev) k)" if "k < FWIO_IN_LINES" for k
    using that assms(6) by (auto simp: bit_or_iff bit_and_iff bit_not_iff m FWIO_IN_LINES_def simp del: push_bit_of_1)
  have "fwio_line_map ! l \<in> set fwio_line_map" using assms(2) by simp
  then have free: "pb \<notin> set fwio_line_map \<Longrightarrow> pb \<noteq> fwio_line_map ! l" for pb by auto
  show ?thesis
    using assms(1,3,7) unfolding fw_lines_def
    by (auto simp: armed as held fwio_line_map_eq assms(2) dest: free)
qed

lemma fw_lines_press:
  assumes "fw_lines cfg dev" "\<not> fwio_walk cfg"
  shows "fw_lines cfg (funworld_io_pulse cfg line dev)"
proof (cases "0 \<le> line \<and> line < int FWIO_IN_LINES")
  case True
  then have l: "nat line < FWIO_IN_LINES" by auto
  show ?thesis
    by (rule fw_lines_set [OF assms(1) l, where t = "Some (fw_now dev + fwio_hold_us cfg)" and a = True])
      (use True assms in \<open>auto simp: funworld_io_pulse_def fwio_arm_release_def fwio_set_line_def fwio_set_bit_def fw_lines_def fw_wf_def Let_def\<close>)
qed (use assms in \<open>auto simp: funworld_io_pulse_def\<close>)

lemma fw_lines_release:
  assumes "fw_lines cfg dev" "\<not> fwio_walk cfg" "i < FWIO_IN_LINES"
  shows "fw_lines cfg (fwio_release_cb cfg i (dev\<lparr>fw_release := (fw_release dev)[i := None]\<rparr>))"
  by (rule fw_lines_set [OF assms(1,3), where t = None and a = False])
    (use assms in \<open>auto simp: fwio_release_cb_def fwio_release_def fwio_set_line_def fwio_set_bit_def fw_lines_def fw_wf_def Let_def\<close>)

lemma fw_lines_step:
  assumes "fw_step cfg dev e dev'" "fw_lines cfg dev" "\<not> fwio_walk cfg"
  shows "fw_lines cfg dev'"
  using assms(1)
proof cases
  case (guest_writes port v)
  have "length (fw_out (fwio_write port v dev)) = length (fw_out dev)"
    using assms(2) by (simp add: fw_lines_def fw_wf_def)
  then show ?thesis using assms(2) guest_writes by (subst fw_lines_frame [of _ dev]) simp_all
next
  case (time_passes dt)
  then show ?thesis using assms(2) by (subst fw_lines_frame [of _ dev]) simp_all
next
  case (train_fires due)
  then show ?thesis using assms(2) by (simp add: fw_lines_def)
qed (use assms fw_lines_press fw_lines_release in simp_all)

lemma fw_lines_trace:
  "fw_trace cfg dev es dev' \<Longrightarrow> fw_lines cfg dev \<Longrightarrow> \<not> fwio_walk cfg \<Longrightarrow> fw_lines cfg dev'"
  by (induction rule: fw_trace.induct) (auto intro: fw_lines_step)

text \<open>
  A released line returns to its idle level even when \<open>PEEPEEBOX_IO_HOLD\<close> pins it: the
  pin does not survive the first press.
\<close>

lemma release_ignores_pin:
  assumes "fw_wf dev" "l < FWIO_IN_LINES" "\<not> fwio_walk cfg"
  shows "\<not> fw_asserted cfg (fwio_release_cb cfg l dev) (fwio_line_map ! l)"
  using fw_asserted_set_line [OF assms(1,2), of cfg False "fwio_line_map ! l"] assms(3)
  by (cases "fwio_line_map ! l") (simp add: fwio_release_cb_def fwio_release_def fw_asserted_def Let_def)

subsection \<open>Time and the base address\<close>

lemma fwio_idle_all_frame [simp]:
  "fw_now (fwio_idle_all cfg dev) = fw_now dev" "fw_base (fwio_idle_all cfg dev) = fw_base dev"
  "fw_walk_at (fwio_idle_all cfg dev) = fw_walk_at dev" "fw_release (fwio_idle_all cfg dev) = fw_release dev"
  "fw_train (fwio_idle_all cfg dev) = fw_train dev" "fw_out (fwio_idle_all cfg dev) = fw_out dev"
  by (simp_all add: fwio_idle_all_def)

lemma fwio_set_bit_walk_at [simp]: "fw_walk_at (fwio_set_bit cfg p b a dev) = fw_walk_at dev"
  by (simp add: fwio_set_bit_def Let_def)

lemma fw_pulse_frame:
  "fw_now (funworld_io_pulse cfg line dev) = fw_now dev" "fw_base (funworld_io_pulse cfg line dev) = fw_base dev"
  by (simp_all add: funworld_io_pulse_def walk_click_def fwio_arm_release_def fwio_set_line_def Let_def)

lemma fw_step_clock: "fw_step cfg dev e dev' \<Longrightarrow> fw_now dev \<le> fw_now dev' \<and> fw_base dev' = fw_base dev"
  by (erule fw_step.cases)
    (simp_all add: fw_pulse_frame fwio_release_cb_def fwio_walk_release_def fwio_release_def fwio_set_line_def
      fwio_train_tick_def Let_def)

lemma fw_trace_clock: "fw_trace cfg dev es dev' \<Longrightarrow> fw_now dev \<le> fw_now dev' \<and> fw_base dev' = fw_base dev"
  by (induction rule: fw_trace.induct) (auto dest: fw_step_clock)

lemma fwio_init_base [simp]: "fw_base (fwio_init cfg base now) = base"
  by (simp add: fwio_init_def fwio_reset_def)

text \<open>The register the guest reads a line from.\<close>

lemma fwio_read_port:
  assumes "p < 3"
  shows "fwio_read (fw_base dev + word_of_nat p) dev = fw_in dev ! p"
proof -
  have "p = 0 \<or> p = 1 \<or> p = 2" using assms by auto
  then show ?thesis by (auto simp: fwio_read_def)
qed

subsection \<open>A coin holds its line\<close>

lemma fw_hold_step:
  assumes "fw_step cfg dev e dev'" "\<not> fwio_walk cfg" "fw_lines cfg dev" "l < FWIO_IN_LINES"
    and "fw_release dev ! l = Some x" "d \<le> x" "fw_now dev < d" "d \<le> fw_now dev + fwio_hold_us cfg"
  shows "\<exists>y. fw_release dev' ! l = Some y \<and> d \<le> y"
proof -
  have n: "length (fw_release dev) = FWIO_IN_LINES" using assms(3) by (simp add: fw_lines_def fw_wf_def)
  from assms(1) show ?thesis
  proof cases
    case (pressed line)
    then show ?thesis using assms(2,4-6,8) n
      by (auto simp: funworld_io_pulse_def fwio_arm_release_def fwio_set_line_def Let_def nth_list_update_if)
  next
    case (release_fires i due)
    then have "i \<noteq> l" using assms(5-7) by auto
    then show ?thesis using release_fires assms(2,5,6)
      by (simp add: fwio_release_cb_def fwio_release_def fwio_set_line_def Let_def)
  next
    case (train_fires due)
    then show ?thesis using assms(3) by (simp add: fw_lines_def)
  qed (use assms in simp_all)
qed

lemma fw_hold_trace:
  assumes "fw_trace cfg dev es dev'" "\<not> fwio_walk cfg" "fw_lines cfg dev" "l < FWIO_IN_LINES"
    and "fw_release dev ! l = Some d" "fw_now dev' < d" "d = fw_now dev + fwio_hold_us cfg"
  shows "\<exists>y. fw_release dev' ! l = Some y \<and> d \<le> y"
  using assms
proof (induction rule: fw_trace.induct)
  case (one_more es dd e dd')
  have now: "fw_now dev \<le> fw_now dd" "fw_now dd \<le> fw_now dd'"
    using fw_trace_clock [OF one_more(1)] fw_step_clock [OF one_more(2)] by simp_all
  then have "fw_now dd < d" using one_more.prems by simp
  with one_more obtain y where "fw_release dd ! l = Some y" "d \<le> y" by blast
  then show ?case
    by (intro fw_hold_step [OF one_more(2)]) (use one_more fw_lines_trace \<open>fw_now dd < d\<close> now in auto)
qed simp



text \<open>
  What the guest reads is what the wires carry: in any run with the walk off, where only
  spare pins are pinned, a line reads asserted exactly while its timer runs, and every bit
  no line is wired to reads its idle level, or the opposite where it is pinned. Nothing
  the guest writes shows on the inputs.
\<close>

theorem lines_follow_timers:
  assumes "cfg = fwio_read_env atof env fw_defaults" "\<not> fwio_walk cfg" "fw_pins_spare cfg"
    and "fw_trace cfg (fwio_init cfg base now) es dev" "p < 3" "b < 8"
  shows "(bit (fwio_read (base + word_of_nat p) dev) b \<noteq> bit (fwio_idle cfg ! p) b) =
    (if \<exists>l < FWIO_IN_LINES. fwio_line_map ! l = (p, b)
     then \<exists>l < FWIO_IN_LINES. fwio_line_map ! l = (p, b) \<and> fw_release dev ! l \<noteq> None
     else bit (fwio_hold_mask cfg ! p) b)"
proof -
  have ok: "fw_cfg_ok cfg" using fwio_read_env_ok [OF fw_defaults_ok] assms(1) by simp
  have lines: "fw_lines cfg dev" by (rule fw_lines_trace [OF assms(4) fw_lines_init [OF ok] assms(2)])
  have "fw_base dev = base" using fw_trace_clock [OF assms(4)] by simp
  then have rd: "(bit (fwio_read (base + word_of_nat p) dev) b \<noteq> bit (fwio_idle cfg ! p) b) = fw_asserted cfg dev (p, b)"
    using fwio_read_port [OF assms(5), of dev] by (simp add: fw_asserted_def)
  show ?thesis
  proof (cases "\<exists>l < FWIO_IN_LINES. fwio_line_map ! l = (p, b)")
    case True
    then obtain l where l: "l < FWIO_IN_LINES" "fwio_line_map ! l = (p, b)" by blast
    then have "fw_asserted cfg dev (p, b) = fw_armed dev l"
      using lines assms(3) by (auto simp: fw_lines_def)
    moreover have "k = l" if "k < FWIO_IN_LINES" "fwio_line_map ! k = (p, b)" for k
      using fwio_line_map_eq [OF that(1) l(1)] that(2) l(2) by simp
    then have "(\<exists>k < FWIO_IN_LINES. fwio_line_map ! k = (p, b) \<and> fw_release dev ! k \<noteq> None) = fw_armed dev l"
      using l unfolding fw_armed_def by blast
    ultimately show ?thesis using True unfolding rd by (simp only: if_True)
  next
    case False
    then have "(p, b) \<notin> set fwio_line_map" by (auto simp: in_set_conv_nth)
    then show ?thesis using False lines assms(5,6) unfolding rd by (auto simp: fw_lines_def)
  qed
qed

theorem lines_follow_timers_witness:
  "bit (fwio_read 0x210 (funworld_io_pulse fw_defaults 0 (fwio_init fw_defaults 0x210 0))) 6"
proof -
  let ?env = "\<lparr>IO_LINE = None, IO_HOLD = None, IO_MS = None, IO_PULSES = None, IO_IDLE = None, IO_WALK = None\<rparr>"
  let ?i = "fwio_init fw_defaults 0x210 0"
  have env: "fw_defaults = fwio_read_env (\<lambda>_. 0) ?env fw_defaults"
    by (simp add: fwio_read_env_def env_set_def fw_defaults_def Let_def)
  have t: "fw_trace fw_defaults ?i ([] @ [Press 0]) (funworld_io_pulse fw_defaults 0 ?i)"
    by (rule fw_trace.intros)+ simp
  have spare: "fw_pins_spare fw_defaults" by code_simp
  have lines: "l < FWIO_IN_LINES \<Longrightarrow> fwio_line_map ! l = (0, 6) \<longleftrightarrow> l = 4" for l
    using fwio_line_map_eq [of l 4] by (simp add: FWIO_IN_LINES_def) (simp add: fwio_line_map_def)
  have "fw_release (funworld_io_pulse fw_defaults 0 ?i) ! 4 = None"
    by (simp add: funworld_io_pulse_def fw_defaults_def fwio_arm_release_def fwio_set_line_def FWIO_IN_LINES_def
        fwio_init_def fwio_reset_def Let_def)
  then have none: "\<not> (\<exists>l < FWIO_IN_LINES. fwio_line_map ! l = (0, 6) \<and>
      fw_release (funworld_io_pulse fw_defaults 0 ?i) ! l \<noteq> None)"
    using lines by auto
  have "\<exists>l < FWIO_IN_LINES. fwio_line_map ! l = (0, 6)"
    by (rule exI [of _ 4]) (simp add: FWIO_IN_LINES_def fwio_line_map_def)
  moreover have "\<not> fwio_walk fw_defaults" "bit (fwio_idle fw_defaults ! 0) 6" by (simp_all add: fw_defaults_def)
  ultimately show ?thesis
    using lines_follow_timers [OF env _ spare t, of 0 6] none by auto
qed

section \<open>The walk\<close>

text \<open>The steps the walk takes: A0, A2 to A7 and C0 to C7.\<close>

definition walk_lines :: "nat list" where
  "walk_lines = [0, 2, 3, 4, 5, 6, 7, 16, 17, 18, 19, 20, 21, 22, 23]"

lemma walk_skip_lands: "pos < FWIO_WALK_STEPS \<Longrightarrow> walk_skip FWIO_WALK_STEPS pos \<in> set walk_lines"
proof -
  have "\<forall>pos \<in> set [0..<FWIO_WALK_STEPS]. walk_skip FWIO_WALK_STEPS pos \<in> set walk_lines" by code_simp
  then show "pos < FWIO_WALK_STEPS \<Longrightarrow> ?thesis" by simp
qed

lemma walk_skip_turns:
  "k < 15 \<Longrightarrow> walk_skip FWIO_WALK_STEPS ((walk_lines ! k + 1) mod FWIO_WALK_STEPS) = walk_lines ! (Suc k mod 15)"
proof -
  have "\<forall>k \<in> set [0..<15]. walk_skip FWIO_WALK_STEPS ((walk_lines ! k + 1) mod FWIO_WALK_STEPS) = walk_lines ! (Suc k mod 15)"
    by code_simp
  then show "k < 15 \<Longrightarrow> ?thesis" by simp
qed

text \<open>Where the walk stands after \<open>n\<close> clicks, with neither a pin nor a port chosen.\<close>

definition walk_stands :: "nat \<Rightarrow> nat" where
  "walk_stands n = (if n = 0 then 0 else (walk_lines ! ((n - 1) mod 15) + 1) mod FWIO_WALK_STEPS)"

lemma walk_target_at:
  assumes "fwio_pin cfg < 0" "fwio_only_port cfg < 0"
  shows "walk_target cfg (walk_stands n) = walk_lines ! (n mod 15)"
proof (cases n)
  case 0
  have "walk_skip FWIO_WALK_STEPS 0 = walk_lines ! 0" by code_simp
  then show ?thesis using assms 0 by (simp add: walk_target_def walk_stands_def)
next
  case (Suc m)
  then show ?thesis
    using assms walk_skip_turns [of "m mod 15"] by (simp add: walk_target_def walk_stands_def mod_Suc_eq)
qed

text \<open>Whatever pin or port is chosen, a click drives neither an output nor the CRC check.\<close>

lemma walk_target_lands:
  assumes "fwio_pin cfg < 24" "fwio_only_port cfg < 3" "pos < FWIO_WALK_STEPS"
  shows "walk_target cfg pos \<in> set walk_lines"
  unfolding walk_target_def by (rule walk_skip_lands) (use assms in \<open>auto simp: FWIO_WALK_STEPS_def\<close>)

text \<open>A pin on a step the walk refuses moves on to the next one it takes.\<close>

lemma pinned_A1_drives_A2:
  "fwio_pin cfg = 1 \<Longrightarrow> walk_target cfg pos = 2"
  "8 \<le> fwio_pin cfg \<Longrightarrow> fwio_pin cfg < 16 \<Longrightarrow> walk_target cfg pos = 16"
proof -
  have a: "walk_skip FWIO_WALK_STEPS 1 = 2" by code_simp
  have b: "\<forall>k \<in> set [8..<16]. walk_skip FWIO_WALK_STEPS k = 16" by code_simp
  show "fwio_pin cfg = 1 \<Longrightarrow> walk_target cfg pos = 2" using a by (simp add: walk_target_def)
  assume c: "8 \<le> fwio_pin cfg" "fwio_pin cfg < 16"
  then have "nat (fwio_pin cfg) \<in> set [8..<16]" unfolding set_upt atLeastLessThan_iff by linarith
  then show "walk_target cfg pos = 16" using c bspec [OF b] by (simp add: walk_target_def del: set_upt)
qed

lemma fw_step_walk:
  assumes "fw_step cfg dev e dev'" "fw_wf dev" "fwio_walk cfg"
  shows "fw_wf dev' \<and> fw_walk_at dev' = (if e = Press 0 then walk_next cfg (walk_target cfg (fw_walk_at dev)) else fw_walk_at dev)"
proof -
  have wf: "fw_wf (fwio_set_line cfg l a d) = fw_wf d" "fw_walk_at (fwio_set_line cfg l a d) = fw_walk_at d" for l a d
    by (simp_all add: fwio_set_line_def)
  have lens: "length (fw_in (fwio_set_bit cfg q b a d)) = length (fw_in d)" "fw_out (fwio_set_bit cfg q b a d) = fw_out d"
    "length (fw_in (fwio_idle_all cfg d)) = 3" for q b a d
    by (simp_all add: fwio_set_bit_def fwio_idle_all_def Let_def)
  have idle: "fw_wf (fwio_idle_all cfg d) \<longleftrightarrow> length (fw_out d) = 3 \<and> length (fw_release d) = FWIO_IN_LINES" for d
    by (simp add: fwio_idle_all_def fw_wf_def)
  have upd: "fw_wf (d\<lparr>fw_train := t\<rparr>) = fw_wf d" "fw_wf (d\<lparr>fw_train_left := i\<rparr>) = fw_wf d" "fw_wf (d\<lparr>fw_held := h\<rparr>) = fw_wf d"
    "fw_wf (d\<lparr>fw_now := n\<rparr>) = fw_wf d" "fw_wf (d\<lparr>fw_walk_last := w\<rparr>) = fw_wf d" "fw_wf (d\<lparr>fw_walk_at := k\<rparr>) = fw_wf d"
    "fw_wf (d\<lparr>fw_train_port := k\<rparr>) = fw_wf d" "fw_wf (d\<lparr>fw_train_bit := k\<rparr>) = fw_wf d"
    "fw_wf (d\<lparr>fw_release := (fw_release d)[k := t]\<rparr>) = fw_wf d" for d t i h n w k
    by (simp_all add: fw_wf_def)
  from assms(1) show ?thesis
  proof cases
    case (guest_writes port v)
    then show ?thesis using assms(2) by (simp add: fw_wf_def)
  next
    case (pressed line)
    then show ?thesis using assms(2,3)
      by (simp add: funworld_io_pulse_def walk_click_def fwio_arm_release_def wf upd idle FWIO_LINE_COIN1_def FWIO_IN_LINES_def Let_def)
        (simp add: fw_wf_def FWIO_IN_LINES_def lens fwio_set_line_def)
  next
    case (release_fires i due)
    then show ?thesis using assms(2,3) by (simp add: fwio_release_cb_def fwio_walk_release_def idle) (simp add: fw_wf_def)
  qed (use assms(2) in \<open>simp_all add: upd fwio_train_tick_def Let_def\<close>)
qed

lemma fw_trace_walk:
  assumes "fw_trace cfg dev es dev'" "fw_wf dev" "fw_walk_at dev = 0" "fwio_walk cfg"
    and "fwio_pin cfg < 0" "fwio_only_port cfg < 0"
  shows "fw_wf dev' \<and> fw_walk_at dev' = walk_stands (length (filter ((=) (Press 0)) es))"
  using assms
proof (induction rule: fw_trace.induct)
  case (one_more es d e d')
  let ?n = "length (filter ((=) (Press 0)) es)"
  have "fw_wf d" "fw_walk_at d = walk_stands ?n" using one_more by simp_all
  then have "fw_wf d' \<and> fw_walk_at d' = (if e = Press 0 then walk_next cfg (walk_lines ! (?n mod 15)) else walk_stands ?n)"
    using fw_step_walk [OF one_more(2) _ assms(4)] walk_target_at [OF assms(5,6), of ?n] by simp
  moreover have "walk_next cfg (walk_lines ! (?n mod 15)) = walk_stands (Suc ?n)"
    using assms(6) by (simp add: walk_next_def walk_stands_def Let_def)
  ultimately show ?case by auto
qed (simp add: walk_stands_def)

text \<open>
  With the walk on and neither a pin nor a port chosen, the \<open>n\<close>-th click of the coin
  button, whatever happened between the clicks, drives line \<open>n mod 15\<close> of A0, A2 to A7,
  C0 to C7 and nothing else: every other bit of the three ports reads its idle level, or
  the opposite where it is pinned. The mechanical counters on port B and the CRC check on
  A1 are never driven, and fifteen clicks name every line.
\<close>

lemma walk_names_every_line:
  assumes "cfg = fwio_read_env atof env fw_defaults" "fwio_walk cfg" "fwio_pin cfg < 0" "fwio_only_port cfg < 0"
    and "fw_trace cfg (fwio_init cfg base now) es dev" "n = length (filter ((=) (Press 0)) es)"
    and "t = walk_lines ! (n mod 15)" "p < 3" "b < 8"
  shows "(bit (fwio_read (base + word_of_nat p) (funworld_io_pulse cfg 0 dev)) b \<noteq> bit (fwio_idle cfg ! p) b) =
    (8 * p + b = t \<or> bit (fwio_hold_mask cfg ! p) b)"
proof -
  let ?d = "funworld_io_pulse cfg 0 dev" and ?i = "fwio_idle_all cfg dev"
  have ok: "fw_cfg_ok cfg" using fwio_read_env_ok [OF fw_defaults_ok] assms(1) by simp
  have "fw_wf (fwio_init cfg base now)" using fw_lines_init [OF ok] by (simp add: fw_lines_def)
  then have dev: "fw_wf dev" "fw_walk_at dev = walk_stands n"
    using fw_trace_walk [OF assms(5) _ _ assms(2-4)] assms(6) by (simp_all add: fwio_init_def fwio_reset_def)
  then have t: "walk_target cfg (fw_walk_at dev) = t" using walk_target_at [OF assms(3,4)] assms(7) by simp
  have "\<forall>u \<in> set walk_lines. u < 24" by code_simp
  moreover have "length walk_lines = 15" by (simp add: walk_lines_def)
  then have "t \<in> set walk_lines" unfolding assms(7) by (intro nth_mem) simp
  ultimately have lt: "t < 24" by blast
  have "fw_in ?d = fw_in (fwio_set_bit cfg (t div 8) (t mod 8) True ?i)"
    using assms(2) t by (simp add: funworld_io_pulse_def FWIO_IN_LINES_def FWIO_LINE_COIN1_def walk_click_def fwio_arm_release_def Let_def)
  then have "fw_asserted cfg ?d (p, b) = fw_asserted cfg (fwio_set_bit cfg (t div 8) (t mod 8) True ?i) (p, b)"
    by (simp add: fw_asserted_def)
  also have "\<dots> = ((p, b) = (t div 8, t mod 8) \<or> bit (fwio_hold_mask cfg ! p) b)"
    using dev(1) lt fw_asserted_idle [OF ok assms(8), of dev b]
    by (subst fw_asserted_set_bit) (auto simp: fw_wf_def fwio_idle_all_def)
  also have "(p, b) = (t div 8, t mod 8) \<longleftrightarrow> 8 * p + b = t" using assms(9) by auto
  finally show ?thesis
    using fwio_read_port [OF assms(8), of ?d] fw_trace_clock [OF assms(5)]
    by (simp add: fw_asserted_def fw_pulse_frame)
qed

end
