(* ===== verification/Funlink_Token.thy ===== *)
theory Funlink_Token
  imports IButton
begin

text \<open>
  The token in the fun.link adapter: a second 1-Wire slave, on the bus's own serial
  line, which the menus read before they open the link. The theory translates its
  record, its state machine and its bit slots, and shows what a master reads from it.
  What the slave still has to drive is a list of bits, so that reading it is taking from
  that list.
\<close>

section \<open>State and operations\<close>

definition FUNLINK_OW_MEM :: nat where "FUNLINK_OW_MEM = 128"

definition funlink_crc8_tab :: "u8 list" where
  "funlink_crc8_tab = map (\<lambda>i. (crc8_bit ^^ 8) (word_of_nat i)) [0..<256]"

fun funlink_crc8 :: "u8 list \<Rightarrow> u8 \<Rightarrow> u8" where
  "funlink_crc8 [] crc = crc"
| "funlink_crc8 (d # ds) crc = funlink_crc8 ds (funlink_crc8_tab ! unat (crc XOR d))"

datatype ow_state = FUNLINK_OW_CMD | FUNLINK_OW_TA | FUNLINK_OW_DONE

record funlink_ow =
  ow_rom :: "u8 list"
  ow_mem :: "u8 list"
  ow_inbits :: u8
  ow_nbits :: nat
  ow_out :: "u8 list"
  ow_out_len :: nat
  ow_out_pos :: nat
  ow_state :: ow_state
  ow_ta :: "u8 list"
  ow_nta :: nat
  ow_active :: bool
  ow_last :: u32

definition OW_OUT :: nat where "OW_OUT = FUNLINK_OW_MEM + 8"

definition licence :: "u8 list" where
  "licence = concat (map (\<lambda>n. bytes n @ [0x0D]) [''Seiringer'', ''Pichler'', ''Hutmacher'', ''Obermair'', ''Lukarsch''])"

text \<open>\<open>listening\<close>: the device's state is \<open>FUNLINK_ST_LISTENING\<close>.\<close>

definition funlink_ow_load :: "bool \<Rightarrow> u32 \<Rightarrow> funlink_ow \<Rightarrow> funlink_ow" where
  "funlink_ow_load listening station ow =
     (let station = (if station = 0 then if listening then 1 else 2 else station);
          rom7 = [0x91, ucast (station AND 0xFF), ucast (drop_bit 8 station AND 0xFF), ucast (drop_bit 16 station AND 0xFF),
                  ucast (drop_bit 24 station AND 0xFF), 0x70, 0x5E]
      in ow\<lparr>ow_rom := rom7 @ [funlink_crc8 rom7 0],
            ow_mem := put 5 licence (put 0 [0x37, 0x2A, 0x11] (replicate FUNLINK_OW_MEM 0))\<rparr>)"

definition funlink_ow_reset :: "funlink_ow \<Rightarrow> funlink_ow" where
  "funlink_ow_reset ow =
     ow\<lparr>ow_inbits := 0, ow_nbits := 0, ow_out_len := 0, ow_out_pos := 0, ow_state := FUNLINK_OW_CMD, ow_nta := 0\<rparr>"

definition funlink_ow_queue :: "funlink_ow \<Rightarrow> u8 list \<Rightarrow> funlink_ow" where
  "funlink_ow_queue ow d =
     (let n = min (length d) OW_OUT in ow\<lparr>ow_out := put 0 (take n d) (ow_out ow), ow_out_len := n, ow_out_pos := 0\<rparr>)"

text \<open>The answer to READ MEMORY: the check byte of the command, the page, the check byte of the page.\<close>

definition ow_page :: "funlink_ow \<Rightarrow> u8 list" where
  "ow_page ow =
     (let a = unat (ow_ta ow ! 0) + 256 * unat (ow_ta ow ! 1); crc = funlink_crc8 [0xF0, ow_ta ow ! 0, ow_ta ow ! 1] 0
      in if a < FUNLINK_OW_MEM then crc # drop a (ow_mem ow) @ [funlink_crc8 (drop a (ow_mem ow)) 0] else [crc])"

definition funlink_ow_on_byte :: "u8 \<Rightarrow> funlink_ow \<Rightarrow> funlink_ow" where
  "funlink_ow_on_byte v ow =
     (case ow_state ow of
        FUNLINK_OW_CMD \<Rightarrow>
          (if v = 0x33 then (funlink_ow_queue ow (ow_rom ow))\<lparr>ow_state := FUNLINK_OW_DONE\<rparr>
           else if v = 0xCC then ow\<lparr>ow_state := FUNLINK_OW_CMD\<rparr>
           else if v = 0xF0 then ow\<lparr>ow_nta := 0, ow_state := FUNLINK_OW_TA\<rparr>
           else ow\<lparr>ow_state := FUNLINK_OW_DONE\<rparr>)
      | FUNLINK_OW_TA \<Rightarrow>
          (let ow = ow\<lparr>ow_ta := (ow_ta ow)[ow_nta ow := v], ow_nta := ow_nta ow + 1\<rparr>
           in if ow_nta ow = 2 then (funlink_ow_queue ow (ow_page ow))\<lparr>ow_state := FUNLINK_OW_DONE\<rparr> else ow)
      | FUNLINK_OW_DONE \<Rightarrow> ow)"

definition funlink_ow_slot :: "u8 \<Rightarrow> funlink_ow \<Rightarrow> u8 \<times> funlink_ow" where
  "funlink_ow_slot host ow =
     (if ow_out_pos ow < ow_out_len ow * 8 then
        (if bit (ow_out ow ! (ow_out_pos ow div 8)) (ow_out_pos ow mod 8) then 0xFF else 0x00,
         ow\<lparr>ow_out_pos := ow_out_pos ow + 1\<rparr>)
      else
        (let ow = (if host \<noteq> 0 then ow\<lparr>ow_inbits := ow_inbits ow OR push_bit (ow_nbits ow) 1\<rparr> else ow);
             ow = ow\<lparr>ow_nbits := ow_nbits ow + 1\<rparr>;
             ow = (if ow_nbits ow = 8 then funlink_ow_on_byte (ow_inbits ow) (ow\<lparr>ow_inbits := 0, ow_nbits := 0\<rparr>) else ow)
         in (if host \<noteq> 0 then 0xFF else 0x00, ow)))"

definition ow_zero :: funlink_ow where
  "ow_zero =
     \<lparr>ow_rom = replicate 8 0, ow_mem = replicate FUNLINK_OW_MEM 0, ow_inbits = 0, ow_nbits = 0,
      ow_out = replicate OW_OUT 0, ow_out_len = 0, ow_out_pos = 0, ow_state = FUNLINK_OW_CMD, ow_ta = [0, 0],
      ow_nta = 0, ow_active = False, ow_last = 0\<rparr>"

section \<open>The invariant\<close>

definition ow_wf :: "funlink_ow \<Rightarrow> bool" where
  "ow_wf ow \<longleftrightarrow>
     length (ow_rom ow) = 8 \<and> length (ow_mem ow) = FUNLINK_OW_MEM \<and> length (ow_out ow) = OW_OUT \<and>
     ow_out_len ow \<le> OW_OUT \<and> ow_out_pos ow \<le> 8 * ow_out_len ow \<and> length (ow_ta ow) = 2 \<and>
     ow_nbits ow < 8 \<and> (ow_state ow = FUNLINK_OW_TA \<longrightarrow> ow_nta ow < 2)"

lemmas ow_consts = FUNLINK_OW_MEM_def OW_OUT_def

lemma licence_length: "length licence = 46" by (simp add: licence_def bytes_def)

lemma ow_zero_wf: "ow_wf ow_zero"
  by (simp add: ow_zero_def ow_wf_def)

lemma funlink_ow_load_wf: "ow_wf ow \<Longrightarrow> ow_wf (funlink_ow_load listening station ow)"
  by (simp add: funlink_ow_load_def ow_wf_def licence_length ow_consts Let_def)

lemma funlink_ow_reset_wf: "ow_wf ow \<Longrightarrow> ow_wf (funlink_ow_reset ow)"
  by (simp add: ow_wf_def funlink_ow_reset_def)

lemma funlink_ow_queue_wf: "ow_wf ow \<Longrightarrow> ow_wf (funlink_ow_queue ow d)"
  by (simp add: ow_wf_def funlink_ow_queue_def Let_def)

lemma ow_wf_state [simp]: "ow_wf ow \<Longrightarrow> s \<noteq> FUNLINK_OW_TA \<Longrightarrow> ow_wf (ow\<lparr>ow_state := s\<rparr>)"
  by (simp add: ow_wf_def)

lemma funlink_ow_on_byte_wf:
  assumes "ow_wf ow"
  shows "ow_wf (funlink_ow_on_byte v ow)"
proof (cases "ow_state ow")
  case FUNLINK_OW_CMD
  then show ?thesis using assms funlink_ow_queue_wf [OF assms, of "ow_rom ow"]
    by (simp add: funlink_ow_on_byte_def) (simp add: ow_wf_def)
next
  case FUNLINK_OW_TA
  let ?ow = "ow\<lparr>ow_ta := (ow_ta ow)[ow_nta ow := v], ow_nta := ow_nta ow + 1\<rparr>"
  have "ow_wf (funlink_ow_queue (?ow\<lparr>ow_nta := 0\<rparr>) (ow_page ?ow))"
    by (rule funlink_ow_queue_wf) (use assms FUNLINK_OW_TA in \<open>simp add: ow_wf_def\<close>)
  then show ?thesis using assms FUNLINK_OW_TA
    by (auto simp: funlink_ow_on_byte_def ow_wf_def funlink_ow_queue_def Let_def)
qed (use assms in \<open>simp add: funlink_ow_on_byte_def\<close>)

lemma funlink_ow_slot_wf:
  assumes "ow_wf ow"
  shows "ow_wf (snd (funlink_ow_slot host ow))"
proof (cases "ow_out_pos ow < ow_out_len ow * 8")
  case True
  then show ?thesis using assms by (simp add: funlink_ow_slot_def ow_wf_def)
next
  case False
  have "ow_wf (funlink_ow_on_byte v (ow\<lparr>ow_inbits := 0, ow_nbits := 0\<rparr>))" for v
    by (rule funlink_ow_on_byte_wf) (use assms in \<open>simp add: ow_wf_def\<close>)
  moreover have "ow\<lparr>ow_inbits := x, ow_nbits := y, ow_inbits := 0, ow_nbits := 0\<rparr> = ow\<lparr>ow_inbits := 0, ow_nbits := 0\<rparr>" for x y
    by simp
  ultimately show ?thesis using assms False by (auto simp: funlink_ow_slot_def ow_wf_def Let_def)
qed

text \<open>The two tokens share their CRC, so what is known of one holds of the other.\<close>

lemma funlink_crc8_eq: "funlink_crc8 ds crc = ib_crc8 ds crc"
  by (induction ds arbitrary: crc) (simp_all add: funlink_crc8_tab_def ib_crc8_tab_def del: upt_rec_numeral)

section \<open>Bit slots\<close>

definition slot_bits :: "u8 list \<Rightarrow> bool list" where
  "slot_bits ds = concat (map bits_lsb ds)"

lemma length_slot_bits [simp]: "length (slot_bits ds) = 8 * length ds"
  by (induction ds) (simp_all add: slot_bits_def)

lemma slot_bits_simps [simp]: "slot_bits [] = []" "slot_bits (d # ds) = bits_lsb d @ slot_bits ds"
  "slot_bits (xs @ ys) = slot_bits xs @ slot_bits ys"
  by (simp_all add: slot_bits_def)

lemma nth_slot_bits: "p < 8 * length ds \<Longrightarrow> slot_bits ds ! p = bit (ds ! (p div 8)) (p mod 8)"
proof (induction ds arbitrary: p)
  case (Cons d ds)
  show ?case
  proof (cases "p < 8")
    case True
    then show ?thesis by (simp add: nth_append nth_bits_lsb)
  next
    case False
    then obtain q where "p = q + 8" by (metis add.commute le_Suc_ex not_less)
    moreover have "(q + 8) div 8 = Suc (q div 8)" by presburger
    ultimately show ?thesis using Cons.IH [of q] Cons.prems by (simp add: nth_append)
  qed
qed simp

text \<open>What the slave has left to drive.\<close>

definition ow_bits :: "funlink_ow \<Rightarrow> bool list" where
  "ow_bits ow = drop (ow_out_pos ow) (slot_bits (take (ow_out_len ow) (ow_out ow)))"

fun ow_slots :: "bool list \<Rightarrow> funlink_ow \<Rightarrow> bool list \<times> funlink_ow" where
  "ow_slots [] ow = ([], ow)"
| "ow_slots (b # bs) ow =
     (let (r, ow) = funlink_ow_slot (bit_slot b) ow; (rs, ow) = ow_slots bs ow in (bit r 0 # rs, ow))"

lemma ow_slots_append:
  "ow_slots (xs @ ys) ow = (let (rs, ow) = ow_slots xs ow; (ss, ow) = ow_slots ys ow in (rs @ ss, ow))"
  by (induction xs arbitrary: ow) (simp_all add: split_beta Let_def)

lemma ow_slots_wf: "ow_wf ow \<Longrightarrow> ow_wf (snd (ow_slots bs ow))"
  by (induction bs arbitrary: ow) (simp_all add: split_beta Let_def funlink_ow_slot_wf)

subsection \<open>The slave drives\<close>

lemma ow_drives:
  assumes "ow_wf ow" "ow_bits ow = b # bs"
  shows "funlink_ow_slot h ow = (bit_slot b, ow\<lparr>ow_out_pos := ow_out_pos ow + 1\<rparr>)"
    and "ow_bits (ow\<lparr>ow_out_pos := ow_out_pos ow + 1\<rparr>) = bs"
proof -
  let ?bs = "slot_bits (take (ow_out_len ow) (ow_out ow))"
  have n: "length ?bs = 8 * ow_out_len ow" using assms(1) by (simp add: ow_wf_def)
  have lt: "ow_out_pos ow < 8 * ow_out_len ow"
    using assms(2) n unfolding ow_bits_def by (metis drop_eq_Nil leI list.distinct(1))
  then have "drop (ow_out_pos ow) ?bs = ?bs ! ow_out_pos ow # drop (Suc (ow_out_pos ow)) ?bs"
    using n by (simp add: Cons_nth_drop_Suc)
  then have b: "?bs ! ow_out_pos ow = b" "drop (Suc (ow_out_pos ow)) ?bs = bs"
    using assms(2) by (simp_all add: ow_bits_def)
  have "?bs ! ow_out_pos ow = bit (ow_out ow ! (ow_out_pos ow div 8)) (ow_out_pos ow mod 8)"
    using lt assms(1) by (subst nth_slot_bits) (auto simp: ow_wf_def)
  then show "funlink_ow_slot h ow = (bit_slot b, ow\<lparr>ow_out_pos := ow_out_pos ow + 1\<rparr>)"
    using lt b by (simp add: funlink_ow_slot_def bit_slot_def mult.commute)
  show "ow_bits (ow\<lparr>ow_out_pos := ow_out_pos ow + 1\<rparr>) = bs" using b by (simp add: ow_bits_def)
qed

lemma bit_slot_bit [simp]: "bit (bit_slot b) 0 = b"
  by (simp add: bit_slot_def)

lemma ow_slots_driven:
  "ow_wf ow \<Longrightarrow> length hs \<le> length (ow_bits ow) \<Longrightarrow> fst (ow_slots hs ow) = take (length hs) (ow_bits ow)"
proof (induction hs arbitrary: ow)
  case (Cons h hs)
  then obtain b bs where b: "ow_bits ow = b # bs" by (cases "ow_bits ow") auto
  note d = ow_drives [OF Cons.prems(1) b]
  have "ow_wf (ow\<lparr>ow_out_pos := ow_out_pos ow + 1\<rparr>)"
    using funlink_ow_slot_wf [OF Cons.prems(1), of "bit_slot h"] d(1) [of "bit_slot h"] by simp
  then show ?case
    using Cons.IH [of "ow\<lparr>ow_out_pos := ow_out_pos ow + 1\<rparr>"] Cons.prems(2) b d by (simp add: split_beta Let_def)
qed simp

subsection \<open>The slave listens\<close>

definition ow_listening :: "funlink_ow \<Rightarrow> bool" where
  "ow_listening ow \<longleftrightarrow> ow_wf ow \<and> ow_bits ow = [] \<and> ow_nbits ow = 0 \<and> ow_inbits ow = 0"

definition ow_heard :: "nat \<Rightarrow> u8 \<Rightarrow> funlink_ow \<Rightarrow> funlink_ow" where
  "ow_heard k v ow = ow\<lparr>ow_inbits := take_bit k v, ow_nbits := k\<rparr>"

lemma ow_listening_done: "ow_listening ow \<Longrightarrow> 8 * ow_out_len ow \<le> ow_out_pos ow"
  by (auto simp: ow_listening_def ow_wf_def ow_bits_def)

lemma funlink_ow_slot_listen:
  assumes "8 * ow_out_len ow \<le> ow_out_pos ow" "k < 8" "ow_nbits ow = 0" "ow_inbits ow = 0"
  shows "funlink_ow_slot (bit_slot (bit v k)) (ow_heard k v ow) =
    (bit_slot (bit v k), if k = 7 then funlink_ow_on_byte v ow else ow_heard (Suc k) v ow)"
proof -
  let ?d = "ow_heard k v ow" and ?b = "bit_slot (bit v k)"
  define d1 where "d1 = (if ?b \<noteq> 0 then ?d\<lparr>ow_inbits := ow_inbits ?d OR push_bit (ow_nbits ?d) 1\<rparr> else ?d)"
  have "ow_inbits ?d = take_bit k v" "ow_nbits ?d = k" by (simp_all add: ow_heard_def)
  then have d1: "d1 = ?d\<lparr>ow_inbits := take_bit (Suc k) v\<rparr>"
    unfolding take_bit_next [OF assms(2), of v, symmetric]
    by (cases "bit v k") (simp_all add: d1_def del: push_bit_of_1)
  have d2: "d1\<lparr>ow_nbits := ow_nbits d1 + 1\<rparr> = ow_heard (Suc k) v ow"
    unfolding d1 by (simp add: ow_heard_def)
  have zero: "(ow_heard (Suc k) v ow)\<lparr>ow_inbits := 0, ow_nbits := 0\<rparr> = ow"
    using assms(3,4) by (simp add: ow_heard_def)
  have full: "take_bit 8 v = v" by (simp add: take_bit_word_eq_self)
  have "\<not> ow_out_pos ?d < ow_out_len ?d * 8" using assms(1) by (simp add: ow_heard_def mult.commute)
  then have "funlink_ow_slot ?b ?d = (if ?b \<noteq> 0 then 0xFF else 0x00,
      let e = d1\<lparr>ow_nbits := ow_nbits d1 + 1\<rparr>
      in if ow_nbits e = 8 then funlink_ow_on_byte (ow_inbits e) (e\<lparr>ow_inbits := 0, ow_nbits := 0\<rparr>) else e)"
    unfolding funlink_ow_slot_def d1_def by (simp only: if_False Let_def)
  also have "\<dots> = (?b, if k = 7 then funlink_ow_on_byte v ow else ow_heard (Suc k) v ow)"
    unfolding d2 Let_def zero by (simp add: ow_heard_def full bit_slot_def)
  finally show ?thesis .
qed

lemma ow_slots_listen:
  assumes "8 * ow_out_len ow \<le> ow_out_pos ow" "ow_nbits ow = 0" "ow_inbits ow = 0" "k < 8"
  shows "ow_slots (map (bit v) [k..<8]) (ow_heard k v ow) = (map (bit v) [k..<8], funlink_ow_on_byte v ow)"
  using assms(4)
proof (induction "7 - k" arbitrary: k)
  case 0
  then have "k = 7" by simp
  then show ?case using funlink_ow_slot_listen [OF assms(1) _ assms(2,3), of 7 v] by simp
next
  case (Suc n)
  then have k: "Suc k < 8" "k \<noteq> 7" by simp_all
  moreover have "[k..<8] = k # [Suc k..<8]" using k by (simp add: upt_conv_Cons del: upt_rec_numeral)
  ultimately show ?case
    using funlink_ow_slot_listen [OF assms(1) Suc.prems assms(2,3), of v] Suc.hyps
    by (simp del: upt_rec_numeral)
qed

lemma ow_slots_byte:
  assumes "ow_listening ow"
  shows "ow_slots (bits_lsb v) ow = (bits_lsb v, funlink_ow_on_byte v ow)"
proof -
  have "ow_heard 0 v ow = ow" using assms by (simp add: ow_heard_def ow_listening_def)
  then show ?thesis
    using ow_slots_listen [OF ow_listening_done [OF assms], of 0 v] assms
    by (simp add: ow_listening_def bits_lsb_def del: upt_rec_numeral)
qed

section \<open>What a master reads\<close>

lemma ow_queue_bits:
  assumes "ow_wf ow" "length d \<le> OW_OUT"
  shows "ow_bits ((funlink_ow_queue ow d)\<lparr>ow_state := s\<rparr>) = slot_bits d"
  using assms by (simp add: funlink_ow_queue_def ow_bits_def ow_wf_def put_def Let_def)

text \<open>A transaction after the reset: the bits the master writes and the bits it reads.\<close>

lemma ow_reset_listening: "ow_wf ow \<Longrightarrow> ow_listening (funlink_ow_reset ow)"
  using funlink_ow_reset_wf [of ow] by (simp add: ow_listening_def) (simp add: funlink_ow_reset_def ow_bits_def)

lemma ow_read_rom:
  assumes "ow_wf ow" "length hs \<le> 64"
  shows "fst (ow_slots (bits_lsb 0x33 @ hs) (funlink_ow_reset ow)) = bits_lsb 0x33 @ take (length hs) (slot_bits (ow_rom ow))"
proof -
  let ?r = "funlink_ow_reset ow"
  let ?q = "(funlink_ow_queue ?r (ow_rom ow))\<lparr>ow_state := FUNLINK_OW_DONE\<rparr>"
  have wf: "ow_wf ?r" by (rule funlink_ow_reset_wf) (rule assms(1))
  have n: "length (ow_rom ow) = 8" using assms(1) by (simp add: ow_wf_def)
  have b: "funlink_ow_on_byte 0x33 ?r = ?q" by (simp add: funlink_ow_on_byte_def funlink_ow_reset_def)
  have "ow_wf ?q" using funlink_ow_queue_wf [OF wf] by simp
  moreover have "ow_bits ?q = slot_bits (ow_rom ow)" using ow_queue_bits [OF wf] n by (simp add: ow_consts)
  ultimately show ?thesis
    using ow_slots_byte [OF ow_reset_listening [OF assms(1)], of "0x33"] ow_slots_driven [of ?q hs] assms(2) n
    by (simp add: ow_slots_append b split_beta Let_def)
qed

lemma ow_on_byte_listening:
  assumes "ow_listening ow" "funlink_ow_on_byte v ow = ow\<lparr>ow_state := s, ow_nta := n, ow_ta := a\<rparr>"
  shows "ow_listening (funlink_ow_on_byte v ow)"
proof -
  have "ow_wf (funlink_ow_on_byte v ow)" using assms(1) by (simp add: ow_listening_def funlink_ow_on_byte_wf)
  then show ?thesis unfolding ow_listening_def
    by (simp add: assms(2)) (use assms(1) in \<open>simp add: ow_listening_def ow_bits_def\<close>)
qed

lemma ow_read_memory:
  assumes "ow_wf ow" "page = drop (unat lo + 256 * unat hi) (ow_mem ow)" "page \<noteq> []" "length hs \<le> 8 * (length page + 2)"
  shows "fst (ow_slots (slot_bits [0xCC, 0xF0, lo, hi] @ hs) (funlink_ow_reset ow)) = slot_bits [0xCC, 0xF0, lo, hi] @
    take (length hs) (slot_bits (funlink_crc8 [0xF0, lo, hi] 0 # page @ [funlink_crc8 page 0]))"
proof -
  define r where "r = funlink_ow_reset ow"
  obtain a b where ta: "ow_ta r = [a, b]"
    using assms(1) by (cases "ow_ta ow"; cases "tl (ow_ta ow)") (simp_all add: ow_wf_def r_def funlink_ow_reset_def)
  have l0: "ow_listening r" unfolding r_def by (rule ow_reset_listening) (rule assms(1))
  have st: "ow_state r = FUNLINK_OW_CMD" "ow_mem r = ow_mem ow" by (simp_all add: r_def funlink_ow_reset_def)
  have b0: "funlink_ow_on_byte 0xCC r = r" using st by (simp add: funlink_ow_on_byte_def)
  define r1 where "r1 = r\<lparr>ow_state := FUNLINK_OW_TA, ow_nta := 0, ow_ta := [a, b]\<rparr>"
  have b1: "funlink_ow_on_byte 0xF0 r = r1" using st ta by (simp add: funlink_ow_on_byte_def r1_def)
  then have l1: "ow_listening r1" using ow_on_byte_listening [OF l0 b1 [unfolded r1_def]] by simp
  define r2 where "r2 = r1\<lparr>ow_state := FUNLINK_OW_TA, ow_nta := 1, ow_ta := [lo, b]\<rparr>"
  have b2: "funlink_ow_on_byte lo r1 = r2" by (simp add: funlink_ow_on_byte_def r1_def r2_def)
  then have l2: "ow_listening r2" using ow_on_byte_listening [OF l1 b2 [unfolded r2_def]] by simp
  let ?d = "funlink_crc8 [0xF0, lo, hi] 0 # page @ [funlink_crc8 page 0]"
  define r3 where "r3 = r2\<lparr>ow_ta := [lo, hi], ow_nta := 2, ow_state := FUNLINK_OW_DONE\<rparr>"
  let ?q = "(funlink_ow_queue r3 ?d)\<lparr>ow_state := FUNLINK_OW_DONE\<rparr>"
  have mem: "length (ow_mem ow) = FUNLINK_OW_MEM" using assms(1) by (simp add: ow_wf_def)
  then have "unat lo + 256 * unat hi < FUNLINK_OW_MEM" using assms(2,3) by auto
  then have "ow_page (r2\<lparr>ow_ta := [lo, hi], ow_nta := 2\<rparr>) = ?d"
    using st by (simp add: ow_page_def r2_def r1_def assms(2) Let_def)
  then have b3: "funlink_ow_on_byte hi r2 = ?q"
    by (simp add: funlink_ow_on_byte_def r2_def r3_def funlink_ow_queue_def Let_def numeral_2_eq_2)
  have wf3: "ow_wf r3" using l2 by (simp add: ow_listening_def r3_def ow_wf_def)
  have "length ?d \<le> OW_OUT" using mem by (simp add: assms(2) ow_consts)
  then have "ow_bits ?q = slot_bits ?d" by (rule ow_queue_bits [OF wf3])
  moreover have "ow_wf ?q" using funlink_ow_queue_wf [OF wf3] by simp
  ultimately have "fst (ow_slots hs ?q) = take (length hs) (slot_bits ?d)"
    using ow_slots_driven [of ?q hs] assms(4) by simp
  moreover have "ow_slots (slot_bits [0xCC, 0xF0, lo, hi]) r = (slot_bits [0xCC, 0xF0, lo, hi], ?q)"
    using ow_slots_byte [OF l0, of "0xCC"] ow_slots_byte [OF l0, of "0xF0"] ow_slots_byte [OF l1, of lo] ow_slots_byte [OF l2, of hi]
    by (simp add: ow_slots_append b0 b1 b2 b3 split_beta Let_def)
  ultimately show ?thesis unfolding r_def [symmetric] by (simp add: ow_slots_append [of "slot_bits [0xCC, 0xF0, lo, hi]"] split_beta Let_def del: slot_bits_simps)
qed

end
