(* ===== verification/Net_Socket.thy ===== *)
theory Net_Socket
  imports Prelude
begin

text \<open>
  The host's sockets, which the cabinet link and the modem are built on. They are a
  parameter of the development: a record of the operations \<open>plat_netsocket\<close> offers, over a
  network state of any type.
\<close>

definition CHAR_FD_VALID :: "int \<Rightarrow> bool" where
  "CHAR_FD_VALID fd \<longleftrightarrow> 0 \<le> fd"

text \<open>
  What a receive and a send report: a positive count with the bytes, zero, or a negative
  result with or without \<open>wouldblock\<close>.
\<close>

datatype received = Got "u8 list" | Closed | No_Data | Recv_Failed
datatype sent = Sent nat | Send_Blocked | Send_Failed

record 'n net =
  plat_netsocket_create_server :: "nat \<Rightarrow> 'n \<Rightarrow> int \<times> 'n"
  plat_netsocket_create :: "'n \<Rightarrow> int \<times> 'n"
  plat_netsocket_connect :: "int \<Rightarrow> u8 list \<Rightarrow> nat \<Rightarrow> 'n \<Rightarrow> int \<times> 'n"
  plat_netsocket_connected :: "int \<Rightarrow> 'n \<Rightarrow> int \<times> 'n"
  plat_netsocket_accept :: "int \<Rightarrow> 'n \<Rightarrow> int \<times> 'n"
  plat_netsocket_receive :: "int \<Rightarrow> nat \<Rightarrow> 'n \<Rightarrow> received \<times> 'n"
  plat_netsocket_send :: "int \<Rightarrow> u8 list \<Rightarrow> 'n \<Rightarrow> sent \<times> 'n"
  plat_netsocket_close :: "int \<Rightarrow> 'n \<Rightarrow> 'n"

end
