(* ===== verification/Funlink.thy ===== *)
theory Funlink
  imports Funlink_Token Net_Socket Ring_Array Byte_Queue
begin

text \<open>
  fun.link, the adapter that joins cabinets: a serial port whose bytes go out on a TCP
  bus and whose receive ring takes what the other cabinets, the adapter's own echo and
  its token send. The theory translates the ring, the sockets' bookkeeping, the
  once-a-millisecond poll and the hooks the serial port calls.

  The host's sockets are the parameter of \<open>Net_Socket\<close>; the tick count and the line's
  baud rate are arguments of the operations that ask for them. A result \<open>None\<close> is an
  access outside one of the device's arrays. The wire trace and the logs are left out.
\<close>

section \<open>The constants\<close>

definition FUNLINK_MAX_PEERS :: nat where "FUNLINK_MAX_PEERS = 15"
definition FUNLINK_OW_RESET_HZ :: nat where "FUNLINK_OW_RESET_HZ = 30000"
definition FUNLINK_RX_SIZE :: nat where "FUNLINK_RX_SIZE = 8192"
definition FUNLINK_TX_SIZE :: nat where "FUNLINK_TX_SIZE = 1024"
definition CHAR_RECONNECT_MS :: u32 where "CHAR_RECONNECT_MS = 500"

section \<open>The device\<close>

datatype fl_role = FUNLINK_ROLE_AUTO | FUNLINK_ROLE_HOST | FUNLINK_ROLE_JOIN
datatype fl_state = FUNLINK_ST_IDLE | FUNLINK_ST_CONNECTING | FUNLINK_ST_CLIENT | FUNLINK_ST_LISTENING

record funlink =
  fl_host :: "u8 list"
  fl_host_port :: nat
  fl_role :: fl_role
  fl_echo :: bool
  fl_state :: fl_state
  fl_next_attempt :: u32
  fl_last_poll :: u32
  fl_listener :: int
  fl_peer :: "int list"
  fl_peers :: nat
  fl_rx :: "u8 list"
  fl_rx_head :: nat
  fl_rx_tail :: nat
  fl_tx :: "u8 list"
  fl_tx_len :: nat
  fl_ow :: funlink_ow
  fl_station :: u32
  fl_dtr :: bool

section \<open>The receive ring\<close>

fun funlink_rx_push :: "u8 list \<Rightarrow> funlink \<Rightarrow> funlink" where
  "funlink_rx_push [] dev = dev"
| "funlink_rx_push (b # bs) dev =
     (let nxt = (fl_rx_head dev + 1) mod FUNLINK_RX_SIZE
      in if nxt = fl_rx_tail dev then dev
         else funlink_rx_push bs (dev\<lparr>fl_rx := (fl_rx dev)[fl_rx_head dev := b], fl_rx_head := nxt\<rparr>))"

definition funlink_rx_pop :: "funlink \<Rightarrow> u8 option \<times> funlink" where
  "funlink_rx_pop dev =
     (if fl_rx_tail dev = fl_rx_head dev then (None, dev)
      else (Some (fl_rx dev ! fl_rx_tail dev), dev\<lparr>fl_rx_tail := (fl_rx_tail dev + 1) mod FUNLINK_RX_SIZE\<rparr>))"

section \<open>The sockets\<close>

type_synonym 'n bus = "funlink \<times> 'n"

definition funlink_drop_peer :: "'n net \<Rightarrow> nat \<Rightarrow> 'n bus \<Rightarrow> 'n bus option" where
  "funlink_drop_peer net idx = (\<lambda>(dev, n).
     let n = (if CHAR_FD_VALID (fl_peer dev ! idx) then plat_netsocket_close net (fl_peer dev ! idx) n else n);
         moved = foldl (\<lambda>peer i. peer[i := peer ! (i + 1)]) (fl_peer dev) [idx..<fl_peers dev - 1]
     in if fl_peers dev = 0 then None
        else Some (dev\<lparr>fl_peer := moved[fl_peers dev - 1 := -1], fl_peers := fl_peers dev - 1\<rparr>, n))"

primrec close_peers :: "'n net \<Rightarrow> nat \<Rightarrow> 'n bus \<Rightarrow> 'n bus option" where
  "close_peers net 0 s = Some s"
| "close_peers net (Suc k) s = Option.bind (funlink_drop_peer net k s) (close_peers net k)"

definition funlink_close_all :: "'n net \<Rightarrow> 'n bus \<Rightarrow> 'n bus option" where
  "funlink_close_all net s =
     Option.bind (close_peers net (fl_peers (fst s)) s) (\<lambda>(dev, n).
       let n = (if CHAR_FD_VALID (fl_listener dev) then plat_netsocket_close net (fl_listener dev) n else n)
       in Some (dev\<lparr>fl_listener := if CHAR_FD_VALID (fl_listener dev) then -1 else fl_listener dev,
                    fl_state := FUNLINK_ST_IDLE, fl_tx_len := 0\<rparr>, n))"

text \<open>The loop runs downwards; \<open>send_down i\<close> is what is left of it below index \<open>i\<close>.\<close>

primrec send_down :: "'n net \<Rightarrow> u8 list \<Rightarrow> int \<Rightarrow> nat \<Rightarrow> 'n bus \<Rightarrow> 'n bus option" where
  "send_down net buf except 0 s = Some s"
| "send_down net buf except (Suc i) s =
     (let (dev, n) = s
      in if fl_peer dev ! i = except then send_down net buf except i s
         else let (r, n) = plat_netsocket_send net (fl_peer dev ! i) buf n
              in if r = Send_Failed then Option.bind (funlink_drop_peer net i (dev, n)) (send_down net buf except i)
                 else send_down net buf except i (dev, n))"

definition funlink_send_to_peers :: "'n net \<Rightarrow> u8 list \<Rightarrow> int \<Rightarrow> 'n bus \<Rightarrow> 'n bus option" where
  "funlink_send_to_peers net buf except s =
     (if length buf = 0 then Some s else send_down net buf except (fl_peers (fst s)) s)"

definition funlink_flush_tx :: "'n net \<Rightarrow> 'n bus \<Rightarrow> 'n bus option" where
  "funlink_flush_tx net s =
     (let dev = fst s
      in if fl_tx_len dev = 0 then Some s
         else Option.bind
           (if fl_state dev = FUNLINK_ST_CLIENT \<or> fl_state dev = FUNLINK_ST_LISTENING
            then funlink_send_to_peers net (take (fl_tx_len dev) (fl_tx dev)) (-1) s else Some s)
           (\<lambda>(dev, n). Some (dev\<lparr>fl_tx_len := 0\<rparr>, n)))"

definition funlink_start_listening :: "'n net \<Rightarrow> 'n bus \<Rightarrow> 'n bus" where
  "funlink_start_listening net = (\<lambda>(dev, n).
     let (fd, n) = plat_netsocket_create_server net (fl_host_port dev) n
     in if \<not> CHAR_FD_VALID fd then (dev\<lparr>fl_listener := -1\<rparr>, n)
        else (dev\<lparr>fl_listener := fd, fl_state := FUNLINK_ST_LISTENING\<rparr>, n))"

definition funlink_start_connecting :: "'n net \<Rightarrow> 'n bus \<Rightarrow> 'n bus" where
  "funlink_start_connecting net = (\<lambda>(dev, n).
     let (sock, n) = plat_netsocket_create net n
     in if \<not> CHAR_FD_VALID sock then (dev, n)
        else let (r, n) = plat_netsocket_connect net sock (fl_host dev) (fl_host_port dev) n
             in if r \<noteq> 0 then (dev, plat_netsocket_close net sock n)
                else (dev\<lparr>fl_peer := (fl_peer dev)[0 := sock], fl_peers := 1, fl_state := FUNLINK_ST_CONNECTING\<rparr>, n))"

section \<open>The poll\<close>

text \<open>The accept loop of a listener; it takes at most as many cabinets as there is room for.\<close>

primrec accept_peers :: "'n net \<Rightarrow> nat \<Rightarrow> 'n bus \<Rightarrow> 'n bus" where
  "accept_peers net 0 s = s"
| "accept_peers net (Suc k) s =
     (let (dev, n) = s; (sock, n) = plat_netsocket_accept net (fl_listener dev) n
      in if \<not> CHAR_FD_VALID sock then (dev, n)
         else accept_peers net k (dev\<lparr>fl_peer := (fl_peer dev)[fl_peers dev := sock], fl_peers := fl_peers dev + 1\<rparr>, n))"

definition poll_state :: "'n net \<Rightarrow> u32 \<Rightarrow> 'n bus \<Rightarrow> 'n bus option" where
  "poll_state net now s =
     (let (dev, n) = s; stamp = (if now \<noteq> 0 then now else 1)
      in case fl_state dev of
        FUNLINK_ST_IDLE \<Rightarrow>
          (if fl_next_attempt dev \<noteq> 0 \<and> now - fl_next_attempt dev < CHAR_RECONNECT_MS then Some s
           else let dev = dev\<lparr>fl_next_attempt := stamp\<rparr>
                in Some (if fl_role dev = FUNLINK_ROLE_HOST then funlink_start_listening net (dev, n)
                         else funlink_start_connecting net (dev, n)))
      | FUNLINK_ST_CONNECTING \<Rightarrow>
          (let (c, n) = plat_netsocket_connected net (fl_peer dev ! 0) n
           in if c = 1 then Some (dev\<lparr>fl_state := FUNLINK_ST_CLIENT\<rparr>, n)
              else if c = 0 \<and> now - fl_next_attempt dev < CHAR_RECONNECT_MS then Some (dev, n)
              else Option.bind (funlink_close_all net (dev, n)) (\<lambda>(dev, n).
                let dev = dev\<lparr>fl_next_attempt := stamp\<rparr>
                in Some (if fl_role dev = FUNLINK_ROLE_AUTO then funlink_start_listening net (dev, n) else (dev, n))))
      | FUNLINK_ST_LISTENING \<Rightarrow> Some (accept_peers net (FUNLINK_MAX_PEERS - fl_peers dev) s)
      | FUNLINK_ST_CLIENT \<Rightarrow> Some s)"

text \<open>The receive loop, downwards; \<open>drain_down i\<close> is what is left of it below index \<open>i\<close>.\<close>

primrec drain_down :: "'n net \<Rightarrow> u32 \<Rightarrow> nat \<Rightarrow> 'n bus \<Rightarrow> 'n bus option" where
  "drain_down net now 0 s = Some s"
| "drain_down net now (Suc i) s =
     (let (dev, n) = s; (r, n) = plat_netsocket_receive net (fl_peer dev ! i) 512 n
      in case r of
        Got buf \<Rightarrow>
          (let except = fl_peer dev ! i; dev = funlink_rx_push buf dev
           in Option.bind (if fl_state dev = FUNLINK_ST_LISTENING then funlink_send_to_peers net buf except (dev, n)
                           else Some (dev, n)) (drain_down net now i))
      | No_Data \<Rightarrow> drain_down net now i (dev, n)
      | _ \<Rightarrow>
          Option.bind (funlink_drop_peer net i (dev, n)) (\<lambda>(dev, n).
            if fl_state dev = FUNLINK_ST_CLIENT
            then Option.bind (funlink_close_all net (dev, n)) (\<lambda>(dev, n).
              Some (dev\<lparr>fl_next_attempt := if now \<noteq> 0 then now else 1\<rparr>, n))
            else drain_down net now i (dev, n)))"

definition funlink_poll :: "'n net \<Rightarrow> u32 \<Rightarrow> 'n bus \<Rightarrow> 'n bus option" where
  "funlink_poll net now s =
     (let (dev, n) = s
      in if now = fl_last_poll dev then Some s
         else Option.bind (poll_state net now (dev\<lparr>fl_last_poll := now\<rparr>, n)) (\<lambda>s.
           if fl_state (fst s) = FUNLINK_ST_CONNECTING then Some s
           else Option.bind (drain_down net now (fl_peers (fst s)) s) (funlink_flush_tx net)))"

section \<open>The hooks\<close>

definition funlink_read :: "'n net \<Rightarrow> u32 \<Rightarrow> 'n bus \<Rightarrow> (u8 option \<times> 'n bus) option" where
  "funlink_read net now s =
     Option.bind (funlink_poll net now s) (\<lambda>(dev, n). let (b, dev) = funlink_rx_pop dev in Some (b, (dev, n)))"

text \<open>Whether a byte the guest wrote belongs to the token; it answers it if so.\<close>

definition funlink_ow_consume :: "nat \<Rightarrow> u32 \<Rightarrow> u8 \<Rightarrow> funlink \<Rightarrow> bool \<times> funlink" where
  "funlink_ow_consume baud now v dev =
     (if v = 0xF0 \<and> baud \<le> FUNLINK_OW_RESET_HZ then
        (let ow = funlink_ow_reset (funlink_ow_load (fl_state dev = FUNLINK_ST_LISTENING) (fl_station dev) (fl_ow dev))
         in (True, funlink_rx_push [0xE0] (dev\<lparr>fl_ow := ow\<lparr>ow_active := True, ow_last := now\<rparr>\<rparr>)))
      else let ow = fl_ow dev; ow = (if ow_active ow \<and> 1000 < now - ow_last ow then ow\<lparr>ow_active := False\<rparr> else ow)
           in if \<not> ow_active ow then (False, dev\<lparr>fl_ow := ow\<rparr>)
              else if v \<noteq> 0x00 \<and> v \<noteq> 0xFF then (False, dev\<lparr>fl_ow := ow\<lparr>ow_active := False\<rparr>\<rparr>)
              else let (reply, ow) = funlink_ow_slot v ow
                   in (True, funlink_rx_push [reply] (dev\<lparr>fl_ow := ow\<lparr>ow_last := now\<rparr>\<rparr>)))"

definition write_byte :: "'n net \<Rightarrow> nat \<Rightarrow> u32 \<Rightarrow> u8 \<Rightarrow> 'n bus \<Rightarrow> 'n bus option" where
  "write_byte net baud now v = (\<lambda>(dev, n).
     let (taken, dev) = funlink_ow_consume baud now v dev
     in if taken then Some (dev, n)
        else Option.bind (if FUNLINK_TX_SIZE \<le> fl_tx_len dev then funlink_flush_tx net (dev, n) else Some (dev, n))
          (\<lambda>(dev, n).
            let dev = dev\<lparr>fl_tx := (fl_tx dev)[fl_tx_len dev := v], fl_tx_len := fl_tx_len dev + 1\<rparr>
            in Some (if fl_echo dev then funlink_rx_push [v] dev else dev, n)))"

fun funlink_write :: "'n net \<Rightarrow> nat \<Rightarrow> u32 \<Rightarrow> u8 list \<Rightarrow> 'n bus \<Rightarrow> 'n bus option" where
  "funlink_write net baud now [] s = Some s"
| "funlink_write net baud now (b # bs) s = Option.bind (write_byte net baud now b s) (funlink_write net baud now bs)"

definition CHAR_COM_DTR :: u32 where "CHAR_COM_DTR = 1"

definition funlink_control :: "u32 \<Rightarrow> funlink \<Rightarrow> funlink" where
  "funlink_control flags dev = dev\<lparr>fl_dtr := flags AND CHAR_COM_DTR \<noteq> 0\<rparr>"

definition funlink_init :: "fl_role \<Rightarrow> nat \<Rightarrow> bool \<Rightarrow> u32 \<Rightarrow> u8 list option \<Rightarrow> funlink" where
  "funlink_init role port echo station host =
     (let host = (case host of None \<Rightarrow> [] | Some h \<Rightarrow> h);
          ow = funlink_ow_reset (funlink_ow_load False station ow_zero)
      in \<lparr>fl_host = take 255 (if host \<noteq> [] then host else bytes ''127.0.0.1''), fl_host_port = port, fl_role = role,
          fl_echo = echo, fl_state = FUNLINK_ST_IDLE, fl_next_attempt = 0, fl_last_poll = 0, fl_listener = -1,
          fl_peer = replicate FUNLINK_MAX_PEERS (-1), fl_peers = 0, fl_rx = replicate FUNLINK_RX_SIZE 0,
          fl_rx_head = 0, fl_rx_tail = 0, fl_tx = replicate FUNLINK_TX_SIZE 0, fl_tx_len = 0, fl_ow = ow,
          fl_station = station, fl_dtr = False\<rparr>)"

section \<open>The ring as a queue\<close>

definition rx_wf :: "funlink \<Rightarrow> bool" where
  "rx_wf dev \<longleftrightarrow> length (fl_rx dev) = FUNLINK_RX_SIZE \<and> fl_rx_head dev < FUNLINK_RX_SIZE \<and> fl_rx_tail dev < FUNLINK_RX_SIZE"

definition rx_count :: "funlink \<Rightarrow> nat" where
  "rx_count dev = ring_used FUNLINK_RX_SIZE (fl_rx_tail dev) (fl_rx_head dev)"

definition rx_items :: "funlink \<Rightarrow> u8 list" where
  "rx_items dev = ring (fl_rx dev) (fl_rx_tail dev) (rx_count dev)"

text \<open>One cell stays free, so that a full ring is not an empty one.\<close>

definition rx_room :: "funlink \<Rightarrow> nat" where
  "rx_room dev = FUNLINK_RX_SIZE - 1 - rx_count dev"

lemma rx_size: "0 < FUNLINK_RX_SIZE" "2 \<le> FUNLINK_RX_SIZE" "FUNLINK_RX_SIZE = Suc 8191"
  by (simp_all add: FUNLINK_RX_SIZE_def)

lemma rx_full: "rx_wf dev \<Longrightarrow> (fl_rx_head dev + 1) mod FUNLINK_RX_SIZE = fl_rx_tail dev \<longleftrightarrow> rx_room dev = 0"
  using ring_used_bounds [of "fl_rx_tail dev" FUNLINK_RX_SIZE "fl_rx_head dev"]
  by (auto simp: rx_room_def rx_count_def rx_wf_def)

lemma rx_empty: "rx_wf dev \<Longrightarrow> fl_rx_tail dev = fl_rx_head dev \<longleftrightarrow> rx_count dev = 0"
  by (simp add: rx_count_def rx_wf_def ring_used_bounds)

lemma rx_count_lt: "rx_count dev < FUNLINK_RX_SIZE"
  unfolding rx_count_def ring_used_def using rx_size(1) by simp

lemma funlink_rx_push_one:
  assumes "rx_wf dev" "0 < rx_room dev"
  shows "rx_wf (funlink_rx_push [b] dev) \<and> rx_items (funlink_rx_push [b] dev) = rx_items dev @ [b] \<and>
    Suc (rx_room (funlink_rx_push [b] dev)) = rx_room dev"
proof -
  let ?h = "fl_rx_head dev" and ?t = "fl_rx_tail dev"
  let ?d = "dev\<lparr>fl_rx := (fl_rx dev)[?h := b], fl_rx_head := (?h + 1) mod FUNLINK_RX_SIZE\<rparr>"
  have w: "length (fl_rx dev) = FUNLINK_RX_SIZE" "?t < FUNLINK_RX_SIZE" "?h < FUNLINK_RX_SIZE"
    using assms(1) by (simp_all add: rx_wf_def)
  have free: "ring_used FUNLINK_RX_SIZE ?t ?h < FUNLINK_RX_SIZE - 1"
    using assms(2) by (simp add: rx_room_def rx_count_def)
  have push: "funlink_rx_push [b] dev = ?d" using rx_full [OF assms(1)] assms(2) by (simp add: Let_def)
  have "rx_wf ?d" "rx_count ?d = Suc (rx_count dev)"
    using w rx_size(1) ring_used_push [OF w(2,3) free] by (simp_all add: rx_wf_def rx_count_def)
  moreover from this(2) have "rx_items ?d = rx_items dev @ [b]"
    using ring_push_items [OF w free] by (simp add: rx_items_def rx_count_def)
  ultimately show ?thesis using assms(2) unfolding push by (auto simp: rx_room_def)
qed

lemma funlink_rx_pop_one:
  assumes "rx_wf dev" "rx_items dev = b # bs"
  shows "\<exists>d. funlink_rx_pop dev = (Some b, d) \<and> rx_wf d \<and> rx_items d = bs \<and> rx_room d = Suc (rx_room dev)"
proof -
  let ?t = "fl_rx_tail dev"
  let ?d = "dev\<lparr>fl_rx_tail := (?t + 1) mod FUNLINK_RX_SIZE\<rparr>"
  have w: "length (fl_rx dev) = FUNLINK_RX_SIZE" "?t < FUNLINK_RX_SIZE" "fl_rx_head dev < FUNLINK_RX_SIZE"
    using assms(1) by (simp_all add: rx_wf_def)
  obtain n where n: "rx_count dev = Suc n" using assms(2) by (cases "rx_count dev") (simp_all add: rx_items_def)
  have wf: "rx_wf ?d" "rx_count ?d = n"
    using w rx_size(1) ring_used_pop [OF w(2,3)] n by (simp_all add: rx_wf_def rx_count_def)
  have "b # bs = fl_rx dev ! ?t # rx_items ?d"
    using assms(2) ring_pop_items [OF w(1,2)] wf(2) by (simp add: rx_items_def n)
  moreover have "funlink_rx_pop dev = (Some (fl_rx dev ! ?t), ?d)"
    using rx_empty [OF assms(1)] n by (simp add: funlink_rx_pop_def)
  ultimately show ?thesis
    using wf n rx_count_lt [of dev] unfolding rx_room_def by (intro exI [of _ ?d]) simp
qed

definition rx_put :: "funlink \<Rightarrow> u8 \<Rightarrow> funlink option" where
  "rx_put dev b = (if rx_room dev = 0 then None else Some (funlink_rx_push [b] dev))"

definition rx_take :: "funlink \<Rightarrow> (u8 \<times> funlink) option" where
  "rx_take dev = (let (b, d) = funlink_rx_pop dev in map_option (\<lambda>b. (b, d)) b)"

interpretation cabinet: byte_queue rx_put rx_take rx_items rx_room rx_wf
proof
  fix q :: funlink and b :: u8
  assume "rx_wf q" "0 < rx_room q"
  then show "\<exists>q'. rx_put q b = Some q' \<and> rx_wf q' \<and> rx_items q' = rx_items q @ [b] \<and> Suc (rx_room q') = rx_room q"
    using funlink_rx_push_one [of q b] by (simp add: rx_put_def)
next
  fix q :: funlink and b :: u8 and bs
  assume "rx_wf q" "rx_items q = b # bs"
  then show "\<exists>q'. rx_take q = Some (b, q') \<and> rx_wf q' \<and> rx_items q' = bs \<and> rx_room q' = Suc (rx_room q)"
    using funlink_rx_pop_one [of q b bs] by (auto simp: rx_take_def)
next
  fix q :: funlink
  assume "rx_wf q" "rx_items q = []"
  then have "rx_count q = 0" by (metis length_ring list.size(3) rx_items_def)
  then show "rx_take q = None"
    using rx_empty [OF \<open>rx_wf q\<close>] by (simp add: rx_take_def funlink_rx_pop_def)
qed (simp add: rx_put_def)

text \<open>A block goes in as far as there is room; the rest of it is lost.\<close>

lemma funlink_rx_push_list:
  "rx_wf dev \<Longrightarrow> cabinet.push_list dev (take (rx_room dev) bs) = Some (funlink_rx_push bs dev)"
proof (induction bs arbitrary: dev)
  case (Cons b bs)
  show ?case
  proof (cases "rx_room dev = 0")
    case True
    then show ?thesis using rx_full [OF Cons.prems] by (simp add: Let_def)
  next
    case False
    have one: "rx_wf (funlink_rx_push [b] dev)" "Suc (rx_room (funlink_rx_push [b] dev)) = rx_room dev"
      using funlink_rx_push_one [OF Cons.prems, of b] False by simp_all
    have "funlink_rx_push (b # bs) dev = funlink_rx_push bs (funlink_rx_push [b] dev)"
      using rx_full [OF Cons.prems] False by (simp add: Let_def)
    moreover have "take (rx_room dev) (b # bs) = b # take (rx_room (funlink_rx_push [b] dev)) bs"
      by (simp flip: one(2))
    moreover have "rx_put dev b = Some (funlink_rx_push [b] dev)" using False by (simp add: rx_put_def)
    ultimately show ?thesis using Cons.IH [OF one(1)] by (simp del: funlink_rx_push.simps)
  qed
qed simp

lemma funlink_rx_push_items:
  assumes "rx_wf dev"
  shows "rx_wf (funlink_rx_push bs dev)" "rx_items (funlink_rx_push bs dev) = rx_items dev @ take (rx_room dev) bs"
    "rx_room (funlink_rx_push bs dev) = rx_room dev - length bs"
  using cabinet.push_list_room [OF assms, of "take (rx_room dev) bs"] funlink_rx_push_list [OF assms, of bs]
  by (auto simp: min_def)

lemma funlink_rx_push_frame [simp]:
  "fl_state (funlink_rx_push bs dev) = fl_state dev" "fl_peer (funlink_rx_push bs dev) = fl_peer dev"
  "fl_peers (funlink_rx_push bs dev) = fl_peers dev" "fl_tx (funlink_rx_push bs dev) = fl_tx dev"
  "fl_tx_len (funlink_rx_push bs dev) = fl_tx_len dev" "fl_ow (funlink_rx_push bs dev) = fl_ow dev"
  "fl_echo (funlink_rx_push bs dev) = fl_echo dev" "fl_listener (funlink_rx_push bs dev) = fl_listener dev"
  "fl_role (funlink_rx_push bs dev) = fl_role dev" "fl_station (funlink_rx_push bs dev) = fl_station dev"
  "fl_last_poll (funlink_rx_push bs dev) = fl_last_poll dev"
  "fl_next_attempt (funlink_rx_push bs dev) = fl_next_attempt dev"
  by (induction bs dev rule: funlink_rx_push.induct) (simp_all add: Let_def)

end
