(* ===== verification/Funlink_Line.thy ===== *)
theory Funlink_Line
  imports Funlink
begin

text \<open>
  What the cabinet's serial line makes of fun.link: the guest writes bytes and takes bytes
  from the receive ring in any order. The theory shows that a token transaction is
  answered on the line and leaves the bus alone, and that everything else the guest
  writes is handed to every peer, in order and once.
\<close>

section \<open>The guest at its line\<close>

datatype line_event = Writes nat u32 u8 | Takes

text \<open>The bytes the guest takes, and the state after the events.\<close>

fun line_run :: "'n net \<Rightarrow> line_event list \<Rightarrow> 'n bus \<Rightarrow> (u8 list \<times> 'n bus) option" where
  "line_run net [] s = Some ([], s)"
| "line_run net (Writes baud now v # es) s = Option.bind (write_byte net baud now v s) (line_run net es)"
| "line_run net (Takes # es) (dev, n) =
     (let (b, dev) = funlink_rx_pop dev
      in map_option (\<lambda>(bs, s). (case b of None \<Rightarrow> bs | Some b \<Rightarrow> b # bs, s)) (line_run net es (dev, n)))"

lemma funlink_rx_pop_frame [simp]:
  "fl_state (snd (funlink_rx_pop dev)) = fl_state dev" "fl_peer (snd (funlink_rx_pop dev)) = fl_peer dev"
  "fl_peers (snd (funlink_rx_pop dev)) = fl_peers dev" "fl_tx (snd (funlink_rx_pop dev)) = fl_tx dev"
  "fl_tx_len (snd (funlink_rx_pop dev)) = fl_tx_len dev" "fl_ow (snd (funlink_rx_pop dev)) = fl_ow dev"
  "fl_echo (snd (funlink_rx_pop dev)) = fl_echo dev"
  by (simp_all add: funlink_rx_pop_def)

lemma funlink_rx_pop_items:
  assumes "rx_wf dev"
  shows "rx_wf (snd (funlink_rx_pop dev)) \<and> rx_room dev \<le> rx_room (snd (funlink_rx_pop dev)) \<and>
    rx_items dev = (case fst (funlink_rx_pop dev) of None \<Rightarrow> [] | Some b \<Rightarrow> [b]) @ rx_items (snd (funlink_rx_pop dev))"
proof (cases "rx_items dev")
  case Nil
  then have "rx_count dev = 0" by (metis length_ring list.size(3) rx_items_def)
  then have "funlink_rx_pop dev = (None, dev)" using rx_empty [OF assms] by (simp add: funlink_rx_pop_def)
  then show ?thesis using assms Nil by simp
next
  case (Cons b bs)
  then show ?thesis using funlink_rx_pop_one [OF assms Cons] by auto
qed

section \<open>The token on the line\<close>

text \<open>The slots of a transaction, each within a second of the one before; \<open>None\<close> if a write is no slot.\<close>

fun slots_of :: "u32 \<Rightarrow> line_event list \<Rightarrow> bool list option" where
  "slots_of t [] = Some []"
| "slots_of t (Takes # es) = slots_of t es"
| "slots_of t (Writes baud u v # es) =
     (if (v = 0x00 \<or> v = 0xFF) \<and> u - t \<le> 1000 then map_option ((#) (v \<noteq> 0)) (slots_of u es) else None)"

definition ow_seen :: "u32 \<Rightarrow> funlink_ow \<Rightarrow> funlink_ow" where
  "ow_seen t ow = ow\<lparr>ow_active := True, ow_last := t\<rparr>"

lemma ow_seen_simps [simp]:
  "ow_out_pos (ow_seen t ow) = ow_out_pos ow" "ow_out_len (ow_seen t ow) = ow_out_len ow"
  "ow_out (ow_seen t ow) = ow_out ow" "ow_inbits (ow_seen t ow) = ow_inbits ow" "ow_nbits (ow_seen t ow) = ow_nbits ow"
  "ow_state (ow_seen t ow) = ow_state ow" "ow_rom (ow_seen t ow) = ow_rom ow" "ow_mem (ow_seen t ow) = ow_mem ow"
  "ow_ta (ow_seen t ow) = ow_ta ow" "ow_nta (ow_seen t ow) = ow_nta ow" "ow_active (ow_seen t ow)"
  "ow_last (ow_seen t ow) = t" "ow_wf (ow_seen t ow) = ow_wf ow" "ow_seen t (ow_seen u ow) = ow_seen t ow"
  "(ow_seen t ow)\<lparr>ow_last := u\<rparr> = ow_seen u ow"
  by (simp_all add: ow_seen_def ow_wf_def)

lemma ow_seen_on_byte: "funlink_ow_on_byte v (ow_seen t ow) = ow_seen t (funlink_ow_on_byte v ow)"
  by (cases "ow_state ow")
    (auto simp: funlink_ow_on_byte_def funlink_ow_queue_def ow_page_def ow_seen_def Let_def intro!: funlink_ow.equality)

lemma ow_seen_slot: "funlink_ow_slot v (ow_seen t ow) = map_prod id (ow_seen t) (funlink_ow_slot v ow)"
proof -
  have upd: "(ow_seen t ow)\<lparr>ow_inbits := x, ow_nbits := y\<rparr> = ow_seen t (ow\<lparr>ow_inbits := x, ow_nbits := y\<rparr>)"
    "(ow_seen t ow)\<lparr>ow_out_pos := k\<rparr> = ow_seen t (ow\<lparr>ow_out_pos := k\<rparr>)"
    "(ow_seen t ow)\<lparr>ow_inbits := x\<rparr> = ow_seen t (ow\<lparr>ow_inbits := x\<rparr>)"
    "(ow_seen t ow)\<lparr>ow_nbits := y\<rparr> = ow_seen t (ow\<lparr>ow_nbits := y\<rparr>)" for x y k and ow
    by (simp_all add: ow_seen_def)
  show ?thesis by (simp add: funlink_ow_slot_def upd ow_seen_on_byte Let_def)
qed

lemma write_byte_slot:
  assumes "rx_wf dev" "0 < rx_room dev" "fl_ow dev = ow_seen t ow" "u - t \<le> 1000" "v = 0x00 \<or> v = 0xFF"
    and "(r, ow') = funlink_ow_slot v ow"
  shows "\<exists>d. write_byte net baud u v (dev, n) = Some (d, n) \<and> rx_wf d \<and> rx_items d = rx_items dev @ [r] \<and>
    Suc (rx_room d) = rx_room dev \<and> fl_ow d = ow_seen u ow' \<and> fl_tx d = fl_tx dev \<and> fl_tx_len d = fl_tx_len dev"
proof -
  let ?e = "dev\<lparr>fl_ow := ow_seen u ow'\<rparr>"
  have "v \<noteq> 0xF0" using assms(5) by auto
  moreover have "\<not> 1000 < u - t" using assms(4) by simp
  moreover have "funlink_ow_slot v (fl_ow dev) = (r, ow_seen t ow')"
    unfolding assms(3) ow_seen_slot assms(6) [symmetric] by simp
  ultimately have "funlink_ow_consume baud u v dev = (True, funlink_rx_push [r] ?e)"
    using assms(3,5) unfolding funlink_ow_consume_def
    by (auto simp del: funlink_rx_push.simps simp: Let_def)
  then have w: "write_byte net baud u v (dev, n) = Some (funlink_rx_push [r] ?e, n)"
    by (simp add: write_byte_def del: funlink_rx_push.simps)
  have e: "rx_wf ?e" "rx_items ?e = rx_items dev" "rx_room ?e = rx_room dev"
    using assms(1) by (simp_all add: rx_wf_def rx_items_def rx_room_def rx_count_def)
  then show ?thesis
    using w funlink_rx_push_one [of ?e r] assms(2) by (auto simp del: funlink_rx_push.simps)
qed

lemma line_run_slots:
  assumes "slots_of t es = Some bs" "rx_wf dev" "length bs \<le> rx_room dev" "fl_ow dev = ow_seen t ow"
  shows "\<exists>out d. line_run net es (dev, n) = Some (out, (d, n)) \<and>
    out @ rx_items d = rx_items dev @ map bit_slot (fst (ow_slots bs ow)) \<and>
    fl_tx d = fl_tx dev \<and> fl_tx_len d = fl_tx_len dev"
  using assms
proof (induction t es arbitrary: bs dev ow rule: slots_of.induct)
  case (2 t es)
  let ?d = "snd (funlink_rx_pop dev)"
  note p = funlink_rx_pop_items [OF 2(3)]
  have "\<exists>out d. line_run net es (?d, n) = Some (out, (d, n)) \<and>
    out @ rx_items d = rx_items ?d @ map bit_slot (fst (ow_slots bs ow)) \<and> fl_tx d = fl_tx ?d \<and> fl_tx_len d = fl_tx_len ?d"
    by (rule 2(1)) (use 2(2-) p in auto)
  then show ?case using p by (auto simp: split_beta Let_def split: option.splits)
next
  case (3 t baud u v es)
  then obtain cs where cs: "(v = 0x00 \<or> v = 0xFF) \<and> u - t \<le> 1000" "slots_of u es = Some cs" "bs = (v \<noteq> 0) # cs"
    by (auto split: if_splits)
  obtain r ow' where s: "(r, ow') = funlink_ow_slot v ow" by (metis surj_pair)
  have v: "v = bit_slot (v \<noteq> 0)" using cs(1) by (auto simp: bit_slot_def)
  have r: "bit_slot (bit r 0) = r"
    using s cs(1) by (auto simp: funlink_ow_slot_def bit_slot_def Let_def split: if_splits)
  have "0 < rx_room dev" using 3(4) cs(3) by simp
  from write_byte_slot [OF 3(3) this 3(5) _ _ s, of u net baud n] cs(1)
  obtain d where d: "write_byte net baud u v (dev, n) = Some (d, n)" "rx_wf d" "rx_items d = rx_items dev @ [r]"
    "Suc (rx_room d) = rx_room dev" "fl_ow d = ow_seen u ow'" "fl_tx d = fl_tx dev" "fl_tx_len d = fl_tx_len dev"
    by blast
  have "length cs \<le> rx_room d" using 3(4) cs(3) d(4) by simp
  from 3(1) [OF cs(1,2) d(2) this d(5)]
  obtain out d' where "line_run net es (d, n) = Some (out, (d', n))"
    "out @ rx_items d' = rx_items d @ map bit_slot (fst (ow_slots cs ow'))" "fl_tx d' = fl_tx d" "fl_tx_len d' = fl_tx_len d"
    by blast
  moreover have "fst (ow_slots bs ow) = bit r 0 # fst (ow_slots cs ow')"
    using s v unfolding cs(3) by (simp add: split_beta Let_def) (metis fst_conv snd_conv)
  ultimately show ?case using d r by auto
qed auto

lemma line_reset:
  assumes "rx_wf dev" "0 < rx_room dev" "baud \<le> FUNLINK_OW_RESET_HZ"
    and "ow = funlink_ow_load (fl_state dev = FUNLINK_ST_LISTENING) (fl_station dev) (fl_ow dev)"
  shows "\<exists>d. write_byte net baud t 0xF0 (dev, n) = Some (d, n) \<and> rx_wf d \<and> rx_items d = rx_items dev @ [0xE0] \<and>
    Suc (rx_room d) = rx_room dev \<and> fl_ow d = ow_seen t (funlink_ow_reset ow) \<and>
    fl_tx d = fl_tx dev \<and> fl_tx_len d = fl_tx_len dev"
proof -
  let ?e = "dev\<lparr>fl_ow := ow_seen t (funlink_ow_reset ow)\<rparr>"
  have "funlink_ow_consume baud t 0xF0 dev = (True, funlink_rx_push [0xE0] ?e)"
    using assms(3,4) by (simp add: funlink_ow_consume_def ow_seen_def Let_def del: funlink_rx_push.simps)
  then have w: "write_byte net baud t 0xF0 (dev, n) = Some (funlink_rx_push [0xE0] ?e, n)"
    by (simp add: write_byte_def del: funlink_rx_push.simps)
  have e: "rx_wf ?e" "rx_items ?e = rx_items dev" "rx_room ?e = rx_room dev"
    using assms(1) by (simp_all add: rx_wf_def rx_items_def rx_room_def rx_count_def)
  then show ?thesis
    using w funlink_rx_push_one [of ?e "0xE0"] assms(2) by (auto simp del: funlink_rx_push.simps)
qed

text \<open>A reset pulse and the slots after it, with what the guest reads back.\<close>

lemma line_transaction:
  assumes "rx_wf dev" "ow_wf (fl_ow dev)" "baud \<le> FUNLINK_OW_RESET_HZ" "slots_of t es = Some bs" "length bs < rx_room dev"
    and "ow = funlink_ow_load (fl_state dev = FUNLINK_ST_LISTENING) (fl_station dev) (fl_ow dev)"
  shows "\<exists>out d. line_run net (Writes baud t 0xF0 # es) (dev, n) = Some (out, (d, n)) \<and>
    out @ rx_items d = rx_items dev @ 0xE0 # map bit_slot (fst (ow_slots bs (funlink_ow_reset ow))) \<and>
    fl_tx d = fl_tx dev \<and> fl_tx_len d = fl_tx_len dev"
proof -
  have "0 < rx_room dev" using assms(5) by simp
  from line_reset [OF assms(1) this assms(3,6), of net t n] obtain d where d:
    "write_byte net baud t 0xF0 (dev, n) = Some (d, n)" "rx_wf d" "rx_items d = rx_items dev @ [0xE0]"
    "Suc (rx_room d) = rx_room dev" "fl_ow d = ow_seen t (funlink_ow_reset ow)" "fl_tx d = fl_tx dev" "fl_tx_len d = fl_tx_len dev"
    by blast
  have "length bs \<le> rx_room d" using assms(5) d(4) by simp
  from line_run_slots [OF assms(4) d(2) this d(5), of net n] obtain out d' where
    "line_run net es (d, n) = Some (out, (d', n))"
    "out @ rx_items d' = rx_items d @ map bit_slot (fst (ow_slots bs (funlink_ow_reset ow)))"
    "fl_tx d' = fl_tx d" "fl_tx_len d' = fl_tx_len d"
    by blast
  then show ?thesis using d by (intro exI [of _ out] exI [of _ d']) simp
qed

definition le_dword :: "u8 list \<Rightarrow> nat \<Rightarrow> u32" where
  "le_dword b i = ucast (b ! i) OR push_bit 8 (ucast (b ! (i + 1))) OR push_bit 16 (ucast (b ! (i + 2))) OR push_bit 24 (ucast (b ! (i + 3)))"

lemma byte_of_dword:
  "bit (w AND 0xFF :: u32) n \<longleftrightarrow> n < 8 \<and> bit w n" "bit (drop_bit k w AND 0xFF :: u32) n \<longleftrightarrow> n < 8 \<and> bit w (k + n)"
proof -
  have "bit (0xFF :: u32) n \<longleftrightarrow> n < 8"
    using bit_mask_iff [of 8 n, where ?'a = u32] by (simp add: mask_eq_exp_minus_1 possible_bit_word) auto
  then show "bit (w AND 0xFF :: u32) n \<longleftrightarrow> n < 8 \<and> bit w n"
    "bit (drop_bit k w AND 0xFF :: u32) n \<longleftrightarrow> n < 8 \<and> bit w (k + n)"
    by (auto simp: bit_and_iff bit_drop_bit_eq)
qed

lemma le_dword_bytes:
  "le_dword [x, ucast (w AND 0xFF), ucast (drop_bit 8 w AND 0xFF), ucast (drop_bit 16 w AND 0xFF), ucast (drop_bit 24 w AND 0xFF), y, z, c] 1 = w"
proof (rule bit_word_eqI)
  fix n assume "n < LENGTH(32)"
  then have n: "n < 32" by simp
  consider "n < 8" | "8 \<le> n" "n < 16" | "16 \<le> n" "n < 24" | "24 \<le> n" using n by linarith
  then show "bit (le_dword [x, ucast (w AND 0xFF), ucast (drop_bit 8 w AND 0xFF), ucast (drop_bit 16 w AND 0xFF),
      ucast (drop_bit 24 w AND 0xFF), y, z, c] 1) n = bit w n"
    by cases (use n in \<open>simp_all add: le_dword_def bit_or_iff bit_push_bit_iff bit_ucast_iff byte_of_dword bit_drop_bit_eq possible_bit_word less_diff_conv2\<close>)
qed

text \<open>The station number the token carries: the configured one, or who hosts the bus.\<close>

definition fl_station_now :: "funlink \<Rightarrow> u32" where
  "fl_station_now dev =
     (if fl_station dev = 0 then if fl_state dev = FUNLINK_ST_LISTENING then 1 else 2 else fl_station dev)"

lemma loaded_rom:
  assumes "ow = funlink_ow_load (fl_state dev = FUNLINK_ST_LISTENING) (fl_station dev) (fl_ow dev)"
  shows "\<exists>c. ow_rom ow = [0x91, ucast (fl_station_now dev AND 0xFF), ucast (drop_bit 8 (fl_station_now dev) AND 0xFF),
    ucast (drop_bit 16 (fl_station_now dev) AND 0xFF), ucast (drop_bit 24 (fl_station_now dev) AND 0xFF), 0x70, 0x5E, c] \<and>
    funlink_crc8 (ow_rom ow) 0 = 0"
proof -
  define rom7 :: "u8 list" where "rom7 = [0x91, ucast (fl_station_now dev AND 0xFF), ucast (drop_bit 8 (fl_station_now dev) AND 0xFF),
    ucast (drop_bit 16 (fl_station_now dev) AND 0xFF), ucast (drop_bit 24 (fl_station_now dev) AND 0xFF), 0x70, 0x5E]"
  have "ow_rom ow = rom7 @ [funlink_crc8 rom7 0]"
    unfolding assms funlink_ow_load_def fl_station_now_def Let_def rom7_def
    by (simp del: funlink_crc8.simps)
  moreover have "funlink_crc8 (rom7 @ [funlink_crc8 rom7 0]) 0 = 0"
    unfolding funlink_crc8_eq by (rule ib_crc8_residue)
  ultimately show ?thesis by (simp add: rom7_def del: funlink_crc8.simps)
qed

lemma loaded_mem:
  assumes "ow = funlink_ow_load listening station ow0"
  shows "ow_mem ow = [0x37, 0x2A, 0x11, 0, 0] @ licence @ replicate 77 0"
  by (simp add: assms funlink_ow_load_def ow_consts licence_length put_def numeral_2_eq_2 Let_def)

text \<open>A network nobody is on, for the concrete runs.\<close>

definition empty_net :: "unit net" where
  "empty_net =
     \<lparr>plat_netsocket_create_server = \<lambda>port n. (-1, n), plat_netsocket_create = \<lambda>n. (-1, n),
      plat_netsocket_connect = \<lambda>s host port n. (-1, n), plat_netsocket_connected = \<lambda>s n. (-1, n),
      plat_netsocket_accept = \<lambda>s n. (-1, n), plat_netsocket_receive = \<lambda>s k n. (Recv_Failed, n),
      plat_netsocket_send = \<lambda>s buf n. (Send_Failed, n), plat_netsocket_close = \<lambda>s n. n\<rparr>"

definition slot_writes :: "u32 \<Rightarrow> bool list \<Rightarrow> line_event list" where
  "slot_writes t bs = map (\<lambda>b. Writes 115200 t (bit_slot b)) bs"

lemma slots_of_writes: "slots_of t (slot_writes t bs) = Some bs"
  by (induction bs) (auto simp: slot_writes_def bit_slot_def)

lemma funlink_init_ready:
  "rx_wf (funlink_init role port echo station host)" "ow_wf (fl_ow (funlink_init role port echo station host))"
  "rx_room (funlink_init role port echo station host) = 8191" "rx_items (funlink_init role port echo station host) = []"
  using funlink_ow_reset_wf [OF funlink_ow_load_wf [OF ow_zero_wf]]
  by (simp_all add: funlink_init_def rx_wf_def rx_room_def rx_items_def rx_count_def ring_used_def FUNLINK_RX_SIZE_def Let_def)

text \<open>
  The menus find the token: after a slow reset pulse and a READ ROM in slots no more
  than a second apart, however the guest's reads are spread among its writes, what comes
  back on the line is the presence byte, the echoed command and a serial number that
  starts with 0x91, carries the cabinet's station number as its dword at offset 1 and
  0x5E7 above the low nibble of its word at offset 5, and closes with its check byte. None of
  it goes out on the bus.
\<close>

theorem token_identifies_station:
  assumes "rx_wf dev" "ow_wf (fl_ow dev)" "73 \<le> rx_room dev" "baud \<le> FUNLINK_OW_RESET_HZ"
    and "slots_of t es = Some (bits_lsb 0x33 @ replicate 64 True)"
  shows "\<exists>out d rom. line_run net (Writes baud t 0xF0 # es) (dev, n) = Some (out, (d, n)) \<and>
    out @ rx_items d = rx_items dev @ 0xE0 # map bit_slot (slot_bits (0x33 # rom)) \<and>
    length rom = 8 \<and> rom ! 0 = 0x91 \<and> le_dword rom 1 = fl_station_now dev \<and>
    (256 * uint (rom ! 6) + uint (rom ! 5)) div 16 = 0x5E7 \<and> funlink_crc8 rom 0 = 0 \<and>
    fl_tx d = fl_tx dev \<and> fl_tx_len d = fl_tx_len dev"
proof -
  define ow where "ow = funlink_ow_load (fl_state dev = FUNLINK_ST_LISTENING) (fl_station dev) (fl_ow dev)"
  have wf: "ow_wf ow" using assms(2) by (simp add: ow_def funlink_ow_load_wf)
  have n: "length (ow_rom ow) = 8" using wf by (simp add: ow_wf_def)
  have "fst (ow_slots (bits_lsb 0x33 @ replicate 64 True) (funlink_ow_reset ow)) = bits_lsb 0x33 @ slot_bits (ow_rom ow)"
    using ow_read_rom [OF wf, of "replicate 64 True"] n by simp
  moreover have "length (bits_lsb (0x33 :: u8) @ replicate 64 True) < rx_room dev" using assms(3) by simp
  note line_transaction [OF assms(1,2,4,5) this ow_def, of net n]
  ultimately obtain out d where od: "line_run net (Writes baud t 0xF0 # es) (dev, n) = Some (out, (d, n))"
    "out @ rx_items d = rx_items dev @ 0xE0 # map bit_slot (slot_bits (0x33 # ow_rom ow))"
    "fl_tx d = fl_tx dev" "fl_tx_len d = fl_tx_len dev"
    by auto
  obtain c where c: "ow_rom ow = [0x91, ucast (fl_station_now dev AND 0xFF), ucast (drop_bit 8 (fl_station_now dev) AND 0xFF),
    ucast (drop_bit 16 (fl_station_now dev) AND 0xFF), ucast (drop_bit 24 (fl_station_now dev) AND 0xFF), 0x70, 0x5E, c]"
    "funlink_crc8 (ow_rom ow) 0 = 0"
    using loaded_rom [OF ow_def] by blast
  have "ow_rom ow ! 0 = 0x91 \<and> le_dword (ow_rom ow) 1 = fl_station_now dev \<and>
      (256 * uint (ow_rom ow ! 6) + uint (ow_rom ow ! 5)) div 16 = 0x5E7"
    unfolding c(1) le_dword_bytes by simp
  then show ?thesis using od n c(2) by (intro exI [of _ out] exI [of _ d] exI [of _ "ow_rom ow"]) simp
qed

theorem token_identifies_station_witness:
  "\<exists>out d rom. line_run empty_net (Writes 10000 1 0xF0 # slot_writes 1 (bits_lsb 0x33 @ replicate 64 True))
      (funlink_init FUNLINK_ROLE_AUTO 7662 True 3 None, ()) = Some (out, (d, ())) \<and>
    out @ rx_items d = 0xE0 # map bit_slot (slot_bits (0x33 # rom)) \<and> le_dword rom 1 = 3"
proof -
  let ?d = "funlink_init FUNLINK_ROLE_AUTO 7662 True 3 None"
  have "fl_station_now ?d = 3" by (simp add: fl_station_now_def funlink_init_def Let_def)
  then show ?thesis
    using token_identifies_station [where dev = ?d and net = empty_net and n = "()" and t = 1 and baud = 10000
        and es = "slot_writes 1 (bits_lsb 0x33 @ replicate 64 True)"]
    by (fastforce simp: funlink_init_ready slots_of_writes FUNLINK_OW_RESET_HZ_def simp del: slot_bits_simps funlink_crc8.simps)
qed

text \<open>
  READ MEMORY at address 0, as the menus send it behind a SKIP ROM, is answered with
  the check byte of the command, the 128-byte page and the check byte of the page: 0x37, the
  dword 0x112A, the licence text from offset 5, and zeros. Reading it twice gives the
  same, and none of it goes out on the bus.
\<close>

theorem token_carries_licence:
  assumes "rx_wf dev" "ow_wf (fl_ow dev)" "1073 \<le> rx_room dev" "baud \<le> FUNLINK_OW_RESET_HZ"
    and "slots_of t es = Some (slot_bits [0xCC, 0xF0, 0, 0] @ replicate 1040 True)"
    and "page = [0x37, 0x2A, 0x11, 0, 0] @ licence @ replicate 77 0"
  shows "\<exists>out d. line_run net (Writes baud t 0xF0 # es) (dev, n) = Some (out, (d, n)) \<and>
    out @ rx_items d = rx_items dev @ 0xE0 # map bit_slot (slot_bits
      ([0xCC, 0xF0, 0, 0] @ funlink_crc8 [0xF0, 0, 0] 0 # page @ [funlink_crc8 page 0])) \<and>
    fl_tx d = fl_tx dev \<and> fl_tx_len d = fl_tx_len dev"
proof -
  define ow where "ow = funlink_ow_load (fl_state dev = FUNLINK_ST_LISTENING) (fl_station dev) (fl_ow dev)"
  have wf: "ow_wf ow" using assms(2) by (simp add: ow_def funlink_ow_load_wf)
  have page: "page = drop (unat (0 :: u8) + 256 * unat (0 :: u8)) (ow_mem ow)"
    unfolding assms(6) loaded_mem [OF ow_def] by simp
  have ne: "page \<noteq> []" "length page = 128" by (simp_all add: assms(6) licence_length)
  have "fst (ow_slots (slot_bits [0xCC, 0xF0, 0, 0] @ replicate 1040 True) (funlink_ow_reset ow)) =
      slot_bits [0xCC, 0xF0, 0, 0] @ slot_bits (funlink_crc8 [0xF0, 0, 0] 0 # page @ [funlink_crc8 page 0])"
    using ow_read_memory [OF wf page ne(1), of "replicate 1040 True"] ne(2)
    by (simp del: slot_bits_simps funlink_crc8.simps)
  moreover have "length (slot_bits [0xCC, 0xF0, 0, 0] @ replicate 1040 True) < rx_room dev" using assms(3) by simp
  note line_transaction [OF assms(1,2,4,5) this ow_def, of net n]
  ultimately show ?thesis by (simp only: slot_bits_simps(3) map_append)
qed

theorem token_carries_licence_witness:
  "\<exists>out d. line_run empty_net (Writes 10000 1 0xF0 # slot_writes 1 (slot_bits [0xCC, 0xF0, 0, 0] @ replicate 1040 True))
      (funlink_init FUNLINK_ROLE_AUTO 7662 True 3 None, ()) = Some (out, (d, ())) \<and> length (out @ rx_items d) = 1073"
proof -
  let ?d = "funlink_init FUNLINK_ROLE_AUTO 7662 True 3 None"
  have "1073 \<le> rx_room ?d" "10000 \<le> FUNLINK_OW_RESET_HZ" by (simp_all add: funlink_init_ready FUNLINK_OW_RESET_HZ_def)
  from token_carries_licence [where net = empty_net and n = "()" and t = 1, OF funlink_init_ready(1,2) this slots_of_writes refl]
  obtain out d where r: "line_run empty_net (Writes 10000 1 0xF0 # slot_writes 1 (slot_bits [0xCC, 0xF0, 0, 0] @ replicate 1040 True))
      (?d, ()) = Some (out, (d, ()))" and x: "out @ rx_items d = rx_items ?d @ 0xE0 # map bit_slot (slot_bits
      ([0xCC, 0xF0, 0, 0] @ funlink_crc8 [0xF0, 0, 0] 0 # ([0x37, 0x2A, 0x11, 0, 0] @ licence @ replicate 77 0) @
       [funlink_crc8 ([0x37, 0x2A, 0x11, 0, 0] @ licence @ replicate 77 0) 0]))"
    by blast
  have "length (out @ rx_items d) = 1073"
    unfolding x by (simp add: funlink_init_ready licence_length del: slot_bits_simps funlink_crc8.simps)
  then show ?thesis using r by blast
qed

end
