(* ===== verification/Funlink_Bus.thy ===== *)
theory Funlink_Bus
  imports Funlink_Line
begin

text \<open>
  fun.link as a bus: what a cabinet writes reaches every peer, the host repeats what it
  hears, a cabinet that only joins never leaves its arrays whatever the network does, and
  the two states a failed send can bring the bus into that it does not get out of.
\<close>

section \<open>What the peers are handed\<close>

text \<open>
  A network that takes what it is given, with a log of it; \<open>to_peer\<close> is what one socket
  was handed.
\<close>

definition hears :: "'n net \<Rightarrow> ('n \<Rightarrow> (int \<times> u8 list) list) \<Rightarrow> bool" where
  "hears net log \<longleftrightarrow> (\<forall>p buf n. fst (plat_netsocket_send net p buf n) \<noteq> Send_Failed \<and>
     log (snd (plat_netsocket_send net p buf n)) = log n @ [(p, buf)])"

definition to_peer :: "int \<Rightarrow> (int \<times> u8 list) list \<Rightarrow> u8 list" where
  "to_peer p sent = concat (map snd (filter (\<lambda>x. fst x = p) sent))"

lemma to_peer_append [simp]: "to_peer p (xs @ ys) = to_peer p xs @ to_peer p ys"
  by (simp add: to_peer_def)

lemma to_peer_each:
  "distinct ps \<Longrightarrow> to_peer p (map (\<lambda>q. (q, buf)) ps) = (if p \<in> set ps then buf else [])"
  by (induction ps) (auto simp: to_peer_def)

lemma hearsD:
  assumes "hears net log"
  shows "fst (plat_netsocket_send net p buf n) \<noteq> Send_Failed"
    "log (snd (plat_netsocket_send net p buf n)) = log n @ [(p, buf)]"
  using assms by (simp_all add: hears_def)

lemma send_down_all:
  assumes "\<And>p n. fst (plat_netsocket_send net p buf n) \<noteq> Send_Failed" "k \<le> length (fl_peer dev)"
  shows "send_down net buf except k (dev, n) =
    Some (dev, fold (\<lambda>q n. snd (plat_netsocket_send net q buf n)) (filter (\<lambda>q. q \<noteq> except) (rev (take k (fl_peer dev)))) n)"
  using assms(2)
proof (induction k arbitrary: n)
  case (Suc k)
  then have "take (Suc k) (fl_peer dev) = take k (fl_peer dev) @ [fl_peer dev ! k]" by (simp add: take_Suc_conv_app_nth)
  then show ?case using Suc assms(1) by (auto simp: split_beta Let_def)
qed simp

lemma fold_log:
  "hears net log \<Longrightarrow> log (fold (\<lambda>q n. snd (plat_netsocket_send net q buf n)) ps n) = log n @ map (\<lambda>q. (q, buf)) ps"
  by (induction ps arbitrary: n) (simp_all add: hears_def)

section \<open>The invariant of the arrays\<close>

definition fl_wf :: "funlink \<Rightarrow> bool" where
  "fl_wf dev \<longleftrightarrow> rx_wf dev \<and> ow_wf (fl_ow dev) \<and> length (fl_peer dev) = FUNLINK_MAX_PEERS \<and>
     fl_peers dev \<le> FUNLINK_MAX_PEERS \<and> length (fl_tx dev) = FUNLINK_TX_SIZE \<and> fl_tx_len dev \<le> FUNLINK_TX_SIZE"

lemma fl_wf_update [simp]:
  "fl_wf (dev\<lparr>fl_state := st\<rparr>) = fl_wf dev" "fl_wf (dev\<lparr>fl_next_attempt := t\<rparr>) = fl_wf dev"
  "fl_wf (dev\<lparr>fl_last_poll := t\<rparr>) = fl_wf dev" "fl_wf (dev\<lparr>fl_listener := l\<rparr>) = fl_wf dev"
  "fl_wf (dev\<lparr>fl_dtr := b\<rparr>) = fl_wf dev" "fl_wf dev \<Longrightarrow> fl_wf (dev\<lparr>fl_tx_len := 0\<rparr>)"
  "ow_wf ow \<Longrightarrow> fl_wf dev \<Longrightarrow> fl_wf (dev\<lparr>fl_ow := ow\<rparr>)"
  by (simp_all add: fl_wf_def rx_wf_def)

lemma fl_wf_push: "fl_wf dev \<Longrightarrow> fl_wf (funlink_rx_push bs dev)"
  using funlink_rx_push_items(1) [of dev bs] by (simp add: fl_wf_def)

lemma funlink_init_wf: "fl_wf (funlink_init role port echo station host)"
  using funlink_init_ready(1,2) [of role port echo station host]
  by (simp add: fl_wf_def) (simp add: funlink_init_def Let_def)

lemma rx_items_update [simp]:
  "rx_items (dev\<lparr>fl_tx := tx\<rparr>) = rx_items dev" "rx_items (dev\<lparr>fl_tx_len := k\<rparr>) = rx_items dev"
  "rx_room (dev\<lparr>fl_tx := tx\<rparr>) = rx_room dev" "rx_room (dev\<lparr>fl_tx_len := k\<rparr>) = rx_room dev"
  "rx_wf (dev\<lparr>fl_tx := tx\<rparr>) = rx_wf dev" "rx_wf (dev\<lparr>fl_tx_len := k\<rparr>) = rx_wf dev"
  by (simp_all add: rx_items_def rx_count_def rx_room_def rx_wf_def)

section \<open>Writing to the bus\<close>

text \<open>A cabinet on a settled bus whose token is not being talked to.\<close>

definition fl_talking :: "funlink \<Rightarrow> bool" where
  "fl_talking dev \<longleftrightarrow> fl_wf dev \<and> (fl_state dev = FUNLINK_ST_CLIENT \<or> fl_state dev = FUNLINK_ST_LISTENING) \<and>
     \<not> ow_active (fl_ow dev) \<and> distinct (take (fl_peers dev) (fl_peer dev)) \<and> -1 \<notin> set (take (fl_peers dev) (fl_peer dev))"

text \<open>What a peer has been handed and what still waits for it.\<close>

definition on_its_way :: "('n \<Rightarrow> (int \<times> u8 list) list) \<Rightarrow> int \<Rightarrow> 'n bus \<Rightarrow> u8 list" where
  "on_its_way log p = (\<lambda>(dev, n). to_peer p (log n) @ take (fl_tx_len dev) (fl_tx dev))"

lemma flush_hears:
  assumes "hears net log" "fl_talking dev" "p \<in> set (take (fl_peers dev) (fl_peer dev))"
  shows "\<exists>n'. funlink_flush_tx net (dev, n) = Some (dev\<lparr>fl_tx_len := 0\<rparr>, n') \<and>
    to_peer p (log n') = on_its_way log p (dev, n)"
proof (cases "fl_tx_len dev = 0")
  case True
  then have "dev\<lparr>fl_tx_len := 0\<rparr> = dev" by simp
  then show ?thesis using True by (simp add: funlink_flush_tx_def on_its_way_def)
next
  case False
  let ?ps = "take (fl_peers dev) (fl_peer dev)" and ?b = "take (fl_tx_len dev) (fl_tx dev)"
  let ?n = "fold (\<lambda>q n. snd (plat_netsocket_send net q ?b n)) (rev ?ps) n"
  have w: "fl_wf dev" "distinct ?ps" "-1 \<notin> set ?ps" using assms(2) by (simp_all add: fl_talking_def)
  have b: "min (length (fl_tx dev)) (fl_tx_len dev) = fl_tx_len dev" using w(1) by (simp add: fl_wf_def)
  have keep: "filter (\<lambda>q. q \<noteq> -1) (rev ?ps) = rev ?ps" using w(3) by (intro filter_True) auto
  have "send_down net ?b (-1) (fl_peers dev) (dev, n) = Some (dev, ?n)"
    using send_down_all [of net ?b "fl_peers dev" dev "-1" n] hearsD(1) [OF assms(1)] w(1)
    by (simp add: keep fl_wf_def)
  then have "funlink_flush_tx net (dev, n) = Some (dev\<lparr>fl_tx_len := 0\<rparr>, ?n)"
    using False b assms(2) by (auto simp: funlink_flush_tx_def funlink_send_to_peers_def fl_talking_def Let_def)
  moreover have "to_peer p (log ?n) = on_its_way log p (dev, n)"
    using fold_log [OF assms(1)] to_peer_each [of "rev ?ps" p ?b] w(2) assms(3) by (simp add: on_its_way_def)
  ultimately show ?thesis by blast
qed

lemma write_byte_hears:
  assumes "hears net log" "fl_talking dev" "p \<in> set (take (fl_peers dev) (fl_peer dev))"
    and "v \<noteq> 0xF0 \<or> FUNLINK_OW_RESET_HZ < baud"
  shows "\<exists>d n'. write_byte net baud now v (dev, n) = Some (d, n') \<and> fl_talking d \<and>
    fl_peers d = fl_peers dev \<and> fl_peer d = fl_peer dev \<and> fl_echo d = fl_echo dev \<and>
    on_its_way log p (d, n') = on_its_way log p (dev, n) @ [v] \<and>
    rx_items d = rx_items dev @ (if fl_echo dev then take (rx_room dev) [v] else []) \<and>
    rx_room d = rx_room dev - (if fl_echo dev then 1 else 0)"
proof -
  have quiet: "funlink_ow_consume baud now v dev = (False, dev)"
    using assms(2,4) by (auto simp: funlink_ow_consume_def fl_talking_def Let_def)
  define e where "e = (if FUNLINK_TX_SIZE \<le> fl_tx_len dev then dev\<lparr>fl_tx_len := 0\<rparr> else dev)"
  obtain m where m: "(if FUNLINK_TX_SIZE \<le> fl_tx_len dev then funlink_flush_tx net (dev, n) else Some (dev, n)) = Some (e, m)"
    "on_its_way log p (e, m) = on_its_way log p (dev, n)"
  proof -
    obtain k where "funlink_flush_tx net (dev, n) = Some (dev\<lparr>fl_tx_len := 0\<rparr>, k)" "to_peer p (log k) = on_its_way log p (dev, n)"
      using flush_hears [OF assms(1-3), of n] by blast
    then show thesis
      by (intro that [of "if FUNLINK_TX_SIZE \<le> fl_tx_len dev then k else n"]) (auto simp: e_def on_its_way_def)
  qed
  have w: "fl_wf dev" using assms(2) by (simp add: fl_talking_def)
  have e: "fl_talking e" "fl_tx_len e < FUNLINK_TX_SIZE" "length (fl_tx e) = FUNLINK_TX_SIZE" "rx_wf e"
    "fl_peers e = fl_peers dev" "fl_peer e = fl_peer dev" "fl_echo e = fl_echo dev" "rx_items e = rx_items dev" "rx_room e = rx_room dev"
    using assms(2) w by (auto simp: e_def fl_talking_def fl_wf_def FUNLINK_TX_SIZE_def)
  let ?f = "e\<lparr>fl_tx := (fl_tx e)[fl_tx_len e := v], fl_tx_len := fl_tx_len e + 1\<rparr>"
  let ?d = "if fl_echo e then funlink_rx_push [v] ?f else ?f"
  have f: "fl_talking ?f" using e(1,2) by (auto simp: fl_talking_def fl_wf_def rx_wf_def)
  then have "fl_talking (funlink_rx_push [v] ?f)"
    using fl_wf_push [of ?f "[v]"] by (simp add: fl_talking_def del: funlink_rx_push.simps)
  moreover have "write_byte net baud now v (dev, n) = Some (?d, m)"
    unfolding write_byte_def by (simp add: quiet m(1) Let_def del: funlink_rx_push.simps)
  moreover have "take (fl_tx_len e + 1) ((fl_tx e)[fl_tx_len e := v]) = take (fl_tx_len e) (fl_tx e) @ [v]"
    using e(2,3) take_update_snoc [of "fl_tx_len e" "fl_tx e" v] by simp
  then have "on_its_way log p (?d, m) = on_its_way log p (dev, n) @ [v]"
    unfolding m(2) [symmetric] by (simp add: on_its_way_def del: funlink_rx_push.simps)
  moreover have "rx_wf ?f" using e(4) by simp
  note funlink_rx_push_items [OF this, of "[v]"]
  ultimately show ?thesis using f e by (intro exI [of _ ?d] exI [of _ m]) (auto simp del: funlink_rx_push.simps)
qed

lemma funlink_write_hears:
  assumes "hears net log" "fl_talking dev" "p \<in> set (take (fl_peers dev) (fl_peer dev))"
    and "0xF0 \<notin> set vs \<or> FUNLINK_OW_RESET_HZ < baud"
  shows "\<exists>d n'. funlink_write net baud now vs (dev, n) = Some (d, n') \<and> fl_talking d \<and>
    fl_peers d = fl_peers dev \<and> fl_peer d = fl_peer dev \<and>
    on_its_way log p (d, n') = on_its_way log p (dev, n) @ vs \<and>
    rx_items d = rx_items dev @ (if fl_echo dev then take (rx_room dev) vs else [])"
  using assms(2-)
proof (induction vs arbitrary: dev n)
  case (Cons v vs)
  have "v \<noteq> 0xF0 \<or> FUNLINK_OW_RESET_HZ < baud" using Cons.prems(3) by auto
  from write_byte_hears [OF assms(1) Cons.prems(1,2) this, of now n]
  obtain e m where e: "write_byte net baud now v (dev, n) = Some (e, m)" "fl_talking e"
    "fl_peers e = fl_peers dev" "fl_peer e = fl_peer dev" "fl_echo e = fl_echo dev"
    "on_its_way log p (e, m) = on_its_way log p (dev, n) @ [v]"
    "rx_items e = rx_items dev @ (if fl_echo dev then take (rx_room dev) [v] else [])"
    "rx_room e = rx_room dev - (if fl_echo dev then 1 else 0)"
    by blast
  have "p \<in> set (take (fl_peers e) (fl_peer e))" "0xF0 \<notin> set vs \<or> FUNLINK_OW_RESET_HZ < baud"
    using Cons.prems(2,3) e(3,4) by auto
  from Cons.IH [OF e(2) this, of m]
  obtain d n' where "funlink_write net baud now vs (e, m) = Some (d, n')" "fl_talking d" "fl_peers d = fl_peers e"
    "fl_peer d = fl_peer e" "on_its_way log p (d, n') = on_its_way log p (e, m) @ vs"
    "rx_items d = rx_items e @ (if fl_echo e then take (rx_room e) vs else [])"
    by blast
  then show ?case using e by (cases "rx_room dev") auto
qed simp

text \<open>
  C16. What a cabinet writes, the bus hears: on a settled bus whose sockets take what they are
  handed, bytes that are no token traffic reach every peer in the order they were
  written, each once, behind those already waiting, however many they are and however
  often the buffer is flushed on the way; and the cabinet hears itself as far as its
  receive ring has room, when the adapter echoes.
\<close>

theorem bus_hears_cabinet:
  assumes "hears net log" "fl_talking dev" "p \<in> set (take (fl_peers dev) (fl_peer dev))"
    and "0xF0 \<notin> set vs \<or> FUNLINK_OW_RESET_HZ < baud"
  shows "\<exists>d n1 n2. funlink_write net baud now vs (dev, n) = Some (d, n1) \<and>
    funlink_flush_tx net (d, n1) = Some (d\<lparr>fl_tx_len := 0\<rparr>, n2) \<and>
    to_peer p (log n2) = to_peer p (log n) @ take (fl_tx_len dev) (fl_tx dev) @ vs \<and>
    rx_items d = rx_items dev @ (if fl_echo dev then take (rx_room dev) vs else [])"
proof -
  obtain d n1 where w: "funlink_write net baud now vs (dev, n) = Some (d, n1)" "fl_talking d"
    "fl_peers d = fl_peers dev" "fl_peer d = fl_peer dev" "on_its_way log p (d, n1) = on_its_way log p (dev, n) @ vs"
    "rx_items d = rx_items dev @ (if fl_echo dev then take (rx_room dev) vs else [])"
    using funlink_write_hears [OF assms, of now n] by blast
  have "p \<in> set (take (fl_peers d) (fl_peer d))" using assms(3) w(3,4) by simp
  from flush_hears [OF assms(1) w(2) this, of n1]
  obtain n2 where "funlink_flush_tx net (d, n1) = Some (d\<lparr>fl_tx_len := 0\<rparr>, n2)" "to_peer p (log n2) = on_its_way log p (d, n1)"
    by blast
  then show ?thesis using w by (auto simp: on_its_way_def)
qed

text \<open>Sockets that take everything and have nothing to say; the state is the log.\<close>

definition open_net :: "(int \<times> u8 list) list net" where
  "open_net =
     \<lparr>plat_netsocket_create_server = \<lambda>port n. (-1, n), plat_netsocket_create = \<lambda>n. (-1, n),
      plat_netsocket_connect = \<lambda>s host port n. (-1, n), plat_netsocket_connected = \<lambda>s n. (1, n),
      plat_netsocket_accept = \<lambda>s n. (-1, n), plat_netsocket_receive = \<lambda>s k n. (No_Data, n),
      plat_netsocket_send = \<lambda>s buf n. (Sent (length buf), n @ [(s, buf)]), plat_netsocket_close = \<lambda>s n. n\<rparr>"

definition joined :: "funlink" where
  "joined = (funlink_init FUNLINK_ROLE_JOIN 7662 True 0 None)
     \<lparr>fl_state := FUNLINK_ST_CLIENT, fl_peer := 4 # replicate 14 (-1), fl_peers := 1\<rparr>"

lemma joined_talking: "fl_talking joined"
proof -
  have "fl_wf joined"
    using funlink_init_wf [of FUNLINK_ROLE_JOIN 7662 True 0 None]
    by (simp add: joined_def fl_wf_def rx_wf_def FUNLINK_MAX_PEERS_def)
  then show ?thesis
    by (simp add: fl_talking_def) (simp add: joined_def funlink_init_def ow_zero_def funlink_ow_load_def funlink_ow_reset_def Let_def)
qed

theorem bus_hears_cabinet_witness:
  "\<exists>d n1 n2. funlink_write open_net 115200 5 [0x55, 0xF0, 0x50] (joined, []) = Some (d, n1) \<and>
    funlink_flush_tx open_net (d, n1) = Some (d\<lparr>fl_tx_len := 0\<rparr>, n2) \<and> to_peer 4 n2 = [0x55, 0xF0, 0x50] \<and>
    rx_items d = [0x55, 0xF0, 0x50]"
proof -
  have "hears open_net (\<lambda>n. n)" by (simp add: hears_def open_net_def)
  moreover have "4 \<in> set (take (fl_peers joined) (fl_peer joined))" by (simp add: joined_def)
  moreover have "fl_echo joined" "fl_tx_len joined = 0" "rx_items joined = []" "rx_room joined = 8191"
    using funlink_init_ready(3,4) [of FUNLINK_ROLE_JOIN 7662 True 0 None]
    by (simp_all add: joined_def rx_items_def rx_room_def rx_count_def ring_used_def) (simp_all add: funlink_init_def Let_def)
  ultimately show ?thesis
    using bus_hears_cabinet [OF _ joined_talking, of open_net "\<lambda>n. n" 4 "[0x55, 0xF0, 0x50]" 115200 5 "[]"]
    by (simp add: FUNLINK_OW_RESET_HZ_def to_peer_def del: funlink_write.simps)
qed

section \<open>The repeater\<close>

text \<open>Sockets that never fail: they have something to say or nothing yet, and take what they are handed.\<close>

definition steady :: "'n net \<Rightarrow> bool" where
  "steady net \<longleftrightarrow>
     (\<forall>p n. case fst (plat_netsocket_receive net p 512 n) of Got buf \<Rightarrow> buf \<noteq> [] | No_Data \<Rightarrow> True | _ \<Rightarrow> False) \<and>
     (\<forall>p buf n. fst (plat_netsocket_send net p buf n) \<noteq> Send_Failed)"

text \<open>
  One round of a hub, over the peers as a list: each is asked in turn, and what it says is
  handed to all the others. The result is what was said, in that order.
\<close>

fun hub_round :: "'n net \<Rightarrow> int list \<Rightarrow> int list \<Rightarrow> 'n \<Rightarrow> u8 list \<times> 'n" where
  "hub_round net all [] n = ([], n)"
| "hub_round net all (p # ps) n =
     (case plat_netsocket_receive net p 512 n of
        (Got buf, n) \<Rightarrow>
          (let n = fold (\<lambda>q n. snd (plat_netsocket_send net q buf n)) (filter (\<lambda>q. q \<noteq> p) all) n;
               (said, n) = hub_round net all ps n
           in (buf @ said, n))
      | (_, n) \<Rightarrow> hub_round net all ps n)"

lemma funlink_rx_push_append: "funlink_rx_push (xs @ ys) dev = funlink_rx_push ys (funlink_rx_push xs dev)"
proof (induction xs dev rule: funlink_rx_push.induct)
  case (2 b bs dev)
  show ?case
  proof (cases "(fl_rx_head dev + 1) mod FUNLINK_RX_SIZE = fl_rx_tail dev")
    case True
    then show ?thesis by (cases ys) (simp_all add: Let_def)
  next
    case False
    then show ?thesis using 2 by (simp add: Let_def)
  qed
qed simp

lemma drain_down_steady:
  assumes "steady net" "fl_state dev = FUNLINK_ST_LISTENING" "fl_peers dev \<le> length (fl_peer dev)" "k \<le> fl_peers dev"
    and "all = rev (take (fl_peers dev) (fl_peer dev))"
  shows "drain_down net now k (dev, n) =
    (let (said, n) = hub_round net all (rev (take k (fl_peer dev))) n in Some (funlink_rx_push said dev, n))"
  using assms(2-)
proof (induction k arbitrary: dev n)
  case (Suc k)
  let ?p = "fl_peer dev ! k"
  have ps: "rev (take (Suc k) (fl_peer dev)) = ?p # rev (take k (fl_peer dev))"
    using Suc.prems by (simp add: take_Suc_conv_app_nth)
  obtain r m where r: "plat_netsocket_receive net ?p 512 n = (r, m)" by (metis surj_pair)
  have ok: "case r of Got buf \<Rightarrow> buf \<noteq> [] | No_Data \<Rightarrow> True | _ \<Rightarrow> False"
    using assms(1) r unfolding steady_def by (metis fst_conv)
  show ?case
  proof (cases r)
    case (Got buf)
    let ?m = "fold (\<lambda>q n. snd (plat_netsocket_send net q buf n)) (filter (\<lambda>q. q \<noteq> ?p) all) m"
    have "send_down net buf ?p (fl_peers dev) (funlink_rx_push buf dev, m) = Some (funlink_rx_push buf dev, ?m)"
      using send_down_all [of net buf "fl_peers dev" "funlink_rx_push buf dev" ?p m] assms(1) Suc.prems
      by (simp add: steady_def)
    moreover have "drain_down net now k (funlink_rx_push buf dev, ?m) =
        (let (said, n) = hub_round net all (rev (take k (fl_peer dev))) ?m in Some (funlink_rx_push said (funlink_rx_push buf dev), n))"
      using Suc.IH [of "funlink_rx_push buf dev" ?m] Suc.prems by simp
    ultimately show ?thesis
      using ok Suc.prems(1)
      by (simp add: ps r Got funlink_send_to_peers_def funlink_rx_push_append split_beta Let_def del: take_Suc)
  next
    case No_Data
    then show ?thesis using Suc.IH [of dev m] Suc.prems by (simp add: ps r)
  qed (use ok in simp_all)
qed simp

lemma accept_peers_wf:
  "fl_wf dev \<Longrightarrow> k + fl_peers dev \<le> FUNLINK_MAX_PEERS \<Longrightarrow>
    fl_wf (fst (accept_peers net k (dev, n))) \<and> fl_state (fst (accept_peers net k (dev, n))) = fl_state dev"
proof (induction k arbitrary: dev n)
  case (Suc k)
  obtain sock m where a: "plat_netsocket_accept net (fl_listener dev) n = (sock, m)" by (metis surj_pair)
  let ?d = "dev\<lparr>fl_peer := (fl_peer dev)[fl_peers dev := sock], fl_peers := fl_peers dev + 1\<rparr>"
  have "fl_wf ?d" using Suc.prems by (simp add: fl_wf_def rx_wf_def)
  then show ?case using Suc.IH [of ?d m] Suc.prems a by (simp add: Let_def)
qed simp

text \<open>
  C17. The walk over the peers' array is a hub: on a host whose sockets do not fail, a
  poll in a new millisecond takes in who is waiting to join, asks every peer once, from the
  last to the first, hands what it says to all the others and to none else, puts it in
  the cabinet's own ring in the same order as far as there is room, and then sends what the
  cabinet itself has written.
\<close>

theorem host_is_hub:
  assumes "steady net" "fl_wf dev" "fl_state dev = FUNLINK_ST_LISTENING" "now \<noteq> fl_last_poll dev"
    and "accept_peers net (FUNLINK_MAX_PEERS - fl_peers dev) (dev\<lparr>fl_last_poll := now\<rparr>, n) = (d, n1)"
    and "all = rev (take (fl_peers d) (fl_peer d))" "hub_round net all all n1 = (said, n2)"
  shows "funlink_poll net now (dev, n) = funlink_flush_tx net (funlink_rx_push said d, n2)"
proof -
  have "fl_peers dev \<le> FUNLINK_MAX_PEERS" using assms(2) by (simp add: fl_wf_def)
  then have d: "fl_wf d" "fl_state d = FUNLINK_ST_LISTENING"
    using accept_peers_wf [of "dev\<lparr>fl_last_poll := now\<rparr>" "FUNLINK_MAX_PEERS - fl_peers dev" net n] assms(2,3,5)
    by simp_all
  then have "fl_peers d \<le> length (fl_peer d)" by (simp add: fl_wf_def)
  from drain_down_steady [OF assms(1) d(2) this _ assms(6), of "fl_peers d"]
  have "drain_down net now (fl_peers d) (d, n1) = Some (funlink_rx_push said d, n2)"
    using assms(6,7) by simp
  moreover have "poll_state net now (dev\<lparr>fl_last_poll := now\<rparr>, n) = Some (d, n1)"
    using assms(3,5) by (simp add: poll_state_def Let_def)
  ultimately show ?thesis using assms(4) d(2) by (simp add: funlink_poll_def)
qed

text \<open>Two peers, of which the one on socket 5 says \<open>0x55\<close>.\<close>

definition chatty_net :: "(int \<times> u8 list) list net" where
  "chatty_net = open_net\<lparr>plat_netsocket_receive := \<lambda>s k n. (if s = 5 then Got [0x55] else No_Data, n)\<rparr>"

definition hosting :: "int list \<Rightarrow> funlink" where
  "hosting ps = (funlink_init FUNLINK_ROLE_HOST 7662 True 0 None)
     \<lparr>fl_state := FUNLINK_ST_LISTENING, fl_listener := 3, fl_peer := ps @ replicate (15 - length ps) (-1), fl_peers := length ps\<rparr>"

lemma hosting_wf: "length ps \<le> 15 \<Longrightarrow> fl_wf (hosting ps)"
  using funlink_init_wf [of FUNLINK_ROLE_HOST 7662 True 0 None]
  by (simp add: hosting_def fl_wf_def rx_wf_def FUNLINK_MAX_PEERS_def)

theorem host_is_hub_witness:
  "funlink_poll chatty_net 1 (hosting [4, 5], []) =
     funlink_flush_tx chatty_net (funlink_rx_push [0x55] ((hosting [4, 5])\<lparr>fl_last_poll := 1\<rparr>), [(4, [0x55])])"
proof -
  let ?d = "(hosting [4, 5])\<lparr>fl_last_poll := 1\<rparr>"
  have "steady chatty_net" by (simp add: steady_def chatty_net_def open_net_def)
  moreover have "fl_state (hosting [4, 5]) = FUNLINK_ST_LISTENING" "fl_peers ?d = 2" "take 2 (fl_peer ?d) = [4, 5]"
    by (simp_all add: hosting_def)
  moreover have "1 \<noteq> fl_last_poll (hosting [4, 5])" by (simp add: hosting_def funlink_init_def Let_def)
  moreover have "accept_peers chatty_net k (?d, []) = (?d, [])" for k
    by (cases k) (simp_all add: chatty_net_def open_net_def CHAR_FD_VALID_def)
  moreover have "hub_round chatty_net [5, 4] [5, 4] [] = ([0x55], [(4, [0x55])])"
    by (simp add: chatty_net_def open_net_def)
  ultimately show ?thesis
    using host_is_hub [OF _ hosting_wf, of chatty_net "[4, 5]" 1 "[]" ?d "[]" "[5, 4]" "[0x55]" "[(4, [0x55])]"]
    by simp
qed

section \<open>The state a failed send leaves behind\<close>

text \<open>What can happen to a cabinet: it reads, it writes, it moves DTR, or the network changes.\<close>

inductive fl_step :: "'n net \<Rightarrow> 'n bus \<Rightarrow> 'n bus \<Rightarrow> bool" for net where
  guest_reads: "funlink_read net now s = Some (b, s') \<Longrightarrow> fl_step net s s'"
| guest_writes_bytes: "funlink_write net baud now vs s = Some s' \<Longrightarrow> fl_step net s s'"
| guest_controls: "fl_step net (dev, n) (funlink_control flags dev, n)"
| network_moves: "fl_step net (dev, n) (dev, n')"

text \<open>A client on no bus: nothing it does leads anywhere else.\<close>

definition stranded :: "'n bus \<Rightarrow> bool" where
  "stranded s \<longleftrightarrow> fl_state (fst s) = FUNLINK_ST_CLIENT \<and> fl_peers (fst s) = 0"

lemma stranded_flush: "stranded (dev, n) \<Longrightarrow> funlink_flush_tx net (dev, n) = Some (dev\<lparr>fl_tx_len := 0\<rparr>, n)"
  by (simp add: stranded_def funlink_flush_tx_def funlink_send_to_peers_def Let_def)

lemma stranded_poll: "stranded (dev, n) \<Longrightarrow> \<exists>d. funlink_poll net now (dev, n) = Some (d, n) \<and> stranded (d, n)"
  by (simp add: stranded_def funlink_poll_def poll_state_def funlink_flush_tx_def funlink_send_to_peers_def Let_def)

lemma stranded_read: "stranded (dev, n) \<Longrightarrow> \<exists>b d. funlink_read net now (dev, n) = Some (b, (d, n)) \<and> stranded (d, n)"
  using stranded_poll [of dev n net now] by (auto simp: funlink_read_def split_beta Let_def stranded_def)

lemma consume_frame [simp]:
  "fl_state (snd (funlink_ow_consume baud now v dev)) = fl_state dev" "fl_peers (snd (funlink_ow_consume baud now v dev)) = fl_peers dev"
  "fl_role (snd (funlink_ow_consume baud now v dev)) = fl_role dev" "fl_peer (snd (funlink_ow_consume baud now v dev)) = fl_peer dev"
  "fl_tx (snd (funlink_ow_consume baud now v dev)) = fl_tx dev" "fl_tx_len (snd (funlink_ow_consume baud now v dev)) = fl_tx_len dev"
  by (simp_all add: funlink_ow_consume_def split_beta Let_def del: funlink_rx_push.simps)

lemma stranded_write_byte:
  assumes "stranded (dev, n)"
  shows "\<exists>d. write_byte net baud now v (dev, n) = Some (d, n) \<and> stranded (d, n)"
proof -
  let ?e = "snd (funlink_ow_consume baud now v dev)"
  have "stranded (?e, n)" using assms by (simp add: stranded_def)
  then show ?thesis
    using stranded_flush [of ?e n net] by (auto simp: write_byte_def split_beta Let_def stranded_def simp del: funlink_rx_push.simps)
qed

lemma stranded_write: "stranded (dev, n) \<Longrightarrow> \<exists>d. funlink_write net baud now vs (dev, n) = Some (d, n) \<and> stranded (d, n)"
proof (induction vs arbitrary: dev)
  case (Cons v vs)
  then show ?case using stranded_write_byte [OF Cons.prems, of net baud now v] by fastforce
qed simp

lemma stranded_step: "fl_step net s s' \<Longrightarrow> stranded s \<Longrightarrow> stranded s'"
proof (induction rule: fl_step.induct)
  case (guest_reads now s b s')
  then show ?case using stranded_read [of "fst s" "snd s" net now] by auto
next
  case (guest_writes_bytes baud now vs s s')
  then show ?case using stranded_write [of "fst s" "snd s" net baud now vs] by auto
qed (simp_all add: stranded_def funlink_control_def)

text \<open>
  A joined cabinet whose only connection fails on a send never joins again: the flush
  drops the peer but leaves the state as it was, and from there, whatever the guest reads
  or writes and whatever becomes of the network, it stays a client without a peer and
  neither connects nor listens.
\<close>

theorem client_never_rejoins:
  assumes "fl_state dev = FUNLINK_ST_CLIENT" "fl_peers dev = 1" "fl_peer dev ! 0 = sock" "0 \<le> sock"
    and "0 < fl_tx_len dev" "length (fl_tx dev) = FUNLINK_TX_SIZE"
    and "\<And>buf n. fst (plat_netsocket_send net sock buf n) = Send_Failed"
  shows "\<exists>d n1. funlink_flush_tx net (dev, n) = Some (d, n1) \<and>
    (\<forall>d' n'. (fl_step net)\<^sup>*\<^sup>* (d, n1) (d', n') \<longrightarrow> fl_state d' = FUNLINK_ST_CLIENT \<and> fl_peers d' = 0)"
proof -
  have "\<exists>d n1. funlink_flush_tx net (dev, n) = Some (d, n1) \<and> stranded (d, n1)"
    using assms by (auto simp: funlink_flush_tx_def funlink_send_to_peers_def funlink_drop_peer_def stranded_def
        FUNLINK_TX_SIZE_def split_beta Let_def)
  then obtain d n1 where f: "funlink_flush_tx net (dev, n) = Some (d, n1)" "stranded (d, n1)" by blast
  have "(fl_step net)\<^sup>*\<^sup>* (d, n1) s \<Longrightarrow> stranded s" for s
    by (induction rule: rtranclp_induct) (use f(2) stranded_step in auto)
  then have "\<forall>d' n'. (fl_step net)\<^sup>*\<^sup>* (d, n1) (d', n') \<longrightarrow> fl_state d' = FUNLINK_ST_CLIENT \<and> fl_peers d' = 0"
    unfolding stranded_def by (metis fst_conv)
  then show ?thesis using f(1) by blast
qed

text \<open>Sockets that refuse everything they are handed.\<close>

definition broken_net :: "unit net" where
  "broken_net =
     \<lparr>plat_netsocket_create_server = \<lambda>port n. (3, n), plat_netsocket_create = \<lambda>n. (4, n),
      plat_netsocket_connect = \<lambda>s host port n. (0, n), plat_netsocket_connected = \<lambda>s n. (1, n),
      plat_netsocket_accept = \<lambda>s n. (-1, n),
      plat_netsocket_receive = \<lambda>s k n. (if s = 6 then Got [0x55] else if s = -1 then Recv_Failed else No_Data, n),
      plat_netsocket_send = \<lambda>s buf n. (Send_Failed, n), plat_netsocket_close = \<lambda>s n. n\<rparr>"

theorem client_never_rejoins_witness:
  "\<exists>d. funlink_flush_tx broken_net (joined\<lparr>fl_tx_len := 1\<rparr>, ()) = Some (d, ()) \<and>
    (\<forall>d' n'. (fl_step broken_net)\<^sup>*\<^sup>* (d, ()) (d', n') \<longrightarrow> fl_state d' = FUNLINK_ST_CLIENT)"
proof -
  let ?d = "joined\<lparr>fl_tx_len := 1\<rparr>"
  have "fl_state ?d = FUNLINK_ST_CLIENT" "fl_peers ?d = 1" "fl_peer ?d ! 0 = 4" "0 < fl_tx_len ?d" "(0 :: int) \<le> 4"
    by (simp_all add: joined_def)
  moreover have "length (fl_tx ?d) = FUNLINK_TX_SIZE" using joined_talking by (simp add: fl_talking_def fl_wf_def)
  moreover have "fst (plat_netsocket_send broken_net 4 buf n) = Send_Failed" for buf n by (simp add: broken_net_def)
  ultimately obtain d n1 where "funlink_flush_tx broken_net (?d, ()) = Some (d, n1)"
    "\<forall>d' n'. (fl_step broken_net)\<^sup>*\<^sup>* (d, n1) (d', n') \<longrightarrow> fl_state d' = FUNLINK_ST_CLIENT \<and> fl_peers d' = 0"
    using client_never_rejoins [of ?d 4 broken_net "()"] by blast
  then show ?thesis by (intro exI [of _ d]) auto
qed

lemma accept_nobody:
  "(\<And>s n. fst (plat_netsocket_accept net s n) = -1) \<Longrightarrow> \<exists>n'. accept_peers net k (dev, n) = (dev, n')"
  by (cases k) (simp_all add: CHAR_FD_VALID_def split_beta Let_def)

text \<open>
  Two peers that fail on a send in the same round bring the host's bus down: with three
  cabinets on it, when the last of them speaks and the sends to the other two fail, both
  are dropped while the loop goes on with the indices from before; it asks an empty slot,
  drops the speaker for it unclosed, and then writes below the array.
\<close>

theorem host_walks_off_array:
  assumes "fl_wf dev" "fl_state dev = FUNLINK_ST_LISTENING" "fl_peers dev = 3" "fl_peer dev = a # b # c # ps"
    and "0 \<le> a" "0 \<le> b" "0 \<le> c" "a \<noteq> c" "b \<noteq> c" "now \<noteq> fl_last_poll dev"
    and "\<And>s n. fst (plat_netsocket_accept net s n) = -1"
    and "\<And>k n. fst (plat_netsocket_receive net c k n) = Got buf" "buf \<noteq> []"
    and "\<And>buf n. fst (plat_netsocket_send net a buf n) = Send_Failed"
    and "\<And>buf n. fst (plat_netsocket_send net b buf n) = Send_Failed"
    and "\<And>k n. fst (plat_netsocket_receive net (-1) k n) = Recv_Failed"
  shows "funlink_poll net now (dev, n) = None"
proof -
  let ?d = "dev\<lparr>fl_last_poll := now\<rparr>"
  obtain n1 where p: "poll_state net now (?d, n) = Some (?d, n1)"
    using assms(2) accept_nobody [of net "FUNLINK_MAX_PEERS - fl_peers dev" ?d n] assms(11)
    by (auto simp: poll_state_def Let_def)
  have "drain_down net now (Suc (Suc (Suc 0))) (?d, n1) = None"
    using assms(2-9,12-16)
    by (simp add: funlink_send_to_peers_def funlink_drop_peer_def CHAR_FD_VALID_def split_beta Let_def numeral_3_eq_3 upt_conv_Cons)
  then show ?thesis using assms(2,3,10) p by (simp add: funlink_poll_def numeral_3_eq_3)
qed

theorem host_walks_off_array_witness: "funlink_poll broken_net 1 (hosting [4, 5, 6], ()) = None"
proof -
  have h: "fl_state (hosting [4, 5, 6]) = FUNLINK_ST_LISTENING" "fl_peers (hosting [4, 5, 6]) = 3"
    "fl_peer (hosting [4, 5, 6]) = 4 # 5 # 6 # replicate 12 (-1)"
    by (simp_all add: hosting_def)
  have "1 \<noteq> fl_last_poll (hosting [4, 5, 6])" by (simp add: hosting_def funlink_init_def Let_def)
  then show ?thesis
    by (intro host_walks_off_array [OF hosting_wf h, where buf = "[0x55]"]) (simp_all add: broken_net_def)
qed

section \<open>A cabinet that only joins\<close>

definition joiner :: "funlink \<Rightarrow> bool" where
  "joiner dev \<longleftrightarrow> fl_wf dev \<and> fl_role dev = FUNLINK_ROLE_JOIN \<and> fl_state dev \<noteq> FUNLINK_ST_LISTENING \<and>
     fl_peers dev \<le> 1 \<and> (fl_state dev = FUNLINK_ST_IDLE \<longrightarrow> fl_peers dev = 0) \<and>
     (fl_state dev = FUNLINK_ST_CONNECTING \<longrightarrow> fl_peers dev = 1)"

lemma joiner_update [simp]:
  "joiner (dev\<lparr>fl_next_attempt := t\<rparr>) = joiner dev" "joiner (dev\<lparr>fl_last_poll := t\<rparr>) = joiner dev"
  "joiner (dev\<lparr>fl_dtr := b\<rparr>) = joiner dev" "joiner dev \<Longrightarrow> joiner (dev\<lparr>fl_tx_len := 0\<rparr>)"
  by (simp_all add: joiner_def)

lemma joiner_push: "joiner dev \<Longrightarrow> joiner (funlink_rx_push bs dev)"
  by (simp add: joiner_def fl_wf_push)

text \<open>Dropping the one peer.\<close>

lemma joiner_drop:
  assumes "fl_wf dev" "fl_peers dev = 1"
  shows "\<exists>d n'. funlink_drop_peer net 0 (dev, n) = Some (d, n') \<and> fl_wf d \<and> fl_peers d = 0 \<and>
    fl_state d = fl_state dev \<and> fl_role d = fl_role dev"
  using assms by (simp add: funlink_drop_peer_def fl_wf_def rx_wf_def Let_def)

lemma joiner_close:
  assumes "fl_wf dev" "fl_peers dev \<le> 1" "fl_role dev = FUNLINK_ROLE_JOIN"
  shows "\<exists>d n'. funlink_close_all net (dev, n) = Some (d, n') \<and> joiner d \<and> fl_state d = FUNLINK_ST_IDLE"
proof -
  have "\<exists>d n'. close_peers net (fl_peers dev) (dev, n) = Some (d, n') \<and> fl_wf d \<and> fl_peers d = 0 \<and> fl_role d = FUNLINK_ROLE_JOIN"
  proof (cases "fl_peers dev = 0")
    case False
    then have "fl_peers dev = 1" using assms(2) by simp
    then show ?thesis using joiner_drop [OF assms(1), of net n] assms(3) by auto
  qed (use assms in simp)
  then show ?thesis by (auto simp: funlink_close_all_def joiner_def Let_def)
qed

lemma joiner_flush:
  assumes "joiner dev"
  shows "\<exists>d n'. funlink_flush_tx net (dev, n) = Some (d, n') \<and> joiner d \<and> fl_tx_len d = 0"
proof (cases "fl_tx_len dev \<noteq> 0 \<and> fl_state dev = FUNLINK_ST_CLIENT \<and> fl_peers dev = 1")
  case True
  obtain r m where r: "plat_netsocket_send net (fl_peer dev ! 0) (take (fl_tx_len dev) (fl_tx dev)) n = (r, m)" by (metis surj_pair)
  have w: "fl_wf dev" using assms by (simp add: joiner_def)
  obtain d n' where d: "funlink_drop_peer net 0 (dev, m) = Some (d, n')" "fl_wf d" "fl_peers d = 0"
      "fl_state d = fl_state dev" "fl_role d = fl_role dev"
    using joiner_drop [OF w, of net m] True by auto
  then have "joiner d" using assms True by (simp add: joiner_def)
  then show ?thesis using True r d assms
    by (auto simp: funlink_flush_tx_def funlink_send_to_peers_def Let_def)
next
  case False
  then have "fl_tx_len dev = 0 \<or> fl_state dev \<noteq> FUNLINK_ST_CLIENT \<or> fl_peers dev = 0" using assms by (auto simp: joiner_def)
  then show ?thesis using assms
    by (auto simp: funlink_flush_tx_def funlink_send_to_peers_def joiner_def Let_def)
qed

lemma joiner_connecting:
  assumes "joiner dev" "fl_state dev = FUNLINK_ST_IDLE"
  shows "joiner (fst (funlink_start_connecting net (dev, n)))"
  using assms by (auto simp: funlink_start_connecting_def joiner_def fl_wf_def rx_wf_def FUNLINK_MAX_PEERS_def split_beta Let_def)

lemma joiner_poll_state:
  assumes "joiner dev"
  shows "\<exists>d n'. poll_state net now (dev, n) = Some (d, n') \<and> joiner d"
proof (cases "fl_state dev")
  case FUNLINK_ST_IDLE
  let ?e = "dev\<lparr>fl_next_attempt := if now \<noteq> 0 then now else 1\<rparr>"
  obtain d n' where "funlink_start_connecting net (?e, n) = (d, n')" by (metis surj_pair)
  moreover from this have "joiner d"
    using joiner_connecting [of ?e net n] assms FUNLINK_ST_IDLE by simp
  moreover have "fl_role dev = FUNLINK_ROLE_JOIN" using assms by (simp add: joiner_def)
  ultimately show ?thesis using FUNLINK_ST_IDLE assms by (auto simp: poll_state_def Let_def)
next
  case FUNLINK_ST_CONNECTING
  obtain c m where c: "plat_netsocket_connected net (fl_peer dev ! 0) n = (c, m)" by (metis surj_pair)
  obtain d n' where "funlink_close_all net (dev, m) = Some (d, n')" "joiner d"
    using joiner_close [of dev net m] assms by (auto simp: joiner_def)
  moreover have "joiner (dev\<lparr>fl_state := FUNLINK_ST_CLIENT\<rparr>)" using assms by (simp add: joiner_def)
  ultimately show ?thesis using FUNLINK_ST_CONNECTING assms c by (auto simp: poll_state_def joiner_def Let_def)
next
  case FUNLINK_ST_CLIENT
  then show ?thesis using assms by (simp add: poll_state_def Let_def)
next
  case FUNLINK_ST_LISTENING
  then show ?thesis using assms by (simp add: joiner_def)
qed

lemma joiner_drain:
  assumes "joiner dev" "fl_state dev \<noteq> FUNLINK_ST_CONNECTING" "k = fl_peers dev"
  shows "\<exists>d n'. drain_down net now k (dev, n) = Some (d, n') \<and> joiner d"
proof (cases k)
  case (Suc i)
  then have k: "k = Suc 0" "fl_state dev = FUNLINK_ST_CLIENT" "fl_peers dev = 1"
    using assms by (cases "fl_state dev"; simp add: joiner_def)+
  obtain r m where r: "plat_netsocket_receive net (fl_peer dev ! 0) 512 n = (r, m)" by (metis surj_pair)
  have w: "fl_wf dev" "fl_role dev = FUNLINK_ROLE_JOIN" using assms(1) by (simp_all add: joiner_def)
  obtain d n' where d: "funlink_drop_peer net 0 (dev, m) = Some (d, n')" "fl_wf d" "fl_peers d = 0"
      "fl_state d = fl_state dev" "fl_role d = fl_role dev"
    using joiner_drop [OF w(1) k(3), of net m] by auto
  obtain e n2 where e: "funlink_close_all net (d, n') = Some (e, n2)" "joiner e"
    using joiner_close [OF d(2), of net n'] d(3,5) w(2) by auto
  show ?thesis
  proof (cases r)
    case (Got buf)
    then show ?thesis using k r joiner_push [OF assms(1), of buf] by (simp add: Let_def)
  qed (use k r d e assms(1) in \<open>simp_all add: Let_def\<close>)
qed (use assms in simp)

lemma joiner_poll:
  assumes "joiner dev"
  shows "\<exists>d n'. funlink_poll net now (dev, n) = Some (d, n') \<and> joiner d"
proof (cases "now = fl_last_poll dev")
  case False
  have "joiner (dev\<lparr>fl_last_poll := now\<rparr>)" using assms by simp
  then obtain d n1 where d: "poll_state net now (dev\<lparr>fl_last_poll := now\<rparr>, n) = Some (d, n1)" "joiner d"
    using joiner_poll_state [of "dev\<lparr>fl_last_poll := now\<rparr>" net now n] by blast
  show ?thesis
  proof (cases "fl_state d = FUNLINK_ST_CONNECTING")
    case True
    then show ?thesis using False d by (simp add: funlink_poll_def)
  next
    case nc: False
    obtain e n2 where e: "drain_down net now (fl_peers d) (d, n1) = Some (e, n2)" "joiner e"
      using joiner_drain [OF d(2) nc refl, of net now n1] by blast
    obtain f n3 where "funlink_flush_tx net (e, n2) = Some (f, n3)" "joiner f" using joiner_flush [OF e(2), of net n2] by blast
    then show ?thesis using False nc d e by (simp add: funlink_poll_def)
  qed
qed (use assms in \<open>simp add: funlink_poll_def\<close>)

lemma consume_wf:
  assumes "fl_wf dev"
  shows "fl_wf (snd (funlink_ow_consume baud now v dev))"
proof -
  have ow: "ow_wf (ow\<lparr>ow_active := a, ow_last := t\<rparr>) = ow_wf ow" "ow_wf (ow\<lparr>ow_active := a\<rparr>) = ow_wf ow"
    "ow_wf (ow\<lparr>ow_last := t\<rparr>) = ow_wf ow" for ow a t by (simp_all add: ow_wf_def)
  have w: "ow_wf (fl_ow dev)" using assms by (simp add: fl_wf_def)
  have up: "ow_wf ow \<Longrightarrow> fl_wf (dev\<lparr>fl_ow := ow\<rparr>)" for ow using assms by simp
  note slot = funlink_ow_slot_wf [of "fl_ow dev" v] funlink_ow_slot_wf [of "(fl_ow dev)\<lparr>ow_active := False\<rparr>" v]
  show ?thesis
    unfolding funlink_ow_consume_def Let_def
    by (simp add: split_beta w ow slot funlink_ow_reset_wf funlink_ow_load_wf up fl_wf_push del: funlink_rx_push.simps)
qed

lemma joiner_write_byte:
  assumes "joiner dev"
  shows "\<exists>d n'. write_byte net baud now v (dev, n) = Some (d, n') \<and> joiner d"
proof -
  let ?e = "snd (funlink_ow_consume baud now v dev)"
  have e: "joiner ?e" using assms consume_wf [of dev baud now v] by (simp add: joiner_def)
  obtain f m where f: "(if FUNLINK_TX_SIZE \<le> fl_tx_len ?e then funlink_flush_tx net (?e, n) else Some (?e, n)) = Some (f, m)"
    "joiner f" "fl_tx_len f < FUNLINK_TX_SIZE"
    using joiner_flush [OF e, of net n] e by (cases "FUNLINK_TX_SIZE \<le> fl_tx_len ?e") (auto simp: FUNLINK_TX_SIZE_def)
  let ?g = "f\<lparr>fl_tx := (fl_tx f)[fl_tx_len f := v], fl_tx_len := fl_tx_len f + 1\<rparr>"
  have "joiner ?g" using f(2,3) by (simp add: joiner_def fl_wf_def)
  then have g: "joiner (if fl_echo f then funlink_rx_push [v] ?g else ?g)"
    using joiner_push [of ?g "[v]"] by (simp del: funlink_rx_push.simps)
  show ?thesis
  proof (cases "fst (funlink_ow_consume baud now v dev)")
    case True
    then show ?thesis using e by (simp add: write_byte_def split_beta Let_def)
  next
    case False
    then have "write_byte net baud now v (dev, n) = Some (if fl_echo f then funlink_rx_push [v] ?g else ?g, m)"
      using f(1) by (simp add: write_byte_def split_beta Let_def del: funlink_rx_push.simps cong: if_cong split del: if_split)
    then show ?thesis using g by blast
  qed
qed

lemma joiner_write:
  "joiner dev \<Longrightarrow> \<exists>d n'. funlink_write net baud now vs (dev, n) = Some (d, n') \<and> joiner d"
proof (induction vs arbitrary: dev n)
  case (Cons v vs)
  obtain e m where "write_byte net baud now v (dev, n) = Some (e, m)" "joiner e"
    using joiner_write_byte [OF Cons.prems, of net baud now v n] by blast
  then show ?case using Cons.IH [of e m] by simp
qed simp

lemma joiner_read:
  assumes "joiner dev"
  shows "\<exists>b d n'. funlink_read net now (dev, n) = Some (b, (d, n')) \<and> joiner d"
proof -
  obtain e m where e: "funlink_poll net now (dev, n) = Some (e, m)" "joiner e" using joiner_poll [OF assms, of net now n] by blast
  have "joiner (snd (funlink_rx_pop e))"
    using e(2) funlink_rx_pop_items [of e] by (simp add: joiner_def fl_wf_def) (simp add: funlink_rx_pop_def)
  then show ?thesis using e(1) by (simp add: funlink_read_def split_beta Let_def)
qed

lemma joiner_step: "fl_step net s s' \<Longrightarrow> joiner (fst s) \<Longrightarrow> joiner (fst s')"
proof (induction rule: fl_step.induct)
  case (guest_reads now s b s')
  then show ?case using joiner_read [of "fst s" net now "snd s"] by auto
next
  case (guest_writes_bytes baud now vs s s')
  then show ?case using joiner_write [of "fst s" net baud now vs "snd s"] by auto
qed (simp_all add: funlink_control_def)

text \<open>
  A cabinet that only joins is sound: from power-on, whatever the guest reads and writes
  and whatever the network answers, its arrays keep their sizes and its cursors stay
  inside them, it is never the listener, it has at most one peer, and every further read,
  write and poll is defined.
\<close>

theorem joiner_sound:
  assumes "(fl_step net)\<^sup>*\<^sup>* (funlink_init FUNLINK_ROLE_JOIN port echo station host, n) (dev, n')"
  shows "fl_wf dev \<and> fl_state dev \<noteq> FUNLINK_ST_LISTENING \<and> fl_peers dev \<le> 1 \<and>
    funlink_read net now (dev, n') \<noteq> None \<and> funlink_write net baud now vs (dev, n') \<noteq> None"
proof -
  have start: "joiner (funlink_init FUNLINK_ROLE_JOIN port echo station host)"
    using funlink_init_wf [of FUNLINK_ROLE_JOIN port echo station host]
    by (simp add: joiner_def) (simp add: funlink_init_def Let_def)
  have "(fl_step net)\<^sup>*\<^sup>* (funlink_init FUNLINK_ROLE_JOIN port echo station host, n) s \<Longrightarrow> joiner (fst s)" for s
    by (induction rule: rtranclp_induct) (use start joiner_step in auto)
  then have "joiner dev" using assms by fastforce
  then show ?thesis
    using joiner_read [of dev net now n'] joiner_write [of dev net baud now vs n'] by (auto simp: joiner_def)
qed

theorem joiner_sound_witness:
  "funlink_read broken_net 7 (funlink_init FUNLINK_ROLE_JOIN 7662 True 0 None, ()) \<noteq> None"
  using joiner_sound [OF rtranclp.rtrancl_refl, where net = broken_net and now = 7] by blast

end
