(* ===== verification/Packet_Sink.thy ===== *)
theory Packet_Sink
  imports Fifo8
begin

text \<open>
  A queue that takes whole packets: what a controller that answers in packets relies on.
  A packet is offered; it is queued whole or, when there is no room, dropped whole, and
  the push is never reached without the room it asserts.
\<close>

section \<open>The interface\<close>

locale packet_sink = byte_queue push pop items room ok
  for push :: "'q \<Rightarrow> 'b \<Rightarrow> 'q option" and pop :: "'q \<Rightarrow> ('b \<times> 'q) option"
    and items :: "'q \<Rightarrow> 'b list" and room :: "'q \<Rightarrow> nat" and ok :: "'q \<Rightarrow> bool" +
  fixes push_all :: "'q \<Rightarrow> 'b list \<Rightarrow> 'q option"
    and clear :: "'q \<Rightarrow> 'q"
  assumes push_all_room: "ok q \<Longrightarrow> length bs \<le> room q \<Longrightarrow>
      \<exists>q'. push_all q bs = Some q' \<and> ok q' \<and> items q' = items q @ bs \<and> room q' = room q - length bs"
    and clear_empty: "ok q \<Longrightarrow>
      ok (clear q) \<and> items (clear q) = [] \<and> room (clear q) = room q + length (items q)"
begin

definition offer :: "'q \<Rightarrow> 'b list \<Rightarrow> 'q option" where
  "offer q bs = (if room q < length bs then Some q else push_all q bs)"

text \<open>The queue after an offer, as a total function.\<close>

definition fed :: "'q \<Rightarrow> 'b list \<Rightarrow> 'q" where
  "fed q bs = the (offer q bs)"

lemma offer_total:
  assumes "ok q"
  shows "offer q bs = Some (fed q bs)" "ok (fed q bs)"
    "items (fed q bs) = items q @ (if length bs \<le> room q then bs else [])"
    "room (fed q bs) = room q - (if length bs \<le> room q then length bs else 0)"
  using push_all_room [OF assms, of bs] assms by (auto simp: offer_def fed_def)

lemma fed_keeps_size:
  "ok q \<Longrightarrow> room (fed q bs) + length (items (fed q bs)) = room q + length (items q)"
  by (simp add: offer_total)

text \<open>Packets offered in turn to a queue with room for them all.\<close>

lemma foldl_fed:
  "ok q \<Longrightarrow> length (concat ps) \<le> room q \<Longrightarrow>
     ok (foldl fed q ps) \<and> items (foldl fed q ps) = items q @ concat ps \<and>
     room (foldl fed q ps) = room q - length (concat ps)"
proof (induction ps arbitrary: q)
  case (Cons p ps)
  then show ?case using Cons.IH [of "fed q p"] by (simp add: offer_total)
qed simp

text \<open>Whatever the room, only whole packets are queued, in the order they came.\<close>

lemma foldl_fed_whole:
  "ok q \<Longrightarrow> ok (foldl fed q ps) \<and> (\<exists>keep. length keep = length ps \<and>
     items (foldl fed q ps) = items q @ concat (map fst (filter snd (zip ps keep))))"
proof (induction ps arbitrary: q)
  case (Cons p ps)
  then obtain keep where "length keep = length ps" "ok (foldl fed (fed q p) ps)"
      "items (foldl fed (fed q p) ps) = items (fed q p) @ concat (map fst (filter snd (zip ps keep)))"
    using Cons.IH [of "fed q p"] offer_total(2) by blast
  then show ?case
    using Cons.prems by (intro conjI exI [of _ "(length p \<le> room q) # keep"]) (simp_all add: offer_total)
qed simp

end

section \<open>The ring buffer as a sink\<close>

interpretation sink: packet_sink fifo8_push fifo8_pop fifo8_items fifo8_num_free fifo8_wf fifo8_push_all fifo8_reset
proof
  fix f :: fifo8 and bs :: "u8 list"
  assume f: "fifo8_wf f" "length bs \<le> fifo8_num_free f"
  then have "f_num f + length bs \<le> f_cap f" by (auto simp: fifo8_num_free_room fifo8_wf_def)
  then obtain f' where f': "fifo8_push_all f bs = Some f'" "fifo8_wf f'" "fifo8_items f' = fifo8_items f @ bs" "f_cap f' = f_cap f"
    using fifo8_push_all_queue [OF f(1)] by blast
  moreover from f'(3) have "f_num f' = f_num f + length bs"
    by (metis fifo8_num_used_items length_append)
  ultimately show "\<exists>f'. fifo8_push_all f bs = Some f' \<and> fifo8_wf f' \<and> fifo8_items f' = fifo8_items f @ bs \<and>
      fifo8_num_free f' = fifo8_num_free f - length bs"
    using f(1) by (simp add: fifo8_num_free_room)
next
  fix f
  assume "fifo8_wf f"
  then show "fifo8_wf (fifo8_reset f) \<and> fifo8_items (fifo8_reset f) = [] \<and>
      fifo8_num_free (fifo8_reset f) = fifo8_num_free f + length (fifo8_items f)"
    using fifo8_reset_queue [of f] by (simp add: fifo8_num_free_room fifo8_wf_def fifo8_reset_def)
qed

definition fifo8_fed :: "fifo8 \<Rightarrow> u8 list \<Rightarrow> fifo8" where
  "fifo8_fed f bs = the (if fifo8_num_free f < length bs then Some f else fifo8_push_all f bs)"

lemma fifo8_fed_sink: "sink.fed f bs = fifo8_fed f bs"
  by (simp add: sink.fed_def sink.offer_def fifo8_fed_def)

lemma fifo8_offer:
  assumes "fifo8_wf f"
  shows "(if fifo8_num_free f < length bs then Some f else fifo8_push_all f bs) = Some (fifo8_fed f bs)"
  using sink.offer_total(1) [OF assms, of bs] by (simp add: sink.offer_def fifo8_fed_sink)

lemmas fifo8_fed_props = sink.offer_total(2-4) [unfolded fifo8_fed_sink]

lemma fifo8_fed_wf [wf_intros]: "fifo8_wf f \<Longrightarrow> fifo8_wf (fifo8_fed f bs)"
  by (rule fifo8_fed_props)

lemma fifo8_wf_num: "fifo8_wf f \<Longrightarrow> f_num f \<le> f_cap f"
  by (simp add: fifo8_wf_def)

lemma fifo8_size: "fifo8_wf f \<Longrightarrow> f_cap f = fifo8_num_free f + length (fifo8_items f)"
  by (simp add: fifo8_num_free_room fifo8_wf_num)

lemma fifo8_fed_cap:
  assumes "fifo8_wf f"
  shows "f_cap (fifo8_fed f bs) = f_cap f"
  using sink.fed_keeps_size [OF assms, of bs] fifo8_size [OF assms] fifo8_size [OF fifo8_fed_wf [OF assms], of bs]
  by (simp add: fifo8_fed_sink)

end
