(* ===== verification/Elo.thy ===== *)
theory Elo
  imports Complex_Main Packet_Sink C_Strings "HOL-Library.Signed_Division" "HOL-Library.Monad_Syntax"
begin

text \<open>
  The Elo SmartSet touch controller (\<open>device/mouse_elo_touchscreen.c\<close>): its state, the
  saved configuration, the packets it sends, and the way from a raw reading to a
  coordinate on the wire.

  A signed 32-bit field is an \<open>int\<close>; the conversions the code writes out are \<open>i32\<close> and
  \<open>i16\<close>. The bounds that keep every sum in range are part of the invariant. A timer is
  the period it is armed with, in microseconds, or \<open>None\<close>. The file behind
  \<open>nvr_fopen\<close> is a component of the state: \<open>None\<close> when it is missing or short; writing
  it succeeds.
\<close>

section \<open>C integers\<close>

definition i32 :: "int \<Rightarrow> int" where "i32 = signed_take_bit 31"
definition i16 :: "int \<Rightarrow> int" where "i16 = signed_take_bit 15"

text \<open>Byte \<open>k\<close> of an integer, \<open>(v >> 8 * k) & 0xff\<close>, and two bytes read back.\<close>

definition byte_at :: "nat \<Rightarrow> int \<Rightarrow> u8" where
  "byte_at k v = word_of_int (drop_bit (8 * k) v)"

definition le16 :: "u8 \<Rightarrow> u8 \<Rightarrow> int" where
  "le16 lo hi = uint lo OR push_bit 8 (uint hi)"

definition timer_on_auto :: "rat \<Rightarrow> rat option" where
  "timer_on_auto period = (if 0 < period then Some period else None)"

section \<open>State\<close>

definition ELO_RAW_MAX :: int where "ELO_RAW_MAX = 4095"
definition ELO_NVR_MAGIC :: u32 where "ELO_NVR_MAGIC = 0x314f4c45"
definition ELO_CONFIG_PACKETS :: u8 where "ELO_CONFIG_PACKETS = 15"

definition elo_baud_table :: "int list" where
  "elo_baud_table = [300, 600, 1200, 2400, 4800, 9600, 19200, 38400]"

text \<open>The mode bits, the status bit and the output formats.\<close>

abbreviation (input) ELO_M1_INITIAL :: u8 where "ELO_M1_INITIAL \<equiv> 0x01"
abbreviation (input) ELO_M1_STREAM :: u8 where "ELO_M1_STREAM \<equiv> 0x02"
abbreviation (input) ELO_M1_UNTOUCH :: u8 where "ELO_M1_UNTOUCH \<equiv> 0x04"
abbreviation (input) ELO_M1_RANGECHK :: u8 where "ELO_M1_RANGECHK \<equiv> 0x40"
abbreviation (input) ELO_M1_ZRESERVED :: u8 where "ELO_M1_ZRESERVED \<equiv> 0x80"
abbreviation (input) ELO_M2_TRIM :: u8 where "ELO_M2_TRIM \<equiv> 0x02"
abbreviation (input) ELO_M2_CAL :: u8 where "ELO_M2_CAL \<equiv> 0x04"
abbreviation (input) ELO_M2_SCALE :: u8 where "ELO_M2_SCALE \<equiv> 0x08"
abbreviation (input) ELO_M2_TRACK :: u8 where "ELO_M2_TRACK \<equiv> 0x40"
abbreviation (input) ELO_ST_OUTOFRANGE :: u8 where "ELO_ST_OUTOFRANGE \<equiv> 0x40"
abbreviation (input) ELO_AREA_SETUP :: u8 where "ELO_AREA_SETUP \<equiv> 0x01"
abbreviation (input) ELO_AREA_CAL :: u8 where "ELO_AREA_CAL \<equiv> 0x02"
abbreviation (input) ELO_AREA_SCALE :: u8 where "ELO_AREA_SCALE \<equiv> 0x04"

text \<open>
  The fields of \<open>mouse_elo_t\<close> that a host can set and have saved come first, as a record
  of their own that the rest extends.
\<close>

record elo_cfg =
  el_mode1 :: u8
  el_mode2 :: u8
  el_ser1 :: u8
  el_ser2 :: u8
  el_udelay :: u8
  el_rdelay :: u8
  el_key :: u8
  el_low :: u8
  el_filter :: "u8 list" \<comment> \<open>slen, width, states, control\<close>
  el_ten :: u8
  el_tmode :: u8
  el_tint :: u16
  el_fmt :: u8
  el_tflag :: bool
  el_swap :: bool
  el_inv :: u8
  el_owner :: "u8 list"
  el_cal_lo :: "int list"
  el_cal_hi :: "int list"
  el_sc_lo :: "int list"
  el_sc_hi :: "int list"

record elo_nvr_file =
  nv_magic :: u32
  nv_mode1 :: u8
  nv_mode2 :: u8
  nv_ser1 :: u8
  nv_ser2 :: u8
  nv_udelay :: u8
  nv_rdelay :: u8
  nv_key :: u8
  nv_low :: u8
  nv_filter :: "u8 list"
  nv_ten :: u8
  nv_tmode :: u8
  nv_fmt :: u8
  nv_tflag :: u8
  nv_tint :: u16
  nv_swap :: u8
  nv_inv :: u8
  nv_owner :: "u8 list"
  nv_cal :: "int list list list" \<comment> \<open>page, axis, low and high\<close>
  nv_sc :: "int list list list"

record elo = elo_cfg +
  el_body :: "u8 list"
  el_pos :: int
  el_keyed :: bool
  el_inkey :: u8
  el_resp :: fifo8
  el_baud :: int
  el_in_reset :: bool
  el_quiet :: bool
  el_quiet_timer :: bool
  el_quiet_touch :: bool
  el_cal_active :: bool
  el_cal_step :: nat
  el_cal_but :: bool
  el_cal_pts :: "int list list"
  el_diag :: u8
  el_untouch_pending :: bool
  el_rep_ready :: bool
  el_untouch_timer :: "rat option"
  el_rep_timer :: "rat option"
  el_user_timer :: "rat option"
  el_host_timer :: "rat option"
  el_reset_timer :: "rat option"
  el_warn :: "u8 list"
  el_but :: bool
  el_but_old :: bool
  el_but_prev :: bool
  el_raw :: "int list"
  el_raw_old :: "int list"
  el_sent :: bool
  el_sent_xy :: "int list"
  el_file :: "elo_nvr_file option"

section \<open>The saved configuration\<close>

definition elo_nvr_zero :: elo_nvr_file where
  "elo_nvr_zero = \<lparr>nv_magic = 0, nv_mode1 = 0, nv_mode2 = 0, nv_ser1 = 0, nv_ser2 = 0, nv_udelay = 0, nv_rdelay = 0,
     nv_key = 0, nv_low = 0, nv_filter = replicate 4 0, nv_ten = 0, nv_tmode = 0, nv_fmt = 0, nv_tflag = 0, nv_tint = 0,
     nv_swap = 0, nv_inv = 0, nv_owner = replicate 8 0, nv_cal = replicate 2 (replicate 2 [0, 0]),
     nv_sc = replicate 2 (replicate 2 [0, 0])\<rparr>"

definition elo_nvr_read_file :: "elo \<Rightarrow> elo_nvr_file" where
  "elo_nvr_read_file dev =
     (case el_file dev of None \<Rightarrow> elo_nvr_zero
      | Some f \<Rightarrow> if nv_magic f \<noteq> ELO_NVR_MAGIC then elo_nvr_zero else f)"

definition elo_save_nvr_areas :: "u8 \<Rightarrow> nat \<Rightarrow> elo \<Rightarrow> elo" where
  "elo_save_nvr_areas areas page dev =
     (let f = (elo_nvr_read_file dev)\<lparr>nv_magic := ELO_NVR_MAGIC\<rparr>;
          f = (if areas AND ELO_AREA_SETUP \<noteq> 0 then f\<lparr>nv_mode1 := el_mode1 dev, nv_mode2 := el_mode2 dev,
            nv_ser1 := el_ser1 dev, nv_ser2 := el_ser2 dev, nv_udelay := el_udelay dev, nv_rdelay := el_rdelay dev,
            nv_key := el_key dev, nv_low := el_low dev, nv_filter := el_filter dev, nv_ten := el_ten dev,
            nv_tmode := el_tmode dev, nv_tint := el_tint dev, nv_fmt := el_fmt dev, nv_tflag := of_bool (el_tflag dev),
            nv_swap := of_bool (el_swap dev), nv_inv := el_inv dev, nv_owner := put 0 (el_owner dev) (nv_owner f)\<rparr> else f);
          f = (if areas AND ELO_AREA_CAL \<noteq> 0 then f\<lparr>nv_cal := (nv_cal f)[page :=
            map (\<lambda>a. [el_cal_lo dev ! a, el_cal_hi dev ! a]) [0, 1]]\<rparr> else f);
          f = (if areas AND ELO_AREA_SCALE \<noteq> 0 then f\<lparr>nv_sc := (nv_sc f)[page :=
            map (\<lambda>a. [el_sc_lo dev ! a, el_sc_hi dev ! a]) [0, 1]]\<rparr> else f)
      in dev\<lparr>el_file := Some f\<rparr>)"

definition elo_load_defaults :: "elo \<Rightarrow> elo" where
  "elo_load_defaults dev = dev\<lparr>el_mode1 := ELO_M1_ZRESERVED OR ELO_M1_INITIAL OR ELO_M1_STREAM OR ELO_M1_UNTOUCH,
     el_mode2 := 0, el_swap := False, el_inv := 0, el_cal_lo := [0, 0], el_cal_hi := [ELO_RAW_MAX, ELO_RAW_MAX],
     el_sc_lo := [0, 0], el_sc_hi := [ELO_RAW_MAX, ELO_RAW_MAX], el_udelay := 0, el_rdelay := 2,
     el_filter := [4, 8, 8, 0x90], el_ten := 0, el_tmode := 0, el_tint := 100, el_key := 0, el_low := 0,
     el_fmt := 4, el_tflag := True, el_owner := bytes ''EloInc.''\<rparr>"

definition elo_load_nvr_areas :: "u8 \<Rightarrow> nat \<Rightarrow> elo \<Rightarrow> elo" where
  "elo_load_nvr_areas areas page dev =
     (let f = elo_nvr_read_file dev
      in if nv_magic f \<noteq> ELO_NVR_MAGIC then dev
         else let
          dev = (if areas AND ELO_AREA_SETUP \<noteq> 0 then dev\<lparr>el_mode1 := nv_mode1 f OR ELO_M1_ZRESERVED,
            el_mode2 := nv_mode2 f, el_ser1 := nv_ser1 f, el_ser2 := nv_ser2 f, el_udelay := nv_udelay f,
            el_rdelay := nv_rdelay f, el_key := nv_key f, el_low := nv_low f, el_filter := nv_filter f,
            el_ten := nv_ten f, el_tmode := nv_tmode f, el_tint := nv_tint f, el_fmt := nv_fmt f AND 7,
            el_tflag := (nv_tflag f \<noteq> 0), el_swap := (nv_swap f \<noteq> 0), el_inv := nv_inv f,
            el_owner := take 7 (nv_owner f)\<rparr> else dev);
          dev = (if areas AND ELO_AREA_CAL \<noteq> 0 then dev\<lparr>el_cal_lo := map (\<lambda>a. nv_cal f ! page ! a ! 0) [0, 1],
            el_cal_hi := map (\<lambda>a. nv_cal f ! page ! a ! 1) [0, 1]\<rparr> else dev)
          in if areas AND ELO_AREA_SCALE \<noteq> 0 then dev\<lparr>el_sc_lo := map (\<lambda>a. nv_sc f ! page ! a ! 0) [0, 1],
            el_sc_hi := map (\<lambda>a. nv_sc f ! page ! a ! 1) [0, 1]\<rparr> else dev)"

definition elo_load_nvr :: "elo \<Rightarrow> elo" where
  "elo_load_nvr dev =
     elo_load_nvr_areas (ELO_AREA_SETUP OR ELO_AREA_CAL OR ELO_AREA_SCALE) 0 (elo_load_defaults dev)"

section \<open>Packets to the host\<close>

text \<open>Sending returns \<open>None\<close> where \<open>fifo8_push_all\<close> would assert.\<close>

definition elo_emit_raw :: "u8 list \<Rightarrow> elo \<Rightarrow> elo option" where
  "elo_emit_raw buf dev =
     (if el_quiet dev then Some dev
      else if fifo8_num_free (el_resp dev) < length buf then Some dev
      else map_option (\<lambda>f. dev\<lparr>el_resp := f\<rparr>) (fifo8_push_all (el_resp dev) buf))"

definition elo_frame :: "u8 \<Rightarrow> u8 \<Rightarrow> u8 list \<Rightarrow> u8 list" where
  "elo_frame key cmd data =
     (let buf = [if key \<noteq> 0 then 0x16 else 0x55, cmd] @ data @ (if key \<noteq> 0 then [key] else [])
      in buf @ [0xAA + sum_list buf])"

definition elo_enqueue :: "u8 \<Rightarrow> u8 list \<Rightarrow> elo \<Rightarrow> elo option" where
  "elo_enqueue cmd data dev =
     (let buf = elo_frame (el_key dev) cmd data
      in if el_quiet dev then Some dev
         else if fifo8_num_free (el_resp dev) < length buf then Some dev
         else map_option (\<lambda>f. dev\<lparr>el_resp := f\<rparr>) (fifo8_push_all (el_resp dev) buf))"

definition elo_ack :: "u8 \<Rightarrow> elo \<Rightarrow> elo option" where
  "elo_ack err = elo_enqueue 0x41 [err, 0, 0, 0, 0, 0, 0]"

definition elo_ack_warnings :: "elo \<Rightarrow> elo option" where
  "elo_ack_warnings dev =
     elo_enqueue 0x41 (map (\<lambda>w. if w \<noteq> 0 then w else 0x30) (el_warn dev) @ [0, 0, 0])
       (dev\<lparr>el_warn := replicate 4 0\<rparr>)"

fun warn_add :: "u8 \<Rightarrow> u8 list \<Rightarrow> u8 list" where
  "warn_add code [] = []"
| "warn_add code (w # ws) = (if w = 0 then code # ws else w # warn_add code ws)"

definition elo_warn :: "u8 \<Rightarrow> elo \<Rightarrow> elo" where
  "elo_warn code dev = dev\<lparr>el_warn := warn_add code (el_warn dev)\<rparr>"

section \<open>From a reading to a coordinate\<close>

text \<open>The coordinate, and whether the touch is reported as out of range.\<close>

definition elo_transform :: "nat \<Rightarrow> int \<Rightarrow> 'a elo_cfg_scheme \<Rightarrow> int \<times> bool" where
  "elo_transform axis raw dev =
     (let rangechk = el_mode1 dev AND ELO_M1_RANGECHK \<noteq> 0;
          (mid, oor) =
            (if el_mode2 dev AND ELO_M2_CAL = 0 then (raw, False)
             else let lo = el_cal_lo dev ! axis; hi = el_cal_hi dev ! axis;
                      mid = (if hi \<noteq> lo then i32 (((raw - lo) * ELO_RAW_MAX) sdiv (hi - lo)) else 0)
                  in if mid < 0 \<or> ELO_RAW_MAX < mid
                     then (if el_mode2 dev AND ELO_M2_TRIM \<noteq> 0 \<and> rangechk
                           then (if mid < 0 then 0 else ELO_RAW_MAX) else mid, rangechk)
                     else (mid, False))
      in if el_mode2 dev AND ELO_M2_SCALE = 0 then (mid, oor)
         else let lo = el_sc_lo dev ! axis; hi = el_sc_hi dev ! axis;
                  out = lo + i32 ((mid * (hi - lo)) sdiv ELO_RAW_MAX)
              in (if bit (el_inv dev) axis then lo + hi - out else out, oor))"

definition elo_z_value :: "elo \<Rightarrow> int" where
  "elo_z_value dev = (if el_fmt dev = 6 then 15 else 255)"

text \<open>\<open>snprintf\<close> into \<open>char[16]\<close> keeps at most 15 characters.\<close>

definition elo_ascii_coord :: "int \<Rightarrow> u8 list" where
  "elo_ascii_coord v = take 15 (if v < 0 then 0x2D # fmt_0ld 4 (- v) else fmt_0ld 4 v)"

text \<open>
  The length handed on is the one \<open>snprintf\<close> computed, so a report longer than its
  \<open>char[48]\<close> would be sent with bytes from past the buffer: no result.
\<close>

definition elo_emit_txt :: "u8 list \<Rightarrow> elo \<Rightarrow> elo option" where
  "elo_emit_txt t dev = (if length t < 48 then elo_emit_raw t dev else None)"

definition elo_bin12 :: "int \<Rightarrow> u8 list" where
  "elo_bin12 v = [word_of_int (drop_bit 6 v) AND 0x3f, word_of_int v AND 0x3f]"

definition elo_140_bin :: "int \<Rightarrow> int \<Rightarrow> u8 list" where
  "elo_140_bin x y = map2 (OR) [0xc0, 0x80, 0x40, 0x00] (elo_bin12 x @ elo_bin12 y)"

definition elo_send_touch :: "u8 \<Rightarrow> int \<Rightarrow> int \<Rightarrow> int \<Rightarrow> elo \<Rightarrow> elo option" where
  "elo_send_touch status x y z dev =
     (let untouch = status AND ELO_M1_UNTOUCH \<noteq> 0; fmt = el_fmt dev; tf = el_tflag dev;
          mark = (if untouch then 0x55 else 0x54)
      in if fmt = 0 \<or> fmt = 6 then
           elo_emit_raw (elo_140_bin x y @ (if fmt = 6 then elo_bin12 (if tf \<and> untouch then 0 else z) else [])) dev
         else if fmt = 1 \<or> fmt = 7 then
           elo_emit_txt ([0x0D, 0x0A] @ fmt_0ld 4 x @ [0x20] @ fmt_0ld 4 y @
             (if fmt = 7 then [0x20] @ fmt_0ld 4 (if tf \<and> untouch then 0 else z)
              else if tf then [0x20, mark] else [])) dev
         else if fmt = 2 then
           elo_emit_raw [if tf \<and> untouch then 0x81 else 0x01, word_of_int x, word_of_int y] dev
         else if fmt = 3 then
           elo_emit_txt (fmt_02X (word_of_int x) @ [0x2C] @ fmt_02X (word_of_int y) @
             (if tf then [0x2C, mark] else []) @ [0x0D, 0x0A]) dev
         else if fmt = 5 then
           elo_emit_txt (elo_ascii_coord x @ [0x20] @ elo_ascii_coord y @ [0x20] @ elo_ascii_coord z @
             (if tf then [0x20, mark] else []) @ [0x0D, 0x0A]) dev
         else elo_enqueue 0x54 [status, byte_at 0 x, byte_at 1 x, byte_at 0 y, byte_at 1 y, byte_at 0 z, byte_at 1 z] dev)"

end
