(* ===== verification/Elo_Command.thy ===== *)
theory Elo_Command
  imports Elo
begin

text \<open>
  The command set of the Elo controller: what every command does to the state and what
  it answers, the configuration dump, and the framing of incoming bytes.
\<close>

section \<open>Timers and reset\<close>

definition elo_soft_reset :: "elo \<Rightarrow> elo" where
  "elo_soft_reset dev = dev\<lparr>el_resp := fifo8_reset (el_resp dev), el_cal_active := False\<rparr>"

definition elo_timer_apply :: "elo \<Rightarrow> elo" where
  "elo_timer_apply dev =
     dev\<lparr>el_user_timer := (if el_ten dev \<noteq> 0 then timer_on_auto (of_nat (unat (el_tint dev)) * 10000) else None)\<rparr>"

definition elo_user_timer_fire :: "elo \<Rightarrow> elo option" where
  "elo_user_timer_fire dev =
     (if el_ten dev = 0 then Some dev
      else do {
        dev \<leftarrow> (if \<not> el_quiet_timer dev
          then elo_enqueue 0x48 [el_ten dev, el_tmode dev, ucast (el_tint dev), ucast (drop_bit 8 (el_tint dev)), 0, 0, 0] dev
          else Some dev);
        Some (if el_tmode dev AND 1 \<noteq> 0
          then dev\<lparr>el_user_timer := timer_on_auto (of_nat (unat (el_tint dev)) * 10000)\<rparr>
          else dev\<lparr>el_ten := 0\<rparr>)
      })"

section \<open>Answers\<close>

text \<open>
  How a command ends: with a response for a query and an Acknowledge, with an
  Acknowledge alone, with an Acknowledge that carries an error (or the '0' of the touch
  query), or with nothing at all. \<open>resp\<close> is seven bytes, zero where nothing is written.
\<close>

datatype elo_reply = Answer "u8 list" | Done | Refuse u8 | Silent

definition resp7 :: "u8 list \<Rightarrow> u8 list" where
  "resp7 bs = bs @ replicate (7 - length bs) 0"

section \<open>Modes\<close>

fun elo_mode_letters :: "u8 list \<Rightarrow> u8 \<times> u8 \<Rightarrow> u8 \<times> u8" where
  "elo_mode_letters [] m = m"
| "elo_mode_letters (c # cs) (m1, m2) =
     (if c = 0x49 then elo_mode_letters cs (m1 OR ELO_M1_INITIAL, m2)
      else if c = 0x53 then elo_mode_letters cs (m1 OR ELO_M1_STREAM, m2)
      else if c = 0x55 then elo_mode_letters cs (m1 OR ELO_M1_UNTOUCH, m2)
      else if c = 0x54 then elo_mode_letters cs (m1, m2 OR ELO_M2_TRACK)
      else if c = 0x50 then elo_mode_letters cs (m1 OR ELO_M1_RANGECHK, m2 OR ELO_M2_TRIM OR ELO_M2_CAL)
      else if c = 0x43 then elo_mode_letters cs (m1, m2 OR ELO_M2_CAL)
      else if c = 0x4D then elo_mode_letters cs (m1, m2 OR ELO_M2_SCALE)
      else if c = 0x42 then elo_mode_letters cs (m1 OR ELO_M1_RANGECHK, m2)
      else (m1, m2))"

definition elo_process_mode_ascii :: "u8 list \<Rightarrow> elo \<Rightarrow> elo" where
  "elo_process_mode_ascii str dev =
     (let (m1, m2) = elo_mode_letters (takeWhile (\<lambda>c. c \<noteq> 0) (take 7 str)) (ELO_M1_ZRESERVED, 0)
      in dev\<lparr>el_mode1 := m1, el_mode2 := m2\<rparr>)"

section \<open>The configuration dump\<close>

definition elo_config_packets :: "elo \<Rightarrow> (u8 \<times> u8 list) list" where
  "elo_config_packets dev =
     [(0x4D, resp7 [0, el_mode1 dev, el_mode2 dev]),
      (0x42, resp7 [el_udelay dev, el_rdelay dev])] @
     map (\<lambda>a. (0x43, resp7 [if a = 0 then 0x58 else 0x59, byte_at 0 (el_cal_lo dev ! a), byte_at 1 (el_cal_lo dev ! a),
        byte_at 0 (el_cal_hi dev ! a), byte_at 1 (el_cal_hi dev ! a)])) [0, 1] @
     [(0x43, resp7 [0x53, of_bool (el_swap dev)])] @
     map (\<lambda>a. (0x53, resp7 [if a = 0 then 0x58 else 0x59, byte_at 0 (el_sc_lo dev ! a), byte_at 1 (el_sc_lo dev ! a),
        byte_at 0 (el_sc_hi dev ! a), byte_at 1 (el_sc_hi dev ! a)])) [0, 1] @
     [(0x53, resp7 [0x49, el_inv dev]),
      (0x46, resp7 (0x30 # el_filter dev)),
      (0x48, resp7 [el_ten dev, el_tmode dev, ucast (el_tint dev), ucast (drop_bit 8 (el_tint dev))]),
      (0x45, resp7 [if el_tflag dev then 0x31 else 0x30, 0x30 + el_fmt dev]),
      (0x4C, resp7 [el_low dev]),
      (0x4B, resp7 [el_key dev]),
      (0x4F, el_owner dev),
      (0x50, resp7 [0x30, el_ser1 dev, el_ser2 dev])]"

fun elo_enqueue_all :: "(u8 \<times> u8 list) list \<Rightarrow> elo \<Rightarrow> elo option" where
  "elo_enqueue_all [] dev = Some dev"
| "elo_enqueue_all ((c, d) # ps) dev = do { dev \<leftarrow> elo_enqueue c d dev; elo_enqueue_all ps dev }"

definition elo_dump_config :: "elo \<Rightarrow> elo option" where
  "elo_dump_config dev = elo_enqueue_all (elo_config_packets dev) dev"

section \<open>The commands\<close>

text \<open>Each takes whether the command is a query and the seven data bytes.\<close>

definition cmd_acknowledge :: "elo \<Rightarrow> (elo \<times> elo_reply) option" where
  "cmd_acknowledge dev = do {
     dev \<leftarrow> elo_ack_warnings (if el_cal_active dev then elo_warn 0x36 (dev\<lparr>el_cal_active := False\<rparr>) else dev);
     Some (dev, Silent) }"

definition cmd_touch :: "bool \<Rightarrow> elo \<Rightarrow> (elo \<times> elo_reply) option" where
  "cmd_touch query dev =
     (if \<not> query then Some (dev, Refuse 0x41)
      else let (x, oorx) = elo_transform 0 (el_raw dev ! 0) dev; (y, oory) = elo_transform 1 (el_raw dev ! 1) dev;
               st = (if el_but dev then ELO_M1_STREAM else ELO_M1_UNTOUCH) OR (if oorx \<or> oory then ELO_ST_OUTOFRANGE else 0)
           in do { dev \<leftarrow> elo_send_touch st x y (elo_z_value dev) dev; Some (dev, Refuse 0x30) })"

definition cmd_reset :: "u8 list \<Rightarrow> elo \<Rightarrow> elo \<times> elo_reply" where
  "cmd_reset d dev =
     (if d ! 0 AND 1 \<noteq> 0 then (elo_soft_reset dev, Answer (resp7 [d ! 0]))
      else (dev\<lparr>el_in_reset := True, el_reset_timer := timer_on_auto 500000\<rparr>, Silent))"

definition cmd_report :: "bool \<Rightarrow> u8 list \<Rightarrow> elo \<Rightarrow> elo \<times> elo_reply" where
  "cmd_report query d dev =
     (let dev = (if query then dev else dev\<lparr>el_udelay := d ! 0 AND 0x0f, el_rdelay := d ! 1, el_rep_ready := True\<rparr>)
      in (dev, Answer (resp7 [el_udelay dev, el_rdelay dev])))"

definition cmd_emulate :: "bool \<Rightarrow> u8 list \<Rightarrow> elo \<Rightarrow> elo \<times> elo_reply" where
  "cmd_emulate query d dev =
     (let tf = d ! 0; fmt = (if 0x30 \<le> d ! 1 \<and> d ! 1 \<le> 0x37 then d ! 1 - 0x30 else d ! 1);
          answer = (\<lambda>dev. (dev, Answer (resp7 [if el_tflag dev then 0x31 else 0x30, 0x30 + el_fmt dev])))
      in if query then answer dev
         else if tf \<noteq> 0x30 \<and> tf \<noteq> 0x31 then (dev, Refuse 0x43)
         else if 7 < fmt then (dev, Refuse 0x44)
         else let dev = dev\<lparr>el_tflag := (tf = 0x31), el_fmt := fmt\<rparr>
              in answer (if fmt = 2 \<or> fmt = 3
                 then dev\<lparr>el_sc_lo := [2, 2], el_sc_hi := [255, 255], el_mode2 := el_mode2 dev OR ELO_M2_SCALE\<rparr> else dev))"

definition cmd_calibrate :: "bool \<Rightarrow> u8 list \<Rightarrow> elo \<Rightarrow> elo \<times> elo_reply" where
  "cmd_calibrate query d dev =
     (if d ! 0 = 0x32 then
        (if query then dev else dev\<lparr>el_cal_active := True, el_cal_step := 0, el_cal_but := el_but dev\<rparr>, Answer (resp7 [0x32]))
      else if d ! 0 = 0x53 then
        let dev = (if query then dev else dev\<lparr>el_swap := (d ! 1 AND 1 \<noteq> 0)\<rparr>)
        in (dev, Answer (resp7 [0x53, of_bool (el_swap dev)]))
      else if d ! 0 = 0x58 \<or> d ! 0 = 0x59 then
        let axis = (if d ! 0 = 0x58 then 0 else 1);
            dev = (if query then dev else dev\<lparr>el_cal_lo := (el_cal_lo dev)[axis := le16 (d ! 1) (d ! 2)],
                     el_cal_hi := (el_cal_hi dev)[axis := le16 (d ! 3) (d ! 4)]\<rparr>);
            lo = el_cal_lo dev ! axis; hi = el_cal_hi dev ! axis
        in (dev, Answer (resp7 [d ! 0, byte_at 0 lo, byte_at 1 lo, byte_at 0 hi, byte_at 1 hi]))
      else if d ! 0 = 0x78 \<or> d ! 0 = 0x79 then
        let axis = (if d ! 0 = 0x78 then 0 else 1);
            dev = (if query then dev else
                     let offset = i16 (le16 (d ! 1) (d ! 2)); denom = i16 (le16 (d ! 5) (d ! 6))
                     in dev\<lparr>el_cal_lo := (el_cal_lo dev)[axis := offset], el_cal_hi := (el_cal_hi dev)[axis := offset + denom]\<rparr>);
            offset = el_cal_lo dev ! axis; denom = el_cal_hi dev ! axis - el_cal_lo dev ! axis
        in (dev, Answer (resp7 [d ! 0, byte_at 0 offset, byte_at 1 offset, 1, 0, byte_at 0 denom, byte_at 1 denom]))
      else (dev, Answer (resp7 [d ! 0])))"

definition cmd_filter :: "bool \<Rightarrow> u8 list \<Rightarrow> elo \<Rightarrow> elo \<times> elo_reply" where
  "cmd_filter query d dev =
     (let dev = (if query then dev else dev\<lparr>el_filter := [d ! 1, d ! 2, d ! 3, d ! 4]\<rparr>)
      in (dev, Answer (resp7 (0x30 # el_filter dev))))"

text \<open>\<open>cur\<close> is what \<open>timer_get_remaining_us () / 10000\<close> is for a running timer.\<close>

definition cmd_timer :: "u16 \<Rightarrow> bool \<Rightarrow> u8 list \<Rightarrow> elo \<Rightarrow> elo \<times> elo_reply" where
  "cmd_timer cur query d dev =
     (let dev = (if query then dev else elo_timer_apply (dev\<lparr>el_ten := d ! 0 AND 1, el_tmode := d ! 1 AND 1,
            el_tint := ucast (d ! 2) OR push_bit 8 (ucast (d ! 3))\<rparr>));
          cur = (if el_ten dev \<noteq> 0 \<and> el_user_timer dev \<noteq> None then cur else 0)
      in (dev, Answer (resp7 [el_ten dev, el_tmode dev, ucast (el_tint dev), ucast (drop_bit 8 (el_tint dev)),
            ucast cur, ucast (drop_bit 8 cur)])))"

definition cmd_ident :: "elo \<Rightarrow> elo \<times> elo_reply" where
  "cmd_ident dev = (dev, Answer [0x30, 0x30, 0x80, 1, 2, ELO_CONFIG_PACKETS, 0])"

definition cmd_jumpers :: "elo \<Rightarrow> elo \<times> elo_reply" where
  "cmd_jumpers dev = (dev, Answer [0x30, 0x30, 0x30, 0x31, el_ser1 dev AND 7, 1, 1])"

definition cmd_mode :: "bool \<Rightarrow> u8 list \<Rightarrow> elo \<Rightarrow> elo \<times> elo_reply" where
  "cmd_mode query d dev =
     (let dev = (if query then dev
                 else if d ! 0 = 0 then dev\<lparr>el_mode1 := d ! 1 OR ELO_M1_ZRESERVED, el_mode2 := d ! 2\<rparr>
                 else elo_process_mode_ascii d dev)
      in (dev, Answer (resp7 [0, el_mode1 dev, el_mode2 dev])))"

definition cmd_nvram :: "bool \<Rightarrow> u8 list \<Rightarrow> elo \<Rightarrow> elo \<times> elo_reply" where
  "cmd_nvram query d dev =
     (let areas = d ! 1 AND (ELO_AREA_SETUP OR ELO_AREA_CAL OR ELO_AREA_SCALE); page = unat (d ! 2 AND 1)
      in if query then (dev, Refuse 0x47)
         else if areas = 0 then (dev, Refuse 0x44)
         else (if d ! 0 AND 1 \<noteq> 0 then elo_save_nvr_areas areas page dev
               else elo_timer_apply (elo_load_nvr_areas areas page dev),
               Answer (resp7 [d ! 0, d ! 1, d ! 2])))"

definition elo_host_period :: "int \<Rightarrow> rat" where
  "elo_host_period baud = (1000000 / of_int baud) * 10"

definition cmd_parameter :: "bool \<Rightarrow> u8 list \<Rightarrow> elo \<Rightarrow> elo \<times> elo_reply" where
  "cmd_parameter query d dev =
     (let dev = (if query then dev
                 else let baud = elo_baud_table ! unat (d ! 1 AND 7)
                      in dev\<lparr>el_ser1 := d ! 1, el_ser2 := d ! 2, el_baud := baud,
                           el_host_timer := timer_on_auto (elo_host_period baud)\<rparr>)
      in (dev, Answer (resp7 [0x30, el_ser1 dev, el_ser2 dev])))"

definition cmd_quiet :: "bool \<Rightarrow> u8 list \<Rightarrow> elo \<Rightarrow> elo \<times> elo_reply" where
  "cmd_quiet query d dev =
     (let dev = (if query then dev
                 else dev\<lparr>el_quiet := (d ! 0 AND 1 \<noteq> 0), el_quiet_timer := (d ! 0 AND 2 \<noteq> 0), el_quiet_touch := (d ! 0 AND 4 \<noteq> 0)\<rparr>)
      in (dev, Answer (resp7 [(if el_quiet dev then 1 else 0) OR (if el_quiet_timer dev then 2 else 0) OR
            (if el_quiet_touch dev then 4 else 0)])))"

definition cmd_scaling :: "bool \<Rightarrow> u8 list \<Rightarrow> elo \<Rightarrow> elo \<times> elo_reply" where
  "cmd_scaling query d dev =
     (if d ! 0 = 0x49 then
        let dev = (if query then dev else dev\<lparr>el_inv := d ! 1 AND 0x07\<rparr>)
        in (dev, Answer (resp7 [0x49, el_inv dev]))
      else if d ! 0 = 0x58 \<or> d ! 0 = 0x59 then
        let axis = (if d ! 0 = 0x58 then 0 else 1);
            dev = (if query then dev else dev\<lparr>el_sc_lo := (el_sc_lo dev)[axis := i16 (le16 (d ! 1) (d ! 2))],
                     el_sc_hi := (el_sc_hi dev)[axis := i16 (le16 (d ! 3) (d ! 4))]\<rparr>);
            lo = el_sc_lo dev ! axis; hi = el_sc_hi dev ! axis
        in (dev, Answer (resp7 [d ! 0, byte_at 0 lo, byte_at 1 lo, byte_at 0 hi, byte_at 1 hi]))
      else if d ! 0 = 0x78 \<or> d ! 0 = 0x79 then
        let axis = (if d ! 0 = 0x78 then 0 else 1);
            dev = (if query then dev else
                     let offset = i16 (le16 (d ! 1) (d ! 2)); numer = i16 (le16 (d ! 3) (d ! 4))
                     in dev\<lparr>el_sc_lo := (el_sc_lo dev)[axis := offset], el_sc_hi := (el_sc_hi dev)[axis := offset + numer]\<rparr>);
            offset = el_sc_lo dev ! axis; numer = el_sc_hi dev ! axis - el_sc_lo dev ! axis
        in (dev, Answer (resp7 [d ! 0, byte_at 0 offset, byte_at 1 offset, byte_at 0 numer, byte_at 1 numer, 1, 0]))
      else (dev, Answer (resp7 [d ! 0])))"

definition elo_dispatch :: "u16 \<Rightarrow> u8 \<Rightarrow> bool \<Rightarrow> u8 list \<Rightarrow> elo \<Rightarrow> (elo \<times> elo_reply) option" where
  "elo_dispatch cur base query d dev =
     (if base = 0x41 then cmd_acknowledge dev
      else if base = 0x54 then cmd_touch query dev
      else if base = 0x52 then Some (cmd_reset d dev)
      else if base = 0x42 then Some (cmd_report query d dev)
      else if base = 0x45 then Some (cmd_emulate query d dev)
      else if base = 0x43 then Some (cmd_calibrate query d dev)
      else if base = 0x44 then
        (let dev = (if query then dev else dev\<lparr>el_diag := 0\<rparr>) in Some (dev, Answer (resp7 [el_diag dev])))
      else if base = 0x46 then Some (cmd_filter query d dev)
      else if base = 0x47 then
        (if \<not> query then Some (dev, Refuse 0x41) else do { dev \<leftarrow> elo_dump_config dev; Some (dev, Done) })
      else if base = 0x48 then Some (cmd_timer cur query d dev)
      else if base = 0x49 then Some (cmd_ident dev)
      else if base = 0x4A then Some (cmd_jumpers dev)
      else if base = 0x4B then
        (let dev = (if query then dev else dev\<lparr>el_key := d ! 0\<rparr>) in Some (dev, Answer (resp7 [el_key dev])))
      else if base = 0x4C then
        (let dev = (if query then dev else dev\<lparr>el_low := d ! 0 AND 1\<rparr>) in Some (dev, Answer (resp7 [el_low dev])))
      else if base = 0x4D then Some (cmd_mode query d dev)
      else if base = 0x4E then Some (cmd_nvram query d dev)
      else if base = 0x4F then
        (let dev = (if query then dev else dev\<lparr>el_owner := d\<rparr>) in Some (dev, Answer (el_owner dev)))
      else if base = 0x50 then Some (cmd_parameter query d dev)
      else if base = 0x51 then Some (cmd_quiet query d dev)
      else if base = 0x53 then Some (cmd_scaling query d dev)
      else Some (dev, Refuse 0x35))"

definition elo_process_command :: "u16 \<Rightarrow> u8 list \<Rightarrow> elo \<Rightarrow> elo option" where
  "elo_process_command cur body dev =
     (let cmd = body ! 0; query = islower cmd; base = toupper cmd
      in do {
        (dev, reply) \<leftarrow> elo_dispatch cur base query (drop 1 body) dev;
        (case reply of
           Answer resp \<Rightarrow> do { dev \<leftarrow> (if query then elo_enqueue base resp dev else Some dev); elo_ack 0 dev }
         | Done \<Rightarrow> elo_ack 0 dev
         | Refuse err \<Rightarrow> elo_ack err dev
         | Silent \<Rightarrow> Some dev)
      })"

section \<open>Incoming bytes\<close>

definition elo_write :: "u16 \<Rightarrow> u8 \<Rightarrow> elo \<Rightarrow> elo option" where
  "elo_write cur data dev =
     (if el_pos dev < 0 then
        Some (if data = 0x55 then dev\<lparr>el_pos := 0, el_keyed := False\<rparr>
              else if data = 0x16 then dev\<lparr>el_pos := 0, el_keyed := True\<rparr> else dev)
      else if el_pos dev < 8 then
        Some (dev\<lparr>el_body := (el_body dev)[nat (el_pos dev) := data], el_pos := el_pos dev + 1\<rparr>)
      else if el_keyed dev \<and> el_pos dev = 8 then
        Some (dev\<lparr>el_inkey := data, el_pos := el_pos dev + 1\<rparr>)
      else
        (let dev = dev\<lparr>el_pos := - 1\<rparr>;
             sum = 0xAA + (if el_keyed dev then 0x16 else 0x55) + sum_list (el_body dev) +
                   (if el_keyed dev then el_inkey dev else 0)
         in if el_ser2 dev AND 1 \<noteq> 0 \<and> sum \<noteq> data then elo_ack 0x33 dev
            else if el_keyed dev \<and> el_inkey dev \<noteq> el_key dev then Some dev
            else elo_process_command cur (el_body dev) dev))"

text \<open>Bytes in a row; \<open>cur\<close> is the same for all of them.\<close>

fun elo_feed :: "u16 \<Rightarrow> u8 list \<Rightarrow> elo \<Rightarrow> elo option" where
  "elo_feed cur [] dev = Some dev"
| "elo_feed cur (b # bs) dev = do { dev \<leftarrow> elo_write cur b dev; elo_feed cur bs dev }"

end
