(* ===== verification/Elo_Touch.thy ===== *)
theory Elo_Touch
  imports Elo_Command
begin

text \<open>
  The running Elo controller: the touch report it chooses on an idle line, the byte
  clock towards the host, the poll of the pointer, the timer callbacks and power-on, and
  all of these as the events of one state machine.
\<close>

section \<open>Touch reports\<close>

text \<open>
  What the transmit path decides on: the status bits, whether anything is sent, and
  whether it is a repeat of a running touch.
\<close>

definition elo_edge :: "elo \<Rightarrow> u8 \<times> bool \<times> bool" where
  "elo_edge dev =
     (if el_but dev \<and> \<not> el_but_old dev then
        (if el_mode1 dev AND ELO_M1_INITIAL \<noteq> 0 then (ELO_M1_INITIAL, True, False)
         else if el_mode1 dev AND ELO_M1_STREAM \<noteq> 0 then (ELO_M1_STREAM, True, True) else (0, False, False))
      else if el_but dev \<and> el_but_old dev then
        (if el_mode1 dev AND ELO_M1_STREAM \<noteq> 0 then (ELO_M1_STREAM, True, True) else (0, False, False))
      else (if el_mode1 dev AND ELO_M1_UNTOUCH \<noteq> 0 then (ELO_M1_UNTOUCH, True, False) else (0, False, False)))"

text \<open>The report \<open>elo_prepare_transmit\<close> sends, if any: status, coordinates, and whether it is paced.\<close>

definition elo_report :: "elo \<Rightarrow> (u8 \<times> int \<times> int \<times> bool) option" where
  "elo_report dev =
     (if el_cal_active dev \<or> el_untouch_pending dev \<or> \<not> el_but dev \<and> \<not> el_but_old dev then None
      else let (status, send, stream) = elo_edge dev;
               send = (send \<and> \<not> (stream \<and> el_rdelay dev \<noteq> 0 \<and> \<not> el_rep_ready dev));
               r = (if el_but dev then el_raw dev else el_raw_old dev);
               (x, oorx) = elo_transform 0 (r ! 0) dev; (y, oory) = elo_transform 1 (r ! 1) dev;
               send = (send \<and> \<not> (stream \<and> el_mode2 dev AND ELO_M2_TRACK \<noteq> 0 \<and> el_sent dev \<and> [x, y] = el_sent_xy dev));
               status = status OR (if oorx \<or> oory then ELO_ST_OUTOFRANGE else 0)
           in if send \<and> \<not> el_quiet_touch dev then Some (status, x, y, stream) else None)"

definition elo_prepare_transmit :: "elo \<Rightarrow> elo option" where
  "elo_prepare_transmit dev =
     (if el_cal_active dev \<or> el_untouch_pending dev \<or> \<not> el_but dev \<and> \<not> el_but_old dev then Some dev
      else do {
        dev \<leftarrow> (case elo_report dev of
            None \<Rightarrow> Some dev
          | Some (status, x, y, stream) \<Rightarrow> do {
              dev \<leftarrow> elo_send_touch status x y (elo_z_value dev) dev;
              let dev = dev\<lparr>el_sent := True, el_sent_xy := [x, y]\<rparr>;
              Some (if stream \<and> el_rdelay dev \<noteq> 0
                then dev\<lparr>el_rep_ready := False, el_rep_timer := timer_on_auto (of_nat (unat (el_rdelay dev)) * 10000)\<rparr>
                else dev) });
        let dev = dev\<lparr>el_raw_old := el_raw dev, el_but_old := el_but dev\<rparr>;
        Some (if \<not> el_but dev then dev\<lparr>el_sent := False\<rparr> else dev)
      })"

section \<open>The byte clock\<close>

text \<open>
  \<open>room\<close> is whether a serial port is attached and its receiver can take a byte. The
  byte handed to \<open>serial_write_fifo\<close> is returned.
\<close>

definition elo_write_to_host :: "bool \<Rightarrow> elo \<Rightarrow> (u8 list \<times> elo) option" where
  "elo_write_to_host room dev = do {
     (out, dev) \<leftarrow> (if \<not> room \<or> el_in_reset dev then Some ([], dev)
       else if fifo8_num_used (el_resp dev) \<noteq> 0 then do {
         (b, f) \<leftarrow> fifo8_pop (el_resp dev);
         Some ([b], dev\<lparr>el_resp := f\<rparr>) }
       else do { dev \<leftarrow> elo_prepare_transmit dev; Some ([], dev) });
     Some (out, dev\<lparr>el_host_timer := timer_on_auto (elo_host_period (el_baud dev))\<rparr>)
   }"

section \<open>The pointer\<close>

text \<open>
  \<open>px\<close> and \<open>py\<close> are the pointer on the two axes of the window, clamped to it and scaled
  to 0..4095 by \<open>lround\<close>; the floating-point arithmetic before that is not modelled.
\<close>

definition elo_cal_touch :: "elo \<Rightarrow> elo option" where
  "elo_cal_touch dev =
     (if el_cal_active dev then
        (let now = el_but dev
         in do {
           dev \<leftarrow> (if now \<and> \<not> el_cal_but dev then
               (if el_cal_step dev < 2 then
                  (let dev = dev\<lparr>el_cal_pts := (el_cal_pts dev)[el_cal_step dev := el_raw dev], el_cal_step := el_cal_step dev + 1\<rparr>
                   in do {
                     dev \<leftarrow> elo_ack 0 dev;
                     Some (if 2 \<le> el_cal_step dev
                       then dev\<lparr>el_cal_lo := map (\<lambda>a. el_cal_pts dev ! 0 ! a) [0, 1],
                              el_cal_hi := map (\<lambda>a. el_cal_pts dev ! 1 ! a) [0, 1], el_cal_active := False\<rparr>
                       else dev) })
                else None)
             else Some dev);
           Some (dev\<lparr>el_cal_but := now\<rparr>) })
      else Some dev)"

text \<open>The Untouch delay: a release is held for a while, in case the finger comes back.\<close>

definition elo_hold :: "elo \<Rightarrow> elo" where
  "elo_hold dev =
     (let dev = (if el_but dev then
                   (if el_untouch_pending dev then dev\<lparr>el_untouch_timer := None, el_untouch_pending := False\<rparr> else dev)
                 else if el_but_prev dev \<and> el_but_old dev \<and> el_udelay dev \<noteq> 0 \<and> \<not> el_untouch_pending dev then
                   dev\<lparr>el_untouch_pending := True, el_untouch_timer := timer_on_auto (of_nat (unat (el_udelay dev)) * 10000)\<rparr>
                 else dev)
      in dev\<lparr>el_but_prev := el_but dev\<rparr>)"

definition elo_poll :: "bool \<Rightarrow> int \<Rightarrow> int \<Rightarrow> elo \<Rightarrow> elo option" where
  "elo_poll but px py dev =
     elo_cal_touch (elo_hold (dev\<lparr>el_but := but, el_raw := (if el_swap dev then [py, px] else [px, py])\<rparr>))"

section \<open>Power-on\<close>

fun baud_search :: "int list \<Rightarrow> u8 \<Rightarrow> int \<Rightarrow> u8" where
  "baud_search [] i baud = 5"
| "baud_search (b # bs) i baud = (if b = baud then i else baud_search bs (i + 1) baud)"

definition elo_baud_index :: "int \<Rightarrow> u8" where
  "elo_baud_index = baud_search elo_baud_table 0"

definition elo_zero :: "elo_nvr_file option \<Rightarrow> elo" where
  "elo_zero file = \<lparr>el_mode1 = 0, el_mode2 = 0, el_ser1 = 0, el_ser2 = 0, el_udelay = 0, el_rdelay = 0, el_key = 0,
     el_low = 0, el_filter = replicate 4 0, el_ten = 0, el_tmode = 0, el_tint = 0, el_fmt = 0, el_tflag = False,
     el_swap = False, el_inv = 0, el_owner = replicate 7 0, el_cal_lo = [0, 0], el_cal_hi = [0, 0], el_sc_lo = [0, 0],
     el_sc_hi = [0, 0], el_body = replicate 8 0, el_pos = 0, el_keyed = False, el_inkey = 0, el_resp = fifo8_create 512,
     el_baud = 0, el_in_reset = False, el_quiet = False, el_quiet_timer = False, el_quiet_touch = False,
     el_cal_active = False, el_cal_step = 0, el_cal_but = False, el_cal_pts = replicate 2 [0, 0], el_diag = 0,
     el_untouch_pending = False, el_rep_ready = False, el_untouch_timer = None, el_rep_timer = None,
     el_user_timer = None, el_host_timer = None, el_reset_timer = None, el_warn = replicate 4 0, el_but = False,
     el_but_old = False, el_but_prev = False, el_raw = [0, 0], el_raw_old = [0, 0], el_sent = False,
     el_sent_xy = [0, 0], el_file = file\<rparr>"

text \<open>\<open>speed\<close> is the line rate of the configuration dialog.\<close>

definition elo_init :: "int \<Rightarrow> elo_nvr_file option \<Rightarrow> elo" where
  "elo_init speed file =
     (let baud = (if speed \<le> 0 then 9600 else speed);
          dev = (elo_zero file)\<lparr>el_pos := - 1, el_baud := baud, el_ser1 := elo_baud_index baud, el_ser2 := 0x04,
            el_host_timer := timer_on_auto (elo_host_period baud), el_rep_ready := True\<rparr>;
          dev = elo_timer_apply (elo_load_nvr dev);
          dev = dev\<lparr>el_ser1 := (el_ser1 dev AND NOT 7) OR elo_baud_index (el_baud dev)\<rparr>
      in dev\<lparr>el_baud := elo_baud_table ! unat (el_ser1 dev AND 7)\<rparr>)"

section \<open>The controller as a state machine\<close>

text \<open>
  A byte from the host (with the remaining time of the user timer), a tick of the byte
  clock, a poll of the pointer, and the timers. A timer that is not armed does nothing;
  one that is due is disarmed before its callback runs.
\<close>

datatype elo_event =
    Guest u16 u8
  | Tick bool
  | Poll bool int int
  | Untouch_due
  | Rep_due
  | User_due
  | Reset_due

definition elo_untouch_done :: "elo \<Rightarrow> elo" where
  "elo_untouch_done dev = dev\<lparr>el_untouch_pending := False\<rparr>"

definition elo_rep_delay_done :: "elo \<Rightarrow> elo" where
  "elo_rep_delay_done dev = dev\<lparr>el_rep_ready := True\<rparr>"

definition elo_reset_complete :: "elo \<Rightarrow> elo" where
  "elo_reset_complete dev = dev\<lparr>el_in_reset := False\<rparr>"

fun elo_react :: "elo_event \<Rightarrow> elo \<Rightarrow> (u8 list \<times> elo) option" where
  "elo_react (Guest cur b) dev = map_option (Pair []) (elo_write cur b dev)"
| "elo_react (Tick room) dev = elo_write_to_host room dev"
| "elo_react (Poll but px py) dev = map_option (Pair []) (elo_poll but px py dev)"
| "elo_react Untouch_due dev = Some ([],
     if el_untouch_timer dev = None then dev else elo_untouch_done (dev\<lparr>el_untouch_timer := None\<rparr>))"
| "elo_react Rep_due dev = Some ([],
     if el_rep_timer dev = None then dev else elo_rep_delay_done (dev\<lparr>el_rep_timer := None\<rparr>))"
| "elo_react User_due dev = map_option (Pair [])
     (if el_user_timer dev = None then Some dev else elo_user_timer_fire (dev\<lparr>el_user_timer := None\<rparr>))"
| "elo_react Reset_due dev = Some ([],
     if el_reset_timer dev = None then dev else elo_reset_complete (dev\<lparr>el_reset_timer := None\<rparr>))"

text \<open>A run, with the bytes the host received.\<close>

fun elo_run :: "elo_event list \<Rightarrow> elo \<Rightarrow> (u8 list \<times> elo) option" where
  "elo_run [] dev = Some ([], dev)"
| "elo_run (e # es) dev = do {
     (out, dev) \<leftarrow> elo_react e dev;
     (rest, dev) \<leftarrow> elo_run es dev;
     Some (out @ rest, dev) }"

end
