(* ===== verification/Elo_Safe.thy ===== *)
theory Elo_Safe
  imports Elo_Touch
begin

text \<open>
  The invariant of the Elo controller, kept by every event: the arrays keep their sizes,
  the indices into them stay inside, every signed field stays in the range a host can put
  it in, and the queue to the host is never pushed past its end. No event fails.
\<close>

section \<open>Ranges\<close>

lemma le16_sum: "le16 a b = uint a + 256 * uint b"
proof -
  have "uint a AND push_bit 8 (uint b) = 0"
  proof (rule bit_eqI)
    fix n
    show "bit (uint a AND push_bit 8 (uint b)) n = bit (0 :: int) n"
      using bit_imp_le_length [of a n] by (auto simp: bit_simps bit_uint_iff)
  qed
  then have "uint a OR push_bit 8 (uint b) = uint a + push_bit 8 (uint b)"
    using plus_and_or [of "uint a" "push_bit 8 (uint b)"] by simp
  then show ?thesis by (simp add: le16_def push_bit_eq_mult)
qed

lemma le16_bounds: "0 \<le> le16 a b" "le16 a b < 65536"
  using uint_lt2p [of a] uint_lt2p [of b] by (simp_all add: le16_sum)

lemma i16_bounds: "- 32768 \<le> i16 v" "i16 v < 32768"
  using signed_take_bit_int_greater_eq_minus_exp [of 15 v] signed_take_bit_int_less_exp [of 15 v]
  by (simp_all add: i16_def)

lemma i32_bounds: "- 2147483648 \<le> i32 v" "i32 v < 2147483648"
  using signed_take_bit_int_greater_eq_minus_exp [of 31 v] signed_take_bit_int_less_exp [of 31 v]
  by (simp_all add: i32_def)

lemma i32_small: "- 2147483648 \<le> v \<Longrightarrow> v < 2147483648 \<Longrightarrow> i32 v = v"
  by (simp add: i32_def signed_take_bit_int_eq_self)

lemma i16_small: "- 32768 \<le> v \<Longrightarrow> v < 32768 \<Longrightarrow> i16 v = v"
  by (simp add: i16_def signed_take_bit_int_eq_self)

lemma le16_byte_at_mod: "le16 (byte_at 0 v) (byte_at 1 v) = v mod 65536"
  using zmod_zmult2_eq [of 256 v 256] by (simp add: le16_sum byte_at_def uint_word_of_int drop_bit_eq_div)

lemma le16_byte_at: "0 \<le> v \<Longrightarrow> v < 65536 \<Longrightarrow> le16 (byte_at 0 v) (byte_at (Suc 0) v) = v"
  using le16_byte_at_mod [of v] by simp

lemma i16_byte_at:
  assumes "- 32768 \<le> v" "v < 32768"
  shows "i16 (le16 (byte_at 0 v) (byte_at (Suc 0) v)) = v"
proof -
  have "i16 (take_bit 16 v) = i16 v" by (simp add: i16_def signed_take_bit_take_bit)
  then show ?thesis using assms le16_byte_at_mod [of v] by (simp add: take_bit_eq_mod i16_small)
qed

section \<open>The invariant\<close>

definition cal_range :: "int \<Rightarrow> bool" where
  "cal_range v \<longleftrightarrow> - 65536 \<le> v \<and> v < 65536"

definition raw_range :: "int \<Rightarrow> bool" where
  "raw_range v \<longleftrightarrow> 0 \<le> v \<and> v \<le> ELO_RAW_MAX"

definition cal_axes :: "int list \<Rightarrow> bool" where
  "cal_axes vs \<longleftrightarrow> length vs = 2 \<and> list_all cal_range vs"

definition raw_point :: "int list \<Rightarrow> bool" where
  "raw_point vs \<longleftrightarrow> length vs = 2 \<and> list_all raw_range vs"

definition elo_cfg_ok :: "'a elo_cfg_scheme \<Rightarrow> bool" where
  "elo_cfg_ok c \<longleftrightarrow> length (el_filter c) = 4 \<and> length (el_owner c) = 7 \<and> el_fmt c \<le> 7 \<and> bit (el_mode1 c) 7 \<and>
     el_udelay c \<le> 15 \<and> el_low c \<le> 1 \<and> el_ten c \<le> 1 \<and> el_tmode c \<le> 1 \<and> el_inv c \<le> 7 \<and>
     cal_axes (el_cal_lo c) \<and> cal_axes (el_cal_hi c) \<and> cal_axes (el_sc_lo c) \<and> cal_axes (el_sc_hi c)"

definition nv_pages_ok :: "int list list list \<Rightarrow> bool" where
  "nv_pages_ok ps \<longleftrightarrow> length ps = 2 \<and> list_all (\<lambda>p. length p = 2 \<and> list_all cal_axes p) ps"

definition elo_file_ok :: "elo_nvr_file \<Rightarrow> bool" where
  "elo_file_ok f \<longleftrightarrow> length (nv_filter f) = 4 \<and> length (nv_owner f) = 8 \<and> nv_udelay f \<le> 15 \<and> nv_low f \<le> 1 \<and>
     nv_ten f \<le> 1 \<and> nv_tmode f \<le> 1 \<and> nv_inv f \<le> 7 \<and> nv_pages_ok (nv_cal f) \<and> nv_pages_ok (nv_sc f)"

text \<open>A file without the magic is as good as none.\<close>

definition elo_stored_ok :: "elo_nvr_file option \<Rightarrow> bool" where
  "elo_stored_ok file \<longleftrightarrow> (case file of None \<Rightarrow> True | Some f \<Rightarrow> nv_magic f = ELO_NVR_MAGIC \<longrightarrow> elo_file_ok f)"

definition elo_queue_ok :: "elo \<Rightarrow> bool" where
  "elo_queue_ok dev \<longleftrightarrow> fifo8_wf (el_resp dev) \<and> f_cap (el_resp dev) = 512"

definition elo_wire_ok :: "elo \<Rightarrow> bool" where
  "elo_wire_ok dev \<longleftrightarrow> length (el_body dev) = 8 \<and> - 1 \<le> el_pos dev \<and> el_pos dev \<le> (if el_keyed dev then 9 else 8)"

definition elo_pointer_ok :: "elo \<Rightarrow> bool" where
  "elo_pointer_ok dev \<longleftrightarrow> raw_point (el_raw dev) \<and> raw_point (el_raw_old dev) \<and> length (el_sent_xy dev) = 2 \<and>
     length (el_cal_pts dev) = 2 \<and> list_all raw_point (el_cal_pts dev) \<and> (el_cal_active dev \<longrightarrow> el_cal_step dev < 2)"

definition elo_ok :: "elo \<Rightarrow> bool" where
  "elo_ok dev \<longleftrightarrow> elo_cfg_ok dev \<and> elo_stored_ok (el_file dev) \<and> elo_queue_ok dev \<and> elo_wire_ok dev \<and>
     elo_pointer_ok dev \<and> length (el_warn dev) = 4"

lemmas elo_ok_defs = elo_ok_def elo_cfg_ok_def elo_queue_ok_def elo_wire_ok_def elo_pointer_ok_def

section \<open>Sending\<close>

text \<open>The controller after it sent some bytes, as a total function.\<close>

definition elo_said :: "u8 list \<Rightarrow> elo \<Rightarrow> elo" where
  "elo_said bs dev = (if el_quiet dev then dev else dev\<lparr>el_resp := fifo8_fed (el_resp dev) bs\<rparr>)"

lemma elo_emit_raw_said: "elo_queue_ok dev \<Longrightarrow> elo_emit_raw bs dev = Some (elo_said bs dev)"
  using fifo8_offer [of "el_resp dev" bs]
  by (cases "fifo8_num_free (el_resp dev) < length bs") (simp_all add: elo_emit_raw_def elo_said_def elo_queue_ok_def)

lemma elo_enqueue_said:
  "elo_queue_ok dev \<Longrightarrow> elo_enqueue c d dev = Some (elo_said (elo_frame (el_key dev) c d) dev)"
  using elo_emit_raw_said [of dev "elo_frame (el_key dev) c d"] by (simp add: elo_enqueue_def elo_emit_raw_def Let_def)

lemma elo_said_queue [simp, wf_intros]: "elo_queue_ok dev \<Longrightarrow> elo_queue_ok (elo_said bs dev)"
  by (simp add: elo_queue_ok_def elo_said_def fifo8_fed_wf fifo8_fed_cap)

text \<open>Sending touches the queue alone.\<close>

lemma elo_said_fields [simp]:
  "elo_cfg.truncate (elo_said bs dev) = elo_cfg.truncate dev"
  "el_key (elo_said bs dev) = el_key dev" "el_quiet (elo_said bs dev) = el_quiet dev"
  "el_pos (elo_said bs dev) = el_pos dev" "el_keyed (elo_said bs dev) = el_keyed dev"
  "el_mode1 (elo_said bs dev) = el_mode1 dev" "el_mode2 (elo_said bs dev) = el_mode2 dev"
  "el_ser2 (elo_said bs dev) = el_ser2 dev" "el_fmt (elo_said bs dev) = el_fmt dev"
  "el_but (elo_said bs dev) = el_but dev" "el_but_old (elo_said bs dev) = el_but_old dev"
  "el_cal_active (elo_said bs dev) = el_cal_active dev" "el_cal_step (elo_said bs dev) = el_cal_step dev"
  "el_cal_pts (elo_said bs dev) = el_cal_pts dev" "el_untouch_pending (elo_said bs dev) = el_untouch_pending dev"
  "el_rdelay (elo_said bs dev) = el_rdelay dev" "el_raw (elo_said bs dev) = el_raw dev"
  "el_tmode (elo_said bs dev) = el_tmode dev" "el_quiet_touch (elo_said bs dev) = el_quiet_touch dev"
  "el_tint (elo_said bs dev) = el_tint dev" "el_cal_but (elo_said bs dev) = el_cal_but dev"
  "el_file (elo_said bs dev) = el_file dev" "el_sent (elo_said bs dev) = el_sent dev"
  by (simp_all add: elo_said_def elo_cfg.defs)

lemma elo_said_ok [simp, wf_intros]: "elo_ok dev \<Longrightarrow> elo_ok (elo_said bs dev)"
proof -
  assume ok: "elo_ok dev"
  then have "elo_queue_ok (elo_said bs dev)" by (simp add: elo_ok_def)
  with ok show ?thesis by (auto simp: elo_said_def elo_ok_defs)
qed

lemma elo_ok_queue [simp]: "elo_ok dev \<Longrightarrow> elo_queue_ok dev"
  by (simp add: elo_ok_def)

lemmas elo_sends = elo_emit_raw_said elo_enqueue_said elo_ack_def elo_ack_warnings_def

section \<open>Saved configurations\<close>

lemma elo_ok_after_file: "elo_ok dev \<Longrightarrow> elo_stored_ok file \<Longrightarrow> elo_ok (dev\<lparr>el_file := file\<rparr>)"
  by (auto simp: elo_ok_defs)

lemma elo_nvr_zero_ok [simp]: "elo_file_ok elo_nvr_zero"
  by (simp add: elo_file_ok_def elo_nvr_zero_def nv_pages_ok_def cal_axes_def cal_range_def numeral_2_eq_2)

lemma read_file_ok: "elo_stored_ok (el_file dev) \<Longrightarrow> elo_file_ok (elo_nvr_read_file dev)"
  by (auto simp: elo_nvr_read_file_def elo_stored_ok_def split: option.splits)

lemma of_bool_le_1 [simp]: "(of_bool b :: u8) \<le> 1"
  by simp

lemma list_all_update: "list_all P xs \<Longrightarrow> P x \<Longrightarrow> list_all P (xs[i := x])"
  using set_update_subset_insert [of xs i x] by (auto simp: list_all_iff)

lemma pages_update:
  assumes "nv_pages_ok ps" "cal_axes lo" "cal_axes hi"
  shows "nv_pages_ok (ps[p := map (\<lambda>a. [lo ! a, hi ! a]) [0, 1]])"
proof -
  obtain l0 l1 h0 h1 where lh: "lo = [l0, l1]" "hi = [h0, h1]"
    using assms(2,3) by (auto simp: cal_axes_def numeral_2_eq_2 length_Suc_conv)
  show ?thesis
    unfolding nv_pages_ok_def using assms
    by (intro conjI list_all_update) (simp_all add: nv_pages_ok_def lh cal_axes_def)
qed

lemma page_axes:
  assumes "nv_pages_ok ps" "p < 2" "k < 2"
  shows "cal_axes (map (\<lambda>a. ps ! p ! a ! k) [0, 1])"
proof -
  have "length (ps ! p) = 2" "list_all cal_axes (ps ! p)"
    using assms by (simp_all add: nv_pages_ok_def list_all_length)
  then have "cal_axes (ps ! p ! 0)" "cal_axes (ps ! p ! 1)" by (simp_all add: list_all_length)
  then have "cal_range (ps ! p ! 0 ! k)" "cal_range (ps ! p ! 1 ! k)"
    using assms(3) by (simp_all add: cal_axes_def list_all_length)
  then show ?thesis by (simp add: cal_axes_def)
qed

lemma save_ok [wf_intros]:
  assumes "elo_ok dev"
  shows "elo_ok (elo_save_nvr_areas areas p dev)"
proof -
  have f: "elo_file_ok (elo_nvr_read_file dev)" using assms by (simp add: elo_ok_def read_file_ok)
  have c: "elo_cfg_ok dev" using assms by (simp add: elo_ok_def)
  have "elo_stored_ok (el_file (elo_save_nvr_areas areas p dev))"
    using f c by (simp add: elo_save_nvr_areas_def elo_stored_ok_def elo_file_ok_def elo_cfg_ok_def Let_def
      pages_update [simplified])
  moreover have "elo_save_nvr_areas areas p dev = dev\<lparr>el_file := el_file (elo_save_nvr_areas areas p dev)\<rparr>"
    by (simp add: elo_save_nvr_areas_def Let_def)
  ultimately show ?thesis
    using elo_ok_after_file [OF assms] by metis
qed

lemma load_areas_ok [wf_intros]:
  assumes "elo_ok dev" "p < 2"
  shows "elo_ok (elo_load_nvr_areas areas p dev)"
proof (cases "nv_magic (elo_nvr_read_file dev) = ELO_NVR_MAGIC")
  case True
  define f where "f = elo_nvr_read_file dev"
  have "elo_file_ok f" using assms(1) by (simp add: f_def elo_ok_def read_file_ok)
  moreover from this have "cal_axes (map (\<lambda>a. nv_cal f ! p ! a ! k) [0, 1])"
      "cal_axes (map (\<lambda>a. nv_sc f ! p ! a ! k) [0, 1])" if "k < 2" for k
    using page_axes [OF _ assms(2) that] by (simp_all add: elo_file_ok_def)
  from this [of 0] this [of 1] have
    "cal_axes [nv_cal f ! p ! 0 ! 0, nv_cal f ! p ! 1 ! 0]" "cal_axes [nv_cal f ! p ! 0 ! 1, nv_cal f ! p ! 1 ! 1]"
    "cal_axes [nv_sc f ! p ! 0 ! 0, nv_sc f ! p ! 1 ! 0]" "cal_axes [nv_sc f ! p ! 0 ! 1, nv_sc f ! p ! 1 ! 1]"
    by simp_all
  moreover have "nv_fmt f AND 7 \<le> 7" by (rule word_and_le1)
  moreover have "bit (m OR ELO_M1_ZRESERVED) 7" for m by (simp add: bit_simps)
  ultimately show ?thesis
    using assms(1) True
    by (simp add: elo_load_nvr_areas_def f_def [symmetric] Let_def elo_ok_defs elo_file_ok_def)
qed (simp add: elo_load_nvr_areas_def assms(1))

section \<open>Commands\<close>

lemma timer_apply_ok [simp, wf_intros]: "elo_ok dev \<Longrightarrow> elo_ok (elo_timer_apply dev)"
  by (simp add: elo_timer_apply_def elo_ok_defs)

lemma mode_letters_bit: "bit (fst m) 7 \<Longrightarrow> bit (fst (elo_mode_letters cs m)) 7"
  by (induction cs m rule: elo_mode_letters.induct) (simp_all add: bit_or_iff)

lemma elo_ok_after_modes: "elo_ok dev \<Longrightarrow> bit m1 7 \<Longrightarrow> elo_ok (dev\<lparr>el_mode1 := m1, el_mode2 := m2\<rparr>)"
  by (simp add: elo_ok_defs)

lemma mode_ascii_ok [wf_intros]:
  assumes "elo_ok dev"
  shows "elo_ok (elo_process_mode_ascii s dev)"
proof -
  have "bit (fst (elo_mode_letters cs (ELO_M1_ZRESERVED, 0))) 7" for cs
    by (rule mode_letters_bit) simp
  then show ?thesis
    using assms by (simp add: elo_process_mode_ascii_def case_prod_beta elo_ok_after_modes)
qed

lemma cal_axes_update: "cal_axes vs \<Longrightarrow> cal_range v \<Longrightarrow> cal_axes (vs[i := v])"
  by (simp add: cal_axes_def list_all_update)

lemma cal_range_set:
  "cal_range (le16 a b)" "cal_range (i16 v)" "cal_range (i16 v + i16 w)"
  using le16_bounds [of a b] i16_bounds [of v] i16_bounds [of w] by (auto simp: cal_range_def)

lemma word_masks: "(a :: u8) AND 1 \<le> 1" "(a :: u8) AND 7 \<le> 7" "(a :: u8) AND 15 \<le> 15"
  by (rule word_and_le1)+

lemma page_below: "unat ((v :: u8) AND 1) < 2"
proof -
  have "unat (v AND 1) \<le> unat (1 :: u8)" by (intro word_le_nat_alt [THEN iffD1] word_and_le1)
  then show ?thesis by simp
qed

lemmas cmd_pure_defs =
  cmd_reset_def elo_soft_reset_def cmd_report_def cmd_emulate_def cmd_calibrate_def cmd_filter_def cmd_timer_def
  cmd_ident_def cmd_jumpers_def cmd_mode_def cmd_parameter_def cmd_quiet_def cmd_scaling_def

lemma reset_queue [wf_intros]: "elo_queue_ok dev \<Longrightarrow> elo_queue_ok (dev\<lparr>el_resp := fifo8_reset (el_resp dev)\<rparr>)"
  using fifo8_reset_queue [of "el_resp dev"] by (simp add: elo_queue_ok_def)

lemma cmd_reset_ok: "elo_ok dev \<Longrightarrow> elo_ok (fst (cmd_reset d dev))"
  using fifo8_reset_queue [of "el_resp dev"] by (auto simp: cmd_reset_def elo_soft_reset_def elo_ok_defs)

lemma cmd_report_ok: "elo_ok dev \<Longrightarrow> elo_ok (fst (cmd_report q d dev))"
  by (simp add: cmd_report_def elo_ok_defs word_masks Let_def)

lemma cmd_emulate_ok:
  assumes "elo_ok dev"
  shows "elo_ok (fst (cmd_emulate q d dev))"
  using assms by (auto simp: cmd_emulate_def Let_def elo_ok_defs cal_axes_def cal_range_def)

lemma cmd_calibrate_ok:
  assumes "elo_ok dev"
  shows "elo_ok (fst (cmd_calibrate q d dev))"
  using assms by (auto simp: cmd_calibrate_def Let_def elo_ok_defs cal_axes_update cal_range_set)

lemma cmd_filter_ok: "elo_ok dev \<Longrightarrow> elo_ok (fst (cmd_filter q d dev))"
  by (simp add: cmd_filter_def elo_ok_defs Let_def)

lemma cmd_timer_ok: "elo_ok dev \<Longrightarrow> elo_ok (fst (cmd_timer cur q d dev))"
  by (simp add: cmd_timer_def elo_timer_apply_def elo_ok_defs word_masks Let_def)

lemma cmd_mode_ok: "elo_ok dev \<Longrightarrow> elo_ok (fst (cmd_mode q d dev))"
  by (simp add: cmd_mode_def mode_ascii_ok Let_def) (simp add: elo_ok_defs bit_simps)

lemma cmd_nvram_ok: "elo_ok dev \<Longrightarrow> elo_ok (fst (cmd_nvram q d dev))"
  by (simp add: cmd_nvram_def Let_def save_ok load_areas_ok page_below)

lemma cmd_parameter_ok: "elo_ok dev \<Longrightarrow> elo_ok (fst (cmd_parameter q d dev))"
  by (simp add: cmd_parameter_def elo_ok_defs Let_def)

lemma cmd_quiet_ok: "elo_ok dev \<Longrightarrow> elo_ok (fst (cmd_quiet q d dev))"
  by (simp add: cmd_quiet_def elo_ok_defs Let_def)

lemma cmd_scaling_ok:
  assumes "elo_ok dev"
  shows "elo_ok (fst (cmd_scaling q d dev))"
  using assms by (auto simp: cmd_scaling_def Let_def elo_ok_defs cal_axes_update cal_range_set word_masks)

section \<open>Reports fit their buffers\<close>

definition wire_range :: "int \<Rightarrow> bool" where
  "wire_range v \<longleftrightarrow> \<bar>v\<bar> < 10 ^ 10"

lemma fmt_04ld_length: "wire_range v \<Longrightarrow> length (fmt_0ld 4 v) \<le> 11"
  using dec_digits_length [of "nat \<bar>v\<bar>" 9]
  by (auto simp: fmt_0ld_def wire_range_def Let_def nat_less_iff)

lemma ascii_coord_length: "length (elo_ascii_coord v) \<le> 15"
  by (simp add: elo_ascii_coord_def)

lemma wire_range_z: "wire_range (elo_z_value dev)" "wire_range 0"
  by (simp_all add: elo_z_value_def wire_range_def)

lemma ascii_coord_wire: "wire_range v \<Longrightarrow> length (elo_ascii_coord v) \<le> 12"
  using fmt_04ld_length [of v] fmt_04ld_length [of "- v"] by (simp add: elo_ascii_coord_def wire_range_def)

lemma fmt_02X_length [simp]: "length (fmt_02X v) = 2"
  by (simp add: fmt_02X_def)

text \<open>The bytes of a touch report.\<close>

definition touch_bytes :: "u8 \<Rightarrow> int \<Rightarrow> int \<Rightarrow> int \<Rightarrow> elo \<Rightarrow> u8 list" where
  "touch_bytes status x y z dev =
     (let untouch = status AND ELO_M1_UNTOUCH \<noteq> 0; fmt = el_fmt dev; tf = el_tflag dev;
          mark = (if untouch then 0x55 else 0x54)
      in if fmt = 0 \<or> fmt = 6 then
           elo_140_bin x y @ (if fmt = 6 then elo_bin12 (if tf \<and> untouch then 0 else z) else [])
         else if fmt = 1 \<or> fmt = 7 then
           [0x0D, 0x0A] @ fmt_0ld 4 x @ [0x20] @ fmt_0ld 4 y @
             (if fmt = 7 then [0x20] @ fmt_0ld 4 (if tf \<and> untouch then 0 else z)
              else if tf then [0x20, mark] else [])
         else if fmt = 2 then [if tf \<and> untouch then 0x81 else 0x01, word_of_int x, word_of_int y]
         else if fmt = 3 then
           fmt_02X (word_of_int x) @ [0x2C] @ fmt_02X (word_of_int y) @ (if tf then [0x2C, mark] else []) @ [0x0D, 0x0A]
         else if fmt = 5 then
           elo_ascii_coord x @ [0x20] @ elo_ascii_coord y @ [0x20] @ elo_ascii_coord z @
             (if tf then [0x20, mark] else []) @ [0x0D, 0x0A]
         else elo_frame (el_key dev) 0x54
           [status, byte_at 0 x, byte_at 1 x, byte_at 0 y, byte_at 1 y, byte_at 0 z, byte_at 1 z])"

lemma emit_txt_said: "elo_queue_ok dev \<Longrightarrow> length t < 48 \<Longrightarrow> elo_emit_txt t dev = Some (elo_said t dev)"
  by (simp add: elo_emit_txt_def elo_emit_raw_said)

lemma send_touch_said:
  assumes "elo_queue_ok dev" "wire_range x" "wire_range y" "wire_range z"
  shows "elo_send_touch status x y z dev = Some (elo_said (touch_bytes status x y z dev) dev)"
  using assms ascii_coord_wire [of x] ascii_coord_wire [of y] ascii_coord_wire [of z]
    fmt_04ld_length [of x] fmt_04ld_length [of y] fmt_04ld_length [of z] fmt_04ld_length [of 0] wire_range_z(2)
  by (simp add: elo_send_touch_def touch_bytes_def Let_def elo_enqueue_said elo_emit_raw_said emit_txt_said)

lemma axis_range: "cal_axes vs \<Longrightarrow> a < 2 \<Longrightarrow> cal_range (vs ! a)"
  by (simp add: cal_axes_def list_all_length)

lemma transform_range:
  assumes "elo_cfg_ok c" "raw_range raw" "a < 2"
  shows "wire_range (fst (elo_transform a raw c))"
proof -
  have "cal_range (el_sc_lo c ! a)" "cal_range (el_sc_hi c ! a)"
    using assms axis_range by (auto simp: elo_cfg_ok_def)
  moreover have "wire_range (i32 v)" for v
    using i32_bounds [of v] by (simp add: wire_range_def abs_less_iff)
  moreover have "wire_range raw" "wire_range 0" "wire_range ELO_RAW_MAX"
    using assms(2) by (auto simp: wire_range_def raw_range_def ELO_RAW_MAX_def)
  moreover have "wire_range (lo + i32 v)" "wire_range (lo + hi - (lo + i32 v))"
    if "cal_range lo" "cal_range hi" for lo hi v
    using i32_bounds [of v] that by (auto simp: wire_range_def cal_range_def abs_less_iff)
  ultimately show ?thesis
    by (simp add: elo_transform_def Let_def split: if_splits)
qed

section \<open>Every command returns\<close>

lemma elo_ok_after_warn [simp]: "elo_ok dev \<Longrightarrow> length ws = 4 \<Longrightarrow> elo_ok (dev\<lparr>el_warn := ws\<rparr>)"
  by (simp add: elo_ok_defs)

lemma length_warn_add [simp]: "length (warn_add c ws) = length ws"
  by (induction ws) simp_all

lemma ack_warnings_said:
  "elo_ok dev \<Longrightarrow> \<exists>bs. elo_ack_warnings dev = Some (elo_said bs (dev\<lparr>el_warn := replicate 4 0\<rparr>))"
  by (simp add: elo_ack_warnings_def elo_enqueue_said) blast

lemma cmd_acknowledge_ok:
  assumes "elo_ok dev"
  shows "\<exists>dev'. cmd_acknowledge dev = Some (dev', Silent) \<and> elo_ok dev'"
proof -
  let ?d = "if el_cal_active dev then elo_warn 0x36 (dev\<lparr>el_cal_active := False\<rparr>) else dev"
  have "elo_ok (dev\<lparr>el_cal_active := False\<rparr>)" using assms by (simp add: elo_ok_defs)
  moreover from this have "length (el_warn (dev\<lparr>el_cal_active := False\<rparr>)) = 4" by (simp only: elo_ok_def)
  ultimately have ok: "elo_ok ?d" using assms by (simp add: elo_warn_def)
  then show ?thesis using ack_warnings_said [OF ok] by (auto simp: cmd_acknowledge_def)
qed

lemma raw_nth: "raw_point r \<Longrightarrow> a < 2 \<Longrightarrow> raw_range (r ! a)"
  by (simp add: raw_point_def list_all_length)

lemma transform_ok:
  "elo_ok dev \<Longrightarrow> raw_point r \<Longrightarrow> a < 2 \<Longrightarrow> wire_range (fst (elo_transform a (r ! a) dev))"
  by (rule transform_range) (simp_all add: elo_ok_def raw_nth)

lemma cmd_touch_ok:
  assumes "elo_ok dev"
  shows "\<exists>dev' r. cmd_touch q dev = Some (dev', Refuse r) \<and> elo_ok dev'"
proof -
  have r: "raw_point (el_raw dev)" using assms by (simp add: elo_ok_defs)
  show ?thesis
    using assms transform_ok [OF assms r, of 0] transform_ok [OF assms r, of 1]
    by (simp add: cmd_touch_def case_prod_beta Let_def send_touch_said wire_range_z)
qed

lemma enqueue_all_ok: "elo_ok dev \<Longrightarrow> \<exists>dev'. elo_enqueue_all ps dev = Some dev' \<and> elo_ok dev'"
  by (induction ps dev rule: elo_enqueue_all.induct) (simp_all add: elo_enqueue_said)

definition returns_ok :: "(elo \<times> 'a) option \<Rightarrow> bool" where
  "returns_ok r \<longleftrightarrow> (case r of None \<Rightarrow> False | Some p \<Rightarrow> elo_ok (fst p))"

lemma returns_ok_simps [simp]: "\<not> returns_ok None" "returns_ok (Some p) \<longleftrightarrow> elo_ok (fst p)"
  by (simp_all add: returns_ok_def)

lemma dispatch_ok:
  assumes "elo_ok dev" "length d = 7"
  shows "\<exists>dev' r. elo_dispatch cur base q d dev = Some (dev', r) \<and> elo_ok dev'"
proof -
  note pure = cmd_reset_ok cmd_report_ok cmd_emulate_ok cmd_calibrate_ok cmd_filter_ok cmd_timer_ok cmd_mode_ok
    cmd_nvram_ok cmd_parameter_ok cmd_quiet_ok cmd_scaling_ok
  have direct: "elo_ok (dev\<lparr>el_diag := 0\<rparr>)" "elo_ok (dev\<lparr>el_key := k\<rparr>)" "elo_ok (dev\<lparr>el_low := k AND 1\<rparr>)"
    "elo_ok (dev\<lparr>el_owner := d\<rparr>)" for k
    using assms by (simp_all add: elo_ok_defs word_masks)
  have "returns_ok (elo_dispatch cur base q d dev)"
    using assms(1) direct cmd_acknowledge_ok [OF assms(1)] cmd_touch_ok [OF assms(1), of q]
      enqueue_all_ok [OF assms(1), of "elo_config_packets dev"]
    unfolding elo_dispatch_def
    by (auto simp: pure cmd_ident_def cmd_jumpers_def elo_dump_config_def Let_def)
  then show ?thesis by (cases "elo_dispatch cur base q d dev") auto
qed

lemma process_ok:
  assumes "elo_ok dev" "length body = 8"
  shows "\<exists>dev'. elo_process_command cur body dev = Some dev' \<and> elo_ok dev'"
proof -
  obtain dev' r where "elo_dispatch cur (toupper (body ! 0)) (islower (body ! 0)) (drop 1 body) dev = Some (dev', r)" "elo_ok dev'"
    using dispatch_ok [OF assms(1), of "drop 1 body"] assms(2) by fastforce
  then show ?thesis
    by (cases r) (simp_all add: elo_process_command_def Let_def elo_ack_def elo_enqueue_said)
qed

section \<open>Every event returns\<close>

lemma write_ok:
  assumes "elo_ok dev"
  shows "\<exists>dev'. elo_write cur b dev = Some dev' \<and> elo_ok dev'"
proof -
  have body: "length (el_body dev) = 8" using assms by (simp add: elo_ok_defs)
  have idle: "elo_ok (dev\<lparr>el_pos := - 1\<rparr>)" using assms by (simp add: elo_ok_defs)
  have "elo_ok (dev\<lparr>el_pos := 0, el_keyed := k\<rparr>)" for k using assms by (simp add: elo_ok_defs)
  moreover have "elo_ok (dev\<lparr>el_body := (el_body dev)[i := b], el_pos := el_pos dev + 1\<rparr>)"
    if "0 \<le> el_pos dev" "el_pos dev < 8" for i
    using assms that by (simp add: elo_ok_defs)
  moreover have "elo_ok (dev\<lparr>el_inkey := b, el_pos := el_pos dev + 1\<rparr>)" if "el_keyed dev" "el_pos dev = 8"
    using assms that by (simp add: elo_ok_defs)
  ultimately show ?thesis
    using assms idle process_ok [OF idle, of "el_body dev" cur] body
    by (auto simp: elo_write_def elo_ack_def elo_enqueue_said Let_def)
qed

lemma user_timer_ok:
  assumes "elo_ok dev"
  shows "\<exists>dev'. elo_user_timer_fire dev = Some dev' \<and> elo_ok dev'"
proof -
  have after: "elo_ok (d\<lparr>el_user_timer := t\<rparr>)" "elo_ok (d\<lparr>el_ten := 0\<rparr>)" if "elo_ok d" for d t
    using that by (simp_all add: elo_ok_defs)
  show ?thesis using assms by (simp add: elo_user_timer_fire_def elo_enqueue_said after)
qed

lemma report_wire:
  assumes "elo_ok dev" "elo_report dev = Some (st, x, y, stream)"
  shows "wire_range x \<and> wire_range y"
proof -
  have r: "raw_point (if el_but dev then el_raw dev else el_raw_old dev)" using assms(1) by (simp add: elo_ok_defs)
  show ?thesis
    using assms(2) transform_ok [OF assms(1) r, of 0] transform_ok [OF assms(1) r, of 1]
    by (auto simp: elo_report_def case_prod_beta Let_def split: if_splits)
qed

lemma prepare_ok:
  assumes "elo_ok dev"
  shows "\<exists>dev'. elo_prepare_transmit dev = Some dev' \<and> elo_ok dev'"
proof -
  have after: "elo_ok (d\<lparr>el_raw_old := el_raw d, el_but_old := b, el_sent := s\<rparr>)"
    "elo_ok (d\<lparr>el_raw_old := el_raw d, el_but_old := b\<rparr>)" if "elo_ok d" for d b s
    using that by (simp_all add: elo_ok_defs)
  have sent: "elo_ok (d\<lparr>el_sent := s, el_sent_xy := [x, y]\<rparr>)"
    "elo_ok (d\<lparr>el_sent := s, el_sent_xy := [x, y], el_rep_ready := r, el_rep_timer := t\<rparr>)" if "elo_ok d" for d s x y r t
    using that by (simp_all add: elo_ok_defs)
  show ?thesis
  proof (cases "elo_report dev")
    case None
    then show ?thesis using assms after [OF assms] by (simp add: elo_prepare_transmit_def Let_def)
  next
    case (Some q)
    obtain st x y stream where q: "q = (st, x, y, stream)" by (cases q)
    then have "elo_send_touch st x y (elo_z_value dev) dev =
        Some (elo_said (touch_bytes st x y (elo_z_value dev) dev) dev)"
      using report_wire [OF assms] Some assms by (simp add: send_touch_said wire_range_z)
    then show ?thesis
      using assms Some q after [OF sent(1) [OF elo_said_ok [OF assms]]] after [OF sent(2) [OF elo_said_ok [OF assms]]]
      by (auto simp: elo_prepare_transmit_def Let_def)
  qed
qed

lemma tick_ok:
  assumes "elo_ok dev"
  shows "\<exists>out dev'. elo_write_to_host room dev = Some (out, dev') \<and> elo_ok dev'"
proof -
  have after: "elo_ok (d\<lparr>el_host_timer := t\<rparr>)" if "elo_ok d" for d t using that by (simp add: elo_ok_defs)
  have q: "fifo8_wf (el_resp dev)" "f_cap (el_resp dev) = 512" using assms by (simp_all add: elo_ok_defs)
  consider (silent) "\<not> room \<or> el_in_reset dev" | (byte) "room" "\<not> el_in_reset dev" "f_num (el_resp dev) \<noteq> 0"
    | (touch) "room" "\<not> el_in_reset dev" "f_num (el_resp dev) = 0" by blast
  then show ?thesis
  proof cases
    case silent
    then show ?thesis using after [OF assms] by (simp add: elo_write_to_host_def)
  next
    case byte
    then obtain b bs where i: "fifo8_items (el_resp dev) = b # bs"
      by (metis fifo8_num_used_items length_0_conv list.exhaust)
    then obtain f where f: "fifo8_pop (el_resp dev) = Some (b, f)" "fifo8_wf f" "fifo8_items f = bs"
        "fifo8_num_free f = Suc (fifo8_num_free (el_resp dev))"
      using fq.pop_next [OF q(1) i] by blast
    have "f_cap f = 512" using fifo8_size [OF f(2)] fifo8_size [OF q(1)] f i q(2) by simp
    then have "elo_ok (dev\<lparr>el_resp := f\<rparr>)" using assms f(2) by (simp add: elo_ok_defs)
    then show ?thesis
      using byte f(1) after [of "dev\<lparr>el_resp := f\<rparr>"] by (simp add: elo_write_to_host_def fifo8_num_used_def)
  next
    case touch
    then show ?thesis
      using prepare_ok [OF assms] after by (auto simp: elo_write_to_host_def fifo8_num_used_def)
  qed
qed

lemma raw_axes: "raw_point r \<Longrightarrow> cal_range (r ! 0) \<and> cal_range (r ! 1)"
  using raw_nth [of r 0] raw_nth [of r 1] by (auto simp: raw_range_def cal_range_def ELO_RAW_MAX_def)

lemma said_cal_active: "(elo_said bs d)\<lparr>el_cal_active := a\<rparr> = elo_said bs (d\<lparr>el_cal_active := a\<rparr>)"
  by (cases d) (simp add: elo_said_def)

lemma cal_touch_ok:
  assumes "elo_ok dev"
  shows "\<exists>dev'. elo_cal_touch dev = Some dev' \<and> elo_ok dev'"
proof -
  have but: "elo_ok (d\<lparr>el_cal_but := b\<rparr>)" if "elo_ok d" for d b using that by (simp add: elo_ok_defs)
  show ?thesis
  proof (cases "el_cal_active dev \<and> el_but dev \<and> \<not> el_cal_but dev")
    case False
    then show ?thesis using assms but [OF assms] by (auto simp: elo_cal_touch_def Let_def)
  next
    case True
    define d where "d = dev\<lparr>el_cal_pts := (el_cal_pts dev)[el_cal_step dev := el_raw dev], el_cal_step := Suc (el_cal_step dev)\<rparr>"
    define s where "s = elo_said (elo_frame (el_key d) 0x41 [0, 0, 0, 0, 0, 0, 0]) d"
    have step: "el_cal_step dev < 2" using assms True by (simp add: elo_ok_defs)
    have q: "elo_queue_ok d" using assms by (simp add: d_def elo_ok_defs)
    have pts: "length (el_cal_pts d) = 2" "list_all raw_point (el_cal_pts d)"
      using assms by (simp_all add: d_def elo_ok_defs list_all_update)
    then have "raw_point (el_cal_pts d ! 0)" "raw_point (el_cal_pts d ! 1)" by (simp_all add: list_all_length)
    then have ax: "cal_axes [el_cal_pts d ! 0 ! 0, el_cal_pts d ! 0 ! 1]" "cal_axes [el_cal_pts d ! 1 ! 0, el_cal_pts d ! 1 ! 1]"
      using raw_axes by (simp_all add: cal_axes_def)
    have "elo_ok (d\<lparr>el_cal_active := False, el_cal_step := n\<rparr>)" for n
      using assms pts by (simp add: d_def elo_ok_defs)
    from this [of "el_cal_step d"] have "elo_ok (d\<lparr>el_cal_active := False\<rparr>)" by simp
    then have off: "elo_ok (s\<lparr>el_cal_active := False\<rparr>)" by (simp add: s_def said_cal_active)
    have "elo_ok (s\<lparr>el_cal_lo := l, el_cal_hi := h, el_cal_active := False\<rparr>)" if "cal_axes l" "cal_axes h" for l h
      using off that by (simp add: elo_ok_defs)
    moreover have "elo_ok s" if "el_cal_step d < 2"
      unfolding s_def using assms pts that by (intro elo_said_ok) (simp add: d_def elo_ok_defs)
    moreover have "el_cal_step d = Suc (el_cal_step dev)" by (simp add: d_def)
    moreover have "elo_cal_touch dev = Some ((if 2 \<le> el_cal_step s
        then s\<lparr>el_cal_lo := map (\<lambda>a. el_cal_pts s ! 0 ! a) [0, 1],
               el_cal_hi := map (\<lambda>a. el_cal_pts s ! 1 ! a) [0, 1], el_cal_active := False\<rparr>
        else s)\<lparr>el_cal_but := True\<rparr>)"
      using True step q by (simp add: elo_cal_touch_def d_def [symmetric] elo_ack_def elo_enqueue_said s_def)
    ultimately show ?thesis using ax but by (simp add: s_def)
  qed
qed

lemma poll_ok:
  assumes "elo_ok dev" "raw_range px" "raw_range py"
  shows "\<exists>dev'. elo_poll but px py dev = Some dev' \<and> elo_ok dev'"
  unfolding elo_poll_def elo_hold_def Let_def
  using assms by (intro cal_touch_ok) (simp add: elo_ok_defs raw_point_def)

section \<open>Every run returns\<close>

fun event_ok :: "elo_event \<Rightarrow> bool" where
  "event_ok (Poll but px py) = (raw_range px \<and> raw_range py)"
| "event_ok e = True"

lemma react_ok:
  assumes "elo_ok dev" "event_ok e"
  shows "\<exists>out dev'. elo_react e dev = Some (out, dev') \<and> elo_ok dev'"
proof (cases e)
  case (Guest cur b)
  then show ?thesis using write_ok [OF assms(1), of cur b] by auto
next
  case (Tick room)
  then show ?thesis using tick_ok [OF assms(1), of room] by simp
next
  case (Poll but px py)
  then show ?thesis using poll_ok [OF assms(1), of px py but] assms(2) by auto
next
  case User_due
  have "elo_ok (dev\<lparr>el_user_timer := None\<rparr>)" using assms(1) by (simp add: elo_ok_defs)
  then show ?thesis using User_due assms(1) user_timer_ok by fastforce
qed (use assms(1) in \<open>auto simp: elo_untouch_done_def elo_rep_delay_done_def elo_reset_complete_def elo_ok_defs\<close>)

lemma run_ok:
  "elo_ok dev \<Longrightarrow> list_all event_ok es \<Longrightarrow> \<exists>out dev'. elo_run es dev = Some (out, dev') \<and> elo_ok dev'"
proof (induction es arbitrary: dev)
  case (Cons e es)
  then obtain out dev' where "elo_react e dev = Some (out, dev')" "elo_ok dev'" using react_ok by fastforce
  moreover from this Cons obtain rest dev'' where "elo_run es dev' = Some (rest, dev'')" "elo_ok dev''" by fastforce
  ultimately show ?case by simp
qed simp

lemma fifo8_create_cap: "f_cap (fifo8_create n) = n"
  by (simp add: fifo8_create_def fifo8_reset_def)

lemma replicate_two: "replicate 2 x = [x, x]"
  by (simp add: numeral_2_eq_2)

lemma elo_zero_ok: "elo_stored_ok file \<Longrightarrow> elo_ok (elo_load_defaults ((elo_zero file)\<lparr>el_pos := - 1, el_baud := b,
    el_ser1 := s1, el_ser2 := s2, el_host_timer := t, el_rep_ready := True\<rparr>))"
  by (simp add: elo_zero_def elo_load_defaults_def elo_ok_defs cal_axes_def cal_range_def raw_point_def raw_range_def
    ELO_RAW_MAX_def fifo8_create_wf fifo8_create_cap bytes_def replicate_two)

lemma init_ok: "elo_stored_ok file \<Longrightarrow> elo_ok (elo_init speed file)"
proof -
  assume st: "elo_stored_ok file"
  have ser: "elo_ok (d\<lparr>el_ser1 := s\<rparr>)" "elo_ok (d\<lparr>el_baud := b\<rparr>)" if "elo_ok d" for d s b
    using that by (simp_all add: elo_ok_defs)
  show ?thesis
    unfolding elo_init_def Let_def elo_load_nvr_def
    by (intro ser timer_apply_ok load_areas_ok elo_zero_ok st) simp
qed

text \<open>The factory controller: nothing saved.\<close>

lemma init_factory:
  "elo_ok (elo_init speed None)" "el_pos (elo_init speed None) = - 1" "\<not> el_quiet (elo_init speed None)"
  "fifo8_items (el_resp (elo_init speed None)) = []" "el_fmt (elo_init speed None) = 4" "el_key (elo_init speed None) = 0"
  "el_mode1 (elo_init speed None) = 0x87" "el_mode2 (elo_init speed None) = 0" "el_file (elo_init speed None) = None"
  "el_cal_lo (elo_init speed None) = [0, 0]" "el_cal_hi (elo_init speed None) = [4095, 4095]"
  "el_sc_lo (elo_init speed None) = [0, 0]" "el_sc_hi (elo_init speed None) = [4095, 4095]"
  "el_but (elo_init speed None) = False" "el_but_old (elo_init speed None) = False"
  "el_but_prev (elo_init speed None) = False" "el_udelay (elo_init speed None) = 0" "el_cal_active (elo_init speed None) = False"
  "el_untouch_pending (elo_init speed None) = False" "el_quiet_touch (elo_init speed None) = False"
  "el_in_reset (elo_init speed None) = False"
  by (simp add: init_ok elo_stored_ok_def)
    (simp_all add: elo_init_def elo_load_nvr_def elo_load_nvr_areas_def elo_nvr_read_file_def elo_nvr_zero_def
      elo_timer_apply_def elo_load_defaults_def elo_zero_def ELO_NVR_MAGIC_def ELO_RAW_MAX_def Let_def)

text \<open>
  C18. From power-on with no saved configuration or one the controller saved, whatever
  bytes the host sends, whenever the line takes a byte, wherever the pointer is and in
  whatever order the timers fire, every step returns: the queue to the host is never
  pushed past its end, no report outgrows its buffer, the calibration never stores a
  third point; and the controller stays inside its invariant.
\<close>

theorem elo_never_asserts:
  assumes "elo_stored_ok file" "list_all event_ok es"
  shows "\<exists>out dev. elo_run es (elo_init speed file) = Some (out, dev) \<and> elo_ok dev"
  using run_ok [OF init_ok [OF assms(1)] assms(2)] .

theorem elo_never_asserts_witness:
  "\<exists>out dev. elo_run [Poll True 100 200, Tick True, Guest 0 0x55] (elo_init 9600 None) = Some (out, dev) \<and> elo_ok dev"
  by (rule elo_never_asserts) (simp_all add: elo_stored_ok_def raw_range_def ELO_RAW_MAX_def)

end
