(* ===== verification/Elo_Wire.thy ===== *)
theory Elo_Wire
  imports Elo_Safe
begin

text \<open>
  The two directions of the Elo line. Towards the controller: a stream of bytes is a
  stream of packets, and each packet is one command. Towards the host: the answer to a
  command is a row of whole packets that ends in one Acknowledge.
\<close>

section \<open>Packets in\<close>

text \<open>What one whole packet does: the byte-level bookkeeping, then the command it carries.\<close>

definition elo_take :: "u16 \<Rightarrow> u8 \<times> u8 \<times> u8 list \<Rightarrow> elo \<Rightarrow> elo option" where
  "elo_take cur p dev =
     (case p of (key, c, d) \<Rightarrow>
        let dev = dev\<lparr>el_body := c # d, el_keyed := (key \<noteq> 0), el_inkey := (if key \<noteq> 0 then key else el_inkey dev)\<rparr>
        in if key \<noteq> 0 \<and> key \<noteq> el_key dev then Some dev else elo_process_command cur (c # d) dev)"

lemma feed_Nil [simp]: "elo_feed cur [] = Some"
  by (rule ext) simp

lemma feed_one: "elo_feed cur [b] dev = elo_write cur b dev"
  by simp

lemma feed_append:
  "elo_feed cur (as @ bs) dev = (case elo_feed cur as dev of None \<Rightarrow> None | Some dev \<Rightarrow> elo_feed cur bs dev)"
  by (induction as arbitrary: dev) (auto split: option.split bind_splits)

lemma feed_body:
  "el_pos dev = int p \<Longrightarrow> p + length bs \<le> 8 \<Longrightarrow> length (el_body dev) = 8 \<Longrightarrow>
     elo_feed cur bs dev = Some (dev\<lparr>el_body := put p bs (el_body dev), el_pos := int (p + length bs)\<rparr>)"
proof (induction bs arbitrary: dev p)
  case (Cons b bs)
  let ?d = "dev\<lparr>el_body := (el_body dev)[p := b], el_pos := int (Suc p)\<rparr>"
  have "elo_write cur b dev = Some ?d" using Cons.prems by (simp add: elo_write_def)
  moreover have "put (Suc p) bs ((el_body dev)[p := b]) = put p (b # bs) (el_body dev)"
    using Cons.prems by (simp add: put_def take_Suc_conv_app_nth)
  ultimately show ?case
    using Cons.IH [of ?d "Suc p"] Cons.prems by simp
qed (simp add: put_def)

lemma feed_lead:
  assumes "el_pos dev = - 1" "length (el_body dev) = 8" "length d = 7"
  shows "elo_feed cur ([if (key :: u8) \<noteq> 0 then 0x16 else 0x55, c] @ d) dev =
    Some (dev\<lparr>el_keyed := (key \<noteq> 0), el_body := c # d, el_pos := 8\<rparr>)"
  using assms feed_body [of "dev\<lparr>el_pos := 0, el_keyed := (key \<noteq> 0)\<rparr>" 0 "c # d" cur]
  by (cases "key = 0") (simp_all add: elo_write_def put_def)

lemma feed_body_rest:
  assumes "el_pos dev = - 1" "length (el_body dev) = 8" "length d = 7"
  shows "elo_feed cur (0x55 # c # d @ rest) dev = elo_feed cur rest (dev\<lparr>el_keyed := False, el_body := c # d, el_pos := 8\<rparr>)"
    and "elo_feed cur (0x16 # c # d @ rest) dev = elo_feed cur rest (dev\<lparr>el_keyed := True, el_body := c # d, el_pos := 8\<rparr>)"
  using feed_append [of cur "[0x55, c] @ d" rest dev] feed_append [of cur "[0x16, c] @ d" rest dev]
    feed_lead [OF assms, of cur 0 c] feed_lead [OF assms, of cur 1 c] by (simp_all del: elo_feed.simps)

lemma frame_unkeyed: "elo_frame 0 c d = 0x55 # c # d @ [0xAA + 0x55 + sum_list (c # d)]"
  by (simp add: elo_frame_def)

lemma frame_keyed: "key \<noteq> 0 \<Longrightarrow> elo_frame key c d = 0x16 # c # d @ [key, 0xAA + 0x16 + sum_list (c # d) + key]"
  by (simp add: elo_frame_def Let_def ac_simps)

lemma write_sum:
  assumes "el_pos dev = - 1" "el_ser2 dev AND 1 \<noteq> 0 \<longrightarrow> s = 0xAA + 0x55 + sum_list body"
  shows "elo_write cur s (dev\<lparr>el_keyed := False, el_body := body, el_pos := 8\<rparr>) =
    elo_process_command cur body (dev\<lparr>el_body := body, el_keyed := False\<rparr>)"
proof -
  have "dev\<lparr>el_keyed := False, el_body := body, el_pos := - 1\<rparr> = dev\<lparr>el_body := body, el_keyed := False\<rparr>"
    by (rule elo.equality) (simp_all add: assms(1))
  then show ?thesis using assms(2) by (auto simp: elo_write_def)
qed

lemma write_bad_sum:
  assumes "el_pos dev = - 1" "el_ser2 dev AND 1 \<noteq> 0" "s \<noteq> 0xAA + 0x55 + sum_list body"
  shows "elo_write cur s (dev\<lparr>el_keyed := False, el_body := body, el_pos := 8\<rparr>) =
    elo_ack 0x33 (dev\<lparr>el_body := body, el_keyed := False\<rparr>)"
proof -
  have "dev\<lparr>el_keyed := False, el_body := body, el_pos := - 1\<rparr> = dev\<lparr>el_body := body, el_keyed := False\<rparr>"
    by (rule elo.equality) (simp_all add: assms(1))
  then show ?thesis using assms(2,3) by (auto simp: elo_write_def)
qed

lemma feed_keyed_end:
  assumes "el_pos dev = - 1"
  shows "elo_feed cur [key, 0xAA + 0x16 + sum_list body + key] (dev\<lparr>el_keyed := True, el_body := body, el_pos := 8\<rparr>) =
    (let dev = dev\<lparr>el_body := body, el_keyed := True, el_inkey := key\<rparr>
     in if key \<noteq> el_key dev then Some dev else elo_process_command cur body dev)"
proof -
  have "dev\<lparr>el_keyed := True, el_body := body, el_inkey := key, el_pos := - 1\<rparr> =
      dev\<lparr>el_body := body, el_keyed := True, el_inkey := key\<rparr>"
    by (rule elo.equality) (simp_all add: assms)
  then show ?thesis by (simp add: elo_write_def Let_def)
qed

lemma feed_frame:
  assumes "elo_ok dev" "el_pos dev = - 1" "length d = 7"
  shows "elo_feed cur (elo_frame key c d) dev = elo_take cur (key, c, d) dev"
proof -
  have b: "length (el_body dev) = 8" using assms(1) by (simp add: elo_ok_defs)
  note lead = feed_body_rest [OF assms(2) b assms(3), of cur c]
  show ?thesis
  proof (cases "key = 0")
    case True
    have "dev\<lparr>el_body := c # d, el_keyed := False\<rparr> = dev\<lparr>el_body := c # d, el_keyed := False, el_inkey := el_inkey dev\<rparr>"
      by (rule elo.equality) simp_all
    then show ?thesis
      unfolding True frame_unkeyed lead feed_one by (simp add: write_sum assms(2) elo_take_def del: sum_list.Cons)
  next
    case False
    then show ?thesis
      unfolding frame_keyed [OF False] lead feed_keyed_end [OF assms(2)] by (simp add: elo_take_def Let_def)
  qed
qed

text \<open>A packet with any other checksum, to a controller told to check it.\<close>

lemma feed_bad_sum:
  assumes "elo_ok dev" "el_pos dev = - 1" "length d = 7" "el_ser2 dev AND 1 \<noteq> 0" "s \<noteq> 0xAA + 0x55 + sum_list (c # d)"
  shows "elo_feed cur (0x55 # c # d @ [s]) dev = elo_ack 0x33 (dev\<lparr>el_body := c # d, el_keyed := False\<rparr>)"
proof -
  have b: "length (el_body dev) = 8" using assms(1) by (simp add: elo_ok_defs)
  show ?thesis
    unfolding feed_body_rest [OF assms(2) b assms(3)] feed_one write_bad_sum [OF assms(2,4,5)] ..
qed

text \<open>Bytes between packets.\<close>

definition elo_noise :: "u8 list \<Rightarrow> bool" where
  "elo_noise bs \<longleftrightarrow> 0x55 \<notin> set bs \<and> 0x16 \<notin> set bs"

lemma feed_noise: "el_pos dev = - 1 \<Longrightarrow> elo_noise bs \<Longrightarrow> elo_feed cur bs dev = Some dev"
  by (induction bs) (simp_all add: elo_noise_def elo_write_def)

subsection \<open>A command leaves the framing alone\<close>

lemma pure_pos:
  "el_pos (fst (cmd_reset d dev)) = el_pos dev" "el_pos (fst (cmd_report q d dev)) = el_pos dev"
  "el_pos (fst (cmd_emulate q d dev)) = el_pos dev" "el_pos (fst (cmd_calibrate q d dev)) = el_pos dev"
  "el_pos (fst (cmd_filter q d dev)) = el_pos dev" "el_pos (fst (cmd_timer cur q d dev)) = el_pos dev"
  "el_pos (fst (cmd_mode q d dev)) = el_pos dev" "el_pos (fst (cmd_parameter q d dev)) = el_pos dev"
  "el_pos (fst (cmd_quiet q d dev)) = el_pos dev" "el_pos (fst (cmd_scaling q d dev)) = el_pos dev"
  "el_pos (fst (cmd_nvram q d dev)) = el_pos dev"
  by (simp_all add: cmd_pure_defs cmd_nvram_def elo_save_nvr_areas_def elo_load_nvr_areas_def elo_timer_apply_def
    elo_process_mode_ascii_def case_prod_beta Let_def)

definition pos_kept :: "elo \<Rightarrow> (elo \<times> 'a) option \<Rightarrow> bool" where
  "pos_kept dev r \<longleftrightarrow> (case r of None \<Rightarrow> True | Some p \<Rightarrow> el_pos (fst p) = el_pos dev)"

lemma pos_kept_simps [simp]: "pos_kept dev None" "pos_kept dev (Some p) \<longleftrightarrow> el_pos (fst p) = el_pos dev"
  by (simp_all add: pos_kept_def)

lemma enqueue_all_pos: "elo_queue_ok dev \<Longrightarrow> elo_enqueue_all ps dev = Some dev' \<Longrightarrow> el_pos dev' = el_pos dev"
  by (induction ps dev rule: elo_enqueue_all.induct) (auto simp: elo_enqueue_said)

lemma cmd_acknowledge_said:
  assumes "elo_queue_ok dev"
  shows "\<exists>bs ws. cmd_acknowledge dev = Some (elo_said bs (dev\<lparr>el_cal_active := False, el_warn := ws\<rparr>), Silent)"
proof -
  have off: "dev\<lparr>el_warn := ws\<rparr> = dev\<lparr>el_cal_active := False, el_warn := ws\<rparr>" if "\<not> el_cal_active dev" for ws
    by (rule elo.equality) (simp_all add: that)
  have q: "elo_queue_ok (dev\<lparr>el_cal_active := False, el_warn := ws\<rparr>)" "elo_queue_ok (dev\<lparr>el_warn := ws\<rparr>)" for ws
    using assms by (simp_all add: elo_queue_ok_def)
  show ?thesis
    by (cases "el_cal_active dev")
      (auto simp: cmd_acknowledge_def elo_ack_warnings_def elo_warn_def elo_enqueue_said q off)
qed

lemma cmd_touch_said:
  assumes "elo_ok dev"
  shows "cmd_touch True dev = Some (elo_said (touch_bytes
      ((if el_but dev then ELO_M1_STREAM else ELO_M1_UNTOUCH) OR
       (if snd (elo_transform 0 (el_raw dev ! 0) dev) \<or> snd (elo_transform 1 (el_raw dev ! 1) dev) then ELO_ST_OUTOFRANGE else 0))
      (fst (elo_transform 0 (el_raw dev ! 0) dev)) (fst (elo_transform 1 (el_raw dev ! 1) dev)) (elo_z_value dev) dev) dev,
      Refuse 0x30)"
proof -
  have r: "raw_point (el_raw dev)" using assms by (simp add: elo_ok_defs)
  show ?thesis
    using assms transform_ok [OF assms r, of 0] transform_ok [OF assms r, of 1]
    by (simp add: cmd_touch_def case_prod_beta Let_def send_touch_said wire_range_z)
qed

lemma dispatch_pos:
  assumes "elo_ok dev" "elo_dispatch cur base q d dev = Some (dev', r)"
  shows "el_pos dev' = el_pos dev"
proof -
  obtain bs ws where a: "cmd_acknowledge dev = Some (elo_said bs (dev\<lparr>el_cal_active := False, el_warn := ws\<rparr>), Silent)"
    using cmd_acknowledge_said [of dev] assms(1) by auto
  have "pos_kept dev (cmd_touch q dev)"
    using assms(1) by (cases q) (simp_all add: cmd_touch_said, simp add: cmd_touch_def)
  moreover have "pos_kept dev (do { dev \<leftarrow> elo_dump_config dev; Some (dev, Done) })"
    using assms(1) enqueue_all_pos [of dev "elo_config_packets dev"]
    by (cases "elo_dump_config dev") (simp_all add: elo_dump_config_def)
  ultimately have "pos_kept dev (elo_dispatch cur base q d dev)"
    unfolding elo_dispatch_def by (simp add: a pure_pos cmd_ident_def cmd_jumpers_def Let_def)
  then show ?thesis by (simp add: assms(2))
qed

lemma process_pos:
  assumes "elo_ok dev" "length body = 8" "elo_process_command cur body dev = Some dev'"
  shows "el_pos dev' = el_pos dev"
proof -
  obtain d r where d: "elo_dispatch cur (toupper (body ! 0)) (islower (body ! 0)) (drop 1 body) dev = Some (d, r)" "elo_ok d"
    using dispatch_ok [OF assms(1), of "drop 1 body"] assms(2) by fastforce
  then have "el_pos d = el_pos dev" using dispatch_pos [OF assms(1)] by blast
  then show ?thesis
    using assms(3) d by (cases r) (auto simp: elo_process_command_def Let_def elo_ack_def elo_enqueue_said split: if_splits)
qed

lemma take_ok:
  assumes "elo_ok dev" "el_pos dev = - 1" "length d = 7"
  shows "\<exists>dev'. elo_take cur (key, c, d) dev = Some dev' \<and> elo_ok dev' \<and> el_pos dev' = - 1"
proof -
  let ?d = "dev\<lparr>el_body := c # d, el_keyed := (key \<noteq> 0), el_inkey := (if key \<noteq> 0 then key else el_inkey dev)\<rparr>"
  have ok: "elo_ok ?d" using assms by (simp add: elo_ok_defs)
  then obtain dev' where "elo_process_command cur (c # d) ?d = Some dev'" "elo_ok dev'"
    using process_ok [OF ok, of "c # d"] assms(3) by auto
  moreover from this have "el_pos dev' = - 1" using process_pos [OF ok, of "c # d" cur dev'] assms(2,3) by simp
  ultimately show ?thesis using ok assms(2) by (cases "key = 0") (auto simp: elo_take_def Let_def)
qed

text \<open>A stream of packets with noise before each, and the packets one by one.\<close>

fun elo_stream :: "(u8 list \<times> u8 \<times> u8 \<times> u8 list) list \<Rightarrow> u8 list" where
  "elo_stream [] = []"
| "elo_stream ((noise, key, c, d) # ps) = noise @ elo_frame key c d @ elo_stream ps"

fun elo_take_all :: "u16 \<Rightarrow> (u8 \<times> u8 \<times> u8 list) list \<Rightarrow> elo \<Rightarrow> elo option" where
  "elo_take_all cur [] dev = Some dev"
| "elo_take_all cur (p # ps) dev = do { dev \<leftarrow> elo_take cur p dev; elo_take_all cur ps dev }"

lemma feed_stream:
  assumes "elo_ok dev" "el_pos dev = - 1" "list_all (\<lambda>(noise, key, c, d). elo_noise noise \<and> length d = 7) ps"
  shows "elo_feed cur (elo_stream ps) dev = elo_take_all cur (map snd ps) dev"
  using assms
proof (induction ps arbitrary: dev)
  case (Cons p ps)
  obtain noise key c d where p: "p = (noise, key, c, d)" by (cases p)
  with Cons.prems have n: "elo_noise noise" "length d = 7" by simp_all
  obtain dev' where t: "elo_take cur (key, c, d) dev = Some dev'" "elo_ok dev'" "el_pos dev' = - 1"
    using take_ok [OF Cons.prems(1,2) n(2)] by blast
  have "elo_feed cur (elo_stream (p # ps)) dev = elo_feed cur (elo_stream ps) dev'"
    using p n t(1) Cons.prems(1,2) by (simp add: feed_append feed_noise feed_frame)
  also have "\<dots> = elo_take_all cur (map snd ps) dev'" using Cons.IH [OF t(2,3)] Cons.prems(3) by simp
  finally show ?case using p t(1) by simp
qed simp

text \<open>
  C19. A byte stream is its packets: whatever bytes other than the two lead-ins come
  between them, an idle controller that reads well-formed packets, keyed or not, ends
  where it ends when each packet is taken whole, in order, as one command; a packet
  addressed to another key is passed over, and no packet is split, merged or lost.
\<close>

theorem bytes_are_packets:
  assumes "elo_ok dev" "el_pos dev = - 1" "list_all (\<lambda>(noise, key, c, d). elo_noise noise \<and> length d = 7) ps"
  shows "elo_feed cur (elo_stream ps) dev = elo_take_all cur (map snd ps) dev"
  by (rule feed_stream [OF assms])

theorem bytes_are_packets_witness:
  "elo_feed 0 (elo_stream [([0, 7], 0, 0x69, replicate 7 0)]) (elo_init 9600 None) =
     elo_take_all 0 [(0, 0x69, replicate 7 0)] (elo_init 9600 None)"
  using bytes_are_packets [of "elo_init 9600 None" "[([0, 7], 0, 0x69, replicate 7 0)]" 0]
  by (simp add: init_factory elo_noise_def)

section \<open>Packets out\<close>

text \<open>
  The host's reading of what it received: the lead-in byte says whether nine or ten bytes
  follow, and the last of them is the checksum.
\<close>

function host_packets :: "u8 list \<Rightarrow> (u8 \<times> u8 list) list option" where
  "host_packets bs =
     (case bs of [] \<Rightarrow> Some []
      | b # r \<Rightarrow>
         let n = (if b = 0x55 then 9 else 10) in
         if (b = 0x55 \<or> b = 0x16) \<and> n \<le> length r \<and> r ! (n - 1) = 0xAA + b + sum_list (take (n - 1) r)
         then map_option (Cons (r ! 0, take 7 (drop 1 r))) (host_packets (drop n r)) else None)"
  by pat_completeness auto
termination by (relation "measure length") (auto split: if_splits)

declare host_packets.simps [simp del]

lemma host_packets_frame:
  assumes "length d = 7"
  shows "host_packets (elo_frame key c d @ bs) = map_option (Cons (c, d)) (host_packets bs)"
proof (cases "key = 0")
  case True
  then show ?thesis using assms by (subst host_packets.simps) (simp add: frame_unkeyed nth_append)
next
  case False
  then show ?thesis
    using assms by (subst host_packets.simps) (simp add: frame_keyed nth_append)
qed

lemma host_packets_frames:
  "list_all (\<lambda>p. length (snd p) = 7) ps \<Longrightarrow>
     host_packets (concat (map (\<lambda>(c, d). elo_frame key c d) ps)) = Some ps"
proof (induction ps)
  case Nil
  then show ?case by (simp add: host_packets.simps)
qed (auto simp: host_packets_frame split: prod.split)

text \<open>What is queued for the host.\<close>

definition elo_out :: "elo \<Rightarrow> u8 list" where
  "elo_out dev = fifo8_items (el_resp dev)"

definition elo_frames :: "u8 \<Rightarrow> (u8 \<times> u8 list) list \<Rightarrow> u8 list" where
  "elo_frames key ps = concat (map (\<lambda>(c, d). elo_frame key c d) ps)"

lemma elo_frames_simps [simp]:
  "elo_frames key [] = []" "elo_frames key ((c, d) # ps) = elo_frame key c d @ elo_frames key ps"
  "elo_frames key (ps @ qs) = elo_frames key ps @ elo_frames key qs"
  by (simp_all add: elo_frames_def)

lemma frame_length: "length (elo_frame key c d) = length d + (if key = 0 then 3 else 4)"
  by (simp add: elo_frame_def Let_def)

lemma out_room: "elo_queue_ok dev \<Longrightarrow> fifo8_num_free (el_resp dev) = 512 - length (elo_out dev)"
  using fifo8_size [of "el_resp dev"] by (simp add: elo_queue_ok_def elo_out_def)

lemma out_said:
  "elo_queue_ok dev \<Longrightarrow> \<not> el_quiet dev \<Longrightarrow> length (elo_out dev) + length bs \<le> 512 \<Longrightarrow>
     elo_out (elo_said bs dev) = elo_out dev @ bs"
  using out_room [of dev] fifo8_fed_props(2) [of "el_resp dev" bs]
  by (auto simp: elo_out_def elo_said_def elo_queue_ok_def)

lemma enqueue_all_out:
  "elo_queue_ok dev \<Longrightarrow> \<not> el_quiet dev \<Longrightarrow> list_all (\<lambda>p. length (snd p) = 7) ps \<Longrightarrow>
     length (elo_out dev) + 11 * length ps \<le> 512 \<Longrightarrow>
     \<exists>dev'. elo_enqueue_all ps dev = Some dev' \<and> elo_out dev' = elo_out dev @ elo_frames (el_key dev) ps \<and>
       el_key dev' = el_key dev"
proof (induction ps dev rule: elo_enqueue_all.induct)
  case (2 c d ps dev)
  let ?d = "elo_said (elo_frame (el_key dev) c d) dev"
  have l: "length (elo_frame (el_key dev) c d) \<le> 11" using 2 by (simp add: frame_length)
  then have o: "elo_out ?d = elo_out dev @ elo_frame (el_key dev) c d" using 2 by (simp add: out_said)
  moreover have "elo_enqueue c d dev = Some ?d" using 2 by (simp add: elo_enqueue_said)
  moreover have "length (elo_out ?d) + 11 * length ps \<le> 512" using o l 2 by simp
  ultimately show ?case using "2.IH" [of ?d] 2 by (auto simp: elo_frames_def)
qed simp

lemma length_resp7 [simp]: "length bs \<le> 7 \<Longrightarrow> length (resp7 bs) = 7"
  by (simp add: resp7_def)

lemma config_packets_shape:
  assumes "elo_ok dev"
  shows "length (elo_config_packets dev) = unat ELO_CONFIG_PACKETS"
    and "list_all (\<lambda>p. length (snd p) = 7 \<and> fst p \<noteq> 0x41) (elo_config_packets dev)"
  using assms by (simp_all add: elo_config_packets_def ELO_CONFIG_PACKETS_def elo_ok_defs)

lemma ack_frame: "elo_ack e dev = elo_enqueue 0x41 (resp7 [e]) dev"
  by (simp add: elo_ack_def resp7_def numeral_eq_Suc)

text \<open>
  How a command leaves the queue before its Acknowledge: the packets it sent itself, and
  the kind of ending they go with.
\<close>

definition elo_answers :: "u8 list \<Rightarrow> bool \<Rightarrow> u8 \<Rightarrow> elo \<times> elo_reply \<Rightarrow> bool" where
  "elo_answers old q base p \<longleftrightarrow> (\<exists>ps. elo_out (fst p) = old @ elo_frames (el_key (fst p)) ps \<and>
     list_all (\<lambda>p. length (snd p) = 7 \<and> fst p \<noteq> 0x41) ps \<and>
     (case snd p of
        Answer resp \<Rightarrow> ps = [] \<and> length resp = 7 \<and> base \<noteq> 0x47
      | Done \<Rightarrow> q \<and> base = 0x47 \<and> length ps = 15
      | Refuse e \<Rightarrow> (if e = 0x30 then q \<and> base \<noteq> 0x47 \<and> length ps = 1 else e \<noteq> 0 \<and> ps = [])
      | Silent \<Rightarrow> False))"

lemma answers_pure:
  "el_resp dev' = el_resp dev \<Longrightarrow> length resp = 7 \<Longrightarrow> base \<noteq> 0x47 \<Longrightarrow> elo_answers (elo_out dev) q base (dev', Answer resp)"
  "el_resp dev' = el_resp dev \<Longrightarrow> e \<noteq> 0 \<Longrightarrow> e \<noteq> 0x30 \<Longrightarrow> elo_answers (elo_out dev) q base (dev', Refuse e)"
  by (simp_all add: elo_answers_def elo_out_def)

lemma apply_resp [simp]:
  "el_resp (elo_timer_apply dev) = el_resp dev" "el_resp (elo_process_mode_ascii s dev) = el_resp dev"
  "el_resp (elo_save_nvr_areas areas p dev) = el_resp dev" "el_resp (elo_load_nvr_areas areas p dev) = el_resp dev"
  by (simp_all add: elo_timer_apply_def elo_process_mode_ascii_def case_prod_beta elo_save_nvr_areas_def
    elo_load_nvr_areas_def Let_def)

lemma answers_report: "base \<noteq> 0x47 \<Longrightarrow> elo_answers (elo_out dev) q base (cmd_report q d dev)"
  by (simp add: cmd_report_def Let_def answers_pure)

lemma answers_emulate: "base \<noteq> 0x47 \<Longrightarrow> elo_answers (elo_out dev) q base (cmd_emulate q d dev)"
  by (simp add: cmd_emulate_def Let_def answers_pure)

lemma answers_calibrate: "base \<noteq> 0x47 \<Longrightarrow> elo_answers (elo_out dev) q base (cmd_calibrate q d dev)"
  by (simp add: cmd_calibrate_def Let_def answers_pure)

lemma answers_filter:
  assumes "elo_ok dev" "base \<noteq> 0x47"
  shows "elo_answers (elo_out dev) q base (cmd_filter q d dev)"
  using assms by (simp add: cmd_filter_def Let_def answers_pure elo_ok_defs)

lemma answers_timer: "base \<noteq> 0x47 \<Longrightarrow> elo_answers (elo_out dev) q base (cmd_timer cur q d dev)"
  by (simp add: cmd_timer_def Let_def answers_pure)

lemma answers_mode: "base \<noteq> 0x47 \<Longrightarrow> elo_answers (elo_out dev) q base (cmd_mode q d dev)"
  by (simp add: cmd_mode_def Let_def answers_pure)

lemma answers_nvram: "base \<noteq> 0x47 \<Longrightarrow> elo_answers (elo_out dev) q base (cmd_nvram q d dev)"
  by (simp add: cmd_nvram_def Let_def answers_pure)

lemma answers_parameter: "base \<noteq> 0x47 \<Longrightarrow> elo_answers (elo_out dev) q base (cmd_parameter q d dev)"
  by (simp add: cmd_parameter_def Let_def answers_pure)

lemma answers_quiet: "base \<noteq> 0x47 \<Longrightarrow> elo_answers (elo_out dev) q base (cmd_quiet q d dev)"
  by (simp add: cmd_quiet_def Let_def answers_pure)

lemma answers_scaling: "base \<noteq> 0x47 \<Longrightarrow> elo_answers (elo_out dev) q base (cmd_scaling q d dev)"
  by (simp add: cmd_scaling_def Let_def answers_pure)

lemma answers_reset:
  assumes "elo_ok dev" "d ! 0 AND 1 \<noteq> 0" "base \<noteq> 0x47"
  shows "elo_answers [] q base (cmd_reset d dev)"
  using assms fifo8_reset_queue [of "el_resp dev"]
  by (simp add: cmd_reset_def elo_soft_reset_def elo_answers_def elo_out_def elo_ok_defs)

lemma answers_touch:
  assumes "elo_ok dev" "\<not> el_quiet dev" "el_fmt dev = 4" "length (elo_out dev) \<le> 336" "base \<noteq> 0x47"
  shows "\<exists>p. cmd_touch q dev = Some p \<and> elo_answers (elo_out dev) q base p"
proof (cases q)
  case True
  have "\<exists>ds. touch_bytes st x y z dev = elo_frame (el_key dev) 0x54 ds \<and> length ds = 7" for st x y z
    using assms(3) by (auto simp: touch_bytes_def Let_def)
  then obtain ds r where t: "cmd_touch True dev = Some (elo_said (elo_frame (el_key dev) 0x54 ds) dev, Refuse 0x30)" "length ds = 7"
    using cmd_touch_said [OF assms(1)] by metis
  then show ?thesis
    using True assms by (auto simp: elo_answers_def out_said frame_length intro!: exI [of _ "[(0x54, ds)]"])
qed (simp add: cmd_touch_def answers_pure)

lemma answers_dump:
  assumes "elo_ok dev" "\<not> el_quiet dev" "length (elo_out dev) \<le> 336"
  shows "\<exists>dev'. elo_dump_config dev = Some dev' \<and> elo_answers (elo_out dev) True 0x47 (dev', Done)"
proof -
  have len: "length (elo_config_packets dev) = 15"
    using config_packets_shape(1) [OF assms(1)] by (simp add: ELO_CONFIG_PACKETS_def)
  moreover have "list_all (\<lambda>p. length (snd p) = 7) (elo_config_packets dev)"
    using config_packets_shape(2) [OF assms(1)] by (auto simp: list_all_iff)
  ultimately obtain dev' where "elo_enqueue_all (elo_config_packets dev) dev = Some dev'"
      "elo_out dev' = elo_out dev @ elo_frames (el_key dev) (elo_config_packets dev)" "el_key dev' = el_key dev"
    using enqueue_all_out [of dev "elo_config_packets dev"] assms by auto
  then show ?thesis
    using len config_packets_shape(2) [OF assms(1)] by (auto simp: elo_dump_config_def elo_answers_def)
qed

lemma dispatch_answers:
  assumes "elo_ok dev" "length d = 7" "\<not> el_quiet dev" "el_fmt dev = 4" "length (elo_out dev) \<le> 336"
    and "base \<noteq> 0x41" "base = 0x52 \<Longrightarrow> d ! 0 AND 1 \<noteq> 0"
    and "elo_dispatch cur base q d dev = Some p"
  shows "elo_answers (if base = 0x52 then [] else elo_out dev) q base p"
proof -
  note pure = answers_report answers_emulate answers_calibrate answers_timer answers_mode answers_nvram
    answers_parameter answers_quiet answers_scaling answers_filter [OF assms(1)] answers_reset [OF assms(1) assms(7)]
  obtain t where t: "cmd_touch q dev = Some t" "elo_answers (elo_out dev) q 0x54 t"
    using answers_touch [where base = "0x54" and q = q, OF assms(1,3,4,5)] by auto
  obtain g where g: "elo_dump_config dev = Some g" "elo_answers (elo_out dev) True 0x47 (g, Done)"
    using answers_dump [OF assms(1,3,5)] by blast
  have ser: "length (el_owner dev) = 7" using assms(1) by (simp add: elo_ok_defs)
  show ?thesis
    using assms(2,6,8) t g ser unfolding elo_dispatch_def
    by (auto simp: Let_def cmd_ident_def cmd_jumpers_def answers_pure pure split: if_splits)
qed

lemma command_answered:
  assumes "elo_ok dev" "length d = 7" "\<not> el_quiet dev" "el_fmt dev = 4" "length (elo_out dev) \<le> 336"
    and "toupper c \<noteq> 0x41" "toupper c = 0x52 \<longrightarrow> d ! 0 AND 1 \<noteq> 0"
    and "elo_process_command cur (c # d) dev = Some dev'" "\<not> el_quiet dev'"
  shows "\<exists>new ps e. elo_out dev' = (if toupper c = 0x52 then [] else elo_out dev) @ new \<and>
    host_packets new = Some (ps @ [(0x41, resp7 [e])]) \<and> (\<forall>p \<in> set ps. fst p \<noteq> 0x41) \<and>
    length ps = (if islower c \<and> (e = 0 \<or> e = 0x30) then if toupper c = 0x47 then unat ELO_CONFIG_PACKETS else 1 else 0)"
proof -
  let ?old = "if toupper c = 0x52 then [] else elo_out dev"
  obtain d1 r where d1: "elo_dispatch cur (toupper c) (islower c) d dev = Some (d1, r)" "elo_ok d1"
    using dispatch_ok [OF assms(1,2)] by blast
  have a: "elo_answers ?old (islower c) (toupper c) (d1, r)"
    using dispatch_answers [OF assms(1-6) _ d1(1)] assms(7) by blast
  then obtain ps where ps: "elo_out d1 = ?old @ elo_frames (el_key d1) ps"
      "list_all (\<lambda>p. length (snd p) = 7 \<and> fst p \<noteq> 0x41) ps"
      "case r of Answer resp \<Rightarrow> ps = [] \<and> length resp = 7 \<and> toupper c \<noteq> 0x47
        | Done \<Rightarrow> islower c \<and> toupper c = 0x47 \<and> length ps = 15
        | Refuse e \<Rightarrow> (if e = 0x30 then islower c \<and> toupper c \<noteq> 0x47 \<and> length ps = 1 else e \<noteq> 0 \<and> ps = [])
        | Silent \<Rightarrow> False"
    by (auto simp: elo_answers_def)
  define e where "e = (case r of Refuse e \<Rightarrow> e | _ \<Rightarrow> 0)"
  define qs where "qs = (case r of Answer resp \<Rightarrow> if islower c then [(toupper c, resp)] else [] | _ \<Rightarrow> [])"
  have fr: "length (elo_frames k xs) \<le> 11 * length xs" if "list_all (\<lambda>p. length (snd p) = 7) xs" for k xs
    using that by (induction xs) (auto simp: frame_length)
  have ps7: "list_all (\<lambda>p. length (snd p) = 7) ps" using ps(2) by (auto simp: list_all_iff)
  have len: "length (elo_out d1) + 11 * length (qs @ [(0x41, resp7 [e])]) \<le> 512" "r \<noteq> Silent"
    using fr [OF ps7, of "el_key d1"] ps(1,3) assms(5) by (auto simp: qs_def split: elo_reply.splits if_splits)
  have quiet: "el_quiet d1 = el_quiet dev'"
    using assms(8) d1 len(2) by (cases r) (auto simp: elo_process_command_def ack_frame elo_enqueue_said split: if_splits)
  have "elo_enqueue_all (qs @ [(0x41, resp7 [e])]) d1 = Some dev'"
    using assms(8) d1 ps(3)
    by (cases r) (auto simp: elo_process_command_def ack_frame elo_enqueue_said qs_def e_def split: if_splits)
  moreover have "list_all (\<lambda>p. length (snd p) = 7) (qs @ [(0x41, resp7 [e])])"
    using ps(3) by (auto simp: qs_def split: elo_reply.splits)
  ultimately have out: "elo_out dev' = elo_out d1 @ elo_frames (el_key d1) (qs @ [(0x41, resp7 [e])])"
    using enqueue_all_out [of d1 "qs @ [(0x41, resp7 [e])]"] d1(2) quiet assms(9) len(1) by auto
  show ?thesis
  proof (intro exI conjI)
    show "elo_out dev' = ?old @ elo_frames (el_key d1) (ps @ qs @ [(0x41, resp7 [e])])"
      using out ps(1) by simp
    show "host_packets (elo_frames (el_key d1) (ps @ qs @ [(0x41, resp7 [e])])) = Some ((ps @ qs) @ [(0x41, resp7 [e])])"
      using host_packets_frames [of "ps @ qs @ [(0x41, resp7 [e])]"] ps7 ps(3)
      by (auto simp: elo_frames_def qs_def split: elo_reply.splits)
    show "\<forall>p \<in> set (ps @ qs). fst p \<noteq> 0x41"
      using ps(2) assms(6) by (auto simp: qs_def list_all_iff split: elo_reply.splits)
    show "length (ps @ qs) = (if islower c \<and> (e = 0 \<or> e = 0x30)
        then if toupper c = 0x47 then unat ELO_CONFIG_PACKETS else 1 else 0)"
      using ps(3) by (auto simp: qs_def e_def ELO_CONFIG_PACKETS_def split: elo_reply.splits if_splits)
  qed
qed

text \<open>
  C20. Every command is answered by exactly one Acknowledge, and it comes last: in the
  native touch format, with room in the queue and output not quieted, what a command
  other than Acknowledge itself and a hard reset queues reads back, by lead-in byte and
  checksum, as whole packets of which only the last is an Acknowledge. An accepted query
  puts one packet before it, the configuration query the fifteen that the ID packet
  promises, a set or a refusal none; and a soft reset empties the queue first.
\<close>

theorem command_acknowledged:
  assumes "elo_ok dev" "length d = 7" "\<not> el_quiet dev" "el_fmt dev = 4" "length (elo_out dev) \<le> 336"
    and "toupper c \<noteq> 0x41" "toupper c = 0x52 \<longrightarrow> d ! 0 AND 1 \<noteq> 0"
  shows "\<exists>dev'. elo_process_command cur (c # d) dev = Some dev' \<and> (\<not> el_quiet dev' \<longrightarrow>
    (\<exists>new ps e. elo_out dev' = (if toupper c = 0x52 then [] else elo_out dev) @ new \<and>
      host_packets new = Some (ps @ [(0x41, resp7 [e])]) \<and> (\<forall>p \<in> set ps. fst p \<noteq> 0x41) \<and>
      length ps = (if islower c \<and> (e = 0 \<or> e = 0x30) then if toupper c = 0x47 then unat ELO_CONFIG_PACKETS else 1 else 0)))"
proof -
  obtain dev' where "elo_process_command cur (c # d) dev = Some dev'"
    using process_ok [OF assms(1), of "c # d" cur] assms(2) by auto
  then show ?thesis using command_answered [OF assms] by blast
qed

text \<open>The factory controller asked for its identity.\<close>

theorem command_acknowledged_witness:
  "\<exists>dev' ps e. elo_process_command 0 (0x69 # replicate 7 0) (elo_init 9600 None) = Some dev' \<and>
    host_packets (elo_out dev') = Some (ps @ [(0x41, resp7 [e])]) \<and> length ps \<le> 1"
proof -
  let ?d = "elo_init 9600 None"
  have ok: "elo_ok ?d" by (rule init_factory)
  have f: "\<not> el_quiet ?d" "el_fmt ?d = 4" "elo_out ?d = []" by (simp_all add: init_factory elo_out_def)
  have c: "toupper 0x69 = (0x49 :: u8)" "islower (0x69 :: u8)" by (simp_all add: toupper_def islower_def)
  obtain dev' where p: "elo_process_command 0 (0x69 # replicate 7 0) ?d = Some dev'"
    and h: "\<not> el_quiet dev' \<longrightarrow> (\<exists>new ps e. elo_out dev' = new \<and> host_packets new = Some (ps @ [(0x41, resp7 [e])]) \<and> length ps \<le> 1)"
    using command_acknowledged [where d = "replicate 7 0" and c = "0x69" and cur = "0", OF ok] f c
    by (fastforce split: if_splits)
  moreover have "\<not> el_quiet dev'"
    using p ok f(1) by (auto simp: elo_process_command_def c elo_dispatch_def cmd_ident_def Let_def ack_frame elo_enqueue_said)
  ultimately show ?thesis by blast
qed

end
