(* ===== verification/Elo_Config.thy ===== *)
theory Elo_Config
  imports Elo_Wire
begin

text \<open>
  What the configuration commands of the Elo controller are for: a dump that restores
  the controller it is replayed to, and a file that keeps what was saved.
\<close>

section \<open>Setting commands\<close>

text \<open>A set command as a function on the settings.\<close>

definition sets_cfg :: "u8 \<times> u8 list \<Rightarrow> (elo_cfg \<Rightarrow> elo_cfg) \<Rightarrow> bool" where
  "sets_cfg p g \<longleftrightarrow> \<not> islower (fst p) \<and> length (snd p) = 7 \<and>
     (\<forall>cur dev. \<exists>dev' resp. elo_dispatch cur (fst p) False (snd p) dev = Some (dev', Answer resp) \<and>
        elo_cfg.truncate dev' = g (elo_cfg.truncate dev))"

lemma sets_take:
  assumes "sets_cfg p g" "elo_ok dev" "el_pos dev = - 1" "key = 0 \<or> key = el_key dev"
  shows "\<exists>dev'. elo_take cur (key, p) dev = Some dev' \<and> elo_ok dev' \<and> el_pos dev' = - 1 \<and>
    elo_cfg.truncate dev' = g (elo_cfg.truncate dev)"
proof -
  obtain c d where p: "p = (c, d)" by (cases p)
  have c: "\<not> islower c" "toupper c = c" "length d = 7" using assms(1) p by (simp_all add: sets_cfg_def toupper_def)
  let ?d = "dev\<lparr>el_body := c # d, el_keyed := (key \<noteq> 0), el_inkey := (if key \<noteq> 0 then key else el_inkey dev)\<rparr>"
  have ok: "elo_ok ?d" using assms(2,3) c(3) by (simp add: elo_ok_defs)
  obtain d1 resp where d1: "elo_dispatch cur c False d ?d = Some (d1, Answer resp)"
      "elo_cfg.truncate d1 = g (elo_cfg.truncate ?d)"
    using assms(1) p unfolding sets_cfg_def by (metis fst_conv snd_conv)
  then have "elo_ok d1" using dispatch_ok [OF ok c(3), of cur c False] by auto
  then have "elo_take cur (key, c, d) dev = Some (elo_said (elo_frame (el_key d1) 0x41 (resp7 [0])) d1)"
    using assms(4) c d1(1) by (auto simp: elo_take_def elo_process_command_def Let_def ack_frame elo_enqueue_said)
  moreover have "el_pos d1 = - 1" using dispatch_pos [OF ok d1(1)] assms(3) by simp
  moreover have "elo_cfg.truncate ?d = elo_cfg.truncate dev" by (simp add: elo_cfg.defs)
  ultimately show ?thesis using d1(2) \<open>elo_ok d1\<close> p by simp
qed

lemma truncate_key: "el_key (elo_cfg.truncate dev) = el_key dev"
  by (simp add: elo_cfg.defs)

lemma sets_take_all:
  "list_all (\<lambda>(p, g). sets_cfg p g \<and> (\<forall>c. el_key c = key \<longrightarrow> el_key (g c) = key)) pgs \<Longrightarrow>
     elo_ok dev \<Longrightarrow> el_pos dev = - 1 \<Longrightarrow> key = 0 \<or> key = el_key dev \<Longrightarrow>
     \<exists>dev'. elo_take_all cur (map (Pair key \<circ> fst) pgs) dev = Some dev' \<and> elo_ok dev' \<and>
       elo_cfg.truncate dev' = foldl (\<lambda>c pg. snd pg c) (elo_cfg.truncate dev) pgs"
proof (induction pgs arbitrary: dev)
  case (Cons pg pgs)
  obtain p g where pg: "pg = (p, g)" by (cases pg)
  then have s: "sets_cfg p g" "\<forall>c. el_key c = key \<longrightarrow> el_key (g c) = key" using Cons.prems(1) by simp_all
  obtain d where d: "elo_take cur (key, p) dev = Some d" "elo_ok d" "el_pos d = - 1"
      "elo_cfg.truncate d = g (elo_cfg.truncate dev)"
    using sets_take [OF s(1) Cons.prems(2-4)] by blast
  then have "key = 0 \<or> key = el_key d"
    using s(2) Cons.prems(4) truncate_key [of d] truncate_key [of dev] by metis
  then show ?case using Cons.IH [of d] d pg Cons.prems(1) by simp
qed simp

section \<open>Bytes of the settings\<close>

lemma ucast_halves:
  fixes t :: u16
  shows "ucast (ucast t :: u8) OR push_bit 8 (ucast (ucast (drop_bit 8 t) :: u8)) = t"
  by (rule bit_word_eqI) (auto simp: bit_simps)

lemma and_mask_small:
  fixes a :: u8
  shows "a \<le> 1 \<Longrightarrow> a AND 1 = a" "a \<le> 7 \<Longrightarrow> a AND 7 = a" "a \<le> 15 \<Longrightarrow> a AND 15 = a"
proof -
  note m = less_mask_eq [of a]
  show "a AND 1 = a" if "a \<le> 1" using m [of 1] that by (simp add: word_le_nat_alt word_less_nat_alt mask_numeral)
  show "a AND 7 = a" if "a \<le> 7" using m [of 3] that by (simp add: word_le_nat_alt word_less_nat_alt mask_numeral)
  show "a AND 15 = a" if "a \<le> 15" using m [of 4] that by (simp add: word_le_nat_alt word_less_nat_alt mask_numeral)
qed

section \<open>The commands of a dump\<close>

lemma not_lower [simp]:
  "\<not> islower 0x4D" "\<not> islower 0x42" "\<not> islower 0x43" "\<not> islower 0x53" "\<not> islower 0x46" "\<not> islower 0x48"
  "\<not> islower 0x45" "\<not> islower 0x4C" "\<not> islower 0x4B" "\<not> islower 0x4F" "\<not> islower 0x50"
  by (simp_all add: islower_def)

lemma resp7_nth: "i < length bs \<Longrightarrow> resp7 bs ! i = bs ! i"
  by (simp add: resp7_def nth_append)

lemmas sets_defs = sets_cfg_def elo_dispatch_def resp7_nth Let_def elo_cfg.defs

lemma sets_mode: "sets_cfg (0x4D, resp7 [0, m1, m2]) (\<lambda>c. c\<lparr>el_mode1 := m1 OR ELO_M1_ZRESERVED, el_mode2 := m2\<rparr>)"
  by (simp add: sets_defs cmd_mode_def)

lemma sets_report: "sets_cfg (0x42, resp7 [u, r]) (\<lambda>c. c\<lparr>el_udelay := u AND 0x0f, el_rdelay := r\<rparr>)"
  by (simp add: sets_defs cmd_report_def)

lemma sets_cal:
  assumes "a < 2"
  shows "sets_cfg (0x43, resp7 [if a = 0 then 0x58 else 0x59, l0, l1, h0, h1])
    (\<lambda>c. c\<lparr>el_cal_lo := (el_cal_lo c)[a := le16 l0 l1], el_cal_hi := (el_cal_hi c)[a := le16 h0 h1]\<rparr>)"
proof -
  have "a = 0 \<or> a = 1" using assms by auto
  then show ?thesis by (auto simp: sets_defs cmd_calibrate_def)
qed

lemma sets_swap: "sets_cfg (0x43, resp7 [0x53, b]) (\<lambda>c. c\<lparr>el_swap := (b AND 1 \<noteq> 0)\<rparr>)"
  by (simp add: sets_defs cmd_calibrate_def)

lemma sets_scale:
  assumes "a < 2"
  shows "sets_cfg (0x53, resp7 [if a = 0 then 0x58 else 0x59, l0, l1, h0, h1])
    (\<lambda>c. c\<lparr>el_sc_lo := (el_sc_lo c)[a := i16 (le16 l0 l1)], el_sc_hi := (el_sc_hi c)[a := i16 (le16 h0 h1)]\<rparr>)"
proof -
  have "a = 0 \<or> a = 1" using assms by auto
  then show ?thesis by (auto simp: sets_defs cmd_scaling_def)
qed

lemma sets_invert: "sets_cfg (0x53, resp7 [0x49, b]) (\<lambda>c. c\<lparr>el_inv := b AND 7\<rparr>)"
  by (simp add: sets_defs cmd_scaling_def)

lemma sets_filter: "sets_cfg (0x46, resp7 [0x30, a, b, c, d]) (\<lambda>k. k\<lparr>el_filter := [a, b, c, d]\<rparr>)"
  by (simp add: sets_defs cmd_filter_def)

lemma sets_timer:
  "sets_cfg (0x48, resp7 [e, m, l, h])
    (\<lambda>c. c\<lparr>el_ten := e AND 1, el_tmode := m AND 1, el_tint := ucast l OR push_bit 8 (ucast h)\<rparr>)"
  by (simp add: sets_defs cmd_timer_def elo_timer_apply_def)

lemma sets_emulate:
  assumes "f \<le> 7"
  shows "sets_cfg (0x45, resp7 [if t then 0x31 else 0x30, 0x30 + f])
    (\<lambda>c. if f = 2 \<or> f = 3 then c\<lparr>el_tflag := t, el_fmt := f, el_sc_lo := [2, 2], el_sc_hi := [255, 255],
            el_mode2 := el_mode2 c OR ELO_M2_SCALE\<rparr> else c\<lparr>el_tflag := t, el_fmt := f\<rparr>)"
proof -
  have "0x30 \<le> 0x30 + f" "0x30 + f \<le> 0x37"
    using assms by (simp_all add: word_le_nat_alt unat_word_ariths)
  then show ?thesis using assms by (auto simp: sets_defs cmd_emulate_def)
qed

lemma sets_low: "sets_cfg (0x4C, resp7 [b]) (\<lambda>c. c\<lparr>el_low := b AND 1\<rparr>)"
  by (simp add: sets_defs)

lemma sets_key: "sets_cfg (0x4B, resp7 [b]) (\<lambda>c. c\<lparr>el_key := b\<rparr>)"
  by (simp add: sets_defs)

lemma sets_owner: "length d = 7 \<Longrightarrow> sets_cfg (0x4F, d) (\<lambda>c. c\<lparr>el_owner := d\<rparr>)"
  by (simp add: sets_defs)

lemma sets_parameter: "sets_cfg (0x50, resp7 [0x30, a, b]) (\<lambda>c. c\<lparr>el_ser1 := a, el_ser2 := b\<rparr>)"
  by (simp add: sets_defs cmd_parameter_def)

section \<open>The dump restores\<close>

text \<open>
  The settings the packets can carry: calibration points that are not negative, scaling
  ends of sixteen signed bits, and the scaling that goes with an E261-280 format.
\<close>

definition elo_dumpable :: "'a elo_cfg_scheme \<Rightarrow> bool" where
  "elo_dumpable c \<longleftrightarrow> list_all (\<lambda>v. 0 \<le> v) (el_cal_lo c @ el_cal_hi c) \<and>
     list_all (\<lambda>v. - 32768 \<le> v \<and> v < 32768) (el_sc_lo c @ el_sc_hi c) \<and>
     (el_fmt c = 2 \<or> el_fmt c = 3 \<longrightarrow> el_sc_lo c = [2, 2] \<and> el_sc_hi c = [255, 255] \<and> bit (el_mode2 c) 3)"

definition dump_sets :: "elo \<Rightarrow> (elo_cfg \<Rightarrow> elo_cfg) list" where
  "dump_sets s =
     [\<lambda>c. c\<lparr>el_mode1 := el_mode1 s OR ELO_M1_ZRESERVED, el_mode2 := el_mode2 s\<rparr>,
      \<lambda>c. c\<lparr>el_udelay := el_udelay s AND 0x0f, el_rdelay := el_rdelay s\<rparr>] @
     map (\<lambda>a c. c\<lparr>el_cal_lo := (el_cal_lo c)[a := le16 (byte_at 0 (el_cal_lo s ! a)) (byte_at 1 (el_cal_lo s ! a))],
        el_cal_hi := (el_cal_hi c)[a := le16 (byte_at 0 (el_cal_hi s ! a)) (byte_at 1 (el_cal_hi s ! a))]\<rparr>) [0, 1] @
     [\<lambda>c. c\<lparr>el_swap := ((of_bool (el_swap s) :: u8) AND 1 \<noteq> 0)\<rparr>] @
     map (\<lambda>a c. c\<lparr>el_sc_lo := (el_sc_lo c)[a := i16 (le16 (byte_at 0 (el_sc_lo s ! a)) (byte_at 1 (el_sc_lo s ! a)))],
        el_sc_hi := (el_sc_hi c)[a := i16 (le16 (byte_at 0 (el_sc_hi s ! a)) (byte_at 1 (el_sc_hi s ! a)))]\<rparr>) [0, 1] @
     [\<lambda>c. c\<lparr>el_inv := el_inv s AND 7\<rparr>, \<lambda>c. c\<lparr>el_filter := el_filter s\<rparr>,
      \<lambda>c. c\<lparr>el_ten := el_ten s AND 1, el_tmode := el_tmode s AND 1,
        el_tint := ucast (ucast (el_tint s) :: u8) OR push_bit 8 (ucast (ucast (drop_bit 8 (el_tint s)) :: u8))\<rparr>,
      \<lambda>c. if el_fmt s = 2 \<or> el_fmt s = 3 then c\<lparr>el_tflag := el_tflag s, el_fmt := el_fmt s, el_sc_lo := [2, 2],
          el_sc_hi := [255, 255], el_mode2 := el_mode2 c OR ELO_M2_SCALE\<rparr>
        else c\<lparr>el_tflag := el_tflag s, el_fmt := el_fmt s\<rparr>,
      \<lambda>c. c\<lparr>el_low := el_low s AND 1\<rparr>, \<lambda>c. c\<lparr>el_key := el_key s\<rparr>, \<lambda>c. c\<lparr>el_owner := el_owner s\<rparr>,
      \<lambda>c. c\<lparr>el_ser1 := el_ser1 s, el_ser2 := el_ser2 s\<rparr>]"

lemma dump_sets_cfg:
  assumes "elo_ok s"
  shows "list_all2 sets_cfg (elo_config_packets s) (dump_sets s)"
proof -
  obtain a b c d where f: "el_filter s = [a, b, c, d]"
    using assms by (auto simp: elo_ok_defs numeral_eq_Suc length_Suc_conv)
  have s: "el_fmt s \<le> 7" "length (el_owner s) = 7" using assms by (simp_all add: elo_ok_defs)
  show ?thesis
    unfolding elo_config_packets_def dump_sets_def f
    using sets_cal [of 0] sets_cal [of 1] sets_scale [of 0] sets_scale [of 1]
    by (simp add: sets_mode sets_report sets_swap sets_invert sets_filter sets_timer sets_emulate [OF s(1)]
      sets_low sets_key sets_owner [OF s(2)] sets_parameter)
qed

lemma two_axes: "length (vs :: int list) = 2 \<Longrightarrow> vs = [vs ! 0, vs ! 1]"
  by (auto simp: numeral_2_eq_2 length_Suc_conv)

lemma update_axes: "length vs = 2 \<Longrightarrow> vs[0 := a, Suc 0 := b] = [a, b :: int]"
  by (auto simp: numeral_2_eq_2 length_Suc_conv)

lemma or_bit_self:
  fixes a :: u8
  shows "bit a 7 \<Longrightarrow> a OR 0x80 = a" "bit a 3 \<Longrightarrow> a OR 8 = a"
proof -
  show "a OR 0x80 = a" if "bit a 7" by (rule byte_eqI) (simp_all add: bit_simps that)
  show "a OR 8 = a" if "bit a 3" by (rule byte_eqI) (simp_all add: bit_simps that)
qed

lemma dump_sets_restore:
  assumes "elo_ok s" "elo_dumpable s" "elo_ok t"
  shows "foldl (\<lambda>c g. g c) (elo_cfg.truncate t) (dump_sets s) = elo_cfg.truncate s"
proof -
  have c: "cal_axes (el_cal_lo s)" "cal_axes (el_cal_hi s)" "cal_axes (el_sc_lo s)" "cal_axes (el_sc_hi s)"
    using assms(1) by (simp_all add: elo_ok_defs)
  have nn: "list_all P vs \<Longrightarrow> cal_axes vs \<Longrightarrow> a < 2 \<Longrightarrow> P (vs ! a) \<and> cal_range (vs ! a)" for P :: "int \<Rightarrow> bool" and vs a
    by (simp add: cal_axes_def list_all_length)
  have cal: "le16 (byte_at 0 (el_cal_lo s ! a)) (byte_at (Suc 0) (el_cal_lo s ! a)) = el_cal_lo s ! a"
      "le16 (byte_at 0 (el_cal_hi s ! a)) (byte_at (Suc 0) (el_cal_hi s ! a)) = el_cal_hi s ! a" if "a < 2" for a
    using assms(2) nn [OF _ c(1) that, of "\<lambda>v. 0 \<le> v"] nn [OF _ c(2) that, of "\<lambda>v. 0 \<le> v"]
    by (simp_all add: le16_byte_at elo_dumpable_def cal_range_def)
  have sc: "i16 (le16 (byte_at 0 (el_sc_lo s ! a)) (byte_at (Suc 0) (el_sc_lo s ! a))) = el_sc_lo s ! a"
      "i16 (le16 (byte_at 0 (el_sc_hi s ! a)) (byte_at (Suc 0) (el_sc_hi s ! a))) = el_sc_hi s ! a" if "a < 2" for a
    using assms(2) nn [OF _ c(3) that, of "\<lambda>v. - 32768 \<le> v \<and> v < 32768"]
      nn [OF _ c(4) that, of "\<lambda>v. - 32768 \<le> v \<and> v < 32768"]
    by (simp_all add: i16_byte_at elo_dumpable_def)
  have len: "length (el_cal_lo t) = 2" "length (el_cal_hi t) = 2" "length (el_sc_lo t) = 2" "length (el_sc_hi t) = 2"
    "length (el_cal_lo s) = 2" "length (el_cal_hi s) = 2" "length (el_sc_lo s) = 2" "length (el_sc_hi s) = 2"
    using assms(1,3) by (simp_all add: elo_ok_defs cal_axes_def)
  have axes: "[el_cal_lo s ! 0, el_cal_lo s ! Suc 0] = el_cal_lo s" "[el_cal_hi s ! 0, el_cal_hi s ! Suc 0] = el_cal_hi s"
    "[el_sc_lo s ! 0, el_sc_lo s ! Suc 0] = el_sc_lo s" "[el_sc_hi s ! 0, el_sc_hi s ! Suc 0] = el_sc_hi s"
    using two_axes len by simp_all
  have m: "el_mode1 s OR 0x80 = el_mode1 s" "el_udelay s AND 15 = el_udelay s" "el_inv s AND 7 = el_inv s"
    "el_ten s AND 1 = el_ten s" "el_tmode s AND 1 = el_tmode s" "el_low s AND 1 = el_low s"
    using assms(1) by (simp_all add: elo_ok_defs or_bit_self and_mask_small)
  have em: "el_fmt s = 2 \<or> el_fmt s = 3 \<Longrightarrow>
      el_sc_lo s = [2, 2] \<and> el_sc_hi s = [255, 255] \<and> el_mode2 s OR 8 = el_mode2 s"
    using assms(2) by (auto simp: elo_dumpable_def or_bit_self)
  show ?thesis
    by (rule elo_cfg.equality)
      (use em in \<open>auto simp: dump_sets_def cal sc len axes m ucast_halves update_axes elo_cfg.defs\<close>)
qed

text \<open>
  C21. A configuration dump restores the controller: the bytes that the configuration
  query queues, sent back unchanged to any controller of the family between packets,
  leave it with every setting of the one that was dumped, whatever it was set to before
  and whether or not the packets are keyed; for settings the packets can carry.
\<close>

theorem dump_restores:
  assumes "elo_ok s" "elo_dumpable s" "\<not> el_quiet s" "length (elo_out s) \<le> 336"
    and "elo_ok t" "el_pos t = - 1" "el_key s = 0 \<or> el_key s = el_key t"
  shows "\<exists>s' bs t'. elo_dump_config s = Some s' \<and> elo_out s' = elo_out s @ bs \<and> elo_feed cur bs t = Some t' \<and>
    elo_cfg.truncate t' = elo_cfg.truncate s"
proof -
  obtain s' where dump: "elo_dump_config s = Some s'"
    using answers_dump [OF assms(1,3,4)] by blast
  let ?ps = "elo_config_packets s" and ?k = "el_key s"
  have seven: "list_all (\<lambda>p. length (snd p) = 7) ?ps" "length ?ps = 15"
    using config_packets_shape [OF assms(1)] by (auto simp: list_all_iff ELO_CONFIG_PACKETS_def)
  then have out: "elo_out s' = elo_out s @ elo_frames ?k ?ps"
    using enqueue_all_out [of s ?ps] assms(1,3,4) dump by (auto simp: elo_dump_config_def)
  have frames: "elo_frames ?k qs = elo_stream (map (\<lambda>p. ([], ?k, p)) qs)" for qs
    by (induction qs) (auto simp: elo_frames_def)
  have "elo_feed cur (elo_frames ?k ?ps) t = elo_take_all cur (map (Pair ?k) ?ps) t"
    using feed_stream [of t "map (\<lambda>p. ([], ?k, p)) ?ps" cur] assms(5,6) seven
    by (simp add: frames elo_noise_def list_all_iff case_prod_beta comp_def)
  moreover have z: "list_all2 sets_cfg ?ps (dump_sets s)" by (rule dump_sets_cfg [OF assms(1)])
  moreover have "\<forall>g \<in> set (dump_sets s). \<forall>c. el_key c = ?k \<longrightarrow> el_key (g c) = ?k"
    by (simp add: dump_sets_def)
  ultimately have "list_all (\<lambda>(p, g). sets_cfg p g \<and> (\<forall>c. el_key c = ?k \<longrightarrow> el_key (g c) = ?k)) (zip ?ps (dump_sets s))"
    by (auto simp: list_all2_iff list_all_iff dest: set_zip_rightD)
  then obtain t' where "elo_take_all cur (map (Pair ?k \<circ> fst) (zip ?ps (dump_sets s))) t = Some t'"
      "elo_cfg.truncate t' = foldl (\<lambda>c pg. snd pg c) (elo_cfg.truncate t) (zip ?ps (dump_sets s))"
    using sets_take_all [OF _ assms(5,6,7)] by blast
  moreover have "map (Pair ?k \<circ> fst) (zip ?ps (dump_sets s)) = map (Pair ?k) ?ps"
    using z by (simp add: list_all2_lengthD flip: map_map)
  moreover have "foldl (\<lambda>c pg. snd pg c) x (zip ps gs) = foldl (\<lambda>c g. g c) x gs" if "length ps = length gs"
    for x and ps :: "(u8 \<times> u8 list) list" and gs :: "(elo_cfg \<Rightarrow> elo_cfg) list"
    using that by (induction ps gs arbitrary: x rule: list_induct2) simp_all
  moreover have "length ?ps = length (dump_sets s)" using z by (rule list_all2_lengthD)
  ultimately show ?thesis
    using dump out dump_sets_restore [OF assms(1,2,5)]
      \<open>elo_feed cur (elo_frames ?k ?ps) t = elo_take_all cur (map (Pair ?k) ?ps) t\<close> by auto
qed

theorem dump_restores_witness:
  "\<exists>s' bs t'. elo_dump_config (elo_init 9600 None) = Some s' \<and> elo_out s' = bs \<and>
    elo_feed 0 bs (elo_init 1200 None) = Some t' \<and> el_mode1 t' = 0x87"
proof -
  have "elo_dumpable (elo_init 9600 None)" by (simp add: elo_dumpable_def init_factory)
  then obtain s' bs t' where "elo_dump_config (elo_init 9600 None) = Some s'" "elo_out s' = bs"
      "elo_feed 0 bs (elo_init 1200 None) = Some t'" "elo_cfg.truncate t' = elo_cfg.truncate (elo_init 9600 None)"
    using dump_restores [OF init_factory(1) _ init_factory(3) _ init_factory(1,2), of 9600 1200 0]
    by (auto simp: elo_out_def init_factory)
  moreover from this(4) have "el_mode1 t' = el_mode1 (elo_init 9600 None)" by (simp add: elo_cfg.defs)
  ultimately show ?thesis by (auto simp: init_factory)
qed

text \<open>
  What the packets cannot carry. The calibration set command reads its points unsigned,
  so a point below zero, which the offset form of the command sets, comes back 65536 too
  high; and the Emulate packet follows the scaling packets and overwrites what they set.
\<close>

lemma dump_loses_sign:
  assumes "- 65536 \<le> v" "v < 0"
  shows "le16 (byte_at 0 v) (byte_at (Suc 0) v) = v + 65536"
proof -
  have "v mod 65536 = (v + 65536) mod 65536" by simp
  also have "\<dots> = v + 65536" using assms by (intro mod_pos_pos_trivial) simp_all
  finally show ?thesis using le16_byte_at_mod [of v] by simp
qed

lemma dump_loses_scaling:
  assumes "el_fmt s = 2" "elo_ok s"
  shows "el_sc_lo (foldl (\<lambda>c g. g c) c (dump_sets s)) = [2, 2]"
  using assms by (simp add: dump_sets_def)

end
