(* ===== verification/Elo_Nvram.thy ===== *)
theory Elo_Nvram
  imports Elo_Wire
begin

text \<open>
  The saved configuration of the Elo controller: what a restore brings back, what a save
  leaves alone, and how a controller powers up from a file that was never given a Setup
  area.
\<close>

section \<open>Restoring what was saved\<close>

text \<open>The settings of \<open>c\<close> in the chosen areas, those of \<open>c'\<close> elsewhere.\<close>

definition cfg_mix :: "u8 \<Rightarrow> elo_cfg \<Rightarrow> elo_cfg \<Rightarrow> elo_cfg" where
  "cfg_mix areas c c' =
     (let c' = (if areas AND ELO_AREA_SETUP \<noteq> 0
            then c\<lparr>el_cal_lo := el_cal_lo c', el_cal_hi := el_cal_hi c', el_sc_lo := el_sc_lo c', el_sc_hi := el_sc_hi c'\<rparr>
            else c');
          c' = (if areas AND ELO_AREA_CAL \<noteq> 0 then c'\<lparr>el_cal_lo := el_cal_lo c, el_cal_hi := el_cal_hi c\<rparr> else c')
      in if areas AND ELO_AREA_SCALE \<noteq> 0 then c'\<lparr>el_sc_lo := el_sc_lo c, el_sc_hi := el_sc_hi c\<rparr> else c')"

lemma axes_of: "cal_axes vs \<Longrightarrow> [vs ! 0, vs ! Suc 0] = vs"
  by (auto simp: cal_axes_def numeral_2_eq_2 length_Suc_conv)

lemma put_take: "length xs = 7 \<Longrightarrow> take 7 (put 0 xs ys) = xs"
  by (simp add: put_def)

lemma and_fmt: "a \<le> 7 \<Longrightarrow> a AND 7 = (a :: u8)"
  using less_mask_eq [of a 3] by (simp add: word_le_nat_alt word_less_nat_alt mask_numeral)

lemma or_zreserved: "bit a 7 \<Longrightarrow> a OR 0x80 = (a :: u8)"
  by (rule byte_eqI) (simp_all add: bit_simps)

lemma read_saved:
  "el_file d = el_file (elo_save_nvr_areas areas p dev) \<Longrightarrow>
     elo_nvr_read_file d = the (el_file (elo_save_nvr_areas areas p dev))"
  by (simp add: elo_nvr_read_file_def elo_save_nvr_areas_def Let_def)

lemma file_pages: "elo_ok dev \<Longrightarrow> elo_file_ok (elo_nvr_read_file dev)"
  by (simp add: elo_ok_def read_file_ok)

lemma save_load:
  assumes "elo_ok dev" "p < 2" "el_file d = el_file (elo_save_nvr_areas areas p dev)"
  shows "elo_cfg.truncate (elo_load_nvr_areas areas p d) = cfg_mix areas (elo_cfg.truncate dev) (elo_cfg.truncate d)"
proof -
  have pages: "length (nv_cal (elo_nvr_read_file dev)) = 2" "length (nv_sc (elo_nvr_read_file dev)) = 2"
    using file_pages [OF assms(1)] by (simp_all add: elo_file_ok_def nv_pages_ok_def)
  have c: "cal_axes (el_cal_lo dev)" "cal_axes (el_cal_hi dev)" "cal_axes (el_sc_lo dev)" "cal_axes (el_sc_hi dev)"
    "length (el_owner dev) = 7" "el_fmt dev AND 7 = el_fmt dev" "el_mode1 dev OR 0x80 = el_mode1 dev"
    using assms(1) by (simp_all add: elo_ok_defs and_fmt or_zreserved)
  define f where "f = the (el_file (elo_save_nvr_areas areas p dev))"
  have r: "elo_nvr_read_file d = f" using read_saved [OF assms(3)] by (simp only: f_def)
  have magic: "nv_magic f = ELO_NVR_MAGIC" by (simp add: f_def elo_save_nvr_areas_def Let_def)
  have sf: "nv_mode1 f = el_mode1 dev" "nv_mode2 f = el_mode2 dev" "nv_ser1 f = el_ser1 dev" "nv_ser2 f = el_ser2 dev"
    "nv_udelay f = el_udelay dev" "nv_rdelay f = el_rdelay dev" "nv_key f = el_key dev" "nv_low f = el_low dev"
    "nv_filter f = el_filter dev" "nv_ten f = el_ten dev" "nv_tmode f = el_tmode dev" "nv_tint f = el_tint dev"
    "nv_fmt f = el_fmt dev" "(nv_tflag f \<noteq> 0) = el_tflag dev" "(nv_swap f \<noteq> 0) = el_swap dev" "nv_inv f = el_inv dev"
    "take 7 (nv_owner f) = el_owner dev" if "areas AND 1 \<noteq> 0"
    using that c(5) by (simp_all add: f_def elo_save_nvr_areas_def Let_def put_take)
  have cal: "nv_cal f ! p = [[el_cal_lo dev ! 0, el_cal_hi dev ! 0], [el_cal_lo dev ! 1, el_cal_hi dev ! 1]]"
    if "areas AND 2 \<noteq> 0"
    using that pages assms(2) by (simp add: f_def elo_save_nvr_areas_def Let_def)
  have sc: "nv_sc f ! p = [[el_sc_lo dev ! 0, el_sc_hi dev ! 0], [el_sc_lo dev ! 1, el_sc_hi dev ! 1]]"
    if "areas AND 4 \<noteq> 0"
    using that pages assms(2) by (simp add: f_def elo_save_nvr_areas_def Let_def)
  have load: "elo_load_nvr_areas areas p d =
      (let d = (if areas AND 1 \<noteq> 0 then d\<lparr>el_mode1 := nv_mode1 f OR 0x80, el_mode2 := nv_mode2 f, el_ser1 := nv_ser1 f,
            el_ser2 := nv_ser2 f, el_udelay := nv_udelay f, el_rdelay := nv_rdelay f, el_key := nv_key f, el_low := nv_low f,
            el_filter := nv_filter f, el_ten := nv_ten f, el_tmode := nv_tmode f, el_tint := nv_tint f,
            el_fmt := nv_fmt f AND 7, el_tflag := (nv_tflag f \<noteq> 0), el_swap := (nv_swap f \<noteq> 0), el_inv := nv_inv f,
            el_owner := take 7 (nv_owner f)\<rparr> else d);
          d = (if areas AND 2 \<noteq> 0 then d\<lparr>el_cal_lo := el_cal_lo dev, el_cal_hi := el_cal_hi dev\<rparr> else d)
      in if areas AND 4 \<noteq> 0 then d\<lparr>el_sc_lo := el_sc_lo dev, el_sc_hi := el_sc_hi dev\<rparr> else d)"
    by (simp add: elo_load_nvr_areas_def r magic cal sc axes_of c(1-4) cong: if_cong)
  show ?thesis
    unfolding load
    by (cases "areas AND 1 = 0"; cases "areas AND 2 = 0"; cases "areas AND 4 = 0")
      (simp_all add: cfg_mix_def sf c(6,7) elo_cfg.defs)
qed

lemma and_bit_zero:
  fixes a :: u8
  shows "a AND 1 = 0 \<longleftrightarrow> \<not> bit a 0" "a AND 2 = 0 \<longleftrightarrow> \<not> bit a 1" "a AND 4 = 0 \<longleftrightarrow> \<not> bit a 2"
proof -
  have "a AND 2 ^ n = 0 \<longleftrightarrow> \<not> bit a n" for n
    by (simp add: bit_iff_and_push_bit_not_eq_0 push_bit_of_1)
  from this [of 0] this [of 1] this [of 2]
  show "a AND 1 = 0 \<longleftrightarrow> \<not> bit a 0" "a AND 2 = 0 \<longleftrightarrow> \<not> bit a 1" "a AND 4 = 0 \<longleftrightarrow> \<not> bit a 2" by simp_all
qed

lemma and_both:
  fixes a b :: u8
  shows "a AND (b AND 1) = 0 \<longleftrightarrow> \<not> bit a 0 \<or> \<not> bit b 0" "a AND (b AND 2) = 0 \<longleftrightarrow> \<not> bit a 1 \<or> \<not> bit b 1"
    "a AND (b AND 4) = 0 \<longleftrightarrow> \<not> bit a 2 \<or> \<not> bit b 2" "a AND 1 = 0 \<longleftrightarrow> \<not> bit a 0"
    "a AND 2 = 0 \<longleftrightarrow> \<not> bit a 1" "a AND 4 = 0 \<longleftrightarrow> \<not> bit a 2"
  using and_bit_zero [of "a AND b"] and_bit_zero [of a] by (simp_all add: bit_and_iff and.assoc)

text \<open>An area that a save does not write reads back as before, on the other page as well.\<close>

lemma save_spares:
  assumes "el_file dev = Some f" "nv_magic f = ELO_NVR_MAGIC"
    and "areas AND areas' AND ELO_AREA_SETUP = 0"
    and "p = q \<Longrightarrow> areas AND areas' AND ELO_AREA_CAL = 0 \<and> areas AND areas' AND ELO_AREA_SCALE = 0"
  shows "elo_cfg.truncate (elo_load_nvr_areas areas' q (elo_save_nvr_areas areas p dev)) =
    elo_cfg.truncate (elo_load_nvr_areas areas' q dev)"
proof -
  define g where "g = the (el_file (elo_save_nvr_areas areas p dev))"
  have rd: "elo_nvr_read_file dev = f" using assms(1,2) by (simp add: elo_nvr_read_file_def)
  have rs: "elo_nvr_read_file (elo_save_nvr_areas areas p dev) = g"
    by (simp add: elo_nvr_read_file_def elo_save_nvr_areas_def Let_def g_def)
  have magic: "nv_magic g = ELO_NVR_MAGIC" by (simp add: g_def elo_save_nvr_areas_def Let_def)
  have sf: "nv_mode1 g = nv_mode1 f \<and> nv_mode2 g = nv_mode2 f \<and> nv_ser1 g = nv_ser1 f \<and> nv_ser2 g = nv_ser2 f \<and>
      nv_udelay g = nv_udelay f \<and> nv_rdelay g = nv_rdelay f \<and> nv_key g = nv_key f \<and> nv_low g = nv_low f \<and>
      nv_filter g = nv_filter f \<and> nv_ten g = nv_ten f \<and> nv_tmode g = nv_tmode f \<and> nv_tint g = nv_tint f \<and>
      nv_fmt g = nv_fmt f \<and> nv_tflag g = nv_tflag f \<and> nv_swap g = nv_swap f \<and> nv_inv g = nv_inv f \<and>
      nv_owner g = nv_owner f" if "bit areas' 0"
  proof -
    have "areas AND 1 = 0" using assms(3) that by (simp add: and_both)
    then show ?thesis by (simp add: g_def elo_save_nvr_areas_def rd Let_def)
  qed
  have cal: "nv_cal g ! q = nv_cal f ! q" if "bit areas' 1"
    using assms(4) that by (cases "p = q") (simp_all add: g_def elo_save_nvr_areas_def rd Let_def and_both)
  have sc: "nv_sc g ! q = nv_sc f ! q" if "bit areas' 2"
    using assms(4) that by (cases "p = q") (simp_all add: g_def elo_save_nvr_areas_def rd Let_def and_both)
  have same: "elo_save_nvr_areas areas p dev = dev\<lparr>el_file := Some g\<rparr>" by (simp add: g_def elo_save_nvr_areas_def Let_def)
  show ?thesis
    unfolding elo_load_nvr_areas_def rd rs unfolding same
    by (cases "bit areas' 0"; cases "bit areas' 1"; cases "bit areas' 2")
      (simp_all add: and_bit_zero sf cal sc magic assms(2) Let_def elo_cfg.defs)
qed

text \<open>
  C22. What was saved comes back and nothing else is lost: restoring the areas of a save,
  in any state that still has the file, sets exactly the settings of those areas to their
  values at the save, the others keeping what they are; and every area the save did not
  write, on either page, restores as it did before, once the file exists.
\<close>

theorem saved_settings_return:
  assumes "elo_ok dev" "p < 2" "el_file d = el_file (elo_save_nvr_areas areas p dev)"
  shows "elo_cfg.truncate (elo_load_nvr_areas areas p d) = cfg_mix areas (elo_cfg.truncate dev) (elo_cfg.truncate d) \<and>
    (\<forall>f areas' q. el_file dev = Some f \<and> nv_magic f = ELO_NVR_MAGIC \<and> areas AND areas' AND ELO_AREA_SETUP = 0 \<and>
       (p = q \<longrightarrow> areas AND areas' AND ELO_AREA_CAL = 0 \<and> areas AND areas' AND ELO_AREA_SCALE = 0) \<longrightarrow>
       elo_cfg.truncate (elo_load_nvr_areas areas' q (elo_save_nvr_areas areas p dev)) =
         elo_cfg.truncate (elo_load_nvr_areas areas' q dev))"
  using save_load [OF assms] save_spares by blast

text \<open>A controller saves its settings, another one of the same file restores them.\<close>

theorem saved_settings_return_witness:
  "el_mode1 (elo_load_nvr_areas 7 0 ((elo_zero None)\<lparr>el_file := el_file (elo_save_nvr_areas 7 0 (elo_init 9600 None))\<rparr>)) = 0x87"
proof -
  let ?d = "(elo_zero None)\<lparr>el_file := el_file (elo_save_nvr_areas 7 0 (elo_init 9600 None))\<rparr>"
  have "elo_cfg.truncate (elo_load_nvr_areas 7 0 ?d) =
      cfg_mix 7 (elo_cfg.truncate (elo_init 9600 None)) (elo_cfg.truncate ?d)"
    by (rule saved_settings_return [OF init_factory(1), THEN conjunct1]) simp_all
  then have "el_mode1 (elo_cfg.truncate (elo_load_nvr_areas 7 0 ?d)) = 0x87"
    by (simp add: cfg_mix_def elo_cfg.defs init_factory)
  then show ?thesis by (simp add: elo_cfg.defs)
qed

section \<open>A file without a Setup area\<close>

text \<open>
  The first save creates the file from zeros. One that saves only calibration or scaling
  leaves a Setup area of zeros behind it, and power-on loads that over the factory
  settings: no touch mode is on.
\<close>

definition elo_mute :: "elo \<Rightarrow> bool" where
  "elo_mute dev \<longleftrightarrow> el_mode1 dev = ELO_M1_ZRESERVED \<and> \<not> el_cal_active dev \<and> f_num (el_resp dev) = 0 \<and> el_user_timer dev = None"

lemma mute_init:
  assumes "el_file dev = None" "areas AND ELO_AREA_SETUP = 0"
  shows "elo_mute (elo_init speed (el_file (elo_save_nvr_areas areas p dev)))"
  using assms
  by (simp add: elo_mute_def elo_init_def elo_load_nvr_def elo_load_nvr_areas_def elo_save_nvr_areas_def
    elo_nvr_read_file_def elo_nvr_zero_def elo_timer_apply_def elo_load_defaults_def elo_zero_def Let_def
    fifo8_create_def fifo8_reset_def)

lemma mute_report: "elo_mute dev \<Longrightarrow> elo_report dev = None"
  by (simp add: elo_mute_def elo_report_def elo_edge_def case_prod_beta Let_def)

lemma mute_react:
  assumes "elo_mute dev" "elo_react e dev = Some (out, dev')" "\<And>cur b. e \<noteq> Guest cur b"
  shows "out = [] \<and> elo_mute dev'"
proof (cases e)
  case (Tick room)
  then show ?thesis
    using assms(1,2) mute_report [OF assms(1)]
    by (auto simp: elo_write_to_host_def fifo8_num_used_def elo_prepare_transmit_def elo_mute_def Let_def
      split: if_splits bind_splits)
next
  case (Poll but px py)
  then show ?thesis using assms(1,2) by (auto simp: elo_poll_def elo_hold_def elo_cal_touch_def elo_mute_def Let_def split: if_splits)
qed (use assms in \<open>auto simp: elo_mute_def elo_untouch_done_def elo_rep_delay_done_def elo_reset_complete_def split: if_splits\<close>)

lemma mute_run:
  "elo_mute dev \<Longrightarrow> list_all (\<lambda>e. \<forall>cur b. e \<noteq> Guest cur b) es \<Longrightarrow> elo_run es dev = Some (out, dev') \<Longrightarrow> out = []"
proof (induction es arbitrary: dev out)
  case (Cons e es)
  then obtain o1 d o2 where r: "elo_react e dev = Some (o1, d)" "elo_run es d = Some (o2, dev')" "out = o1 @ o2"
    by (auto split: bind_splits)
  moreover have "o1 = [] \<and> elo_mute d" using mute_react [OF Cons.prems(1) r(1)] Cons.prems(2) by simp
  ultimately show ?case using Cons.IH [of d o2] Cons.prems(2) by simp
qed simp

text \<open>
  A controller whose file was created by a save without the Setup area powers up
  mute: wherever it is touched and however long, it sends the host nothing until the
  host sends it a command.
\<close>

theorem partial_save_powers_up_mute:
  assumes "elo_ok dev" "el_file dev = None" "areas AND ELO_AREA_SETUP = 0"
    and "list_all event_ok es" "list_all (\<lambda>e. \<forall>cur b. e \<noteq> Guest cur b) es"
  shows "\<exists>d. elo_run es (elo_init speed (el_file (elo_save_nvr_areas areas p dev))) = Some ([], d)"
proof -
  have "elo_stored_ok (el_file (elo_save_nvr_areas areas p dev))"
    using save_ok [OF assms(1), of areas p] by (simp add: elo_ok_def)
  then obtain out d where "elo_run es (elo_init speed (el_file (elo_save_nvr_areas areas p dev))) = Some (out, d)"
    using run_ok [OF init_ok assms(4)] by blast
  then show ?thesis using mute_run [OF mute_init [OF assms(2,3)] assms(5)] by blast
qed

theorem partial_save_powers_up_mute_witness:
  "\<exists>d. elo_run [Poll True 100 200, Tick True, Tick True, Poll False 0 0, Tick True]
     (elo_init 9600 (el_file (elo_save_nvr_areas 2 0 (elo_init 9600 None)))) = Some ([], d)"
  by (rule partial_save_powers_up_mute [OF init_factory(1,9)]) (simp_all add: raw_range_def ELO_RAW_MAX_def)

end
