(* ===== verification/Elo_Reports.thy ===== *)
theory Elo_Reports
  imports Elo_Wire
begin

text \<open>
  What a host sees of a finger on the Elo screen: the order of the reports of a touch,
  the hold of a release, the coordinates a calibrated and scaled screen reports, the
  calibration by two touches, and the reading back of the binary report formats.
\<close>

section \<open>The reports of a touch\<close>

text \<open>The status bytes of the reports a run makes, in order.\<close>

definition tick_report :: "elo_event \<Rightarrow> elo \<Rightarrow> u8 list" where
  "tick_report e dev =
     (if e = Tick True \<and> \<not> el_in_reset dev \<and> fifo8_num_used (el_resp dev) = 0
      then case elo_report dev of None \<Rightarrow> [] | Some (status, x, y, stream) \<Rightarrow> [status] else [])"

fun elo_touches :: "elo_event list \<Rightarrow> elo \<Rightarrow> u8 list" where
  "elo_touches [] dev = []"
| "elo_touches (e # es) dev =
     tick_report e dev @ (case elo_react e dev of None \<Rightarrow> [] | Some (out, dev') \<Rightarrow> elo_touches es dev')"

text \<open>A touch begins with Initial, may stream, and ends with Untouch; the range bit may go with any of them.\<close>

fun touch_grammar :: "bool \<Rightarrow> u8 list \<Rightarrow> bool" where
  "touch_grammar down [] = True"
| "touch_grammar down (s # ss) =
     (let k = s AND NOT ELO_ST_OUTOFRANGE
      in if k = ELO_M1_INITIAL then \<not> down \<and> touch_grammar True ss
         else if k = ELO_M1_STREAM then down \<and> touch_grammar True ss
         else k = ELO_M1_UNTOUCH \<and> down \<and> touch_grammar False ss)"

definition all_reports :: "elo \<Rightarrow> bool" where
  "all_reports dev \<longleftrightarrow> el_mode1 dev AND ELO_M1_INITIAL \<noteq> 0 \<and> el_mode1 dev AND ELO_M1_STREAM \<noteq> 0 \<and>
     el_mode1 dev AND ELO_M1_UNTOUCH \<noteq> 0 \<and> \<not> el_quiet_touch dev"

lemma status_masks:
  "(if b then 0x41 else 1 :: u8) AND NOT 0x40 = 1" "(if b then 0x42 else 2 :: u8) AND NOT 0x40 = 2"
  "(if b then 0x44 else 4 :: u8) AND NOT 0x40 = 4"
  by simp_all

definition report_kind :: "elo \<Rightarrow> u8" where
  "report_kind dev = (if el_but dev then if el_but_old dev then ELO_M1_STREAM else ELO_M1_INITIAL else ELO_M1_UNTOUCH)"

lemma report_status:
  assumes "all_reports dev" "elo_report dev = Some (st, x, y, stream)"
  shows "st AND NOT ELO_ST_OUTOFRANGE = report_kind dev" "el_but dev \<or> el_but_old dev"
    "\<not> el_untouch_pending dev" "\<not> el_cal_active dev"
  using assms by (auto simp: elo_report_def elo_edge_def report_kind_def all_reports_def case_prod_beta Let_def
    split: if_splits)

text \<open>An edge is always reported when the controller gets to report at all.\<close>

lemma edge_reported:
  assumes "all_reports dev" "\<not> el_cal_active dev" "\<not> el_untouch_pending dev" "el_but dev \<noteq> el_but_old dev"
  shows "elo_report dev \<noteq> None"
  using assms by (auto simp: elo_report_def elo_edge_def all_reports_def case_prod_beta Let_def)

lemma prepare_fields:
  assumes "elo_ok dev" "elo_prepare_transmit dev = Some dev'"
  shows "el_but_old dev' = (if el_cal_active dev \<or> el_untouch_pending dev then el_but_old dev else el_but dev)"
    "all_reports dev' = all_reports dev" "el_but dev' = el_but dev" "el_but_prev dev' = el_but_prev dev"
    "el_untouch_pending dev' = el_untouch_pending dev" "el_udelay dev' = el_udelay dev"
proof -
  have said: "el_quiet_touch (elo_said bs d) = el_quiet_touch d" "el_but_prev (elo_said bs d) = el_but_prev d"
      "el_udelay (elo_said bs d) = el_udelay d" for bs d
    by (simp_all add: elo_said_def)
  have "elo_send_touch st x y (elo_z_value dev) dev = Some (elo_said (touch_bytes st x y (elo_z_value dev) dev) dev)"
    if "elo_report dev = Some (st, x, y, stream)" for st x y stream
    using report_wire [OF assms(1) that] assms(1) by (simp add: send_touch_said wire_range_z)
  then show "el_but_old dev' = (if el_cal_active dev \<or> el_untouch_pending dev then el_but_old dev else el_but dev)"
    "all_reports dev' = all_reports dev" "el_but dev' = el_but dev" "el_but_prev dev' = el_but_prev dev"
    "el_untouch_pending dev' = el_untouch_pending dev" "el_udelay dev' = el_udelay dev"
    using assms(2)
    by (auto simp: elo_prepare_transmit_def all_reports_def Let_def said split: if_splits option.splits bind_splits)
qed

definition no_guest :: "elo_event \<Rightarrow> bool" where
  "no_guest e \<longleftrightarrow> (\<forall>cur b. e \<noteq> Guest cur b)"

lemma cal_touch_fields:
  assumes "elo_queue_ok dev" "elo_cal_touch dev = Some dev'"
  shows "el_but_old dev' = el_but_old dev" "all_reports dev' = all_reports dev" "el_but dev' = el_but dev"
    "el_but_prev dev' = el_but_prev dev" "el_untouch_pending dev' = el_untouch_pending dev" "el_udelay dev' = el_udelay dev"
proof -
  have said: "el_but_prev (elo_said bs d) = el_but_prev d" "el_udelay (elo_said bs d) = el_udelay d" for bs d
    by (simp_all add: elo_said_def)
  have q: "elo_queue_ok (dev\<lparr>el_cal_pts := ps, el_cal_step := n\<rparr>)" for ps n using assms(1) by (simp add: elo_queue_ok_def)
  show "el_but_old dev' = el_but_old dev" "all_reports dev' = all_reports dev" "el_but dev' = el_but dev"
    "el_but_prev dev' = el_but_prev dev" "el_untouch_pending dev' = el_untouch_pending dev" "el_udelay dev' = el_udelay dev"
    using assms(2)
    by (auto simp: elo_cal_touch_def elo_ack_def elo_enqueue_said q said all_reports_def Let_def split: if_splits)
qed

text \<open>The fields of the touch path, and what each event does to them.\<close>

definition touch_view :: "elo \<Rightarrow> bool \<times> bool \<times> bool \<times> bool \<times> bool \<times> u8" where
  "touch_view dev = (all_reports dev, el_but dev, el_but_old dev, el_but_prev dev, el_untouch_pending dev, el_udelay dev)"

lemma tick_view:
  assumes "elo_ok dev" "elo_write_to_host room dev = Some (out, dev')"
  shows "touch_view dev' = (all_reports dev, el_but dev,
    if room \<and> \<not> el_in_reset dev \<and> fifo8_num_used (el_resp dev) = 0 \<and> \<not> el_cal_active dev \<and> \<not> el_untouch_pending dev
    then el_but dev else el_but_old dev, el_but_prev dev, el_untouch_pending dev, el_udelay dev)"
proof -
  have host: "touch_view (d\<lparr>el_host_timer := t\<rparr>) = touch_view d" "touch_view (d\<lparr>el_resp := f\<rparr>) = touch_view d" for d t f
    by (simp_all add: touch_view_def all_reports_def)
  consider (silent) "\<not> room \<or> el_in_reset dev" | (byte) "room" "\<not> el_in_reset dev" "fifo8_num_used (el_resp dev) \<noteq> 0"
    | (touch) "room" "\<not> el_in_reset dev" "fifo8_num_used (el_resp dev) = 0" by blast
  then show ?thesis
  proof cases
    case silent
    then show ?thesis using assms(2) by (auto simp: elo_write_to_host_def host) (auto simp: touch_view_def)
  next
    case byte
    then show ?thesis using assms(2) by (auto simp: elo_write_to_host_def host split: bind_splits) (auto simp: touch_view_def)
  next
    case touch
    then obtain d where d: "elo_prepare_transmit dev = Some d"
        "dev' = d\<lparr>el_host_timer := timer_on_auto (elo_host_period (el_baud d))\<rparr>"
      using assms(2) by (auto simp: elo_write_to_host_def split: bind_splits)
    show ?thesis using prepare_fields [OF assms(1) d(1)] touch by (simp add: d(2) host) (simp add: touch_view_def)
  qed
qed

lemma poll_view:
  assumes "elo_ok dev" "elo_poll but px py dev = Some dev'"
  shows "touch_view dev' = (all_reports dev, but, el_but_old dev, but,
    \<not> but \<and> (el_untouch_pending dev \<or> el_but_prev dev \<and> el_but_old dev \<and> el_udelay dev \<noteq> 0), el_udelay dev)"
proof -
  let ?d = "elo_hold (dev\<lparr>el_but := but, el_raw := (if el_swap dev then [py, px] else [px, py])\<rparr>)"
  have "elo_queue_ok dev" using assms(1) by simp
  then have q: "elo_queue_ok ?d" by (simp add: elo_hold_def elo_queue_ok_def Let_def)
  have "el_but_old ?d = el_but_old dev" "all_reports ?d = all_reports dev" "el_but ?d = but" "el_but_prev ?d = but"
    "el_untouch_pending ?d = (\<not> but \<and> (el_untouch_pending dev \<or> el_but_prev dev \<and> el_but_old dev \<and> el_udelay dev \<noteq> 0))"
    "el_udelay ?d = el_udelay dev"
    by (simp_all add: elo_hold_def all_reports_def Let_def)
  moreover have "elo_cal_touch ?d = Some dev'" using assms(2) by (simp add: elo_poll_def)
  ultimately show ?thesis using cal_touch_fields [OF q] by (simp add: touch_view_def)
qed

lemma user_timer_view:
  assumes "elo_ok dev" "elo_user_timer_fire dev = Some dev'"
  shows "touch_view dev' = touch_view dev"
proof -
  have said: "touch_view (elo_said bs d) = touch_view d" for bs d
    by (simp add: touch_view_def all_reports_def elo_said_def)
  have "touch_view (d\<lparr>el_user_timer := t\<rparr>) = touch_view d" "touch_view (d\<lparr>el_ten := t'\<rparr>) = touch_view d" for d t t'
    by (simp_all add: touch_view_def all_reports_def)
  then show ?thesis
    using assms by (auto simp: elo_user_timer_fire_def elo_enqueue_said said split: if_splits)
qed

lemma due_views [simp]:
  "touch_view (if b then dev else elo_rep_delay_done (dev\<lparr>el_rep_timer := None\<rparr>)) = touch_view dev"
  "touch_view (if b then dev else elo_reset_complete (dev\<lparr>el_reset_timer := None\<rparr>)) = touch_view dev"
  "touch_view (dev\<lparr>el_user_timer := None\<rparr>) = touch_view dev"
  "touch_view (elo_untouch_done (dev\<lparr>el_untouch_timer := None\<rparr>)) =
     (all_reports dev, el_but dev, el_but_old dev, el_but_prev dev, False, el_udelay dev)"
  by (simp_all add: touch_view_def all_reports_def elo_rep_delay_done_def elo_reset_complete_def elo_untouch_done_def)

section \<open>Touches are bracketed\<close>

lemma react_bracket:
  assumes "elo_ok dev" "all_reports dev" "no_guest e" "elo_react e dev = Some (out, dev')"
  shows "all_reports dev' \<and> (tick_report e dev = [] \<and> el_but_old dev' = el_but_old dev \<or>
    (\<exists>st. tick_report e dev = [st] \<and> st AND NOT ELO_ST_OUTOFRANGE = report_kind dev \<and>
      (el_but dev \<or> el_but_old dev) \<and> el_but_old dev' = el_but dev))"
proof (cases e)
  case (Tick room)
  have v: "touch_view dev' = (all_reports dev, el_but dev,
      if room \<and> \<not> el_in_reset dev \<and> fifo8_num_used (el_resp dev) = 0 \<and> \<not> el_cal_active dev \<and> \<not> el_untouch_pending dev
      then el_but dev else el_but_old dev, el_but_prev dev, el_untouch_pending dev, el_udelay dev)"
    using tick_view [OF assms(1)] assms(4) Tick by simp
  show ?thesis
  proof (cases "room \<and> \<not> el_in_reset dev \<and> fifo8_num_used (el_resp dev) = 0")
    case True
    then have t: "tick_report e dev = (case elo_report dev of None \<Rightarrow> [] | Some (st, x, y, stream) \<Rightarrow> [st])"
      by (simp add: tick_report_def Tick)
    show ?thesis
    proof (cases "elo_report dev")
      case None
      then have "el_but_old dev' = el_but_old dev"
        using v edge_reported [OF assms(2)] by (auto simp: touch_view_def split: if_splits)
      then show ?thesis using None t v assms(2) by (simp add: touch_view_def)
    next
      case (Some r)
      obtain st x y stream where r: "r = (st, x, y, stream)" by (cases r)
      note k = report_status [OF assms(2) Some [unfolded r]]
      then have "el_but_old dev' = el_but dev" using v True by (simp add: touch_view_def)
      then show ?thesis using Some r t k v assms(2) by (simp add: touch_view_def)
    qed
  next
    case False
    then show ?thesis using v assms(2) by (auto simp: tick_report_def Tick touch_view_def)
  qed
next
  case (Poll but px py)
  then show ?thesis
    using poll_view [OF assms(1)] assms(2,4) by (auto simp: tick_report_def touch_view_def)
next
  case User_due
  have "elo_ok (dev\<lparr>el_user_timer := None\<rparr>)" using assms(1) by (simp add: elo_ok_defs)
  then have "touch_view dev' = touch_view dev"
    using assms(4) User_due user_timer_view [of "dev\<lparr>el_user_timer := None\<rparr>" dev'] by (auto split: if_splits)
  then show ?thesis using assms(2) by (simp add: tick_report_def User_due touch_view_def)
qed (use assms in \<open>auto simp: tick_report_def no_guest_def all_reports_def elo_untouch_done_def elo_rep_delay_done_def
  elo_reset_complete_def split: if_splits\<close>)

lemma bracket_run:
  "elo_ok dev \<Longrightarrow> all_reports dev \<Longrightarrow> list_all event_ok es \<Longrightarrow> list_all no_guest es \<Longrightarrow>
     touch_grammar (el_but_old dev) (elo_touches es dev)"
proof (induction es arbitrary: dev)
  case (Cons e es)
  obtain out d where r: "elo_react e dev = Some (out, d)" "elo_ok d"
    using react_ok [OF Cons.prems(1), of e] Cons.prems(3) by auto
  have b: "all_reports d \<and> (tick_report e dev = [] \<and> el_but_old d = el_but_old dev \<or>
    (\<exists>st. tick_report e dev = [st] \<and> st AND NOT ELO_ST_OUTOFRANGE = report_kind dev \<and>
      (el_but dev \<or> el_but_old dev) \<and> el_but_old d = el_but dev))"
    using react_bracket [OF Cons.prems(1,2) _ r(1)] Cons.prems(4) by simp
  then have "touch_grammar (el_but_old d) (elo_touches es d)"
    using Cons.IH [OF r(2)] Cons.prems(3,4) by simp
  then show ?case using b r(1) by (auto simp: report_kind_def Let_def)
qed simp

text \<open>
  C23. Every touch is bracketed: with the three touch modes on, whatever the pointer does,
  however the line is held up, whichever delays and calibrations are running and in
  whatever order the timers fire, the reports are Initial, any number of Stream, Untouch,
  over and over; no touch is opened twice, streamed unopened or closed unopened.
\<close>

theorem touches_bracketed:
  assumes "elo_ok dev" "all_reports dev" "list_all event_ok es" "list_all no_guest es"
  shows "touch_grammar (el_but_old dev) (elo_touches es dev)"
  by (rule bracket_run [OF assms])

theorem touches_bracketed_witness:
  "touch_grammar False (elo_touches [Poll True 100 200, Tick True, Poll False 100 200, Tick True] (elo_init 9600 None))"
proof -
  have "all_reports (elo_init 9600 None)" by (simp add: all_reports_def init_factory)
  from touches_bracketed [OF init_factory(1) this, of "[Poll True 100 200, Tick True, Poll False 100 200, Tick True]"]
  show ?thesis by (simp add: init_factory raw_range_def ELO_RAW_MAX_def no_guest_def)
qed

section \<open>A release is held\<close>

definition touch_held :: "elo \<Rightarrow> bool" where
  "touch_held dev \<longleftrightarrow> all_reports dev \<and> el_but_old dev \<and> (el_but dev \<and> el_but_prev dev \<or> el_untouch_pending dev) \<and>
     el_udelay dev \<noteq> 0"

lemma tick_report_in: "s \<in> set (tick_report e dev) \<Longrightarrow> \<exists>x y stream. elo_report dev = Some (s, x, y, stream)"
proof -
  assume s: "s \<in> set (tick_report e dev)"
  show ?thesis
  proof (cases "elo_report dev")
    case None
    then have "tick_report e dev = []" by (simp add: tick_report_def)
    then show ?thesis using s by simp
  next
    case (Some r)
    obtain st x y stream where r: "r = (st, x, y, stream)" by (cases r)
    have "tick_report e dev = [st] \<or> tick_report e dev = []"
      unfolding tick_report_def Some r option.case prod.case by (rule if_split [THEN iffD2]) blast
    with s have "s = st" by fastforce
    then show ?thesis using Some r by blast
  qed
qed

lemma held_react:
  assumes "elo_ok dev" "touch_held dev" "no_guest e" "e \<noteq> Untouch_due" "elo_react e dev = Some (out, dev')"
  shows "touch_held dev' \<and> (\<forall>s \<in> set (tick_report e dev). s AND NOT ELO_ST_OUTOFRANGE = ELO_M1_STREAM)"
proof -
  have b: "all_reports dev" "el_but_old dev" using assms(2) by (simp_all add: touch_held_def)
  have status: "\<forall>s \<in> set (tick_report e dev). s AND NOT ELO_ST_OUTOFRANGE = ELO_M1_STREAM"
  proof
    fix s
    assume "s \<in> set (tick_report e dev)"
    then obtain x y stream where r: "elo_report dev = Some (s, x, y, stream)"
      using tick_report_in by blast
    note k = report_status [OF b(1) r]
    then have "el_but dev" using assms(2) by (simp add: touch_held_def)
    then show "s AND NOT ELO_ST_OUTOFRANGE = ELO_M1_STREAM" using k(1) b(2) by (simp add: report_kind_def)
  qed
  have "touch_held dev'"
  proof (cases e)
    case (Tick room)
    then show ?thesis
      using tick_view [OF assms(1)] assms(2,5) by (auto simp: touch_view_def touch_held_def)
  next
    case (Poll but px py)
    then show ?thesis
      using poll_view [OF assms(1)] assms(2,5) by (auto simp: touch_view_def touch_held_def)
  next
    case User_due
    have "elo_ok (dev\<lparr>el_user_timer := None\<rparr>)" using assms(1) by (simp add: elo_ok_defs)
    then have "touch_view dev' = touch_view dev"
      using assms(5) User_due user_timer_view [of "dev\<lparr>el_user_timer := None\<rparr>" dev'] by (auto split: if_splits)
    then show ?thesis using assms(2) by (simp add: touch_view_def touch_held_def)
  qed (use assms in \<open>auto simp: no_guest_def touch_held_def all_reports_def elo_rep_delay_done_def elo_reset_complete_def
    split: if_splits\<close>)
  then show ?thesis using status by simp
qed

lemma held_run:
  "elo_ok dev \<Longrightarrow> touch_held dev \<Longrightarrow> list_all event_ok es \<Longrightarrow> list_all no_guest es \<Longrightarrow> Untouch_due \<notin> set es \<Longrightarrow>
     \<forall>s \<in> set (elo_touches es dev). s AND NOT ELO_ST_OUTOFRANGE = ELO_M1_STREAM"
proof (induction es arbitrary: dev)
  case (Cons e es)
  obtain out d where r: "elo_react e dev = Some (out, d)" "elo_ok d"
    using react_ok [OF Cons.prems(1), of e] Cons.prems(3) by auto
  have h: "touch_held d \<and> (\<forall>s \<in> set (tick_report e dev). s AND NOT ELO_ST_OUTOFRANGE = ELO_M1_STREAM)"
    using held_react [OF Cons.prems(1,2) _ _ r(1)] Cons.prems(4,5) by auto
  then have "\<forall>s \<in> set (elo_touches es d). s AND NOT ELO_ST_OUTOFRANGE = ELO_M1_STREAM"
    using Cons.IH [OF r(2)] Cons.prems(3-5) by simp
  then show ?case using h r(1) by auto
qed simp

text \<open>The hold runs out: the release is reported on the next idle tick.\<close>

lemma hold_runs_out:
  assumes "touch_held dev" "\<not> el_but dev" "el_untouch_timer dev \<noteq> None" "\<not> el_cal_active dev" "\<not> el_in_reset dev"
    "fifo8_num_used (el_resp dev) = 0"
  shows "\<exists>s. elo_touches [Untouch_due, Tick True] dev = [s] \<and> s AND NOT ELO_ST_OUTOFRANGE = ELO_M1_UNTOUCH"
proof -
  let ?d = "elo_untouch_done (dev\<lparr>el_untouch_timer := None\<rparr>)"
  obtain v where t: "el_untouch_timer dev = Some v" using assms(3) by blast
  have d: "all_reports ?d" "\<not> el_cal_active ?d" "\<not> el_untouch_pending ?d" "el_but ?d \<noteq> el_but_old ?d" "\<not> el_but ?d"
    using assms by (simp_all add: elo_untouch_done_def touch_held_def all_reports_def)
  then obtain st x y stream where r: "elo_report ?d = Some (st, x, y, stream)"
    using edge_reported by (metis option.exhaust prod_cases4)
  have "st AND NOT ELO_ST_OUTOFRANGE = ELO_M1_UNTOUCH"
    using report_status(1) [OF d(1) r] d(5) by (simp add: report_kind_def)
  moreover have "elo_touches [Untouch_due, Tick True] dev = [st]"
    using t assms(5,6) r by (cases "elo_write_to_host True ?d") (simp_all add: tick_report_def elo_untouch_done_def case_prod_beta)
  ultimately show ?thesis by blast
qed

text \<open>
  A skip while sliding stays one touch: with an Untouch delay set, from a touch that
  was reported and is still on or only just let go, no matter how often the finger lifts
  and returns, as long as the hold does not run out the host sees the running touch and
  nothing else: neither an Untouch nor a second Initial.
\<close>

theorem skip_stays_one_touch:
  assumes "elo_ok dev" "touch_held dev" "list_all event_ok es" "list_all no_guest es" "Untouch_due \<notin> set es"
  shows "\<forall>s \<in> set (elo_touches es dev). s AND NOT ELO_ST_OUTOFRANGE = ELO_M1_STREAM"
  by (rule held_run [OF assms])

theorem skip_stays_one_touch_witness:
  "\<exists>dev. \<forall>s \<in> set (elo_touches [Poll False 100 200, Tick True, Poll True 110 200, Tick True] dev). s AND NOT 0x40 = 2"
proof -
  let ?d = "(elo_init 9600 None)\<lparr>el_but := True, el_but_old := True, el_but_prev := True, el_udelay := 5\<rparr>"
  have "elo_ok ?d" using init_factory(1) [of 9600] by (simp add: elo_ok_defs)
  moreover have "touch_held ?d" by (simp add: touch_held_def all_reports_def init_factory)
  ultimately show ?thesis
    by (intro exI [of _ ?d] skip_stays_one_touch) (simp_all add: raw_range_def ELO_RAW_MAX_def no_guest_def)
qed

end
