(* ===== verification/Elo_Coord.thy ===== *)
theory Elo_Coord
  imports Elo_Wire
begin

text \<open>
  The coordinates the Elo controller reports: the image of the calibrated area under
  calibration, trim, scaling and inversion, and the reading back of the binary reports.
\<close>

section \<open>Truncating division\<close>

lemma sdiv_pos: "0 \<le> (a :: int) \<Longrightarrow> 0 < b \<Longrightarrow> a sdiv b = a div b"
  by (simp add: signed_divide_int_def sgn_if)

lemma sdiv_minus: "(- a :: int) sdiv b = - (a sdiv b)" "(a :: int) sdiv (- b) = - (a sdiv b)"
  by (simp_all add: signed_divide_int_def sgn_minus)

lemma sdiv_flip: "(- a :: int) sdiv (- b) = a sdiv b"
  by (simp add: sdiv_minus)

lemma sdiv_mono:
  fixes a b :: int
  assumes "a \<le> b" "0 < k"
  shows "a sdiv k \<le> b sdiv k"
proof -
  consider "0 \<le> a" | "a < 0" "0 \<le> b" | "b < 0" using assms(1) by linarith
  then show ?thesis
  proof cases
    case 1
    then show ?thesis using assms by (simp add: sdiv_pos zdiv_mono1)
  next
    case 2
    then have "0 \<le> (- a) sdiv k" "0 \<le> b sdiv k"
      using assms(2) sdiv_pos [of "- a" k] sdiv_pos [of b k] by (simp_all add: pos_imp_zdiv_nonneg_iff del: sdiv_minus)
    then show ?thesis using sdiv_minus(1) [of a k] by linarith
  next
    case 3
    then have "(- b) div k \<le> (- a) div k" using assms by (intro zdiv_mono1) simp_all
    then have "(- b) sdiv k \<le> (- a) sdiv k" using sdiv_pos [of "- a" k] sdiv_pos [of "- b" k] 3 assms by linarith
    then show ?thesis using sdiv_minus(1) [of a k] sdiv_minus(1) [of b k] by linarith
  qed
qed

lemma sdiv_times:
  assumes "0 < k"
  shows "(a * k :: int) sdiv k = a"
proof (cases "0 \<le> a")
  case True
  then show ?thesis using assms by (simp add: sdiv_pos)
next
  case False
  then have "0 \<le> (- a) * k" using assms by (intro mult_nonneg_nonneg) simp_all
  then have "((- a) * k) sdiv k = (- a) * k div k" using assms by (rule sdiv_pos)
  also have "\<dots> = - a" using assms by (intro nonzero_mult_div_cancel_right) simp
  finally show ?thesis using sdiv_minus(1) [of "a * k" k] by simp
qed

lemma sdiv_between:
  fixes a :: int
  assumes "0 < k" "x * k \<le> a" "a \<le> y * k"
  shows "x \<le> a sdiv k" "a sdiv k \<le> y"
  using sdiv_mono [OF assms(2,1)] sdiv_mono [OF assms(3,1)] sdiv_times [OF assms(1)] by simp_all

section \<open>Calibration\<close>

text \<open>The calibrated reading, before trim: all of it in 32 bits.\<close>

definition cal_image :: "int \<Rightarrow> int \<Rightarrow> int \<Rightarrow> int" where
  "cal_image lo hi raw = ((raw - lo) * 4095) sdiv (hi - lo)"

lemma cal_image_flip: "cal_image lo hi raw = ((lo - raw) * 4095) sdiv (lo - hi)"
  unfolding cal_image_def using sdiv_flip [of "(raw - lo) * 4095" "hi - lo"]
  by (simp add: algebra_simps)

lemma cal_image_ends: "lo \<noteq> hi \<Longrightarrow> cal_image lo hi lo = 0 \<and> cal_image lo hi hi = 4095"
proof (cases "lo < hi")
  case True
  then show ?thesis using sdiv_times [of "hi - lo" 4095] by (simp add: cal_image_def mult.commute)
next
  case False
  assume "lo \<noteq> hi"
  then show ?thesis
    using False sdiv_times [of "lo - hi" 4095] by (simp add: cal_image_flip mult.commute)
qed

text \<open>Outside the calibrated area is outside 0..4095, when the area is no larger than the screen.\<close>

lemma cal_image_inside_pos:
  assumes "0 < k" "k \<le> 4095"
  shows "0 \<le> (t * 4095) sdiv k \<and> (t * 4095) sdiv k \<le> 4095 \<longleftrightarrow> 0 \<le> t \<and> t \<le> (k :: int)"
proof -
  have "(t * 4095) sdiv k \<le> - 1" if "t < 0"
  proof -
    have "t * 4095 \<le> - 1 * k" using that assms(2) by linarith
    then show ?thesis using sdiv_mono [OF _ assms(1)] sdiv_times [OF assms(1), of "- 1"] by metis
  qed
  moreover have "4096 \<le> (t * 4095) sdiv k" if "k < t"
  proof -
    have "4096 * k \<le> (k + 1) * 4095" using assms(2) by simp
    also have "\<dots> \<le> t * 4095" using that by simp
    finally show ?thesis using sdiv_mono [OF _ assms(1)] sdiv_times [OF assms(1), of 4096] by metis
  qed
  moreover have "0 \<le> (t * 4095) sdiv k \<and> (t * 4095) sdiv k \<le> 4095" if "0 \<le> t" "t \<le> k"
    using sdiv_between [OF assms(1), of 0 "t * 4095" 4095] that by (simp add: mult.commute)
  ultimately show ?thesis by (cases "t < 0"; cases "k < t") auto
qed

lemma cal_image_inside:
  assumes "lo \<noteq> hi" "\<bar>hi - lo\<bar> \<le> 4095"
  shows "0 \<le> cal_image lo hi raw \<and> cal_image lo hi raw \<le> 4095 \<longleftrightarrow> min lo hi \<le> raw \<and> raw \<le> max lo hi"
proof (cases "lo < hi")
  case True
  then show ?thesis
    using cal_image_inside_pos [of "hi - lo" "raw - lo"] assms by (simp add: cal_image_def min_def max_def)
next
  case False
  then show ?thesis
    using cal_image_inside_pos [of "lo - hi" "lo - raw"] assms by (auto simp: cal_image_flip min_def max_def)
qed

text \<open>On which side: below the calibrated area is below zero.\<close>

lemma cal_image_side:
  assumes "lo \<noteq> hi"
  shows "cal_image lo hi raw < 0 \<Longrightarrow> (if lo < hi then raw < lo else lo < raw)"
    and "4095 < cal_image lo hi raw \<Longrightarrow> (if lo < hi then hi < raw else raw < hi)"
proof -
  have pos: "0 \<le> (t * 4095) sdiv k" if "0 \<le> t" "0 < k" for t k :: int
    using sdiv_between(1) [OF that(2), of 0 "t * 4095" "t * 4095"] that by (simp add: sdiv_pos pos_imp_zdiv_nonneg_iff)
  have top: "(t * 4095) sdiv k \<le> 4095" if "t \<le> k" "0 < k" for t k :: int
    using sdiv_mono [OF _ that(2), of "t * 4095" "4095 * k"] sdiv_times [OF that(2), of 4095] that by simp
  have eq: "cal_image lo hi raw = (raw - lo) * 4095 sdiv (hi - lo)" "cal_image lo hi raw = (lo - raw) * 4095 sdiv (lo - hi)"
    by (rule cal_image_def, rule cal_image_flip)
  show "if lo < hi then raw < lo else lo < raw" if "cal_image lo hi raw < 0"
  proof (cases "lo < hi")
    case True
    then show ?thesis using that pos [of "raw - lo" "hi - lo"] unfolding eq(1) by force
  next
    case False
    then show ?thesis using that assms pos [of "lo - raw" "lo - hi"] unfolding eq(2) by force
  qed
  show "if lo < hi then hi < raw else raw < hi" if "4095 < cal_image lo hi raw"
  proof (cases "lo < hi")
    case True
    then show ?thesis using that top [of "raw - lo" "hi - lo"] unfolding eq(1) by force
  next
    case False
    then show ?thesis using that assms top [of "lo - raw" "lo - hi"] unfolding eq(2) by force
  qed
qed

lemma cal_image_32:
  assumes "raw_range raw" "cal_range lo" "lo \<noteq> hi"
  shows "i32 (cal_image lo hi raw) = cal_image lo hi raw"
proof -
  have "\<bar>cal_image lo hi raw\<bar> \<le> \<bar>(raw - lo) * 4095\<bar>"
  proof -
    have b: "\<bar>(t :: int) sdiv k\<bar> \<le> \<bar>t\<bar>" if "0 < k" for t k
    proof -
      have "\<bar>t\<bar> * 1 \<le> \<bar>t\<bar> * k" using that by (intro mult_left_mono) simp_all
      then have "- \<bar>t\<bar> * k \<le> t" "t \<le> \<bar>t\<bar> * k" by linarith+
      then show ?thesis using sdiv_between [OF that, of "- \<bar>t\<bar>" t "\<bar>t\<bar>"] by (simp add: abs_le_iff)
    qed
    have "\<bar>(lo - raw) * 4095\<bar> = \<bar>(raw - lo) * 4095\<bar>" by (simp add: abs_minus_commute abs_mult)
    moreover have "cal_image lo hi raw = (raw - lo) * 4095 sdiv (hi - lo)" "cal_image lo hi raw = (lo - raw) * 4095 sdiv (lo - hi)"
      by (rule cal_image_def, rule cal_image_flip)
    ultimately show ?thesis
      using b [of "hi - lo" "(raw - lo) * 4095"] b [of "lo - hi" "(lo - raw) * 4095"] assms(3)
      by (metis diff_gt_0_iff_gt linorder_neqE)
  qed
  also have "\<dots> < 2147483648"
    using assms(1,2) by (auto simp: raw_range_def cal_range_def ELO_RAW_MAX_def abs_if)
  finally show ?thesis by (intro i32_small) (simp_all add: abs_less_iff)
qed

section \<open>Scaling\<close>

definition scale_image :: "bool \<Rightarrow> int \<Rightarrow> int \<Rightarrow> int \<Rightarrow> int" where
  "scale_image flip lo hi mid =
     (let v = lo + (mid * (hi - lo)) sdiv 4095 in if flip then lo + hi - v else v)"

lemma scale_image_bounds:
  assumes "0 \<le> mid" "mid \<le> 4095"
  shows "min lo hi \<le> scale_image flip lo hi mid \<and> scale_image flip lo hi mid \<le> max lo hi"
proof (cases "lo \<le> hi")
  case True
  have "0 * 4095 \<le> mid * (hi - lo)" "mid * (hi - lo) \<le> (hi - lo) * 4095"
    using True assms mult_right_mono [of mid 4095 "hi - lo"] by (simp_all add: mult.commute)
  then have "0 \<le> (mid * (hi - lo)) sdiv 4095" "(mid * (hi - lo)) sdiv 4095 \<le> hi - lo"
    using sdiv_between [of 4095 0 "mid * (hi - lo)" "hi - lo"] by simp_all
  then show ?thesis using True by (auto simp: scale_image_def Let_def)
next
  case False
  have "(hi - lo) * 4095 \<le> mid * (hi - lo)" "mid * (hi - lo) \<le> 0 * 4095"
    using False assms mult_right_mono_neg [of mid 4095 "hi - lo"]
    by (simp_all add: mult.commute mult_nonneg_nonpos)
  then have "hi - lo \<le> (mid * (hi - lo)) sdiv 4095" "(mid * (hi - lo)) sdiv 4095 \<le> 0"
    using sdiv_between [of 4095 "hi - lo" "mid * (hi - lo)" 0] by simp_all
  then show ?thesis using False by (auto simp: scale_image_def Let_def)
qed

lemma scale_image_ends:
  "scale_image flip lo hi 0 = (if flip then hi else lo)" "scale_image flip lo hi 4095 = (if flip then lo else hi)"
  using sdiv_times [of 4095 "hi - lo"] by (simp_all add: scale_image_def mult.commute)

lemma scale_32:
  assumes "0 \<le> mid" "mid \<le> 4095" "cal_range lo" "cal_range hi"
  shows "i32 ((mid * (hi - lo)) sdiv 4095) = (mid * (hi - lo)) sdiv 4095"
proof -
  have "min lo hi \<le> lo + (mid * (hi - lo)) sdiv 4095 \<and> lo + (mid * (hi - lo)) sdiv 4095 \<le> max lo hi"
    using scale_image_bounds [OF assms(1,2), of lo hi False] by (simp add: scale_image_def)
  then show ?thesis using assms(3,4) by (intro i32_small) (auto simp: cal_range_def min_def max_def split: if_splits)
qed

section \<open>The coordinate of a touch\<close>

text \<open>With calibration and its trim on: the two maps in a row.\<close>

definition trimmed :: "int \<Rightarrow> int" where
  "trimmed mid = max 0 (min 4095 mid)"

lemma trimmed_bounds: "0 \<le> trimmed v" "trimmed v \<le> 4095"
  by (simp_all add: trimmed_def)

definition elo_trims :: "'a elo_cfg_scheme \<Rightarrow> bool" where
  "elo_trims c \<longleftrightarrow> el_mode1 c AND ELO_M1_RANGECHK \<noteq> 0 \<and> el_mode2 c AND ELO_M2_CAL \<noteq> 0 \<and> el_mode2 c AND ELO_M2_TRIM \<noteq> 0 \<and>
     el_mode2 c AND ELO_M2_SCALE \<noteq> 0"

lemma transform_trims:
  assumes "elo_cfg_ok c" "elo_trims c" "a < 2" "raw_range raw" "el_cal_lo c ! a \<noteq> el_cal_hi c ! a"
  shows "elo_transform a raw c =
    (scale_image (bit (el_inv c) a) (el_sc_lo c ! a) (el_sc_hi c ! a) (trimmed (cal_image (el_cal_lo c ! a) (el_cal_hi c ! a) raw)),
     cal_image (el_cal_lo c ! a) (el_cal_hi c ! a) raw < 0 \<or> 4095 < cal_image (el_cal_lo c ! a) (el_cal_hi c ! a) raw)"
proof -
  let ?lo = "el_cal_lo c ! a" and ?hi = "el_cal_hi c ! a" and ?m = "cal_image (el_cal_lo c ! a) (el_cal_hi c ! a) raw"
  have r: "cal_range ?lo" "cal_range (el_sc_lo c ! a)" "cal_range (el_sc_hi c ! a)"
    using assms(1,3) axis_range by (auto simp: elo_cfg_ok_def)
  have m: "i32 (((raw - ?lo) * 4095) sdiv (?hi - ?lo)) = ?m"
    using cal_image_32 [OF assms(4) r(1) assms(5)] by (simp add: cal_image_def)
  have sc: "i32 ((trimmed ?m * (el_sc_hi c ! a - el_sc_lo c ! a)) sdiv 4095) = (trimmed ?m * (el_sc_hi c ! a - el_sc_lo c ! a)) sdiv 4095"
    by (rule scale_32 [OF trimmed_bounds r(2,3)])
  show ?thesis
  proof (cases "?m < 0 \<or> 4095 < ?m")
    case True
    have t: "(if ?m < 0 then 0 else 4095) = trimmed ?m" using True by (auto simp: trimmed_def)
    show ?thesis
      unfolding elo_transform_def Let_def ELO_RAW_MAX_def m scale_image_def
      using assms(2,5) True by (simp add: elo_trims_def t sc)
  next
    case False
    then have t: "trimmed ?m = ?m" by (simp add: trimmed_def)
    show ?thesis
      unfolding elo_transform_def Let_def ELO_RAW_MAX_def m scale_image_def
      using assms(2,5) False sc by (simp add: elo_trims_def t)
  qed
qed

lemma cal_image_below:
  assumes "lo \<noteq> hi" "if lo < hi then raw \<le> lo else lo \<le> raw"
  shows "cal_image lo hi raw \<le> 0"
proof (cases "lo < hi")
  case True
  then show ?thesis
    using sdiv_mono [of "(raw - lo) * 4095" 0 "hi - lo"] assms(2) unfolding cal_image_def by simp
next
  case False
  then show ?thesis
    using sdiv_mono [of "(lo - raw) * 4095" 0 "lo - hi"] assms unfolding cal_image_flip [of lo hi] by simp
qed

lemma cal_image_above:
  assumes "lo \<noteq> hi" "if lo < hi then hi \<le> raw else raw \<le> hi"
  shows "4095 \<le> cal_image lo hi raw"
proof (cases "lo < hi")
  case True
  then show ?thesis
    using sdiv_mono [of "4095 * (hi - lo)" "(raw - lo) * 4095" "hi - lo"] sdiv_times [of "hi - lo" 4095] assms(2)
    unfolding cal_image_def by simp
next
  case False
  then show ?thesis
    using sdiv_mono [of "4095 * (lo - hi)" "(lo - raw) * 4095" "lo - hi"] sdiv_times [of "lo - hi" 4095] assms
    unfolding cal_image_flip [of lo hi] by simp
qed

lemma clamp_same:
  assumes "lo \<noteq> hi"
  shows "trimmed (cal_image lo hi (max (min lo hi) (min (max lo hi) raw))) = trimmed (cal_image lo hi raw)"
proof -
  note e = cal_image_ends [OF assms] and below = cal_image_below [OF assms, of raw] and above = cal_image_above [OF assms, of raw]
  show ?thesis
    using e below above assms
    by (cases "lo < hi"; cases "raw \<le> lo"; cases "raw \<le> hi") (auto simp: min_def max_def trimmed_def)
qed

text \<open>
  C24. A calibrated screen reports the calibrated area: with calibration, range check,
  trim and scaling on and an area no larger than the screen, every reading comes out
  between the scaling ends, the ends of the area come out at those ends (or, inverted,
  the other way round), a touch outside the area comes out where its nearest point inside
  does, and the range bit is set for exactly those touches. No product leaves 32 bits.
\<close>

theorem calibrated_reports:
  assumes "elo_cfg_ok c" "elo_trims c" "a < 2" "raw_range raw"
    and "lo = el_cal_lo c ! a" "hi = el_cal_hi c ! a" "lo \<noteq> hi" "\<bar>hi - lo\<bar> \<le> 4095"
    and "slo = el_sc_lo c ! a" "shi = el_sc_hi c ! a"
    and "elo_transform a raw c = (v, oor)"
  shows "min slo shi \<le> v \<and> v \<le> max slo shi \<and>
    (raw = lo \<longrightarrow> v = (if bit (el_inv c) a then shi else slo)) \<and>
    (raw = hi \<longrightarrow> v = (if bit (el_inv c) a then slo else shi)) \<and>
    (oor \<longleftrightarrow> raw < min lo hi \<or> max lo hi < raw) \<and>
    v = scale_image (bit (el_inv c) a) slo shi (trimmed (cal_image lo hi (max (min lo hi) (min (max lo hi) raw))))"
proof -
  have v: "v = scale_image (bit (el_inv c) a) slo shi (trimmed (cal_image lo hi raw))"
      "oor = (cal_image lo hi raw < 0 \<or> 4095 < cal_image lo hi raw)"
    using transform_trims [OF assms(1-4)] assms(5-11) by simp_all
  moreover have "oor \<longleftrightarrow> raw < min lo hi \<or> max lo hi < raw"
    unfolding v(2) using cal_image_inside [OF assms(7,8), of raw] by auto
  moreover have "trimmed 0 = 0" "trimmed 4095 = 4095" by (simp_all add: trimmed_def)
  ultimately show ?thesis
    using scale_image_bounds [OF trimmed_bounds] cal_image_ends [OF assms(7)]
    by (simp add: scale_image_ends clamp_same [OF assms(7)])
qed

text \<open>A mirrored axis: the calibration runs from right to left, the scaling from 0 to 639.\<close>

theorem calibrated_reports_witness:
  "\<exists>c v oor. elo_transform 0 2000 (c :: elo) = (v, oor) \<and> 0 \<le> v \<and> v \<le> 639 \<and> \<not> oor"
proof -
  let ?c = "(elo_init 9600 None)\<lparr>el_mode1 := 0xC7, el_mode2 := 0x0E, el_cal_lo := [3900, 200], el_cal_hi := [150, 3800],
    el_sc_lo := [0, 0], el_sc_hi := [639, 479]\<rparr>"
  have "elo_cfg_ok ?c"
    using init_factory(1) [of 9600] by (simp add: elo_ok_def elo_cfg_ok_def cal_axes_def cal_range_def)
  moreover have "elo_trims ?c" by (simp add: elo_trims_def)
  moreover obtain v oor where "elo_transform 0 2000 ?c = (v, oor)" by (cases "elo_transform 0 2000 ?c")
  ultimately show ?thesis
    using calibrated_reports [of ?c 0 2000 3900 150 0 639 v oor]
    by (intro exI [of _ ?c] exI [of _ v] exI [of _ oor]) (simp add: raw_range_def ELO_RAW_MAX_def)
qed

section \<open>Calibration by two touches\<close>

lemma cal_touch_step:
  assumes "elo_ok dev" "el_cal_active dev"
  shows "\<exists>d. elo_cal_touch dev = Some d \<and> elo_ok d \<and> el_cal_but d = el_but dev \<and> el_swap d = el_swap dev \<and>
    (if el_but dev \<and> \<not> el_cal_but dev then
       el_cal_pts d = (el_cal_pts dev)[el_cal_step dev := el_raw dev] \<and> el_cal_step d = Suc (el_cal_step dev) \<and>
       (if 1 \<le> el_cal_step dev
        then \<not> el_cal_active d \<and> el_cal_lo d = [el_cal_pts d ! 0 ! 0, el_cal_pts d ! 0 ! 1] \<and>
             el_cal_hi d = [el_cal_pts d ! 1 ! 0, el_cal_pts d ! 1 ! 1]
        else el_cal_active d)
     else el_cal_pts d = el_cal_pts dev \<and> el_cal_step d = el_cal_step dev \<and> el_cal_active d)"
proof -
  obtain d where d: "elo_cal_touch dev = Some d" "elo_ok d" using cal_touch_ok [OF assms(1)] by blast
  have swap: "el_swap (elo_said bs x) = el_swap x" for bs x by (simp add: elo_said_def)
  have q: "elo_queue_ok (dev\<lparr>el_cal_pts := ps, el_cal_step := n\<rparr>)" for ps n
    using assms(1) by (simp add: elo_ok_def elo_queue_ok_def)
  show ?thesis
    using d assms(2) by (auto simp: elo_cal_touch_def elo_ack_def elo_enqueue_said q swap Let_def split: if_splits)
qed

lemma hold_cal_fields:
  "el_cal_active (elo_hold d) = el_cal_active d" "el_cal_but (elo_hold d) = el_cal_but d"
  "el_cal_step (elo_hold d) = el_cal_step d" "el_cal_pts (elo_hold d) = el_cal_pts d"
  "el_but (elo_hold d) = el_but d" "el_raw (elo_hold d) = el_raw d" "el_swap (elo_hold d) = el_swap d"
  by (simp_all add: elo_hold_def Let_def)

lemma poll_cal_step:
  assumes "elo_ok dev" "el_cal_active dev" "\<not> el_swap dev" "raw_range x" "raw_range y"
  shows "\<exists>d. elo_poll but x y dev = Some d \<and> elo_ok d \<and> el_cal_but d = but \<and> \<not> el_swap d \<and>
    (if but \<and> \<not> el_cal_but dev then
       el_cal_pts d = (el_cal_pts dev)[el_cal_step dev := [x, y]] \<and> el_cal_step d = Suc (el_cal_step dev) \<and>
       (if 1 \<le> el_cal_step dev
        then \<not> el_cal_active d \<and> el_cal_lo d = [el_cal_pts d ! 0 ! 0, el_cal_pts d ! 0 ! 1] \<and>
             el_cal_hi d = [el_cal_pts d ! 1 ! 0, el_cal_pts d ! 1 ! 1]
        else el_cal_active d)
     else el_cal_pts d = el_cal_pts dev \<and> el_cal_step d = el_cal_step dev \<and> el_cal_active d)"
proof -
  let ?h = "elo_hold (dev\<lparr>el_but := but, el_raw := [x, y]\<rparr>)"
  have "elo_ok ?h" using assms by (simp add: elo_hold_def elo_ok_defs raw_point_def Let_def)
  moreover have "el_cal_active ?h" using assms(2) by (simp add: hold_cal_fields)
  ultimately show ?thesis
    using cal_touch_step [of ?h] assms(3) by (simp add: elo_poll_def hold_cal_fields cong: if_cong)
qed

text \<open>
  Two touches calibrate: after the calibration command, the first two touches, each
  begun with the screen free, become the two corners of the calibrated area, whatever
  the pointer does between them while it is up; the calibration is over with the second,
  and with calibration on the two readings then come out at the two ends of the range.
\<close>

theorem two_touches_calibrate:
  assumes "elo_ok dev" "\<not> el_but dev" "\<not> el_swap dev"
    and "raw_range x0" "raw_range y0" "raw_range u" "raw_range w" "raw_range x1" "raw_range y1" "x0 \<noteq> x1" "y0 \<noteq> y1"
  shows "\<exists>d. elo_run [Poll True x0 y0, Poll False u w, Poll True x1 y1] (fst (cmd_calibrate False (resp7 [0x32]) dev)) = Some ([], d) \<and>
    \<not> el_cal_active d \<and> el_cal_lo d = [x0, y0] \<and> el_cal_hi d = [x1, y1] \<and>
    elo_transform 0 x0 (d\<lparr>el_mode2 := ELO_M2_CAL\<rparr>) = (0, False) \<and> elo_transform 1 y0 (d\<lparr>el_mode2 := ELO_M2_CAL\<rparr>) = (0, False) \<and>
    elo_transform 0 x1 (d\<lparr>el_mode2 := ELO_M2_CAL\<rparr>) = (4095, False) \<and> elo_transform 1 y1 (d\<lparr>el_mode2 := ELO_M2_CAL\<rparr>) = (4095, False)"
proof -
  let ?c = "fst (cmd_calibrate False (resp7 [0x32]) dev)"
  have "elo_ok ?c" by (rule cmd_calibrate_ok [OF assms(1)])
  moreover have "el_cal_active ?c" "\<not> el_swap ?c" "\<not> el_cal_but ?c" "el_cal_step ?c = 0"
    using assms(2,3) by (simp_all add: cmd_calibrate_def resp7_def)
  ultimately have c: "elo_ok ?c" "el_cal_active ?c" "\<not> el_swap ?c" "\<not> el_cal_but ?c" "el_cal_step ?c = 0" .
  then have "length (el_cal_pts ?c) = 2" by (simp only: elo_ok_def elo_pointer_ok_def)
  then obtain p q where pts: "el_cal_pts ?c = [p, q]" by (auto simp: numeral_2_eq_2 length_Suc_conv)
  obtain d1 where d1: "elo_poll True x0 y0 ?c = Some d1" "elo_ok d1" "el_cal_but d1" "\<not> el_swap d1" "el_cal_active d1"
      "el_cal_pts d1 = [[x0, y0], q]" "el_cal_step d1 = 1"
    using poll_cal_step [OF c(1-3) assms(4,5), of True] c(4,5) pts by auto
  obtain d2 where d2: "elo_poll False u w d1 = Some d2" "elo_ok d2" "\<not> el_cal_but d2" "\<not> el_swap d2" "el_cal_active d2"
      "el_cal_pts d2 = [[x0, y0], q]" "el_cal_step d2 = 1"
    using poll_cal_step [OF d1(2,5,4) assms(6,7), of False] d1 by auto
  obtain d3 where d3: "elo_poll True x1 y1 d2 = Some d3" "\<not> el_cal_active d3" "el_cal_lo d3 = [x0, y0]" "el_cal_hi d3 = [x1, y1]"
    using poll_cal_step [OF d2(2,5,4) assms(8,9), of True] d2 by auto
  have r: "cal_range x0" "cal_range y0" "cal_range x1" "cal_range y1"
    using assms(4,5,8,9) by (auto simp: raw_range_def cal_range_def ELO_RAW_MAX_def)
  have im: "elo_transform a raw (d3\<lparr>el_mode2 := ELO_M2_CAL\<rparr>) = (v, False)"
    if "a < 2" "raw_range raw" "cal_range ([x0, y0] ! a)" "[x0, y0] ! a \<noteq> [x1, y1] ! a"
      "cal_image ([x0, y0] ! a) ([x1, y1] ! a) raw = v" "0 \<le> v" "v \<le> 4095" for a raw v
  proof -
    have m: "i32 (((raw - [x0, y0] ! a) * 4095) sdiv ([x1, y1] ! a - [x0, y0] ! a)) = v"
      using cal_image_32 [OF that(2-4)] that(5) by (simp add: cal_image_def)
    show ?thesis
      unfolding elo_transform_def Let_def ELO_RAW_MAX_def
      using that(4,6,7) m by (simp add: d3(3,4) del: nth_Cons_0 left_diff_distrib_numeral)
  qed
  note e0 = cal_image_ends [OF assms(10)] and e1 = cal_image_ends [OF assms(11)]
  show ?thesis
    using d1(1) d2(1) d3 im [of 0 x0 0] im [of 1 y0 0] im [of 0 x1 4095] im [of 1 y1 4095] assms r e0 e1 by simp
qed

theorem two_touches_calibrate_witness:
  "\<exists>d. elo_run [Poll True 300 400, Poll False 0 0, Poll True 3800 3700]
       (fst (cmd_calibrate False (resp7 [0x32]) (elo_init 9600 None))) = Some ([], d) \<and>
     el_cal_lo d = [300, 400] \<and> el_cal_hi d = [3800, 3700]"
proof -
  have "\<not> el_swap (elo_init 9600 None)"
    by (simp add: elo_init_def elo_load_nvr_def elo_load_nvr_areas_def elo_nvr_read_file_def elo_nvr_zero_def
      elo_timer_apply_def elo_load_defaults_def elo_zero_def ELO_NVR_MAGIC_def Let_def)
  then show ?thesis
    using two_touches_calibrate [OF init_factory(1), of 9600 300 400 0 0 3800 3700] init_factory(14)
    by (auto simp: raw_range_def ELO_RAW_MAX_def)
qed

section \<open>Binary reports read back\<close>

text \<open>
  A host's reading of the four bytes of the E271-140 format: six bits of a coordinate
  each, the position of the byte in its top two bits. The E281A-4002 format is the same
  with two more bytes for Z.
\<close>

definition host_12 :: "u8 \<Rightarrow> u8 \<Rightarrow> int" where
  "host_12 h l = 64 * uint (h AND 0x3f) + uint (l AND 0x3f)"

definition host_140 :: "u8 list \<Rightarrow> int \<times> int" where
  "host_140 bs = (host_12 (bs ! 0) (bs ! 1), host_12 (bs ! 2) (bs ! 3))"

definition host_native :: "u8 list \<Rightarrow> u8 \<times> int \<times> int \<times> int" where
  "host_native d = (d ! 0, i16 (le16 (d ! 1) (d ! 2)), i16 (le16 (d ! 3) (d ! 4)), i16 (le16 (d ! 5) (d ! 6)))"

lemma and_3f: "uint ((w :: u8) AND 0x3f) = uint w mod 64"
proof -
  have "uint w AND mask 6 = take_bit 6 (uint w)" by (simp add: take_bit_eq_mask)
  moreover have "(mask 6 :: int) = 63" by (simp add: mask_numeral)
  ultimately have "uint w AND 63 = take_bit 6 (uint w)" by metis
  then show ?thesis by (simp add: uint_and take_bit_eq_mod)
qed

lemma bits_12:
  assumes "0 \<le> v" "v < 4096"
  shows "64 * (uint (word_of_int (drop_bit 6 v) :: u8) mod 64) + uint (word_of_int v :: u8) mod 64 = v"
proof -
  have "uint (word_of_int (drop_bit 6 v) :: u8) = v div 64 mod 256" "uint (word_of_int v :: u8) = v mod 256"
    by (simp_all add: uint_word_of_int drop_bit_eq_div)
  moreover have "v div 64 < 64" "0 \<le> v div 64" using assms zdiv_mono1 [of v 4095 64] by (simp_all add: pos_imp_zdiv_nonneg_iff)
  then have "v div 64 mod 256 mod 64 = v div 64" by simp
  moreover have "v mod 256 mod 64 = v mod 64" by (simp add: mod_mod_cancel)
  ultimately show ?thesis by (metis mult_div_mod_eq)
qed

lemma all_below_4: "(\<forall>n < (4::nat). P n) \<longleftrightarrow> P 0 \<and> P 1 \<and> P 2 \<and> P 3"
  by (simp add: numeral_eq_Suc All_less_Suc conj_assoc) blast

lemma all_below_6: "(\<forall>n < (6::nat). P n) \<longleftrightarrow> P 0 \<and> P 1 \<and> P 2 \<and> P 3 \<and> P 4 \<and> P 5"
  by (simp add: numeral_eq_Suc All_less_Suc conj_assoc) blast

lemma mark_and_3f:
  fixes w :: u8
  shows "(0xc0 OR (w AND 0x3f)) AND 0x3f = w AND 0x3f" "(0x80 OR (w AND 0x3f)) AND 0x3f = w AND 0x3f"
    "(0x40 OR (w AND 0x3f)) AND 0x3f = w AND 0x3f" "(w AND 0x3f) AND 0x3f = w AND 0x3f"
    "(0xc0 OR (w AND 0x3f)) AND 0xc0 = 0xc0" "(0x80 OR (w AND 0x3f)) AND 0xc0 = 0x80"
    "(0x40 OR (w AND 0x3f)) AND 0xc0 = 0x40" "(w AND 0x3f) AND 0xc0 = 0"
  by (rule byte_eqI; simp add: bit_simps)+

text \<open>
  C25. A report reads back as the coordinate: what a controller with the E271-140 or
  E281A-4002 binary format queues for a coordinate of twelve bits gives it back from the
  low six bits of its bytes, and the first byte is the only one of the packet with both
  top bits set, so a host finds it; the native packet gives back status and any
  coordinate of sixteen signed bits, keyed or not.
\<close>

theorem reports_read_back:
  assumes "bs = touch_bytes st x y (elo_z_value dev) dev"
    and "el_fmt dev = 0 \<or> el_fmt dev = 6 \<Longrightarrow> 0 \<le> x \<and> x < 4096 \<and> 0 \<le> y \<and> y < 4096"
    and "el_fmt dev = 4 \<Longrightarrow> - 32768 \<le> x \<and> x < 32768 \<and> - 32768 \<le> y \<and> y < 32768"
  shows "(el_fmt dev = 0 \<or> el_fmt dev = 6 \<longrightarrow>
      length bs = (if el_fmt dev = 0 then 4 else 6) \<and> host_140 bs = (x, y) \<and>
      (\<forall>i < length bs. bs ! i AND 0xC0 = 0xC0 \<longleftrightarrow> i = 0) \<and>
      (el_fmt dev = 6 \<longrightarrow> host_12 (bs ! 4) (bs ! 5) = (if el_tflag dev \<and> st AND ELO_M1_UNTOUCH \<noteq> 0 then 0 else 15))) \<and>
    (el_fmt dev = 4 \<longrightarrow> (\<exists>d. host_packets bs = Some [(0x54, d)] \<and> host_native d = (st, x, y, 255)))"
proof (intro conjI impI)
  assume f: "el_fmt dev = 0 \<or> el_fmt dev = 6"
  define z :: int where "z = (if el_tflag dev \<and> st AND ELO_M1_UNTOUCH \<noteq> 0 then 0 else 15)"
  have bs: "bs = elo_140_bin x y @ (if el_fmt dev = 6 then elo_bin12 z else [])"
    using f unfolding assms(1) touch_bytes_def by (auto simp: elo_z_value_def z_def Let_def)
  have l: "length (elo_140_bin x y) = 4" by (simp add: elo_140_bin_def elo_bin12_def)
  then show len: "length bs = (if el_fmt dev = 0 then 4 else 6)" using f by (auto simp: bs elo_bin12_def)
  have xy: "0 \<le> x" "x < 4096" "0 \<le> y" "y < 4096" using assms(2) [OF f] by simp_all
  show "host_140 bs = (x, y)"
    using bits_12 [OF xy(1,2)] bits_12 [OF xy(3,4)]
    by (simp add: bs host_140_def host_12_def elo_140_bin_def elo_bin12_def mark_and_3f and_3f)
  show "\<forall>i < length bs. bs ! i AND 0xC0 = 0xC0 \<longleftrightarrow> i = 0"
  proof (cases "el_fmt dev = 6")
    case True
    then show ?thesis
      unfolding len by (simp add: all_below_6 bs elo_140_bin_def elo_bin12_def mark_and_3f)
  next
    case False
    then show ?thesis
      using f unfolding len by (simp add: all_below_4 bs elo_140_bin_def elo_bin12_def mark_and_3f)
  qed
  show "host_12 (bs ! 4) (bs ! 5) = z" if "el_fmt dev = 6"
    using that l bits_12 [of z] by (simp add: bs nth_append host_12_def elo_bin12_def mark_and_3f and_3f z_def)
next
  assume f: "el_fmt dev = 4"
  let ?d = "[st, byte_at 0 x, byte_at 1 x, byte_at 0 y, byte_at 1 y, byte_at 0 255, byte_at 1 255]"
  have b: "bs = elo_frame (el_key dev) 0x54 ?d" using f by (simp add: assms(1) touch_bytes_def elo_z_value_def Let_def)
  have "host_packets bs = Some [(0x54, ?d)]"
    using host_packets_frame [of ?d "el_key dev" "0x54" "[]"] host_packets_frames [of "[]"] by (simp add: b)
  moreover have "host_native ?d = (st, x, y, 255)"
    using assms(3) [OF f] i16_byte_at [of x] i16_byte_at [of y] i16_byte_at [of 255] by (simp add: host_native_def)
  ultimately show "\<exists>d. host_packets bs = Some [(0x54, d)] \<and> host_native d = (st, x, y, 255)" by blast
qed

theorem reports_read_back_witness:
  "host_140 (touch_bytes 1 1000 2000 15 ((elo_init 9600 None)\<lparr>el_fmt := 6\<rparr>)) = (1000, 2000)"
  using reports_read_back [of "touch_bytes 1 1000 2000 15 ((elo_init 9600 None)\<lparr>el_fmt := 6\<rparr>)" 1 1000 2000
      "(elo_init 9600 None)\<lparr>el_fmt := 6\<rparr>"]
  by (simp add: elo_z_value_def)

end
