(* ===== verification/Dataprint.thy ===== *)
theory Dataprint
  imports Ring_Array
begin

text \<open>
  The Dataprint, the receipt printer on COM2 (\<open>device/prn_cp80.c\<close>): the parser that puts
  a report on paper, the envelope that frames and checks it, the reply and the keepalive
  the guest waits for, and the window's cursor over the paper.

  The paper is the list of its bytes; \<open>malloc\<close> succeeds. The trace, the log and the
  sound of the mechanism are left out. There is one port (\<open>CP80_PORTS_MAX\<close> is 1); a byte
  handed to \<open>serial_write_fifo\<close> is returned by the tick that writes it.
\<close>

section \<open>State\<close>

definition CP80_PAPER_MAX :: nat where "CP80_PAPER_MAX = 4 * 1024 * 1024"
definition CP80_TABS :: nat where "CP80_TABS = 8"
definition CP80_OUT_MAX :: nat where "CP80_OUT_MAX = 64"
definition CP80_POLL_BUSY :: nat where "CP80_POLL_BUSY = 26000"
definition CP80_POLL_SECS :: nat where "CP80_POLL_SECS = 2"
definition CP80_REPLY :: "u8 list" where "CP80_REPLY = bytes ''DATAPRINT V1.0 C'' @ [0x0A]"

record cp80_buf =
  cb_s :: "u8 list"
  cb_full :: bool

record cp80 =
  cp_port :: nat
  cp_serial :: bool \<comment> \<open>the port is attached\<close>
  cp_connected :: bool
  cp_lines :: bool \<comment> \<open>CTS, DSR and DCD\<close>
  cp_out_q :: "u8 list"
  cp_out_head :: nat
  cp_out_tail :: nat
  cp_out_port :: nat
  cp_paper :: cp80_buf
  cp_dirty :: bool
  tr_active :: bool
  tr_serial :: u64
  tr_completed :: u64
  tr_result :: int
  tr_sum :: u16
  tr_expected :: u16
  tr_phase :: nat
  tr_lfs :: nat
  tr_trailer :: nat
  cp_col :: nat
  cp_pending_cr :: bool
  cp_esc :: nat
  cp_esc_intro :: u8
  cp_esc_cmd :: u8
  cp_esc_want :: int
  cp_esc_zero :: bool
  cp_esc_image :: int
  cp_esc_par :: "u8 list"
  cp_esc_got :: nat
  cp_attention :: bool
  cp_polls :: nat
  cp_ticks :: nat
  cp_busy_secs :: nat

section \<open>The paper\<close>

definition cp80_note :: "u8 list" where
  "cp80_note = [0x0A] @ bytes ''[buffer full -- not recording any more]'' @ [0x0A]"

definition cp80_put :: "nat \<Rightarrow> u8 list \<Rightarrow> cp80_buf \<Rightarrow> cp80_buf" where
  "cp80_put mx s b =
     (if cb_full b then b
      else if length (cb_s b) + length s > mx then \<lparr>cb_s = cb_s b @ cp80_note, cb_full = True\<rparr>
      else b\<lparr>cb_s := cb_s b @ s\<rparr>)"

definition cp80_paper :: "u8 list \<Rightarrow> cp80 \<Rightarrow> cp80" where
  "cp80_paper s dev = dev\<lparr>cp_paper := cp80_put CP80_PAPER_MAX s (cp_paper dev)\<rparr>"

definition cp80_cp437 :: "u16 list" where
  "cp80_cp437 = [
    0x00C7, 0x00FC, 0x00E9, 0x00E2, 0x00E4, 0x00E0, 0x00E5, 0x00E7,
    0x00EA, 0x00EB, 0x00E8, 0x00EF, 0x00EE, 0x00EC, 0x00C4, 0x00C5,
    0x00C9, 0x00E6, 0x00C6, 0x00F4, 0x00F6, 0x00F2, 0x00FB, 0x00F9,
    0x00FF, 0x00D6, 0x00DC, 0x00A2, 0x00A3, 0x00A5, 0x20A7, 0x0192,
    0x00E1, 0x00ED, 0x00F3, 0x00FA, 0x00F1, 0x00D1, 0x00AA, 0x00BA,
    0x00BF, 0x2310, 0x00AC, 0x00BD, 0x00BC, 0x00A1, 0x00AB, 0x00BB,
    0x2591, 0x2592, 0x2593, 0x2502, 0x2524, 0x2561, 0x2562, 0x2556,
    0x2555, 0x2563, 0x2551, 0x2557, 0x255D, 0x255C, 0x255B, 0x2510,
    0x2514, 0x2534, 0x252C, 0x251C, 0x2500, 0x253C, 0x255E, 0x255F,
    0x255A, 0x2554, 0x2569, 0x2566, 0x2560, 0x2550, 0x256C, 0x2567,
    0x2568, 0x2564, 0x2565, 0x2559, 0x2558, 0x2552, 0x2553, 0x256B,
    0x256A, 0x2518, 0x250C, 0x2588, 0x2584, 0x258C, 0x2590, 0x2580,
    0x03B1, 0x00DF, 0x0393, 0x03C0, 0x03A3, 0x03C3, 0x00B5, 0x03C4,
    0x03A6, 0x0398, 0x03A9, 0x03B4, 0x221E, 0x03C6, 0x03B5, 0x2229,
    0x2261, 0x00B1, 0x2265, 0x2264, 0x2320, 0x2321, 0x00F7, 0x2248,
    0x00B0, 0x2219, 0x00B7, 0x221A, 0x207F, 0x00B2, 0x25A0, 0x00A0]"

definition cp80_utf8 :: "u8 \<Rightarrow> u8 list" where
  "cp80_utf8 c =
     (if c < 0x80 then [c]
      else let u = cp80_cp437 ! unat (c - 0x80)
           in if u < 0x800 then [ucast (0xc0 OR drop_bit 6 u), ucast (0x80 OR (u AND 0x3f))]
              else [ucast (0xe0 OR drop_bit 12 u), ucast (0x80 OR (drop_bit 6 u AND 0x3f)), ucast (0x80 OR (u AND 0x3f))])"

definition cp80_printable :: "u8 \<Rightarrow> cp80 \<Rightarrow> cp80" where
  "cp80_printable c dev = (cp80_paper (cp80_utf8 c) dev)\<lparr>cp_col := cp_col dev + 1\<rparr>"

section \<open>The parser\<close>

text \<open>How many bytes follow a command: a number, up to a NUL, or not known.\<close>

datatype esc_len = Len nat | Zero | Unknown

definition cp80_esc_len :: "u8 \<Rightarrow> esc_len" where
  "cp80_esc_len cmd =
     (if cmd = 0x53 then Len 0 else if cmd = 0x4B then Len 2 else if cmd = 0x43 then Len 4
      else if cmd \<in> set (bytes ''@FH01245678'') \<union> {0x39, 0x3C, 0x3D, 0x3E} then Len 0
      else if cmd \<in> set (bytes ''!-3AJNQRUWadlrsw%/'') then Len 1
      else if cmd \<in> set (bytes ''$f'') then Len 2
      else if cmd = 0x3A then Len 3
      else if cmd \<in> set (bytes ''DBb'') then Zero
      else Unknown)"

definition cp80_gs_len :: "u8 \<Rightarrow> esc_len" where
  "cp80_gs_len cmd =
     (if cmd \<in> set (bytes ''V!Bhwfr'') then Len 1 else if cmd \<in> set (bytes ''LWH'') then Len 2 else Unknown)"

fun cp80_feed_lines :: "nat \<Rightarrow> cp80 \<Rightarrow> cp80" where
  "cp80_feed_lines 0 dev = dev"
| "cp80_feed_lines (Suc n) dev = cp80_feed_lines n (cp80_paper [0x0A] dev)"

definition cp80_cut :: "u8 list" where
  "cp80_cut = [0x0A] @ bytes ''----------------------- cut -----------------------'' @ [0x0A]"

definition cp80_form_feed :: "u8 list" where
  "cp80_form_feed = [0x0A] @ bytes ''-------------------- form feed --------------------'' @ [0x0A]"

definition cp80_esc_done :: "cp80 \<Rightarrow> cp80" where
  "cp80_esc_done dev =
     (let dev = (if cp_esc_intro dev = 0x1b then
            (if cp_esc_cmd dev = 0x40 then dev\<lparr>cp_col := 0\<rparr>
             else if cp_esc_cmd dev = 0x64 \<and> 1 \<le> cp_esc_got dev
               then (cp80_feed_lines (unat (cp_esc_par dev ! 0)) dev)\<lparr>cp_col := 0\<rparr>
             else dev)
          else if cp_esc_cmd dev = 0x56 then (cp80_paper cp80_cut dev)\<lparr>cp_col := 0\<rparr> else dev)
      in dev\<lparr>cp_esc := 0\<rparr>)"

text \<open>The spaces of a tab, one by one.\<close>

fun cp80_tab :: "nat \<Rightarrow> cp80 \<Rightarrow> cp80" where
  "cp80_tab 0 dev = dev"
| "cp80_tab (Suc n) dev = cp80_tab n ((cp80_paper [0x20] dev)\<lparr>cp_col := cp_col dev + 1\<rparr>)"

definition cp80_backspace :: "cp80 \<Rightarrow> cp80" where
  "cp80_backspace dev =
     (let s = cb_s (cp_paper dev)
      in if s \<noteq> [] \<and> last s \<noteq> 0x0A
         then dev\<lparr>cp_paper := (cp_paper dev)\<lparr>cb_s := butlast s\<rparr>, cp_col := cp_col dev - 1\<rparr>
         else dev)"

text \<open>The first byte after ESC or GS.\<close>

definition cp80_esc_command :: "u8 \<Rightarrow> cp80 \<Rightarrow> cp80" where
  "cp80_esc_command c dev =
     (let dev = dev\<lparr>cp_esc_cmd := c, cp_esc_got := 0\<rparr>
      in case (if cp_esc_intro dev = 0x1b then cp80_esc_len c else cp80_gs_len c) of
           Unknown \<Rightarrow> dev\<lparr>cp_esc := 0\<rparr>
         | Zero \<Rightarrow> dev\<lparr>cp_esc_zero := True, cp_esc := 2\<rparr>
         | Len n \<Rightarrow> if n = 0 then cp80_esc_done dev else dev\<lparr>cp_esc_want := int n, cp_esc := 2\<rparr>)"

text \<open>A parameter byte. \<open>cp80_keep\<close> stores it while the array of four has room.\<close>

definition cp80_keep :: "u8 \<Rightarrow> cp80 \<Rightarrow> cp80" where
  "cp80_keep c dev = (if cp_esc_got dev < 4 then dev\<lparr>cp_esc_par := (cp_esc_par dev)[cp_esc_got dev := c]\<rparr> else dev)"

definition cp80_esc_param :: "u8 \<Rightarrow> cp80 \<Rightarrow> cp80" where
  "cp80_esc_param c dev =
     (if cp_esc_zero dev then
        (if c = 0 then cp80_esc_done (dev\<lparr>cp_esc_zero := False\<rparr>)
         else if cp_esc_got dev < 4 then (cp80_keep c dev)\<lparr>cp_esc_got := cp_esc_got dev + 1\<rparr> else dev)
      else
        let dev = (cp80_keep c dev)\<lparr>cp_esc_got := cp_esc_got dev + 1, cp_esc_want := cp_esc_want dev - 1\<rparr>
        in if 0 < cp_esc_want dev then dev
           else if cp_esc_image dev = - 1 then
             let image = uint (cp_esc_par dev ! 0) + 256 * uint (cp_esc_par dev ! 1)
             in if 0 < image then dev\<lparr>cp_esc_want := image, cp_esc_got := 4, cp_esc_image := - 2\<rparr>
                else dev\<lparr>cp_esc_image := 0, cp_esc := 0\<rparr>
           else if cp_esc_image dev = - 2 then dev\<lparr>cp_esc_image := 0, cp_esc := 0\<rparr>
           else cp80_esc_done dev)"

definition cp80_byte :: "u8 \<Rightarrow> cp80 \<Rightarrow> cp80" where
  "cp80_byte c dev =
     (let dev = (if cp_pending_cr dev \<and> c \<noteq> 0x0a then (cp80_paper [0x0A] dev)\<lparr>cp_col := 0\<rparr> else dev);
          dev = dev\<lparr>cp_pending_cr := False\<rparr>
      in if cp_esc dev = 1 then cp80_esc_command c dev
         else if cp_esc dev = 2 then cp80_esc_param c dev
         else if c = 0x1b \<or> c = 0x1d then
           dev\<lparr>cp_esc_intro := c, cp_esc := 1, cp_esc_zero := False, cp_esc_image := 0\<rparr>
         else if c = 0x0a then (cp80_paper [0x0A] dev)\<lparr>cp_col := 0\<rparr>
         else if c = 0x0d then dev\<lparr>cp_pending_cr := True\<rparr>
         else if c = 0x0c then (cp80_paper cp80_form_feed dev)\<lparr>cp_col := 0\<rparr>
         else if c = 0x09 then cp80_tab ((cp_col dev div CP80_TABS + 1) * CP80_TABS - cp_col dev) dev
         else if c = 0x08 then cp80_backspace dev
         else if c < 0x20 then dev
         else cp80_printable c dev)"

section \<open>The envelope\<close>

definition hex_digit :: "u8 \<Rightarrow> int" where
  "hex_digit c =
     (if 0x30 \<le> c \<and> c \<le> 0x39 then uint c - 0x30
      else if 0x41 \<le> c \<and> c \<le> 0x46 then uint c - 0x41 + 10
      else if 0x61 \<le> c \<and> c \<le> 0x66 then uint c - 0x61 + 10 else - 1)"

definition tr_begin :: "cp80 \<Rightarrow> cp80" where
  "tr_begin dev =
     (let serial = (if tr_serial dev + 1 = 0 then 1 else tr_serial dev + 1)
      in dev\<lparr>tr_active := True, tr_serial := serial, tr_result := 0, tr_sum := 0, tr_expected := 0, tr_phase := 1,
           tr_lfs := 0, tr_trailer := 0\<rparr>)"

text \<open>A byte of the report: the terminator counts, and opens the trailer.\<close>

definition tr_body :: "u8 \<Rightarrow> cp80 \<Rightarrow> cp80" where
  "tr_body v dev =
     (let dev = dev\<lparr>tr_sum := tr_sum dev + ucast v\<rparr>
      in if v = 0x04 then dev\<lparr>tr_phase := 4, tr_trailer := 0\<rparr> else dev)"

definition tr_trail :: "u8 \<Rightarrow> cp80 \<Rightarrow> cp80" where
  "tr_trail v dev =
     (let n = tr_trailer dev;
          dev =
            (if n < 2 then (if v \<noteq> [0x1b, 0x43] ! n then dev\<lparr>tr_result := - 1\<rparr> else dev)
             else if n < 6 then
               (let d = hex_digit v
                in if d < 0 then dev\<lparr>tr_result := - 1\<rparr>
                   else dev\<lparr>tr_expected := push_bit 4 (tr_expected dev) OR word_of_int d\<rparr>)
             else if n = 6 then
               (let dev = (if v \<noteq> 0x16 \<and> v \<noteq> 0x0a then dev\<lparr>tr_result := - 1\<rparr> else dev);
                    dev = (if tr_result dev = 0
                           then dev\<lparr>tr_result := (if tr_expected dev = tr_sum dev then 1 else - 1)\<rparr> else dev)
                in dev\<lparr>tr_completed := tr_serial dev, tr_active := False\<rparr>)
             else dev)
      in dev\<lparr>tr_trailer := n + 1\<rparr>)"

definition cp80_transfer :: "u8 \<Rightarrow> cp80 \<Rightarrow> cp80" where
  "cp80_transfer v dev =
     (if v = 0x11 then tr_begin dev
      else if \<not> tr_active dev then dev
      else if tr_phase dev = 1 then (if v = 0x03 then dev\<lparr>tr_phase := 2, tr_lfs := 2\<rparr> else dev)
      else if tr_phase dev = 2 then
        (if v = 0x0a \<and> 0 < tr_lfs dev then
           (let dev = dev\<lparr>tr_lfs := tr_lfs dev - 1\<rparr> in if tr_lfs dev = 0 then dev\<lparr>tr_phase := 3\<rparr> else dev)
         else tr_body v (dev\<lparr>tr_phase := 3\<rparr>))
      else if tr_phase dev = 3 then tr_body v dev
      else if tr_phase dev = 4 then tr_trail v dev
      else dev)"

section \<open>The reply queue\<close>

definition cp80_out_pending :: "cp80 \<Rightarrow> bool" where
  "cp80_out_pending dev \<longleftrightarrow> cp_out_head dev \<noteq> cp_out_tail dev"

fun cp80_say_bytes :: "u8 list \<Rightarrow> cp80 \<Rightarrow> cp80 \<times> bool" where
  "cp80_say_bytes [] dev = (dev, True)"
| "cp80_say_bytes (b # bs) dev =
     (let n = (cp_out_tail dev + 1) mod CP80_OUT_MAX
      in if n = cp_out_head dev then (dev, False)
         else cp80_say_bytes bs (dev\<lparr>cp_out_q := (cp_out_q dev)[cp_out_tail dev := b], cp_out_tail := n\<rparr>))"

definition cp80_say :: "nat \<Rightarrow> u8 list \<Rightarrow> cp80 \<Rightarrow> cp80" where
  "cp80_say port bs dev = (let (dev, all) = cp80_say_bytes bs dev in if all then dev\<lparr>cp_out_port := port\<rparr> else dev)"

definition cp80_write :: "u8 \<Rightarrow> cp80 \<Rightarrow> cp80" where
  "cp80_write v dev =
     (let dev = cp80_byte v (cp80_transfer v (dev\<lparr>cp_dirty := True\<rparr>))
      in if v = 0x03 \<and> cp_connected dev \<and> \<not> cp80_out_pending dev then cp80_say (cp_port dev) CP80_REPLY dev else dev)"

definition cp80_out_tick :: "cp80 \<Rightarrow> u8 list \<times> cp80" where
  "cp80_out_tick dev =
     (if cp80_out_pending dev \<and> cp_connected dev
      then (if cp_serial dev \<and> cp_port dev = cp_out_port dev then [cp_out_q dev ! cp_out_head dev] else [],
            dev\<lparr>cp_out_head := (cp_out_head dev + 1) mod CP80_OUT_MAX\<rparr>)
      else ([], dev))"

text \<open>The count of line status reads, once a second, and then the keepalive.\<close>

definition cp80_second :: "cp80 \<Rightarrow> cp80" where
  "cp80_second dev =
     (let dev =
        (if cp_connected dev \<or> cp_polls dev < CP80_POLL_BUSY then dev\<lparr>cp_busy_secs := 0\<rparr>
         else let dev = dev\<lparr>cp_busy_secs := cp_busy_secs dev + 1\<rparr>
              in if CP80_POLL_SECS \<le> cp_busy_secs dev then dev\<lparr>cp_busy_secs := 0, cp_attention := True\<rparr> else dev)
      in dev\<lparr>cp_polls := 0\<rparr>)"

definition cp80_enq_tick :: "cp80 \<Rightarrow> u8 list \<times> cp80" where
  "cp80_enq_tick dev =
     (let dev = dev\<lparr>cp_ticks := cp_ticks dev + 1\<rparr>;
          dev = (if 10 \<le> cp_ticks dev then cp80_second (dev\<lparr>cp_ticks := 0\<rparr>) else dev)
      in (if \<not> cp_connected dev \<or> cp80_out_pending dev then [] else if cp_serial dev then [0x05] else [], dev))"

definition cp80_lsr_read :: "nat \<Rightarrow> cp80 \<Rightarrow> cp80" where
  "cp80_lsr_read port dev =
     (if cp_serial dev \<and> port = cp_port dev then dev\<lparr>cp_polls := cp_polls dev + 1\<rparr> else dev)"

section \<open>The window\<close>

definition cp80_wire :: "bool \<Rightarrow> cp80 \<Rightarrow> cp80" where
  "cp80_wire up dev = (if cp_serial dev then dev\<lparr>cp_lines := up\<rparr> else dev)"

definition prn_cp80_set_connected :: "bool \<Rightarrow> cp80 \<Rightarrow> cp80" where
  "prn_cp80_set_connected on dev =
     (if cp_connected dev = on then dev
      else let dev = dev\<lparr>cp_connected := on\<rparr>;
               dev = (if on then dev else dev\<lparr>tr_active := False\<rparr>)
           in cp80_wire on dev)"

definition prn_cp80_attention :: "cp80 \<Rightarrow> bool \<times> cp80" where
  "prn_cp80_attention dev = (cp_attention dev, dev\<lparr>cp_attention := False\<rparr>)"

definition prn_cp80_transfer_result :: "cp80 \<Rightarrow> int \<times> u64 \<times> u16 \<times> u16" where
  "prn_cp80_transfer_result dev = (tr_result dev, tr_completed dev, tr_expected dev, tr_sum dev)"

definition prn_cp80_abort_transfer :: "cp80 \<Rightarrow> cp80" where
  "prn_cp80_abort_transfer dev = dev\<lparr>tr_active := False, tr_phase := 0\<rparr>"

text \<open>\<open>pos\<close> is the window's cursor; the bytes taken, the cursor, and whether it was reset.\<close>

definition prn_cp80_take :: "nat \<Rightarrow> nat \<Rightarrow> cp80 \<Rightarrow> u8 list \<times> nat \<times> bool" where
  "prn_cp80_take pos mx dev =
     (if mx = 0 then ([], pos, False)
      else let s = cb_s (cp_paper dev); reset = length s < pos; pos = (if reset then 0 else pos);
               n = min (length s - pos) mx
           in (take n (drop pos s), pos + n, reset))"

definition prn_cp80_tear :: "nat \<Rightarrow> cp80 \<Rightarrow> nat \<times> cp80" where
  "prn_cp80_tear pos dev =
     (let s = cb_s (cp_paper dev)
      in if length s < pos then (0, dev)
         else (0, dev\<lparr>cp_paper := \<lparr>cb_s = drop pos s, cb_full = False\<rparr>\<rparr>))"

definition prn_cp80_clear :: "cp80 \<Rightarrow> cp80" where
  "prn_cp80_clear dev = dev\<lparr>cp_paper := \<lparr>cb_s = [], cb_full = False\<rparr>, cp_col := 0\<rparr>"

section \<open>Power-on\<close>

text \<open>No printer on an image whose banner says 2008, or on a port already taken.\<close>

definition cp80_init :: "u8 list option \<Rightarrow> nat \<Rightarrow> bool \<Rightarrow> cp80 option" where
  "cp80_init banner port free =
     (if (case banner of None \<Rightarrow> False | Some b \<Rightarrow> strstr b (bytes ''2008'') \<noteq> None) \<or> \<not> free then None
      else Some \<lparr>cp_port = port, cp_serial = True, cp_connected = False, cp_lines = False,
        cp_out_q = replicate CP80_OUT_MAX 0, cp_out_head = 0, cp_out_tail = 0, cp_out_port = 0,
        cp_paper = \<lparr>cb_s = [], cb_full = False\<rparr>, cp_dirty = False, tr_active = False, tr_serial = 0, tr_completed = 0,
        tr_result = 0, tr_sum = 0, tr_expected = 0, tr_phase = 0, tr_lfs = 0, tr_trailer = 0, cp_col = 0,
        cp_pending_cr = False, cp_esc = 0, cp_esc_intro = 0, cp_esc_cmd = 0, cp_esc_want = 0, cp_esc_zero = False,
        cp_esc_image = 0, cp_esc_par = replicate 4 0, cp_esc_got = 0, cp_attention = False, cp_polls = 0,
        cp_ticks = 0, cp_busy_secs = 0\<rparr>)"

text \<open>The self test feeds the bytes of a file to the parser.\<close>

definition cp80_self_test :: "u8 list \<Rightarrow> cp80 \<Rightarrow> cp80" where
  "cp80_self_test file_bytes dev = (fold cp80_byte file_bytes dev)\<lparr>cp_dirty := True\<rparr>"

end
