(* ===== verification/Dataprint_Report.thy ===== *)
theory Dataprint_Report
  imports Dataprint
begin

text \<open>
  A report from the guest to the paper: the envelope the menu program sends, its check by
  the printer, and what it prints. The envelope and the parser take every byte side by
  side; the first part shows that neither looks at the other's fields, so that each can
  be followed alone.
\<close>

section \<open>The two halves of a byte\<close>

text \<open>
  A byte goes to the envelope and to the parser. Neither looks at the fields of the other:
  printers that agree on one half still do after any byte.
\<close>

definition tr_same :: "cp80 \<Rightarrow> cp80 \<Rightarrow> bool" where
  "tr_same d e \<longleftrightarrow> tr_active d = tr_active e \<and> tr_serial d = tr_serial e \<and> tr_completed d = tr_completed e \<and>
     tr_result d = tr_result e \<and> tr_sum d = tr_sum e \<and> tr_expected d = tr_expected e \<and> tr_phase d = tr_phase e \<and>
     tr_lfs d = tr_lfs e \<and> tr_trailer d = tr_trailer e"

definition pr_same :: "cp80 \<Rightarrow> cp80 \<Rightarrow> bool" where
  "pr_same d e \<longleftrightarrow> cp_paper d = cp_paper e \<and> cp_col d = cp_col e \<and> cp_pending_cr d = cp_pending_cr e \<and>
     cp_esc d = cp_esc e \<and> cp_esc_intro d = cp_esc_intro e \<and> cp_esc_cmd d = cp_esc_cmd e \<and>
     cp_esc_want d = cp_esc_want e \<and> cp_esc_zero d = cp_esc_zero e \<and> cp_esc_image d = cp_esc_image e \<and>
     cp_esc_par d = cp_esc_par e \<and> cp_esc_got d = cp_esc_got e"

lemma tr_same_refl [simp]: "tr_same d d" and pr_same_refl [simp]: "pr_same d d"
  by (simp_all add: tr_same_def pr_same_def)

lemma tr_same_trans: "tr_same a b \<Longrightarrow> tr_same b c \<Longrightarrow> tr_same a c"
  by (simp add: tr_same_def)

lemma pr_same_trans: "pr_same a b \<Longrightarrow> pr_same b c \<Longrightarrow> pr_same a c"
  by (simp add: pr_same_def)

lemma tr_same_transfer: "tr_same d e \<Longrightarrow> tr_same (cp80_transfer v d) (cp80_transfer v e)"
  by (simp add: tr_same_def cp80_transfer_def tr_begin_def tr_body_def tr_trail_def Let_def)

lemma pr_same_transfer: "pr_same (cp80_transfer v d) d"
  by (simp add: pr_same_def cp80_transfer_def tr_begin_def tr_body_def tr_trail_def Let_def)

lemma tr_same_updates [simp]:
  "tr_same (d\<lparr>cp_paper := a\<rparr>) e = tr_same d e" "tr_same (d\<lparr>cp_col := n\<rparr>) e = tr_same d e"
  "tr_same (d\<lparr>cp_pending_cr := b\<rparr>) e = tr_same d e" "tr_same (d\<lparr>cp_esc := n\<rparr>) e = tr_same d e"
  "tr_same (d\<lparr>cp_esc_intro := c\<rparr>) e = tr_same d e" "tr_same (d\<lparr>cp_esc_cmd := c\<rparr>) e = tr_same d e"
  "tr_same (d\<lparr>cp_esc_want := i\<rparr>) e = tr_same d e" "tr_same (d\<lparr>cp_esc_zero := b\<rparr>) e = tr_same d e"
  "tr_same (d\<lparr>cp_esc_image := i\<rparr>) e = tr_same d e" "tr_same (d\<lparr>cp_esc_par := l\<rparr>) e = tr_same d e"
  "tr_same (d\<lparr>cp_esc_got := n\<rparr>) e = tr_same d e" "tr_same (d\<lparr>cp_out_q := l\<rparr>) e = tr_same d e"
  "tr_same (d\<lparr>cp_out_tail := n\<rparr>) e = tr_same d e" "tr_same (d\<lparr>cp_out_port := n\<rparr>) e = tr_same d e"
  "tr_same (d\<lparr>cp_dirty := b\<rparr>) e = tr_same d e"
  by (simp_all add: tr_same_def)

lemma tr_same_paper [simp]: "tr_same (cp80_paper s d) e = tr_same d e"
  by (simp add: cp80_paper_def)

lemma tr_same_feed_lines [simp]: "tr_same (cp80_feed_lines n d) e = tr_same d e"
  by (induction n arbitrary: d) simp_all

lemma tr_same_tab [simp]: "tr_same (cp80_tab n d) e = tr_same d e"
  by (induction n arbitrary: d) simp_all

lemma tr_same_esc_done [simp]: "tr_same (cp80_esc_done d) e = tr_same d e"
  by (simp add: cp80_esc_done_def Let_def)

lemma tr_same_esc_command [simp]: "tr_same (cp80_esc_command c d) e = tr_same d e"
  by (simp add: cp80_esc_command_def Let_def split: esc_len.split)

lemma tr_same_esc_param [simp]: "tr_same (cp80_esc_param c d) e = tr_same d e"
  by (simp add: cp80_esc_param_def cp80_keep_def Let_def)

lemma tr_same_byte [simp]: "tr_same (cp80_byte c d) e = tr_same d e"
  by (simp add: cp80_byte_def cp80_printable_def cp80_backspace_def Let_def)

lemma pr_same_say: "pr_same (cp80_say p bs d) d" and tr_same_say [simp]: "tr_same (cp80_say p bs d) e = tr_same d e"
proof -
  have "pr_same (fst (cp80_say_bytes bs d)) d \<and> tr_same (fst (cp80_say_bytes bs d)) e = tr_same d e" for d
  proof (induction bs arbitrary: d)
    case (Cons b bs)
    let ?e = "d\<lparr>cp_out_q := (cp_out_q d)[cp_out_tail d := b], cp_out_tail := (cp_out_tail d + 1) mod CP80_OUT_MAX\<rparr>"
    have "pr_same ?e d" by (simp add: pr_same_def)
    then show ?case using Cons.IH [of ?e] pr_same_trans by (auto simp: Let_def)
  qed simp
  then show "pr_same (cp80_say p bs d) d" "tr_same (cp80_say p bs d) e = tr_same d e"
    by (auto simp: cp80_say_def case_prod_beta pr_same_def)
qed

lemma write_transfer: "tr_same (cp80_write v d) (cp80_transfer v d)"
proof -
  have "tr_same (cp80_transfer v (d\<lparr>cp_dirty := True\<rparr>)) (cp80_transfer v d)" for v
    by (rule tr_same_transfer) simp
  then show ?thesis by (simp add: cp80_write_def Let_def)
qed

section \<open>The envelope\<close>

text \<open>
  What the menu program sends: the command frame, the report, the terminator, and the sum
  of the report and its terminator in four hexadecimal digits. \<open>e\<close> ends the trailer, a
  SYN or a line feed, depending on the image.
\<close>

definition dp_sum :: "u8 list \<Rightarrow> u16" where
  "dp_sum body = sum_list (map ucast body) + 4"

definition dp_hex4 :: "u16 \<Rightarrow> u8 list" where
  "dp_hex4 v = fmt_02X (ucast (drop_bit 8 v)) @ fmt_02X (ucast v)"

definition dp_trailer :: "u16 \<Rightarrow> u8 \<Rightarrow> u8 list" where
  "dp_trailer v e = [0x04, 0x1B, 0x43] @ dp_hex4 v @ [e]"

definition dp_frame :: "u16 \<Rightarrow> u8 list \<Rightarrow> u8 \<Rightarrow> u8 list" where
  "dp_frame v body e = [0x11, 0x1B, 0x53, 0x13, 0x03, 0x0A, 0x0A] @ body @ dp_trailer v e"

lemma fold_transfer_same: "tr_same d e \<Longrightarrow> tr_same (fold cp80_transfer bs d) (fold cp80_transfer bs e)"
  by (induction bs arbitrary: d e) (simp_all add: tr_same_transfer)

lemma fold_write_transfer: "tr_same (fold cp80_write bs d) (fold cp80_transfer bs d)"
proof (induction bs arbitrary: d)
  case (Cons b bs)
  then show ?case using fold_transfer_same [OF write_transfer] tr_same_trans by (simp, blast)
qed simp

lemma transfer_head:
  "fold cp80_transfer [0x11, 0x1B, 0x53, 0x13, 0x03, 0x0A, 0x0A] d = (tr_begin d)\<lparr>tr_phase := 3, tr_lfs := 0\<rparr>"
  by (simp add: cp80_transfer_def tr_begin_def Let_def)

lemma transfer_body:
  assumes "0x04 \<notin> set body" "0x11 \<notin> set body" "tr_active d" "tr_phase d = 3"
  shows "fold cp80_transfer body d = d\<lparr>tr_sum := tr_sum d + sum_list (map ucast body)\<rparr>"
  using assms
proof (induction body arbitrary: d)
  case (Cons b body)
  then have "cp80_transfer b d = d\<lparr>tr_sum := tr_sum d + ucast b\<rparr>" by (auto simp: cp80_transfer_def tr_body_def Let_def)
  then show ?case using Cons by (simp add: add.assoc)
qed simp

definition hex_char :: "u8 \<Rightarrow> u8" where
  "hex_char n = (if n < 10 then 0x30 + n else 0x37 + n)"

lemma nibble_hex:
  assumes "n < 16"
  shows "hex_digit (hex_char n) = uint n \<and> hex_char n \<noteq> 0x11 \<and> hex_char n \<noteq> 0x03"
proof -
  have "list_all (\<lambda>k. let n = word_of_nat k in hex_digit (hex_char n) = uint n \<and> hex_char n \<noteq> 0x11 \<and> hex_char n \<noteq> 0x03) [0..<16]"
    by code_simp
  moreover have "unat n < 16" using assms by (simp add: word_less_nat_alt)
  ultimately show ?thesis
    by (auto simp: list_all_iff Let_def dest!: bspec [where x = "unat n"])
qed

lemma nibble_less: "x AND 0x0F < (16 :: u8)"
  by (rule le_less_trans [OF word_and_le1]) simp

lemma nibble_take: "hi_nib b = take_bit 4 (drop_bit 4 b)" "lo_nib b = take_bit 4 b"
  by (simp_all add: hi_nib_def lo_nib_def take_bit_eq_mask mask_eq_exp_minus_1)

lemma hex4_nibbles:
  "\<exists>a b c d. dp_hex4 v = map hex_char [a, b, c, d] \<and> a < 16 \<and> b < 16 \<and> c < 16 \<and> d < 16 \<and>
     push_bit 4 (push_bit 4 (push_bit 4 (ucast a) OR ucast b) OR ucast c) OR ucast d = v"
proof (intro exI conjI)
  let ?a = "hi_nib (ucast (drop_bit 8 v))" and ?b = "lo_nib (ucast (drop_bit 8 v))" and ?c = "hi_nib (ucast v)" and ?d = "lo_nib (ucast v)"
  show "dp_hex4 v = map hex_char [?a, ?b, ?c, ?d]" by (simp add: dp_hex4_def fmt_02X_def hex_char_def)
  show "?a < 16" "?b < 16" "?c < 16" "?d < 16" by (simp_all add: hi_nib_def lo_nib_def nibble_less)
  show "push_bit 4 (push_bit 4 (push_bit 4 (ucast ?a) OR ucast ?b) OR ucast ?c) OR ucast ?d = v"
    by (rule bit_word_eqI) (auto simp: nibble_take bit_simps)
qed

lemma transfer_digit:
  assumes "n < 16" "tr_active d" "tr_phase d = 4" "2 \<le> tr_trailer d" "tr_trailer d < 6"
  shows "cp80_transfer (hex_char n) d =
    d\<lparr>tr_expected := push_bit 4 (tr_expected d) OR ucast n, tr_trailer := tr_trailer d + 1\<rparr>"
  using assms nibble_hex [OF assms(1)]
  by (simp add: cp80_transfer_def tr_trail_def Let_def) 

lemma transfer_end:
  assumes "tr_active d" "tr_phase d = 4" "tr_trailer d = 6" "tr_result d = 0" "e = 0x16 \<or> e = 0x0A"
  shows "cp80_transfer e d = d\<lparr>tr_result := (if tr_expected d = tr_sum d then 1 else - 1),
    tr_completed := tr_serial d, tr_active := False, tr_trailer := 7\<rparr>"
  using assms(5)
proof
  assume "e = 0x16"
  then show ?thesis by (simp add: assms(1-4) cp80_transfer_def tr_trail_def)
next
  assume "e = 0x0A"
  then show ?thesis by (simp add: assms(1-4) cp80_transfer_def tr_trail_def)
qed

lemma transfer_trailer:
  assumes "tr_active d" "tr_phase d = 3" "tr_result d = 0" "tr_expected d = 0" "e = 0x16 \<or> e = 0x0A"
  shows "fold cp80_transfer (dp_trailer v e) d = d\<lparr>tr_sum := tr_sum d + 4, tr_phase := 4, tr_trailer := 7,
    tr_expected := v, tr_result := (if v = tr_sum d + 4 then 1 else - 1), tr_completed := tr_serial d, tr_active := False\<rparr>"
proof -
  obtain a b c n where n: "dp_hex4 v = map hex_char [a, b, c, n]" "a < 16" "b < 16" "c < 16" "n < 16"
      "push_bit 4 (push_bit 4 (push_bit 4 (ucast a) OR ucast b) OR ucast c) OR ucast n = v"
    using hex4_nibbles [of v] by blast
  let ?d = "d\<lparr>tr_sum := tr_sum d + 4, tr_phase := 4, tr_trailer := 2\<rparr>"
  have "fold cp80_transfer [0x04, 0x1B, 0x43] d = ?d"
    using assms by (simp add: cp80_transfer_def tr_body_def tr_trail_def Let_def)
  moreover have "fold cp80_transfer (map hex_char [a, b, c, n]) ?d = ?d\<lparr>tr_expected :=
      push_bit 4 (push_bit 4 (push_bit 4 (push_bit 4 0 OR ucast a) OR ucast b) OR ucast c) OR ucast n, tr_trailer := 6\<rparr>"
    using assms(1,4) n(2-5) by (simp only: list.map fold_simps) (subst transfer_digit; simp)+
  then have "fold cp80_transfer (dp_hex4 v) ?d = ?d\<lparr>tr_expected := v, tr_trailer := 6\<rparr>"
    unfolding n(1) push_bit_of_0 or.left_neutral n(6) .
  ultimately show ?thesis
    using transfer_end [OF _ _ _ _ assms(5), of "?d\<lparr>tr_expected := v, tr_trailer := 6\<rparr>"] assms(1,3)
    unfolding dp_trailer_def fold_append o_apply by simp
qed

lemma report_result:
  assumes "0x04 \<notin> set body" "0x11 \<notin> set body" "e = 0x16 \<or> e = 0x0A"
  shows "tr_same (fold cp80_write (dp_frame v body e) dev) ((tr_begin dev)\<lparr>tr_lfs := 0, tr_sum := dp_sum body, tr_phase := 4,
    tr_trailer := 7, tr_expected := v, tr_result := (if v = dp_sum body then 1 else - 1),
    tr_completed := tr_serial (tr_begin dev), tr_active := False\<rparr>)"
proof -
  let ?d = "(tr_begin dev)\<lparr>tr_phase := 3, tr_lfs := 0\<rparr>"
  have d: "tr_active ?d" "tr_phase ?d = 3" "tr_result ?d = 0" "tr_expected ?d = 0" "tr_sum ?d = 0"
    by (simp_all add: tr_begin_def Let_def)
  have "fold cp80_transfer (dp_frame v body e) dev =
      fold cp80_transfer (dp_trailer v e) (?d\<lparr>tr_sum := sum_list (map ucast body)\<rparr>)"
    using transfer_body [OF assms(1,2) d(1,2)] d(5) unfolding dp_frame_def fold_append o_apply transfer_head by simp
  also have "\<dots> = ?d\<lparr>tr_sum := dp_sum body, tr_phase := 4, tr_trailer := 7, tr_expected := v,
      tr_result := (if v = dp_sum body then 1 else - 1), tr_completed := tr_serial (tr_begin dev), tr_active := False\<rparr>"
    using d assms(3) by (subst transfer_trailer) (simp_all add: dp_sum_def)
  finally show ?thesis
    using fold_write_transfer [of "dp_frame v body e" dev] by (simp add: tr_same_def)
qed

section \<open>Damage\<close>

text \<open>A report that is lost stays lost, and one that waits for its command frame waits on.\<close>

lemma transfer_rejected:
  "tr_result d = - 1 \<Longrightarrow> tr_phase d = 4 \<or> \<not> tr_active d \<Longrightarrow> 0x11 \<notin> set bs \<Longrightarrow> tr_result (fold cp80_transfer bs d) = - 1"
proof (induction bs arbitrary: d)
  case (Cons b bs)
  have "tr_result (cp80_transfer b d) = - 1 \<and> (tr_phase (cp80_transfer b d) = 4 \<or> \<not> tr_active (cp80_transfer b d))"
    using Cons.prems by (auto simp: cp80_transfer_def tr_trail_def Let_def)
  then show ?case using Cons by simp
qed simp

lemma transfer_waiting:
  "tr_active d \<Longrightarrow> tr_phase d = 1 \<Longrightarrow> 0x03 \<notin> set bs \<Longrightarrow> 0x11 \<notin> set bs \<Longrightarrow> fold cp80_transfer bs d = d"
proof (induction bs)
  case (Cons b bs)
  then have "cp80_transfer b d = d" by (auto simp: cp80_transfer_def)
  then show ?case using Cons by simp
qed simp

lemma early_trailer:
  assumes "tr_active d" "tr_phase d = 4" "tr_trailer d = 0" "p \<noteq> 0x11" "q \<noteq> 0x11" "\<not> (p = 0x1B \<and> q = 0x43)"
  shows "tr_result (fold cp80_transfer [p, q] d) = - 1 \<and> tr_phase (fold cp80_transfer [p, q] d) = 4"
  using assms by (auto simp: cp80_transfer_def tr_trail_def Let_def)

lemma trailer_set:
  assumes "e = 0x16 \<or> e = 0x0A"
  shows "0x03 \<notin> set (dp_trailer v e)" "0x11 \<notin> set (dp_trailer v e)"
  using hex4_nibbles [of v] nibble_hex assms by (auto simp: dp_trailer_def)

lemma sum_update:
  assumes "i < length body" "b \<noteq> body ! i"
  shows "dp_sum (body[i := b]) \<noteq> dp_sum body"
proof -
  have "sum_list (map ucast (body[i := b])) + ucast (body ! i) = sum_list (map ucast body) + (ucast b :: u16)"
    using assms(1)
  proof (induction body arbitrary: i)
    case (Cons x xs)
    then show ?case by (cases i) (simp_all add: algebra_simps)
  qed simp
  moreover have "ucast (ucast x :: u16) = x" for x :: u8 by (rule bit_word_eqI) (simp add: bit_simps)
  then have "ucast (body ! i) \<noteq> (ucast b :: u16)" using assms(2) by metis
  ultimately show ?thesis by (auto simp: dp_sum_def)
qed

lemma damage_rejected:
  assumes "0x03 \<notin> set body" "0x04 \<notin> set body" "0x11 \<notin> set body"
    and "\<And>j. Suc j < length body \<Longrightarrow> \<not> (body ! j = 0x1B \<and> body ! Suc j = 0x43)"
    and "i < length body" "b \<noteq> body ! i" "e = 0x16 \<or> e = 0x0A"
  shows "tr_result (fold cp80_write (dp_frame (dp_sum body) (body[i := b]) e) dev) \<noteq> 1"
proof -
  let ?t = "dp_trailer (dp_sum body) e" and ?xs = "take i body" and ?ys = "drop (Suc i) body"
  define d where "d = fold cp80_transfer ?xs (fold cp80_transfer [0x11, 0x1B, 0x53, 0x13, 0x03, 0x0A, 0x0A] dev)"
  have d: "tr_active d" "tr_phase d = 3" "tr_result d = 0"
    using assms(2,3) unfolding d_def transfer_head
    by (subst transfer_body; auto simp: tr_begin_def Let_def dest: in_set_takeD)+
  have fr: "fold cp80_transfer (dp_frame (dp_sum body) (body[i := b]) e) dev = fold cp80_transfer (?ys @ ?t) (cp80_transfer b d)"
    using assms(5) by (simp add: dp_frame_def d_def upd_conv_take_nth_drop)
  have rest: "0x03 \<notin> set (?ys @ ?t)" "0x11 \<notin> set (?ys @ ?t)"
    using assms(1,3) trailer_set [OF assms(7)] by (auto dest: in_set_dropD)
  consider "b = 0x11" | "b = 0x04" | "b \<noteq> 0x11" "b \<noteq> 0x04" by blast
  then have "tr_result (fold cp80_transfer (dp_frame (dp_sum body) (body[i := b]) e) dev) \<noteq> 1"
  proof cases
    case 1
    then have "cp80_transfer b d = tr_begin d" by (simp add: cp80_transfer_def)
    then show ?thesis unfolding fr by (subst transfer_waiting) (use rest in \<open>auto simp: tr_begin_def Let_def\<close>)
  next
    case 2
    then have t: "tr_active (cp80_transfer b d)" "tr_phase (cp80_transfer b d) = 4" "tr_trailer (cp80_transfer b d) = 0"
      using d by (simp_all add: cp80_transfer_def tr_body_def Let_def)
    obtain p q r where pq: "?ys @ ?t = p # q # r"
      by (cases "?ys @ ?t"; cases "tl (?ys @ ?t)") (auto simp: dp_trailer_def Cons_eq_append_conv)
    moreover have "\<not> (p = 0x1B \<and> q = 0x43)"
    proof (cases "Suc (Suc i) < length body")
      case True
      then have "p = body ! Suc i" "q = body ! Suc (Suc i)"
        using pq assms(5) by (metis Cons_nth_drop_Suc Suc_lessD append_Cons list.inject)+
      then show ?thesis using assms(4) [of "Suc i"] True by simp
    next
      case False
      then have "length ?ys \<le> 1" by simp
      then show ?thesis using pq by (cases ?ys) (auto simp: dp_trailer_def)
    qed
    ultimately have "tr_result (fold cp80_transfer r (fold cp80_transfer [p, q] (cp80_transfer b d))) = - 1"
      using early_trailer [OF t, of p q] rest transfer_rejected by simp
    then show ?thesis unfolding fr pq by simp
  next
    case 3
    then have "0x04 \<notin> set (body[i := b])" "0x11 \<notin> set (body[i := b])"
      using assms(2,3) set_update_subset_insert by fast+
    then show ?thesis
      using report_result [OF _ _ assms(7), of "body[i := b]" "dp_sum body" dev] fold_write_transfer sum_update [OF assms(5,6)]
      by (fastforce simp: tr_same_def)
  qed
  then show ?thesis using fold_write_transfer by (simp add: tr_same_def)
qed

section \<open>What the check promises\<close>

text \<open>
  C26. A report is checked as the menu program sums it: whatever state the printer is in,
  a frame whose report holds neither the start nor the end byte is completed under the
  next serial number, its four digits and its 16-bit sum are the ones the window is told,
  and it is accepted exactly if they agree, whichever of the two bytes ends the trailer.
\<close>

theorem report_verified:
  assumes "0x04 \<notin> set body" "0x11 \<notin> set body" "e = 0x16 \<or> e = 0x0A"
  shows "prn_cp80_transfer_result (fold cp80_write (dp_frame v body e) dev) =
      (if v = dp_sum body then 1 else - 1, if tr_serial dev + 1 = 0 then 1 else tr_serial dev + 1, v, dp_sum body) \<and>
    \<not> tr_active (fold cp80_write (dp_frame v body e) dev)"
  using report_result [OF assms, of v dev]
  by (simp add: prn_cp80_transfer_result_def tr_same_def tr_begin_def Let_def)

theorem report_verified_witness:
  "\<exists>dev. cp80_init None 1 True = Some dev \<and>
     prn_cp80_transfer_result (fold cp80_write (dp_frame 0x0155 [0x1B, 0x4B, 0, 0, 0x41, 0x42, 0x43, 0x0A] 0x16) dev) = (- 1, 1, 0x0155, 0x013A)"
proof -
  obtain dev where dev: "cp80_init None 1 True = Some dev" "tr_serial dev = 0" by (simp add: cp80_init_def)
  have "dp_sum [0x1B, 0x4B, 0, 0, 0x41, 0x42, 0x43, 0x0A] = 0x013A" by (simp add: dp_sum_def)
  then show ?thesis
    using dev report_verified [of "[0x1B, 0x4B, 0, 0, 0x41, 0x42, 0x43, 0x0A]" "0x16" "0x0155" dev] by simp
qed

text \<open>
  C27. A damaged report is never accepted: when a single byte of a report arrives as any
  other byte, the start and end bytes included, the printer does not pass it, provided
  the report holds no control byte of the envelope and no ESC C, which opens the trailer.
\<close>

theorem damaged_report_rejected:
  assumes "0x03 \<notin> set body" "0x04 \<notin> set body" "0x11 \<notin> set body"
    and "\<And>j. Suc j < length body \<Longrightarrow> \<not> (body ! j = 0x1B \<and> body ! Suc j = 0x43)"
    and "i < length body" "b \<noteq> body ! i" "e = 0x16 \<or> e = 0x0A"
  shows "fst (prn_cp80_transfer_result (fold cp80_write (dp_frame (dp_sum body) (body[i := b]) e) dev)) \<noteq> 1"
  using damage_rejected [OF assms] by (simp add: prn_cp80_transfer_result_def)

theorem damaged_report_rejected_witness:
  "\<forall>dev. fst (prn_cp80_transfer_result (fold cp80_write (dp_frame (dp_sum [0x41, 0x42, 0x43]) [0x41, 0x04, 0x43] 0x0A) dev)) \<noteq> 1"
proof
  have "\<not> ([0x41, 0x42, 0x43 :: u8] ! j = 0x1B \<and> [0x41, 0x42, 0x43 :: u8] ! Suc j = 0x43)" if "Suc j < 3" for j
    using that by (auto simp: less_Suc_eq numeral_3_eq_3)
  then show "fst (prn_cp80_transfer_result (fold cp80_write (dp_frame (dp_sum [0x41, 0x42, 0x43]) [0x41, 0x04, 0x43] 0x0A) dev)) \<noteq> 1" for dev
    using damaged_report_rejected [of "[0x41, 0x42, 0x43]" 1 "0x04" "0x0A" dev] by simp
qed

end
