(* ===== verification/Dataprint_Paper.thy ===== *)
theory Dataprint_Paper
  imports Dataprint_Report
begin

text \<open>
  What a report leaves on the paper: the lines of the menu program verbatim, in UTF-8,
  and nothing of the envelope or of the styling.
\<close>

section \<open>The parser, state by state\<close>

text \<open>The paper reads \<open>s\<close> and the parser is between sequences, after an ESC, or in one.\<close>

definition pr_has :: "u8 list \<Rightarrow> cp80 \<Rightarrow> bool" where
  "pr_has s d \<longleftrightarrow> cp_paper d = \<lparr>cb_s = s, cb_full = False\<rparr> \<and> \<not> cp_pending_cr d \<and> cp_esc d = 0"

definition pr_esc :: "u8 list \<Rightarrow> cp80 \<Rightarrow> bool" where
  "pr_esc s d \<longleftrightarrow> cp_paper d = \<lparr>cb_s = s, cb_full = False\<rparr> \<and> \<not> cp_pending_cr d \<and> cp_esc d = 1 \<and>
     cp_esc_intro d = 0x1B \<and> \<not> cp_esc_zero d \<and> cp_esc_image d = 0"

definition pr_mid :: "u8 list \<Rightarrow> int \<Rightarrow> cp80 \<Rightarrow> bool" where
  "pr_mid s k d \<longleftrightarrow> cp_paper d = \<lparr>cb_s = s, cb_full = False\<rparr> \<and> \<not> cp_pending_cr d \<and> cp_esc d = 2 \<and>
     cp_esc_intro d = 0x1B \<and> \<not> cp_esc_zero d \<and> cp_esc_image d = 0 \<and> cp_esc_cmd d \<in> {0x4B, 0x43} \<and> cp_esc_want d = k"

lemmas pr_defs = pr_has_def pr_esc_def pr_mid_def

lemma write_parser: "\<exists>d1. pr_same d1 d \<and> pr_same (cp80_write c d) (cp80_byte c d1)"
proof -
  let ?d = "cp80_transfer c (d\<lparr>cp_dirty := True\<rparr>)"
  have "pr_same ?d d" using pr_same_transfer [of c "d\<lparr>cp_dirty := True\<rparr>"] by (simp add: pr_same_def)
  moreover have "pr_same (cp80_write c d) (cp80_byte c ?d)"
    using pr_same_say by (simp add: cp80_write_def Let_def)
  ultimately show ?thesis by blast
qed

lemma pr_same_states:
  assumes "pr_same d e"
  shows "pr_has s d = pr_has s e" "pr_esc s d = pr_esc s e" "pr_mid s k d = pr_mid s k e"
  using assms by (simp_all add: pr_same_def pr_defs)

lemma by_parser:
  assumes "\<And>d1. P d1 \<Longrightarrow> Q (cp80_byte c d1)" "\<And>d e. pr_same d e \<Longrightarrow> P d = P e" "\<And>d e. pr_same d e \<Longrightarrow> Q d = Q e" "P d"
  shows "Q (cp80_write c d)"
  using write_parser [of d c] assms by metis

lemma write_printable:
  assumes "pr_has s d" "0x20 \<le> c" "length s + length (cp80_utf8 c) \<le> CP80_PAPER_MAX"
  shows "pr_has (s @ cp80_utf8 c) (cp80_write c d)"
proof (rule by_parser [where P = "pr_has s"])
  fix d1 assume d1: "pr_has s d1"
  have "c \<noteq> 0x1b" "c \<noteq> 0x1d" "c \<noteq> 0x0a" "c \<noteq> 0x0d" "c \<noteq> 0x0c" "c \<noteq> 0x09" "c \<noteq> 0x08" "\<not> c < 0x20"
    using assms(2) by auto
  then show "pr_has (s @ cp80_utf8 c) (cp80_byte c d1)"
    using d1 assms(3) by (simp add: cp80_byte_def pr_defs cp80_printable_def cp80_paper_def cp80_put_def)
qed (use assms pr_same_states in auto)

lemma write_line_feed:
  assumes "pr_has s d" "length s < CP80_PAPER_MAX"
  shows "pr_has (s @ [0x0A]) (cp80_write 0x0A d)"
proof (rule by_parser [where P = "pr_has s"])
  fix d1 assume "pr_has s d1"
  then show "pr_has (s @ [0x0A]) (cp80_byte 0x0A d1)"
    using assms(2) by (simp add: cp80_byte_def pr_defs cp80_paper_def cp80_put_def)
qed (use assms pr_same_states in auto)

lemma write_control:
  assumes "pr_has s d" "c \<in> {0x11, 0x13, 0x03, 0x04, 0x16}"
  shows "pr_has s (cp80_write c d)"
proof (rule by_parser [where P = "pr_has s"])
  fix d1 assume "pr_has s d1"
  then show "pr_has s (cp80_byte c d1)" using assms(2) by (auto simp: cp80_byte_def pr_defs)
qed (use assms pr_same_states in auto)

lemma write_ESC:
  assumes "pr_has s d"
  shows "pr_esc s (cp80_write 0x1B d)"
proof (rule by_parser [where P = "pr_has s"])
  fix d1 assume "pr_has s d1"
  then show "pr_esc s (cp80_byte 0x1B d1)" by (simp add: cp80_byte_def pr_defs)
qed (use assms pr_same_states in auto)

lemma write_ESC_S:
  assumes "pr_esc s d"
  shows "pr_has s (cp80_write 0x53 d)"
proof (rule by_parser [where P = "pr_esc s"])
  fix d1 assume "pr_esc s d1"
  then show "pr_has s (cp80_byte 0x53 d1)"
    by (simp add: cp80_byte_def pr_defs cp80_esc_command_def cp80_esc_len_def cp80_esc_done_def)
qed (use assms pr_same_states in auto)

lemma write_ESC_cmd:
  assumes "pr_esc s d" "c = 0x4B \<and> k = 2 \<or> c = 0x43 \<and> k = 4"
  shows "pr_mid s k (cp80_write c d)"
proof (rule by_parser [where P = "pr_esc s"])
  fix d1 assume "pr_esc s d1"
  then show "pr_mid s k (cp80_byte c d1)"
    using assms(2) by (auto simp: cp80_byte_def pr_defs cp80_esc_command_def cp80_esc_len_def)
qed (use assms pr_same_states in auto)

lemma write_param:
  assumes "pr_mid s k d"
  shows "if 1 < k then pr_mid s (k - 1) (cp80_write c d) else pr_has s (cp80_write c d)"
proof (rule by_parser [where P = "pr_mid s k" and Q = "\<lambda>d. if 1 < k then pr_mid s (k - 1) d else pr_has s d"])
  fix d1 assume "pr_mid s k d1"
  then show "if 1 < k then pr_mid s (k - 1) (cp80_byte c d1) else pr_has s (cp80_byte c d1)"
    by (auto simp: cp80_byte_def pr_defs cp80_esc_param_def cp80_keep_def cp80_esc_done_def Let_def)
qed (use assms pr_same_states in auto)

lemma write_style: "pr_has s d \<Longrightarrow> pr_has s (fold cp80_write [0x1B, 0x4B, a, b] d)"
proof -
  assume "pr_has s d"
  then have "pr_mid s 2 (fold cp80_write [0x1B, 0x4B] d)" using write_ESC write_ESC_cmd [where c = "0x4B" and k = 2] by simp
  then have "pr_mid s 1 (fold cp80_write [0x1B, 0x4B, a] d)" using write_param [where k = 2 and c = a] by simp
  then show ?thesis using write_param [where k = 1 and c = b] by simp
qed

lemma paper_write_sum: "pr_has s d \<Longrightarrow> pr_has s (fold cp80_write [0x1B, 0x43, a, b, p, q] d)"
proof -
  assume "pr_has s d"
  then have "pr_mid s 4 (fold cp80_write [0x1B, 0x43] d)" using write_ESC write_ESC_cmd [where c = "0x43" and k = 4] by simp
  then have "pr_mid s 3 (fold cp80_write [0x1B, 0x43, a] d)" using write_param [where k = 4 and c = a] by simp
  then have "pr_mid s 2 (fold cp80_write [0x1B, 0x43, a, b] d)" using write_param [where k = 3 and c = b] by simp
  then have "pr_mid s 1 (fold cp80_write [0x1B, 0x43, a, b, p] d)" using write_param [where k = 2 and c = p] by simp
  then show ?thesis using write_param [where k = 1 and c = q] by simp
qed

section \<open>A report\<close>

text \<open>Lines of text, and the styling commands between them.\<close>

datatype dp_item = Style u8 u8 | Line "u8 list"

fun dp_item_bytes :: "dp_item \<Rightarrow> u8 list" where
  "dp_item_bytes (Style a b) = [0x1B, 0x4B, a, b]"
| "dp_item_bytes (Line s) = s @ [0x0A]"

fun dp_item_shown :: "dp_item \<Rightarrow> u8 list" where
  "dp_item_shown (Style a b) = []"
| "dp_item_shown (Line s) = concat (map cp80_utf8 s) @ [0x0A]"

fun dp_item_ok :: "dp_item \<Rightarrow> bool" where
  "dp_item_ok (Style a b) \<longleftrightarrow> True"
| "dp_item_ok (Line s) \<longleftrightarrow> list_all (\<lambda>c. 0x20 \<le> c) s"

definition dp_bytes :: "dp_item list \<Rightarrow> u8 list" where
  "dp_bytes items = concat (map dp_item_bytes items)"

definition dp_shown :: "dp_item list \<Rightarrow> u8 list" where
  "dp_shown items = concat (map dp_item_shown items)"

lemma write_chars:
  assumes "pr_has s d" "list_all (\<lambda>c. 0x20 \<le> c) cs" "length s + length (concat (map cp80_utf8 cs)) \<le> CP80_PAPER_MAX"
  shows "pr_has (s @ concat (map cp80_utf8 cs)) (fold cp80_write cs d)"
  using assms
proof (induction cs arbitrary: s d)
  case (Cons c cs)
  have "pr_has (s @ cp80_utf8 c) (cp80_write c d)" using write_printable [of s d c] Cons.prems by simp
  then show ?case using Cons.IH [of "s @ cp80_utf8 c" "cp80_write c d"] Cons.prems by simp
qed simp

lemma write_item:
  assumes "pr_has s d" "dp_item_ok i" "length s + length (dp_item_shown i) \<le> CP80_PAPER_MAX"
  shows "pr_has (s @ dp_item_shown i) (fold cp80_write (dp_item_bytes i) d)"
proof (cases i)
  case (Style a b)
  then show ?thesis using write_style [OF assms(1)] by simp
next
  case (Line cs)
  then have "pr_has (s @ concat (map cp80_utf8 cs)) (fold cp80_write cs d)" using write_chars assms by simp
  then show ?thesis using write_line_feed Line assms(3) by fastforce
qed

lemma write_items:
  assumes "pr_has s d" "list_all dp_item_ok items" "length s + length (dp_shown items) \<le> CP80_PAPER_MAX"
  shows "pr_has (s @ dp_shown items) (fold cp80_write (dp_bytes items) d)"
  using assms
proof (induction items arbitrary: s d)
  case (Cons i items)
  have "pr_has (s @ dp_item_shown i) (fold cp80_write (dp_item_bytes i) d)"
    using write_item [of s d i] Cons.prems by (simp add: dp_shown_def)
  then show ?case
    using Cons.IH [of "s @ dp_item_shown i" "fold cp80_write (dp_item_bytes i) d"] Cons.prems
    by (simp add: dp_shown_def dp_bytes_def)
qed (simp add: dp_shown_def dp_bytes_def)

lemma report_on_paper:
  assumes "pr_has s d" "list_all dp_item_ok items" "e = 0x16 \<or> e = 0x0A"
    and "length s + length (dp_shown items) + 3 \<le> CP80_PAPER_MAX"
  shows "pr_has (s @ [0x0A, 0x0A] @ dp_shown items @ (if e = 0x0A then [0x0A] else []))
    (fold cp80_write (dp_frame v (dp_bytes items) e) d)"
proof -
  have "pr_has s (fold cp80_write [0x11, 0x1B, 0x53, 0x13, 0x03] d)"
    using assms(1) by (simp add: write_control write_ESC write_ESC_S)
  then have "pr_has ((s @ [0x0A]) @ [0x0A]) (cp80_write 0x0A (cp80_write 0x0A (fold cp80_write [0x11, 0x1B, 0x53, 0x13, 0x03] d)))"
    by (intro write_line_feed) (use assms(4) in simp_all)
  then have "pr_has (s @ [0x0A, 0x0A]) (fold cp80_write [0x11, 0x1B, 0x53, 0x13, 0x03, 0x0A, 0x0A] d)" by simp
  then have "pr_has (s @ [0x0A, 0x0A] @ dp_shown items)
      (fold cp80_write (dp_bytes items) (fold cp80_write [0x11, 0x1B, 0x53, 0x13, 0x03, 0x0A, 0x0A] d))" (is "pr_has ?s ?d")
    using write_items [of "s @ [0x0A, 0x0A]"] assms(2,4) by simp
  then have "pr_has ?s (cp80_write 0x04 ?d)" by (rule write_control) simp
  then have "pr_has ?s (fold cp80_write (dp_hex4 v) (fold cp80_write [0x04, 0x1B, 0x43] ?d))"
    using paper_write_sum hex4_nibbles [of v] by fastforce
  then have "pr_has (?s @ (if e = 0x0A then [0x0A] else []))
      (cp80_write e (fold cp80_write (dp_hex4 v) (fold cp80_write [0x04, 0x1B, 0x43] ?d)))"
    using write_control [where c = "0x16"] write_line_feed assms(3,4) by fastforce
  then show ?thesis by (simp add: dp_frame_def dp_trailer_def)
qed

section \<open>The text on the paper\<close>

text \<open>The character of a byte in code page 437, and a reader of UTF-8 of up to three bytes.\<close>

definition cp437_char :: "u8 \<Rightarrow> u16" where
  "cp437_char c = (if c < 0x80 then ucast c else cp80_cp437 ! unat (c - 0x80))"

fun utf8_decode :: "u8 list \<Rightarrow> u16 list option" where
  "utf8_decode [] = Some []"
| "utf8_decode (a # s) =
     (if a < 0x80 then map_option ((#) (ucast a)) (utf8_decode s)
      else case s of
        [] \<Rightarrow> None
      | b # s \<Rightarrow>
          if b AND 0xC0 \<noteq> 0x80 then None
          else if a AND 0xE0 = 0xC0
            then map_option ((#) (push_bit 6 (ucast (a AND 0x1F)) OR ucast (b AND 0x3F))) (utf8_decode s)
          else case s of
            [] \<Rightarrow> None
          | c # s \<Rightarrow>
              if c AND 0xC0 = 0x80 \<and> a AND 0xF0 = 0xE0
                then map_option ((#) (push_bit 12 (ucast (a AND 0x0F)) OR push_bit 6 (ucast (b AND 0x3F)) OR ucast (c AND 0x3F)))
                  (utf8_decode s)
              else None)"

lemma cp437_sequences:
  "list_all (\<lambda>u. if u < 0x800
      then (let a = ucast (0xc0 OR drop_bit 6 u) :: u8; b = ucast (0x80 OR (u AND 0x3f)) :: u8
        in \<not> a < 0x80 \<and> b AND 0xC0 = 0x80 \<and> a AND 0xE0 = 0xC0 \<and>
           push_bit 6 (ucast (a AND 0x1F)) OR ucast (b AND 0x3F) = u)
      else (let a = ucast (0xe0 OR drop_bit 12 u) :: u8; b = ucast (0x80 OR (drop_bit 6 u AND 0x3f)) :: u8; c = ucast (0x80 OR (u AND 0x3f)) :: u8
        in \<not> a < 0x80 \<and> b AND 0xC0 = 0x80 \<and> a AND 0xE0 \<noteq> 0xC0 \<and> c AND 0xC0 = 0x80 \<and> a AND 0xF0 = 0xE0 \<and>
           push_bit 12 (ucast (a AND 0x0F)) OR push_bit 6 (ucast (b AND 0x3F)) OR ucast (c AND 0x3F) = u)) cp80_cp437"
  by code_simp

lemma cp437_length: "length cp80_cp437 = 128"
  by (simp add: cp80_cp437_def)

lemma high_index: "\<not> c < 0x80 \<Longrightarrow> unat (c - 0x80 :: u8) < 128"
proof -
  have "unat c < 256" by (rule order.strict_trans2 [OF unsigned_less]) simp
  moreover assume "\<not> c < 0x80"
  ultimately show ?thesis by (simp add: unat_sub word_le_nat_alt word_less_nat_alt)
qed

lemma unat_up: "unat (ucast (c :: u8) :: u16) = unat c"
proof -
  have "unat c < 256" by (rule order.strict_trans2 [OF unsigned_less]) simp
  then show ?thesis by (simp add: unsigned_ucast_eq take_bit_nat_eq_self)
qed

lemma decode_char: "utf8_decode (cp80_utf8 c @ s) = map_option ((#) (cp437_char c)) (utf8_decode s)"
proof (cases "c < 0x80")
  case False
  then have "cp80_cp437 ! unat (c - 0x80) \<in> set cp80_cp437" using high_index by (simp add: cp437_length)
  then show ?thesis
    using False cp437_sequences unfolding list_all_iff Let_def cp437_char_def
    by (auto simp: cp80_utf8_def Let_def dest!: bspec split: if_splits)
qed (simp add: cp80_utf8_def cp437_char_def)

lemma decode_text: "utf8_decode (concat (map cp80_utf8 s) @ r) = map_option ((@) (map cp437_char s)) (utf8_decode r)"
  by (induction s) (simp_all add: decode_char option.map_comp comp_def option.map_ident)

lemma cp437_high: "list_all (\<lambda>u. 0x80 \<le> u) cp80_cp437"
  by code_simp

lemma cp437_distinct: "distinct cp80_cp437"
  by (simp add: cp80_cp437_def)

lemma cp437_inj: "inj cp437_char"
proof (rule injI)
  fix c d assume e: "cp437_char c = cp437_char d"
  have high: "0x80 \<le> cp437_char x" if "\<not> x < 0x80" for x
    using cp437_high high_index [OF that] that by (simp add: cp437_char_def list_all_iff cp437_length)
  have low: "cp437_char x < 0x80" if "x < 0x80" for x
    using that by (simp add: cp437_char_def word_less_nat_alt unat_up)
  show "c = d"
  proof (cases "c < 0x80")
    case True
    then have "d < 0x80" using e high [of d] low [of c] by force
    then show ?thesis using e True by (simp add: cp437_char_def word_unat_eq_iff unat_up)
  next
    case False
    then have d: "\<not> d < 0x80" using e high [of c] low [of d] by force
    then have "c - 0x80 = d - 0x80"
      unfolding word_unat_eq_iff using e False nth_eq_iff_index_eq [OF cp437_distinct] high_index by (simp add: cp437_char_def cp437_length)
    then show ?thesis by simp
  qed
qed

section \<open>What a report leaves on the paper\<close>



text \<open>
  The paper is UTF-8 and loses no character: what the lines of a report leave decodes
  to the characters of code page 437, line ends included, and no two bytes become the
  same character.
\<close>

theorem paper_reads_back:
  "utf8_decode (dp_shown (map Line ls)) = Some (map cp437_char (concat (map (\<lambda>l. l @ [0x0A]) ls))) \<and> inj cp437_char"
proof -
  have "dp_shown (map Line ls) = concat (map cp80_utf8 (concat (map (\<lambda>l. l @ [0x0A]) ls)))"
    using cp80_utf8_def [of "0x0A"] by (induction ls) (simp_all add: dp_shown_def)
  then show ?thesis using decode_text [of "concat (map (\<lambda>l. l @ [0x0A]) ls)" "[]"] cp437_inj by simp
qed

end
