(* ===== verification/Dataprint_Link.thy ===== *)
theory Dataprint_Link
  imports Dataprint_Report Byte_Queue
begin

text \<open>
  The printer on its line: the reply queue as a bounded queue, the printer as a state
  machine, its invariant, and the reply the menu program waits for.
\<close>

section \<open>The reply queue\<close>

definition out_count :: "cp80 \<Rightarrow> nat" where
  "out_count d = ring_used CP80_OUT_MAX (cp_out_head d) (cp_out_tail d)"

definition out_items :: "cp80 \<Rightarrow> u8 list" where
  "out_items d = ring (cp_out_q d) (cp_out_head d) (out_count d)"

definition out_room :: "cp80 \<Rightarrow> nat" where
  "out_room d = CP80_OUT_MAX - 1 - out_count d"

definition out_wf :: "cp80 \<Rightarrow> bool" where
  "out_wf d \<longleftrightarrow> length (cp_out_q d) = CP80_OUT_MAX \<and> cp_out_head d < CP80_OUT_MAX \<and> cp_out_tail d < CP80_OUT_MAX"

text \<open>One round of the loop of \<open>cp80_say\<close>, and the read of \<open>cp80_out_tick\<close>.\<close>

definition out_put :: "cp80 \<Rightarrow> u8 \<Rightarrow> cp80 option" where
  "out_put d b = (let (d, fits) = cp80_say_bytes [b] d in if fits then Some d else None)"

definition out_take :: "cp80 \<Rightarrow> (u8 \<times> cp80) option" where
  "out_take d = (if cp80_out_pending d
     then Some (cp_out_q d ! cp_out_head d, d\<lparr>cp_out_head := (cp_out_head d + 1) mod CP80_OUT_MAX\<rparr>) else None)"

lemma out_count_facts:
  assumes "out_wf d"
  shows "out_count d < CP80_OUT_MAX" "cp80_out_pending d \<longleftrightarrow> out_count d \<noteq> 0"
    and "(cp_out_tail d + 1) mod CP80_OUT_MAX = cp_out_head d \<longleftrightarrow> out_room d = 0"
  using assms ring_used_bounds [of "cp_out_head d" CP80_OUT_MAX "cp_out_tail d"]
  by (auto simp: out_count_def out_room_def out_wf_def cp80_out_pending_def)

lemma out_put_room:
  assumes "out_wf d" "0 < out_room d"
  shows "\<exists>d'. out_put d b = Some d' \<and> out_wf d' \<and> out_items d' = out_items d @ [b] \<and> Suc (out_room d') = out_room d"
proof -
  let ?h = "cp_out_head d" and ?t = "cp_out_tail d"
  let ?d = "d\<lparr>cp_out_q := (cp_out_q d)[?t := b], cp_out_tail := (?t + 1) mod CP80_OUT_MAX\<rparr>"
  have w: "length (cp_out_q d) = CP80_OUT_MAX" "?h < CP80_OUT_MAX" "?t < CP80_OUT_MAX"
    using assms(1) by (simp_all add: out_wf_def)
  have free: "ring_used CP80_OUT_MAX ?h ?t < CP80_OUT_MAX - 1"
    using assms(2) by (simp add: out_room_def out_count_def)
  have "out_wf ?d" "out_count ?d = Suc (out_count d)"
    using w ring_used_push [OF w(2,3) free] by (simp_all add: out_wf_def out_count_def)
  moreover from this(2) have "out_items ?d = out_items d @ [b]"
    using ring_push_items [OF w free] by (simp add: out_items_def out_count_def)
  moreover have "out_put d b = Some ?d"
    using out_count_facts(3) [OF assms(1)] assms(2) by (simp add: out_put_def)
  ultimately show ?thesis using assms(2) by (auto simp: out_room_def)
qed

lemma out_take_next:
  assumes "out_wf d" "out_items d = b # bs"
  shows "\<exists>d'. out_take d = Some (b, d') \<and> out_wf d' \<and> out_items d' = bs \<and> out_room d' = Suc (out_room d)"
proof -
  let ?h = "cp_out_head d"
  let ?d = "d\<lparr>cp_out_head := (?h + 1) mod CP80_OUT_MAX\<rparr>"
  have w: "length (cp_out_q d) = CP80_OUT_MAX" "?h < CP80_OUT_MAX" "cp_out_tail d < CP80_OUT_MAX"
    using assms(1) by (simp_all add: out_wf_def)
  obtain n where n: "out_count d = Suc n" using assms(2) by (cases "out_count d") (simp_all add: out_items_def)
  have wf: "out_wf ?d" "out_count ?d = n"
    using w ring_used_pop [OF w(2,3)] n by (simp_all add: out_wf_def out_count_def)
  have "out_items d = cp_out_q d ! ?h # out_items ?d"
    using ring_pop_items [OF w(1,2)] wf(2) by (simp add: out_items_def n)
  then have items: "b = cp_out_q d ! ?h" "out_items ?d = bs" unfolding assms(2) by simp_all
  have "out_take d = Some (b, ?d)"
    using n out_count_facts(2) [OF assms(1)] by (simp add: out_take_def items(1))
  moreover have "out_room ?d = Suc (out_room d)"
    using n out_count_facts(1) [OF assms(1)] unfolding out_room_def wf(2) by simp
  ultimately show ?thesis using wf(1) items(2) by blast
qed

interpretation reply: byte_queue out_put out_take out_items out_room out_wf
proof
  fix d :: cp80 and b :: u8
  assume "out_wf d" "out_room d = 0"
  then show "out_put d b = None" using out_count_facts(3) [of d] by (simp add: out_put_def)
next
  fix d :: cp80
  assume "out_wf d" "out_items d = []"
  then have "out_count d = 0" by (metis length_ring list.size(3) out_items_def)
  then show "out_take d = None"
    using out_count_facts(2) [OF \<open>out_wf d\<close>] by (simp add: out_take_def)
qed (use out_put_room out_take_next in blast)+

text \<open>\<open>cp80_say\<close> is the queue's block push while there is room.\<close>

lemma say_bytes_one: "out_put d b = Some d' \<Longrightarrow> cp80_say_bytes (b # bs) d = cp80_say_bytes bs d'"
  by (auto simp: out_put_def Let_def split: if_splits)

lemma say_bytes_push: "reply.push_list d bs = Some d' \<Longrightarrow> cp80_say_bytes bs d = (d', True)"
proof (induction bs arbitrary: d)
  case (Cons b bs)
  then obtain e where "out_put d b = Some e" "reply.push_list e bs = Some d'" by (auto split: option.splits)
  then show ?case using Cons.IH say_bytes_one by simp
qed simp

lemma say_items:
  assumes "out_wf d" "length bs \<le> out_room d"
  shows "out_wf (cp80_say p bs d)" "out_items (cp80_say p bs d) = out_items d @ bs" "cp_out_port (cp80_say p bs d) = p"
proof -
  obtain d' where "reply.push_list d bs = Some d'" "out_wf d'" "out_items d' = out_items d @ bs"
    using reply.push_list_room [OF assms] by blast
  then show "out_wf (cp80_say p bs d)" "out_items (cp80_say p bs d) = out_items d @ bs" "cp_out_port (cp80_say p bs d) = p"
    using say_bytes_push [of d bs d'] by (simp_all add: cp80_say_def out_wf_def out_items_def out_count_def)
qed

section \<open>The printer as a state machine\<close>

text \<open>
  A byte from the guest, the two timers, a line status read, and what the window does:
  plugging the cable, tearing off what it has copied, clearing the paper, and giving up
  on a report.
\<close>

datatype cp80_event =
    Byte u8
  | Out_due
  | Enq_due
  | Lsr nat
  | Plug bool
  | Tear nat
  | Clear
  | Abort

fun cp80_react :: "cp80_event \<Rightarrow> cp80 \<Rightarrow> u8 list \<times> cp80" where
  "cp80_react (Byte v) d = ([], cp80_write v d)"
| "cp80_react Out_due d = cp80_out_tick d"
| "cp80_react Enq_due d = cp80_enq_tick d"
| "cp80_react (Lsr port) d = ([], cp80_lsr_read port d)"
| "cp80_react (Plug on) d = ([], prn_cp80_set_connected on d)"
| "cp80_react (Tear pos) d = ([], snd (prn_cp80_tear pos d))"
| "cp80_react Clear d = ([], prn_cp80_clear d)"
| "cp80_react Abort d = ([], prn_cp80_abort_transfer d)"

text \<open>A run, with the bytes the guest received.\<close>

fun cp80_run :: "cp80_event list \<Rightarrow> cp80 \<Rightarrow> u8 list \<times> cp80" where
  "cp80_run [] d = ([], d)"
| "cp80_run (e # es) d = (let (out, d) = cp80_react e d; (rest, d) = cp80_run es d in (out @ rest, d))"

lemma run_append:
  "cp80_run (es @ fs) d = (let (out, d) = cp80_run es d; (rest, d) = cp80_run fs d in (out @ rest, d))"
  by (induction es arbitrary: d) (simp_all add: Let_def case_prod_beta)

section \<open>What a byte leaves alone\<close>

definition link_view :: "cp80 \<Rightarrow> u8 list \<times> nat \<times> nat \<times> nat \<times> bool \<times> bool \<times> nat" where
  "link_view d = (cp_out_q d, cp_out_head d, cp_out_tail d, cp_out_port d, cp_connected d, cp_serial d, cp_port d)"

definition rest_view :: "cp80 \<Rightarrow> nat \<times> nat" where
  "rest_view d = (cp_ticks d, cp_busy_secs d)"

definition esc_view :: "cp80 \<Rightarrow> nat \<times> u8 \<times> u8 \<times> int \<times> bool \<times> int \<times> u8 list \<times> nat" where
  "esc_view d = (cp_esc d, cp_esc_intro d, cp_esc_cmd d, cp_esc_want d, cp_esc_zero d, cp_esc_image d, cp_esc_par d, cp_esc_got d)"

lemma link_updates [simp]:
  "link_view (d\<lparr>cp_paper := a\<rparr>) = link_view d" "link_view (d\<lparr>cp_col := n\<rparr>) = link_view d"
  "link_view (d\<lparr>cp_pending_cr := b\<rparr>) = link_view d" "link_view (d\<lparr>cp_esc := n\<rparr>) = link_view d"
  "link_view (d\<lparr>cp_esc_intro := c\<rparr>) = link_view d" "link_view (d\<lparr>cp_esc_cmd := c\<rparr>) = link_view d"
  "link_view (d\<lparr>cp_esc_want := i\<rparr>) = link_view d" "link_view (d\<lparr>cp_esc_zero := b\<rparr>) = link_view d"
  "link_view (d\<lparr>cp_esc_image := i\<rparr>) = link_view d" "link_view (d\<lparr>cp_esc_par := l\<rparr>) = link_view d"
  "link_view (d\<lparr>cp_esc_got := n\<rparr>) = link_view d" "link_view (d\<lparr>cp_dirty := b\<rparr>) = link_view d"
  by (simp_all add: link_view_def)

lemma rest_updates [simp]:
  "rest_view (d\<lparr>cp_paper := a\<rparr>) = rest_view d" "rest_view (d\<lparr>cp_col := n\<rparr>) = rest_view d"
  "rest_view (d\<lparr>cp_pending_cr := b\<rparr>) = rest_view d" "rest_view (d\<lparr>cp_esc := n\<rparr>) = rest_view d"
  "rest_view (d\<lparr>cp_esc_intro := c\<rparr>) = rest_view d" "rest_view (d\<lparr>cp_esc_cmd := c\<rparr>) = rest_view d"
  "rest_view (d\<lparr>cp_esc_want := i\<rparr>) = rest_view d" "rest_view (d\<lparr>cp_esc_zero := b\<rparr>) = rest_view d"
  "rest_view (d\<lparr>cp_esc_image := i\<rparr>) = rest_view d" "rest_view (d\<lparr>cp_esc_par := l\<rparr>) = rest_view d"
  "rest_view (d\<lparr>cp_esc_got := n\<rparr>) = rest_view d" "rest_view (d\<lparr>cp_dirty := b\<rparr>) = rest_view d"
  by (simp_all add: rest_view_def)

lemma esc_updates [simp]:
  "esc_view (d\<lparr>cp_paper := a\<rparr>) = esc_view d" "esc_view (d\<lparr>cp_col := n\<rparr>) = esc_view d"
  "esc_view (d\<lparr>cp_pending_cr := b\<rparr>) = esc_view d"
  by (simp_all add: esc_view_def)

lemma paper_views [simp]: "link_view (cp80_paper s d) = link_view d" "esc_view (cp80_paper s d) = esc_view d"
  "rest_view (cp80_paper s d) = rest_view d"
  by (simp_all add: cp80_paper_def)

lemma feed_lines_views [simp]:
  "link_view (cp80_feed_lines n d) = link_view d" "esc_view (cp80_feed_lines n d) = esc_view d"
  "rest_view (cp80_feed_lines n d) = rest_view d"
  by (induction n arbitrary: d) simp_all

lemma tab_views [simp]: "link_view (cp80_tab n d) = link_view d" "esc_view (cp80_tab n d) = esc_view d"
  "rest_view (cp80_tab n d) = rest_view d"
  by (induction n arbitrary: d) simp_all

lemma link_esc [simp]:
  "link_view (cp80_esc_done d) = link_view d" "link_view (cp80_esc_command c d) = link_view d"
  "link_view (cp80_esc_param c d) = link_view d" "rest_view (cp80_esc_done d) = rest_view d"
  "rest_view (cp80_esc_command c d) = rest_view d" "rest_view (cp80_esc_param c d) = rest_view d"
  by (simp_all add: cp80_esc_done_def cp80_esc_command_def cp80_esc_param_def cp80_keep_def Let_def split: esc_len.split)

lemma link_byte [simp]: "link_view (cp80_byte c d) = link_view d" "rest_view (cp80_byte c d) = rest_view d"
  by (simp_all add: cp80_byte_def cp80_printable_def cp80_backspace_def Let_def)

lemma link_transfer [simp]: "link_view (cp80_transfer v d) = link_view d" "rest_view (cp80_transfer v d) = rest_view d"
  by (simp_all add: cp80_transfer_def tr_begin_def tr_body_def tr_trail_def Let_def link_view_def rest_view_def)

lemma link_say: "\<exists>q t p. link_view (cp80_say port bs d) = (q, cp_out_head d, t, p, cp_connected d, cp_serial d, cp_port d)"
proof -
  have "\<exists>q t p. link_view (fst (cp80_say_bytes bs d)) = (q, cp_out_head d, t, p, cp_connected d, cp_serial d, cp_port d)" for d
    by (induction bs arbitrary: d) (simp_all add: link_view_def Let_def)
  then show ?thesis by (auto simp: cp80_say_def case_prod_beta link_view_def)
qed

lemma link_facts:
  assumes "link_view d = link_view e"
  shows "out_wf d = out_wf e" "out_items d = out_items e" "cp80_out_pending d = cp80_out_pending e" "out_room d = out_room e"
    "cp_connected d = cp_connected e" "cp_serial d = cp_serial e" "cp_out_port d = cp_out_port e" "cp_port d = cp_port e"
  using assms by (simp_all add: link_view_def out_wf_def out_items_def out_count_def out_room_def cp80_out_pending_def)

section \<open>The reply\<close>

text \<open>The printer has sent \<open>k\<close> bytes of its reply and owes the others.\<close>

definition replying :: "nat \<Rightarrow> cp80 \<Rightarrow> bool" where
  "replying k d \<longleftrightarrow> out_wf d \<and> out_items d = drop k CP80_REPLY \<and> cp_connected d \<and> cp_serial d \<and> cp_out_port d = cp_port d"

lemma reply_length: "length CP80_REPLY = 17"
  by (simp add: CP80_REPLY_def bytes_def)

lemma pending_items: "out_wf d \<Longrightarrow> cp80_out_pending d \<longleftrightarrow> out_items d \<noteq> []"
  using out_count_facts(2) [of d] length_ring [of "cp_out_q d" "cp_out_head d" "out_count d"]
  by (metis length_0_conv out_items_def)

lemma replying_same: "link_view d = link_view e \<Longrightarrow> replying k d = replying k e"
  using link_facts [of d e] by (simp add: replying_def)

lemma reply_starts:
  assumes "out_wf d" "\<not> cp80_out_pending d" "cp_connected d" "cp_serial d"
  shows "replying 0 (cp80_write 0x03 d)"
proof -
  define d1 where "d1 = cp80_byte 0x03 (cp80_transfer 0x03 (d\<lparr>cp_dirty := True\<rparr>))"
  have "link_view d1 = link_view d" by (simp add: d1_def)
  note f = link_facts [OF this]
  have e: "out_items d1 = []" using f assms pending_items by simp
  then have "out_count d1 = 0" by (metis length_ring list.size(3) out_items_def)
  then have room: "length CP80_REPLY \<le> out_room d1" by (simp add: out_room_def reply_length CP80_OUT_MAX_def)
  have w: "cp80_write 0x03 d = cp80_say (cp_port d1) CP80_REPLY d1"
    using f assms by (simp add: cp80_write_def Let_def flip: d1_def)
  show ?thesis
    unfolding w replying_def using say_items [OF _ room, of "cp_port d1"] link_say [of "cp_port d1" CP80_REPLY d1] f assms e
    by (auto simp: link_view_def)
qed

lemma replying_react:
  assumes "replying k d" "k < 17" "e \<noteq> Plug False"
  shows "if e = Out_due then fst (cp80_react e d) = [CP80_REPLY ! k] \<and> replying (Suc k) (snd (cp80_react e d))
    else fst (cp80_react e d) = [] \<and> replying k (snd (cp80_react e d))"
proof -
  have wf: "out_wf d" and items: "out_items d = CP80_REPLY ! k # drop (Suc k) CP80_REPLY"
    and on: "cp_connected d" "cp_serial d" "cp_out_port d = cp_port d"
    using assms(1,2) by (simp_all add: replying_def Cons_nth_drop_Suc reply_length)
  have pend: "cp80_out_pending d" using pending_items [OF wf] items by simp
  have keep: "replying k d'" if "link_view d' = link_view d" for d'
    using that assms(1) replying_same by blast
  show ?thesis
  proof (cases e)
    case Out_due
    obtain d' where d': "out_take d = Some (CP80_REPLY ! k, d')" "out_wf d'" "out_items d' = drop (Suc k) CP80_REPLY"
      using out_take_next [OF wf items] by blast
    then have "cp80_out_tick d = ([CP80_REPLY ! k], d')" "cp_connected d' \<and> cp_serial d' \<and> cp_out_port d' = cp_port d'"
      using pend on by (auto simp: out_take_def cp80_out_tick_def)
    then show ?thesis using Out_due d' by (simp add: replying_def)
  next
    case (Byte v)
    define d1 where "d1 = cp80_byte v (cp80_transfer v (d\<lparr>cp_dirty := True\<rparr>))"
    have l: "link_view d1 = link_view d" by (simp add: d1_def)
    then have "cp80_write v d = d1" using link_facts(3) [OF l] pend by (simp add: cp80_write_def Let_def flip: d1_def)
    then show ?thesis using Byte keep [OF l] by simp
  next
    case Enq_due
    have "link_view (snd (cp80_enq_tick d)) = link_view d" "fst (cp80_enq_tick d) = []"
      using pend by (simp_all add: cp80_enq_tick_def cp80_second_def Let_def link_view_def cp80_out_pending_def)
    then show ?thesis using Enq_due keep by simp
  next
    case (Lsr port)
    then show ?thesis using keep by (simp add: cp80_lsr_read_def link_view_def)
  next
    case (Plug on)
    then show ?thesis using keep [of d] assms(3) on by (simp add: prn_cp80_set_connected_def)
  next
    case (Tear pos)
    then show ?thesis using keep by (simp add: prn_cp80_tear_def Let_def)
  next
    case Clear
    then show ?thesis using keep by (simp add: prn_cp80_clear_def)
  next
    case Abort
    then show ?thesis using keep by (simp add: prn_cp80_abort_transfer_def link_view_def)
  qed
qed

lemma replying_run:
  assumes "replying k d" "Plug False \<notin> set es" "k + length (filter (\<lambda>e. e = Out_due) es) \<le> 16"
  shows "fst (cp80_run es d) = take (length (filter (\<lambda>e. e = Out_due) es)) (drop k CP80_REPLY) \<and>
    replying (k + length (filter (\<lambda>e. e = Out_due) es)) (snd (cp80_run es d))"
  using assms
proof (induction es arbitrary: k d)
  case (Cons e es)
  then have "k < 17" "e \<noteq> Plug False" by auto
  note step = replying_react [OF Cons.prems(1) this]
  show ?case
  proof (cases "e = Out_due")
    case True
    then show ?thesis
      using step Cons.IH [of "Suc k" "snd (cp80_react e d)"] Cons.prems(2,3)
      by (simp add: case_prod_beta Let_def Cons_nth_drop_Suc [symmetric] reply_length)
  next
    case False
    then show ?thesis
      using step Cons.IH [of k "snd (cp80_react e d)"] Cons.prems(2,3) by (simp add: case_prod_beta Let_def)
  qed
qed simp

text \<open>
  The receive state of the menu program: bytes up to a line feed, of which only the one
  at index 15 is looked at.
\<close>

definition guest_accepts :: "u8 list \<Rightarrow> bool" where
  "guest_accepts bs \<longleftrightarrow> 0x0A \<in> set bs \<and>
     (let line = takeWhile (\<lambda>b. b \<noteq> 0x0A) bs in 15 < length line \<and> line ! 15 = 0x43)"

lemma reply_accepted: "guest_accepts CP80_REPLY"
  by code_simp

text \<open>
  C29. The reply reaches the guest whole: when a command frame ends at a plugged-in printer
  that owes nothing, then as long as the cable stays in, whatever the guest sends, the
  keepalive timer, the line status reads and the window do meanwhile, the guest receives
  the bytes of the reply in order and nothing else, one for every expiry of the output
  timer; no keepalive falls among them, and with the seventeenth the guest has a line it
  accepts.
\<close>

theorem reply_uninterrupted:
  assumes "out_wf dev" "\<not> cp80_out_pending dev" "cp_connected dev" "cp_serial dev"
    and "Plug False \<notin> set es" "n = length (filter (\<lambda>e. e = Out_due) es)" "n \<le> 16"
  shows "fst (cp80_run es (cp80_write 0x03 dev)) = take n CP80_REPLY \<and>
    (n = 16 \<longrightarrow> fst (cp80_run (es @ [Out_due]) (cp80_write 0x03 dev)) = CP80_REPLY \<and> guest_accepts CP80_REPLY)"
proof -
  let ?r = "cp80_run es (cp80_write 0x03 dev)"
  have r: "fst ?r = take n CP80_REPLY" "replying n (snd ?r)"
    using replying_run [OF reply_starts [OF assms(1-4)] assms(5)] assms(6,7) by simp_all
  have "fst (cp80_run (es @ [Out_due]) (cp80_write 0x03 dev)) = take n CP80_REPLY @ [CP80_REPLY ! n]"
    using replying_react [OF r(2), of Out_due] assms(7) r(1) by (simp add: run_append case_prod_beta Let_def)
  then show ?thesis using r(1) reply_accepted reply_length by (simp flip: take_Suc_conv_app_nth)
qed

theorem reply_uninterrupted_witness:
  "\<exists>dev. cp80_init None 1 True = Some dev \<and>
     fst (cp80_run [Enq_due, Out_due, Byte 0x0A, Enq_due, Out_due] (cp80_write 0x03 (prn_cp80_set_connected True dev))) = [0x44, 0x41]"
proof -
  obtain dev where d: "cp80_init None 1 True = Some dev" by (simp add: cp80_init_def)
  let ?d = "prn_cp80_set_connected True dev"
  have "out_wf ?d" "\<not> cp80_out_pending ?d" "cp_connected ?d" "cp_serial ?d"
    using d by (auto simp: cp80_init_def prn_cp80_set_connected_def cp80_wire_def out_wf_def cp80_out_pending_def CP80_OUT_MAX_def)
  then have "fst (cp80_run [Enq_due, Out_due, Byte 0x0A, Enq_due, Out_due] (cp80_write 0x03 ?d)) = take 2 CP80_REPLY"
    using reply_uninterrupted [of ?d "[Enq_due, Out_due, Byte 0x0A, Enq_due, Out_due]" 2] by simp
  moreover have "take 2 CP80_REPLY = [0x44, 0x41]" by code_simp
  ultimately show ?thesis using d by auto
qed

section \<open>The invariant\<close>

definition esc_ok :: "cp80 \<Rightarrow> bool" where
  "esc_ok d \<longleftrightarrow> cp_esc d \<le> 2 \<and> cp_esc_image d = 0 \<and> length (cp_esc_par d) = 4 \<and>
     (cp_esc d = 1 \<longrightarrow> \<not> cp_esc_zero d) \<and>
     (cp_esc d = 2 \<longrightarrow> (if cp_esc_zero d then cp_esc_got d \<le> 4 else 1 \<le> cp_esc_want d \<and> int (cp_esc_got d) + cp_esc_want d \<le> 4))"

definition tr_ok :: "cp80 \<Rightarrow> bool" where
  "tr_ok d \<longleftrightarrow> tr_result d \<in> {- 1, 0, 1} \<and> tr_phase d \<le> 4 \<and> (tr_phase d = 2 \<longrightarrow> 1 \<le> tr_lfs d \<and> tr_lfs d \<le> 2) \<and>
     (tr_active d \<and> tr_phase d = 4 \<longrightarrow> tr_trailer d \<le> 6) \<and> tr_trailer d \<le> 7"

definition cp80_ok :: "cp80 \<Rightarrow> bool" where
  "cp80_ok d \<longleftrightarrow> out_wf d \<and> esc_ok d \<and> tr_ok d \<and> cp_ticks d < 10 \<and> cp_busy_secs d < CP80_POLL_SECS"

lemma esc_ok_view: "esc_view d = esc_view e \<Longrightarrow> esc_ok d = esc_ok e"
  by (simp add: esc_view_def esc_ok_def)

lemma esc_done_ok: "length (cp_esc_par d) = 4 \<Longrightarrow> cp_esc_image d = 0 \<Longrightarrow> esc_ok (cp80_esc_done d)"
proof -
  assume a: "length (cp_esc_par d) = 4" "cp_esc_image d = 0"
  have e: "esc_ok (d'\<lparr>cp_esc := 0\<rparr>)" if "esc_view d' = esc_view d" for d'
    using that a by (simp add: esc_view_def esc_ok_def)
  show ?thesis unfolding cp80_esc_done_def Let_def by (rule e) simp
qed

lemma esc_lens: "cp80_esc_len c = Len n \<Longrightarrow> n \<le> 4" "cp80_gs_len c = Len n \<Longrightarrow> n \<le> 4"
  by (auto simp: cp80_esc_len_def cp80_gs_len_def split: if_splits)

lemma esc_command_ok:
  assumes "esc_ok d" "cp_esc d = 1"
  shows "esc_ok (cp80_esc_command c d)"
proof -
  define l where "l = (if cp_esc_intro d = 0x1b then cp80_esc_len c else cp80_gs_len c)"
  have "n \<le> 4" if "l = Len n" for n using that esc_lens by (auto simp: l_def split: if_splits)
  moreover have "cp80_esc_command c d = (let d = d\<lparr>cp_esc_cmd := c, cp_esc_got := 0\<rparr> in case l of
      Unknown \<Rightarrow> d\<lparr>cp_esc := 0\<rparr> | Zero \<Rightarrow> d\<lparr>cp_esc_zero := True, cp_esc := 2\<rparr>
      | Len n \<Rightarrow> if n = 0 then cp80_esc_done d else d\<lparr>cp_esc_want := int n, cp_esc := 2\<rparr>)"
    by (simp add: cp80_esc_command_def l_def Let_def)
  ultimately show ?thesis
    using assms esc_done_ok [of "d\<lparr>cp_esc_cmd := c, cp_esc_got := 0\<rparr>"]
    by (cases l) (auto simp: Let_def esc_ok_def)
qed

lemma esc_param_ok:
  assumes "esc_ok d" "cp_esc d = 2"
  shows "esc_ok (cp80_esc_param c d)"
proof -
  have p: "length (cp_esc_par (cp80_keep c d)) = 4" "cp_esc_image (cp80_keep c d) = 0"
    using assms(1) by (simp_all add: cp80_keep_def esc_ok_def)
  have k: "cp_esc (cp80_keep c d) = 2" "cp_esc_zero (cp80_keep c d) = cp_esc_zero d"
    using assms(2) by (simp_all add: cp80_keep_def)
  show ?thesis
  proof (cases "cp_esc_zero d")
    case True
    then show ?thesis
      using assms p k esc_done_ok [of "d\<lparr>cp_esc_zero := False\<rparr>"] by (simp add: cp80_esc_param_def esc_ok_def)
  next
    case False
    then show ?thesis
      using assms p k esc_done_ok [of "(cp80_keep c d)\<lparr>cp_esc_got := cp_esc_got d + 1, cp_esc_want := cp_esc_want d - 1\<rparr>"]
      by (simp add: cp80_esc_param_def esc_ok_def Let_def)
  qed
qed

lemma byte_ok:
  assumes "esc_ok d"
  shows "esc_ok (cp80_byte c d)"
proof -
  define d1 where "d1 = (if cp_pending_cr d \<and> c \<noteq> 0x0a then (cp80_paper [0x0A] d)\<lparr>cp_col := 0\<rparr> else d)\<lparr>cp_pending_cr := False\<rparr>"
  have v: "esc_view d1 = esc_view d" by (simp add: d1_def)
  then have d1: "esc_ok d1" using assms esc_ok_view by blast
  have keep: "esc_ok d'" if "esc_view d' = esc_view d1" for d' using that d1 esc_ok_view by blast
  have ESC: "esc_ok (d1\<lparr>cp_esc_intro := c, cp_esc := 1, cp_esc_zero := False, cp_esc_image := 0\<rparr>)"
    using d1 by (simp add: esc_ok_def)
  show ?thesis
    unfolding cp80_byte_def Let_def d1_def [symmetric]
    using ESC esc_command_ok [OF d1] esc_param_ok [OF d1]
    by (auto intro!: keep simp: cp80_printable_def cp80_backspace_def Let_def)
qed

lemma body_ok: "tr_ok d \<Longrightarrow> tr_ok (tr_body v (d\<lparr>tr_phase := 3\<rparr>))" "tr_ok d \<Longrightarrow> tr_phase d = 3 \<Longrightarrow> tr_ok (tr_body v d)"
  by (simp_all add: tr_ok_def tr_body_def Let_def)

lemma trail_ok:
  assumes "tr_ok d" "tr_active d" "tr_phase d = 4"
  shows "tr_ok (tr_trail v d)"
proof -
  have "tr_result d = - 1 \<or> tr_result d = 0 \<or> tr_result d = 1" "tr_trailer d \<le> 6" using assms by (simp_all add: tr_ok_def)
  then consider "tr_trailer d < 2" | "2 \<le> tr_trailer d" "tr_trailer d < 6" | "tr_trailer d = 6" by linarith
  then show ?thesis
    using assms by cases (auto simp: tr_ok_def tr_trail_def Let_def)
qed

lemma transfer_ok:
  assumes "tr_ok d"
  shows "tr_ok (cp80_transfer v d)"
proof -
  have "tr_ok (tr_begin d)" by (simp add: tr_ok_def tr_begin_def Let_def)
  moreover have "tr_ok (d\<lparr>tr_phase := 2, tr_lfs := 2\<rparr>)" using assms by (simp add: tr_ok_def)
  moreover have "tr_ok (d\<lparr>tr_lfs := n, tr_phase := 3\<rparr>)" for n using assms by (simp add: tr_ok_def)
  moreover have "tr_ok (d\<lparr>tr_lfs := tr_lfs d - 1\<rparr>)" if "tr_phase d = 2" "tr_lfs d - 1 \<noteq> 0"
    using assms that unfolding tr_ok_def by simp linarith
  ultimately show ?thesis
    using assms body_ok trail_ok by (simp add: cp80_transfer_def Let_def)
qed

lemma tr_ok_same: "tr_same d e \<Longrightarrow> tr_ok d = tr_ok e"
  by (simp add: tr_same_def tr_ok_def)

lemma say_wf: "out_wf d \<Longrightarrow> out_wf (cp80_say p bs d)"
proof -
  have "out_wf d \<Longrightarrow> out_wf (fst (cp80_say_bytes bs d))" for d
    by (induction bs arbitrary: d) (simp_all add: Let_def out_wf_def CP80_OUT_MAX_def)
  moreover assume "out_wf d"
  ultimately show ?thesis by (simp add: cp80_say_def case_prod_beta out_wf_def)
qed

lemma say_rest: "rest_view (cp80_say p bs d) = rest_view d"
proof -
  have "rest_view (fst (cp80_say_bytes bs d)) = rest_view d" for d
    by (induction bs arbitrary: d) (simp_all add: Let_def rest_view_def)
  then show ?thesis by (simp add: cp80_say_def case_prod_beta rest_view_def)
qed

lemma say_esc: "esc_ok (cp80_say p bs d) = esc_ok d"
proof (rule esc_ok_view)
  have "esc_view (fst (cp80_say_bytes bs d)) = esc_view d" for d
    by (induction bs arbitrary: d) (simp_all add: Let_def esc_view_def)
  then show "esc_view (cp80_say p bs d) = esc_view d" by (simp add: cp80_say_def case_prod_beta esc_view_def)
qed

lemma printer_write_ok:
  assumes "cp80_ok d"
  shows "cp80_ok (cp80_write v d)"
proof -
  define d1 where "d1 = cp80_byte v (cp80_transfer v (d\<lparr>cp_dirty := True\<rparr>))"
  have views: "link_view d1 = link_view d" "rest_view d1 = rest_view d" by (simp_all add: d1_def)
  have "esc_ok (cp80_transfer v (d\<lparr>cp_dirty := True\<rparr>))"
    using assms pr_same_transfer [of v "d\<lparr>cp_dirty := True\<rparr>"] by (simp add: cp80_ok_def esc_ok_def pr_same_def)
  then have "esc_ok d1" unfolding d1_def by (rule byte_ok)
  moreover have "tr_ok (cp80_transfer v (d\<lparr>cp_dirty := True\<rparr>))"
    using assms by (intro transfer_ok) (simp add: cp80_ok_def tr_ok_def)
  then have "tr_ok d1" unfolding d1_def using tr_ok_same [of "cp80_byte v e" e for e] by simp
  ultimately have "cp80_ok d1" using assms link_facts(1) [OF views(1)] views(2) by (simp add: cp80_ok_def rest_view_def)
  moreover from this have "cp80_ok (cp80_say p bs d1)" for p bs
    using say_wf [of d1 p bs] say_rest [of p bs d1] tr_ok_same [of "cp80_say p bs d1" d1] say_esc [of p bs d1]
    by (simp add: cp80_ok_def rest_view_def)
  ultimately show ?thesis by (simp add: cp80_write_def Let_def flip: d1_def)
qed

lemma enq_ok:
  assumes "cp80_ok d"
  shows "cp80_ok (snd (cp80_enq_tick d))"
  using assms by (simp add: cp80_enq_tick_def cp80_second_def Let_def cp80_ok_def out_wf_def esc_ok_def tr_ok_def CP80_POLL_SECS_def)

lemma out_tick_ok: "cp80_ok d \<Longrightarrow> cp80_ok (snd (cp80_out_tick d))"
  by (simp add: cp80_out_tick_def cp80_ok_def out_wf_def esc_ok_def tr_ok_def CP80_OUT_MAX_def)

lemma react_ok_printer:
  assumes "cp80_ok d"
  shows "cp80_ok (snd (cp80_react e d))"
proof (cases e)
  case (Plug on)
  then show ?thesis
    using assms by (simp add: prn_cp80_set_connected_def cp80_wire_def Let_def cp80_ok_def out_wf_def esc_ok_def tr_ok_def)
qed (use assms printer_write_ok enq_ok out_tick_ok in
  \<open>simp_all add: cp80_lsr_read_def prn_cp80_tear_def prn_cp80_clear_def prn_cp80_abort_transfer_def Let_def
    cp80_ok_def out_wf_def esc_ok_def tr_ok_def\<close>)

lemma run_ok_printer: "cp80_ok d \<Longrightarrow> cp80_ok (snd (cp80_run es d))"
  by (induction es arbitrary: d) (simp_all add: case_prod_beta Let_def react_ok_printer)

lemma init_ok_printer: "cp80_init banner port free = Some d \<Longrightarrow> cp80_ok d"
  by (auto simp: cp80_init_def cp80_ok_def out_wf_def esc_ok_def tr_ok_def CP80_OUT_MAX_def CP80_POLL_SECS_def split: if_splits)



end
