(* ===== verification/Modem_Sound.thy ===== *)
theory Modem_Sound
  imports C_Strings
begin

text \<open>
  The speaker of the modem, \<open>src/src/char/modem_sound.c\<close>: the schedule of a call in
  milliseconds, which the modem waits out, and the player of the same call, which takes
  its events from a ring and counts samples. The samples themselves are floating-point and
  left out with their filters and oscillators; what is modelled of the sound handler is
  where in the call it is and whether the speaker is open.
\<close>

section \<open>The schedule\<close>

definition MS_DIALTONE :: u32 where "MS_DIALTONE = 800"
definition MS_DTMF_ON :: u32 where "MS_DTMF_ON = 90"
definition MS_DTMF_OFF :: u32 where "MS_DTMF_OFF = 90"
definition MS_PULSE_MAKE :: u32 where "MS_PULSE_MAKE = 40"
definition MS_PULSE_BRK :: u32 where "MS_PULSE_BRK = 60"
definition MS_PULSE_GAP :: u32 where "MS_PULSE_GAP = 700"
definition MS_WAIT_W :: u32 where "MS_WAIT_W = 1500"
definition MS_POSTDIAL :: u32 where "MS_POSTDIAL = 600"
definition MS_FIRST_RING :: u32 where "MS_FIRST_RING = 2600"

lemmas ms_defs = MS_DIALTONE_def MS_DTMF_ON_def MS_DTMF_OFF_def MS_PULSE_MAKE_def MS_PULSE_BRK_def
  MS_PULSE_GAP_def MS_WAIT_W_def MS_POSTDIAL_def MS_FIRST_RING_def

text \<open>The phases of the handshake, from the gap after the answer to the V.90 learning.\<close>

definition MS_HS :: "u32 list" where
  "MS_HS = [150, 1300, 1300, 450, 300, 160, 550, 1500, 1300]"

definition MS_HS_DIL :: u32 where "MS_HS_DIL = 1200"

text \<open>
  The characters of a dial string: \<open>T\<close> and \<open>P\<close> switch between tones and pulses, a comma
  waits S8 seconds, \<open>W\<close> for a dial tone; a pulse digit takes as many pulses as it says, ten
  for a zero.
\<close>

definition is_tone :: "u8 \<Rightarrow> bool" where "is_tone c \<longleftrightarrow> c = 0x54 \<or> c = 0x74"
definition is_pulse :: "u8 \<Rightarrow> bool" where "is_pulse c \<longleftrightarrow> c = 0x50 \<or> c = 0x70"
definition is_wait :: "u8 \<Rightarrow> bool" where "is_wait c \<longleftrightarrow> c = 0x57 \<or> c = 0x77"
definition is_key :: "u8 \<Rightarrow> bool" where "is_key c \<longleftrightarrow> c = 0x2A \<or> c = 0x23 \<or> 0x41 \<le> c \<and> c \<le> 0x44"

definition pulses_of :: "u8 \<Rightarrow> nat" where
  "pulses_of c = (if c = 0x30 then 10 else unat c - 0x30)"

fun dial_loop :: "u8 list \<Rightarrow> u32 \<Rightarrow> bool \<Rightarrow> u32 \<Rightarrow> u32" where
  "dial_loop [] s8 pulse ms = ms"
| "dial_loop (c # cs) s8 pulse ms =
     (if is_tone c then dial_loop cs s8 False ms
      else if is_pulse c then dial_loop cs s8 True ms
      else if c = 0x2C then dial_loop cs s8 pulse (ms + s8 * 1000)
      else if is_wait c then dial_loop cs s8 pulse (ms + MS_WAIT_W)
      else if isdigit c then
        dial_loop cs s8 pulse
          (ms + (if pulse then of_nat (pulses_of c) * (MS_PULSE_MAKE + MS_PULSE_BRK) + MS_PULSE_GAP
                 else MS_DTMF_ON + MS_DTMF_OFF))
      else if is_key c then dial_loop cs s8 pulse (ms + (if pulse then 0 else MS_DTMF_ON + MS_DTMF_OFF))
      else dial_loop cs s8 pulse ms)"

definition modem_sound_dial_ms :: "u8 list \<Rightarrow> u32 \<Rightarrow> bool \<Rightarrow> u32" where
  "modem_sound_dial_ms number s8 pulse = dial_loop number s8 pulse MS_DIALTONE + MS_POSTDIAL"

definition modem_sound_ring_ms :: u32 where
  "modem_sound_ring_ms = MS_FIRST_RING"

definition modem_sound_handshake_ms :: "bool \<Rightarrow> u32" where
  "modem_sound_handshake_ms v90 = sum_list MS_HS + (if v90 then MS_HS_DIL else 0)"

section \<open>The player's state\<close>

datatype sound_phase = PH_IDLE | PH_DIAL | PH_RING | PH_HANDSHAKE | PH_ONLINE | PH_BUSY

datatype step_kind = ST_TONE_DIAL | ST_DTMF | ST_PULSE | ST_SILENCE

datatype sound_type = MODEM_SOUND_HANGUP | MODEM_SOUND_DIAL | MODEM_SOUND_ANSWER | MODEM_SOUND_CONNECT | MODEM_SOUND_BUSY

record dial_step =
  st_kind :: step_kind
  st_digit :: u8
  st_samples :: u32

record sound_ev =
  ev_type :: sound_type
  ev_arg :: u32
  ev_number :: "u8 list"

definition MAX_STEPS :: nat where "MAX_STEPS = 256"
definition EVQ :: nat where "EVQ = 16"

record modem_sound =
  ms_q :: "sound_ev list"
  ms_q_write :: u32
  ms_q_read :: u32
  ms_mode :: int
  ms_level :: int
  ms_uk :: bool
  ms_v90 :: bool
  ms_rate :: nat
  ms_phase :: sound_phase
  ms_t :: u32
  ms_steps :: "dial_step list"
  ms_nsteps :: nat
  ms_step :: nat
  ms_step_t0 :: u32
  ms_click :: nat

definition ms_to_samples :: "modem_sound \<Rightarrow> u32 \<Rightarrow> u32" where
  "ms_to_samples s ms = ucast ((ucast ms * of_nat (ms_rate s) :: u64) div 1000)"

section \<open>Events\<close>

text \<open>
  \<open>e->number\<close> is 64 bytes, one of them the NUL. The ring has no check: a seventeenth event
  before the sound thread looks overwrites the first.
\<close>

definition modem_sound_event :: "sound_type \<Rightarrow> u8 list \<Rightarrow> u32 \<Rightarrow> modem_sound \<Rightarrow> modem_sound" where
  "modem_sound_event ty number arg s =
     s\<lparr>ms_q := (ms_q s)[unat (ms_q_write s) mod EVQ := \<lparr>ev_type = ty, ev_arg = arg, ev_number = take 63 number\<rparr>],
       ms_q_write := ms_q_write s + 1\<rparr>"

definition modem_sound_speaker :: "int \<Rightarrow> int \<Rightarrow> modem_sound \<Rightarrow> modem_sound" where
  "modem_sound_speaker mode level s = s\<lparr>ms_mode := mode, ms_level := level\<rparr>"

definition modem_sound_country :: "bool \<Rightarrow> bool \<Rightarrow> modem_sound \<Rightarrow> modem_sound" where
  "modem_sound_country uk v90 s = s\<lparr>ms_uk := uk, ms_v90 := v90\<rparr>"

section \<open>The dial program\<close>

definition add_step :: "step_kind \<Rightarrow> u8 \<Rightarrow> u32 \<Rightarrow> modem_sound \<Rightarrow> modem_sound" where
  "add_step kind digit ms s =
     (if ms_nsteps s < MAX_STEPS
      then s\<lparr>ms_steps := (ms_steps s)[ms_nsteps s := \<lparr>st_kind = kind, st_digit = digit, st_samples = ms_to_samples s ms\<rparr>],
             ms_nsteps := ms_nsteps s + 1\<rparr>
      else s)"

definition add_pulse :: "modem_sound \<Rightarrow> modem_sound" where
  "add_pulse s = add_step ST_SILENCE 0 MS_PULSE_MAKE (add_step ST_PULSE 1 MS_PULSE_BRK s)"

fun build_loop :: "u8 list \<Rightarrow> u32 \<Rightarrow> bool \<Rightarrow> modem_sound \<Rightarrow> modem_sound" where
  "build_loop [] s8 pulse s = s"
| "build_loop (c # cs) s8 pulse s =
     (if is_tone c then build_loop cs s8 False s
      else if is_pulse c then build_loop cs s8 True s
      else if c = 0x2C then build_loop cs s8 pulse (add_step ST_TONE_DIAL 0 (s8 * 1000) s)
      else if is_wait c then build_loop cs s8 pulse (add_step ST_TONE_DIAL 0 MS_WAIT_W s)
      else if isdigit c then
        build_loop cs s8 pulse
          (if pulse then add_step ST_SILENCE 0 MS_PULSE_GAP ((add_pulse ^^ pulses_of c) s)
           else add_step ST_SILENCE 0 MS_DTMF_OFF (add_step ST_DTMF c MS_DTMF_ON s))
      else if \<not> pulse \<and> is_key c then
        build_loop cs s8 pulse (add_step ST_SILENCE 0 MS_DTMF_OFF (add_step ST_DTMF c MS_DTMF_ON s))
      else build_loop cs s8 pulse s)"

definition build_dial :: "u8 list \<Rightarrow> u32 \<Rightarrow> bool \<Rightarrow> modem_sound \<Rightarrow> modem_sound" where
  "build_dial number s8 pulse s =
     (let s = add_step ST_TONE_DIAL 0 MS_DIALTONE (s\<lparr>ms_nsteps := 0\<rparr>);
          s = add_step ST_SILENCE 0 MS_POSTDIAL (build_loop number s8 pulse s)
      in s\<lparr>ms_step := 0, ms_step_t0 := 0\<rparr>)"

section \<open>The sound thread\<close>

text \<open>One round of the loop of \<open>take_events\<close>; the loop runs as often as the indices differ.\<close>

definition take_event :: "modem_sound \<Rightarrow> modem_sound" where
  "take_event s =
     (let e = ms_q s ! (unat (ms_q_read s) mod EVQ);
          s = (case ev_type e of
                MODEM_SOUND_DIAL \<Rightarrow>
                  (build_dial (ev_number e) (ev_arg e AND 0xFF) (bit (ev_arg e) 8) s)\<lparr>
                     ms_phase := PH_DIAL, ms_t := 0, ms_click := ms_rate s div 150\<rparr>
              | MODEM_SOUND_ANSWER \<Rightarrow> s\<lparr>ms_phase := PH_HANDSHAKE, ms_t := 0, ms_click := ms_rate s div 300\<rparr>
              | MODEM_SOUND_CONNECT \<Rightarrow> s\<lparr>ms_phase := PH_ONLINE, ms_t := 0\<rparr>
              | MODEM_SOUND_BUSY \<Rightarrow> s\<lparr>ms_phase := PH_BUSY, ms_t := 0\<rparr>
              | MODEM_SOUND_HANGUP \<Rightarrow>
                  s\<lparr>ms_click := (if ms_phase s \<noteq> PH_IDLE then ms_rate s div 150 else ms_click s),
                    ms_phase := PH_IDLE, ms_t := 0\<rparr>)
      in s\<lparr>ms_q_read := ms_q_read s + 1\<rparr>)"

definition take_events :: "modem_sound \<Rightarrow> modem_sound" where
  "take_events s = (take_event ^^ unat (ms_q_write s - ms_q_read s)) s"

text \<open>Whether the speaker is open for the part of the call that plays.\<close>

definition sound_hear :: "int \<Rightarrow> sound_phase \<Rightarrow> bool" where
  "sound_hear mode ph = (case ph of
       PH_IDLE \<Rightarrow> False
     | PH_DIAL \<Rightarrow> mode = 1 \<or> mode = 2
     | PH_ONLINE \<Rightarrow> mode = 2
     | _ \<Rightarrow> mode = 1 \<or> mode = 2 \<or> mode = 3)"

text \<open>One sample: whether it is heard, and the state after it.\<close>

definition sound_sample :: "int \<Rightarrow> modem_sound \<Rightarrow> bool \<times> modem_sound" where
  "sound_sample mode s =
     (let hear = sound_hear mode (ms_phase s);
          s = (if ms_phase s = PH_DIAL then
                 (if ms_step s < ms_nsteps s
                  then let st = ms_steps s ! ms_step s; k = ms_t s - ms_step_t0 s
                       in if st_samples st \<le> k + 1 then s\<lparr>ms_step := ms_step s + 1, ms_step_t0 := ms_t s + 1\<rparr> else s
                  else s\<lparr>ms_phase := PH_RING, ms_t := 0\<rparr>)
               else s)
      in (hear \<or> 0 < ms_click s, s\<lparr>ms_click := ms_click s - 1, ms_t := ms_t s + 1\<rparr>))"

primrec sound_samples :: "nat \<Rightarrow> int \<Rightarrow> modem_sound \<Rightarrow> bool list \<times> modem_sound" where
  "sound_samples 0 mode s = ([], s)"
| "sound_samples (Suc n) mode s =
     (let (h, s) = sound_sample mode s; (hs, s) = sound_samples n mode s in (h # hs, s))"

definition modem_sound_get_buffer :: "nat \<Rightarrow> nat \<Rightarrow> bool \<Rightarrow> modem_sound \<Rightarrow> bool list \<times> modem_sound" where
  "modem_sound_get_buffer rate len on s =
     (if rate = 0 then ([], s)
      else let s = take_events (s\<lparr>ms_rate := rate\<rparr>); mode = ms_mode s;
          (heard, s) = sound_samples len mode s
      in (map (\<lambda>h. h \<and> on \<and> mode \<noteq> 0) heard, s))"

text \<open>The speaker is one for the process and is reused; \<open>None\<close> is the first start.\<close>

definition sound_zero :: modem_sound where
  "sound_zero = \<lparr>ms_q = replicate EVQ \<lparr>ev_type = MODEM_SOUND_HANGUP, ev_arg = 0, ev_number = []\<rparr>,
     ms_q_write = 0, ms_q_read = 0, ms_mode = 0, ms_level = 0, ms_uk = False, ms_v90 = False, ms_rate = 0,
     ms_phase = PH_IDLE, ms_t = 0,
     ms_steps = replicate MAX_STEPS \<lparr>st_kind = ST_TONE_DIAL, st_digit = 0, st_samples = 0\<rparr>,
     ms_nsteps = 0, ms_step = 0, ms_step_t0 = 0, ms_click = 0\<rparr>"

definition modem_sound_init :: "nat \<Rightarrow> modem_sound option \<Rightarrow> modem_sound" where
  "modem_sound_init rate old =
     (let s = (case old of None \<Rightarrow> sound_zero | Some s \<Rightarrow> s)
      in s\<lparr>ms_q_read := ms_q_write s, ms_phase := PH_IDLE, ms_click := 0, ms_mode := 1, ms_level := 2, ms_rate := rate\<rparr>)"

definition modem_sound_close :: "modem_sound \<Rightarrow> modem_sound" where
  "modem_sound_close s = modem_sound_event MODEM_SOUND_HANGUP [] 0 s"

end
