(* ===== verification/Modem.thy ===== *)
theory Modem
  imports Modem_Sound Net_Socket Ring_Array "HOL-Library.Monad_Syntax"
begin

text \<open>
  The modem on COM4, \<open>src/src/char/char_modem.c\<close>: its answers, its line, its command set
  and its two modes. The sockets are the parameter \<open>net\<close>; the tick count is an argument,
  one reading for each call of a hook. \<open>None\<close> is a decimal argument that overflows C's
  \<open>int\<close>. A C string is the list of its bytes before the NUL; the two command buffers are
  arrays of 256. The logs are left out.
\<close>

section \<open>Constants and tables\<close>

definition MODEM_OUT_SIZE :: nat where "MODEM_OUT_SIZE = 4096"
definition MODEM_CMD_SIZE :: nat where "MODEM_CMD_SIZE = 256"
definition MODEM_SETTLE_MS :: u32 where "MODEM_SETTLE_MS = 100"

datatype modem_line = MODEM_LINE_DEAD | MODEM_LINE_TCP

datatype modem_state =
    MODEM_ST_IDLE
  | MODEM_ST_DIALING
  | MODEM_ST_CONNECTING
  | MODEM_ST_ANSWERING
  | MODEM_ST_ONLINE

datatype modem_res =
    RES_OK
  | RES_CONNECT
  | RES_RING
  | RES_NO_CARRIER
  | RES_ERROR
  | RES_CONNECT_1200
  | RES_NO_DIALTONE
  | RES_BUSY
  | RES_NO_ANSWER
  | RES_NONE

text \<open>The number of a code; \<open>RES_NONE\<close> is never printed.\<close>

fun res_number :: "modem_res \<Rightarrow> int" where
  "res_number RES_OK = 0"
| "res_number RES_CONNECT = 1"
| "res_number RES_RING = 2"
| "res_number RES_NO_CARRIER = 3"
| "res_number RES_ERROR = 4"
| "res_number RES_CONNECT_1200 = 5"
| "res_number RES_NO_DIALTONE = 6"
| "res_number RES_BUSY = 7"
| "res_number RES_NO_ANSWER = 8"
| "res_number RES_NONE = - 1"

fun modem_res_text :: "modem_res \<Rightarrow> u8 list" where
  "modem_res_text RES_OK = bytes ''OK''"
| "modem_res_text RES_CONNECT = bytes ''CONNECT''"
| "modem_res_text RES_RING = bytes ''RING''"
| "modem_res_text RES_NO_CARRIER = bytes ''NO CARRIER''"
| "modem_res_text RES_ERROR = bytes ''ERROR''"
| "modem_res_text RES_CONNECT_1200 = bytes ''CONNECT 1200''"
| "modem_res_text RES_NO_DIALTONE = bytes ''NO DIALTONE''"
| "modem_res_text RES_BUSY = bytes ''BUSY''"
| "modem_res_text RES_NO_ANSWER = bytes ''NO ANSWER''"
| "modem_res_text RES_NONE = []"

record modem_model =
  mm_name :: "u8 list"
  mm_ident_at :: int
  mm_ident :: "u8 list"
  mm_fmw_at :: int
  mm_fmw :: "u8 list"
  mm_country_at :: int
  mm_info :: "u8 list option list"

definition modem_supra :: modem_model where
  "modem_supra = \<lparr>mm_name = bytes ''Diamond SupraExpress 56e PRO'',
     mm_ident_at = 3, mm_ident = bytes ''SupraExpress 56e PRO'',
     mm_fmw_at = 7, mm_fmw = bytes ''V1.100-V90_2M_DLS'', mm_country_at = 5,
     mm_info = [Some (bytes ''1794''), Some (bytes ''168''), Some (bytes ''OK''), None,
       Some (bytes ''Diamond Multimedia SupraExpress 56e PRO''), None,
       Some (bytes ''RCVDL56ACF/SP Rev 1.100''), None, None, None]\<rparr>"

definition modem_elsa :: modem_model where
  "modem_elsa = \<lparr>mm_name = bytes ''ELSA MicroLink 56k'',
     mm_ident_at = 6, mm_ident = bytes ''ELSA MicroLink 56k'',
     mm_fmw_at = 3, mm_fmw = bytes ''2.274'', mm_country_at = 5,
     mm_info = [Some (bytes ''1442''), Some (bytes ''168''), Some (bytes ''OK''), None,
       Some (bytes ''ELSA MicroLink 56k''), None, None, Some (bytes ''ELSA AG, Aachen''), None, None]\<rparr>"

definition modem_models :: "modem_model list" where
  "modem_models = [modem_supra, modem_elsa]"

definition modem_s_defaults :: "u8 list" where
  "modem_s_defaults = [0, 0, 43, 13, 10, 8, 2, 50, 2, 6, 14, 95, 50] @ replicate 87 0"

section \<open>The device\<close>

record modem =
  mo_model :: modem_model
  mo_line :: modem_line
  mo_host :: "u8 list"
  mo_host_port :: nat
  mo_ident :: "u8 list"
  mo_firmware :: "u8 list"
  mo_connect_rate :: int
  mo_out :: "u8 list"
  mo_out_head :: nat
  mo_out_tail :: nat
  mo_cmd :: "u8 list"
  mo_lastcmd :: "u8 list"
  mo_cmdlen :: nat
  mo_s :: "u8 list"
  mo_echo :: bool
  mo_verbose :: bool
  mo_quiet :: bool
  mo_xresult :: int
  mo_wresult :: int
  mo_dcd_mode :: int
  mo_dsr_mode :: int
  mo_dtr_mode :: int
  mo_flow :: int
  mo_country :: u32
  mo_online :: bool
  mo_state :: modem_state
  mo_sock :: int
  mo_deadline :: u32
  mo_said_connect :: bool
  mo_dtr :: bool
  mo_last_data :: u32
  mo_pluses :: nat
  mo_snd :: modem_sound
  mo_spk_mode :: int
  mo_spk_level :: int
  mo_pulse :: bool
  mo_answer_at :: u32
  mo_refused :: bool

text \<open>The modem and the network behind it.\<close>

type_synonym 'n modem_io = "modem \<times> 'n"

section \<open>Output\<close>

definition modem_out_byte :: "u8 \<Rightarrow> modem \<Rightarrow> modem" where
  "modem_out_byte val dev =
     (let nxt = (mo_out_head dev + 1) mod MODEM_OUT_SIZE
      in if nxt = mo_out_tail dev then dev
         else dev\<lparr>mo_out := (mo_out dev)[mo_out_head dev := val], mo_out_head := nxt\<rparr>)"

definition modem_out_str :: "u8 list \<Rightarrow> modem \<Rightarrow> modem" where
  "modem_out_str s dev = fold modem_out_byte s dev"

definition modem_out_line :: "u8 list \<Rightarrow> modem \<Rightarrow> modem" where
  "modem_out_line s dev =
     (let dev = modem_out_byte (mo_s dev ! 3) dev;
          dev = modem_out_byte (mo_s dev ! 4) dev;
          dev = modem_out_str s dev;
          dev = modem_out_byte (mo_s dev ! 3) dev
      in modem_out_byte (mo_s dev ! 4) dev)"

text \<open>The code that is reported for a code, at each level of ATX.\<close>

definition res_shown :: "int \<Rightarrow> modem_res \<Rightarrow> modem_res" where
  "res_shown x code =
     (if x = 0 then (if code = RES_NO_DIALTONE \<or> code = RES_BUSY \<or> code = RES_NO_ANSWER then RES_NO_CARRIER else code)
      else let code = (if code = RES_NO_DIALTONE \<and> x \<noteq> 2 \<and> x \<noteq> 4 then RES_NO_CARRIER else code)
           in if code = RES_BUSY \<and> x < 3 then RES_NO_CARRIER else code)"

text \<open>Its text: at most 23 bytes, so that the buffer of 64 never cuts it.\<close>

definition res_text :: "modem_res \<Rightarrow> modem \<Rightarrow> u8 list" where
  "res_text code dev =
     (if code = RES_CONNECT then
        (if mo_xresult dev = 0 then bytes ''CONNECT''
         else if mo_wresult dev = 2 then bytes ''CONNECT '' @ fmt_ld (mo_connect_rate dev) @ bytes ''/V90''
         else bytes ''CONNECT '' @ fmt_ld (mo_connect_rate dev))
      else modem_res_text code)"

definition modem_result :: "modem_res \<Rightarrow> modem \<Rightarrow> modem" where
  "modem_result code dev =
     (if code = RES_NONE \<or> mo_quiet dev then dev
      else let code = res_shown (mo_xresult dev) code
           in if mo_verbose dev then modem_out_line (res_text code dev) dev
              else let dev = modem_out_str (fmt_ld (res_number code)) dev
                   in modem_out_byte (mo_s dev ! 3) dev)"

section \<open>The line\<close>

definition modem_hangup :: "'n net \<Rightarrow> 'n modem_io \<Rightarrow> 'n modem_io" where
  "modem_hangup net = (\<lambda>(dev, n).
     let dev = (if mo_state dev \<noteq> MODEM_ST_IDLE
                then dev\<lparr>mo_snd := modem_sound_event MODEM_SOUND_HANGUP [] 0 (mo_snd dev)\<rparr> else dev);
         n = (if CHAR_FD_VALID (mo_sock dev) then plat_netsocket_close net (mo_sock dev) n else n);
         dev = (if CHAR_FD_VALID (mo_sock dev) then dev\<lparr>mo_sock := - 1\<rparr> else dev)
     in (dev\<lparr>mo_state := MODEM_ST_IDLE, mo_online := False, mo_pluses := 0\<rparr>, n))"

definition modem_answered :: "u32 \<Rightarrow> modem \<Rightarrow> modem" where
  "modem_answered now dev =
     dev\<lparr>mo_state := MODEM_ST_ANSWERING, mo_said_connect := False,
       mo_deadline := now + modem_sound_handshake_ms (33600 < mo_connect_rate dev),
       mo_snd := modem_sound_event MODEM_SOUND_ANSWER [] 0 (mo_snd dev)\<rparr>"

definition modem_online :: "modem \<Rightarrow> modem" where
  "modem_online dev = dev\<lparr>mo_state := MODEM_ST_ONLINE, mo_online := True\<rparr>"

text \<open>What a connect leaves when it fails at once: the far end rings, and nobody answers.\<close>

definition dial_fails :: "modem \<Rightarrow> modem" where
  "dial_fails dev = dev\<lparr>mo_sock := - 1, mo_state := MODEM_ST_DIALING, mo_deadline := mo_answer_at dev + 5000\<rparr>"

definition modem_dial :: "'n net \<Rightarrow> u32 \<Rightarrow> u8 list \<Rightarrow> 'n modem_io \<Rightarrow> 'n modem_io" where
  "modem_dial net now number = (\<lambda>(dev, n).
     let s8 = ucast (mo_s dev ! 8);
         dev = dev\<lparr>mo_refused := False,
                   mo_answer_at := now + modem_sound_dial_ms number s8 (mo_pulse dev) + modem_sound_ring_ms\<rparr>
     in if mo_line dev = MODEM_LINE_TCP then
          let snd1 = modem_sound_country (mo_country dev = 16 \<or> mo_country dev = 0xB4) (33600 < mo_connect_rate dev) (mo_snd dev);
              snd2 = modem_sound_event MODEM_SOUND_DIAL number (s8 OR (if mo_pulse dev then push_bit 8 1 else 0)) snd1;
              (fd, n) = plat_netsocket_create net n;
              dev = dev\<lparr>mo_snd := snd2, mo_sock := fd\<rparr>
          in if \<not> CHAR_FD_VALID fd
             then (dev\<lparr>mo_state := MODEM_ST_DIALING, mo_deadline := mo_answer_at dev + 5000\<rparr>, n)
             else let (r, n) = plat_netsocket_connect net fd (mo_host dev) (mo_host_port dev) n
                  in if r \<noteq> 0 then (dial_fails dev, plat_netsocket_close net fd n)
                     else (dev\<lparr>mo_state := MODEM_ST_CONNECTING, mo_deadline := now + ucast (mo_s dev ! 7) * 1000\<rparr>, n)
        else (dev\<lparr>mo_state := MODEM_ST_DIALING,
                  mo_deadline := now + (if mo_xresult dev = 2 \<or> mo_xresult dev = 4 then 1500
                                        else ucast (mo_s dev ! 7) * 1000)\<rparr>, n))"

text \<open>\<open>(int32_t) (now - t) < 0\<close>: \<open>t\<close> is still to come.\<close>

definition before :: "u32 \<Rightarrow> u32 \<Rightarrow> bool" where
  "before now t \<longleftrightarrow> sint (now - t) < 0"

definition modem_give_up :: "'n net \<Rightarrow> modem_res \<Rightarrow> 'n modem_io \<Rightarrow> 'n modem_io" where
  "modem_give_up net code s = (let (dev, n) = modem_hangup net s in (modem_result code dev, n))"

text \<open>Waiting for the far end.\<close>

definition poll_connecting :: "'n net \<Rightarrow> u32 \<Rightarrow> 'n modem_io \<Rightarrow> 'n modem_io" where
  "poll_connecting net now = (\<lambda>(dev, n).
     let (connected, n) = (if mo_refused dev then (- 1, n) else plat_netsocket_connected net (mo_sock dev) n)
     in if connected = 1 then (if before now (mo_answer_at dev) then dev else modem_answered now dev, n)
        else let dev = (if connected = - 1 \<and> \<not> mo_refused dev
                        then dev\<lparr>mo_refused := True,
                               mo_deadline := (if 0 < sint (mo_answer_at dev - now) then mo_answer_at dev else now) + 5000\<rparr>
                        else dev)
             in if before now (mo_deadline dev) then (dev, n) else modem_give_up net RES_NO_CARRIER (dev, n))"

definition modem_poll_line :: "'n net \<Rightarrow> u32 \<Rightarrow> 'n modem_io \<Rightarrow> 'n modem_io" where
  "modem_poll_line net now s =
     (let (dev, n) = s
      in case mo_state dev of
        MODEM_ST_DIALING \<Rightarrow>
          (if before now (mo_deadline dev) then s
           else modem_give_up net
             (if mo_line dev = MODEM_LINE_DEAD \<and> (mo_xresult dev = 2 \<or> mo_xresult dev = 4) then RES_NO_DIALTONE
              else RES_NO_CARRIER) s)
      | MODEM_ST_CONNECTING \<Rightarrow> poll_connecting net now s
      | MODEM_ST_ANSWERING \<Rightarrow>
          (if before now (mo_deadline dev) then s
           else if \<not> mo_said_connect dev then
             (let dev = dev\<lparr>mo_snd := modem_sound_event MODEM_SOUND_CONNECT [] 0 (mo_snd dev)\<rparr>;
                  dev = modem_result RES_CONNECT dev
              in (dev\<lparr>mo_said_connect := True, mo_deadline := now + MODEM_SETTLE_MS\<rparr>, n))
           else if mo_out_tail dev = mo_out_head dev then (modem_online dev, n) else s)
      | _ \<Rightarrow> s)"

section \<open>Commands\<close>

text \<open>
  A decimal argument and what follows it. The arithmetic of C's \<open>int\<close> ends at 2147483647;
  what lies beyond is undefined.
\<close>

fun arg_digits :: "int \<Rightarrow> u8 list \<Rightarrow> (int \<times> u8 list) option" where
  "arg_digits val [] = Some (val, [])"
| "arg_digits val (c # cs) =
     (if isdigit c then
        (let val = val * 10 + (uint c - 0x30) in if val \<le> 2147483647 then arg_digits val cs else None)
      else Some (val, c # cs))"

definition skip_spaces :: "u8 list \<Rightarrow> u8 list" where
  "skip_spaces p = dropWhile (\<lambda>c. c = 0x20) p"

definition modem_arg :: "u8 list \<Rightarrow> (int \<times> u8 list) option" where
  "modem_arg p = arg_digits 0 (skip_spaces p)"

definition modem_info :: "int \<Rightarrow> modem \<Rightarrow> modem" where
  "modem_info i dev =
     (if i < 0 \<or> 9 < i then dev
      else if i = mm_ident_at (mo_model dev) then modem_out_line (mo_ident dev) dev
      else if i = mm_fmw_at (mo_model dev) then modem_out_line (mo_firmware dev) dev
      else if i = mm_country_at (mo_model dev)
        then modem_out_line (bytes ''Country Code: '' @ fmt_02X32 (mo_country dev)) dev
      else case mm_info (mo_model dev) ! nat i of
          Some t \<Rightarrow> modem_out_line t dev
        | None \<Rightarrow> dev)"

definition modem_load_defaults :: "modem \<Rightarrow> modem" where
  "modem_load_defaults dev =
     (let dev = dev\<lparr>mo_s := modem_s_defaults, mo_echo := True, mo_verbose := True, mo_quiet := False,
                    mo_xresult := 4, mo_wresult := 0, mo_dcd_mode := 1, mo_dsr_mode := 0, mo_dtr_mode := 2,
                    mo_flow := 3, mo_spk_mode := 1, mo_spk_level := 2, mo_pulse := False\<rparr>
      in dev\<lparr>mo_snd := modem_sound_speaker (mo_spk_mode dev) (mo_spk_level dev) (mo_snd dev)\<rparr>)"

end
