(* ===== verification/Modem_Command.thy ===== *)
theory Modem_Command
  imports Modem "HOL-Library.Sublist"
begin

text \<open>
  The command set of the modem: one definition per group of letters of \<open>modem_execute\<close>,
  and the loop over the command line, which ends because every command takes at least its
  letter. \<open>Ret\<close> is a \<open>return\<close> of the C function, \<open>Go\<close> the rest of the line after a
  \<open>break\<close>.
\<close>

datatype exec = Ret modem_res | Go "u8 list"

type_synonym 'n exec_result = "(exec \<times> 'n modem_io) option"

text \<open>A command that takes a decimal argument and stores it.\<close>

definition with_arg :: "(int \<Rightarrow> 'n modem_io \<Rightarrow> 'n modem_io) \<Rightarrow> u8 list \<Rightarrow> 'n modem_io \<Rightarrow> 'n exec_result" where
  "with_arg f p s = Option.bind (modem_arg p) (\<lambda>(v, p). Some (Go p, f v s))"

definition set_dev :: "(modem \<Rightarrow> modem) \<Rightarrow> 'n modem_io \<Rightarrow> 'n modem_io" where
  "set_dev f = (\<lambda>(dev, n). (f dev, n))"

section \<open>Dialling\<close>

text \<open>What a dial string keeps: digits, \<open>*\<close>, \<open>#\<close>, commas and \<open>WwTtPp\<close>, at most 63 of them.\<close>

definition dialable :: "u8 \<Rightarrow> bool" where
  "dialable d \<longleftrightarrow> isdigit d \<or> d = 0x2A \<or> d = 0x23 \<or> d = 0x2C \<or> strchr (bytes ''WwTtPp'') d \<noteq> None"

definition exec_dial :: "'n net \<Rightarrow> u32 \<Rightarrow> u8 list \<Rightarrow> 'n modem_io \<Rightarrow> 'n exec_result" where
  "exec_dial net now p s =
     (if mo_state (fst s) \<noteq> MODEM_ST_IDLE then Some (Ret RES_ERROR, s)
      else Some (Ret RES_NONE, modem_dial net now (take 63 (filter dialable p)) s))"

section \<open>The S registers\<close>

definition exec_sreg :: "u8 list \<Rightarrow> 'n modem_io \<Rightarrow> 'n exec_result" where
  "exec_sreg p s =
     Option.bind (modem_arg p) (\<lambda>(reg, p).
       if 100 \<le> reg then Some (Ret RES_ERROR, s)
       else case skip_spaces p of
           [] \<Rightarrow> Some (Ret RES_ERROR, s)
         | c # p \<Rightarrow>
             if c = 0x3D then
               with_arg (\<lambda>v. set_dev (\<lambda>dev. dev\<lparr>mo_s := (mo_s dev)[nat reg := word_of_int v]\<rparr>)) p s
             else if c = 0x3F then
               Some (Go p, set_dev (\<lambda>dev. modem_out_line (fmt_0ld 3 (uint (mo_s dev ! nat reg))) dev) s)
             else Some (Ret RES_ERROR, s))"

section \<open>The ampersand set\<close>

definition exec_amp :: "u8 list \<Rightarrow> 'n modem_io \<Rightarrow> 'n exec_result" where
  "exec_amp p s =
     (case p of
       [] \<Rightarrow> Some (Ret RES_ERROR, s)
     | c # p \<Rightarrow>
         (let a = toupper c
          in if a = 0x43 then with_arg (\<lambda>v. set_dev (\<lambda>dev. dev\<lparr>mo_dcd_mode := v\<rparr>)) p s
             else if a = 0x44 then with_arg (\<lambda>v. set_dev (\<lambda>dev. dev\<lparr>mo_dtr_mode := v\<rparr>)) p s
             else if a = 0x4B then with_arg (\<lambda>v. set_dev (\<lambda>dev. dev\<lparr>mo_flow := v\<rparr>)) p s
             else if a = 0x53 then with_arg (\<lambda>v. set_dev (\<lambda>dev. dev\<lparr>mo_dsr_mode := v\<rparr>)) p s
             else if a = 0x46 then with_arg (\<lambda>v. set_dev modem_load_defaults) p s
             else if a = 0x57 \<or> a = 0x59 \<or> a = 0x5A then
               Option.bind (modem_arg p) (\<lambda>(v, p).
                 Some (Go (if take 1 p = [0x3D] then dropWhile (\<lambda>c. c \<noteq> 0x3B) p else p), s))
             else if a = 0x56 then Some (Go p, set_dev (\<lambda>dev. modem_out_line (mo_ident dev) dev) s)
             else with_arg (\<lambda>v s. s) p s))"

section \<open>Country and the extended set\<close>

definition exec_star :: "u8 list \<Rightarrow> 'n modem_io \<Rightarrow> 'n exec_result" where
  "exec_star p s =
     (case p of
       [] \<Rightarrow> Some (Ret RES_ERROR, s)
     | c # p \<Rightarrow>
         (let a = toupper c;
              p = (if map toupper (take 1 p) = [0x43] then drop 1 p else p)
          in with_arg (\<lambda>v. if a = 0x4E then set_dev (\<lambda>dev. dev\<lparr>mo_country := word_of_int v\<rparr>) else id) p s))"

definition ext_name :: "u8 list \<Rightarrow> u8 list" where
  "ext_name p = take 15 (takeWhile (\<lambda>c. c \<noteq> 0x3D \<and> c \<noteq> 0x3F) p)"

definition exec_plus :: "u8 list \<Rightarrow> 'n modem_io \<Rightarrow> 'n exec_result" where
  "exec_plus p s =
     (let name = map toupper (ext_name p);
          p = drop (length name) p
      in if name = bytes ''GCI'' then
           (if take 1 p = [0x3F] then
              Some (Go (drop 1 p), set_dev (\<lambda>dev. modem_out_line (bytes ''+GCI: '' @ fmt_02X32 (mo_country dev)) dev) s)
            else if take 1 p = [0x3D] then
              (let (v, p) = strtol16 (drop 1 p)
               in Some (Go p, set_dev (\<lambda>dev. dev\<lparr>mo_country := word_of_int v\<rparr>) s))
            else Some (Ret RES_ERROR, s))
         else if name = bytes ''MS'' \<or> name = bytes ''FCLASS'' \<or> name = bytes ''IFC'' \<or> name = bytes ''ES'' then
           Some (Go (dropWhile (\<lambda>c. c \<noteq> 0x3B) p), s)
         else Some (Ret RES_ERROR, s))"

text \<open>Microcom, Rockwell and other letters that take a letter and an argument.\<close>

definition exec_other :: "u8 list \<Rightarrow> 'n modem_io \<Rightarrow> 'n exec_result" where
  "exec_other p s = (case p of [] \<Rightarrow> Some (Ret RES_ERROR, s) | c # p \<Rightarrow> with_arg (\<lambda>v s. s) p s)"

section \<open>One letter, and the line\<close>

definition set_speaker :: "modem \<Rightarrow> modem" where
  "set_speaker dev = dev\<lparr>mo_snd := modem_sound_speaker (mo_spk_mode dev) (mo_spk_level dev) (mo_snd dev)\<rparr>"

text \<open>The letters that only store their argument.\<close>

definition plain_set :: "u8 \<Rightarrow> (int \<Rightarrow> modem \<Rightarrow> modem) option" where
  "plain_set c =
     (if c = 0x45 then Some (\<lambda>v dev. dev\<lparr>mo_echo := v \<noteq> 0\<rparr>)
      else if c = 0x51 then Some (\<lambda>v dev. dev\<lparr>mo_quiet := v \<noteq> 0\<rparr>)
      else if c = 0x56 then Some (\<lambda>v dev. dev\<lparr>mo_verbose := v \<noteq> 0\<rparr>)
      else if c = 0x57 then Some (\<lambda>v dev. dev\<lparr>mo_wresult := v\<rparr>)
      else if c = 0x58 then Some (\<lambda>v dev. dev\<lparr>mo_xresult := v\<rparr>)
      else if c = 0x4C then Some (\<lambda>v dev. set_speaker (dev\<lparr>mo_spk_level := v\<rparr>))
      else if c = 0x4D then Some (\<lambda>v dev. set_speaker (dev\<lparr>mo_spk_mode := v\<rparr>))
      else if c = 0x42 \<or> c = 0x4E then Some (\<lambda>v dev. dev)
      else None)"

definition exec_letter :: "'n net \<Rightarrow> u32 \<Rightarrow> u8 \<Rightarrow> u8 list \<Rightarrow> 'n modem_io \<Rightarrow> 'n exec_result" where
  "exec_letter net now c p s =
     (case plain_set c of
       Some f \<Rightarrow> with_arg (\<lambda>v. set_dev (f v)) p s
     | None \<Rightarrow>
         if c = 0x20 then Some (Go p, s)
         else if c = 0x41 then Some (Ret RES_NO_CARRIER, s)
         else if c = 0x44 then exec_dial net now p s
         else if c = 0x48 then with_arg (\<lambda>v. if v = 0 then modem_hangup net else id) p s
         else if c = 0x49 then with_arg (\<lambda>v. set_dev (modem_info v)) p s
         else if c = 0x4F then
           (if mo_state (fst s) \<noteq> MODEM_ST_ONLINE then Some (Ret RES_ERROR, s)
            else Option.bind (modem_arg p) (\<lambda>_. Some (Ret RES_NONE, set_dev (\<lambda>dev. dev\<lparr>mo_online := True\<rparr>) s)))
         else if c = 0x53 then exec_sreg p s
         else if c = 0x5A then with_arg (\<lambda>v s. set_dev modem_load_defaults (modem_hangup net s)) p s
         else if c = 0x50 then Some (Go p, set_dev (\<lambda>dev. dev\<lparr>mo_pulse := True\<rparr>) s)
         else if c = 0x54 then Some (Go p, set_dev (\<lambda>dev. dev\<lparr>mo_pulse := False\<rparr>) s)
         else if c = 0x26 then exec_amp p s
         else if c = 0x5C \<or> c = 0x25 \<or> c = 0x2D then exec_other p s
         else if c = 0x2A then exec_star p s
         else if c = 0x2B then exec_plus p s
         else Some (Ret RES_ERROR, s))"

text \<open>What a command gives back is the end of the line it was given.\<close>

lemma arg_digits_rest: "arg_digits v p = Some (a, q) \<Longrightarrow> suffix q p"
  by (induction v p rule: arg_digits.induct) (auto simp: Let_def suffix_ConsI split: if_splits)

lemma modem_arg_rest: "modem_arg p = Some (a, q) \<Longrightarrow> suffix q p"
  using arg_digits_rest [of 0 "skip_spaces p" a q] suffix_dropWhile [of "\<lambda>c. c = 0x20" p]
  by (auto simp: modem_arg_def skip_spaces_def intro: suffix_order.trans)

lemma with_arg_rest: "with_arg f p s = Some (Go q, s') \<Longrightarrow> suffix q p"
  by (auto simp: with_arg_def bind_eq_Some_conv dest: modem_arg_rest)

lemma strtol16_rest: "suffix (snd (strtol16 p)) p"
proof -
  have drops: "suffix (drop n q) p" if "suffix q p" for n q
    using that suffix_drop suffix_order.trans by blast
  have "suffix (dropWhile isspace p) p" by (rule suffix_dropWhile)
  then show ?thesis by (simp add: strtol16_def Let_def drops)
qed

lemma exec_sreg_rest:
  assumes "exec_sreg p s = Some (Go q, s')"
  shows "suffix q p"
proof -
  obtain reg r where r: "modem_arg p = Some (reg, r)" using assms by (auto simp: exec_sreg_def bind_eq_Some_conv)
  have "suffix (skip_spaces r) p"
    unfolding skip_spaces_def by (rule suffix_order.trans [OF suffix_dropWhile modem_arg_rest [OF r]])
  then have "skip_spaces r = c # q' \<Longrightarrow> suffix q' p" for c q' by (auto dest: suffix_ConsD)
  then show ?thesis
    using assms r by (auto simp: exec_sreg_def split: if_splits list.splits dest!: with_arg_rest intro: suffix_order.trans)
qed

lemma exec_amp_rest:
  assumes "exec_amp p s = Some (Go q, s')"
  shows "suffix q p"
proof (cases p)
  case Nil
  then show ?thesis using assms by (simp add: exec_amp_def)
next
  case (Cons c r)
  have w: "suffix q p" if "with_arg f r s = Some (Go q, s')" for f
    using with_arg_rest [OF that] Cons by (simp add: suffix_ConsI)
  have d: "suffix (dropWhile (\<lambda>c. c \<noteq> 0x3B) r') p" "suffix r' p" if "modem_arg r = Some (v, r')" for v r'
    using modem_arg_rest [OF that] suffix_dropWhile [of "\<lambda>c. c \<noteq> 0x3B" r'] Cons
    by (auto intro: suffix_ConsI suffix_order.trans)
  show ?thesis
    using assms unfolding exec_amp_def Cons Let_def
    by (auto simp: bind_eq_Some_conv Cons suffix_ConsI split: if_split_asm dest!: w dest: d)
qed

lemma exec_star_rest:
  assumes "exec_star p s = Some (Go q, s')"
  shows "suffix q p"
proof (cases p)
  case (Cons c r)
  have "suffix (drop 1 r) p" "suffix r p" using suffix_drop [of 1 r] Cons by (simp_all add: suffix_ConsI)
  then show ?thesis
    using assms Cons by (auto simp: exec_star_def Let_def split: if_splits dest!: with_arg_rest intro: suffix_order.trans)
qed (use assms in \<open>simp add: exec_star_def\<close>)

lemma exec_plus_rest:
  assumes "exec_plus p s = Some (Go q, s')"
  shows "suffix q p"
proof -
  define r where "r = drop (length (map toupper (ext_name p))) p"
  have r: "suffix r p" unfolding r_def by (rule suffix_drop)
  have "suffix (drop 1 r) p" "suffix (dropWhile (\<lambda>c. c \<noteq> 0x3B) r) p" "suffix (snd (strtol16 (drop 1 r))) p"
    using r suffix_drop [of 1 r] suffix_dropWhile [of "\<lambda>c. c \<noteq> 0x3B" r] strtol16_rest [of "drop 1 r"]
    by (blast intro: suffix_order.trans)+
  then show ?thesis
    using assms unfolding exec_plus_def Let_def r_def [symmetric]
    by (auto simp: case_prod_beta split: if_splits)
qed

lemma exec_letter_rest: "exec_letter net now c p s = Some (Go q, s') \<Longrightarrow> suffix q p"
  by (auto simp: exec_letter_def exec_dial_def exec_other_def bind_eq_Some_conv suffix_ConsI
      split: if_splits option.splits list.splits
      dest!: with_arg_rest exec_sreg_rest exec_amp_rest exec_star_rest exec_plus_rest)

function modem_execute :: "'n net \<Rightarrow> u32 \<Rightarrow> u8 list \<Rightarrow> 'n modem_io \<Rightarrow> (modem_res \<times> 'n modem_io) option" where
  "modem_execute net now [] s = Some (RES_OK, s)"
| "modem_execute net now (c # p) s =
     (case exec_letter net now (toupper c) p s of
       None \<Rightarrow> None
     | Some (Ret code, s) \<Rightarrow> Some (code, s)
     | Some (Go p, s) \<Rightarrow> modem_execute net now p s)"
  by pat_completeness auto

termination
  by (relation "measure (\<lambda>(net, now, p, s). length p)") (auto simp: less_Suc_eq_le dest!: exec_letter_rest suffix_length_le)

text \<open>The line is kept for \<open>A/\<close>, cut to the array it is kept in.\<close>

definition modem_command :: "'n net \<Rightarrow> u32 \<Rightarrow> u8 list \<Rightarrow> 'n modem_io \<Rightarrow> 'n modem_io option" where
  "modem_command net now line s =
     (let kept = take (MODEM_CMD_SIZE - 1) line;
          s = set_dev (\<lambda>dev. dev\<lparr>mo_lastcmd := put 0 (kept @ [0]) (mo_lastcmd dev)\<rparr>) s
      in Option.bind (modem_execute net now line s) (\<lambda>(res, s). Some (set_dev (modem_result res) s)))"

section \<open>Bytes from the terminal\<close>

definition modem_echo_erase :: "modem \<Rightarrow> modem" where
  "modem_echo_erase dev =
     (let dev = modem_out_byte (mo_s dev ! 5) dev; dev = modem_out_byte 0x20 dev
      in modem_out_byte (mo_s dev ! 5) dev)"

text \<open>The end of a line: a command, an error, or nothing for an empty one.\<close>

definition modem_line_end :: "'n net \<Rightarrow> u32 \<Rightarrow> 'n modem_io \<Rightarrow> 'n modem_io option" where
  "modem_line_end net now s =
     (let s = set_dev (\<lambda>dev. dev\<lparr>mo_cmd := (mo_cmd dev)[mo_cmdlen dev := 0]\<rparr>) s; dev = fst s
      in Option.bind
        (if 2 \<le> mo_cmdlen dev then
           (if toupper (mo_cmd dev ! 0) = 0x41 \<and> toupper (mo_cmd dev ! 1) = 0x54
            then modem_command net now (c_str (drop 2 (mo_cmd dev))) s
            else Some (set_dev (modem_result RES_ERROR) s))
         else Some (if 0 < mo_cmdlen dev then set_dev (modem_result RES_ERROR) s else s))
        (\<lambda>s. Some (set_dev (\<lambda>dev. dev\<lparr>mo_cmdlen := 0\<rparr>) s)))"

definition modem_command_byte :: "'n net \<Rightarrow> u32 \<Rightarrow> u8 \<Rightarrow> 'n modem_io \<Rightarrow> 'n modem_io option" where
  "modem_command_byte net now val s =
     (let (dev, n) = s
      in if val = mo_s dev ! 5 then
           Some (if 0 < mo_cmdlen dev
             then (let dev = dev\<lparr>mo_cmdlen := mo_cmdlen dev - 1\<rparr>
                   in if mo_echo dev then modem_echo_erase dev else dev, n)
             else s)
         else
           let dev = (if mo_echo dev \<and> val \<noteq> mo_s dev ! 4 then modem_out_byte val dev else dev)
           in if val = mo_s dev ! 3 then modem_line_end net now (dev, n)
              else if val = mo_s dev ! 4 then Some (dev, n)
              else if mo_cmdlen dev = 1 \<and> val = 0x2F \<and> toupper (mo_cmd dev ! 0) = 0x41
                then modem_command net now (c_str (mo_lastcmd dev)) (dev\<lparr>mo_cmdlen := 0\<rparr>, n)
              else Some (if mo_cmdlen dev < MODEM_CMD_SIZE - 1
                then dev\<lparr>mo_cmd := (mo_cmd dev)[mo_cmdlen dev := val], mo_cmdlen := mo_cmdlen dev + 1\<rparr>
                else dev, n))"

text \<open>
  A byte in data mode. A send is asked for once and its result ignored. The first loop
  sends the escape characters that were held back.
\<close>

definition modem_guard :: "modem \<Rightarrow> u32" where
  "modem_guard dev = ucast (mo_s dev ! 12) * 20"

definition send_byte :: "'n net \<Rightarrow> int \<Rightarrow> u8 \<Rightarrow> 'n \<Rightarrow> 'n" where
  "send_byte net fd b n = (if CHAR_FD_VALID fd then snd (plat_netsocket_send net fd [b] n) else n)"

definition modem_data_byte :: "'n net \<Rightarrow> u32 \<Rightarrow> u8 \<Rightarrow> 'n modem_io \<Rightarrow> 'n modem_io" where
  "modem_data_byte net now val s =
     (let (dev, n) = s;
          esc = (val = mo_s dev ! 2 \<and> (0 < mo_pluses dev \<or> modem_guard dev \<le> now - mo_last_data dev));
          dev = (if esc then dev\<lparr>mo_pluses := mo_pluses dev + 1, mo_last_data := now\<rparr> else dev)
      in if esc \<and> mo_pluses dev \<le> 3 then (dev, n)
         else
           let n = (send_byte net (mo_sock dev) (mo_s dev ! 2) ^^ mo_pluses dev) n
           in (dev\<lparr>mo_pluses := 0, mo_last_data := now\<rparr>, send_byte net (mo_sock dev) val n))"

section \<open>The hooks of the serial port\<close>

text \<open>The escape sequence completes on silence.\<close>

definition modem_escape :: "u32 \<Rightarrow> modem \<Rightarrow> modem" where
  "modem_escape now dev =
     (if mo_online dev \<and> 3 \<le> mo_pluses dev \<and> modem_guard dev \<le> now - mo_last_data dev
      then modem_result RES_OK (dev\<lparr>mo_pluses := 0, mo_online := False\<rparr>) else dev)"

definition modem_used :: "modem \<Rightarrow> nat" where
  "modem_used dev = (mo_out_head dev + MODEM_OUT_SIZE - mo_out_tail dev) mod MODEM_OUT_SIZE"

text \<open>
  What the carrier delivers, as much as the ring has room for and at most 256 bytes. With
  no room nothing is asked for and the count stays at zero, which is a connection closed.
\<close>

definition modem_receive :: "'n net \<Rightarrow> 'n modem_io \<Rightarrow> 'n modem_io" where
  "modem_receive net = (\<lambda>(dev, n).
     if mo_online dev \<and> CHAR_FD_VALID (mo_sock dev) then
       let room = min (MODEM_OUT_SIZE - 1 - modem_used dev) 256;
           (r, n) = (if 0 < room then plat_netsocket_receive net (mo_sock dev) room n else (Closed, n))
       in case r of
           Got bs \<Rightarrow> (fold modem_out_byte bs dev, n)
         | No_Data \<Rightarrow> (dev, n)
         | _ \<Rightarrow> modem_give_up net RES_NO_CARRIER (dev, n)
     else (dev, n))"

primrec modem_drain :: "nat \<Rightarrow> modem \<Rightarrow> u8 list \<times> modem" where
  "modem_drain 0 dev = ([], dev)"
| "modem_drain (Suc k) dev =
     (if mo_out_tail dev = mo_out_head dev then ([], dev)
      else let b = mo_out dev ! mo_out_tail dev;
               (bs, dev) = modem_drain k (dev\<lparr>mo_out_tail := (mo_out_tail dev + 1) mod MODEM_OUT_SIZE\<rparr>)
           in (b # bs, dev))"

definition modem_read :: "'n net \<Rightarrow> u32 \<Rightarrow> nat \<Rightarrow> 'n modem_io \<Rightarrow> u8 list \<times> 'n modem_io" where
  "modem_read net now len s =
     (let s = modem_poll_line net now s;
          s = set_dev (modem_escape now) s;
          (dev, n) = modem_receive net s;
          (bs, dev) = modem_drain len dev
      in (bs, dev, n))"

primrec modem_write :: "'n net \<Rightarrow> u32 \<Rightarrow> u8 list \<Rightarrow> 'n modem_io \<Rightarrow> 'n modem_io option" where
  "modem_write net now [] s = Some s"
| "modem_write net now (b # bs) s =
     Option.bind
       (if mo_online (fst s) then Some (modem_data_byte net now b s) else modem_command_byte net now b s)
       (modem_write net now bs)"

definition CHAR_COM_CTS :: u32 where "CHAR_COM_CTS = 0x10"
definition CHAR_COM_DSR :: u32 where "CHAR_COM_DSR = 0x20"
definition CHAR_COM_DCD :: u32 where "CHAR_COM_DCD = 0x80"

definition modem_status :: "modem \<Rightarrow> u32" where
  "modem_status dev =
     CHAR_COM_CTS
     OR (if mo_dsr_mode dev = 0 \<or> mo_state dev \<noteq> MODEM_ST_IDLE then CHAR_COM_DSR else 0)
     OR (if mo_dcd_mode dev = 0 \<or> mo_state dev = MODEM_ST_ONLINE then CHAR_COM_DCD else 0)"

definition modem_control :: "'n net \<Rightarrow> bool \<Rightarrow> 'n modem_io \<Rightarrow> 'n modem_io" where
  "modem_control net dtr = (\<lambda>(dev, n).
     let drop = (mo_dtr dev \<and> \<not> dtr); dev = dev\<lparr>mo_dtr := dtr\<rparr>
     in if \<not> drop then (dev, n)
        else if mo_dtr_mode dev = 1 then (dev\<lparr>mo_online := False\<rparr>, n)
        else if mo_dtr_mode dev = 2 then
          (if mo_state dev \<noteq> MODEM_ST_IDLE then modem_give_up net RES_NO_CARRIER (dev, n) else (dev, n))
        else if mo_dtr_mode dev = 3 then set_dev modem_load_defaults (modem_hangup net (dev, n))
        else (dev, n))"

definition modem_close :: "'n net \<Rightarrow> 'n modem_io \<Rightarrow> modem_sound \<times> 'n" where
  "modem_close net s = (let (dev, n) = modem_hangup net s in (modem_sound_close (mo_snd dev), n))"

text \<open>
  The settings of the configuration, with no string for a blank one. \<open>calloc\<close> is the zero
  of every field that is not set.
\<close>

definition modem_init ::
    "nat \<Rightarrow> modem_line \<Rightarrow> nat \<Rightarrow> int \<Rightarrow> u8 list \<Rightarrow> u8 list \<Rightarrow> u8 list \<Rightarrow> modem_sound \<Rightarrow> modem" where
  "modem_init local line host_port rate host ident firmware spk =
     (let model = modem_models ! (if local < length modem_models then local else 0);
          host = take 127 host;
          dev = \<lparr>mo_model = model, mo_line = MODEM_LINE_DEAD, mo_host = [], mo_host_port = 0, mo_ident = [],
            mo_firmware = [], mo_connect_rate = 0, mo_out = replicate MODEM_OUT_SIZE 0, mo_out_head = 0, mo_out_tail = 0,
            mo_cmd = replicate MODEM_CMD_SIZE 0, mo_lastcmd = replicate MODEM_CMD_SIZE 0, mo_cmdlen = 0,
            mo_s = replicate 100 0, mo_echo = False, mo_verbose = False, mo_quiet = False, mo_xresult = 0,
            mo_wresult = 0, mo_dcd_mode = 0, mo_dsr_mode = 0, mo_dtr_mode = 0, mo_flow = 0, mo_country = 0,
            mo_online = False, mo_state = MODEM_ST_IDLE, mo_sock = - 1, mo_deadline = 0, mo_said_connect = False,
            mo_dtr = False, mo_last_data = 0, mo_pluses = 0, mo_snd = spk, mo_spk_mode = 0, mo_spk_level = 0,
            mo_pulse = False, mo_answer_at = 0, mo_refused = False\<rparr>
      in (modem_load_defaults dev)\<lparr>
           mo_line := (if line = MODEM_LINE_TCP \<and> host = [] then MODEM_LINE_DEAD else line),
           mo_host_port := host_port, mo_connect_rate := rate, mo_host := host,
           mo_ident := take 63 (if ident \<noteq> [] then ident else mm_ident model),
           mo_firmware := take 63 (if firmware \<noteq> [] then firmware else mm_fmw model)\<rparr>)"

end
