(* ===== verification/Modem_Output.thy ===== *)
theory Modem_Output
  imports Modem_Command Byte_Queue
begin

text \<open>
  What the modem says to the terminal: its ring as a bounded queue, and every line, result
  and echo as a block of bytes into that queue which leaves the rest of the modem alone.
\<close>

section \<open>The ring to the terminal\<close>

definition mo_ring_ok :: "modem \<Rightarrow> bool" where
  "mo_ring_ok dev \<longleftrightarrow> length (mo_out dev) = MODEM_OUT_SIZE \<and> mo_out_tail dev < MODEM_OUT_SIZE \<and> mo_out_head dev < MODEM_OUT_SIZE"

definition mo_items :: "modem \<Rightarrow> u8 list" where
  "mo_items dev = ring (mo_out dev) (mo_out_tail dev) (modem_used dev)"

definition mo_room :: "modem \<Rightarrow> nat" where
  "mo_room dev = MODEM_OUT_SIZE - 1 - modem_used dev"

definition mo_put :: "modem \<Rightarrow> u8 \<Rightarrow> modem option" where
  "mo_put dev b = (if mo_room dev = 0 then None else Some (modem_out_byte b dev))"

definition mo_take :: "modem \<Rightarrow> (u8 \<times> modem) option" where
  "mo_take dev = (case modem_drain 1 dev of ([], _) \<Rightarrow> None | (b # _, dev) \<Rightarrow> Some (b, dev))"

lemma modem_used_ring: "modem_used dev = ring_used MODEM_OUT_SIZE (mo_out_tail dev) (mo_out_head dev)"
  by (simp add: modem_used_def ring_used_def)

lemma mo_ring_facts:
  assumes "mo_ring_ok dev"
  shows "modem_used dev < MODEM_OUT_SIZE" "mo_out_tail dev = mo_out_head dev \<longleftrightarrow> modem_used dev = 0"
    and "(mo_out_head dev + 1) mod MODEM_OUT_SIZE = mo_out_tail dev \<longleftrightarrow> mo_room dev = 0"
  using assms ring_used_bounds [of "mo_out_tail dev" MODEM_OUT_SIZE "mo_out_head dev"]
  by (auto simp: modem_used_ring mo_room_def mo_ring_ok_def)

lemma mo_items_length [simp]: "length (mo_items dev) = modem_used dev"
  by (simp add: mo_items_def)

lemma mo_put_room:
  assumes "mo_ring_ok d" "0 < mo_room d"
  shows "\<exists>d'. mo_put d b = Some d' \<and> mo_ring_ok d' \<and> mo_items d' = mo_items d @ [b] \<and> Suc (mo_room d') = mo_room d"
proof -
  let ?t = "mo_out_tail d" and ?h = "mo_out_head d"
  let ?d = "d\<lparr>mo_out := (mo_out d)[?h := b], mo_out_head := (?h + 1) mod MODEM_OUT_SIZE\<rparr>"
  have w: "length (mo_out d) = MODEM_OUT_SIZE" "?t < MODEM_OUT_SIZE" "?h < MODEM_OUT_SIZE"
    using assms(1) by (simp_all add: mo_ring_ok_def)
  have free: "ring_used MODEM_OUT_SIZE ?t ?h < MODEM_OUT_SIZE - 1"
    using assms(2) by (simp add: mo_room_def modem_used_ring)
  have "mo_ring_ok ?d" "modem_used ?d = Suc (modem_used d)"
    using w ring_used_push [OF w(2,3) free] by (simp_all add: mo_ring_ok_def modem_used_ring)
  moreover from this(2) have "mo_items ?d = mo_items d @ [b]"
    using ring_push_items [OF w free] by (simp add: mo_items_def modem_used_ring)
  moreover have "mo_put d b = Some ?d"
    using mo_ring_facts(3) [OF assms(1)] assms(2) by (simp add: mo_put_def modem_out_byte_def Let_def)
  ultimately show ?thesis using assms(2) by (auto simp: mo_room_def)
qed

lemma mo_take_next:
  assumes "mo_ring_ok d" "mo_items d = b # bs"
  shows "\<exists>d'. mo_take d = Some (b, d') \<and> mo_ring_ok d' \<and> mo_items d' = bs \<and> mo_room d' = Suc (mo_room d)"
proof -
  let ?t = "mo_out_tail d"
  let ?d = "d\<lparr>mo_out_tail := (?t + 1) mod MODEM_OUT_SIZE\<rparr>"
  have w: "length (mo_out d) = MODEM_OUT_SIZE" "?t < MODEM_OUT_SIZE" "mo_out_head d < MODEM_OUT_SIZE"
    using assms(1) by (simp_all add: mo_ring_ok_def)
  obtain n where n: "modem_used d = Suc n" using assms(2) by (cases "modem_used d") (simp_all add: mo_items_def)
  have ok: "mo_ring_ok ?d" "modem_used ?d = n"
    using w ring_used_pop [OF w(2,3)] n by (simp_all add: mo_ring_ok_def modem_used_ring)
  have "b # bs = mo_out d ! ?t # mo_items ?d"
    using assms(2) ring_pop_items [OF w(1,2)] ok(2) by (simp add: mo_items_def n)
  moreover have "mo_take d = Some (mo_out d ! ?t, ?d)"
    using mo_ring_facts(2) [OF assms(1)] n by (simp add: mo_take_def)
  ultimately show ?thesis
    using ok n mo_ring_facts(1) [OF assms(1)] unfolding mo_room_def by (intro exI [of _ ?d]) simp
qed

interpretation terminal: byte_queue mo_put mo_take mo_items mo_room mo_ring_ok
proof
  fix d :: modem and b :: u8
  assume "mo_ring_ok d" "mo_items d = []"
  then have "modem_used d = 0" by (metis mo_items_length list.size(3))
  then show "mo_take d = None" using mo_ring_facts(2) [OF \<open>mo_ring_ok d\<close>] by (simp add: mo_take_def)
qed (use mo_put_room mo_take_next in \<open>blast | simp add: mo_put_def\<close>)+

section \<open>Everything said is a block\<close>

lemma out_byte_full: "mo_ring_ok d \<Longrightarrow> mo_room d = 0 \<Longrightarrow> modem_out_byte b d = d"
  using mo_ring_facts(3) [of d] by (simp add: modem_out_byte_def)

text \<open>A block goes in as far as there is room; the rest of it is lost.\<close>

lemma out_str_block:
  assumes "mo_ring_ok dev"
  shows "mo_ring_ok (modem_out_str bs dev) \<and> mo_items (modem_out_str bs dev) = mo_items dev @ take (mo_room dev) bs \<and>
    mo_room (modem_out_str bs dev) = mo_room dev - length bs"
  using assms
proof (induction bs arbitrary: dev)
  case Nil
  then show ?case by (simp add: modem_out_str_def)
next
  case (Cons b bs)
  have step: "modem_out_str (b # bs) dev = modem_out_str bs (modem_out_byte b dev)" by (simp add: modem_out_str_def)
  show ?case
  proof (cases "mo_room dev = 0")
    case True
    then show ?thesis using Cons.IH [OF Cons.prems] out_byte_full [OF Cons.prems] by (simp add: step)
  next
    case False
    then have d: "mo_ring_ok (modem_out_byte b dev)" "mo_items (modem_out_byte b dev) = mo_items dev @ [b]"
        "mo_room dev = Suc (mo_room (modem_out_byte b dev))"
      using mo_put_room [OF Cons.prems, of b] by (auto simp: mo_put_def)
    show ?thesis using Cons.IH [OF d(1)] d by (simp add: step)
  qed
qed

lemmas out_str_ok = out_str_block [THEN conjunct1]
lemmas out_str_items = out_str_block [THEN conjunct2, THEN conjunct1]
lemmas out_str_room = out_str_block [THEN conjunct2, THEN conjunct2]

text \<open>Nothing else of the modem moves.\<close>

lemma out_str_frame: "\<exists>out h. modem_out_str bs dev = dev\<lparr>mo_out := out, mo_out_head := h\<rparr>"
proof (induction bs arbitrary: dev)
  case Nil
  have "dev = dev\<lparr>mo_out := mo_out dev, mo_out_head := mo_out_head dev\<rparr>" by simp
  then show ?case unfolding modem_out_str_def fold_simps id_apply by blast
next
  case (Cons b bs)
  obtain o1 h1 where d: "modem_out_byte b dev = dev\<lparr>mo_out := o1, mo_out_head := h1\<rparr>"
    by (cases "(mo_out_head dev + 1) mod MODEM_OUT_SIZE = mo_out_tail dev")
      (auto simp: modem_out_byte_def Let_def intro: that [of "mo_out_head dev" "mo_out dev"] that)
  show ?case using Cons.IH [of "modem_out_byte b dev"] by (auto simp: modem_out_str_def d)
qed

lemma out_str_fields [simp]:
  "mo_model (modem_out_str bs dev) = mo_model dev" "mo_line (modem_out_str bs dev) = mo_line dev"
  "mo_ident (modem_out_str bs dev) = mo_ident dev" "mo_firmware (modem_out_str bs dev) = mo_firmware dev"
  "mo_connect_rate (modem_out_str bs dev) = mo_connect_rate dev" "mo_out_tail (modem_out_str bs dev) = mo_out_tail dev"
  "mo_cmd (modem_out_str bs dev) = mo_cmd dev" "mo_lastcmd (modem_out_str bs dev) = mo_lastcmd dev"
  "mo_cmdlen (modem_out_str bs dev) = mo_cmdlen dev" "mo_s (modem_out_str bs dev) = mo_s dev"
  "mo_echo (modem_out_str bs dev) = mo_echo dev" "mo_verbose (modem_out_str bs dev) = mo_verbose dev"
  "mo_quiet (modem_out_str bs dev) = mo_quiet dev" "mo_xresult (modem_out_str bs dev) = mo_xresult dev"
  "mo_wresult (modem_out_str bs dev) = mo_wresult dev" "mo_dcd_mode (modem_out_str bs dev) = mo_dcd_mode dev"
  "mo_dsr_mode (modem_out_str bs dev) = mo_dsr_mode dev" "mo_dtr_mode (modem_out_str bs dev) = mo_dtr_mode dev"
  "mo_country (modem_out_str bs dev) = mo_country dev" "mo_online (modem_out_str bs dev) = mo_online dev"
  "mo_state (modem_out_str bs dev) = mo_state dev" "mo_sock (modem_out_str bs dev) = mo_sock dev"
  "mo_deadline (modem_out_str bs dev) = mo_deadline dev" "mo_said_connect (modem_out_str bs dev) = mo_said_connect dev"
  "mo_dtr (modem_out_str bs dev) = mo_dtr dev" "mo_last_data (modem_out_str bs dev) = mo_last_data dev"
  "mo_pluses (modem_out_str bs dev) = mo_pluses dev" "mo_snd (modem_out_str bs dev) = mo_snd dev"
  "mo_spk_mode (modem_out_str bs dev) = mo_spk_mode dev" "mo_spk_level (modem_out_str bs dev) = mo_spk_level dev"
  "mo_pulse (modem_out_str bs dev) = mo_pulse dev" "mo_answer_at (modem_out_str bs dev) = mo_answer_at dev"
  "mo_refused (modem_out_str bs dev) = mo_refused dev"
  using out_str_frame [of bs dev] by auto

lemma out_str_append: "modem_out_str (as @ bs) dev = modem_out_str bs (modem_out_str as dev)"
  by (simp add: modem_out_str_def)

lemma out_str_Nil [simp]: "modem_out_str [] dev = dev"
  by (simp add: modem_out_str_def)

lemma out_byte_str: "modem_out_byte b dev = modem_out_str [b] dev"
  by (simp add: modem_out_str_def)

definition framed :: "modem \<Rightarrow> u8 list \<Rightarrow> u8 list" where
  "framed dev t = [mo_s dev ! 3, mo_s dev ! 4] @ t @ [mo_s dev ! 3, mo_s dev ! 4]"

lemma out_line_str: "modem_out_line t dev = modem_out_str (framed dev t) dev"
proof -
  have "framed dev t = [mo_s dev ! 3] @ [mo_s dev ! 4] @ t @ [mo_s dev ! 3] @ [mo_s dev ! 4]" by (simp add: framed_def)
  then show ?thesis
    unfolding modem_out_line_def Let_def out_byte_str by (simp only: out_str_append out_str_fields)
qed

text \<open>The bytes of a result.\<close>

definition res_bytes :: "modem_res \<Rightarrow> modem \<Rightarrow> u8 list" where
  "res_bytes code dev =
     (if code = RES_NONE \<or> mo_quiet dev then []
      else let code = res_shown (mo_xresult dev) code
           in if mo_verbose dev then framed dev (res_text code dev)
              else fmt_ld (res_number code) @ [mo_s dev ! 3])"

lemma result_str: "modem_result code dev = modem_out_str (res_bytes code dev) dev"
  by (simp add: modem_result_def res_bytes_def out_line_str out_byte_str out_str_append Let_def)

lemma echo_erase_str: "modem_echo_erase dev = modem_out_str [mo_s dev ! 5, 0x20, mo_s dev ! 5] dev"
  unfolding modem_echo_erase_def Let_def out_byte_str
  by (simp flip: out_str_append)

definition info_bytes :: "int \<Rightarrow> modem \<Rightarrow> u8 list" where
  "info_bytes i dev =
     (if i < 0 \<or> 9 < i then []
      else if i = mm_ident_at (mo_model dev) then framed dev (mo_ident dev)
      else if i = mm_fmw_at (mo_model dev) then framed dev (mo_firmware dev)
      else if i = mm_country_at (mo_model dev) then framed dev (bytes ''Country Code: '' @ fmt_02X32 (mo_country dev))
      else case mm_info (mo_model dev) ! nat i of Some t \<Rightarrow> framed dev t | None \<Rightarrow> [])"

lemma info_str: "modem_info i dev = modem_out_str (info_bytes i dev) dev"
  by (simp add: modem_info_def info_bytes_def out_line_str split: option.split)

lemmas said = out_byte_str out_line_str result_str echo_erase_str info_str

end
