(* ===== verification/Modem_Safe.thy ===== *)
theory Modem_Safe
  imports Modem_Output
begin

text \<open>
  The modem as a state machine: its hooks as events, the invariant they keep, and that a
  command line is always answered.
\<close>

section \<open>The invariant\<close>

definition on_line :: "modem_state \<Rightarrow> bool" where
  "on_line st \<longleftrightarrow> st = MODEM_ST_CONNECTING \<or> st = MODEM_ST_ANSWERING \<or> st = MODEM_ST_ONLINE"

text \<open>A socket is held exactly while there is a line, and data mode is for the established one.\<close>

definition mo_line_ok :: "modem \<Rightarrow> bool" where
  "mo_line_ok dev \<longleftrightarrow> (CHAR_FD_VALID (mo_sock dev) \<longleftrightarrow> on_line (mo_state dev)) \<and>
     (mo_online dev \<longrightarrow> mo_state dev = MODEM_ST_ONLINE) \<and> mo_pluses dev \<le> 3"

definition mo_cmd_ok :: "modem \<Rightarrow> bool" where
  "mo_cmd_ok dev \<longleftrightarrow> length (mo_cmd dev) = MODEM_CMD_SIZE \<and> mo_cmdlen dev < MODEM_CMD_SIZE \<and>
     length (mo_lastcmd dev) = MODEM_CMD_SIZE \<and> 0 \<in> set (mo_lastcmd dev) \<and> length (mo_s dev) = 100 \<and>
     mo_model dev \<in> set modem_models"

definition sound_ok :: "modem_sound \<Rightarrow> bool" where
  "sound_ok s \<longleftrightarrow> length (ms_q s) = EVQ"

definition modem_ok :: "modem \<Rightarrow> bool" where
  "modem_ok dev \<longleftrightarrow> mo_ring_ok dev \<and> mo_line_ok dev \<and> mo_cmd_ok dev \<and> sound_ok (mo_snd dev)"

lemma fd_closed [simp]: "\<not> CHAR_FD_VALID (- 1)"
  by (simp add: CHAR_FD_VALID_def)

lemma sound_event_ok [simp]: "sound_ok (modem_sound_event ty nr arg s) = sound_ok s"
  by (simp add: modem_sound_event_def sound_ok_def)

lemma sound_set_ok [simp]: "sound_ok (modem_sound_speaker m l s) = sound_ok s" "sound_ok (modem_sound_country uk v s) = sound_ok s"
  by (simp_all add: modem_sound_speaker_def modem_sound_country_def sound_ok_def)

lemma said_ok: "modem_ok (modem_out_str bs dev)" if "modem_ok dev"
  using that out_str_ok [of dev bs] by (simp add: modem_ok_def mo_line_ok_def mo_cmd_ok_def)

lemmas says_ok = said_ok [folded out_byte_str, unfolded] said_ok

text \<open>Fields outside the invariant.\<close>

lemma ring_ok_fields: "mo_ring_ok dev \<Longrightarrow> mo_out d = mo_out dev \<Longrightarrow> mo_out_head d = mo_out_head dev \<Longrightarrow>
    mo_out_tail d = mo_out_tail dev \<Longrightarrow> mo_ring_ok d"
  by (simp add: mo_ring_ok_def)

lemmas modem_ok_defs = modem_ok_def mo_ring_ok_def mo_line_ok_def mo_cmd_ok_def

section \<open>The line keeps it\<close>

lemma hangup_ok: "modem_ok (fst s) \<Longrightarrow> modem_ok (fst (modem_hangup net s))"
  by (cases s) (auto simp: modem_hangup_def Let_def modem_ok_defs on_line_def)

lemma give_up_ok: "modem_ok (fst s) \<Longrightarrow> modem_ok (fst (modem_give_up net code s))"
  using hangup_ok [of s net] by (simp add: modem_give_up_def case_prod_beta result_str said_ok)

lemma dial_ok:
  assumes "modem_ok (fst s)" "mo_state (fst s) = MODEM_ST_IDLE"
  shows "modem_ok (fst (modem_dial net now nr s))"
proof -
  obtain dev n where s: "s = (dev, n)" by (cases s)
  have "\<not> mo_online dev" "\<not> CHAR_FD_VALID (mo_sock dev)"
    using assms by (auto simp: s modem_ok_defs on_line_def)
  then show ?thesis
    using assms(1) by (simp add: s modem_dial_def dial_fails_def Let_def case_prod_beta modem_ok_defs on_line_def)
qed

lemma poll_connecting_ok:
  assumes "modem_ok (fst s)" "mo_state (fst s) = MODEM_ST_CONNECTING"
  shows "modem_ok (fst (poll_connecting net now s))"
proof -
  obtain dev n where s: "s = (dev, n)" by (cases s)
  have "modem_ok (modem_answered now dev)"
    using assms by (auto simp: s modem_answered_def modem_ok_defs on_line_def)
  moreover have r: "modem_ok (dev\<lparr>mo_refused := True, mo_deadline := t\<rparr>)" for t
    using assms by (simp add: s modem_ok_defs)
  moreover have "modem_ok (fst (modem_give_up net code (d, n')))" if "modem_ok d" for code d n'
    using give_up_ok [of "(d, n')" net] that by simp
  ultimately show ?thesis
    using assms by (simp add: s poll_connecting_def case_prod_beta Let_def)
qed

lemma online_ok: "modem_ok dev \<Longrightarrow> mo_state dev = MODEM_ST_ANSWERING \<Longrightarrow> modem_ok (modem_online dev)"
  by (simp add: modem_online_def modem_ok_defs on_line_def)

lemma poll_line_ok:
  assumes "modem_ok (fst s)"
  shows "modem_ok (fst (modem_poll_line net now s))"
proof -
  obtain dev n where s: "s = (dev, n)" by (cases s)
  have c: "modem_ok (dev\<lparr>mo_snd := modem_sound_event MODEM_SOUND_CONNECT [] 0 (mo_snd dev)\<rparr>)"
    using assms by (simp add: s modem_ok_defs)
  have "modem_ok ((modem_out_str bs (dev\<lparr>mo_snd := modem_sound_event MODEM_SOUND_CONNECT [] 0 (mo_snd dev)\<rparr>))
      \<lparr>mo_said_connect := True, mo_deadline := t\<rparr>)" for bs t
    using said_ok [OF c, of bs] by (simp add: modem_ok_defs)
  then show ?thesis
    using assms give_up_ok [OF assms, of net] poll_connecting_ok [OF assms, of net now] online_ok [of dev]
    by (simp add: s modem_poll_line_def Let_def result_str split: modem_state.split)
qed

section \<open>Commands keep it\<close>

lemma load_defaults_ok: "modem_ok dev \<Longrightarrow> modem_ok (modem_load_defaults dev)"
  by (simp add: modem_load_defaults_def Let_def modem_ok_defs modem_s_defaults_def)

lemma with_arg_ok:
  assumes "with_arg f p s = Some (r, s')" "\<And>v. modem_ok (fst (f v s))"
  shows "modem_ok (fst s')"
  using assms by (auto simp: with_arg_def bind_eq_Some_conv)

lemma set_dev_fst [simp]: "fst (set_dev f s) = f (fst s)" "snd (set_dev f s) = snd s"
  by (simp_all add: set_dev_def case_prod_beta)

lemma plain_set_ok: "plain_set c = Some f \<Longrightarrow> modem_ok dev \<Longrightarrow> modem_ok (f v dev)"
  by (auto simp: plain_set_def set_speaker_def modem_ok_defs split: if_splits)

lemma exec_sreg_ok:
  assumes "exec_sreg p s = Some (r, s')" "modem_ok (fst s)"
  shows "modem_ok (fst s')"
proof -
  have "modem_ok ((fst s)\<lparr>mo_s := (mo_s (fst s))[i := b]\<rparr>)" for i b using assms(2) by (simp add: modem_ok_defs)
  then show ?thesis
    using assms said_ok [OF assms(2)]
    by (auto simp: exec_sreg_def bind_eq_Some_conv said split: if_splits list.splits elim!: with_arg_ok)
qed

lemma set_fields_ok:
  assumes "modem_ok dev"
  shows "modem_ok (dev\<lparr>mo_dcd_mode := v\<rparr>)" "modem_ok (dev\<lparr>mo_dtr_mode := v\<rparr>)" "modem_ok (dev\<lparr>mo_flow := v\<rparr>)"
    "modem_ok (dev\<lparr>mo_dsr_mode := v\<rparr>)" "modem_ok (dev\<lparr>mo_country := w\<rparr>)" "modem_ok (dev\<lparr>mo_pulse := b\<rparr>)"
    "modem_ok (dev\<lparr>mo_dtr := b\<rparr>)" "modem_ok (dev\<lparr>mo_online := False\<rparr>)" "modem_ok (dev\<lparr>mo_last_data := w\<rparr>)"
    "modem_ok (dev\<lparr>mo_cmdlen := mo_cmdlen dev - 1\<rparr>)" "modem_ok (dev\<lparr>mo_cmdlen := 0\<rparr>)"
    "modem_ok (dev\<lparr>mo_pluses := 0\<rparr>)" "mo_state dev = MODEM_ST_ONLINE \<Longrightarrow> modem_ok (dev\<lparr>mo_online := True\<rparr>)"
  using assms by (auto simp: modem_ok_defs intro: less_imp_diff_less)

lemma exec_amp_ok:
  assumes "exec_amp p s = Some (r, s')" "modem_ok (fst s)"
  shows "modem_ok (fst s')"
  using assms set_fields_ok [OF assms(2)] load_defaults_ok [OF assms(2)] said_ok [OF assms(2)]
  by (auto simp: exec_amp_def Let_def bind_eq_Some_conv said split: list.splits if_split_asm elim!: with_arg_ok)

lemma exec_star_ok:
  assumes "exec_star p s = Some (r, s')" "modem_ok (fst s)"
  shows "modem_ok (fst s')"
  using assms set_fields_ok [OF assms(2)]
  by (auto simp: exec_star_def Let_def split: list.splits elim!: with_arg_ok)

lemma exec_plus_ok:
  assumes "exec_plus p s = Some (r, s')" "modem_ok (fst s)"
  shows "modem_ok (fst s')"
  using assms set_fields_ok [OF assms(2)] said_ok [OF assms(2)]
  by (auto simp: exec_plus_def Let_def said case_prod_beta split: if_split_asm)

lemma exec_letter_ok:
  assumes "exec_letter net now c p s = Some (r, s')" "modem_ok (fst s)"
  shows "modem_ok (fst s')"
proof (cases "plain_set c")
  case (Some f)
  then show ?thesis
    using assms plain_set_ok [OF Some assms(2)] by (auto simp: exec_letter_def elim!: with_arg_ok)
next
  case None
  have "modem_ok (fst s')" if "exec_dial net now p s = Some (r, s')"
    using that assms(2) dial_ok [OF assms(2)] by (auto simp: exec_dial_def split: if_splits)
  then show ?thesis
    using assms set_fields_ok [OF assms(2)] said_ok [OF assms(2)] hangup_ok [OF assms(2), of net] load_defaults_ok
      exec_sreg_ok [of p s r s'] exec_amp_ok [of p s r s'] exec_star_ok [of p s r s'] exec_plus_ok [of p s r s']
    by (auto simp: exec_letter_def None said exec_other_def bind_eq_Some_conv split: if_split_asm list.splits elim!: with_arg_ok)
qed

lemma execute_ok: "modem_execute net now p s = Some (r, s') \<Longrightarrow> modem_ok (fst s) \<Longrightarrow> modem_ok (fst s')"
proof (induction net now p s rule: modem_execute.induct)
  case (2 net now c p s)
  obtain e t where e: "exec_letter net now (toupper c) p s = Some (e, t)"
    using "2.prems" by (cases "exec_letter net now (toupper c) p s") auto
  note t = exec_letter_ok [OF e "2.prems"(2)]
  show ?case
  proof (cases e)
    case (Go q)
    then show ?thesis using "2.IH" [OF e] "2.prems"(1) e t by (cases t) auto
  qed (use "2.prems"(1) e t in simp)
qed simp

lemma command_ok:
  assumes "modem_command net now line s = Some s'" "modem_ok (fst s)"
  shows "modem_ok (fst s')"
proof -
  let ?keep = "\<lambda>dev. dev\<lparr>mo_lastcmd := put 0 (take (MODEM_CMD_SIZE - 1) line @ [0]) (mo_lastcmd dev)\<rparr>"
  have "modem_ok (?keep (fst s))"
    using assms(2) by (simp add: modem_ok_defs MODEM_CMD_SIZE_def) (simp add: put_def)
  then have k: "modem_ok (fst (set_dev ?keep s))" by simp
  obtain res t where "modem_execute net now line (set_dev ?keep s) = Some (res, t)" "s' = set_dev (modem_result res) t"
    using assms(1) by (auto simp: modem_command_def Let_def bind_eq_Some_conv)
  then show ?thesis using execute_ok [OF _ k] by (simp add: result_str said_ok)
qed

lemma line_end_ok:
  assumes "modem_line_end net now s = Some s'" "modem_ok (fst s)"
  shows "modem_ok (fst s')"
proof -
  define t where "t = set_dev (\<lambda>dev. dev\<lparr>mo_cmd := (mo_cmd dev)[mo_cmdlen dev := 0]\<rparr>) s"
  have t: "modem_ok (fst t)" using assms(2) by (simp add: t_def modem_ok_defs)
  then have e: "modem_ok (fst (set_dev (modem_result RES_ERROR) t))" by (simp add: result_str said_ok)
  obtain u where u: "s' = set_dev (\<lambda>dev. dev\<lparr>mo_cmdlen := 0\<rparr>) u"
      "modem_command net now (c_str (drop 2 (mo_cmd (fst t)))) t = Some u \<or> u = set_dev (modem_result RES_ERROR) t \<or> u = t"
    using assms(1) unfolding modem_line_end_def Let_def t_def [symmetric]
    by (auto simp: bind_eq_Some_conv split: if_splits)
  then have "modem_ok (fst u)" using command_ok t e by blast
  then show ?thesis by (simp add: u(1) set_fields_ok)
qed

lemma command_byte_ok:
  assumes "modem_command_byte net now val s = Some s'" "modem_ok (fst s)"
  shows "modem_ok (fst s')"
proof -
  obtain dev n where s: "s = (dev, n)" by (cases s)
  define d where "d = (if mo_echo dev \<and> val \<noteq> mo_s dev ! 4 then modem_out_byte val dev else dev)"
  have dev: "modem_ok dev" using assms(2) by (simp add: s)
  then have d: "modem_ok d" by (simp add: d_def said said_ok)
  have type: "modem_ok (d\<lparr>mo_cmd := (mo_cmd d)[i := val], mo_cmdlen := mo_cmdlen d + 1\<rparr>)"
    if "mo_cmdlen d < MODEM_CMD_SIZE - 1" for i
    using d that by (simp add: modem_ok_defs)
  note erased = set_fields_ok(10) [OF dev]
  show ?thesis
    using assms(1) erased said_ok [OF erased] d type line_end_ok [of net now "(d, n)" s'] command_ok [of net now _ _ s']
    unfolding modem_command_byte_def s Let_def case_prod_conv d_def [symmetric]
    by (auto simp: echo_erase_str dev set_fields_ok(11) split: if_split_asm)
qed

section \<open>The hooks keep it\<close>

lemma data_byte_ok: "modem_ok (fst s) \<Longrightarrow> modem_ok (fst (modem_data_byte net now val s))"
  by (simp add: modem_data_byte_def case_prod_beta Let_def modem_ok_defs)

lemma drain_ok: "modem_ok dev \<Longrightarrow> modem_ok (snd (modem_drain k dev))"
proof (induction k arbitrary: dev)
  case (Suc k)
  have "modem_ok (dev\<lparr>mo_out_tail := (mo_out_tail dev + 1) mod MODEM_OUT_SIZE\<rparr>)"
    using Suc.prems by (simp add: modem_ok_defs MODEM_OUT_SIZE_def)
  then show ?case using Suc by (simp add: case_prod_beta Let_def)
qed simp

lemma receive_ok:
  assumes "modem_ok (fst s)"
  shows "modem_ok (fst (modem_receive net s))"
proof -
  obtain dev n where s: "s = (dev, n)" by (cases s)
  have "modem_ok (fst (modem_give_up net RES_NO_CARRIER (dev, n')))" for n'
    using give_up_ok [of "(dev, n')" net] assms by (simp add: s)
  then show ?thesis
    using assms said_ok [of dev]
    by (simp add: s modem_receive_def Let_def case_prod_beta flip: modem_out_str_def split: received.split)
qed

lemma escape_ok: "modem_ok dev \<Longrightarrow> modem_ok (modem_escape now dev)"
  by (auto simp: modem_escape_def result_str set_fields_ok intro: said_ok)

lemma read_ok:
  assumes "modem_ok (fst s)"
  shows "modem_ok (fst (snd (modem_read net now len s)))"
proof -
  have "modem_ok (fst (modem_receive net (set_dev (modem_escape now) (modem_poll_line net now s))))"
    by (rule receive_ok) (simp add: escape_ok poll_line_ok [OF assms])
  then show ?thesis by (simp add: modem_read_def case_prod_beta Let_def drain_ok)
qed

lemma write_ok_modem: "modem_write net now bs s = Some s' \<Longrightarrow> modem_ok (fst s) \<Longrightarrow> modem_ok (fst s')"
proof (induction bs arbitrary: s)
  case (Cons b bs)
  then show ?case using data_byte_ok [of s net now b] command_byte_ok [of net now b s]
    by (auto simp: bind_eq_Some_conv split: if_splits)
qed simp

lemma control_ok:
  assumes "modem_ok (fst s)"
  shows "modem_ok (fst (modem_control net dtr s))"
proof -
  obtain dev n where s: "s = (dev, n)" by (cases s)
  define d where "d = dev\<lparr>mo_dtr := dtr\<rparr>"
  have d: "modem_ok d" using assms set_fields_ok by (simp add: s d_def)
  show ?thesis
    using d give_up_ok [of "(d, n)" net] hangup_ok [of "(d, n)" net] set_fields_ok(8) [OF d] load_defaults_ok
    unfolding s modem_control_def Let_def case_prod_conv d_def [symmetric] by simp
qed

section \<open>The modem as a state machine\<close>

text \<open>
  What the serial port does: read up to so many bytes, write, and change DTR. A run gives
  the bytes that were read.
\<close>

datatype modem_event = Read u32 nat | Write u32 "u8 list" | Control bool

fun modem_react :: "'n net \<Rightarrow> modem_event \<Rightarrow> 'n modem_io \<Rightarrow> (u8 list \<times> 'n modem_io) option" where
  "modem_react net (Read now len) s = Some (modem_read net now len s)"
| "modem_react net (Write now bs) s = Option.bind (modem_write net now bs s) (\<lambda>s. Some ([], s))"
| "modem_react net (Control dtr) s = Some ([], modem_control net dtr s)"

fun modem_run :: "'n net \<Rightarrow> modem_event list \<Rightarrow> 'n modem_io \<Rightarrow> (u8 list \<times> 'n modem_io) option" where
  "modem_run net [] s = Some ([], s)"
| "modem_run net (e # es) s =
     Option.bind (modem_react net e s) (\<lambda>(out, s). Option.bind (modem_run net es s) (\<lambda>(rest, s). Some (out @ rest, s)))"

lemma react_ok_modem: "modem_react net e s = Some (out, s') \<Longrightarrow> modem_ok (fst s) \<Longrightarrow> modem_ok (fst s')"
  using read_ok [of s net] by (cases e) (auto simp: bind_eq_Some_conv control_ok intro: write_ok_modem, metis fst_conv snd_conv)

lemma run_ok_modem: "modem_run net es s = Some (out, s') \<Longrightarrow> modem_ok (fst s) \<Longrightarrow> modem_ok (fst s')"
proof (induction es arbitrary: s out)
  case (Cons e es)
  obtain o1 t where t: "modem_react net e s = Some (o1, t)" using Cons.prems(1) by (auto simp: bind_eq_Some_conv)
  then obtain o2 where "modem_run net es t = Some (o2, s')" using Cons.prems(1) by (auto simp: bind_eq_Some_conv)
  then show ?case using Cons.IH react_ok_modem [OF t Cons.prems(2)] by blast
qed simp

lemma init_ok_modem:
  assumes "length (ms_q spk) = EVQ"
  shows "modem_ok (modem_init model line port rate host ident firmware spk)"
proof -
  have "modem_models ! (if model < length modem_models then model else 0) \<in> set modem_models"
    by (intro nth_mem) (simp add: modem_models_def)
  then show ?thesis
    using assms unfolding modem_init_def Let_def
    by (simp add: modem_load_defaults_def modem_sound_speaker_def Let_def modem_ok_defs sound_ok_def on_line_def
      MODEM_OUT_SIZE_def MODEM_CMD_SIZE_def modem_s_defaults_def)
qed


text \<open>A network for examples: the far end is there, says nothing and keeps what it is sent.\<close>

definition wire_net :: "u8 list net" where
  "wire_net = \<lparr>plat_netsocket_create_server = (\<lambda>port n. (- 1, n)), plat_netsocket_create = (\<lambda>n. (5, n)),
     plat_netsocket_connect = (\<lambda>fd host port n. (0, n)), plat_netsocket_connected = (\<lambda>fd n. (1, n)),
     plat_netsocket_accept = (\<lambda>fd n. (- 1, n)), plat_netsocket_receive = (\<lambda>fd room n. (No_Data, n)),
     plat_netsocket_send = (\<lambda>fd bs n. (Sent (length bs), n @ bs)), plat_netsocket_close = (\<lambda>fd n. n)\<rparr>"


end
