(* ===== verification/Modem_Line.thy ===== *)
theory Modem_Line
  imports Modem_Safe
begin

text \<open>
  The command line: every line whose numbers have at most nine digits is answered, a line
  typed at the terminal is executed as it was typed.
\<close>

section \<open>Every line is answered\<close>

fun short_args :: "u8 list \<Rightarrow> bool" where
  "short_args [] \<longleftrightarrow> True"
| "short_args (c # cs) \<longleftrightarrow> length (takeWhile isdigit (c # cs)) < 10 \<and> short_args cs"

lemma short_args_digits: "short_args p \<Longrightarrow> length (takeWhile isdigit p) < 10"
  by (cases p) auto

lemma short_args_suffix: "short_args p \<Longrightarrow> suffix q p \<Longrightarrow> short_args q"
proof (induction p)
  case (Cons c p)
  then show ?case by (cases "q = c # p") (auto simp: suffix_Cons)
qed simp

lemma arg_digits_total:
  "0 \<le> v \<Longrightarrow> v < 10 ^ k \<Longrightarrow> k + length (takeWhile isdigit p) \<le> 9 \<Longrightarrow> \<exists>a q. arg_digits v p = Some (a, q)"
proof (induction p arbitrary: v k)
  case (Cons c p)
  show ?case
  proof (cases "isdigit c")
    case True
    then have d: "0 \<le> uint c - 0x30" "uint c - 0x30 \<le> 9" by (simp_all add: isdigit_def word_le_def)
    let ?v = "v * 10 + (uint c - 0x30)"
    have v: "0 \<le> ?v" "?v < 10 ^ Suc k" using Cons.prems(1,2) d by simp_all
    have k: "Suc k + length (takeWhile isdigit p) \<le> 9" using Cons.prems(3) True by simp
    then have "(10 :: int) ^ Suc k \<le> 10 ^ 9" by (intro power_increasing) simp_all
    then have "?v \<le> 2147483647" using v(2) by simp
    then show ?thesis using Cons.IH [OF v k] True by (simp add: Let_def)
  qed simp
qed simp

lemma modem_arg_total:
  assumes "short_args p"
  obtains a q where "modem_arg p = Some (a, q)" "short_args q"
proof -
  have "short_args (skip_spaces p)"
    using short_args_suffix [OF assms suffix_dropWhile] by (simp add: skip_spaces_def)
  then have "0 + length (takeWhile isdigit (skip_spaces p)) \<le> 9" using short_args_digits by fastforce
  then obtain a q where r: "modem_arg p = Some (a, q)"
    using arg_digits_total [of 0 0 "skip_spaces p"] by (auto simp: modem_arg_def)
  then show thesis using that short_args_suffix [OF assms modem_arg_rest [OF r]] by blast
qed

lemma with_arg_total: "short_args p \<Longrightarrow> with_arg f p s \<noteq> None"
  by (erule modem_arg_total) (auto simp: with_arg_def)

lemma exec_sreg_total:
  assumes "short_args p"
  shows "exec_sreg p s \<noteq> None"
proof -
  obtain reg q where q: "modem_arg p = Some (reg, q)" "short_args q" using modem_arg_total [OF assms] .
  have "short_args (skip_spaces q)"
    using short_args_suffix [OF q(2) suffix_dropWhile] by (simp add: skip_spaces_def)
  then have "short_args r" if "skip_spaces q = c # r" for c r using that by simp
  then show ?thesis
    by (auto simp: exec_sreg_def q(1) with_arg_total simp del: not_None_eq split: list.split)
qed

lemma exec_amp_total: "short_args p \<Longrightarrow> exec_amp p s \<noteq> None"
proof (cases p)
  case (Cons c q)
  assume "short_args p"
  then have q: "short_args q" using Cons by simp
  then obtain a r where "modem_arg q = Some (a, r)" using modem_arg_total by blast
  then show ?thesis by (simp add: exec_amp_def Cons Let_def with_arg_total [OF q] del: not_None_eq)
qed (simp add: exec_amp_def)

lemma exec_star_total: "short_args p \<Longrightarrow> exec_star p s \<noteq> None"
proof (cases p)
  case (Cons c q)
  assume "short_args p"
  then have q: "short_args q" using Cons by simp
  then have "short_args (drop 1 q)" using short_args_suffix suffix_drop by blast
  then show ?thesis
    using q unfolding exec_star_def Cons Let_def list.case by (intro with_arg_total) (simp split: if_splits)
qed (simp add: exec_star_def)

lemma exec_plus_total: "exec_plus p s \<noteq> None"
  by (simp add: exec_plus_def Let_def case_prod_beta)

lemma exec_other_total: "short_args p \<Longrightarrow> exec_other p s \<noteq> None"
  by (cases p) (simp_all add: exec_other_def with_arg_total del: not_None_eq)

lemma exec_letter_total:
  assumes "short_args p"
  shows "exec_letter net now c p s \<noteq> None"
proof (cases "plain_set c")
  case None
  obtain a q where a: "modem_arg p = Some (a, q)" using modem_arg_total [OF assms] .
  have d: "exec_dial net now p s \<noteq> None" by (simp add: exec_dial_def)
  show ?thesis
    unfolding exec_letter_def None option.case a
    by (simp add: d with_arg_total [OF assms] exec_sreg_total [OF assms] exec_amp_total [OF assms] exec_star_total [OF assms]
        exec_other_total [OF assms] exec_plus_total del: not_None_eq)
qed (simp add: exec_letter_def with_arg_total [OF assms] del: not_None_eq)

lemma execute_total: "short_args p \<Longrightarrow> modem_execute net now p s \<noteq> None"
proof (induction net now p s rule: modem_execute.induct)
  case (2 net now c p s)
  then have p: "short_args p" by (metis short_args.simps(2))
  obtain e t where e: "exec_letter net now (toupper c) p s = Some (e, t)"
    using exec_letter_total [OF p, of net now "toupper c" s] by auto
  show ?case
  proof (cases e)
    case (Go q)
    then have "short_args q" using short_args_suffix [OF p exec_letter_rest] e by blast
    then show ?thesis using "2.IH" [OF e] Go e by (cases t) (simp del: not_None_eq)
  qed (use e in simp)
qed simp

lemma command_total: "short_args line \<Longrightarrow> \<exists>s'. modem_command net now line s = Some s'"
  using execute_total [of line net now "set_dev (\<lambda>dev. dev\<lparr>mo_lastcmd := put 0 (take (MODEM_CMD_SIZE - 1) line @ [0]) (mo_lastcmd dev)\<rparr>) s"]
  by (auto simp: modem_command_def Let_def)

section \<open>Typing a line\<close>

text \<open>
  Bytes that the editor just collects: none of the three characters that S3, S4 and S5 hold,
  and not the slash that makes the second character of \<open>A/\<close>.
\<close>

definition plain_line :: "modem \<Rightarrow> u8 list \<Rightarrow> bool" where
  "plain_line dev line \<longleftrightarrow> mo_s dev ! 3 \<notin> set line \<and> mo_s dev ! 4 \<notin> set line \<and> mo_s dev ! 5 \<notin> set line \<and>
     (1 < length line \<longrightarrow> line ! 1 \<noteq> 0x2F)"

definition echoed :: "modem \<Rightarrow> u8 list \<Rightarrow> u8 list" where
  "echoed dev bs = (if mo_echo dev then bs else [])"

definition typed :: "u8 list \<Rightarrow> modem \<Rightarrow> modem" where
  "typed line dev = (modem_out_str (echoed dev line) dev)\<lparr>mo_cmd := put 0 line (mo_cmd dev), mo_cmdlen := length line\<rparr>"

lemma out_str_cmd: "modem_out_str bs (d\<lparr>mo_cmd := c, mo_cmdlen := l\<rparr>) = (modem_out_str bs d)\<lparr>mo_cmd := c, mo_cmdlen := l\<rparr>"
proof (induction bs arbitrary: d)
  case (Cons b bs)
  have "modem_out_byte b (d\<lparr>mo_cmd := c, mo_cmdlen := l\<rparr>) = (modem_out_byte b d)\<lparr>mo_cmd := c, mo_cmdlen := l\<rparr>"
    by (simp add: modem_out_byte_def Let_def)
  then show ?case using Cons.IH by (simp add: modem_out_str_def)
qed (simp add: modem_out_str_def)

lemma modem_write_append:
  "modem_write net now (as @ bs) s = Option.bind (modem_write net now as s) (modem_write net now bs)"
proof (induction as arbitrary: s)
  case (Cons a as)
  have "modem_write net now (as @ bs) = (\<lambda>s. Option.bind (modem_write net now as s) (modem_write net now bs))"
    by (rule ext) (rule Cons.IH)
  then show ?case by simp
qed simp

lemma typed_fields [simp]:
  "mo_s (typed line dev) = mo_s dev" "mo_echo (typed line dev) = mo_echo dev" "mo_online (typed line dev) = mo_online dev"
  "mo_cmdlen (typed line dev) = length line" "mo_cmd (typed line dev) = put 0 line (mo_cmd dev)"
  by (simp_all add: typed_def)

lemma type_line:
  assumes "\<not> mo_online dev" "mo_cmdlen dev = 0" "plain_line dev line" "length line < MODEM_CMD_SIZE"
    and "length (mo_cmd dev) = MODEM_CMD_SIZE"
  shows "modem_write net now line (dev, n) = Some (typed line dev, n)"
  using assms(3,4)
proof (induction line rule: rev_induct)
  case Nil
  show ?case using assms(2) by (simp add: typed_def echoed_def put_def)
next
  case (snoc b line)
  let ?d = "typed line dev"
  have line: "plain_line dev line" using snoc.prems(1) by (auto simp: plain_line_def nth_append split: if_splits)
  have b: "b \<noteq> mo_s dev ! 3" "b \<noteq> mo_s dev ! 4" "b \<noteq> mo_s dev ! 5" "\<not> (length line = 1 \<and> b = 0x2F)"
    using snoc.prems(1) by (auto simp: plain_line_def nth_append)
  have l: "length line < 255" using snoc.prems(2) by (simp add: MODEM_CMD_SIZE_def)
  have "modem_command_byte net now b (?d, n) =
      Some ((if mo_echo dev then modem_out_str [b] ?d else ?d)\<lparr>mo_cmd := (put 0 line (mo_cmd dev))[length line := b],
        mo_cmdlen := length line + 1\<rparr>, n)"
    using b l by (cases "mo_echo dev") (auto simp: modem_command_byte_def Let_def out_byte_str MODEM_CMD_SIZE_def)
  also have "(put 0 line (mo_cmd dev))[length line := b] = put 0 (line @ [b]) (mo_cmd dev)"
    using l assms(5) by (simp add: put_def list_update_append MODEM_CMD_SIZE_def Cons_nth_drop_Suc [symmetric])
  also have "(if mo_echo dev then modem_out_str [b] ?d else ?d)\<lparr>mo_cmd := put 0 (line @ [b]) (mo_cmd dev),
      mo_cmdlen := length line + 1\<rparr> = typed (line @ [b]) dev"
    by (simp add: typed_def echoed_def out_str_append out_str_cmd)
  finally show ?case
    using snoc.IH [OF line] snoc.prems(2) assms(1) by (simp add: modem_write_append)
qed

text \<open>The end of the line executes what follows the \<open>AT\<close>.\<close>

definition entered :: "u8 list \<Rightarrow> modem \<Rightarrow> modem" where
  "entered line dev = (modem_out_str (echoed dev (line @ [mo_s dev ! 3])) dev)
     \<lparr>mo_cmdlen := length line, mo_cmd := (put 0 line (mo_cmd dev))[length line := 0]\<rparr>"

lemma c_str_nul: "0 \<notin> set p \<Longrightarrow> c_str (p @ 0 # q) = p"
  unfolding c_str_def by (induction p) auto

lemma enter_line:
  assumes "\<not> mo_online dev" "mo_cmdlen dev = 0" "plain_line dev line" "length line < MODEM_CMD_SIZE"
    and "length (mo_cmd dev) = MODEM_CMD_SIZE" "mo_s dev ! 3 \<noteq> mo_s dev ! 4" "mo_s dev ! 3 \<noteq> mo_s dev ! 5"
    and "line = a # t # cmd" "toupper a = 0x41" "toupper t = 0x54" "0 \<notin> set cmd"
  shows "modem_write net now (line @ [mo_s dev ! 3]) (dev, n) =
    Option.bind (modem_command net now cmd (entered line dev, n))
      (\<lambda>s. Some (set_dev (\<lambda>dev. dev\<lparr>mo_cmdlen := 0\<rparr>) s))"
proof -
  let ?cr = "mo_s dev ! 3"
  have d: "modem_command_byte net now ?cr (typed line dev, n) =
      modem_line_end net now (modem_out_str (echoed dev [?cr]) (typed line dev), n)"
    using assms(6,7) by (cases "mo_echo dev") (simp_all add: modem_command_byte_def Let_def out_byte_str echoed_def)
  have e: "modem_out_str (echoed dev [?cr]) (typed line dev) =
      (modem_out_str (echoed dev (line @ [?cr])) dev)\<lparr>mo_cmd := put 0 line (mo_cmd dev), mo_cmdlen := length line\<rparr>"
    by (simp add: typed_def out_str_cmd echoed_def out_str_append)
  have "(put 0 line (mo_cmd dev))[length line := 0] = line @ 0 # drop (Suc (length line)) (mo_cmd dev)"
    using assms(4,5) by (simp add: put_def list_update_append MODEM_CMD_SIZE_def Cons_nth_drop_Suc [symmetric])
  then have c: "c_str (drop 2 ((put 0 line (mo_cmd dev))[length line := 0])) = cmd"
      "(put 0 line (mo_cmd dev))[length line := 0] ! 0 = a" "(put 0 line (mo_cmd dev))[length line := 0] ! Suc 0 = t"
    using assms(8,11) c_str_nul by simp_all
  have "modem_line_end net now (modem_out_str (echoed dev [?cr]) (typed line dev), n) =
    Option.bind (modem_command net now cmd (entered line dev, n)) (\<lambda>s. Some (set_dev (\<lambda>dev. dev\<lparr>mo_cmdlen := 0\<rparr>) s))"
    using c assms(8-10) unfolding e by (simp add: modem_line_end_def Let_def set_dev_def entered_def)
  then show ?thesis
    using type_line [OF assms(1-5), of net now n] d assms(1) by (simp add: modem_write_append)
qed

text \<open>The terminal is ready for a line, and its characters are the usual ones.\<close>

definition at_prompt :: "modem \<Rightarrow> bool" where
  "at_prompt dev \<longleftrightarrow> modem_ok dev \<and> \<not> mo_online dev \<and> mo_cmdlen dev = 0 \<and>
     mo_s dev ! 3 = 0x0D \<and> mo_s dev ! 4 = 0x0A \<and> mo_s dev ! 5 = 0x08"

text \<open>What can be typed after the \<open>AT\<close>.\<close>

definition typable :: "u8 list \<Rightarrow> bool" where
  "typable cmd \<longleftrightarrow> 0x0D \<notin> set cmd \<and> 0x0A \<notin> set cmd \<and> 0x08 \<notin> set cmd \<and> 0 \<notin> set cmd \<and> length cmd \<le> 253"

lemma at_line:
  assumes "at_prompt dev" "typable cmd" "toupper a = 0x41" "toupper t = 0x54"
  shows "modem_write net now (a # t # cmd @ [0x0D]) (dev, n) =
    Option.bind (modem_command net now cmd (entered (a # t # cmd) dev, n))
      (\<lambda>s. Some (set_dev (\<lambda>dev. dev\<lparr>mo_cmdlen := 0\<rparr>) s))"
proof -
  have "a \<noteq> 0x0D" "a \<noteq> 0x0A" "a \<noteq> 0x08" "t \<noteq> 0x0D" "t \<noteq> 0x0A" "t \<noteq> 0x08" "t \<noteq> 0x2F"
    using assms(3,4) by (auto simp: toupper_def islower_def)
  then have "plain_line dev (a # t # cmd)"
    using assms(1,2) by (auto simp: plain_line_def at_prompt_def typable_def)
  then show ?thesis
    using enter_line [of dev "a # t # cmd" a t cmd net now n] assms
    by (simp add: at_prompt_def typable_def modem_ok_defs MODEM_CMD_SIZE_def)
qed

text \<open>The modem as the command finds it, with the line kept for \<open>A/\<close>.\<close>

definition accepted :: "u8 list \<Rightarrow> modem \<Rightarrow> modem" where
  "accepted line dev = (entered line dev)\<lparr>mo_lastcmd := put 0 (drop 2 line @ [0]) (mo_lastcmd dev)\<rparr>"

lemma at_line_run:
  assumes "at_prompt dev" "typable cmd" "toupper a = 0x41" "toupper t = 0x54"
    and "modem_execute net now cmd (accepted (a # t # cmd) dev, n) = Some (res, d, n')"
  shows "modem_write net now (a # t # cmd @ [0x0D]) (dev, n) = Some ((modem_result res d)\<lparr>mo_cmdlen := 0\<rparr>, n')"
proof -
  have "modem_command net now cmd (entered (a # t # cmd) dev, n) = Some (modem_result res d, n')"
    using assms(2,5) by (simp add: modem_command_def set_dev_def MODEM_CMD_SIZE_def typable_def entered_def accepted_def)
  then show ?thesis unfolding at_line [OF assms(1-4)] by (simp add: set_dev_def)
qed


text \<open>A modem that has just been switched on is at the prompt and has nothing to say.\<close>

definition new_modem :: "nat \<Rightarrow> modem_line \<Rightarrow> modem" where
  "new_modem model line = modem_init model line 23 57600 [0x68] [] [] (modem_sound_init 48000 None)"

lemma new_modem_fields [simp]:
  "mo_s (new_modem model line) = modem_s_defaults" "mo_state (new_modem model line) = MODEM_ST_IDLE"
  "mo_line (new_modem model line) = line" "\<not> mo_quiet (new_modem model line)" "mo_verbose (new_modem model line)"
  "mo_echo (new_modem model line)" "mo_xresult (new_modem model line) = 4" "mo_items (new_modem model line) = []"
  "mo_connect_rate (new_modem model line) = 57600" "mo_dcd_mode (new_modem model line) = 1" "mo_wresult (new_modem model line) = 0"
  by (simp_all add: new_modem_def modem_init_def modem_load_defaults_def mo_items_def modem_used_def Let_def)

lemma new_modem_prompt: "at_prompt (new_modem model line)"
proof -
  have "modem_ok (new_modem model line)"
    unfolding new_modem_def by (rule init_ok_modem) (simp add: modem_sound_init_def sound_zero_def Let_def)
  moreover have "mo_cmdlen (new_modem model line) = 0" "\<not> mo_online (new_modem model line)"
    by (simp_all add: new_modem_def modem_init_def modem_load_defaults_def Let_def)
  ultimately show ?thesis by (simp add: at_prompt_def modem_s_defaults_def)
qed


section \<open>What an accepted line has said\<close>

lemma accept_items:
  assumes "modem_ok dev" "mo_items dev = []" "length line \<le> 300"
  shows "mo_ring_ok (accepted line dev)" "mo_items (accepted line dev) = echoed dev (line @ [mo_s dev ! 3])"
    "3794 \<le> mo_room (accepted line dev)"
proof -
  have r: "mo_ring_ok dev" using assms(1) by (simp add: modem_ok_def)
  have "modem_used dev = 0" using assms(2) by (metis mo_items_length list.size(3))
  then have room: "mo_room dev = 4095" by (simp add: mo_room_def MODEM_OUT_SIZE_def)
  have e: "length (echoed dev (line @ [mo_s dev ! 3])) \<le> 301" using assms(3) by (simp add: echoed_def)
  have same: "mo_ring_ok (accepted line dev) = mo_ring_ok (modem_out_str (echoed dev (line @ [mo_s dev ! 3])) dev)"
    "mo_items (accepted line dev) = mo_items (modem_out_str (echoed dev (line @ [mo_s dev ! 3])) dev)"
    "mo_room (accepted line dev) = mo_room (modem_out_str (echoed dev (line @ [mo_s dev ! 3])) dev)"
    by (simp_all add: accepted_def entered_def mo_ring_ok_def mo_items_def mo_room_def modem_used_def)
  show "mo_ring_ok (accepted line dev)" "mo_items (accepted line dev) = echoed dev (line @ [mo_s dev ! 3])"
    "3794 \<le> mo_room (accepted line dev)"
    unfolding same using out_str_block [OF r, of "echoed dev (line @ [mo_s dev ! 3])"] room e assms(2) by simp_all
qed

lemma upper_AT: "toupper 0x41 = 0x41" "toupper 0x54 = 0x54" "toupper 0x61 = 0x41" "toupper 0x74 = 0x54"
  by (simp_all add: toupper_def islower_def)

end
