(* ===== verification/Modem_Ident.thy ===== *)
theory Modem_Ident
  imports Modem_Line
begin

text \<open>
  The identification of the modem: what it answers to \<open>ATI\<close>, and which rows of the cabinet's
  modem database those answers match.
\<close>

section \<open>Which modem it is\<close>

text \<open>Asking \<open>ATI\<close>: what the terminal reads.\<close>

definition info_answer :: "'n net \<Rightarrow> u32 \<Rightarrow> 'n \<Rightarrow> modem \<Rightarrow> nat \<Rightarrow> u8 list" where
  "info_answer net now n dev i =
     (case modem_write net now ([0x41, 0x54, 0x69, 0x30 + of_nat i, 0x0D]) (dev, n) of
        Some (d, _) \<Rightarrow> mo_items d | None \<Rightarrow> [])"

lemma execute_info:
  assumes "i < 10"
  shows "modem_execute net now [0x69, 0x30 + of_nat i] s = Some (RES_OK, set_dev (modem_info (int i)) s)"
proof -
  have i: "i = 0 \<or> i = 1 \<or> i = 2 \<or> i = 3 \<or> i = 4 \<or> i = 5 \<or> i = 6 \<or> i = 7 \<or> i = 8 \<or> i = 9"
    using assms by arith
  have "modem_arg [0x30 + of_nat i] = Some (int i, [])"
    using i by (elim disjE) (simp_all add: modem_arg_def skip_spaces_def isdigit_def)
  then show ?thesis
    by (simp add: exec_letter_def plain_set_def toupper_def islower_def with_arg_def set_dev_def split: prod.split)
qed

text \<open>
  The identification rows of the cabinet's table that ask for one of these parts or come
  near them: which \<open>ATI\<close> has to contain which text.
\<close>

definition md_rows :: "(nat \<times> (nat \<times> u8 list) list) list" where
  "md_rows = [
     (3, [(3, bytes ''SupraExpress'')]),
     (14, [(3, bytes ''SupraExpress''), (3, bytes ''V.92'')]),
     (2, [(6, bytes ''MicroLink''), (6, bytes ''56'')]),
     (7, [(6, bytes ''MicroLink''), (6, bytes ''56''), (6, bytes ''Internet'')]),
     (18, [(6, bytes ''MicroLink''), (6, bytes ''56''), (6, bytes ''-i''), (6, bytes ''k i'')]),
     (22, [(6, bytes ''MicroLink''), (6, bytes ''56''), (6, bytes ''pro'')])]"

definition rows_matched :: "(nat \<Rightarrow> u8 list) \<Rightarrow> nat list" where
  "rows_matched answer = map fst (filter (\<lambda>(r, ts). list_all (\<lambda>(i, t). strstr (answer i) t \<noteq> None) ts) md_rows)"

text \<open>The modem reports as it was delivered.\<close>

definition factory_strings :: "modem \<Rightarrow> bool" where
  "factory_strings dev \<longleftrightarrow> mo_ident dev = mm_ident (mo_model dev) \<and> mo_firmware dev = mm_fmw (mo_model dev)"

lemma info_answer_is:
  assumes "at_prompt dev" "mo_items dev = []" "\<not> mo_quiet dev" "mo_verbose dev" "factory_strings dev"
    and "i = 3 \<or> i = 6"
  shows "info_answer net now n dev i = echoed dev [0x41, 0x54, 0x69, 0x30 + of_nat i, 0x0D] @ info_bytes (int i) dev @ framed dev (bytes ''OK'')"
proof -
  let ?l = "[0x41, 0x54, 0x69, 0x30 + of_nat i]"
  let ?k = "accepted ?l dev"
  have i: "i < 10" using assms(6) by auto
  have f: "mo_s ?k = mo_s dev" "mo_quiet ?k = mo_quiet dev" "mo_verbose ?k = mo_verbose dev"
      "info_bytes j ?k = info_bytes j dev" for j
    by (simp_all add: accepted_def entered_def info_bytes_def framed_def split: option.split)
  have tb: "typable [0x69, 0x30 + of_nat i]" using assms(6) by (elim disjE) (simp_all add: typable_def)
  have ok: "modem_ok dev" "mo_s dev ! 3 = 0x0D" using assms(1) by (simp_all add: at_prompt_def)
  have r: "mo_ring_ok ?k" "mo_items ?k = echoed dev (?l @ [0x0D])" "3794 \<le> mo_room ?k"
    using accept_items [OF ok(1) assms(2), of ?l] ok(2) by simp_all
  have "modem_write net now ([0x41, 0x54, 0x69, 0x30 + of_nat i, 0x0D]) (dev, n) =
      Some ((modem_result RES_OK (modem_info (int i) ?k))\<lparr>mo_cmdlen := 0\<rparr>, n)"
    using at_line_run [OF assms(1) tb upper_AT(1,2), of net now n RES_OK "modem_info (int i) ?k" n]
    by (simp add: execute_info [OF i] set_dev_def del: modem_write.simps modem_execute.simps)
  moreover have "mo_items (d\<lparr>mo_cmdlen := 0\<rparr>) = mo_items d" for d by (simp add: mo_items_def modem_used_def)
  ultimately have a: "info_answer net now n dev i = mo_items (modem_result RES_OK (modem_info (int i) ?k))"
    by (simp add: info_answer_def)
  have "mo_model dev = modem_supra \<or> mo_model dev = modem_elsa"
    using ok(1) by (auto simp: modem_ok_defs modem_models_def)
  then have short: "length (info_bytes (int i) dev) \<le> 60"
    using assms(5,6) by (elim disjE)
      (simp_all add: info_bytes_def framed_def factory_strings_def modem_supra_def modem_elsa_def bytes_def)
  have "res_bytes RES_OK (modem_out_str bs ?k) = framed dev (bytes ''OK'')" for bs
    using assms(3,4) f by (simp add: res_bytes_def res_shown_def res_text_def framed_def)
  then have "info_answer net now n dev i = mo_items (modem_out_str (info_bytes (int i) dev @ framed dev (bytes ''OK'')) ?k)"
    unfolding a info_str result_str f by (simp add: out_str_append)
  also have "\<dots> = mo_items ?k @ info_bytes (int i) dev @ framed dev (bytes ''OK'')"
    unfolding out_str_items [OF r(1)] using r(3) short by (simp add: framed_def bytes_def)
  finally show ?thesis using r(2) by simp
qed

lemma rows_by_answers:
  "rows_matched answer = (let a3 = answer 3; a6 = answer 6;
     has = (\<lambda>t. strstr a6 t \<noteq> None); elsa = (has (bytes ''MicroLink'') \<and> has (bytes ''56'')) in
     (if strstr a3 (bytes ''SupraExpress'') \<noteq> None then [3] else [])
     @ (if strstr a3 (bytes ''SupraExpress'') \<noteq> None \<and> strstr a3 (bytes ''V.92'') \<noteq> None then [14] else [])
     @ (if elsa then [2] else []) @ (if elsa \<and> has (bytes ''Internet'') then [7] else [])
     @ (if elsa \<and> has (bytes ''-i'') \<and> has (bytes ''k i'') then [18] else []) @ (if elsa \<and> has (bytes ''pro'') then [22] else []))"
  by (simp add: rows_matched_def md_rows_def Let_def)

text \<open>The two answers the rows look at, with and without the echo of the question.\<close>

definition crlf :: "u8 list" where "crlf = [0x0D, 0x0A]"

definition reading :: "bool \<Rightarrow> nat \<Rightarrow> u8 list \<Rightarrow> u8 list" where
  "reading echo i t = (if echo then bytes ''ATi'' @ [0x30 + of_nat i, 0x0D] else []) @ crlf @ t @ crlf @ crlf @ bytes ''OK'' @ crlf"

lemma supra_rows: "\<forall>echo. rows_matched (\<lambda>i. reading echo i (if i = 3 then mm_ident modem_supra else the (mm_info modem_supra ! 6))) = [3]"
  unfolding rows_by_answers by code_simp

lemma elsa_rows: "\<forall>echo. rows_matched (\<lambda>i. reading echo i (if i = 3 then mm_fmw modem_elsa else mm_ident modem_elsa)) = [2]"
  unfolding rows_by_answers by code_simp

lemma answer_reading:
  assumes "at_prompt dev" "mo_items dev = []" "\<not> mo_quiet dev" "mo_verbose dev" "factory_strings dev" "i = 3 \<or> i = 6"
  shows "info_answer net now n dev i = reading (mo_echo dev) i
     (if mo_model dev = modem_supra then (if i = 3 then mm_ident modem_supra else the (mm_info modem_supra ! 6))
      else (if i = 3 then mm_fmw modem_elsa else mm_ident modem_elsa))"
proof -
  have m: "mo_model dev = modem_supra \<or> mo_model dev = modem_elsa" "mo_s dev ! 3 = 0x0D" "mo_s dev ! 4 = 0x0A"
    using assms(1) by (auto simp: at_prompt_def modem_ok_defs modem_models_def)
  have "modem_supra \<noteq> modem_elsa" by (simp add: modem_supra_def modem_elsa_def)
  then show ?thesis
    using m assms(5,6) unfolding info_answer_is [OF assms]
    by (auto simp: info_bytes_def framed_def echoed_def reading_def crlf_def factory_strings_def modem_supra_def modem_elsa_def bytes_def)
qed



end
