(* ===== verification/Modem_Settings.thy ===== *)
theory Modem_Settings
  imports Modem_Line
begin

text \<open>
  The settings a line leaves behind: S registers by number, and the line the cabinet itself
  sends.
\<close>

section \<open>Settings\<close>

text \<open>A number that is printed is the number that is read.\<close>

lemma digit_byte:
  assumes "n < 10"
  shows "isdigit (0x30 + of_nat n)" "uint (0x30 + of_nat n :: u8) - 0x30 = int n"
proof -
  have "n \<in> set [0..<10]" using assms by simp
  moreover have "list_all (\<lambda>n. isdigit (0x30 + of_nat n) \<and> uint (0x30 + of_nat n :: u8) - 0x30 = int n) [0..<10]"
    by code_simp
  ultimately show "isdigit (0x30 + of_nat n)" "uint (0x30 + of_nat n :: u8) - 0x30 = int n"
    by (auto simp: list_all_iff)
qed

lemma digits_read:
  assumes "n \<le> 2147483647" "v * 10 ^ length (dec_digits n) + int n \<le> 2147483647" "0 \<le> v"
  shows "arg_digits v (dec_digits n @ p) = arg_digits (v * 10 ^ length (dec_digits n) + int n) p"
  using assms
proof (induction n arbitrary: v p rule: dec_digits.induct)
  case (1 n)
  show ?case
  proof (cases "n < 10")
    case True
    then have "dec_digits n = [0x30 + of_nat n]" by (subst dec_digits.simps) simp
    then show ?thesis using digit_byte [OF True] "1.prems" by (simp add: Let_def)
  next
    case False
    let ?m = "n div 10" and ?k = "length (dec_digits (n div 10))"
    have d: "dec_digits n = dec_digits ?m @ [0x30 + of_nat (n mod 10)]" using False by (subst dec_digits.simps) simp
    have nm: "int n = 10 * int ?m + int (n mod 10)" by (simp add: zdiv_int zmod_int)
    have v: "v * 10 ^ ?k + int ?m \<ge> 0" "(v * 10 ^ ?k + int ?m) * 10 + int (n mod 10) = v * 10 ^ Suc ?k + int n"
      using "1.prems"(3) nm by (simp_all add: algebra_simps)
    have le: "v * 10 ^ Suc ?k + int n \<le> 2147483647" using "1.prems"(2) d by simp
    define x where "x = v * 10 ^ ?k + int ?m"
    have x: "x * 10 + int (n mod 10) = v * 10 ^ Suc ?k + int n" using v(2) by (simp add: x_def)
    then have le': "v * 10 ^ ?k + int ?m \<le> 2147483647" using v(1) le by (simp flip: x_def)
    have "arg_digits v (dec_digits n @ p) = arg_digits x ((0x30 + of_nat (n mod 10)) # p)"
      using "1.IH" [OF False _ le' "1.prems"(3), of "(0x30 + of_nat (n mod 10)) # p"] "1.prems"(1) by (simp add: d x_def)
    also have "\<dots> = arg_digits (x * 10 + int (n mod 10)) p"
      using digit_byte [of "n mod 10"] x le by (simp add: Let_def)
    also note x
    finally show ?thesis by (simp add: d)
  qed
qed

lemma arg_read:
  assumes "n \<le> 2147483647" "p = [] \<or> \<not> isdigit (hd p)"
  shows "modem_arg (dec_digits n @ p) = Some (int n, p)"
proof -
  have "isdigit (hd (dec_digits n)) \<and> dec_digits n \<noteq> []"
  proof (induction n rule: dec_digits.induct)
    case (1 n)
    then show ?case using digit_byte(1) by (subst (1 2) dec_digits.simps) (auto simp: hd_append)
  qed
  then obtain d ds where d: "dec_digits n = d # ds" "isdigit d" by (metis list.exhaust_sel)
  have "skip_spaces (dec_digits n @ p) = dec_digits n @ p"
    using d by (auto simp: skip_spaces_def isdigit_def)
  moreover have "arg_digits (int n) p = Some (int n, p)" using assms(2) by (cases p) auto
  ultimately show ?thesis using digits_read [OF assms(1), of 0 p] assms(1) by (simp add: modem_arg_def)
qed

text \<open>
  A register gives back what was put into it: setting S\<open>r\<close> to \<open>v\<close> and asking for it in
  one line stores the value modulo 256 in that register and no other, and prints it in at
  least three digits, in the frame of the carriage return and line feed the registers now
  name.
\<close>

theorem register_roundtrip:
  assumes "r < 100" "v \<le> 2147483647" "length (mo_s dev) = 100"
    and "dev' = dev\<lparr>mo_s := (mo_s dev)[r := of_nat v]\<rparr>"
  shows "modem_execute net now (bytes ''S'' @ dec_digits r @ bytes ''='' @ dec_digits v @ bytes ''S'' @ dec_digits r @ bytes ''?'') (dev, n)
    = Some (RES_OK, modem_out_line (fmt_0ld 3 (int (v mod 256))) dev', n)"
proof -
  let ?get = "0x53 # dec_digits r @ [0x3F]"
  have "modem_arg (dec_digits r @ 0x3D # q) = Some (int r, 0x3D # q)"
    "modem_arg (dec_digits r @ [0x3F]) = Some (int r, [0x3F])" for q
    using assms(1) by (simp_all add: arg_read isdigit_def)
  moreover have "modem_arg (dec_digits v @ ?get) = Some (int v, ?get)"
    using assms(2) by (simp add: arg_read isdigit_def)
  moreover have "uint (of_nat v :: u8) = int (v mod 256)"
    by (simp add: uint_nat unat_of_nat)
  moreover have "toupper 0x53 = 0x53" by (simp add: toupper_def islower_def)
  ultimately show ?thesis
    using assms(1,3,4)
    by (simp add: bytes_def exec_letter_def plain_set_def exec_sreg_def skip_spaces_def with_arg_def set_dev_def)
qed

theorem register_roundtrip_witness:
  "\<exists>dev. mo_s dev = modem_s_defaults[7 := 44] \<and>
     modem_execute wire_net 0 (bytes ''S7=300S7?'') (new_modem 0 MODEM_LINE_DEAD, [])
       = Some (RES_OK, modem_out_line (bytes ''044'') dev, [])"
proof -
  let ?d = "new_modem 0 MODEM_LINE_DEAD"
  have s: "mo_s ?d = modem_s_defaults" by simp
  have "length (mo_s ?d) = 100" by (simp add: s modem_s_defaults_def)
  moreover have "bytes ''S'' @ dec_digits 7 @ bytes ''='' @ dec_digits 300 @ bytes ''S'' @ dec_digits 7 @ bytes ''?'' = bytes ''S7=300S7?''"
    "fmt_0ld 3 (int (300 mod 256)) = bytes ''044''" by code_simp+
  moreover define e where "e = ?d\<lparr>mo_s := modem_s_defaults[7 := 44]\<rparr>"
  have m: "mo_s e = modem_s_defaults[7 := 44]" by (simp add: e_def)
  moreover have "e = ?d\<lparr>mo_s := (mo_s ?d)[7 := of_nat 300]\<rparr>"
    unfolding s e_def by (rule arg_cong [where f = "\<lambda>b. ?d\<lparr>mo_s := modem_s_defaults[7 := b]\<rparr>"]) simp
  ultimately have "modem_execute wire_net 0 (bytes ''S7=300S7?'') (?d, []) = Some (RES_OK, modem_out_line (bytes ''044'') e, [])"
    using register_roundtrip [of 7 300 ?d e wire_net 0 "[]"] by simp
  then show ?thesis using m by blast
qed

definition cabinet_init :: "u8 list" where
  "cabinet_init = bytes ''ate0m1l3S8=5S7=20S10=40x3''"

text \<open>
  The cabinet's own line, \<open>ate0m1l3S8=5S7=20S10=40x3\<close>, sets what it means to: the echo
  is off, the speaker is on until the carrier and loud, a comma waits five seconds, a
  carrier may take twenty, losing it four, busy tones are listened for and dial tones are
  not; every other register, the line and the call stay as they were.
\<close>

theorem cabinet_line_understood:
  assumes "at_prompt dev"
  shows "\<exists>dev'. modem_write net now (cabinet_init @ [0x0D]) (dev, n) = Some (dev', n) \<and>
    mo_s dev' = (mo_s dev)[8 := 5, 7 := 20, 10 := 40] \<and> \<not> mo_echo dev' \<and> mo_spk_mode dev' = 1 \<and> mo_spk_level dev' = 3 \<and>
    ms_mode (mo_snd dev') = 1 \<and> ms_level (mo_snd dev') = 3 \<and> mo_xresult dev' = 3 \<and> mo_state dev' = mo_state dev \<and>
    mo_sock dev' = mo_sock dev \<and> mo_quiet dev' = mo_quiet dev \<and> mo_verbose dev' = mo_verbose dev \<and> mo_line dev' = mo_line dev \<and>
    mo_pulse dev' = mo_pulse dev \<and> at_prompt dev'"
proof -
  let ?cmd = "bytes ''e0m1l3S8=5S7=20S10=40x3''"
  let ?k = "accepted (0x61 # 0x74 # ?cmd) dev"
  let ?d = "?k\<lparr>mo_echo := False, mo_spk_mode := 1, mo_spk_level := 3, mo_snd := modem_sound_speaker 1 3 (mo_snd ?k),
    mo_s := (mo_s dev)[8 := 5, 7 := 20, 10 := 40], mo_xresult := 3\<rparr>"
  have k: "mo_s ?k = mo_s dev" "length (mo_s dev) = 100"
    using assms by (simp_all add: accepted_def entered_def at_prompt_def modem_ok_defs)
  have "modem_execute net now ?cmd (?k, n) = Some (RES_OK, ?d, n)"
    using k unfolding bytes_def
    by (simp add: exec_letter_def plain_set_def exec_sreg_def modem_arg_def isdigit_def skip_spaces_def with_arg_def set_dev_def
      toupper_def islower_def set_speaker_def modem_sound_speaker_def)
  moreover have "typable ?cmd" by (simp add: typable_def bytes_def)
  ultimately have "modem_write net now (0x61 # 0x74 # ?cmd @ [0x0D]) (dev, n) = Some ((modem_result RES_OK ?d)\<lparr>mo_cmdlen := 0\<rparr>, n)"
    by (intro at_line_run [OF assms _ upper_AT(3,4)])
  moreover have "0x61 # 0x74 # ?cmd @ [0x0D] = cabinet_init @ [0x0D]" by (simp add: cabinet_init_def bytes_def)
  ultimately have w: "modem_write net now (cabinet_init @ [0x0D]) (dev, n) = Some ((modem_result RES_OK ?d)\<lparr>mo_cmdlen := 0\<rparr>, n)"
    by metis
  have "modem_ok ((modem_result RES_OK ?d)\<lparr>mo_cmdlen := 0\<rparr>)"
    using write_ok_modem [OF w] assms by (simp add: at_prompt_def)
  then show ?thesis
    using assms k by (intro exI [of _ "(modem_result RES_OK ?d)\<lparr>mo_cmdlen := 0\<rparr>"])
      (simp add: w at_prompt_def result_str accepted_def entered_def modem_sound_speaker_def)
qed

theorem cabinet_line_understood_witness:
  "\<exists>dev'. modem_write wire_net 0 (cabinet_init @ [0x0D]) (new_modem 1 MODEM_LINE_TCP, []) = Some (dev', []) \<and>
     mo_s dev' ! 7 = 20 \<and> mo_xresult dev' = 3"
  using cabinet_line_understood [OF new_modem_prompt [of 1 MODEM_LINE_TCP], of wire_net 0 "[]"]
  by (auto simp: modem_s_defaults_def simp del: modem_write.simps)

end
