(* ===== verification/Modem_Call.thy ===== *)
theory Modem_Call
  imports Modem_Line
begin

text \<open>
  A call: dialling into a dead line, the order of CONNECT and carrier, and reads as what
  they take from the ring and the network.
\<close>

section \<open>Reading\<close>

lemma drain_frame: "\<exists>t. snd (modem_drain k dev) = dev\<lparr>mo_out_tail := t\<rparr>"
proof (induction k arbitrary: dev)
  case 0
  have "dev = dev\<lparr>mo_out_tail := mo_out_tail dev\<rparr>" by simp
  then show ?case unfolding modem_drain.simps snd_conv by blast
next
  case (Suc k)
  have "dev = dev\<lparr>mo_out_tail := mo_out_tail dev\<rparr>" by simp
  then have "\<exists>t. dev = dev\<lparr>mo_out_tail := t\<rparr>" by blast
  moreover obtain t where "snd (modem_drain k (dev\<lparr>mo_out_tail := (mo_out_tail dev + 1) mod MODEM_OUT_SIZE\<rparr>)) = dev\<lparr>mo_out_tail := t\<rparr>"
    using Suc.IH [of "dev\<lparr>mo_out_tail := (mo_out_tail dev + 1) mod MODEM_OUT_SIZE\<rparr>"] by auto
  ultimately show ?case by (simp add: case_prod_beta Let_def) blast
qed

lemma drain_fields [simp]:
  "mo_state (snd (modem_drain k dev)) = mo_state dev" "mo_online (snd (modem_drain k dev)) = mo_online dev"
  "mo_sock (snd (modem_drain k dev)) = mo_sock dev" "mo_pluses (snd (modem_drain k dev)) = mo_pluses dev"
  "mo_said_connect (snd (modem_drain k dev)) = mo_said_connect dev" "mo_s (snd (modem_drain k dev)) = mo_s dev"
  "mo_quiet (snd (modem_drain k dev)) = mo_quiet dev" "mo_verbose (snd (modem_drain k dev)) = mo_verbose dev"
  "mo_xresult (snd (modem_drain k dev)) = mo_xresult dev" "mo_wresult (snd (modem_drain k dev)) = mo_wresult dev"
  "mo_connect_rate (snd (modem_drain k dev)) = mo_connect_rate dev" "mo_dcd_mode (snd (modem_drain k dev)) = mo_dcd_mode dev"
  "mo_deadline (snd (modem_drain k dev)) = mo_deadline dev" "mo_line (snd (modem_drain k dev)) = mo_line dev"
  "mo_last_data (snd (modem_drain k dev)) = mo_last_data dev" "mo_cmdlen (snd (modem_drain k dev)) = mo_cmdlen dev"
  using drain_frame [of k dev] by auto

lemma drain_items:
  "mo_ring_ok dev \<Longrightarrow> fst (modem_drain k dev) = take k (mo_items dev) \<and> mo_items (snd (modem_drain k dev)) = drop k (mo_items dev) \<and>
     mo_ring_ok (snd (modem_drain k dev)) \<and> mo_room (snd (modem_drain k dev)) = mo_room dev + min k (length (mo_items dev))"
proof (induction k arbitrary: dev)
  case (Suc k)
  show ?case
  proof (cases "mo_items dev")
    case Nil
    then have "mo_out_tail dev = mo_out_head dev"
      using mo_ring_facts(2) [OF Suc.prems] by (metis mo_items_length list.size(3))
    then show ?thesis using Suc.prems Nil by simp
  next
    case (Cons b bs)
    let ?d = "dev\<lparr>mo_out_tail := (mo_out_tail dev + 1) mod MODEM_OUT_SIZE\<rparr>"
    have ne: "mo_out_tail dev \<noteq> mo_out_head dev"
      using mo_ring_facts(2) [OF Suc.prems] Cons by (metis mo_items_length list.size(3) list.discI length_0_conv)
    then have "mo_take dev = Some (mo_out dev ! mo_out_tail dev, ?d)" by (simp add: mo_take_def)
    then have d: "mo_out dev ! mo_out_tail dev = b" "mo_ring_ok ?d" "mo_items ?d = bs" "mo_room ?d = Suc (mo_room dev)"
      using mo_take_next [OF Suc.prems Cons] by auto
    then show ?thesis using Suc.IH [OF d(2)] ne Cons by (simp add: case_prod_beta Let_def)
  qed
qed simp

text \<open>A read is what the line and the carrier do to the ring, and then taking from it.\<close>

definition before_drain :: "'n net \<Rightarrow> u32 \<Rightarrow> 'n modem_io \<Rightarrow> 'n modem_io" where
  "before_drain net now s = modem_receive net (set_dev (modem_escape now) (modem_poll_line net now s))"

lemma read_drain:
  assumes "modem_ok (fst s)" "before_drain net now s = (d, m)"
  shows "fst (modem_read net now k s) = take k (mo_items d)" "mo_items (fst (snd (modem_read net now k s))) = drop k (mo_items d)"
    "modem_read net now k s = (take k (mo_items d), snd (modem_drain k d), m)" "modem_ok d"
proof -
  show ok: "modem_ok d"
    using receive_ok [of "set_dev (modem_escape now) (modem_poll_line net now s)" net] assms
    by (simp add: before_drain_def escape_ok poll_line_ok)
  then have r: "mo_ring_ok d" by (simp add: modem_ok_def)
  show "fst (modem_read net now k s) = take k (mo_items d)" "mo_items (fst (snd (modem_read net now k s))) = drop k (mo_items d)"
    "modem_read net now k s = (take k (mo_items d), snd (modem_drain k d), m)"
    using drain_items [OF r, of k] assms(2) unfolding modem_read_def Let_def before_drain_def [symmetric]
    by (simp_all add: case_prod_beta)
qed

lemma off_line_receive: "\<not> mo_online (fst s) \<Longrightarrow> modem_receive net s = s"
  by (cases s) (simp add: modem_receive_def)

lemma off_line_escape: "\<not> mo_online dev \<Longrightarrow> modem_escape now dev = dev"
  by (simp add: modem_escape_def)

lemma off_line_read: "\<not> mo_online (fst (modem_poll_line net now s)) \<Longrightarrow> before_drain net now s = modem_poll_line net now s"
  by (cases "modem_poll_line net now s") (simp add: before_drain_def set_dev_def off_line_escape off_line_receive)

text \<open>A run of reads, one for each time.\<close>

definition reads :: "(u32 \<times> nat) list \<Rightarrow> modem_event list" where
  "reads rs = map (\<lambda>(t, k). Read t k) rs"

lemma run_reads_Cons:
  "modem_run net (reads ((t, k) # rs)) s = Some (out, s') \<longleftrightarrow>
     (\<exists>rest. out = fst (modem_read net t k s) @ rest \<and> modem_run net (reads rs) (snd (modem_read net t k s)) = Some (rest, s'))"
  by (cases "modem_read net t k s"; cases s') (simp add: reads_def bind_eq_Some_conv, blast)

section \<open>Into a dead line\<close>

text \<open>The modem is dialling: it owes the terminal \<open>bs\<close> and gives up at \<open>t\<close>.\<close>

definition dialling :: "u32 \<Rightarrow> u8 list \<Rightarrow> modem \<Rightarrow> modem \<Rightarrow> bool" where
  "dialling t bs dev d \<longleftrightarrow> modem_ok d \<and> mo_state d = MODEM_ST_DIALING \<and> mo_deadline d = t \<and> mo_items d = bs \<and>
     mo_s d = mo_s dev \<and> mo_xresult d = mo_xresult dev \<and> mo_quiet d = mo_quiet dev \<and> mo_verbose d = mo_verbose dev \<and>
     mo_line d = mo_line dev"

lemma dialling_waits:
  assumes "dialling t bs dev d" "before now t"
  shows "modem_read net now k (d, n) = (take k bs, snd (modem_drain k d), n)" "dialling t (drop k bs) dev (snd (modem_drain k d))"
proof -
  have d: "modem_ok d" "\<not> mo_online d" "mo_items d = bs" using assms(1) by (auto simp: dialling_def modem_ok_defs)
  have "before_drain net now (d, n) = (d, n)"
    using assms d by (subst off_line_read) (simp_all add: modem_poll_line_def dialling_def)
  then show r: "modem_read net now k (d, n) = (take k bs, snd (modem_drain k d), n)"
    using read_drain(3) [of "(d, n)" net now d n k] d by simp
  show "dialling t (drop k bs) dev (snd (modem_drain k d))"
    using read_ok [of "(d, n)" net now k] r d drain_items [of d k] assms(1) by (simp add: dialling_def modem_ok_def)
qed

lemma dialling_reads:
  "dialling t bs dev d \<Longrightarrow> \<forall>(now, k) \<in> set rs. before now t \<Longrightarrow>
     \<exists>out d'. modem_run net (reads rs) (d, n) = Some (out, d', n) \<and> out @ mo_items d' = bs \<and> dialling t (mo_items d') dev d'"
proof (induction rs arbitrary: bs d)
  case Nil
  then show ?case by (auto simp: reads_def dialling_def)
next
  case (Cons r rs)
  obtain now k where r: "r = (now, k)" by (cases r)
  have "before now t" using Cons.prems(2) r by simp
  note w = dialling_waits(1) [OF Cons.prems(1) this, of net k n] dialling_waits(2) [OF Cons.prems(1) this, of k]
  obtain out d' where d': "modem_run net (reads rs) (snd (modem_drain k d), n) = Some (out, d', n)"
      "out @ mo_items d' = drop k bs" "dialling t (mo_items d') dev d'"
    using Cons.IH [OF w(2)] Cons.prems(2) by auto
  have "modem_run net (reads (r # rs)) (d, n) = Some (take k bs @ out, d', n)"
    unfolding r run_reads_Cons w(1) using d'(1) by simp
  moreover have "(take k bs @ out) @ mo_items d' = bs" using d'(2) by simp
  ultimately show ?case using d'(3) by blast
qed

text \<open>What the failure is, and when.\<close>

definition hears_tone :: "modem \<Rightarrow> bool" where
  "hears_tone dev \<longleftrightarrow> mo_xresult dev = 2 \<or> mo_xresult dev = 4"

definition dead_wait :: "modem \<Rightarrow> u32" where
  "dead_wait dev = (if hears_tone dev then 1500 else ucast (mo_s dev ! 7) * 1000)"

definition dead_text :: "modem \<Rightarrow> u8 list" where
  "dead_text dev = framed dev (if hears_tone dev then bytes ''NO DIALTONE'' else bytes ''NO CARRIER'')"

lemma dialling_fails:
  assumes "dialling t bs dev d" "\<not> before now t" "mo_line dev = MODEM_LINE_DEAD" "length bs \<le> 300" "\<not> mo_quiet dev" "mo_verbose dev"
    and "400 \<le> k"
  shows "\<exists>d'. modem_read net now k (d, n) = (bs @ dead_text dev, d', n) \<and> mo_state d' = MODEM_ST_IDLE \<and> mo_items d' = [] \<and>
    mo_sock d' = mo_sock d"
proof -
  have d: "modem_ok d" "\<not> mo_online d" "mo_items d = bs" "\<not> CHAR_FD_VALID (mo_sock d)" "mo_state d = MODEM_ST_DIALING" "mo_deadline d = t"
    using assms(1) by (auto simp: dialling_def modem_ok_defs on_line_def)
  define h where "h = d\<lparr>mo_snd := modem_sound_event MODEM_SOUND_HANGUP [] 0 (mo_snd d), mo_state := MODEM_ST_IDLE, mo_online := False, mo_pluses := 0\<rparr>"
  define code where "code = (if hears_tone dev then RES_NO_DIALTONE else RES_NO_CARRIER)"
  have f: "mo_s d = mo_s dev" "mo_xresult d = mo_xresult dev" "mo_quiet d = mo_quiet dev" "mo_verbose d = mo_verbose dev" "mo_line d = mo_line dev"
    using assms(1) by (simp_all add: dialling_def)
  have "modem_hangup net (d, n) = (h, n)" using d by (simp add: modem_hangup_def h_def Let_def)
  then have p: "modem_poll_line net now (d, n) = (modem_result code h, n)"
    using d assms(2,3) f by (simp add: modem_poll_line_def modem_give_up_def code_def hears_tone_def Let_def)
  have "\<not> mo_online (modem_result code h)" by (simp add: result_str h_def)
  then have b: "before_drain net now (d, n) = (modem_result code h, n)" using p by (simp add: off_line_read)
  have res: "res_bytes code h = dead_text dev"
    using f assms(5,6) by (auto simp: res_bytes_def h_def code_def res_shown_def res_text_def dead_text_def framed_def hears_tone_def Let_def)
  have len: "length (dead_text dev) \<le> 20" by (simp add: dead_text_def framed_def bytes_def)
  have "modem_used d = length bs" using d(3) by (metis mo_items_length)
  then have room: "3795 \<le> mo_room h" using assms(4) by (simp add: h_def mo_room_def modem_used_def MODEM_OUT_SIZE_def)
  have h: "mo_ring_ok h" "mo_items h = bs" using d by (simp_all add: h_def modem_ok_def mo_ring_ok_def mo_items_def modem_used_def)
  have items: "mo_items (modem_result code h) = bs @ dead_text dev"
    unfolding result_str out_str_items [OF h(1)] res using h(2) room len by simp
  have "modem_read net now k (d, n) = (bs @ dead_text dev, snd (modem_drain k (modem_result code h)), n)"
    "mo_items (snd (modem_drain k (modem_result code h))) = []"
    using read_drain(2,3) [OF _ b, of k] d(1) items len assms(4,7) by simp_all
  then show ?thesis by (auto simp: result_str h_def)
qed

lemma execute_dial:
  assumes "mo_state (fst s) = MODEM_ST_IDLE"
  shows "modem_execute net now (0x44 # nr) s = Some (RES_NONE, modem_dial net now (take 63 (filter dialable nr)) s)"
  using assms by (simp add: exec_letter_def plain_set_def exec_dial_def toupper_def islower_def split: prod.split)

text \<open>
  C34. A call into a dead line fails as it would on a real one: dialled at \<open>t0\<close> it rings on
  for a second and a half if the modem listens for a dial tone (X2, X4) and for the S7
  seconds otherwise; however often the terminal reads meanwhile it gets the echo of its line
  and nothing else, and the first read after that brings NO DIALTONE or NO CARRIER and the
  modem is on hook. No socket is touched.
\<close>

theorem dead_line_fails:
  assumes "at_prompt dev" "mo_items dev = []" "mo_state dev = MODEM_ST_IDLE" "mo_line dev = MODEM_LINE_DEAD" "\<not> mo_quiet dev" "mo_verbose dev"
    and "typable (0x44 # nr)" "\<forall>(t, k) \<in> set rs. before t (t0 + dead_wait dev)" "\<not> before t1 (t0 + dead_wait dev)" "400 \<le> k1"
  shows "\<exists>dev1 out dev2 rest dev3.
    modem_write net t0 (0x41 # 0x54 # (0x44 # nr) @ [0x0D]) (dev, n) = Some (dev1, n) \<and>
    modem_run net (reads rs) (dev1, n) = Some (out, dev2, n) \<and> mo_state dev2 = MODEM_ST_DIALING \<and>
    out @ rest = echoed dev (0x41 # 0x54 # (0x44 # nr) @ [0x0D]) \<and>
    modem_read net t1 k1 (dev2, n) = (rest @ dead_text dev, dev3, n) \<and> mo_state dev3 = MODEM_ST_IDLE \<and> mo_items dev3 = []"
proof -
  let ?line = "0x41 # 0x54 # 0x44 # nr"
  let ?k = "accepted ?line dev"
  define d where "d = fst (modem_dial net t0 (take 63 (filter dialable nr)) (?k, n))"
  have f: "mo_state ?k = MODEM_ST_IDLE" "mo_s ?k = mo_s dev" "mo_xresult ?k = mo_xresult dev" "mo_quiet ?k = mo_quiet dev"
      "mo_verbose ?k = mo_verbose dev" "mo_line ?k = MODEM_LINE_DEAD" "mo_s dev ! 3 = 0x0D" "modem_ok dev"
    using assms(1,3,4) by (simp_all add: accepted_def entered_def at_prompt_def)
  have x: "modem_execute net t0 (0x44 # nr) (?k, n) = Some (RES_NONE, d, n)"
    using f(6) by (subst execute_dial) (simp_all add: f d_def modem_dial_def Let_def)
  have w: "modem_write net t0 (0x41 # 0x54 # (0x44 # nr) @ [0x0D]) (dev, n) = Some (d\<lparr>mo_cmdlen := 0\<rparr>, n)"
    using at_line_run [OF assms(1,7) upper_AT(1,2) x] by (simp add: modem_result_def del: modem_write.simps)
  have len: "length ?line \<le> 300" using assms(7) by (simp add: typable_def)
  have "mo_items d = mo_items ?k" "mo_deadline d = t0 + dead_wait dev" "mo_state d = MODEM_ST_DIALING" "mo_line d = mo_line dev"
    "mo_s d = mo_s dev" "mo_xresult d = mo_xresult dev" "mo_quiet d = mo_quiet dev" "mo_verbose d = mo_verbose dev"
    using f assms(4) by (simp_all add: d_def modem_dial_def Let_def dead_wait_def hears_tone_def mo_items_def modem_used_def)
  moreover have "modem_ok (d\<lparr>mo_cmdlen := 0\<rparr>)" using write_ok_modem [OF w] f(8) by simp
  ultimately have dl: "dialling (t0 + dead_wait dev) (echoed dev (?line @ [0x0D])) dev (d\<lparr>mo_cmdlen := 0\<rparr>)"
    using accept_items(2) [OF f(8) assms(2) len] f(7) by (simp add: dialling_def mo_items_def modem_used_def)
  obtain out d2 where d2: "modem_run net (reads rs) (d\<lparr>mo_cmdlen := 0\<rparr>, n) = Some (out, d2, n)"
      "out @ mo_items d2 = echoed dev (?line @ [0x0D])" "dialling (t0 + dead_wait dev) (mo_items d2) dev d2"
    using dialling_reads [OF dl assms(8), of net n] by blast
  have "length (out @ mo_items d2) \<le> 300" using assms(7) unfolding d2(2) by (simp add: echoed_def typable_def)
  then have short: "length (mo_items d2) \<le> 300" by simp
  obtain d3 where d3: "modem_read net t1 k1 (d2, n) = (mo_items d2 @ dead_text dev, d3, n)" "mo_state d3 = MODEM_ST_IDLE" "mo_items d3 = []"
    using dialling_fails [OF d2(3) assms(9,4) short assms(5,6,10), of net n] by blast
  moreover have "mo_state d2 = MODEM_ST_DIALING" using d2(3) by (simp add: dialling_def)
  moreover have "out @ mo_items d2 = echoed dev (0x41 # 0x54 # (0x44 # nr) @ [0x0D])" using d2(2) by simp
  ultimately show ?thesis using w d2(1) d3
    by (intro exI [of _ "d\<lparr>mo_cmdlen := 0\<rparr>"] exI [of _ out] exI [of _ d2] exI [of _ "mo_items d2"] exI [of _ d3] conjI)
qed

theorem dead_line_fails_witness:
  "\<exists>dev1 out dev2 rest dev3. modem_write wire_net 1000 [0x41, 0x54, 0x44, 0x31, 0x32, 0x0D] (new_modem 0 MODEM_LINE_DEAD, []) = Some (dev1, []) \<and>
     modem_run wire_net (reads [(1500, 1), (2499, 100)]) (dev1, []) = Some (out, dev2, []) \<and>
     modem_read wire_net 2500 400 (dev2, []) = (rest @ [0x0D, 0x0A] @ bytes ''NO DIALTONE'' @ [0x0D, 0x0A], dev3, []) \<and>
     mo_state dev3 = MODEM_ST_IDLE"
proof -
  let ?d = "new_modem 0 MODEM_LINE_DEAD"
  have w: "hears_tone ?d" "dead_wait ?d = 1500" "dead_text ?d = [0x0D, 0x0A] @ bytes ''NO DIALTONE'' @ [0x0D, 0x0A]"
    by (simp_all add: hears_tone_def dead_wait_def dead_text_def framed_def modem_s_defaults_def)
  have b: "before 1500 2500" "before 2499 2500" "\<not> before 2500 2500" by (simp_all add: before_def)
  obtain dev1 out dev2 rest dev3 where r:
    "modem_write wire_net 1000 (0x41 # 0x54 # (0x44 # [0x31, 0x32]) @ [0x0D]) (?d, []) = Some (dev1, [])"
    "modem_run wire_net (reads [(1500, 1), (2499, 100)]) (dev1, []) = Some (out, dev2, [])"
    "out @ rest = [0x41, 0x54, 0x44, 0x31, 0x32, 0x0D]"
    "modem_read wire_net 2500 400 (dev2, []) = (rest @ dead_text ?d, dev3, [])" "mo_state dev3 = MODEM_ST_IDLE"
    using dead_line_fails [OF new_modem_prompt [of 0 MODEM_LINE_DEAD], of "[0x31, 0x32]" "[(1500, 1), (2499, 100)]" 1000 2500 400 wire_net "[]"]
      b w(2) by (auto simp: typable_def echoed_def simp del: modem_write.simps modem_run.simps)
  then show ?thesis using w(3) by (auto simp del: modem_write.simps modem_run.simps)
qed

section \<open>CONNECT, and then the carrier\<close>

definition connect_bytes :: "modem \<Rightarrow> u8 list" where
  "connect_bytes dev = res_bytes RES_CONNECT dev"

text \<open>What the CONNECT line is made from.\<close>

definition same_words :: "modem \<Rightarrow> modem \<Rightarrow> bool" where
  "same_words dev d \<longleftrightarrow> mo_s d = mo_s dev \<and> mo_quiet d = mo_quiet dev \<and> mo_verbose d = mo_verbose dev \<and> mo_xresult d = mo_xresult dev \<and>
     mo_wresult d = mo_wresult dev \<and> mo_connect_rate d = mo_connect_rate dev \<and> mo_dcd_mode d = mo_dcd_mode dev"

lemma connect_same: "same_words dev d \<Longrightarrow> connect_bytes d = connect_bytes dev"
  by (simp add: connect_bytes_def same_words_def res_bytes_def framed_def res_text_def Let_def)

text \<open>
  How far a call has come, given what the terminal has read (\<open>out\<close>) of what it was owed at
  first (\<open>bs\<close>) and of the CONNECT line (\<open>c\<close>).
\<close>

definition call_stage :: "u8 list \<Rightarrow> modem \<Rightarrow> u8 list \<Rightarrow> modem \<Rightarrow> bool" where
  "call_stage bs dev out d \<longleftrightarrow> modem_ok d \<and> same_words dev d \<and>
     (case mo_state d of
        MODEM_ST_CONNECTING \<Rightarrow> out @ mo_items d = bs
      | MODEM_ST_ANSWERING \<Rightarrow> out @ mo_items d = bs @ (if mo_said_connect d then connect_bytes dev else [])
      | MODEM_ST_ONLINE \<Rightarrow> prefix (bs @ connect_bytes dev) out
      | _ \<Rightarrow> mo_state d = MODEM_ST_IDLE)"

lemma hangup_idle: "mo_state (fst (modem_hangup net s)) = MODEM_ST_IDLE" "same_words dev (fst s) \<Longrightarrow> same_words dev (fst (modem_hangup net s))"
  by (simp_all add: modem_hangup_def same_words_def case_prod_beta Let_def)

lemma give_up_idle: "mo_state (fst (modem_give_up net code s)) = MODEM_ST_IDLE"
    "same_words dev (fst s) \<Longrightarrow> same_words dev (fst (modem_give_up net code s))"
  using hangup_idle [where net = net and s = s] by (simp_all add: modem_give_up_def result_str case_prod_beta same_words_def)

lemma stage_idle: "modem_ok d \<Longrightarrow> same_words dev d \<Longrightarrow> mo_state d = MODEM_ST_IDLE \<Longrightarrow> call_stage bs dev out d"
  by (simp add: call_stage_def)

lemma refused_ok: "modem_ok d \<Longrightarrow> modem_ok (d\<lparr>mo_refused := True, mo_deadline := t\<rparr>)"
  by (simp add: modem_ok_defs)

lemma poll_stage:
  assumes "call_stage bs dev out (fst s)" "length bs + length (connect_bytes dev) < MODEM_OUT_SIZE"
  shows "call_stage bs dev out (fst (modem_poll_line net now s))"
proof -
  obtain d n where s: "s = (d, n)" by (cases s)
  have ok: "modem_ok (fst (modem_poll_line net now s))" using assms(1) by (intro poll_line_ok) (simp add: call_stage_def)
  have d: "modem_ok d" "same_words dev d" using assms(1) by (simp_all add: s call_stage_def)
  have gone: "call_stage bs dev out (fst (modem_give_up net code (e, m)))" if "modem_ok e" "same_words dev e" for code e m
    using that give_up_ok [of "(e, m)" net code] give_up_idle [where net = net and code = code and s = "(e, m)"] by (intro stage_idle) simp_all
  show ?thesis
  proof (cases "mo_state d")
    case MODEM_ST_CONNECTING
    then have items: "out @ mo_items d = bs" using assms(1) by (simp add: s call_stage_def)
    have a: "call_stage bs dev out (modem_answered now d)"
      using d items MODEM_ST_CONNECTING
      by (auto simp: call_stage_def modem_answered_def same_words_def mo_items_def modem_used_def modem_ok_defs on_line_def)
    have r: "call_stage bs dev out (d\<lparr>mo_refused := True, mo_deadline := t\<rparr>)" for t
      using assms(1) refused_ok [OF d(1)] MODEM_ST_CONNECTING by (simp add: s call_stage_def same_words_def mo_items_def modem_used_def)
    have g: "call_stage bs dev out (fst (modem_give_up net RES_NO_CARRIER (d\<lparr>mo_refused := True, mo_deadline := t\<rparr>, m)))" for t m
      using r [of t] by (intro gone) (simp_all add: call_stage_def)
    show ?thesis
      using a r g gone [OF d] assms(1) MODEM_ST_CONNECTING
      by (simp add: s modem_poll_line_def poll_connecting_def case_prod_beta Let_def)
  next
    case MODEM_ST_ANSWERING
    show ?thesis
    proof (cases "before now (mo_deadline d)")
      case True
      then show ?thesis using assms(1) MODEM_ST_ANSWERING by (simp add: s modem_poll_line_def)
    next
      case False
      show ?thesis
      proof (cases "mo_said_connect d")
        case True
        have "prefix (bs @ connect_bytes dev) out" if "mo_out_tail d = mo_out_head d"
        proof -
          have "mo_items d = []" using that d(1) mo_ring_facts(2) [of d] by (simp add: modem_ok_def mo_items_def)
          then show ?thesis using assms(1) MODEM_ST_ANSWERING True by (simp add: s call_stage_def)
        qed
        then show ?thesis
          using assms(1) ok MODEM_ST_ANSWERING False True d
          by (auto simp: s modem_poll_line_def call_stage_def modem_online_def same_words_def)
      next
        case said: False
        define e where "e = d\<lparr>mo_snd := modem_sound_event MODEM_SOUND_CONNECT [] 0 (mo_snd d)\<rparr>"
        have e: "mo_items e = mo_items d" "mo_ring_ok e" "same_words dev e"
          using d by (simp_all add: e_def mo_items_def modem_used_def modem_ok_def mo_ring_ok_def same_words_def)
        have items: "out @ mo_items e = bs" using assms(1) MODEM_ST_ANSWERING said e(1) by (simp add: s call_stage_def)
        then have "modem_used e \<le> length bs" by (metis mo_items_length length_append le_add2)
        then have "length (connect_bytes dev) \<le> mo_room e" using assms(2) by (simp add: mo_room_def)
        then have "mo_items (modem_result RES_CONNECT e) = mo_items e @ connect_bytes dev"
          using out_str_items [OF e(2), of "connect_bytes e"] connect_same [OF e(3)] by (simp add: result_str connect_bytes_def)
        then show ?thesis
          using ok MODEM_ST_ANSWERING False said e(3) items d(2)
          by (simp add: s modem_poll_line_def call_stage_def Let_def flip: e_def append_assoc)
            (simp add: result_str same_words_def e_def mo_items_def modem_used_def)
      qed
    qed
  next
    case MODEM_ST_DIALING
    then show ?thesis using assms(1) by (simp add: s call_stage_def)
  qed (use assms(1) in \<open>simp_all add: s modem_poll_line_def\<close>)
qed

lemma receive_stage:
  assumes "call_stage bs dev out (fst s)"
  shows "call_stage bs dev out (fst (modem_receive net s))"
proof (cases "mo_online (fst s)")
  case True
  obtain d n where s: "s = (d, n)" by (cases s)
  have d: "modem_ok d" "same_words dev d" using assms by (simp_all add: s call_stage_def)
  have on: "mo_state d = MODEM_ST_ONLINE" using d(1) True by (simp add: s modem_ok_def mo_line_ok_def)
  have "call_stage bs dev out (fst (modem_give_up net RES_NO_CARRIER (d, m)))" for m
    using d give_up_ok [of "(d, m)" net] give_up_idle [where net = net and code = RES_NO_CARRIER and s = "(d, m)"]
    by (intro stage_idle) simp_all
  moreover have "call_stage bs dev out (modem_out_str xs d)" for xs
    using assms on said_ok [OF d(1)] by (simp add: s call_stage_def same_words_def)
  ultimately show ?thesis
    using assms by (simp add: s modem_receive_def Let_def case_prod_beta flip: modem_out_str_def split: received.split)
qed (simp add: off_line_receive assms)

lemma escape_stage:
  assumes "call_stage bs dev out d"
  shows "call_stage bs dev out (modem_escape now d)"
proof (cases "mo_online d")
  case True
  have ok: "modem_ok d" using assms by (simp add: call_stage_def)
  then have "mo_state d = MODEM_ST_ONLINE" using True by (simp add: modem_ok_def mo_line_ok_def)
  then show ?thesis
    using assms escape_ok [OF ok] by (simp add: modem_escape_def call_stage_def result_str same_words_def)
qed (simp add: off_line_escape assms)

lemma read_stage:
  assumes "call_stage bs dev out (fst s)" "length bs + length (connect_bytes dev) < MODEM_OUT_SIZE"
  shows "call_stage bs dev (out @ fst (modem_read net now k s)) (fst (snd (modem_read net now k s)))"
proof -
  obtain d m where d: "before_drain net now s = (d, m)" by (cases "before_drain net now s")
  have "call_stage bs dev out d"
    using receive_stage [of bs dev out "set_dev (modem_escape now) (modem_poll_line net now s)" net]
      escape_stage poll_stage [OF assms] d by (simp add: before_drain_def)
  moreover have ok: "modem_ok (fst s)" using assms(1) by (simp add: call_stage_def)
  ultimately show ?thesis
    using read_ok [OF ok, of net now k] drain_items [of d k]
    unfolding read_drain(3) [OF ok d]
    by (auto simp: call_stage_def same_words_def modem_ok_def split: modem_state.splits)
qed

lemma reads_stage:
  "call_stage bs dev out (fst s) \<Longrightarrow> length bs + length (connect_bytes dev) < MODEM_OUT_SIZE \<Longrightarrow>
     modem_run net (reads rs) s = Some (rest, s') \<Longrightarrow> call_stage bs dev (out @ rest) (fst s')"
proof (induction rs arbitrary: out s rest)
  case Nil
  then show ?case by (simp add: reads_def)
next
  case (Cons r rs)
  obtain t k where r: "r = (t, k)" by (cases r)
  then obtain r2 where r2: "rest = fst (modem_read net t k s) @ r2" "modem_run net (reads rs) (snd (modem_read net t k s)) = Some (r2, s')"
    using Cons.prems(3) unfolding r run_reads_Cons by blast
  show ?case using Cons.IH [OF read_stage [OF Cons.prems(1,2)] Cons.prems(2) r2(2)] r2(1) by simp
qed

end
