(* ===== verification/Modem_Connect.thy ===== *)
theory Modem_Connect
  imports Modem_Call
begin

text \<open>A call that goes through.\<close>

lemma answered_items: "mo_items (modem_answered now d) = mo_items d" "same_words d (modem_answered now d)"
  by (simp_all add: modem_answered_def mo_items_def modem_used_def same_words_def)

lemma read_all:
  assumes "modem_ok (fst s)" "before_drain net now s = (d, m)" "length (mo_items d) \<le> k"
  obtains d' where "modem_read net now k s = (mo_items d, d', m)" "d' = snd (modem_drain k d)" "modem_ok d'" "mo_items d' = []"
proof -
  note r = read_drain(2,3) [OF assms(1,2), of k]
  show thesis
    using that [of "snd (modem_drain k d)"] read_ok [OF assms(1), of net now k] r assms(3) by simp
qed

lemma pick_up:
  assumes "mo_state d = MODEM_ST_CONNECTING" "\<not> mo_refused d" "\<not> mo_online d" "\<not> before t (mo_answer_at d)"
    and "fst (plat_netsocket_connected net (mo_sock d) n) = 1"
  shows "\<exists>m. before_drain net t (d, n) = (modem_answered t d, m)"
proof -
  obtain m where m: "plat_netsocket_connected net (mo_sock d) n = (1, m)" using assms(5) by (metis prod.collapse)
  then have "modem_poll_line net t (d, n) = (modem_answered t d, m)"
    using assms by (simp add: modem_poll_line_def poll_connecting_def)
  moreover have "\<not> mo_online (modem_answered t d)" using assms(3) by (simp add: modem_answered_def)
  ultimately have "before_drain net t (d, n) = (modem_answered t d, m)" using off_line_read [of net t "(d, n)"] by simp
  then show ?thesis by blast
qed

definition said_connect :: "u32 \<Rightarrow> modem \<Rightarrow> modem" where
  "said_connect t d = (modem_result RES_CONNECT (d\<lparr>mo_snd := modem_sound_event MODEM_SOUND_CONNECT [] 0 (mo_snd d)\<rparr>))
     \<lparr>mo_said_connect := True, mo_deadline := t + MODEM_SETTLE_MS\<rparr>"

lemma say_connect:
  assumes "mo_state d = MODEM_ST_ANSWERING" "\<not> mo_said_connect d" "\<not> mo_online d" "\<not> before t (mo_deadline d)"
  shows "before_drain net t (d, n) = (said_connect t d, n)"
proof -
  have "modem_poll_line net t (d, n) = (said_connect t d, n)"
    using assms by (simp add: modem_poll_line_def said_connect_def Let_def)
  moreover have "\<not> mo_online (said_connect t d)" using assms(3) by (simp add: said_connect_def result_str)
  ultimately show ?thesis using off_line_read [of net t "(d, n)"] by simp
qed

lemma said_connect_items:
  assumes "modem_ok d" "mo_items d = []" "length (connect_bytes d) < MODEM_OUT_SIZE"
  shows "mo_items (said_connect t d) = connect_bytes d"
proof -
  let ?e = "d\<lparr>mo_snd := modem_sound_event MODEM_SOUND_CONNECT [] 0 (mo_snd d)\<rparr>"
  have e: "mo_ring_ok ?e" "mo_items ?e = []" "res_bytes RES_CONNECT ?e = connect_bytes d"
    using assms by (simp_all add: modem_ok_defs mo_items_def modem_used_def connect_bytes_def res_bytes_def framed_def res_text_def Let_def)
  then have "modem_used ?e = 0" by (metis mo_items_length list.size(3))
  then have "length (connect_bytes d) \<le> mo_room ?e" using assms(3) by (simp add: mo_room_def)
  moreover have "mo_items (said_connect t d) = mo_items (modem_result RES_CONNECT ?e)"
    by (simp add: said_connect_def mo_items_def modem_used_def)
  ultimately show ?thesis using out_str_items [OF e(1)] e(2,3) by (simp add: result_str)
qed

lemma go_online:
  assumes "mo_state d = MODEM_ST_ANSWERING" "mo_said_connect d" "modem_ok d" "mo_items d = []" "mo_pluses d = 0" "\<not> before t (mo_deadline d)"
    and "\<And>k m. fst (plat_netsocket_receive net (mo_sock d) k m) \<noteq> Closed \<and> fst (plat_netsocket_receive net (mo_sock d) k m) \<noteq> Recv_Failed"
  shows "\<exists>bs m. before_drain net t (d, n) = (modem_out_str bs (modem_online d), m)"
proof -
  have "mo_out_tail d = mo_out_head d" using assms(3,4) mo_ring_facts(2) [of d] by (metis modem_ok_def mo_items_length list.size(3))
  then have p: "modem_poll_line net t (d, n) = (modem_online d, n)" using assms by (simp add: modem_poll_line_def)
  have e: "modem_escape t (modem_online d) = modem_online d" using assms(5) by (simp add: modem_escape_def modem_online_def)
  have "mo_items (modem_online d) = []" using assms(4) by (simp add: modem_online_def mo_items_def modem_used_def)
  then have "modem_used (modem_online d) = 0" by (metis mo_items_length list.size(3))
  then have "0 < min (MODEM_OUT_SIZE - 1 - modem_used (modem_online d)) 256" by (simp add: MODEM_OUT_SIZE_def)
  moreover have "CHAR_FD_VALID (mo_sock d)" using assms(1,3) by (simp add: modem_ok_def mo_line_ok_def on_line_def)
  moreover have "mo_sock (modem_online d) = mo_sock d" "mo_online (modem_online d)" by (simp_all add: modem_online_def)
  moreover obtain r m where r: "plat_netsocket_receive net (mo_sock d) (min (MODEM_OUT_SIZE - 1 - modem_used (modem_online d)) 256) n = (r, m)"
    by fastforce
  moreover have "r \<noteq> Closed" "r \<noteq> Recv_Failed" using assms(7) r by (metis fst_conv)+
  ultimately have "\<exists>bs. modem_receive net (modem_online d, n) = (modem_out_str bs (modem_online d), m)"
    by (cases r) (auto simp: modem_receive_def Let_def modem_out_str_def intro: exI [of _ "[]"])
  then show ?thesis by (auto simp: before_drain_def p set_dev_def e)
qed

lemma call_connects:
  assumes "modem_ok dev" "mo_state dev = MODEM_ST_CONNECTING" "\<not> mo_refused dev" "mo_pluses dev = 0"
    and "length (connect_bytes dev) < MODEM_OUT_SIZE"
    and "\<And>m. fst (plat_netsocket_connected net (mo_sock dev) m) = 1"
    and "\<And>k m. fst (plat_netsocket_receive net (mo_sock dev) k m) \<noteq> Closed \<and> fst (plat_netsocket_receive net (mo_sock dev) k m) \<noteq> Recv_Failed"
    and "\<not> before t1 (mo_answer_at dev)" "\<not> before t2 (t1 + modem_sound_handshake_ms (33600 < mo_connect_rate dev))"
    and "\<not> before t3 (t2 + MODEM_SETTLE_MS)" "MODEM_OUT_SIZE \<le> k"
  shows "\<exists>dev' n'. modem_run net (reads [(t1, k), (t2, k), (t3, 0)]) (dev, n) = Some (mo_items dev @ connect_bytes dev, dev', n') \<and>
    mo_state dev' = MODEM_ST_ONLINE \<and> mo_online dev' \<and> modem_status dev' AND CHAR_COM_DCD \<noteq> 0"
proof -
  have short: "length (mo_items d) \<le> k" if "modem_ok d" for d
    using that mo_ring_facts(1) [of d] assms(11) by (simp add: modem_ok_def)
  have off: "\<not> mo_online dev" using assms(1,2) by (auto simp: modem_ok_def mo_line_ok_def)
  obtain m1 where b1: "before_drain net t1 (dev, n) = (modem_answered t1 dev, m1)"
    using pick_up [OF assms(2,3) off assms(8), of net n] assms(6) by blast
  obtain d1 where d1: "modem_read net t1 k (dev, n) = (mo_items dev, d1, m1)" "d1 = snd (modem_drain k (modem_answered t1 dev))"
      "modem_ok d1" "mo_items d1 = []"
    using read_all [OF _ b1, of k] short [OF read_drain(4) [OF _ b1]] assms(1) by (auto simp: answered_items)
  have f1: "mo_state d1 = MODEM_ST_ANSWERING" "\<not> mo_said_connect d1" "\<not> mo_online d1" "mo_sock d1 = mo_sock dev" "mo_pluses d1 = 0"
      "mo_deadline d1 = t1 + modem_sound_handshake_ms (33600 < mo_connect_rate dev)" "connect_bytes d1 = connect_bytes dev"
    using off assms(4) connect_same [of dev d1] by (simp_all add: d1(2) modem_answered_def same_words_def)
  note b2 = say_connect [OF f1(1-3), of t2 net m1, unfolded f1(6), OF assms(9)]
  have i2: "mo_items (said_connect t2 d1) = connect_bytes dev"
    using said_connect_items [OF d1(3,4), of t2] f1(7) assms(5) by simp
  obtain d2 where d2: "modem_read net t2 k (d1, m1) = (connect_bytes dev, d2, m1)" "d2 = snd (modem_drain k (said_connect t2 d1))"
      "modem_ok d2" "mo_items d2 = []"
    using read_all [OF _ b2, of k] short [OF read_drain(4) [OF _ b2]] d1(3) i2 by auto
  have f2: "mo_state d2 = MODEM_ST_ANSWERING" "mo_said_connect d2" "mo_pluses d2 = 0" "mo_sock d2 = mo_sock dev"
      "mo_deadline d2 = t2 + MODEM_SETTLE_MS"
    using f1 by (simp_all add: d2(2) said_connect_def result_str)
  obtain bs m3 where b3: "before_drain net t3 (d2, m1) = (modem_out_str bs (modem_online d2), m3)"
    using go_online [OF f2(1,2) d2(3,4) f2(3), of t3 net m1] f2(4,5) assms(7,10) by auto
  let ?d3 = "snd (modem_drain 0 (modem_out_str bs (modem_online d2)))"
  have r3: "modem_read net t3 0 (d2, m1) = ([], ?d3, m3)" using read_drain(3) [OF _ b3, of 0] d2(3) by simp
  have on: "mo_state ?d3 = MODEM_ST_ONLINE" "mo_online ?d3" by (simp_all add: modem_online_def)
  have "modem_run net (reads [(t1, k), (t2, k), (t3, 0)]) (dev, n) = Some (mo_items dev @ connect_bytes dev, ?d3, m3)"
    by (simp add: reads_def d1(1) d2(1) r3)
  moreover have "modem_status ?d3 AND CHAR_COM_DCD \<noteq> 0"
    using on(1) by (simp add: modem_status_def CHAR_COM_CTS_def CHAR_COM_DSR_def CHAR_COM_DCD_def)
  ultimately show ?thesis using on by blast
qed


definition dialled :: modem where
  "dialled = fst (modem_dial wire_net 0 [] (new_modem 1 MODEM_LINE_TCP, []))"

lemma dialled_facts:
  "modem_ok dialled" "mo_state dialled = MODEM_ST_CONNECTING" "\<not> mo_refused dialled" "mo_pluses dialled = 0" "mo_items dialled = []"
  "connect_bytes dialled = [0x0D, 0x0A] @ bytes ''CONNECT 57600'' @ [0x0D, 0x0A]" "mo_answer_at dialled = 4000"
  "mo_connect_rate dialled = 57600" "mo_dcd_mode dialled = 1"
proof -
  let ?d = "new_modem 1 MODEM_LINE_TCP"
  show "modem_ok dialled"
    unfolding dialled_def using dial_ok [of "(?d, [])" wire_net 0 "[]"] new_modem_prompt [of 1 MODEM_LINE_TCP] by (simp add: at_prompt_def)
  have d: "dialled = ?d\<lparr>mo_refused := False, mo_answer_at := 4000, mo_snd := mo_snd dialled, mo_sock := 5,
      mo_state := MODEM_ST_CONNECTING, mo_deadline := mo_deadline dialled\<rparr>"
    by (simp add: dialled_def modem_dial_def Let_def wire_net_def CHAR_FD_VALID_def modem_sound_dial_ms_def modem_sound_ring_ms_def ms_defs)
  show "mo_state dialled = MODEM_ST_CONNECTING" "\<not> mo_refused dialled" "mo_answer_at dialled = 4000"
    "mo_connect_rate dialled = 57600" "mo_dcd_mode dialled = 1"
    by (subst d, simp)+
  have "mo_items dialled = mo_items ?d" by (subst d) (simp add: mo_items_def modem_used_def)
  then show "mo_items dialled = []" by simp
  show "mo_pluses dialled = 0"
    by (subst d) (simp add: new_modem_def modem_init_def modem_load_defaults_def Let_def)
  have "fmt_ld 57600 = bytes ''57600''" by (simp add: fmt_ld_def dec_digits.simps bytes_def)
  then show "connect_bytes dialled = [0x0D, 0x0A] @ bytes ''CONNECT 57600'' @ [0x0D, 0x0A]"
    by (subst d) (simp add: connect_bytes_def res_bytes_def res_shown_def framed_def res_text_def modem_s_defaults_def bytes_def)
qed

lemma wire_net_stays:
  "fst (plat_netsocket_connected wire_net fd m) = 1"
  "fst (plat_netsocket_receive wire_net fd k m) \<noteq> Closed \<and> fst (plat_netsocket_receive wire_net fd k m) \<noteq> Recv_Failed"
  by (simp_all add: wire_net_def)

text \<open>When the dialled call is read.\<close>

lemma dialled_times:
  "\<not> before 4000 (mo_answer_at dialled)" "\<not> before 13000 (4000 + modem_sound_handshake_ms (33600 < mo_connect_rate dialled))"
  "\<not> before 14000 (13000 + MODEM_SETTLE_MS)" "length (connect_bytes dialled) < MODEM_OUT_SIZE" "MODEM_OUT_SIZE \<le> 4096"
  by (simp_all add: dialled_facts before_def modem_sound_handshake_ms_def MS_HS_def MS_HS_DIL_def MODEM_SETTLE_MS_def bytes_def
      MODEM_OUT_SIZE_def)


text \<open>
  C36. CONNECT comes before the carrier: from a modem whose connection is under way, however
  the far end behaves and whenever the terminal reads, DCD is not seen until the terminal has
  read everything it was owed and the whole CONNECT line, in this order; so a driver that
  watches the carrier cannot go on line before it has the text.
\<close>

theorem connect_before_carrier:
  assumes "modem_ok dev" "mo_state dev = MODEM_ST_CONNECTING" "mo_dcd_mode dev \<noteq> 0"
    and "length (mo_items dev) + length (connect_bytes dev) < MODEM_OUT_SIZE"
    and "modem_run net (reads rs) (dev, n) = Some (out, dev', n')" "modem_status dev' AND CHAR_COM_DCD \<noteq> 0"
  shows "prefix (mo_items dev @ res_bytes RES_CONNECT dev) out"
proof -
  have "call_stage (mo_items dev) dev [] dev" using assms(1,2) by (simp add: call_stage_def same_words_def)
  then have st: "call_stage (mo_items dev) dev out dev'"
    using reads_stage [of "mo_items dev" dev "[]" "(dev, n)" net rs out "(dev', n')"] assms(4,5) by simp
  then have "mo_dcd_mode dev' \<noteq> 0" using assms(3) by (simp add: call_stage_def same_words_def)
  then have "mo_state dev' = MODEM_ST_ONLINE"
    using assms(6) by (auto simp: modem_status_def CHAR_COM_CTS_def CHAR_COM_DSR_def CHAR_COM_DCD_def split: if_splits)
  then show ?thesis using st by (simp add: call_stage_def connect_bytes_def)
qed

theorem connect_before_carrier_witness:
  "\<exists>out dev' n'. modem_run wire_net (reads [(4000, 4096), (13000, 4096), (14000, 0)]) (dialled, []) = Some (out, dev', n') \<and>
     prefix ([0x0D, 0x0A] @ bytes ''CONNECT 57600'' @ [0x0D, 0x0A]) out"
proof -
  obtain dev' n' where r: "modem_run wire_net (reads [(4000, 4096), (13000, 4096), (14000, 0)]) (dialled, []) =
      Some (mo_items dialled @ connect_bytes dialled, dev', n')" "modem_status dev' AND CHAR_COM_DCD \<noteq> 0"
    using call_connects [OF dialled_facts(1-4), of wire_net 4000 13000 14000 4096 "[]"] wire_net_stays dialled_times by blast
  have "prefix (mo_items dialled @ res_bytes RES_CONNECT dialled) (mo_items dialled @ connect_bytes dialled)"
    using connect_before_carrier [OF dialled_facts(1,2) _ _ r] dialled_times(4) by (simp add: dialled_facts(5,9))
  then show ?thesis using r(1) by (auto simp: dialled_facts(5,6))
qed

end
