(* ===== verification/Modem_Data.thy ===== *)
theory Modem_Data
  imports Modem_Call
begin

text \<open>
  Data mode: what the terminal writes reaches the far end, what the far end sends reaches
  the terminal, and the escape sequence between them; with two behaviours that the code
  does not mean to have.
\<close>

section \<open>The far end\<close>

text \<open>
  What the sockets are relied on for. A send that takes what it is given, where \<open>sent\<close> is
  what the far end will get of a network state; and a receive that hands over what comes in,
  at most as much as is asked for, from a far end that stays.
\<close>

definition takes_all :: "'n net \<Rightarrow> ('n \<Rightarrow> u8 list) \<Rightarrow> bool" where
  "takes_all net sent \<longleftrightarrow> (\<forall>fd bs m. sent (snd (plat_netsocket_send net fd bs m)) = sent m @ bs)"

definition hands_over :: "'n net \<Rightarrow> ('n \<Rightarrow> u8 list) \<Rightarrow> bool" where
  "hands_over net incoming \<longleftrightarrow> (\<forall>fd k m. case plat_netsocket_receive net fd k m of
       (Got bs, m') \<Rightarrow> length bs \<le> k \<and> incoming m = bs @ incoming m'
     | (No_Data, m') \<Rightarrow> incoming m' = incoming m
     | _ \<Rightarrow> False)"

section \<open>From the terminal to the far end\<close>

text \<open>A run of single bytes, one for each time.\<close>

definition writes :: "(u32 \<times> u8) list \<Rightarrow> modem_event list" where
  "writes ws = map (\<lambda>(t, b). Write t [b]) ws"

lemma data_byte_frame:
  assumes "modem_data_byte net now b (d, n) = (d', n')"
  shows "d' = d\<lparr>mo_pluses := mo_pluses d', mo_last_data := mo_last_data d'\<rparr>"
proof -
  have "d' = fst (modem_data_byte net now b (d, n))" using assms by simp
  then show ?thesis by (simp add: modem_data_byte_def Let_def)
qed

lemma run_writes_Cons:
  assumes "mo_online (fst s)"
  shows "modem_run net (writes ((t, b) # ws)) s = modem_run net (writes ws) (modem_data_byte net t b s)"
  using assms by (cases "modem_run net (writes ws) (modem_data_byte net t b s)") (auto simp: writes_def)

text \<open>Sending \<open>k\<close> copies of the escape character.\<close>

lemma send_copies:
  assumes "CHAR_FD_VALID fd" "takes_all net sent"
  shows "sent ((send_byte net fd e ^^ k) n) = sent n @ replicate k e"
  using assms by (induction k arbitrary: n) (simp_all add: send_byte_def replicate_append_same takes_all_def)

text \<open>One byte: held back, or sent behind the ones that were.\<close>

lemma data_byte_cases:
  assumes "CHAR_FD_VALID (mo_sock d)" "takes_all net sent"
    and "modem_data_byte net t b (d, n) = (d', n')"
  shows "b = mo_s d ! 2 \<and> mo_pluses d' = mo_pluses d + 1 \<and> mo_pluses d < 3 \<and> sent n' = sent n \<or>
    b = mo_s d ! 2 \<and> 3 \<le> mo_pluses d \<and> mo_pluses d' = 0 \<and> sent n' = sent n @ replicate (mo_pluses d + 2) b \<or>
    (b \<noteq> mo_s d ! 2 \<or> mo_pluses d = 0) \<and> mo_pluses d' = 0 \<and> sent n' = sent n @ replicate (mo_pluses d) (mo_s d ! 2) @ [b]"
proof -
  have one: "sent (send_byte net (mo_sock d) b m) = sent m @ [b]" for m using assms(1,2) by (simp add: send_byte_def takes_all_def)
  have r: "replicate (Suc k) b @ [b] = replicate (k + 2) b" for k by (simp add: replicate_append_same)
  show ?thesis
  proof (cases "b = mo_s d ! 2 \<and> (0 < mo_pluses d \<or> modem_guard d \<le> t - mo_last_data d)")
    case True
    then show ?thesis
      using assms(3) one send_copies [OF assms(1,2), where e = b and k = "Suc (mo_pluses d)" and n = n] r [of "mo_pluses d"]
      by (cases "mo_pluses d < 3") (auto simp: modem_data_byte_def Let_def simp del: funpow.simps replicate.simps)
  next
    case False
    then show ?thesis
      using assms(3) one send_copies [OF assms(1,2), where e = "mo_s d ! 2" and k = "mo_pluses d" and n = n]
      by (auto simp: modem_data_byte_def Let_def)
  qed
qed

lemma data_sent:
  assumes "takes_all net sent"
  shows "CHAR_FD_VALID (mo_sock d) \<Longrightarrow> mo_online d \<Longrightarrow> \<not> sublist (replicate 4 (mo_s d ! 2)) (replicate (mo_pluses d) (mo_s d ! 2) @ map snd ws) \<Longrightarrow>
    \<exists>d' n'. modem_run net (writes ws) (d, n) = Some ([], d', n') \<and> mo_online d' \<and> mo_s d' = mo_s d \<and> mo_sock d' = mo_sock d \<and>
      sent n' @ replicate (mo_pluses d') (mo_s d ! 2) = sent n @ replicate (mo_pluses d) (mo_s d ! 2) @ map snd ws"
proof (induction ws arbitrary: d n)
  case Nil
  then show ?case by (simp add: writes_def)
next
  case (Cons w ws)
  obtain t b where w: "w = (t, b)" by (cases w)
  let ?e = "mo_s d ! 2"
  obtain d1 n1 where d1: "modem_data_byte net t b (d, n) = (d1, n1)" by (cases "modem_data_byte net t b (d, n)")
  have f: "mo_online d1 = mo_online d" "mo_s d1 = mo_s d" "mo_sock d1 = mo_sock d"
    by (subst data_byte_frame [OF d1], simp)+
  have none: "\<not> sublist (replicate 4 ?e) (replicate (mo_pluses d) ?e @ b # map snd ws)" using Cons.prems(3) by (simp add: w)
  have rest: "\<not> sublist (replicate 4 ?e) (replicate (mo_pluses d1) ?e @ map snd ws) \<and>
      sent n1 @ replicate (mo_pluses d1) ?e = sent n @ replicate (mo_pluses d) ?e @ [b]"
    using data_byte_cases [OF Cons.prems(1) assms d1]
  proof (elim disjE conjE)
    assume "b = ?e" "mo_pluses d1 = mo_pluses d + 1" "sent n1 = sent n"
    then show ?thesis using none by (simp add: replicate_app_Cons_same replicate_append_same)
  next
    assume b: "b = ?e" "3 \<le> mo_pluses d"
    then have "mo_pluses d + 1 = mo_pluses d - 3 + 4" by simp
    then have "replicate (mo_pluses d + 1) ?e = replicate (mo_pluses d - 3) ?e @ replicate 4 ?e" by (simp only: replicate_add)
    moreover have "replicate (mo_pluses d) ?e @ b # map snd ws = replicate (mo_pluses d + 1) ?e @ map snd ws"
      using b(1) by (simp add: replicate_app_Cons_same)
    ultimately have "replicate (mo_pluses d) ?e @ b # map snd ws = replicate (mo_pluses d - 3) ?e @ replicate 4 ?e @ map snd ws"
      by simp
    then show ?thesis using none by (metis sublist_appendI)
  next
    assume p: "mo_pluses d1 = 0" "sent n1 = sent n @ replicate (mo_pluses d) ?e @ [b]" "b \<noteq> ?e"
    have "sublist (map snd ws) (replicate (mo_pluses d) ?e @ b # map snd ws)"
      using sublist_append_leftI [of "map snd ws" "replicate (mo_pluses d) ?e @ [b]"] by simp
    then have "\<not> sublist (replicate 4 ?e) (map snd ws)" using none by (blast intro: sublist_order.order.trans)
    then have "\<not> sublist (replicate 4 ?e) (replicate (mo_pluses d1) ?e @ map snd ws)" using p(1) by simp
    then show ?thesis using p by simp
  next
    assume p: "mo_pluses d = 0" "mo_pluses d1 = 0" "sent n1 = sent n @ replicate (mo_pluses d) ?e @ [b]"
    then show ?thesis using none by (simp add: sublist_Cons_right)
  qed
  obtain d' n' where "modem_run net (writes ws) (d1, n1) = Some ([], d', n')" "mo_online d'" "mo_s d' = mo_s d1" "mo_sock d' = mo_sock d1"
      "sent n' @ replicate (mo_pluses d') ?e = sent n1 @ replicate (mo_pluses d1) ?e @ map snd ws"
    using Cons.IH [of d1 n1] Cons.prems(1,2) rest by (auto simp: f)
  moreover have "sent n1 @ replicate (mo_pluses d1) ?e @ map snd ws = sent n @ replicate (mo_pluses d) ?e @ map snd (w # ws)"
    using rest by (simp add: w)
  ultimately show ?case using run_writes_Cons [of "(d, n)" net t b ws] Cons.prems(2) d1 by (simp add: w f)
qed

text \<open>
  C38. Data reaches the far end as it was written: in data mode, whatever the bytes and
  whenever they are written, the socket has been handed all of them, in order and once, but
  for at most three escape characters at the end that are held back; provided no more than
  three escape characters follow one another and the socket takes what it is given.
\<close>

theorem data_sent_verbatim:
  assumes "modem_ok d" "mo_online d" "\<not> sublist (replicate 4 (mo_s d ! 2)) (replicate (mo_pluses d) (mo_s d ! 2) @ map snd ws)"
    and "takes_all net sent"
  shows "\<exists>d' n'. modem_run net (writes ws) (d, n) = Some ([], d', n') \<and> mo_online d' \<and> mo_pluses d' \<le> 3 \<and>
    sent n' @ replicate (mo_pluses d') (mo_s d ! 2) = sent n @ replicate (mo_pluses d) (mo_s d ! 2) @ map snd ws"
proof -
  have "CHAR_FD_VALID (mo_sock d)" using assms(1,2) by (simp add: modem_ok_def mo_line_ok_def on_line_def)
  then obtain d' n' where r: "modem_run net (writes ws) (d, n) = Some ([], d', n')" "mo_online d'"
      "sent n' @ replicate (mo_pluses d') (mo_s d ! 2) = sent n @ replicate (mo_pluses d) (mo_s d ! 2) @ map snd ws"
    using data_sent [of net sent d ws n] assms(2-4) by auto
  have "mo_pluses d' \<le> 3" using run_ok_modem [OF r(1)] assms(1) by (simp add: modem_ok_def mo_line_ok_def)
  then show ?thesis using r by blast
qed

text \<open>
  Four escape characters in a row are sent as five: the fourth flushes all four that
  were counted and is then sent once more.
\<close>

theorem four_escapes_sent_as_five:
  assumes "modem_ok d" "mo_online d" "mo_pluses d = 0" "modem_guard d \<le> t1 - mo_last_data d" "e = mo_s d ! 2"
    and "takes_all net sent"
  shows "\<exists>d' n'. modem_run net (writes [(t1, e), (t2, e), (t3, e), (t4, e)]) (d, n) = Some ([], d', n') \<and>
    sent n' = sent n @ [e, e, e, e, e]"
proof -
  have fd: "CHAR_FD_VALID (mo_sock d)" using assms(1,2) by (simp add: modem_ok_def mo_line_ok_def on_line_def)
  define d1 where "d1 = d\<lparr>mo_pluses := 1, mo_last_data := t1\<rparr>"
  define d2 where "d2 = d\<lparr>mo_pluses := 2, mo_last_data := t2\<rparr>"
  define d3 where "d3 = d\<lparr>mo_pluses := 3, mo_last_data := t3\<rparr>"
  have step: "modem_data_byte net t1 e (d, n) = (d1, n)" "modem_data_byte net t2 e (d1, n) = (d2, n)"
    "modem_data_byte net t3 e (d2, n) = (d3, n)"
    using assms(3-5) by (simp_all add: modem_data_byte_def d1_def d2_def d3_def)
  have "mo_online d1" "mo_online d2" "mo_online d3" using assms(2) by (simp_all add: d1_def d2_def d3_def)
  then have "modem_run net (writes [(t1, e), (t2, e), (t3, e), (t4, e)]) (d, n) = modem_run net (writes []) (modem_data_byte net t4 e (d3, n))"
    using assms(2) by (simp add: run_writes_Cons step)
  moreover obtain d' n' where d': "modem_data_byte net t4 e (d3, n) = (d', n')" by (cases "modem_data_byte net t4 e (d3, n)")
  moreover have "sent n' = sent n @ [e, e, e, e, e]"
    using data_byte_cases [OF _ assms(6) d'] fd assms(5) by (auto simp: d3_def numeral_eq_Suc)
  ultimately show ?thesis by (simp add: writes_def)
qed

section \<open>Back to commands\<close>

text \<open>
  C39. The escape sequence: three escape characters after a pause of the guard time, and
  silence of the guard time after them, bring the modem back to commands with an OK; nothing
  of them is sent, the call is kept, and ATO goes back to it.
\<close>

theorem escape_returns_to_commands:
  assumes "modem_ok d" "mo_online d" "mo_pluses d = 0" "modem_guard d \<le> t1 - mo_last_data d" "e = mo_s d ! 2"
    and "modem_guard d \<le> t4 - t3" "length (res_bytes RES_OK d) \<le> mo_room d"
  shows "\<exists>d3 d4. modem_run net (writes [(t1, e), (t2, e), (t3, e)]) (d, n) = Some ([], d3, n) \<and>
    modem_read net t4 k (d3, n) = (take k (mo_items d @ res_bytes RES_OK d), d4, n) \<and>
    mo_items d4 = drop k (mo_items d @ res_bytes RES_OK d) \<and> \<not> mo_online d4 \<and> mo_state d4 = MODEM_ST_ONLINE \<and> mo_sock d4 = mo_sock d \<and>
    modem_execute net t5 (bytes ''O'') (d4, n) = Some (RES_NONE, d4\<lparr>mo_online := True\<rparr>, n)"
proof -
  have on: "mo_state d = MODEM_ST_ONLINE" using assms(1,2) by (simp add: modem_ok_def mo_line_ok_def)
  define d1 where "d1 = d\<lparr>mo_pluses := 1, mo_last_data := t1\<rparr>"
  define d2 where "d2 = d\<lparr>mo_pluses := 2, mo_last_data := t2\<rparr>"
  define d3 where "d3 = d\<lparr>mo_pluses := 3, mo_last_data := t3\<rparr>"
  have step: "modem_data_byte net t1 e (d, n) = (d1, n)" "modem_data_byte net t2 e (d1, n) = (d2, n)"
    "modem_data_byte net t3 e (d2, n) = (d3, n)"
    using assms(3-5) by (simp_all add: modem_data_byte_def d1_def d2_def d3_def)
  have "mo_online d1" "mo_online d2" using assms(2) by (simp_all add: d1_def d2_def)
  then have w: "modem_run net (writes [(t1, e), (t2, e), (t3, e)]) (d, n) = Some ([], d3, n)"
    using assms(2) by (simp add: run_writes_Cons step) (simp add: writes_def)
  have ok: "modem_ok d3" using run_ok_modem [OF w] assms(1) by simp
  define c where "c = d3\<lparr>mo_pluses := 0, mo_online := False\<rparr>"
  have p: "modem_poll_line net t4 (d3, n) = (d3, n)" using on by (simp add: modem_poll_line_def d3_def)
  have x: "modem_escape t4 d3 = modem_result RES_OK c"
    using assms(2,6) by (simp add: modem_escape_def d3_def c_def modem_guard_def)
  have off: "\<not> mo_online (modem_result RES_OK c)" by (simp add: result_str c_def)
  have b: "before_drain net t4 (d3, n) = (modem_result RES_OK c, n)"
    using off_line_receive [of "(modem_result RES_OK c, n)" net] off by (simp add: before_drain_def p set_dev_def x)
  have c: "mo_ring_ok c" "mo_items c = mo_items d" "mo_room c = mo_room d" "res_bytes RES_OK c = res_bytes RES_OK d"
    using assms(1) by (simp_all add: c_def d3_def modem_ok_def mo_ring_ok_def mo_items_def mo_room_def modem_used_def res_bytes_def
      framed_def res_text_def Let_def)
  then have items: "mo_items (modem_result RES_OK c) = mo_items d @ res_bytes RES_OK d"
    using out_str_items [OF c(1)] assms(7) by (simp add: result_str)
  define d4 where "d4 = snd (modem_drain k (modem_result RES_OK c))"
  have "modem_read net t4 k (d3, n) = (take k (mo_items d @ res_bytes RES_OK d), d4, n)"
    "mo_items d4 = drop k (mo_items d @ res_bytes RES_OK d)"
    using read_drain(2,3) [OF _ b, of k] ok items by (simp_all add: d4_def)
  moreover have f: "\<not> mo_online d4" "mo_state d4 = MODEM_ST_ONLINE" "mo_sock d4 = mo_sock d"
    using on by (simp_all add: d4_def result_str c_def d3_def)
  moreover have "modem_execute net t5 (bytes ''O'') (d4, n) = Some (RES_NONE, d4\<lparr>mo_online := True\<rparr>, n)"
    using f(2) by (simp add: bytes_def exec_letter_def plain_set_def toupper_def islower_def set_dev_def modem_arg_def skip_spaces_def)
  ultimately show ?thesis using w by blast
qed

section \<open>From the far end to the terminal\<close>

text \<open>A carried call, with no escape sequence under way.\<close>

definition carried :: "modem \<Rightarrow> bool" where
  "carried d \<longleftrightarrow> modem_ok d \<and> mo_online d \<and> mo_pluses d < 3"

lemma carried_line: "carried d \<Longrightarrow> mo_state d = MODEM_ST_ONLINE \<and> CHAR_FD_VALID (mo_sock d)"
  by (simp add: carried_def modem_ok_def mo_line_ok_def on_line_def)

lemma carried_before: "carried d \<Longrightarrow> before_drain net t (d, n) = modem_receive net (d, n)"
  using carried_line [of d] by (simp add: before_drain_def modem_poll_line_def set_dev_def modem_escape_def carried_def)

lemma read_carried:
  fixes incoming :: "'n \<Rightarrow> u8 list"
  assumes "carried d" "0 < mo_room d" "0 < k"
    and "hands_over net incoming"
    and "modem_read net t k (d, n) = (out, d', n')"
  shows "carried d' \<and> 0 < mo_room d' \<and> out @ mo_items d' @ incoming n' = mo_items d @ incoming n"
proof -
  let ?room = "min (MODEM_OUT_SIZE - 1 - modem_used d) 256"
  have room: "0 < ?room" "?room \<le> mo_room d" using assms(2) by (simp_all add: mo_room_def)
  obtain r m where r: "plat_netsocket_receive net (mo_sock d) ?room n = (r, m)" by fastforce
  have ring: "mo_ring_ok d" using assms(1) by (simp add: carried_def modem_ok_def)
  have law: "case (r, m) of (Got bs, m') \<Rightarrow> length bs \<le> ?room \<and> incoming n = bs @ incoming m'
     | (No_Data, m') \<Rightarrow> incoming m' = incoming n | _ \<Rightarrow> False"
    using assms(4) [unfolded hands_over_def, THEN spec [of _ "mo_sock d"], THEN spec [of _ ?room], THEN spec [of _ n]] unfolding r .
  define bs where "bs = (case r of Got xs \<Rightarrow> xs | _ \<Rightarrow> [])"
  have bs: "length bs \<le> mo_room d" "incoming n = bs @ incoming m"
    using law room(2) by (auto simp: bs_def split: received.splits)
  have got: "modem_receive net (d, n) = (modem_out_str bs d, m)"
    using law r room(1) assms(1) carried_line [OF assms(1)]
    by (auto simp: modem_receive_def Let_def carried_def bs_def modem_out_str_def split: received.splits)
  let ?e = "modem_out_str bs d"
  have e: "mo_ring_ok ?e" "mo_items ?e = mo_items d @ bs" using out_str_block [OF ring, of bs] bs(1) by simp_all
  have b: "before_drain net t (d, n) = (?e, m)" using carried_before [OF assms(1), of net t n] got by simp
  have ok: "modem_ok d" using assms(1) by (simp add: carried_def)
  have rd: "out = take k (mo_items ?e)" "d' = snd (modem_drain k ?e)" "n' = m" "mo_items d' = drop k (mo_items ?e)"
    using read_drain(2,3) [OF _ b, of k] ok assms(5) by simp_all
  have "modem_ok d'" using read_ok [of "(d, n)" net t k] ok assms(5) by simp
  moreover have "0 < mo_room d'"
    using drain_items [OF e(1), of k] out_str_room [OF ring, of bs] bs(1) assms(2,3) e(2) mo_ring_facts(1) [OF e(1)]
    by (cases "mo_items ?e") (auto simp: rd(2))
  moreover have "out @ mo_items d' = mo_items d @ bs" using e(2) by (simp only: rd(1,4) append_take_drop_id)
  then have "out @ mo_items d' @ incoming n' = mo_items d @ incoming n" using bs(2) rd(3) by (metis append.assoc)
  ultimately show ?thesis using assms(1) by (simp add: carried_def) (simp add: rd(2))
qed

lemma reads_total: "\<exists>out s'. modem_run net (reads rs) s = Some (out, s')"
proof (induction rs arbitrary: s)
  case (Cons r rs)
  obtain t k where r: "r = (t, k)" by (cases r)
  obtain rest s' where "modem_run net (reads rs) (snd (modem_read net t k s)) = Some (rest, s')" using Cons.IH by blast
  then have "modem_run net (reads (r # rs)) s = Some (fst (modem_read net t k s) @ rest, s')"
    unfolding r run_reads_Cons by blast
  then show ?case by blast
qed (simp add: reads_def)

lemma reads_carried:
  fixes incoming :: "'n \<Rightarrow> u8 list"
  assumes "hands_over net incoming"
  shows "carried d \<Longrightarrow> 0 < mo_room d \<Longrightarrow> \<forall>(t, k) \<in> set rs. 0 < k \<Longrightarrow> modem_run net (reads rs) (d, n) = Some (out, d', n') \<Longrightarrow>
    carried d' \<and> out @ mo_items d' @ incoming n' = mo_items d @ incoming n"
proof (induction rs arbitrary: d n out)
  case Nil
  then show ?case by (simp add: reads_def)
next
  case (Cons r rs)
  obtain t k where r: "r = (t, k)" by (cases r)
  obtain o1 d1 n1 where d1: "modem_read net t k (d, n) = (o1, d1, n1)" by (metis prod.collapse)
  obtain o2 where o2: "out = o1 @ o2" "modem_run net (reads rs) (d1, n1) = Some (o2, d', n')"
    using Cons.prems(4) unfolding r run_reads_Cons d1 by auto
  have k: "0 < k" using Cons.prems(3) r by simp
  have s: "carried d1" "0 < mo_room d1" "o1 @ mo_items d1 @ incoming n1 = mo_items d @ incoming n"
    using read_carried [OF Cons.prems(1,2) k assms d1] by simp_all
  have "\<forall>(t, k) \<in> set rs. 0 < k" using Cons.prems(3) by simp
  then have "carried d'" "o2 @ mo_items d' @ incoming n' = mo_items d1 @ incoming n1" using Cons.IH [OF s(1,2) _ o2(2)] by simp_all
  then show ?case using s(3) o2(1) by (metis append.assoc)
qed

text \<open>
  C40. Nothing the far end sends is lost: in a carried call whose ring is not full, however
  much arrives at once and however few bytes each read takes, what the terminal has read,
  what waits in the ring and what is still in the socket are, in this order, what waited in
  the ring and in the socket before; the modem stays in data mode while the far end stays.
\<close>

theorem received_in_order:
  fixes incoming :: "'n \<Rightarrow> u8 list"
  assumes "carried d" "0 < mo_room d" "\<forall>(t, k) \<in> set rs. 0 < k"
    and "hands_over net incoming"
    and "modem_run net (reads rs) (d, n) = Some (out, d', n')"
  shows "out @ mo_items d' @ incoming n' = mo_items d @ incoming n \<and> mo_online d' \<and> mo_state d' = MODEM_ST_ONLINE"
  using reads_carried [OF assms(4,1-3,5)] carried_line [of d'] by (simp add: carried_def)

text \<open>
  A full ring drops the call: with no room nothing is asked of the socket and the count
  stays zero, which the test that follows takes for the far end having closed.
\<close>

theorem full_ring_drops_call:
  assumes "carried d" "mo_room d = 0"
  shows "\<exists>d'. modem_read net t k (d, n) = (take k (mo_items d), d', plat_netsocket_close net (mo_sock d) n) \<and>
    mo_state d' = MODEM_ST_IDLE \<and> mo_sock d' = - 1 \<and> \<not> mo_online d'"
proof -
  have on: "mo_state d = MODEM_ST_ONLINE" "CHAR_FD_VALID (mo_sock d)" "modem_ok d" "mo_online d" "mo_ring_ok d"
    using carried_line [OF assms(1)] assms(1) by (simp_all add: carried_def modem_ok_def)
  define h where "h = d\<lparr>mo_snd := modem_sound_event MODEM_SOUND_HANGUP [] 0 (mo_snd d), mo_sock := - 1, mo_state := MODEM_ST_IDLE,
    mo_online := False, mo_pluses := 0\<rparr>"
  have "modem_receive net (d, n) = (modem_result RES_NO_CARRIER h, plat_netsocket_close net (mo_sock d) n)"
    using on assms(2) by (simp add: modem_receive_def mo_room_def modem_give_up_def modem_hangup_def h_def Let_def)
  then have b: "before_drain net t (d, n) = (modem_result RES_NO_CARRIER h, plat_netsocket_close net (mo_sock d) n)"
    using carried_before [OF assms(1), of net t n] by simp
  have h: "mo_ring_ok h" "mo_room h = 0" "mo_items h = mo_items d"
    using on(5) assms(2) by (simp_all add: h_def mo_ring_ok_def mo_room_def mo_items_def modem_used_def)
  then have "mo_items (modem_result RES_NO_CARRIER h) = mo_items d" using out_str_items [OF h(1)] by (simp add: result_str)
  then show ?thesis
    using read_drain(3) [OF _ b, of k] on(3) by (simp add: result_str) (simp add: h_def)
qed

section \<open>Instances\<close>

text \<open>A carried call on the network of the examples.\<close>

definition in_call :: modem where
  "in_call = (new_modem 1 MODEM_LINE_TCP)\<lparr>mo_state := MODEM_ST_ONLINE, mo_online := True, mo_sock := 5\<rparr>"

lemma in_call_facts:
  "modem_ok in_call" "mo_online in_call" "mo_pluses in_call = 0" "mo_s in_call ! 2 = 0x2B" "carried in_call"
  "modem_guard in_call = 1000" "mo_last_data in_call = 0" "mo_items in_call = []" "mo_room in_call = 4095"
  "res_bytes RES_OK in_call = [0x0D, 0x0A] @ bytes ''OK'' @ [0x0D, 0x0A]"
proof -
  let ?d = "new_modem 1 MODEM_LINE_TCP"
  have z: "mo_pluses ?d = 0" "mo_last_data ?d = 0" "modem_used ?d = 0"
    by (simp_all add: new_modem_def modem_init_def modem_load_defaults_def modem_used_def Let_def)
  show ok: "modem_ok in_call"
    using new_modem_prompt [of 1 MODEM_LINE_TCP] by (simp add: in_call_def at_prompt_def modem_ok_defs on_line_def CHAR_FD_VALID_def)
  show "mo_online in_call" "mo_pluses in_call = 0" "mo_s in_call ! 2 = 0x2B" "modem_guard in_call = 1000" "mo_last_data in_call = 0"
    using z by (simp_all add: in_call_def modem_s_defaults_def modem_guard_def)
  then show "carried in_call" using ok by (simp add: carried_def)
  show "mo_items in_call = []" "mo_room in_call = 4095"
    using z(3) by (simp_all add: in_call_def mo_items_def mo_room_def modem_used_def MODEM_OUT_SIZE_def)
  show "res_bytes RES_OK in_call = [0x0D, 0x0A] @ bytes ''OK'' @ [0x0D, 0x0A]"
    by (simp add: in_call_def res_bytes_def res_shown_def res_text_def framed_def modem_s_defaults_def)
qed

lemma wire_net_takes: "takes_all wire_net (\<lambda>n. n)" "hands_over wire_net (\<lambda>n. [])"
  by (simp_all add: takes_all_def hands_over_def wire_net_def)

theorem data_sent_verbatim_witness:
  "\<exists>d' n'. modem_run wire_net (writes [(5, 0x7E), (6, 0x2B), (9, 0x2B), (10, 0x7E)]) (in_call, []) = Some ([], d', n') \<and>
     n' @ replicate (mo_pluses d') 0x2B = [0x7E, 0x2B, 0x2B, 0x7E]"
proof -
  have "\<not> sublist (replicate 4 0x2B) [0x7E, 0x2B, 0x2B, 0x7E :: u8]"
  proof -
    have "replicate 4 (0x2B :: u8) = [0x2B, 0x2B, 0x2B, 0x2B]" by code_simp
    then show ?thesis by (simp add: sublist_Cons_right)
  qed
  then show ?thesis
    using data_sent_verbatim [OF in_call_facts(1,2) _ wire_net_takes(1), of "[(5, 0x7E), (6, 0x2B), (9, 0x2B), (10, 0x7E)]" "[]"]
    by (auto simp: in_call_facts(3,4))
qed

theorem four_escapes_sent_as_five_witness:
  "\<exists>d' n'. modem_run wire_net (writes [(1000, 0x2B), (1001, 0x2B), (1002, 0x2B), (1003, 0x2B)]) (in_call, []) = Some ([], d', n') \<and>
     n' = [0x2B, 0x2B, 0x2B, 0x2B, 0x2B]"
  using four_escapes_sent_as_five [OF in_call_facts(1-3) _ in_call_facts(4) [symmetric] wire_net_takes(1), of 1000 1001 1002 1003 "[]"]
  by (simp add: in_call_facts(6,7))

theorem escape_returns_to_commands_witness:
  "\<exists>d3 d4. modem_run wire_net (writes [(1000, 0x2B), (1500, 0x2B), (2000, 0x2B)]) (in_call, []) = Some ([], d3, []) \<and>
     modem_read wire_net 3000 100 (d3, []) = ([0x0D, 0x0A] @ bytes ''OK'' @ [0x0D, 0x0A], d4, []) \<and> \<not> mo_online d4"
proof -
  have "length (res_bytes RES_OK in_call) \<le> mo_room in_call" by (simp add: in_call_facts bytes_def)
  then show ?thesis
    using escape_returns_to_commands [OF in_call_facts(1-3) _ in_call_facts(4) [symmetric], of 1000 3000 2000 wire_net 1500 "[]" 100 4000]
    by (auto simp: in_call_facts(6-8,10) bytes_def)
qed

theorem received_in_order_witness:
  "\<exists>out d' n'. modem_run wire_net (reads [(7, 1), (8, 1)]) (in_call, [1]) = Some (out, d', n') \<and> out @ mo_items d' = [] \<and> mo_online d'"
proof -
  obtain out d' n' where r: "modem_run wire_net (reads [(7, 1), (8, 1)]) (in_call, [1]) = Some (out, d', n')"
    using reads_total [of wire_net "[(7, 1), (8, 1)]" "(in_call, [1])"] by auto
  then show ?thesis
    using received_in_order [OF in_call_facts(5) _ _ wire_net_takes(2) r] by (simp add: in_call_facts(8,9))
qed

theorem full_ring_drops_call_witness:
  "\<exists>d d'. carried d \<and> modem_read wire_net 9 1 (d, []) = (take 1 (mo_items d), d', []) \<and> mo_state d' = MODEM_ST_IDLE"
proof -
  define d where "d = modem_out_str (replicate 5000 0) in_call"
  have r: "mo_ring_ok in_call" using in_call_facts(1) by (simp add: modem_ok_def)
  have "mo_room d = 0" using out_str_room [OF r] by (simp add: d_def in_call_facts(9))
  moreover have "carried d"
    using said_ok [OF in_call_facts(1), of "replicate 5000 0"] in_call_facts(5) by (simp add: d_def carried_def)
  ultimately show ?thesis
    using full_ring_drops_call [of d wire_net 9 1 "[]"] by (auto simp: wire_net_def)
qed

end
