(* ===== verification/Modem_Schedule.thy ===== *)
theory Modem_Schedule
  imports Modem_Line
begin

text \<open>
  The speaker and the modem keep the same time: the dial program that the sound thread
  plays lasts exactly as long as the modem waits before the first ring.
\<close>

section \<open>The program of a number\<close>

type_synonym plan = "(step_kind \<times> u8 \<times> u32) list"

abbreviation plan_ms :: "plan \<Rightarrow> nat" where
  "plan_ms xs \<equiv> \<Sum>(k, c, ms) \<leftarrow> xs. unat ms"

fun number_plan :: "u8 list \<Rightarrow> u32 \<Rightarrow> bool \<Rightarrow> plan" where
  "number_plan [] s8 pulse = []"
| "number_plan (c # cs) s8 pulse =
     (if is_tone c then number_plan cs s8 False
      else if is_pulse c then number_plan cs s8 True
      else (if c = 0x2C then [(ST_TONE_DIAL, 0, s8 * 1000)]
            else if is_wait c then [(ST_TONE_DIAL, 0, MS_WAIT_W)]
            else if isdigit c then
              (if pulse then concat (replicate (pulses_of c) [(ST_PULSE, 1, MS_PULSE_BRK), (ST_SILENCE, 0, MS_PULSE_MAKE)])
                 @ [(ST_SILENCE, 0, MS_PULSE_GAP)]
               else [(ST_DTMF, c, MS_DTMF_ON), (ST_SILENCE, 0, MS_DTMF_OFF)])
            else if \<not> pulse \<and> is_key c then [(ST_DTMF, c, MS_DTMF_ON), (ST_SILENCE, 0, MS_DTMF_OFF)]
            else []) @ number_plan cs s8 pulse)"

definition dial_plan :: "u8 list \<Rightarrow> u32 \<Rightarrow> bool \<Rightarrow> plan" where
  "dial_plan number s8 pulse = (ST_TONE_DIAL, 0, MS_DIALTONE) # number_plan number s8 pulse @ [(ST_SILENCE, 0, MS_POSTDIAL)]"

text \<open>Building is adding the plan step by step.\<close>

definition add_plan :: "plan \<Rightarrow> modem_sound \<Rightarrow> modem_sound" where
  "add_plan xs s = fold (\<lambda>(k, c, ms). add_step k c ms) xs s"

lemma add_plan_simps [simp]:
  "add_plan [] s = s" "add_plan ((k, c, ms) # xs) s = add_plan xs (add_step k c ms s)"
  "add_plan (xs @ ys) s = add_plan ys (add_plan xs s)"
  by (simp_all add: add_plan_def)

lemma add_pulses: "(add_pulse ^^ m) s = add_plan (concat (replicate m [(ST_PULSE, 1, MS_PULSE_BRK), (ST_SILENCE, 0, MS_PULSE_MAKE)])) s"
  by (induction m arbitrary: s) (simp_all add: funpow_Suc_right add_pulse_def del: funpow.simps(2))

lemma build_loop_plan: "build_loop cs s8 pulse s = add_plan (number_plan cs s8 pulse) s"
  by (induction cs s8 pulse s rule: build_loop.induct) (simp_all add: add_pulses)

lemma build_dial_plan:
  "build_dial number s8 pulse s = (add_plan (dial_plan number s8 pulse) (s\<lparr>ms_nsteps := 0\<rparr>))\<lparr>ms_step := 0, ms_step_t0 := 0\<rparr>"
  by (simp add: build_dial_def dial_plan_def build_loop_plan Let_def)

text \<open>The table takes the first 256 steps and nothing else of the player moves.\<close>

definition table :: "modem_sound \<Rightarrow> dial_step list" where
  "table s = take (ms_nsteps s) (ms_steps s)"

definition table_ok :: "modem_sound \<Rightarrow> bool" where
  "table_ok s \<longleftrightarrow> length (ms_steps s) = MAX_STEPS \<and> ms_nsteps s \<le> MAX_STEPS"

lemma add_plan_table:
  assumes "table_ok s"
  shows "table_ok (add_plan xs s) \<and>
    table (add_plan xs s) = take MAX_STEPS (table s @ map (\<lambda>(k, c, ms). \<lparr>st_kind = k, st_digit = c, st_samples = ms_to_samples s ms\<rparr>) xs) \<and>
    (\<exists>st k. add_plan xs s = s\<lparr>ms_steps := st, ms_nsteps := k\<rparr>)"
  using assms
proof (induction xs arbitrary: s)
  case Nil
  have "s = s\<lparr>ms_steps := ms_steps s, ms_nsteps := ms_nsteps s\<rparr>" by simp
  then have "\<exists>st k. s = s\<lparr>ms_steps := st, ms_nsteps := k\<rparr>" by (intro exI)
  then show ?case using Nil by (simp add: table_def table_ok_def)
next
  case (Cons x xs)
  obtain k c ms where x: "x = (k, c, ms)" by (cases x)
  let ?s = "add_step k c ms s" and ?e = "\<lparr>st_kind = k, st_digit = c, st_samples = ms_to_samples s ms\<rparr>"
  have ok: "table_ok ?s" and r: "ms_rate ?s = ms_rate s" using Cons.prems by (auto simp: add_step_def table_ok_def)
  have t: "table ?s = take MAX_STEPS (table s @ [?e])"
    using Cons.prems by (auto simp: add_step_def table_def table_ok_def take_Suc_conv_app_nth)
  have full: "take MAX_STEPS (take MAX_STEPS (table s @ [?e]) @ ys) = take MAX_STEPS (table s @ ?e # ys)" for ys
    by (auto simp: min_def take_Cons')
  have m: "ms_to_samples ?s = ms_to_samples s" by (simp add: fun_eq_iff ms_to_samples_def r)
  have "\<exists>st k. add_plan xs ?s = s\<lparr>ms_steps := st, ms_nsteps := k\<rparr>"
    using Cons.IH [OF ok] by (auto simp: add_step_def split: if_splits)
  then show ?case
    using Cons.IH [OF ok] unfolding x add_plan_simps t m full by (simp del: take_append)
qed

section \<open>How long it takes\<close>

text \<open>The schedule is the sum of the plan, and no plan is long enough to wrap around.\<close>

lemma pulses_ms: "plan_ms (concat (replicate m [(ST_PULSE, 1, MS_PULSE_BRK), (ST_SILENCE, 0, MS_PULSE_MAKE)])) = m * 100"
  by (induction m) (simp_all add: ms_defs)

lemma dial_loop_plan: "dial_loop cs s8 pulse ms = ms + of_nat (plan_ms (number_plan cs s8 pulse))"
  by (induction cs s8 pulse ms rule: dial_loop.induct)
    (simp_all add: pulses_ms, simp_all add: ms_defs algebra_simps)

lemma dial_ms_plan: "modem_sound_dial_ms number s8 pulse = of_nat (plan_ms (dial_plan number s8 pulse))"
  by (simp add: modem_sound_dial_ms_def dial_plan_def dial_loop_plan)

lemma pulses_of_digit: "isdigit c \<Longrightarrow> pulses_of c \<le> 10"
  by (auto simp: isdigit_def pulses_of_def word_le_nat_alt)

lemma comma_ms:
  assumes "(s8 :: u32) < 256"
  shows "unat (s8 * 1000) = unat s8 * 1000"
proof -
  have "unat s8 < 256" using assms by (simp add: word_less_nat_alt)
  then show ?thesis by (simp add: unat_word_ariths)
qed

lemma number_plan_short:
  assumes "s8 < 256"
  shows "plan_ms (number_plan cs s8 pulse) \<le> 255000 * length cs"
proof (induction cs arbitrary: pulse)
  case (Cons c cs)
  have "unat (s8 * 1000) \<le> 255000" using comma_ms [OF assms] assms by (simp add: word_less_nat_alt)
  moreover have "pulses_of c * 100 + 700 \<le> 255000" if "isdigit c" using pulses_of_digit [OF that] by simp
  ultimately show ?case using Cons [of True] Cons [of False] by (auto simp: pulses_ms) (simp_all add: ms_defs)
qed simp

section \<open>Playing it\<close>

abbreviation played :: "int \<Rightarrow> nat \<Rightarrow> modem_sound \<Rightarrow> modem_sound" where
  "played mode n s \<equiv> ((\<lambda>s. snd (sound_sample mode s)) ^^ n) s"

lemma samples_played:
  "sound_samples n mode s = (map (\<lambda>j. fst (sound_sample mode (played mode j s))) [0..<n], played mode n s)"
proof (induction n arbitrary: s)
  case (Suc n)
  have "[0..<Suc n] = 0 # map Suc [0..<n]" by (simp add: upt_conv_Cons map_Suc_upt del: upt_Suc)
  then show ?case by (simp add: Suc case_prod_beta funpow_Suc_right del: upt_Suc funpow.simps(2))
qed simp

definition step_len :: "modem_sound \<Rightarrow> nat \<Rightarrow> nat" where
  "step_len d i = unat (st_samples (ms_steps d ! i))"

text \<open>The player is \<open>j\<close> samples into step \<open>i\<close> of the table of \<open>d\<close>.\<close>

definition playing :: "modem_sound \<Rightarrow> nat \<Rightarrow> nat \<Rightarrow> modem_sound \<Rightarrow> bool" where
  "playing d i j s \<longleftrightarrow> ms_phase s = PH_DIAL \<and> ms_steps s = ms_steps d \<and> ms_nsteps s = ms_nsteps d \<and>
     ms_step s = i \<and> ms_t s - ms_step_t0 s = of_nat j"

lemma sample_playing:
  assumes "playing d i j s" "i < ms_nsteps d" "j < step_len d i"
  shows "if Suc j = step_len d i then playing d (Suc i) 0 (snd (sound_sample mode s))
    else playing d i (Suc j) (snd (sound_sample mode s))"
proof -
  have "step_len d i < 2 ^ 32" unfolding step_len_def using unsigned_less [of "st_samples (ms_steps d ! i)"] by simp
  then have "unat (of_nat (Suc j) :: u32) = Suc j" using assms(3) by (simp add: unat_of_nat del: of_nat_Suc)
  then have e: "st_samples (ms_steps d ! i) \<le> 1 + of_nat j \<longleftrightarrow> step_len d i \<le> Suc j"
    by (simp add: word_le_nat_alt step_len_def)
  show ?thesis using assms by (auto simp: playing_def sound_sample_def Let_def e algebra_simps)
qed

lemma play_position:
  assumes "playing d 0 0 d" "\<forall>i < ms_nsteps d. 0 < step_len d i" "n \<le> (\<Sum>x < ms_nsteps d. step_len d x)"
  shows "\<exists>i j. playing d i j (played mode n d) \<and> n = (\<Sum>x < i. step_len d x) + j \<and>
    (i < ms_nsteps d \<and> j < step_len d i \<or> i = ms_nsteps d \<and> j = 0)"
  using assms(3)
proof (induction n)
  case 0
  then show ?case using assms(1,2) by (cases "ms_nsteps d = 0") auto
next
  case (Suc n)
  then obtain i j where p: "playing d i j (played mode n d)" "n = (\<Sum>x < i. step_len d x) + j"
      "i < ms_nsteps d" "j < step_len d i" by auto
  show ?case
  proof (cases "Suc j = step_len d i")
    case True
    then have "playing d (Suc i) 0 (played mode (Suc n) d)" using sample_playing [OF p(1,3,4), of mode] by simp
    moreover have "Suc n = (\<Sum>x < Suc i. step_len d x) + 0" using p(2) True by simp
    ultimately show ?thesis using p(3) assms(2) by (metis Suc_lessI)
  next
    case False
    then have "playing d i (Suc j) (played mode (Suc n) d)" using sample_playing [OF p(1,3,4), of mode] by simp
    then show ?thesis using p False by (metis Suc_lessI add_Suc_right)
  qed
qed

lemma play_through:
  assumes "playing d 0 0 d" "\<forall>i < ms_nsteps d. 0 < step_len d i" "whole = (\<Sum>x < ms_nsteps d. step_len d x)"
  shows "\<forall>n \<le> whole. ms_phase (played mode n d) = PH_DIAL" "ms_phase (played mode (Suc whole) d) = PH_RING"
proof -
  show "\<forall>n \<le> whole. ms_phase (played mode n d) = PH_DIAL"
    using play_position [OF assms(1,2)] assms(3) by (meson playing_def)
  obtain i j where p: "playing d i j (played mode whole d)" "whole = (\<Sum>x < i. step_len d x) + j"
      "i < ms_nsteps d \<and> j < step_len d i \<or> i = ms_nsteps d \<and> j = 0"
    using play_position [OF assms(1,2)] assms(3) by blast
  have "\<not> i < ms_nsteps d"
  proof
    assume "i < ms_nsteps d"
    then have "(\<Sum>x < Suc i. step_len d x) \<le> whole" unfolding assms(3) by (intro sum_mono2) auto
    then show False using p \<open>i < ms_nsteps d\<close> by simp
  qed
  then show "ms_phase (played mode (Suc whole) d) = PH_RING"
    using p by (simp add: playing_def sound_sample_def Let_def)
qed

section \<open>The modem and its speaker\<close>

text \<open>At a sample rate of \<open>k\<close> samples in a millisecond no step is rounded or wraps around.\<close>

lemma samples_of_ms:
  assumes "ms_rate s = 1000 * k" "k \<le> 192" "unat ms \<le> 255000"
  shows "unat (ms_to_samples s ms) = k * unat ms"
proof -
  have km: "k * unat ms \<le> 192 * 255000" using assms(2,3) by (intro mult_le_mono)
  have "unat (ucast ms :: u64) = unat ms" by (simp add: unsigned_ucast_eq take_bit_nat_eq_self [OF order.strict_trans [OF unsigned_less]])
  moreover have "unat (of_nat (1000 * k) :: u64) = 1000 * k" using assms(2) by (simp add: unat_of_nat del: of_nat_mult)
  ultimately have "unat (ucast ms * of_nat (1000 * k) :: u64) = unat ms * (1000 * k)"
    using km by (subst unat_mult_lem [THEN iffD1]) simp_all
  then have "unat ((ucast ms * of_nat (1000 * k) :: u64) div 1000) = unat ms * k" by (simp add: unat_div)
  then show ?thesis using km unfolding ms_to_samples_def assms(1) by (simp add: unsigned_ucast_eq take_bit_nat_eq_self mult.commute)
qed

lemma plan_range:
  assumes "0 < s8" "s8 < 256"
  shows "\<forall>x \<in> set (number_plan cs s8 pulse). 0 < unat (snd (snd x)) \<and> unat (snd (snd x)) \<le> 255000"
proof -
  have "0 < unat (s8 * 1000) \<and> unat (s8 * 1000) \<le> 255000"
    using assms comma_ms [OF assms(2)] by (simp add: word_less_nat_alt)
  then show ?thesis by (induction cs arbitrary: pulse) (auto simp: ms_defs)
qed

lemma table_sum:
  assumes "ms_nsteps d \<le> length (ms_steps d)"
  shows "(\<Sum>x < ms_nsteps d. step_len d x) = sum_list (map (\<lambda>e. unat (st_samples e)) (table d))"
  using assms by (simp add: table_def step_len_def sum_list_sum_nth atLeast0LessThan min_def)

text \<open>The whole of a dial program that fits in the table.\<close>

lemma dial_program:
  assumes "length (ms_steps s) = MAX_STEPS" "ms_rate s = 1000 * k" "0 < k" "k \<le> 192"
    and "0 < s8" "s8 < 256" "length number \<le> 63"
    and "b = build_dial number s8 pulse s" "ms_nsteps b < MAX_STEPS"
  shows "\<forall>i < ms_nsteps b. 0 < step_len b i"
    and "(\<Sum>x < ms_nsteps b. step_len b x) = k * unat (modem_sound_dial_ms number s8 pulse)"
    and "\<exists>st m. b = s\<lparr>ms_steps := st, ms_nsteps := m, ms_step := 0, ms_step_t0 := 0\<rparr>"
proof -
  let ?plan = "dial_plan number s8 pulse" and ?s = "s\<lparr>ms_nsteps := 0\<rparr>"
  define a where "a = add_plan ?plan ?s"
  have ok: "table_ok ?s" "table ?s = []" using assms(1) by (simp_all add: table_ok_def table_def)
  have a: "table_ok a" "table a = take MAX_STEPS (map (\<lambda>(k, c, ms). \<lparr>st_kind = k, st_digit = c, st_samples = ms_to_samples ?s ms\<rparr>) ?plan)"
      "\<exists>st m. a = ?s\<lparr>ms_steps := st, ms_nsteps := m\<rparr>"
    using add_plan_table [OF ok(1), of ?plan] unfolding a_def ok(2) by simp_all
  have b: "b = a\<lparr>ms_step := 0, ms_step_t0 := 0\<rparr>" unfolding assms(8) build_dial_plan a_def ..
  have n: "ms_nsteps b = length (table a)" "length (table a) < MAX_STEPS" "ms_steps b = ms_steps a"
    using a(1) assms(9) unfolding b by (simp_all add: table_def table_ok_def)
  have "length ?plan < MAX_STEPS" using n(2) unfolding a(2) by simp
  then have t: "table b = map (\<lambda>(k, c, ms). \<lparr>st_kind = k, st_digit = c, st_samples = ms_to_samples ?s ms\<rparr>) ?plan"
    using a(2) b by (simp add: table_def)
  have range: "\<forall>x \<in> set ?plan. 0 < unat (snd (snd x)) \<and> unat (snd (snd x)) \<le> 255000"
    using plan_range [OF assms(5,6), of number pulse] by (auto simp: dial_plan_def ms_defs)
  have samples: "unat (ms_to_samples ?s ms) = k * unat ms" if "unat ms \<le> 255000" for ms
    using samples_of_ms [of ?s k ms] assms(2,4) that by simp
  have le: "ms_nsteps b \<le> length (ms_steps b)" using a(1) b by (simp add: table_ok_def)
  show "\<forall>i < ms_nsteps b. 0 < step_len b i"
  proof (intro allI impI)
    fix i assume i: "i < ms_nsteps b"
    then have "ms_steps b ! i \<in> set (table b)" using le unfolding table_def by (metis length_take min.absorb2 nth_mem nth_take)
    then show "0 < step_len b i" unfolding t step_len_def using range samples assms(3) by auto
  qed
  have "(\<Sum>x < ms_nsteps b. step_len b x) = (\<Sum>x \<leftarrow> ?plan. k * unat (snd (snd x)))"
    unfolding table_sum [OF le] t map_map
    by (rule arg_cong [where f = sum_list], rule map_cong) (use range samples in \<open>auto simp: case_prod_beta\<close>)
  also have "\<dots> = k * plan_ms ?plan" by (simp add: sum_list_const_mult case_prod_beta')
  also have "plan_ms ?plan = unat (modem_sound_dial_ms number s8 pulse)"
  proof -
    have "plan_ms ?plan \<le> 255000 * 63 + 1400"
      using number_plan_short [OF assms(6), of number pulse] assms(7) by (simp add: dial_plan_def ms_defs)
    then show ?thesis unfolding dial_ms_plan by (simp add: unat_of_nat)
  qed
  finally show "(\<Sum>x < ms_nsteps b. step_len b x) = k * unat (modem_sound_dial_ms number s8 pulse)" .
  show "\<exists>st m. b = s\<lparr>ms_steps := st, ms_nsteps := m, ms_step := 0, ms_step_t0 := 0\<rparr>"
    using a(3) unfolding b by auto
qed

text \<open>The argument of a dial event is S8 and the dial mode.\<close>

lemma dial_arg:
  fixes r :: u8
  shows "(ucast r OR (if pulse then push_bit 8 1 else 0) :: u32) AND 0xFF = ucast r"
    and "bit (ucast r OR (if pulse then push_bit 8 1 else 0) :: u32) 8 = pulse"
proof -
  have ff: "(0xFF :: u32) = mask 8" by (simp add: mask_eq_exp_minus_1)
  have "(256 :: int) = push_bit 8 1" by simp
  then have h: "bit (256 :: int) i \<longleftrightarrow> i = 8" for i by (simp only: bit_push_bit_iff bit_1_iff) auto
  show "(ucast r OR (if pulse then push_bit 8 1 else 0) :: u32) AND 0xFF = ucast r"
    unfolding ff by (rule bit_word_eqI) (auto simp: bit_simps h dest: bit_imp_le_length)
  show "bit (ucast r OR (if pulse then push_bit 8 1 else 0) :: u32) 8 = pulse"
    by (auto simp: bit_simps h dest: bit_imp_le_length)
qed

lemma one_event:
  assumes "length (ms_q s) = EVQ" "ms_q_read s = ms_q_write s"
  shows "take_events (modem_sound_event ty nr arg s) = take_event (modem_sound_event ty nr arg s)"
  using assms by (simp add: take_events_def modem_sound_event_def)

lemma dial_event:
  assumes "mo_line dev = MODEM_LINE_TCP"
  shows "mo_snd (fst (modem_dial net now number (dev, n))) = modem_sound_event MODEM_SOUND_DIAL number
      (ucast (mo_s dev ! 8) OR (if mo_pulse dev then push_bit 8 1 else 0))
      (modem_sound_country (mo_country dev = 16 \<or> mo_country dev = 0xB4) (33600 < mo_connect_rate dev) (mo_snd dev)) \<and>
    mo_answer_at (fst (modem_dial net now number (dev, n))) =
      now + modem_sound_dial_ms number (ucast (mo_s dev ! 8)) (mo_pulse dev) + modem_sound_ring_ms"
proof -
  obtain fd m where c: "plat_netsocket_create net n = (fd, m)" by fastforce
  obtain r m' where "plat_netsocket_connect net fd (mo_host dev) (mo_host_port dev) m = (r, m')" by fastforce
  moreover have "CHAR_FD_VALID fd \<or> \<not> CHAR_FD_VALID fd" "r = 0 \<or> r \<noteq> 0" by simp_all
  ultimately show ?thesis
    unfolding modem_dial_def prod.case by (elim disjE) (simp_all add: assms c Let_def dial_fails_def)
qed

lemma ucast_range:
  fixes r :: u8
  shows "0 < r \<Longrightarrow> 0 < (ucast r :: u32)" "(ucast r :: u32) < 256"
proof -
  have "unat r < 256" using unsigned_less [of r] by simp
  then have "unat (ucast r :: u32) = unat r" by (simp add: unsigned_ucast_eq take_bit_nat_eq_self)
  then show "0 < r \<Longrightarrow> 0 < (ucast r :: u32)" "(ucast r :: u32) < 256"
    using \<open>unat r < 256\<close> by (simp_all add: word_less_nat_alt)
qed

text \<open>What the sound thread finds when a call has been dialled.\<close>

lemma dialled_sound:
  assumes "mo_line dev = MODEM_LINE_TCP" "length number \<le> 63"
    and "length (ms_q (mo_snd dev)) = EVQ" "ms_q_read (mo_snd dev) = ms_q_write (mo_snd dev)"
    and "d = take_events (mo_snd (fst (modem_dial net now number (dev, n))))"
  shows "\<exists>s b. ms_steps s = ms_steps (mo_snd dev) \<and> ms_rate s = ms_rate (mo_snd dev) \<and>
    b = build_dial number (ucast (mo_s dev ! 8)) (mo_pulse dev) s \<and>
    d = b\<lparr>ms_phase := PH_DIAL, ms_t := 0, ms_click := ms_rate s div 150, ms_q_read := ms_q_read b + 1\<rparr>"
proof -
  let ?s8 = "ucast (mo_s dev ! 8) :: u32"
  let ?arg = "?s8 OR (if mo_pulse dev then push_bit 8 1 else 0)"
  obtain uk v90 where snd_is: "mo_snd (fst (modem_dial net now number (dev, n))) =
      modem_sound_event MODEM_SOUND_DIAL number ?arg (modem_sound_country uk v90 (mo_snd dev))"
    using dial_event [OF assms(1), of net now number n] by blast
  define s where "s = modem_sound_event MODEM_SOUND_DIAL number ?arg (modem_sound_country uk v90 (mo_snd dev))"
  have e: "ms_q s ! (unat (ms_q_read s) mod EVQ) = \<lparr>ev_type = MODEM_SOUND_DIAL, ev_arg = ?arg, ev_number = number\<rparr>"
  proof -
    have "unat (ms_q_write (mo_snd dev)) mod EVQ < length (ms_q (mo_snd dev))" using assms(3) by (simp add: EVQ_def)
    then show ?thesis using assms(2,4) by (simp add: s_def modem_sound_event_def modem_sound_country_def)
  qed
  have "d = take_event s"
    using one_event [of "modem_sound_country uk v90 (mo_snd dev)"] assms(3,4) unfolding assms(5) snd_is s_def
    by (simp add: modem_sound_country_def)
  moreover have "ms_steps s = ms_steps (mo_snd dev)" "ms_rate s = ms_rate (mo_snd dev)"
    by (simp_all add: s_def modem_sound_event_def modem_sound_country_def)
  ultimately show ?thesis
    using e by - (rule exI [of _ s], rule exI [of _ "build_dial number ?s8 (mo_pulse dev) s"], simp add: take_event_def dial_arg Let_def)
qed



end
