(* ===== verification/Spec2Isabelle.thy ===== *)
theory Spec2Isabelle
  imports Nibble_Link CDongle_Host HD_Layout PP_Login IButton Image_Boot Funworld_IO Funlink_Bus
    Elo_Config Elo_Nvram Elo_Reports Elo_Coord Dataprint_Paper Dataprint_Link
    Modem_Ident Modem_Settings Modem_Connect Modem_Data Modem_Schedule
begin

text \<open>
  A verification library for PeepeeBox, a fork of the emulator 86Box that runs the
  software of funworld's Photo Play and I.G.O. arcade cabinets. What the fork adds to the
  emulator is the hardware that software will not run without: the protection dongles of
  five generations on the parallel port, on a 1-Wire token and on a serial card reader,
  the coin and button card, the touch controller, the receipt printer, the modem, the adapter that
  joins cabinets, and the code that finds out from a disk image which of all this to
  emulate. The library models that hardware from
  its C sources and proves what the software relies on: that each part answers the
  games' questions as the real one does, over the ports the games use and from any
  state the games can bring it into.

  \<^bold>\<open>The parts and how they meet.\<close>

  The parallel-port dongle, \<open>src/src/device/dongle_photoplay.c\<close>, is one device
  with one state, \<open>pp_t\<close>, in which several tokens listen to the same writes: the
  1999 nibble link, the 2000 token (CDONGLE), the Microwire part of 2001 with the
  session layer around it (password bursts, ramp, sweep and probe reads), and the keyed
  round of the picture cipher. The port calls \<open>pp_write_data\<close>, \<open>pp_write_ctrl\<close>,
  \<open>pp_strobe\<close> and \<open>pp_read_status\<close>; the last decides which of them drives the
  lines. The same file holds the iButton of the cabinet, a 1-Wire slave behind a UART of
  its own. The 2008 generation asks a card in a serial reader,
  \<open>src/src/device/dongle_igo8.c\<close>, whose replies wait in the ring buffer of
  \<open>src/src/utils/fifo8.c\<close>. What the 2001 part and the card hold is built from the
  disk: \<open>src/src/photoplay_ident.c\<close> walks the FAT16 volume to the settings file,
  deciphers it and names the release and the territory, and
  \<open>src/src/photoplay.c\<close> hands the answer to the dongles. The I/O card,
  \<open>src/src/device/funworld_io.c\<close>, presents coins, notes and buttons on an 8255. The
  link between cabinets, \<open>src/src/char/char_funlink.c\<close>, is a serial device that
  repeats bytes over TCP and carries a token of its own. The touch controller,
  \<open>src/src/device/mouse_elo_touchscreen.c\<close>, turns the pointer into reports on a
  serial line, behind a command set with a configuration of its own in NVRAM; it queues
  what it says in a \<open>fifo8\<close>. The receipt printer,
  \<open>src/src/device/prn_cp80.c\<close>, takes reports from another line, checks them and puts
  them on paper. The modem, \<open>src/src/char/char_modem.c\<close>, is a Hayes command set on a
  serial port with a TCP connection for the telephone network; how long a call takes, and
  where in it the speaker is, comes from \<open>src/src/char/modem_sound.c\<close>.

  \<^bold>\<open>Which theory models what.\<close>

  Shared: \<open>Prelude\<close> (machine words, bits of a byte, lists as arrays, the
  collections of facts), \<open>C_Strings\<close> (what the sources use of the C library on
  strings), \<open>Ring_Array\<close> (arrays used as rings), \<open>Net_Socket\<close> (the host's sockets, a
  parameter). The interfaces are locales:
  \<open>Stream_Codec\<close> (a byte cipher that steps a state, interpreted on the keystreams
  of the dongles and, in \<open>LCG_Codec\<close>, on the generator of the settings file and
  the card), \<open>Byte_Source\<close> (a part that owes the host bytes, interpreted on the iButton
  and on the card's serial line),
  \<open>Byte_Queue\<close> (a bounded queue, interpreted on \<open>fifo8\<close>, on the receive
  ring of the link, on the reply queue of the printer and on the modem's ring to its
  terminal), \<open>Packet_Sink\<close> (a queue that takes a packet whole or not at all,
  an extension of the former interpreted on \<open>fifo8\<close>). The word reads of \<open>Microwire\<close> have a locale of their own,
  interpreted on the part alone and, in \<open>PP_Record\<close>, on the whole device.

  \<^item> \<open>Nibble_Link\<close>: \<open>nib\<close> is the part of \<open>pp_t\<close> the 1999 link uses; the
    functions keep their C names (\<open>pp_latch_nibble\<close>, \<open>pp_ack_edge\<close>,
    \<open>pp_host_byte\<close>, \<open>pp_respond\<close>, \<open>pp_type1\<close>). The longest reply is the
    106 bytes of the output buffer.
  \<^item> \<open>Picture_Table\<close>, \<open>CDongle\<close>, \<open>CDongle_Wire\<close>, \<open>CDongle_Query\<close>,
    \<open>CDongle_Host\<close>: \<open>cd_t\<close> and its operations with the measured tables, the wire
    of the host's library, whole transactions, and their answers.
  \<^item> \<open>Microwire\<close>, \<open>HD_Record\<close>, \<open>HD_Layout\<close>: the EEPROM's instruction
    decoder (\<open>hd_write_data\<close>, \<open>hd_execute\<close>), what \<open>hd_load\<close> writes into
    it for each release of \<open>hd_keys\<close>, and the guest's parsers on the other side.
  \<^item> \<open>Session\<close>, \<open>Session_Layer\<close>: the burst collector and classifier
    (\<open>hb_data\<close>, \<open>hs_burst_class\<close>) and the session tail of \<open>pp_read_status\<close>.
  \<^item> \<open>Keyed_Round\<close>: \<open>t_step\<close>, \<open>t_data\<close>, \<open>t_read_query\<close>, and the
    eleven-bit register they implement.
  \<^item> \<open>PP_Port\<close>, \<open>PP_Session\<close>, \<open>PP_Login\<close>, \<open>PP_Record\<close>,
    \<open>PP_Round\<close>: the whole device \<open>pp\<close>, its accesses as a transition system, and
    what the guest's session calls, record reads and cipher rounds get through it, with
    every other token listening.
  \<^item> \<open>IButton\<close>: the CRC, the slave and the UART registers (\<open>ib_*\<close>).
  \<^item> \<open>Fifo8\<close>, \<open>Igo8_Reader\<close>: the ring buffer with its 32-bit counters and
    assertions, and the card reader (\<open>sc_*\<close>) with its codecs and paced replies.
  \<^item> \<open>Disk_Image\<close>, \<open>Image_Ident\<close>, \<open>Image_Boot\<close>: the volume, the settings
    and the release, and the composition with the dongles.
  \<^item> \<open>Funworld_IO\<close>: the card \<open>fwio_t\<close>, its settings from the environment, and the
    running card as a step relation.
  \<^item> \<open>Funlink_Token\<close>, \<open>Funlink\<close>, \<open>Funlink_Line\<close>, \<open>Funlink_Bus\<close>: the
    adapter's token, the device \<open>char_funlink_t\<close>, the guest's serial line, and the bus.
  \<^item> \<open>Elo\<close>, \<open>Elo_Command\<close>, \<open>Elo_Touch\<close>: the controller \<open>mouse_elo_t\<close>, as
    \<open>elo_cfg\<close> (what a host can set) extended by \<open>elo\<close>; its packets and report
    formats; one definition \<open>cmd_*\<close> per case of \<open>elo_process_command\<close>; the byte
    clock, the pointer and the timers as the events of \<open>elo_run\<close>. \<open>Elo_Safe\<close> has
    its invariant, \<open>Elo_Wire\<close> the framing and the answers, \<open>Elo_Config\<close> and
    \<open>Elo_Nvram\<close> the dump and the saved settings, \<open>Elo_Reports\<close> and
    \<open>Elo_Coord\<close> the touches and their coordinates.
  \<^item> \<open>Dataprint\<close>: the printer \<open>cp80_t\<close>, its parser (\<open>cp80_byte\<close>), the check of
    a report (\<open>cp80_transfer\<close>), its replies, and the cursor of the window.
    \<open>Dataprint_Report\<close> has the envelope the menu program wraps a report in and its
    checksum, \<open>Dataprint_Paper\<close> what is printed of it, \<open>Dataprint_Link\<close> the
    reply queue and the printer as a state machine with its invariant.
  \<^item> \<open>Modem_Sound\<close>: the schedule of a call (\<open>modem_sound_dial_ms\<close> and the other
    durations), the event ring, the dial program and the sound handler's place in the call.
    \<open>Modem\<close>: the device \<open>modem_t\<close>, its tables, results and line
    (\<open>modem_dial\<close>, \<open>modem_poll_line\<close>). \<open>Modem_Command\<close>: one definition \<open>exec_*\<close>
    per group of letters of \<open>modem_execute\<close>, the line editor, data mode and the hooks of
    the serial port. \<open>Modem_Output\<close> has the ring to the terminal, \<open>Modem_Safe\<close> the
    modem as a state machine with its invariant, \<open>Modem_Line\<close>, \<open>Modem_Settings\<close> and
    \<open>Modem_Ident\<close> the command lines and their answers, \<open>Modem_Call\<close> and
    \<open>Modem_Connect\<close> the calls, \<open>Modem_Data\<close> the carried call, \<open>Modem_Schedule\<close>
    the time that modem and speaker share.

  \<^bold>\<open>How the model corresponds to the code.\<close>

  A struct is a record with the C field names under a prefix, an enum a datatype, a
  function a definition of its name that takes the state and returns it updated; flags
  are booleans, arrays lists of fixed length whose bounds are part of the component's
  invariant. Bytes and words keep their width. Counters that the invariants bound far
  below their width are natural numbers; those of \<open>fifo8\<close> wrap at 32 bits as
  written. A failed assertion or an access outside an array is \<open>None\<close>, and so is a decimal
  argument of a modem command that overflows C's \<open>int\<close>. The modem reads the clock once for
  each call of a hook, and \<open>long\<close> has 64 bits. Loops are
  recursions; the cluster chain runs on the code's own limit of 65536 passes
  (\<open>GUARD\<close>), which is shown never to be what ends it for caps up to 32 MiB. The
  loops that walk an array downwards (\<open>send_down\<close>, \<open>drain_down\<close>) recurse on
  the index.

  \<^bold>\<open>What the lemmas show.\<close>

  For each token: an invariant of its state that every operation keeps, and the games'
  transactions end to end over the wire, from any state in the invariant and behind any
  interrupted one. For the parallel-port device: which token each access reaches, so
  that the tokens' own theorems lift to it (login, identity, replay check, record reads,
  cipher rounds), and that every reachable state is well-formed. For the disk: that the
  walk ends, finds the first live entry, reads the clusters of the chain in order, and
  that an image which states its release boots on the devices set up from it. For the
  card: that a coin holds its line for its time under any interleaving, and that the
  lines and nothing else move. For the link: that it hands on every byte in order, that
  the host is a hub, that a joining cabinet never leaves its arrays, and that the menus
  find the token. For the touch controller: that no sequence of events trips an
  assertion, that a byte stream is its packets and each is acknowledged once, that
  touches are reported bracketed and with calibrated coordinates the host can read back,
  and that the dump and the NVRAM give back what they were given. For the printer: that a
  report is checked as the menu program sums it and that no damaged byte passes, that the
  lines of a report are on the paper and its envelope is not, and that a reply reaches the
  guest whole. For the modem: that it stays inside its arrays and keeps no socket without a
  call, that every command line is run to its end and answered, that the cabinet recognises
  the model and its init line is understood, that a call into a dead line fails as a real
  one does, that a call goes through and the carrier is never seen before CONNECT has been
  read, that a carried call loses and reorders nothing, and that the speaker plays the
  dialling for just as long as the modem waits. Six theorems are
  about behaviour the code should not have: the card
  reader's reply ring can be overrun by a guest that does not collect
  (\<open>igo8_three_reads_overrun\<close>), a host whose sends to two peers fail in one round
  writes below its array (\<open>host_walks_off_array\<close>), a client whose only send
  fails is stranded (\<open>client_never_rejoins\<close>), a touch controller whose first
  save left out the Setup area powers up mute (\<open>partial_save_powers_up_mute\<close>), a modem
  sends four escape characters in a row as five (\<open>four_escapes_sent_as_five\<close>), and one
  whose ring is full hangs up (\<open>full_ring_drops_call\<close>).

  \<^bold>\<open>Not modelled.\<close>

  Logging, traces and counters that only feed them are left out everywhere, and so is
  the passthrough to a real parallel port. The emulator's timers are the one-shots its
  header documents (holds of at most a second, longer ones being split there), the serial
  port is whether it has room for a byte, the sockets are a parameter, and memory
  allocation succeeds. The 86Box core, that is the processors, chipsets, video, sound,
  disk and network devices, is the emulator the fork is built on, not its own logic; the
  vendored libraries, the front ends and the platform layers are outside the library for
  the same reason. So are the sound of the printer's mechanism, the samples of the modem's speaker
  (oscillators, filters and gains) and the pointer arithmetic
  of the touch controllers before the reading is an integer, which are floating-point
  (for the MicroTouch controller, \<open>mouse_microtouch_touchscreen.c\<close>, that is all of
  its reporting), the configuration profile in
  \<open>photoplay.c\<close> that sets the emulator's own options, and the tools that dump real
  dongles. Writing the touch controller's NVRAM file is taken to succeed.
\<close>

end
